(* ===== verification/Prelude.thy ===== *)
theory Prelude
  imports Main "HOL-Library.Word" "HOL-Library.Sublist"
begin

text \<open>
  Shared vocabulary of the development: the machine integers of Go as the code
  uses them, the byte strings and the operations of Go's standard library package
  \<open>strings\<close> that the program calls, results with an error value, and a few list
  lemmas. Nothing here models a line of the program itself.

  A Go string is a sequence of bytes, here \<^typ>\<open>string\<close> with every \<^typ>\<open>char\<close> one
  byte. \<open>trim_space\<close> is exact on every byte string: Go's white space runes are listed
  by their UTF-8 encodings. \<open>to_lower\<close>, \<open>to_upper\<close> and \<open>equal_fold\<close> are those functions on ASCII
  bytes, and leave every other byte alone.
\<close>

unbundle bit_operations_syntax

named_theorems go_string "byte string operations of the standard library"

subsection \<open>Machine integers\<close>

type_synonym u16 = "16 word"
type_synonym u64 = "64 word"

lemma unat_u64_less: "unat (w :: u64) < 18446744073709551616"
  using unsigned_less [where 'a = nat and 'b = 64] by simp

text \<open>A signed 64-bit integer is an \<^typ>\<open>int\<close> with the wrap-around written out.\<close>

definition wrap64 :: "int \<Rightarrow> int" where
  "wrap64 x = (x + 2 ^ 63) mod 2 ^ 64 - 2 ^ 63"

definition in_int64 :: "int \<Rightarrow> bool" where
  "in_int64 x \<longleftrightarrow> - (2 ^ 63) \<le> x \<and> x < 2 ^ 63"

lemma wrap64_id [simp]: "in_int64 x \<Longrightarrow> wrap64 x = x"
  by (simp add: wrap64_def in_int64_def)

lemma in_int64_wrap64 [simp]: "in_int64 (wrap64 x)"
  by (simp add: wrap64_def in_int64_def)

subsection \<open>White space\<close>

text \<open>The UTF-8 encodings of the runes for which \<open>unicode.IsSpace\<close> holds.\<close>

definition ws_runes :: "string list" where
  "ws_runes =
     [[CHR 0x09], [CHR 0x0A], [CHR 0x0B], [CHR 0x0C], [CHR 0x0D], [CHR 0x20],
      [CHR 0xC2, CHR 0x85], [CHR 0xC2, CHR 0xA0], [CHR 0xE1, CHR 0x9A, CHR 0x80]]
     @ [[CHR 0xE2, CHR 0x80, CHR 0x80], [CHR 0xE2, CHR 0x80, CHR 0x81],
        [CHR 0xE2, CHR 0x80, CHR 0x82], [CHR 0xE2, CHR 0x80, CHR 0x83],
        [CHR 0xE2, CHR 0x80, CHR 0x84], [CHR 0xE2, CHR 0x80, CHR 0x85],
        [CHR 0xE2, CHR 0x80, CHR 0x86], [CHR 0xE2, CHR 0x80, CHR 0x87],
        [CHR 0xE2, CHR 0x80, CHR 0x88], [CHR 0xE2, CHR 0x80, CHR 0x89],
        [CHR 0xE2, CHR 0x80, CHR 0x8A],
        [CHR 0xE2, CHR 0x80, CHR 0xA8], [CHR 0xE2, CHR 0x80, CHR 0xA9],
        [CHR 0xE2, CHR 0x80, CHR 0xAF], [CHR 0xE2, CHR 0x81, CHR 0x9F],
        [CHR 0xE3, CHR 0x80, CHR 0x80]]"

fun is_prefix :: "'a list \<Rightarrow> 'a list \<Rightarrow> bool" where
  "is_prefix [] ys = True"
| "is_prefix (x # xs) [] = False"
| "is_prefix (x # xs) (y # ys) = (x = y \<and> is_prefix xs ys)"

lemma is_prefix_iff [simp]: "is_prefix xs ys \<longleftrightarrow> prefix xs ys"
  by (induction xs ys rule: is_prefix.induct) auto

fun trim_front :: "string list \<Rightarrow> string \<Rightarrow> string" where
  "trim_front ws [] = []"
| "trim_front ws (c # s) =
     (case find (\<lambda>w. w \<noteq> [] \<and> is_prefix w (c # s)) ws of
        None \<Rightarrow> c # s
      | Some w \<Rightarrow> trim_front ws (drop (length w - 1) s))"

definition trim_left :: "string \<Rightarrow> string" where
  "trim_left s = trim_front ws_runes s"

definition trim_right :: "string \<Rightarrow> string" where
  "trim_right s = rev (trim_front (map rev ws_runes) (rev s))"

definition trim_space :: "string \<Rightarrow> string" where
  "trim_space s = trim_right (trim_left s)"

lemmas eval_trim = trim_space_def trim_left_def trim_right_def ws_runes_def

lemma trim_front_suffix: "suffix (trim_front ws s) s"
proof (induction ws s rule: trim_front.induct)
  case (2 ws c s)
  show ?case
  proof (cases "find (\<lambda>w. w \<noteq> [] \<and> is_prefix w (c # s)) ws")
    case (Some w)
    with 2 have "suffix (trim_front ws (drop (length w - 1) s)) (drop (length w - 1) s)"
      by simp
    then have "suffix (trim_front ws (drop (length w - 1) s)) (c # s)"
      by (meson suffix_drop suffix_order.trans suffix_ConsI)
    with Some show ?thesis by simp
  qed simp
qed simp

lemma trim_front_idem: "trim_front ws (trim_front ws s) = trim_front ws s"
proof (induction ws s rule: trim_front.induct)
  case (2 ws c s)
  then show ?case
    by (cases "find (\<lambda>w. w \<noteq> [] \<and> is_prefix w (c # s)) ws") auto
qed simp

lemma length_trim_space_le: "length (trim_space s) \<le> length s"
proof -
  have "length (trim_left s) \<le> length s"
    by (metis trim_left_def trim_front_suffix suffix_length_le)
  moreover have "length (trim_right t) \<le> length t" for t
    by (metis trim_right_def trim_front_suffix suffix_length_le length_rev)
  ultimately show ?thesis
    unfolding trim_space_def by (meson order_trans)
qed

lemma trim_space_Nil [simp, go_string]: "trim_space [] = []"
  by (simp add: trim_space_def trim_left_def trim_right_def)

subsection \<open>Case, searching and splitting\<close>

definition lower_byte :: "char \<Rightarrow> char" where
  "lower_byte c =
     (let n = (of_char c :: nat) in if 65 \<le> n \<and> n \<le> 90 then char_of (n + 32) else c)"

definition to_lower :: "string \<Rightarrow> string" where
  "to_lower s = map lower_byte s"

definition to_upper :: "string \<Rightarrow> string" where
  "to_upper s = map (\<lambda>c. let n = (of_char c :: nat) in if 97 \<le> n \<and> n \<le> 122 then char_of (n - 32) else c) s"

definition equal_fold :: "string \<Rightarrow> string \<Rightarrow> bool" where
  "equal_fold s t \<longleftrightarrow> to_lower s = to_lower t"

lemma lower_byte_idem [simp]: "lower_byte (lower_byte c) = lower_byte c"
  by (simp add: lower_byte_def Let_def)

lemma to_lower_idem [simp, go_string]: "to_lower (to_lower s) = to_lower s"
  by (simp add: to_lower_def)

fun index_of :: "'a \<Rightarrow> 'a list \<Rightarrow> nat option" where
  "index_of x [] = None"
| "index_of x (y # ys) = (if x = y then Some 0 else map_option Suc (index_of x ys))"

lemma index_of_None [simp]: "index_of x ys = None \<longleftrightarrow> x \<notin> set ys"
  by (induction ys) auto

lemma index_of_Some_nth: "index_of x ys = Some i \<Longrightarrow> i < length ys \<and> ys ! i = x"
  by (induction ys arbitrary: i) (auto split: if_splits)

text \<open>\<open>strings.Cut\<close> at one byte: the text before and after its first occurrence.\<close>

fun cut :: "char \<Rightarrow> string \<Rightarrow> (string \<times> string) option" where
  "cut b [] = None"
| "cut b (c # s) =
     (if c = b then Some ([], s) else map_option (\<lambda>(u, v). (c # u, v)) (cut b s))"

lemma cut_eq: "cut b s = Some (u, v) \<Longrightarrow> s = u @ b # v \<and> b \<notin> set u"
  by (induction s arbitrary: u v) (auto split: if_splits)

lemma cut_shorter: "cut b s = Some (u, v) \<Longrightarrow> length v < length s"
  by (auto dest: cut_eq)

lemma cut_None [simp]: "cut b s = None \<longleftrightarrow> b \<notin> set s"
  by (induction s) auto

fun split_on :: "char \<Rightarrow> string \<Rightarrow> string list" where
  "split_on b [] = [[]]"
| "split_on b (c # s) =
     (if c = b then [] # split_on b s
      else case split_on b s of [] \<Rightarrow> [[c]] | w # ws \<Rightarrow> (c # w) # ws)"

lemma split_on_not_Nil [simp]: "split_on b s \<noteq> []"
  by (induction s) (auto split: list.splits)

lemma split_on_append: "split_on b (u @ b # v) = split_on b u @ split_on b v"
proof (induction u)
  case (Cons c u)
  then show ?case by (cases "split_on b u") auto
qed simp

lemma split_on_free: "b \<notin> set u \<Longrightarrow> split_on b u = [u]"
  by (induction u) auto

fun contains_sub :: "string \<Rightarrow> string \<Rightarrow> bool" where
  "contains_sub w [] = (w = [])"
| "contains_sub w (c # s) = (is_prefix w (c # s) \<or> contains_sub w s)"

definition has_prefix :: "string \<Rightarrow> string \<Rightarrow> bool" where
  "has_prefix s p = is_prefix p s"

definition has_suffix :: "string \<Rightarrow> string \<Rightarrow> bool" where
  "has_suffix s p = is_prefix (rev p) (rev s)"

lemma contains_sub_iff: "contains_sub w s \<longleftrightarrow> sublist w s"
proof (induction s)
  case (Cons c s)
  then show ?case
    by (auto simp: sublist_Cons_right)
qed auto

text \<open>\<open>strings.Join\<close>.\<close>

fun join_with :: "string \<Rightarrow> string list \<Rightarrow> string" where
  "join_with sep [] = []"
| "join_with sep [s] = s"
| "join_with sep (s # t # ss) = s @ sep @ join_with sep (t # ss)"

text \<open>\<open>utf8.RuneCountInString\<close> on a text in UTF-8: every byte but the continuation bytes starts a rune.\<close>

definition rune_count :: "string \<Rightarrow> nat" where
  "rune_count s = length (filter (\<lambda>c. (of_char c :: nat) < 128 \<or> 192 \<le> (of_char c :: nat)) s)"

subsection \<open>Decimal integers\<close>

definition is_digit :: "char \<Rightarrow> bool" where
  "is_digit c \<longleftrightarrow> 48 \<le> (of_char c :: nat) \<and> (of_char c :: nat) \<le> 57"

definition digit_val :: "char \<Rightarrow> nat" where
  "digit_val c = of_char c - 48"

definition dec_val :: "string \<Rightarrow> nat" where
  "dec_val s = foldl (\<lambda>n c. 10 * n + digit_val c) 0 s"

text \<open>\<open>strconv.Atoi\<close>: an optional sign, at least one digit, and a value of 64 bits.\<close>

definition atoi :: "string \<Rightarrow> int option" where
  "atoi s =
     (let (neg, ds) = (case s of c # t \<Rightarrow> if c = CHR ''-'' then (True, t)
                                 else if c = CHR ''+'' then (False, t) else (False, s)
                       | [] \<Rightarrow> (False, []));
          v = (if neg then - int (dec_val ds) else int (dec_val ds))
      in if ds = [] \<or> \<not> list_all is_digit ds \<or> \<not> in_int64 v then None else Some v)"

subsection \<open>Lists\<close>

lemma sorted_wrt_upt_map: "(\<And>i j. i < j \<Longrightarrow> j < n \<Longrightarrow> R (f i) (f j)) \<Longrightarrow> sorted_wrt R (map f [0 ..< n])"
  by (simp add: sorted_wrt_iff_nth_less)

lemma take_Suc_Cons_if: "take n (x # xs) = (if n = 0 then [] else x # take (n - 1) xs)"
  by (cases n) auto

end
