(* ===== verification/FileSort.thy ===== *)
theory FileSort
  imports Prelude "HOL-Library.Multiset" "HOL-Library.List_Lexorder" "HOL-Library.Char_ord"
begin

text \<open>
  Sorting a text file, \<open>internal/core/fileutil/sort.go\<close>: in memory, or as an external
  merge sort over sorted chunks. A file is its content, and strings are ordered as Go
  orders them, byte by byte (\<open>List_Lexorder\<close>). A scanner is the list of lines it still
  delivers; it stops at a line that does not fit its buffer. The priority queue is a list
  from which a least line is taken: the code compares items by their line only, so ties
  do not show in the output.
\<close>

subsection \<open>Lines\<close>

abbreviation NL :: char where
  "NL \<equiv> CHR 0x0A"

abbreviation CR :: char where
  "CR \<equiv> CHR 0x0D"

definition unlines :: "string list \<Rightarrow> string" where
  "unlines ls = concat (map (\<lambda>l. l @ [NL]) ls)"

definition trim_right_nl :: "string \<Rightarrow> string" where
  "trim_right_nl s = rev (dropWhile (\<lambda>c. c = NL) (rev s))"

text \<open>The lines of \<open>bufio.ScanLines\<close>: a final line break ends a line, one CR before it is dropped.\<close>

definition drop_cr :: "string \<Rightarrow> string" where
  "drop_cr l = (if l \<noteq> [] \<and> last l = CR then butlast l else l)"

definition text_lines :: "string \<Rightarrow> string list" where
  "text_lines s = (let ws = split_on NL s in if last ws = [] then butlast ws else ws)"

fun scan_lines :: "nat \<Rightarrow> string list \<Rightarrow> string list \<times> bool" where
  "scan_lines limit [] = ([], False)"
| "scan_lines limit (l # ls) =
     (if limit \<le> length l then ([], True)
      else let (rest, err) = scan_lines limit ls in (drop_cr l # rest, err))"

subsection \<open>The two strategies\<close>

datatype sort_err = SortCancelled | ScanTooLong

definition inMemoryThreshold :: nat where
  "inMemoryThreshold = 100 * 1024 * 1024"

definition defaultChunkLines :: nat where
  "defaultChunkLines = 100000"

definition scanBuffer :: nat where
  "scanBuffer = 10 * 1024 * 1024"

definition mergeBuffer :: nat where
  "mergeBuffer = 64 * 1024"

definition sortInMemory :: "string \<Rightarrow> string" where
  "sortInMemory content = unlines (sort (split_on NL (trim_right_nl content)))"

fun chunks_of :: "nat \<Rightarrow> string list \<Rightarrow> string list list" where
  "chunks_of n [] = []"
| "chunks_of n (l # ls) =
     (if n = 0 then [l # ls] else take n (l # ls) # chunks_of n (drop (n - 1) ls))"

definition writeSortedChunk :: "string list \<Rightarrow> string" where
  "writeSortedChunk ls = unlines (sort ls)"

definition splitAndSort :: "string \<Rightarrow> sort_err + string list" where
  "splitAndSort content =
     (case scan_lines scanBuffer (text_lines content) of
        (ls, True) \<Rightarrow> Inl ScanTooLong
      | (ls, False) \<Rightarrow> Inr (map writeSortedChunk (chunks_of defaultChunkLines ls)))"

type_synonym item = "string \<times> nat"

text \<open>The readers of the chunks, and a push of the next line of one of them.\<close>

definition advance :: "nat \<Rightarrow> item list \<times> string list list \<Rightarrow> item list \<times> string list list" where
  "advance i hr =
     (case hr of (h, rs) \<Rightarrow>
        (case rs ! i of [] \<Rightarrow> (h, rs) | l # ls \<Rightarrow> ((l, i) # h, rs[i := ls])))"

fun least_item :: "item \<Rightarrow> item list \<Rightarrow> item" where
  "least_item x [] = x"
| "least_item x (y # ys) = least_item (if fst y < fst x then y else x) ys"

definition pop_min :: "item list \<Rightarrow> item \<times> item list" where
  "pop_min h = (let x = least_item (hd h) (tl h) in (x, remove1 x h))"

definition pending :: "item list \<times> string list list \<Rightarrow> string multiset" where
  "pending hr = mset (map fst (fst hr)) + mset (concat (snd hr))"

lemma least_item_in: "least_item x ys \<in> insert x (set ys)"
  by (induction x ys rule: least_item.induct) auto

lemma least_item_le: "\<forall>y \<in> insert x (set ys). fst (least_item x ys) \<le> fst y"
  by (induction x ys rule: least_item.induct) (auto split: if_splits)

lemma pop_min_in:
  assumes "h \<noteq> []"
  shows "fst (pop_min h) \<in> set h" and "\<forall>y \<in> set h. fst (fst (pop_min h)) \<le> fst y"
    and "snd (pop_min h) = remove1 (fst (pop_min h)) h"
proof -
  obtain x ys where h: "h = x # ys" using assms by (cases h) auto
  show "fst (pop_min h) \<in> set h" "\<forall>y \<in> set h. fst (fst (pop_min h)) \<le> fst y"
    "snd (pop_min h) = remove1 (fst (pop_min h)) h"
    using least_item_in [of x ys] least_item_le [of x ys] by (auto simp: h pop_min_def Let_def)
qed

lemma mset_concat_update:
  "i < length rs \<Longrightarrow> rs ! i = l # ls \<Longrightarrow> mset (concat (rs[i := ls])) + {#l#} = mset (concat rs)"
proof (induction rs arbitrary: i)
  case (Cons r rs)
  then show ?case by (cases i) (auto simp: add.assoc)
qed simp

definition items_ok :: "item list \<times> string list list \<Rightarrow> bool" where
  "items_ok hr \<longleftrightarrow> (\<forall>y \<in> set (fst hr). snd y < length (snd hr))"

lemma pending_advance: "i < length rs \<Longrightarrow> pending (advance i (h, rs)) = pending (h, rs)"
  using mset_concat_update [of i rs]
  by (auto simp: pending_def advance_def split: list.splits)

lemma pending_pop:
  assumes "h \<noteq> []"
  shows "add_mset (fst (fst (pop_min h))) (pending (snd (pop_min h), rs)) = pending (h, rs)"
proof -
  have "mset h = add_mset (fst (pop_min h)) (mset (snd (pop_min h)))"
    using pop_min_in [OF assms] by simp
  then have "image_mset fst (mset h)
      = add_mset (fst (fst (pop_min h))) (image_mset fst (mset (snd (pop_min h))))"
    by simp
  then show ?thesis by (simp add: pending_def)
qed

lemma advance_lengths: "length (snd (advance i hr)) = length (snd hr)"
  by (cases hr) (auto simp: advance_def split: list.splits)

lemma items_ok_advance: "items_ok hr \<Longrightarrow> i < length (snd hr) \<Longrightarrow> items_ok (advance i hr)"
  by (cases hr) (auto simp: items_ok_def advance_def split: list.splits)

lemma items_ok_pop: "h \<noteq> [] \<Longrightarrow> items_ok (h, rs) \<Longrightarrow> items_ok (snd (pop_min h), rs)"
  using pop_min_in [of h] by (auto simp: items_ok_def dest: notin_set_remove1)

text \<open>
  The merge loop; \<open>cancel n\<close> is what the context says before the \<open>n\<close>-th line is written.
  An item of the heap names one of the readers, which the loop keeps true.
\<close>

function merge_loop ::
  "(nat \<Rightarrow> bool) \<Rightarrow> item list \<times> string list list \<Rightarrow> string list \<Rightarrow> sort_err + string list" where
  "merge_loop cancel hr out =
     (if fst hr = [] then Inr out
      else if cancel (length out) then Inl SortCancelled
      else let (x, h) = pop_min (fst hr)
           in if snd x < length (snd hr)
              then merge_loop cancel (advance (snd x) (h, snd hr)) (out @ [fst x])
              else merge_loop cancel (h, snd hr) (out @ [fst x]))"
  by pat_completeness auto
termination
proof (relation "measure (\<lambda>(cancel, hr, out). size (pending hr))", goal_cases)
  case (2 cancel hr out y x h)
  have "pop_min (fst hr) = (x, h)" using 2 by simp
  with pending_pop [OF 2(1), of "snd hr"] have "size (pending hr) = Suc (size (pending (h, snd hr)))"
    by (metis fst_conv snd_conv prod.collapse size_add_mset)
  with 2 show ?case by (simp add: pending_advance)
next
  case (3 cancel hr out y x h)
  have "pop_min (fst hr) = (x, h)" using 3 by simp
  with pending_pop [OF 3(1), of "snd hr"] have "size (pending hr) = Suc (size (pending (h, snd hr)))"
    by (metis fst_conv snd_conv prod.collapse size_add_mset)
  then show ?case by simp
qed simp

declare merge_loop.simps [simp del]

definition chunk_reader :: "string \<Rightarrow> string list" where
  "chunk_reader chunk = fst (scan_lines mergeBuffer (text_lines chunk))"

definition mergeChunks :: "(nat \<Rightarrow> bool) \<Rightarrow> string list \<Rightarrow> sort_err + string" where
  "mergeChunks cancel chunks =
     (let readers = map chunk_reader chunks;
          start = fold advance [0 ..< length chunks] ([], readers)
      in map_sum id unlines (merge_loop cancel start []))"

definition sortExternal :: "(nat \<Rightarrow> bool) \<Rightarrow> string \<Rightarrow> sort_err + string" where
  "sortExternal cancel content =
     (case splitAndSort content of Inl e \<Rightarrow> Inl e | Inr chunks \<Rightarrow> mergeChunks cancel chunks)"

definition SortFile :: "(nat \<Rightarrow> bool) \<Rightarrow> string \<Rightarrow> sort_err + string" where
  "SortFile cancel content =
     (if length content \<le> inMemoryThreshold then Inr (sortInMemory content)
      else sortExternal cancel content)"

subsection \<open>The merge\<close>

text \<open>
  The readers are sorted, an item bounds what its reader still delivers, and every reader
  that is not exhausted has an item in the heap.
\<close>

definition items_bound :: "item list \<times> string list list \<Rightarrow> bool" where
  "items_bound hr \<longleftrightarrow>
     (\<forall>r \<in> set (snd hr). sorted r)
     \<and> (\<forall>(l, i) \<in> set (fst hr). i < length (snd hr) \<and> (\<forall>x \<in> set (snd hr ! i). l \<le> x))"

definition covered :: "nat \<Rightarrow> item list \<times> string list list \<Rightarrow> bool" where
  "covered i hr \<longleftrightarrow> snd hr ! i = [] \<or> (\<exists>l. (l, i) \<in> set (fst hr))"

lemma items_bound_advance:
  assumes "items_bound hr" and "i < length (snd hr)"
  shows "items_bound (advance i hr)"
proof (cases "snd hr ! i")
  case (Cons l ls)
  obtain h rs where hr: "hr = (h, rs)" by (cases hr)
  have "sorted (l # ls)" using assms Cons by (metis items_bound_def nth_mem)
  then have ls: "sorted ls" "\<forall>x \<in> set ls. l \<le> x" by auto
  have rest: "\<forall>r \<in> set (rs[i := ls]). sorted r"
    using assms(1) ls(1) set_update_subset_insert [of rs i ls] by (auto simp: hr items_bound_def)
  have old: "\<forall>x \<in> set (rs[i := ls] ! j). m \<le> x" if "(m, j) \<in> set h" for m j
    using assms that Cons by (cases "j = i") (fastforce simp: hr items_bound_def)+
  have bnd: "\<forall>(m, j) \<in> set h. j < length rs" using assms(1) by (auto simp: hr items_bound_def)
  show ?thesis
    using rest old bnd ls(2) assms(2) Cons by (auto simp: hr advance_def items_bound_def)
qed (use assms in \<open>auto simp: advance_def items_bound_def split: prod.splits\<close>)

lemma covered_advance:
  assumes "i < length (snd hr)" and "j = i \<or> covered j hr"
  shows "covered j (advance i hr)"
  using assms by (cases hr; cases "snd hr ! i"; cases "j = i") (auto simp: covered_def advance_def)

lemma items_bound_pop: "h \<noteq> [] \<Longrightarrow> items_bound (h, rs) \<Longrightarrow> items_bound (snd (pop_min h), rs)"
  using pop_min_in(3) [of h] set_remove1_subset [of "fst (pop_min h)" h]
  by (simp add: items_bound_def) blast

lemma covered_pop:
  "h \<noteq> [] \<Longrightarrow> covered j (h, rs) \<Longrightarrow> j \<noteq> snd (fst (pop_min h)) \<Longrightarrow> covered j (snd (pop_min h), rs)"
proof -
  assume h: "h \<noteq> []" and c: "covered j (h, rs)" and ne: "j \<noteq> snd (fst (pop_min h))"
  have "(l, j) \<in> set (snd (pop_min h))" if "(l, j) \<in> set h" for l
  proof -
    have "(l, j) \<noteq> fst (pop_min h)" using ne by (metis snd_conv)
    with that show ?thesis unfolding pop_min_in(3) [OF h] by simp
  qed
  with c show ?thesis by (auto simp: covered_def)
qed

lemma least_pending:
  assumes "h \<noteq> []" and "items_bound (h, rs)" and "\<forall>j < length rs. covered j (h, rs)"
    and "y \<in># pending (h, rs)"
  shows "fst (fst (pop_min h)) \<le> y"
proof -
  note le = pop_min_in(2) [OF assms(1)]
  from assms(4) consider "y \<in> fst ` set h" | r where "r \<in> set rs" "y \<in> set r"
    by (auto simp: pending_def)
  then show ?thesis
  proof cases
    case 1
    with le show ?thesis by auto
  next
    case 2
    then obtain j where j: "j < length rs" "y \<in> set (rs ! j)" by (metis in_set_conv_nth)
    with assms(3) obtain l where l: "(l, j) \<in> set h" by (auto simp: covered_def)
    with assms(2) j have "l \<le> y" by (auto simp: items_bound_def)
    with le l show ?thesis by fastforce
  qed
qed

lemma merge_loop_sorts:
  assumes "cancel = (\<lambda>_. False)" and "items_bound hr" and "\<forall>j < length (snd hr). covered j hr"
    and "sorted out" and "\<forall>x \<in> set out. \<forall>y \<in># pending hr. x \<le> y"
  shows "\<exists>res. merge_loop cancel hr out = Inr res \<and> sorted res \<and> mset res = mset out + pending hr"
  using assms
proof (induction cancel hr out rule: merge_loop.induct)
  case (1 cancel hr out)
  obtain h rs where hr: "hr = (h, rs)" by (cases hr)
  show ?case
  proof (cases "h = []")
    case True
    have "rs ! j = []" if "j < length rs" for j using 1(5) that True by (simp add: hr covered_def)
    then have "concat rs = []" by (metis concat_eq_Nil_conv in_set_conv_nth)
    with True 1(6) show ?thesis
      by (subst merge_loop.simps) (simp add: hr pending_def)
  next
    case False
    obtain x h' where pm: "pop_min h = (x, h')" by (cases "pop_min h")
    have xin: "x \<in> set h" using pop_min_in(1) [OF False] pm by simp
    then have i: "snd x < length rs" using 1(4) by (auto simp: hr items_bound_def)
    let ?hr = "advance (snd x) (h', rs)"
    have eq: "merge_loop cancel hr out = merge_loop cancel ?hr (out @ [fst x])"
      using False 1(3) pm i by (subst merge_loop.simps) (simp add: hr)
    have pend: "add_mset (fst x) (pending ?hr) = pending hr"
      using pending_pop [OF False, of rs] pm pending_advance [OF i, of h'] by (simp add: hr)
    have bound: "items_bound ?hr"
      using items_bound_advance [of "(h', rs)"] items_bound_pop [OF False, of rs] pm i 1(4)
      by (simp add: hr)
    have cov: "\<forall>j < length (snd ?hr). covered j ?hr"
      using covered_advance [of "snd x" "(h', rs)"] covered_pop [OF False, of _ rs] pm i 1(5)
      by (auto simp: hr advance_lengths)
    have least: "\<forall>y \<in># pending hr. fst x \<le> y"
      using least_pending [OF False, of rs] 1(4,5) pm by (simp add: hr)
    have outs: "sorted (out @ [fst x])"
      using 1(6,7) pend by (auto simp: sorted_append) (metis union_single_eq_member)
    have outle: "\<forall>a \<in> set (out @ [fst x]). \<forall>y \<in># pending ?hr. a \<le> y"
      using 1(7) least by (auto simp flip: pend)
    have "\<exists>res. merge_loop cancel ?hr (out @ [fst x]) = Inr res \<and> sorted res
        \<and> mset res = mset (out @ [fst x]) + pending ?hr"
      using 1(1) [of "(x, h')" x h'] False 1(3) pm i bound cov outs outle by (simp add: hr)
    with eq show ?thesis by (simp add: pend [symmetric])
  qed
qed


subsection \<open>Both strategies write the same file\<close>

lemma split_on_unlines: "\<forall>l \<in> set ls. NL \<notin> set l \<Longrightarrow> split_on NL (unlines ls) = ls @ [[]]"
  by (induction ls) (auto simp: unlines_def split_on_append split_on_free)

lemma text_lines_unlines: "\<forall>l \<in> set ls. NL \<notin> set l \<Longrightarrow> text_lines (unlines ls) = ls"
  by (simp add: text_lines_def split_on_unlines)

definition short_line :: "nat \<Rightarrow> string \<Rightarrow> bool" where
  "short_line limit l \<longleftrightarrow> NL \<notin> set l \<and> (l = [] \<or> last l \<noteq> CR) \<and> length l < limit"

lemma scan_lines_short: "\<forall>l \<in> set ls. short_line limit l \<Longrightarrow> scan_lines limit ls = (ls, False)"
  by (induction ls) (auto simp: short_line_def drop_cr_def)

lemma short_line_weaken: "short_line m l \<Longrightarrow> m \<le> n \<Longrightarrow> short_line n l"
  by (simp add: short_line_def)

lemma chunk_reader_sorted:
  "\<forall>l \<in> set ls. short_line mergeBuffer l \<Longrightarrow> chunk_reader (writeSortedChunk ls) = sort ls"
  by (simp add: chunk_reader_def writeSortedChunk_def text_lines_unlines scan_lines_short
      short_line_def)

lemma concat_chunks_of: "concat (chunks_of n ls) = ls"
proof (induction n ls rule: chunks_of.induct)
  case (2 n l ls)
  then show ?case by (cases n) auto
qed simp

lemma start_inv:
  assumes "\<forall>r \<in> set readers. sorted r" and "n \<le> length readers"
  shows "items_bound (fold advance [0 ..< n] ([], readers))
         \<and> (\<forall>j < n. covered j (fold advance [0 ..< n] ([], readers)))
         \<and> length (snd (fold advance [0 ..< n] ([], readers))) = length readers
         \<and> pending (fold advance [0 ..< n] ([], readers)) = mset (concat readers)"
  using assms(2)
proof (induction n)
  case 0
  then show ?case using assms(1) by (simp add: items_bound_def pending_def)
next
  case (Suc n)
  let ?hr = "fold advance [0 ..< n] ([], readers)"
  have IH: "items_bound ?hr" "\<forall>j < n. covered j ?hr" "length (snd ?hr) = length readers"
      "pending ?hr = mset (concat readers)"
    using Suc by auto
  have n: "n < length (snd ?hr)" using Suc.prems IH(3) by simp
  have "pending (advance n ?hr) = pending ?hr"
    using pending_advance [of n "snd ?hr" "fst ?hr"] n by simp
  with IH items_bound_advance [OF IH(1) n] covered_advance [OF n] show ?case
    by (auto simp: advance_lengths less_Suc_eq)
qed

lemma mergeChunks_sorts:
  assumes "\<forall>r \<in> set (map chunk_reader chunks). sorted r"
  shows "mergeChunks (\<lambda>_. False) chunks = Inr (unlines (sort (concat (map chunk_reader chunks))))"
proof -
  let ?rs = "map chunk_reader chunks"
  let ?hr = "fold advance [0 ..< length ?rs] ([], ?rs)"
  note inv = start_inv [OF assms order_refl]
  obtain res where res: "merge_loop (\<lambda>_. False) ?hr [] = Inr res" "sorted res"
      "mset res = mset (concat ?rs)"
    using merge_loop_sorts [of "\<lambda>_. False" ?hr "[]"] inv by auto
  have "sort (concat ?rs) = res" by (rule properties_for_sort [OF res(3,2)])
  with res(1) show ?thesis by (simp add: mergeChunks_def)
qed

lemma sortExternal_lines:
  assumes "\<forall>l \<in> set ls. short_line mergeBuffer l"
  shows "sortExternal (\<lambda>_. False) (unlines ls) = Inr (unlines (sort ls))"
proof -
  have big: "\<forall>l \<in> set ls. short_line scanBuffer l"
    using assms short_line_weaken by (fastforce simp: scanBuffer_def mergeBuffer_def)
  let ?cs = "chunks_of defaultChunkLines ls"
  have split: "splitAndSort (unlines ls) = Inr (map writeSortedChunk ?cs)"
    using scan_lines_short [OF big] big
    by (simp add: splitAndSort_def text_lines_unlines short_line_def)
  have readers: "map chunk_reader (map writeSortedChunk ?cs) = map sort ?cs"
  proof (simp, intro ballI)
    fix c assume c: "c \<in> set ?cs"
    have "set c \<subseteq> set ls" using c concat_chunks_of [of defaultChunkLines ls]
      by (metis UN_upper set_concat)
    with assms show "chunk_reader (writeSortedChunk c) = sort c"
      by (intro chunk_reader_sorted) auto
  qed
  have "mset (concat (map sort cs)) = mset (concat cs)" for cs :: "string list list"
    by (induction cs) auto
  then have "sort (concat (map sort ?cs)) = sort ls"
    by (metis concat_chunks_of properties_for_sort sorted_sort mset_sort)
  with split mergeChunks_sorts [of "map writeSortedChunk ?cs"] readers show ?thesis
    by (simp add: sortExternal_def del: map_map)
qed

lemma trim_right_nl_id: "s = [] \<or> last s \<noteq> NL \<Longrightarrow> trim_right_nl (s @ [NL]) = s"
  by (cases s rule: rev_cases) (auto simp: trim_right_nl_def)

lemma sortInMemory_lines:
  assumes "\<forall>l \<in> set ls. NL \<notin> set l" and "ls \<noteq> []" and "last ls \<noteq> []"
  shows "sortInMemory (unlines ls) = unlines (sort ls)"
proof -
  obtain ks l where ls: "ls = ks @ [l]" using assms(2) by (cases ls rule: rev_cases) auto
  have u: "unlines ls = (unlines ks @ l) @ [NL]" by (simp add: ls unlines_def)
  have "last (unlines ks @ l) \<noteq> NL" using assms by (simp add: ls) (metis last_in_set)
  then have t: "trim_right_nl (unlines ls) = unlines ks @ l"
    unfolding u by (rule trim_right_nl_id [OF disjI2])
  have "split_on NL (unlines ks @ l) = ls"
  proof (cases ks rule: rev_cases)
    case Nil
    then show ?thesis using assms(1) by (simp add: ls unlines_def split_on_free)
  next
    case (snoc js k)
    have "split_on NL (unlines ls) = split_on NL (unlines ks @ l) @ [[]]"
      using split_on_append [of NL "unlines ks @ l" "[]"] by (simp add: u)
    with split_on_unlines [OF assms(1)] show ?thesis by simp
  qed
  with t show ?thesis by (simp add: sortInMemory_def)
qed



text \<open>The external sort can lose a whole file without an error: the merge reads the
  chunks with a scanner of 64 KiB and ignores its error, while the split accepts lines of
  10 MiB. A file of long lines above the in-memory threshold is sorted into an empty one.\<close>

theorem SortFile_loses_long_lines:
  "\<exists>content. inMemoryThreshold < length content
             \<and> SortFile (\<lambda>_. False) content = Inr []"
proof -
  define l where "l = replicate 65536 (CHR ''a'')"
  define ls where "ls = replicate 1601 l"
  have len: "length l = 65536" and nl: "NL \<notin> set l" "l \<noteq> []" "last l \<noteq> CR"
    by (simp_all add: l_def last_replicate)
  have size: "length (unlines (replicate n l)) = n * 65537" for n
    by (induction n) (simp_all add: unlines_def len)
  have big: "inMemoryThreshold < length (unlines ls)"
    by (simp add: ls_def size inMemoryThreshold_def)
  have lines: "\<forall>k \<in> set ls. NL \<notin> set k" by (simp add: ls_def nl)
  have short: "scan_lines scanBuffer ls = (ls, False)"
    by (rule scan_lines_short) (simp add: ls_def short_line_def nl len scanBuffer_def)
  have "replicate (Suc 1600) l = l # replicate 1600 l" by (rule replicate_Suc)
  then have ls_Cons: "ls = l # replicate 1600 l" by (simp add: ls_def)
  have one: "chunks_of defaultChunkLines ls = [ls]"
    by (simp add: ls_Cons defaultChunkLines_def)
  have "sort (replicate n l) = replicate n l" for n
    by (simp add: sorted_sort_id sorted_replicate)
  then have sorted: "sort ls = ls" by (simp add: ls_def)
  have "scan_lines mergeBuffer ls = ([], True)"
    by (simp add: ls_Cons len mergeBuffer_def)
  then have reader: "chunk_reader (writeSortedChunk ls) = []"
    by (simp add: chunk_reader_def writeSortedChunk_def sorted text_lines_unlines lines)
  have "mergeChunks (\<lambda>_. False) [writeSortedChunk ls] = Inr []"
    using mergeChunks_sorts [of "[writeSortedChunk ls]"] by (simp add: reader unlines_def)
  then have "sortExternal (\<lambda>_. False) (unlines ls) = Inr []"
    by (simp add: sortExternal_def splitAndSort_def text_lines_unlines lines short one)
  with big show ?thesis by (intro exI [of _ "unlines ls"]) (simp add: SortFile_def)
qed

end
