(* ===== verification/NetAddr.thy ===== *)
theory NetAddr
  imports Prelude
begin

text \<open>
  The part of Go's standard library package \<open>net/netip\<close> that the program uses: parsing of
  addresses and prefixes, masking, membership, the next address and the text form. A zone
  of an IPv6 address is checked and dropped, as \<open>PrefixFrom\<close> drops it. The zero \<open>Addr\<close>
  and parse errors are \<open>None\<close>. Nothing here models a line of the program itself.
\<close>

datatype addr = V4 "32 word" | V6 "128 word"

datatype prefix = Prefix (paddr: addr) (pbits: nat)

fun bit_len :: "addr \<Rightarrow> nat" where
  "bit_len (V4 w) = 32"
| "bit_len (V6 w) = 128"

fun is6 :: "addr \<Rightarrow> bool" where
  "is6 (V4 w) = False"
| "is6 (V6 w) = True"

definition host_bits :: "prefix \<Rightarrow> nat" where
  "host_bits p = bit_len (paddr p) - pbits p"

definition valid_prefix :: "prefix \<Rightarrow> bool" where
  "valid_prefix p \<longleftrightarrow> pbits p \<le> bit_len (paddr p)"

fun mask_addr :: "nat \<Rightarrow> addr \<Rightarrow> addr" where
  "mask_addr h (V4 w) = V4 (w AND NOT (mask h))"
| "mask_addr h (V6 w) = V6 (w AND NOT (mask h))"

definition masked :: "prefix \<Rightarrow> prefix" where
  "masked p = Prefix (mask_addr (host_bits p) (paddr p)) (pbits p)"

fun contains :: "prefix \<Rightarrow> addr \<Rightarrow> bool" where
  "contains (Prefix (V4 a) b) (V4 x) = (drop_bit (32 - b) (a XOR x) = 0)"
| "contains (Prefix (V6 a) b) (V6 x) = (drop_bit (128 - b) (a XOR x) = 0)"
| "contains _ _ = False"

fun next_addr :: "addr \<Rightarrow> addr option" where
  "next_addr (V4 w) = (if w + 1 = 0 then None else Some (V4 (w + 1)))"
| "next_addr (V6 w) = (if w + 1 = 0 then None else Some (V6 (w + 1)))"

text \<open>The value of an address, and the address of its family with a given value.\<close>

fun addr_val :: "addr \<Rightarrow> nat" where
  "addr_val (V4 w) = unat w"
| "addr_val (V6 w) = unat w"

fun addr_plus :: "addr \<Rightarrow> nat \<Rightarrow> addr" where
  "addr_plus (V4 w) i = V4 (w + of_nat i)"
| "addr_plus (V6 w) i = V6 (w + of_nat i)"

text \<open>\<open>As16\<close> and \<open>AddrFrom16(...).Unmap()\<close> as 128-bit values.\<close>

definition mapped_base :: "128 word" where
  "mapped_base = 0xFFFF00000000"

fun as16 :: "addr \<Rightarrow> 128 word" where
  "as16 (V4 w) = mapped_base + ucast w"
| "as16 (V6 w) = w"

definition unmap16 :: "128 word \<Rightarrow> addr" where
  "unmap16 w = (if drop_bit 32 w = 0xFFFF then V4 (ucast w) else V6 w)"

definition is_4in6 :: "addr \<Rightarrow> bool" where
  "is_4in6 a = (case a of V4 w \<Rightarrow> False | V6 w \<Rightarrow> drop_bit 32 w = 0xFFFF)"

subsection \<open>Parsing\<close>

text \<open>An octet: one to three digits, no leading zero, at most 255.\<close>

definition parse_octet :: "string \<Rightarrow> nat option" where
  "parse_octet s =
     (if s = [] \<or> \<not> list_all is_digit s \<or> (1 < length s \<and> hd s = CHR ''0'') \<or> 255 < dec_val s
      then None else Some (dec_val s))"

fun opt_map :: "('a \<Rightarrow> 'b option) \<Rightarrow> 'a list \<Rightarrow> 'b list option" where
  "opt_map f [] = Some []"
| "opt_map f (x # xs) =
     (case f x of None \<Rightarrow> None | Some y \<Rightarrow> map_option ((#) y) (opt_map f xs))"

definition parse_v4_fields :: "string \<Rightarrow> nat list option" where
  "parse_v4_fields s =
     (let ws = split_on (CHR ''.'') s in if length ws = 4 then opt_map parse_octet ws else None)"

definition bytes_val :: "nat list \<Rightarrow> nat" where
  "bytes_val bs = foldl (\<lambda>n b. 256 * n + b) 0 bs"

definition hex_val :: "char \<Rightarrow> nat option" where
  "hex_val c =
     (let n = (of_char c :: nat)
      in if 48 \<le> n \<and> n \<le> 57 then Some (n - 48)
         else if 97 \<le> n \<and> n \<le> 102 then Some (n - 87)
         else if 65 \<le> n \<and> n \<le> 70 then Some (n - 55)
         else None)"

definition is_hex :: "char \<Rightarrow> bool" where
  "is_hex c \<longleftrightarrow> hex_val c \<noteq> None"

definition hex_num :: "string \<Rightarrow> nat" where
  "hex_num s = foldl (\<lambda>n c. 16 * n + (case hex_val c of None \<Rightarrow> 0 | Some v \<Rightarrow> v)) 0 s"

text \<open>The loop of \<open>parseIPv6\<close>: bytes so far, position of the ellipsis, text left.\<close>

function v6_loop :: "nat list \<Rightarrow> nat option \<Rightarrow> string \<Rightarrow> (nat list \<times> nat option \<times> string) option" where
  "v6_loop ip ell s =
     (if 16 \<le> length ip then Some (ip, ell, s)
      else
        let ds = takeWhile is_hex s; rest = dropWhile is_hex s;
            ip2 = ip @ [hex_num ds div 256, hex_num ds mod 256]
        in if ds = [] \<or> 4 < length ds then None
           else if rest = [] then Some (ip2, ell, [])
           else if hd rest = CHR ''.'' then
             (if (ell = None \<and> length ip \<noteq> 12) \<or> 12 < length ip then None
              else map_option (\<lambda>bs. (ip @ bs, ell, [])) (parse_v4_fields s))
           else if hd rest \<noteq> CHR '':'' \<or> tl rest = [] then None
           else if hd (tl rest) = CHR '':'' then
             (if ell \<noteq> None then None
              else if tl (tl rest) = [] then Some (ip2, Some (length ip2), [])
              else v6_loop ip2 (Some (length ip2)) (tl (tl rest)))
           else v6_loop ip2 ell (tl rest))"
  by pat_completeness auto
termination
proof (relation "measure (\<lambda>(ip, ell, s). length s)", goal_cases)
  case 1
  show ?case by simp
next
  case (2 ip ell s ds rest ip2)
  then have "s \<noteq> []" by auto
  with 2 show ?case using length_dropWhile_le [of is_hex s] by (cases s) auto
next
  case (3 ip ell s ds rest ip2)
  then have "s \<noteq> []" by auto
  with 3 show ?case using length_dropWhile_le [of is_hex s] by (cases s) auto
qed

declare v6_loop.simps [simp del]

definition v6_finish :: "nat list \<times> nat option \<times> string \<Rightarrow> addr option" where
  "v6_finish r =
     (case r of (ip, ell, s) \<Rightarrow>
        if s \<noteq> [] then None
        else if length ip < 16 then
          (case ell of None \<Rightarrow> None
           | Some e \<Rightarrow> Some (V6 (of_nat (bytes_val
               (take e ip @ replicate (16 - length ip) 0 @ drop e ip)))))
        else if ell \<noteq> None then None else Some (V6 (of_nat (bytes_val ip))))"

definition parse_v6_body :: "string \<Rightarrow> addr option" where
  "parse_v6_body s =
     (if take 2 s = ''::'' then
        (if drop 2 s = [] then Some (V6 0)
         else Option.bind (v6_loop [] (Some 0) (drop 2 s)) v6_finish)
      else Option.bind (v6_loop [] None s) v6_finish)"

text \<open>The address and whether it had a zone.\<close>

definition parse_addr_zone :: "string \<Rightarrow> (addr \<times> bool) option" where
  "parse_addr_zone s =
     (case find (\<lambda>c. c = CHR ''.'' \<or> c = CHR '':'' \<or> c = CHR ''%'') s of
        None \<Rightarrow> None
      | Some c \<Rightarrow>
          if c = CHR ''.'' then
            map_option (\<lambda>bs. (V4 (of_nat (bytes_val bs)), False)) (parse_v4_fields s)
          else if c = CHR ''%'' then None
          else (case cut (CHR ''%'') s of
                  None \<Rightarrow> map_option (\<lambda>a. (a, False)) (parse_v6_body s)
                | Some (t, z) \<Rightarrow>
                    if z = [] then None else map_option (\<lambda>a. (a, True)) (parse_v6_body t)))"

definition ParseAddr :: "string \<Rightarrow> addr option" where
  "ParseAddr s = map_option fst (parse_addr_zone s)"

text \<open>The text before and after the last slash.\<close>

definition cut_last :: "char \<Rightarrow> string \<Rightarrow> (string \<times> string) option" where
  "cut_last b s = map_option (\<lambda>(u, v). (rev v, rev u)) (cut b (rev s))"

definition ParsePrefix :: "string \<Rightarrow> prefix option" where
  "ParsePrefix s =
     (case cut_last (CHR ''/'') s of
        None \<Rightarrow> None
      | Some (a, b) \<Rightarrow>
          (case parse_addr_zone a of
             None \<Rightarrow> None
           | Some (ip, zone) \<Rightarrow>
               if zone then None
               else if 1 < length b \<and> \<not> (is_digit (hd b) \<and> hd b \<noteq> CHR ''0'') then None
               else (case atoi b of
                       None \<Rightarrow> None
                     | Some n \<Rightarrow> if n < 0 \<or> int (bit_len ip) < n then None
                                 else Some (Prefix ip (nat n)))))"

subsection \<open>Printing\<close>

fun show_nat :: "nat \<Rightarrow> string" where
  "show_nat n = (if n < 10 then [char_of (48 + n)]
                 else show_nat (n div 10) @ [char_of (48 + n mod 10)])"

declare show_nat.simps [simp del]

definition show_v4 :: "32 word \<Rightarrow> string" where
  "show_v4 w =
     (let n = unat w
      in show_nat (n div 16777216) @ ''.'' @ show_nat (n div 65536 mod 256) @ ''.''
         @ show_nat (n div 256 mod 256) @ ''.'' @ show_nat (n mod 256))"

definition hex_digit :: "nat \<Rightarrow> char" where
  "hex_digit n = (if n < 10 then char_of (48 + n) else char_of (87 + n))"

fun show_hex :: "nat \<Rightarrow> string" where
  "show_hex n = (if n < 16 then [hex_digit n] else show_hex (n div 16) @ [hex_digit (n mod 16)])"

declare show_hex.simps [simp del]

definition v6_groups :: "128 word \<Rightarrow> nat list" where
  "v6_groups w = map (\<lambda>i. unat w div 2 ^ (16 * (7 - i)) mod 65536) [0 ..< 8]"

text \<open>The first longest run of at least two zero groups, as \<open>(start, end)\<close>.\<close>

definition zero_run :: "nat list \<Rightarrow> nat \<Rightarrow> nat" where
  "zero_run gs i = length (takeWhile (\<lambda>g. g = 0) (drop i gs))"

definition best_run :: "nat list \<Rightarrow> nat \<times> nat" where
  "best_run gs =
     foldl (\<lambda>(s, e) i. let l = zero_run gs i in if 2 \<le> l \<and> e - s < l then (i, i + l) else (s, e))
       (255, 255) [0 ..< length gs]"

fun show_groups :: "nat list \<Rightarrow> nat \<Rightarrow> nat \<Rightarrow> nat \<Rightarrow> nat \<Rightarrow> string" where
  "show_groups gs zs ze i 0 = []"
| "show_groups gs zs ze i (Suc k) =
     (if 8 \<le> i then []
      else if i = zs then
        '':'' @ '':'' @ (if 8 \<le> ze then [] else show_hex (gs ! ze) @ show_groups gs zs ze (Suc ze) k)
      else (if 0 < i then '':'' else []) @ show_hex (gs ! i) @ show_groups gs zs ze (Suc i) k)"

definition show_v6 :: "128 word \<Rightarrow> string" where
  "show_v6 w =
     (if drop_bit 32 w = 0xFFFF then ''::ffff:'' @ show_v4 (ucast w)
      else let gs = v6_groups w; (zs, ze) = best_run gs in show_groups gs zs ze 0 8)"

fun show_addr :: "addr \<Rightarrow> string" where
  "show_addr (V4 w) = show_v4 w"
| "show_addr (V6 w) = show_v6 w"

definition show_prefix :: "prefix \<Rightarrow> string" where
  "show_prefix p = show_addr (paddr p) @ ''/'' @ show_nat (pbits p)"

subsection \<open>A prefix as a range of addresses\<close>

lemma mask_clear_eq: "w AND NOT (mask h) = push_bit h (drop_bit h w)" for w :: "'a::len word"
  by (rule bit_eqI) (auto simp: bit_simps)

lemma unat_mask_clear: "unat (w AND NOT (mask h)) = unat w div 2 ^ h * 2 ^ h" for w :: "'a::len word"
proof -
  have "unat w div 2 ^ h * 2 ^ h \<le> unat w"
    by (simp add: div_times_less_eq_dividend)
  also have "\<dots> < 2 ^ LENGTH('a)" by simp
  finally have less: "unat w div 2 ^ h * 2 ^ h < 2 ^ LENGTH('a)" .
  have "unat (w AND NOT (mask h)) = take_bit LENGTH('a) (push_bit h (drop_bit h (unat w)))"
    by (simp only: mask_clear_eq unsigned_push_bit_eq unat_drop_bit_eq)
  with less show ?thesis
    by (simp only: push_bit_eq_mult take_bit_eq_mod drop_bit_eq_div mod_less)
qed

lemma unat_drop_bit: "unat (drop_bit h w) = unat w div 2 ^ h" for w :: "'a::len word"
  by (subst unat_drop_bit_eq) (simp only: drop_bit_eq_div)

lemma drop_bit_xor_0: "drop_bit h (a XOR x) = 0 \<longleftrightarrow> unat a div 2 ^ h = unat x div 2 ^ h"
  for a x :: "'a::len word"
proof -
  have "drop_bit h (a XOR x) = 0 \<longleftrightarrow> drop_bit h a = drop_bit h x"
    by (auto simp: bit_eq_iff bit_simps)
  also have "\<dots> \<longleftrightarrow> unat (drop_bit h a) = unat (drop_bit h x)"
    by (simp add: word_unat_eq_iff)
  finally show ?thesis by (simp only: unat_drop_bit)
qed

lemma div_eq_iff_range:
  fixes n m k :: nat
  assumes "0 < k"
  shows "n div k * k div k = m div k \<longleftrightarrow> n div k * k \<le> m \<and> m < n div k * k + k"
  using assms
  by (metis div_mult_self_is_m dividend_less_div_times div_times_less_eq_dividend
      less_mult_imp_div_less mult.commute mult_Suc_right add.commute le_antisym less_Suc_eq_le
      div_le_mono div_less_iff_less_mult nonzero_mult_div_cancel_left)

definition base_addr :: "prefix \<Rightarrow> addr" where
  "base_addr p = paddr (masked p)"

definition same_family :: "addr \<Rightarrow> addr \<Rightarrow> bool" where
  "same_family a b \<longleftrightarrow> is6 a = is6 b"

lemma masked_simps [simp]:
  "pbits (masked p) = pbits p" "host_bits (masked p) = host_bits p"
  "paddr (masked p) = base_addr p" "bit_len (base_addr p) = bit_len (paddr p)"
  "is6 (base_addr p) = is6 (paddr p)"
  by (cases "paddr p"; simp add: masked_def host_bits_def base_addr_def)+

lemma addr_val_base: "addr_val (base_addr p) = addr_val (paddr p) div 2 ^ host_bits p * 2 ^ host_bits p"
  by (cases "paddr p") (simp_all add: base_addr_def masked_def unat_mask_clear)

lemma masked_idem [simp]: "masked (masked p) = masked p"
proof -
  have "mask_addr h (mask_addr h a) = mask_addr h a" for h a
    by (cases a) (simp_all add: and.assoc)
  then show ?thesis
    by (metis masked_def masked_simps(1,2) prefix.sel(1))
qed

lemma contains_iff_range:
  "contains (masked p) x \<longleftrightarrow>
     same_family (paddr p) x \<and> addr_val (base_addr p) \<le> addr_val x
     \<and> addr_val x < addr_val (base_addr p) + 2 ^ host_bits p"
proof (cases "same_family (paddr p) x")
  case True
  obtain a b where p: "p = Prefix a b" by (cases p)
  have "contains (masked p) x \<longleftrightarrow>
      addr_val (base_addr p) div 2 ^ host_bits p = addr_val x div 2 ^ host_bits p"
    using True
    by (cases a; cases x)
      (simp_all add: p masked_def base_addr_def host_bits_def drop_bit_xor_0 same_family_def
         del: drop_bit_xor)
  with True div_eq_iff_range [of "2 ^ host_bits p"] show ?thesis
    by (simp add: addr_val_base)
next
  case False
  then show ?thesis
    by (cases p; cases "paddr p"; cases x) (auto simp: same_family_def masked_def)
qed

lemma addr_eq_iff_val: "same_family a b \<Longrightarrow> a = b \<longleftrightarrow> addr_val a = addr_val b"
  by (cases a; cases b) (auto simp: same_family_def word_unat_eq_iff)

lemma addr_val_bound: "addr_val a < 2 ^ bit_len a"
  using unsigned_less [where 'a = nat and 'b = 32] unsigned_less [where 'a = nat and 'b = 128]
  by (cases a) auto

lemma base_end_le: "addr_val (base_addr p) + 2 ^ host_bits p \<le> 2 ^ bit_len (paddr p)"
proof -
  let ?h = "2 ^ host_bits p :: nat" and ?a = "addr_val (paddr p)"
  have l: "host_bits p \<le> bit_len (paddr p)" by (simp add: host_bits_def)
  then obtain k where k: "2 ^ bit_len (paddr p) = k * ?h"
    by (metis le_imp_power_dvd dvd_def mult.commute)
  have "?a < k * ?h" using addr_val_bound [of "paddr p"] k by simp
  then have "?a div ?h < k" by (simp add: less_mult_imp_div_less)
  then have "Suc (?a div ?h) * ?h \<le> k * ?h" by (intro mult_le_mono1) simp
  then show ?thesis by (simp add: addr_val_base k)
qed

lemma addr_val_plus:
  "addr_val a + i < 2 ^ bit_len a \<Longrightarrow> addr_val (addr_plus a i) = addr_val a + i"
  by (cases a) (auto simp: unat_word_ariths unat_of_nat)

lemma addr_plus_family [simp]: "is6 (addr_plus a i) = is6 a" "bit_len (addr_plus a i) = bit_len a"
  by (cases a; simp)+

lemma addr_plus_0 [simp]: "addr_plus a 0 = a"
  by (cases a) auto

lemma word_plus_1_eq_0: "w + 1 = 0 \<longleftrightarrow> unat w + 1 = 2 ^ LENGTH('a)" for w :: "'a::len word"
proof -
  have "w + 1 = 0 \<longleftrightarrow> (unat w + 1) mod 2 ^ LENGTH('a) = 0"
    by (metis unat_eq_zero unat_word_ariths(1) unat_1 mod_add_right_eq)
  moreover have "unat w + 1 \<le> 2 ^ LENGTH('a)" using unsigned_less [of w] by (simp add: Suc_le_eq)
  ultimately show ?thesis by (auto simp: le_less)
qed

lemma next_addr_plus:
  "next_addr (addr_plus a i) =
     (if addr_val (addr_plus a i) + 1 = 2 ^ bit_len a then None else Some (addr_plus a (Suc i)))"
proof -
  have e: "w + of_nat (Suc i) = w + of_nat i + 1" for w :: "'n::len word"
    by (simp only: of_nat_Suc ac_simps)
  have l: "LENGTH(32) = 32" "LENGTH(128) = 128" by simp_all
  have z: "w + 1 = 0 \<longleftrightarrow> unat w + 1 = 2 ^ 32" "v + 1 = 0 \<longleftrightarrow> unat v + 1 = 2 ^ 128"
    for w :: "32 word" and v :: "128 word"
    by (simp_all only: word_plus_1_eq_0 l)
  show ?thesis
    by (cases a)
      (simp_all only: next_addr.simps addr_plus.simps addr_val.simps bit_len.simps e z)
qed

text \<open>The addresses of a prefix in ascending order: what its expansion has to produce.\<close>

definition prefix_addrs :: "prefix \<Rightarrow> addr list" where
  "prefix_addrs p = map (addr_plus (base_addr p)) [0 ..< 2 ^ host_bits p]"

lemma length_prefix_addrs [simp]: "length (prefix_addrs p) = 2 ^ host_bits p"
  by (simp add: prefix_addrs_def)

lemma addr_val_prefix_addrs:
  "i < 2 ^ host_bits p \<Longrightarrow> addr_val (addr_plus (base_addr p) i) = addr_val (base_addr p) + i"
  using base_end_le [of p] by (simp add: addr_val_plus)

lemma set_prefix_addrs: "set (prefix_addrs p) = {x. contains (masked p) x}"
proof (intro set_eqI iffI)
  fix x assume "x \<in> set (prefix_addrs p)"
  then show "x \<in> {x. contains (masked p) x}"
    by (auto simp: prefix_addrs_def contains_iff_range same_family_def addr_val_prefix_addrs)
next
  fix x assume "x \<in> {x. contains (masked p) x}"
  then have x: "same_family (paddr p) x" "addr_val (base_addr p) \<le> addr_val x"
      "addr_val x - addr_val (base_addr p) < 2 ^ host_bits p"
    by (auto simp: contains_iff_range)
  let ?i = "addr_val x - addr_val (base_addr p)"
  have "x = addr_plus (base_addr p) ?i"
    using x addr_val_prefix_addrs [OF x(3)]
    by (subst addr_eq_iff_val) (auto simp: same_family_def)
  with x(3) show "x \<in> set (prefix_addrs p)"
    by (auto simp: prefix_addrs_def)
qed

lemma distinct_prefix_addrs: "distinct (prefix_addrs p)"
  unfolding prefix_addrs_def distinct_map
proof (intro conjI inj_onI)
  fix i j
  assume ij: "i \<in> set [0..<2 ^ host_bits p]" "j \<in> set [0..<2 ^ host_bits p]"
    and eq: "addr_plus (base_addr p) i = addr_plus (base_addr p) j"
  have "addr_val (base_addr p) + i = addr_val (base_addr p) + j"
    using addr_val_prefix_addrs ij eq by (metis atLeastLessThan_iff set_upt)
  then show "i = j" by simp
qed simp

end
