(* ===== verification/IPEntry.thy ===== *)
theory IPEntry
  imports NetAddr
begin

text \<open>
  One line of an IP list and how it is read: \<open>internal/core/iplist/type.go\<close>, the record
  parser of \<open>parser.go\<close>, \<open>csv.go\<close>, and \<open>StreamCSVIndexed\<close> of
  \<open>internal/core/fileutil/csv.go\<close>, which splits a file into records with their byte
  offsets. A file is its content. A handler returns whether to go on, to stop quietly
  (\<open>io.EOF\<close>) or to fail.
\<close>

subsection \<open>Entries\<close>

record ip_list =
  IP :: prefix
  Enable :: bool

definition New :: "prefix \<Rightarrow> int \<Rightarrow> ip_list" where
  "New ip enable = \<lparr>IP = ip, Enable = (enable = 1)\<rparr>"

definition NewEnabled :: "prefix \<Rightarrow> ip_list" where
  "NewEnabled ip = \<lparr>IP = ip, Enable = True\<rparr>"

definition NewDisabled :: "prefix \<Rightarrow> ip_list" where
  "NewDisabled ip = \<lparr>IP = ip, Enable = False\<rparr>"

definition IsSingle :: "ip_list \<Rightarrow> bool" where
  "IsSingle e \<longleftrightarrow> pbits (IP e) = bit_len (paddr (IP e))"

definition EncodeCSV :: "ip_list \<Rightarrow> string list" where
  "EncodeCSV e = [show_prefix (IP e), if Enable e then ''1'' else ''0'']"

definition ParseIPOrCIDR :: "string \<Rightarrow> prefix option" where
  "ParseIPOrCIDR raw =
     (let s = trim_space raw
      in case ParsePrefix s of
           Some p \<Rightarrow> Some (masked p)
         | None \<Rightarrow> map_option (\<lambda>a. Prefix a (bit_len a)) (ParseAddr s))"

definition ParseRecord :: "string list \<Rightarrow> ip_list option" where
  "ParseRecord rec =
     (case rec of
        [] \<Rightarrow> None
      | f # fs \<Rightarrow>
          map_option
            (\<lambda>ip. New (masked ip)
               (case fs of [] \<Rightarrow> 1
                | g # _ \<Rightarrow> (case atoi (trim_space g) of None \<Rightarrow> 1 | Some v \<Rightarrow> v)))
            (ParseIPOrCIDR (trim_space f)))"

text \<open>\<open>netutil.ParseIPOrCIDR\<close>, which the shuffled reader uses: the prefix is not masked.\<close>

definition netutil_ParseIPOrCIDR :: "string \<Rightarrow> prefix option" where
  "netutil_ParseIPOrCIDR raw =
     (let s = trim_space raw
      in case ParsePrefix s of
           Some p \<Rightarrow> Some p
         | None \<Rightarrow> map_option (\<lambda>a. Prefix a (if is6 a then 128 else 32)) (ParseAddr s))"

lemmas eval_parse = ParsePrefix_def ParseAddr_def cut_last_def parse_addr_zone_def
  parse_v4_fields_def parse_octet_def is_digit_def dec_val_def digit_val_def bytes_val_def
  atoi_def in_int64_def masked_def host_bits_def ParseIPOrCIDR_def ParseRecord_def New_def
  mask_eq_exp_minus_1

subsection \<open>One CSV line\<close>

text \<open>
  \<open>encoding/csv\<close> on a single line with comma separator, lazy quotes and trimmed leading
  space, the configuration \<open>DefaultCSVConfig\<close>: no input is an error.
\<close>

fun csv_quoted :: "string \<Rightarrow> string \<times> string option" where
  "csv_quoted [] = ([], None)"
| "csv_quoted (c # s) =
     (if c \<noteq> CHR 0x22 then (let (f, r) = csv_quoted s in (c # f, r))
      else case s of
             [] \<Rightarrow> ([], None)
           | d # t \<Rightarrow>
               if d = CHR 0x22 then (let (f, r) = csv_quoted t in (CHR 0x22 # f, r))
               else if d = CHR '','' then ([], Some t)
               else (let (f, r) = csv_quoted s in (CHR 0x22 # f, r)))"

lemma csv_quoted_shorter: "csv_quoted s = (f, Some r) \<Longrightarrow> length r < length s"
  by (induction s arbitrary: f r rule: csv_quoted.induct)
    (auto split: if_splits list.splits prod.splits intro: less_SucI)

lemma length_trim_left_le: "length (trim_left s) \<le> length s"
  by (metis trim_left_def trim_front_suffix suffix_length_le)

function csv_fields :: "string \<Rightarrow> string list" where
  "csv_fields s =
     (case trim_left s of
        [] \<Rightarrow> [[]]
      | c # t \<Rightarrow>
          if c \<noteq> CHR 0x22 then
            (case cut (CHR '','') (c # t) of None \<Rightarrow> [c # t] | Some (f, r) \<Rightarrow> f # csv_fields r)
          else
            (case csv_quoted t of (f, None) \<Rightarrow> [f] | (f, Some r) \<Rightarrow> f # csv_fields r))"
  by pat_completeness auto
termination
proof (relation "measure length", goal_cases)
  case (2 s c t x f r)
  then have "length r < length (trim_left s)"
    by (cases x) (auto simp del: cut.simps dest: cut_shorter)
  with length_trim_left_le [of s] show ?case by simp
next
  case (3 s c t x f r)
  then show ?case using length_trim_left_le [of s] by (auto dest: csv_quoted_shorter [OF sym])
qed simp

declare csv_fields.simps [simp del]

subsection \<open>Records of a file\<close>

text \<open>The lines as \<open>ReadBytes\<close> delivers them, each with its line break.\<close>

fun raw_lines :: "string \<Rightarrow> string list" where
  "raw_lines [] = []"
| "raw_lines (c # s) =
     (if c = CHR 0x0A then [c] # raw_lines s
      else case raw_lines s of [] \<Rightarrow> [[c]] | l # ls \<Rightarrow> (c # l) # ls)"

fun with_offsets :: "nat \<Rightarrow> string list \<Rightarrow> (string \<times> nat) list" where
  "with_offsets off [] = []"
| "with_offsets off (l # ls) = (l, off) # with_offsets (off + length l) ls"

definition line_record :: "string \<times> nat \<Rightarrow> (string list \<times> nat) option" where
  "line_record lo =
     (let line = trim_space (fst lo)
      in if line = [] \<or> has_prefix line ''#'' then None
         else Some (csv_fields line, snd lo))"

definition csv_records :: "string \<Rightarrow> (string list \<times> nat) list" where
  "csv_records file = List.map_filter line_record (with_offsets 0 (raw_lines file))"

datatype 'e verdict = Continue | StopEOF | Fail 'e

text \<open>The reading loop: the handler threads its state and decides about each record.\<close>

fun run_records :: "('s \<Rightarrow> 'r \<Rightarrow> 'e verdict \<times> 's) \<Rightarrow> 'r list \<Rightarrow> 's \<Rightarrow> 'e option \<times> 's" where
  "run_records h [] s = (None, s)"
| "run_records h (r # rs) s =
     (case h s r of
        (Continue, s') \<Rightarrow> run_records h rs s'
      | (StopEOF, s') \<Rightarrow> (None, s')
      | (Fail e, s') \<Rightarrow> (Some e, s'))"

definition StreamCSVIndexed ::
  "string \<Rightarrow> ('s \<Rightarrow> string list \<times> nat \<Rightarrow> 'e verdict \<times> 's) \<Rightarrow> 's \<Rightarrow> 'e option \<times> 's" where
  "StreamCSVIndexed file h s = run_records h (csv_records file) s"

definition ReadCSV ::
  "string \<Rightarrow> ('s \<Rightarrow> ip_list \<times> nat \<Rightarrow> 'e verdict \<times> 's) \<Rightarrow> 's \<Rightarrow> 'e option \<times> 's" where
  "ReadCSV file fn s =
     StreamCSVIndexed file
       (\<lambda>s (rec, off). case ParseRecord rec of None \<Rightarrow> (Continue, s) | Some e \<Rightarrow> fn s (e, off)) s"

text \<open>The entries of a file, in order: what every reader of the list sees.\<close>

definition record_entry :: "string list \<times> nat \<Rightarrow> (ip_list \<times> nat) option" where
  "record_entry ro = map_option (\<lambda>e. (e, snd ro)) (ParseRecord (fst ro))"

definition entries :: "string \<Rightarrow> (ip_list \<times> nat) list" where
  "entries file = List.map_filter record_entry (csv_records file)"

lemma run_records_map_filter:
  "run_records (\<lambda>s r. case f r of None \<Rightarrow> (Continue, s) | Some y \<Rightarrow> h s y) rs s
   = run_records h (List.map_filter f rs) s"
  by (induction rs arbitrary: s)
    (auto simp: List.map_filter_simps split: option.splits prod.splits verdict.splits)

lemma ReadCSV_entries: "ReadCSV file fn s = run_records fn (entries file) s"
proof -
  have "(\<lambda>s (rec, off). case ParseRecord rec of None \<Rightarrow> (Continue, s) | Some e \<Rightarrow> fn s (e, off))
      = (\<lambda>s r. case record_entry r of None \<Rightarrow> (Continue, s) | Some y \<Rightarrow> fn s y)"
    by (rule ext)+ (auto simp: record_entry_def split: option.splits)
  then show ?thesis
    by (simp only: ReadCSV_def StreamCSVIndexed_def run_records_map_filter entries_def)
qed

subsection \<open>What a parsed entry looks like\<close>

definition entry_ok :: "ip_list \<Rightarrow> bool" where
  "entry_ok e \<longleftrightarrow> valid_prefix (IP e) \<and> masked (IP e) = IP e"

lemma ParsePrefix_valid: "ParsePrefix s = Some p \<Longrightarrow> valid_prefix p"
  by (auto simp: ParsePrefix_def valid_prefix_def split: option.splits if_splits prod.splits)

lemma valid_prefix_masked: "valid_prefix p \<Longrightarrow> valid_prefix (masked p)"
  by (simp add: valid_prefix_def)

lemma ParseIPOrCIDR_valid: "ParseIPOrCIDR s = Some p \<Longrightarrow> valid_prefix p"
  by (auto simp: ParseIPOrCIDR_def Let_def valid_prefix_def split: option.splits
      dest!: ParsePrefix_valid)

lemma ParseRecord_ok: "ParseRecord rec = Some e \<Longrightarrow> entry_ok e"
  by (auto simp: ParseRecord_def New_def entry_ok_def valid_prefix_masked
      split: list.splits dest!: ParseIPOrCIDR_valid)

lemma entries_ok: "(e, off) \<in> set (entries file) \<Longrightarrow> entry_ok e"
  by (auto simp: entries_def List.map_filter_def record_entry_def intro: ParseRecord_ok)

subsection \<open>Loading and counting\<close>

text \<open>\<open>LoadAll\<close>: no handler of it fails, so it has no error beyond opening the file.\<close>

definition LoadAll :: "string \<Rightarrow> ip_list list" where
  "LoadAll file =
     snd (ReadCSV file (\<lambda>items (e, off). (Continue :: unit verdict, items @ [e])) [])"

lemma LoadAll_entries: "LoadAll file = map fst (entries file)"
proof -
  have "run_records (\<lambda>items (e, off). (Continue :: unit verdict, items @ [e])) rs acc
        = (None, acc @ map fst rs)" for rs :: "(ip_list \<times> nat) list" and acc
    by (induction rs arbitrary: acc) auto
  then show ?thesis by (simp add: LoadAll_def ReadCSV_entries)
qed

definition max_u64 :: u64 where
  "max_u64 = - 1"

definition saturatingAdd :: "u64 \<Rightarrow> u64 \<Rightarrow> u64" where
  "saturatingAdd a b = (let r = a + b in if r < a then max_u64 else r)"

definition countIPEntry :: "prefix \<Rightarrow> u64" where
  "countIPEntry p = (if 64 \<le> host_bits p then max_u64 else push_bit (host_bits p) 1)"

definition CountIPs :: "string \<Rightarrow> u64" where
  "CountIPs file =
     snd (ReadCSV file (\<lambda>total (e, off). (Continue :: unit verdict,
            saturatingAdd total (countIPEntry (IP e)))) 0)"

definition CountActiveIPs :: "string \<Rightarrow> u64" where
  "CountActiveIPs file =
     snd (ReadCSV file (\<lambda>total (e, off). (Continue :: unit verdict,
            if \<not> Enable e \<or> total = max_u64 then total
            else saturatingAdd total (countIPEntry (IP e)))) 0)"

lemma unat_max_u64: "unat max_u64 = 2 ^ 64 - 1"
  by (simp add: max_u64_def unsigned_minus_1_eq_mask mask_eq_exp_minus_1)

text \<open>Saturation is exact: the sum, or the largest value when the sum does not fit.\<close>

lemma unat_saturatingAdd: "unat (saturatingAdd a b) = min (unat a + unat b) (2 ^ 64 - 1)"
proof -
  have a: "unat a < 2 ^ 64" and b: "unat b < 2 ^ 64"
    using unat_u64_less [of a] unat_u64_less [of b] by simp_all
  show ?thesis
  proof (cases "unat a + unat b < 2 ^ 64")
    case True
    then have "unat (a + b) = unat a + unat b" by (simp add: unat_word_ariths)
    with True show ?thesis
      by (simp add: saturatingAdd_def Let_def word_less_nat_alt)
  next
    case False
    have "unat (a + b) = (unat a + unat b) mod 2 ^ 64" by (simp add: unat_word_ariths)
    also have "\<dots> = unat a + unat b - 2 ^ 64"
      using False a b by (simp add: mod_if)
    finally have "a + b < a" using b False by (simp add: word_less_nat_alt)
    with False show ?thesis by (simp add: saturatingAdd_def Let_def unat_max_u64)
  qed
qed

lemma unat_countIPEntry: "unat (countIPEntry p) = min (2 ^ host_bits p) (2 ^ 64 - 1)"
proof (cases "64 \<le> host_bits p")
  case True
  then have "(2 ^ 64 :: nat) \<le> 2 ^ host_bits p" by (intro power_increasing) auto
  with True show ?thesis by (simp add: countIPEntry_def unat_max_u64)
next
  case False
  then have "(2 ^ host_bits p :: nat) \<le> 2 ^ 63" by (intro power_increasing) auto
  moreover from this have "unat (push_bit (host_bits p) 1 :: u64) = 2 ^ host_bits p"
    by (subst unsigned_push_bit_eq) (simp add: push_bit_eq_mult take_bit_eq_mod)
  ultimately show ?thesis using False by (simp add: countIPEntry_def)
qed

definition active_total :: "(ip_list \<times> nat) list \<Rightarrow> nat" where
  "active_total es = (\<Sum>(e, off) \<leftarrow> es. if Enable e then 2 ^ host_bits (IP e) else 0)"

text \<open>\<open>CountActiveIPs\<close> is the number of addresses in the enabled entries of the file,
  each entry counted with all its host bits, and the largest 64-bit value when that number
  does not fit: saturation never loses or doubles an entry on the way.\<close>

theorem CountActiveIPs_exact:
  "unat (CountActiveIPs file) = min (active_total (entries file)) (2 ^ 64 - 1)"
proof -
  let ?h = "\<lambda>total (e, off :: nat). (Continue :: unit verdict,
      if \<not> Enable e \<or> total = max_u64 then total else saturatingAdd total (countIPEntry (IP e)))"
  have "unat (snd (run_records ?h es acc)) = min (unat acc + active_total es) (2 ^ 64 - 1)"
    for es acc
  proof (induction es arbitrary: acc)
    case Nil
    then show ?case using unat_u64_less [of acc] by (simp add: active_total_def)
  next
    case (Cons x es)
    obtain e off where x: "x = (e, off)" by (cases x)
    have acc: "unat acc \<le> 2 ^ 64 - 1" using unat_u64_less [of acc] by simp
    have full: "acc = max_u64 \<longleftrightarrow> unat acc = 2 ^ 64 - 1"
      by (simp only: word_unat_eq_iff unat_max_u64)
    let ?c = "if Enable e then 2 ^ host_bits (IP e) else (0 :: nat)"
    have one: "unat (snd (?h acc x)) = min (unat acc + ?c) (2 ^ 64 - 1)"
      using acc by (auto simp: x full unat_saturatingAdd unat_countIPEntry min_def)
    have "unat (snd (run_records ?h (x # es) acc)) = unat (snd (run_records ?h es (snd (?h acc x))))"
      by (simp add: x)
    also have "\<dots> = min (min (unat acc + ?c) (2 ^ 64 - 1) + active_total es) (2 ^ 64 - 1)"
      by (simp only: Cons one)
    also have "\<dots> = min (unat acc + active_total (x # es)) (2 ^ 64 - 1)"
      by (simp add: x active_total_def min_def)
    finally show ?case .
  qed
  then show ?thesis by (simp add: CountActiveIPs_def ReadCSV_entries)
qed

end
