(* ===== verification/IPLoader.thy ===== *)
theory IPLoader
  imports IPEntry FileSort
begin

text \<open>
  Importing an IP list without duplicates, \<open>internal/core/iplist/loader.go\<close>: with a map
  of the prefixes seen, or for large files by sorting the file and dropping a prefix equal
  to the one before it. \<open>cancel n\<close> is what the context says at the \<open>n\<close>-th entry. The
  result is the list of CSV rows written to the destination.
\<close>

record import_option =
  MaxMapFileSize :: int
  MaxInMemoryEntries :: u64

definition DefaultImportOption :: import_option where
  "DefaultImportOption = \<lparr>MaxMapFileSize = 100000000, MaxInMemoryEntries = 0\<rparr>"

datatype import_err =
  ImpCancelled | ImpStat | ImpDirectory | ImpLimit | ImpSort sort_err

datatype source = Missing | Directory | RegularFile string

record dedup =
  seen :: "prefix list"
  written :: "string list list"
  calls :: nat

definition dedup_start :: dedup where
  "dedup_start = \<lparr>seen = [], written = [], calls = 0\<rparr>"

definition map_handler ::
  "(nat \<Rightarrow> bool) \<Rightarrow> u64 \<Rightarrow> dedup \<Rightarrow> ip_list \<times> nat \<Rightarrow> import_err verdict \<times> dedup" where
  "map_handler cancel limit d eo =
     (let e = (fst eo)\<lparr>IP := masked (IP (fst eo))\<rparr>; d1 = d\<lparr>calls := Suc (calls d)\<rparr>
      in if cancel (calls d) then (Fail ImpCancelled, d1)
         else if IP e \<in> set (seen d) then (Continue, d1)
         else if 0 < limit \<and> limit \<le> of_nat (length (seen d)) then (Fail ImpLimit, d1)
         else (Continue, d1\<lparr>seen := IP e # seen d, written := written d @ [EncodeCSV e]\<rparr>))"

definition importIPListMap ::
  "(nat \<Rightarrow> bool) \<Rightarrow> string \<Rightarrow> import_option \<Rightarrow> import_err + string list list" where
  "importIPListMap cancel file opt =
     (case ReadCSV file (map_handler cancel (MaxInMemoryEntries opt)) dedup_start of
        (Some err, d) \<Rightarrow> Inl err
      | (None, d) \<Rightarrow> Inr (written d))"

text \<open>The disk strategy: \<open>last\<close> is the zero prefix before the first entry.\<close>

record adjacent =
  last_ip :: "prefix option"
  rows :: "string list list"
  visits :: nat

definition disk_handler ::
  "(nat \<Rightarrow> bool) \<Rightarrow> adjacent \<Rightarrow> ip_list \<times> nat \<Rightarrow> import_err verdict \<times> adjacent" where
  "disk_handler cancel d eo =
     (let e = (fst eo)\<lparr>IP := masked (IP (fst eo))\<rparr>; d1 = d\<lparr>visits := Suc (visits d)\<rparr>
      in if cancel (visits d) then (Fail ImpCancelled, d1)
         else if last_ip d = Some (IP e) then (Continue, d1)
         else (Continue, d1\<lparr>last_ip := Some (IP e), rows := rows d @ [EncodeCSV e]\<rparr>))"

definition importIPListDisk ::
  "(nat \<Rightarrow> bool) \<Rightarrow> (nat \<Rightarrow> bool) \<Rightarrow> string \<Rightarrow> import_err + string list list" where
  "importIPListDisk cancel cancel_sort file =
     (case SortFile cancel_sort file of
        Inl err \<Rightarrow> Inl (ImpSort err)
      | Inr tmp \<Rightarrow>
          (case ReadCSV tmp (disk_handler cancel) \<lparr>last_ip = None, rows = [], visits = 0\<rparr> of
             (Some err, d) \<Rightarrow> Inl err
           | (None, d) \<Rightarrow> Inr (rows d)))"

definition ImportIPList ::
  "bool \<Rightarrow> (nat \<Rightarrow> bool) \<Rightarrow> (nat \<Rightarrow> bool) \<Rightarrow> source \<Rightarrow> import_option \<Rightarrow> import_err + string list list" where
  "ImportIPList ctx_err cancel cancel_sort src opt =
     (if ctx_err then Inl ImpCancelled
      else case src of
             Missing \<Rightarrow> Inl ImpStat
           | Directory \<Rightarrow> Inl ImpDirectory
           | RegularFile file \<Rightarrow>
               if int (length file) \<le> MaxMapFileSize opt then importIPListMap cancel file opt
               else importIPListDisk cancel cancel_sort file)"

text \<open>\<open>estimateMapEntries\<close>: a capacity for the map, within the limit and within \<open>int\<close>.\<close>

definition estimateMapEntries :: "int option \<Rightarrow> u64 \<Rightarrow> int" where
  "estimateMapEntries fsize limit =
     (case fsize of
        None \<Rightarrow> 0
      | Some s \<Rightarrow>
          if s \<le> 0 then 0
          else let n = s div 16;
                   n1 = (if 0 < limit \<and> uint limit < n then uint limit else n)
               in if 2 ^ 63 - 1 < n1 then 2 ^ 63 - 1 else n1)"

lemma estimateMapEntries_bounds:
  assumes "in_int64 s"
  shows "0 \<le> estimateMapEntries (Some s) limit \<and> in_int64 (estimateMapEntries (Some s) limit)
         \<and> (0 < limit \<longrightarrow> estimateMapEntries (Some s) limit \<le> uint limit)"
proof -
  have "0 \<le> uint limit" by simp
  then have "- 9223372036854775808 \<le> uint limit" by linarith
  with assms show ?thesis by (auto simp: estimateMapEntries_def in_int64_def Let_def)
qed

subsection \<open>The map strategy\<close>

text \<open>The first entry of every prefix, in file order: what a deduplicated list should be.\<close>

fun first_of_each :: "prefix set \<Rightarrow> ip_list list \<Rightarrow> ip_list list" where
  "first_of_each S [] = []"
| "first_of_each S (e # es) =
     (if IP e \<in> S then first_of_each S es else e # first_of_each (insert (IP e) S) es)"

lemma first_of_each_distinct:
  "distinct (map IP (first_of_each S es)) \<and> IP ` set (first_of_each S es) = IP ` set es - S"
  by (induction S es rule: first_of_each.induct) auto

lemma length_first_of_each: "length (first_of_each S es) = card (IP ` set es - S)"
  by (metis first_of_each_distinct distinct_card length_map set_map)

lemma entry_masked: "entry_ok e \<Longrightarrow> e\<lparr>IP := masked (IP e)\<rparr> = e"
  by (simp add: entry_ok_def)

lemma limit_reached:
  assumes "n \<le> unat (limit :: u64)"
  shows "limit \<le> of_nat n \<longleftrightarrow> n = unat limit"
proof -
  have "unat (of_nat n :: u64) = n"
    using assms unat_u64_less [of limit] by (simp add: unat_of_nat)
  with assms show ?thesis by (auto simp: word_le_nat_alt)
qed

lemma map_handler_cases:
  assumes "entry_ok e" and "\<not> cancel (calls d)"
  shows "IP e \<in> set (seen d) \<Longrightarrow>
           map_handler cancel limit d (e, off) = (Continue, d\<lparr>calls := Suc (calls d)\<rparr>)"
    and "IP e \<notin> set (seen d) \<Longrightarrow> 0 < limit \<and> limit \<le> of_nat (length (seen d)) \<Longrightarrow>
           map_handler cancel limit d (e, off) = (Fail ImpLimit, d\<lparr>calls := Suc (calls d)\<rparr>)"
    and "IP e \<notin> set (seen d) \<Longrightarrow> \<not> (0 < limit \<and> limit \<le> of_nat (length (seen d))) \<Longrightarrow>
           map_handler cancel limit d (e, off) =
             (Continue, d\<lparr>calls := Suc (calls d), seen := IP e # seen d,
                         written := written d @ [EncodeCSV e]\<rparr>)"
  using assms by (auto simp: map_handler_def Let_def entry_ok_def)

lemma map_handler_succeeds:
  assumes "\<forall>(e, off) \<in> set es. entry_ok e" and "cancel = (\<lambda>_. False)"
    and "limit = 0 \<or> length (seen d) + length (first_of_each (set (seen d)) (map fst es)) \<le> unat limit"
  shows "\<exists>d'. run_records (map_handler cancel limit) es d = (None, d')
              \<and> written d' = written d @ map EncodeCSV (first_of_each (set (seen d)) (map fst es))"
  using assms
proof (induction es arbitrary: d)
  case (Cons x es)
  obtain e off where x: "x = (e, off)" by (cases x)
  note step = map_handler_cases [of e cancel d limit off]
  show ?case
  proof (cases "IP e \<in> set (seen d)")
    case True
    with Cons.IH [of "d\<lparr>calls := Suc (calls d)\<rparr>"] Cons.prems step show ?thesis
      by (simp add: x)
  next
    case False
    let ?d = "d\<lparr>calls := Suc (calls d), seen := IP e # seen d, written := written d @ [EncodeCSV e]\<rparr>"
    have "\<not> (0 < limit \<and> limit \<le> of_nat (length (seen d)))"
      using Cons.prems(3) False limit_reached [of "length (seen d)" limit]
      by (auto simp: x word_neq_0_conv)
    then have "map_handler cancel limit d x = (Continue, ?d)"
      using False Cons.prems(1,2) step by (simp add: x)
    with Cons.IH [of ?d] Cons.prems False show ?thesis by (auto simp: x)
  qed
qed simp

lemma map_handler_fails:
  assumes "\<forall>(e, off) \<in> set es. entry_ok e" and "cancel = (\<lambda>_. False)"
    and "0 < limit" and "length (seen d) \<le> unat limit"
    and "unat limit < length (seen d) + length (first_of_each (set (seen d)) (map fst es))"
  shows "\<exists>d'. run_records (map_handler cancel limit) es d = (Some ImpLimit, d')"
  using assms
proof (induction es arbitrary: d)
  case (Cons x es)
  obtain e off where x: "x = (e, off)" by (cases x)
  note step = map_handler_cases [of e cancel d limit off]
  note full = limit_reached [OF Cons.prems(4)]
  show ?case
  proof (cases "IP e \<in> set (seen d)")
    case True
    with Cons.IH [of "d\<lparr>calls := Suc (calls d)\<rparr>"] Cons.prems step show ?thesis
      by (simp add: x)
  next
    case False
    let ?d = "d\<lparr>calls := Suc (calls d), seen := IP e # seen d, written := written d @ [EncodeCSV e]\<rparr>"
    show ?thesis
    proof (cases "length (seen d) = unat limit")
      case True
      with False Cons.prems(1-3) full step show ?thesis by (simp add: x)
    next
      case less: False
      have "map_handler cancel limit d x = (Continue, ?d)"
        using False less Cons.prems(1,2) full step by (simp add: x)
      with Cons.IH [of ?d] Cons.prems False less show ?thesis by (auto simp: x)
    qed
  qed
qed simp

text \<open>C7. The map strategy writes the first entry of every prefix of the file, in file
  order and nothing else: no prefix twice and none missing. With a limit on the map it
  fails exactly when the file has more distinct prefixes than the limit.\<close>

theorem importIPListMap_dedups:
  "let es = map fst (entries content); new = first_of_each {} es
   in importIPListMap (\<lambda>_. False) content opt =
        (if MaxInMemoryEntries opt = 0 \<or> card (IP ` set es) \<le> unat (MaxInMemoryEntries opt)
         then Inr (map EncodeCSV new) else Inl ImpLimit)
      \<and> distinct (map IP new) \<and> IP ` set new = IP ` set es"
proof -
  let ?limit = "MaxInMemoryEntries opt" and ?es = "map fst (entries content)"
  have ok: "\<forall>(e, off) \<in> set (entries content). entry_ok e" using entries_ok by auto
  have start: "seen dedup_start = []" "written dedup_start = []" by (simp_all add: dedup_start_def)
  have card: "length (first_of_each {} ?es) = card (IP ` set ?es)"
    using length_first_of_each [of "{}" ?es] by simp
  have "importIPListMap (\<lambda>_. False) content opt =
      (if ?limit = 0 \<or> card (IP ` set ?es) \<le> unat ?limit
       then Inr (map EncodeCSV (first_of_each {} ?es)) else Inl ImpLimit)"
  proof (cases "?limit = 0 \<or> card (IP ` set ?es) \<le> unat ?limit")
    case True
    with map_handler_succeeds [OF ok refl, of ?limit dedup_start] card start show ?thesis
      by (auto simp: importIPListMap_def ReadCSV_entries)
  next
    case False
    then have pos: "0 < ?limit" by (simp add: word_neq_0_conv)
    from False map_handler_fails [OF ok refl pos, of dedup_start] card start show ?thesis
      by (auto simp: importIPListMap_def ReadCSV_entries)
  qed
  then show ?thesis using first_of_each_distinct [of "{}" ?es] by (simp add: Let_def)
qed

subsection \<open>The disk strategy\<close>

fun drop_repeats :: "prefix option \<Rightarrow> ip_list list \<Rightarrow> ip_list list" where
  "drop_repeats l [] = []"
| "drop_repeats l (e # es) =
     (if l = Some (IP e) then drop_repeats l es else e # drop_repeats (Some (IP e)) es)"

lemma set_drop_repeats:
  "IP ` set es \<subseteq> IP ` set (drop_repeats l es) \<union> set_option l
   \<and> set (drop_repeats l es) \<subseteq> set es"
  by (induction l es rule: drop_repeats.induct) auto

lemma drop_repeats_adjacent:
  "distinct_adj (map IP (drop_repeats l es))
   \<and> (drop_repeats l es \<noteq> [] \<longrightarrow> l \<noteq> Some (IP (hd (drop_repeats l es))))"
proof (induction l es rule: drop_repeats.induct)
  case (2 l e es)
  then show ?case
    by (cases "drop_repeats (Some (IP e)) es") auto
qed simp

lemma disk_handler_cases:
  assumes "entry_ok e" and "\<not> cancel (visits d)"
  shows "disk_handler cancel d (e, off) =
           (Continue, if last_ip d = Some (IP e) then d\<lparr>visits := Suc (visits d)\<rparr>
                      else d\<lparr>visits := Suc (visits d), last_ip := Some (IP e),
                            rows := rows d @ [EncodeCSV e]\<rparr>)"
  using assms by (auto simp: disk_handler_def Let_def entry_ok_def)

lemma disk_handler_run:
  assumes "\<forall>(e, off) \<in> set es. entry_ok e" and "cancel = (\<lambda>_. False)"
  shows "\<exists>d'. run_records (disk_handler cancel) es d = (None, d')
              \<and> rows d' = rows d @ map EncodeCSV (drop_repeats (last_ip d) (map fst es))"
  using assms(1)
proof (induction es arbitrary: d)
  case (Cons x es)
  obtain e off where x: "x = (e, off)" by (cases x)
  show ?case
    using Cons.IH [of "snd (disk_handler cancel d x)"] Cons.prems assms(2)
      disk_handler_cases [of e cancel d off]
    by (auto simp: x split: if_splits)
qed simp

text \<open>The disk strategy writes the entries of the sorted file without immediate
  repetitions: every prefix of the sorted file is written, no two rows in sequence have the
  same prefix, and a sort that succeeds makes the import succeed.\<close>

theorem importIPListDisk_adjacent:
  "case SortFile cancel_sort content of
     Inl err \<Rightarrow> importIPListDisk (\<lambda>_. False) cancel_sort content = Inl (ImpSort err)
   | Inr tmp \<Rightarrow>
       \<exists>es. importIPListDisk (\<lambda>_. False) cancel_sort content = Inr (map EncodeCSV es)
            \<and> distinct_adj (map IP es) \<and> IP ` set es = IP ` fst ` set (entries tmp)"
proof (cases "SortFile cancel_sort content")
  case (Inr tmp)
  let ?es = "drop_repeats None (map fst (entries tmp))"
  have ok: "\<forall>(e, off) \<in> set (entries tmp). entry_ok e" using entries_ok by auto
  have "importIPListDisk (\<lambda>_. False) cancel_sort content = Inr (map EncodeCSV ?es)"
    using disk_handler_run [OF ok refl, of "\<lparr>last_ip = None, rows = [], visits = 0\<rparr>"] Inr
    by (auto simp: importIPListDisk_def ReadCSV_entries)
  moreover have "IP ` set ?es = IP ` fst ` set (entries tmp)"
    using set_drop_repeats [of "map fst (entries tmp)" None] by auto
  ultimately show ?thesis
    using drop_repeats_adjacent [of None "map fst (entries tmp)"] Inr by auto
qed (simp add: importIPListDisk_def)

subsection \<open>Where the strategies differ\<close>

definition dup_lines :: "string list" where
  "dup_lines = [''10.0.0.0/8'', ''10.0.0.1'', ''10.1.2.3/8'']"

lemma dup_sorted: "SortFile cancel (unlines dup_lines) = Inr (unlines dup_lines)"
proof -
  have "sort dup_lines = dup_lines"
    by (rule sorted_sort_id) (simp add: dup_lines_def less_eq_char_def)
  moreover have "split_on NL (trim_right_nl (unlines dup_lines)) = dup_lines"
    by (simp add: dup_lines_def unlines_def trim_right_nl_def)
  moreover have "length (unlines dup_lines) \<le> inMemoryThreshold"
    by (simp add: dup_lines_def unlines_def inMemoryThreshold_def)
  ultimately show ?thesis by (simp add: SortFile_def sortInMemory_def)
qed

lemma dup_entries:
  "map fst (entries (unlines dup_lines)) =
    [\<lparr>IP = Prefix (V4 0x0A000000) 8, Enable = True\<rparr>,
     \<lparr>IP = Prefix (V4 0x0A000001) 32, Enable = True\<rparr>,
     \<lparr>IP = Prefix (V4 0x0A000000) 8, Enable = True\<rparr>]"
proof -
  have lines: "with_offsets 0 (raw_lines (unlines dup_lines))
      = [(''10.0.0.0/8'' @ [NL], 0), (''10.0.0.1'' @ [NL], 11), (''10.1.2.3/8'' @ [NL], 20)]"
    by (simp add: dup_lines_def unlines_def)
  have "line_record (''10.0.0.0/8'' @ [NL], 0) = Some ([''10.0.0.0/8''], 0)"
    "line_record (''10.0.0.1'' @ [NL], 11) = Some ([''10.0.0.1''], 11)"
    "line_record (''10.1.2.3/8'' @ [NL], 20) = Some ([''10.1.2.3/8''], 20)"
    by (simp_all add: line_record_def has_prefix_def csv_fields.simps eval_trim)
  then have recs: "csv_records (unlines dup_lines)
      = [([''10.0.0.0/8''], 0), ([''10.0.0.1''], 11), ([''10.1.2.3/8''], 20)]"
    by (simp only: csv_records_def lines List.map_filter_simps option.case)
  have "record_entry ([''10.0.0.0/8''], 0) = Some (\<lparr>IP = Prefix (V4 0x0A000000) 8, Enable = True\<rparr>, 0)"
    "record_entry ([''10.0.0.1''], 11) = Some (\<lparr>IP = Prefix (V4 0x0A000001) 32, Enable = True\<rparr>, 11)"
    "record_entry ([''10.1.2.3/8''], 20) = Some (\<lparr>IP = Prefix (V4 0x0A000000) 8, Enable = True\<rparr>, 20)"
    by (simp_all add: record_entry_def eval_trim eval_parse)
  then show ?thesis
    by (simp only: entries_def recs List.map_filter_simps option.case list.map fst_conv)
qed

text \<open>The disk strategy does not always deduplicate: the sort compares texts, and two
  texts of one prefix need not be adjacent. A file that the map strategy imports as two rows
  is written by the disk strategy with \<open>10.0.0.0/8\<close> twice.\<close>

theorem disk_import_keeps_duplicate:
  "importIPListMap (\<lambda>_. False) (unlines dup_lines) DefaultImportOption
     = Inr [[''10.0.0.0/8'', ''1''], [''10.0.0.1/32'', ''1'']]
   \<and> importIPListDisk (\<lambda>_. False) (\<lambda>_. False) (unlines dup_lines)
     = Inr [[''10.0.0.0/8'', ''1''], [''10.0.0.1/32'', ''1''], [''10.0.0.0/8'', ''1'']]"
proof -
  let ?a = "\<lparr>IP = Prefix (V4 0x0A000000) 8, Enable = True\<rparr>"
  let ?b = "\<lparr>IP = Prefix (V4 0x0A000001) 32, Enable = True\<rparr>"
  have ok: "\<forall>(e, off) \<in> set (entries (unlines dup_lines)). entry_ok e" using entries_ok by auto
  have csv: "EncodeCSV ?a = [''10.0.0.0/8'', ''1'']" "EncodeCSV ?b = [''10.0.0.1/32'', ''1'']"
    by (simp_all add: EncodeCSV_def show_prefix_def show_v4_def show_nat.simps char_of_def bit_0)
  have lim: "MaxInMemoryEntries DefaultImportOption = 0" by (simp add: DefaultImportOption_def)
  have "first_of_each {} [?a, ?b, ?a] = [?a, ?b]" "drop_repeats None [?a, ?b, ?a] = [?a, ?b, ?a]"
    by simp_all
  with map_handler_succeeds [OF ok refl, of 0 dedup_start]
    disk_handler_run [OF ok refl, of "\<lparr>last_ip = None, rows = [], visits = 0\<rparr>"]
  show ?thesis
    by (auto simp: importIPListMap_def importIPListDisk_def ReadCSV_entries dup_sorted dup_entries
        dedup_start_def lim csv)
qed
end
