(* ===== verification/IPStream.thy ===== *)
theory IPStream
  imports IPEntry
begin

text \<open>
  Expanding an IP list into addresses in file order: \<open>StreamCIDR\<close> of
  \<open>internal/core/netutil/ip.go\<close> and \<open>StreamCIDR\<close>, \<open>StreamActiveIPs\<close> and
  \<open>streamActiveIPsSequential\<close> of \<open>internal/core/iplist/parser.go\<close>. The channel is the list
  of addresses sent so far; \<open>cancel n\<close> says whether the select that would send the \<open>n\<close>-th
  address takes the branch of the cancelled context instead.
\<close>

record sink =
  sent :: "addr list"
  cnt :: u64

datatype stream_err = StreamCancelled | StreamParse | StreamPanic

definition empty_sink :: sink where
  "empty_sink = \<lparr>sent = [], cnt = 0\<rparr>"

definition send :: "addr \<Rightarrow> sink \<Rightarrow> sink" where
  "send a st = \<lparr>sent = sent st @ [a], cnt = cnt st + 1\<rparr>"

lemma send_sel [simp]: "sent (send a st) = sent st @ [a]" "cnt (send a st) = cnt st + 1"
  by (simp_all add: send_def)

subsection \<open>The operations\<close>

lemma unat_plus_1: "w + 1 \<noteq> 0 \<Longrightarrow> unat (w + 1) = Suc (unat w)" for w :: "'a::len word"
  by (metis unatSuc add.commute)

function cidr_loop ::
  "(nat \<Rightarrow> bool) \<Rightarrow> prefix \<Rightarrow> u64 \<Rightarrow> sink \<Rightarrow> addr \<Rightarrow> stream_err option \<times> sink" where
  "cidr_loop cancel p limit st cur =
     (if \<not> contains p cur then (None, st)
      else if 0 < limit \<and> limit \<le> cnt st then (None, st)
      else if cancel (length (sent st)) then (Some StreamCancelled, st)
      else case next_addr cur of
             None \<Rightarrow> (None, send cur st)
           | Some a \<Rightarrow> cidr_loop cancel p limit (send cur st) a)"
  by pat_completeness auto
termination
proof (relation "measure (\<lambda>(cancel, p, limit, st, a). 2 ^ bit_len a - addr_val a)", goal_cases)
  case (2 cancel p limit st cur a)
  from 2(4) have "bit_len a = bit_len cur \<and> addr_val a = addr_val cur + 1"
    by (cases cur) (auto simp: unat_plus_1 split: if_splits)
  then show ?case using addr_val_bound [of cur] by simp
qed simp

declare cidr_loop.simps [simp del]

text \<open>\<open>iplist.StreamCIDR\<close>: the caller owns the counter.\<close>

definition StreamCIDR ::
  "(nat \<Rightarrow> bool) \<Rightarrow> prefix \<Rightarrow> u64 \<Rightarrow> sink \<Rightarrow> stream_err option \<times> sink" where
  "StreamCIDR cancel p limit st =
     (let q = masked p in cidr_loop cancel q limit st (paddr q))"

text \<open>\<open>netutil.StreamCIDR\<close>: parses the prefix and counts from zero. The membership test is
  on the prefix as written, which \<open>Contains\<close> masks itself.\<close>

definition netutil_StreamCIDR ::
  "(nat \<Rightarrow> bool) \<Rightarrow> string \<Rightarrow> u64 \<Rightarrow> stream_err option \<times> sink" where
  "netutil_StreamCIDR cancel cidr limit =
     (case ParsePrefix cidr of
        None \<Rightarrow> (Some StreamParse, empty_sink)
      | Some p \<Rightarrow> cidr_loop cancel p limit empty_sink (paddr (masked p)))"

definition seq_handler ::
  "(nat \<Rightarrow> bool) \<Rightarrow> u64 \<Rightarrow> sink \<Rightarrow> ip_list \<times> nat \<Rightarrow> stream_err verdict \<times> sink" where
  "seq_handler cancel limit st eo =
     (let row = fst eo
      in if \<not> Enable row then (Continue, st)
         else if 0 < limit \<and> limit \<le> cnt st then (StopEOF, st)
         else if \<not> IsSingle row then
           (case StreamCIDR cancel (IP row) limit st of
              (None, st') \<Rightarrow> (Continue, st')
            | (Some e, st') \<Rightarrow> (Fail e, st'))
         else if cancel (length (sent st)) then (Fail StreamCancelled, st)
         else (Continue, send (paddr (IP row)) st))"

definition streamActiveIPsSequential ::
  "(nat \<Rightarrow> bool) \<Rightarrow> string \<Rightarrow> u64 \<Rightarrow> stream_err option \<times> sink" where
  "streamActiveIPsSequential cancel file limit =
     ReadCSV file (seq_handler cancel limit) empty_sink"

definition default_limit :: "u64 \<Rightarrow> u64" where
  "default_limit limit = (if limit = 0 then max_u64 - 1 else limit)"

subsection \<open>What is sent\<close>

text \<open>
  \<open>feed\<close> sends a list of addresses one by one, up to the limit and until the context is
  cancelled: the contract of every stream of the package.
\<close>

definition reached :: "u64 \<Rightarrow> nat \<Rightarrow> bool" where
  "reached limit n \<longleftrightarrow> limit \<noteq> 0 \<and> unat limit \<le> n"

fun feed :: "(nat \<Rightarrow> bool) \<Rightarrow> u64 \<Rightarrow> addr list \<Rightarrow> addr list \<Rightarrow> stream_err option \<times> addr list" where
  "feed cancel limit [] out = (None, out)"
| "feed cancel limit (x # xs) out =
     (if reached limit (length out) then (None, out)
      else if cancel (length out) then (Some StreamCancelled, out)
      else feed cancel limit xs (out @ [x]))"

lemma feed_reached: "reached limit (length out) \<Longrightarrow> feed cancel limit xs out = (None, out)"
  by (cases xs) auto

lemma feed_append:
  "feed cancel limit (xs @ ys) out =
     (case feed cancel limit xs out of
        (None, out') \<Rightarrow> feed cancel limit ys out'
      | (Some e, out') \<Rightarrow> (Some e, out'))"
  by (induction xs arbitrary: out) (auto simp: feed_reached)

definition within_limit :: "u64 \<Rightarrow> addr list \<Rightarrow> addr list" where
  "within_limit limit xs = (if limit = 0 then xs else take (unat limit) xs)"

text \<open>How many of \<open>n\<close> sends happen before the context wins a select.\<close>

definition sends_before :: "(nat \<Rightarrow> bool) \<Rightarrow> nat \<Rightarrow> nat" where
  "sends_before cancel n = length (takeWhile (\<lambda>i. \<not> cancel i) [0 ..< n])"

definition delivered :: "(nat \<Rightarrow> bool) \<Rightarrow> addr list \<Rightarrow> stream_err option \<times> addr list" where
  "delivered cancel all =
     (let k = sends_before cancel (length all)
      in (if k < length all then Some StreamCancelled else None, take k all))"

definition room :: "u64 \<Rightarrow> nat \<Rightarrow> addr list \<Rightarrow> addr list" where
  "room limit n xs = (if limit = 0 then xs else take (unat limit - n) xs)"

lemma room_simps:
  "reached limit n \<Longrightarrow> room limit n xs = []"
  "\<not> reached limit n \<Longrightarrow> room limit n (x # xs) = x # room limit (Suc n) xs"
  "room limit n [] = []"
  by (auto simp: room_def reached_def take_Suc_Cons_if)

definition accepted :: "(nat \<Rightarrow> bool) \<Rightarrow> nat \<Rightarrow> addr list \<Rightarrow> nat" where
  "accepted cancel n ys = length (takeWhile (\<lambda>i. \<not> cancel i) [n ..< n + length ys])"

lemma accepted_simps:
  "accepted cancel n [] = 0"
  "accepted cancel n (y # ys) = (if cancel n then 0 else Suc (accepted cancel (Suc n) ys))"
  by (simp_all add: accepted_def upt_conv_Cons del: upt_Suc)

lemma feed_accumulates:
  "feed cancel limit xs out =
    (if accepted cancel (length out) (room limit (length out) xs) < length (room limit (length out) xs)
     then Some StreamCancelled else None,
     out @ take (accepted cancel (length out) (room limit (length out) xs)) (room limit (length out) xs))"
proof (induction xs arbitrary: out)
  case (Cons x xs)
  then show ?case
    by (cases "reached limit (length out)") (simp_all add: room_simps accepted_simps)
qed (simp add: room_simps accepted_simps)

lemma feed_delivers: "feed cancel limit xs [] = delivered cancel (within_limit limit xs)"
  by (simp only: feed_accumulates delivered_def sends_before_def accepted_def Let_def
      room_def within_limit_def list.size(3) add_0 diff_zero append_Nil)

text \<open>The counter of the sink is exact as long as a limit is set.\<close>

definition counted :: "u64 \<Rightarrow> sink \<Rightarrow> bool" where
  "counted limit st \<longleftrightarrow>
     limit = 0 \<or> (unat (cnt st) = length (sent st) \<and> length (sent st) \<le> unat limit)"

lemma counted_empty [simp]: "counted limit empty_sink"
  by (simp add: counted_def empty_sink_def)

lemma counted_stop: "counted limit st \<Longrightarrow> 0 < limit \<and> limit \<le> cnt st \<longleftrightarrow> reached limit (length (sent st))"
  by (auto simp: counted_def reached_def word_le_nat_alt word_neq_0_conv)

lemma counted_send:
  assumes "counted limit st" and "\<not> reached limit (length (sent st))"
  shows "counted limit (send a st)"
proof (cases "limit = 0")
  case False
  with assms have less: "length (sent st) < unat limit" and eq: "unat (cnt st) = length (sent st)"
    by (auto simp: counted_def reached_def)
  then have "unat (cnt st + 1) = Suc (length (sent st))"
    using unat_u64_less [of limit] by (simp add: unat_word_ariths)
  with less show ?thesis by (simp add: counted_def)
qed (simp add: counted_def)

text \<open>A stream step agrees with feeding \<open>xs\<close>.\<close>

definition feeds :: "(nat \<Rightarrow> bool) \<Rightarrow> u64 \<Rightarrow> addr list \<Rightarrow> sink \<Rightarrow> stream_err option \<times> sink \<Rightarrow> bool" where
  "feeds cancel limit xs st r \<longleftrightarrow>
     (fst r, sent (snd r)) = feed cancel limit xs (sent st) \<and> (counted limit (snd r))"

lemma contains_addr_plus:
  "i < 2 ^ host_bits p \<Longrightarrow> contains (masked p) (addr_plus (base_addr p) i)"
  using set_prefix_addrs [of p] by (auto simp: prefix_addrs_def)

lemma next_in_prefix:
  assumes "i < 2 ^ host_bits p"
  shows "(case next_addr (addr_plus (base_addr p) i) of
            None \<Rightarrow> Suc i = 2 ^ host_bits p
          | Some a \<Rightarrow> a = addr_plus (base_addr p) (Suc i)
                     \<and> (contains (masked p) a \<longleftrightarrow> Suc i < 2 ^ host_bits p))"
proof -
  let ?b = "base_addr p" and ?h = "2 ^ host_bits p :: nat"
  have v: "addr_val (addr_plus ?b i) = addr_val ?b + i" using assms by (rule addr_val_prefix_addrs)
  show ?thesis
  proof (cases "addr_val ?b + i + 1 = 2 ^ bit_len ?b")
    case True
    with base_end_le [of p] assms v show ?thesis by (simp add: next_addr_plus)
  next
    case False
    with base_end_le [of p] assms have "addr_val ?b + Suc i < 2 ^ bit_len ?b" by simp
    then have w: "addr_val (addr_plus ?b (Suc i)) = addr_val ?b + Suc i" by (rule addr_val_plus)
    show ?thesis
      using False v w by (auto simp: next_addr_plus contains_iff_range same_family_def)
  qed
qed

lemma cidr_loop_feeds:
  assumes "i < 2 ^ host_bits p" and "counted limit st"
    and "\<And>x. contains q x = contains (masked p) x"
  shows "feeds cancel limit (map (addr_plus (base_addr p)) [i ..< 2 ^ host_bits p]) st
           (cidr_loop cancel q limit st (addr_plus (base_addr p) i))"
  using assms(1,2)
proof (induction "2 ^ host_bits p - Suc i" arbitrary: i st)
  case 0
  let ?a = "addr_plus (base_addr p) i"
  have end_: "Suc i = 2 ^ host_bits p" using 0 by simp
  have outside: "\<not> contains q a" if "next_addr ?a = Some a" for a
    using next_in_prefix [OF 0(2)] that assms(3) unfolding end_ by auto
  have "cidr_loop cancel q limit st ?a =
      (if reached limit (length (sent st)) then (None, st)
       else if cancel (length (sent st)) then (Some StreamCancelled, st) else (None, send ?a st))"
    using contains_addr_plus [OF 0(2)] counted_stop [OF 0(3)] outside
    by (subst cidr_loop.simps)
      (auto simp: assms(3) cidr_loop.simps [of cancel q limit "send ?a st"] split: option.split)
  moreover have "[i ..< 2 ^ host_bits p] = [i]" using end_ [symmetric] by simp
  ultimately show ?case
    using 0(3) counted_send [OF 0(3)] by (auto simp: feeds_def)
next
  case (Suc n)
  let ?a = "addr_plus (base_addr p) i"
  have less: "Suc i < 2 ^ host_bits p" using Suc(2) by simp
  obtain a where a: "next_addr ?a = Some a" and eq: "a = addr_plus (base_addr p) (Suc i)"
    using next_in_prefix [OF Suc(3)] less by (auto split: option.splits)
  have loop: "cidr_loop cancel q limit st ?a =
      (if reached limit (length (sent st)) then (None, st)
       else if cancel (length (sent st)) then (Some StreamCancelled, st)
       else cidr_loop cancel q limit (send ?a st) (addr_plus (base_addr p) (Suc i)))"
    using contains_addr_plus [OF Suc(3)] counted_stop [OF Suc(4)] a eq
    by (subst cidr_loop.simps) (auto simp: assms(3))
  have list: "[i ..< 2 ^ host_bits p] = i # [Suc i ..< 2 ^ host_bits p]"
    using Suc(3) by (simp add: upt_conv_Cons)
  have "n = 2 ^ host_bits p - Suc (Suc i)" using Suc(2) by simp
  from Suc(1) [OF this less counted_send [OF Suc(4)]] loop Suc(4) show ?case
    by (auto simp: feeds_def list)
qed

lemma StreamCIDR_feeds:
  "counted limit st \<Longrightarrow> feeds cancel limit (prefix_addrs p) st (StreamCIDR cancel p limit st)"
  using cidr_loop_feeds [of 0 p limit st "masked p" cancel]
  by (simp add: StreamCIDR_def prefix_addrs_def Let_def)

lemma contains_masked: "valid_prefix p \<Longrightarrow> contains p x \<longleftrightarrow> contains (masked p) x"
proof (cases "same_family (paddr p) x")
  case True
  obtain a b where p: "p = Prefix a b" by (cases p)
  show ?thesis
    using True div_eq_iff_range [of "2 ^ host_bits p"]
    by (simp only: contains_iff_range addr_val_base)
      (cases a; cases x; simp add: p same_family_def host_bits_def drop_bit_xor_0 del: drop_bit_xor)
next
  case False
  then show ?thesis
    by (cases p; cases "paddr p"; cases x) (auto simp: same_family_def masked_def)
qed

text \<open>\<open>netutil.StreamCIDR\<close> sends the addresses of the prefix in ascending order, all of
  them or as many as the limit allows, and stops early exactly when the context is cancelled
  at a send; a text that is no prefix sends nothing.\<close>

theorem netutil_StreamCIDR_sends_range:
  "case ParsePrefix cidr of
     None \<Rightarrow> netutil_StreamCIDR cancel cidr limit = (Some StreamParse, empty_sink)
   | Some p \<Rightarrow>
       (\<exists>st. netutil_StreamCIDR cancel cidr limit
               = (fst (delivered cancel (within_limit limit (prefix_addrs p))), st)
             \<and> sent st = snd (delivered cancel (within_limit limit (prefix_addrs p))))"
proof (cases "ParsePrefix cidr")
  case (Some p)
  have "feeds cancel limit (prefix_addrs p) empty_sink (netutil_StreamCIDR cancel cidr limit)"
    using cidr_loop_feeds [of 0 p limit empty_sink p cancel] Some
      contains_masked [OF ParsePrefix_valid [OF Some]]
    by (simp add: netutil_StreamCIDR_def prefix_addrs_def)
  then show ?thesis
    using Some
    by (cases "netutil_StreamCIDR cancel cidr limit")
      (auto simp: feeds_def feed_delivers empty_sink_def prod_eq_iff)
qed (simp add: netutil_StreamCIDR_def)

subsection \<open>The sequential stream\<close>

definition active_addrs :: "(ip_list \<times> nat) list \<Rightarrow> addr list" where
  "active_addrs es = concat (map (prefix_addrs \<circ> IP \<circ> fst) (filter (Enable \<circ> fst) es))"

lemma length_active_addrs: "length (active_addrs es) = active_total es"
  by (induction es) (auto simp: active_addrs_def active_total_def)

lemma prefix_addrs_single:
  assumes "entry_ok e" and "IsSingle e"
  shows "prefix_addrs (IP e) = [paddr (IP e)]"
proof -
  have "host_bits (IP e) = 0" using assms(2) by (simp add: IsSingle_def host_bits_def)
  moreover have "base_addr (IP e) = paddr (IP e)" using assms(1) by (metis entry_ok_def base_addr_def)
  ultimately show ?thesis by (simp add: prefix_addrs_def)
qed

lemma seq_handler_feeds:
  assumes "entry_ok e" and "counted limit st" and "Enable e"
  shows "case seq_handler cancel limit st (e, off) of
           (Continue, st') \<Rightarrow> feeds cancel limit (prefix_addrs (IP e)) st (None, st')
         | (StopEOF, st') \<Rightarrow> st' = st \<and> reached limit (length (sent st))
         | (Fail er, st') \<Rightarrow> feeds cancel limit (prefix_addrs (IP e)) st (Some er, st')"
proof (cases "reached limit (length (sent st))")
  case True
  with assms show ?thesis using counted_stop [OF assms(2)] by (simp add: seq_handler_def)
next
  case False
  note room = counted_stop [OF assms(2)]
  show ?thesis
  proof (cases "IsSingle e")
    case True
    with False assms room counted_send [OF assms(2) False] show ?thesis
      by (simp add: seq_handler_def feeds_def prefix_addrs_single)
  next
    case multi: False
    with False assms(3) room StreamCIDR_feeds [OF assms(2), of cancel "IP e"] show ?thesis
      by (auto simp: seq_handler_def split: prod.split option.split)
  qed
qed

lemma seq_run_feeds:
  assumes "\<forall>(e, off) \<in> set es. entry_ok e" and "counted limit st"
  shows "feeds cancel limit (active_addrs es) st (run_records (seq_handler cancel limit) es st)"
  using assms
proof (induction es arbitrary: st)
  case Nil
  then show ?case by (simp add: feeds_def active_addrs_def)
next
  case (Cons x es)
  obtain e off where x: "x = (e, off)" by (cases x)
  show ?case
  proof (cases "Enable e")
    case False
    with Cons x show ?thesis by (simp add: seq_handler_def active_addrs_def)
  next
    case True
    have all: "active_addrs (x # es) = prefix_addrs (IP e) @ active_addrs es"
      using True x by (simp add: active_addrs_def)
    obtain v st' where h: "seq_handler cancel limit st x = (v, st')" by fastforce
    have f: "case v of Continue \<Rightarrow> feeds cancel limit (prefix_addrs (IP e)) st (None, st')
         | StopEOF \<Rightarrow> st' = st \<and> reached limit (length (sent st))
         | Fail er \<Rightarrow> feeds cancel limit (prefix_addrs (IP e)) st (Some er, st')"
      using seq_handler_feeds [of e limit st cancel off] Cons.prems True h by (simp add: x)
    show ?thesis
    proof (cases v)
      case Continue
      with f have r: "feed cancel limit (prefix_addrs (IP e)) (sent st) = (None, sent st')"
        and c: "counted limit st'" by (auto simp: feeds_def)
      from Cons.IH [OF _ c] Cons.prems(1) show ?thesis
        by (simp add: all feeds_def feed_append r h Continue)
    next
      case StopEOF
      with f Cons.prems(2) show ?thesis
        by (simp add: all feeds_def feed_append feed_reached h)
    next
      case (Fail er)
      with f have r: "feed cancel limit (prefix_addrs (IP e)) (sent st) = (Some er, sent st')"
        and c: "counted limit st'" by (auto simp: feeds_def)
      then show ?thesis by (simp add: all feeds_def feed_append h Fail)
    qed
  qed
qed

text \<open>C2. The sequential stream sends the addresses of the enabled entries in file order,
  every prefix expanded in ascending order, cut off at the limit: disabled entries,
  single hosts, the limit in the middle of a range and a cancelled context are all this one
  rule, and the stream fails only when the context is cancelled before the last send.\<close>

theorem sequential_stream_exact:
  "\<exists>st. streamActiveIPsSequential cancel content limit
          = (fst (delivered cancel (within_limit limit (active_addrs (entries content)))), st)
        \<and> sent st = snd (delivered cancel (within_limit limit (active_addrs (entries content))))"
proof -
  have "\<forall>(e, off) \<in> set (entries content). entry_ok e" using entries_ok by auto
  from seq_run_feeds [OF this counted_empty, of cancel limit] show ?thesis
    by (cases "streamActiveIPsSequential cancel content limit")
      (auto simp: streamActiveIPsSequential_def ReadCSV_entries feeds_def feed_delivers
        empty_sink_def prod_eq_iff)
qed

lemma delivered_all: "delivered (\<lambda>_. False) xs = (None, xs)"
  by (simp add: delivered_def sends_before_def Let_def takeWhile_eq_all_conv [THEN iffD2])

end
