(* ===== verification/FullPeriod.thy ===== *)
theory FullPeriod
  imports Main
begin

text \<open>
  Linear congruential generators modulo a power of two: with a multiplier that is one
  modulo four and an odd increment the generator runs through all residues before it
  repeats one (Hull and Dobell). The shuffled stream of an IP list relies on this to visit
  every address once.
\<close>

definition geo :: "nat \<Rightarrow> nat \<Rightarrow> nat" where
  "geo a n = (\<Sum>i<n. a ^ i)"

lemma geo_simps [simp]: "geo a 0 = 0" "geo a (Suc n) = geo a n + a ^ n"
  by (simp_all add: geo_def)

lemma geo_add: "geo a (m + n) = geo a m + a ^ m * geo a n"
  by (induction n) (simp_all add: algebra_simps power_add)

fun iterate :: "nat \<Rightarrow> ('a \<Rightarrow> 'a) \<Rightarrow> 'a \<Rightarrow> 'a" where
  "iterate 0 f x = x"
| "iterate (Suc n) f x = iterate n f (f x)"

lemma iterate_Suc: "iterate (Suc n) f x = f (iterate n f x)"
  by (induction n arbitrary: x) auto

lemma iterate_add: "iterate (m + n) f x = iterate m f (iterate n f x)"
  by (induction n arbitrary: x) auto

locale full_period =
  fixes a c :: nat
  assumes mult: "a mod 4 = 1" and incr: "odd c"
begin

definition stepm :: "nat \<Rightarrow> nat \<Rightarrow> nat" where
  "stepm m x = (a * x + c) mod m"

lemma odd_a: "odd a"
  using mult by presburger

lemma pow_mod_4: "a ^ n mod 4 = 1"
  using mult by (induction n) (simp_all add: mod_mult_eq [symmetric])

lemma odd_geo: "odd (geo a n) \<longleftrightarrow> odd n"
  using odd_a by (induction n) auto

lemma geo_double: "\<exists>u. odd u \<and> geo a (2 * n) = 2 * (u * geo a n)"
proof -
  have "(1 + a ^ n) mod 4 = 2" using pow_mod_4 [of n] by presburger
  then have "even (1 + a ^ n)" and "odd ((1 + a ^ n) div 2)" by presburger+
  then obtain u where "odd u" "1 + a ^ n = 2 * u"
    by (metis dvd_mult_div_cancel)
  moreover have "geo a (2 * n) = (1 + a ^ n) * geo a n"
    by (simp only: mult_2 geo_add) (simp add: algebra_simps)
  ultimately show ?thesis by (metis mult.assoc)
qed

lemma pow2_dvd_geo: "2 ^ k dvd geo a n \<longleftrightarrow> 2 ^ k dvd n"
proof (induction k arbitrary: n)
  case (Suc k)
  show ?case
  proof (cases "even n")
    case True
    then obtain h where h: "n = 2 * h" by blast
    obtain u where u: "odd u" "geo a n = 2 * (u * geo a h)" using geo_double h by blast
    have "coprime (2 ^ k) u" using u(1) by simp
    then have "2 ^ k dvd u * geo a h \<longleftrightarrow> 2 ^ k dvd geo a h"
      by (simp add: coprime_dvd_mult_right_iff)
    moreover have "geo a n = 2 * (u * geo a h)" by (rule u(2))
    ultimately show ?thesis by (simp add: h Suc [of h])
  next
    case False
    then show ?thesis using odd_geo [of n] by (metis dvd_mult_left power_Suc)
  qed
qed simp

text \<open>The generator before reduction, and its distance from the start.\<close>

definition pure :: "nat \<Rightarrow> nat" where
  "pure x = a * x + c"

lemma geo_pow: "a = Suc b \<Longrightarrow> b * geo a n + 1 = a ^ n"
  by (induction n) (simp_all add: algebra_simps)

lemma iterate_pure: "iterate n pure x = x + ((a - 1) * x + c) * geo a n"
proof (induction n)
  case (Suc n)
  obtain b where b: "a = Suc b" using odd_a by (metis even_zero not0_implies_Suc)
  then have a1: "a - 1 = b" by simp
  let ?d = "b * x + c"
  have "iterate (Suc n) pure x = a * (x + ?d * geo a n) + c"
    by (simp only: iterate_Suc Suc a1) (simp only: pure_def)
  also have "\<dots> = x + (b * x + c) + ?d * (geo a n + b * geo a n)"
    by (simp only: b) (simp add: algebra_simps)
  also have "\<dots> = x + ?d * (geo a n + (b * geo a n + 1))" by (simp add: algebra_simps)
  also have "\<dots> = x + ?d * geo a (Suc n)" by (simp only: geo_pow [OF b] geo_simps)
  finally show ?case by (simp only: a1)
qed simp

lemma mod_affine: "(u * (v mod m) + w) mod m = (u * v + w) mod m" for u v w m :: nat
  by (metis mod_add_left_eq mod_mult_right_eq)

lemma iterate_stepm: "iterate n (stepm m) x mod m = iterate n pure x mod m"
proof (induction n)
  case (Suc n)
  have "iterate (Suc n) (stepm m) x mod m = (a * (iterate n (stepm m) x mod m) + c) mod m"
    by (simp only: iterate_Suc stepm_def mod_mod_trivial mod_affine)
  also have "\<dots> = iterate (Suc n) pure x mod m"
    by (simp only: Suc iterate_Suc mod_affine) (simp only: pure_def)
  finally show ?case .
qed simp

lemma stepm_less: "0 < m \<Longrightarrow> x < m \<Longrightarrow> iterate n (stepm m) x < m"
  by (induction n arbitrary: x) (auto simp: stepm_def)

lemma return_iff:
  assumes "x < 2 ^ k"
  shows "iterate n (stepm (2 ^ k)) x = x \<longleftrightarrow> 2 ^ k dvd n"
proof -
  let ?u = "(a - 1) * x + c"
  have "even (a - 1)" using odd_a by simp
  then have "odd ?u" using incr by simp
  then have coprime: "coprime (2 ^ k) ?u" by simp
  have "iterate n (stepm (2 ^ k)) x = x \<longleftrightarrow> iterate n (stepm (2 ^ k)) x mod 2 ^ k = x mod 2 ^ k"
    using assms stepm_less [of "2 ^ k" x n] by simp
  also have "\<dots> \<longleftrightarrow> (x + ?u * geo a n) mod 2 ^ k = x mod 2 ^ k"
    by (simp only: iterate_stepm iterate_pure)
  also have "\<dots> \<longleftrightarrow> 2 ^ k dvd ?u * geo a n"
    using mod_eq_dvd_iff_nat [of x "x + ?u * geo a n" "2 ^ k"] by (simp add: eq_commute)
  also have "\<dots> \<longleftrightarrow> 2 ^ k dvd n"
    using coprime by (simp add: coprime_dvd_mult_right_iff pow2_dvd_geo)
  finally show ?thesis .
qed

definition orbit :: "nat \<Rightarrow> nat \<Rightarrow> nat list" where
  "orbit k x = map (\<lambda>n. iterate (Suc n) (stepm (2 ^ k)) x) [0 ..< 2 ^ k]"

lemma orbit_distinct:
  assumes "x < 2 ^ k"
  shows "distinct (orbit k x)"
proof -
  let ?f = "stepm (2 ^ k)"
  have no_return: False
    if "i < j" "j < 2 ^ k" "iterate (Suc i) ?f x = iterate (Suc j) ?f x" for i j
  proof -
    let ?y = "iterate (Suc i) ?f x"
    have "iterate (j - i) ?f ?y = ?y"
      using that(1,3) iterate_add [of "j - i" "Suc i" ?f x] by simp
    moreover have "?y < 2 ^ k" using assms by (intro stepm_less) auto
    ultimately have "2 ^ k dvd j - i" using return_iff by blast
    with that show False by (auto dest: dvd_imp_le)
  qed
  show ?thesis
    unfolding orbit_def distinct_map
  proof (intro conjI inj_onI)
    fix i j
    assume "i \<in> set [0..<2 ^ k]" "j \<in> set [0..<2 ^ k]"
      "iterate (Suc i) ?f x = iterate (Suc j) ?f x"
    then show "i = j" using no_return [of i j] no_return [of j i] by (cases i j rule: linorder_cases) auto
  qed simp
qed

lemma orbit_all:
  assumes "x < 2 ^ k"
  shows "set (orbit k x) = {0 ..< 2 ^ k}"
proof (rule card_subset_eq)
  show "set (orbit k x) \<subseteq> {0 ..< 2 ^ k}"
    using assms stepm_less [of "2 ^ k" x] by (auto simp: orbit_def simp del: iterate.simps)
  show "card (set (orbit k x)) = card {0 ..< (2::nat) ^ k}"
    using distinct_card [OF orbit_distinct [OF assms]] by (simp add: orbit_def)
qed simp

end

end
