(* ===== verification/IPShuffle.thy ===== *)
theory IPShuffle
  imports IPStream FullPeriod
begin

text \<open>
  The shuffled stream of an IP list, \<open>internal/core/iplist/shuffle.go\<close>: the index over the
  file, the linear congruential generator that visits every index once, and the two ways from
  an index to an address. The random source is a parameter: \<open>seed\<close> is the word the generator
  starts from, \<open>draws\<close> the bytes behind the random offsets.
\<close>

record cidr_block =
  StartIP :: addr
  TotalIPs :: u64
  GlobalIdx :: u64

record master_indexer =
  CIDRBlocks :: "cidr_block list"
  SingleOffsets :: "nat list"
  TotalCIDRIPs :: u64
  TotalSingles :: u64
  GrandTotal :: u64

record raw_entry =
  start_ip :: addr
  offset :: nat
  esize :: nat
  isCIDR :: bool

subsection \<open>Address arithmetic\<close>

text \<open>The 16 bytes of an address, the last one first, as the loops visit them.\<close>

fun low_bytes :: "nat \<Rightarrow> nat \<Rightarrow> nat list" where
  "low_bytes 0 n = []"
| "low_bytes (Suc k) n = (n mod 256) # low_bytes k (n div 256)"

fun bytes_nat :: "nat list \<Rightarrow> nat" where
  "bytes_nat [] = 0"
| "bytes_nat (b # bs) = b + 256 * bytes_nat bs"

fun add_loop64 :: "nat list \<Rightarrow> u64 \<Rightarrow> nat list" where
  "add_loop64 [] carry = []"
| "add_loop64 (b # bs) carry =
     (if carry = 0 then b # bs
      else let s = of_nat b + (carry AND 0xFF)
           in unat (s AND 0xFF) # add_loop64 bs (drop_bit 8 carry + drop_bit 8 s))"

fun add_loop_big :: "nat list \<Rightarrow> nat \<Rightarrow> nat list" where
  "add_loop_big [] carry = []"
| "add_loop_big (b # bs) carry =
     (if carry = 0 then b # bs
      else let s = b + carry mod 256
           in (s mod 256) # add_loop_big bs (carry div 256 + s div 256))"

definition addr_bytes :: "addr \<Rightarrow> nat list" where
  "addr_bytes a = low_bytes 16 (unat (as16 a))"

definition addr_of_bytes :: "nat list \<Rightarrow> addr" where
  "addr_of_bytes bs = unmap16 (of_nat (bytes_nat bs))"

definition addOffsetToAddr :: "addr \<Rightarrow> u64 \<Rightarrow> addr" where
  "addOffsetToAddr a off = addr_of_bytes (add_loop64 (addr_bytes a) off)"

definition addBigOffset :: "addr \<Rightarrow> nat \<Rightarrow> addr" where
  "addBigOffset a off = addr_of_bytes (add_loop_big (addr_bytes a) off)"

lemma bytes_nat_low: "bytes_nat (low_bytes k n) = n mod 256 ^ k"
proof (induction k arbitrary: n)
  case (Suc k)
  have "n mod 256 ^ Suc k = n mod 256 + 256 * (n div 256 mod 256 ^ k)"
    by (simp add: mod_mult2_eq)
  with Suc show ?case by simp
qed simp

lemma bytes_low: "\<forall>b \<in> set (low_bytes k n). b < 256"
  by (induction k arbitrary: n) auto

lemma length_low_bytes [simp]: "length (low_bytes k n) = k"
  by (induction k arbitrary: n) auto

lemma length_add_loop_big [simp]: "length (add_loop_big bs c) = length bs"
  by (induction bs c rule: add_loop_big.induct) (auto simp: Let_def)

lemma digit_mod: "r < 256 \<Longrightarrow> (r + 256 * q) mod (256 * m) = r + 256 * (q mod m)" for r q m :: nat
  by (simp add: mod_mult2_eq)

lemma bytes_nat_less: "\<forall>b \<in> set bs. b < 256 \<Longrightarrow> bytes_nat bs < 256 ^ length bs"
proof (induction bs)
  case (Cons b bs)
  then have "b + 256 * bytes_nat bs < 256 + 256 * bytes_nat bs" by simp
  also have "\<dots> \<le> 256 * 256 ^ length bs" using Cons by simp
  finally show ?case by simp
qed simp

lemma carry_eq:
  "s = 256 * t + r \<Longrightarrow> c = 256 * d + e \<Longrightarrow> s = b + e \<Longrightarrow> r + 256 * (q + (d + t)) = b + 256 * q + c"
  for s t r c d e b q :: nat
  by simp

lemma add_loop_big_val:
  "\<forall>b \<in> set bs. b < 256 \<Longrightarrow> bytes_nat (add_loop_big bs c) = (bytes_nat bs + c) mod 256 ^ length bs"
proof (induction bs c rule: add_loop_big.induct)
  case (2 b bs c)
  show ?case
  proof (cases "c = 0")
    case True
    with bytes_nat_less [OF 2(2)] show ?thesis by simp
  next
    case False
    let ?s = "b + c mod 256"
    let ?q = "bytes_nat bs + (c div 256 + ?s div 256)"
    have "bytes_nat (add_loop_big (b # bs) c)
        = ?s mod 256 + 256 * ((bytes_nat bs + (c div 256 + ?s div 256)) mod 256 ^ length bs)"
      using 2 False by (simp add: Let_def)
    also have "\<dots> = (?s mod 256 + 256 * ?q) mod (256 * 256 ^ length bs)"
      by (rule digit_mod [symmetric]) simp
    also have "?s mod 256 + 256 * (bytes_nat bs + (c div 256 + ?s div 256))
        = b + 256 * bytes_nat bs + c"
      by (rule carry_eq [OF mult_div_mod_eq [symmetric] mult_div_mod_eq [symmetric] refl])
    finally show ?thesis by simp
  qed
qed simp

lemma and_255: "unat (w AND 0xFF :: u64) = unat w mod 256"
proof -
  have "(0xFF :: u64) = mask 8" by (simp add: mask_eq_exp_minus_1)
  then have "w AND 0xFF = take_bit 8 w" by (simp add: take_bit_eq_mask)
  then show ?thesis by (simp only: unsigned_take_bit_eq) (simp add: take_bit_eq_mod)
qed

lemma add_loop64_big:
  "\<forall>b \<in> set bs. b < 256 \<Longrightarrow> add_loop64 bs c = add_loop_big bs (unat c)"
proof (induction bs c rule: add_loop64.induct)
  case (2 b bs c)
  let ?s = "of_nat b + (c AND 0xFF) :: u64"
  have b: "b < 256" using 2 by simp
  have s: "unat ?s = b + unat c mod 256"
    using b by (simp add: unat_word_ariths and_255 unat_of_nat)
  have d: "unat (drop_bit 8 c) = unat c div 256" "unat (drop_bit 8 ?s) = (b + unat c mod 256) div 256"
    by (simp_all only: unat_drop_bit s) simp_all
  have "unat c div 256 + (b + unat c mod 256) div 256 < 2 ^ 64"
    using unat_u64_less [of c] b by simp
  then have carry: "unat (drop_bit 8 c + drop_bit 8 ?s) = unat c div 256 + (b + unat c mod 256) div 256"
    by (simp only: unat_word_ariths d) simp
  show ?case
  proof (cases "c = 0")
    case False
    then show ?thesis
      using 2(1) [OF False refl] 2(2)
      by (simp only: add_loop64.simps add_loop_big.simps Let_def carry)
        (simp add: and_255 s unat_eq_zero)
  qed simp
qed simp

lemma of_nat_mod_128: "(of_nat (n mod 2 ^ 128) :: 128 word) = of_nat n"
  by (simp add: word_of_nat_eq_iff take_bit_eq_mod)

lemma addBigOffset_eq: "addBigOffset a off = unmap16 (as16 a + of_nat off)"
proof -
  have "bytes_nat (add_loop_big (addr_bytes a) off) = (unat (as16 a) + off) mod 2 ^ 128"
    by (simp add: addr_bytes_def add_loop_big_val bytes_low bytes_nat_low mod_simps)
  then have "addBigOffset a off = unmap16 (of_nat (unat (as16 a) + off))"
    by (simp only: addBigOffset_def addr_of_bytes_def of_nat_mod_128)
  then show ?thesis by simp
qed

lemma addOffsetToAddr_eq: "addOffsetToAddr a off = unmap16 (as16 a + of_nat (unat off))"
  using addBigOffset_eq [of a "unat off"]
  by (simp add: addOffsetToAddr_def addBigOffset_def addr_bytes_def add_loop64_big bytes_low)

subsection \<open>The index\<close>

text \<open>\<open>strings.SplitN(line, ",", 2)\<close>.\<close>

definition split2 :: "string \<Rightarrow> string list" where
  "split2 s = (case cut (CHR '','') s of None \<Rightarrow> [s] | Some (u, v) \<Rightarrow> [u, v])"

definition index_row :: "string \<times> nat \<Rightarrow> (ip_list \<times> nat) option" where
  "index_row lo =
     (let line = trim_space (fst lo)
      in if line = [] then None
         else case ParseRecord (map trim_space (split2 line)) of
                None \<Rightarrow> None
              | Some row \<Rightarrow> if Enable row then Some (row, snd lo) else None)"

definition index_rows :: "string \<Rightarrow> (ip_list \<times> nat) list" where
  "index_rows file = List.map_filter index_row (with_offsets 0 (raw_lines file))"

definition raw_entry_of :: "ip_list \<times> nat \<Rightarrow> raw_entry" where
  "raw_entry_of ro =
     (if IsSingle (fst ro) then \<lparr>start_ip = V6 0, offset = snd ro, esize = 1, isCIDR = False\<rparr>
      else \<lparr>start_ip = paddr (masked (IP (fst ro))), offset = snd ro,
            esize = 2 ^ host_bits (IP (fst ro)), isCIDR = True\<rparr>)"

definition empty_indexer :: master_indexer where
  "empty_indexer = \<lparr>CIDRBlocks = [], SingleOffsets = [], TotalCIDRIPs = 0, TotalSingles = 0,
                    GrandTotal = 0\<rparr>"

text \<open>\<open>globalIdx\<close> is \<open>TotalCIDRIPs\<close>: the code keeps the two equal after every entry.\<close>

definition add_single :: "raw_entry \<Rightarrow> master_indexer \<Rightarrow> master_indexer" where
  "add_single e mi = mi\<lparr>SingleOffsets := SingleOffsets mi @ [offset e],
                       TotalSingles := TotalSingles mi + 1\<rparr>"

definition add_block :: "addr \<Rightarrow> u64 \<Rightarrow> master_indexer \<Rightarrow> master_indexer" where
  "add_block a n mi =
     mi\<lparr>CIDRBlocks := CIDRBlocks mi @ [\<lparr>StartIP = a, TotalIPs = n, GlobalIdx = TotalCIDRIPs mi\<rparr>],
        TotalCIDRIPs := saturatingAdd (TotalCIDRIPs mi) n\<rparr>"

definition add_fitting :: "raw_entry \<Rightarrow> master_indexer \<Rightarrow> master_indexer" where
  "add_fitting e mi =
     (if \<not> isCIDR e then add_single e mi else add_block (start_ip e) (of_nat (esize e)) mi)"

definition seal_total :: "master_indexer \<Rightarrow> master_indexer" where
  "seal_total mi = mi\<lparr>GrandTotal := saturatingAdd (TotalCIDRIPs mi) (TotalSingles mi)\<rparr>"

text \<open>
  \<open>randBigIntBelow\<close>: draw the bytes, keep the low bits, and try again while the number is not
  below the bound. The result is the number and how many draws were used.
\<close>

fun bitlen :: "nat \<Rightarrow> nat" where
  "bitlen n = (if n = 0 then 0 else Suc (bitlen (n div 2)))"

declare bitlen.simps [simp del]

definition drawn :: "(nat \<Rightarrow> nat) \<Rightarrow> nat \<Rightarrow> nat \<Rightarrow> nat" where
  "drawn draws pos k = foldl (\<lambda>n i. 256 * n + draws i mod 256) 0 [pos ..< pos + k]"

partial_function (option) randBigIntBelow ::
  "(nat \<Rightarrow> nat) \<Rightarrow> nat \<Rightarrow> nat \<Rightarrow> (nat \<times> nat) option" where
  "randBigIntBelow draws pos bound =
     (let k = (bitlen bound + 7) div 8; n = drawn draws pos k mod 2 ^ bitlen bound
      in if n < bound then Some (n, pos + k) else randBigIntBelow draws (pos + k) bound)"

definition add_quota ::
  "(nat \<Rightarrow> nat) \<Rightarrow> nat \<Rightarrow> raw_entry \<Rightarrow> master_indexer \<times> nat \<Rightarrow> (master_indexer \<times> nat) option" where
  "add_quota draws all_ips e mp =
     (let quota = esize e * (2 ^ 64 - 1) div all_ips
      in if 2 ^ 64 \<le> quota \<or> quota = 0 then Some mp
         else if \<not> isCIDR e then Some (add_single e (fst mp), snd mp)
         else if esize e \<le> quota then
           Some (add_block (addBigOffset (start_ip e) 0) (of_nat quota) (fst mp), snd mp)
         else map_option
                (\<lambda>(off, pos). (add_block (addBigOffset (start_ip e) off) (of_nat quota) (fst mp), pos))
                (randBigIntBelow draws (snd mp) (esize e - quota)))"

fun add_quotas ::
  "(nat \<Rightarrow> nat) \<Rightarrow> nat \<Rightarrow> raw_entry list \<Rightarrow> master_indexer \<times> nat \<Rightarrow> (master_indexer \<times> nat) option" where
  "add_quotas draws all_ips [] mp = Some mp"
| "add_quotas draws all_ips (e # es) mp =
     Option.bind (add_quota draws all_ips e mp) (add_quotas draws all_ips es)"

definition total_count :: "raw_entry list \<Rightarrow> nat" where
  "total_count es = sum_list (map esize es)"

definition NewMasterIndexer :: "(nat \<Rightarrow> nat) \<Rightarrow> string \<Rightarrow> master_indexer option" where
  "NewMasterIndexer draws file =
     (let es = map raw_entry_of (index_rows file); all_ips = total_count es
      in if file = [] then Some empty_indexer
         else if all_ips = 0 then Some empty_indexer
         else if all_ips \<le> 2 ^ 64 - 1 then Some (seal_total (fold add_fitting es empty_indexer))
         else map_option (seal_total \<circ> fst) (add_quotas draws all_ips es (empty_indexer, 0)))"

subsection \<open>From an index to an address\<close>

text \<open>The block found so far starts as Go's zero value, whose \<open>As16\<close> is sixteen zeros.\<close>

definition zero_block :: cidr_block where
  "zero_block = \<lparr>StartIP = V6 0, TotalIPs = 0, GlobalIdx = 0\<rparr>"

function search_block :: "cidr_block list \<Rightarrow> u64 \<Rightarrow> int \<Rightarrow> int \<Rightarrow> cidr_block \<Rightarrow> cidr_block" where
  "search_block bs idx low high target =
     (if low \<le> high then
        let mid = (low + high) div 2
        in if GlobalIdx (bs ! nat mid) \<le> idx
           then search_block bs idx (mid + 1) high (bs ! nat mid)
           else search_block bs idx low (mid - 1) target
      else target)"
  by pat_completeness auto
termination
  by (relation "measure (\<lambda>(bs, idx, low, high, target). nat (high - low + 1))") auto

declare search_block.simps [simp del]

definition getIPFromCIDRBlocks :: "master_indexer \<Rightarrow> u64 \<Rightarrow> addr" where
  "getIPFromCIDRBlocks mi idx =
     (let b = search_block (CIDRBlocks mi) idx 0 (int (length (CIDRBlocks mi)) - 1) zero_block
      in addOffsetToAddr (StartIP b) (idx - GlobalIdx b))"

definition readIPAtCSVOffset :: "string \<Rightarrow> nat \<Rightarrow> addr option" where
  "readIPAtCSVOffset file off =
     (let line = trim_space (case raw_lines (drop off file) of [] \<Rightarrow> [] | l # _ \<Rightarrow> l)
      in map_option paddr (netutil_ParseIPOrCIDR (trim_space (hd (split2 line)))))"

subsection \<open>The stream\<close>

definition lcgA :: u64 where "lcgA = 6364136223846793005"

definition lcgC :: u64 where "lcgC = 1442695040888963407"

definition use_full :: "u64 \<Rightarrow> bool" where
  "use_full grand \<longleftrightarrow> push_bit 63 1 < grand"

definition m_bits :: "u64 \<Rightarrow> nat" where
  "m_bits grand = bitlen (unat grand) - (if grand AND (grand - 1) = 0 then 1 else 0)"

definition m_size :: "u64 \<Rightarrow> u64" where
  "m_size grand = push_bit (m_bits grand) 1"

definition first_state :: "u64 \<Rightarrow> u64 \<Rightarrow> u64" where
  "first_state grand seed = (if use_full grand then seed else seed mod m_size grand)"

definition next_state :: "u64 \<Rightarrow> u64 \<Rightarrow> u64" where
  "next_state grand s =
     (if use_full grand then s * lcgA + lcgC else (s * lcgA + lcgC) mod m_size grand)"

text \<open>The address of an index: \<open>Inl\<close> is a slice index out of range, \<open>Inr None\<close> a line that
  cannot be read as an address.\<close>

definition ip_of_index :: "string \<Rightarrow> master_indexer \<Rightarrow> u64 \<Rightarrow> unit + addr option" where
  "ip_of_index file mi s =
     (if s < TotalCIDRIPs mi then Inr (Some (getIPFromCIDRBlocks mi s))
      else let i = unat (s - TotalCIDRIPs mi)
           in if length (SingleOffsets mi) \<le> i then Inl ()
              else Inr (readIPAtCSVOffset file (SingleOffsets mi ! i)))"

text \<open>\<open>done it\<close> is the check of the context at the head of the \<open>it\<close>-th round.\<close>

partial_function (option) shuffle_loop ::
  "(nat \<Rightarrow> bool) \<Rightarrow> (nat \<Rightarrow> bool) \<Rightarrow> string \<Rightarrow> master_indexer \<Rightarrow> u64 \<Rightarrow> u64 \<Rightarrow> u64 \<Rightarrow> nat \<Rightarrow> sink
   \<Rightarrow> (stream_err option \<times> sink) option" where
  "shuffle_loop done cancel file mi limit s dispatched it st =
     (if \<not> dispatched < GrandTotal mi then Some (None, st)
      else if 0 < limit \<and> limit \<le> cnt st then Some (None, st)
      else if done it then Some (Some StreamCancelled, st)
      else let s' = next_state (GrandTotal mi) s
           in if GrandTotal mi \<le> s' then
                shuffle_loop done cancel file mi limit s' dispatched (Suc it) st
              else case ip_of_index file mi s' of
                     Inl _ \<Rightarrow> Some (Some StreamPanic, st)
                   | Inr None \<Rightarrow>
                       shuffle_loop done cancel file mi limit s' (dispatched + 1) (Suc it) st
                   | Inr (Some ip) \<Rightarrow>
                       if cancel (length (sent st)) then Some (Some StreamCancelled, st)
                       else shuffle_loop done cancel file mi limit s' (dispatched + 1) (Suc it)
                              (send ip st))"

definition streamActiveIPsShuffled ::
  "(nat \<Rightarrow> bool) \<Rightarrow> (nat \<Rightarrow> bool) \<Rightarrow> (nat \<Rightarrow> nat) \<Rightarrow> u64 \<Rightarrow> string \<Rightarrow> u64
   \<Rightarrow> (stream_err option \<times> sink) option" where
  "streamActiveIPsShuffled done cancel draws seed file limit =
     Option.bind (NewMasterIndexer draws file)
       (\<lambda>mi. if GrandTotal mi = 0 then Some (None, empty_sink)
             else shuffle_loop done cancel file mi limit (first_state (GrandTotal mi) seed) 0 0
                    empty_sink)"

definition StreamActiveIPs ::
  "(nat \<Rightarrow> bool) \<Rightarrow> (nat \<Rightarrow> bool) \<Rightarrow> (nat \<Rightarrow> nat) \<Rightarrow> u64 \<Rightarrow> string \<Rightarrow> u64 \<Rightarrow> bool
   \<Rightarrow> (stream_err option \<times> sink) option" where
  "StreamActiveIPs done cancel draws seed file limit shuffled =
     (if shuffled
      then streamActiveIPsShuffled done cancel draws seed file (default_limit limit)
      else Some (streamActiveIPsSequential cancel file (default_limit limit)))"

end
