(* ===== verification/ShuffleCorrect.thy ===== *)
theory ShuffleCorrect
  imports IPShuffle "HOL-Library.Multiset"
begin

text \<open>
  The shuffled stream sends every address of the list once. The parts of the argument: the
  generator visits every index below the total (\<open>FullPeriod\<close>), the index maps the indices onto
  the addresses of the entries in order, blocks first (binary search, address arithmetic, lines
  by offset), and the loop drops exactly the indices that are too large.
\<close>

subsection \<open>The generator\<close>

interpretation knuth: full_period 6364136223846793005 1442695040888963407
  by unfold_locales simp_all

lemma bitlen_bounds: "0 < n \<Longrightarrow> 0 < bitlen n \<and> 2 ^ (bitlen n - 1) \<le> n \<and> n < 2 ^ bitlen n"
proof (induction n rule: bitlen.induct)
  case (1 n)
  show ?case
  proof (cases "n div 2 = 0")
    case True
    with 1 have "n = 1" by simp
    moreover have "bitlen (Suc 0) = 1" by (simp add: bitlen.simps [of "Suc 0"] bitlen.simps [of 0])
    ultimately show ?thesis by simp
  next
    case False
    let ?m = "n div 2"
    have ih: "0 < bitlen ?m" "2 ^ (bitlen ?m - 1) \<le> ?m" "?m < 2 ^ bitlen ?m"
      using 1 False by auto
    have len: "bitlen n = Suc (bitlen ?m)" using 1(2) by (simp add: bitlen.simps [of n])
    have "(2 :: nat) ^ bitlen ?m = 2 * 2 ^ (bitlen ?m - 1)"
      using ih(1) by (metis Suc_pred' power_Suc)
    then have "2 ^ bitlen ?m \<le> n" using ih(2) by linarith
    moreover have "n < 2 * 2 ^ bitlen ?m" using ih(3) by linarith
    ultimately show ?thesis by (simp add: len)
  qed
qed

lemma power_of_two_test:
  assumes "g \<noteq> 0" and "g AND (g - 1) = (0 :: u64)"
  shows "unat g = 2 ^ (bitlen (unat g) - 1)"
proof (rule ccontr)
  let ?k = "bitlen (unat g) - 1"
  assume ne: "unat g \<noteq> 2 ^ ?k"
  have pos: "0 < unat g" using assms(1) by (simp add: unat_gt_0)
  note b = bitlen_bounds [OF pos]
  then have up: "unat g < 2 * 2 ^ ?k" by (metis Suc_pred' power_Suc)
  have low: "2 ^ ?k \<le> unat g - 1" using b ne by linarith
  have u1: "unat (g - 1) = unat g - 1" using pos by (simp add: unat_minus_one assms(1))
  have "unat g div 2 ^ ?k = 1" "unat (g - 1) div 2 ^ ?k = 1"
    using up low pos u1 by (simp_all add: div_nat_eqI)
  then have "bit (unat g) ?k" "bit (unat (g - 1)) ?k"
    by (simp_all add: bit_iff_odd)
  then have "bit (g AND (g - 1)) ?k"
    by (simp add: bit_and_iff bit_unsigned_iff)
  with assms(2) show False by simp
qed

definition state_bits :: "u64 \<Rightarrow> nat" where
  "state_bits g = (if use_full g then 64 else m_bits g)"

lemma use_full_iff: "use_full g \<longleftrightarrow> 2 ^ 63 < unat g"
proof -
  have "(push_bit 63 1 :: u64) = 9223372036854775808" by (simp add: push_bit_eq_mult)
  then show ?thesis by (simp add: use_full_def word_less_nat_alt)
qed

lemma m_bits_range:
  assumes "g \<noteq> 0" and "\<not> use_full g"
  shows "m_bits g \<le> 63 \<and> unat g \<le> 2 ^ m_bits g"
proof -
  have pos: "0 < unat g" using assms(1) by (simp add: unat_gt_0)
  note b = bitlen_bounds [OF pos]
  have le: "unat g \<le> 2 ^ 63" using assms(2) by (simp add: use_full_iff)
  show ?thesis
  proof (cases "g AND (g - 1) = 0")
    case True
    note p = power_of_two_test [OF assms(1) True]
    from p le have "(2 :: nat) ^ (bitlen (unat g) - 1) \<le> 2 ^ 63" by simp
    then have "bitlen (unat g) - 1 \<le> 63" by (rule power_le_imp_le_exp [rotated]) simp
    then show ?thesis using True p by (simp add: m_bits_def)
  next
    case False
    have "unat g \<noteq> 2 ^ 63"
    proof
      assume "unat g = 2 ^ 63"
      then have "g = 9223372036854775808" by (simp add: word_unat_eq_iff)
      then show False using False by simp
    qed
    then have "2 ^ (bitlen (unat g) - 1) < (2 ^ 63 :: nat)" using b le by linarith
    then have "bitlen (unat g) - 1 < 63" by (rule power_less_imp_less_exp [rotated]) simp
    then show ?thesis using b False by (simp add: m_bits_def)
  qed
qed

lemma unat_m_size:
  assumes "g \<noteq> 0" and "\<not> use_full g"
  shows "unat (m_size g) = 2 ^ m_bits g"
proof -
  have le: "m_bits g \<le> 63" using m_bits_range [OF assms] by simp
  then have "(2 :: nat) ^ m_bits g \<le> 2 ^ 63" by (intro power_increasing) auto
  then show ?thesis
    by (simp only: m_size_def unsigned_push_bit_eq)
      (simp add: push_bit_eq_mult take_bit_eq_mod)
qed

lemma total_le_states: "g \<noteq> 0 \<Longrightarrow> unat g \<le> 2 ^ state_bits g"
  using m_bits_range [of g] unat_u64_less [of g] by (auto simp: state_bits_def)

lemma first_state_less: "g \<noteq> 0 \<Longrightarrow> unat (first_state g seed) < 2 ^ state_bits g"
  using unat_u64_less [of seed]
  by (auto simp: first_state_def state_bits_def unat_mod unat_m_size)

lemma mod_pow2_pow2: "k \<le> 64 \<Longrightarrow> n mod 2 ^ 64 mod 2 ^ k = n mod (2 ^ k :: nat)"
  by (rule mod_mod_cancel) (rule le_imp_power_dvd)

lemma unat_numeral_u64: "unat (6364136223846793005 :: u64) = 6364136223846793005"
    "unat (1442695040888963407 :: u64) = 1442695040888963407" "LENGTH(64) = 64"
  by simp_all

lemma unat_numeral_128: "unat (0xFFFF :: 128 word) = 0xFFFF"
  by simp

lemma next_state_step:
  assumes "g \<noteq> 0"
  shows "unat (next_state g s) = knuth.stepm (2 ^ state_bits g) (unat s)"
proof -
  have u: "unat (s * lcgA + lcgC) = (6364136223846793005 * unat s + 1442695040888963407) mod 2 ^ 64"
    by (simp only: unat_word_ariths lcgA_def lcgC_def unat_numeral_u64 mult.commute mod_add_left_eq)
  show ?thesis
  proof (cases "use_full g")
    case True
    then show ?thesis
      using u by (simp add: next_state_def knuth.stepm_def state_bits_def)
  next
    case False
    have le: "m_bits g \<le> 64" using m_bits_range [OF assms False] by simp
    show ?thesis
      using False
      by (simp only: next_state_def knuth.stepm_def state_bits_def if_False unat_mod
          unat_m_size [OF assms False] u mod_pow2_pow2 [OF le])
  qed
qed

subsection \<open>Lines by offset\<close>

lemma raw_lines_Nil_iff [simp]: "raw_lines s = [] \<longleftrightarrow> s = []"
  by (cases s) (auto split: list.splits)

lemma raw_lines_drop: "raw_lines s = l # ls \<Longrightarrow> raw_lines (drop (length l) s) = ls"
proof (induction s arbitrary: l ls)
  case (Cons c s)
  show ?case
  proof (cases "raw_lines s")
    case Nil
    with Cons show ?thesis by (auto split: if_splits)
  next
    case (Cons l' ls')
    with Cons.prems Cons.IH [OF Cons] show ?thesis by (auto split: if_splits)
  qed
qed simp

lemma with_offsets_line:
  "(l, off) \<in> set (with_offsets k ls) \<Longrightarrow> raw_lines s = ls
   \<Longrightarrow> k \<le> off \<and> (\<exists>rest. raw_lines (drop (off - k) s) = l # rest)"
proof (induction ls arbitrary: k s)
  case (Cons a ls)
  show ?case
  proof (cases "(l, off) = (a, k)")
    case True
    with Cons.prems show ?thesis by simp
  next
    case False
    with Cons.prems have "(l, off) \<in> set (with_offsets (k + length a) ls)" by auto
    from Cons.IH [OF this raw_lines_drop [OF Cons.prems(2)]] show ?thesis
      by (auto simp: add.commute)
  qed
qed simp

lemma trim_front_fixed: "(\<And>w. w \<in> set ws \<Longrightarrow> w \<noteq> [] \<Longrightarrow> \<not> prefix w s) \<Longrightarrow> trim_front ws s = s"
  by (cases s) (auto split: option.splits simp: find_Some_iff in_set_conv_nth)

lemma trim_front_no_prefix: "w \<in> set ws \<Longrightarrow> w \<noteq> [] \<Longrightarrow> \<not> prefix w (trim_front ws s)"
proof (induction ws s rule: trim_front.induct)
  case (2 ws c s)
  show ?case
  proof (cases "find (\<lambda>w. w \<noteq> [] \<and> is_prefix w (c # s)) ws")
    case None
    then have "\<forall>w \<in> set ws. w = [] \<or> \<not> prefix w (c # s)" by (auto simp: find_None_iff)
    moreover have "trim_front ws (c # s) = c # s" using None by simp
    ultimately show ?thesis using 2(2,3) by auto
  next
    case (Some v)
    then show ?thesis using 2 by simp
  qed
qed auto

lemma trim_space_idem [simp]: "trim_space (trim_space s) = trim_space s"
proof -
  let ?t = "trim_left s"
  have "prefix (trim_right ?t) ?t"
    using trim_front_suffix [of "map rev ws_runes" "rev ?t"]
    by (simp add: trim_right_def suffix_to_prefix)
  then have "trim_left (trim_right ?t) = trim_right ?t"
    unfolding trim_left_def
    by (intro trim_front_fixed) (meson prefix_order.trans trim_front_no_prefix trim_left_def)
  then show ?thesis by (simp add: trim_space_def trim_right_def trim_front_idem)
qed

lemma masked_single: "pbits p = bit_len (paddr p) \<Longrightarrow> paddr p = base_addr p"
  by (cases "paddr p") (simp_all add: base_addr_def masked_def host_bits_def)

lemma is6_bit_len: "(if is6 a then 128 else 32) = bit_len a"
  by (cases a) auto

lemma netutil_parse_masked: "ParseIPOrCIDR s = Some q \<Longrightarrow>
    \<exists>p. netutil_ParseIPOrCIDR s = Some p \<and> (masked p = q \<or> p = q)"
  by (cases "ParsePrefix (trim_space s)")
    (auto simp: ParseIPOrCIDR_def netutil_ParseIPOrCIDR_def Let_def is6_bit_len)

lemma ParseRecord_head:
  "ParseRecord (f # fs) = Some e \<Longrightarrow> \<exists>q n. ParseIPOrCIDR (trim_space f) = Some q \<and> e = New (masked q) n"
  by (auto simp: ParseRecord_def)

lemma index_row_line:
  assumes "index_row (l, off) = Some (row, off')" and "raw_lines (drop off file) = l # rest"
    and "IsSingle row"
  shows "readIPAtCSVOffset file off = Some (paddr (IP row)) \<and> off' = off"
proof -
  let ?f = "trim_space (hd (split2 (trim_space l)))"
  obtain h t where ht: "split2 (trim_space l) = h # t"
    by (cases "cut (CHR '','') (trim_space l)") (auto simp: split2_def simp del: cut_None)
  then have f: "?f = trim_space h" by simp
  have rec: "ParseRecord (trim_space h # map trim_space t) = Some row"
    using assms(1) ht by (auto simp: index_row_def Let_def split: if_splits option.splits)
  obtain q n where q: "ParseIPOrCIDR ?f = Some q" and row: "row = New (masked q) n"
    using ParseRecord_head [OF rec] unfolding f by auto
  obtain p where p: "netutil_ParseIPOrCIDR ?f = Some p" "masked p = q \<or> p = q"
    using netutil_parse_masked [OF q] by blast
  have m: "IP row = masked p" using p(2) row by (auto simp: New_def)
  with assms(3) have "pbits p = bit_len (paddr p)" by (simp add: IsSingle_def)
  then have "paddr p = paddr (IP row)" using masked_single m by simp
  with p(1) show ?thesis
    using assms(1,2) by (auto simp: readIPAtCSVOffset_def index_row_def Let_def split: if_splits option.splits)
qed

lemma index_rows_single:
  assumes "(row, off) \<in> set (index_rows file)" and "IsSingle row"
  shows "readIPAtCSVOffset file off = Some (paddr (IP row))"
proof -
  from assms(1) obtain lo where lo: "lo \<in> set (with_offsets 0 (raw_lines file))"
    and row: "index_row lo = Some (row, off)"
    by (auto simp: index_rows_def List.map_filter_def)
  obtain l o' where [simp]: "lo = (l, o')" by (cases lo)
  from with_offsets_line [OF lo [simplified] refl] obtain rest where
    "raw_lines (drop o' file) = l # rest" by auto
  from index_row_line [OF row [simplified] this assms(2)] show ?thesis by simp
qed

lemma index_rows_ok: "(row, off) \<in> set (index_rows file) \<Longrightarrow> entry_ok row"
  by (auto simp: index_rows_def List.map_filter_def index_row_def Let_def
      split: if_splits option.splits intro: ParseRecord_ok)

subsection \<open>Blocks\<close>

definition psize :: "ip_list \<Rightarrow> nat" where
  "psize r = 2 ^ host_bits (IP r)"

fun blocks_from :: "nat \<Rightarrow> ip_list list \<Rightarrow> cidr_block list" where
  "blocks_from g [] = []"
| "blocks_from g (r # rs) =
     \<lparr>StartIP = base_addr (IP r), TotalIPs = of_nat (psize r), GlobalIdx = of_nat g\<rparr>
     # blocks_from (g + psize r) rs"

definition sizes :: "ip_list list \<Rightarrow> nat" where
  "sizes rs = sum_list (map psize rs)"

lemma sizes_simps [simp]: "sizes [] = 0" "sizes (r # rs) = psize r + sizes rs"
  by (simp_all add: sizes_def)

lemma psize_pos [simp]: "0 < psize r"
  by (simp add: psize_def)

lemma length_blocks_from [simp]: "length (blocks_from g rs) = length rs"
  by (induction g rs rule: blocks_from.induct) auto

lemma unat_of_nat_u64: "n < 2 ^ 64 \<Longrightarrow> unat (of_nat n :: u64) = n"
  by (simp add: unat_of_nat)

lemma blocks_from_ge:
  "i < length rs \<Longrightarrow> g + sizes rs < 2 ^ 64 \<Longrightarrow> g \<le> unat (GlobalIdx (blocks_from g rs ! i))"
proof (induction g rs arbitrary: i rule: blocks_from.induct)
  case (2 g r rs)
  show ?case
  proof (cases i)
    case 0
    with 2 show ?thesis by (simp add: unat_of_nat_u64 del: of_nat_add)
  next
    case (Suc j)
    with 2(1) [of j] 2(2,3) show ?thesis by simp
  qed
qed simp

lemma blocks_from_mono:
  "i \<le> j \<Longrightarrow> j < length rs \<Longrightarrow> g + sizes rs < 2 ^ 64
   \<Longrightarrow> GlobalIdx (blocks_from g rs ! i) \<le> GlobalIdx (blocks_from g rs ! j)"
proof (induction g rs arbitrary: i j rule: blocks_from.induct)
  case (2 g r rs)
  show ?case
  proof (cases i)
    case 0
    have "g \<le> unat (GlobalIdx (blocks_from g (r # rs) ! j))"
      using 2(3,4) by (intro blocks_from_ge) auto
    with 0 2(4) show ?thesis by (simp add: word_le_nat_alt unat_of_nat_u64 del: of_nat_add)
  next
    case (Suc i')
    with 2 show ?thesis by (cases j) auto
  qed
qed simp

text \<open>The binary search finds the last block that does not start after the index.\<close>

definition owns :: "cidr_block list \<Rightarrow> u64 \<Rightarrow> nat \<Rightarrow> bool" where
  "owns bs idx j \<longleftrightarrow> j < length bs \<and> GlobalIdx (bs ! j) \<le> idx
     \<and> (\<forall>i < length bs. j < i \<longrightarrow> idx < GlobalIdx (bs ! i))"

lemma search_block_owns:
  assumes mono: "\<And>i j. i \<le> j \<Longrightarrow> j < length bs \<Longrightarrow> GlobalIdx (bs ! i) \<le> GlobalIdx (bs ! j)"
    and first: "bs \<noteq> []" "GlobalIdx (bs ! 0) \<le> idx"
  shows "0 \<le> low \<Longrightarrow> low \<le> high + 1 \<Longrightarrow> high < int (length bs)
    \<Longrightarrow> (0 < low \<Longrightarrow> target = bs ! nat (low - 1) \<and> GlobalIdx (bs ! nat (low - 1)) \<le> idx)
    \<Longrightarrow> (\<And>i. high < int i \<Longrightarrow> i < length bs \<Longrightarrow> idx < GlobalIdx (bs ! i))
    \<Longrightarrow> \<exists>j. owns bs idx j \<and> search_block bs idx low high target = bs ! j"
proof (induction "nat (high - low + 1)" arbitrary: low high target rule: less_induct)
  case less
  show ?case
  proof (cases "low \<le> high")
    case False
    then have h: "high = low - 1" using less by simp
    have pos: "0 < low"
    proof (rule ccontr)
      assume "\<not> 0 < low"
      then have "high < int 0" using h by simp
      from less(6) [OF this] show False using first leD by auto
    qed
    let ?j = "nat (low - 1)"
    have "owns bs idx ?j"
      unfolding owns_def using less(4-6) pos h by (auto simp: nat_less_iff)
    moreover have "search_block bs idx low high target = bs ! ?j"
      using False less(5) [OF pos] by (simp add: search_block.simps)
    ultimately show ?thesis by blast
  next
    case True
    let ?mid = "(low + high) div 2"
    have mid: "low \<le> ?mid" "?mid \<le> high" using True by auto
    show ?thesis
    proof (cases "GlobalIdx (bs ! nat ?mid) \<le> idx")
      case True
      have "\<exists>j. owns bs idx j \<and> search_block bs idx (?mid + 1) high (bs ! nat ?mid) = bs ! j"
        using less(2-6) mid True by (intro less(1)) auto
      with True mid show ?thesis by (subst search_block.simps) (simp add: Let_def)
    next
      case False
      have "\<exists>j. owns bs idx j \<and> search_block bs idx low (?mid - 1) target = bs ! j"
      proof (rule less(1))
        fix i assume i: "?mid - 1 < int i" "i < length bs"
        then have "GlobalIdx (bs ! nat ?mid) \<le> GlobalIdx (bs ! i)"
          using less(2) mid by (intro mono) auto
        with False show "idx < GlobalIdx (bs ! i)" by simp
      qed (use less(2-6) mid in auto)
      with False mid show ?thesis by (subst search_block.simps) (simp add: Let_def)
    qed
  qed
qed


subsection \<open>From indices to addresses\<close>

definition unmap_addr :: "addr \<Rightarrow> addr" where
  "unmap_addr a = unmap16 (as16 a)"

definition block_addrs :: "ip_list \<Rightarrow> addr list" where
  "block_addrs r = map (\<lambda>i. addOffsetToAddr (base_addr (IP r)) (of_nat i)) [0 ..< psize r]"

lemma length_block_addrs [simp]: "length (block_addrs r) = psize r"
  by (simp add: block_addrs_def)

lemma as16_plus:
  assumes "addr_val a + i < 2 ^ bit_len a"
  shows "as16 (addr_plus a i) = as16 a + of_nat i"
proof (cases a)
  case (V4 w)
  have less: "unat w + i < 2 ^ 32" using assms V4 by simp
  have "unat (ucast (w + of_nat i) :: 128 word) = unat w + i"
    using less by (simp add: unsigned_ucast_eq unat_word_ariths unat_of_nat take_bit_eq_mod)
  moreover have "unat (ucast w + of_nat i :: 128 word) = unat w + i"
    using less by (simp add: unsigned_ucast_eq unat_word_ariths unat_of_nat take_bit_eq_mod mod_simps)
  ultimately have "(ucast (w + of_nat i) :: 128 word) = ucast w + of_nat i"
    by (simp add: word_unat_eq_iff)
  then show ?thesis by (simp add: V4 add.assoc)
qed simp

lemma block_addrs_eq:
  assumes "psize r < 2 ^ 64"
  shows "block_addrs r = map unmap_addr (prefix_addrs (IP r))"
proof -
  let ?b = "base_addr (IP r)"
  have "addOffsetToAddr ?b (of_nat i) = unmap_addr (addr_plus ?b i)" if "i < psize r" for i
  proof -
    have "addr_val ?b + i < 2 ^ bit_len ?b"
      using base_end_le [of "IP r"] that by (simp add: psize_def)
    then have "as16 (addr_plus ?b i) = as16 ?b + of_nat i" by (rule as16_plus)
    moreover have "unat (of_nat i :: u64) = i" using that assms by (intro unat_of_nat_u64) simp
    ultimately show ?thesis by (simp add: addOffsetToAddr_eq unmap_addr_def)
  qed
  then show ?thesis by (simp add: block_addrs_def prefix_addrs_def psize_def)
qed

lemma unat_u64_pow: "unat (w :: u64) < 2 ^ 64" "unat (v :: u64) - n < 2 ^ 64"
  using unat_u64_less [of w] unat_u64_less [of v] by simp_all

lemma owns_lookup:
  assumes "owns (blocks_from g rs) idx j" and "g \<le> unat idx" and "unat idx < g + sizes rs"
    and "g + sizes rs < 2 ^ 64"
  shows "(let b = blocks_from g rs ! j in addOffsetToAddr (StartIP b) (idx - GlobalIdx b))
         = concat (map block_addrs rs) ! (unat idx - g)"
  using assms
proof (induction g rs arbitrary: j rule: blocks_from.induct)
  case (2 g r rs)
  have g: "unat (of_nat g :: u64) = g" using 2(5) by (intro unat_of_nat_u64) simp
  show ?case
  proof (cases "unat idx < g + psize r")
    case True
    have "j = 0"
    proof (rule ccontr)
      assume "j \<noteq> 0"
      then obtain i where i: "j = Suc i" "i < length rs" using 2(2) by (auto simp: owns_def gr0_conv_Suc)
      have "g + psize r \<le> unat (GlobalIdx (blocks_from (g + psize r) rs ! i))"
        using i(2) 2(5) by (intro blocks_from_ge) auto
      with i 2(2) True show False by (simp add: owns_def word_le_nat_alt)
    qed
    have "unat (idx - of_nat g) = unat idx - g"
      using 2(3) g by (simp add: unat_sub word_le_nat_alt)
    then have "idx - of_nat g = of_nat (unat idx - g)"
      by (metis word_unat_eq_iff unat_of_nat_u64 unat_u64_pow)
    then show ?thesis
      using True 2(3) \<open>j = 0\<close> by (simp add: Let_def nth_append block_addrs_def less_diff_conv2)
  next
    case False
    then have "sizes rs > 0" using 2(4) by simp
    then have rs: "0 < length rs" by (cases rs) auto
    obtain i where i: "j = Suc i"
    proof (cases j)
      case 0
      have "unat (GlobalIdx (blocks_from (g + psize r) rs ! 0)) = g + psize r"
        using rs 2(5) by (cases rs) (simp_all add: unat_of_nat_u64 del: of_nat_add)
      moreover have "idx < GlobalIdx (blocks_from (g + psize r) rs ! 0)"
        using 2(2) 0 rs by (force simp: owns_def)
      ultimately have False using False by (simp add: word_less_nat_alt)
      then show ?thesis ..
    qed
    have "owns (blocks_from (g + psize r) rs) idx i"
      using 2(2) by (force simp: owns_def i)
    moreover have "\<not> unat idx - g < psize r" using False by linarith
    moreover have "unat idx - g - psize r = unat idx - (g + psize r)" by simp
    ultimately show ?thesis
      using 2(1) [of i] False 2(4,5) by (simp add: i nth_append Let_def)
  qed
qed simp

definition cidr_rows :: "(ip_list \<times> nat) list \<Rightarrow> ip_list list" where
  "cidr_rows es = map fst (filter (\<lambda>ro. \<not> IsSingle (fst ro)) es)"

definition single_rows :: "(ip_list \<times> nat) list \<Rightarrow> (ip_list \<times> nat) list" where
  "single_rows es = filter (\<lambda>ro. IsSingle (fst ro)) es"

lemma rows_simps:
  "cidr_rows [] = []" "single_rows [] = []"
  "cidr_rows (ro # es) = (if IsSingle (fst ro) then cidr_rows es else fst ro # cidr_rows es)"
  "single_rows (ro # es) = (if IsSingle (fst ro) then ro # single_rows es else single_rows es)"
  by (simp_all add: cidr_rows_def single_rows_def)

lemma saturatingAdd_fits:
  "m + n < 2 ^ 64 \<Longrightarrow> saturatingAdd (of_nat m) (of_nat n) = of_nat (m + n)"
  by (simp only: word_unat_eq_iff unat_saturatingAdd) (simp add: unat_of_nat_u64 del: of_nat_add)

lemma total_count_rows:
  "total_count (map raw_entry_of es) = sizes (cidr_rows es) + length (single_rows es)"
  by (induction es) (auto simp: total_count_def raw_entry_of_def rows_simps psize_def)

lemma fold_add_fitting:
  assumes "TotalCIDRIPs mi = of_nat g" and "TotalSingles mi = of_nat n"
    and "g + sizes (cidr_rows es) < 2 ^ 64"
  shows "fold add_fitting (map raw_entry_of es) mi =
     mi\<lparr>CIDRBlocks := CIDRBlocks mi @ blocks_from g (cidr_rows es),
        SingleOffsets := SingleOffsets mi @ map snd (single_rows es),
        TotalCIDRIPs := of_nat (g + sizes (cidr_rows es)),
        TotalSingles := of_nat (n + length (single_rows es))\<rparr>"
  using assms
proof (induction es arbitrary: mi g n)
  case (Cons ro es)
  let ?mi = "add_fitting (raw_entry_of ro) mi"
  show ?case
  proof (cases "IsSingle (fst ro)")
    case True
    then have mi: "?mi = mi\<lparr>SingleOffsets := SingleOffsets mi @ [snd ro], TotalSingles := of_nat (Suc n)\<rparr>"
      using Cons.prems by (simp add: add_fitting_def raw_entry_of_def add_single_def)
    have "TotalCIDRIPs ?mi = of_nat g" "TotalSingles ?mi = of_nat (Suc n)"
      using Cons.prems by (simp_all add: mi)
    from Cons.IH [OF this] Cons.prems True show ?thesis by (simp add: rows_simps mi)
  next
    case False
    have less: "g + psize (fst ro) < 2 ^ 64" using Cons.prems(3) False by (simp add: rows_simps)
    then have mi: "?mi = mi\<lparr>CIDRBlocks := CIDRBlocks mi @ blocks_from g [fst ro],
        TotalCIDRIPs := of_nat (g + psize (fst ro))\<rparr>"
      using Cons.prems False saturatingAdd_fits [OF less]
      by (simp add: add_fitting_def raw_entry_of_def add_block_def psize_def)
    have "TotalCIDRIPs ?mi = of_nat (g + psize (fst ro))" "TotalSingles ?mi = of_nat n"
      using Cons.prems by (simp_all add: mi)
    from Cons.IH [OF this] Cons.prems False show ?thesis by (simp add: rows_simps mi add.assoc)
  qed
qed (simp add: rows_simps)


definition index_addrs :: "(ip_list \<times> nat) list \<Rightarrow> addr list" where
  "index_addrs es = concat (map block_addrs (cidr_rows es)) @ map (paddr \<circ> IP \<circ> fst) (single_rows es)"

lemma length_concat_blocks: "length (concat (map block_addrs rs)) = sizes rs"
  by (induction rs) auto

lemma length_index_addrs:
  "length (index_addrs es) = total_count (map raw_entry_of es)"
  by (simp add: index_addrs_def length_concat_blocks total_count_rows)

definition fits :: "(ip_list \<times> nat) list \<Rightarrow> bool" where
  "fits es \<longleftrightarrow> total_count (map raw_entry_of es) \<le> 2 ^ 64 - 1"

definition built :: "string \<Rightarrow> master_indexer" where
  "built file = seal_total (fold add_fitting (map raw_entry_of (index_rows file)) empty_indexer)"

lemma built_eq:
  assumes "fits (index_rows file)"
  shows "CIDRBlocks (built file) = blocks_from 0 (cidr_rows (index_rows file))"
    and "SingleOffsets (built file) = map snd (single_rows (index_rows file))"
    and "unat (TotalCIDRIPs (built file)) = sizes (cidr_rows (index_rows file))"
    and "unat (GrandTotal (built file)) = total_count (map raw_entry_of (index_rows file))"
proof -
  let ?es = "index_rows file"
  have bound: "sizes (cidr_rows ?es) + length (single_rows ?es) < 2 ^ 64"
    using assms by (simp add: fits_def total_count_rows)
  then have less: "0 + sizes (cidr_rows ?es) < 2 ^ 64" by simp
  have e: "TotalCIDRIPs empty_indexer = of_nat 0" "TotalSingles empty_indexer = of_nat 0"
    by (simp_all add: empty_indexer_def)
  note f = fold_add_fitting [OF e less]
  show "CIDRBlocks (built file) = blocks_from 0 (cidr_rows ?es)"
    "SingleOffsets (built file) = map snd (single_rows ?es)"
    by (simp_all add: built_def seal_total_def f) (simp_all add: empty_indexer_def)
  show "unat (TotalCIDRIPs (built file)) = sizes (cidr_rows ?es)"
    using less by (simp add: built_def seal_total_def f unat_of_nat_u64)
  show "unat (GrandTotal (built file)) = total_count (map raw_entry_of ?es)"
    using saturatingAdd_fits [OF bound] bound
    by (simp add: built_def seal_total_def f unat_of_nat_u64 total_count_rows del: of_nat_add)
qed

lemma ip_of_index_nth:
  assumes "fits (index_rows file)" and "s < GrandTotal (built file)"
  shows "ip_of_index file (built file) s = Inr (Some (index_addrs (index_rows file) ! unat s))"
proof -
  let ?es = "index_rows file" and ?mi = "built file"
  let ?rs = "cidr_rows ?es" and ?ss = "single_rows ?es"
  note b = built_eq [OF assms(1)]
  have s: "unat s < sizes ?rs + length ?ss"
    using assms(2) by (simp add: word_less_nat_alt b total_count_rows)
  have bound: "0 + sizes ?rs < 2 ^ 64"
    using assms(1) by (simp add: fits_def total_count_rows)
  show ?thesis
  proof (cases "s < TotalCIDRIPs ?mi")
    case True
    then have less: "unat s < sizes ?rs" by (simp add: word_less_nat_alt b)
    then have ne: "?rs \<noteq> []" by auto
    let ?bs = "blocks_from 0 ?rs"
    have "\<exists>j. owns ?bs s j \<and> search_block ?bs s 0 (int (length ?bs) - 1) zero_block = ?bs ! j"
    proof (rule search_block_owns)
      show "?bs \<noteq> []" using ne by (cases ?rs) auto
      show "GlobalIdx (?bs ! 0) \<le> s" using ne by (cases ?rs) auto
      show "GlobalIdx (?bs ! i) \<le> GlobalIdx (?bs ! j)" if "i \<le> j" "j < length ?bs" for i j
        using that bound by (intro blocks_from_mono) auto
    qed auto
    then obtain j where j: "owns ?bs s j"
        "search_block ?bs s 0 (int (length ?bs) - 1) zero_block = ?bs ! j" by blast
    have "getIPFromCIDRBlocks ?mi s = concat (map block_addrs ?rs) ! unat s"
      using owns_lookup [OF j(1) _ _ bound] j(2) less
      by (simp add: getIPFromCIDRBlocks_def b Let_def)
    then show ?thesis
      using True less by (simp add: ip_of_index_def index_addrs_def nth_append length_concat_blocks)
  next
    case False
    then have ge: "sizes ?rs \<le> unat s" by (simp add: word_less_nat_alt b)
    let ?i = "unat s - sizes ?rs"
    have i: "unat (s - TotalCIDRIPs ?mi) = ?i"
      using False by (simp add: unat_sub b not_less)
    have len: "?i < length ?ss" using s ge by simp
    then have "?ss ! ?i \<in> set ?ss" by simp
    then have "IsSingle (fst (?ss ! ?i))" "?ss ! ?i \<in> set ?es" by (auto simp: single_rows_def)
    then have "readIPAtCSVOffset file (snd (?ss ! ?i)) = Some (paddr (IP (fst (?ss ! ?i))))"
      using index_rows_single [of "fst (?ss ! ?i)" "snd (?ss ! ?i)"] by simp
    then show ?thesis
      using False ge len
      by (simp add: ip_of_index_def b i index_addrs_def nth_append length_concat_blocks)
  qed
qed

subsection \<open>The loop\<close>

fun states :: "nat \<Rightarrow> nat \<Rightarrow> nat \<Rightarrow> nat list" where
  "states k 0 x = []"
| "states k (Suc n) x = knuth.stepm (2 ^ k) x # states k n (knuth.stepm (2 ^ k) x)"

lemma states_orbit: "knuth.orbit k x = states k (2 ^ k) x"
proof -
  have "map (\<lambda>i. iterate (Suc i) (knuth.stepm (2 ^ k)) x) [0 ..< n] = states k n x" for n
    by (induction n arbitrary: x) (simp_all add: upt_conv_Cons map_Suc_upt [symmetric] o_def del: upt_Suc)
  then show ?thesis by (simp only: knuth.orbit_def)
qed

lemma shuffle_loop_feeds:
  fixes mi :: master_indexer
  defines "g \<equiv> unat (GrandTotal mi)"
  assumes ne: "GrandTotal mi \<noteq> 0"
    and ip: "\<And>s. s < GrandTotal mi \<Longrightarrow> ip_of_index content mi s = Inr (Some (addrs ! unat s))"
    and "unat dispatched + length (filter (\<lambda>v. v < g) (states (state_bits (GrandTotal mi)) n (unat s))) = g"
    and "counted limit st"
  shows "\<exists>r. shuffle_loop (\<lambda>_. False) cancel content mi limit s dispatched it st = Some r
    \<and> feeds cancel limit
        (map ((!) addrs) (filter (\<lambda>v. v < g) (states (state_bits (GrandTotal mi)) n (unat s)))) st r"
  using assms(4,5)
proof (induction n arbitrary: s dispatched it st)
  case 0
  then have "\<not> dispatched < GrandTotal mi" by (simp add: word_less_nat_alt g_def)
  then show ?case using 0 by (subst shuffle_loop.simps) (simp add: feeds_def)
next
  case (Suc n)
  let ?k = "state_bits (GrandTotal mi)" and ?s = "next_state (GrandTotal mi) s"
  have s: "knuth.stepm (2 ^ ?k) (unat s) = unat ?s" using next_state_step [OF ne] by simp
  let ?rest = "filter (\<lambda>v. v < g) (states ?k n (unat ?s))"
  have st: "filter (\<lambda>v. v < g) (states ?k (Suc n) (unat s))
      = (if unat ?s < g then unat ?s # ?rest else ?rest)" by (simp add: s)
  have lim: "0 < limit \<and> limit \<le> cnt st \<longleftrightarrow> reached limit (length (sent st))"
    by (rule counted_stop [OF Suc.prems(2)])
  have small: "?s < GrandTotal mi \<longleftrightarrow> unat ?s < g" by (simp add: word_less_nat_alt g_def)
  consider (finished) "\<not> dispatched < GrandTotal mi" | (full) "dispatched < GrandTotal mi"
      "reached limit (length (sent st))"
    | (go) "dispatched < GrandTotal mi" "\<not> reached limit (length (sent st))" by blast
  then show ?case
  proof cases
    case finished
    then have "g \<le> unat dispatched" by (simp add: word_less_nat_alt g_def)
    then have "filter (\<lambda>v. v < g) (states ?k (Suc n) (unat s)) = []"
      using Suc.prems(1) by (metis le_add_same_cancel1 add_leD1 le_antisym le_add1 length_0_conv add_cancel_left_right)
    with finished Suc.prems(2) show ?thesis
      by (subst shuffle_loop.simps) (simp add: feeds_def del: states.simps)
  next
    case full
    with Suc.prems(2) lim show ?thesis
      by (subst shuffle_loop.simps) (simp add: feeds_def feed_reached del: states.simps)
  next
    case go
    have loop: "shuffle_loop (\<lambda>_. False) cancel content mi limit s dispatched it st =
      (if unat ?s < g then
         if cancel (length (sent st)) then Some (Some StreamCancelled, st)
         else shuffle_loop (\<lambda>_. False) cancel content mi limit ?s (dispatched + 1) (Suc it)
                (send (addrs ! unat ?s) st)
       else shuffle_loop (\<lambda>_. False) cancel content mi limit ?s dispatched (Suc it) st)"
      using go lim small ip [of ?s]
      by (subst shuffle_loop.simps) (auto simp: Let_def not_less [symmetric])
    show ?thesis
    proof (cases "unat ?s < g")
      case False
      with Suc.IH [of dispatched ?s st "Suc it"] Suc.prems loop st show ?thesis
        by (simp del: states.simps)
    next
      case True
      have "unat dispatched < g" using go by (simp add: word_less_nat_alt g_def)
      then have "unat (dispatched + 1) = Suc (unat dispatched)"
        using unat_u64_less [of "GrandTotal mi"] by (simp add: unat_word_ariths g_def)
      moreover have "unat dispatched + Suc (length ?rest) = g"
        using Suc.prems(1) st True by (simp del: states.simps)
      moreover have "counted limit (send (addrs ! unat ?s) st)"
        using Suc.prems(2) go(2) by (rule counted_send)
      ultimately obtain r where r: "shuffle_loop (\<lambda>_. False) cancel content mi limit ?s (dispatched + 1)
            (Suc it) (send (addrs ! unat ?s) st) = Some r"
        "feeds cancel limit (map ((!) addrs) ?rest) (send (addrs ! unat ?s) st) r"
        using Suc.IH [of "dispatched + 1" ?s "send (addrs ! unat ?s) st" "Suc it"] by auto
      show ?thesis
        using r True go(2) Suc.prems(2) loop st
        by (cases "cancel (length (sent st))") (auto simp: feeds_def simp del: states.simps)
    qed
  qed
qed

subsection \<open>The shuffled stream\<close>

definition row_addrs :: "ip_list \<Rightarrow> addr list" where
  "row_addrs r =
     (if IsSingle r then [paddr (IP r)] else map unmap_addr (prefix_addrs (IP r)))"

definition shuffled_addrs :: "string \<Rightarrow> addr list" where
  "shuffled_addrs content = concat (map (row_addrs \<circ> fst) (index_rows content))"

lemma sizes_ge: "r \<in> set rs \<Longrightarrow> psize r \<le> sizes rs"
  by (induction rs) auto

lemma mset_index_addrs:
  assumes "fits (index_rows content)"
  shows "mset (index_addrs (index_rows content)) = mset (shuffled_addrs content)"
proof -
  have "mset (index_addrs es) = mset (concat (map (row_addrs \<circ> fst) es))"
    if "sizes (cidr_rows es) < 2 ^ 64" for es
    using that
  proof (induction es)
    case (Cons ro es)
    show ?case
    proof (cases "IsSingle (fst ro)")
      case False
      then have "psize (fst ro) < 2 ^ 64" "sizes (cidr_rows es) < 2 ^ 64"
        using Cons.prems by (simp_all add: rows_simps)
      with Cons.IH False show ?thesis
        by (simp add: index_addrs_def rows_simps row_addrs_def block_addrs_eq)
    qed (use Cons in \<open>simp add: index_addrs_def rows_simps row_addrs_def\<close>)
  qed (simp add: index_addrs_def rows_simps)
  moreover have "sizes (cidr_rows (index_rows content)) < 2 ^ 64"
    using assms by (simp add: fits_def total_count_rows)
  ultimately show ?thesis by (simp add: shuffled_addrs_def)
qed

lemma filter_orbit_perm:
  assumes "x < 2 ^ k" and "g \<le> 2 ^ k"
  shows "mset (filter (\<lambda>v. v < g) (knuth.orbit k x)) = mset [0 ..< g]"
proof -
  have "set (filter (\<lambda>v. v < g) (knuth.orbit k x)) = set [0 ..< g]"
    using assms by (auto simp: knuth.orbit_all)
  then show ?thesis
    using knuth.orbit_distinct [OF assms(1)]
    by (metis set_eq_iff_mset_eq_distinct distinct_filter distinct_upt)
qed

lemma fold_empty_indexer: "index_rows [] = []"
  by (simp add: index_rows_def List.map_filter_simps)

lemma NewMasterIndexer_fits:
  assumes "fits (index_rows content)" and "index_rows content \<noteq> []"
  shows "NewMasterIndexer draws content = Some (built content)"
proof -
  have "content \<noteq> []" using assms(2) fold_empty_indexer by auto
  moreover have "total_count (map raw_entry_of (index_rows content)) \<noteq> 0"
    using assms(2) by (cases "index_rows content") (auto simp: total_count_def raw_entry_of_def)
  ultimately show ?thesis
    using assms(1) by (simp add: NewMasterIndexer_def fits_def built_def Let_def)
qed


text \<open>A list of one host and one small range, to run the stream on.\<close>

definition demo_list :: string where
  "demo_list = ''1.1.1.1,1'' @ [CHR 0x0A] @ ''2.2.2.0/30''"

lemma demo_rows:
  "index_rows demo_list = [(\<lparr>IP = Prefix (V4 0x01010101) 32, Enable = True\<rparr>, 0),
     (\<lparr>IP = Prefix (V4 0x02020200) 30, Enable = True\<rparr>, 10)]"
proof -
  have lines: "with_offsets 0 (raw_lines demo_list)
      = [(''1.1.1.1,1'' @ [CHR 0x0A], 0), (''2.2.2.0/30'', 10)]"
    by (simp add: demo_list_def)
  have "index_row (''1.1.1.1,1'' @ [CHR 0x0A], 0)
      = Some (\<lparr>IP = Prefix (V4 0x01010101) 32, Enable = True\<rparr>, 0)"
    by (simp add: index_row_def split2_def eval_trim eval_parse)
  moreover have "index_row (''2.2.2.0/30'', 10)
      = Some (\<lparr>IP = Prefix (V4 0x02020200) 30, Enable = True\<rparr>, 10)"
    by (simp add: index_row_def split2_def eval_trim eval_parse)
  ultimately show ?thesis
    by (simp only: index_rows_def lines List.map_filter_simps option.case)
qed


definition note_list :: string where
  "note_list = ''1.1.1.1,0,note''"

text \<open>The two modes disagree on which rows are enabled: the sequential reader splits a line
  at every comma, the indexer only at the first. A row \<open>1.1.1.1,0,note\<close> is disabled for the
  sequential stream and is scanned by the shuffled one.\<close>

theorem shuffled_scans_disabled_row:
  "active_addrs (entries note_list) = [] \<and> shuffled_addrs note_list = [V4 0x01010101]"
proof -
  have "entries note_list = [(\<lparr>IP = Prefix (V4 0x01010101) 32, Enable = False\<rparr>, 0)]"
    by (simp add: note_list_def entries_def csv_records_def List.map_filter_simps
      line_record_def record_entry_def has_prefix_def csv_fields.simps eval_trim eval_parse)
  moreover have "index_rows note_list = [(\<lparr>IP = Prefix (V4 0x01010101) 32, Enable = True\<rparr>, 0)]"
    by (simp add: note_list_def index_rows_def List.map_filter_simps index_row_def split2_def eval_trim eval_parse)
  ultimately show ?thesis by (simp add: active_addrs_def shuffled_addrs_def row_addrs_def IsSingle_def)
qed

subsection \<open>Lists with more addresses than 64 bits count\<close>

lemma randBigIntBelow_less:
  assumes "randBigIntBelow draws pos b = Some r"
  shows "fst r < b"
proof (rule randBigIntBelow.raw_induct [where P = "\<lambda>draws pos b r. fst r < b", OF _ assms])
  fix again draws pos b and r :: "nat \<times> nat"
  assume ih: "\<And>d p b r. again d p b = Some r \<Longrightarrow> fst r < b"
    and "(let k = (bitlen b + 7) div 8; n = drawn draws pos k mod 2 ^ bitlen b
          in if n < b then Some (n, pos + k) else again draws (pos + k) b) = Some r"
  then show "fst r < b" by (auto simp: Let_def split: if_splits dest: ih)
qed

definition inside_row :: "(ip_list \<times> nat) list \<Rightarrow> cidr_block \<Rightarrow> bool" where
  "inside_row rows b \<longleftrightarrow>
     (\<exists>ro off. ro \<in> set rows \<and> \<not> IsSingle (fst ro)
        \<and> off + unat (TotalIPs b) \<le> 2 ^ host_bits (IP (fst ro))
        \<and> StartIP b = unmap_addr (addr_plus (base_addr (IP (fst ro))) off))"

lemma quota_fits:
  assumes "n \<le> m" and "(2 ^ 64 - 1 :: nat) < m"
  shows "n * (2 ^ 64 - 1) div m \<le> n" and "n * (2 ^ 64 - 1) div m \<le> 2 ^ 64 - 1"
proof -
  have "n * (2 ^ 64 - 1) div m \<le> n * m div m" using assms by (intro div_le_mono mult_le_mono) auto
  then show "n * (2 ^ 64 - 1) div m \<le> n" using assms by simp
  have "n * (2 ^ 64 - 1) div m \<le> m * (2 ^ 64 - 1) div m" using assms by (intro div_le_mono mult_le_mono) auto
  then show "n * (2 ^ 64 - 1) div m \<le> 2 ^ 64 - 1" using assms by simp
qed

lemma addBigOffset_range:
  assumes "off + q \<le> 2 ^ host_bits p" and "0 < q"
  shows "addBigOffset (base_addr p) off = unmap_addr (addr_plus (base_addr p) off)"
proof -
  have "addr_val (base_addr p) + off < 2 ^ bit_len (base_addr p)"
    using base_end_le [of p] assms by simp
  then show ?thesis by (simp add: addBigOffset_eq unmap_addr_def as16_plus)
qed

lemma add_quota_cases:
  assumes "add_quota draws n (raw_entry_of ro) mp = Some mp'"
    and "esize (raw_entry_of ro) \<le> n" and "2 ^ 64 - 1 < n"
  shows "fst mp' = fst mp
    \<or> (\<exists>b. CIDRBlocks (fst mp') = CIDRBlocks (fst mp) @ [b] \<and> inside_row [ro] b
           \<and> SingleOffsets (fst mp') = SingleOffsets (fst mp)
           \<and> TotalSingles (fst mp') = TotalSingles (fst mp))"
proof -
  let ?e = "raw_entry_of ro"
  define q where "q = esize ?e * (2 ^ 64 - 1) div n"
  note qs = quota_fits [OF assms(2,3), folded q_def]
  have aq: "add_quota draws n ?e mp =
     (if 2 ^ 64 \<le> q \<or> q = 0 then Some mp
      else if \<not> isCIDR ?e then Some (add_single ?e (fst mp), snd mp)
      else if esize ?e \<le> q then
        Some (add_block (addBigOffset (start_ip ?e) 0) (of_nat q) (fst mp), snd mp)
      else map_option
             (\<lambda>(off, pos). (add_block (addBigOffset (start_ip ?e) off) (of_nat q) (fst mp), pos))
             (randBigIntBelow draws (snd mp) (esize ?e - q)))"
    by (simp only: add_quota_def q_def Let_def)
  show ?thesis
  proof (cases "q = 0")
    case True
    then show ?thesis using assms(1) by (simp add: aq)
  next
    case q0: False
    show ?thesis
    proof (cases "IsSingle (fst ro)")
      case True
      then have "esize ?e = 1" by (simp add: raw_entry_of_def)
      then have "q = (2 ^ 64 - 1) div n" by (simp add: q_def)
      with assms(3) q0 show ?thesis by simp
    next
      case False
      let ?p = "IP (fst ro)"
      have e: "isCIDR ?e" "start_ip ?e = base_addr ?p" "esize ?e = 2 ^ host_bits ?p"
        using False by (simp_all add: raw_entry_of_def)
      have in_row: "inside_row [ro] \<lparr>StartIP = addBigOffset (base_addr ?p) off,
          TotalIPs = of_nat q, GlobalIdx = g\<rparr>" if "off + q \<le> 2 ^ host_bits ?p" for off g
        using that False q0 qs(2) addBigOffset_range [OF that]
        by (auto simp: inside_row_def unat_of_nat_u64)
      have ok: "\<not> 2 ^ 64 \<le> q" using qs(2) by simp
      show ?thesis
      proof (cases "esize ?e \<le> q")
        case True
        with assms(1) e q0 ok have "fst mp' = add_block (addBigOffset (base_addr ?p) 0) (of_nat q) (fst mp)"
          by (auto simp: aq)
        then show ?thesis using in_row [of 0] qs(1) e by (simp add: add_block_def)
      next
        case less: False
        with assms(1) e q0 ok obtain off pos where
          r: "randBigIntBelow draws (snd mp) (esize ?e - q) = Some (off, pos)" and
          mp': "fst mp' = add_block (addBigOffset (base_addr ?p) off) (of_nat q) (fst mp)"
          by (auto simp: aq)
        from randBigIntBelow_less [OF r] have "off + q \<le> 2 ^ host_bits ?p" using e by simp
        from in_row [OF this] mp' show ?thesis by (simp add: add_block_def)
      qed
    qed
  qed
qed

lemma inside_row_mono: "inside_row es b \<Longrightarrow> set es \<subseteq> set es' \<Longrightarrow> inside_row es' b"
  by (auto simp: inside_row_def)

lemma add_quotas_inside:
  assumes "add_quotas draws n (map raw_entry_of es) mp = Some mp'"
    and "\<forall>ro \<in> set es. esize (raw_entry_of ro) \<le> n" and "2 ^ 64 - 1 < n"
  shows "SingleOffsets (fst mp') = SingleOffsets (fst mp) \<and> TotalSingles (fst mp') = TotalSingles (fst mp)
    \<and> (\<forall>b \<in> set (CIDRBlocks (fst mp')). b \<in> set (CIDRBlocks (fst mp)) \<or> inside_row es b)"
  using assms(1,2)
proof (induction es arbitrary: mp)
  case (Cons ro es)
  then obtain mp1 where mp1: "add_quota draws n (raw_entry_of ro) mp = Some mp1"
      "add_quotas draws n (map raw_entry_of es) mp1 = Some mp'"
    by (auto simp: bind_eq_Some_conv)
  have m: "inside_row [ro] b \<Longrightarrow> inside_row (ro # es) b" "inside_row es b \<Longrightarrow> inside_row (ro # es) b" for b
    by (auto elim: inside_row_mono)
  from Cons.IH [OF mp1(2)] add_quota_cases [OF mp1(1) _ assms(3)] Cons.prems(2) m
  show ?case by fastforce
qed simp

text \<open>When the list has more addresses than 64 bits count, the index drops every single
  host of the list: the proportional quota of one address is zero. What is left are slices of
  the ranges, each inside the range of its row.\<close>

theorem wide_list_drops_hosts:
  assumes "\<not> fits (index_rows content)" and "NewMasterIndexer draws content = Some mi"
  shows "SingleOffsets mi = [] \<and> TotalSingles mi = 0
    \<and> (\<forall>b \<in> set (CIDRBlocks mi). inside_row (index_rows content) b)"
proof -
  let ?es = "map raw_entry_of (index_rows content)"
  let ?n = "total_count ?es"
  have n: "2 ^ 64 - 1 < ?n" using assms(1) by (simp add: fits_def)
  have ne: "content \<noteq> []"
    using n fold_empty_indexer by (auto simp: total_count_def)
  obtain mp where mp: "add_quotas draws ?n ?es (empty_indexer, 0) = Some mp" and
    mi: "mi = seal_total (fst mp)"
    using assms(2) n ne by (auto simp: NewMasterIndexer_def Let_def split: if_splits)
  have "esize (raw_entry_of ro) \<le> ?n" if "ro \<in> set (index_rows content)" for ro
    using that unfolding total_count_def by (intro member_le_sum_list) auto
  from add_quotas_inside [OF mp _ n] this show ?thesis
    by (auto simp: mi seal_total_def empty_indexer_def)
qed

definition wide_list :: string where
  "wide_list = ''::/0'' @ [CHR 0x0A] @ ''1.1.1.1''"
lemma wide_rows: "index_rows wide_list = [(\<lparr>IP = Prefix (V6 0) 0, Enable = True\<rparr>, 0), (\<lparr>IP = Prefix (V4 0x01010101) 32, Enable = True\<rparr>, 5)]"
proof -
  have lines: "with_offsets 0 (raw_lines wide_list)
      = [(''::/0'' @ [CHR 0x0A], 0), (''1.1.1.1'', 5)]"
    by (simp add: wide_list_def)
  have "index_row (''::/0'' @ [CHR 0x0A], 0)
      = Some (\<lparr>IP = Prefix (V6 0) 0, Enable = True\<rparr>, 0)"
    by (simp add: index_row_def split2_def eval_trim eval_parse parse_v6_body_def)
  moreover have "index_row (''1.1.1.1'', 5)
      = Some (\<lparr>IP = Prefix (V4 0x01010101) 32, Enable = True\<rparr>, 5)"
    by (simp add: index_row_def split2_def eval_trim eval_parse)
  ultimately show ?thesis
    by (simp only: index_rows_def lines List.map_filter_simps option.case)
qed

lemma drawn_zero: "drawn (\<lambda>_. 0) pos k = 0"
  by (induction k) (simp_all add: drawn_def)

lemma wide_list_drops_hosts_witness:
  "\<exists>mi. NewMasterIndexer (\<lambda>_. 0) wide_list = Some mi \<and> CIDRBlocks mi \<noteq> []
    \<and> SingleOffsets mi = [] \<and> (\<forall>b \<in> set (CIDRBlocks mi). inside_row (index_rows wide_list) b)"
proof -
  have rand: "randBigIntBelow (\<lambda>_. 0) 0 b = Some (0, (bitlen b + 7) div 8)" if "0 < b" for b
    using that by (subst randBigIntBelow.simps) (simp add: drawn_zero)
  have big: "\<not> fits (index_rows wide_list)"
    by (simp add: fits_def wide_rows total_count_def raw_entry_of_def IsSingle_def host_bits_def)
  let ?n = "340282366920938463463374607431768211457 :: nat"
  obtain mp where q1: "add_quota (\<lambda>_. 0) ?n (raw_entry_of (hd (index_rows wide_list))) (empty_indexer, 0) = Some mp"
    and mp: "CIDRBlocks (fst mp) \<noteq> []"
    by (simp add: add_quota_def rand wide_rows raw_entry_of_def IsSingle_def host_bits_def Let_def
        add_block_def)
  have q2: "add_quota (\<lambda>_. 0) ?n (raw_entry_of (hd (tl (index_rows wide_list)))) mp = Some mp"
    by (simp add: add_quota_def wide_rows raw_entry_of_def IsSingle_def Let_def)
  have "map raw_entry_of (index_rows wide_list)
      = [raw_entry_of (hd (index_rows wide_list)), raw_entry_of (hd (tl (index_rows wide_list)))]"
    by (simp add: wide_rows)
  then have "add_quotas (\<lambda>_. 0) ?n (map raw_entry_of (index_rows wide_list)) (empty_indexer, 0) = Some mp"
    by (simp only: add_quotas.simps q1 q2 Option.bind.simps)
  moreover have "total_count (map raw_entry_of (index_rows wide_list)) = ?n"
    by (simp add: wide_rows total_count_def raw_entry_of_def IsSingle_def host_bits_def)
  moreover have "wide_list \<noteq> []" by (simp add: wide_list_def)
  ultimately have mi: "NewMasterIndexer (\<lambda>_. 0) wide_list = Some (seal_total (fst mp))"
      "CIDRBlocks (seal_total (fst mp)) \<noteq> []"
    using mp by (simp_all add: NewMasterIndexer_def Let_def seal_total_def)
  with wide_list_drops_hosts [OF big mi(1)] show ?thesis by blast
qed

subsection \<open>Lists on which the two modes agree\<close>

definition plain_line :: "string \<Rightarrow> bool" where
  "plain_line l \<longleftrightarrow>
     (let line = trim_space l
      in \<not> has_prefix line ''#'' \<and> CHR 0x22 \<notin> set line
         \<and> (case cut (CHR '','') line of None \<Rightarrow> True | Some (u, v) \<Rightarrow> CHR '','' \<notin> set v))"

definition clear_of_mapped :: "ip_list \<Rightarrow> bool" where
  "clear_of_mapped r \<longleftrightarrow>
     IsSingle r \<or> \<not> is6 (paddr (IP r))
     \<or> addr_val (base_addr (IP r)) + 2 ^ host_bits (IP r) \<le> 0xFFFF00000000
     \<or> 0x1000000000000 \<le> addr_val (base_addr (IP r))"

lemma trim_left_idem [simp]: "trim_left (trim_left s) = trim_left s"
  by (simp add: trim_left_def trim_front_idem)

lemma trim_space_trim_left [simp]: "trim_space (trim_left s) = trim_space s"
  by (simp add: trim_space_def)

lemma trim_left_trim_space [simp]: "trim_left (trim_space s) = trim_space s"
proof -
  let ?t = "trim_left s"
  have "prefix (trim_right ?t) ?t"
    using trim_front_suffix [of "map rev ws_runes" "rev ?t"]
    by (simp add: trim_right_def suffix_to_prefix)
  then show ?thesis
    unfolding trim_space_def trim_left_def
    by (intro trim_front_fixed) (meson prefix_order.trans trim_front_no_prefix)
qed

lemma ParseRecord_trim:
  "ParseRecord [trim_space f] = ParseRecord [f]"
  "ParseRecord [trim_space f, trim_space g] = ParseRecord [f, g]"
  "ParseRecord [f, trim_left g] = ParseRecord [f, g]"
  by (simp_all add: ParseRecord_def)

lemma set_trim_left: "set (trim_left s) \<subseteq> set s"
  by (metis trim_left_def trim_front_suffix set_mono_suffix)

lemma csv_fields_unquoted:
  "trim_left s = c # t \<Longrightarrow> c \<noteq> CHR 0x22 \<Longrightarrow>
   csv_fields s = (case cut (CHR '','') (c # t) of None \<Rightarrow> [c # t] | Some (f, r) \<Rightarrow> f # csv_fields r)"
  by (subst csv_fields.simps) (simp del: cut.simps)

lemma csv_fields_plain1:
  assumes "CHR 0x22 \<notin> set s" and "CHR '','' \<notin> set s"
  shows "csv_fields s = [trim_left s]"
proof (cases "trim_left s")
  case Nil
  then show ?thesis by (simp add: csv_fields.simps)
next
  case (Cons c t)
  have "set (trim_left s) \<subseteq> set s" by (rule set_trim_left)
  then have "c \<noteq> CHR 0x22" "CHR '','' \<notin> set (c # t)"
    using assms Cons by auto
  then have "cut (CHR '','') (c # t) = None" by (simp del: cut.simps)
  with \<open>c \<noteq> CHR 0x22\<close> show ?thesis
    by (simp only: csv_fields_unquoted [OF Cons \<open>c \<noteq> CHR 0x22\<close>] option.case Cons)
qed

lemma csv_fields_plain:
  assumes "plain_line l" and "trim_space l = line" and "line \<noteq> []"
  shows "ParseRecord (csv_fields line) = ParseRecord (map trim_space (split2 line))"
proof (cases "cut (CHR '','') line")
  case None
  then have "csv_fields line = [line]"
    using assms csv_fields_plain1 [of line] by (auto simp: plain_line_def)
  with None show ?thesis by (simp add: split2_def ParseRecord_trim del: cut_None)
next
  case (Some uv)
  obtain u v where uv: "uv = (u, v)" by (cases uv)
  obtain c t where ct: "line = c # t" using assms(3) by (cases line) auto
  have left: "trim_left line = c # t"
    using trim_left_trim_space [of l] unfolding assms(2) by (simp only: ct)
  have c: "c \<noteq> CHR 0x22" using assms(1,2) ct by (auto simp: plain_line_def)
  have "line = u @ CHR '','' # v" using cut_eq Some uv by simp
  then have v: "CHR 0x22 \<notin> set v" "CHR '','' \<notin> set v"
    using assms(1,2) Some uv by (auto simp: plain_line_def)
  have "csv_fields line = u # csv_fields v"
    using csv_fields_unquoted [OF left c] Some uv ct by (simp del: cut.simps)
  with csv_fields_plain1 [OF v] Some uv show ?thesis
    by (simp add: split2_def ParseRecord_trim)
qed

lemma index_row_plain:
  assumes "plain_line l"
  shows "index_row (l, off) =
    (case Option.bind (line_record (l, off)) record_entry of
       None \<Rightarrow> None | Some ro \<Rightarrow> if Enable (fst ro) then Some ro else None)"
proof (cases "trim_space l = []")
  case False
  then show ?thesis
    using csv_fields_plain [OF assms refl False] assms
    by (auto simp: index_row_def line_record_def record_entry_def plain_line_def Let_def
        split: option.split)
qed (simp add: index_row_def line_record_def)

lemma map_filter_bind: "List.map_filter f (List.map_filter g xs) = List.map_filter (\<lambda>x. Option.bind (g x) f) xs"
  by (induction xs) (auto simp: List.map_filter_simps split: option.split)

lemma filter_map_filter:
  "filter P (List.map_filter f xs)
   = List.map_filter (\<lambda>x. case f x of None \<Rightarrow> None | Some y \<Rightarrow> if P y then Some y else None) xs"
  by (induction xs) (auto simp: List.map_filter_simps split: option.split)

lemma map_filter_cong_set: "(\<And>x. x \<in> set xs \<Longrightarrow> f x = g x) \<Longrightarrow> List.map_filter f xs = List.map_filter g xs"
proof (induction xs)
  case (Cons a xs)
  then have "f a = g a" and "List.map_filter f xs = List.map_filter g xs" by simp_all
  then show ?case by (cases "g a") (simp_all add: List.map_filter_simps)
qed (simp add: List.map_filter_simps)

lemma index_rows_plain:
  assumes "\<forall>l \<in> set (raw_lines content). plain_line l"
  shows "index_rows content = filter (\<lambda>eo. Enable (fst eo)) (entries content)"
proof -
  have lines: "fst ` set (with_offsets k ls) = set ls" for k ls
    by (induction ls arbitrary: k) auto
  have "index_rows content = List.map_filter (\<lambda>lo. case Option.bind (line_record lo) record_entry of
       None \<Rightarrow> None | Some ro \<Rightarrow> if Enable (fst ro) then Some ro else None)
       (with_offsets 0 (raw_lines content))"
    unfolding index_rows_def
  proof (rule map_filter_cong_set)
    fix lo assume "lo \<in> set (with_offsets 0 (raw_lines content))"
    then have "fst lo \<in> set (raw_lines content)" using lines [of 0 "raw_lines content"] by blast
    with assms index_row_plain [of "fst lo" "snd lo"]
    show "index_row lo = (case Option.bind (line_record lo) record_entry of
       None \<Rightarrow> None | Some ro \<Rightarrow> if Enable (fst ro) then Some ro else None)" by simp
  qed
  then show ?thesis
    by (simp only: entries_def csv_records_def map_filter_bind filter_map_filter)
qed

lemma unat_mapped: "unat (mapped_base + ucast (w :: 32 word)) = 0xFFFF00000000 + unat w"
proof -
  have "unat w < 4294967296" using unsigned_less [of w, where 'a = nat] by simp
  then show ?thesis
    by (simp add: mapped_base_def unat_word_ariths unsigned_ucast_eq take_bit_eq_mod)
qed

lemma mod_add_numeral: "n < 4294967296 \<Longrightarrow> (281470681743360 + n) mod 4294967296 = (n :: nat)"
proof -
  assume "n < 4294967296"
  moreover have "(65535 * 4294967296 + n) mod 4294967296 = n mod 4294967296" by (rule mod_mult_self3)
  ultimately show ?thesis by simp
qed

lemma unmap_V4: "unmap_addr (V4 w) = V4 w"
proof -
  let ?m = "mapped_base + ucast w"
  have w: "unat w < 4294967296" using unsigned_less [of w, where 'a = nat] by simp
  have "unat (drop_bit 32 ?m) = 0xFFFF"
    using w by (simp only: unat_drop_bit unat_mapped) simp
  then have "drop_bit 32 ?m = 0xFFFF" by (simp only: word_unat_eq_iff) simp
  moreover have "unat (ucast ?m :: 32 word) = unat w"
    using w by (simp only: unsigned_ucast_eq unat_mapped) (simp add: take_bit_eq_mod mod_add_numeral)
  then have "(ucast ?m :: 32 word) = w" by (simp only: word_unat_eq_iff)
  ultimately show ?thesis
    by (simp only: unmap_addr_def as16.simps unmap16_def if_True simp_thms)
qed

lemma unmap_addr_clear:
  assumes "clear_of_mapped r" and "\<not> IsSingle r" and "a \<in> set (prefix_addrs (IP r))"
  shows "unmap_addr a = a"
proof (cases a)
  case (V4 w)
  then show ?thesis by (simp add: unmap_V4)
next
  case (V6 w)
  from assms(3) have "contains (masked (IP r)) a" by (simp add: set_prefix_addrs)
  then have range: "addr_val (base_addr (IP r)) \<le> unat w"
      "unat w < addr_val (base_addr (IP r)) + 2 ^ host_bits (IP r)" "is6 (paddr (IP r))"
    using V6 by (auto simp: contains_iff_range same_family_def)
  with assms(1,2) have "unat w < 0xFFFF00000000 \<or> 0x1000000000000 \<le> unat w"
    by (auto simp: clear_of_mapped_def)
  then have "unat w div 2 ^ 32 \<noteq> 0xFFFF" by auto
  then have "drop_bit 32 w \<noteq> 0xFFFF"
    by (metis unat_drop_bit unat_numeral_128)
  then show ?thesis by (simp only: V6 unmap_addr_def as16.simps unmap16_def if_False simp_thms)
qed

text \<open>On a list without quotes, without a second comma in a line and without ranges of
  IPv4-mapped addresses, the shuffled stream works on exactly the addresses the sequential
  stream sends: the same rows are read as enabled and every row is expanded the same way.\<close>

theorem plain_lists_agree:
  assumes "\<forall>l \<in> set (raw_lines content). plain_line l"
    and "\<forall>eo \<in> set (index_rows content). clear_of_mapped (fst eo)"
  shows "shuffled_addrs content = active_addrs (entries content)"
proof -
  have "row_addrs (fst eo) = prefix_addrs (IP (fst eo))" if "eo \<in> set (index_rows content)" for eo
  proof (cases "IsSingle (fst eo)")
    case True
    moreover have "entry_ok (fst eo)" using that index_rows_ok [of "fst eo" "snd eo"] by simp
    ultimately show ?thesis by (simp add: row_addrs_def prefix_addrs_single)
  next
    case False
    with unmap_addr_clear [of "fst eo"] assms(2) that show ?thesis
      by (auto simp: row_addrs_def intro: map_idI)
  qed
  then have "shuffled_addrs content = concat (map (prefix_addrs \<circ> IP \<circ> fst) (index_rows content))"
    by (simp add: shuffled_addrs_def comp_def cong: map_cong)
  then show ?thesis
    by (simp add: index_rows_plain [OF assms(1)] active_addrs_def comp_def)
qed

lemma plain_lists_agree_witness:
  "shuffled_addrs demo_list = active_addrs (entries demo_list)"
proof (rule plain_lists_agree)
  have "raw_lines demo_list = [''1.1.1.1,1'' @ [CHR 0x0A], ''2.2.2.0/30'']"
    by (simp add: demo_list_def)
  then show "\<forall>l \<in> set (raw_lines demo_list). plain_line l"
    by (simp add: plain_line_def has_prefix_def eval_trim)
qed (simp add: demo_rows clear_of_mapped_def)

end
