(* ===== verification/ScanErrors.thy ===== *)
theory ScanErrors
  imports Prelude
begin

text \<open>
  Errors of a scan: the sentinel errors and \<open>NormalizeErr\<close> of
  \<open>internal/core/scanner/probe/errors.go\<close>, and the statistics of probe failures in
  \<open>internal/core/scanner/engine/worker.go\<close> and \<open>progress.go\<close>. An error value is the list of
  the sentinels of its chain: \<open>errors.Is(err, s)\<close> is membership. \<open>NetTimeout\<close> stands for a
  \<open>net.Error\<close> in the chain whose \<open>Timeout()\<close> is true, \<open>Plain n\<close> for any other error.
\<close>

datatype sentinel =
  ErrTimeout | ErrRefused | ErrUnreachable | ErrBadResponse
| DeadlineExceeded | OsDeadlineExceeded | NetTimeout
| ECONNREFUSED | EHOSTUNREACH | ENETUNREACH
| IoEOF | IoUnexpectedEOF | Canceled
| ErrResultLimitReached | ErrWriterFatal | ErrNoStages | Plain nat

type_synonym go_err = "sentinel list"

definition err_is :: "go_err \<Rightarrow> sentinel \<Rightarrow> bool" where
  "err_is e s \<longleftrightarrow> s \<in> set e"

definition NormalizeErr :: "go_err option \<Rightarrow> go_err option" where
  "NormalizeErr err =
     (case err of
        None \<Rightarrow> None
      | Some e \<Rightarrow>
          if err_is e ErrTimeout \<or> err_is e ErrRefused \<or> err_is e ErrUnreachable
             \<or> err_is e ErrBadResponse then Some e
          else if err_is e DeadlineExceeded \<or> err_is e OsDeadlineExceeded \<or> err_is e NetTimeout
            then Some (ErrTimeout # e)
          else if err_is e ECONNREFUSED then Some (ErrRefused # e)
          else if err_is e EHOSTUNREACH \<or> err_is e ENETUNREACH then Some (ErrUnreachable # e)
          else Some e)"

record errStats =
  timeout :: u64
  unreachable :: u64
  refused :: u64
  badResponse :: u64
  closed_conn :: u64
  other :: u64

definition no_errs :: errStats where
  "no_errs = \<lparr>timeout = 0, unreachable = 0, refused = 0, badResponse = 0, closed_conn = 0, other = 0\<rparr>"

definition count_err :: "go_err \<Rightarrow> errStats \<Rightarrow> errStats \<times> bool" where
  "count_err e s =
     (if err_is e ErrTimeout then (s\<lparr>timeout := timeout s + 1\<rparr>, True)
      else if err_is e ErrUnreachable then (s\<lparr>unreachable := unreachable s + 1\<rparr>, True)
      else if err_is e ErrRefused then (s\<lparr>refused := refused s + 1\<rparr>, True)
      else if err_is e ErrBadResponse then (s\<lparr>badResponse := badResponse s + 1\<rparr>, True)
      else if err_is e IoEOF \<or> err_is e IoUnexpectedEOF
        then (s\<lparr>closed_conn := closed_conn s + 1\<rparr>, True)
      else (s\<lparr>other := other s + 1\<rparr>, False))"

text \<open>\<open>snapshot\<close> reads the six counters; \<open>Total\<close> adds them in 64 bits.\<close>

definition stats_total :: "errStats \<Rightarrow> u64" where
  "stats_total s =
     timeout s + unreachable s + refused s + badResponse s + closed_conn s + other s"

text \<open>\<open>logIPError\<close>: the statistics after it, and the level it logs at.\<close>

datatype log_level = LogNone | LogDebug | LogError

definition logIPError :: "go_err \<Rightarrow> errStats \<Rightarrow> errStats \<times> log_level" where
  "logIPError e s =
     (if err_is e Canceled \<or> err_is e ErrResultLimitReached then (s, LogNone)
      else case count_err e s of
             (s', expected) \<Rightarrow> (s', if expected then LogDebug else LogError))"

definition terminating :: "go_err \<Rightarrow> bool" where
  "terminating e \<longleftrightarrow> err_is e ErrResultLimitReached \<or> err_is e ErrWriterFatal"

subsection \<open>Properties\<close>

definition probe_sentinel :: "go_err \<Rightarrow> bool" where
  "probe_sentinel e \<longleftrightarrow>
     err_is e ErrTimeout \<or> err_is e ErrRefused \<or> err_is e ErrUnreachable \<or> err_is e ErrBadResponse"

lemma NormalizeErr_idem: "NormalizeErr (NormalizeErr err) = NormalizeErr err"
  by (auto simp: NormalizeErr_def err_is_def split: option.split)

lemma NormalizeErr_keeps: "NormalizeErr (Some e) = Some e' \<Longrightarrow> err_is e s \<Longrightarrow> err_is e' s"
  by (auto simp: NormalizeErr_def err_is_def split: if_splits)

lemma NormalizeErr_terminating: "NormalizeErr (Some e) = Some e' \<Longrightarrow> terminating e' = terminating e"
  by (auto simp: NormalizeErr_def terminating_def err_is_def split: if_splits)

lemma count_err_total: "stats_total (fst (count_err e s)) = stats_total s + 1"
  by (simp add: count_err_def stats_total_def)

text \<open>What the counters should say: how many errors of a list fall into each class, the first
  class that applies.\<close>

datatype err_class = CTimeout | CUnreachable | CRefused | CBad | CClosed | COther

definition classify :: "go_err \<Rightarrow> err_class" where
  "classify e =
     (if err_is e ErrTimeout then CTimeout else if err_is e ErrUnreachable then CUnreachable
      else if err_is e ErrRefused then CRefused else if err_is e ErrBadResponse then CBad
      else if err_is e IoEOF \<or> err_is e IoUnexpectedEOF then CClosed else COther)"

definition counted_err :: "go_err \<Rightarrow> bool" where
  "counted_err e \<longleftrightarrow> \<not> err_is e Canceled \<and> \<not> err_is e ErrResultLimitReached"

definition tally :: "err_class \<Rightarrow> go_err list \<Rightarrow> nat" where
  "tally c es = length (filter (\<lambda>e. counted_err e \<and> classify e = c) es)"

definition log_all :: "go_err list \<Rightarrow> errStats \<Rightarrow> errStats" where
  "log_all es s = fold (\<lambda>e s. fst (logIPError e s)) es s"

lemma logIPError_stats:
  "fst (logIPError e s) =
     (if \<not> counted_err e then s
      else case classify e of
             CTimeout \<Rightarrow> s\<lparr>timeout := timeout s + 1\<rparr>
           | CUnreachable \<Rightarrow> s\<lparr>unreachable := unreachable s + 1\<rparr>
           | CRefused \<Rightarrow> s\<lparr>refused := refused s + 1\<rparr>
           | CBad \<Rightarrow> s\<lparr>badResponse := badResponse s + 1\<rparr>
           | CClosed \<Rightarrow> s\<lparr>closed_conn := closed_conn s + 1\<rparr>
           | COther \<Rightarrow> s\<lparr>other := other s + 1\<rparr>)"
  by (auto simp: logIPError_def counted_err_def classify_def count_err_def)

lemma log_all_counts:
  "log_all es s = s\<lparr>timeout := timeout s + of_nat (tally CTimeout es),
     unreachable := unreachable s + of_nat (tally CUnreachable es),
     refused := refused s + of_nat (tally CRefused es),
     badResponse := badResponse s + of_nat (tally CBad es),
     closed_conn := closed_conn s + of_nat (tally CClosed es),
     other := other s + of_nat (tally COther es)\<rparr>"
proof (induction es arbitrary: s)
  case Nil
  then show ?case by (simp add: log_all_def tally_def)
next
  case (Cons e es)
  have "log_all (e # es) s = log_all es (fst (logIPError e s))" by (simp add: log_all_def)
  with Cons.IH show ?case
    by (cases "counted_err e"; cases "classify e")
      (simp_all add: logIPError_stats tally_def ac_simps)
qed

lemma length_tally:
  "length (filter counted_err es) = tally CTimeout es + tally CUnreachable es + tally CRefused es
     + tally CBad es + tally CClosed es + tally COther es"
proof (induction es)
  case (Cons e es)
  then show ?case by (cases "counted_err e"; cases "classify e") (simp_all add: tally_def)
qed (simp add: tally_def)

text \<open>The failure statistics are exact: after any sequence of probe errors every class holds
  the number of errors whose first matching class it is, cancellations and the result limit are
  not counted, and \<open>Total\<close> is the number of counted errors. A network timeout reported by the
  operating system is counted as a timeout, because \<open>NormalizeErr\<close> marks it.\<close>

theorem error_statistics_exact:
  "let s = log_all es no_errs
   in timeout s = of_nat (tally CTimeout es) \<and> unreachable s = of_nat (tally CUnreachable es)
      \<and> refused s = of_nat (tally CRefused es) \<and> badResponse s = of_nat (tally CBad es)
      \<and> closed_conn s = of_nat (tally CClosed es) \<and> other s = of_nat (tally COther es)
      \<and> stats_total s = of_nat (length (filter counted_err es))
      \<and> (\<forall>e s. NormalizeErr (Some (NetTimeout # e)) = Some s \<longrightarrow> \<not> probe_sentinel e
            \<longrightarrow> classify s = CTimeout)"
  using length_tally [of es]
  by (auto simp: log_all_counts no_errs_def stats_total_def NormalizeErr_def err_is_def classify_def
      probe_sentinel_def Let_def split: if_splits)

lemma error_statistics_exact_witness:
  "stats_total (log_all [[ErrTimeout, NetTimeout], [Canceled], [IoEOF], [Plain 3]] no_errs) = 3
   \<and> timeout (log_all [[ErrTimeout, NetTimeout], [Canceled], [IoEOF], [Plain 3]] no_errs) = 1"
  using error_statistics_exact [of "[[ErrTimeout, NetTimeout], [Canceled], [IoEOF], [Plain 3]]"]
  by (simp add: Let_def counted_err_def tally_def classify_def err_is_def)

end
