(* ===== verification/Transitions.thy ===== *)
theory Transitions
  imports Prelude
begin

text \<open>
  Transition systems with invariants: the part of the argument about concurrent
  components that does not depend on the component. A component gives its initial
  states, its step relation and its invariant; the locale turns "holds initially and
  is kept by every step" into facts about all reachable states and all runs.
\<close>

inductive reach :: "('s \<Rightarrow> bool) \<Rightarrow> ('s \<Rightarrow> 's \<Rightarrow> bool) \<Rightarrow> 's \<Rightarrow> bool"
  for init :: "'s \<Rightarrow> bool" and step :: "'s \<Rightarrow> 's \<Rightarrow> bool" where
  reach_init: "init s \<Longrightarrow> reach init step s"
| reach_step: "reach init step s \<Longrightarrow> step s t \<Longrightarrow> reach init step t"

lemma reach_steps: "step\<^sup>*\<^sup>* s t \<Longrightarrow> reach init step s \<Longrightarrow> reach init step t"
  by (induction rule: rtranclp_induct) (auto intro: reach_step)

locale invariant_system =
  fixes init :: "'s \<Rightarrow> bool"
    and step :: "'s \<Rightarrow> 's \<Rightarrow> bool"
    and inv :: "'s \<Rightarrow> bool"
  assumes inv_init: "init s \<Longrightarrow> inv s"
    and inv_step: "step s t \<Longrightarrow> inv s \<Longrightarrow> inv t"
begin

lemma reach_inv: "reach init step s \<Longrightarrow> inv s"
  by (induction rule: reach.induct) (auto intro: inv_init inv_step)

lemma steps_inv: "step\<^sup>*\<^sup>* s t \<Longrightarrow> inv s \<Longrightarrow> inv t"
  by (induction rule: rtranclp_induct) (auto intro: inv_step)

end

text \<open>
  A measure that no step lets grow, and that a subset of the steps strictly decreases,
  bounds how often those steps can happen in a run.
\<close>

locale bounded_system = invariant_system init step inv
  for init :: "'s \<Rightarrow> bool" and step :: "'s \<Rightarrow> 's \<Rightarrow> bool" and inv :: "'s \<Rightarrow> bool" +
  fixes counter :: "'s \<Rightarrow> nat" and bound :: "'s \<Rightarrow> nat"
  assumes counter_mono: "step s t \<Longrightarrow> inv s \<Longrightarrow> counter s \<le> counter t"
    and bound_const: "step s t \<Longrightarrow> inv s \<Longrightarrow> bound t = bound s"
    and counter_bound: "inv s \<Longrightarrow> counter s \<le> bound s"
begin

lemma steps_bound_const: "step\<^sup>*\<^sup>* s t \<Longrightarrow> inv s \<Longrightarrow> bound t = bound s"
proof (induction rule: rtranclp_induct)
  case (step y z)
  then show ?case using steps_inv bound_const by metis
qed simp

lemma steps_counter_le: "step\<^sup>*\<^sup>* s t \<Longrightarrow> inv s \<Longrightarrow> counter t \<le> bound s"
  using steps_inv steps_bound_const counter_bound by metis

lemma steps_counter_mono: "step\<^sup>*\<^sup>* s t \<Longrightarrow> inv s \<Longrightarrow> counter s \<le> counter t"
proof (induction rule: rtranclp_induct)
  case (step y z)
  then show ?case using steps_inv counter_mono order_trans by metis
qed simp

end

end
