(* ===== verification/StageExec.thy ===== *)
theory StageExec
  imports ScanErrors Transitions NetAddr "HOL-Library.Multiset"
begin

text \<open>
  One stage of a scan, \<open>internal/core/scanner/engine/stage.go\<close> and the worker pool of
  \<open>worker.go\<close>. First \<open>processIP\<close> and \<open>runWorker\<close> as one worker runs them alone, then the
  pool: workers whose atomic actions (the reads and the compare-and-swap of the success counter,
  the report of a result) interleave. What the outside answers for an address (rate limiter,
  probe, writer, context) is a \<open>call\<close>, a parameter of the model.
\<close>

subsection \<open>State and operations\<close>

record 'r executor =
  resultLimit :: u64
  processed :: u64
  succeeded :: u64
  ignoreWriterErr :: bool
  writerDisabled :: bool
  on_success :: "'r list"
  rows_written :: "'r list"
  estats :: errStats

record 'r call =
  rate_err :: "go_err option"
  probe_run :: "go_err + 'r"
  ctx_after_probe :: bool
  write_err :: "go_err option"
  ctx_after_write :: bool

text \<open>\<open>newStageExecutor\<close>: what \<open>Writer.Start\<close> and \<open>Probe.Init\<close> answer decides.\<close>

definition newStageExecutor ::
  "go_err option \<Rightarrow> go_err option \<Rightarrow> bool \<Rightarrow> u64 \<Rightarrow> go_err + 'r executor" where
  "newStageExecutor start_err init_err ignore_err limit =
     (let e = \<lparr>resultLimit = limit, processed = 0, succeeded = 0, ignoreWriterErr = ignore_err,
               writerDisabled = (start_err \<noteq> None), on_success = [], rows_written = [],
               estats = no_errs\<rparr>
      in case start_err of
           Some er \<Rightarrow>
             if \<not> ignore_err then Inl er
             else (case init_err of Some er' \<Rightarrow> Inl er' | None \<Rightarrow> Inr e)
         | None \<Rightarrow> (case init_err of Some er' \<Rightarrow> Inl er' | None \<Rightarrow> Inr e))"

definition resultLimitReached :: "'r executor \<Rightarrow> bool" where
  "resultLimitReached e \<longleftrightarrow> 0 < resultLimit e \<and> resultLimit e \<le> succeeded e"

definition claimResultSlot :: "'r executor \<Rightarrow> (u64 \<times> bool) \<times> 'r executor" where
  "claimResultSlot e =
     (if resultLimit e = 0 then ((succeeded e + 1, True), e\<lparr>succeeded := succeeded e + 1\<rparr>)
      else if resultLimit e \<le> succeeded e then ((succeeded e, False), e)
      else ((succeeded e + 1, True), e\<lparr>succeeded := succeeded e + 1\<rparr>))"

text \<open>The result is reported to the hook, then written.\<close>

definition write_result :: "'r call \<Rightarrow> 'r \<Rightarrow> 'r executor \<Rightarrow> go_err option \<times> 'r executor" where
  "write_result c r e =
     (if writerDisabled e then (None, e)
      else case write_err c of
             None \<Rightarrow> (None, e\<lparr>rows_written := rows_written e @ [r]\<rparr>)
           | Some er \<Rightarrow>
               if ignoreWriterErr e then (None, e)
               else if ctx_after_write c then (Some er, e)
               else (Some (ErrWriterFatal # er), e))"

definition report :: "'r call \<Rightarrow> 'r \<Rightarrow> u64 \<Rightarrow> 'r executor \<Rightarrow> go_err option \<times> 'r executor" where
  "report c r n e =
     (case write_result c r (e\<lparr>on_success := on_success e @ [r]\<rparr>) of
        (Some er, e') \<Rightarrow> (Some er, e')
      | (None, e') \<Rightarrow>
          (if 0 < resultLimit e' \<and> resultLimit e' \<le> n then Some [ErrResultLimitReached] else None, e'))"

definition processIP :: "'r call \<Rightarrow> 'r executor \<Rightarrow> go_err option \<times> 'r executor" where
  "processIP c e =
     (if resultLimitReached e then (Some [ErrResultLimitReached], e)
      else case rate_err c of
             Some er \<Rightarrow> (Some er, e)
           | None \<Rightarrow>
               let e1 = e\<lparr>processed := processed e + 1\<rparr>
               in case probe_run c of
                    Inl er \<Rightarrow> (if ctx_after_probe c then Some er else NormalizeErr (Some er), e1)
                  | Inr r \<Rightarrow>
                      (case claimResultSlot e1 of
                         ((n, ok), e2) \<Rightarrow>
                           if \<not> ok then (Some [ErrResultLimitReached], e2) else report c r n e2))"

text \<open>One worker on the addresses it receives: a terminating error ends it, others are logged.\<close>

fun runWorker ::
  "(addr \<Rightarrow> 'r call) \<Rightarrow> addr list \<Rightarrow> 'r executor \<Rightarrow> go_err option \<times> addr list \<times> 'r executor" where
  "runWorker env [] e = (None, [], e)"
| "runWorker env (ip # ips) e =
     (case processIP (env ip) e of
        (None, e') \<Rightarrow>
          (case runWorker env ips e' of (er, out, e'') \<Rightarrow> (er, ip # out, e''))
      | (Some er, e') \<Rightarrow>
          if terminating er then (Some er, [], e')
          else runWorker env ips (e'\<lparr>estats := fst (logIPError er (estats e'))\<rparr>))"

definition getWorkerCount :: "int \<Rightarrow> int" where
  "getWorkerCount workers = (if workers \<le> 0 then 1 else workers)"

subsection \<open>The pool\<close>

datatype 'r wpc =
  Ready
| Checking addr
| Running addr
| Loading addr 'r
| Swapping addr 'r u64
| Claimed addr 'r u64
| Exited "go_err option"

text \<open>\<open>queue\<close> is the input that is still to come; \<open>passed\<close>, \<open>failed\<close> and \<open>lost\<close> record how an
  address ended: forwarded, logged as an error, or dropped with a worker that stopped.\<close>

record 'r pool_state =
  exec :: "'r executor"
  queue :: "addr list"
  wpcs :: "'r wpc list"
  ctx_done :: bool
  passed :: "addr list"
  failed :: "addr list"
  lost :: "addr list"

definition settle :: "nat \<Rightarrow> addr \<Rightarrow> go_err \<Rightarrow> 'r pool_state \<Rightarrow> 'r pool_state" where
  "settle i ip er p =
     (if terminating er
      then p\<lparr>wpcs := (wpcs p)[i := Exited (Some er)], lost := lost p @ [ip]\<rparr>
      else p\<lparr>wpcs := (wpcs p)[i := Ready], failed := failed p @ [ip],
             exec := (exec p)\<lparr>estats := fst (logIPError er (estats (exec p)))\<rparr>\<rparr>)"

definition probed :: "'r executor \<Rightarrow> 'r executor" where
  "probed e = e\<lparr>processed := processed e + 1\<rparr>"

definition at_pc :: "'r pool_state \<Rightarrow> nat \<Rightarrow> 'r wpc \<Rightarrow> bool" where
  "at_pc p i w \<longleftrightarrow> i < length (wpcs p) \<and> wpcs p ! i = w"

definition goto :: "nat \<Rightarrow> 'r wpc \<Rightarrow> 'r pool_state \<Rightarrow> 'r pool_state" where
  "goto i w p = p\<lparr>wpcs := (wpcs p)[i := w]\<rparr>"

inductive worker_step ::
  "(bool \<Rightarrow> addr \<Rightarrow> 'r call) \<Rightarrow> 'r pool_state \<Rightarrow> 'r pool_state \<Rightarrow> bool"
  for env :: "bool \<Rightarrow> addr \<Rightarrow> 'r call" where
  w_take: "at_pc p i Ready \<Longrightarrow> queue p = ip # q
    \<Longrightarrow> worker_step env p (goto i (Checking ip) (p\<lparr>queue := q\<rparr>))"
| w_drain: "at_pc p i Ready \<Longrightarrow> queue p = [] \<Longrightarrow> worker_step env p (goto i (Exited None) p)"
| w_stop: "at_pc p i Ready \<Longrightarrow> ctx_done p \<Longrightarrow> worker_step env p (goto i (Exited None) p)"
| w_full: "at_pc p i (Checking ip) \<Longrightarrow> resultLimitReached (exec p)
    \<Longrightarrow> worker_step env p (settle i ip [ErrResultLimitReached] p)"
| w_go: "at_pc p i (Checking ip) \<Longrightarrow> \<not> resultLimitReached (exec p)
    \<Longrightarrow> worker_step env p (goto i (Running ip) p)"
| w_rate: "at_pc p i (Running ip) \<Longrightarrow> rate_err (env (ctx_done p) ip) = Some er
    \<Longrightarrow> worker_step env p (settle i ip er p)"
| w_probe_err: "at_pc p i (Running ip) \<Longrightarrow> rate_err (env (ctx_done p) ip) = None
    \<Longrightarrow> probe_run (env (ctx_done p) ip) = Inl er
    \<Longrightarrow> worker_step env p
          (settle i ip
             (if ctx_after_probe (env (ctx_done p) ip) then er else the (NormalizeErr (Some er)))
             (p\<lparr>exec := probed (exec p)\<rparr>))"
| w_probe_ok: "at_pc p i (Running ip) \<Longrightarrow> rate_err (env (ctx_done p) ip) = None
    \<Longrightarrow> probe_run (env (ctx_done p) ip) = Inr r
    \<Longrightarrow> worker_step env p (goto i (Loading ip r) (p\<lparr>exec := probed (exec p)\<rparr>))"
| w_claim_free: "at_pc p i (Loading ip r) \<Longrightarrow> resultLimit (exec p) = 0
    \<Longrightarrow> worker_step env p
          (goto i (Claimed ip r (succeeded (exec p) + 1))
             (p\<lparr>exec := (exec p)\<lparr>succeeded := succeeded (exec p) + 1\<rparr>\<rparr>))"
| w_claim_full: "at_pc p i (Loading ip r) \<Longrightarrow> resultLimit (exec p) \<noteq> 0
    \<Longrightarrow> resultLimit (exec p) \<le> succeeded (exec p)
    \<Longrightarrow> worker_step env p (settle i ip [ErrResultLimitReached] p)"
| w_load: "at_pc p i (Loading ip r) \<Longrightarrow> resultLimit (exec p) \<noteq> 0
    \<Longrightarrow> succeeded (exec p) < resultLimit (exec p)
    \<Longrightarrow> worker_step env p (goto i (Swapping ip r (succeeded (exec p))) p)"
| w_cas: "at_pc p i (Swapping ip r c) \<Longrightarrow> succeeded (exec p) = c
    \<Longrightarrow> worker_step env p
          (goto i (Claimed ip r (c + 1)) (p\<lparr>exec := (exec p)\<lparr>succeeded := c + 1\<rparr>\<rparr>))"
| w_retry: "at_pc p i (Swapping ip r c) \<Longrightarrow> succeeded (exec p) \<noteq> c
    \<Longrightarrow> worker_step env p (goto i (Loading ip r) p)"
| w_report: "at_pc p i (Claimed ip r n) \<Longrightarrow> report (env (ctx_done p) ip) r n (exec p) = (None, e)
    \<Longrightarrow> worker_step env p (goto i Ready (p\<lparr>exec := e, passed := passed p @ [ip]\<rparr>))"
| w_report_err: "at_pc p i (Claimed ip r n)
    \<Longrightarrow> report (env (ctx_done p) ip) r n (exec p) = (Some er, e)
    \<Longrightarrow> worker_step env p (settle i ip er (p\<lparr>exec := e\<rparr>))"
| w_cancel: "worker_step env p (p\<lparr>ctx_done := True\<rparr>)"

inductive_cases worker_stepE: "worker_step env p p'"

definition pool_start :: "'r executor \<Rightarrow> nat \<Rightarrow> addr list \<Rightarrow> 'r pool_state" where
  "pool_start e n ips =
     \<lparr>exec = e, queue = ips, wpcs = replicate n Ready, ctx_done = False,
      passed = [], failed = [], lost = []\<rparr>"

end
