(* ===== verification/PoolCorrect.thy ===== *)
theory PoolCorrect
  imports StageExec
begin

text \<open>
  What the worker pool guarantees under every interleaving: the result limit is never
  exceeded, and without a limit every address of the input is probed once and forwarded exactly
  when its probe succeeds.
\<close>

subsection \<open>Counting over workers\<close>

definition tot :: "('w \<Rightarrow> 'm :: comm_monoid_add) \<Rightarrow> 'w list \<Rightarrow> 'm" where
  "tot f ws = sum_list (map f ws)"

lemma tot_update:
  "i < length ws \<Longrightarrow> tot f (ws[i := w]) + f (ws ! i) = tot f ws + f w"
  unfolding tot_def
proof (induction ws arbitrary: i)
  case (Cons v ws)
  then show ?case by (cases i) (auto simp: ac_simps)
qed simp

lemma tot_replicate_0: "f w = 0 \<Longrightarrow> tot f (replicate n w) = 0"
  by (induction n) (simp_all add: tot_def)

lemmas in_update = set_update_subset_insert [THEN subsetD]

lemma at_pcD: "at_pc p i w \<Longrightarrow> i < length (wpcs p) \<and> wpcs p ! i = w \<and> w \<in> set (wpcs p)"
  by (auto simp: at_pc_def)

lemma goto_sel [simp]:
  "exec (goto i w p) = exec p" "queue (goto i w p) = queue p" "wpcs (goto i w p) = (wpcs p)[i := w]"
  "ctx_done (goto i w p) = ctx_done p" "passed (goto i w p) = passed p"
  "failed (goto i w p) = failed p" "lost (goto i w p) = lost p"
  by (simp_all add: goto_def)

lemma settle_sel [simp]:
  "succeeded (exec (settle i ip er p)) = succeeded (exec p)"
  "resultLimit (exec (settle i ip er p)) = resultLimit (exec p)"
  "on_success (exec (settle i ip er p)) = on_success (exec p)"
  "rows_written (exec (settle i ip er p)) = rows_written (exec p)"
  "ignoreWriterErr (exec (settle i ip er p)) = ignoreWriterErr (exec p)"
  "writerDisabled (exec (settle i ip er p)) = writerDisabled (exec p)"
  "queue (settle i ip er p) = queue p" "ctx_done (settle i ip er p) = ctx_done p"
  "passed (settle i ip er p) = passed p"
  "wpcs (settle i ip er p) = (wpcs p)[i := if terminating er then Exited (Some er) else Ready]"
  "failed (settle i ip er p) = (if terminating er then failed p else failed p @ [ip])"
  "lost (settle i ip er p) = (if terminating er then lost p @ [ip] else lost p)"
  by (simp_all add: settle_def)

lemma probed_sel [simp]:
  "succeeded (probed e) = succeeded e" "resultLimit (probed e) = resultLimit e"
  "on_success (probed e) = on_success e" "rows_written (probed e) = rows_written e"
  "ignoreWriterErr (probed e) = ignoreWriterErr e" "writerDisabled (probed e) = writerDisabled e"
  by (simp_all add: probed_def)

lemma report_sel:
  assumes "report c r n e = (er, e')"
  shows "succeeded e' = succeeded e" "resultLimit e' = resultLimit e"
    "on_success e' = on_success e @ [r]" "ignoreWriterErr e' = ignoreWriterErr e"
    "writerDisabled e' = writerDisabled e"
    "rows_written e' = rows_written e \<or> rows_written e' = rows_written e @ [r]"
  using assms
  by (auto simp: report_def write_result_def split: option.splits if_splits)

subsection \<open>The result limit\<close>

text \<open>A worker between its claim and its report holds a slot; \<open>reported\<close> counts the rest.\<close>

fun holds_slot :: "'r wpc \<Rightarrow> nat" where
  "holds_slot (Claimed ip r n) = 1"
| "holds_slot _ = 0"

definition swap_ok :: "u64 \<Rightarrow> 'r wpc \<Rightarrow> bool" where
  "swap_ok l w \<longleftrightarrow> (case w of Swapping ip r c \<Rightarrow> c < l | _ \<Rightarrow> True)"

definition limit_inv :: "'r pool_state \<Rightarrow> bool" where
  "limit_inv p \<longleftrightarrow>
     resultLimit (exec p) \<noteq> 0
     \<and> unat (succeeded (exec p)) \<le> unat (resultLimit (exec p))
     \<and> length (on_success (exec p)) + tot holds_slot (wpcs p) = unat (succeeded (exec p))
     \<and> length (rows_written (exec p)) \<le> length (on_success (exec p))
     \<and> (\<forall>w \<in> set (wpcs p). swap_ok (resultLimit (exec p)) w)"

definition limit_init :: "'r pool_state \<Rightarrow> bool" where
  "limit_init p \<longleftrightarrow>
     (\<exists>e n ips. p = pool_start e n ips \<and> resultLimit e \<noteq> 0 \<and> succeeded e = 0
        \<and> on_success e = [] \<and> rows_written e = [])"

lemma swap_ok_simps [simp]:
  "swap_ok l Ready" "swap_ok l (Checking ip)" "swap_ok l (Running ip)" "swap_ok l (Loading ip r)"
  "swap_ok l (Claimed ip r n)" "swap_ok l (Exited er)" "swap_ok l (Swapping ip r c) \<longleftrightarrow> c < l"
  by (simp_all add: swap_ok_def)

lemma unat_suc_below: "c < l \<Longrightarrow> unat (c + 1) = Suc (unat c)" for c l :: u64
  using unat_u64_less [of l] by (simp add: unat_word_ariths word_less_nat_alt)

lemma tot_at:
  fixes f :: "'r wpc \<Rightarrow> 'm :: cancel_comm_monoid_add"
  shows "at_pc p i v \<Longrightarrow> f v = f w \<Longrightarrow> tot f ((wpcs p)[i := w]) = tot f (wpcs p)"
  using tot_update [of i "wpcs p" f w] by (auto simp: at_pc_def)

lemma limit_inv_move:
  assumes "limit_inv p" and "at_pc p i v" and "wpcs p' = (wpcs p)[i := w]"
    and "holds_slot v = holds_slot w" and "swap_ok (resultLimit (exec p)) w"
    and "succeeded (exec p') = succeeded (exec p)" and "resultLimit (exec p') = resultLimit (exec p)"
    and "on_success (exec p') = on_success (exec p)" and "rows_written (exec p') = rows_written (exec p)"
  shows "limit_inv p'"
  using assms tot_at [OF assms(2), of holds_slot w] by (auto simp: limit_inv_def dest!: in_update)

lemma limit_inv_step: "worker_step env p p' \<Longrightarrow> limit_inv p \<Longrightarrow> limit_inv p'"
proof (induction rule: worker_step.induct)
  case (w_cas p i ip r c)
  then have c: "c < resultLimit (exec p)" using at_pcD [of p i] by (force simp: limit_inv_def)
  moreover have "tot holds_slot ((wpcs p)[i := Claimed ip r (c + 1)]) = tot holds_slot (wpcs p) + 1"
    using tot_update [of i "wpcs p" holds_slot "Claimed ip r (c + 1)"] at_pcD [OF w_cas(1)] by simp
  ultimately show ?case
    using w_cas unat_suc_below [OF c]
    by (auto simp: limit_inv_def word_less_nat_alt dest!: in_update)
next
  case (w_report p i ip r n e)
  have "tot holds_slot ((wpcs p)[i := Ready]) + 1 = tot holds_slot (wpcs p)"
    using tot_update [of i "wpcs p" holds_slot Ready] at_pcD [OF w_report(1)] by simp
  then show ?case
    using w_report report_sel [OF w_report(2)]
    by (auto simp: limit_inv_def dest!: in_update)
next
  case (w_report_err p i ip r n er e)
  let ?w = "if terminating er then Exited (Some er) else Ready"
  have "tot holds_slot ((wpcs p)[i := ?w]) + 1 = tot holds_slot (wpcs p)"
    using tot_update [of i "wpcs p" holds_slot ?w] at_pcD [OF w_report_err(1)] by simp
  then show ?case
    using w_report_err report_sel [OF w_report_err(2)]
    by (auto simp: limit_inv_def dest!: in_update)
next
  case (w_cancel p)
  then show ?case by (simp add: limit_inv_def)
next
  case (w_claim_free p i ip r)
  then show ?case by (simp add: limit_inv_def)
next
  case (w_probe_err p i ip er)
  then show ?case
    by (intro limit_inv_move [OF w_probe_err(4,1), of _ "if terminating er' then Exited (Some er') else Ready" for er'])
      (rule settle_sel | simp)+
next
  case (w_probe_ok p i ip r)
  then show ?case by (intro limit_inv_move [OF w_probe_ok(4,1), of _ "Loading ip r"]) simp_all
next
  case (w_claim_full p i ip r)
  then show ?case
    by (intro limit_inv_move [OF w_claim_full(4,1), of _ "Exited (Some [ErrResultLimitReached])"])
      (simp_all add: terminating_def err_is_def)
next
  case (w_load p i ip r)
  then show ?case
    by (intro limit_inv_move [OF w_load(4,1), of _ "Swapping ip r (succeeded (exec p))"]) simp_all
next
  case (w_retry p i ip r c)
  then show ?case by (intro limit_inv_move [OF w_retry(3,1), of _ "Loading ip r"]) simp_all
next
  case (w_full p i ip)
  then show ?case
    by (intro limit_inv_move [OF w_full(3,1), of _ "Exited (Some [ErrResultLimitReached])"])
      (simp_all add: terminating_def err_is_def)
next
  case (w_rate p i ip er)
  then show ?case
    by (intro limit_inv_move [OF w_rate(3,1), of _ "if terminating er then Exited (Some er) else Ready"])
      simp_all
next
  case (w_take p i ip q)
  then show ?case by (intro limit_inv_move [OF w_take(3,1), of _ "Checking ip"]) simp_all
next
  case (w_drain p i)
  then show ?case by (intro limit_inv_move [OF w_drain(3,1), of _ "Exited None"]) simp_all
next
  case (w_stop p i)
  then show ?case by (intro limit_inv_move [OF w_stop(3,1), of _ "Exited None"]) simp_all
next
  case (w_go p i ip)
  then show ?case by (intro limit_inv_move [OF w_go(3,1), of _ "Running ip"]) simp_all
qed

interpretation limited:
  bounded_system limit_init "worker_step env" limit_inv
    "\<lambda>p. unat (succeeded (exec p))" "\<lambda>p. unat (resultLimit (exec p))"
  for env :: "bool \<Rightarrow> addr \<Rightarrow> 'r call"
proof
  show "limit_inv p" if "limit_init p" for p :: "'r pool_state"
    using that by (auto simp: limit_init_def limit_inv_def pool_start_def tot_replicate_0)
  show "limit_inv p'" if "worker_step env p p'" "limit_inv p" for p p'
    using that by (rule limit_inv_step)
  show "unat (succeeded (exec p)) \<le> unat (succeeded (exec p'))"
    if "worker_step env p p'" "limit_inv p" for p p'
    using that
  proof (induction rule: worker_step.induct)
    case (w_cas p i ip r c)
    then have "c < resultLimit (exec p)" using at_pcD [of p i] by (force simp: limit_inv_def)
    with w_cas show ?case by (simp add: unat_suc_below)
  qed (auto simp: limit_inv_def report_sel)
  show "unat (resultLimit (exec p')) = unat (resultLimit (exec p))"
    if "worker_step env p p'" "limit_inv p" for p p'
    using that by (induction rule: worker_step.induct) (auto simp: report_sel)
  show "unat (succeeded (exec p)) \<le> unat (resultLimit (exec p))" if "limit_inv p" for p :: "'r pool_state"
    using that by (simp add: limit_inv_def)
qed

text \<open>C8. Whatever the interleaving of the workers, a stage with a result limit reports and writes
  at most that many results: the compare-and-swap gives every success its own slot, and a slot
  above the limit is never given.\<close>

theorem result_limit_never_exceeded:
  assumes "limit_init p" and "(worker_step env)\<^sup>*\<^sup>* p p'"
  shows "length (on_success (exec p')) \<le> unat (resultLimit (exec p))
    \<and> length (rows_written (exec p')) \<le> unat (resultLimit (exec p))
    \<and> length (on_success (exec p')) \<le> unat (succeeded (exec p'))"
proof -
  have inv: "limit_inv p" using assms(1) by (rule limited.inv_init)
  have "limit_inv p'" using limited.steps_inv [OF assms(2) inv] .
  moreover have "unat (succeeded (exec p')) \<le> unat (resultLimit (exec p))"
    by (rule limited.steps_counter_le [OF assms(2) inv])
  ultimately show ?thesis by (auto simp: limit_inv_def)
qed

definition ok_call :: "nat call" where
  "ok_call = \<lparr>rate_err = None, probe_run = Inr 7, ctx_after_probe = False, write_err = None,
              ctx_after_write = False\<rparr>"

definition demo_exec :: "nat executor" where
  "demo_exec = \<lparr>resultLimit = 1, processed = 0, succeeded = 0, ignoreWriterErr = False,
     writerDisabled = False, on_success = [], rows_written = [], estats = no_errs\<rparr>"

definition demo_pool :: "nat pool_state" where
  "demo_pool = pool_start demo_exec 1 [V4 1, V4 2]"

lemma demo_pool_run:
  "\<exists>p'. (worker_step (\<lambda>_ _. ok_call))\<^sup>*\<^sup>* demo_pool p' \<and> rows_written (exec p') = [7]
    \<and> wpcs p' = [Exited (Some [ErrResultLimitReached])]"
proof -
  let ?s = "worker_step (\<lambda>_ _. ok_call)"
  define p1 where "p1 = goto 0 (Checking (V4 1)) (demo_pool\<lparr>queue := [V4 2]\<rparr>)"
  define p2 where "p2 = goto 0 (Running (V4 1)) p1"
  define p3 where "p3 = goto 0 (Loading (V4 1) 7) (p2\<lparr>exec := probed (exec p2)\<rparr>)"
  define p4 where "p4 = goto 0 (Swapping (V4 1) 7 (succeeded (exec p3))) p3"
  define p5 where "p5 = goto 0 (Claimed (V4 1) 7 1) (p4\<lparr>exec := (exec p4)\<lparr>succeeded := 1\<rparr>\<rparr>)"
  define p6 where "p6 = settle 0 (V4 1) [ErrResultLimitReached]
    (p5\<lparr>exec := (exec p5)\<lparr>on_success := [7], rows_written := [7]\<rparr>\<rparr>)"
  note defs = demo_pool_def pool_start_def demo_exec_def ok_call_def at_pc_def resultLimitReached_def
    report_def write_result_def
  have s1: "?s demo_pool p1" unfolding p1_def by (rule w_take) (simp_all add: defs)
  have s2: "?s p1 p2" unfolding p2_def by (rule w_go) (simp_all add: p1_def defs)
  have s3: "?s p2 p3" unfolding p3_def by (rule w_probe_ok) (simp_all add: p2_def p1_def defs)
  have s4: "?s p3 p4"
    unfolding p4_def by (rule w_load) (simp_all add: p3_def p2_def p1_def defs)
  have s5: "?s p4 p5"
    using w_cas [of p4 0 "V4 1" 7 0 "\<lambda>_ _. ok_call"]
    by (simp add: p5_def p4_def p3_def p2_def p1_def defs)
  have s6: "?s p5 p6"
    unfolding p6_def
    by (rule w_report_err [where r = 7 and n = 1])
      (simp_all add: p5_def p4_def p3_def p2_def p1_def defs probed_def)
  note step = rtranclp.rtrancl_into_rtrancl
  have "?s\<^sup>*\<^sup>* demo_pool p6"
    by (rule step [OF step [OF step [OF step [OF step [OF r_into_rtranclp [of ?s, OF s1] s2] s3] s4] s5] s6])
  moreover have "rows_written (exec p6) = [7] \<and> wpcs p6 = [Exited (Some [ErrResultLimitReached])]"
    by (simp add: p6_def p5_def p4_def p3_def p2_def p1_def defs terminating_def err_is_def)
  ultimately show ?thesis by blast
qed

lemma result_limit_never_exceeded_witness:
  "\<exists>p' :: nat pool_state. rows_written (exec p') = [7] \<and> length (rows_written (exec p')) \<le> unat (resultLimit (exec demo_pool))
    \<and> length (on_success (exec p')) \<le> unat (succeeded (exec p'))"
proof -
  obtain p' where run: "(worker_step (\<lambda>_ _. ok_call))\<^sup>*\<^sup>* demo_pool p'" "rows_written (exec p') = [7]"
    using demo_pool_run by blast
  have "limit_init demo_pool"
    unfolding limit_init_def demo_pool_def by (rule exI [of _ demo_exec]) (auto simp: demo_exec_def)
  from result_limit_never_exceeded [OF this run(1)] run(2) show ?thesis by blast
qed

subsection \<open>Nothing is lost\<close>

fun held :: "'r wpc \<Rightarrow> addr multiset" where
  "held (Checking ip) = {#ip#}"
| "held (Running ip) = {#ip#}"
| "held (Loading ip r) = {#ip#}"
| "held (Swapping ip r c) = {#ip#}"
| "held (Claimed ip r n) = {#ip#}"
| "held _ = {#}"

definition passes :: "(bool \<Rightarrow> addr \<Rightarrow> 'r call) \<Rightarrow> addr \<Rightarrow> bool" where
  "passes env ip \<longleftrightarrow> rate_err (env False ip) = None \<and> isl (probe_run (env False ip)) = False"

definition result_of :: "(bool \<Rightarrow> addr \<Rightarrow> 'r call) \<Rightarrow> addr \<Rightarrow> 'r" where
  "result_of env ip = projr (probe_run (env False ip))"

text \<open>The outside returns none of the engine's own terminating errors, and a writer error, if
  there is one, is ignored.\<close>

definition well_behaved :: "(bool \<Rightarrow> addr \<Rightarrow> 'r call) \<Rightarrow> 'r executor \<Rightarrow> bool" where
  "well_behaved env e \<longleftrightarrow>
     (\<forall>ip er. rate_err (env False ip) = Some er \<longrightarrow> \<not> terminating er)
     \<and> (\<forall>ip er. probe_run (env False ip) = Inl er \<longrightarrow> \<not> terminating er)
     \<and> (writerDisabled e \<or> ignoreWriterErr e \<or> (\<forall>ip. write_err (env False ip) = None))"

fun pc_ok :: "(bool \<Rightarrow> addr \<Rightarrow> 'r call) \<Rightarrow> addr list \<Rightarrow> 'r wpc \<Rightarrow> bool" where
  "pc_ok env q (Loading ip r) \<longleftrightarrow> passes env ip \<and> r = result_of env ip"
| "pc_ok env q (Swapping ip r c) \<longleftrightarrow> passes env ip \<and> r = result_of env ip"
| "pc_ok env q (Claimed ip r n) \<longleftrightarrow> passes env ip \<and> r = result_of env ip"
| "pc_ok env q (Exited er) \<longleftrightarrow> er = None \<and> q = []"
| "pc_ok env q _ \<longleftrightarrow> True"

definition flow_inv ::
  "(bool \<Rightarrow> addr \<Rightarrow> 'r call) \<Rightarrow> 'r executor \<Rightarrow> nat \<Rightarrow> addr list \<Rightarrow> 'r pool_state \<Rightarrow> bool" where
  "flow_inv env e n ips p \<longleftrightarrow> ctx_done p \<or>
     (lost p = [] \<and> resultLimit (exec p) = 0 \<and> length (wpcs p) = n
      \<and> writerDisabled (exec p) = writerDisabled e \<and> ignoreWriterErr (exec p) = ignoreWriterErr e
      \<and> mset (queue p) + tot held (wpcs p) + mset (passed p) + mset (failed p) = mset ips
      \<and> (\<forall>ip \<in> set (passed p). passes env ip) \<and> (\<forall>ip \<in> set (failed p). \<not> passes env ip)
      \<and> (\<forall>w \<in> set (wpcs p). pc_ok env (queue p) w)
      \<and> on_success (exec p) = on_success e @ map (result_of env) (passed p))"

lemma report_quiet:
  assumes "report c r n e = (er, e')" and "resultLimit e = 0"
    and "writerDisabled e \<or> ignoreWriterErr e \<or> write_err c = None"
  shows "er = None"
  using assms by (auto simp: report_def write_result_def split: option.splits if_splits)

lemma normalize_not_terminating:
  "\<not> terminating er \<Longrightarrow> \<not> terminating (the (NormalizeErr (Some er)))"
  using NormalizeErr_terminating [of er "the (NormalizeErr (Some er))"]
  by (auto simp: NormalizeErr_def split: if_splits)

lemma flow_inv_step:
  assumes "well_behaved env e"
  shows "worker_step env p p' \<Longrightarrow> flow_inv env e n ips p \<Longrightarrow> flow_inv env e n ips p'"
proof (induction rule: worker_step.induct)
  case (w_take p i ip q)
  have "tot held ((wpcs p)[i := Checking ip]) = tot held (wpcs p) + {#ip#}"
    using tot_update [of i "wpcs p" held "Checking ip"] at_pcD [OF w_take(1)] by simp
  moreover have "pc_ok env q w" if "pc_ok env (queue p) w" for w
    using that w_take(2) by (cases w) auto
  ultimately show ?case using w_take by (auto simp: flow_inv_def dest!: in_update)
next
  case (w_drain p i)
  then show ?case by (auto simp: flow_inv_def tot_at dest!: in_update)
next
  case (w_full p i ip)
  then show ?case by (auto simp: flow_inv_def resultLimitReached_def)
next
  case (w_go p i ip)
  then show ?case by (auto simp: flow_inv_def tot_at dest!: in_update)
next
  case (w_rate p i ip er)
  have "tot held (wpcs p) = add_mset ip (tot held ((wpcs p)[i := Ready]))"
    using tot_update [of i "wpcs p" held Ready] at_pcD [OF w_rate(1)] by simp
  moreover have "\<not> terminating er" if "\<not> ctx_done p"
    using assms w_rate(2) that by (auto simp: well_behaved_def)
  ultimately show ?case
    using w_rate by (auto simp: flow_inv_def passes_def ac_simps dest!: in_update)
next
  case (w_probe_err p i ip er)
  define er' where "er' = (if ctx_after_probe (env (ctx_done p) ip) then er else the (NormalizeErr (Some er)))"
  have "tot held (wpcs p) = add_mset ip (tot held ((wpcs p)[i := Ready]))"
    using tot_update [of i "wpcs p" held Ready] at_pcD [OF w_probe_err(1)] by simp
  moreover have "\<not> terminating er'" if "\<not> ctx_done p"
    using assms w_probe_err(3) that normalize_not_terminating [of er]
    by (auto simp: well_behaved_def er'_def)
  ultimately show ?case
    using w_probe_err unfolding er'_def [symmetric]
    by (auto simp: flow_inv_def passes_def ac_simps dest!: in_update)
next
  case (w_probe_ok p i ip r)
  then show ?case
    by (auto simp: flow_inv_def tot_at passes_def result_of_def dest!: in_update)
next
  case (w_claim_free p i ip r)
  have "pc_ok env (queue p) (Loading ip r)" if "\<not> ctx_done p"
    using w_claim_free that at_pcD [OF w_claim_free(1)] unfolding flow_inv_def by blast
  with w_claim_free show ?case by (auto simp: flow_inv_def tot_at dest!: in_update)
next
  case (w_report p i ip r n' e')
  have "tot held (wpcs p) = add_mset ip (tot held ((wpcs p)[i := Ready]))"
    using tot_update [of i "wpcs p" held Ready] at_pcD [OF w_report(1)] by simp
  moreover have "pc_ok env (queue p) (Claimed ip r n')" if "\<not> ctx_done p"
    using w_report that at_pcD [OF w_report(1)] unfolding flow_inv_def by blast
  ultimately show ?case
    using w_report report_sel [OF w_report(2)]
    by (auto simp: flow_inv_def ac_simps dest!: in_update)
next
  case (w_report_err p i ip r n' er e')
  have "ctx_done p"
  proof (rule ccontr)
    assume on: "\<not> ctx_done p"
    then have "env (ctx_done p) ip = env False ip" by simp
    with report_quiet [OF w_report_err(2)] assms w_report_err(3) on show False
      by (auto simp: flow_inv_def well_behaved_def)
  qed
  then show ?case by (simp add: flow_inv_def)
next
  case (w_cas p i ip r c)
  have "pc_ok env (queue p) (Swapping ip r c)" if "\<not> ctx_done p"
    using w_cas that at_pcD [OF w_cas(1)] unfolding flow_inv_def by blast
  with w_cas show ?case by (auto simp: flow_inv_def tot_at dest!: in_update)
next
  case (w_retry p i ip r c)
  have "pc_ok env (queue p) (Swapping ip r c)" if "\<not> ctx_done p"
    using w_retry that at_pcD [OF w_retry(1)] unfolding flow_inv_def by blast
  with w_retry show ?case by (auto simp: flow_inv_def tot_at dest!: in_update)
qed (simp_all add: flow_inv_def)

interpretation flowing:
  invariant_system "\<lambda>p. p = pool_start e n ips \<and> resultLimit e = 0 \<and> well_behaved env e"
    "\<lambda>p p'. well_behaved env e \<and> worker_step env p p'" "flow_inv env e n ips"
  for env :: "bool \<Rightarrow> addr \<Rightarrow> 'r call" and e :: "'r executor" and n ips
proof
  show "flow_inv env e n ips p" if "p = pool_start e n ips \<and> resultLimit e = 0 \<and> well_behaved env e" for p
    using that by (auto simp: flow_inv_def pool_start_def tot_replicate_0)
  show "flow_inv env e n ips p'"
    if "well_behaved env e \<and> worker_step env p p'" "flow_inv env e n ips p" for p p'
    using that flow_inv_step by blast
qed

definition all_exited :: "'r pool_state \<Rightarrow> bool" where
  "all_exited p \<longleftrightarrow> (\<forall>w \<in> set (wpcs p). case w of Exited er \<Rightarrow> True | _ \<Rightarrow> False)"

lemma held_exited:
  "\<forall>w \<in> set ws. case w of Exited er \<Rightarrow> True | _ \<Rightarrow> False \<Longrightarrow> tot held ws = {#}"
  by (induction ws) (auto simp: tot_def split: wpc.splits)

lemma pool_flow:
  assumes "(worker_step env)\<^sup>*\<^sup>* (pool_start e n ips) p" and "all_exited p" and "\<not> ctx_done p"
    and "0 < n" and "resultLimit e = 0" and "well_behaved env e"
  shows "queue p = [] \<and> lost p = []
    \<and> mset (passed p) = mset (filter (passes env) ips)
    \<and> mset (failed p) = mset (filter (\<lambda>ip. \<not> passes env ip) ips)
    \<and> on_success (exec p) = on_success e @ map (result_of env) (passed p)"
proof -
  have step: "(\<lambda>p p'. well_behaved env e \<and> worker_step env p p') = worker_step env"
    using assms(6) by simp
  have inv: "flow_inv env e n ips p"
    using flowing.steps_inv [of env e "pool_start e n ips" p n ips]
      flowing.inv_init [of "pool_start e n ips" e n ips env] assms
    unfolding step by blast
  then have held0: "tot held (wpcs p) = {#}"
    using assms(2) held_exited unfolding all_exited_def by blast
  have "length (wpcs p) = n" using inv assms(3) by (simp add: flow_inv_def)
  then obtain w where w: "w \<in> set (wpcs p)" using assms(4) by (cases "wpcs p") auto
  then obtain er where "w = Exited er" using assms(2) unfolding all_exited_def by (cases w rule: wpc.exhaust) fastforce+
  with w inv assms(3) have q: "queue p = []" by (auto simp: flow_inv_def)
  have all: "mset (passed p) + mset (failed p) = mset ips"
    using inv assms(3) held0 q by (simp add: flow_inv_def)
  have in_out: "filter (passes env) (passed p) = passed p" "filter (passes env) (failed p) = []"
    "filter (\<lambda>ip. \<not> passes env ip) (passed p) = []"
    "filter (\<lambda>ip. \<not> passes env ip) (failed p) = failed p"
    using inv assms(3) by (auto simp: flow_inv_def filter_id_conv filter_empty_conv)
  have split: "mset (filter Q ips) = mset (filter Q (passed p)) + mset (filter Q (failed p))" for Q
    by (simp add: mset_filter all [symmetric])
  have "mset (filter (passes env) ips) = mset (passed p)"
    "mset (filter (\<lambda>ip. \<not> passes env ip) ips) = mset (failed p)"
    by (simp_all only: split in_out) simp_all
  with inv q assms(3) show ?thesis by (simp add: flow_inv_def)
qed


subsection \<open>One worker alone\<close>

lemma goto_goto [simp]: "goto i w (goto i v p) = goto i w p"
  by (simp add: goto_def)

lemma settle_goto [simp]: "settle i ip er (goto i v p) = settle i ip er p"
  by (simp add: settle_def goto_def)

lemma goto_exec [simp]: "(goto i w p)\<lparr>exec := e\<rparr> = goto i w (p\<lparr>exec := e\<rparr>)"
  "(goto i w p)\<lparr>passed := l\<rparr> = goto i w (p\<lparr>passed := l\<rparr>)"
  by (simp_all add: goto_def)

lemma at_goto [simp]: "i < length (wpcs p) \<Longrightarrow> at_pc (goto i w p) i w"
  by (simp add: at_pc_def)

definition settled :: "nat \<Rightarrow> addr \<Rightarrow> go_err option \<times> 'r executor \<Rightarrow> 'r pool_state \<Rightarrow> 'r pool_state" where
  "settled i ip r p =
     (case r of
        (None, e) \<Rightarrow> goto i Ready (p\<lparr>exec := e, passed := passed p @ [ip]\<rparr>)
      | (Some er, e) \<Rightarrow> settle i ip er (p\<lparr>exec := e\<rparr>))"

lemma report_steps:
  assumes "i < length (wpcs p)"
  shows "worker_step env (goto i (Claimed ip r n) p) (settled i ip (report (env (ctx_done p) ip) r n (exec p)) p)"
proof (cases "report (env (ctx_done p) ip) r n (exec p)")
  case (Pair er e)
  have at: "at_pc (goto i (Claimed ip r n) p) i (Claimed ip r n)" using assms by simp
  show ?thesis
  proof (cases er)
    case None
    then show ?thesis using w_report [OF at, of env e] Pair by (simp add: settled_def)
  next
    case (Some x)
    then show ?thesis using w_report_err [OF at, of env x e] Pair by (simp add: settled_def)
  qed
qed

lemma claim_steps:
  assumes i: "i < length (wpcs p)"
  shows "(worker_step env)\<^sup>*\<^sup>* (goto i (Loading ip r) p)
    (settled i ip (case claimResultSlot (exec p) of ((n, ok), e2) \<Rightarrow>
       if \<not> ok then (Some [ErrResultLimitReached], e2) else report (env (ctx_done p) ip) r n e2) p)"
proof -
  let ?l = "goto i (Loading ip r) p" and ?n = "succeeded (exec p) + 1"
  let ?p2 = "p\<lparr>exec := (exec p)\<lparr>succeeded := ?n\<rparr>\<rparr>"
  have at: "at_pc ?l i (Loading ip r)" using i by simp
  have rep: "worker_step env (goto i (Claimed ip r ?n) ?p2)
      (settled i ip (report (env (ctx_done p) ip) r ?n (exec ?p2)) ?p2)"
    using report_steps [of i ?p2 env ip r ?n] i by simp
  have same: "settled i ip x ?p2 = settled i ip x p" for x
    by (simp add: settled_def split: prod.split option.split)
  consider (free) "resultLimit (exec p) = 0"
    | (full) "resultLimit (exec p) \<noteq> 0" "resultLimit (exec p) \<le> succeeded (exec p)"
    | (slot) "resultLimit (exec p) \<noteq> 0" "succeeded (exec p) < resultLimit (exec p)"
    by force
  then show ?thesis
  proof cases
    case free
    have "worker_step env ?l (goto i (Claimed ip r ?n) ?p2)"
      using w_claim_free [OF at, of env] free by simp
    from rtranclp.rtrancl_into_rtrancl [OF r_into_rtranclp [of "worker_step env", OF this] rep] free
    show ?thesis by (simp add: claimResultSlot_def same)
  next
    case full
    then have "worker_step env ?l (settle i ip [ErrResultLimitReached] p)"
      using w_claim_full [OF at, of env] by simp
    with full show ?thesis by (simp add: claimResultSlot_def settled_def r_into_rtranclp)
  next
    case slot
    let ?w = "Swapping ip r (succeeded (exec p))"
    have s1: "worker_step env ?l (goto i ?w p)" using w_load [OF at, of env] slot by simp
    have "at_pc (goto i ?w p) i ?w" using i by simp
    from w_cas [OF this, of env] have s2: "worker_step env (goto i ?w p) (goto i (Claimed ip r ?n) ?p2)"
      by simp
    have "claimResultSlot (exec p) = ((?n, True), exec ?p2)"
      using slot by (simp add: claimResultSlot_def not_le)
    then show ?thesis
      using rtranclp.rtrancl_into_rtrancl [OF rtranclp.rtrancl_into_rtrancl
          [OF r_into_rtranclp [of "worker_step env", OF s1] s2] rep]
      by (simp add: same)
  qed
qed

lemma processIP_steps:
  assumes "at_pc p i (Checking ip)"
  shows "(worker_step env)\<^sup>*\<^sup>* p (settled i ip (processIP (env (ctx_done p) ip) (exec p)) p)"
proof -
  let ?c = "env (ctx_done p) ip"
  have i: "i < length (wpcs p)" using assms by (simp add: at_pc_def)
  show ?thesis
  proof (cases "resultLimitReached (exec p)")
    case True
    then show ?thesis
      using w_full [OF assms] by (simp add: processIP_def settled_def r_into_rtranclp)
  next
    case False
    have s1: "(worker_step env)\<^sup>*\<^sup>* p (goto i (Running ip) p)"
      using w_go [OF assms False] by blast
    have at: "at_pc (goto i (Running ip) p) i (Running ip)" using i by simp
    show ?thesis
    proof (cases "rate_err ?c")
      case (Some er)
      then have "worker_step env (goto i (Running ip) p) (settle i ip er p)"
        using w_rate [OF at, of env er] by simp
      with s1 False Some show ?thesis
        by (simp add: processIP_def settled_def rtranclp.rtrancl_into_rtrancl)
    next
      case None
      show ?thesis
      proof (cases "probe_run ?c")
        case (Inl er)
        let ?er = "if ctx_after_probe ?c then er else the (NormalizeErr (Some er))"
        have "worker_step env (goto i (Running ip) p) (settle i ip ?er (p\<lparr>exec := probed (exec p)\<rparr>))"
          using w_probe_err [OF at, of env er] None Inl by simp
        moreover have "NormalizeErr (Some er) = Some (the (NormalizeErr (Some er)))"
          by (auto simp: NormalizeErr_def)
        then have "processIP ?c (exec p) = (Some ?er, probed (exec p))"
          using False None Inl by (simp add: processIP_def probed_def Let_def)
        ultimately show ?thesis using s1 by (simp add: settled_def rtranclp.rtrancl_into_rtrancl)
      next
        case (Inr r)
        let ?p1 = "p\<lparr>exec := probed (exec p)\<rparr>"
        have ctx: "ctx_done (p\<lparr>exec := x\<rparr>) = ctx_done p" for x by simp
        have s2: "worker_step env (goto i (Running ip) p) (goto i (Loading ip r) ?p1)"
          using w_probe_ok [OF at, of env r] None Inr by simp
        have s3: "(worker_step env)\<^sup>*\<^sup>* (goto i (Loading ip r) ?p1) (settled i ip (processIP ?c (exec p)) ?p1)"
          using claim_steps [of i ?p1 env ip r, unfolded ctx] i False None Inr
          by (simp add: processIP_def probed_def Let_def)
        have "settled i ip x ?p1 = settled i ip x p" for x
          by (simp add: settled_def split: prod.split option.split)
        with s1 s2 s3 show ?thesis
          by (metis rtranclp.rtrancl_into_rtrancl rtranclp_trans)
      qed
    qed
  qed
qed

definition after_process :: "go_err option \<times> 'r executor \<Rightarrow> 'r executor" where
  "after_process r =
     (case r of (None, e) \<Rightarrow> e
      | (Some er, e) \<Rightarrow> if terminating er then e else e\<lparr>estats := fst (logIPError er (estats e))\<rparr>)"

lemma runWorker_Cons:
  "runWorker env (ip # ips) e =
     (let r = processIP (env ip) e
      in case fst r of
           Some er \<Rightarrow> if terminating er then (Some er, [], after_process r)
                      else runWorker env ips (after_process r)
         | None \<Rightarrow> (case runWorker env ips (after_process r) of (er, out, e') \<Rightarrow> (er, ip # out, e')))"
  by (simp add: after_process_def Let_def split: prod.split option.split)

lemma settled_single:
  assumes "length (wpcs p) = 1"
  shows "exec (settled 0 ip r p) = after_process r" "queue (settled 0 ip r p) = queue p"
    "ctx_done (settled 0 ip r p) = ctx_done p"
    "passed (settled 0 ip r p) = (if fst r = None then passed p @ [ip] else passed p)"
    "wpcs (settled 0 ip r p) =
       [case fst r of None \<Rightarrow> Ready | Some er \<Rightarrow> if terminating er then Exited (Some er) else Ready]"
proof -
  obtain w where "wpcs p = [w]" using assms by (cases "wpcs p") auto
  then show "wpcs (settled 0 ip r p) =
       [case fst r of None \<Rightarrow> Ready | Some er \<Rightarrow> if terminating er then Exited (Some er) else Ready]"
    by (simp add: settled_def split: prod.split option.split)
qed (simp_all add: settled_def settle_def after_process_def split: prod.split option.split)

lemma runWorker_run:
  "wpcs p = [Ready] \<Longrightarrow> queue p = ips \<Longrightarrow> \<not> ctx_done p \<Longrightarrow>
   \<exists>p'. (worker_step env)\<^sup>*\<^sup>* p p' \<and> \<not> ctx_done p'
     \<and> (case runWorker (env False) ips (exec p) of
          (er, out, e') \<Rightarrow> exec p' = e' \<and> passed p' = passed p @ out \<and> wpcs p' = [Exited er])"
proof (induction ips arbitrary: p)
  case Nil
  then have "worker_step env p (goto 0 (Exited None) p)"
    by (intro w_drain) (simp_all add: at_pc_def)
  then show ?case
    using Nil by (intro exI [of _ "goto 0 (Exited None) p"]) (simp add: r_into_rtranclp)
next
  case (Cons ip ips)
  let ?p1 = "goto 0 (Checking ip) (p\<lparr>queue := ips\<rparr>)"
  let ?r = "processIP (env False ip) (exec p)"
  let ?p2 = "settled 0 ip ?r ?p1"
  have s1: "worker_step env p ?p1"
    using Cons.prems by (intro w_take) (simp_all add: at_pc_def)
  have "at_pc ?p1 0 (Checking ip)" using Cons.prems by (simp add: at_pc_def)
  from processIP_steps [OF this, of env] Cons.prems
  have s2: "(worker_step env)\<^sup>*\<^sup>* ?p1 ?p2" by simp
  have run: "(worker_step env)\<^sup>*\<^sup>* p ?p2"
    using converse_rtranclp_into_rtranclp [of "worker_step env", OF s1 s2] .
  have len: "length (wpcs ?p1) = 1" using Cons.prems by simp
  note p2 = settled_single [OF len, of ip ?r]
  show ?case
  proof (cases "\<exists>x. fst ?r = Some x \<and> terminating x")
    case True
    then obtain x where x: "fst ?r = Some x" "terminating x" by blast
    show ?thesis
      by (rule exI [of _ ?p2]) (simp add: run p2 runWorker_Cons Let_def x Cons.prems del: runWorker.simps)
  next
    case False
    have "wpcs ?p2 = [Ready]" "queue ?p2 = ips" "\<not> ctx_done ?p2"
      using False Cons.prems p2 by (auto split: option.split)
    from Cons.IH [OF this] obtain p' where p': "(worker_step env)\<^sup>*\<^sup>* ?p2 p'" "\<not> ctx_done p'"
      "case runWorker (env False) ips (exec ?p2) of
        (er, out, e') \<Rightarrow> exec p' = e' \<and> passed p' = passed ?p2 @ out \<and> wpcs p' = [Exited er]"
      by (elim exE conjE) (rule that)
    have all: "(worker_step env)\<^sup>*\<^sup>* p p'" using run p'(1) by (rule rtranclp_trans)
    obtain er out e' where rw: "runWorker (env False) ips (after_process ?r) = (er, out, e')"
      by (metis prod_cases3)
    have "exec p' = e'" "wpcs p' = [Exited er]" "passed p' = passed ?p2 @ out"
      using p'(3) rw p2(1) by simp_all
    with all p'(2) False p2(4) rw show ?thesis
      by (intro exI [of _ p']) (cases "fst ?r"; simp add: runWorker_Cons Let_def del: runWorker.simps)
  qed
qed

text \<open>The pool is a faithful refinement of the code of one worker: a pool with a single
  worker and no cancellation can run exactly as \<open>runWorker\<close> computes, consuming the input,
  forwarding the same addresses, leaving the same counters, statistics, hook calls and rows, and
  exiting with the same error.\<close>

theorem runWorker_refines_pool:
  "\<exists>p'. (worker_step env)\<^sup>*\<^sup>* (pool_start e 1 ips) p'
     \<and> (case runWorker (env False) ips e of
          (er, out, e') \<Rightarrow> exec p' = e' \<and> passed p' = out \<and> wpcs p' = [Exited er])"
  using runWorker_run [of "pool_start e 1 ips" ips env] by (auto simp: pool_start_def)

definition mixed_env :: "bool \<Rightarrow> addr \<Rightarrow> nat call" where
  "mixed_env c ip = (if ip = V4 2 then ok_call\<lparr>probe_run := Inl [NetTimeout]\<rparr> else ok_call)"


end
