(* ===== verification/ResultMerge.thy ===== *)
theory ResultMerge
  imports NetAddr "HOL-Library.Char_ord" "HOL-Library.List_Lexorder" "HOL-Library.Product_Lexorder"
begin

text \<open>
  Merging a batch of scan results into the result file, \<open>internal/core/result/merger.go\<close>. A
  result is anything with a key and a score; \<open>rank\<close> orders scores, the best first
  (\<open>a.Score() > b.Score()\<close> is \<open>rank a < rank b\<close>). The file is the list of its records, and
  \<open>reload\<close> is what a stored record is when it is read back: \<open>ToRecord\<close> followed by the parser of
  the schema, \<open>None\<close> for a record that does not parse and is skipped. \<open>slices.SortFunc\<close> may put
  records with equal score and key in any order; the model keeps their order.
\<close>

subsection \<open>The merge\<close>

definition sort_results :: "('r \<Rightarrow> string) \<Rightarrow> ('r \<Rightarrow> nat) \<Rightarrow> 'r list \<Rightarrow> 'r list" where
  "sort_results key rank rs = sort_key (\<lambda>r. (rank r, key r)) rs"

fun dedup_keys :: "('r \<Rightarrow> string) \<Rightarrow> string set \<Rightarrow> 'r list \<Rightarrow> 'r list" where
  "dedup_keys key S [] = []"
| "dedup_keys key S (r # rs) =
     (if key r \<in> S then dedup_keys key S rs else r # dedup_keys key (insert (key r) S) rs)"

record 'r merge_state =
  emitted :: "bool list"
  cursor :: nat
  outp :: "'r list"

definition key_order :: "('r \<Rightarrow> string) \<Rightarrow> 'r list \<Rightarrow> nat list" where
  "key_order key delta = sort_key (\<lambda>i. key (delta ! i)) [0 ..< length delta]"

text \<open>The binary search over the sorted indices: the first index whose record has the key.\<close>

definition holds :: "('r \<Rightarrow> string) \<Rightarrow> 'r list \<Rightarrow> string \<Rightarrow> nat option" where
  "holds key delta k = find (\<lambda>i. key (delta ! i) = k) (key_order key delta)"

definition emitDelta :: "'r list \<Rightarrow> nat \<Rightarrow> 'r merge_state \<Rightarrow> 'r merge_state" where
  "emitDelta delta i st =
     (if emitted st ! i then st
      else st\<lparr>emitted := (emitted st)[i := True], outp := outp st @ [delta ! i]\<rparr>)"

function catch_up ::
  "('r \<Rightarrow> nat) \<Rightarrow> 'r list \<Rightarrow> 'r \<Rightarrow> 'r merge_state \<Rightarrow> 'r merge_state" where
  "catch_up rank delta e st =
     (if cursor st < length delta \<and> rank (delta ! cursor st) < rank e
      then catch_up rank delta e ((emitDelta delta (cursor st) st)\<lparr>cursor := cursor st + 1\<rparr>)
      else st)"
  by pat_completeness auto
termination
  by (relation "measure (\<lambda>(rank, delta, e, st). length delta - cursor st)") auto

declare catch_up.simps [simp del]

definition on_existing ::
  "('r \<Rightarrow> string) \<Rightarrow> ('r \<Rightarrow> nat) \<Rightarrow> 'r list \<Rightarrow> 'r \<Rightarrow> 'r merge_state \<Rightarrow> 'r merge_state" where
  "on_existing key rank delta e st =
     (let st1 = catch_up rank delta e st
      in case holds key delta (key e) of
           Some i \<Rightarrow>
             if rank (delta ! i) < rank e then emitDelta delta i st1
             else st1\<lparr>emitted := (emitted st1)[i := True], outp := outp st1 @ [e]\<rparr>
         | None \<Rightarrow> st1\<lparr>outp := outp st1 @ [e]\<rparr>)"

definition mergeWithExisting ::
  "('r \<Rightarrow> string) \<Rightarrow> ('r \<Rightarrow> nat) \<Rightarrow> 'r list \<Rightarrow> 'r list \<Rightarrow> 'r list" where
  "mergeWithExisting key rank delta existing =
     (let st = fold (on_existing key rank delta) existing
                 \<lparr>emitted = replicate (length delta) False, cursor = 0, outp = []\<rparr>
      in outp (fold (emitDelta delta) [cursor st ..< length delta] st))"

definition mergeResults ::
  "('r \<Rightarrow> string) \<Rightarrow> ('r \<Rightarrow> nat) \<Rightarrow> ('r \<Rightarrow> 'r option) \<Rightarrow> 'r list option \<Rightarrow> 'r list \<Rightarrow> 'r list option" where
  "mergeResults key rank reload stored results =
     (if results = [] then stored
      else let delta = dedup_keys key {} (sort_results key rank results)
           in case stored of
                None \<Rightarrow> Some delta
              | Some rs \<Rightarrow> Some (mergeWithExisting key rank delta (List.map_filter reload rs)))"

subsection \<open>The batch\<close>

lemma dedup_keys_facts:
  "distinct (map key (dedup_keys key S rs)) \<and> key ` set (dedup_keys key S rs) = key ` set rs - S
   \<and> set (dedup_keys key S rs) \<subseteq> set rs"
  by (induction key S rs rule: dedup_keys.induct) auto

lemma dedup_keys_sorted: "sorted_wrt P rs \<Longrightarrow> sorted_wrt P (dedup_keys key S rs)"
proof (induction key S rs rule: dedup_keys.induct)
  case (2 key S r rs)
  then show ?case using dedup_keys_facts [of key "insert (key r) S" rs] by auto
qed simp

lemma dedup_keys_first:
  "sorted_wrt (\<lambda>a b. rank a \<le> rank b) rs \<Longrightarrow> d \<in> set (dedup_keys key S rs) \<Longrightarrow> r \<in> set rs
   \<Longrightarrow> key r = key d \<Longrightarrow> (rank d :: nat) \<le> rank r"
proof (induction key S rs rule: dedup_keys.induct)
  case (2 key S x rs)
  have keys: "key d \<notin> T" if "d \<in> set (dedup_keys key T rs)" for T
    using dedup_keys_facts [of key T rs] that by blast
  show ?case
  proof (cases "key x \<in> S")
    case True
    with 2(4) have d: "d \<in> set (dedup_keys key S rs)" by simp
    with keys [OF d] True 2(5,6) have "r \<in> set rs" by auto
    with 2(1) [OF True] 2(3,6) d show ?thesis by simp
  next
    case False
    show ?thesis
    proof (cases "d = x")
      case True
      with 2(3,5) show ?thesis by auto
    next
      case ne: False
      with 2(4) False have d: "d \<in> set (dedup_keys key (insert (key x) S) rs)" by simp
      with keys [OF d] 2(5,6) have "r \<in> set rs" by auto
      with 2(2) [OF False] 2(3,6) d show ?thesis by simp
    qed
  qed
qed simp

definition by_rank :: "('r \<Rightarrow> nat) \<Rightarrow> 'r list \<Rightarrow> bool" where
  "by_rank rank rs \<longleftrightarrow> sorted_wrt (\<lambda>a b. rank a \<le> rank b) rs"

lemma sort_results_by_rank: "by_rank rank (sort_results key rank rs)"
proof -
  have "sorted (map (\<lambda>r. (rank r, key r)) (sort_results key rank rs))"
    by (simp add: sort_results_def)
  then have "sorted_wrt (\<lambda>a b. (rank a, key a) \<le> (rank b, key b)) (sort_results key rank rs)"
    by (simp add: sorted_map)
  then show ?thesis unfolding by_rank_def by (rule sorted_wrt_mono_rel [rotated]) (auto simp: less_eq_prod_def)
qed

subsection \<open>The merge on lists\<close>

text \<open>The records of the batch that are still to come.\<close>

definition pending_delta :: "'r list \<Rightarrow> 'r merge_state \<Rightarrow> 'r list" where
  "pending_delta delta st = map ((!) delta) (filter (\<lambda>i. \<not> emitted st ! i) [cursor st ..< length delta])"

definition merge_inv :: "'r list \<Rightarrow> 'r merge_state \<Rightarrow> bool" where
  "merge_inv delta st \<longleftrightarrow>
     length (emitted st) = length delta \<and> cursor st \<le> length delta \<and> (\<forall>i < cursor st. emitted st ! i)"

definition beaten :: "('r \<Rightarrow> string) \<Rightarrow> ('r \<Rightarrow> nat) \<Rightarrow> 'r list \<Rightarrow> 'r \<Rightarrow> bool" where
  "beaten key rank delta e \<longleftrightarrow> (\<exists>d \<in> set delta. key d = key e \<and> rank d < rank e)"

fun merge_lists ::
  "('r \<Rightarrow> string) \<Rightarrow> ('r \<Rightarrow> nat) \<Rightarrow> 'r list \<Rightarrow> 'r list \<Rightarrow> 'r list \<Rightarrow> 'r list" where
  "merge_lists key rank delta R [] = R"
| "merge_lists key rank delta R (e # es) =
     filter (\<lambda>d. rank d < rank e) R
     @ (if beaten key rank delta e
        then merge_lists key rank delta (filter (\<lambda>d. \<not> rank d < rank e) R) es
        else e # merge_lists key rank delta (filter (\<lambda>d. \<not> rank d < rank e \<and> key d \<noteq> key e) R) es)"

lemma emit_cursor:
  assumes "merge_inv delta st" and "cursor st < length delta"
  shows "merge_inv delta ((emitDelta delta (cursor st) st)\<lparr>cursor := cursor st + 1\<rparr>)"
    and "outp (emitDelta delta (cursor st) st) @
           pending_delta delta ((emitDelta delta (cursor st) st)\<lparr>cursor := cursor st + 1\<rparr>)
         = outp st @ pending_delta delta st"
proof -
  have up: "[cursor st ..< length delta] = cursor st # [Suc (cursor st) ..< length delta]"
    using assms(2) by (rule upt_conv_Cons)
  show "merge_inv delta ((emitDelta delta (cursor st) st)\<lparr>cursor := cursor st + 1\<rparr>)"
    using assms by (auto simp: merge_inv_def emitDelta_def less_Suc_eq nth_list_update)
  have "filter (\<lambda>i. \<not> (emitted st)[cursor st := True] ! i) [Suc (cursor st) ..< length delta]
      = filter (\<lambda>i. \<not> emitted st ! i) [Suc (cursor st) ..< length delta]"
    by (rule filter_cong) auto
  then show "outp (emitDelta delta (cursor st) st) @
           pending_delta delta ((emitDelta delta (cursor st) st)\<lparr>cursor := cursor st + 1\<rparr>)
         = outp st @ pending_delta delta st"
    by (simp add: emitDelta_def pending_delta_def up)
qed

lemma by_rank_nth: "by_rank rank delta \<Longrightarrow> i \<le> j \<Longrightarrow> j < length delta \<Longrightarrow> rank (delta ! i) \<le> rank (delta ! j)"
  by (cases "i = j") (auto simp: by_rank_def sorted_wrt_iff_nth_less)

lemma emit_pending:
  assumes "cursor st < length delta"
  shows "pending_delta delta st
      = (if emitted st ! cursor st then [] else [delta ! cursor st])
        @ pending_delta delta ((emitDelta delta (cursor st) st)\<lparr>cursor := cursor st + 1\<rparr>)"
    and "outp (emitDelta delta (cursor st) st)
      = outp st @ (if emitted st ! cursor st then [] else [delta ! cursor st])"
proof -
  have up: "[cursor st ..< length delta] = cursor st # [Suc (cursor st) ..< length delta]"
    using assms by (rule upt_conv_Cons)
  have "filter (\<lambda>i. \<not> (emitted st)[cursor st := True] ! i) [Suc (cursor st) ..< length delta]
      = filter (\<lambda>i. \<not> emitted st ! i) [Suc (cursor st) ..< length delta]"
    by (rule filter_cong) auto
  then show "pending_delta delta st
      = (if emitted st ! cursor st then [] else [delta ! cursor st])
        @ pending_delta delta ((emitDelta delta (cursor st) st)\<lparr>cursor := cursor st + 1\<rparr>)"
    by (simp add: emitDelta_def pending_delta_def up)
qed (simp add: emitDelta_def)

lemma merge_inv_emit:
  assumes "merge_inv delta st" and "cursor st < length delta"
  shows "merge_inv delta ((emitDelta delta (cursor st) st)\<lparr>cursor := cursor st + 1\<rparr>)"
  using assms by (auto simp: merge_inv_def emitDelta_def less_Suc_eq nth_list_update)

lemma catch_up_pending:
  "by_rank rank delta \<Longrightarrow> merge_inv delta st \<Longrightarrow>
    merge_inv delta (catch_up rank delta e st)
    \<and> outp (catch_up rank delta e st) = outp st @ filter (\<lambda>d. rank d < rank e) (pending_delta delta st)
    \<and> pending_delta delta (catch_up rank delta e st) = filter (\<lambda>d. \<not> rank d < rank e) (pending_delta delta st)
    \<and> (\<forall>i < length delta. rank (delta ! i) < rank e \<longrightarrow> i < cursor (catch_up rank delta e st))"
proof (induction rank delta e st rule: catch_up.induct)
  case (1 rank delta e st)
  show ?case
  proof (cases "cursor st < length delta \<and> rank (delta ! cursor st) < rank e")
    case True
    let ?st = "(emitDelta delta (cursor st) st)\<lparr>cursor := cursor st + 1\<rparr>"
    note ih = 1(1) [OF True 1(2) merge_inv_emit [OF 1(3)]]
    have "catch_up rank delta e st = catch_up rank delta e ?st"
      using True by (subst catch_up.simps) simp
    moreover have "outp ?st = outp (emitDelta delta (cursor st) st)" by simp
    ultimately show ?thesis
      using ih True emit_pending [of st delta] by simp
  next
    case False
    then have same: "catch_up rank delta e st = st"
      using catch_up.simps [of rank delta e st] by (simp only: if_False)
    have ge: "rank e \<le> rank (delta ! i)" if "cursor st \<le> i" "i < length delta" for i
      using False that by_rank_nth [OF 1(2) that] by auto
    have "\<not> rank d < rank e" if "d \<in> set (pending_delta delta st)" for d
    proof -
      from that obtain i where "cursor st \<le> i" "i < length delta" "d = delta ! i"
        by (auto simp: pending_delta_def)
      with ge show ?thesis by (simp add: not_less)
    qed
    then have none: "\<forall>d \<in> set (pending_delta delta st). \<not> rank d < rank e" by blast
    have "i < cursor st" if "i < length delta" "rank (delta ! i) < rank e" for i
      using ge [of i] that by (metis not_le)
    with 1(3) show ?thesis by (simp add: same filter_False [OF none] filter_True [OF none])
  qed
qed

lemma set_key_order [simp]: "set (key_order key delta) = {0 ..< length delta}"
  by (simp add: key_order_def)

lemma holds_Some: "holds key delta k = Some i \<Longrightarrow> i < length delta \<and> key (delta ! i) = k"
proof -
  assume "holds key delta k = Some i"
  then obtain j where j: "j < length (key_order key delta)" "i = key_order key delta ! j"
    "key (delta ! i) = k"
    unfolding holds_def find_Some_iff by auto
  then have "i \<in> set (key_order key delta)" using nth_mem by blast
  with j(3) show ?thesis by simp
qed

lemma holds_None: "holds key delta k = None \<Longrightarrow> d \<in> set delta \<Longrightarrow> key d \<noteq> k"
  by (auto simp: holds_def find_None_iff in_set_conv_nth)

lemma distinct_key_nth:
  "distinct (map key delta) \<Longrightarrow> i < length delta \<Longrightarrow> j < length delta
   \<Longrightarrow> key (delta ! i) = key (delta ! j) \<longleftrightarrow> i = j"
  using nth_eq_iff_index_eq [of "map key delta" i j] by simp

lemma pending_mark:
  assumes "distinct (map key delta)" and "i < length delta" and "length (emitted st) = length delta"
  shows "pending_delta delta (st\<lparr>emitted := (emitted st)[i := True], outp := xs\<rparr>)
    = filter (\<lambda>d. key d \<noteq> key (delta ! i)) (pending_delta delta st)"
proof -
  have "filter (\<lambda>j. \<not> (emitted st)[i := True] ! j) [cursor st ..< length delta]
      = filter (\<lambda>j. key (delta ! j) \<noteq> key (delta ! i) \<and> \<not> emitted st ! j) [cursor st ..< length delta]"
    using assms distinct_key_nth [OF assms(1) _ assms(2)]
    by (intro filter_cong) (auto simp: nth_list_update)
  then show ?thesis
    by (simp add: pending_delta_def filter_map comp_def)
      (metis (no_types, lifting) filter_filter)
qed

lemma on_existing_pending:
  assumes "by_rank rank delta" and "distinct (map key delta)" and "merge_inv delta st"
  shows "merge_inv delta (on_existing key rank delta e st) \<and>
    (let R = pending_delta delta st;
         better = beaten key rank delta e
     in outp (on_existing key rank delta e st)
          = outp st @ filter (\<lambda>d. rank d < rank e) R @ (if better then [] else [e])
      \<and> pending_delta delta (on_existing key rank delta e st)
          = filter (\<lambda>d. \<not> rank d < rank e \<and> (better \<or> key d \<noteq> key e)) R)"
proof -
  let ?st = "catch_up rank delta e st"
  note c = catch_up_pending [OF assms(1,3), of e]
  have same: "pending_delta delta (s\<lparr>outp := xs\<rparr>) = pending_delta delta s"
    "merge_inv delta (s\<lparr>outp := xs\<rparr>) = merge_inv delta s" for s and xs :: "'a list"
    by (simp_all add: pending_delta_def merge_inv_def)
  show ?thesis
  proof (cases "holds key delta (key e)")
    case None
    have nb: "\<not> beaten key rank delta e"
      using holds_None [OF None] by (fastforce simp: beaten_def)
    have "\<forall>d \<in> set (pending_delta delta st). key d \<noteq> key e"
      using holds_None [OF None] by (auto simp: pending_delta_def)
    then have "filter (\<lambda>d. \<not> rank d < rank e \<and> key d \<noteq> key e) (pending_delta delta st)
        = filter (\<lambda>d. \<not> rank d < rank e) (pending_delta delta st)"
      by (intro filter_cong) auto
    moreover have "on_existing key rank delta e st = ?st\<lparr>outp := outp ?st @ [e]\<rparr>"
      by (simp add: on_existing_def None Let_def)
    ultimately show ?thesis using c nb by (simp add: same Let_def)
  next
    case (Some i)
    note i = holds_Some [OF Some]
    have better: "beaten key rank delta e \<longleftrightarrow> rank (delta ! i) < rank e"
    proof
      assume "beaten key rank delta e"
      then obtain j where j: "j < length delta" "key (delta ! j) = key e" "rank (delta ! j) < rank e"
        by (auto simp: beaten_def in_set_conv_nth)
      with i distinct_key_nth [OF assms(2), of i j] show "rank (delta ! i) < rank e" by simp
    next
      assume "rank (delta ! i) < rank e"
      with i show "beaten key rank delta e" unfolding beaten_def by (meson nth_mem)
    qed
    show ?thesis
    proof (cases "rank (delta ! i) < rank e")
      case True
      with c i have "i < cursor ?st" by blast
      with c have "emitted ?st ! i" by (auto simp: merge_inv_def)
      then have "on_existing key rank delta e st = ?st"
        using True by (simp add: on_existing_def Some Let_def emitDelta_def)
      with c True better show ?thesis by (simp add: Let_def)
    next
      case False
      let ?new = "?st\<lparr>emitted := (emitted ?st)[i := True], outp := outp ?st @ [e]\<rparr>"
      have new: "on_existing key rank delta e st = ?new"
        using False by (simp add: on_existing_def Some Let_def)
      have "length (emitted ?st) = length delta" using c by (simp add: merge_inv_def)
      from pending_mark [OF assms(2) _ this, of i] i
      have "pending_delta delta ?new = filter (\<lambda>d. key d \<noteq> key e) (pending_delta delta ?st)" by simp
      then have "pending_delta delta ?new
          = filter (\<lambda>d. \<not> rank d < rank e \<and> key d \<noteq> key e) (pending_delta delta st)"
        using c by (simp add: conj_commute)
      moreover have "merge_inv delta ?new"
        using c unfolding merge_inv_def
        by (simp, metis nth_list_update_eq nth_list_update_neq order.strict_trans2)
      ultimately show ?thesis using c False better by (simp add: new Let_def)
    qed
  qed
qed

lemma fold_existing:
  assumes "by_rank rank delta" and "distinct (map key delta)" and "merge_inv delta st"
  shows "merge_inv delta (fold (on_existing key rank delta) es st)
    \<and> outp (fold (on_existing key rank delta) es st) @ pending_delta delta (fold (on_existing key rank delta) es st)
      = outp st @ merge_lists key rank delta (pending_delta delta st) es"
  using assms(3)
proof (induction es arbitrary: st)
  case (Cons e es)
  note step = on_existing_pending [OF assms(1,2) Cons.prems, of e]
  then show ?case using Cons.IH [of "on_existing key rank delta e st"]
    by (auto simp: Let_def split: if_splits)
qed simp

lemma fold_emit:
  "c \<le> length delta \<Longrightarrow> length (emitted st) = length delta \<Longrightarrow>
   outp (fold (emitDelta delta) [c ..< length delta] st)
   = outp st @ map ((!) delta) (filter (\<lambda>i. \<not> emitted st ! i) [c ..< length delta])"
proof (induction "length delta - c" arbitrary: c st)
  case (Suc n)
  then have up: "[c ..< length delta] = c # [Suc c ..< length delta]" by (simp add: upt_conv_Cons)
  let ?st = "emitDelta delta c st"
  have len: "length (emitted ?st) = length delta" using Suc by (simp add: emitDelta_def)
  have "filter (\<lambda>i. \<not> emitted ?st ! i) [Suc c ..< length delta]
      = filter (\<lambda>i. \<not> emitted st ! i) [Suc c ..< length delta]"
    by (rule filter_cong) (auto simp: emitDelta_def)
  with Suc(1) [of "Suc c" ?st] Suc(2,3) len show ?case by (simp add: up emitDelta_def)
qed simp

lemma mergeWithExisting_lists:
  assumes "by_rank rank delta" and "distinct (map key delta)"
  shows "mergeWithExisting key rank delta es = merge_lists key rank delta delta es"
proof -
  let ?st = "\<lparr>emitted = replicate (length delta) False, cursor = 0, outp = []\<rparr>"
  have inv: "merge_inv delta ?st" by (simp add: merge_inv_def)
  have "filter (\<lambda>i. \<not> replicate (length delta) False ! i) [0 ..< length delta] = [0 ..< length delta]"
    by (simp add: filter_id_conv)
  then have start: "pending_delta delta ?st = delta" by (simp add: pending_delta_def map_nth)
  let ?last = "fold (on_existing key rank delta) es ?st"
  note f = fold_existing [OF assms inv, of es]
  have "outp (fold (emitDelta delta) [cursor ?last ..< length delta] ?last)
      = outp ?last @ pending_delta delta ?last"
    using fold_emit [of "cursor ?last" delta ?last] f by (simp add: pending_delta_def merge_inv_def)
  with f start show ?thesis by (simp add: mergeWithExisting_def Let_def)
qed

subsection \<open>Correctness\<close>

lemma by_rank_Cons: "by_rank rank (e # es) \<longleftrightarrow> (\<forall>x \<in> set es. rank e \<le> rank x) \<and> by_rank rank es"
  by (simp add: by_rank_def)

lemma by_rank_append:
  "by_rank rank (xs @ ys) \<longleftrightarrow> by_rank rank xs \<and> by_rank rank ys \<and> (\<forall>x \<in> set xs. \<forall>y \<in> set ys. rank x \<le> rank y)"
  by (auto simp: by_rank_def sorted_wrt_append)

lemma by_rank_filter: "by_rank rank xs \<Longrightarrow> by_rank rank (filter Q xs)"
  by (simp add: by_rank_def sorted_wrt_filter)

lemma same_key: "distinct (map key delta) \<Longrightarrow> a \<in> set delta \<Longrightarrow> b \<in> set delta \<Longrightarrow> key a = key b \<Longrightarrow> a = b"
  by (simp add: distinct_map inj_on_def)

definition outranks :: "('r \<Rightarrow> string) \<Rightarrow> ('r \<Rightarrow> nat) \<Rightarrow> 'r list \<Rightarrow> 'r \<Rightarrow> bool" where
  "outranks key rank es d \<longleftrightarrow> (\<forall>e \<in> set es. key e = key d \<longrightarrow> rank d < rank e)"

lemma outranks_Nil [simp]: "outranks key rank [] d"
  by (simp add: outranks_def)

lemma outranks_Cons:
  "outranks key rank (e # es) d \<longleftrightarrow> (key e = key d \<longrightarrow> rank d < rank e) \<and> outranks key rank es d"
  by (simp add: outranks_def)

lemma outranks_low:
  "by_rank rank (e # es) \<Longrightarrow> rank d < rank e \<Longrightarrow> outranks key rank es d"
  by (auto simp: outranks_def by_rank_Cons intro: less_le_trans)

lemma set_merge_lists:
  assumes "distinct (map key delta)"
  shows "by_rank rank es \<Longrightarrow> set R \<subseteq> set delta \<Longrightarrow>
    set (merge_lists key rank delta R es)
      = {d \<in> set R. outranks key rank es d} \<union> {e \<in> set es. \<not> beaten key rank delta e}"
proof (induction es arbitrary: R)
  case (Cons e es)
  have es: "by_rank rank es" using Cons.prems(1) by (simp add: by_rank_Cons)
  have sub: "set (filter Q R) \<subseteq> set delta" for Q using Cons.prems(2) by auto
  have low: "outranks key rank es d" if "rank d < rank e" for d
    by (rule outranks_low [OF Cons.prems(1) that])
  show ?case
  proof (cases "beaten key rank delta e")
    case True
    then obtain b where b: "b \<in> set delta" "key b = key e" "rank b < rank e" by (auto simp: beaten_def)
    have "key e = key d \<longrightarrow> rank d < rank e" if "d \<in> set R" for d
      using same_key [OF assms, of d b] that Cons.prems(2) b by auto
    then have "{d \<in> set R. outranks key rank (e # es) d}
        = {d \<in> set R. rank d < rank e} \<union> {d \<in> set (filter (\<lambda>d. \<not> rank d < rank e) R). outranks key rank es d}"
      using low by (auto simp: outranks_Cons)
    moreover have "{x \<in> set (e # es). \<not> beaten key rank delta x} = {x \<in> set es. \<not> beaten key rank delta x}"
      using True by auto
    ultimately show ?thesis using True by (simp add: Cons.IH [OF es sub] Un_assoc)
  next
    case False
    have "{d \<in> set R. outranks key rank (e # es) d}
        = {d \<in> set R. rank d < rank e}
          \<union> {d \<in> set (filter (\<lambda>d. \<not> rank d < rank e \<and> key d \<noteq> key e) R). outranks key rank es d}"
      using low by (auto simp: outranks_Cons)
    moreover have "{x \<in> set (e # es). \<not> beaten key rank delta x} = insert e {x \<in> set es. \<not> beaten key rank delta x}"
      using False by auto
    ultimately show ?thesis using False by (simp add: Cons.IH [OF es sub] Un_assoc)
  qed
qed simp

lemma merge_lists_by_rank:
  assumes "distinct (map key delta)"
  shows "by_rank rank es \<Longrightarrow> set R \<subseteq> set delta \<Longrightarrow> by_rank rank R \<Longrightarrow>
    by_rank rank (merge_lists key rank delta R es)"
proof (induction es arbitrary: R)
  case (Cons e es)
  have later: "\<forall>x \<in> set es. rank e \<le> rank x" and es: "by_rank rank es"
    using Cons.prems(1) by (simp_all add: by_rank_Cons)
  have high: "rank e \<le> rank x"
    if "x \<in> set (merge_lists key rank delta S es)" "set S \<subseteq> set R" "\<forall>d \<in> set S. \<not> rank d < rank e" for x S
    using set_merge_lists [OF assms es, of S] that Cons.prems(2) later by auto
  have ih: "by_rank rank (merge_lists key rank delta (filter Q R) es)" for Q
    using Cons.IH [OF es] Cons.prems(2,3) by (simp add: by_rank_filter subset_iff)
  let ?low = "filter (\<lambda>d. rank d < rank e) R"
  have low: "by_rank rank (?low @ xs)" if "by_rank rank xs" "\<And>x. x \<in> set xs \<Longrightarrow> rank e \<le> rank x" for xs
  proof -
    note ge = that(2)
    have "rank d \<le> rank x" if d: "d \<in> set ?low" and x: "x \<in> set xs" for d x
      using d ge [OF x] by simp
    with that(1) Cons.prems(3) show ?thesis by (simp add: by_rank_append by_rank_filter)
  qed
  show ?case
  proof (cases "beaten key rank delta e")
    case True
    let ?rest = "merge_lists key rank delta (filter (\<lambda>d. \<not> rank d < rank e) R) es"
    have "rank e \<le> rank x" if "x \<in> set ?rest" for x
      by (rule high [OF that]) auto
    then have "by_rank rank (?low @ ?rest)" by (rule low [OF ih])
    with True show ?thesis by simp
  next
    case False
    let ?Q = "\<lambda>d. \<not> rank d < rank e \<and> key d \<noteq> key e"
    let ?rest = "merge_lists key rank delta (filter ?Q R) es"
    have ge: "rank e \<le> rank x" if "x \<in> set ?rest" for x
      by (rule high [OF that]) auto
    have "by_rank rank (e # ?rest)" using ih ge by (simp add: by_rank_Cons)
    moreover have "rank e \<le> rank x" if "x \<in> set (e # ?rest)" for x using that ge by (cases "x = e") simp_all
    ultimately have "by_rank rank (?low @ e # ?rest)" by (rule low)
    with False show ?thesis by simp
  qed
qed simp

lemma merge_lists_distinct:
  assumes "distinct (map key delta)"
  shows "by_rank rank es \<Longrightarrow> set R \<subseteq> set delta \<Longrightarrow> distinct (map key R) \<Longrightarrow> distinct (map key es) \<Longrightarrow>
    distinct (map key (merge_lists key rank delta R es))"
proof (induction es arbitrary: R)
  case (Cons e es)
  have later: "\<forall>x \<in> set es. rank e \<le> rank x" and es: "by_rank rank es"
    using Cons.prems(1) by (simp_all add: by_rank_Cons)
  have sub: "set (filter Q R) \<subseteq> set delta" for Q using Cons.prems(2) by auto
  note chars = set_merge_lists [OF assms es sub]
  have ih: "distinct (map key (merge_lists key rank delta (filter Q R) es))" for Q
    using Cons.IH [OF es sub] Cons.prems(3,4) by (simp add: distinct_map_filter)
  have low_key: "key d \<noteq> key x"
    if d: "d \<in> set R" "rank d < rank e" and x: "x \<in> set (merge_lists key rank delta (filter Q R) es)"
      and Q: "\<forall>y. Q y \<longrightarrow> \<not> rank y < rank e" for d x Q
  proof
    assume eq: "key d = key x"
    from x consider "x \<in> set R" "Q x" | "x \<in> set es" "\<not> beaten key rank delta x"
      by (auto simp: chars)
    then show False
    proof cases
      case 1
      with d(1) eq Cons.prems(2) same_key [OF assms] have "d = x" by blast
      with 1 Q d(2) show False by blast
    next
      case 2
      with later d(2) have "rank d < rank x" by fastforce
      with eq d(1) Cons.prems(2) 2(2) show False by (auto simp: beaten_def)
    qed
  qed
  show ?case
  proof (cases "beaten key rank delta e")
    case True
    then show ?thesis
      using ih Cons.prems(3) low_key [of _ _ "\<lambda>d. \<not> rank d < rank e"]
      by (auto simp: distinct_map_filter)
  next
    case False
    let ?Q = "\<lambda>d. \<not> rank d < rank e \<and> key d \<noteq> key e"
    have "key e \<notin> key ` set (merge_lists key rank delta (filter ?Q R) es)"
      using Cons.prems(4) by (auto simp: chars)
    moreover have "key e \<noteq> key d" if "d \<in> set R" "rank d < rank e" for d
      using False that Cons.prems(2) by (auto simp: beaten_def)
    ultimately show ?thesis
      using False ih Cons.prems(3) low_key [of _ _ ?Q]
      by (auto simp: distinct_map_filter)
  qed
qed simp

text \<open>The contract of the result file: sorted, one record per key, and for every key the best
  record that was ever given.\<close>

definition best_of_each :: "('r \<Rightarrow> string) \<Rightarrow> ('r \<Rightarrow> nat) \<Rightarrow> 'r set \<Rightarrow> 'r list \<Rightarrow> bool" where
  "best_of_each key rank all rs \<longleftrightarrow>
     by_rank rank rs \<and> distinct (map key rs) \<and> set rs \<subseteq> all \<and> key ` set rs = key ` all
     \<and> (\<forall>r \<in> set rs. \<forall>x \<in> all. key x = key r \<longrightarrow> rank r \<le> rank x)"

lemma dedup_best: "best_of_each key rank (set rs) (dedup_keys key {} (sort_results key rank rs))"
proof -
  have s: "set (sort_results key rank rs) = set rs" by (simp add: sort_results_def)
  have sorted: "sorted_wrt (\<lambda>a b. rank a \<le> rank b) (sort_results key rank rs)"
    using sort_results_by_rank [of rank key rs] by (simp add: by_rank_def)
  show ?thesis
    unfolding best_of_each_def
    using dedup_keys_facts [of key "{}" "sort_results key rank rs"] s
      dedup_keys_sorted [OF sorted, of key "{}"] dedup_keys_first [OF sorted, of _ key "{}"]
    by (auto simp: by_rank_def)
qed

text \<open>Two lists that keep the contract for their records merge into one that keeps it for all.\<close>

lemma merge_lists_key:
  assumes "distinct (map key delta)" and "by_rank rank es" and "distinct (map key es)"
    and "r \<in> set es \<or> r \<in> set delta"
  shows "key r \<in> key ` set (merge_lists key rank delta delta es)"
proof -
  note char = set_merge_lists [OF assms(1,2) subset_refl]
  show ?thesis
  proof (cases "\<exists>e \<in> set es. key e = key r")
    case True
    then obtain e where e: "e \<in> set es" "key e = key r" by blast
    show ?thesis
    proof (cases "beaten key rank delta e")
      case True
      then obtain d where d: "d \<in> set delta" "key d = key e" "rank d < rank e"
        by (auto simp: beaten_def)
      have "rank d < rank x" if "x \<in> set es" "key x = key d" for x
        using same_key [OF assms(3) that(1) e(1)] that(2) d by simp
      then have "outranks key rank es d" by (simp add: outranks_def)
      with d have "d \<in> set (merge_lists key rank delta delta es)" by (auto simp: char)
      then show ?thesis using d(2) e(2) by (metis imageI)
    next
      case False
      with e have "e \<in> set (merge_lists key rank delta delta es)" by (auto simp: char)
      then show ?thesis using e(2) by (metis imageI)
    qed
  next
    case False
    then have "outranks key rank es r" by (auto simp: outranks_def)
    with False assms(4) have "r \<in> set (merge_lists key rank delta delta es)" by (auto simp: char)
    then show ?thesis by blast
  qed
qed

lemma merge_lists_rank:
  assumes d: "best_of_each key rank A delta" and e: "best_of_each key rank B es"
    and r: "r \<in> set (merge_lists key rank delta delta es)" and x: "x \<in> A \<union> B" "key x = key r"
  shows "rank r \<le> rank x"
proof -
  have dk: "distinct (map key delta)" and er: "by_rank rank es"
    using d e by (simp_all add: best_of_each_def)
  have dx: "\<exists>a \<in> set delta. key a = key x \<and> rank a \<le> rank x" if "x \<in> A"
    using d that unfolding best_of_each_def by (metis imageE imageI)
  have ex: "\<exists>a \<in> set es. key a = key x \<and> rank a \<le> rank x" if "x \<in> B"
    using e that unfolding best_of_each_def by (metis imageE imageI)
  consider (delta) "r \<in> set delta" "outranks key rank es r"
    | (old) "r \<in> set es" "\<not> beaten key rank delta r"
    using r by (auto simp: set_merge_lists [OF dk er subset_refl])
  then show ?thesis
  proof cases
    case delta
    show ?thesis
    proof (cases "x \<in> B")
      case True
      then obtain a where a: "a \<in> set es" "key a = key x" "rank a \<le> rank x" using ex by blast
      with delta(2) x(2) show ?thesis by (fastforce simp: outranks_def)
    qed (use d delta(1) x in \<open>auto simp: best_of_each_def\<close>)
  next
    case old
    show ?thesis
    proof (cases "x \<in> A")
      case True
      then obtain a where a: "a \<in> set delta" "key a = key x" "rank a \<le> rank x" using dx by blast
      with old(2) x(2) have "\<not> rank a < rank r" by (auto simp: beaten_def)
      with a(3) show ?thesis by simp
    qed (use e old(1) x in \<open>auto simp: best_of_each_def\<close>)
  qed
qed

lemma merge_lists_best:
  assumes d: "best_of_each key rank A delta" and e: "best_of_each key rank B es"
  shows "best_of_each key rank (A \<union> B) (merge_lists key rank delta delta es)"
proof -
  let ?new = "merge_lists key rank delta delta es"
  have dk: "distinct (map key delta)" "by_rank rank delta" and ek: "distinct (map key es)" "by_rank rank es"
    using d e by (simp_all add: best_of_each_def)
  have "set ?new \<subseteq> set delta \<union> set es"
    by (auto simp: set_merge_lists [OF dk(1) ek(2) subset_refl])
  then have sub: "set ?new \<subseteq> A \<union> B" using d e by (auto simp: best_of_each_def)
  have "key ` A = key ` set delta" "key ` B = key ` set es" using d e by (simp_all add: best_of_each_def)
  then have "key ` (A \<union> B) \<subseteq> key ` set ?new"
    using merge_lists_key [OF dk(1) ek(2,1)] by (simp add: image_Un) blast
  with sub have keys: "key ` set ?new = key ` (A \<union> B)" by blast
  have "by_rank rank ?new" by (rule merge_lists_by_rank [OF dk(1) ek(2) subset_refl dk(2)])
  moreover have "distinct (map key ?new)"
    by (rule merge_lists_distinct [OF dk(1) ek(2) subset_refl dk(1) ek(1)])
  moreover have "\<forall>r \<in> set ?new. \<forall>x \<in> A \<union> B. key x = key r \<longrightarrow> rank r \<le> rank x"
    using merge_lists_rank [OF d e] by blast
  ultimately show ?thesis using sub keys by (simp add: best_of_each_def)
qed

lemma merge_best:
  assumes "best_of_each key rank all stored" and "\<forall>r \<in> set stored. reload r = Some r"
    and "results \<noteq> []"
  shows "\<exists>new. mergeResults key rank reload (Some stored) results = Some new
      \<and> best_of_each key rank (all \<union> set results) new"
proof -
  let ?delta = "dedup_keys key {} (sort_results key rank results)"
  have d: "best_of_each key rank (set results) ?delta" by (rule dedup_best)
  then have dk: "distinct (map key ?delta)" "by_rank rank ?delta" by (simp_all add: best_of_each_def)
  have "List.map_filter reload stored = stored"
    using assms(2) by (induction stored) (auto simp: List.map_filter_simps)
  then have "mergeResults key rank reload (Some stored) results
      = Some (merge_lists key rank ?delta ?delta stored)"
    using assms(3) by (simp add: mergeResults_def Let_def mergeWithExisting_lists [OF dk(2,1)])
  with merge_lists_best [OF d assms(1)] show ?thesis by (simp add: Un_commute)
qed



end
