(* ===== verification/ResultWriter.thy ===== *)
theory ResultWriter
  imports ResultMerge Transitions "HOL-Library.Multiset"
begin

text \<open>
  The result writer, \<open>internal/core/result/manager.go\<close>: \<open>Start\<close>, \<open>Write\<close>, \<open>Close\<close> and the
  background loop with its batch, as a step relation whose steps are the atomic actions of the
  goroutines (the reads of the flags, the channel operations, the critical sections of
  \<open>stateMu\<close>). \<open>merge\<close> is what a batch does to the stored records; a flush that fails may have
  replaced the file already, since \<open>mergeResults\<close> syncs the directory last. Creating the writer
  (validation of the settings, the path) is left out.
\<close>

subsection \<open>State\<close>

text \<open>\<open>checked\<close> are the calls of \<open>Write\<close> that have passed the flags but do not hold the read lock
  yet, \<open>holders\<close> those inside the \<open>select\<close>. The last block records what happened.\<close>

datatype 'e close_state = NotClosed | Waiting | Returned "'e option"

datatype loop_state = NotRunning | Looping | Draining | Ended

record ('r, 'e) writer =
  BatchSizeW :: nat
  ChanSizeW :: nat
  ignoreErr :: bool
  started :: bool
  ctx_cancelled :: bool
  input :: "'r list"
  chan_closed :: bool
  batch :: "'r list"
  loop_pc :: loop_state
  closing :: "'e close_state"
  checked :: "'r list"
  holders :: "'r list"
  firstErr :: "'e option"
  statWritten :: u64
  statDropped :: u64
  statFlushes :: u64
  rows :: "'r list option"
  accepted :: "'r list"
  persisted :: "'r list"
  handled :: "'r list"
  parent_cancelled :: bool
  flush_failed :: bool

definition new_writer :: "nat \<Rightarrow> nat \<Rightarrow> bool \<Rightarrow> 'r list option \<Rightarrow> ('r, 'e) writer" where
  "new_writer batch_size chan_size ignore stale =
     \<lparr>BatchSizeW = batch_size, ChanSizeW = chan_size, ignoreErr = ignore, started = False,
      ctx_cancelled = False, input = [], chan_closed = False, batch = [], loop_pc = NotRunning,
      closing = NotClosed, checked = [], holders = [], firstErr = None, statWritten = 0,
      statDropped = 0, statFlushes = 0, rows = stale, accepted = [], persisted = [], handled = [],
      parent_cancelled = False, flush_failed = False\<rparr>"

subsection \<open>Flushing\<close>

definition recordErr :: "'e \<Rightarrow> ('r, 'e) writer \<Rightarrow> ('r, 'e) writer" where
  "recordErr e w = (case firstErr w of None \<Rightarrow> w\<lparr>firstErr := Some e\<rparr> | Some _ \<Rightarrow> w)"

text \<open>\<open>outcome\<close> is what \<open>mergeResults\<close> answers: \<open>None\<close>, or an error and whether the file had
  been replaced before. The first component of the result is \<open>fatal\<close>.\<close>

definition flush ::
  "('r list option \<Rightarrow> 'r list \<Rightarrow> 'r list option) \<Rightarrow> ('e \<times> bool) option \<Rightarrow> ('r, 'e) writer
   \<Rightarrow> bool \<times> ('r, 'e) writer" where
  "flush merge outcome w =
     (if batch w = [] then (False, w)
      else let tmp = batch w;
               w1 = w\<lparr>batch := [], handled := handled w @ tmp\<rparr>
           in case outcome of
                Some (e, late) \<Rightarrow>
                  let w2 = w1\<lparr>flush_failed := True,
                              rows := (if late then merge (rows w) tmp else rows w)\<rparr>
                  in if ignoreErr w then (False, w2) else (True, recordErr e w2)
              | None \<Rightarrow>
                  (False, w1\<lparr>rows := merge (rows w) tmp, statFlushes := statFlushes w + 1,
                             statWritten := statWritten w + of_nat (length tmp),
                             persisted := persisted w @ tmp\<rparr>))"

text \<open>A flush whose fatal error cancels the writer's context.\<close>

definition flush_or_cancel ::
  "('r list option \<Rightarrow> 'r list \<Rightarrow> 'r list option) \<Rightarrow> ('e \<times> bool) option \<Rightarrow> ('r, 'e) writer
   \<Rightarrow> ('r, 'e) writer" where
  "flush_or_cancel merge outcome w =
     (case flush merge outcome w of (fatal, w') \<Rightarrow> if fatal then w'\<lparr>ctx_cancelled := True\<rparr> else w')"

text \<open>The last flush of the loop, and its deferred calls.\<close>

definition flush_and_end ::
  "('r list option \<Rightarrow> 'r list \<Rightarrow> 'r list option) \<Rightarrow> ('e \<times> bool) option \<Rightarrow> ('r, 'e) writer
   \<Rightarrow> ('r, 'e) writer" where
  "flush_and_end merge outcome w = (snd (flush merge outcome w))\<lparr>ctx_cancelled := True, loop_pc := Ended\<rparr>"

subsection \<open>Steps\<close>

text \<open>The background loop without its timer.\<close>

inductive loop_step ::
  "('r list option \<Rightarrow> 'r list \<Rightarrow> 'r list option) \<Rightarrow> ('r, 'e) writer \<Rightarrow> ('r, 'e) writer \<Rightarrow> bool"
  for merge where
  l_receive: "loop_pc w = Looping \<Longrightarrow> input w = r # rest \<Longrightarrow> length (batch w @ [r]) < BatchSizeW w
    \<Longrightarrow> loop_step merge w (w\<lparr>input := rest, batch := batch w @ [r]\<rparr>)"
| l_receive_full: "loop_pc w = Looping \<Longrightarrow> input w = r # rest \<Longrightarrow> BatchSizeW w \<le> length (batch w @ [r])
    \<Longrightarrow> loop_step merge w (flush_or_cancel merge out (w\<lparr>input := rest, batch := batch w @ [r]\<rparr>))"
| l_closed: "loop_pc w = Looping \<Longrightarrow> input w = [] \<Longrightarrow> chan_closed w
    \<Longrightarrow> loop_step merge w (flush_and_end merge out w)"
| l_cancel: "loop_pc w = Looping \<Longrightarrow> ctx_cancelled w \<Longrightarrow> loop_step merge w (w\<lparr>loop_pc := Draining\<rparr>)"
| l_drain: "loop_pc w = Draining \<Longrightarrow> input w = r # rest
    \<Longrightarrow> loop_step merge w (w\<lparr>input := rest, batch := batch w @ [r]\<rparr>)"
| l_drained: "loop_pc w = Draining \<Longrightarrow> input w = []
    \<Longrightarrow> loop_step merge w (flush_and_end merge out w)"

text \<open>The callers of \<open>Start\<close>, \<open>Write\<close> and \<open>Close\<close>, the parent context, and the timer.\<close>

inductive client_step ::
  "('r list option \<Rightarrow> 'r list \<Rightarrow> 'r list option) \<Rightarrow> ('r, 'e) writer \<Rightarrow> ('r, 'e) writer \<Rightarrow> bool"
  for merge where
  s_launch: "loop_pc w = NotRunning \<Longrightarrow> client_step merge w (w\<lparr>loop_pc := Looping, rows := None\<rparr>)"
| s_store: "loop_pc w \<noteq> NotRunning \<Longrightarrow> client_step merge w (w\<lparr>started := True\<rparr>)"
| w_not_started: "\<not> started w \<Longrightarrow> client_step merge w (w\<lparr>statDropped := statDropped w + 1\<rparr>)"
| w_cancelled: "started w \<Longrightarrow> ctx_cancelled w
    \<Longrightarrow> client_step merge w (w\<lparr>statDropped := statDropped w + 1\<rparr>)"
| w_check: "started w \<Longrightarrow> \<not> ctx_cancelled w \<Longrightarrow> client_step merge w (w\<lparr>checked := checked w @ [r]\<rparr>)"
| w_lock: "r \<in> set (checked w) \<Longrightarrow> \<not> chan_closed w
    \<Longrightarrow> client_step merge w (w\<lparr>checked := remove1 r (checked w), holders := holders w @ [r]\<rparr>)"
| w_closed: "r \<in> set (checked w) \<Longrightarrow> chan_closed w
    \<Longrightarrow> client_step merge w (w\<lparr>checked := remove1 r (checked w), statDropped := statDropped w + 1\<rparr>)"
| w_send: "r \<in> set (holders w) \<Longrightarrow> length (input w) < ChanSizeW w
    \<Longrightarrow> client_step merge w (w\<lparr>holders := remove1 r (holders w), input := input w @ [r],
                               accepted := accepted w @ [r]\<rparr>)"
| w_give_up: "r \<in> set (holders w) \<Longrightarrow> ctx_cancelled w
    \<Longrightarrow> client_step merge w (w\<lparr>holders := remove1 r (holders w), statDropped := statDropped w + 1\<rparr>)"
| c_close: "closing w = NotClosed \<Longrightarrow> holders w = []
    \<Longrightarrow> client_step merge w (w\<lparr>closing := Waiting, chan_closed := True\<rparr>)"
| c_unstarted: "closing w = Waiting \<Longrightarrow> \<not> started w
    \<Longrightarrow> client_step merge w (w\<lparr>ctx_cancelled := True, closing := Returned (firstErr w)\<rparr>)"
| c_return: "closing w = Waiting \<Longrightarrow> started w \<Longrightarrow> loop_pc w = Ended
    \<Longrightarrow> client_step merge w (w\<lparr>closing := Returned (firstErr w)\<rparr>)"
| p_cancel: "client_step merge w (w\<lparr>ctx_cancelled := True, parent_cancelled := True\<rparr>)"
| t_tick: "loop_pc w = Looping \<Longrightarrow> client_step merge w (flush_or_cancel merge out w)"

inductive writer_step ::
  "('r list option \<Rightarrow> 'r list \<Rightarrow> 'r list option) \<Rightarrow> ('r, 'e) writer \<Rightarrow> ('r, 'e) writer \<Rightarrow> bool"
  for merge where
  by_loop: "loop_step merge w w' \<Longrightarrow> writer_step merge w w'"
| by_client: "client_step merge w w' \<Longrightarrow> writer_step merge w w'"

inductive_cases loop_stepE: "loop_step merge w w'"
inductive_cases client_stepE: "client_step merge w w'"

text \<open>How many steps of the loop are left once the channel is closed.\<close>

fun pc_left :: "loop_state \<Rightarrow> nat \<Rightarrow> nat" where
  "pc_left Ended n = 0"
| "pc_left Draining n = n + 1"
| "pc_left Looping n = n + 2"
| "pc_left NotRunning n = n + 2"

definition loop_left :: "('r, 'e) writer \<Rightarrow> nat" where
  "loop_left w = pc_left (loop_pc w) (length (input w))"

lemma pc_left_bounds: "pc_left pc n \<le> n + 2" "pc_left pc n = 0 \<longleftrightarrow> pc = Ended"
  by (cases pc; simp)+

subsection \<open>The interface of the store\<close>

text \<open>What the writer relies on: \<open>good A\<close> says that the file holds what it should for the records
  of \<open>A\<close>, and a merge adds a batch to them.\<close>

locale result_store =
  fixes merge :: "'r list option \<Rightarrow> 'r list \<Rightarrow> 'r list option" and good :: "'r set \<Rightarrow> 'r list option \<Rightarrow> bool"
  assumes good_empty: "good {} None"
    and good_merge: "good A f \<Longrightarrow> rs \<noteq> [] \<Longrightarrow> good (A \<union> set rs) (merge f rs)"
begin

definition flow_ok :: "('r, 'e) writer \<Rightarrow> bool" where
  "flow_ok w \<longleftrightarrow>
     accepted w = handled w @ batch w @ input w
     \<and> (flush_failed w \<or> persisted w = handled w)
     \<and> (flush_failed w \<or> loop_pc w = NotRunning \<or> good (set (persisted w)) (rows w))
     \<and> statWritten w = of_nat (length (persisted w))
     \<and> (flush_failed w \<or> firstErr w = None)"

definition life_ok :: "('r, 'e) writer \<Rightarrow> bool" where
  "life_ok w \<longleftrightarrow>
     (chan_closed w \<longleftrightarrow> closing w \<noteq> NotClosed) \<and> (chan_closed w \<longrightarrow> holders w = [])
     \<and> (started w \<longrightarrow> loop_pc w \<noteq> NotRunning)
     \<and> (\<not> started w \<longrightarrow> checked w = [] \<and> holders w = [] \<and> input w = [])
     \<and> (loop_pc w = NotRunning \<longrightarrow> batch w = [] \<and> handled w = [] \<and> persisted w = [])
     \<and> (ctx_cancelled w \<longrightarrow> parent_cancelled w \<or> flush_failed w \<or> chan_closed w)
     \<and> (loop_pc w = Draining \<longrightarrow> ctx_cancelled w)
     \<and> (loop_pc w = Ended \<longrightarrow> ctx_cancelled w \<and> batch w = []
         \<and> (input w = [] \<or> parent_cancelled w \<or> flush_failed w))"

definition close_ok :: "('r, 'e) writer \<Rightarrow> bool" where
  "close_ok w \<longleftrightarrow>
     (started w \<or> accepted w = []) \<and> (closing w = Returned None \<longrightarrow> firstErr w = None)
     \<and> (closing w = NotClosed \<or> closing w = Waiting \<or> loop_pc w = Ended \<or> accepted w = [])"

definition err_ok :: "('r, 'e) writer \<Rightarrow> bool" where
  "err_ok w \<longleftrightarrow> (flush_failed w \<longrightarrow> ignoreErr w \<or> firstErr w \<noteq> None)"

definition writer_inv :: "('r, 'e) writer \<Rightarrow> bool" where
  "writer_inv w \<longleftrightarrow> flow_ok w \<and> life_ok w \<and> close_ok w \<and> err_ok w"

lemma flush_failed_eq:
  assumes "batch w \<noteq> []"
  shows "snd (flush merge (Some (e, late)) w)
    = w\<lparr>batch := [], handled := handled w @ batch w, flush_failed := True,
        rows := (if late then merge (rows w) (batch w) else rows w),
        firstErr := (if ignoreErr w then firstErr w else case firstErr w of None \<Rightarrow> Some e | Some x \<Rightarrow> Some x)\<rparr>"
  using assms by (simp add: flush_def Let_def recordErr_def split: option.split)

lemma flush_fatal: "fst (flush merge out w) \<Longrightarrow> flush_failed (snd (flush merge out w))"
  by (cases out) (auto simp: flush_def Let_def recordErr_def split: option.splits if_splits)

lemma flush_cases:
  obtains (empty) "batch w = []" "flush merge out w = (False, w)"
  | (failed) er rs where "batch w \<noteq> []" "snd (flush merge out w)
      = w\<lparr>batch := [], handled := handled w @ batch w, flush_failed := True, rows := rs, firstErr := er\<rparr>"
  | (stored) "batch w \<noteq> []" "flush merge out w = (False, w\<lparr>batch := [], handled := handled w @ batch w,
        rows := merge (rows w) (batch w), statFlushes := statFlushes w + 1,
        statWritten := statWritten w + of_nat (length (batch w)), persisted := persisted w @ batch w\<rparr>)"
proof (cases "batch w = []")
  case True
  then show ?thesis by (intro empty) (simp_all add: flush_def)
next
  case False
  show ?thesis
  proof (cases out)
    case None
    with False show ?thesis by (intro stored) (simp_all add: flush_def Let_def)
  next
    case (Some x)
    then obtain e late where out: "out = Some (e, late)" by (cases x) simp
    show ?thesis by (rule failed [OF False]) (simp only: out flush_failed_eq [OF False])
  qed
qed

lemma flow_flush: "flow_ok w \<Longrightarrow> loop_pc w \<noteq> NotRunning \<Longrightarrow> flow_ok (snd (flush merge out w))"
proof (cases rule: flush_cases [of w out])
  case stored
  assume "flow_ok w" "loop_pc w \<noteq> NotRunning"
  with stored show ?thesis by (auto simp: flow_ok_def good_merge)
qed (simp_all add: flow_ok_def)

lemma flush_keeps [simp]:
  "loop_pc (snd (flush merge out w)) = loop_pc w" "chan_closed (snd (flush merge out w)) = chan_closed w"
  "closing (snd (flush merge out w)) = closing w" "checked (snd (flush merge out w)) = checked w"
  "holders (snd (flush merge out w)) = holders w" "started (snd (flush merge out w)) = started w"
  "input (snd (flush merge out w)) = input w" "accepted (snd (flush merge out w)) = accepted w"
  "parent_cancelled (snd (flush merge out w)) = parent_cancelled w"
  "ctx_cancelled (snd (flush merge out w)) = ctx_cancelled w" "ignoreErr (snd (flush merge out w)) = ignoreErr w"
  "batch (snd (flush merge out w)) = []"
  by (cases rule: flush_cases [of w out]; simp)+

lemma flush_failed_kept: "flush_failed w \<Longrightarrow> flush_failed (snd (flush merge out w))"
  by (cases rule: flush_cases [of w out]) simp_all

lemma flush_idle: "batch w = [] \<Longrightarrow> snd (flush merge out w) = w"
  by (simp add: flush_def)

lemma err_flush: "err_ok w \<Longrightarrow> err_ok (snd (flush merge out w))"
proof (cases "batch w = []")
  case False
  assume "err_ok w"
  show ?thesis
  proof (cases out)
    case None
    with \<open>err_ok w\<close> False show ?thesis by (simp add: err_ok_def flush_def Let_def)
  next
    case (Some x)
    then obtain e late where "out = Some (e, late)" by (cases x) simp
    then show ?thesis by (simp add: flush_failed_eq [OF False] err_ok_def split: option.split)
  qed
qed (simp add: flush_idle)

lemma flow_idle: "flow_ok w \<Longrightarrow> accepted w = [] \<Longrightarrow> batch w = [] \<and> input w = []"
  by (simp add: flow_ok_def)

lemma flush_or_cancel_eq:
  "flush_or_cancel merge out w
     = (snd (flush merge out w))\<lparr>ctx_cancelled := ctx_cancelled w \<or> fst (flush merge out w)\<rparr>"
  by (cases rule: flush_cases [of w out]; cases "flush merge out w")
    (auto simp: flush_or_cancel_def)

lemma flow_ctx [simp]: "flow_ok (w\<lparr>ctx_cancelled := b\<rparr>) = flow_ok w"
  by (simp add: flow_ok_def)

lemma flow_flush_or_cancel:
  "flow_ok w \<Longrightarrow> loop_pc w \<noteq> NotRunning \<Longrightarrow> flow_ok (flush_or_cancel merge out w)"
  by (simp add: flush_or_cancel_eq flow_flush)

lemma flow_flush_and_end:
  "flow_ok w \<Longrightarrow> loop_pc w \<noteq> NotRunning \<Longrightarrow> flow_ok (flush_and_end merge out w)"
  using flow_flush [of w out] by (simp add: flush_and_end_def flow_ok_def)

lemma life_flush_or_cancel:
  "life_ok w \<Longrightarrow> loop_pc w = Looping \<Longrightarrow> life_ok (flush_or_cancel merge out w)"
  using flush_fatal [of out w] flush_failed_kept [of w out]
  by (auto simp: life_ok_def flush_or_cancel_eq)

lemma life_flush_and_end:
  "life_ok w \<Longrightarrow> loop_pc w = Looping \<and> chan_closed w \<or> loop_pc w = Draining \<Longrightarrow> input w = []
   \<Longrightarrow> life_ok (flush_and_end merge out w)"
  using flush_failed_kept [of w out] by (auto simp: life_ok_def flush_and_end_def)

lemma close_flush:
  assumes "close_ok w" and "flow_ok w" and "loop_pc w \<noteq> Ended"
  shows "close_ok (snd (flush merge out w))"
proof (cases "closing w = NotClosed \<or> closing w = Waiting")
  case True
  with assms(1) show ?thesis by (auto simp: close_ok_def)
next
  case False
  with assms have "batch w = []" using flow_idle [OF assms(2)] by (auto simp: close_ok_def)
  with assms(1) show ?thesis by (simp add: flush_idle)
qed

lemma close_ctx [simp]:
  "close_ok (w\<lparr>ctx_cancelled := b\<rparr>) = close_ok w" "err_ok (w\<lparr>ctx_cancelled := b\<rparr>) = err_ok w"
  by (simp_all add: close_ok_def err_ok_def)

lemma close_end: "close_ok w \<Longrightarrow> close_ok (w\<lparr>ctx_cancelled := True, loop_pc := Ended\<rparr>)"
  "err_ok w \<Longrightarrow> err_ok (w\<lparr>ctx_cancelled := True, loop_pc := Ended\<rparr>)"
  by (auto simp: close_ok_def err_ok_def)

lemma flow_receive: "flow_ok w \<Longrightarrow> input w = r # rest \<Longrightarrow> flow_ok (w\<lparr>input := rest, batch := batch w @ [r]\<rparr>)"
  by (simp add: flow_ok_def)

lemma life_receive:
  "life_ok w \<Longrightarrow> input w = r # rest \<Longrightarrow> loop_pc w \<in> {Looping, Draining} \<Longrightarrow> life_ok (w\<lparr>input := rest, batch := batch w @ [r]\<rparr>)"
  by (auto simp: life_ok_def)

lemma inv_receive:
  "writer_inv w \<Longrightarrow> input w = r # rest \<Longrightarrow> loop_pc w \<in> {Looping, Draining}
   \<Longrightarrow> writer_inv (w\<lparr>input := rest, batch := batch w @ [r]\<rparr>)"
  by (simp add: writer_inv_def flow_receive life_receive close_ok_def err_ok_def)

lemma writer_invD:
  assumes "writer_inv w"
  shows "flow_ok w" "life_ok w" "close_ok w" "err_ok w"
  using assms by (simp_all add: writer_inv_def)

lemma writer_invI: "flow_ok w \<Longrightarrow> life_ok w \<Longrightarrow> close_ok w \<Longrightarrow> err_ok w \<Longrightarrow> writer_inv w"
  by (simp add: writer_inv_def)

lemma inv_flush_or_cancel:
  assumes "writer_inv w" and "loop_pc w = Looping"
  shows "writer_inv (flush_or_cancel merge out w)"
proof (rule writer_invI)
  note inv = writer_invD [OF assms(1)]
  show "flow_ok (flush_or_cancel merge out w)"
    by (rule flow_flush_or_cancel [OF inv(1)]) (simp add: assms(2))
  show "life_ok (flush_or_cancel merge out w)"
    by (rule life_flush_or_cancel [OF inv(2) assms(2)])
  show "close_ok (flush_or_cancel merge out w)"
    unfolding flush_or_cancel_eq close_ctx by (rule close_flush [OF inv(3,1)]) (simp add: assms(2))
  show "err_ok (flush_or_cancel merge out w)"
    unfolding flush_or_cancel_eq close_ctx by (rule err_flush [OF inv(4)])
qed

lemma inv_flush_and_end:
  assumes "writer_inv w" and "loop_pc w = Looping \<and> chan_closed w \<or> loop_pc w = Draining" and "input w = []"
  shows "writer_inv (flush_and_end merge out w)"
proof (rule writer_invI)
  note inv = writer_invD [OF assms(1)]
  have pc: "loop_pc w \<noteq> NotRunning" "loop_pc w \<noteq> Ended" using assms(2) by auto
  show "flow_ok (flush_and_end merge out w)" by (rule flow_flush_and_end [OF inv(1) pc(1)])
  show "life_ok (flush_and_end merge out w)" by (rule life_flush_and_end [OF inv(2) assms(2,3)])
  show "close_ok (flush_and_end merge out w)"
    unfolding flush_and_end_def by (rule close_end(1) [OF close_flush [OF inv(3,1) pc(2)]])
  show "err_ok (flush_and_end merge out w)"
    unfolding flush_and_end_def by (rule close_end(2) [OF err_flush [OF inv(4)]])
qed

lemma inv_cancel:
  assumes "writer_inv w" and "loop_pc w = Looping" and "ctx_cancelled w"
  shows "writer_inv (w\<lparr>loop_pc := Draining\<rparr>)"
proof (rule writer_invI)
  note inv = writer_invD [OF assms(1)]
  show "flow_ok (w\<lparr>loop_pc := Draining\<rparr>)" using inv(1) assms(2) by (auto simp: flow_ok_def)
  show "life_ok (w\<lparr>loop_pc := Draining\<rparr>)" using inv(2) assms(2,3) by (auto simp: life_ok_def)
  show "close_ok (w\<lparr>loop_pc := Draining\<rparr>)" using inv(3) assms(2) by (simp add: close_ok_def)
  show "err_ok (w\<lparr>loop_pc := Draining\<rparr>)" using inv(4) by (simp add: err_ok_def)
qed

lemma loop_ok: "loop_step merge w w' \<Longrightarrow> writer_inv w \<Longrightarrow> writer_inv w'"
proof (induction rule: loop_step.induct)
  case (l_receive_full w r rest out)
  then have "writer_inv (w\<lparr>input := rest, batch := batch w @ [r]\<rparr>)" by (intro inv_receive) simp_all
  then show ?case by (rule inv_flush_or_cancel) (simp add: l_receive_full(1))
qed (simp_all add: inv_receive inv_flush_and_end inv_cancel)

lemma client_flow: "client_step merge w w' \<Longrightarrow> flow_ok w \<Longrightarrow> life_ok w \<Longrightarrow> flow_ok w'"
proof (induction rule: client_step.induct)
  case (s_launch w)
  then show ?case using good_empty by (auto simp: flow_ok_def life_ok_def)
next
  case (t_tick w out)
  then show ?case by (simp add: flow_flush_or_cancel)
qed (auto simp: flow_ok_def)

lemma client_life: "client_step merge w w' \<Longrightarrow> life_ok w \<Longrightarrow> life_ok w'"
proof (induction rule: client_step.induct)
  case (w_lock r w)
  then show ?case by (cases "started w") (auto simp: life_ok_def)
next
  case (w_send r w)
  then show ?case by (cases "started w"; cases "chan_closed w") (auto simp: life_ok_def)
next
  case (t_tick w out)
  then show ?case by (simp add: life_flush_or_cancel)
qed (auto simp: life_ok_def)

lemma client_close: "client_step merge w w' \<Longrightarrow> close_ok w \<Longrightarrow> flow_ok w \<Longrightarrow> life_ok w \<Longrightarrow> close_ok w'"
proof (induction rule: client_step.induct)
  case (w_send r w)
  then show ?case by (cases "started w"; cases "chan_closed w") (auto simp: close_ok_def life_ok_def)
next
  case (t_tick w out)
  then show ?case using close_flush [of w out] by (simp add: flush_or_cancel_eq)
next
  case (s_launch w)
  then show ?case by (auto simp: close_ok_def life_ok_def)
qed (auto simp: close_ok_def life_ok_def)

lemma client_err: "client_step merge w w' \<Longrightarrow> err_ok w \<Longrightarrow> err_ok w'"
proof (induction rule: client_step.induct)
  case (t_tick w out)
  then show ?case using err_flush [of w out] by (simp add: flush_or_cancel_eq)
qed (auto simp: err_ok_def)

lemma client_ok: "client_step merge w w' \<Longrightarrow> writer_inv w \<Longrightarrow> writer_inv w'"
  using client_flow client_life client_close client_err unfolding writer_inv_def by blast

lemma writer_ok: "writer_step merge w w' \<Longrightarrow> writer_inv w \<Longrightarrow> writer_inv w'"
  by (cases rule: writer_step.cases) (auto dest: loop_ok client_ok)

lemma new_writer_ok: "writer_inv (new_writer bs cs ig stale)"
  by (simp add: writer_inv_def flow_ok_def life_ok_def close_ok_def err_ok_def new_writer_def)

lemma step_ignoreErr: "writer_step merge w w' \<Longrightarrow> ignoreErr w' = ignoreErr w"
proof (induction rule: writer_step.induct)
  case (by_loop w w')
  then show ?case by cases (simp_all add: flush_or_cancel_eq flush_and_end_def)
next
  case (by_client w w')
  then show ?case by cases (simp_all add: flush_or_cancel_eq)
qed

lemma reach_ignoreErr:
  "reach (\<lambda>w. w = new_writer bs cs ig stale) (writer_step merge) w \<Longrightarrow> ignoreErr w = ig"
  by (induction rule: reach.induct) (auto simp: new_writer_def dest: step_ignoreErr)

lemma loop_step_decreases: "loop_step merge w w' \<Longrightarrow> loop_left w' < loop_left w"
  by (induction rule: loop_step.induct) (simp_all add: loop_left_def flush_or_cancel_eq flush_and_end_def)

lemma client_step_closed:
  "client_step merge w w' \<Longrightarrow> writer_inv w \<Longrightarrow> chan_closed w \<Longrightarrow> chan_closed w' \<and> loop_left w' \<le> loop_left w"
  by (induction rule: client_step.induct)
    (auto simp: flush_or_cancel_eq loop_left_def writer_inv_def life_ok_def)

lemma closed_step:
  "writer_step merge w w' \<Longrightarrow> writer_inv w \<Longrightarrow> chan_closed w \<Longrightarrow> chan_closed w' \<and> loop_left w' \<le> loop_left w"
proof (induction rule: writer_step.induct)
  case (by_loop w w')
  then have "chan_closed w'" by cases (simp_all add: flush_or_cancel_eq flush_and_end_def)
  with loop_step_decreases [OF by_loop(1)] show ?case by simp
qed (simp add: client_step_closed)

lemma closed_run:
  "(writer_step merge)\<^sup>*\<^sup>* w w' \<Longrightarrow> writer_inv w \<Longrightarrow> chan_closed w
   \<Longrightarrow> writer_inv w' \<and> chan_closed w' \<and> loop_left w' \<le> loop_left w"
proof (induction rule: rtranclp_induct)
  case (step y z)
  then show ?case using writer_ok [OF step(2)] closed_step [OF step(2)] by auto
qed simp

lemma loop_can_step:
  "loop_pc w \<in> {Looping, Draining} \<Longrightarrow> chan_closed w \<Longrightarrow> \<exists>w'. loop_step merge w w'"
proof (cases "input w")
  case Nil
  assume "loop_pc w \<in> {Looping, Draining}" "chan_closed w"
  with Nil show ?thesis using l_closed [of w merge None] l_drained [of w merge None] by auto
next
  case (Cons r rest)
  assume "loop_pc w \<in> {Looping, Draining}"
  with Cons show ?thesis
    using l_drain [of w r rest merge] l_receive [of w r rest merge] l_receive_full [of w r rest merge None]
    by (cases "length (batch w @ [r]) < BatchSizeW w") (auto simp: not_less)
qed

text \<open>Where \<open>Close\<close> has returned without an error, nothing accepted is missing.\<close>

lemma closed_clean:
  assumes "writer_inv w" and "closing w = Returned None" and "loop_pc w = Ended"
    and "\<not> ignoreErr w" and "\<not> parent_cancelled w"
  shows "persisted w = accepted w \<and> good (set (accepted w)) (rows w)
    \<and> statWritten w = of_nat (length (accepted w))"
proof -
  have "\<not> flush_failed w"
    using assms(1,2,4) unfolding writer_inv_def close_ok_def err_ok_def by blast
  moreover from this have "input w = []" "batch w = []"
    using assms(1,3,5) by (auto simp: writer_inv_def life_ok_def)
  ultimately show ?thesis using assms(1,3) by (auto simp: writer_inv_def flow_ok_def)
qed

end

sublocale result_store < store_sys: invariant_system
  "\<lambda>w. w = new_writer bs cs ig stale" "writer_step merge" writer_inv
  for bs cs ig stale
  by unfold_locales (auto simp: new_writer_ok dest: writer_ok)

subsection \<open>The store of the program\<close>

definition file_good :: "('r \<Rightarrow> string) \<Rightarrow> ('r \<Rightarrow> nat) \<Rightarrow> 'r set \<Rightarrow> 'r list option \<Rightarrow> bool" where
  "file_good key rank A f \<longleftrightarrow> (case f of None \<Rightarrow> A = {} | Some rs \<Rightarrow> best_of_each key rank A rs)"

interpretation csv_store: result_store "mergeResults key rank Some" "file_good key rank" for key rank
proof
  show "file_good key rank {} None" by (simp add: file_good_def)
  show "file_good key rank (A \<union> set rs) (mergeResults key rank Some f rs)"
    if "file_good key rank A f" "rs \<noteq> []" for A f rs
  proof (cases f)
    case None
    with that show ?thesis
      using dedup_best [of key rank rs] by (simp add: file_good_def mergeResults_def Let_def)
  next
    case (Some stored)
    with that have "best_of_each key rank A stored" by (simp add: file_good_def)
    from merge_best [OF this _ that(2), of Some]
    obtain new where "mergeResults key rank Some (Some stored) rs = Some new"
      "best_of_each key rank (A \<union> set rs) new" by auto
    with Some show ?thesis by (simp add: file_good_def)
  qed
qed


text \<open>C13. \<open>Close\<close> ends: from the moment it has closed the channel of a writer whose loop runs, no
  call sends on the closed channel, whatever the other goroutines do the loop always has a step
  to take until it has ended, and it takes at most two more steps than there are results in the
  channel, whether flushes fail or not.\<close>

theorem close_ends_loop:
  assumes "reach (\<lambda>w. w = new_writer bs cs ig stale) (writer_step (mergeResults key rank Some)) w"
    and "chan_closed w" and "loop_pc w \<noteq> NotRunning"
    and "(writer_step (mergeResults key rank Some))\<^sup>*\<^sup>* w w'"
  shows "holders w' = [] \<and> loop_left w' \<le> length (input w) + 2
    \<and> (loop_pc w' \<in> {Looping, Draining} \<longrightarrow> (\<exists>v. loop_step (mergeResults key rank Some) w' v))
    \<and> (\<forall>v. loop_step (mergeResults key rank Some) w' v \<longrightarrow> loop_left v < loop_left w')
    \<and> (loop_left w' = 0 \<longrightarrow> loop_pc w' = Ended)"
proof -
  note run = csv_store.closed_run [OF assms(4) csv_store.store_sys.reach_inv [OF assms(1)] assms(2)]
  have "holders w' = []" using run by (auto simp: csv_store.writer_inv_def csv_store.life_ok_def)
  moreover have "loop_left w' \<le> length (input w) + 2"
    using run pc_left_bounds(1) [of "loop_pc w" "length (input w)"] by (simp add: loop_left_def)
  moreover have "loop_left w' = 0 \<longrightarrow> loop_pc w' = Ended" by (simp add: loop_left_def pc_left_bounds)
  ultimately show ?thesis
    using run csv_store.loop_can_step [of w'] csv_store.loop_step_decreases [of key rank w'] by blast
qed

subsection \<open>Runs\<close>

lemma clean_run:
  "\<exists>w :: (string \<times> nat, unit) writer.
     reach (\<lambda>w. w = new_writer 1 1 False None) (writer_step (mergeResults fst snd Some)) w
     \<and> closing w = Returned None \<and> loop_pc w = Ended \<and> \<not> parent_cancelled w \<and> accepted w = [(''a'', 1)]"
proof -
  define w0 :: "(string \<times> nat, unit) writer" where "w0 = new_writer 1 1 False None"
  define w1 where "w1 = w0\<lparr>loop_pc := Looping, rows := None\<rparr>"
  define w2 where "w2 = w1\<lparr>started := True\<rparr>"
  define w3 where "w3 = w2\<lparr>checked := checked w2 @ [(''a'', 1)]\<rparr>"
  define w4 where "w4 = w3\<lparr>checked := remove1 (''a'', 1) (checked w3), holders := holders w3 @ [(''a'', 1)]\<rparr>"
  define w5 where "w5 = w4\<lparr>holders := remove1 (''a'', 1) (holders w4), input := input w4 @ [(''a'', 1)], accepted := accepted w4 @ [(''a'', 1)]\<rparr>"
  define w6 where "w6 = w5\<lparr>closing := Waiting, chan_closed := True\<rparr>"
  define w7 where "w7 = w6\<lparr>input := [], batch := [], handled := [(''a'', 1)], rows := mergeResults fst snd Some (rows w6) [(''a'', 1)],
    statFlushes := statFlushes w6 + 1, statWritten := statWritten w6 + 1, persisted := [(''a'', 1)]\<rparr>"
  define w8 where "w8 = w7\<lparr>ctx_cancelled := True, loop_pc := Ended\<rparr>"
  define w9 where "w9 = w8\<lparr>closing := Returned (firstErr w8)\<rparr>"
  note defs = w9_def w8_def w7_def w6_def w5_def w4_def w3_def w2_def w1_def w0_def new_writer_def
  let ?reach = "reach (\<lambda>w. w = w0) (writer_step (mergeResults fst snd Some))"
  note run = reach_step [where init = "\<lambda>w. w = w0" and step = "writer_step (mergeResults fst snd Some)"]
  have r0: "?reach w0" by (rule reach_init) simp
  have r1: "?reach w1" using run [OF r0 by_client [OF s_launch [of w0]]] by (simp add: defs)
  have r2: "?reach w2" using run [OF r1 by_client [OF s_store [of w1]]] by (simp add: defs)
  have r3: "?reach w3" using run [OF r2 by_client [OF w_check [of w2 _ "(''a'', 1)"]]] by (simp add: defs)
  have r4: "?reach w4" using run [OF r3 by_client [OF w_lock [of "(''a'', 1)" w3]]] by (simp add: defs)
  have r5: "?reach w5" using run [OF r4 by_client [OF w_send [of "(''a'', 1)" w4]]] by (simp add: defs)
  have r6: "?reach w6" using run [OF r5 by_client [OF c_close [of w5]]] by (simp add: defs)
  have r7: "?reach w7" using run [OF r6 by_loop [OF l_receive_full [of w6 "(''a'', 1)" "[]" _ None]]] by (simp add: defs flush_or_cancel_def flush_def Let_def)
  have r8: "?reach w8" using run [OF r7 by_loop [OF l_closed [of w7 _ None]]] by (simp add: defs flush_or_cancel_def flush_and_end_def flush_def Let_def)
  have r9: "?reach w9" using run [OF r8 by_client [OF c_return [of w8]]] by (simp add: defs)
  have "closing w9 = Returned None \<and> loop_pc w9 = Ended \<and> \<not> parent_cancelled w9 \<and> accepted w9 = [(''a'', 1)]"
    by (simp add: defs)
  with r9 show ?thesis unfolding w0_def by blast
qed


lemma close_ends_loop_witness:
  "\<exists>w :: (string \<times> nat, unit) writer. chan_closed w \<and> holders w = [] \<and> loop_left w \<le> length (input w) + 2"
proof -
  obtain w :: "(string \<times> nat, unit) writer" where
    w: "reach (\<lambda>w. w = new_writer 1 1 False None) (writer_step (mergeResults fst snd Some)) w"
      "closing w = Returned None" "loop_pc w = Ended"
    using clean_run by blast
  have "chan_closed w"
    using csv_store.store_sys.reach_inv [OF w(1)] w(2)
    by (simp add: csv_store.writer_inv_def csv_store.life_ok_def)
  with close_ends_loop [OF w(1) this _ rtranclp.rtrancl_refl] w(3) show ?thesis by (intro exI [of _ w]) simp
qed

lemma lost_run:
  "\<exists>w :: (string \<times> nat, unit) writer.
     reach (\<lambda>w. w = new_writer 1 1 False None) (writer_step (mergeResults fst snd Some)) w
     \<and> accepted w = [(''a'', 1)] \<and> persisted w = [] \<and> loop_pc w = Ended \<and> closing w = Returned None"
proof -
  define w0 :: "(string \<times> nat, unit) writer" where "w0 = new_writer 1 1 False None"
  define w1 where "w1 = w0\<lparr>loop_pc := Looping, rows := None\<rparr>"
  define w2 where "w2 = w1\<lparr>started := True\<rparr>"
  define w3 where "w3 = w2\<lparr>checked := checked w2 @ [(''a'', 1)]\<rparr>"
  define w4 where "w4 = w3\<lparr>checked := remove1 (''a'', 1) (checked w3), holders := holders w3 @ [(''a'', 1)]\<rparr>"
  define w5 where "w5 = w4\<lparr>ctx_cancelled := True, parent_cancelled := True\<rparr>"
  define w6 where "w6 = w5\<lparr>loop_pc := Draining\<rparr>"
  define w7 where "w7 = w6\<lparr>ctx_cancelled := True, loop_pc := Ended\<rparr>"
  define w8 where "w8 = w7\<lparr>holders := remove1 (''a'', 1) (holders w7), input := input w7 @ [(''a'', 1)], accepted := accepted w7 @ [(''a'', 1)]\<rparr>"
  define w9 where "w9 = w8\<lparr>closing := Waiting, chan_closed := True\<rparr>"
  define w10 where "w10 = w9\<lparr>closing := Returned (firstErr w9)\<rparr>"
  note defs = w10_def w9_def w8_def w7_def w6_def w5_def w4_def w3_def w2_def w1_def w0_def new_writer_def
  let ?reach = "reach (\<lambda>w. w = w0) (writer_step (mergeResults fst snd Some))"
  note run = reach_step [where init = "\<lambda>w. w = w0" and step = "writer_step (mergeResults fst snd Some)"]
  have r0: "?reach w0" by (rule reach_init) simp
  have r1: "?reach w1" using run [OF r0 by_client [OF s_launch [of w0]]] by (simp add: defs)
  have r2: "?reach w2" using run [OF r1 by_client [OF s_store [of w1]]] by (simp add: defs)
  have r3: "?reach w3" using run [OF r2 by_client [OF w_check [of w2 _ "(''a'', 1)"]]] by (simp add: defs)
  have r4: "?reach w4" using run [OF r3 by_client [OF w_lock [of "(''a'', 1)" w3]]] by (simp add: defs)
  have r5: "?reach w5" using run [OF r4 by_client [OF p_cancel [of _ w4]]] by (simp add: defs)
  have r6: "?reach w6" using run [OF r5 by_loop [OF l_cancel [of w5]]] by (simp add: defs)
  have r7: "?reach w7" using run [OF r6 by_loop [OF l_drained [of w6 _ None]]] by (simp add: defs flush_and_end_def flush_def Let_def)
  have r8: "?reach w8" using run [OF r7 by_client [OF w_send [of "(''a'', 1)" w7]]] by (simp add: defs)
  have r9: "?reach w9" using run [OF r8 by_client [OF c_close [of w8]]] by (simp add: defs)
  have r10: "?reach w10" using run [OF r9 by_client [OF c_return [of w9]]] by (simp add: defs)
  have "accepted w10 = [(''a'', 1)] \<and> persisted w10 = [] \<and> loop_pc w10 = Ended \<and> closing w10 = Returned None"
    by (simp add: defs)
  with r10 show ?thesis unfolding w0_def by blast
qed

text \<open>After a cancellation \<open>Write\<close> can return nil for a result that is lost: a call that has
  passed the check of the context waits in its \<open>select\<close>, the loop drains, flushes and ends, and
  then the \<open>select\<close> takes the send, because the channel still has room. \<open>Close\<close> returns nil too.\<close>

theorem accepted_result_lost:
  "\<exists>w :: (string \<times> nat, unit) writer.
     reach (\<lambda>w. w = new_writer 1 1 False None) (writer_step (mergeResults fst snd Some)) w
     \<and> accepted w = [(''a'', 1)] \<and> persisted w = [] \<and> loop_pc w = Ended \<and> closing w = Returned None"
  by (rule lost_run)

end
