(* ===== verification/ResultRecords.thy ===== *)
theory ResultRecords
  imports NetAddr
begin

text \<open>
  Scan results as stored rows: \<open>FormatDuration\<close> (\<open>internal/core/result/format.go\<close>), the parsers of
  names in \<open>internal/core/dns/types.go\<close>, and for every probe its result, \<open>ToRecord\<close>, \<open>Score\<close> and
  the parser of its schema (\<open>internal/core/scanner/probe/*/result.go\<close>). Of the standard library
  \<open>time.ParseDuration\<close>, \<open>Duration.Round\<close> and \<open>fmt.Sscanf\<close> with one \<open>%d\<close> are modelled; the
  fraction of a duration is computed exactly, where Go uses floats. \<open>%.2f\<close> of a quotient is its
  nearest hundredth; which way an exact tie goes depends on the binary float and is the
  parameter \<open>up\<close>. \<open>Score\<close> is \<open>1000 / ms\<close>, so a result with fewer milliseconds has the larger
  score: the rank of a result is that divisor.
\<close>

text \<open>What a column of a result holds (\<open>result/type.go\<close>).\<close>

datatype ColumnType = ColumnText | ColumnIP | ColumnDuration | ColumnBandwidth

subsection \<open>Standard library\<close>

definition show_int :: "int \<Rightarrow> string" where
  "show_int i = (if i < 0 then ''-'' @ show_nat (nat (- i)) else show_nat (nat i))"

text \<open>\<open>Sscanf(s, "%d", &x)\<close> into an \<open>int\<close> and into a \<open>uint16\<close>: leading blanks, then digits; what
  follows them is ignored.\<close>

definition skip_blanks :: "string \<Rightarrow> string" where
  "skip_blanks s = dropWhile (\<lambda>c. c \<in> {CHR 0x09, CHR 0x0B, CHR 0x0C, CHR 0x0D, CHR 0x20}) s"

definition sscanf_int :: "string \<Rightarrow> int option" where
  "sscanf_int s =
     (let t = skip_blanks s;
          (neg, u) = (case t of c # v \<Rightarrow> if c = CHR ''-'' then (True, v)
                                 else if c = CHR ''+'' then (False, v) else (False, t)
                      | [] \<Rightarrow> (False, []));
          ds = takeWhile is_digit u;
          x = (if neg then - int (dec_val ds) else int (dec_val ds))
      in if ds = [] \<or> \<not> in_int64 x then None else Some x)"

definition sscanf_uint16 :: "string \<Rightarrow> u16 option" where
  "sscanf_uint16 s =
     (let ds = takeWhile is_digit (skip_blanks s)
      in if ds = [] \<or> 65535 < dec_val ds then None else Some (of_nat (dec_val ds)))"

text \<open>\<open>strconv.ParseUint(s, 10, 16)\<close> and \<open>strconv.ParseBool\<close>.\<close>

definition parse_uint16 :: "string \<Rightarrow> u16 option" where
  "parse_uint16 s =
     (if s = [] \<or> \<not> list_all is_digit s \<or> 65535 < dec_val s then None else Some (of_nat (dec_val s)))"

definition parse_bool :: "string \<Rightarrow> bool option" where
  "parse_bool s =
     (if s \<in> {''1'', ''t'', ''T'', ''true'', ''TRUE'', ''True''} then Some True
      else if s \<in> {''0'', ''f'', ''F'', ''false'', ''FALSE'', ''False''} then Some False
      else None)"

definition show_bool :: "bool \<Rightarrow> string" where
  "show_bool b = (if b then ''true'' else ''false'')"

subsection \<open>Durations as text\<close>

definition unit_ns :: "string \<Rightarrow> nat option" where
  "unit_ns u =
     (if u = ''ns'' then Some 1
      else if u = ''us'' \<or> u = [CHR 0xC2, CHR 0xB5] @ ''s'' \<or> u = [CHR 0xCE, CHR 0xBC] @ ''s'' then Some 1000
      else if u = ''ms'' then Some 1000000
      else if u = ''s'' then Some 1000000000
      else if u = ''m'' then Some 60000000000
      else if u = ''h'' then Some 3600000000000
      else None)"

text \<open>\<open>leadingFraction\<close>: digits beyond 63 bits are dropped.\<close>

fun lead_frac :: "nat \<Rightarrow> nat \<Rightarrow> string \<Rightarrow> nat \<times> nat" where
  "lead_frac x scale [] = (x, scale)"
| "lead_frac x scale (c # cs) =
     (let y = x * 10 + digit_val c
      in if (2 ^ 63 - 1) div 10 < x \<or> 2 ^ 63 < y then (x, scale) else lead_frac y (scale * 10) cs)"

definition unit_char :: "char \<Rightarrow> bool" where
  "unit_char c \<longleftrightarrow> c \<noteq> CHR ''.'' \<and> \<not> is_digit c"

lemma dropWhile_shrinks: "takeWhile P s \<noteq> [] \<Longrightarrow> length (dropWhile P s) < length s"
  by (cases s) (auto simp: length_dropWhile_le less_Suc_eq_le split: if_splits)

lemma dur_rest:
  assumes "takeWhile unit_char s2 \<noteq> []" and "s2 = (if point then dropWhile is_digit (tl s1) else s1)"
    and "s1 = dropWhile is_digit s"
  shows "length (dropWhile unit_char s2) < length s"
proof -
  have "length (dropWhile unit_char s2) < length s2" by (rule dropWhile_shrinks [OF assms(1)])
  also have "length s2 \<le> length s1"
    using assms(2) length_dropWhile_le [of is_digit "tl s1"] by (cases point) auto
  also have "length s1 \<le> length s" by (simp add: assms(3) length_dropWhile_le)
  finally show ?thesis .
qed

function dur_loop :: "nat \<Rightarrow> string \<Rightarrow> nat option" where
  "dur_loop d s =
     (if s = [] then Some d
      else let ds = takeWhile is_digit s; s1 = dropWhile is_digit s; v = dec_val ds;
               point = (s1 \<noteq> [] \<and> hd s1 = CHR ''.'');
               fs = (if point then takeWhile is_digit (tl s1) else []);
               s2 = (if point then dropWhile is_digit (tl s1) else s1);
               u = takeWhile unit_char s2; s3 = dropWhile unit_char s2
           in if 2 ^ 63 < v \<or> (ds = [] \<and> fs = []) \<or> u = [] then None
              else case unit_ns u of
                     None \<Rightarrow> None
                   | Some k \<Rightarrow>
                       let (f, scale) = lead_frac 0 1 fs; w = v * k + f * k div scale
                       in if 2 ^ 63 div k < v \<or> 2 ^ 63 < w \<or> 2 ^ 63 < d + w then None
                          else dur_loop (d + w) s3)"
  by pat_completeness auto
termination
proof (relation "measure (\<lambda>(d, s). length s)", goal_cases)
  case (2 d s ds s1 v point fs s2 u s3)
  from 2(10) have "u \<noteq> []" by blast
  then have "length (dropWhile unit_char s2) < length s"
    using dur_rest [OF _ 2(7) 2(3)] 2(8) by blast
  then show ?case unfolding 2(9) in_measure case_prod_conv .
qed simp

declare dur_loop.simps [simp del]

definition ParseDuration :: "string \<Rightarrow> int option" where
  "ParseDuration s =
     (let (neg, t) = (case s of c # u \<Rightarrow> if c = CHR ''-'' then (True, u)
                                 else if c = CHR ''+'' then (False, u) else (False, s)
                      | [] \<Rightarrow> (False, []))
      in if t = ''0'' then Some 0
         else if t = [] then None
         else case dur_loop 0 t of
                None \<Rightarrow> None
              | Some d \<Rightarrow> if neg then Some (- int d) else if 2 ^ 63 - 1 < d then None else Some (int d))"

text \<open>\<open>Round(time.Millisecond)\<close>: to the nearest multiple, halves away from zero, saturating.\<close>

definition round_ms :: "int \<Rightarrow> int" where
  "round_ms d =
     (let r = sgn d * (\<bar>d\<bar> mod 1000000)
      in if d < 0 then
           (if (- r) + (- r) < 1000000 then d - r
            else if - (2 ^ 63) \<le> d - 1000000 - r then d - 1000000 - r else - (2 ^ 63))
         else if r + r < 1000000 then d - r
         else if d + (1000000 - r) < 2 ^ 63 then d + (1000000 - r) else 2 ^ 63 - 1)"

definition hundredths :: "(nat \<Rightarrow> nat \<Rightarrow> bool) \<Rightarrow> nat \<Rightarrow> nat \<Rightarrow> nat" where
  "hundredths up n unit =
     (let q = n * 100 div unit; r = n * 100 mod unit
      in if 2 * r < unit then q else if unit < 2 * r then q + 1 else if up n unit then q + 1 else q)"

definition show_2f :: "nat \<Rightarrow> string" where
  "show_2f h = show_nat (h div 100) @ ''.'' @ [char_of (48 + h div 10 mod 10), char_of (48 + h mod 10)]"

definition Microseconds :: "int \<Rightarrow> int" where
  "Microseconds d = sgn d * (\<bar>d\<bar> div 1000)"

definition FormatDuration :: "(nat \<Rightarrow> nat \<Rightarrow> bool) \<Rightarrow> int \<Rightarrow> string" where
  "FormatDuration up d =
     (let us = Microseconds d
      in if 1000000 \<le> us then show_2f (hundredths up (nat us) 1000000) @ ''s''
         else if 1000 \<le> us then show_2f (hundredths up (nat us) 1000) @ ''ms''
         else show_int us @ [CHR 0xC2, CHR 0xB5] @ ''s'')"

text \<open>The divisor of \<open>Score\<close>.\<close>

definition score_ms :: "int \<Rightarrow> nat" where
  "score_ms latency = nat (max 1 (sgn latency * (\<bar>latency\<bar> div 1000000)))"

text \<open>What the parsers make of a latency that rounds to milliseconds.\<close>

definition read_latency :: "int \<Rightarrow> int" where
  "read_latency latency = max 1000000 (round_ms latency)"

subsection \<open>Names\<close>

definition ParseResolverType :: "string \<Rightarrow> string" where
  "ParseResolverType s =
     (let t = to_lower (trim_space s)
      in if t = ''tcp'' then ''tcp'' else if t = ''dot'' then ''dot'' else if t = ''udp'' then ''udp''
         else ''udp'')"

definition ParseRecordType :: "string \<Rightarrow> string" where
  "ParseRecordType s =
     (let t = to_upper (trim_space s)
      in if t \<in> {''A'', ''AAAA'', ''CNAME'', ''NS'', ''MX'', ''TXT'', ''SRV'', ''NULL'', ''CAA''} then t else [])"

definition ParseAuthMethod :: "string \<Rightarrow> string" where
  "ParseAuthMethod s =
     (let t = to_lower (trim_space s)
      in if t = ''password'' then ''password'' else if t = ''key'' then ''key''
         else if t = ''none'' then ''none'' else ''none'')"

definition ParseResolverProxyType :: "string \<Rightarrow> string" where
  "ParseResolverProxyType s =
     (let t = to_lower (trim_space s) in if t = ''socks'' then ''socks'' else if t = ''ssh'' then ''ssh'' else [])"

definition EncMethod_String :: "int \<Rightarrow> string" where
  "EncMethod_String e =
     (if e = 0 then ''None'' else if e = 1 then ''XOR'' else if e = 2 then ''ChaCha20''
      else if e = 3 then ''AES-128-GCM'' else if e = 4 then ''AES-192-GCM''
      else if e = 5 then ''AES-256-GCM'' else ''Unknown'')"

definition ParseEncMethod :: "string \<Rightarrow> int" where
  "ParseEncMethod s =
     (let t = to_upper (trim_space s)
      in if t = ''NONE'' then 0 else if t = ''CHACHA20'' then 2 else if t = ''AES-128-GCM'' then 3
         else if t = ''AES-192-GCM'' then 4 else if t = ''AES-256-GCM'' then 5 else 1)"

definition normalizeQueryType :: "string \<Rightarrow> string" where
  "normalizeQueryType s = (let t = to_upper (trim_space s) in if t = [] then ''TXT'' else t)"

subsection \<open>Results\<close>

text \<open>The parsers return the record or fail; \<open>rec ! i\<close> is only read below the checked length.\<close>

record TCPResult =
  TcpIP :: addr
  TcpPortR :: u16
  TcpLatency :: int
  TcpTriesR :: int

definition tcp_ToRecord :: "(nat \<Rightarrow> nat \<Rightarrow> bool) \<Rightarrow> TCPResult \<Rightarrow> string list" where
  "tcp_ToRecord up r =
     [show_addr (TcpIP r), FormatDuration up (TcpLatency r),
      (if TcpPortR r \<noteq> 0 then show_nat (unat (TcpPortR r)) else ''-''),
      show_int (if TcpTriesR r \<noteq> 0 then TcpTriesR r else 1)]"

definition parseTCPResult :: "string list \<Rightarrow> TCPResult option" where
  "parseTCPResult rec =
     (if length rec < 3 then None
      else case ParseAddr (rec ! 0) of None \<Rightarrow> None | Some ip \<Rightarrow>
        (case ParseDuration (rec ! 1) of None \<Rightarrow> None | Some latency \<Rightarrow>
          (let port = (case parse_uint16 (rec ! 2) of None \<Rightarrow> 0 | Some p \<Rightarrow> p)
           in case (if 4 \<le> length rec then sscanf_int (rec ! 3) else Some 0) of
                None \<Rightarrow> None
              | Some tries \<Rightarrow> Some \<lparr>TcpIP = ip, TcpPortR = port, TcpLatency = read_latency latency,
                                     TcpTriesR = max 1 tries\<rparr>)))"

record ICMPResult =
  IcmpIP :: addr
  IcmpLatency :: int
  IcmpTriesR :: int
  IcmpMode :: string

definition icmp_ToRecord :: "(nat \<Rightarrow> nat \<Rightarrow> bool) \<Rightarrow> ICMPResult \<Rightarrow> string list" where
  "icmp_ToRecord up r =
     [show_addr (IcmpIP r), FormatDuration up (IcmpLatency r),
      show_int (if IcmpTriesR r \<noteq> 0 then IcmpTriesR r else 1), IcmpMode r]"

definition parseICMPResult :: "string list \<Rightarrow> ICMPResult option" where
  "parseICMPResult rec =
     (if length rec < 2 then None
      else case ParseAddr (rec ! 0) of None \<Rightarrow> None | Some ip \<Rightarrow>
        (case ParseDuration (rec ! 1) of None \<Rightarrow> None | Some latency \<Rightarrow>
          (case (if 4 \<le> length rec then sscanf_int (rec ! 2) else Some 0) of
             None \<Rightarrow> None
           | Some tries \<Rightarrow> Some \<lparr>IcmpIP = ip, IcmpLatency = read_latency latency, IcmpTriesR = max 1 tries,
                                  IcmpMode = (if 4 \<le> length rec then rec ! 3 else [])\<rparr>)))"

record HTTPResult =
  HttpIP :: addr
  StatusCode :: int
  HTTPVersion :: string
  UseTLS :: bool
  HttpLatency :: int

definition http_ToRecord :: "(nat \<Rightarrow> nat \<Rightarrow> bool) \<Rightarrow> HTTPResult \<Rightarrow> string list" where
  "http_ToRecord up r =
     [show_addr (HttpIP r), FormatDuration up (HttpLatency r),
      (if StatusCode r \<noteq> 0 then show_int (StatusCode r) else ''-''), HTTPVersion r,
      (if StatusCode r \<noteq> 0 then show_bool (UseTLS r) else ''-'')]"

definition parseHTTPResult :: "string list \<Rightarrow> HTTPResult option" where
  "parseHTTPResult rec =
     (if length rec < 2 then None
      else case ParseDuration (rec ! 1) of None \<Rightarrow> None | Some latency \<Rightarrow>
        (case ParseAddr (rec ! 0) of None \<Rightarrow> None | Some ip \<Rightarrow>
          (if 4 < length rec then
             (case atoi (rec ! 2) of None \<Rightarrow> None | Some status \<Rightarrow>
               (case parse_bool (rec ! 4) of None \<Rightarrow> None | Some tls \<Rightarrow>
                 Some \<lparr>HttpIP = ip, StatusCode = status, HTTPVersion = rec ! 3, UseTLS = tls,
                       HttpLatency = read_latency latency\<rparr>))
           else Some \<lparr>HttpIP = ip, StatusCode = 0, HTTPVersion = ''-'', UseTLS = False,
                      HttpLatency = read_latency latency\<rparr>)))"

record ResolverResult =
  ResIP :: addr
  ResLatency :: int
  RecordType :: string
  ResTriesR :: int
  Rcode :: u16
  DPIChecked :: bool

definition resolver_ToRecord :: "(nat \<Rightarrow> nat \<Rightarrow> bool) \<Rightarrow> ResolverResult \<Rightarrow> string list" where
  "resolver_ToRecord up r =
     [show_addr (ResIP r), FormatDuration up (ResLatency r), RecordType r, show_int (ResTriesR r),
      show_nat (unat (Rcode r)), (if DPIChecked r then ''passed'' else ''skipped'')]"

definition parseResolverResultLegacy :: "string list \<Rightarrow> ResolverResult option" where
  "parseResolverResultLegacy rec =
     (case ParseAddr (rec ! 0) of None \<Rightarrow> None | Some ip \<Rightarrow>
       (case ParseDuration (rec ! 1) of None \<Rightarrow> None | Some latency \<Rightarrow>
         Some \<lparr>ResIP = ip, ResLatency = read_latency latency, RecordType = ''?'', ResTriesR = 1,
               Rcode = 0, DPIChecked = False\<rparr>))"

definition parseResolverResult :: "string list \<Rightarrow> ResolverResult option" where
  "parseResolverResult rec =
     (if length rec = 2 then parseResolverResultLegacy rec
      else if length rec < 6 then None
      else case ParseAddr (rec ! 0) of None \<Rightarrow> None | Some ip \<Rightarrow>
        (case ParseDuration (rec ! 1) of None \<Rightarrow> None | Some latency \<Rightarrow>
          (case atoi (rec ! 3) of None \<Rightarrow> None | Some tries \<Rightarrow>
            (case parse_uint16 (rec ! 4) of None \<Rightarrow> None | Some rcode \<Rightarrow>
              Some \<lparr>ResIP = ip, ResLatency = read_latency latency, RecordType = rec ! 2,
                    ResTriesR = max 1 tries, Rcode = rcode, DPIChecked = (rec ! 5 = ''passed'')\<rparr>))))"

text \<open>DNSTT and VayDNS results have the same fields, records and parsers.\<close>

record TunnelResult =
  TunIP :: addr
  TunLatency :: int
  TunTransport :: string
  TunPort :: u16
  TunAuth :: string
  TunProxy :: string

definition tunnel_ToRecord :: "(nat \<Rightarrow> nat \<Rightarrow> bool) \<Rightarrow> TunnelResult \<Rightarrow> string list" where
  "tunnel_ToRecord up r =
     [show_addr (TunIP r), FormatDuration up (TunLatency r), TunTransport r, show_nat (unat (TunPort r)),
      TunAuth r, TunProxy r]"

definition parseTunnelResult :: "string list \<Rightarrow> TunnelResult option" where
  "parseTunnelResult rec =
     (if length rec < 2 then None
      else case ParseAddr (rec ! 0) of None \<Rightarrow> None | Some ip \<Rightarrow>
        (case ParseDuration (rec ! 1) of None \<Rightarrow> None | Some latency \<Rightarrow>
          (case (if 4 \<le> length rec then sscanf_uint16 (rec ! 3) else Some 0) of
             None \<Rightarrow> None
           | Some port \<Rightarrow>
               Some \<lparr>TunIP = ip, TunLatency = latency,
                     TunTransport = (if 4 \<le> length rec then ParseResolverType (rec ! 2) else []),
                     TunPort = port,
                     TunAuth = (if 6 \<le> length rec then ParseAuthMethod (rec ! 4) else ''none''),
                     TunProxy = (if 6 \<le> length rec then ParseResolverProxyType (rec ! 5) else ''socks'')\<rparr>)))"

definition VayDNS_ToRecord :: "(nat \<Rightarrow> nat \<Rightarrow> bool) \<Rightarrow> TunnelResult \<Rightarrow> string list" where
  "VayDNS_ToRecord = tunnel_ToRecord"

definition parseVayDNSResult :: "string list \<Rightarrow> TunnelResult option" where
  "parseVayDNSResult = parseTunnelResult"

record StormDNSResult =
  StormIP :: addr
  StormLatency :: int
  StormPort :: u16
  StormQuery :: string
  StormEnc :: int

definition storm_ToRecord :: "(nat \<Rightarrow> nat \<Rightarrow> bool) \<Rightarrow> StormDNSResult \<Rightarrow> string list" where
  "storm_ToRecord up r =
     [show_addr (StormIP r), FormatDuration up (StormLatency r), show_nat (unat (StormPort r)),
      normalizeQueryType (StormQuery r), EncMethod_String (StormEnc r)]"

definition parseStormDNSResult :: "string list \<Rightarrow> StormDNSResult option" where
  "parseStormDNSResult rec =
     (if length rec < 2 then None
      else case ParseAddr (rec ! 0) of None \<Rightarrow> None | Some ip \<Rightarrow>
        (case ParseDuration (rec ! 1) of None \<Rightarrow> None | Some latency \<Rightarrow>
          (case (if 3 \<le> length rec then sscanf_uint16 (rec ! 2) else Some 0) of
             None \<Rightarrow> None
           | Some port \<Rightarrow>
               Some \<lparr>StormIP = ip, StormLatency = latency, StormPort = port,
                     StormQuery = (if 4 \<le> length rec then normalizeQueryType (rec ! 3) else ''TXT''),
                     StormEnc = (if 5 \<le> length rec then ParseEncMethod (rec ! 4) else 1)\<rparr>)))"

record TheFeedResult =
  FeedIP :: addr
  FeedLatency :: int
  FeedDomain :: string
  FeedMode :: string

definition feed_ToRecord :: "(nat \<Rightarrow> nat \<Rightarrow> bool) \<Rightarrow> TheFeedResult \<Rightarrow> string list" where
  "feed_ToRecord up r =
     [show_addr (FeedIP r), FormatDuration up (FeedLatency r), FeedDomain r, FeedMode r]"

definition parseTheFeedResult :: "string list \<Rightarrow> TheFeedResult option" where
  "parseTheFeedResult rec =
     (if length rec < 4 then None
      else case ParseAddr (rec ! 0) of None \<Rightarrow> None | Some ip \<Rightarrow>
        (case ParseDuration (rec ! 1) of None \<Rightarrow> None | Some latency \<Rightarrow>
          Some \<lparr>FeedIP = ip, FeedLatency = latency, FeedDomain = rec ! 2, FeedMode = rec ! 3\<rparr>))"

record SlipstreamResult =
  SlipIP :: addr
  SlipLatency :: int
  SlipPort :: u16
  SlipAuth :: string
  SlipProxy :: string

definition slip_ToRecord :: "(nat \<Rightarrow> nat \<Rightarrow> bool) \<Rightarrow> SlipstreamResult \<Rightarrow> string list" where
  "slip_ToRecord up r =
     [show_addr (SlipIP r), FormatDuration up (SlipLatency r), show_nat (unat (SlipPort r)),
      SlipAuth r, SlipProxy r]"

definition parseSlipstreamResult :: "string list \<Rightarrow> SlipstreamResult option" where
  "parseSlipstreamResult rec =
     (if length rec < 2 then None
      else case ParseAddr (rec ! 0) of None \<Rightarrow> None | Some ip \<Rightarrow>
        (case ParseDuration (rec ! 1) of None \<Rightarrow> None | Some latency \<Rightarrow>
          (case (if 3 \<le> length rec then sscanf_uint16 (rec ! 2) else Some 0) of
             None \<Rightarrow> None
           | Some port \<Rightarrow>
               Some \<lparr>SlipIP = ip, SlipLatency = latency, SlipPort = port,
                     SlipAuth = (if 5 \<le> length rec then ParseAuthMethod (rec ! 3) else ''none''),
                     SlipProxy = (if 5 \<le> length rec then ParseResolverProxyType (rec ! 4) else ''socks'')\<rparr>)))"

record MasterDNSResult =
  MasterIP :: addr
  MasterLatency :: int
  MasterPort :: u16
  MasterEnc :: int

definition master_ToRecord :: "(nat \<Rightarrow> nat \<Rightarrow> bool) \<Rightarrow> MasterDNSResult \<Rightarrow> string list" where
  "master_ToRecord up r =
     [show_addr (MasterIP r), FormatDuration up (MasterLatency r), show_nat (unat (MasterPort r)),
      EncMethod_String (MasterEnc r)]"

definition parseMasterDNSResult :: "string list \<Rightarrow> MasterDNSResult option" where
  "parseMasterDNSResult rec =
     (if length rec < 2 then None
      else case ParseAddr (rec ! 0) of None \<Rightarrow> None | Some ip \<Rightarrow>
        (case ParseDuration (rec ! 1) of None \<Rightarrow> None | Some latency \<Rightarrow>
          (case (if 3 \<le> length rec then sscanf_uint16 (rec ! 2) else Some 0) of
             None \<Rightarrow> None
           | Some port \<Rightarrow>
               Some \<lparr>MasterIP = ip, MasterLatency = latency, MasterPort = port,
                     MasterEnc = (if 4 \<le> length rec then ParseEncMethod (rec ! 3) else 1)\<rparr>)))"

end
