(* ===== verification/RecordText.thy ===== *)
theory RecordText
  imports ResultRecords
begin

text \<open>
  The texts a stored result is made of parse to what was printed: numbers, IPv4 addresses and
  durations. \<open>FormatDuration\<close> keeps hundredths of its unit; \<open>stored_latency\<close> is the latency its
  text stands for and \<open>kept_latency\<close> what the parsers that round to milliseconds make of it. Both
  settle: a latency that was stored once is stored as it is.
\<close>

subsection \<open>Numbers\<close>

lemma of_char_of_nat: "n < 256 \<Longrightarrow> (of_char (char_of n) :: nat) = n"
  by (simp add: take_bit_nat_def)

lemma digit_char: "n < 10 \<Longrightarrow> is_digit (char_of (48 + n :: nat)) \<and> digit_val (char_of (48 + n)) = n"
  by (simp add: is_digit_def digit_val_def of_char_of_nat)

lemma dec_val_append: "dec_val (s @ [c]) = 10 * dec_val s + digit_val c"
  by (simp add: dec_val_def)

lemma show_nat_digits: "list_all is_digit (show_nat n)"
proof (induction n rule: show_nat.induct)
  case (1 n)
  then show ?case
    using digit_char [of n] digit_char [of "n mod 10"] by (simp add: show_nat.simps [of n])
qed

lemma dec_val_show_nat [simp]: "dec_val (show_nat n) = n"
proof (induction n rule: show_nat.induct)
  case (1 n)
  show ?case
  proof (cases "n < 10")
    case True
    then show ?thesis
      using digit_char [of n] dec_val_append [of "[]"] by (simp add: show_nat.simps [of n] dec_val_def)
  next
    case False
    then have "dec_val (show_nat n) = 10 * (n div 10) + n mod 10"
      using 1 [OF False] digit_char [of "n mod 10"] by (simp add: show_nat.simps [of n] dec_val_append)
    then show ?thesis by simp
  qed
qed

lemma show_nat_not_Nil [simp]: "show_nat n \<noteq> []"
  by (simp add: show_nat.simps [of n])

lemma hd_show_nat: "hd (show_nat n @ s) = hd (show_nat n) \<and> is_digit (hd (show_nat n))"
  using show_nat_digits [of n] by (cases "show_nat n") auto

lemma takeWhile_digits:
  assumes "s = [] \<or> \<not> is_digit (hd s)"
  shows "takeWhile is_digit (show_nat n @ s) = show_nat n" and "dropWhile is_digit (show_nat n @ s) = s"
proof -
  have all: "\<forall>c \<in> set (show_nat n). is_digit c" using show_nat_digits [of n] by (simp add: list_all_iff)
  have "takeWhile is_digit s = []" "dropWhile is_digit s = s" using assms by (cases s; auto)+
  with all show "takeWhile is_digit (show_nat n @ s) = show_nat n" "dropWhile is_digit (show_nat n @ s) = s"
    by (simp_all add: takeWhile_append dropWhile_append)
qed

lemma not_digits: "\<not> is_digit (CHR ''.'')" "\<not> is_digit (CHR ''-'')" "\<not> is_digit (CHR ''+'')"
  "\<not> is_digit (CHR 0x20)" "\<not> is_digit (CHR ''m'')" "\<not> is_digit (CHR ''s'')" "\<not> is_digit (CHR 0xC2)"
  "\<not> is_digit (CHR ''/'')"
  by (simp_all add: is_digit_def)

lemma show_int_shape:
  "show_int i = (if i < 0 then [CHR ''-''] else []) @ show_nat (nat \<bar>i\<bar>)"
  by (simp add: show_int_def)

lemma show_nat_hd: "\<exists>c t. show_nat n = c # t \<and> is_digit c"
  using show_nat_digits [of n] by (cases "show_nat n") auto

lemma digit_not_sign: "is_digit c \<Longrightarrow> c \<noteq> CHR ''-'' \<and> c \<noteq> CHR ''+''"
  using not_digits by auto

lemma skip_blanks_digit: "is_digit c \<Longrightarrow> skip_blanks (c # t) = c # t"
  unfolding skip_blanks_def by (rule dropWhile_eq_self_iff [THEN iffD2]) (auto simp: is_digit_def)

lemma digits_only: "takeWhile is_digit (show_nat n) = show_nat n"
  using takeWhile_digits(1) [of "[]" n] by simp

lemma sscanf_int_show [simp]: "in_int64 i \<Longrightarrow> sscanf_int (show_int i) = Some i"
proof -
  assume i: "in_int64 i"
  obtain c t where ct: "show_nat (nat \<bar>i\<bar>) = c # t" "is_digit c" using show_nat_hd by blast
  have w: "takeWhile is_digit (c # t) = c # t" "dec_val (c # t) = nat \<bar>i\<bar>"
    using digits_only [of "nat \<bar>i\<bar>"] dec_val_show_nat [of "nat \<bar>i\<bar>"] by (simp_all add: ct(1))
  show ?thesis
  proof (cases "i < 0")
    case True
    then have "show_int i = CHR ''-'' # c # t" by (simp only: show_int_shape ct(1)) simp
    then have "skip_blanks (show_int i) = CHR ''-'' # c # t" by (simp add: skip_blanks_def)
    then show ?thesis using True i w by (simp add: sscanf_int_def)
  next
    case False
    then have "skip_blanks (show_int i) = c # t"
      using ct skip_blanks_digit by (simp add: show_int_shape)
    then show ?thesis using False i w digit_not_sign [OF ct(2)] by (simp add: sscanf_int_def)
  qed
qed

lemma atoi_show_int [simp]: "in_int64 i \<Longrightarrow> atoi (show_int i) = Some i"
proof -
  assume i: "in_int64 i"
  obtain c t where ct: "show_nat (nat \<bar>i\<bar>) = c # t" "is_digit c" using show_nat_hd by blast
  have w: "list_all is_digit (c # t)" "dec_val (c # t) = nat \<bar>i\<bar>"
    using show_nat_digits [of "nat \<bar>i\<bar>"] dec_val_show_nat [of "nat \<bar>i\<bar>"] by (simp_all only: ct(1))
  show ?thesis
  proof (cases "i < 0")
    case True
    then have "show_int i = CHR ''-'' # c # t" by (simp only: show_int_shape ct(1)) simp
    then show ?thesis using True i w by (simp add: atoi_def)
  next
    case False
    then have "show_int i = c # t" by (simp only: show_int_shape ct(1)) simp
    then show ?thesis using False i w digit_not_sign [OF ct(2)] by (simp add: atoi_def)
  qed
qed

lemma unat16_le: "unat (p :: u16) \<le> 65535"
proof -
  have "unat p < 2 ^ 16" using unsigned_less [of p] by simp
  then show ?thesis by simp
qed

lemma parse_uint16_show [simp]: "parse_uint16 (show_nat (unat p)) = Some p"
  using unat16_le [of p] show_nat_digits [of "unat p"] by (simp add: parse_uint16_def)

lemma parse_uint16_dash [simp]: "parse_uint16 ''-'' = None"
  by (simp add: parse_uint16_def not_digits)

lemma sscanf_uint16_show [simp]: "sscanf_uint16 (show_nat (unat p)) = Some p"
proof -
  obtain c t where "show_nat (unat p) = c # t" "is_digit c" using show_nat_hd by blast
  then have "skip_blanks (show_nat (unat p)) = show_nat (unat p)" by (simp add: skip_blanks_digit)
  then show ?thesis using unat16_le [of p] by (simp add: sscanf_uint16_def digits_only)
qed

lemma parse_bool_show [simp]: "parse_bool (show_bool b) = Some b"
  by (cases b) (simp_all add: parse_bool_def show_bool_def)

subsection \<open>IPv4 addresses\<close>

lemma show_nat_lead: "1 < length (show_nat n) \<Longrightarrow> hd (show_nat n) \<noteq> CHR ''0''"
proof (induction n rule: show_nat.induct)
  case (1 n)
  then have n: "\<not> n < 10" by (auto simp: show_nat.simps [of n])
  show ?case
  proof (cases "n div 10 < 10")
    case True
    then have s: "show_nat (n div 10) = [char_of (48 + n div 10)]"
      by (simp add: show_nat.simps [of "n div 10"])
    have "digit_val (char_of (48 + n div 10)) = n div 10" using digit_char True by blast
    moreover have "digit_val (CHR ''0'') = 0" by (simp add: digit_val_def)
    moreover have "n div 10 \<noteq> 0" using n by simp
    ultimately have "char_of (48 + n div 10) \<noteq> CHR ''0''" by metis
    then show ?thesis using n s by (simp add: show_nat.simps [of n])
  next
    case False
    then have "1 < length (show_nat (n div 10))"
      by (simp add: show_nat.simps [of "n div 10"])
    then show ?thesis using 1(1) [OF n] n by (simp add: show_nat.simps [of n])
  qed
qed

lemma parse_octet_show [simp]: "n < 256 \<Longrightarrow> parse_octet (show_nat n) = Some n"
  using show_nat_digits [of n] show_nat_lead [of n] by (auto simp: parse_octet_def)

lemma split_on_part: "b \<notin> set u \<Longrightarrow> split_on b (u @ b # s) = u # split_on b s"
  by (induction u) auto

lemma split_on_last: "b \<notin> set u \<Longrightarrow> split_on b u = [u]"
  by (induction u) auto

lemma not_in_show_nat: "\<not> is_digit c \<Longrightarrow> c \<notin> set (show_nat n)"
  using show_nat_digits [of n] by (auto simp: list_all_iff)

lemma word32_bytes:
  "256 * (256 * (256 * (n div 16777216) + n div 65536 mod 256) + n div 256 mod 256) + n mod 256 = (n :: nat)"
proof -
  have "n div 16777216 = n div 65536 div 256" "n div 65536 = n div 256 div 256"
    by (simp_all add: div_mult2_eq [symmetric])
  then show ?thesis by (simp only: mult.commute [of 256] div_mult_mod_eq)
qed

lemma ParseAddr_show_v4 [simp]: "ParseAddr (show_v4 w) = Some (V4 w)"
proof -
  let ?n = "unat w"
  have n: "?n < 2 ^ 32" using unsigned_less [of w] by simp
  have parts: "split_on (CHR ''.'') (show_v4 w)
      = [show_nat (?n div 16777216), show_nat (?n div 65536 mod 256), show_nat (?n div 256 mod 256),
         show_nat (?n mod 256)]"
    using not_in_show_nat [OF not_digits(1)]
    by (simp add: show_v4_def Let_def split_on_part split_on_last)
  have "parse_v4_fields (show_v4 w)
      = Some [?n div 16777216, ?n div 65536 mod 256, ?n div 256 mod 256, ?n mod 256]"
    using n by (simp add: parse_v4_fields_def parts)
  moreover have "find (\<lambda>c. c = CHR ''.'' \<or> c = CHR '':'' \<or> c = CHR ''%'') (u @ CHR ''.'' # v) = Some (CHR ''.'')"
    if "list_all is_digit u" for u v
    using that by (induction u) (auto simp: is_digit_def)
  then have "find (\<lambda>c. c = CHR ''.'' \<or> c = CHR '':'' \<or> c = CHR ''%'') (show_v4 w) = Some (CHR ''.'')"
    using show_nat_digits by (simp add: show_v4_def Let_def)
  ultimately show ?thesis
    using word32_bytes [of ?n]
    by (simp add: ParseAddr_def parse_addr_zone_def bytes_val_def del: of_nat_add of_nat_mult)
qed

subsection \<open>Durations\<close>

definition stored_latency :: "(nat \<Rightarrow> nat \<Rightarrow> bool) \<Rightarrow> int \<Rightarrow> int" where
  "stored_latency up d =
     (let us = Microseconds d
      in if 1000000 \<le> us then int (hundredths up (nat us) 1000000) * 10000000
         else if 1000 \<le> us then int (hundredths up (nat us) 1000) * 10000
         else us * 1000)"

lemma hundredths_near:
  assumes "0 < k"
  shows "2 * (hundredths up n k * k) \<le> 2 * (n * 100) + k"
    and "2 * (n * 100) \<le> 2 * (hundredths up n k * k) + k"
proof -
  define q r where "q = n * 100 div k" and "r = n * 100 mod k"
  have qr: "n * 100 = q * k + r" by (simp add: q_def r_def)
  have r: "r < k" using assms by (simp add: r_def)
  have "hundredths up n k = q \<and> 2 * r \<le> k \<or> hundredths up n k = q + 1 \<and> k \<le> 2 * r"
    unfolding hundredths_def Let_def q_def [symmetric] r_def [symmetric]
    by (cases "2 * r < k"; cases "k < 2 * r"; cases "up n k") simp_all
  then have "hundredths up n k * k = q * k \<and> 2 * r \<le> k \<or> hundredths up n k * k = q * k + k \<and> k \<le> 2 * r"
    by auto
  then show "2 * (hundredths up n k * k) \<le> 2 * (n * 100) + k"
    and "2 * (n * 100) \<le> 2 * (hundredths up n k * k) + k"
    using qr r by linarith+
qed

lemma hundredths_exact: "n * 100 = q * k \<Longrightarrow> 0 < k \<Longrightarrow> hundredths up n k = q"
  by (simp add: hundredths_def)

lemma dur_loop_Nil [simp]: "dur_loop d [] = Some d"
  by (simp add: dur_loop.simps)

text \<open>The two fraction digits and the unit.\<close>

lemma lead_frac_digits:
  "a < 10 \<Longrightarrow> b < 10 \<Longrightarrow> lead_frac 0 1 [char_of (48 + a), char_of (48 + b)] = (a * 10 + b, 100)"
  by (simp add: Let_def digit_char)

lemma lead_frac_two:
  "lead_frac 0 1 [char_of (48 + h div 10 mod 10), char_of (48 + h mod 10)] = (h mod 100, 100)"
proof -
  have "h div 10 mod 10 * 10 + h mod 10 = h mod 100"
    using mod_mult2_eq [of h 10 10] by simp
  then show ?thesis by (subst lead_frac_digits) simp_all
qed

lemma unit_char_take:
  assumes "list_all unit_char u"
  shows "takeWhile unit_char u = u" and "dropWhile unit_char u = []"
  using assms by (auto simp: list_all_iff)

lemma show_2f_shape: "show_2f h @ u = show_nat (h div 100) @ CHR ''.'' #
    [char_of (48 + h div 10 mod 10), char_of (48 + h mod 10)] @ u"
  by (simp add: show_2f_def)

text \<open>One number with its unit and nothing behind it.\<close>

lemma dur_loop_once:
  assumes "takeWhile is_digit s = ds" and "dropWhile is_digit s = s1" and "ds \<noteq> []"
    and "(if s1 \<noteq> [] \<and> hd s1 = CHR ''.'' then (takeWhile is_digit (tl s1), dropWhile is_digit (tl s1))
          else ([], s1)) = (fs, u)"
    and "list_all unit_char u" and "u \<noteq> []" and "unit_ns u = Some k" and "lead_frac 0 1 fs = (f, scale)"
    and "dec_val ds * k \<le> 2 ^ 63" and "dec_val ds * k + f * k div scale \<le> 2 ^ 63" and "0 < k"
  shows "dur_loop 0 s = Some (dec_val ds * k + f * k div scale)"
proof -
  have v: "dec_val ds \<le> 2 ^ 63 div k" using assms(9,11) by (simp add: less_eq_div_iff_mult_less_eq)
  have "2 ^ 63 div k \<le> 2 ^ 63" by (rule div_le_dividend)
  with v have v2: "dec_val ds \<le> 2 ^ 63" by (rule order_trans)
  have s: "s \<noteq> []" using assms(1,3) by auto
  have fs: "(if s1 \<noteq> [] \<and> hd s1 = CHR ''.'' then takeWhile is_digit (tl s1) else []) = fs"
    and s2: "(if s1 \<noteq> [] \<and> hd s1 = CHR ''.'' then dropWhile is_digit (tl s1) else s1) = u"
    using assms(4) by (metis fst_conv snd_conv)+
  show ?thesis
    using s v v2 assms(3,6,7,8,10)
    by (subst dur_loop.simps)
      (simp add: assms(1,2) fs s2 unit_char_take [OF assms(5)] Let_def not_less del: power_numeral)
qed

lemma dur_loop_2f:
  assumes u: "list_all unit_char u" "u \<noteq> []" "unit_ns u = Some k" and k: "0 < k" "100 dvd k"
    and h: "h * (k div 100) \<le> 2 ^ 63"
  shows "dur_loop 0 (show_2f h @ u) = Some (h * (k div 100))"
proof -
  let ?fs = "[char_of (48 + h div 10 mod 10), char_of (48 + h mod 10)]"
  have frac: "takeWhile is_digit (?fs @ u) = ?fs" "dropWhile is_digit (?fs @ u) = u"
    using digit_char [of "h div 10 mod 10"] digit_char [of "h mod 10"] u(1,2)
    by (cases u; simp add: unit_char_def)+
  have whole: "takeWhile is_digit (show_2f h @ u) = show_nat (h div 100)"
    "dropWhile is_digit (show_2f h @ u) = CHR ''.'' # ?fs @ u"
    unfolding show_2f_shape by (rule takeWhile_digits; simp add: not_digits)+
  obtain m where m: "k = 100 * m" using k(2) by (rule dvdE)
  have "h * m = (h div 100 * 100 + h mod 100) * m" by (simp only: div_mult_mod_eq)
  also have "\<dots> = h div 100 * (100 * m) + h mod 100 * m" by (simp only: add_mult_distrib mult.assoc)
  finally have w: "h div 100 * k + h mod 100 * k div 100 = h * (k div 100)" by (simp add: m)
  have "dur_loop 0 (show_2f h @ u)
      = Some (dec_val (show_nat (h div 100)) * k + h mod 100 * k div 100)"
  proof (rule dur_loop_once [OF whole show_nat_not_Nil _ u lead_frac_two])
    show "(if CHR ''.'' # ?fs @ u \<noteq> [] \<and> hd (CHR ''.'' # ?fs @ u) = CHR ''.''
        then (takeWhile is_digit (tl (CHR ''.'' # ?fs @ u)), dropWhile is_digit (tl (CHR ''.'' # ?fs @ u)))
        else ([], CHR ''.'' # ?fs @ u)) = (?fs, u)"
      using frac by (simp only: list.sel) simp
  qed (use w h k(1) in \<open>simp_all del: power_numeral\<close>)
  with w show ?thesis by simp
qed

lemma dur_loop_micro:
  assumes "n * 1000 \<le> 2 ^ 63"
  shows "dur_loop 0 (show_nat n @ [CHR 0xC2, CHR 0xB5] @ ''s'') = Some (n * 1000)"
proof -
  let ?u = "[CHR 0xC2, CHR 0xB5] @ ''s''"
  have whole: "takeWhile is_digit (show_nat n @ ?u) = show_nat n" "dropWhile is_digit (show_nat n @ ?u) = ?u"
    by (rule takeWhile_digits; simp add: not_digits)+
  have unit: "list_all unit_char ?u" "unit_ns ?u = Some 1000" by (code_simp, code_simp)
  have "dur_loop 0 (show_nat n @ ?u) = Some (dec_val (show_nat n) * 1000 + 0 * 1000 div 1)"
    by (rule dur_loop_once [OF whole show_nat_not_Nil _ unit(1) _ unit(2), where fs = "[]" and f = 0 and scale = 1])
      (use assms in \<open>simp_all del: power_numeral\<close>)
  then show ?thesis by simp
qed

text \<open>A printed duration parses to the latency it stores.\<close>

lemma not_sign: "is_digit c \<Longrightarrow> s = c # t \<Longrightarrow> s \<noteq> ''0'' \<Longrightarrow> ParseDuration s =
    (case dur_loop 0 s of None \<Rightarrow> None | Some d \<Rightarrow> if 2 ^ 63 - 1 < d then None else Some (int d))"
  using digit_not_sign [of c] by (auto simp: ParseDuration_def simp del: power_numeral split: option.split)

lemma int_below_63: "int n < 2 ^ 63 \<Longrightarrow> n \<le> 2 ^ 63"
  by simp

lemma ParseDuration_show_nat:
  assumes "dur_loop 0 (show_nat n @ u) = Some d" and "u \<noteq> []" and "int d < 2 ^ 63"
  shows "ParseDuration (show_nat n @ u) = Some (int d)"
proof -
  obtain c t where ct: "show_nat n = c # t" "is_digit c" using show_nat_hd by blast
  have "show_nat n @ u \<noteq> ''0''" using ct assms(2) by (cases t) auto
  moreover have "\<not> 2 ^ 63 - 1 < d" using assms(3) by simp
  ultimately show ?thesis
    using assms(1) not_sign [OF ct(2), of "show_nat n @ u" "t @ u"] ct(1) by simp
qed

lemma ParseDuration_negative:
  assumes "dur_loop 0 (show_nat n @ u) = Some d" and "u \<noteq> []"
  shows "ParseDuration (CHR ''-'' # show_nat n @ u) = Some (- int d)"
proof -
  obtain c t where ct: "show_nat n = c # t" "is_digit c" using show_nat_hd by blast
  have "show_nat n @ u \<noteq> ''0''" "show_nat n @ u \<noteq> []" using ct assms(2) by (cases t; auto)+
  then show ?thesis using assms(1) by (simp add: ParseDuration_def del: power_numeral)
qed

lemma ParseDuration_2f:
  assumes "list_all unit_char u" "u \<noteq> []" "unit_ns u = Some k" "0 < k" "100 dvd k"
    and "int h * int (k div 100) < 2 ^ 63"
  shows "ParseDuration (show_2f h @ u) = Some (int h * int (k div 100))"
proof -
  have lt: "int (h * (k div 100)) < 2 ^ 63" using assms(6) by simp
  then have "h * (k div 100) \<le> 2 ^ 63" by (rule int_below_63)
  then have "dur_loop 0 (show_2f h @ u) = Some (h * (k div 100))"
    by (rule dur_loop_2f [OF assms(1-5)])
  then have "ParseDuration (show_2f h @ u) = Some (int (h * (k div 100)))"
    unfolding show_2f_shape by (rule ParseDuration_show_nat) (use lt in simp_all)
  then show ?thesis by simp
qed

lemma Microseconds_near: "0 \<le> d \<Longrightarrow> Microseconds d = d div 1000"
  by (cases "d = 0") (simp_all add: Microseconds_def sgn_if)

lemma Microseconds_neg: "d < 0 \<Longrightarrow> Microseconds d = - (- d div 1000)"
  by (simp add: Microseconds_def)

lemma hundredths_bound:
  assumes "0 < k" and "2 * (int n * 100) + int k < 2 * int k * m"
  shows "int (hundredths up n k) < m"
proof -
  have "int (2 * (hundredths up n k * k)) \<le> int (2 * (n * 100) + k)"
    using hundredths_near(1) [OF assms(1)] by (simp only: of_nat_le_iff)
  then have "2 * int k * int (hundredths up n k) < 2 * int k * m"
    using assms(2) by (simp add: algebra_simps)
  then show ?thesis using assms(1) by (simp add: mult_less_cancel_left)
qed

lemma unit_facts:
  "list_all unit_char ''ms''" "unit_ns ''ms'' = Some 1000000"
  "list_all unit_char ''s''" "unit_ns ''s'' = Some 1000000000"
  by (simp_all add: unit_ns_def unit_char_def is_digit_def)

lemma ParseDuration_FormatDuration:
  assumes "in_int64 d"
  shows "ParseDuration (FormatDuration up d) = Some (stored_latency up d)"
proof -
  let ?us = "Microseconds d"
  consider (neg) "?us < 0" | (micro) "0 \<le> ?us" "?us < 1000" | (milli) "1000 \<le> ?us" "?us < 1000000"
    | (sec) "1000000 \<le> ?us" by linarith
  then show ?thesis
  proof cases
    case neg
    then have "d < 0" using Microseconds_near [of d] by (cases "0 \<le> d") auto
    then have us: "?us = - (- d div 1000)" by (rule Microseconds_neg)
    have "- d \<le> 2 ^ 63" using assms by (simp add: in_int64_def)
    then have "nat (- ?us) * 1000 \<le> 2 ^ 63" using us by simp
    from dur_loop_micro [OF this] neg show ?thesis
      by (simp add: FormatDuration_def stored_latency_def show_int_def Let_def ParseDuration_negative
            del: power_numeral)
  next
    case micro
    then have "nat ?us * 1000 \<le> 2 ^ 63" by simp
    from ParseDuration_show_nat [OF dur_loop_micro [OF this]] micro show ?thesis
      by (simp add: FormatDuration_def stored_latency_def show_int_def Let_def)
  next
    case milli
    have "int (hundredths up (nat ?us) 1000) < 900000000000000"
      by (rule hundredths_bound) (use milli in simp_all)
    then have "ParseDuration (show_2f (hundredths up (nat ?us) 1000) @ ''ms'')
        = Some (int (hundredths up (nat ?us) 1000) * int (1000000 div 100))"
      by (intro ParseDuration_2f unit_facts) simp_all
    with milli show ?thesis by (simp add: FormatDuration_def stored_latency_def Let_def)
  next
    case sec
    have "0 \<le> d" using sec Microseconds_neg [of d] by (cases "0 \<le> d") auto
    then have "?us \<le> 9223372036854775" using assms Microseconds_near [of d] by (simp add: in_int64_def)
    then have "int (hundredths up (nat ?us) 1000000) < 922337203686"
      by (intro hundredths_bound) (use sec in simp_all)
    then have "ParseDuration (show_2f (hundredths up (nat ?us) 1000000) @ ''s'')
        = Some (int (hundredths up (nat ?us) 1000000) * int (1000000000 div 100))"
      by (intro ParseDuration_2f unit_facts) simp_all
    with sec show ?thesis by (simp add: FormatDuration_def stored_latency_def Let_def)
  qed
qed

lemma stored_latency_micro: "Microseconds d < 1000 \<Longrightarrow> stored_latency up d = Microseconds d * 1000"
  by (simp add: stored_latency_def Let_def)

lemma in_int64_iff: "in_int64 x \<longleftrightarrow> - 9223372036854775808 \<le> x \<and> x \<le> 9223372036854775807"
  by (auto simp: in_int64_def)

lemma hundredths_within:
  assumes "0 < k"
  shows "2 * (int n * 100) - int k \<le> 2 * int k * int (hundredths up n k)"
    and "2 * int k * int (hundredths up n k) \<le> 2 * (int n * 100) + int k"
proof -
  have "int (2 * (n * 100)) \<le> int (2 * (hundredths up n k * k) + k)"
    "int (2 * (hundredths up n k * k)) \<le> int (2 * (n * 100) + k)"
    using hundredths_near [OF assms] by (simp_all only: of_nat_le_iff)
  then show "2 * (int n * 100) - int k \<le> 2 * int k * int (hundredths up n k)"
    "2 * int k * int (hundredths up n k) \<le> 2 * (int n * 100) + int k"
    by (simp_all add: algebra_simps)
qed

text \<open>The stored latency is close to the measured one.\<close>

lemma stored_latency_near:
  assumes "0 \<le> d"
  shows "\<bar>stored_latency up d - d\<bar> \<le> (if d < 1000000 then 999 else if d < 1000000000 then 5999 else 5000999)"
proof -
  have us: "Microseconds d = d div 1000" using assms by (rule Microseconds_near)
  have d: "1000 * (d div 1000) \<le> d" "d < 1000 * (d div 1000) + 1000" by simp_all
  consider (micro) "d div 1000 < 1000" | (milli) "1000 \<le> d div 1000" "d div 1000 < 1000000"
    | (sec) "1000000 \<le> d div 1000" by linarith
  then show ?thesis
  proof cases
    case micro
    then show ?thesis using d by (simp add: stored_latency_micro us)
  next
    case milli
    then have "stored_latency up d = int (hundredths up (nat (d div 1000)) 1000) * 10000"
      by (simp add: stored_latency_def us Let_def)
    moreover have "200 * (d div 1000) - 1000 \<le> 2000 * int (hundredths up (nat (d div 1000)) 1000)"
      "2000 * int (hundredths up (nat (d div 1000)) 1000) \<le> 200 * (d div 1000) + 1000"
      using hundredths_within [where k = 1000 and up = up and n = "nat (d div 1000)"] milli by simp_all
    ultimately have "\<bar>stored_latency up d - d\<bar> \<le> 5999" using d by linarith
    moreover have "1000000 \<le> d" "d < 1000000000" using d milli by linarith+
    ultimately show ?thesis by simp
  next
    case sec
    then have "stored_latency up d = int (hundredths up (nat (d div 1000)) 1000000) * 10000000"
      by (simp add: stored_latency_def us Let_def)
    moreover have "200 * (d div 1000) - 1000000 \<le> 2000000 * int (hundredths up (nat (d div 1000)) 1000000)"
      "2000000 * int (hundredths up (nat (d div 1000)) 1000000) \<le> 200 * (d div 1000) + 1000000"
      using hundredths_within [where k = 1000000 and up = up and n = "nat (d div 1000)"] sec by simp_all
    ultimately have "\<bar>stored_latency up d - d\<bar> \<le> 5000999" using d by linarith
    moreover have "1000000000 \<le> d" using d sec by linarith
    ultimately show ?thesis by simp
  qed
qed

text \<open>What a latency is after it was stored once: whole microseconds, hundredths of a millisecond
  from one millisecond on and of a second from one second on.\<close>

definition settled :: "int \<Rightarrow> bool" where
  "settled d \<longleftrightarrow> in_int64 d \<and> d mod 1000 = 0 \<and> (1000000 \<le> d \<longrightarrow> d mod 10000 = 0)
     \<and> (1000000000 \<le> d \<longrightarrow> d mod 10000000 = 0)"

lemma stored_latency_settled:
  assumes "settled d"
  shows "stored_latency up d = d"
proof (cases "0 \<le> d")
  case True
  have us: "Microseconds d = d div 1000" using True by (rule Microseconds_near)
  consider (micro) "d < 1000000" | (milli) "1000000 \<le> d" "d < 1000000000" | (sec) "1000000000 \<le> d"
    by linarith
  then show ?thesis
  proof cases
    case micro
    then have "d div 1000 < 1000" by simp
    then show ?thesis using assms by (auto simp: stored_latency_micro us settled_def)
  next
    case milli
    with assms obtain h where h: "d = 10000 * h" by (auto simp: settled_def)
    have "1000 \<le> d div 1000" "\<not> 1000000 \<le> d div 1000" using milli by simp_all
    then have "stored_latency up d = int (hundredths up (nat (d div 1000)) 1000) * 10000"
      by (simp only: stored_latency_def us Let_def if_True if_False)
    moreover have "hundredths up (nat (d div 1000)) 1000 = nat h"
      by (rule hundredths_exact) (use h milli in \<open>simp_all add: nat_mult_distrib\<close>)
    ultimately show ?thesis using h milli by simp
  next
    case sec
    with assms obtain h where h: "d = 10000000 * h" by (auto simp: settled_def)
    have "1000000 \<le> d div 1000" using sec by simp
    then have "stored_latency up d = int (hundredths up (nat (d div 1000)) 1000000) * 10000000"
      by (simp only: stored_latency_def us Let_def if_True)
    moreover have "hundredths up (nat (d div 1000)) 1000000 = nat h"
      by (rule hundredths_exact) (use h sec in \<open>simp_all add: nat_mult_distrib\<close>)
    ultimately show ?thesis using h sec by simp
  qed
next
  case False
  then have us: "Microseconds d = - (- d div 1000)" by (simp add: Microseconds_neg)
  from assms obtain k where "d = 1000 * k" by (auto simp: settled_def)
  with False us show ?thesis by (simp add: stored_latency_micro)
qed

lemma settled_stored_latency:
  assumes "in_int64 d"
  shows "settled (stored_latency up d)"
proof (cases "0 \<le> d")
  case True
  have us: "Microseconds d = d div 1000" using True by (rule Microseconds_near)
  consider (micro) "d div 1000 < 1000" | (milli) "1000 \<le> d div 1000" "d div 1000 < 1000000"
    | (sec) "1000000 \<le> d div 1000" by linarith
  then show ?thesis
  proof cases
    case micro
    then show ?thesis using True by (auto simp: stored_latency_micro us settled_def in_int64_iff)
  next
    case milli
    let ?h = "int (hundredths up (nat (d div 1000)) 1000)"
    have "stored_latency up d = ?h * 10000" using milli by (simp add: stored_latency_def us Let_def)
    moreover have "?h \<le> 100000"
      using hundredths_bound [of 1000 "nat (d div 1000)" 100001 up] milli by simp
    ultimately show ?thesis by (auto simp: settled_def in_int64_iff)
  next
    case sec
    let ?h = "int (hundredths up (nat (d div 1000)) 1000000)"
    have "stored_latency up d = ?h * 10000000" using sec by (simp add: stored_latency_def us Let_def)
    moreover have "d div 1000 \<le> 9223372036854775807 div 1000"
      using assms by (intro zdiv_mono1) (simp_all add: in_int64_iff)
    then have "?h < 922337203686" by (intro hundredths_bound) (use sec in simp_all)
    ultimately show ?thesis by (auto simp: settled_def in_int64_iff)
  qed
next
  case False
  then have us: "Microseconds d = - (- d div 1000)" by (simp add: Microseconds_neg)
  then have "stored_latency up d = - (- d div 1000) * 1000"
    using False by (simp add: stored_latency_micro)
  then show ?thesis using False assms by (auto simp: settled_def in_int64_iff)
qed

definition settled_ms :: "int \<Rightarrow> bool" where
  "settled_ms d \<longleftrightarrow> in_int64 d \<and> 1000000 \<le> d \<and> d mod 1000000 = 0
     \<and> (1000000000 \<le> d \<longrightarrow> d mod 10000000 = 0)"

lemma settled_ms_settled: "settled_ms d \<Longrightarrow> settled d"
proof -
  assume d: "settled_ms d"
  then obtain k where "d = 1000000 * k" by (auto simp: settled_ms_def)
  with d show ?thesis by (auto simp: settled_ms_def settled_def)
qed

lemma read_latency_settled: "settled_ms d \<Longrightarrow> read_latency d = d"
  by (simp add: read_latency_def settled_ms_def round_ms_def)

lemma round_ms_pos:
  assumes "0 \<le> d" and "d < 9223372036854000000"
  shows "\<exists>k. round_ms d = k * 1000000 \<and> 0 \<le> k \<and> \<bar>round_ms d - d\<bar> \<le> 500000"
proof -
  define q r where "q = d div 1000000" and "r = d mod 1000000"
  have qr: "d = q * 1000000 + r" "0 \<le> r" "r < 1000000" by (simp_all add: q_def r_def)
  have q: "q \<le> 9223372036853" "0 \<le> q" using assms qr by linarith+
  have rem: "sgn d * (\<bar>d\<bar> mod 1000000) = r" using assms(1) by (cases "d = 0") (simp_all add: r_def)
  have "round_ms d = (if r + r < 1000000 then q * 1000000 else (q + 1) * 1000000)"
    using assms(1) qr q unfolding round_ms_def Let_def rem by auto
  then show ?thesis using qr q by (intro exI [of _ "if r + r < 1000000 then q else q + 1"]) auto
qed

lemma round_ms_neg:
  assumes "d < 0"
  shows "round_ms d \<le> 0"
proof -
  define m where "m = (- d) mod 1000000"
  have m: "0 \<le> m" "m < 1000000" "m \<le> - d"
    using assms zmod_le_nonneg_dividend [of "- d" 1000000] by (simp_all add: m_def)
  have rem: "sgn d * (\<bar>d\<bar> mod 1000000) = - m" using assms by (simp add: m_def)
  show ?thesis using assms m unfolding round_ms_def Let_def rem by auto
qed

lemma settled_ms_read_latency:
  assumes "settled d"
  shows "settled_ms (read_latency d)"
proof -
  consider (low) "d < 1000000" | (milli) "1000000 \<le> d" "d < 1000000000" | (sec) "1000000000 \<le> d"
    by linarith
  then show ?thesis
  proof cases
    case low
    have "round_ms d \<le> 1000000"
    proof (cases "0 \<le> d")
      case True
      then obtain k where k: "round_ms d = k * 1000000" "\<bar>round_ms d - d\<bar> \<le> 500000"
        using round_ms_pos [of d] low by auto
      then have "k * 1000000 < 1500000" using low by linarith
      then have "k \<le> 1" by linarith
      with k show ?thesis by simp
    qed (use round_ms_neg [of d] in simp)
    then show ?thesis by (simp add: read_latency_def max_def settled_ms_def in_int64_iff)
  next
    case milli
    then obtain k where k: "round_ms d = k * 1000000" "\<bar>round_ms d - d\<bar> \<le> 500000"
      using round_ms_pos [of d] by auto
    then have "k * 1000000 < 1000500000" "500000 \<le> k * 1000000" using milli by linarith+
    then have "k \<le> 1000" "1 \<le> k" by linarith+
    with k show ?thesis by (auto simp: read_latency_def settled_ms_def in_int64_iff max_def)
  next
    case sec
    with assms obtain h where "d = 10000000 * h" by (auto simp: settled_def)
    with sec assms have "settled_ms d" by (auto simp: settled_ms_def settled_def)
    then show ?thesis by (simp add: read_latency_settled)
  qed
qed

text \<open>What is read back of a measured latency, and how far it is from it.\<close>

definition kept_latency :: "(nat \<Rightarrow> nat \<Rightarrow> bool) \<Rightarrow> int \<Rightarrow> int" where
  "kept_latency up d = read_latency (stored_latency up d)"

lemma kept_latency_settled:
  assumes "in_int64 d"
  shows "settled_ms (kept_latency up d)" "kept_latency up (kept_latency up d) = kept_latency up d"
    "in_int64 (kept_latency up d)" "kept_latency up d \<ge> 1000000"
proof -
  show s: "settled_ms (kept_latency up d)"
    unfolding kept_latency_def by (intro settled_ms_read_latency settled_stored_latency assms)
  show "kept_latency up (kept_latency up d) = kept_latency up d"
    using s settled_ms_settled [OF s]
    by (simp add: kept_latency_def [of up "kept_latency up d"] stored_latency_settled read_latency_settled)
  show "in_int64 (kept_latency up d)" "kept_latency up d \<ge> 1000000"
    using s by (simp_all add: settled_ms_def)
qed

lemma stored_latency_sec:
  assumes "1000000000 \<le> d"
  shows "1000000000 \<le> stored_latency up d"
proof -
  have us: "Microseconds d = d div 1000" "1000000 \<le> d div 1000" using assms by (simp_all add: Microseconds_near)
  then have "200 * (d div 1000) - 1000000 \<le> 2000000 * int (hundredths up (nat (d div 1000)) 1000000)"
    using hundredths_within(1) [where k = 1000000 and up = up and n = "nat (d div 1000)"] by simp
  with us(2) have "100 \<le> int (hundredths up (nat (d div 1000)) 1000000)" by linarith
  with us show ?thesis by (simp add: stored_latency_def Let_def)
qed

lemma kept_latency_near:
  assumes "in_int64 d" and "1000000 \<le> d"
  shows "\<bar>kept_latency up d - d\<bar> \<le> (if d < 999000000 then 505999 else 5000999)"
proof -
  let ?s = "stored_latency up d"
  have near: "\<bar>?s - d\<bar> \<le> (if d < 1000000000 then 5999 else 5000999)"
    using stored_latency_near [of d up] assms(2) by auto
  have s: "settled ?s" by (rule settled_stored_latency [OF assms(1)])
  show ?thesis
  proof (cases "?s < 1000000000")
    case True
    have "0 \<le> ?s" using near assms(2) True by (auto split: if_splits)
    then have "\<bar>round_ms ?s - ?s\<bar> \<le> 500000" using round_ms_pos [of ?s] True by auto
    then have "\<bar>kept_latency up d - d\<bar> \<le> 500000 + \<bar>?s - d\<bar>"
      using assms(2) by (auto simp: kept_latency_def read_latency_def max_def)
    moreover have "d < 1000000000" using stored_latency_sec [of d up] True by linarith
    ultimately show ?thesis using near by auto
  next
    case False
    with s obtain h where "?s = 10000000 * h" by (auto simp: settled_def)
    with False s have "settled_ms ?s" by (auto simp: settled_ms_def settled_def)
    then have "kept_latency up d = ?s" by (simp add: kept_latency_def read_latency_settled)
    with near False show ?thesis by (auto split: if_splits)
  qed
qed

end
