(* ===== verification/ResultCodecs.thy ===== *)
theory ResultCodecs
  imports RecordText ResultMerge
begin

text \<open>
  The record of every probe and the parser of its schema, as one interface: a result that is
  written by \<open>ToRecord\<close> and read back is \<open>reread\<close> of it, and reading once settles it. What the
  result file needs of it is proved once in the locale \<open>record_codec\<close>: no written record is
  skipped by the reader, and a file that was read and rewritten stays as it is. The merge of
  \<open>ResultMerge\<close> then keeps its contract on settled results, and on results that are not it can
  write one key twice.
\<close>

subsection \<open>The interface\<close>

locale record_codec =
  fixes to_record :: "'r \<Rightarrow> string list"
    and parse :: "string list \<Rightarrow> 'r option"
    and writable :: "'r \<Rightarrow> bool"
    and reread :: "'r \<Rightarrow> 'r"
  assumes parse_to_record: "writable r \<Longrightarrow> parse (to_record r) = Some (reread r)"
    and writable_reread: "writable r \<Longrightarrow> writable (reread r)"
    and reread_reread: "writable r \<Longrightarrow> reread (reread r) = reread r"
begin

lemma reload_settled: "writable r \<Longrightarrow> parse (to_record (reread r)) = Some (reread r)"
  by (simp add: parse_to_record writable_reread reread_reread)

lemma nothing_skipped:
  "list_all writable rs \<Longrightarrow> List.map_filter (\<lambda>r. parse (to_record r)) rs = map reread rs"
  by (induction rs) (auto simp: parse_to_record)

lemma file_settles:
  assumes "list_all writable rs"
  shows "List.map_filter (\<lambda>r. parse (to_record r)) (map reread rs) = map reread rs"
proof -
  have "list_all writable (map reread rs)" using assms by (auto simp: list_all_iff writable_reread)
  then have "List.map_filter (\<lambda>r. parse (to_record r)) (map reread rs) = map reread (map reread rs)"
    by (rule nothing_skipped)
  then show ?thesis using assms by (auto simp: list_all_iff reread_reread)
qed

text \<open>A merge into a file of settled records keeps the contract of the result file.\<close>

lemma merge_settled:
  assumes "best_of_each key rank all stored" and "\<forall>r \<in> set stored. writable r \<and> reread r = r"
    and "results \<noteq> []"
  shows "\<exists>new. mergeResults key rank (\<lambda>r. parse (to_record r)) (Some stored) results = Some new
      \<and> best_of_each key rank (all \<union> set results) new"
  by (rule merge_best) (use assms in \<open>auto simp: parse_to_record\<close>)

end

subsection \<open>The codecs\<close>

definition addr_ok :: "addr \<Rightarrow> bool" where
  "addr_ok ip \<longleftrightarrow> ParseAddr (show_addr ip) = Some ip"

lemma addr_ok_v4 [simp]: "addr_ok (V4 w)"
  by (simp add: addr_ok_def)

lemma addr_ok_read [simp]: "addr_ok ip \<Longrightarrow> ParseAddr (show_addr ip) = Some ip"
  by (simp add: addr_ok_def)

lemmas latency_text [simp] = ParseDuration_FormatDuration kept_latency_def [symmetric]

definition tcp_writable :: "TCPResult \<Rightarrow> bool" where
  "tcp_writable r \<longleftrightarrow> addr_ok (TcpIP r) \<and> in_int64 (TcpLatency r) \<and> in_int64 (TcpTriesR r)"

definition tcp_reread :: "(nat \<Rightarrow> nat \<Rightarrow> bool) \<Rightarrow> TCPResult \<Rightarrow> TCPResult" where
  "tcp_reread up r =
     r\<lparr>TcpLatency := kept_latency up (TcpLatency r), TcpTriesR := max 1 (TcpTriesR r)\<rparr>"

lemma port_text [simp]:
  "(case parse_uint16 (if p \<noteq> 0 then show_nat (unat p) else ''-'') of None \<Rightarrow> 0 | Some q \<Rightarrow> q) = p"
  by simp

lemma tries_text [simp]: "in_int64 t \<Longrightarrow> sscanf_int (show_int (if t \<noteq> 0 then t else 1)) = Some (if t \<noteq> 0 then t else 1)"
  by (simp add: in_int64_iff)

lemma in_int64_max [simp]: "in_int64 t \<Longrightarrow> in_int64 (max 1 t)"
  by (simp add: in_int64_iff)

lemmas [simp] = kept_latency_settled

lemma stored_settles [simp]:
  "in_int64 d \<Longrightarrow> in_int64 (stored_latency up d)"
  "in_int64 d \<Longrightarrow> stored_latency up (stored_latency up d) = stored_latency up d"
  using settled_stored_latency [of d up] stored_latency_settled [of "stored_latency up d" up]
  by (simp_all add: settled_def)

interpretation tcp: record_codec "tcp_ToRecord up" parseTCPResult tcp_writable "tcp_reread up" for up
  by standard (simp_all add: tcp_writable_def parseTCPResult_def tcp_ToRecord_def tcp_reread_def Let_def)

definition icmp_writable :: "ICMPResult \<Rightarrow> bool" where
  "icmp_writable r \<longleftrightarrow> addr_ok (IcmpIP r) \<and> in_int64 (IcmpLatency r) \<and> in_int64 (IcmpTriesR r)"

definition icmp_reread :: "(nat \<Rightarrow> nat \<Rightarrow> bool) \<Rightarrow> ICMPResult \<Rightarrow> ICMPResult" where
  "icmp_reread up r =
     r\<lparr>IcmpLatency := kept_latency up (IcmpLatency r), IcmpTriesR := max 1 (IcmpTriesR r)\<rparr>"

interpretation icmp: record_codec "icmp_ToRecord up" parseICMPResult icmp_writable "icmp_reread up" for up
  by standard (simp_all add: icmp_writable_def parseICMPResult_def icmp_ToRecord_def icmp_reread_def)

text \<open>A result without a status writes a dash where the parser wants a number.\<close>

definition http_writable :: "HTTPResult \<Rightarrow> bool" where
  "http_writable r \<longleftrightarrow>
     addr_ok (HttpIP r) \<and> in_int64 (HttpLatency r) \<and> in_int64 (StatusCode r) \<and> StatusCode r \<noteq> 0"

definition http_reread :: "(nat \<Rightarrow> nat \<Rightarrow> bool) \<Rightarrow> HTTPResult \<Rightarrow> HTTPResult" where
  "http_reread up r = r\<lparr>HttpLatency := kept_latency up (HttpLatency r)\<rparr>"

interpretation http: record_codec "http_ToRecord up" parseHTTPResult http_writable "http_reread up" for up
  by standard (simp_all add: http_writable_def parseHTTPResult_def http_ToRecord_def http_reread_def)

definition resolver_writable :: "ResolverResult \<Rightarrow> bool" where
  "resolver_writable r \<longleftrightarrow> addr_ok (ResIP r) \<and> in_int64 (ResLatency r) \<and> in_int64 (ResTriesR r)"

definition resolver_reread :: "(nat \<Rightarrow> nat \<Rightarrow> bool) \<Rightarrow> ResolverResult \<Rightarrow> ResolverResult" where
  "resolver_reread up r =
     r\<lparr>ResLatency := kept_latency up (ResLatency r), ResTriesR := max 1 (ResTriesR r)\<rparr>"

interpretation resolver: record_codec
  "resolver_ToRecord up" parseResolverResult resolver_writable "resolver_reread up" for up
  by standard
    (simp_all add: resolver_writable_def parseResolverResult_def resolver_ToRecord_def resolver_reread_def)

text \<open>The tunnels keep the latency at the precision of its text, and names in their canonical form.\<close>

lemma ParseResolverType_idem [simp]: "ParseResolverType (ParseResolverType s) = ParseResolverType s"
proof -
  have "ParseResolverType s \<in> {''tcp'', ''dot'', ''udp''}" by (simp add: ParseResolverType_def Let_def)
  moreover have "ParseResolverType ''tcp'' = ''tcp''" "ParseResolverType ''dot'' = ''dot''"
    "ParseResolverType ''udp'' = ''udp''" by code_simp+
  ultimately show ?thesis by auto
qed

lemma ParseAuthMethod_idem [simp]: "ParseAuthMethod (ParseAuthMethod s) = ParseAuthMethod s"
proof -
  have "ParseAuthMethod s \<in> {''password'', ''key'', ''none''}" by (simp add: ParseAuthMethod_def Let_def)
  moreover have "ParseAuthMethod ''password'' = ''password''" "ParseAuthMethod ''key'' = ''key''"
    "ParseAuthMethod ''none'' = ''none''" by code_simp+
  ultimately show ?thesis by auto
qed

lemma ParseResolverProxyType_idem [simp]:
  "ParseResolverProxyType (ParseResolverProxyType s) = ParseResolverProxyType s"
proof -
  have "ParseResolverProxyType s \<in> {''socks'', ''ssh'', []}" by (simp add: ParseResolverProxyType_def Let_def)
  moreover have "ParseResolverProxyType ''socks'' = ''socks''" "ParseResolverProxyType ''ssh'' = ''ssh''"
    "ParseResolverProxyType [] = []" by code_simp+
  ultimately show ?thesis by auto
qed

definition known_enc :: "int \<Rightarrow> int" where
  "known_enc e = (if 0 \<le> e \<and> e \<le> 5 then e else 1)"

lemma enc_text [simp]: "ParseEncMethod (EncMethod_String e) = known_enc e"
proof -
  have all: "ParseEncMethod (EncMethod_String 0) = 0" "ParseEncMethod (EncMethod_String 1) = 1"
    "ParseEncMethod (EncMethod_String 2) = 2" "ParseEncMethod (EncMethod_String 3) = 3"
    "ParseEncMethod (EncMethod_String 4) = 4" "ParseEncMethod (EncMethod_String 5) = 5"
    "ParseEncMethod ''Unknown'' = 1" by code_simp+
  show ?thesis
  proof (cases "0 \<le> e \<and> e \<le> 5")
    case True
    then have "e \<in> {0, 1, 2, 3, 4, 5}" by auto
    with all show ?thesis by (auto simp: known_enc_def)
  next
    case False
    then have "EncMethod_String e = ''Unknown''" by (auto simp: EncMethod_String_def)
    with False all(7) show ?thesis by (auto simp: known_enc_def)
  qed
qed

lemma known_enc_idem [simp]: "known_enc (known_enc e) = known_enc e"
  by (simp add: known_enc_def)

definition tunnel_writable :: "TunnelResult \<Rightarrow> bool" where
  "tunnel_writable r \<longleftrightarrow> addr_ok (TunIP r) \<and> in_int64 (TunLatency r)"

definition tunnel_reread :: "(nat \<Rightarrow> nat \<Rightarrow> bool) \<Rightarrow> TunnelResult \<Rightarrow> TunnelResult" where
  "tunnel_reread up r =
     r\<lparr>TunLatency := stored_latency up (TunLatency r), TunTransport := ParseResolverType (TunTransport r),
       TunAuth := ParseAuthMethod (TunAuth r), TunProxy := ParseResolverProxyType (TunProxy r)\<rparr>"

interpretation tunnel: record_codec "tunnel_ToRecord up" parseTunnelResult tunnel_writable "tunnel_reread up" for up
  by standard (simp_all add: tunnel_writable_def parseTunnelResult_def tunnel_ToRecord_def tunnel_reread_def)

definition slip_writable :: "SlipstreamResult \<Rightarrow> bool" where
  "slip_writable r \<longleftrightarrow> addr_ok (SlipIP r) \<and> in_int64 (SlipLatency r)"

definition slip_reread :: "(nat \<Rightarrow> nat \<Rightarrow> bool) \<Rightarrow> SlipstreamResult \<Rightarrow> SlipstreamResult" where
  "slip_reread up r =
     r\<lparr>SlipLatency := stored_latency up (SlipLatency r), SlipAuth := ParseAuthMethod (SlipAuth r),
       SlipProxy := ParseResolverProxyType (SlipProxy r)\<rparr>"

interpretation slipstream: record_codec
  "slip_ToRecord up" parseSlipstreamResult slip_writable "slip_reread up" for up
  by standard (simp_all add: slip_writable_def parseSlipstreamResult_def slip_ToRecord_def slip_reread_def)

definition master_writable :: "MasterDNSResult \<Rightarrow> bool" where
  "master_writable r \<longleftrightarrow> addr_ok (MasterIP r) \<and> in_int64 (MasterLatency r)"

definition master_reread :: "(nat \<Rightarrow> nat \<Rightarrow> bool) \<Rightarrow> MasterDNSResult \<Rightarrow> MasterDNSResult" where
  "master_reread up r =
     r\<lparr>MasterLatency := stored_latency up (MasterLatency r), MasterEnc := known_enc (MasterEnc r)\<rparr>"

interpretation master: record_codec "master_ToRecord up" parseMasterDNSResult master_writable "master_reread up" for up
  by standard (simp_all add: master_writable_def parseMasterDNSResult_def master_ToRecord_def master_reread_def)

definition feed_writable :: "TheFeedResult \<Rightarrow> bool" where
  "feed_writable r \<longleftrightarrow> addr_ok (FeedIP r) \<and> in_int64 (FeedLatency r)"

definition feed_reread :: "(nat \<Rightarrow> nat \<Rightarrow> bool) \<Rightarrow> TheFeedResult \<Rightarrow> TheFeedResult" where
  "feed_reread up r = r\<lparr>FeedLatency := stored_latency up (FeedLatency r)\<rparr>"

interpretation thefeed: record_codec "feed_ToRecord up" parseTheFeedResult feed_writable "feed_reread up" for up
  by standard (simp_all add: feed_writable_def parseTheFeedResult_def feed_ToRecord_def feed_reread_def)

text \<open>The query type of a tunnel is canonical already.\<close>

definition storm_writable :: "StormDNSResult \<Rightarrow> bool" where
  "storm_writable r \<longleftrightarrow> addr_ok (StormIP r) \<and> in_int64 (StormLatency r)
     \<and> normalizeQueryType (StormQuery r) = StormQuery r"

definition storm_reread :: "(nat \<Rightarrow> nat \<Rightarrow> bool) \<Rightarrow> StormDNSResult \<Rightarrow> StormDNSResult" where
  "storm_reread up r =
     r\<lparr>StormLatency := stored_latency up (StormLatency r), StormEnc := known_enc (StormEnc r)\<rparr>"

interpretation storm: record_codec "storm_ToRecord up" parseStormDNSResult storm_writable "storm_reread up" for up
  by standard (simp_all add: storm_writable_def parseStormDNSResult_def storm_ToRecord_def storm_reread_def)

subsection \<open>The TCP result file\<close>

definition tcp_Key :: "TCPResult \<Rightarrow> string" where
  "tcp_Key r = show_addr (TcpIP r)"

definition tcp_rank :: "TCPResult \<Rightarrow> nat" where
  "tcp_rank r = score_ms (TcpLatency r)"

definition tcp_reload :: "(nat \<Rightarrow> nat \<Rightarrow> bool) \<Rightarrow> TCPResult \<Rightarrow> TCPResult option" where
  "tcp_reload up r = parseTCPResult (tcp_ToRecord up r)"

definition tcp_settled :: "TCPResult \<Rightarrow> bool" where
  "tcp_settled r \<longleftrightarrow> addr_ok (TcpIP r) \<and> settled_ms (TcpLatency r) \<and> 1 \<le> TcpTriesR r \<and> in_int64 (TcpTriesR r)"

lemma tcp_settled_reread: "tcp_settled r \<Longrightarrow> tcp_writable r \<and> tcp_reread up r = r"
  using settled_ms_settled [of "TcpLatency r"]
  by (auto simp: tcp_settled_def tcp_writable_def tcp_reread_def stored_latency_settled
      read_latency_settled kept_latency_def settled_def)

definition tcp_result :: "32 word \<Rightarrow> int \<Rightarrow> TCPResult" where
  "tcp_result w latency = \<lparr>TcpIP = V4 w, TcpPortR = 443, TcpLatency = latency, TcpTriesR = 1\<rparr>"



text \<open>A batch merged into a settled TCP result file, as every file is that was read once, keeps
  its contract: sorted by score, one record per address, every address of the file and of the batch
  present with the best score it ever had.\<close>

theorem tcp_merge_keeps_best:
  assumes "best_of_each tcp_Key tcp_rank all stored" and "\<forall>r \<in> set stored. tcp_settled r"
    and "results \<noteq> []"
  shows "\<exists>new. mergeResults tcp_Key tcp_rank (tcp_reload up) (Some stored) results = Some new
      \<and> best_of_each tcp_Key tcp_rank (all \<union> set results) new"
  unfolding tcp_reload_def
  by (rule tcp.merge_settled [OF assms(1) _ assms(3)]) (use assms(2) tcp_settled_reread in blast)

lemma tcp_merge_keeps_best_witness:
  "\<exists>new. mergeResults tcp_Key tcp_rank (tcp_reload (\<lambda>_ _. True))
      (Some [tcp_result 0x02020202 3000000]) [tcp_result 0x02020202 2600000, tcp_result 0x01010101 9900000]
        = Some new
     \<and> best_of_each tcp_Key tcp_rank
         ({tcp_result 0x02020202 3000000} \<union> set [tcp_result 0x02020202 2600000, tcp_result 0x01010101 9900000])
         new"
  by (rule tcp_merge_keeps_best)
    (auto simp: best_of_each_def by_rank_def tcp_settled_def tcp_result_def settled_ms_def in_int64_iff)

subsection \<open>Merging into a file that was not read yet\<close>

text \<open>The rank of a fresh result is truncated to milliseconds and that of a read one rounded, so the
  file need not be sorted when it is read.\<close>

definition first_batch :: "TCPResult list" where
  "first_batch = [tcp_result 0x01010101 3600000, tcp_result 0x02020202 3400000]"

definition second_batch :: "TCPResult list" where
  "second_batch = [tcp_result 0x02020202 3200000]"

definition merged_twice :: "TCPResult list" where
  "merged_twice =
     [tcp_result 0x02020202 3200000, tcp_result 0x01010101 4000000, tcp_result 0x02020202 3000000]"

lemma demo_keys: "show_v4 0x01010101 = ''1.1.1.1''" "show_v4 0x02020202 = ''2.2.2.2''"
  using char_of_char [of "CHR ''1''", where ?'a = nat] char_of_char [of "CHR ''2''", where ?'a = nat]
  by (simp_all add: show_v4_def show_nat.simps)

lemma demo_reload:
  "tcp_reload up (tcp_result w 3600000) = Some (tcp_result w 4000000)"
  "tcp_reload up (tcp_result w 3400000) = Some (tcp_result w 3000000)"
proof -
  have w: "tcp_writable (tcp_result w d)" if "in_int64 d" for d
    using that by (simp add: tcp_writable_def tcp_result_def in_int64_iff)
  have kept: "kept_latency up 3600000 = 4000000" "kept_latency up 3400000 = 3000000"
    by (simp_all add: kept_latency_def read_latency_def round_ms_def stored_latency_def hundredths_def
        Microseconds_def Let_def)
  show "tcp_reload up (tcp_result w 3600000) = Some (tcp_result w 4000000)"
    "tcp_reload up (tcp_result w 3400000) = Some (tcp_result w 3000000)"
    using w [of 3600000] w [of 3400000] kept
    by (simp_all add: tcp_reload_def tcp.parse_to_record in_int64_iff tcp_reread_def tcp_result_def)
qed

lemma demo_key [simp]: "tcp_Key (tcp_result w d) = show_v4 w"
  by (simp add: tcp_Key_def tcp_result_def)

lemma demo_rank [simp]: "tcp_rank (tcp_result w d) = score_ms d"
  by (simp add: tcp_rank_def tcp_result_def)

lemma first_flush: "mergeResults tcp_Key tcp_rank (tcp_reload up) None first_batch = Some first_batch"
  by (simp add: mergeResults_def first_batch_def sort_results_def demo_keys score_ms_def Let_def)

lemma second_flush:
  "mergeResults tcp_Key tcp_rank (tcp_reload up) (Some first_batch) second_batch = Some merged_twice"
  by (simp add: mergeResults_def first_batch_def second_batch_def merged_twice_def sort_results_def
      demo_keys demo_reload score_ms_def Let_def mergeWithExisting_def on_existing_def catch_up.simps
      emitDelta_def holds_def key_order_def List.map_filter_simps)

text \<open>Two merges of well-formed results can leave a file in which an address appears twice, out of
  order: 1.1.1.1 at 3.6 ms and 2.2.2.2 at 3.4 ms rank alike when they are written and apart when
  they are read, so the entry that 2.2.2.2 at 3.2 ms should replace comes after the place where the
  replacement was already written.\<close>

theorem merge_can_duplicate_key:
  "\<exists>f g. mergeResults tcp_Key tcp_rank (tcp_reload up) None first_batch = Some f
     \<and> mergeResults tcp_Key tcp_rank (tcp_reload up) (Some f) second_batch = Some g
     \<and> list_all tcp_writable (first_batch @ second_batch) \<and> \<not> distinct (map tcp_Key g)"
  using first_flush [of up] second_flush [of up]
  by (auto simp: first_batch_def second_batch_def merged_twice_def tcp_writable_def tcp_result_def
      tcp_Key_def in_int64_iff)

end
