(* ===== verification/DNSProbe.thy ===== *)
theory DNSProbe
  imports ResultRecords ScanErrors
begin

text \<open>
  DNS queries and the probes that retry: record types and response codes
  (\<open>internal/core/dns/types.go\<close>), one query with its fallbacks (\<open>internal/core/dns/query.go\<close>), the
  resolver probe (\<open>probe/resolveprobe/resolve.go\<close>), the TCP probe (\<open>probe/tcpprobe/tcp.go\<close>) and the
  loop of the ICMP probe (\<open>probe/icmpprobe/icmp.go\<close>). What the network answers is a parameter,
  indexed by the attempt, and so are the context, the random labels and the name completion of
  the DNS library.
\<close>

subsection \<open>Names\<close>

definition ResolverType_IsValid :: "string \<Rightarrow> bool" where
  "ResolverType_IsValid t \<longleftrightarrow> to_lower (trim_space t) \<in> {''udp'', ''tcp'', ''dot''}"

definition RecordType_IsValid :: "string \<Rightarrow> bool" where
  "RecordType_IsValid r \<longleftrightarrow>
     to_upper (trim_space r) \<in> {''A'', ''AAAA'', ''CNAME'', ''NS'', ''MX'', ''TXT'', ''SRV'', ''NULL'', ''CAA''}"

definition AuthMethod_IsValid :: "string \<Rightarrow> bool" where
  "AuthMethod_IsValid m \<longleftrightarrow> to_lower (trim_space m) \<in> {''none'', ''password'', ''key''}"

definition ResolverProxyType_IsValid :: "string \<Rightarrow> bool" where
  "ResolverProxyType_IsValid t \<longleftrightarrow> to_lower (trim_space t) \<in> {''socks'', ''ssh''}"

text \<open>The numbers are those of the DNS protocol.\<close>

definition toMiekgDNS :: "string \<Rightarrow> u16" where
  "toMiekgDNS r =
     (let t = to_upper (trim_space r)
      in if t = ''A'' then 1 else if t = ''AAAA'' then 28 else if t = ''CNAME'' then 5
         else if t = ''NS'' then 2 else if t = ''MX'' then 15 else if t = ''TXT'' then 16
         else if t = ''SRV'' then 33 else if t = ''NULL'' then 10 else if t = ''CAA'' then 257 else 0)"

definition ParseDNSRcode :: "string \<Rightarrow> u16" where
  "ParseDNSRcode s =
     (let t = to_lower (trim_space s)
      in if t = ''noerror'' \<or> t = ''success'' then 0
         else if t = ''formerr'' \<or> t = ''formaterror'' then 1
         else if t = ''servfail'' \<or> t = ''serverfailure'' then 2
         else if t = ''nxdomain'' \<or> t = ''nameerror'' then 3
         else if t = ''notimp'' \<or> t = ''notimplemented'' then 4
         else if t = ''refused'' then 5 else 2)"

subsection \<open>One query\<close>

record Query =
  QResolver :: string
  QPort :: u16
  QDomain :: string
  QTransport :: string
  QRecordType :: string
  QEDNS :: u16
  QRecursion :: bool
  QTimeout :: int

definition query_normalize :: "Query \<Rightarrow> Query" where
  "query_normalize q =
     q\<lparr>QTimeout := (if QTimeout q < 50000000 then 2000000000 else QTimeout q),
       QEDNS := (if 0 < QEDNS q \<and> QEDNS q < 512 then 1234 else QEDNS q),
       QPort := (if QPort q = 0 then 53 else QPort q),
       QRecordType := (if QRecordType q = [] then ''A'' else QRecordType q),
       QTransport := (if QTransport q = [] then ''udp'' else QTransport q)\<rparr>"

record dns_msg =
  QName :: string
  QType :: u16
  RecursionDesired :: bool
  Edns :: "u16 option"

definition buildQuery :: "(string \<Rightarrow> string) \<Rightarrow> Query \<Rightarrow> dns_msg" where
  "buildQuery fqdn q =
     \<lparr>QName = fqdn (QDomain q), QType = toMiekgDNS (QRecordType q), RecursionDesired = QRecursion q,
      Edns = (if 0 < QEDNS q then Some (QEDNS q) else None)\<rparr>"

definition withoutEDNS :: "dns_msg \<Rightarrow> dns_msg" where
  "withoutEDNS m = m\<lparr>Edns := None\<rparr>"

definition transportNetwork :: "string \<Rightarrow> string" where
  "transportNetwork t = (if t = ''tcp'' then ''tcp'' else if t = ''dot'' then ''tcp-tls'' else ''udp'')"

text \<open>\<open>net.JoinHostPort\<close>: brackets around a host with a colon.\<close>

definition join_host_port :: "string \<Rightarrow> string \<Rightarrow> string" where
  "join_host_port host port =
     (if CHR '':'' \<in> set host then ''['' @ host @ '']:'' @ port else host @ '':'' @ port)"

definition query_address :: "Query \<Rightarrow> string" where
  "query_address q = join_host_port (QResolver q) (show_nat (unat (QPort q)))"

record dns_reply =
  ReplyRcode :: int
  Truncated :: bool

text \<open>An exchange: network, address, timeout and message. \<open>ex k\<close> answers the \<open>k\<close>-th of a query.\<close>

record dns_exchange =
  ExNetwork :: string
  ExAddress :: string
  ExTimeout :: int
  ExMsg :: dns_msg

definition exchange_of :: "Query \<Rightarrow> dns_msg \<Rightarrow> string \<Rightarrow> dns_exchange" where
  "exchange_of q m network =
     \<lparr>ExNetwork = network, ExAddress = query_address q, ExTimeout = QTimeout q, ExMsg = m\<rparr>"

type_synonym exchanger = "nat \<Rightarrow> dns_exchange \<Rightarrow> go_err + dns_reply"

text \<open>The answer and the exchanges that were made.\<close>

definition retry_plain :: "exchanger \<Rightarrow> Query \<Rightarrow> dns_msg \<Rightarrow> dns_reply \<Rightarrow> dns_reply \<times> dns_exchange list" where
  "retry_plain ex q req resp =
     (if Edns req \<noteq> None \<and> ReplyRcode resp \<noteq> 0 then
        (let e = exchange_of q (withoutEDNS req) (transportNetwork (QTransport q))
         in (case ex 1 e of Inl _ \<Rightarrow> resp | Inr r \<Rightarrow> r, [e]))
      else (resp, []))"

definition resolver_Query ::
  "(string \<Rightarrow> string) \<Rightarrow> exchanger \<Rightarrow> Query \<Rightarrow> (go_err + dns_reply) \<times> dns_exchange list" where
  "resolver_Query fqdn ex q0 =
     (let q = query_normalize q0; req = buildQuery fqdn q;
          e0 = exchange_of q req (transportNetwork (QTransport q))
      in case ex 0 e0 of
           Inl err \<Rightarrow> (Inl err, [e0])
         | Inr resp0 \<Rightarrow>
             (case retry_plain ex q req resp0 of
                (resp, es) \<Rightarrow>
                  if QTransport q = ''udp'' \<and> Truncated resp
                  then (let e = exchange_of q req ''tcp''
                        in (ex (1 + length es) e, e0 # es @ [e]))
                  else (Inr resp, e0 # es)))"

subsection \<open>The TCP and ICMP probes\<close>

text \<open>\<open>dial i\<close> is the outcome of the \<open>i\<close>-th attempt: an error or the round trip time.
  \<open>IsTimeout\<close> looks at the error itself, the head of its chain.\<close>

definition IsTimeout :: "go_err \<Rightarrow> bool" where
  "IsTimeout e \<longleftrightarrow> (case e of [] \<Rightarrow> False | s # _ \<Rightarrow> s = NetTimeout)"

definition wrap_err :: "go_err option \<Rightarrow> go_err" where
  "wrap_err e = Plain 0 # (case e of None \<Rightarrow> [] | Some c \<Rightarrow> c)"

definition probe_err :: "go_err \<Rightarrow> go_err" where
  "probe_err e = (case NormalizeErr (Some e) of None \<Rightarrow> e | Some n \<Rightarrow> n)"

fun tcp_tries :: "(nat \<Rightarrow> go_err + int) \<Rightarrow> nat \<Rightarrow> nat \<Rightarrow> go_err option \<Rightarrow> go_err + int \<times> nat" where
  "tcp_tries dial i 0 lastErr = Inl (probe_err (wrap_err lastErr))"
| "tcp_tries dial i (Suc n) lastErr =
     (case dial i of
        Inl err \<Rightarrow> if IsTimeout err then tcp_tries dial (i + 1) n (Some err) else Inl (probe_err err)
      | Inr rtt \<Rightarrow> Inr (rtt, i + 1))"

definition NewTCPProbe_port :: "string \<Rightarrow> u16" where
  "NewTCPProbe_port port = (case parse_uint16 port of None \<Rightarrow> 80 | Some p \<Rightarrow> p)"

definition tcp_Run ::
  "go_err option \<Rightarrow> (nat \<Rightarrow> go_err + int) \<Rightarrow> u16 \<Rightarrow> u16 \<Rightarrow> addr \<Rightarrow> go_err + TCPResult" where
  "tcp_Run ctx dial port tries ip =
     (case ctx of
        Some err \<Rightarrow> Inl err
      | None \<Rightarrow>
          (case tcp_tries dial 0 (unat tries) None of
             Inl err \<Rightarrow> Inl err
           | Inr (rtt, k) \<Rightarrow>
               Inr \<lparr>TcpIP = ip, TcpPortR = port, TcpLatency = rtt, TcpTriesR = int k\<rparr>))"

text \<open>The ICMP probe looks at the context before every attempt and returns both nil when it made
  none.\<close>

fun icmp_tries ::
  "(nat \<Rightarrow> go_err option) \<Rightarrow> (nat \<Rightarrow> go_err + int) \<Rightarrow> nat \<Rightarrow> nat \<Rightarrow> go_err option
   \<Rightarrow> go_err option + int \<times> nat" where
  "icmp_tries ctx ping i 0 lastErr = Inl (NormalizeErr lastErr)"
| "icmp_tries ctx ping i (Suc n) lastErr =
     (case ctx i of
        Some err \<Rightarrow> Inl (Some err)
      | None \<Rightarrow>
          (case ping i of
             Inl err \<Rightarrow> icmp_tries ctx ping (i + 1) n (Some err)
           | Inr rtt \<Rightarrow> Inr (rtt, i + 1)))"

definition icmp_Run ::
  "go_err option \<Rightarrow> (nat \<Rightarrow> go_err option) \<Rightarrow> (nat \<Rightarrow> go_err + int) \<Rightarrow> string \<Rightarrow> string \<Rightarrow> u16 \<Rightarrow> addr
   \<Rightarrow> ICMPResult option \<times> go_err option" where
  "icmp_Run ctx0 ctx ping mode4 mode6 tries ip =
     (case ctx0 of
        Some err \<Rightarrow> (None, Some err)
      | None \<Rightarrow>
          (case icmp_tries ctx ping 0 (unat tries) None of
             Inl err \<Rightarrow> (None, err)
           | Inr (rtt, k) \<Rightarrow>
               (Some \<lparr>IcmpIP = ip, IcmpLatency = rtt, IcmpTriesR = int k,
                      IcmpMode = (if is6 ip then mode6 else mode4)\<rparr>, None)))"

subsection \<open>The resolver probe\<close>

record DNSRequest =
  ReqDomain :: string
  ReqPort :: u16
  ReqRandomSubdomain :: bool
  DpiCheck :: bool
  ReqDpiTimeout :: int
  ReqDpiTries :: int
  Edns0Size :: u16
  ReqCheckTypes :: "string list"
  AcceptedRcodes :: "u16 list"
  ReqTimeout :: int
  ReqTransport :: string
  ReqTries :: int

definition NewResolverProbe :: "DNSRequest \<Rightarrow> DNSRequest" where
  "NewResolverProbe r =
     r\<lparr>ReqTries := (if ReqTries r \<le> 0 then 1 else ReqTries r),
       ReqDpiTries := (if ReqDpiTries r \<le> 0 then 1 else ReqDpiTries r)\<rparr>"

definition probe_query :: "DNSRequest \<Rightarrow> addr \<Rightarrow> string \<Rightarrow> string \<Rightarrow> int \<Rightarrow> Query" where
  "probe_query r ip domain rtype limit =
     \<lparr>QResolver = show_addr ip, QPort = ReqPort r, QDomain = domain, QTransport = ReqTransport r,
      QRecordType = rtype, QEDNS = Edns0Size r, QRecursion = True, QTimeout = limit\<rparr>"

text \<open>\<open>resolveprobe.parseRecordType\<close>.\<close>

definition probe_parseRecordType :: "string \<Rightarrow> string" where
  "probe_parseRecordType s =
     (let t = to_upper (trim_space s)
      in if t \<in> {''A'', ''AAAA'', ''TXT'', ''NS'', ''CNAME'', ''MX''} then t else ''A'')"

text \<open>\<open>ask i q\<close> is the answer to the \<open>i\<close>-th attempt of a query with its latency, \<open>ctx i\<close> the
  context before it; the record types are counted by \<open>j\<close>.\<close>

type_synonym asker = "nat \<Rightarrow> Query \<Rightarrow> go_err + dns_reply \<times> int"

fun honesty_tries ::
  "(nat \<Rightarrow> go_err option) \<Rightarrow> asker \<Rightarrow> Query \<Rightarrow> nat \<Rightarrow> nat \<Rightarrow> go_err option \<Rightarrow> go_err option" where
  "honesty_tries ctx ask q i 0 lastErr = Some (wrap_err lastErr)"
| "honesty_tries ctx ask q i (Suc n) lastErr =
     (case ctx i of
        Some err \<Rightarrow> Some err
      | None \<Rightarrow>
          (case ask i q of
             Inl err \<Rightarrow> honesty_tries ctx ask q (i + 1) n (Some err)
           | Inr (resp, _) \<Rightarrow> if ReplyRcode resp = 0 then Some [Plain 0, ErrBadResponse] else None))"

definition verifyResolverHonesty ::
  "(nat \<Rightarrow> go_err option) \<Rightarrow> asker \<Rightarrow> string \<Rightarrow> DNSRequest \<Rightarrow> addr \<Rightarrow> go_err option" where
  "verifyResolverHonesty ctx ask label r ip =
     honesty_tries ctx ask
       (probe_query r ip (label @ ''.invalid'') ''A''
          (if ReqDpiTimeout r = 0 then 500000000 else ReqDpiTimeout r))
       0 (nat (ReqDpiTries r)) None"

definition isRcodeAccepted :: "DNSRequest \<Rightarrow> u16 \<Rightarrow> bool" where
  "isRcodeAccepted r code \<longleftrightarrow> code \<in> set (AcceptedRcodes r)"

text \<open>The attempts with one record type: an error of the context, the answer that ends them, or
  nothing.\<close>

fun type_tries ::
  "(nat \<Rightarrow> go_err option) \<Rightarrow> asker \<Rightarrow> Query \<Rightarrow> nat \<Rightarrow> nat \<Rightarrow> go_err + (dns_reply \<times> int \<times> nat) option" where
  "type_tries ctx ask q i 0 = Inr None"
| "type_tries ctx ask q i (Suc n) =
     (case ctx i of
        Some err \<Rightarrow> Inl err
      | None \<Rightarrow>
          (case ask i q of
             Inl err \<Rightarrow> type_tries ctx ask q (i + 1) n
           | Inr (resp, latency) \<Rightarrow> Inr (Some (resp, latency, i + 1))))"

fun check_types ::
  "(nat \<Rightarrow> nat \<Rightarrow> go_err option) \<Rightarrow> (nat \<Rightarrow> asker) \<Rightarrow> DNSRequest \<Rightarrow> addr \<Rightarrow> string \<Rightarrow> nat \<Rightarrow> string list
   \<Rightarrow> go_err + ResolverResult" where
  "check_types ctx ask r ip target j [] = Inl [Plain 0, ErrBadResponse]"
| "check_types ctx ask r ip target j (t # ts) =
     (case type_tries (ctx j) (ask j) (probe_query r ip target (probe_parseRecordType t) (ReqTimeout r))
             0 (nat (ReqTries r)) of
        Inl err \<Rightarrow> Inl err
      | Inr None \<Rightarrow> check_types ctx ask r ip target (j + 1) ts
      | Inr (Some (resp, latency, k)) \<Rightarrow>
          if isRcodeAccepted r (word_of_int (ReplyRcode resp))
          then Inr \<lparr>ResIP = ip, ResLatency = latency, RecordType = to_upper t, ResTriesR = int k,
                    Rcode = word_of_int (ReplyRcode resp), DPIChecked = DpiCheck r\<rparr>
          else check_types ctx ask r ip target (j + 1) ts)"

definition executeNormalProbe ::
  "(nat \<Rightarrow> nat \<Rightarrow> go_err option) \<Rightarrow> (nat \<Rightarrow> asker) \<Rightarrow> string \<Rightarrow> DNSRequest \<Rightarrow> addr \<Rightarrow> go_err + ResolverResult" where
  "executeNormalProbe ctx ask label r ip =
     check_types ctx ask r ip
       (if ReqRandomSubdomain r then label @ ''.'' @ ReqDomain r else ReqDomain r) 0 (ReqCheckTypes r)"

text \<open>\<open>labels\<close> are the two random labels, \<open>hctx\<close>, \<open>hask\<close> belong to the honesty check.\<close>

definition resolver_Run ::
  "go_err option \<Rightarrow> (nat \<Rightarrow> go_err option) \<Rightarrow> asker \<Rightarrow> (nat \<Rightarrow> nat \<Rightarrow> go_err option) \<Rightarrow> (nat \<Rightarrow> asker)
   \<Rightarrow> string \<times> string \<Rightarrow> DNSRequest \<Rightarrow> addr \<Rightarrow> go_err + ResolverResult" where
  "resolver_Run ctx0 hctx hask ctx ask labels r ip =
     (case ctx0 of
        Some err \<Rightarrow> Inl err
      | None \<Rightarrow>
          (case (if DpiCheck r then verifyResolverHonesty hctx hask (fst labels) r ip else None) of
             Some err \<Rightarrow> Inl (probe_err err)
           | None \<Rightarrow>
               (case executeNormalProbe ctx ask (snd labels) r ip of
                  Inl err \<Rightarrow> Inl (probe_err err)
                | Inr res \<Rightarrow> Inr res)))"

end
