(* ===== verification/ProbeCorrect.thy ===== *)
theory ProbeCorrect
  imports DNSProbe
begin

text \<open>
  What a query and the retrying probes do: a query makes at most three exchanges with one resolver
  and falls back to TCP only for a truncated UDP answer; the probes return the first answer their
  rule accepts, with the attempt that gave it; and how their failures are counted in the
  statistics of \<open>ScanErrors\<close>.
\<close>

subsection \<open>A query\<close>

lemma query_exchanges_bound: "length (snd (resolver_Query fqdn ex q)) \<le> 3"
  by (auto simp: resolver_Query_def Let_def retry_plain_def split: sum.splits prod.splits if_splits)

lemma query_exchanges_address:
  "e \<in> set (snd (resolver_Query fqdn ex q)) \<Longrightarrow>
   ExAddress e = query_address (query_normalize q) \<and> ExTimeout e = QTimeout (query_normalize q)"
  by (auto simp: resolver_Query_def Let_def retry_plain_def exchange_of_def
      split: sum.splits prod.splits if_splits)

text \<open>An answer over UDP that comes back truncated was asked for again over TCP.\<close>

lemma query_truncated:
  assumes "resolver_Query fqdn ex q = (Inr resp, es)" and "Truncated resp"
    and "QTransport (query_normalize q) = ''udp''"
  shows "ExNetwork (last es) = ''tcp''"
  using assms
  by (auto simp: resolver_Query_def Let_def exchange_of_def split: sum.splits prod.splits if_splits)

lemma query_error_first:
  "ex 0 (exchange_of (query_normalize q) (buildQuery fqdn (query_normalize q))
      (transportNetwork (QTransport (query_normalize q)))) = Inl err
   \<Longrightarrow> fst (resolver_Query fqdn ex q) = Inl err"
  by (simp add: resolver_Query_def Let_def)

subsection \<open>The TCP probe\<close>

lemma tcp_tries_success:
  "(\<forall>j < k. \<exists>e. dial (i + j) = Inl e \<and> IsTimeout e) \<Longrightarrow> k < n \<Longrightarrow> dial (i + k) = Inr rtt
   \<Longrightarrow> tcp_tries dial i n lastErr = Inr (rtt, i + k + 1)"
proof (induction n arbitrary: i k lastErr)
  case (Suc n)
  show ?case
  proof (cases k)
    case 0
    with Suc.prems show ?thesis by simp
  next
    case (Suc k')
    have "dial i = Inl (projl (dial i)) \<and> IsTimeout (projl (dial i))"
      using Suc.prems(1) Suc by (metis add_0_right sum.sel(1) zero_less_Suc)
    moreover have "\<forall>j < k'. \<exists>e. dial (i + 1 + j) = Inl e \<and> IsTimeout e"
      using Suc.prems(1) Suc by (metis Suc_less_eq add.assoc plus_1_eq_Suc)
    ultimately show ?thesis
      using Suc.IH [of k' "i + 1"] Suc.prems(2,3) Suc by (auto split: sum.split)
  qed
qed simp

lemma tcp_tries_all_timeouts:
  "(\<forall>j < n. \<exists>e. dial (i + j) = Inl e \<and> IsTimeout e \<and> \<not> probe_sentinel e)
   \<Longrightarrow> 0 < n \<or> (\<exists>e. lastErr = Some e \<and> IsTimeout e \<and> \<not> probe_sentinel e)
   \<Longrightarrow> \<exists>e. tcp_tries dial i n lastErr = Inl (ErrTimeout # e)"
proof (induction n arbitrary: i lastErr)
  case 0
  then obtain e where "lastErr = Some e" "IsTimeout e" "\<not> probe_sentinel e" by auto
  then show ?case
    by (cases e) (auto simp: IsTimeout_def probe_err_def wrap_err_def NormalizeErr_def err_is_def
        probe_sentinel_def)
next
  case (Suc n)
  have "\<exists>e. dial (i + 0) = Inl e \<and> IsTimeout e \<and> \<not> probe_sentinel e" using Suc.prems(1) by blast
  then obtain e where e: "dial i = Inl e" "IsTimeout e" "\<not> probe_sentinel e" by auto
  have "\<forall>j < n. \<exists>e. dial (i + 1 + j) = Inl e \<and> IsTimeout e \<and> \<not> probe_sentinel e"
    using Suc.prems(1) by (metis Suc_less_eq add.assoc plus_1_eq_Suc)
  from Suc.IH [OF this, of "Some e"] e show ?case by auto
qed

lemma tcp_tries_refused:
  "(\<forall>j < k. \<exists>e. dial (i + j) = Inl e \<and> IsTimeout e) \<Longrightarrow> k < n \<Longrightarrow> dial (i + k) = Inl err \<Longrightarrow> \<not> IsTimeout err
   \<Longrightarrow> tcp_tries dial i n lastErr = Inl (probe_err err)"
proof (induction n arbitrary: i k lastErr)
  case (Suc n)
  show ?case
  proof (cases k)
    case 0
    with Suc.prems show ?thesis by simp
  next
    case (Suc k')
    have "\<exists>e. dial (i + 0) = Inl e \<and> IsTimeout e" using Suc.prems(1) Suc by blast
    then obtain e where "dial i = Inl e" "IsTimeout e" by auto
    moreover have "\<forall>j < k'. \<exists>e. dial (i + 1 + j) = Inl e \<and> IsTimeout e"
      using Suc.prems(1) Suc by (metis Suc_less_eq add.assoc plus_1_eq_Suc)
    ultimately show ?thesis
      using Suc.IH [of k' "i + 1" "Some e"] Suc.prems(2,3,4) Suc by simp
  qed
qed simp

subsection \<open>The resolver probe\<close>

text \<open>The first attempt with one type that was answered.\<close>

definition answer_of :: "asker \<Rightarrow> Query \<Rightarrow> nat \<Rightarrow> (dns_reply \<times> int \<times> nat) option" where
  "answer_of ask q n =
     map_option (\<lambda>i. (fst (projr (ask i q)), snd (projr (ask i q)), i + 1))
       (find (\<lambda>i. \<not> isl (ask i q)) [0 ..< n])"

lemma type_tries_answer:
  "type_tries (\<lambda>_. None) ask q i n =
     Inr (map_option (\<lambda>i. (fst (projr (ask i q)), snd (projr (ask i q)), i + 1))
            (find (\<lambda>i. \<not> isl (ask i q)) [i ..< i + n]))"
proof (induction n arbitrary: i)
  case (Suc n)
  have up: "[i ..< i + Suc n] = i # [i + 1 ..< i + 1 + n]" by (simp add: upt_conv_Cons)
  show ?case
  proof (cases "ask i q")
    case (Inl e)
    then show ?thesis using Suc.IH [of "i + 1"] by (simp only: up) simp
  next
    case (Inr a)
    then show ?thesis by (cases a) (simp only: up, simp)
  qed
qed simp

text \<open>What the probe makes of the answer to the \<open>j\<close>-th type.\<close>

definition type_result ::
  "(nat \<Rightarrow> asker) \<Rightarrow> DNSRequest \<Rightarrow> addr \<Rightarrow> string \<Rightarrow> nat \<Rightarrow> string \<Rightarrow> ResolverResult option" where
  "type_result ask r ip target j t =
     (case answer_of (ask j) (probe_query r ip target (probe_parseRecordType t) (ReqTimeout r))
             (nat (ReqTries r)) of
        None \<Rightarrow> None
      | Some (resp, latency, k) \<Rightarrow>
          if isRcodeAccepted r (word_of_int (ReplyRcode resp))
          then Some \<lparr>ResIP = ip, ResLatency = latency, RecordType = to_upper t, ResTriesR = int k,
                     Rcode = word_of_int (ReplyRcode resp), DPIChecked = DpiCheck r\<rparr>
          else None)"

fun first_Some :: "'a option list \<Rightarrow> 'a option" where
  "first_Some [] = None"
| "first_Some (x # xs) = (case x of None \<Rightarrow> first_Some xs | Some a \<Rightarrow> Some a)"

lemma first_Some_none [simp]: "first_Some (replicate n None) = None"
  by (induction n) auto

definition type_results ::
  "(nat \<Rightarrow> asker) \<Rightarrow> DNSRequest \<Rightarrow> addr \<Rightarrow> string \<Rightarrow> ResolverResult option list" where
  "type_results ask r ip target =
     map (\<lambda>j. type_result ask r ip target j (ReqCheckTypes r ! j)) [0 ..< length (ReqCheckTypes r)]"

lemma check_types_first:
  "check_types (\<lambda>_ _. None) ask r ip target j ts =
     (case first_Some (map (\<lambda>k. type_result ask r ip target (j + k) (ts ! k)) [0 ..< length ts]) of
        None \<Rightarrow> Inl [Plain 0, ErrBadResponse] | Some res \<Rightarrow> Inr res)"
proof (induction ts arbitrary: j)
  case (Cons t ts)
  have up: "[0 ..< length (t # ts)] = 0 # map Suc [0 ..< length ts]"
    by (simp add: upt_conv_Cons map_Suc_upt del: upt_Suc)
  have "map (\<lambda>k. type_result ask r ip target (j + k) ((t # ts) ! k)) [0 ..< length (t # ts)]
      = type_result ask r ip target j t
        # map (\<lambda>k. type_result ask r ip target (j + 1 + k) (ts ! k)) [0 ..< length ts]"
    unfolding up by simp
  with Cons.IH [of "j + 1"] show ?case
    by (simp add: type_tries_answer type_result_def answer_of_def del: upt_Suc split: option.split prod.split)
qed simp


definition demo_request :: DNSRequest where
  "demo_request = NewResolverProbe
     \<lparr>ReqDomain = ''example.com'', ReqPort = 53, ReqRandomSubdomain = False, DpiCheck = False,
      ReqDpiTimeout = 0, ReqDpiTries = 0, Edns0Size = 1232, ReqCheckTypes = [''A'', ''TXT''],
      AcceptedRcodes = [0], ReqTimeout = 1000000000, ReqTransport = ''udp'', ReqTries = 2\<rparr>"

definition demo_ask :: "nat \<Rightarrow> asker" where
  "demo_ask j i q =
     (if j = 1 \<and> i = 1 then Inr (\<lparr>ReplyRcode = 0, Truncated = False\<rparr>, 7000000) else Inl [NetTimeout])"


text \<open>When every attempt of a probe times out, the TCP probe fails with a timeout, and the
  statistics count it as one; the resolver probe fails with a bad response, and the statistics count
  no timeout.\<close>

theorem resolver_timeouts_counted_bad:
  assumes "\<forall>i. dial i = Inl [NetTimeout]" and "0 < tries"
    and "\<not> DpiCheck r" and "\<forall>j i q. ask j i q = Inl [NetTimeout]"
  shows "\<exists>e e'. tcp_Run None dial port tries ip = Inl e
      \<and> resolver_Run None hctx hask (\<lambda>_ _. None) ask labels r ip = Inl e'
      \<and> timeout (fst (count_err e s)) = timeout s + 1
      \<and> timeout (fst (count_err e' s)) = timeout s \<and> badResponse (fst (count_err e' s)) = badResponse s + 1"
proof -
  have "0 < unat tries" using assms(2) by (simp add: word_less_nat_alt)
  then obtain e where e: "tcp_tries dial 0 (unat tries) None = Inl (ErrTimeout # e)"
    using tcp_tries_all_timeouts [of "unat tries" dial 0 None] assms(1)
    by (auto simp: IsTimeout_def probe_sentinel_def err_is_def)
  have none: "type_results ask r ip target = replicate (length (ReqCheckTypes r)) None" for target
    by (rule replicate_eqI)
      (auto simp: type_results_def type_result_def answer_of_def assms(4) find_None_iff
        split: option.split dest: find_Some_iff [THEN iffD1])
  have "resolver_Run None hctx hask (\<lambda>_ _. None) ask labels r ip = Inl [Plain 0, ErrBadResponse]"
    using check_types_first [where j = 0 and ts = "ReqCheckTypes r" and ask = ask and r = r and ip = ip]
      none assms(3) first_Some_none
    by (simp add: resolver_Run_def executeNormalProbe_def type_results_def probe_err_def NormalizeErr_def
        err_is_def)
  with e show ?thesis by (simp add: tcp_Run_def count_err_def err_is_def)
qed

lemma resolver_timeouts_counted_bad_witness:
  "\<exists>e e'. tcp_Run None (\<lambda>_. Inl [NetTimeout]) 443 3 (V4 1) = Inl e
      \<and> resolver_Run None (\<lambda>_. None) (\<lambda>_ _. Inl [NetTimeout]) (\<lambda>_ _. None) (\<lambda>_ _ _. Inl [NetTimeout])
          ([], []) demo_request (V4 1) = Inl e'
      \<and> timeout (fst (count_err e no_errs)) = timeout no_errs + 1
      \<and> timeout (fst (count_err e' no_errs)) = timeout no_errs
      \<and> badResponse (fst (count_err e' no_errs)) = badResponse no_errs + 1"
  by (rule resolver_timeouts_counted_bad) (simp_all add: demo_request_def NewResolverProbe_def)

end
