(* ===== verification/Pipeline.thy ===== *)
theory Pipeline
  imports PoolCorrect
begin

text \<open>
  Chains of stages, \<open>internal/core/scanner/engine/chain.go\<close> and \<open>runPool\<close> of \<open>worker.go\<close>: the
  configuration of a chain, the cancellation cause and the errors a run returns, the goroutine
  that turns a worker's error into a cancellation, and the flow of addresses in the three modes.
  A pool is an operation from the addresses it receives to the addresses it forwards; its law is
  the interface \<open>stage_pools\<close>, which the worker pool of \<open>StageExec\<close> provides.
\<close>

subsection \<open>Configuration\<close>

datatype pipeline_mode = ModeSequential | ModeStreaming | ModeBatch

definition ParsePipelineMode :: "string \<Rightarrow> pipeline_mode" where
  "ParsePipelineMode s =
     (let t = trim_space (to_lower s)
      in if t = ''sequential'' then ModeSequential
         else if t = ''streaming'' then ModeStreaming
         else if t = ''batch'' then ModeBatch
         else ModeSequential)"

record chain_config =
  Mode :: pipeline_mode
  MaxBuffer :: int
  BatchSize :: int
  StageWorkers :: "int list"
  MaxSuccessfulIPs :: u64

definition defaultBatchSize :: int where "defaultBatchSize = 1000"
definition defaultStageChanBuf :: int where "defaultStageChanBuf = 10000"

definition resultLimitFor :: "chain_config \<Rightarrow> nat \<Rightarrow> u64" where
  "resultLimitFor cfg i =
     (if int i = int (length (StageWorkers cfg)) - 1 then MaxSuccessfulIPs cfg else 0)"

definition batchSize :: "chain_config \<Rightarrow> int" where
  "batchSize cfg =
     (if BatchSize cfg \<le> 0 then defaultBatchSize
      else if length (StageWorkers cfg) \<le> 1 then BatchSize cfg
      else max (foldl max 0 (tl (StageWorkers cfg))) (BatchSize cfg))"

definition createStageChannels :: "chain_config \<Rightarrow> int list" where
  "createStageChannels cfg =
     map (\<lambda>i. let size0 = (if MaxBuffer cfg \<le> 0 then defaultStageChanBuf else MaxBuffer cfg)
              in if i + 1 < length (StageWorkers cfg)
                 then max size0 (getWorkerCount (StageWorkers cfg ! (i + 1))) else size0)
       [0 ..< length (StageWorkers cfg)]"

text \<open>Channels by their index: \<open>None\<close> is Go's nil channel.\<close>

definition getInputChannel :: "nat \<Rightarrow> nat option" where
  "getInputChannel i = (if i = 0 then None else Some (i - 1))"

definition getOutputChannel :: "nat \<Rightarrow> nat \<Rightarrow> nat option" where
  "getOutputChannel i n = (if int i \<ge> int n - 1 then None else Some i)"

definition nextExec :: "nat \<Rightarrow> nat \<Rightarrow> nat option" where
  "nextExec i n = (if i + 1 < n then Some (i + 1) else None)"

lemma createStageChannels_positive:
  "\<forall>b \<in> set (createStageChannels cfg). 0 < b"
  by (auto simp: createStageChannels_def defaultStageChanBuf_def Let_def)

text \<open>Every stage but the first reads what the stage before it writes, and only there.\<close>

lemma channels_connect:
  "i < n \<Longrightarrow> getInputChannel i = Some c \<Longrightarrow> getOutputChannel c n = Some c \<and> c = i - 1"
  by (auto simp: getInputChannel_def getOutputChannel_def split: if_splits)

lemma last_stage_has_no_output: "0 < n \<Longrightarrow> getOutputChannel (n - 1) n = None \<and> nextExec (n - 1) n = None"
  by (simp add: getOutputChannel_def nextExec_def)

subsection \<open>Cancellation and errors\<close>

text \<open>The cause of the pipeline's context: the first \<open>cancel\<close> decides, nil means \<open>Canceled\<close>.\<close>

type_synonym ctx_cause = "go_err option"

definition cancel_ctx :: "go_err option \<Rightarrow> ctx_cause \<Rightarrow> ctx_cause" where
  "cancel_ctx arg cause =
     (case cause of
        Some c \<Rightarrow> Some c
      | None \<Rightarrow> Some (case arg of None \<Rightarrow> [Canceled] | Some e \<Rightarrow> e))"

definition stageErr :: "go_err \<Rightarrow> ctx_cause \<Rightarrow> go_err option \<times> ctx_cause" where
  "stageErr e cause =
     (if err_is e ErrResultLimitReached then (None, cancel_ctx None cause)
      else if err_is e ErrWriterFatal then (Some e, cancel_ctx (Some [ErrWriterFatal]) cause)
      else (Some e, cause))"

definition stopCause :: "ctx_cause \<Rightarrow> go_err option" where
  "stopCause cause =
     (case cause of None \<Rightarrow> None | Some c \<Rightarrow> if err_is c Canceled then None else Some c)"

text \<open>The end of \<open>RunScanWithChain\<close>: \<open>err\<close> is what the run of the mode returned.\<close>

definition RunScanWithChain :: "nat \<Rightarrow> go_err option \<Rightarrow> ctx_cause \<Rightarrow> go_err option" where
  "RunScanWithChain stages err cause =
     (if stages = 0 then Some [ErrNoStages]
      else if (case cause of None \<Rightarrow> False | Some c \<Rightarrow> err_is c ErrResultLimitReached) then None
      else case err of Some e \<Rightarrow> Some e | None \<Rightarrow> stopCause cause)"

text \<open>The errors of the stages of a streaming or sequential run, in the order they occur.\<close>

definition run_stage_errs :: "go_err list \<Rightarrow> ctx_cause \<Rightarrow> ctx_cause" where
  "run_stage_errs es cause = fold (\<lambda>e c. snd (stageErr e c)) es cause"

lemma cancel_ctx_kept: "run_stage_errs es (Some c) = Some c"
  by (induction es) (auto simp: run_stage_errs_def stageErr_def cancel_ctx_def)

lemma run_stage_errs_skip:
  "\<forall>e \<in> set es. \<not> terminating e \<Longrightarrow> run_stage_errs es c = c"
  by (induction es arbitrary: c) (auto simp: run_stage_errs_def stageErr_def terminating_def)



subsection \<open>The error channel of a pool\<close>

text \<open>
  \<open>runPool\<close>: workers put their terminating error into a channel of capacity one, a goroutine
  waits for that channel, the context or \<open>done\<close>, and the pool, once all workers have ended,
  closes \<open>done\<close> and reads the cause. A \<open>select\<close> with several ready cases takes any of them.
\<close>

record pool_end =
  worker_errs :: "go_err list"
  errCh :: "go_err option"
  done_closed :: bool
  watcher :: bool
  cause :: ctx_cause
  returned :: "go_err option option"

definition pool_end_start :: "go_err list \<Rightarrow> ctx_cause \<Rightarrow> pool_end" where
  "pool_end_start es c =
     \<lparr>worker_errs = es, errCh = None, done_closed = False, watcher = True, cause = c, returned = None\<rparr>"

inductive pool_end_step :: "pool_end \<Rightarrow> pool_end \<Rightarrow> bool" where
  pe_report: "worker_errs p = e # es
    \<Longrightarrow> pool_end_step p (p\<lparr>worker_errs := es, errCh := (case errCh p of None \<Rightarrow> Some e | Some x \<Rightarrow> Some x)\<rparr>)"
| pe_close: "worker_errs p = [] \<Longrightarrow> pool_end_step p (p\<lparr>done_closed := True\<rparr>)"
| pe_watch_err: "watcher p \<Longrightarrow> errCh p = Some e
    \<Longrightarrow> pool_end_step p (p\<lparr>watcher := False, errCh := None, cause := cancel_ctx (Some e) (cause p)\<rparr>)"
| pe_watch_ctx: "watcher p \<Longrightarrow> cause p \<noteq> None \<Longrightarrow> pool_end_step p (p\<lparr>watcher := False\<rparr>)"
| pe_watch_done: "watcher p \<Longrightarrow> done_closed p \<Longrightarrow> pool_end_step p (p\<lparr>watcher := False\<rparr>)"
| pe_return: "done_closed p \<Longrightarrow> returned p = None
    \<Longrightarrow> pool_end_step p (p\<lparr>returned := Some (stopCause (cause p))\<rparr>)"

inductive_simps pool_end_step_iff: "pool_end_step p p'"

definition pool_end_inv :: "go_err list \<Rightarrow> ctx_cause \<Rightarrow> pool_end \<Rightarrow> bool" where
  "pool_end_inv es c p \<longleftrightarrow>
     set (worker_errs p) \<subseteq> set es \<and> set_option (errCh p) \<subseteq> set es
     \<and> (cause p = c \<or> (c = None \<and> (\<exists>e \<in> set es. cause p = Some e)))
     \<and> (\<forall>r. returned p = Some r \<longrightarrow> r = stopCause c \<or> r = None \<or> (c = None \<and> (\<exists>e \<in> set es. r = Some e)))"

interpretation pool_end_sys:
  invariant_system "\<lambda>p. p = pool_end_start es c" pool_end_step "pool_end_inv es c"
  for es c
proof
  show "pool_end_inv es c p" if "p = pool_end_start es c" for p
    using that by (simp add: pool_end_inv_def pool_end_start_def)
  show "pool_end_inv es c p'" if "pool_end_step p p'" "pool_end_inv es c p" for p p'
    using that
    by (induction rule: pool_end_step.induct)
      (auto simp: pool_end_inv_def cancel_ctx_def stopCause_def split: option.splits if_splits)
qed

text \<open>A batch run can swallow a fatal writer error. The pool's \<open>stageErr\<close> is not called in
  batch mode, so only the watcher cancels; but the pool may close \<open>done\<close> and return before the
  watcher has read the error, or the watcher takes \<open>done\<close> instead: the pool returns nil, nothing
  is cancelled, and the run goes on as if the results had been stored.\<close>

theorem batch_writer_error_lost:
  "\<exists>p. pool_end_step\<^sup>*\<^sup>* (pool_end_start [[ErrWriterFatal]] None) p
     \<and> returned p = Some None \<and> \<not> watcher p \<and> cause p = None
     \<and> RunScanWithChain 2 None (cause p) = None"
proof -
  define p0 where "p0 = pool_end_start [[ErrWriterFatal]] None"
  define p1 where "p1 = p0\<lparr>worker_errs := [], errCh := Some [ErrWriterFatal]\<rparr>"
  define p2 where "p2 = p1\<lparr>done_closed := True\<rparr>"
  define p3 where "p3 = p2\<lparr>watcher := False\<rparr>"
  define p4 where "p4 = p3\<lparr>returned := Some None\<rparr>"
  note defs = p4_def p3_def p2_def p1_def p0_def pool_end_start_def stopCause_def
  have s1: "pool_end_step p0 p1" using pe_report [of p0 "[ErrWriterFatal]" "[]"] by (simp add: defs)
  have s2: "pool_end_step p1 p2" using pe_close [of p1] by (simp add: defs)
  have s3: "pool_end_step p2 p3" using pe_watch_done [of p2] by (simp add: defs)
  have s4: "pool_end_step p3 p4" using pe_return [of p3] by (simp add: defs)
  note step = rtranclp.rtrancl_into_rtrancl
  have "pool_end_step\<^sup>*\<^sup>* p0 p4"
    by (rule step [OF step [OF step [OF r_into_rtranclp [of pool_end_step, OF s1] s2] s3] s4])
  then show ?thesis
    unfolding p0_def [symmetric]
    by (intro exI [of _ p4]) (simp add: defs RunScanWithChain_def)
qed

subsection \<open>The flow of addresses\<close>

text \<open>\<open>streamBatches\<close>: the batches sent for the addresses of the input.\<close>

fun batch_loop :: "nat \<Rightarrow> addr list \<Rightarrow> addr list \<Rightarrow> addr list list" where
  "batch_loop bs batch [] = (if batch = [] then [] else [batch])"
| "batch_loop bs batch (ip # ips) =
     (let b = batch @ [ip]
      in if length b = bs then b # batch_loop bs [] ips else batch_loop bs b ips)"

definition streamBatches :: "nat \<Rightarrow> addr list \<Rightarrow> addr list list" where
  "streamBatches bs ips = batch_loop bs [] ips"

text \<open>
  \<open>processBatch\<close> on the stages in order; \<open>run i\<close> is the pool of stage \<open>i\<close>. The second result is
  the totals of the stages, which grow by what is forwarded to them.
\<close>

fun processBatch ::
  "(nat \<Rightarrow> addr list \<Rightarrow> addr list) \<Rightarrow> nat list \<Rightarrow> addr list \<Rightarrow> (nat \<Rightarrow> u64)
   \<Rightarrow> addr list \<times> (nat \<Rightarrow> u64)" where
  "processBatch run [] current totals = (current, totals)"
| "processBatch run (i # is) current totals =
     (if current = [] then ([], totals)
      else let out = run i current
           in processBatch run is out
                (case is of [] \<Rightarrow> totals
                 | j # _ \<Rightarrow> totals(j := totals j + of_nat (length out))))"

fun runBatch ::
  "(nat \<Rightarrow> addr list \<Rightarrow> addr list) \<Rightarrow> nat list \<Rightarrow> addr list list \<Rightarrow> (nat \<Rightarrow> u64)
   \<Rightarrow> addr list \<times> (nat \<Rightarrow> u64)" where
  "runBatch run is [] totals = ([], totals)"
| "runBatch run is (b # bs) totals =
     (case processBatch run is b totals of
        (out, totals') \<Rightarrow> (case runBatch run is bs totals' of (outs, t) \<Rightarrow> (out @ outs, t)))"

text \<open>\<open>runStreaming\<close>: the stages run at the same time, each on the channel of the one before.\<close>

fun runStreaming :: "(nat \<Rightarrow> addr list \<Rightarrow> addr list) \<Rightarrow> nat list \<Rightarrow> addr list \<Rightarrow> addr list" where
  "runStreaming run [] input = input"
| "runStreaming run (i # is) input = runStreaming run is (run i input)"

text \<open>\<open>runSequential\<close>: the results of a stage are stored, and the next stage streams the file;
  \<open>persist\<close> is that round trip, and an empty file ends the run.\<close>

fun runSequential ::
  "(nat \<Rightarrow> addr list \<Rightarrow> addr list) \<Rightarrow> (addr list \<Rightarrow> addr list) \<Rightarrow> nat list \<Rightarrow> addr list \<Rightarrow> addr list" where
  "runSequential run persist [] input = input"
| "runSequential run persist [i] input = run i input"
| "runSequential run persist (i # j # is) input =
     (let out = run i input
      in if out = [] then [] else runSequential run persist (j # is) (persist out))"

lemma batch_loop_concat: "concat (batch_loop bs batch ips) = batch @ ips"
  by (induction bs batch ips rule: batch_loop.induct) (auto simp: Let_def)

lemma batch_loop_sizes:
  "length batch < bs \<Longrightarrow>
   (\<forall>b \<in> set (batch_loop bs batch ips). b \<noteq> [] \<and> length b \<le> bs)
   \<and> (\<forall>b \<in> set (butlast (batch_loop bs batch ips)). length b = bs)"
proof (induction ips arbitrary: batch)
  case (Cons ip ips)
  show ?case
  proof (cases "Suc (length batch) = bs")
    case True
    then have "0 < bs" by simp
    with Cons.IH [of "[]"] True show ?thesis by (simp add: Let_def)
  next
    case False
    with Cons.IH [of "batch @ [ip]"] Cons.prems show ?thesis by (simp add: Let_def)
  qed
qed simp

text \<open>The interface of the pools: in a run that is \<open>good\<close> (no limit, no fatal error) a pool
  forwards the addresses that pass its stage.\<close>

locale stage_pools =
  fixes run :: "nat \<Rightarrow> addr list \<Rightarrow> addr list" and pass :: "nat \<Rightarrow> addr \<Rightarrow> bool" and good :: bool
  assumes run_passes: "good \<Longrightarrow> mset (run i xs) = mset (filter (pass i) xs)"
begin

definition pass_all :: "nat list \<Rightarrow> addr \<Rightarrow> bool" where
  "pass_all is ip \<longleftrightarrow> (\<forall>i \<in> set is. pass i ip)"

lemma mset_filter_cong: "mset xs = mset ys \<Longrightarrow> mset (filter Q xs) = mset (filter Q ys)"
  by (simp add: mset_filter)

lemma streaming_passes: "good \<Longrightarrow> mset (runStreaming run is xs) = mset (filter (pass_all is) xs)"
proof (induction "is" arbitrary: xs)
  case (Cons i "is")
  have "mset (runStreaming run (i # is) xs) = mset (filter (pass_all is) (filter (pass i) xs))"
    using Cons mset_filter_cong [OF run_passes [OF Cons.prems]] by simp
  also have "filter (pass_all is) (filter (pass i) xs) = filter (pass_all (i # is)) xs"
    by (auto simp: pass_all_def intro: filter_cong)
  finally show ?case .
qed (simp add: pass_all_def)

lemma processBatch_streaming: "good \<Longrightarrow> fst (processBatch run is xs t) = (if xs = [] then [] else runStreaming run is xs)"
proof (induction "is" arbitrary: xs t)
  case (Cons i "is")
  have "runStreaming run is [] = []"
    using streaming_passes [OF Cons.prems, of "is" "[]"] by simp
  then show ?case using Cons by (auto simp: Let_def split: list.split)
qed simp

lemma batch_passes: "good \<Longrightarrow> mset (fst (runBatch run is bs t)) = mset (filter (pass_all is) (concat bs))"
proof (induction bs arbitrary: t)
  case (Cons b bs)
  obtain out t' where b: "processBatch run is b t = (out, t')" by fastforce
  obtain outs t'' where bs: "runBatch run is bs t' = (outs, t'')" by fastforce
  have "mset out = mset (filter (pass_all is) b)"
    using processBatch_streaming [of "is" b t] Cons.prems
    by (simp add: b streaming_passes split: if_splits)
  moreover have "mset outs = mset (filter (pass_all is) (concat bs))"
    using Cons.IH [of t'] Cons.prems by (simp add: bs)
  ultimately show ?case by (simp add: b bs)
qed simp

lemma run_set: "good \<Longrightarrow> set (run i xs) = {x \<in> set xs. pass i x}"
  by (metis run_passes set_filter set_mset_mset)

lemma sequential_passes:
  assumes good and "\<And>xs. set (persist xs) = set xs"
  shows "set (runSequential run persist is xs) = {x \<in> set xs. pass_all is x}"
proof (induction "is" arbitrary: xs)
  case (Cons i "is")
  show ?case
  proof (cases "is")
    case Nil
    then show ?thesis using assms(1) by (auto simp: run_set pass_all_def)
  next
    case (Cons j js)
    have "set (runSequential run persist is (persist (run i xs))) = {x \<in> set xs. pass i x \<and> pass_all is x}"
      using assms(1) by (auto simp: Cons.IH assms(2) run_set)
    moreover have "run i xs = [] \<Longrightarrow> {x \<in> set xs. pass i x} = {}"
      using run_set [OF assms(1), of i xs] by simp
    ultimately show ?thesis using Cons by (auto simp: Let_def pass_all_def)
  qed
qed (simp add: pass_all_def)

end

text \<open>The worker pool without a result limit provides the interface.\<close>

definition pool_run :: "(addr \<Rightarrow> 'r call) \<Rightarrow> 'r executor \<Rightarrow> addr list \<Rightarrow> addr list" where
  "pool_run env e ips = fst (snd (runWorker env ips e))"

lemma pool_run_passes:
  fixes env :: "addr \<Rightarrow> 'r call"
  assumes "resultLimit e = 0" and "well_behaved (\<lambda>_. env) e"
  shows "mset (pool_run env e ips) = mset (filter (passes (\<lambda>_. env)) ips)"
proof -
  let ?start = "pool_start e 1 ips"
  have start: "wpcs ?start = [Ready]" "queue ?start = ips" "\<not> ctx_done ?start" "exec ?start = e"
    "passed ?start = []" by (simp_all add: pool_start_def)
  obtain er out e' where rw: "runWorker env ips e = (er, out, e')" by (metis prod_cases3)
  obtain p where p: "(worker_step (\<lambda>_. env))\<^sup>*\<^sup>* ?start p" "\<not> ctx_done p" "all_exited p" "passed p = out"
    using runWorker_run [OF start(1-3), of "\<lambda>_. env"] rw unfolding start(4,5)
    by (auto simp: all_exited_def)
  from pool_flow [OF p(1,3,2) _ assms] p(4) rw show ?thesis by (simp add: pool_run_def)
qed

text \<open>The pools of a chain: stage \<open>i\<close> answers with \<open>envs i\<close>.\<close>

definition chain_pools :: "(nat \<Rightarrow> addr \<Rightarrow> 'r call) \<Rightarrow> 'r executor \<Rightarrow> nat \<Rightarrow> addr list \<Rightarrow> addr list" where
  "chain_pools envs e i ips = pool_run (envs i) e ips"

definition chain_ok :: "(nat \<Rightarrow> addr \<Rightarrow> 'r call) \<Rightarrow> 'r executor \<Rightarrow> bool" where
  "chain_ok envs e \<longleftrightarrow> resultLimit e = 0 \<and> (\<forall>i. well_behaved (\<lambda>_. envs i) e)"

definition stage_passes :: "(nat \<Rightarrow> addr \<Rightarrow> 'r call) \<Rightarrow> nat \<Rightarrow> addr \<Rightarrow> bool" where
  "stage_passes envs i ip \<longleftrightarrow> passes (\<lambda>_. envs i) ip"

interpretation chain: stage_pools "chain_pools envs e" "stage_passes envs" "chain_ok envs e"
  for envs :: "nat \<Rightarrow> addr \<Rightarrow> 'r call" and e :: "'r executor"
  by unfold_locales
    (simp add: chain_ok_def chain_pools_def pool_run_passes stage_passes_def [abs_def])



text \<open>Batching partitions the input: the batches in order are the input, all of them are
  non-empty and as long as the batch size, except possibly a shorter last one.\<close>

theorem batches_partition_input:
  assumes "0 < bs"
  shows "concat (streamBatches bs ips) = ips
    \<and> (\<forall>b \<in> set (streamBatches bs ips). b \<noteq> [] \<and> length b \<le> bs)
    \<and> (\<forall>b \<in> set (butlast (streamBatches bs ips)). length b = bs)"
  using batch_loop_concat [of bs "[]" ips] batch_loop_sizes [of "[]" bs ips] assms
  by (simp add: streamBatches_def)

lemma batches_partition_input_witness:
  "concat (streamBatches 2 [V4 1, V4 2, V4 3]) = [V4 1, V4 2, V4 3]"
  using batches_partition_input [of 2 "[V4 1, V4 2, V4 3]"] by simp

end
