(* ===== verification/ConfigModel.thy ===== *)
theory ConfigModel
  imports Prelude
begin

text \<open>
  The settings of the scanner, \<open>internal/core/config\<close>: durations in milliseconds
  (\<open>types.go\<close>), platform and resource tier (\<open>profile.go\<close>), one record per settings file and its
  table of defaults. Go's \<open>int\<close> and \<open>int64\<close> are integers with the wrap-around written out where
  the code computes; \<open>uint16\<close> fields are words. The tables have a row for every platform and
  tier, so the fall-backs of the \<open>Default...\<close> functions are never taken and the tables are
  total functions here.
\<close>

named_theorems cfg_defs "definitions of the settings model that proofs unfold"

subsection \<open>Durations\<close>

text \<open>A \<open>time.Duration\<close> is a number of nanoseconds, a \<open>DurationMS\<close> a number of milliseconds.\<close>

definition Millisecond :: int where [cfg_defs]: "Millisecond = 1000000"
definition Second :: int where [cfg_defs]: "Second = 1000000000"
definition Minute :: int where [cfg_defs]: "Minute = 60000000000"

text \<open>\<open>Milliseconds()\<close> divides towards zero.\<close>

definition NewDurationMS :: "int \<Rightarrow> int" where
  "NewDurationMS d = sgn d * (\<bar>d\<bar> div 1000000)"

definition Duration :: "int \<Rightarrow> int" where
  "Duration ms = wrap64 (ms * 1000000)"

subsection \<open>Connectivity tests\<close>

text \<open>\<open>ConnectivityTest\<close> is a \<open>uint8\<close>; the four names are its first values.\<close>

type_synonym connectivity = "8 word"

definition Both :: connectivity where [cfg_defs]: "Both = 3"

definition IsValid :: "connectivity \<Rightarrow> bool" where
  "IsValid c \<longleftrightarrow> c \<le> Both"

definition connectivity_name :: "connectivity \<Rightarrow> string" where
  "connectivity_name c =
     (let names = [''Connectivity Only'', ''Download Speed Only'', ''Upload Speed Only'', ''Both'']
      in if unat c < length names then names ! unat c else ''Unknown'')"

lemma connectivity_named_iff: "connectivity_name c \<noteq> ''Unknown'' \<longleftrightarrow> IsValid c"
proof -
  have "unat c < 4 \<Longrightarrow> unat c = 0 \<or> unat c = 1 \<or> unat c = 2 \<or> unat c = 3" by arith
  then show ?thesis
    by (auto simp: connectivity_name_def Let_def IsValid_def Both_def word_le_nat_alt nth_Cons'
        split: if_splits)
qed

subsection \<open>Platform and tier\<close>

datatype platform = Android | Desktop | Server
datatype tier = Low | Mid | High

record system_resources =
  CPUCores :: int
  FDLimit :: u64

text \<open>What the platform detection reads from the machine; \<open>None\<close> is an error of the call.\<close>

record env_reader =
  Getenv :: "string \<Rightarrow> string"
  StatOk :: "string \<Rightarrow> bool"
  ReadFile :: "string \<Rightarrow> string option"

definition isServer :: "string \<Rightarrow> env_reader \<Rightarrow> bool" where
  "isServer goos env =
     (if goos \<noteq> ''linux'' then False
      else if Getenv env ''DISPLAY'' \<noteq> [] \<or> Getenv env ''WAYLAND_DISPLAY'' \<noteq> [] then False
      else if StatOk env ''/.dockerenv'' then True
      else case ReadFile env ''/proc/1/comm'' of
             Some pid1 \<Rightarrow> trim_space pid1 = ''systemd''
           | None \<Rightarrow> False)"

definition isTermux :: "env_reader \<Rightarrow> bool" where
  "isTermux env =
     (if Getenv env ''TERMUX_VERSION'' \<noteq> [] then True
      else StatOk env ''/data/data/com.termux/files/usr'')"

definition DetectPlatform :: "string \<Rightarrow> env_reader \<Rightarrow> platform" where
  "DetectPlatform goos env =
     (if goos = ''android'' then Android
      else if goos = ''linux'' then
        (if isTermux env then Android else if isServer goos env then Server else Desktop)
      else Desktop)"

definition SelectTier :: "system_resources \<Rightarrow> tier" where
  "SelectTier res =
     (if FDLimit res < 512 \<or> CPUCores res \<le> 2 then Low
      else if FDLimit res < 4096 \<or> CPUCores res \<le> 8 then Mid
      else High)"

text \<open>More of a resource never lowers the tier.\<close>

primrec tier_rank :: "tier \<Rightarrow> nat" where
  "tier_rank Low = 0"
| "tier_rank Mid = 1"
| "tier_rank High = 2"

lemma SelectTier_mono:
  "CPUCores r \<le> CPUCores r' \<Longrightarrow> FDLimit r \<le> FDLimit r' \<Longrightarrow> tier_rank (SelectTier r) \<le> tier_rank (SelectTier r')"
  by (auto simp: SelectTier_def)

subsection \<open>General settings\<close>

record GeneralConfig =
  StatusInterval :: int
  MaxSuccessful :: int
  MaxIPsToTest :: int
  PipelineMode :: string
  MaxIPsPerStage :: int
  GenBatchSize :: int
  Shuffled :: bool
  MinProbeDuration :: int
  ProbePerSec :: int
  ProbeBurst :: int

definition general_row :: "int \<Rightarrow> int \<Rightarrow> int \<Rightarrow> int \<Rightarrow> int \<Rightarrow> GeneralConfig" where [cfg_defs]:
  "general_row stage batch probe persec burst =
     \<lparr>StatusInterval = NewDurationMS (1 * Second), MaxSuccessful = 0, MaxIPsToTest = 0,
      PipelineMode = ''streaming'', MaxIPsPerStage = stage, GenBatchSize = batch, Shuffled = True,
      MinProbeDuration = NewDurationMS (probe * Millisecond), ProbePerSec = persec,
      ProbeBurst = burst\<rparr>"

fun DefaultGeneralConfig :: "platform \<Rightarrow> tier \<Rightarrow> GeneralConfig" where
  "DefaultGeneralConfig Server Low = general_row 50000 2000 20 400 100"
| "DefaultGeneralConfig Server Mid = general_row 200000 10000 10 800 200"
| "DefaultGeneralConfig Server High = general_row 500000 20000 5 2000 300"
| "DefaultGeneralConfig Desktop Low = general_row 20000 1000 50 200 50"
| "DefaultGeneralConfig Desktop Mid = general_row 100000 5000 50 500 100"
| "DefaultGeneralConfig Desktop High = general_row 100000 5000 50 800 100"
| "DefaultGeneralConfig Android Low = general_row 10000 500 100 120 30"
| "DefaultGeneralConfig Android Mid = general_row 50000 2000 80 160 50"
| "DefaultGeneralConfig Android High = general_row 100000 5000 50 220 100"

subsection \<open>Writer settings\<close>

record WriterConfig =
  MergeFlushInterval :: int
  ChanSize :: int
  WrBatchSize :: int
  ResultBaseDir :: string
  IgnoreErr :: bool

definition writerBase :: WriterConfig where [cfg_defs]:
  "writerBase = \<lparr>MergeFlushInterval = NewDurationMS (2 * Second), ChanSize = 0, WrBatchSize = 0,
                ResultBaseDir = ''result'', IgnoreErr = False\<rparr>"

definition withWriter :: "WriterConfig \<Rightarrow> int \<Rightarrow> int \<Rightarrow> WriterConfig" where [cfg_defs]:
  "withWriter base chanSize batchSize = base\<lparr>ChanSize := chanSize, WrBatchSize := batchSize\<rparr>"

fun DefaultWriterConfig :: "platform \<Rightarrow> tier \<Rightarrow> WriterConfig" where
  "DefaultWriterConfig Server Low = withWriter writerBase 1024 4096"
| "DefaultWriterConfig Server Mid = withWriter writerBase 4096 16384"
| "DefaultWriterConfig Server High = withWriter writerBase 16384 65536"
| "DefaultWriterConfig Desktop Low = withWriter writerBase 512 2048"
| "DefaultWriterConfig Desktop Mid = withWriter writerBase 1024 4096"
| "DefaultWriterConfig Desktop High = withWriter writerBase 2048 8192"
| "DefaultWriterConfig Android Low = withWriter writerBase 128 512"
| "DefaultWriterConfig Android Mid = withWriter writerBase 256 1024"
| "DefaultWriterConfig Android High = withWriter writerBase 512 2048"

subsection \<open>TCP and ICMP settings\<close>

record TCPConfig =
  TcpWorkers :: int
  TcpPort :: int
  TcpTimeout :: int
  TcpTries :: u16
  TcpPrefix :: string

definition tcp_row :: "int \<Rightarrow> int \<Rightarrow> TCPConfig" where [cfg_defs]:
  "tcp_row workers ms =
     \<lparr>TcpWorkers = workers, TcpPort = 443, TcpTimeout = NewDurationMS (ms * Millisecond),
      TcpTries = 1, TcpPrefix = ''tcp_''\<rparr>"

fun DefaultTCPConfig :: "platform \<Rightarrow> tier \<Rightarrow> TCPConfig" where
  "DefaultTCPConfig Server Low = tcp_row 100 2000"
| "DefaultTCPConfig Server Mid = tcp_row 400 2000"
| "DefaultTCPConfig Server High = tcp_row 1000 1500"
| "DefaultTCPConfig Desktop Low = tcp_row 30 2000"
| "DefaultTCPConfig Desktop Mid = tcp_row 200 2000"
| "DefaultTCPConfig Desktop High = tcp_row 400 2000"
| "DefaultTCPConfig Android Low = tcp_row 20 3000"
| "DefaultTCPConfig Android Mid = tcp_row 100 3000"
| "DefaultTCPConfig Android High = tcp_row 150 2500"

record ICMPConfig =
  IcmpWorkers :: int
  IcmpTimeout :: int
  IcmpTries :: u16
  IcmpPrefix :: string

definition icmp_row :: "int \<Rightarrow> int \<Rightarrow> ICMPConfig" where [cfg_defs]:
  "icmp_row workers ms =
     \<lparr>IcmpWorkers = workers, IcmpTimeout = NewDurationMS (ms * Millisecond), IcmpTries = 1,
      IcmpPrefix = ''icmp_''\<rparr>"

fun DefaultICMPConfig :: "platform \<Rightarrow> tier \<Rightarrow> ICMPConfig" where
  "DefaultICMPConfig Server Low = icmp_row 100 2000"
| "DefaultICMPConfig Server Mid = icmp_row 400 2000"
| "DefaultICMPConfig Server High = icmp_row 1000 1500"
| "DefaultICMPConfig Desktop Low = icmp_row 30 2000"
| "DefaultICMPConfig Desktop Mid = icmp_row 150 2000"
| "DefaultICMPConfig Desktop High = icmp_row 300 2000"
| "DefaultICMPConfig Android Low = icmp_row 15 3000"
| "DefaultICMPConfig Android Mid = icmp_row 60 3000"
| "DefaultICMPConfig Android High = icmp_row 100 2500"

subsection \<open>HTTP settings\<close>

record HTTPConfig =
  HttpWorkers :: int
  Host :: string
  ServerName :: string
  HttpPort :: int
  Protocol :: string
  HttpVersion :: string
  Fingerprint :: string
  TLSValidation :: bool
  MinTLSVersion :: string
  MaxTLSVersion :: string
  HttpTimeout :: int
  HttpPrefix :: string
  AcceptedStatusCodes :: "int list"

definition httpBase :: HTTPConfig where [cfg_defs]:
  "httpBase =
     \<lparr>HttpWorkers = 0, Host = ''example.com'', ServerName = [], HttpPort = 443, Protocol = ''https'',
      HttpVersion = ''h1,h2'', Fingerprint = [], TLSValidation = True, MinTLSVersion = ''tls1.1'',
      MaxTLSVersion = ''tls1.3'', HttpTimeout = 0, HttpPrefix = ''http_'', AcceptedStatusCodes = []\<rparr>"

definition withHTTP :: "HTTPConfig \<Rightarrow> int \<Rightarrow> int \<Rightarrow> HTTPConfig" where [cfg_defs]:
  "withHTTP base workers timeout = base\<lparr>HttpWorkers := workers, HttpTimeout := NewDurationMS timeout\<rparr>"

fun DefaultHTTPConfig :: "platform \<Rightarrow> tier \<Rightarrow> HTTPConfig" where
  "DefaultHTTPConfig Server Low = withHTTP httpBase 50 (4 * Second)"
| "DefaultHTTPConfig Server Mid = withHTTP httpBase 200 (3 * Second)"
| "DefaultHTTPConfig Server High = withHTTP httpBase 500 (2 * Second)"
| "DefaultHTTPConfig Desktop Low = withHTTP httpBase 20 (4 * Second)"
| "DefaultHTTPConfig Desktop Mid = withHTTP httpBase 50 (4 * Second)"
| "DefaultHTTPConfig Desktop High = withHTTP httpBase 100 (3 * Second)"
| "DefaultHTTPConfig Android Low = withHTTP httpBase 5 (5 * Second)"
| "DefaultHTTPConfig Android Mid = withHTTP httpBase 15 (5 * Second)"
| "DefaultHTTPConfig Android High = withHTTP httpBase 30 (4 * Second)"

text \<open>The labels of \<open>utlsClientHelloIDMap\<close>; the identifiers belong to the uTLS library, so a
  lookup gives the position of the entry.\<close>

definition utlsLabels :: "string list" where [cfg_defs]:
  "utlsLabels =
     [''random'', ''Firefox'', ''Firefox_55'', ''Firefox_56'', ''Firefox_63'', ''Firefox_65'',
      ''Firefox_99'', ''Firefox_102'', ''Firefox_105'', ''Firefox_120'', ''Chrome'', ''Chrome_58'',
      ''Chrome_62'', ''Chrome_70'', ''Chrome_72'', ''Chrome_83'', ''Chrome_87'', ''Chrome_96'',
      ''Chrome_100'', ''Chrome_102'', ''Chrome_120'', ''iOS'', ''iOS_11_1'', ''iOS_12_1'', ''iOS_13'',
      ''iOS_14'']"

definition UTLSLookup :: "string \<Rightarrow> nat option" where
  "UTLSLookup label = find (\<lambda>i. equal_fold label (utlsLabels ! i)) [0 ..< length utlsLabels]"

definition ValidFingerprint :: "string \<Rightarrow> bool" where
  "ValidFingerprint label \<longleftrightarrow> UTLSLookup label \<noteq> None"

lemma ValidFingerprint_iff: "ValidFingerprint label \<longleftrightarrow> (\<exists>l \<in> set utlsLabels. equal_fold label l)"
proof -
  have "UTLSLookup label \<noteq> None \<longleftrightarrow> (\<exists>i < length utlsLabels. equal_fold label (utlsLabels ! i))"
    by (auto simp: UTLSLookup_def find_None_iff)
  then show ?thesis unfolding ValidFingerprint_def by (metis in_set_conv_nth)
qed

subsection \<open>Xray settings\<close>

record XrayConfig =
  XrayWorkers :: int
  ConnectivityTestType :: connectivity
  DownloadSpeed :: int
  UploadSpeed :: int
  XrayTimeout :: int
  SpeedTestTimeout :: int
  XrayPrefix :: string
  PreScanType :: string
  MaxConcurrentDials :: int
  DialMaxAttempts :: int

definition xrayBase :: XrayConfig where [cfg_defs]:
  "xrayBase =
     \<lparr>XrayWorkers = 0, ConnectivityTestType = Both, DownloadSpeed = 0, UploadSpeed = 0,
      XrayTimeout = 0, SpeedTestTimeout = 0, XrayPrefix = ''xray_'', PreScanType = ''tcp'',
      MaxConcurrentDials = 0, DialMaxAttempts = 0\<rparr>"

definition withXray ::
  "XrayConfig \<Rightarrow> int \<Rightarrow> int \<Rightarrow> int \<Rightarrow> int \<Rightarrow> int \<Rightarrow> int \<Rightarrow> int \<Rightarrow> XrayConfig" where [cfg_defs]:
  "withXray base workers down up timeout speedTimeout dials attempts =
     base\<lparr>XrayWorkers := workers, DownloadSpeed := down, UploadSpeed := up,
         XrayTimeout := NewDurationMS timeout, SpeedTestTimeout := NewDurationMS speedTimeout,
         MaxConcurrentDials := dials, DialMaxAttempts := attempts\<rparr>"

fun DefaultXrayConfig :: "platform \<Rightarrow> tier \<Rightarrow> XrayConfig" where
  "DefaultXrayConfig Server Low = withXray xrayBase 16 50 25 (2 * Second) (6 * Second) 128 2"
| "DefaultXrayConfig Server Mid = withXray xrayBase 32 100 50 (2 * Second) (6 * Second) 256 3"
| "DefaultXrayConfig Server High = withXray xrayBase 64 200 100 (2 * Second) (5 * Second) 512 3"
| "DefaultXrayConfig Desktop Low = withXray xrayBase 8 50 25 (3 * Second) (6 * Second) 64 2"
| "DefaultXrayConfig Desktop Mid = withXray xrayBase 16 100 50 (2 * Second) (6 * Second) 128 3"
| "DefaultXrayConfig Desktop High = withXray xrayBase 32 150 75 (2 * Second) (5 * Second) 256 3"
| "DefaultXrayConfig Android Low = withXray xrayBase 4 20 10 (3 * Second) (6 * Second) 32 2"
| "DefaultXrayConfig Android Mid = withXray xrayBase 8 50 25 (2 * Second) (6 * Second) 64 3"
| "DefaultXrayConfig Android High = withXray xrayBase 16 80 40 (2 * Second) (6 * Second) 128 3"

subsection \<open>DNS settings\<close>

record DPIConfig =
  DpiEnabled :: bool
  DpiTimeout :: int
  DpiTries :: int

record ResolverConfig =
  ResWorkers :: int
  Transport :: string
  Domain :: string
  ResPort :: u16
  CheckTypes :: "string list"
  EDNSBufSize :: u16
  ResTimeout :: int
  ResTries :: int
  RandomSubdomain :: bool
  AcceptedRCodes :: "string list"
  ResPrefix :: string
  DPI :: DPIConfig

record DNSTunneling =
  TunWorkers :: int
  TunTries :: int
  TunTimeout :: int
  CheckDNSResolver :: bool
  AdaptiveResolver :: bool
  TunPrefix :: string

record DNSConfig =
  Resolver :: ResolverConfig
  Tunneling :: DNSTunneling

definition resolverBase :: ResolverConfig where [cfg_defs]:
  "resolverBase =
     \<lparr>ResWorkers = 0, Transport = ''udp'', Domain = ''example.com'', ResPort = 53,
      CheckTypes = [''TXT''], EDNSBufSize = 1232, ResTimeout = 0, ResTries = 0,
      RandomSubdomain = True, AcceptedRCodes = [''NOERROR'', ''NXDOMAIN'', ''SERVFAIL''],
      ResPrefix = ''dns_'',
      DPI = \<lparr>DpiEnabled = True, DpiTimeout = NewDurationMS (2 * Second), DpiTries = 1\<rparr>\<rparr>"

definition withResolver :: "ResolverConfig \<Rightarrow> int \<Rightarrow> int \<Rightarrow> int \<Rightarrow> ResolverConfig" where [cfg_defs]:
  "withResolver base workers tries timeout =
     base\<lparr>ResWorkers := workers, ResTries := tries, ResTimeout := NewDurationMS timeout\<rparr>"

definition tunnelBase :: DNSTunneling where [cfg_defs]:
  "tunnelBase = \<lparr>TunWorkers = 0, TunTries = 0, TunTimeout = 0, CheckDNSResolver = True,
                AdaptiveResolver = True, TunPrefix = ''dns_tun_''\<rparr>"

definition withTunnel :: "DNSTunneling \<Rightarrow> int \<Rightarrow> int \<Rightarrow> int \<Rightarrow> DNSTunneling" where [cfg_defs]:
  "withTunnel base workers tries timeout =
     base\<lparr>TunWorkers := workers, TunTries := tries, TunTimeout := NewDurationMS timeout\<rparr>"

definition dns_row :: "int \<Rightarrow> int \<Rightarrow> int \<Rightarrow> int \<Rightarrow> DNSConfig" where [cfg_defs]:
  "dns_row workers ms tunnels tunnel_s =
     \<lparr>Resolver = withResolver resolverBase workers 1 (ms * Millisecond),
      Tunneling = withTunnel tunnelBase tunnels 1 (tunnel_s * Second)\<rparr>"

fun DefaultDNSConfig :: "platform \<Rightarrow> tier \<Rightarrow> DNSConfig" where
  "DefaultDNSConfig Server Low = dns_row 80 2000 12 10"
| "DefaultDNSConfig Server Mid = dns_row 100 2000 24 10"
| "DefaultDNSConfig Server High = dns_row 200 1500 64 8"
| "DefaultDNSConfig Desktop Low = dns_row 30 2000 8 10"
| "DefaultDNSConfig Desktop Mid = dns_row 80 2000 16 10"
| "DefaultDNSConfig Desktop High = dns_row 100 2000 32 10"
| "DefaultDNSConfig Android Low = dns_row 15 3000 3 10"
| "DefaultDNSConfig Android Mid = dns_row 40 3000 6 10"
| "DefaultDNSConfig Android High = dns_row 80 2500 12 10"

subsection \<open>All settings\<close>

record ScannerConfig =
  General :: GeneralConfig
  Writer :: WriterConfig
  ICMP :: ICMPConfig
  TCP :: TCPConfig
  HTTP :: HTTPConfig
  Xray :: XrayConfig
  DNS :: DNSConfig

lemma platform_tier_cases:
  assumes "\<And>pf tr. pf \<in> {Android, Desktop, Server} \<Longrightarrow> tr \<in> {Low, Mid, High} \<Longrightarrow> P pf tr"
  shows "P pf tr"
  by (rule assms; cases pf; cases tr; simp)

lemma NewDurationMS_Duration:
  "\<bar>ms\<bar> \<le> 9223372036854 \<Longrightarrow> NewDurationMS (Duration ms) = ms"
proof -
  assume b: "\<bar>ms\<bar> \<le> 9223372036854"
  then have "Duration ms = ms * 1000000"
    unfolding Duration_def by (intro wrap64_id) (auto simp: in_int64_def)
  then show ?thesis by (simp add: NewDurationMS_def abs_mult sgn_mult mult_sgn_abs)
qed

end
