(* ===== verification/ConfigValidate.thy ===== *)
theory ConfigValidate
  imports ConfigModel NetAddr
begin

text \<open>
  Validation and normalisation of the settings, \<open>internal/core/config/validate\<close>: the checks and
  fixes of \<open>validate.go\<close>, and \<open>Validate...\<close> and \<open>Normalize...\<close> of every section in the order the
  code calls them. An error is its sentinel, an error map a partial map from field names, and a
  pointer to a field is its selector with its update. Regular expressions are written out.
  \<open>hostname\<close> stands for \<open>url.Parse\<close> followed by \<open>Hostname()\<close>, with \<open>None\<close> for a parse error.
\<close>

named_theorems cfg_limits "the limits of the settings"
named_theorems cfg_checks "the checks of single values"

subsection \<open>Limits and allowed values\<close>

definition MinGeneralStatusInterval :: int where [cfg_limits]: "MinGeneralStatusInterval = 100 * Millisecond"
definition MaxGeneralStatusInterval :: int where [cfg_limits]: "MaxGeneralStatusInterval = Minute"
definition MinGeneralMaxIPsPerStage :: int where [cfg_limits]: "MinGeneralMaxIPsPerStage = 1"
definition MaxGeneralMaxIPsPerStage :: int where [cfg_limits]: "MaxGeneralMaxIPsPerStage = 10000000"
definition MinGeneralBatchSize :: int where [cfg_limits]: "MinGeneralBatchSize = 1"
definition MaxGeneralBatchSize :: int where [cfg_limits]: "MaxGeneralBatchSize = 10000000"
definition MinGeneralProbeDuration :: int where [cfg_limits]: "MinGeneralProbeDuration = 10 * Millisecond"
definition MaxGeneralProbeDuration :: int where [cfg_limits]: "MaxGeneralProbeDuration = 5 * Second"
definition MinGeneralProbePerSec :: int where [cfg_limits]: "MinGeneralProbePerSec = 1"
definition MaxGeneralProbePerSec :: int where [cfg_limits]: "MaxGeneralProbePerSec = 1000000"
definition MinGeneralProbeBurst :: int where [cfg_limits]: "MinGeneralProbeBurst = 1"
definition MaxGeneralProbeBurst :: int where [cfg_limits]: "MaxGeneralProbeBurst = 10000"
definition MinWriterMergeFlushInterval :: int where [cfg_limits]: "MinWriterMergeFlushInterval = 100 * Millisecond"
definition MaxWriterMergeFlushInterval :: int where [cfg_limits]: "MaxWriterMergeFlushInterval = 5 * Minute"
definition MinWriterChanSize :: int where [cfg_limits]: "MinWriterChanSize = 1"
definition MaxWriterChanSize :: int where [cfg_limits]: "MaxWriterChanSize = 1000000"
definition MinWriterBatchSize :: int where [cfg_limits]: "MinWriterBatchSize = 1"
definition MaxWriterBatchSize :: int where [cfg_limits]: "MaxWriterBatchSize = 102400"
definition MinTCPWorkers :: int where [cfg_limits]: "MinTCPWorkers = 1"
definition MaxTCPWorkers :: int where [cfg_limits]: "MaxTCPWorkers = 5000"
definition MinTCPPort :: int where [cfg_limits]: "MinTCPPort = 1"
definition MaxTCPPort :: int where [cfg_limits]: "MaxTCPPort = 65535"
definition MinTCPTries :: u16 where [cfg_limits]: "MinTCPTries = 1"
definition MaxTCPTries :: u16 where [cfg_limits]: "MaxTCPTries = 10"
definition MinTCPTimeout :: int where [cfg_limits]: "MinTCPTimeout = 100 * Millisecond"
definition MaxTCPTimeout :: int where [cfg_limits]: "MaxTCPTimeout = 30 * Second"
definition MinICMPWorkers :: int where [cfg_limits]: "MinICMPWorkers = 1"
definition MaxICMPWorkers :: int where [cfg_limits]: "MaxICMPWorkers = 5000"
definition MinICMPTries :: u16 where [cfg_limits]: "MinICMPTries = 1"
definition MaxICMPTries :: u16 where [cfg_limits]: "MaxICMPTries = 10"
definition MinICMPTimeout :: int where [cfg_limits]: "MinICMPTimeout = 100 * Millisecond"
definition MaxICMPTimeout :: int where [cfg_limits]: "MaxICMPTimeout = 30 * Second"
definition MinHTTPWorkers :: int where [cfg_limits]: "MinHTTPWorkers = 1"
definition MaxHTTPWorkers :: int where [cfg_limits]: "MaxHTTPWorkers = 1000"
definition MinHTTPPort :: int where [cfg_limits]: "MinHTTPPort = 1"
definition MaxHTTPPort :: int where [cfg_limits]: "MaxHTTPPort = 65535"
definition MinHTTPTimeout :: int where [cfg_limits]: "MinHTTPTimeout = 100 * Millisecond"
definition MaxHTTPTimeout :: int where [cfg_limits]: "MaxHTTPTimeout = 60 * Second"
definition MinXrayWorkers :: int where [cfg_limits]: "MinXrayWorkers = 1"
definition MaxXrayWorkers :: int where [cfg_limits]: "MaxXrayWorkers = 500"
definition MinXrayDownloadSpeed :: int where [cfg_limits]: "MinXrayDownloadSpeed = 0"
definition MaxXrayDownloadSpeed :: int where [cfg_limits]: "MaxXrayDownloadSpeed = 100000"
definition MinXrayUploadSpeed :: int where [cfg_limits]: "MinXrayUploadSpeed = 0"
definition MaxXrayUploadSpeed :: int where [cfg_limits]: "MaxXrayUploadSpeed = 100000"
definition MinXrayMaxConcurrentDials :: int where [cfg_limits]: "MinXrayMaxConcurrentDials = 0"
definition MaxXrayMaxConcurrentDials :: int where [cfg_limits]: "MaxXrayMaxConcurrentDials = 10000"
definition MinXrayDialMaxAttempts :: int where [cfg_limits]: "MinXrayDialMaxAttempts = 1"
definition MaxXrayDialMaxAttempts :: int where [cfg_limits]: "MaxXrayDialMaxAttempts = 10"
definition MinXrayTimeout :: int where [cfg_limits]: "MinXrayTimeout = 100 * Millisecond"
definition MaxXrayTimeout :: int where [cfg_limits]: "MaxXrayTimeout = 60 * Second"
definition MinDNSResolverWorkers :: int where [cfg_limits]: "MinDNSResolverWorkers = 1"
definition MaxDNSResolverWorkers :: int where [cfg_limits]: "MaxDNSResolverWorkers = 2500"
definition MinDNSResolverPort :: u16 where [cfg_limits]: "MinDNSResolverPort = 1"
definition MaxDNSResolverPort :: u16 where [cfg_limits]: "MaxDNSResolverPort = 65535"
definition MinDNSResolverTries :: int where [cfg_limits]: "MinDNSResolverTries = 1"
definition MaxDNSResolverTries :: int where [cfg_limits]: "MaxDNSResolverTries = 10"
definition MinDNSResolverDPITries :: int where [cfg_limits]: "MinDNSResolverDPITries = 1"
definition MaxDNSResolverDPITries :: int where [cfg_limits]: "MaxDNSResolverDPITries = 10"
definition MinDNSResolverTimeout :: int where [cfg_limits]: "MinDNSResolverTimeout = 100 * Millisecond"
definition MaxDNSResolverTimeout :: int where [cfg_limits]: "MaxDNSResolverTimeout = 30 * Second"
definition MinDNSResolverDPITimeout :: int where [cfg_limits]: "MinDNSResolverDPITimeout = 100 * Millisecond"
definition MaxDNSResolverDPITimeout :: int where [cfg_limits]: "MaxDNSResolverDPITimeout = 10 * Second"
definition MinDNSTunnelingWorkers :: int where [cfg_limits]: "MinDNSTunnelingWorkers = 1"
definition MaxDNSTunnelingWorkers :: int where [cfg_limits]: "MaxDNSTunnelingWorkers = 500"
definition MinDNSTunnelingTimeout :: int where [cfg_limits]: "MinDNSTunnelingTimeout = 100 * Millisecond"
definition MaxDNSTunnelingTimeout :: int where [cfg_limits]: "MaxDNSTunnelingTimeout = 60 * Second"

definition allowedPipelineModes :: "string list" where [cfg_limits]:
  "allowedPipelineModes =
     [''sequential'', ''simple'', ''streaming'', ''parallel'', ''batch'', ''pipeline'']"
definition allowedProtocols :: "string list" where [cfg_limits]:
  "allowedProtocols = [''http'', ''https'']"
definition allowedTLSVersions :: "string list" where [cfg_limits]:
  "allowedTLSVersions = [''tls1.0'', ''tls1.1'', ''tls1.2'', ''tls1.3'']"
definition allowedHTTPVersions :: "string list" where [cfg_limits]:
  "allowedHTTPVersions =
     [''h1'', ''http1'', ''http1.1'', ''h2'', ''http2'', ''h1,h2'', ''http1,http2'', ''http1.1,http2'',
      ''http2,http1'', ''http2,http1.1'', ''h3'', ''http3'']"
definition allowedPreScanTypes :: "string list" where [cfg_limits]:
  "allowedPreScanTypes = [''tcp'', ''icmp'', ''none'', ''http'']"
definition allowedDNSTransport :: "string list" where [cfg_limits]:
  "allowedDNSTransport = [''udp'', ''tcp'', ''dot'', ''doh'']"

subsection \<open>Errors and warnings\<close>

datatype check_err =
  ErrOutOfRange | ErrEmpty | ErrInvalidEnum | ErrEnumOrder | ErrIllegalChars | ErrInvalidDomain
| ErrMalformedURL | ErrPathOrPort | ErrSchemeNotAllowed | ErrInvalidStatusCode | ErrInvalidPubKey
| ErrLeadingTrailing | ErrDotDot | ErrNegative | ErrUnknownFingerprint | ErrConnectivity

datatype cfg_val =
  VInt int | VUint u16 | VStr string | VStrs "string list" | VInts "int list" | VConn connectivity

datatype fix_reason = CheckFailed check_err | Negative | Invalid | FingerprintCleared

record warning =
  Field :: string
  OldVal :: cfg_val
  NewVal :: cfg_val
  Reason :: fix_reason

subsection \<open>Checks\<close>

definition checkInt :: "int \<Rightarrow> int \<Rightarrow> int \<Rightarrow> check_err option" where [cfg_checks]:
  "checkInt v mn mx = (if v < mn \<or> mx < v then Some ErrOutOfRange else None)"

definition checkUint16 :: "u16 \<Rightarrow> u16 \<Rightarrow> u16 \<Rightarrow> check_err option" where [cfg_checks]:
  "checkUint16 v mn mx = (if v < mn \<or> mx < v then Some ErrOutOfRange else None)"

definition checkDuration :: "int \<Rightarrow> int \<Rightarrow> int \<Rightarrow> check_err option" where
  "checkDuration v mn mx =
     (if wrap64 (v + Millisecond) < mn \<or> mx < wrap64 (v - Millisecond) then Some ErrOutOfRange else None)"

definition checkString :: "string \<Rightarrow> check_err option" where [cfg_checks]:
  "checkString v = (if trim_space v = [] then Some ErrEmpty else None)"

definition checkEnum :: "string \<Rightarrow> string list \<Rightarrow> check_err option" where [cfg_checks]:
  "checkEnum v allowed = (if List.member allowed (to_lower v) then None else Some ErrInvalidEnum)"

definition checkStringSlice :: "string list \<Rightarrow> check_err option" where [cfg_checks]:
  "checkStringSlice v = (if v = [] then Some ErrEmpty else None)"

definition checkEnumOrder :: "string \<Rightarrow> string \<Rightarrow> string list \<Rightarrow> check_err option" where
  "checkEnumOrder minVal maxVal allowed =
     (case (index_of minVal allowed, index_of maxVal allowed) of
        (Some i, Some j) \<Rightarrow> if j < i then Some ErrEnumOrder else None
      | _ \<Rightarrow> None)"

text \<open>\<open>illegalFilenameRegex\<close>: one of the listed bytes or a control character.\<close>

definition illegal_char :: "char \<Rightarrow> bool" where
  "illegal_char c \<longleftrightarrow>
     c \<in> {CHR 0x5C, CHR 0x2F, CHR 0x3A, CHR 0x2A, CHR 0x3F, CHR 0x22, CHR 0x3C, CHR 0x3E, CHR 0x7C}
     \<or> (of_char c :: nat) \<le> 0x1F"

definition dot_or_space_ends :: "string \<Rightarrow> bool" where
  "dot_or_space_ends s \<longleftrightarrow>
     has_prefix s ''.'' \<or> has_suffix s ''.'' \<or> has_prefix s '' '' \<or> has_suffix s '' ''"

definition checkPrefix :: "string \<Rightarrow> check_err option" where
  "checkPrefix p =
     (if trim_space p = [] then Some ErrEmpty
      else if list_ex illegal_char p then Some ErrIllegalChars
      else if dot_or_space_ends p then Some ErrLeadingTrailing
      else None)"

definition checkDirectoryName :: "string \<Rightarrow> check_err option" where
  "checkDirectoryName name =
     (if trim_space name = [] then Some ErrEmpty
      else if list_ex illegal_char name then Some ErrIllegalChars
      else if name = ''.'' \<or> name = ''..'' then Some ErrIllegalChars
      else if dot_or_space_ends name then Some ErrLeadingTrailing
      else if contains_sub ''..'' name then Some ErrDotDot
      else None)"

definition is_alpha :: "char \<Rightarrow> bool" where
  "is_alpha c \<longleftrightarrow>
     (let n = (of_char c :: nat) in 65 \<le> n \<and> n \<le> 90 \<or> 97 \<le> n \<and> n \<le> 122)"

definition is_alnum :: "char \<Rightarrow> bool" where
  "is_alnum c \<longleftrightarrow> is_alpha c \<or> is_digit c"

text \<open>\<open>schemeRegex\<close>: a letter, then letters, digits and \<open>+.-\<close>, then \<open>://\<close>. None of the
  characters of \<open>://\<close> continues the scheme, so the greedy prefix decides.\<close>

definition hasScheme :: "string \<Rightarrow> bool" where
  "hasScheme v =
     (case v of
        [] \<Rightarrow> False
      | c # cs \<Rightarrow> is_alpha c
          \<and> is_prefix ''://'' (dropWhile (\<lambda>x. is_alnum x \<or> x \<in> {CHR ''+'', CHR ''.'', CHR ''-''}) cs))"

text \<open>A label of \<open>domainRegex\<close>: at most 63 letters, digits and hyphens, no hyphen at an end.\<close>

definition domain_label :: "string \<Rightarrow> bool" where
  "domain_label l \<longleftrightarrow>
     l \<noteq> [] \<and> length l \<le> 63 \<and> list_all (\<lambda>c. is_alnum c \<or> c = CHR ''-'') l
     \<and> is_alnum (hd l) \<and> is_alnum (last l)"

definition parses_as_ip :: "string \<Rightarrow> bool" where
  "parses_as_ip s = (case parse_addr_zone s of Some (a, zone) \<Rightarrow> \<not> zone | None \<Rightarrow> False)"

definition isValidDomain :: "string \<Rightarrow> bool" where
  "isValidDomain host =
     (let parts = split_on (CHR ''.'') host
      in if host = [] \<or> 253 < length host then False
         else if parses_as_ip host then True
         else if host = ''localhost'' then True
         else if \<not> (2 \<le> length parts \<and> list_all domain_label parts) then False
         else if list_all is_digit (last parts) then False
         else True)"

definition checkSNI :: "string \<Rightarrow> check_err option" where
  "checkSNI sni =
     (if trim_space sni = [] then None
      else if hasScheme sni then Some ErrSchemeNotAllowed
      else if contains_sub ''/'' sni \<or> contains_sub '':'' sni then Some ErrPathOrPort
      else if \<not> isValidDomain sni then Some ErrInvalidDomain
      else None)"

definition checkDomain :: "string \<Rightarrow> check_err option" where
  "checkDomain v =
     (case checkString v of Some e \<Rightarrow> Some e | None \<Rightarrow>
        (case checkSNI v of Some e \<Rightarrow> Some e | None \<Rightarrow> None))"

definition checkHost :: "(string \<Rightarrow> string option) \<Rightarrow> string \<Rightarrow> check_err option" where
  "checkHost hostname host =
     (if trim_space host = [] then Some ErrEmpty
      else if hasScheme host then Some ErrSchemeNotAllowed
      else case hostname (''http://'' @ host) of
             None \<Rightarrow> Some ErrMalformedURL
           | Some h \<Rightarrow> if \<not> isValidDomain h then Some ErrInvalidDomain else None)"

definition isValidHTTPStatusCode :: "int \<Rightarrow> bool" where
  "isValidHTTPStatusCode code \<longleftrightarrow> 100 \<le> code \<and> code \<le> 599"

definition checkStatusCodes :: "int list \<Rightarrow> check_err option" where [cfg_checks]:
  "checkStatusCodes codes =
     (if list_ex (\<lambda>c. \<not> isValidHTTPStatusCode c) codes then Some ErrInvalidStatusCode else None)"

definition checkPubKey :: "string \<Rightarrow> check_err option" where
  "checkPubKey key =
     (if trim_space key = [] then Some ErrEmpty
      else if \<not> (length key = 64 \<and> list_all is_hex key) then Some ErrInvalidPubKey
      else None)"

subsection \<open>Fixes\<close>

text \<open>Every \<open>fix...\<close> of the code has this shape: on an error the default is stored and a warning
  is appended.\<close>

definition fix_field ::
  "('v \<Rightarrow> check_err option) \<Rightarrow> ('v \<Rightarrow> cfg_val) \<Rightarrow> string \<Rightarrow> ('c \<Rightarrow> 'v) \<Rightarrow> (('v \<Rightarrow> 'v) \<Rightarrow> 'c \<Rightarrow> 'c) \<Rightarrow> 'v
   \<Rightarrow> 'c \<times> warning list \<Rightarrow> 'c \<times> warning list" where
  "fix_field check val field get upd df cw =
     (case check (get (fst cw)) of
        None \<Rightarrow> cw
      | Some e \<Rightarrow>
          (upd (\<lambda>_. df) (fst cw),
           snd cw @ [\<lparr>Field = field, OldVal = val (get (fst cw)), NewVal = val df, Reason = CheckFailed e\<rparr>]))"

definition fixInt where "fixInt field get upd mn mx df = fix_field (\<lambda>v. checkInt v mn mx) VInt field get upd df"
definition fixUint16 where "fixUint16 field get upd mn mx df = fix_field (\<lambda>v. checkUint16 v mn mx) VUint field get upd df"
definition fixString where "fixString field get upd df = fix_field checkString VStr field get upd df"
definition fixEnum where "fixEnum field get upd allowed df = fix_field (\<lambda>v. checkEnum v allowed) VStr field get upd df"
definition fixStringSlice where "fixStringSlice field get upd df = fix_field checkStringSlice VStrs field get upd df"
definition fixDurationMS where
  "fixDurationMS field get upd mn mx df = fix_field (\<lambda>v. checkDuration (Duration v) mn mx) VInt field get upd df"
definition fixHost where "fixHost hostname field get upd df = fix_field (checkHost hostname) VStr field get upd df"
definition fixSNI where "fixSNI field get upd df = fix_field checkSNI VStr field get upd df"
definition fixDomain where "fixDomain field get upd df = fix_field checkDomain VStr field get upd df"
definition fixHTTPStatusCodes where "fixHTTPStatusCodes field get upd df = fix_field checkStatusCodes VInts field get upd df"
definition fixPrefix where "fixPrefix field get upd df = fix_field checkPrefix VStr field get upd df"
definition fixDirectoryName where "fixDirectoryName field get upd df = fix_field checkDirectoryName VStr field get upd df"

lemmas fix_defs = fixInt_def fixUint16_def fixString_def fixEnum_def fixStringSlice_def fixDurationMS_def
  fixHost_def fixSNI_def fixDomain_def fixHTTPStatusCodes_def fixPrefix_def fixDirectoryName_def

text \<open>\<open>fixEnumOrder\<close> on the two TLS versions.\<close>

definition fixEnumOrder ::
  "string \<Rightarrow> string \<Rightarrow> ('c \<Rightarrow> string) \<Rightarrow> ((string \<Rightarrow> string) \<Rightarrow> 'c \<Rightarrow> 'c) \<Rightarrow> ('c \<Rightarrow> string)
   \<Rightarrow> ((string \<Rightarrow> string) \<Rightarrow> 'c \<Rightarrow> 'c) \<Rightarrow> string \<Rightarrow> string \<Rightarrow> string list
   \<Rightarrow> 'c \<times> warning list \<Rightarrow> 'c \<times> warning list" where
  "fixEnumOrder minField maxField getMin updMin getMax updMax minDef maxDef allowed cw =
     (case checkEnumOrder (getMin (fst cw)) (getMax (fst cw)) allowed of
        None \<Rightarrow> cw
      | Some e \<Rightarrow>
          (updMax (\<lambda>_. maxDef) (updMin (\<lambda>_. minDef) (fst cw)),
           snd cw @ [\<lparr>Field = minField @ '' and '' @ maxField,
                      OldVal = VStr (getMin (fst cw) @ '', '' @ getMax (fst cw)),
                      NewVal = VStr (minDef @ '', '' @ maxDef), Reason = CheckFailed e\<rparr>]))"

text \<open>The fixes that \<open>Normalize...\<close> spells out: a condition, a default and a reason.\<close>

definition fix_when ::
  "('v \<Rightarrow> bool) \<Rightarrow> ('v \<Rightarrow> cfg_val) \<Rightarrow> fix_reason \<Rightarrow> string \<Rightarrow> ('c \<Rightarrow> 'v) \<Rightarrow> (('v \<Rightarrow> 'v) \<Rightarrow> 'c \<Rightarrow> 'c) \<Rightarrow> 'v
   \<Rightarrow> 'c \<times> warning list \<Rightarrow> 'c \<times> warning list" where
  "fix_when bad val why field get upd df cw =
     (if bad (get (fst cw))
      then (upd (\<lambda>_. df) (fst cw),
            snd cw @ [\<lparr>Field = field, OldVal = val (get (fst cw)), NewVal = val df, Reason = why\<rparr>])
      else cw)"

definition run_fixes :: "('c \<times> warning list \<Rightarrow> 'c \<times> warning list) list \<Rightarrow> 'c \<Rightarrow> 'c \<times> warning list" where
  "run_fixes fs c = fold (\<lambda>f. f) fs (c, [])"

type_synonym err_map = "string \<rightharpoonup> check_err"

definition put_err :: "string \<Rightarrow> check_err option \<Rightarrow> err_map \<Rightarrow> err_map" where
  "put_err field err m = (case err of None \<Rightarrow> m | Some e \<Rightarrow> m(field \<mapsto> e))"

definition collect_errs :: "(string \<times> check_err option) list \<Rightarrow> err_map" where
  "collect_errs es = fold (\<lambda>(field, err). put_err field err) es Map.empty"

subsection \<open>General settings\<close>

definition ValidateGeneral :: "GeneralConfig \<Rightarrow> err_map" where
  "ValidateGeneral cfg =
     collect_errs
       [(''StatusInterval'', checkDuration (Duration (StatusInterval cfg)) MinGeneralStatusInterval MaxGeneralStatusInterval),
        (''MaxSuccessfulIPs'', if MaxSuccessful cfg < 0 then Some ErrNegative else None),
        (''MaxIPsToTest'', if MaxIPsToTest cfg < 0 then Some ErrNegative else None),
        (''MaxIPsPerStage'', checkInt (MaxIPsPerStage cfg) MinGeneralMaxIPsPerStage MaxGeneralMaxIPsPerStage),
        (''BatchSize'', checkInt (GenBatchSize cfg) MinGeneralBatchSize MaxGeneralBatchSize),
        (''PipelineMode'', checkEnum (PipelineMode cfg) allowedPipelineModes),
        (''MinProbeDuration'', checkDuration (Duration (MinProbeDuration cfg)) MinGeneralProbeDuration MaxGeneralProbeDuration),
        (''ProbePerSec'', checkInt (ProbePerSec cfg) MinGeneralProbePerSec MaxGeneralProbePerSec),
        (''ProbeBurst'', checkInt (ProbeBurst cfg) MinGeneralProbeBurst MaxGeneralProbeBurst)]"

definition NormalizeGeneral :: "GeneralConfig \<Rightarrow> GeneralConfig \<Rightarrow> GeneralConfig \<times> warning list" where
  "NormalizeGeneral df cfg =
     run_fixes
       [fixDurationMS ''StatusInterval'' StatusInterval StatusInterval_update MinGeneralStatusInterval MaxGeneralStatusInterval (StatusInterval df),
        fix_when (\<lambda>v. v < 0) VInt Negative ''MaxSuccessfulIPs'' MaxSuccessful MaxSuccessful_update (MaxSuccessful df),
        fix_when (\<lambda>v. v < 0) VInt Negative ''MaxIPsToTest'' MaxIPsToTest MaxIPsToTest_update (MaxIPsToTest df),
        fixInt ''MaxIPsPerStage'' MaxIPsPerStage MaxIPsPerStage_update MinGeneralMaxIPsPerStage MaxGeneralMaxIPsPerStage (MaxIPsPerStage df),
        fixInt ''BatchSize'' GenBatchSize GenBatchSize_update MinGeneralBatchSize MaxGeneralBatchSize (GenBatchSize df),
        fixEnum ''PipelineMode'' PipelineMode PipelineMode_update allowedPipelineModes (PipelineMode df),
        fixDurationMS ''MinProbeDuration'' MinProbeDuration MinProbeDuration_update MinGeneralProbeDuration MaxGeneralProbeDuration (MinProbeDuration df),
        fixInt ''ProbePerSec'' ProbePerSec ProbePerSec_update MinGeneralProbePerSec MaxGeneralProbePerSec (ProbePerSec df),
        fixInt ''ProbeBurst'' ProbeBurst ProbeBurst_update MinGeneralProbeBurst MaxGeneralProbeBurst (ProbeBurst df)] cfg"

subsection \<open>Writer, TCP and ICMP settings\<close>

definition ValidateWriter :: "WriterConfig \<Rightarrow> err_map" where
  "ValidateWriter cfg =
     collect_errs
       [(''MergeFlushInterval'', checkDuration (Duration (MergeFlushInterval cfg)) MinWriterMergeFlushInterval MaxWriterMergeFlushInterval),
        (''ChanSize'', checkInt (ChanSize cfg) MinWriterChanSize MaxWriterChanSize),
        (''BatchSize'', checkInt (WrBatchSize cfg) MinWriterBatchSize MaxWriterBatchSize),
        (''ResultBaseDir'', checkDirectoryName (ResultBaseDir cfg))]"

definition NormalizeWriter :: "WriterConfig \<Rightarrow> WriterConfig \<Rightarrow> WriterConfig \<times> warning list" where
  "NormalizeWriter df cfg =
     run_fixes
       [fixDurationMS ''MergeFlushInterval'' MergeFlushInterval MergeFlushInterval_update MinWriterMergeFlushInterval MaxWriterMergeFlushInterval (MergeFlushInterval df),
        fixInt ''ChanSize'' ChanSize ChanSize_update MinWriterChanSize MaxWriterChanSize (ChanSize df),
        fixInt ''BatchSize'' WrBatchSize WrBatchSize_update MinWriterBatchSize MaxWriterBatchSize (WrBatchSize df),
        fixDirectoryName ''ResultBaseDir'' ResultBaseDir ResultBaseDir_update (ResultBaseDir df)] cfg"

definition ValidateTCP :: "TCPConfig \<Rightarrow> err_map" where
  "ValidateTCP cfg =
     collect_errs
       [(''Workers'', checkInt (TcpWorkers cfg) MinTCPWorkers MaxTCPWorkers),
        (''Port'', checkInt (TcpPort cfg) MinTCPPort MaxTCPPort),
        (''Timeout'', checkDuration (Duration (TcpTimeout cfg)) MinTCPTimeout MaxTCPTimeout),
        (''Tries'', checkUint16 (TcpTries cfg) MinTCPTries MaxTCPTries),
        (''OutputPrefix'', checkPrefix (TcpPrefix cfg))]"

definition NormalizeTCP :: "TCPConfig \<Rightarrow> TCPConfig \<Rightarrow> TCPConfig \<times> warning list" where
  "NormalizeTCP df cfg =
     run_fixes
       [fixInt ''Workers'' TcpWorkers TcpWorkers_update MinTCPWorkers MaxTCPWorkers (TcpWorkers df),
        fixInt ''Port'' TcpPort TcpPort_update MinTCPPort MaxTCPPort (TcpPort df),
        fixDurationMS ''Timeout'' TcpTimeout TcpTimeout_update MinTCPTimeout MaxTCPTimeout (TcpTimeout df),
        fixUint16 ''Tries'' TcpTries TcpTries_update MinTCPTries MaxTCPTries (TcpTries df),
        fixPrefix ''OutputPrefix'' TcpPrefix TcpPrefix_update (TcpPrefix df)] cfg"

definition ValidateICMP :: "ICMPConfig \<Rightarrow> err_map" where
  "ValidateICMP cfg =
     collect_errs
       [(''Workers'', checkInt (IcmpWorkers cfg) MinICMPWorkers MaxICMPWorkers),
        (''Timeout'', checkDuration (Duration (IcmpTimeout cfg)) MinICMPTimeout MaxICMPTimeout),
        (''Tries'', checkUint16 (IcmpTries cfg) MinICMPTries MaxICMPTries),
        (''OutputPrefix'', checkPrefix (IcmpPrefix cfg))]"

definition NormalizeICMP :: "ICMPConfig \<Rightarrow> ICMPConfig \<Rightarrow> ICMPConfig \<times> warning list" where
  "NormalizeICMP df cfg =
     run_fixes
       [fixInt ''Workers'' IcmpWorkers IcmpWorkers_update MinICMPWorkers MaxICMPWorkers (IcmpWorkers df),
        fixDurationMS ''Timeout'' IcmpTimeout IcmpTimeout_update MinICMPTimeout MaxICMPTimeout (IcmpTimeout df),
        fixUint16 ''Tries'' IcmpTries IcmpTries_update MinICMPTries MaxICMPTries (IcmpTries df),
        fixString ''OutputPrefix'' IcmpPrefix IcmpPrefix_update (IcmpPrefix df)] cfg"

subsection \<open>HTTP settings\<close>

text \<open>The TLS versions are compared only when both are known, and then both get the error.\<close>

definition tls_errs :: "HTTPConfig \<Rightarrow> check_err option \<times> check_err option" where
  "tls_errs cfg =
     (let mn = checkEnum (MinTLSVersion cfg) allowedTLSVersions; mx = checkEnum (MaxTLSVersion cfg) allowedTLSVersions;
          hasTLSErr = (mn \<noteq> None \<or> mx \<noteq> None)
      in if hasTLSErr then (mn, mx)
         else case checkEnumOrder (MinTLSVersion cfg) (MaxTLSVersion cfg) allowedTLSVersions of
                Some e \<Rightarrow> (Some e, Some e)
              | None \<Rightarrow> (None, None))"

definition ValidateHTTP :: "(string \<Rightarrow> string option) \<Rightarrow> HTTPConfig \<Rightarrow> err_map" where
  "ValidateHTTP hostname cfg =
     collect_errs
       [(''Workers'', checkInt (HttpWorkers cfg) MinHTTPWorkers MaxHTTPWorkers),
        (''Host'', checkHost hostname (Host cfg)),
        (''ServerName'', checkSNI (ServerName cfg)),
        (''Port'', checkInt (HttpPort cfg) MinHTTPPort MaxHTTPPort),
        (''Protocol'', checkEnum (Protocol cfg) allowedProtocols),
        (''Timeout'', checkDuration (Duration (HttpTimeout cfg)) MinHTTPTimeout MaxHTTPTimeout),
        (''Version'', checkEnum (HttpVersion cfg) allowedHTTPVersions),
        (''Fingerprint'', if Fingerprint cfg \<noteq> [] \<and> \<not> ValidFingerprint (Fingerprint cfg) then Some ErrUnknownFingerprint else None),
        (''MinTLSVersion'', fst (tls_errs cfg)),
        (''MaxTLSVersion'', snd (tls_errs cfg)),
        (''OutputPrefix'', checkPrefix (HttpPrefix cfg)),
        (''AcceptedStatusCodes'', checkStatusCodes (AcceptedStatusCodes cfg))]"

definition NormalizeHTTP :: "(string \<Rightarrow> string option) \<Rightarrow> HTTPConfig \<Rightarrow> HTTPConfig \<Rightarrow> HTTPConfig \<times> warning list" where
  "NormalizeHTTP hostname df cfg =
     run_fixes
       [fixInt ''Workers'' HttpWorkers HttpWorkers_update MinHTTPWorkers MaxHTTPWorkers (HttpWorkers df),
        fixInt ''Port'' HttpPort HttpPort_update MinHTTPPort MaxHTTPPort (HttpPort df),
        fixEnum ''Protocol'' Protocol Protocol_update allowedProtocols (Protocol df),
        fixHost hostname ''Host'' Host Host_update (Host df),
        fixHTTPStatusCodes ''AcceptedStatusCodes'' AcceptedStatusCodes AcceptedStatusCodes_update (AcceptedStatusCodes df),
        fixSNI ''ServerName'' ServerName ServerName_update (ServerName df),
        fixEnum ''Version'' HttpVersion HttpVersion_update allowedHTTPVersions (HttpVersion df),
        fixDurationMS ''Timeout'' HttpTimeout HttpTimeout_update MinHTTPTimeout MaxHTTPTimeout (HttpTimeout df),
        fixEnum ''MinTLSVersion'' MinTLSVersion MinTLSVersion_update allowedTLSVersions (MinTLSVersion df),
        fixEnum ''MaxTLSVersion'' MaxTLSVersion MaxTLSVersion_update allowedTLSVersions (MaxTLSVersion df),
        fixEnumOrder ''MinTLSVersion'' ''MaxTLSVersion'' MinTLSVersion MinTLSVersion_update MaxTLSVersion MaxTLSVersion_update
          (MinTLSVersion df) (MaxTLSVersion df) allowedTLSVersions,
        fixString ''OutputPrefix'' HttpPrefix HttpPrefix_update (HttpPrefix df),
        fix_when (\<lambda>v. v \<noteq> [] \<and> \<not> ValidFingerprint v) VStr FingerprintCleared ''Fingerprint'' Fingerprint Fingerprint_update []] cfg"

subsection \<open>Xray settings\<close>

definition ValidateXray :: "XrayConfig \<Rightarrow> err_map" where
  "ValidateXray cfg =
     collect_errs
       [(''Workers'', checkInt (XrayWorkers cfg) MinXrayWorkers MaxXrayWorkers),
        (''ConnectivityTestType'', if \<not> IsValid (ConnectivityTestType cfg) then Some ErrConnectivity else None),
        (''DownloadSpeed'', checkInt (DownloadSpeed cfg) MinXrayDownloadSpeed MaxXrayDownloadSpeed),
        (''UploadSpeed'', checkInt (UploadSpeed cfg) MinXrayUploadSpeed MaxXrayUploadSpeed),
        (''Timeout'', checkDuration (Duration (XrayTimeout cfg)) MinXrayTimeout MaxXrayTimeout),
        (''SpeedTestTimeout'', checkDuration (Duration (SpeedTestTimeout cfg)) MinXrayTimeout MaxXrayTimeout),
        (''PreScanType'', checkEnum (PreScanType cfg) allowedPreScanTypes),
        (''OutputPrefix'', checkPrefix (XrayPrefix cfg)),
        (''MaxConcurrentDials'', checkInt (MaxConcurrentDials cfg) MinXrayMaxConcurrentDials MaxXrayMaxConcurrentDials),
        (''DialMaxAttempts'', checkInt (DialMaxAttempts cfg) MinXrayDialMaxAttempts MaxXrayDialMaxAttempts)]"

definition NormalizeXray :: "XrayConfig \<Rightarrow> XrayConfig \<Rightarrow> XrayConfig \<times> warning list" where
  "NormalizeXray df cfg =
     run_fixes
       [fixInt ''Workers'' XrayWorkers XrayWorkers_update MinXrayWorkers MaxXrayWorkers (XrayWorkers df),
        fix_when (\<lambda>v. \<not> IsValid v) VConn Invalid ''ConnectivityTestType'' ConnectivityTestType ConnectivityTestType_update (ConnectivityTestType df),
        fixInt ''DownloadSpeed'' DownloadSpeed DownloadSpeed_update MinXrayDownloadSpeed MaxXrayDownloadSpeed (DownloadSpeed df),
        fixInt ''UploadSpeed'' UploadSpeed UploadSpeed_update MinXrayUploadSpeed MaxXrayUploadSpeed (UploadSpeed df),
        fixDurationMS ''Timeout'' XrayTimeout XrayTimeout_update MinXrayTimeout MaxXrayTimeout (XrayTimeout df),
        fixDurationMS ''SpeedTestTimeout'' SpeedTestTimeout SpeedTestTimeout_update MinXrayTimeout MaxXrayTimeout (SpeedTestTimeout df),
        fixEnum ''PreScanType'' PreScanType PreScanType_update allowedPreScanTypes (PreScanType df),
        fixString ''OutputPrefix'' XrayPrefix XrayPrefix_update (XrayPrefix df),
        fixInt ''MaxConcurrentDials'' MaxConcurrentDials MaxConcurrentDials_update MinXrayMaxConcurrentDials MaxXrayMaxConcurrentDials (MaxConcurrentDials df),
        fixInt ''DialMaxAttempts'' DialMaxAttempts DialMaxAttempts_update MinXrayDialMaxAttempts MaxXrayDialMaxAttempts (DialMaxAttempts df)] cfg"

subsection \<open>DNS settings\<close>

text \<open>A field of a nested struct as a selector and an update.\<close>

definition dpi_timeout :: "ResolverConfig \<Rightarrow> int" where "dpi_timeout r = DpiTimeout (DPI r)"
definition dpi_timeout_update :: "(int \<Rightarrow> int) \<Rightarrow> ResolverConfig \<Rightarrow> ResolverConfig" where
  "dpi_timeout_update f r = DPI_update (DpiTimeout_update f) r"
definition dpi_tries :: "ResolverConfig \<Rightarrow> int" where "dpi_tries r = DpiTries (DPI r)"
definition dpi_tries_update :: "(int \<Rightarrow> int) \<Rightarrow> ResolverConfig \<Rightarrow> ResolverConfig" where
  "dpi_tries_update f r = DPI_update (DpiTries_update f) r"

lemmas dpi_defs = dpi_timeout_def dpi_timeout_update_def dpi_tries_def dpi_tries_update_def

definition validateResolver :: "ResolverConfig \<Rightarrow> err_map" where
  "validateResolver cfg =
     collect_errs
       [(''Workers'', checkInt (ResWorkers cfg) MinDNSResolverWorkers MaxDNSResolverWorkers),
        (''Transport'', checkEnum (Transport cfg) allowedDNSTransport),
        (''Domain'', checkDomain (Domain cfg)),
        (''Port'', checkUint16 (ResPort cfg) MinDNSResolverPort MaxDNSResolverPort),
        (''CheckTypes'', checkStringSlice (CheckTypes cfg)),
        (''Timeout'', checkDuration (Duration (ResTimeout cfg)) MinDNSResolverTimeout MaxDNSResolverTimeout),
        (''Tries'', checkInt (ResTries cfg) MinDNSResolverTries MaxDNSResolverTries),
        (''DPI.Tries'', checkInt (dpi_tries cfg) MinDNSResolverDPITries MaxDNSResolverDPITries),
        (''DPI.Timeout'', checkDuration (Duration (dpi_timeout cfg)) MinDNSResolverDPITimeout MaxDNSResolverDPITimeout),
        (''OutputPrefix'', checkPrefix (ResPrefix cfg))]"

definition normalizeResolver :: "ResolverConfig \<Rightarrow> ResolverConfig \<Rightarrow> ResolverConfig \<times> warning list" where
  "normalizeResolver df cfg =
     run_fixes
       [fixInt ''Resolver.Workers'' ResWorkers ResWorkers_update MinDNSResolverWorkers MaxDNSResolverWorkers (ResWorkers df),
        fixEnum ''Resolver.Transport'' Transport Transport_update allowedDNSTransport (Transport df),
        fixDomain ''Resolver.Domain'' Domain Domain_update (Domain df),
        fixUint16 ''Resolver.Port'' ResPort ResPort_update MinDNSResolverPort MaxDNSResolverPort (ResPort df),
        fixStringSlice ''Resolver.CheckTypes'' CheckTypes CheckTypes_update (CheckTypes df),
        fixDurationMS ''Resolver.Timeout'' ResTimeout ResTimeout_update MinDNSResolverTimeout MaxDNSResolverTimeout (ResTimeout df),
        fixInt ''Resolver.Tries'' ResTries ResTries_update MinDNSResolverTries MaxDNSResolverTries (ResTries df),
        fixInt ''Resolver.DPI.Tries'' dpi_tries dpi_tries_update MinDNSResolverDPITries MaxDNSResolverDPITries (dpi_tries df),
        fixDurationMS ''Resolver.DPI.Timeout'' dpi_timeout dpi_timeout_update MinDNSResolverDPITimeout MaxDNSResolverDPITimeout (dpi_timeout df),
        fixPrefix ''Resolver.OutputPrefix'' ResPrefix ResPrefix_update (ResPrefix df)] cfg"

definition validateDNSTunneling :: "DNSTunneling \<Rightarrow> err_map" where
  "validateDNSTunneling cfg =
     collect_errs
       [(''Workers'', checkInt (TunWorkers cfg) MinDNSTunnelingWorkers MaxDNSTunnelingWorkers),
        (''Timeout'', checkDuration (Duration (TunTimeout cfg)) MinDNSTunnelingTimeout MaxDNSTunnelingTimeout),
        (''Tries'', checkInt (TunTries cfg) MinDNSResolverTries MaxDNSResolverTries),
        (''OutputPrefix'', checkPrefix (TunPrefix cfg))]"

definition normalizeDNSTunneling :: "DNSTunneling \<Rightarrow> DNSTunneling \<Rightarrow> DNSTunneling \<times> warning list" where
  "normalizeDNSTunneling df cfg =
     run_fixes
       [fixInt ''DNSTunneling.Workers'' TunWorkers TunWorkers_update MinDNSTunnelingWorkers MaxDNSTunnelingWorkers (TunWorkers df),
        fixInt ''DNSTunneling.Tries'' TunTries TunTries_update MinDNSResolverTries MaxDNSResolverTries (TunTries df),
        fixDurationMS ''DNSTunneling.Timeout'' TunTimeout TunTimeout_update MinDNSTunnelingTimeout MaxDNSTunnelingTimeout (TunTimeout df),
        fixPrefix ''DNSTunneling.OutputPrefix'' TunPrefix TunPrefix_update (TunPrefix df)] cfg"

text \<open>The errors of a nested struct under prefixed names.\<close>

definition prefix_errs :: "string \<Rightarrow> err_map \<Rightarrow> err_map" where
  "prefix_errs p m = (\<lambda>k. if has_prefix k p then m (drop (length p) k) else None)"

definition ValidateDNS :: "DNSConfig \<Rightarrow> err_map" where
  "ValidateDNS cfg =
     prefix_errs ''Resolver.'' (validateResolver (Resolver cfg))
     ++ prefix_errs ''DNSTunneling.'' (validateDNSTunneling (Tunneling cfg))"

definition NormalizeDNS :: "DNSConfig \<Rightarrow> DNSConfig \<Rightarrow> DNSConfig \<times> warning list" where
  "NormalizeDNS df cfg =
     (let (r, ws) = normalizeResolver (Resolver df) (Resolver cfg);
          (t, ws') = normalizeDNSTunneling (Tunneling df) (Tunneling cfg)
      in (cfg\<lparr>Resolver := r, Tunneling := t\<rparr>, ws @ ws'))"

subsection \<open>All sections\<close>

record AllWarnings =
  WGeneral :: "warning list"
  WWriter :: "warning list"
  WICMP :: "warning list"
  WTCP :: "warning list"
  WHTTP :: "warning list"
  WXray :: "warning list"
  WDNS :: "warning list"

definition HasWarnings :: "AllWarnings \<Rightarrow> bool" where
  "HasWarnings a \<longleftrightarrow>
     0 < length (WGeneral a) \<or> 0 < length (WWriter a) \<or> 0 < length (WICMP a) \<or> 0 < length (WTCP a)
     \<or> 0 < length (WHTTP a) \<or> 0 < length (WXray a) \<or> 0 < length (WDNS a)"

definition NormalizeAll ::
  "(string \<Rightarrow> string option) \<Rightarrow> platform \<Rightarrow> tier \<Rightarrow> ScannerConfig \<Rightarrow> ScannerConfig \<times> AllWarnings" where
  "NormalizeAll hostname pf tr cfg =
     (let (g, gw) = NormalizeGeneral (DefaultGeneralConfig pf tr) (General cfg);
          (w, ww) = NormalizeWriter (DefaultWriterConfig pf tr) (Writer cfg);
          (i, iw) = NormalizeICMP (DefaultICMPConfig pf tr) (ICMP cfg);
          (t, tw) = NormalizeTCP (DefaultTCPConfig pf tr) (TCP cfg);
          (h, hw) = NormalizeHTTP hostname (DefaultHTTPConfig pf tr) (HTTP cfg);
          (x, xw) = NormalizeXray (DefaultXrayConfig pf tr) (Xray cfg);
          (d, dw) = NormalizeDNS (DefaultDNSConfig pf tr) (DNS cfg)
      in (\<lparr>General = g, Writer = w, ICMP = i, TCP = t, HTTP = h, Xray = x, DNS = d\<rparr>,
          \<lparr>WGeneral = gw, WWriter = ww, WICMP = iw, WTCP = tw, WHTTP = hw, WXray = xw, WDNS = dw\<rparr>))"

record AllErrors =
  EGeneral :: err_map
  EWriter :: err_map
  EICMP :: err_map
  ETCP :: err_map
  EHTTP :: err_map
  EXray :: err_map
  EDNS :: err_map

definition HasErrors :: "AllErrors \<Rightarrow> bool" where
  "HasErrors a \<longleftrightarrow>
     EGeneral a \<noteq> Map.empty \<or> EWriter a \<noteq> Map.empty \<or> EICMP a \<noteq> Map.empty \<or> ETCP a \<noteq> Map.empty
     \<or> EHTTP a \<noteq> Map.empty \<or> EXray a \<noteq> Map.empty \<or> EDNS a \<noteq> Map.empty"

definition ValidateAll :: "(string \<Rightarrow> string option) \<Rightarrow> ScannerConfig \<Rightarrow> AllErrors" where
  "ValidateAll hostname cfg =
     \<lparr>EGeneral = ValidateGeneral (General cfg), EWriter = ValidateWriter (Writer cfg),
      EICMP = ValidateICMP (ICMP cfg), ETCP = ValidateTCP (TCP cfg),
      EHTTP = ValidateHTTP hostname (HTTP cfg), EXray = ValidateXray (Xray cfg),
      EDNS = ValidateDNS (DNS cfg)\<rparr>"

end
