(* ===== verification/ConfigCorrect.thy ===== *)
theory ConfigCorrect
  imports ConfigValidate
begin

text \<open>
  Correctness of the normalisation of the settings. A \<open>Normalize...\<close> function is a chain of fixes,
  each responsible for one condition on the section; the locale \<open>config_section\<close> states what the
  chain and the validator of a section promise each other, and is interpreted on every section.
\<close>

subsection \<open>Chains of fixes\<close>

type_synonym 'c fix_step = "('c \<times> warning list \<Rightarrow> 'c \<times> warning list) \<times> ('c \<Rightarrow> bool)"

text \<open>A fix establishes its condition, does nothing where it holds, and warns where it does not.\<close>

definition step_ok :: "'c fix_step \<Rightarrow> bool" where
  "step_ok s \<longleftrightarrow>
     (\<forall>cw. snd s (fst (fst s cw)))
     \<and> (\<forall>cw. snd s (fst cw) \<longrightarrow> fst s cw = cw)
     \<and> (\<forall>cw. \<exists>ws. snd (fst s cw) = snd cw @ ws \<and> (ws = [] \<longleftrightarrow> snd s (fst cw)))"

definition keeps_cond :: "'c fix_step \<Rightarrow> 'c fix_step \<Rightarrow> bool" where
  "keeps_cond s t \<longleftrightarrow> (\<forall>cw. snd s (fst cw) \<longrightarrow> snd s (fst (fst t cw)))"

lemma step_heals: "step_ok s \<Longrightarrow> snd s (fst (fst s cw))"
  unfolding step_ok_def by blast

lemma step_quiet: "step_ok s \<Longrightarrow> snd s (fst cw) \<Longrightarrow> fst s cw = cw"
  unfolding step_ok_def by blast

lemma step_warns: "step_ok s \<Longrightarrow> \<exists>ws. snd (fst s cw) = snd cw @ ws \<and> (ws = [] \<longleftrightarrow> snd s (fst cw))"
  unfolding step_ok_def by blast

lemma keeps_condD: "keeps_cond s t \<Longrightarrow> snd s (fst cw) \<Longrightarrow> snd s (fst (fst t cw))"
  unfolding keeps_cond_def by blast

fun heal_chain :: "'c fix_step list \<Rightarrow> bool" where
  "heal_chain [] = True"
| "heal_chain (s # ss) \<longleftrightarrow> step_ok s \<and> list_all (keeps_cond s) ss \<and> heal_chain ss"

definition all_conds :: "'c fix_step list \<Rightarrow> 'c \<Rightarrow> bool" where
  "all_conds ss c \<longleftrightarrow> list_all (\<lambda>s. snd s c) ss"

definition run_chain :: "'c fix_step list \<Rightarrow> 'c \<times> warning list \<Rightarrow> 'c \<times> warning list" where
  "run_chain ss cw = fold (\<lambda>f. f) (map fst ss) cw"

lemma all_conds_Cons [simp]: "all_conds (s # ss) c \<longleftrightarrow> snd s c \<and> all_conds ss c"
  by (simp add: all_conds_def)

lemma all_conds_Nil [simp]: "all_conds [] c"
  by (simp add: all_conds_def)

lemma run_chain_Cons [simp]: "run_chain (s # ss) cw = run_chain ss (fst s cw)"
  by (simp add: run_chain_def)

lemma run_chain_Nil [simp]: "run_chain [] cw = cw"
  by (simp add: run_chain_def)

lemma chain_keeps:
  "list_all (keeps_cond s) ss \<Longrightarrow> snd s (fst cw) \<Longrightarrow> snd s (fst (run_chain ss cw))"
proof (induction ss arbitrary: cw)
  case (Cons t ss)
  then have "snd s (fst (fst t cw))" using keeps_condD [of s t cw] by simp
  with Cons show ?case by simp
qed simp

lemma chain_heals: "heal_chain ss \<Longrightarrow> all_conds ss (fst (run_chain ss cw))"
proof (induction ss arbitrary: cw)
  case (Cons s ss)
  then have "snd s (fst (fst s cw))" using step_heals [of s cw] by simp
  with Cons chain_keeps [of s ss "fst s cw"] show ?case by simp
qed simp

lemma chain_quiet: "heal_chain ss \<Longrightarrow> all_conds ss (fst cw) \<Longrightarrow> run_chain ss cw = cw"
proof (induction ss arbitrary: cw)
  case (Cons s ss)
  then have "fst s cw = cw" using step_quiet [of s cw] by simp
  with Cons show ?case by simp
qed simp

lemma chain_warns:
  "heal_chain ss \<Longrightarrow> \<exists>ws. snd (run_chain ss cw) = snd cw @ ws \<and> (ws = [] \<longrightarrow> all_conds ss (fst cw))"
proof (induction ss arbitrary: cw)
  case (Cons s ss)
  have ok: "step_ok s" using Cons.prems by simp
  then obtain ws where ws: "snd (fst s cw) = snd cw @ ws" "ws = [] \<longleftrightarrow> snd s (fst cw)"
    using step_warns [OF ok] by blast
  have same: "snd s (fst cw) \<Longrightarrow> fst s cw = cw" by (rule step_quiet [OF ok])
  obtain vs where vs: "snd (run_chain ss (fst s cw)) = snd (fst s cw) @ vs"
    "vs = [] \<longrightarrow> all_conds ss (fst (fst s cw))"
    using Cons by fastforce
  have "ws @ vs = [] \<longrightarrow> all_conds (s # ss) (fst cw)"
    using ws(2) vs(2) same by auto
  with ws(1) vs(1) show ?case by (intro exI [of _ "ws @ vs"]) simp
qed simp

text \<open>The laws of a section: \<open>good\<close> says that its defaults are valid, \<open>errs\<close> are the errors that
  its fixes are meant to remove.\<close>

locale config_section =
  fixes steps :: "'c fix_step list" and errs :: "'c \<Rightarrow> err_map" and good :: bool
  assumes chain: "good \<Longrightarrow> heal_chain steps"
    and errs_iff: "errs c = Map.empty \<longleftrightarrow> all_conds steps c"
begin

definition norm :: "'c \<Rightarrow> 'c \<times> warning list" where
  "norm c = run_fixes (map fst steps) c"

lemma norm_chain: "norm c = run_chain steps (c, [])"
  by (simp add: norm_def run_fixes_def run_chain_def)

lemma heals: "good \<Longrightarrow> errs (fst (norm c)) = Map.empty"
  using chain_heals [OF chain] by (simp add: errs_iff norm_chain)

lemma valid_kept: "good \<Longrightarrow> errs c = Map.empty \<Longrightarrow> norm c = (c, [])"
  using chain_quiet [OF chain, of "(c, [])"] by (simp add: errs_iff norm_chain)

lemma quiet_iff: "good \<Longrightarrow> snd (norm c) = [] \<longleftrightarrow> errs c = Map.empty"
proof
  assume good
  show "errs c = Map.empty" if "snd (norm c) = []"
    using chain_warns [OF chain [OF \<open>good\<close>], of "(c, [])"] that
    unfolding errs_iff norm_chain by force
  show "snd (norm c) = []" if "errs c = Map.empty"
    using valid_kept [OF \<open>good\<close> that] by simp
qed

lemma idempotent: "good \<Longrightarrow> norm (fst (norm c)) = (fst (norm c), [])"
  by (rule valid_kept [OF _ heals])

end

subsection \<open>The fixes\<close>

lemma step_okI:
  assumes "\<And>cw. C (fst cw) \<Longrightarrow> f cw = cw"
    and "\<And>cw. \<not> C (fst cw) \<Longrightarrow> C (fst (f cw)) \<and> snd (f cw) = snd cw @ [w cw]"
  shows "step_ok (f, C)"
proof -
  have "C (fst (f cw))" for cw using assms [of cw] by (cases "C (fst cw)") simp_all
  moreover have "\<exists>ws. snd (f cw) = snd cw @ ws \<and> (ws = [] \<longleftrightarrow> C (fst cw))" for cw
  proof (cases "C (fst cw)")
    case False
    with assms(2) [OF False] show ?thesis by (intro exI [of _ "[w cw]"]) simp
  qed (use assms(1) in simp)
  ultimately show ?thesis using assms(1) unfolding step_ok_def fst_conv snd_conv by blast
qed

lemma step_ok_field:
  assumes "check df = None" and "\<And>c. get (upd (\<lambda>_. df) c) = df"
  shows "step_ok (fix_field check val field get upd df, \<lambda>c. check (get c) = None)"
proof (rule step_okI)
  fix cw :: "'b \<times> warning list"
  show "check (get (fst cw)) = None \<Longrightarrow> fix_field check val field get upd df cw = cw"
    by (simp add: fix_field_def)
  assume "check (get (fst cw)) \<noteq> None"
  then obtain e where "check (get (fst cw)) = Some e" by blast
  with assms show "check (get (fst (fix_field check val field get upd df cw))) = None \<and>
      snd (fix_field check val field get upd df cw) = snd cw @
        [\<lparr>Field = field, OldVal = val (get (fst cw)), NewVal = val df, Reason = CheckFailed (the (check (get (fst cw))))\<rparr>]"
    by (simp add: fix_field_def)
qed

lemma step_ok_when:
  assumes "\<not> bad df" and "\<And>c. get (upd (\<lambda>_. df) c) = df"
  shows "step_ok (fix_when bad val why field get upd df, \<lambda>c. \<not> bad (get c))"
proof (rule step_okI)
  fix cw :: "'b \<times> warning list"
  show "\<not> bad (get (fst cw)) \<Longrightarrow> fix_when bad val why field get upd df cw = cw"
    by (simp add: fix_when_def)
  assume "\<not> \<not> bad (get (fst cw))"
  with assms show "\<not> bad (get (fst (fix_when bad val why field get upd df cw))) \<and>
      snd (fix_when bad val why field get upd df cw) = snd cw @
        [\<lparr>Field = field, OldVal = val (get (fst cw)), NewVal = val df, Reason = why\<rparr>]"
    by (simp add: fix_when_def)
qed

lemma keeps_field:
  "(\<And>c. C c \<Longrightarrow> C (upd (\<lambda>_. df) c)) \<Longrightarrow> keeps_cond (f, C) (fix_field check val field get upd df, D)"
  unfolding keeps_cond_def fix_field_def by (auto split: option.split simp del: split_paired_All)

lemma keeps_when:
  "(\<And>c. C c \<Longrightarrow> C (upd (\<lambda>_. df) c)) \<Longrightarrow> keeps_cond (f, C) (fix_when bad val why field get upd df, D)"
  unfolding keeps_cond_def fix_when_def by (auto simp del: split_paired_All)

lemma put_err_empty [simp]: "put_err field err m = Map.empty \<longleftrightarrow> err = None \<and> m = Map.empty"
  by (cases err) (auto simp: put_err_def)

lemma collect_errs_empty:
  "collect_errs es = Map.empty \<longleftrightarrow> list_all (\<lambda>e. snd e = None) es"
proof -
  have "fold (\<lambda>(field, err). put_err field err) es m = Map.empty \<longleftrightarrow> list_all (\<lambda>e. snd e = None) es \<and> m = Map.empty" for m
    by (induction es arbitrary: m) (auto split: prod.splits)
  then show ?thesis by (simp add: collect_errs_def)
qed


lemma collect_errs_None:
  "collect_errs es k = None \<longleftrightarrow> list_all (\<lambda>e. fst e = k \<longrightarrow> snd e = None) es"
proof -
  have "fold (\<lambda>(field, err). put_err field err) es m k = None
      \<longleftrightarrow> list_all (\<lambda>e. fst e = k \<longrightarrow> snd e = None) es \<and> m k = None" for m
    by (induction es arbitrary: m) (auto simp: put_err_def split: prod.splits option.splits if_splits)
  then show ?thesis by (simp add: collect_errs_def)
qed

text \<open>An error map in which the entry of one field is replaced.\<close>

lemma collect_errs_upd:
  "(collect_errs es)(k := y) = Map.empty \<longleftrightarrow> y = None \<and> list_all (\<lambda>e. fst e \<noteq> k \<longrightarrow> snd e = None) es"
proof -
  have "(collect_errs es)(k := y) = Map.empty \<longleftrightarrow> y = None \<and> (\<forall>j. j \<noteq> k \<longrightarrow> collect_errs es j = None)"
    by (auto simp: fun_eq_iff)
  then show ?thesis by (auto simp: collect_errs_None list_all_iff)
qed

lemma step_ok_order:
  assumes "checkEnumOrder mn mx allowed = None"
    and "\<And>c. getMin (updMax (\<lambda>_. mx) (updMin (\<lambda>_. mn) c)) = mn"
    and "\<And>c. getMax (updMax (\<lambda>_. mx) (updMin (\<lambda>_. mn) c)) = mx"
  shows "step_ok (fixEnumOrder minField maxField getMin updMin getMax updMax mn mx allowed,
                  \<lambda>c. checkEnumOrder (getMin c) (getMax c) allowed = None)"
    (is "step_ok (?f, ?C)")
proof (rule step_okI)
  fix cw :: "'a \<times> warning list"
  show "?C (fst cw) \<Longrightarrow> ?f cw = cw" by (simp add: fixEnumOrder_def)
  assume "\<not> ?C (fst cw)"
  then obtain e where "checkEnumOrder (getMin (fst cw)) (getMax (fst cw)) allowed = Some e" by blast
  with assms show "?C (fst (?f cw)) \<and> snd (?f cw) = snd cw @
        [\<lparr>Field = minField @ '' and '' @ maxField,
          OldVal = VStr (getMin (fst cw) @ '', '' @ getMax (fst cw)),
          NewVal = VStr (mn @ '', '' @ mx),
          Reason = CheckFailed (the (checkEnumOrder (getMin (fst cw)) (getMax (fst cw)) allowed))\<rparr>]"
    by (simp add: fixEnumOrder_def)
qed

lemma keeps_order:
  "(\<And>c. C c \<Longrightarrow> C (updMax (\<lambda>_. mx) (updMin (\<lambda>_. mn) c)))
   \<Longrightarrow> keeps_cond (f, C) (fixEnumOrder minField maxField getMin updMin getMax updMax mn mx allowed, D)"
  unfolding keeps_cond_def fixEnumOrder_def by (auto split: option.split simp del: split_paired_All)

lemmas fix_rules = step_ok_field step_ok_when step_ok_order keeps_field keeps_when keeps_order

subsection \<open>The sections\<close>

definition general_chain :: "GeneralConfig \<Rightarrow> GeneralConfig fix_step list" where
  "general_chain df =
     [(fixDurationMS ''StatusInterval'' StatusInterval StatusInterval_update MinGeneralStatusInterval MaxGeneralStatusInterval (StatusInterval df),
         \<lambda>c. checkDuration (Duration (StatusInterval c)) MinGeneralStatusInterval MaxGeneralStatusInterval = None),
      (fix_when (\<lambda>v. v < 0) VInt Negative ''MaxSuccessfulIPs'' MaxSuccessful MaxSuccessful_update (MaxSuccessful df),
         \<lambda>c. \<not> (\<lambda>v. v < 0) (MaxSuccessful c)),
      (fix_when (\<lambda>v. v < 0) VInt Negative ''MaxIPsToTest'' MaxIPsToTest MaxIPsToTest_update (MaxIPsToTest df),
         \<lambda>c. \<not> (\<lambda>v. v < 0) (MaxIPsToTest c)),
      (fixInt ''MaxIPsPerStage'' MaxIPsPerStage MaxIPsPerStage_update MinGeneralMaxIPsPerStage MaxGeneralMaxIPsPerStage (MaxIPsPerStage df),
         \<lambda>c. checkInt (MaxIPsPerStage c) MinGeneralMaxIPsPerStage MaxGeneralMaxIPsPerStage = None),
      (fixInt ''BatchSize'' GenBatchSize GenBatchSize_update MinGeneralBatchSize MaxGeneralBatchSize (GenBatchSize df),
         \<lambda>c. checkInt (GenBatchSize c) MinGeneralBatchSize MaxGeneralBatchSize = None),
      (fixEnum ''PipelineMode'' PipelineMode PipelineMode_update allowedPipelineModes (PipelineMode df),
         \<lambda>c. checkEnum (PipelineMode c) allowedPipelineModes = None),
      (fixDurationMS ''MinProbeDuration'' MinProbeDuration MinProbeDuration_update MinGeneralProbeDuration MaxGeneralProbeDuration (MinProbeDuration df),
         \<lambda>c. checkDuration (Duration (MinProbeDuration c)) MinGeneralProbeDuration MaxGeneralProbeDuration = None),
      (fixInt ''ProbePerSec'' ProbePerSec ProbePerSec_update MinGeneralProbePerSec MaxGeneralProbePerSec (ProbePerSec df),
         \<lambda>c. checkInt (ProbePerSec c) MinGeneralProbePerSec MaxGeneralProbePerSec = None),
      (fixInt ''ProbeBurst'' ProbeBurst ProbeBurst_update MinGeneralProbeBurst MaxGeneralProbeBurst (ProbeBurst df),
         \<lambda>c. checkInt (ProbeBurst c) MinGeneralProbeBurst MaxGeneralProbeBurst = None)]"

interpretation general: config_section "general_chain df" "\<lambda>c. ValidateGeneral c" "ValidateGeneral df = Map.empty" for df
proof
  show "ValidateGeneral c = Map.empty \<longleftrightarrow> all_conds (general_chain df) c" for c
    by (auto simp: ValidateGeneral_def general_chain_def collect_errs_empty collect_errs_upd tls_errs_def Let_def split: option.split if_splits)
  assume "ValidateGeneral df = Map.empty"
  then show "heal_chain (general_chain df)"
    unfolding general_chain_def heal_chain.simps list.pred_inject fix_defs ValidateGeneral_def collect_errs_empty collect_errs_upd
    by (intro conjI TrueI fix_rules; simp add: tls_errs_def Let_def split: option.splits if_splits)
qed

lemma general_norm: "general.norm df = NormalizeGeneral df"
  by (rule ext) (unfold general.norm_def, simp add: NormalizeGeneral_def general_chain_def)

definition writer_chain :: "WriterConfig \<Rightarrow> WriterConfig fix_step list" where
  "writer_chain df =
     [(fixDurationMS ''MergeFlushInterval'' MergeFlushInterval MergeFlushInterval_update MinWriterMergeFlushInterval MaxWriterMergeFlushInterval (MergeFlushInterval df),
         \<lambda>c. checkDuration (Duration (MergeFlushInterval c)) MinWriterMergeFlushInterval MaxWriterMergeFlushInterval = None),
      (fixInt ''ChanSize'' ChanSize ChanSize_update MinWriterChanSize MaxWriterChanSize (ChanSize df),
         \<lambda>c. checkInt (ChanSize c) MinWriterChanSize MaxWriterChanSize = None),
      (fixInt ''BatchSize'' WrBatchSize WrBatchSize_update MinWriterBatchSize MaxWriterBatchSize (WrBatchSize df),
         \<lambda>c. checkInt (WrBatchSize c) MinWriterBatchSize MaxWriterBatchSize = None),
      (fixDirectoryName ''ResultBaseDir'' ResultBaseDir ResultBaseDir_update (ResultBaseDir df),
         \<lambda>c. checkDirectoryName (ResultBaseDir c) = None)]"

interpretation writer: config_section "writer_chain df" "\<lambda>c. ValidateWriter c" "ValidateWriter df = Map.empty" for df
proof
  show "ValidateWriter c = Map.empty \<longleftrightarrow> all_conds (writer_chain df) c" for c
    by (auto simp: ValidateWriter_def writer_chain_def collect_errs_empty collect_errs_upd tls_errs_def Let_def split: option.split if_splits)
  assume "ValidateWriter df = Map.empty"
  then show "heal_chain (writer_chain df)"
    unfolding writer_chain_def heal_chain.simps list.pred_inject fix_defs ValidateWriter_def collect_errs_empty collect_errs_upd
    by (intro conjI TrueI fix_rules; simp add: tls_errs_def Let_def split: option.splits if_splits)
qed

lemma writer_norm: "writer.norm df = NormalizeWriter df"
  by (rule ext) (unfold writer.norm_def, simp add: NormalizeWriter_def writer_chain_def)

definition tcp_chain :: "TCPConfig \<Rightarrow> TCPConfig fix_step list" where
  "tcp_chain df =
     [(fixInt ''Workers'' TcpWorkers TcpWorkers_update MinTCPWorkers MaxTCPWorkers (TcpWorkers df),
         \<lambda>c. checkInt (TcpWorkers c) MinTCPWorkers MaxTCPWorkers = None),
      (fixInt ''Port'' TcpPort TcpPort_update MinTCPPort MaxTCPPort (TcpPort df),
         \<lambda>c. checkInt (TcpPort c) MinTCPPort MaxTCPPort = None),
      (fixDurationMS ''Timeout'' TcpTimeout TcpTimeout_update MinTCPTimeout MaxTCPTimeout (TcpTimeout df),
         \<lambda>c. checkDuration (Duration (TcpTimeout c)) MinTCPTimeout MaxTCPTimeout = None),
      (fixUint16 ''Tries'' TcpTries TcpTries_update MinTCPTries MaxTCPTries (TcpTries df),
         \<lambda>c. checkUint16 (TcpTries c) MinTCPTries MaxTCPTries = None),
      (fixPrefix ''OutputPrefix'' TcpPrefix TcpPrefix_update (TcpPrefix df),
         \<lambda>c. checkPrefix (TcpPrefix c) = None)]"

interpretation tcp: config_section "tcp_chain df" "\<lambda>c. ValidateTCP c" "ValidateTCP df = Map.empty" for df
proof
  show "ValidateTCP c = Map.empty \<longleftrightarrow> all_conds (tcp_chain df) c" for c
    by (auto simp: ValidateTCP_def tcp_chain_def collect_errs_empty collect_errs_upd tls_errs_def Let_def split: option.split if_splits)
  assume "ValidateTCP df = Map.empty"
  then show "heal_chain (tcp_chain df)"
    unfolding tcp_chain_def heal_chain.simps list.pred_inject fix_defs ValidateTCP_def collect_errs_empty collect_errs_upd
    by (intro conjI TrueI fix_rules; simp add: tls_errs_def Let_def split: option.splits if_splits)
qed

lemma tcp_norm: "tcp.norm df = NormalizeTCP df"
  by (rule ext) (unfold tcp.norm_def, simp add: NormalizeTCP_def tcp_chain_def)

definition icmp_chain :: "ICMPConfig \<Rightarrow> ICMPConfig fix_step list" where
  "icmp_chain df =
     [(fixInt ''Workers'' IcmpWorkers IcmpWorkers_update MinICMPWorkers MaxICMPWorkers (IcmpWorkers df),
         \<lambda>c. checkInt (IcmpWorkers c) MinICMPWorkers MaxICMPWorkers = None),
      (fixDurationMS ''Timeout'' IcmpTimeout IcmpTimeout_update MinICMPTimeout MaxICMPTimeout (IcmpTimeout df),
         \<lambda>c. checkDuration (Duration (IcmpTimeout c)) MinICMPTimeout MaxICMPTimeout = None),
      (fixUint16 ''Tries'' IcmpTries IcmpTries_update MinICMPTries MaxICMPTries (IcmpTries df),
         \<lambda>c. checkUint16 (IcmpTries c) MinICMPTries MaxICMPTries = None),
      (fixString ''OutputPrefix'' IcmpPrefix IcmpPrefix_update (IcmpPrefix df),
         \<lambda>c. checkString (IcmpPrefix c) = None)]"

interpretation icmp: config_section "icmp_chain df" "\<lambda>c. (ValidateICMP c)(''OutputPrefix'' := checkString (IcmpPrefix c))" "(ValidateICMP df)(''OutputPrefix'' := checkString (IcmpPrefix df)) = Map.empty" for df
proof
  show "(ValidateICMP c)(''OutputPrefix'' := checkString (IcmpPrefix c)) = Map.empty \<longleftrightarrow> all_conds (icmp_chain df) c" for c
    by (auto simp: ValidateICMP_def icmp_chain_def collect_errs_empty collect_errs_upd tls_errs_def Let_def split: option.split if_splits)
  assume "(ValidateICMP df)(''OutputPrefix'' := checkString (IcmpPrefix df)) = Map.empty"
  then show "heal_chain (icmp_chain df)"
    unfolding icmp_chain_def heal_chain.simps list.pred_inject fix_defs ValidateICMP_def collect_errs_empty collect_errs_upd
    by (intro conjI TrueI fix_rules; simp add: tls_errs_def Let_def split: option.splits if_splits)
qed

lemma icmp_norm: "icmp.norm df = NormalizeICMP df"
  by (rule ext) (unfold icmp.norm_def, simp add: NormalizeICMP_def icmp_chain_def)

definition http_chain :: "(string \<Rightarrow> string option) \<Rightarrow> HTTPConfig \<Rightarrow> HTTPConfig fix_step list" where
  "http_chain hostname df =
     [(fixInt ''Workers'' HttpWorkers HttpWorkers_update MinHTTPWorkers MaxHTTPWorkers (HttpWorkers df),
         \<lambda>c. checkInt (HttpWorkers c) MinHTTPWorkers MaxHTTPWorkers = None),
      (fixInt ''Port'' HttpPort HttpPort_update MinHTTPPort MaxHTTPPort (HttpPort df),
         \<lambda>c. checkInt (HttpPort c) MinHTTPPort MaxHTTPPort = None),
      (fixEnum ''Protocol'' Protocol Protocol_update allowedProtocols (Protocol df),
         \<lambda>c. checkEnum (Protocol c) allowedProtocols = None),
      (fixHost hostname ''Host'' Host Host_update (Host df),
         \<lambda>c. checkHost hostname (Host c) = None),
      (fixHTTPStatusCodes ''AcceptedStatusCodes'' AcceptedStatusCodes AcceptedStatusCodes_update (AcceptedStatusCodes df),
         \<lambda>c. checkStatusCodes (AcceptedStatusCodes c) = None),
      (fixSNI ''ServerName'' ServerName ServerName_update (ServerName df),
         \<lambda>c. checkSNI (ServerName c) = None),
      (fixEnum ''Version'' HttpVersion HttpVersion_update allowedHTTPVersions (HttpVersion df),
         \<lambda>c. checkEnum (HttpVersion c) allowedHTTPVersions = None),
      (fixDurationMS ''Timeout'' HttpTimeout HttpTimeout_update MinHTTPTimeout MaxHTTPTimeout (HttpTimeout df),
         \<lambda>c. checkDuration (Duration (HttpTimeout c)) MinHTTPTimeout MaxHTTPTimeout = None),
      (fixEnum ''MinTLSVersion'' MinTLSVersion MinTLSVersion_update allowedTLSVersions (MinTLSVersion df),
         \<lambda>c. checkEnum (MinTLSVersion c) allowedTLSVersions = None),
      (fixEnum ''MaxTLSVersion'' MaxTLSVersion MaxTLSVersion_update allowedTLSVersions (MaxTLSVersion df),
         \<lambda>c. checkEnum (MaxTLSVersion c) allowedTLSVersions = None),
      (fixEnumOrder ''MinTLSVersion'' ''MaxTLSVersion'' MinTLSVersion MinTLSVersion_update MaxTLSVersion MaxTLSVersion_update (MinTLSVersion df) (MaxTLSVersion df) allowedTLSVersions,
         \<lambda>c. checkEnumOrder (MinTLSVersion c) (MaxTLSVersion c) allowedTLSVersions = None),
      (fixString ''OutputPrefix'' HttpPrefix HttpPrefix_update (HttpPrefix df),
         \<lambda>c. checkString (HttpPrefix c) = None),
      (fix_when (\<lambda>v. v \<noteq> [] \<and> \<not> ValidFingerprint v) VStr FingerprintCleared ''Fingerprint'' Fingerprint Fingerprint_update [],
         \<lambda>c. \<not> (\<lambda>v. v \<noteq> [] \<and> \<not> ValidFingerprint v) (Fingerprint c))]"

interpretation http: config_section "http_chain hostname df" "\<lambda>c. (ValidateHTTP hostname c)(''OutputPrefix'' := checkString (HttpPrefix c))" "(ValidateHTTP hostname df)(''OutputPrefix'' := checkString (HttpPrefix df)) = Map.empty" for hostname df
proof
  show "(ValidateHTTP hostname c)(''OutputPrefix'' := checkString (HttpPrefix c)) = Map.empty \<longleftrightarrow> all_conds (http_chain hostname df) c" for c
    by (auto simp: ValidateHTTP_def http_chain_def collect_errs_empty collect_errs_upd tls_errs_def Let_def split: option.split if_splits)
  assume "(ValidateHTTP hostname df)(''OutputPrefix'' := checkString (HttpPrefix df)) = Map.empty"
  then show "heal_chain (http_chain hostname df)"
    unfolding http_chain_def heal_chain.simps list.pred_inject fix_defs ValidateHTTP_def collect_errs_empty collect_errs_upd
    by (intro conjI TrueI fix_rules; simp add: tls_errs_def Let_def split: option.splits if_splits)
qed

lemma http_norm: "http.norm hostname df = NormalizeHTTP hostname df"
  by (rule ext) (unfold http.norm_def, simp add: NormalizeHTTP_def http_chain_def)

definition xray_chain :: "XrayConfig \<Rightarrow> XrayConfig fix_step list" where
  "xray_chain df =
     [(fixInt ''Workers'' XrayWorkers XrayWorkers_update MinXrayWorkers MaxXrayWorkers (XrayWorkers df),
         \<lambda>c. checkInt (XrayWorkers c) MinXrayWorkers MaxXrayWorkers = None),
      (fix_when (\<lambda>v. \<not> IsValid v) VConn Invalid ''ConnectivityTestType'' ConnectivityTestType ConnectivityTestType_update (ConnectivityTestType df),
         \<lambda>c. \<not> (\<lambda>v. \<not> IsValid v) (ConnectivityTestType c)),
      (fixInt ''DownloadSpeed'' DownloadSpeed DownloadSpeed_update MinXrayDownloadSpeed MaxXrayDownloadSpeed (DownloadSpeed df),
         \<lambda>c. checkInt (DownloadSpeed c) MinXrayDownloadSpeed MaxXrayDownloadSpeed = None),
      (fixInt ''UploadSpeed'' UploadSpeed UploadSpeed_update MinXrayUploadSpeed MaxXrayUploadSpeed (UploadSpeed df),
         \<lambda>c. checkInt (UploadSpeed c) MinXrayUploadSpeed MaxXrayUploadSpeed = None),
      (fixDurationMS ''Timeout'' XrayTimeout XrayTimeout_update MinXrayTimeout MaxXrayTimeout (XrayTimeout df),
         \<lambda>c. checkDuration (Duration (XrayTimeout c)) MinXrayTimeout MaxXrayTimeout = None),
      (fixDurationMS ''SpeedTestTimeout'' SpeedTestTimeout SpeedTestTimeout_update MinXrayTimeout MaxXrayTimeout (SpeedTestTimeout df),
         \<lambda>c. checkDuration (Duration (SpeedTestTimeout c)) MinXrayTimeout MaxXrayTimeout = None),
      (fixEnum ''PreScanType'' PreScanType PreScanType_update allowedPreScanTypes (PreScanType df),
         \<lambda>c. checkEnum (PreScanType c) allowedPreScanTypes = None),
      (fixString ''OutputPrefix'' XrayPrefix XrayPrefix_update (XrayPrefix df),
         \<lambda>c. checkString (XrayPrefix c) = None),
      (fixInt ''MaxConcurrentDials'' MaxConcurrentDials MaxConcurrentDials_update MinXrayMaxConcurrentDials MaxXrayMaxConcurrentDials (MaxConcurrentDials df),
         \<lambda>c. checkInt (MaxConcurrentDials c) MinXrayMaxConcurrentDials MaxXrayMaxConcurrentDials = None),
      (fixInt ''DialMaxAttempts'' DialMaxAttempts DialMaxAttempts_update MinXrayDialMaxAttempts MaxXrayDialMaxAttempts (DialMaxAttempts df),
         \<lambda>c. checkInt (DialMaxAttempts c) MinXrayDialMaxAttempts MaxXrayDialMaxAttempts = None)]"

interpretation xray: config_section "xray_chain df" "\<lambda>c. (ValidateXray c)(''OutputPrefix'' := checkString (XrayPrefix c))" "(ValidateXray df)(''OutputPrefix'' := checkString (XrayPrefix df)) = Map.empty" for df
proof
  show "(ValidateXray c)(''OutputPrefix'' := checkString (XrayPrefix c)) = Map.empty \<longleftrightarrow> all_conds (xray_chain df) c" for c
    by (auto simp: ValidateXray_def xray_chain_def collect_errs_empty collect_errs_upd tls_errs_def Let_def split: option.split if_splits)
  assume "(ValidateXray df)(''OutputPrefix'' := checkString (XrayPrefix df)) = Map.empty"
  then show "heal_chain (xray_chain df)"
    unfolding xray_chain_def heal_chain.simps list.pred_inject fix_defs ValidateXray_def collect_errs_empty collect_errs_upd
    by (intro conjI TrueI fix_rules; simp add: tls_errs_def Let_def split: option.splits if_splits)
qed

lemma xray_norm: "xray.norm df = NormalizeXray df"
  by (rule ext) (unfold xray.norm_def, simp add: NormalizeXray_def xray_chain_def)

definition resolver_chain :: "ResolverConfig \<Rightarrow> ResolverConfig fix_step list" where
  "resolver_chain df =
     [(fixInt ''Resolver.Workers'' ResWorkers ResWorkers_update MinDNSResolverWorkers MaxDNSResolverWorkers (ResWorkers df),
         \<lambda>c. checkInt (ResWorkers c) MinDNSResolverWorkers MaxDNSResolverWorkers = None),
      (fixEnum ''Resolver.Transport'' Transport Transport_update allowedDNSTransport (Transport df),
         \<lambda>c. checkEnum (Transport c) allowedDNSTransport = None),
      (fixDomain ''Resolver.Domain'' Domain Domain_update (Domain df),
         \<lambda>c. checkDomain (Domain c) = None),
      (fixUint16 ''Resolver.Port'' ResPort ResPort_update MinDNSResolverPort MaxDNSResolverPort (ResPort df),
         \<lambda>c. checkUint16 (ResPort c) MinDNSResolverPort MaxDNSResolverPort = None),
      (fixStringSlice ''Resolver.CheckTypes'' CheckTypes CheckTypes_update (CheckTypes df),
         \<lambda>c. checkStringSlice (CheckTypes c) = None),
      (fixDurationMS ''Resolver.Timeout'' ResTimeout ResTimeout_update MinDNSResolverTimeout MaxDNSResolverTimeout (ResTimeout df),
         \<lambda>c. checkDuration (Duration (ResTimeout c)) MinDNSResolverTimeout MaxDNSResolverTimeout = None),
      (fixInt ''Resolver.Tries'' ResTries ResTries_update MinDNSResolverTries MaxDNSResolverTries (ResTries df),
         \<lambda>c. checkInt (ResTries c) MinDNSResolverTries MaxDNSResolverTries = None),
      (fixInt ''Resolver.DPI.Tries'' dpi_tries dpi_tries_update MinDNSResolverDPITries MaxDNSResolverDPITries (dpi_tries df),
         \<lambda>c. checkInt (dpi_tries c) MinDNSResolverDPITries MaxDNSResolverDPITries = None),
      (fixDurationMS ''Resolver.DPI.Timeout'' dpi_timeout dpi_timeout_update MinDNSResolverDPITimeout MaxDNSResolverDPITimeout (dpi_timeout df),
         \<lambda>c. checkDuration (Duration (dpi_timeout c)) MinDNSResolverDPITimeout MaxDNSResolverDPITimeout = None),
      (fixPrefix ''Resolver.OutputPrefix'' ResPrefix ResPrefix_update (ResPrefix df),
         \<lambda>c. checkPrefix (ResPrefix c) = None)]"

interpretation resolver: config_section "resolver_chain df" "\<lambda>c. validateResolver c" "validateResolver df = Map.empty" for df
proof
  show "validateResolver c = Map.empty \<longleftrightarrow> all_conds (resolver_chain df) c" for c
    by (auto simp: validateResolver_def resolver_chain_def collect_errs_empty collect_errs_upd tls_errs_def Let_def split: option.split if_splits)
  assume "validateResolver df = Map.empty"
  then show "heal_chain (resolver_chain df)"
    unfolding resolver_chain_def heal_chain.simps list.pred_inject fix_defs validateResolver_def collect_errs_empty collect_errs_upd
    by (intro conjI TrueI fix_rules; simp add: tls_errs_def Let_def dpi_defs split: option.splits if_splits)
qed

lemma resolver_norm: "resolver.norm df = normalizeResolver df"
  by (rule ext) (unfold resolver.norm_def, simp add: normalizeResolver_def resolver_chain_def)

definition tunnel_chain :: "DNSTunneling \<Rightarrow> DNSTunneling fix_step list" where
  "tunnel_chain df =
     [(fixInt ''DNSTunneling.Workers'' TunWorkers TunWorkers_update MinDNSTunnelingWorkers MaxDNSTunnelingWorkers (TunWorkers df),
         \<lambda>c. checkInt (TunWorkers c) MinDNSTunnelingWorkers MaxDNSTunnelingWorkers = None),
      (fixInt ''DNSTunneling.Tries'' TunTries TunTries_update MinDNSResolverTries MaxDNSResolverTries (TunTries df),
         \<lambda>c. checkInt (TunTries c) MinDNSResolverTries MaxDNSResolverTries = None),
      (fixDurationMS ''DNSTunneling.Timeout'' TunTimeout TunTimeout_update MinDNSTunnelingTimeout MaxDNSTunnelingTimeout (TunTimeout df),
         \<lambda>c. checkDuration (Duration (TunTimeout c)) MinDNSTunnelingTimeout MaxDNSTunnelingTimeout = None),
      (fixPrefix ''DNSTunneling.OutputPrefix'' TunPrefix TunPrefix_update (TunPrefix df),
         \<lambda>c. checkPrefix (TunPrefix c) = None)]"

interpretation tunnel: config_section "tunnel_chain df" "\<lambda>c. validateDNSTunneling c" "validateDNSTunneling df = Map.empty" for df
proof
  show "validateDNSTunneling c = Map.empty \<longleftrightarrow> all_conds (tunnel_chain df) c" for c
    by (auto simp: validateDNSTunneling_def tunnel_chain_def collect_errs_empty collect_errs_upd tls_errs_def Let_def split: option.split if_splits)
  assume "validateDNSTunneling df = Map.empty"
  then show "heal_chain (tunnel_chain df)"
    unfolding tunnel_chain_def heal_chain.simps list.pred_inject fix_defs validateDNSTunneling_def collect_errs_empty collect_errs_upd
    by (intro conjI TrueI fix_rules; simp add: tls_errs_def Let_def split: option.splits if_splits)
qed

lemma tunnel_norm: "tunnel.norm df = normalizeDNSTunneling df"
  by (rule ext) (unfold tunnel.norm_def, simp add: normalizeDNSTunneling_def tunnel_chain_def)

subsection \<open>The defaults\<close>

lemma default_strings [simp]:
  "isValidDomain ''example.com'' = True" "checkSNI [] = None" "hasScheme ''example.com'' = False"
  "trim_space ''example.com'' = ''example.com''" "checkString ''http_'' = None"
  "checkEnum ''https'' allowedProtocols = None" "checkEnum ''h1,h2'' allowedHTTPVersions = None"
  "checkEnum ''tls1.1'' allowedTLSVersions = None" "checkEnum ''tls1.3'' allowedTLSVersions = None"
  "checkEnumOrder ''tls1.1'' ''tls1.3'' allowedTLSVersions = None"
  by code_simp+

lemma default_writer: "ValidateWriter (DefaultWriterConfig pf tr) = Map.empty"
  unfolding ValidateWriter_def collect_errs_empty by (induct pf; induct tr; code_simp)

lemma default_tcp: "ValidateTCP (DefaultTCPConfig pf tr) = Map.empty"
  unfolding ValidateTCP_def collect_errs_empty by (induct pf; induct tr; code_simp)

lemma default_icmp:
  "(ValidateICMP (DefaultICMPConfig pf tr))(''OutputPrefix'' := checkString (IcmpPrefix (DefaultICMPConfig pf tr))) = Map.empty"
  unfolding ValidateICMP_def collect_errs_upd by (induct pf; induct tr; code_simp)

lemma default_xray:
  "(ValidateXray (DefaultXrayConfig pf tr))(''OutputPrefix'' := checkString (XrayPrefix (DefaultXrayConfig pf tr))) = Map.empty"
  unfolding ValidateXray_def collect_errs_upd by (induct pf; induct tr; code_simp)

lemma default_resolver: "validateResolver (Resolver (DefaultDNSConfig pf tr)) = Map.empty"
  unfolding validateResolver_def collect_errs_empty by (induct pf; induct tr; code_simp)

lemma default_tunnel: "validateDNSTunneling (Tunneling (DefaultDNSConfig pf tr)) = Map.empty"
  unfolding validateDNSTunneling_def collect_errs_empty by (induct pf; induct tr; code_simp)

lemma default_general:
  "ValidateGeneral (DefaultGeneralConfig pf tr) = Map.empty \<longleftrightarrow> (pf, tr) \<noteq> (Server, High)"
  unfolding ValidateGeneral_def collect_errs_empty by (induct pf; induct tr; code_simp)

definition default_host_ok :: "(string \<Rightarrow> string option) \<Rightarrow> bool" where
  "default_host_ok hostname \<longleftrightarrow> hostname ''http://example.com'' = Some ''example.com''"

lemma default_http:
  assumes "default_host_ok hostname"
  shows "(ValidateHTTP hostname (DefaultHTTPConfig pf tr))(''OutputPrefix'' := checkString (HttpPrefix (DefaultHTTPConfig pf tr))) = Map.empty"
proof -
  have host: "checkHost hostname ''example.com'' = None"
    using assms by (simp add: checkHost_def default_host_ok_def)
  show ?thesis
    unfolding ValidateHTTP_def collect_errs_upd
    by (induct pf; induct tr; simp add: host tls_errs_def Let_def httpBase_def withHTTP_def checkInt_def
        checkDuration_def Duration_def NewDurationMS_def wrap64_def checkStatusCodes_def cfg_defs
        cfg_limits del: allowedTLSVersions_def allowedProtocols_def allowedHTTPVersions_def; code_simp)
qed

subsection \<open>All sections\<close>

lemmas general_laws = general.heals general.quiet_iff general.valid_kept
lemmas section_norms = general_norm writer_norm tcp_norm icmp_norm http_norm xray_norm resolver_norm tunnel_norm

lemma prefix_errs_empty [simp]: "prefix_errs p m = Map.empty \<longleftrightarrow> m = Map.empty"
proof
  assume none: "prefix_errs p m = Map.empty"
  have "m k = None" for k
    using fun_cong [OF none, of "p @ k"] by (simp add: prefix_errs_def has_prefix_def)
  then show "m = Map.empty" by (rule ext)
qed (simp add: prefix_errs_def)

lemma ValidateDNS_empty:
  "ValidateDNS c = Map.empty \<longleftrightarrow>
     validateResolver (Resolver c) = Map.empty \<and> validateDNSTunneling (Tunneling c) = Map.empty"
proof -
  have "m ++ n = Map.empty \<longleftrightarrow> m = Map.empty \<and> n = Map.empty" for m n :: err_map
    by (auto simp: fun_eq_iff map_add_None)
  then show ?thesis by (simp add: ValidateDNS_def)
qed

lemma NormalizeAll_simps:
  "General (fst (NormalizeAll h pf tr c)) = fst (NormalizeGeneral (DefaultGeneralConfig pf tr) (General c))"
  "Writer (fst (NormalizeAll h pf tr c)) = fst (NormalizeWriter (DefaultWriterConfig pf tr) (Writer c))"
  "ICMP (fst (NormalizeAll h pf tr c)) = fst (NormalizeICMP (DefaultICMPConfig pf tr) (ICMP c))"
  "TCP (fst (NormalizeAll h pf tr c)) = fst (NormalizeTCP (DefaultTCPConfig pf tr) (TCP c))"
  "HTTP (fst (NormalizeAll h pf tr c)) = fst (NormalizeHTTP h (DefaultHTTPConfig pf tr) (HTTP c))"
  "Xray (fst (NormalizeAll h pf tr c)) = fst (NormalizeXray (DefaultXrayConfig pf tr) (Xray c))"
  "DNS (fst (NormalizeAll h pf tr c)) = fst (NormalizeDNS (DefaultDNSConfig pf tr) (DNS c))"
  by (simp_all add: NormalizeAll_def split: prod.split)

lemma NormalizeAll_warnings:
  "WGeneral (snd (NormalizeAll h pf tr c)) = snd (NormalizeGeneral (DefaultGeneralConfig pf tr) (General c))"
  "WWriter (snd (NormalizeAll h pf tr c)) = snd (NormalizeWriter (DefaultWriterConfig pf tr) (Writer c))"
  "WICMP (snd (NormalizeAll h pf tr c)) = snd (NormalizeICMP (DefaultICMPConfig pf tr) (ICMP c))"
  "WTCP (snd (NormalizeAll h pf tr c)) = snd (NormalizeTCP (DefaultTCPConfig pf tr) (TCP c))"
  "WHTTP (snd (NormalizeAll h pf tr c)) = snd (NormalizeHTTP h (DefaultHTTPConfig pf tr) (HTTP c))"
  "WXray (snd (NormalizeAll h pf tr c)) = snd (NormalizeXray (DefaultXrayConfig pf tr) (Xray c))"
  "WDNS (snd (NormalizeAll h pf tr c)) = snd (NormalizeDNS (DefaultDNSConfig pf tr) (DNS c))"
  by (simp_all add: NormalizeAll_def split: prod.split)

lemma NormalizeDNS_simps:
  "Resolver (fst (NormalizeDNS df c)) = fst (normalizeResolver (Resolver df) (Resolver c))"
  "Tunneling (fst (NormalizeDNS df c)) = fst (normalizeDNSTunneling (Tunneling df) (Tunneling c))"
  "snd (NormalizeDNS df c) = snd (normalizeResolver (Resolver df) (Resolver c))
                             @ snd (normalizeDNSTunneling (Tunneling df) (Tunneling c))"
  by (simp_all add: NormalizeDNS_def split: prod.split)

text \<open>The laws of the sections at the defaults of a platform and tier.\<close>

lemma good_general: "(pf, tr) \<noteq> (Server, High) \<Longrightarrow> ValidateGeneral (DefaultGeneralConfig pf tr) = Map.empty"
  by (simp add: default_general)

lemmas section_heals =
  general.heals [OF good_general, unfolded general_norm] writer.heals [OF default_writer, unfolded writer_norm]
  tcp.heals [OF default_tcp, unfolded tcp_norm] icmp.heals [OF default_icmp, unfolded icmp_norm]
  http.heals [OF default_http, unfolded http_norm] xray.heals [OF default_xray, unfolded xray_norm]
  resolver.heals [OF default_resolver, unfolded resolver_norm] tunnel.heals [OF default_tunnel, unfolded tunnel_norm]

lemmas section_idem =
  general.idempotent [OF good_general, unfolded general_norm] writer.idempotent [OF default_writer, unfolded writer_norm]
  tcp.idempotent [OF default_tcp, unfolded tcp_norm] icmp.idempotent [OF default_icmp, unfolded icmp_norm]
  http.idempotent [OF default_http, unfolded http_norm] xray.idempotent [OF default_xray, unfolded xray_norm]
  resolver.idempotent [OF default_resolver, unfolded resolver_norm] tunnel.idempotent [OF default_tunnel, unfolded tunnel_norm]

lemmas section_quiet =
  general.quiet_iff [OF good_general, unfolded general_norm] writer.quiet_iff [OF default_writer, unfolded writer_norm]
  tcp.quiet_iff [OF default_tcp, unfolded tcp_norm] icmp.quiet_iff [OF default_icmp, unfolded icmp_norm]
  http.quiet_iff [OF default_http, unfolded http_norm] xray.quiet_iff [OF default_xray, unfolded xray_norm]
  resolver.quiet_iff [OF default_resolver, unfolded resolver_norm] tunnel.quiet_iff [OF default_tunnel, unfolded tunnel_norm]

text \<open>The errors that \<open>NormalizeAll\<close> leaves behind: a prefix that is not blank but no file name.\<close>

definition only_prefix_errs :: "err_map \<Rightarrow> bool" where
  "only_prefix_errs m \<longleftrightarrow> dom m \<subseteq> {''OutputPrefix''}"

lemma only_prefix: "m(''OutputPrefix'' := y) = Map.empty \<Longrightarrow> only_prefix_errs m"
  by (auto simp: only_prefix_errs_def fun_eq_iff split: if_splits)

text \<open>C16. After \<open>NormalizeAll\<close> the settings are well-formed: the strict validator finds no error in
  the general, writer, TCP and DNS sections, and in the ICMP, HTTP and Xray sections none but an
  output prefix that is no file name. The exception are the general settings of a server with
  many resources, whose own default is invalid. The hypothesis is what \<open>url.Parse\<close> makes of the
  default host.\<close>

theorem normalize_all_heals:
  assumes "default_host_ok hostname"
  shows "let e = ValidateAll hostname (fst (NormalizeAll hostname pf tr cfg))
         in ((pf, tr) \<noteq> (Server, High) \<longrightarrow> EGeneral e = Map.empty)
            \<and> EWriter e = Map.empty \<and> ETCP e = Map.empty \<and> EDNS e = Map.empty
            \<and> only_prefix_errs (EICMP e) \<and> only_prefix_errs (EHTTP e) \<and> only_prefix_errs (EXray e)"
  using section_heals(1,2,3,7,8) only_prefix [OF section_heals(4)] only_prefix [OF section_heals(6)]
    only_prefix [OF section_heals(5) [OF assms]]
  by (simp add: Let_def ValidateAll_def NormalizeAll_simps NormalizeDNS_simps ValidateDNS_empty)

definition parse_host :: "string \<Rightarrow> string option" where
  "parse_host u = (if has_prefix u ''http://'' then Some (drop 7 u) else None)"

definition blank_config :: ScannerConfig where
  "blank_config =
     \<lparr>General = (DefaultGeneralConfig Desktop Low)\<lparr>ProbeBurst := -1\<rparr>,
      Writer = (DefaultWriterConfig Desktop Low)\<lparr>ResultBaseDir := ''..''\<rparr>, ICMP = DefaultICMPConfig Desktop Low,
      TCP = (DefaultTCPConfig Desktop Low)\<lparr>TcpPort := 70000\<rparr>, HTTP = DefaultHTTPConfig Desktop Low,
      Xray = DefaultXrayConfig Desktop Low, DNS = DefaultDNSConfig Desktop Low\<rparr>"

lemma normalize_all_heals_witness:
  "let e = ValidateAll parse_host (fst (NormalizeAll parse_host Desktop Mid blank_config))
   in EGeneral e = Map.empty \<and> EWriter e = Map.empty \<and> ETCP e = Map.empty \<and> EDNS e = Map.empty"
proof -
  have "default_host_ok parse_host" by code_simp
  from normalize_all_heals [OF this, of Desktop Mid blank_config] show ?thesis by (simp add: Let_def)
qed

text \<open>Normalising twice is normalising once: the second \<open>NormalizeAll\<close> changes nothing and
  warns about nothing, again except for a server with many resources.\<close>

theorem normalize_all_idempotent:
  assumes "default_host_ok hostname" and "(pf, tr) \<noteq> (Server, High)"
  shows "let once = fst (NormalizeAll hostname pf tr cfg);
             twice = NormalizeAll hostname pf tr once
         in fst twice = once \<and> \<not> HasWarnings (snd twice)"
proof -
  note idem = section_idem(1) [OF assms(2)] section_idem(2-4) section_idem(5) [OF assms(1)] section_idem(6-8)
  have dns: "NormalizeDNS (DefaultDNSConfig pf tr) (fst (NormalizeDNS (DefaultDNSConfig pf tr) d))
      = (fst (NormalizeDNS (DefaultDNSConfig pf tr) d), [])" for d
    by (intro prod_eqI DNSConfig.equality) (simp_all add: NormalizeDNS_simps idem)
  show ?thesis
    by (simp add: Let_def HasWarnings_def NormalizeAll_warnings NormalizeAll_simps idem dns
        ScannerConfig.equality)
qed

lemma normalize_all_idempotent_witness:
  "\<not> HasWarnings (snd (NormalizeAll parse_host Android Low (fst (NormalizeAll parse_host Android Low blank_config))))"
proof -
  have "default_host_ok parse_host" by code_simp
  from normalize_all_idempotent [OF this, of Android Low blank_config] show ?thesis by (simp add: Let_def)
qed

text \<open>No section is reset without need, and none silently: normalising warns about the
  writer, TCP or DNS section exactly when the strict validator rejects it, and a section it does
  not warn about is kept as it was.\<close>

theorem warnings_iff_errors:
  "let w = snd (NormalizeAll hostname pf tr cfg); e = ValidateAll hostname cfg;
       cfg' = fst (NormalizeAll hostname pf tr cfg)
   in (WWriter w = [] \<longleftrightarrow> EWriter e = Map.empty) \<and> (WTCP w = [] \<longleftrightarrow> ETCP e = Map.empty)
      \<and> (WDNS w = [] \<longleftrightarrow> EDNS e = Map.empty)
      \<and> (ETCP e \<noteq> Map.empty \<or> TCP cfg' = TCP cfg) \<and> (EWriter e \<noteq> Map.empty \<or> Writer cfg' = Writer cfg)"
  using writer.valid_kept [OF default_writer, unfolded writer_norm, of "Writer cfg" pf tr]
    tcp.valid_kept [OF default_tcp, unfolded tcp_norm, of "TCP cfg" pf tr]
  by (auto simp: Let_def ValidateAll_def NormalizeAll_simps NormalizeAll_warnings NormalizeDNS_simps
      ValidateDNS_empty section_quiet)

lemma warnings_iff_errors_witness:
  "WTCP (snd (NormalizeAll parse_host Desktop Low blank_config)) \<noteq> []
   \<and> Writer (fst (NormalizeAll parse_host Desktop Low (blank_config\<lparr>Writer := DefaultWriterConfig Server Mid\<rparr>)))
       = DefaultWriterConfig Server Mid"
proof -
  have "ETCP (ValidateAll parse_host blank_config) ''Port'' \<noteq> None" by code_simp
  then have "ETCP (ValidateAll parse_host blank_config) \<noteq> Map.empty" by auto
  moreover have "EWriter (ValidateAll parse_host (blank_config\<lparr>Writer := DefaultWriterConfig Server Mid\<rparr>)) = Map.empty"
    using default_writer [of Server Mid] by (simp add: ValidateAll_def)
  ultimately show ?thesis
    using warnings_iff_errors [of parse_host Desktop Low blank_config]
      warnings_iff_errors [of parse_host Desktop Low "blank_config\<lparr>Writer := DefaultWriterConfig Server Mid\<rparr>"]
    by (simp add: Let_def)
qed

text \<open>The default probe duration of a server with many resources (5 ms) is below the limit the
  validator enforces (10 ms): normalising puts it back every time, so such a server is told at
  every start that its settings were invalid and reset, and the settings stay invalid.\<close>

theorem server_high_never_valid:
  "fst (NormalizeGeneral (DefaultGeneralConfig Server High) (DefaultGeneralConfig Server High))
     = DefaultGeneralConfig Server High
   \<and> map Field (snd (NormalizeGeneral (DefaultGeneralConfig Server High) (DefaultGeneralConfig Server High)))
     = [''MinProbeDuration'']
   \<and> ValidateGeneral (DefaultGeneralConfig Server High) ''MinProbeDuration'' = Some ErrOutOfRange"
  by code_simp

text \<open>Normalisation checks the output prefix of the ICMP, HTTP and Xray sections only for
  blanks, so a prefix that leaves the result directory is kept without a warning, where the
  strict validator (and normalisation of the TCP section) rejects it.\<close>

theorem icmp_prefix_escapes:
  "let c = (DefaultICMPConfig pf tr)\<lparr>IcmpPrefix := ''../x''\<rparr>;
       t = (DefaultTCPConfig pf tr)\<lparr>TcpPrefix := ''../x''\<rparr>
   in NormalizeICMP (DefaultICMPConfig pf tr) c = (c, [])
      \<and> ValidateICMP c ''OutputPrefix'' = Some ErrIllegalChars
      \<and> TcpPrefix (fst (NormalizeTCP (DefaultTCPConfig pf tr) t)) = ''tcp_''"
  unfolding Let_def by (induct pf; induct tr; code_simp)

text \<open>For durations that do not overflow, the check accepts a millisecond of slack at both ends
  and nothing more. A larger number of milliseconds wraps around in 64 bits: 18446744073810 ms,
  more than 584 years, passes as a TCP timeout, because it is read as 100.448384 ms.\<close>

theorem duration_check_exact:
  "(\<forall>ms \<in> {- 9223372036853 .. 9223372036853}.
      (checkDuration (Duration ms) (a * Millisecond) (b * Millisecond) = None \<longleftrightarrow> a - 1 \<le> ms \<and> ms \<le> b + 1)
      \<and> NewDurationMS (Duration ms) = ms)
   \<and> Duration 18446744073810 = 100448384
   \<and> checkDuration (Duration 18446744073810) MinTCPTimeout MaxTCPTimeout = None"
proof (intro conjI ballI)
  fix ms :: int assume ms: "ms \<in> {- 9223372036853 .. 9223372036853}"
  have "Duration ms = ms * 1000000" using ms by (simp add: Duration_def in_int64_def)
  moreover have "wrap64 (ms * 1000000 + 1000000) = ms * 1000000 + 1000000"
    "wrap64 (ms * 1000000 - 1000000) = ms * 1000000 - 1000000"
    using ms by (simp_all add: in_int64_def)
  ultimately show "checkDuration (Duration ms) (a * Millisecond) (b * Millisecond) = None
      \<longleftrightarrow> a - 1 \<le> ms \<and> ms \<le> b + 1"
    unfolding checkDuration_def Millisecond_def by auto
  show "NewDurationMS (Duration ms) = ms" using ms by (intro NewDurationMS_Duration) auto
qed code_simp+

lemma duration_check_exact_witness:
  "checkDuration (Duration 99) (100 * Millisecond) (200 * Millisecond) = None
   \<and> checkDuration (Duration 98) (100 * Millisecond) (200 * Millisecond) \<noteq> None"
  using duration_check_exact [of 100 200] by auto

end
