(* ===== verification/TunnelConfig.thy ===== *)
theory TunnelConfig
  imports Complex_Main DNSProbe ConfigValidate
begin

text \<open>
  The tunnel protocols, \<open>internal/core/dns\<close>: one configuration record per protocol with its
  defaults and \<open>Validate\<close> (\<open>dnstt.go\<close>, \<open>vaydns.go\<close>, \<open>slipstream.go\<close>, \<open>masterdns.go\<close>,
  \<open>stormdns.go\<close>, \<open>thefeed.go\<close>, \<open>validate.go\<close>), \<open>ValidateDomain\<close> (\<open>internal/core/netutil/net.go\<close>) and what
  starting a tunnel passes to the client libraries. The result of \<open>Validate\<close> is the list of the
  fields it has an error for. The libraries and the file system are the parameters collected in
  \<open>tunnel_env\<close>; floating point settings are exact numbers, NaN or an infinity.
\<close>

subsection \<open>Shared validators\<close>

datatype go_float = NaN | Infinite bool | Finite rat

definition float_within :: "rat \<Rightarrow> rat \<Rightarrow> go_float \<Rightarrow> bool" where
  "float_within lo hi x = (case x of NaN \<Rightarrow> False | Infinite neg \<Rightarrow> False | Finite r \<Rightarrow> lo \<le> r \<and> r \<le> hi)"

text \<open>\<open>x < lo || x > hi\<close>, which NaN does not satisfy.\<close>

definition float_outside :: "rat \<Rightarrow> rat \<Rightarrow> go_float \<Rightarrow> bool" where
  "float_outside lo hi x = (case x of NaN \<Rightarrow> False | Infinite neg \<Rightarrow> True | Finite r \<Rightarrow> r < lo \<or> hi < r)"

record tunnel_env =
  idna_ascii :: "string \<Rightarrow> string option"
  hello_labels :: "string list"
  ssh_key_ok :: "string \<Rightarrow> bool"
  hosts_file_ok :: "string \<Rightarrow> bool"

definition label_ok :: "string \<Rightarrow> bool" where
  "label_ok l \<longleftrightarrow> length l \<le> 63 \<and> hd l \<noteq> CHR ''-'' \<and> last l \<noteq> CHR ''-''
     \<and> list_all (\<lambda>c. is_alnum c \<or> c = CHR ''-'') l"

definition ValidateDomain :: "tunnel_env \<Rightarrow> string \<Rightarrow> bool" where
  "ValidateDomain env d0 =
     (let d = trim_space d0
      in if d = [] \<or> hasScheme d then False
         else case idna_ascii env d of
                None \<Rightarrow> False
              | Some a \<Rightarrow>
                  \<not> has_prefix a ''.'' \<and> \<not> has_suffix a ''.'' \<and> \<not> contains_sub ''..'' a
                  \<and> 2 \<le> length (split_on (CHR ''.'') a)
                  \<and> list_all label_ok (split_on (CHR ''.'') a) \<and> length a \<le> 253)"

definition parseClientHelloID :: "tunnel_env \<Rightarrow> string \<Rightarrow> nat option" where
  "parseClientHelloID env f =
     find (\<lambda>i. equal_fold (trim_space f) (hello_labels env ! i)) [0 ..< length (hello_labels env)]"

definition validateFingerprint :: "tunnel_env \<Rightarrow> string \<Rightarrow> bool" where
  "validateFingerprint env f \<longleftrightarrow> trim_space f \<noteq> [] \<and> parseClientHelloID env (trim_space f) \<noteq> None"

definition validateRPS :: "go_float \<Rightarrow> bool" where
  "validateRPS rps = float_within 0 500 rps"

definition validatePubKey :: "string \<Rightarrow> bool" where
  "validatePubKey k \<longleftrightarrow> length (trim_space k) = 64 \<and> list_all is_hex (trim_space k)"

definition validateEncryptionKey :: "string \<Rightarrow> bool" where
  "validateEncryptionKey k \<longleftrightarrow> length (trim_space k) = 32 \<and> list_all is_hex (trim_space k)"

definition validatePrivateKey :: "tunnel_env \<Rightarrow> string \<Rightarrow> bool" where
  "validatePrivateKey env k \<longleftrightarrow> trim_space k \<noteq> [] \<and> ssh_key_ok env (trim_space k)"

definition validateKnownHostsFile :: "tunnel_env \<Rightarrow> string \<Rightarrow> bool" where
  "validateKnownHostsFile env p \<longleftrightarrow> p \<noteq> [] \<and> hosts_file_ok env p"

text \<open>The names whose condition holds.\<close>

definition bad_fields :: "(string \<times> bool) list \<Rightarrow> string list" where
  "bad_fields xs = map fst (filter snd xs)"

text \<open>The proxy in front of the resolver; the protocols that have one extend this record.\<close>

record proxy_settings =
  ProxyType :: string
  ProxyPort :: u16
  AuthMethod :: string
  Username :: string
  Password :: string
  PrivateKey :: string
  KnownHostsFile :: string

definition validateProxyAuth :: "tunnel_env \<Rightarrow> 'a proxy_settings_scheme \<Rightarrow> string list" where
  "validateProxyAuth env c =
     bad_fields
       [(''proxy_port'', ProxyType c \<noteq> [] \<and> ProxyPort c = 0),
        (''auth_method'', ProxyType c = ''ssh'' \<and> AuthMethod c = ''none''
                        \<or> ProxyType c = ''socks'' \<and> AuthMethod c = ''key''),
        (''proxy_type'', ProxyType c \<notin> {[], ''ssh'', ''socks''}),
        (''username'', AuthMethod c \<in> {''password'', ''key''} \<and> trim_space (Username c) = []),
        (''password'', AuthMethod c = ''password'' \<and> trim_space (Password c) = []),
        (''private_key'', AuthMethod c = ''key'' \<and> \<not> validatePrivateKey env (PrivateKey c)),
        (''known_hosts_file'', AuthMethod c = ''key'' \<and> KnownHostsFile c \<noteq> []
                             \<and> \<not> validateKnownHostsFile env (KnownHostsFile c))]"

subsection \<open>DNSTT and VayDNS\<close>

record DNSTTConfig = proxy_settings +
  DtDomain :: string
  DtPubKey :: string
  DtResolverType :: string
  DtResolverPort :: u16
  DtFingerprint :: string
  DtRPS :: go_float

definition DefaultDNSTTConfig :: DNSTTConfig where
  "DefaultDNSTTConfig =
     \<lparr>ProxyType = ''socks'', ProxyPort = 1080, AuthMethod = ''none'', Username = [], Password = [],
      PrivateKey = [], KnownHostsFile = [], DtDomain = [], DtPubKey = [], DtResolverType = ''udp'',
      DtResolverPort = 53, DtFingerprint = ''Chrome'', DtRPS = Finite 0\<rparr>"

definition DNSTT_Validate :: "tunnel_env \<Rightarrow> DNSTTConfig \<Rightarrow> string list" where
  "DNSTT_Validate env c =
     bad_fields
       [(''domain'', \<not> ValidateDomain env (DtDomain c)),
        (''pub_key'', \<not> validatePubKey (DtPubKey c)),
        (''resolver_type'', \<not> ResolverType_IsValid (DtResolverType c)),
        (''resolver_port'', DtResolverPort c = 0),
        (''rps'', \<not> validateRPS (DtRPS c)),
        (''fingerprint'', \<not> validateFingerprint env (DtFingerprint c))]
     @ validateProxyAuth env c"

record VayDNSConfig = proxy_settings +
  VdDomain :: string
  VdPubKey :: string
  VdClientIDSize :: u16
  VdMaxQnameLen :: "8 word"
  VdMaxNumLabels :: "8 word"
  VdMTU :: u16
  VdRPS :: go_float
  VdRecordType :: string
  VdResolverType :: string
  VdResolverPort :: u16
  VdFingerprint :: string

definition DefaultVayDNSConfig :: VayDNSConfig where
  "DefaultVayDNSConfig =
     \<lparr>ProxyType = ''socks'', ProxyPort = 1080, AuthMethod = ''none'', Username = [], Password = [],
      PrivateKey = [], KnownHostsFile = [], VdDomain = [], VdPubKey = [], VdClientIDSize = 2,
      VdMaxQnameLen = 101, VdMaxNumLabels = 0, VdMTU = 0, VdRPS = Finite 0, VdRecordType = ''TXT'',
      VdResolverType = ''udp'', VdResolverPort = 53, VdFingerprint = ''Chrome''\<rparr>"

definition VayDNS_Validate :: "tunnel_env \<Rightarrow> VayDNSConfig \<Rightarrow> string list" where
  "VayDNS_Validate env c =
     bad_fields
       [(''domain'', \<not> ValidateDomain env (VdDomain c)),
        (''pub_key'', \<not> validatePubKey (VdPubKey c)),
        (''client_id_size'', VdClientIDSize c < 1 \<or> 8 < VdClientIDSize c),
        (''max_qname_len'', 253 < VdMaxQnameLen c),
        (''max_num_labels'', 4 < VdMaxNumLabels c),
        (''mtu'', 1452 < VdMTU c),
        (''rps'', \<not> validateRPS (VdRPS c)),
        (''record_type'', \<not> RecordType_IsValid (VdRecordType c)),
        (''resolver_type'', \<not> ResolverType_IsValid (VdResolverType c)),
        (''resolver_port'', VdResolverPort c = 0),
        (''fingerprint'', \<not> validateFingerprint env (VdFingerprint c))]
     @ validateProxyAuth env c"

text \<open>What reaches the client library. Settings that are not passed keep the library's default,
  \<open>None\<close>.\<close>

datatype vaydns_transport = VayUDP | VayTCP | VayDOT

definition toVayDNSResolverType :: "string \<Rightarrow> vaydns_transport" where
  "toVayDNSResolverType t = (if t = ''tcp'' then VayTCP else if t = ''dot'' then VayDOT else VayUDP)"

record vaydns_tunnel =
  VtTransport :: vaydns_transport
  VtAddr :: "addr \<times> u16"
  VtHello :: nat
  VtDomain :: string
  VtPubKey :: string
  VtClientIDSize :: "nat option"
  VtMaxQnameLen :: "nat option"
  VtMaxNumLabels :: "nat option"
  VtMTU :: "nat option"
  VtRPS :: go_float
  VtCompat :: bool

text \<open>\<open>newVayDNSResolver\<close>, the tunnel server and \<open>NewTunnel\<close> of the library in their order; \<open>lib\<close>
  holds the errors of the three library calls.\<close>

definition newVayDNSResolver ::
  "(nat \<Rightarrow> go_err option) \<Rightarrow> tunnel_env \<Rightarrow> string \<Rightarrow> u16 \<Rightarrow> string \<Rightarrow> addr
   \<Rightarrow> go_err + vaydns_transport \<times> (addr \<times> u16) \<times> nat" where
  "newVayDNSResolver lib env rtype port fingerprint resolver =
     (case lib 0 of
        Some err \<Rightarrow> Inl (wrap_err (Some err))
      | None \<Rightarrow>
          (case parseClientHelloID env fingerprint of
             None \<Rightarrow> Inl [Plain 2]
           | Some h \<Rightarrow> Inr (toVayDNSResolverType rtype, (resolver, port), h)))"

definition connect_vaydns ::
  "(nat \<Rightarrow> go_err option) \<Rightarrow> go_err + 'r \<Rightarrow> ('r \<Rightarrow> vaydns_tunnel) \<Rightarrow> go_err + vaydns_tunnel" where
  "connect_vaydns lib resolver mk =
     (case resolver of
        Inl err \<Rightarrow> Inl err
      | Inr r \<Rightarrow>
          (case lib 1 of
             Some err \<Rightarrow> Inl (wrap_err (Some err))
           | None \<Rightarrow> (case lib 2 of Some err \<Rightarrow> Inl (wrap_err (Some err)) | None \<Rightarrow> Inr (mk r))))"

definition DNSTT_NewTunnel ::
  "(nat \<Rightarrow> go_err option) \<Rightarrow> tunnel_env \<Rightarrow> go_err option \<Rightarrow> DNSTTConfig \<Rightarrow> addr \<Rightarrow> go_err + vaydns_tunnel" where
  "DNSTT_NewTunnel lib env ctx c resolver =
     (if DNSTT_Validate env c \<noteq> [] then Inl [Plain 1]
      else case ctx of
             Some err \<Rightarrow> Inl (wrap_err (Some err))
           | None \<Rightarrow>
               connect_vaydns lib
                 (newVayDNSResolver lib env (DtResolverType c) (DtResolverPort c) (DtFingerprint c) resolver)
                 (\<lambda>(transport, address, h).
                    \<lparr>VtTransport = transport, VtAddr = address, VtHello = h, VtDomain = DtDomain c,
                     VtPubKey = DtPubKey c, VtClientIDSize = None, VtMaxQnameLen = None,
                     VtMaxNumLabels = None, VtMTU = None, VtRPS = DtRPS c, VtCompat = True\<rparr>))"

definition VayDNS_NewTunnel ::
  "(nat \<Rightarrow> go_err option) \<Rightarrow> tunnel_env \<Rightarrow> go_err option \<Rightarrow> VayDNSConfig \<Rightarrow> addr \<Rightarrow> go_err + vaydns_tunnel" where
  "VayDNS_NewTunnel lib env ctx c resolver =
     (if VayDNS_Validate env c \<noteq> [] then Inl [Plain 1]
      else case ctx of
             Some err \<Rightarrow> Inl (wrap_err (Some err))
           | None \<Rightarrow>
               connect_vaydns lib
                 (newVayDNSResolver lib env (VdResolverType c) (VdResolverPort c) (VdFingerprint c) resolver)
                 (\<lambda>(transport, address, h).
                    \<lparr>VtTransport = transport, VtAddr = address, VtHello = h, VtDomain = VdDomain c,
                     VtPubKey = VdPubKey c, VtClientIDSize = Some (unat (VdClientIDSize c)),
                     VtMaxQnameLen = Some (unat (VdMaxQnameLen c)),
                     VtMaxNumLabels = Some (unat (VdMaxNumLabels c)), VtMTU = Some (unat (VdMTU c)),
                     VtRPS = VdRPS c, VtCompat = False\<rparr>))"

text \<open>\<open>establishTunnelStream\<close>: five steps and the opening of a stream, the context looked at before
  each; \<open>ctx k\<close> and \<open>run k\<close> are the errors at step \<open>k\<close>. The result and the number of times the
  tunnel was closed.\<close>

fun establish_steps :: "(nat \<Rightarrow> go_err option) \<Rightarrow> (nat \<Rightarrow> go_err option) \<Rightarrow> nat \<Rightarrow> nat \<Rightarrow> go_err option" where
  "establish_steps ctx run k 0 = None"
| "establish_steps ctx run k (Suc n) =
     (case ctx k of
        Some err \<Rightarrow> Some (wrap_err (Some err))
      | None \<Rightarrow>
          (case run k of Some err \<Rightarrow> Some (wrap_err (Some err)) | None \<Rightarrow> establish_steps ctx run (k + 1) n))"

definition establishTunnelStream :: "(nat \<Rightarrow> go_err option) \<Rightarrow> (nat \<Rightarrow> go_err option) \<Rightarrow> go_err option \<times> nat" where
  "establishTunnelStream ctx run =
     (case establish_steps ctx run 0 6 of Some err \<Rightarrow> (Some err, 1) | None \<Rightarrow> (None, 0))"

subsection \<open>Slipstream\<close>

record SlipstreamConfig = proxy_settings +
  SsDomain :: string
  SsResolverPort :: u16
  SsCertPath :: string
  DNSResolution :: string
  GSO :: bool
  CongestionControl :: string
  KeepAliveInterval :: u16

definition DefaultSlipstreamConfig :: SlipstreamConfig where
  "DefaultSlipstreamConfig =
     \<lparr>ProxyType = ''socks'', ProxyPort = 1080, AuthMethod = ''none'', Username = [], Password = [],
      PrivateKey = [], KnownHostsFile = [], SsDomain = [], SsResolverPort = 53, SsCertPath = [],
      DNSResolution = ''recursive'', GSO = False, CongestionControl = ''cubic'', KeepAliveInterval = 10\<rparr>"

definition CongestionControl_IsValid :: "string \<Rightarrow> bool" where
  "CongestionControl_IsValid c \<longleftrightarrow> c \<in> {[], ''bbr'', ''cubic''}"

definition DNSResolution_IsValid :: "string \<Rightarrow> bool" where
  "DNSResolution_IsValid r \<longleftrightarrow> r \<in> {[], ''recursive'', ''authoritative''}"

definition authoritative_mode :: "string \<Rightarrow> bool" where
  "authoritative_mode r \<longleftrightarrow> r = ''authoritative''"

definition Slipstream_Validate :: "tunnel_env \<Rightarrow> SlipstreamConfig \<Rightarrow> string list" where
  "Slipstream_Validate env c =
     bad_fields
       [(''domain'', \<not> ValidateDomain env (SsDomain c)),
        (''dns_port'', SsResolverPort c = 0),
        (''dns_resolution'', \<not> DNSResolution_IsValid (DNSResolution c)),
        (''congestion_control'', \<not> CongestionControl_IsValid (CongestionControl c))]
     @ validateProxyAuth env c"

record slipstream_lib =
  LibResolver :: "string \<times> u16 \<times> bool"
  LibListen :: "string \<times> u16"
  LibKeepAlive :: u16
  LibDomain :: string
  LibCongestion :: string
  LibGSO :: bool
  LibCert :: string

text \<open>An invalid address is \<open>None\<close>; \<open>Loopback\<close> is of the family of its argument.\<close>

definition Loopback :: "addr \<Rightarrow> addr" where
  "Loopback a = (if is6 a then V6 1 else V4 0x7F000001)"

definition LibConfig :: "SlipstreamConfig \<Rightarrow> addr option \<Rightarrow> addr option \<Rightarrow> u16 \<Rightarrow> u16 \<Rightarrow> slipstream_lib" where
  "LibConfig c resolver listen port keepAlive =
     \<lparr>LibResolver = ((case resolver of None \<Rightarrow> [] | Some a \<Rightarrow> show_addr a), SsResolverPort c,
                     authoritative_mode (DNSResolution c)),
      LibListen = ((case listen of None \<Rightarrow> [] | Some a \<Rightarrow> show_addr a), port),
      LibKeepAlive = keepAlive, LibDomain = SsDomain c, LibCongestion = CongestionControl c,
      LibGSO = GSO c, LibCert = SsCertPath c\<rparr>"

text \<open>\<open>RunTunnel\<close> up to the call of the library.\<close>

definition Slipstream_RunTunnel ::
  "tunnel_env \<Rightarrow> go_err option \<Rightarrow> SlipstreamConfig \<Rightarrow> addr option \<Rightarrow> u16 \<Rightarrow> u16 \<Rightarrow> go_err + slipstream_lib" where
  "Slipstream_RunTunnel env ctx c resolver port keepAlive =
     (case ctx of
        Some err \<Rightarrow> Inl err
      | None \<Rightarrow>
          if Slipstream_Validate env c \<noteq> [] then Inl [Plain 1]
          else case resolver of
                 None \<Rightarrow> Inl [Plain 2]
               | Some a \<Rightarrow>
                   if port = 0 then Inl [Plain 3]
                   else Inr (LibConfig c resolver (Some (Loopback a)) port
                               (if keepAlive = 0 then KeepAliveInterval c else keepAlive)))"

subsection \<open>MasterDNS and StormDNS\<close>

record embedded_settings =
  EmDomain :: string
  DataEncMethod :: int
  EncryptionKey :: string
  EmResolverPort :: u16
  MTUTestTimeoutSec :: go_float
  MTUTestRetries :: "8 word"
  SessionInitRetryMaxSec :: go_float
  MinUploadMTU :: u16
  MaxUploadMTU :: u16
  MinDownloadMTU :: u16
  MaxDownloadMTU :: u16
  MTUParallelism :: "8 word"
  RxTxWorkers :: "8 word"

record MasterDNSConfig = embedded_settings +
  SessionInitRacingCount :: "8 word"

record StormDNSConfig = embedded_settings +
  DNSQueryType :: string

definition DefaultMasterDNSConfig :: MasterDNSConfig where
  "DefaultMasterDNSConfig =
     \<lparr>EmDomain = [], DataEncMethod = 1, EncryptionKey = [], EmResolverPort = 53,
      MTUTestTimeoutSec = Finite 3, MTUTestRetries = 2, SessionInitRetryMaxSec = Finite 2,
      MinUploadMTU = 38, MaxUploadMTU = 150, MinDownloadMTU = 100, MaxDownloadMTU = 500,
      MTUParallelism = 1, RxTxWorkers = 4, SessionInitRacingCount = 1\<rparr>"

definition DefaultStormDNSConfig :: StormDNSConfig where
  "DefaultStormDNSConfig =
     \<lparr>EmDomain = [], DataEncMethod = 1, EncryptionKey = [], EmResolverPort = 53,
      MTUTestTimeoutSec = Finite 2, MTUTestRetries = 2, SessionInitRetryMaxSec = Finite 2,
      MinUploadMTU = 38, MaxUploadMTU = 150, MinDownloadMTU = 100, MaxDownloadMTU = 500,
      MTUParallelism = 1, RxTxWorkers = 4, DNSQueryType = ''TXT''\<rparr>"

text \<open>The checks both protocols share, written twice in the code.\<close>

definition embedded_errs :: "tunnel_env \<Rightarrow> 'a embedded_settings_scheme \<Rightarrow> string list" where
  "embedded_errs env c =
     bad_fields
       [(''domain'', \<not> ValidateDomain env (trim_space (EmDomain c))),
        (''enc_method'', DataEncMethod c < 0 \<or> 5 < DataEncMethod c),
        (''encryption_key'', DataEncMethod c \<noteq> 0 \<and> \<not> validateEncryptionKey (EncryptionKey c)),
        (''resolver_port'', EmResolverPort c = 0),
        (''mtu_test_timeout_sec'', float_outside 0 60 (MTUTestTimeoutSec c)),
        (''mtu_test_retries'', 50 < MTUTestRetries c),
        (''session_init_retry_max_sec'', float_outside 0 3600 (SessionInitRetryMaxSec c)),
        (''min_upload_mtu'', MinUploadMTU c < 10 \<or> MaxUploadMTU c < MinUploadMTU c),
        (''max_upload_mtu'', MaxUploadMTU c < 1 \<or> 255 < MaxUploadMTU c),
        (''min_download_mtu'', MinDownloadMTU c < 1 \<or> MaxDownloadMTU c < MinDownloadMTU c),
        (''max_download_mtu'', MaxDownloadMTU c < 1),
        (''mtu_parallelism'', MTUParallelism c < 1 \<or> 100 < MTUParallelism c),
        (''rx_tx_workers'', RxTxWorkers c < 1 \<or> 64 < RxTxWorkers c)]"

definition MasterDNS_Validate :: "tunnel_env \<Rightarrow> MasterDNSConfig \<Rightarrow> string list" where
  "MasterDNS_Validate env c =
     embedded_errs env c
     @ bad_fields [(''session_init_racing_count'', SessionInitRacingCount c < 1 \<or> 5 < SessionInitRacingCount c)]"

definition StormDNS_Validate :: "tunnel_env \<Rightarrow> StormDNSConfig \<Rightarrow> string list" where
  "StormDNS_Validate env c =
     embedded_errs env c
     @ bad_fields
         [(''dns_query_type'',
           to_upper (trim_space (DNSQueryType c)) \<notin> {[], ''TXT'', ''NS'', ''CNAME'', ''ROTATE''})]"

text \<open>\<open>parseTunnelEndpoint\<close>; and the client the library is asked to start.\<close>

definition parseTunnelEndpoint :: "string \<Rightarrow> u16 \<Rightarrow> addr option" where
  "parseTunnelEndpoint resolver port =
     (if trim_space resolver = [] \<or> port = 0 then None else ParseAddr (trim_space resolver))"

record embedded_client =
  ClListenPort :: nat
  ClDomains :: "string list"
  ClEncryption :: "int \<times> string"
  ClResolver :: "string \<times> nat"
  ClMTUTimeout :: go_float
  ClMTURetries :: nat
  ClRetryMax :: go_float
  ClRacing :: "nat option"
  ClUpload :: "nat \<times> nat"
  ClDownload :: "nat \<times> nat"
  ClParallelism :: "nat option"
  ClWorkers :: "nat option"
  ClQueryType :: "string option"

definition startMasterTunnel :: "MasterDNSConfig \<Rightarrow> addr \<Rightarrow> u16 \<Rightarrow> embedded_client" where
  "startMasterTunnel c resolver port =
     \<lparr>ClListenPort = unat port, ClDomains = [EmDomain c], ClEncryption = (DataEncMethod c, EncryptionKey c),
      ClResolver = (show_addr resolver, unat (EmResolverPort c)), ClMTUTimeout = MTUTestTimeoutSec c,
      ClMTURetries = unat (MTUTestRetries c), ClRetryMax = SessionInitRetryMaxSec c,
      ClRacing = Some (unat (SessionInitRacingCount c)),
      ClUpload = (unat (MinUploadMTU c), unat (MaxUploadMTU c)),
      ClDownload = (unat (MinDownloadMTU c), unat (MaxDownloadMTU c)),
      ClParallelism = Some (unat (MTUParallelism c)), ClWorkers = Some (unat (RxTxWorkers c)),
      ClQueryType = None\<rparr>"

definition startStormTunnel :: "StormDNSConfig \<Rightarrow> addr \<Rightarrow> u16 \<Rightarrow> embedded_client" where
  "startStormTunnel c resolver port =
     \<lparr>ClListenPort = unat port, ClDomains = [EmDomain c], ClEncryption = (DataEncMethod c, EncryptionKey c),
      ClResolver = (show_addr resolver, unat (EmResolverPort c)), ClMTUTimeout = MTUTestTimeoutSec c,
      ClMTURetries = unat (MTUTestRetries c), ClRetryMax = SessionInitRetryMaxSec c, ClRacing = None,
      ClUpload = (unat (MinUploadMTU c), unat (MaxUploadMTU c)),
      ClDownload = (unat (MinDownloadMTU c), unat (MaxDownloadMTU c)),
      ClParallelism = (if 0 < MTUParallelism c then Some (unat (MTUParallelism c)) else None),
      ClWorkers = (if 0 < RxTxWorkers c then Some (unat (RxTxWorkers c)) else None),
      ClQueryType = Some (normalizeQueryType (DNSQueryType c))\<rparr>"

definition MasterDNS_RunTunnel ::
  "tunnel_env \<Rightarrow> go_err option \<Rightarrow> MasterDNSConfig \<Rightarrow> string \<Rightarrow> u16 \<Rightarrow> go_err + embedded_client" where
  "MasterDNS_RunTunnel env ctx c resolver port =
     (if MasterDNS_Validate env c \<noteq> [] then Inl [Plain 1]
      else case ctx of
             Some err \<Rightarrow> Inl (wrap_err (Some err))
           | None \<Rightarrow>
               (case parseTunnelEndpoint resolver port of
                  None \<Rightarrow> Inl [Plain 2] | Some a \<Rightarrow> Inr (startMasterTunnel c a port)))"

definition StormDNS_RunTunnel ::
  "tunnel_env \<Rightarrow> go_err option \<Rightarrow> StormDNSConfig \<Rightarrow> string \<Rightarrow> u16 \<Rightarrow> go_err + embedded_client" where
  "StormDNS_RunTunnel env ctx c resolver port =
     (if StormDNS_Validate env c \<noteq> [] then Inl [Plain 1]
      else case ctx of
             Some err \<Rightarrow> Inl (wrap_err (Some err))
           | None \<Rightarrow>
               (case parseTunnelEndpoint resolver port of
                  None \<Rightarrow> Inl [Plain 2] | Some a \<Rightarrow> Inr (startStormTunnel c a port)))"

text \<open>\<open>bootEmbedded\<close>: what the loop sees in each round, until it returns: the session is ready, the
  client has ended (with an error or without), the context is done, or 200 ms have passed. The
  handle, or the error, and whether the client was stopped; \<open>None\<close> while it still waits.\<close>

datatype boot_event = SessionReady | RunEnded "go_err option" | CtxDone go_err | PollTick

record boot_result =
  Handle :: bool
  BootErr :: "go_err option"
  Stopped :: bool

fun bootEmbedded :: "boot_event list \<Rightarrow> boot_result option" where
  "bootEmbedded [] = None"
| "bootEmbedded (SessionReady # es) = Some \<lparr>Handle = True, BootErr = None, Stopped = False\<rparr>"
| "bootEmbedded (RunEnded err # es) =
     Some \<lparr>Handle = False, BootErr = Some (wrap_err err), Stopped = True\<rparr>"
| "bootEmbedded (CtxDone err # es) =
     Some \<lparr>Handle = False, BootErr = Some (wrap_err (Some err)), Stopped = True\<rparr>"
| "bootEmbedded (PollTick # es) = bootEmbedded es"

text \<open>\<open>Close\<close> of the handle: the flag, the effects and the new flag.\<close>

definition embedded_Close :: "bool \<Rightarrow> bool \<times> bool" where
  "embedded_Close stopped = (\<not> stopped, True)"

subsection \<open>TheFeed\<close>

record TheFeedConfig =
  TfDomain :: string
  Passphrase :: string
  TfResolverPort :: u16
  TfResolverType :: string
  QueryMode :: string

definition DefaultTheFeedConfig :: TheFeedConfig where
  "DefaultTheFeedConfig =
     \<lparr>TfDomain = [], Passphrase = [], TfResolverPort = 53, TfResolverType = ''udp'', QueryMode = ''single''\<rparr>"

definition TheFeed_Validate :: "tunnel_env \<Rightarrow> TheFeedConfig \<Rightarrow> string list" where
  "TheFeed_Validate env c =
     bad_fields
       [(''domain'', \<not> ValidateDomain env (trim_space (TfDomain c))),
        (''passphrase'', Passphrase c = []),
        (''resolver_port'', TfResolverPort c = 0),
        (''query_mode'', QueryMode c \<noteq> ''single'' \<and> QueryMode c \<noteq> ''double''),
        (''resolver_type'', \<not> ResolverType_IsValid (TfResolverType c))]"

text \<open>The library of the protocol: the keys of a passphrase, the name of a query and the decoder of an
  answer. \<open>ask\<close> is the resolver's \<open>Query\<close> with the concatenated TXT strings of the answer.\<close>

record feed_lib =
  DeriveKeys :: "string \<Rightarrow> (string \<times> string) option"
  EncodeQuery :: "string \<Rightarrow> string \<Rightarrow> nat \<Rightarrow> string option"
  DecodeOk :: "string \<Rightarrow> string \<Rightarrow> bool"

definition feed_query :: "TheFeedConfig \<Rightarrow> string \<Rightarrow> addr \<Rightarrow> int \<Rightarrow> Query" where
  "feed_query c qname resolver limit =
     \<lparr>QResolver = show_addr resolver, QPort = TfResolverPort c, QDomain = qname, QTransport = ''udp'',
      QRecordType = ''TXT'', QEDNS = 4096, QRecursion = True,
      QTimeout = (if limit \<le> 0 then 15000000000 else limit)\<rparr>"

definition TheFeed_RunTunnel ::
  "feed_lib \<Rightarrow> tunnel_env \<Rightarrow> go_err option \<Rightarrow> (Query \<Rightarrow> go_err + string) \<Rightarrow> TheFeedConfig \<Rightarrow> addr \<Rightarrow> int
   \<Rightarrow> go_err option" where
  "TheFeed_RunTunnel lib env ctx ask c resolver limit =
     (if TheFeed_Validate env c \<noteq> [] then Some [Plain 1]
      else case ctx of
             Some err \<Rightarrow> Some err
           | None \<Rightarrow>
               (case DeriveKeys lib (Passphrase c) of
                  None \<Rightarrow> Some [Plain 2]
                | Some (qkey, rkey) \<Rightarrow>
                    (case EncodeQuery lib qkey (TfDomain c) (if QueryMode c = ''double'' then 1 else 0) of
                       None \<Rightarrow> Some [Plain 3]
                     | Some qname \<Rightarrow>
                         (case ask (feed_query c qname resolver limit) of
                            Inl err \<Rightarrow> Some (wrap_err (Some err))
                          | Inr txt \<Rightarrow>
                              if txt = [] then Some [Plain 4]
                              else if DecodeOk lib rkey txt then None else Some [Plain 5]))))"

end
