(* ===== verification/TunnelCorrect.thy ===== *)
theory TunnelCorrect
  imports TunnelConfig
begin

text \<open>
  What the validators of the tunnel protocols guarantee: the ranges of every client that is started,
  the defaults as valid configurations once the fields of the deployment are filled in, the
  accepted domains, the release of a tunnel on every failure, and the settings that are validated
  and then not used.
\<close>

lemma bad_fields_Nil [simp]: "bad_fields xs = [] \<longleftrightarrow> (\<forall>x \<in> set xs. \<not> snd x)"
  by (auto simp: bad_fields_def filter_empty_conv)

subsection \<open>Domains\<close>

lemma has_suffix_Cons: "has_suffix s w \<Longrightarrow> has_suffix (c # s) w"
  by (simp add: has_suffix_def)

lemma split_on_nonempty:
  assumes "\<not> has_prefix s [b]" and "\<not> has_suffix s [b]" and "\<not> contains_sub [b, b] s" and "s \<noteq> []"
  shows "[] \<notin> set (split_on b s)"
  using assms
proof (induction s rule: induct_list012)
  case (3 c d s)
  have suf: "\<not> has_suffix (d # s) [b]"
    using 3(4) has_suffix_Cons by blast
  have sub: "\<not> contains_sub [b, b] (d # s)"
    using 3(5) by (auto simp: contains_sub_iff sublist_Cons_right)
  have c: "c \<noteq> b" using 3(3) by (simp add: has_prefix_def)
  show ?case
  proof (cases "d = b")
    case True
    have "s \<noteq> []" using 3(4) True by (auto simp: has_suffix_def)
    then obtain e t where s: "s = e # t" by (cases s) auto
    have "e \<noteq> b"
      using 3(5) True s by (auto simp: contains_sub_iff sublist_Cons_right prefix_def)
    have "\<not> has_prefix s [b]" "\<not> has_suffix s [b]" "\<not> contains_sub [b, b] s"
      using suf has_suffix_Cons [of s "[b]" d] sub \<open>e \<noteq> b\<close> s
      by (auto simp: has_prefix_def contains_sub_iff sublist_Cons_right)
    with 3(1) s have "[] \<notin> set (split_on b s)" by blast
    with c True show ?thesis by simp
  next
    case False
    then have "\<not> has_prefix (d # s) [b]" by (simp add: has_prefix_def)
    with 3(2) suf sub have "[] \<notin> set (split_on b (d # s))" by blast
    with c show ?thesis by (cases "split_on b (d # s)") auto
  qed
qed (auto simp: has_prefix_def)

text \<open>The label checks look at the first and the last byte, which every label of an accepted name has.\<close>

lemma ValidateDomain_labels:
  assumes "ValidateDomain env d" and "idna_ascii env (trim_space d) = Some a"
  shows "2 \<le> length (split_on (CHR ''.'') a) \<and> length a \<le> 253
    \<and> list_all (\<lambda>l. l \<noteq> [] \<and> label_ok l) (split_on (CHR ''.'') a)"
proof -
  have a: "\<not> has_prefix a ''.''" "\<not> has_suffix a ''.''" "\<not> contains_sub ''..'' a"
    "2 \<le> length (split_on (CHR ''.'') a)" "list_all label_ok (split_on (CHR ''.'') a)" "length a \<le> 253"
    using assms by (simp_all add: ValidateDomain_def Let_def split: if_splits)
  moreover have "a \<noteq> []" using a(4) by auto
  ultimately have "[] \<notin> set (split_on (CHR ''.'') a)" using split_on_nonempty [where b = "CHR ''.''" and s = a] by simp
  with a show ?thesis by (auto simp: list_all_iff)
qed

subsection \<open>Resources\<close>

lemma establish_steps_None:
  "establish_steps ctx run k n = None \<longleftrightarrow> (\<forall>i < n. ctx (k + i) = None \<and> run (k + i) = None)"
proof (induction n arbitrary: k)
  case (Suc n)
  have "(\<forall>i < Suc n. P (k + i)) \<longleftrightarrow> P k \<and> (\<forall>i < n. P (k + 1 + i))" for P
    by (auto simp: less_Suc_eq_0_disj)
  from this [of "\<lambda>j. ctx j = None \<and> run j = None"] Suc.IH [of "k + 1"]
  show ?case by (auto split: option.split)
qed simp

text \<open>A failed handshake closes the tunnel exactly once, a successful one not at all.\<close>

lemma establish_closes_on_failure:
  "snd (establishTunnelStream ctx run) = (if fst (establishTunnelStream ctx run) = None then 0 else 1)"
  by (simp add: establishTunnelStream_def split: option.split)

lemma boot_stops_on_failure:
  "bootEmbedded es = Some r \<Longrightarrow> Handle r \<noteq> Stopped r \<and> (BootErr r = None \<longleftrightarrow> Handle r)"
  by (induction es rule: bootEmbedded.induct) auto

lemma boot_returns: "bootEmbedded es = None \<longleftrightarrow> (\<forall>e \<in> set es. e = PollTick)"
  by (induction es rule: bootEmbedded.induct) auto

lemma embedded_Close_once: "fst (embedded_Close (snd (embedded_Close stopped))) = False"
  by (simp add: embedded_Close_def)

subsection \<open>Validated settings\<close>

definition client_in_range :: "embedded_client \<Rightarrow> bool" where
  "client_in_range cl \<longleftrightarrow>
     0 < ClListenPort cl \<and> 0 < snd (ClResolver cl) \<and> snd (ClResolver cl) < 65536
     \<and> fst (ClEncryption cl) \<in> {0..5}
     \<and> (fst (ClEncryption cl) = 0 \<or> validateEncryptionKey (snd (ClEncryption cl)))
     \<and> 10 \<le> fst (ClUpload cl) \<and> fst (ClUpload cl) \<le> snd (ClUpload cl) \<and> snd (ClUpload cl) \<le> 255
     \<and> 1 \<le> fst (ClDownload cl) \<and> fst (ClDownload cl) \<le> snd (ClDownload cl)
     \<and> ClMTURetries cl \<le> 50
     \<and> (\<exists>w. ClWorkers cl = Some w \<and> 1 \<le> w \<and> w \<le> 64)
     \<and> (\<exists>p. ClParallelism cl = Some p \<and> 1 \<le> p \<and> p \<le> 100)"

lemma u16_le_iff: "a \<le> b \<longleftrightarrow> unat a \<le> unat b" for a b :: u16
  by (simp add: word_le_nat_alt)

lemma embedded_ranges:
  assumes "embedded_errs env c = []"
  shows "0 \<le> DataEncMethod c \<and> DataEncMethod c \<le> 5"
    "DataEncMethod c = 0 \<or> validateEncryptionKey (EncryptionKey c)" "0 < unat (EmResolverPort c)"
    "10 \<le> unat (MinUploadMTU c) \<and> unat (MinUploadMTU c) \<le> unat (MaxUploadMTU c) \<and> unat (MaxUploadMTU c) \<le> 255"
    "1 \<le> unat (MinDownloadMTU c) \<and> unat (MinDownloadMTU c) \<le> unat (MaxDownloadMTU c)"
    "unat (MTUTestRetries c) \<le> 50"
    "1 \<le> unat (RxTxWorkers c) \<and> unat (RxTxWorkers c) \<le> 64"
    "1 \<le> unat (MTUParallelism c) \<and> unat (MTUParallelism c) \<le> 100"
  using assms
  by (simp_all add: embedded_errs_def not_less word_le_nat_alt unat_gt_0 Suc_le_eq)

text \<open>A MasterDNS or StormDNS client is only started with a local port, a resolver port and an
  encryption method of the protocol, with a key of 32 hexadecimal digits unless the method is none,
  ordered packet sizes of at most 255 bytes up, and between 1 and 64 workers.\<close>

theorem started_clients_in_range:
  "(case MasterDNS_RunTunnel env ctx m resolver port of Inl err \<Rightarrow> True | Inr cl \<Rightarrow> client_in_range cl)
   \<and> (case StormDNS_RunTunnel env ctx s resolver port of Inl err \<Rightarrow> True | Inr cl \<Rightarrow> client_in_range cl)"
proof -
  have p: "parseTunnelEndpoint resolver port = Some a \<Longrightarrow> 0 < unat port" for a
    by (auto simp: parseTunnelEndpoint_def unat_gt_0 split: if_splits)
  have r: "unat (x :: u16) < 65536" for x using unsigned_less [of x] by simp
  have m: "client_in_range (startMasterTunnel m a port)"
    if "MasterDNS_Validate env m = []" "0 < unat port" for a
    using that embedded_ranges [of env m] r
    by (simp add: MasterDNS_Validate_def client_in_range_def startMasterTunnel_def)
  have s: "client_in_range (startStormTunnel s a port)"
    if "StormDNS_Validate env s = []" "0 < unat port" for a
    using that embedded_ranges [of env s] r
    by (auto simp: StormDNS_Validate_def client_in_range_def startStormTunnel_def unat_gt_0 word_less_nat_alt)
  show ?thesis
    using p m s
    by (auto simp: MasterDNS_RunTunnel_def StormDNS_RunTunnel_def split: option.split)
qed

subsection \<open>Defaults\<close>

lemma names_valid [simp]:
  "ResolverType_IsValid ''udp''" "RecordType_IsValid ''TXT''" "DNSResolution_IsValid ''recursive''"
  "CongestionControl_IsValid ''cubic''" "ResolverType_IsValid ''TCP''"
  by code_simp+

lemma trim_Chrome [simp]: "trim_space ''Chrome'' = ''Chrome''"
  by code_simp

lemma query_type_TXT [simp]: "to_upper (trim_space ''TXT'') = ''TXT''"
  by code_simp

lemma proxy_defaults_valid:
  "ProxyType c = ''socks'' \<Longrightarrow> ProxyPort c = 1080 \<Longrightarrow> AuthMethod c = ''none'' \<Longrightarrow> validateProxyAuth env c = []"
  by (simp add: validateProxyAuth_def)

lemma default_floats [simp]:
  "validateRPS (Finite 0)" "\<not> float_outside 0 60 (Finite 2)" "\<not> float_outside 0 60 (Finite 3)"
  "\<not> float_outside 0 3600 (Finite 2)"
  by (simp_all add: validateRPS_def float_within_def float_outside_def)

text \<open>The defaults of every protocol are a valid configuration exactly when the fields of the
  deployment are filled in validly: domain and public key, domain and encryption key, domain and
  passphrase, or the domain alone; DNSTT and VayDNS also need the library to know the fingerprint.\<close>

theorem defaults_valid_iff:
  "(DNSTT_Validate env (DefaultDNSTTConfig\<lparr>DtDomain := d, DtPubKey := k\<rparr>) = []
      \<longleftrightarrow> ValidateDomain env d \<and> validatePubKey k \<and> parseClientHelloID env ''Chrome'' \<noteq> None)
   \<and> (VayDNS_Validate env (DefaultVayDNSConfig\<lparr>VdDomain := d, VdPubKey := k\<rparr>) = []
      \<longleftrightarrow> ValidateDomain env d \<and> validatePubKey k \<and> parseClientHelloID env ''Chrome'' \<noteq> None)
   \<and> (Slipstream_Validate env (DefaultSlipstreamConfig\<lparr>SsDomain := d\<rparr>) = [] \<longleftrightarrow> ValidateDomain env d)
   \<and> (MasterDNS_Validate env (DefaultMasterDNSConfig\<lparr>EmDomain := d, EncryptionKey := k\<rparr>) = []
      \<longleftrightarrow> ValidateDomain env (trim_space d) \<and> validateEncryptionKey k)
   \<and> (StormDNS_Validate env (DefaultStormDNSConfig\<lparr>EmDomain := d, EncryptionKey := k\<rparr>) = []
      \<longleftrightarrow> ValidateDomain env (trim_space d) \<and> validateEncryptionKey k)
   \<and> (TheFeed_Validate env (DefaultTheFeedConfig\<lparr>TfDomain := d, Passphrase := k\<rparr>) = []
      \<longleftrightarrow> ValidateDomain env (trim_space d) \<and> k \<noteq> [])"
  by (simp add: DNSTT_Validate_def DefaultDNSTTConfig_def VayDNS_Validate_def DefaultVayDNSConfig_def
      Slipstream_Validate_def DefaultSlipstreamConfig_def MasterDNS_Validate_def
      DefaultMasterDNSConfig_def StormDNS_Validate_def DefaultStormDNSConfig_def embedded_errs_def
      TheFeed_Validate_def DefaultTheFeedConfig_def proxy_defaults_valid validateFingerprint_def)

end
