(* ===== verification/TunnelStore.thy ===== *)
theory TunnelStore
  imports TunnelConfig "HOL-Library.AList" "HOL-Library.List_Lexorder" "HOL-Library.Char_ord"
begin

text \<open>
  The store of tunnel configurations, \<open>internal/core/dns/store.go\<close>: a directory of TOML files, one per
  configuration, shared by all protocols. The directory is the association list of its entries on
  a case-sensitive file system; a file holds the configuration it decodes to, or nothing when it
  does not decode. \<open>kept c\<close> is what is read back of a written configuration (fields that are not
  written read as zero). How a write ends is a parameter: \<open>WriteSecretTOMLFile\<close> truncates the file
  before it writes.
\<close>

subsection \<open>Names\<close>

text \<open>\<open>filepath.Ext\<close> and \<open>filepath.Base\<close> on Unix.\<close>

definition path_ext :: "string \<Rightarrow> string" where
  "path_ext s =
     (let t = takeWhile (\<lambda>c. c \<noteq> CHR ''.'' \<and> c \<noteq> CHR ''/'') (rev s); rest = drop (length t) (rev s)
      in if rest \<noteq> [] \<and> hd rest = CHR ''.'' then CHR ''.'' # rev t else [])"

text \<open>\<open>fileutil.StripExt\<close>.\<close>

definition StripExt :: "string \<Rightarrow> string" where
  "StripExt name = take (length name - length (path_ext name)) name"

definition path_base :: "string \<Rightarrow> string" where
  "path_base s =
     (if s = [] then ''.''
      else let t = dropWhile (\<lambda>c. c = CHR ''/'') (rev s)
           in if t = [] then ''/'' else rev (takeWhile (\<lambda>c. c \<noteq> CHR ''/'') t))"

definition normalizeConfigName :: "string \<Rightarrow> string" where
  "normalizeConfigName name =
     (let e = path_ext name in if equal_fold e ''.toml'' then take (length name - length e) name else name)"

definition bad_name :: "string \<Rightarrow> bool" where
  "bad_name name \<longleftrightarrow> name = [] \<or> name = ''.'' \<or> name = ''..'' \<or> name \<noteq> path_base name
     \<or> list_ex (\<lambda>c. c = CHR ''/'' \<or> c = CHR 0x5C) name"

definition configPath :: "string \<Rightarrow> string option" where
  "configPath name = (if bad_name name then None else Some (normalizeConfigName name @ ''.toml''))"

subsection \<open>The directory\<close>

datatype 'c node = Directory | ConfFile "'c option"

type_synonym 'c dir = "(string \<times> 'c node) list"

datatype 'c write_end = Written | WriteFailed | Torn "'c option"

datatype store_err = NameRequired | InvalidName | AlreadyExists | NotExists | InvalidConfig "string list" | IOError

definition WriteSecretTOMLFile :: "('c \<Rightarrow> 'c) \<Rightarrow> 'c write_end \<Rightarrow> string \<Rightarrow> 'c \<Rightarrow> 'c dir \<Rightarrow> store_err option \<times> 'c dir" where
  "WriteSecretTOMLFile kept we path c fs =
     (if map_of fs path = Some Directory then (Some IOError, fs)
      else case we of
             Written \<Rightarrow> (None, AList.update path (ConfFile (Some (kept c))) fs)
           | WriteFailed \<Rightarrow> (Some IOError, fs)
           | Torn x \<Rightarrow> (Some IOError, AList.update path (ConfFile x) fs))"

definition CheckFileExists :: "'c dir \<Rightarrow> string \<Rightarrow> bool" where
  "CheckFileExists fs path = (case map_of fs path of Some (ConfFile x) \<Rightarrow> True | _ \<Rightarrow> False)"

definition SaveConfig ::
  "('c \<Rightarrow> string list) \<Rightarrow> ('c \<Rightarrow> 'c) \<Rightarrow> 'c write_end \<Rightarrow> 'c \<Rightarrow> string \<Rightarrow> 'c dir \<Rightarrow> store_err option \<times> 'c dir" where
  "SaveConfig validate kept we c name fs =
     (if trim_space name = [] then (Some NameRequired, fs)
      else case configPath name of
             None \<Rightarrow> (Some InvalidName, fs)
           | Some path \<Rightarrow>
               if CheckFileExists fs path then (Some AlreadyExists, fs)
               else if validate c \<noteq> [] then (Some (InvalidConfig (validate c)), fs)
               else WriteSecretTOMLFile kept we path c fs)"

definition EditConfig ::
  "('c \<Rightarrow> string list) \<Rightarrow> ('c \<Rightarrow> 'c) \<Rightarrow> 'c write_end \<Rightarrow> 'c \<Rightarrow> string \<Rightarrow> 'c dir \<Rightarrow> store_err option \<times> 'c dir" where
  "EditConfig validate kept we c name fs =
     (if trim_space name = [] then (Some NameRequired, fs)
      else case configPath name of
             None \<Rightarrow> (Some InvalidName, fs)
           | Some path \<Rightarrow>
               if map_of fs path = None then (Some NotExists, fs)
               else if validate c \<noteq> [] then (Some (InvalidConfig (validate c)), fs)
               else WriteSecretTOMLFile kept we path c fs)"

definition LoadConfig :: "string \<Rightarrow> 'c dir \<Rightarrow> store_err + 'c" where
  "LoadConfig name fs =
     (case configPath name of
        None \<Rightarrow> Inl InvalidName
      | Some path \<Rightarrow> (case map_of fs path of Some (ConfFile (Some c)) \<Rightarrow> Inr c | _ \<Rightarrow> Inl IOError))"

text \<open>The rename is the last step; \<open>rename_ok\<close> says whether it works.\<close>

definition RenameConfig :: "bool \<Rightarrow> string \<Rightarrow> string \<Rightarrow> 'c dir \<Rightarrow> store_err option \<times> 'c dir" where
  "RenameConfig rename_ok old new fs =
     (case configPath old of
        None \<Rightarrow> (Some InvalidName, fs)
      | Some p \<Rightarrow>
          (case configPath new of
             None \<Rightarrow> (Some InvalidName, fs)
           | Some q \<Rightarrow>
               (case map_of fs p of
                  None \<Rightarrow> (Some NotExists, fs)
                | Some n \<Rightarrow>
                    if map_of fs q \<noteq> None then (Some AlreadyExists, fs)
                    else if rename_ok then (None, AList.update q n (AList.delete p fs))
                    else (Some IOError, fs))))"

text \<open>\<open>ListFiles\<close> with the filter of the store: the files in the order of their names.\<close>

definition toml_files :: "'c dir \<Rightarrow> string list" where
  "toml_files fs =
     filter (\<lambda>n. map_of fs n \<noteq> Some Directory \<and> equal_fold (path_ext n) ''.toml'')
       (sort (remdups (map fst fs)))"

definition GetAllConfigFiles :: "('c \<Rightarrow> string list) \<Rightarrow> 'c dir \<Rightarrow> (string \<times> string \<times> 'c) list" where
  "GetAllConfigFiles validate fs =
     List.map_filter
       (\<lambda>n. case LoadConfig n fs of
              Inl err \<Rightarrow> None
            | Inr c \<Rightarrow> if validate c \<noteq> [] then None else Some (normalizeConfigName n, n, c))
       (toml_files fs)"

definition ValidateAllConfigs :: "('c \<Rightarrow> string list) \<Rightarrow> 'c dir \<Rightarrow> (string \<times> string list) list" where
  "ValidateAllConfigs validate fs =
     List.map_filter
       (\<lambda>n. case LoadConfig n fs of
              Inl err \<Rightarrow> Some (n, [])
            | Inr c \<Rightarrow> if validate c = [] then None else Some (n, validate c))
       (toml_files fs)"

subsection \<open>The interface of a configuration service\<close>

text \<open>Two names are the same configuration when they agree up to the extension: \<open>key\<close>.\<close>

locale config_service =
  fixes key :: "string \<Rightarrow> string"
    and load :: "string \<Rightarrow> 's \<Rightarrow> store_err + 'c"
    and save :: "'c \<Rightarrow> string \<Rightarrow> 's \<Rightarrow> store_err option \<times> 's"
    and edit :: "'c \<Rightarrow> string \<Rightarrow> 's \<Rightarrow> store_err option \<times> 's"
    and rename :: "string \<Rightarrow> string \<Rightarrow> 's \<Rightarrow> store_err option \<times> 's"
    and kept :: "'c \<Rightarrow> 'c"
  assumes save_same: "save c n s = (None, s') \<Longrightarrow> load n s' = Inr (kept c)"
    and save_new: "save c n s = (None, s') \<Longrightarrow> isl (load n s)"
    and save_other: "save c n s = (None, s') \<Longrightarrow> key m \<noteq> key n \<Longrightarrow> load m s' = load m s"
    and edit_same: "edit c n s = (None, s') \<Longrightarrow> load n s' = Inr (kept c)"
    and edit_other: "edit c n s = (None, s') \<Longrightarrow> key m \<noteq> key n \<Longrightarrow> load m s' = load m s"
    and rename_moves: "rename a b s = (None, s') \<Longrightarrow> load b s' = load a s \<and> isl (load a s') \<and> key a \<noteq> key b"
    and rename_other: "rename a b s = (None, s') \<Longrightarrow> key m \<noteq> key a \<Longrightarrow> key m \<noteq> key b \<Longrightarrow> load m s' = load m s"
begin

text \<open>A configuration that was saved, renamed and edited is found under its new name only.\<close>

lemma save_rename_edit:
  assumes "save c a s = (None, s1)" and "rename a b s1 = (None, s2)" and "edit d b s2 = (None, s3)"
  shows "load b s3 = Inr (kept d) \<and> isl (load a s3)"
  using edit_same [OF assms(3)] edit_other [OF assms(3), of a] rename_moves [OF assms(2)] by auto

lemma rename_keeps_config: "save c a s = (None, s1) \<Longrightarrow> rename a b s1 = (None, s2) \<Longrightarrow> load b s2 = Inr (kept c)"
  by (simp add: save_same rename_moves)

lemma edits_last_wins: "edit c n s = (None, s1) \<Longrightarrow> edit d n s1 = (None, s2) \<Longrightarrow> load n s2 = Inr (kept d)"
  by (simp add: edit_same)

end

subsection \<open>The store provides it\<close>

lemma configPath_Some: "configPath n = Some p \<longleftrightarrow> \<not> bad_name n \<and> p = normalizeConfigName n @ ''.toml''"
  by (auto simp: configPath_def)

lemma map_of_update [simp]: "map_of (AList.update k v al) = (map_of al)(k \<mapsto> v)"
  by (rule update_conv')

lemma map_of_delete [simp]: "map_of (AList.delete k al) = (map_of al)(k := None)"
  by (rule delete_conv')

lemma SaveConfig_done:
  "SaveConfig validate kept we c n fs = (None, fs') \<Longrightarrow>
   \<exists>p. configPath n = Some p \<and> we = Written \<and> validate c = [] \<and> map_of fs p = None
     \<and> fs' = AList.update p (ConfFile (Some (kept c))) fs"
  by (auto simp: SaveConfig_def WriteSecretTOMLFile_def CheckFileExists_def
      split: if_splits option.splits write_end.splits node.splits)

lemma EditConfig_done:
  "EditConfig validate kept we c n fs = (None, fs') \<Longrightarrow>
   \<exists>p. configPath n = Some p \<and> we = Written \<and> validate c = [] \<and> map_of fs p \<noteq> None
     \<and> fs' = AList.update p (ConfFile (Some (kept c))) fs"
  by (auto simp: EditConfig_def WriteSecretTOMLFile_def split: if_splits option.splits write_end.splits)

lemma RenameConfig_done:
  "RenameConfig ok a b fs = (None, fs') \<Longrightarrow>
   \<exists>p q n. configPath a = Some p \<and> configPath b = Some q \<and> map_of fs p = Some n \<and> map_of fs q = None
     \<and> p \<noteq> q \<and> fs' = AList.update q n (AList.delete p fs)"
  by (auto simp: RenameConfig_def split: if_splits option.splits)

interpretation store: config_service
  normalizeConfigName LoadConfig "SaveConfig validate kept we" "EditConfig validate kept we" "RenameConfig ok" kept
  for validate kept we ok
proof (unfold_locales, goal_cases)
  case (1 c n s s')
  then show ?case using SaveConfig_done [OF 1] by (auto simp: LoadConfig_def)
next
  case (2 c n s s')
  then show ?case using SaveConfig_done [OF 2] by (auto simp: LoadConfig_def)
next
  case (3 c n s s' m)
  then show ?case using SaveConfig_done [OF 3(1)] by (auto simp: LoadConfig_def configPath_def split: if_splits)
next
  case (4 c n s s')
  then show ?case using EditConfig_done [OF 4] by (auto simp: LoadConfig_def)
next
  case (5 c n s s' m)
  then show ?case using EditConfig_done [OF 5(1)] by (auto simp: LoadConfig_def configPath_def split: if_splits)
next
  case (6 a b s s')
  obtain p q n where r: "configPath a = Some p" "configPath b = Some q" "map_of s p = Some n" "p \<noteq> q"
    "s' = AList.update q n (AList.delete p s)"
    using RenameConfig_done [OF 6] by blast
  moreover have "normalizeConfigName a \<noteq> normalizeConfigName b"
    using r(1,2,4) by (auto simp: configPath_Some)
  ultimately show ?case by (simp add: LoadConfig_def)
next
  case (7 a b s s' m)
  then show ?case using RenameConfig_done [OF 7(1)] by (auto simp: LoadConfig_def configPath_def split: if_splits)
qed

subsection \<open>The store as a map\<close>

text \<open>The configurations by their canonical names.\<close>

definition stored :: "'c dir \<Rightarrow> string \<rightharpoonup> 'c" where
  "stored fs key =
     (case map_of fs (key @ ''.toml'') of Some (ConfFile (Some c)) \<Rightarrow> Some c | _ \<Rightarrow> None)"

definition occupied :: "'c dir \<Rightarrow> string \<Rightarrow> bool" where
  "occupied fs key \<longleftrightarrow> map_of fs (key @ ''.toml'') \<noteq> None"

lemma stored_update:
  "stored (AList.update (k @ ''.toml'') (ConfFile x) fs) = (stored fs)(k := x)"
  by (rule ext) (auto simp: stored_def split: option.split)

lemma stored_delete: "stored (AList.delete (k @ ''.toml'') fs) = (stored fs)(k := None)"
  by (rule ext) (auto simp: stored_def)

lemma LoadConfig_stored:
  "LoadConfig n fs = Inr c \<longleftrightarrow> \<not> bad_name n \<and> stored fs (normalizeConfigName n) = Some c"
  by (auto simp: LoadConfig_def configPath_def stored_def split: option.splits node.splits)

lemma SaveConfig_stored:
  "stored (snd (SaveConfig validate kept Written c n fs)) =
     (if fst (SaveConfig validate kept Written c n fs) = None
      then (stored fs)(normalizeConfigName n \<mapsto> kept c) else stored fs)
   \<and> (fst (SaveConfig validate kept Written c n fs) = None
      \<longleftrightarrow> trim_space n \<noteq> [] \<and> \<not> bad_name n \<and> validate c = [] \<and> \<not> occupied fs (normalizeConfigName n))"
  by (auto simp: SaveConfig_def configPath_def WriteSecretTOMLFile_def CheckFileExists_def occupied_def
      stored_update split: option.split node.split)

lemma EditConfig_stored:
  "stored (snd (EditConfig validate kept Written c n fs)) =
     (if fst (EditConfig validate kept Written c n fs) = None
      then (stored fs)(normalizeConfigName n \<mapsto> kept c) else stored fs)
   \<and> (fst (EditConfig validate kept Written c n fs) = None
      \<longleftrightarrow> trim_space n \<noteq> [] \<and> \<not> bad_name n \<and> validate c = []
        \<and> (\<exists>x. map_of fs (normalizeConfigName n @ ''.toml'') = Some (ConfFile x)))"
proof (cases "map_of fs (normalizeConfigName n @ ''.toml'')")
  case (Some x)
  then show ?thesis
    by (cases x) (auto simp: EditConfig_def configPath_def WriteSecretTOMLFile_def stored_update)
qed (auto simp: EditConfig_def configPath_def)

lemma RenameConfig_stored:
  "stored (snd (RenameConfig True a b fs)) =
     (if fst (RenameConfig True a b fs) = None
      then (stored fs)(normalizeConfigName a := None,
              normalizeConfigName b := stored fs (normalizeConfigName a))
      else stored fs)
   \<and> (fst (RenameConfig True a b fs) = None
      \<longleftrightarrow> \<not> bad_name a \<and> \<not> bad_name b \<and> occupied fs (normalizeConfigName a)
        \<and> \<not> occupied fs (normalizeConfigName b))"
proof (cases "map_of fs (normalizeConfigName a @ ''.toml'')")
  case (Some x)
  then have "stored (AList.update (normalizeConfigName b @ ''.toml'') x fs') =
      (stored fs')(normalizeConfigName b := stored fs (normalizeConfigName a))" for fs' :: "'a dir"
    by (intro ext) (auto simp: stored_def)
  with Some show ?thesis
    by (auto simp: RenameConfig_def configPath_def occupied_def stored_delete split: option.split)
qed (auto simp: RenameConfig_def configPath_def occupied_def)

text \<open>Every configuration that can be loaded is valid.\<close>

definition all_valid :: "('c \<Rightarrow> string list) \<Rightarrow> 'c dir \<Rightarrow> bool" where
  "all_valid validate fs \<longleftrightarrow> (\<forall>k c. stored fs k = Some c \<longrightarrow> validate c = [])"

lemma all_valid_bind:
  assumes "all_valid validate fs" and "stored fs' = (if P then (stored fs)(k \<mapsto> c) else stored fs)"
    and "P \<Longrightarrow> validate c = []"
  shows "all_valid validate fs'"
  using assms by (auto simp: all_valid_def split: if_splits)

lemma all_valid_move:
  assumes "all_valid validate fs" and "stored fs' = (if P then (stored fs)(k := None, l := stored fs k) else stored fs)"
  shows "all_valid validate fs'"
  using assms by (auto simp: all_valid_def split: if_splits)



subsection \<open>The listing\<close>

lemma path_ext_toml [simp]: "path_ext (k @ ''.toml'') = ''.toml''"
  by (simp add: path_ext_def Let_def)

lemma equal_fold_toml [simp]: "equal_fold ''.toml'' ''.toml''"
  by (simp add: equal_fold_def)

lemma normalize_toml [simp]: "normalizeConfigName (k @ ''.toml'') = k"
  by (simp add: normalizeConfigName_def Let_def)

lemma path_ext_suffix:
  assumes "path_ext s \<noteq> []"
  shows "\<exists>k. s = k @ path_ext s"
proof -
  define t where "t = takeWhile (\<lambda>c. c \<noteq> CHR ''.'' \<and> c \<noteq> CHR ''/'') (rev s)"
  have ext: "path_ext s = CHR ''.'' # rev t" "drop (length t) (rev s) \<noteq> []"
    "hd (drop (length t) (rev s)) = CHR ''.''"
    using assms unfolding path_ext_def Let_def t_def [symmetric] by (auto split: if_splits)
  then obtain r where r: "drop (length t) (rev s) = CHR ''.'' # r"
    by (cases "drop (length t) (rev s)") auto
  have "take (length t) (rev s) = t" by (simp add: t_def takeWhile_eq_take [symmetric])
  then have "rev s = t @ CHR ''.'' # r" using append_take_drop_id [of "length t" "rev s"] r by simp
  then have "rev (rev s) = rev (t @ CHR ''.'' # r)" by (rule arg_cong)
  then have "s = rev r @ CHR ''.'' # rev t" by simp
  then show ?thesis unfolding ext(1) by blast
qed

lemma mem_map_filter: "x \<in> set (List.map_filter f xs) \<longleftrightarrow> (\<exists>y \<in> set xs. f y = Some x)"
  by (induction xs) (auto simp: List.map_filter_simps split: option.splits)

text \<open>With lower case extensions the listing is the map: every valid configuration that can be named,
  once.\<close>

lemma set_toml_files:
  "n \<in> set (toml_files fs) \<longleftrightarrow>
     (\<exists>x. map_of fs n = Some (ConfFile x)) \<and> equal_fold (path_ext n) ''.toml''"
proof -
  have "n \<in> set (toml_files fs) \<longleftrightarrow>
      n \<in> fst ` set fs \<and> map_of fs n \<noteq> Some Directory \<and> equal_fold (path_ext n) ''.toml''"
    by (auto simp: toml_files_def)
  moreover have "n \<in> fst ` set fs \<longleftrightarrow> (\<exists>x. map_of fs n = Some x)"
    by (metis (no_types, lifting) map_of_eq_None_iff not_Some_eq)
  moreover have "(\<exists>x. map_of fs n = Some x) \<and> map_of fs n \<noteq> Some Directory
      \<longleftrightarrow> (\<exists>x. map_of fs n = Some (ConfFile x))"
    by (metis node.distinct(1) node.exhaust option.inject)
  ultimately show ?thesis by blast
qed

lemma listing_exact:
  assumes "\<forall>n \<in> set (toml_files fs). path_ext n = ''.toml''"
  shows "set (GetAllConfigFiles validate fs) =
      {(k, k @ ''.toml'', c) | k c. stored fs k = Some c \<and> validate c = [] \<and> \<not> bad_name (k @ ''.toml'')}"
    and "distinct (GetAllConfigFiles validate fs)"
proof -
  have split: "n = normalizeConfigName n @ ''.toml''" if "n \<in> set (toml_files fs)" for n
    using assms that path_ext_suffix [of n] by (auto simp: normalizeConfigName_def)
  have listed: "k @ ''.toml'' \<in> set (toml_files fs)" if "stored fs k = Some c" for k c
    using that by (auto simp: set_toml_files stored_def split: option.splits node.splits)
  show "set (GetAllConfigFiles validate fs) =
      {(k, k @ ''.toml'', c) | k c. stored fs k = Some c \<and> validate c = [] \<and> \<not> bad_name (k @ ''.toml'')}"
  proof (intro set_eqI iffI)
    fix e assume "e \<in> set (GetAllConfigFiles validate fs)"
    then obtain n where mem: "n \<in> set (toml_files fs)" and made: "(case LoadConfig n fs of
        Inl err \<Rightarrow> None | Inr c \<Rightarrow> if validate c \<noteq> [] then None else Some (normalizeConfigName n, n, c)) = Some e"
      unfolding GetAllConfigFiles_def mem_map_filter by blast
    then obtain c where n: "n \<in> set (toml_files fs)" "LoadConfig n fs = Inr c" "validate c = []"
      "e = (normalizeConfigName n, n, c)"
      by (cases "LoadConfig n fs") (auto split: if_splits)
    with split [OF n(1)] show "e \<in> {(k, k @ ''.toml'', c) | k c. stored fs k = Some c \<and> validate c = []
        \<and> \<not> bad_name (k @ ''.toml'')}"
      by (auto simp: LoadConfig_stored)
  next
    fix e assume "e \<in> {(k, k @ ''.toml'', c) | k c. stored fs k = Some c \<and> validate c = []
        \<and> \<not> bad_name (k @ ''.toml'')}"
    then obtain k c where k: "e = (k, k @ ''.toml'', c)" "stored fs k = Some c" "validate c = []"
      "\<not> bad_name (k @ ''.toml'')" by blast
    then have "LoadConfig (k @ ''.toml'') fs = Inr c" by (simp add: LoadConfig_stored)
    with k listed [OF k(2)] show "e \<in> set (GetAllConfigFiles validate fs)"
      unfolding GetAllConfigFiles_def mem_map_filter by (intro bexI [of _ "k @ ''.toml''"]) auto
  qed
  have names: "distinct (map (\<lambda>y. fst (snd y)) (List.map_filter f xs))"
    if "distinct xs" and f: "\<And>x y. f x = Some y \<Longrightarrow> fst (snd y) = x"
    for f :: "string \<Rightarrow> (string \<times> string \<times> 'a) option" and xs
    using that(1)
  proof (induction xs)
    case (Cons x xs)
    have sub: "fst (snd y) \<in> set xs" if "y \<in> set (List.map_filter f xs)" for y
      using that f unfolding mem_map_filter by metis
    show ?case
    proof (cases "f x")
      case (Some y)
      have "fst (snd y) \<noteq> fst (snd z)" if "z \<in> set (List.map_filter f xs)" for z
        using f [OF Some] sub [OF that] Cons.prems by auto
      with Some Cons show ?thesis by (auto simp: List.map_filter_simps)
    qed (use Cons in \<open>simp add: List.map_filter_simps\<close>)
  qed (simp add: List.map_filter_simps)
  have "distinct (map (\<lambda>y. fst (snd y)) (GetAllConfigFiles validate fs))"
    unfolding GetAllConfigFiles_def
    by (rule names) (auto simp: toml_files_def split: sum.splits if_splits)
  then show "distinct (GetAllConfigFiles validate fs)" by (simp add: distinct_map)
qed

text \<open>On a case-sensitive file system a file with the extension in capitals is listed with the
  configuration of another file, or not at all: it is opened under the canonical name.\<close>

theorem uppercase_config_misread:
  "GetAllConfigFiles (\<lambda>c::nat. []) [(''a.TOML'', ConfFile (Some 1)), (''a.toml'', ConfFile (Some 2))]
     = [(''a'', ''a.TOML'', 2), (''a'', ''a.toml'', 2)]
   \<and> GetAllConfigFiles (\<lambda>c::nat. []) [(''a.TOML'', ConfFile (Some 1))] = []"
  by code_simp

text \<open>A failed edit can lose the stored configuration: the file is truncated before it is written.\<close>

lemma edit_can_lose_config:
  assumes "configPath n = Some p" and "trim_space n \<noteq> []" and "map_of fs p = Some (ConfFile x)"
    and "validate d = []"
  shows "fst (EditConfig validate kept (Torn None) d n fs) = Some IOError
    \<and> LoadConfig n (snd (EditConfig validate kept (Torn None) d n fs)) = Inl IOError"
  using assms by (simp add: EditConfig_def WriteSecretTOMLFile_def LoadConfig_def)

end
