(* ===== verification/ScanBuilder.thy ===== *)
theory ScanBuilder
  imports Pipeline ConfigCorrect TunnelCorrect TunnelStore
begin

text \<open>
  From settings to a scan: the stages of every kind of scan
  (\<open>internal/core/scanner/stagebuilder.go\<close>) and the configuration the scanner hands to the engine
  (\<open>runPipeline\<close> of \<open>internal/core/scanner/scanner.go\<close>). The stores of the tunnel configurations are the
  directories of \<open>TunnelStore\<close>. Parameters are the constructors that open sockets or parse URLs
  (ICMP, HTTP and Xray) and the result writers; a probe is the arguments of its constructor.
\<close>

subsection \<open>Stages\<close>

datatype probe_spec =
  ICMPProbe int u16
| TCPProbe u16 int u16
| HTTPProbe bool HTTPConfig
| XrayProbe XrayConfig string
| ResolverProbe DNSRequest
| DNSTTProbe DNSTTConfig int int
| VayDNSProbe VayDNSConfig int int
| SlipstreamProbe SlipstreamConfig int int
| MasterDNSProbe MasterDNSConfig int int
| StormDNSProbe StormDNSConfig int int
| TheFeedProbe TheFeedConfig int int

record 'h StageConfig =
  StWorkers :: int
  StProbe :: probe_spec
  StWriter :: "string \<times> string"
  StHooks :: "'h option"

record scan_env =
  Tun :: tunnel_env
  icmp_sockets :: "go_err option"
  http_request :: "HTTPConfig \<Rightarrow> go_err option"
  xray_probe :: "XrayConfig \<Rightarrow> string \<Rightarrow> go_err option"
  writer_factory :: "string \<Rightarrow> string \<Rightarrow> go_err option"
  DNSTTDir :: "DNSTTConfig dir"
  VayDNSDir :: "VayDNSConfig dir"
  SlipstreamDir :: "SlipstreamConfig dir"
  MasterDNSDir :: "MasterDNSConfig dir"
  StormDNSDir :: "StormDNSConfig dir"
  TheFeedDir :: "TheFeedConfig dir"

text \<open>\<open>newWriter\<close> followed by \<open>newStage\<close>; \<open>hooks\<close> is the variadic argument, of which the first is
  used.\<close>

definition newWriter :: "scan_env \<Rightarrow> string \<Rightarrow> string \<Rightarrow> go_err option" where
  "newWriter env pfx schema = map_option (\<lambda>e. wrap_err (Some e)) (writer_factory env pfx schema)"

definition newStage :: "int \<Rightarrow> probe_spec \<Rightarrow> string \<times> string \<Rightarrow> 'h list \<Rightarrow> 'h StageConfig" where
  "newStage workers prb writer hooks =
     \<lparr>StWorkers = workers, StProbe = prb, StWriter = writer,
      StHooks = (case hooks of [] \<Rightarrow> None | h # _ \<Rightarrow> Some h)\<rparr>"

definition with_writer ::
  "scan_env \<Rightarrow> string \<Rightarrow> string \<Rightarrow> int \<Rightarrow> probe_spec \<Rightarrow> 'h list \<Rightarrow> go_err + 'h StageConfig" where
  "with_writer env pfx schema workers prb hooks =
     (case newWriter env pfx schema of
        Some err \<Rightarrow> Inl err | None \<Rightarrow> Inr (newStage workers prb (pfx, schema) hooks))"

definition BuildICMPStage :: "scan_env \<Rightarrow> ScannerConfig \<Rightarrow> 'h list \<Rightarrow> go_err + 'h StageConfig" where
  "BuildICMPStage env cfg hooks =
     (let c = ICMP cfg
      in case icmp_sockets env of
           Some err \<Rightarrow> Inl (wrap_err (Some err))
         | None \<Rightarrow> with_writer env (IcmpPrefix c) ''ICMP'' (IcmpWorkers c)
                     (ICMPProbe (Duration (IcmpTimeout c)) (IcmpTries c)) hooks)"

definition BuildTCPStage :: "scan_env \<Rightarrow> ScannerConfig \<Rightarrow> 'h list \<Rightarrow> go_err + 'h StageConfig" where
  "BuildTCPStage env cfg hooks =
     (let c = TCP cfg
      in with_writer env (TcpPrefix c) ''TCP'' (TcpWorkers c)
           (TCPProbe (NewTCPProbe_port (show_int (TcpPort c))) (Duration (TcpTimeout c)) (TcpTries c)) hooks)"

definition isHTTP3 :: "string \<Rightarrow> bool" where
  "isHTTP3 version \<longleftrightarrow> to_lower version \<in> {''h3'', ''http3''}"

definition BuildHTTPStage :: "scan_env \<Rightarrow> ScannerConfig \<Rightarrow> 'h list \<Rightarrow> go_err + 'h StageConfig" where
  "BuildHTTPStage env cfg hooks =
     (let c = HTTP cfg
      in case http_request env c of
           Some err \<Rightarrow> Inl (wrap_err (Some err))
         | None \<Rightarrow> with_writer env (HttpPrefix c) ''HTTP'' (HttpWorkers c)
                     (HTTPProbe (isHTTP3 (HttpVersion c)) c) hooks)"

definition buildXrayPreScanStage ::
  "scan_env \<Rightarrow> ScannerConfig \<Rightarrow> string \<Rightarrow> go_err + 'h StageConfig option" where
  "buildXrayPreScanStage env cfg pre =
     (let wrapped = (\<lambda>r. case r of Inl err \<Rightarrow> Inl (wrap_err (Some err)) | Inr st \<Rightarrow> Inr (Some st))
      in if pre = [] \<or> pre = ''none'' then Inr None
         else if pre = ''tcp'' then wrapped (BuildTCPStage env cfg [])
         else if pre = ''icmp'' then wrapped (BuildICMPStage env cfg [])
         else if pre = ''http'' then wrapped (BuildHTTPStage env cfg [])
         else Inl [Plain 7])"

definition BuildXrayStage ::
  "scan_env \<Rightarrow> ScannerConfig \<Rightarrow> string \<Rightarrow> 'h list \<Rightarrow> go_err + 'h StageConfig list" where
  "BuildXrayStage env cfg template hooks =
     (let c = Xray cfg
      in case buildXrayPreScanStage env cfg (PreScanType c) of
           Inl err \<Rightarrow> Inl err
         | Inr pre \<Rightarrow>
             (case xray_probe env c template of
                Some err \<Rightarrow> Inl (wrap_err (Some err))
              | None \<Rightarrow>
                  (case with_writer env (XrayPrefix c) ''Xray'' (XrayWorkers c) (XrayProbe c template) hooks of
                     Inl err \<Rightarrow> Inl err
                   | Inr st \<Rightarrow> Inr ((case pre of None \<Rightarrow> [] | Some p \<Rightarrow> [p]) @ [st]))))"

subsection \<open>DNS stages\<close>

definition resolver_DNSRequest :: "ResolverConfig \<Rightarrow> DNSRequest" where
  "resolver_DNSRequest c = NewResolverProbe
     \<lparr>ReqDomain = Domain c, ReqPort = ResPort c, ReqRandomSubdomain = RandomSubdomain c,
      DpiCheck = DpiEnabled (DPI c), ReqDpiTimeout = Duration (DpiTimeout (DPI c)),
      ReqDpiTries = DpiTries (DPI c), Edns0Size = EDNSBufSize c, ReqCheckTypes = CheckTypes c,
      AcceptedRcodes = map ParseDNSRcode (AcceptedRCodes c), ReqTimeout = Duration (ResTimeout c),
      ReqTransport = ParseResolverType (Transport c), ReqTries = ResTries c\<rparr>"

definition buildResolverStage :: "scan_env \<Rightarrow> ResolverConfig \<Rightarrow> 'h list \<Rightarrow> go_err + 'h StageConfig" where
  "buildResolverStage env c hooks =
     with_writer env (ResPrefix c) ''DNSResolver'' (ResWorkers c) (ResolverProbe (resolver_DNSRequest c)) hooks"

definition BuildResolveStage :: "scan_env \<Rightarrow> ScannerConfig \<Rightarrow> 'h list \<Rightarrow> go_err + 'h StageConfig" where
  "BuildResolveStage env cfg hooks = buildResolverStage env (Resolver (DNS cfg)) hooks"

text \<open>The part the six tunnel scans have in common: the optional resolver stage, with port, transport
  and domain of the tunnel when it is adaptive, then the tunnel's own stage. \<open>errs\<close> are the errors
  with which the constructor of the probe fails.\<close>

definition adaptive_resolver :: "DNSTunneling \<Rightarrow> ResolverConfig \<Rightarrow> u16 \<Rightarrow> string \<Rightarrow> string \<Rightarrow> ResolverConfig" where
  "adaptive_resolver tun r port transport domain =
     (if AdaptiveResolver tun then r\<lparr>ResPort := port, Transport := transport, Domain := domain\<rparr> else r)"

definition tunnel_stages ::
  "scan_env \<Rightarrow> ScannerConfig \<Rightarrow> u16 \<Rightarrow> string \<Rightarrow> string \<Rightarrow> string list \<Rightarrow> string \<Rightarrow> probe_spec \<Rightarrow> 'h list
   \<Rightarrow> go_err + 'h StageConfig list" where
  "tunnel_stages env cfg port transport domain errs schema prb hooks =
     (let tun = Tunneling (DNS cfg);
          pre = (if CheckDNSResolver tun
                 then (case buildResolverStage env
                             (adaptive_resolver tun (Resolver (DNS cfg)) port transport domain) [] of
                         Inl err \<Rightarrow> Inl err | Inr st \<Rightarrow> Inr [st])
                 else Inr [])
      in case pre of
           Inl err \<Rightarrow> Inl err
         | Inr stages \<Rightarrow>
             if errs \<noteq> [] then Inl [Plain 8]
             else (case with_writer env (TunPrefix tun) schema (TunWorkers tun) prb hooks of
                     Inl err \<Rightarrow> Inl err | Inr st \<Rightarrow> Inr (stages @ [st])))"

definition BuildDNSTTStage ::
  "scan_env \<Rightarrow> ScannerConfig \<Rightarrow> string \<Rightarrow> 'h list \<Rightarrow> go_err + 'h StageConfig list" where
  "BuildDNSTTStage env cfg name hooks =
     (let tun = Tunneling (DNS cfg)
      in case LoadConfig name (DNSTTDir env) of
           Inl err \<Rightarrow> Inl [Plain 9]
         | Inr c \<Rightarrow>
             tunnel_stages env cfg (DtResolverPort c) (DtResolverType c) (DtDomain c)
               (DNSTT_Validate (Tun env) c) ''DNSTT''
               (DNSTTProbe c (Duration (TunTimeout tun)) (TunTries tun)) hooks)"

definition BuildVayDNSStage ::
  "scan_env \<Rightarrow> ScannerConfig \<Rightarrow> string \<Rightarrow> 'h list \<Rightarrow> go_err + 'h StageConfig list" where
  "BuildVayDNSStage env cfg name hooks =
     (let tun = Tunneling (DNS cfg)
      in case LoadConfig name (VayDNSDir env) of
           Inl err \<Rightarrow> Inl [Plain 9]
         | Inr c \<Rightarrow>
             tunnel_stages env cfg (VdResolverPort c) (VdResolverType c) (VdDomain c)
               (VayDNS_Validate (Tun env) c) ''VayDNS''
               (VayDNSProbe c (Duration (TunTimeout tun)) (TunTries tun)) hooks)"

definition BuildSlipStreamStage ::
  "scan_env \<Rightarrow> ScannerConfig \<Rightarrow> string \<Rightarrow> 'h list \<Rightarrow> go_err + 'h StageConfig list" where
  "BuildSlipStreamStage env cfg name hooks =
     (let tun = Tunneling (DNS cfg)
      in case LoadConfig name (SlipstreamDir env) of
           Inl err \<Rightarrow> Inl [Plain 9]
         | Inr c \<Rightarrow>
             tunnel_stages env cfg (SsResolverPort c) ''udp'' (SsDomain c)
               (Slipstream_Validate (Tun env) c) ''Slipstream''
               (SlipstreamProbe c (Duration (TunTimeout tun)) (TunTries tun)) hooks)"

definition BuildMasterDNSStage ::
  "scan_env \<Rightarrow> ScannerConfig \<Rightarrow> string \<Rightarrow> 'h list \<Rightarrow> go_err + 'h StageConfig list" where
  "BuildMasterDNSStage env cfg name hooks =
     (let tun = Tunneling (DNS cfg)
      in case LoadConfig name (MasterDNSDir env) of
           Inl err \<Rightarrow> Inl [Plain 9]
         | Inr c \<Rightarrow>
             tunnel_stages env cfg (EmResolverPort c) ''udp'' (EmDomain c)
               (MasterDNS_Validate (Tun env) c) ''MasterDNS''
               (MasterDNSProbe c (Duration (TunTimeout tun)) (TunTries tun)) hooks)"

definition BuildStormDNSStage ::
  "scan_env \<Rightarrow> ScannerConfig \<Rightarrow> string \<Rightarrow> 'h list \<Rightarrow> go_err + 'h StageConfig list" where
  "BuildStormDNSStage env cfg name hooks =
     (let tun = Tunneling (DNS cfg)
      in case LoadConfig name (StormDNSDir env) of
           Inl err \<Rightarrow> Inl [Plain 9]
         | Inr c \<Rightarrow>
             tunnel_stages env cfg (EmResolverPort c) ''udp'' (EmDomain c)
               (StormDNS_Validate (Tun env) c) ''StormDNS''
               (StormDNSProbe c (Duration (TunTimeout tun)) (TunTries tun)) hooks)"

definition BuildTheFeedStage ::
  "scan_env \<Rightarrow> ScannerConfig \<Rightarrow> string \<Rightarrow> 'h list \<Rightarrow> go_err + 'h StageConfig list" where
  "BuildTheFeedStage env cfg name hooks =
     (let tun = Tunneling (DNS cfg)
      in case LoadConfig name (TheFeedDir env) of
           Inl err \<Rightarrow> Inl [Plain 9]
         | Inr c \<Rightarrow>
             tunnel_stages env cfg (TfResolverPort c) (TfResolverType c) (TfDomain c)
               (TheFeed_Validate (Tun env) c) ''TheFeed''
               (TheFeedProbe c (Duration (TunTimeout tun)) (TunTries tun)) hooks)"

end
