(* ===== verification/ScanSetup.thy ===== *)
theory ScanSetup
  imports ScanBuilder
begin

text \<open>
  What the scanner hands to the engine (\<open>runPipeline\<close> of \<open>internal/core/scanner/scanner.go\<close>) for the
  stages of \<open>ScanBuilder\<close>, and what holds of it when the settings were normalised, as \<open>loadConfig\<close>
  does; and the tunnels whose transport is not the one their configuration names.
\<close>

subsection \<open>The configuration of a run\<close>

record scan_args =
  Chain :: chain_config
  ArgMaxIPs :: u64
  ArgShuffled :: bool
  ArgMinProbe :: int
  ArgRate :: "int \<times> int"
  ArgProgress :: int
  ArgIgnoreWriter :: bool

text \<open>\<open>uint64(max(n, 0))\<close>, and the rate limiter as its rate and burst.\<close>

definition non_negative :: "int \<Rightarrow> u64" where
  "non_negative n = word_of_int (max n 0)"

definition newRateLimiter :: "GeneralConfig \<Rightarrow> int \<times> int" where
  "newRateLimiter g = (ProbePerSec g, ProbeBurst g)"

definition runPipeline :: "ScannerConfig \<Rightarrow> 'h StageConfig list \<Rightarrow> scan_args" where
  "runPipeline cfg stages =
     (let g = General cfg
      in \<lparr>Chain = \<lparr>Mode = (if 1 < length stages then ParsePipelineMode (PipelineMode g) else ModeSequential),
                   MaxBuffer = MaxIPsPerStage g, BatchSize = GenBatchSize g,
                   StageWorkers = map StWorkers stages,
                   MaxSuccessfulIPs = non_negative (MaxSuccessful g)\<rparr>,
          ArgMaxIPs = non_negative (MaxIPsToTest g), ArgShuffled = Shuffled g,
          ArgMinProbe = Duration (MinProbeDuration g), ArgRate = newRateLimiter g,
          ArgProgress = Duration (StatusInterval g), ArgIgnoreWriter = IgnoreErr (Writer cfg)\<rparr>)"

subsection \<open>Normalised settings\<close>

definition workers_ok :: "ScannerConfig \<Rightarrow> bool" where
  "workers_ok cfg \<longleftrightarrow>
     1 \<le> IcmpWorkers (ICMP cfg) \<and> 1 \<le> TcpWorkers (TCP cfg) \<and> 1 \<le> HttpWorkers (HTTP cfg)
     \<and> 1 \<le> XrayWorkers (Xray cfg) \<and> 1 \<le> ResWorkers (Resolver (DNS cfg)) \<and> 1 \<le> TunWorkers (Tunneling (DNS cfg))"

definition general_ok :: "GeneralConfig \<Rightarrow> bool" where
  "general_ok g \<longleftrightarrow>
     0 \<le> MaxSuccessful g \<and> 0 \<le> MaxIPsToTest g \<and> 1 \<le> MaxIPsPerStage g \<and> 1 \<le> GenBatchSize g
     \<and> 1 \<le> ProbePerSec g \<and> 1 \<le> ProbeBurst g
     \<and> MinGeneralProbeDuration - Millisecond \<le> Duration (MinProbeDuration g)
     \<and> MinGeneralStatusInterval - Millisecond \<le> Duration (StatusInterval g)"

lemma only_prefix_None: "m(''OutputPrefix'' := y) = Map.empty \<Longrightarrow> k \<noteq> ''OutputPrefix'' \<Longrightarrow> m k = None"
  by (metis fun_upd_apply)

lemma workers_checked:
  "ValidateTCP t = Map.empty \<Longrightarrow> 1 \<le> TcpWorkers t"
  "ValidateICMP i ''Workers'' = None \<Longrightarrow> 1 \<le> IcmpWorkers i"
  "ValidateHTTP hn h ''Workers'' = None \<Longrightarrow> 1 \<le> HttpWorkers h"
  "ValidateXray x ''Workers'' = None \<Longrightarrow> 1 \<le> XrayWorkers x"
  "validateResolver r = Map.empty \<Longrightarrow> 1 \<le> ResWorkers r"
  "validateDNSTunneling d = Map.empty \<Longrightarrow> 1 \<le> TunWorkers d"
  by (auto simp: ValidateTCP_def ValidateICMP_def ValidateHTTP_def ValidateXray_def validateResolver_def
      validateDNSTunneling_def collect_errs_empty collect_errs_None checkInt_def cfg_limits
      split: if_splits)

lemma normalized_workers:
  assumes "default_host_ok hostname"
  shows "workers_ok (fst (NormalizeAll hostname pf tr cfg))"
  unfolding workers_ok_def NormalizeAll_simps NormalizeDNS_simps
  by (intro conjI workers_checked(1,2,4-6) workers_checked(3) [where hn = hostname] section_heals(3,7,8)
      only_prefix_None [OF section_heals(4)] only_prefix_None [OF section_heals(6)]
      only_prefix_None [OF section_heals(5) [OF assms]]) simp_all

lemma duration_checked:
  assumes "checkDuration (Duration ms) mn mx = None" and "0 \<le> mn"
  shows "mn - Millisecond \<le> Duration ms"
proof -
  have range: "in_int64 (Duration ms)" by (simp add: Duration_def)
  show ?thesis
  proof (cases "Duration ms + Millisecond < 2 ^ 63")
    case True
    then have "in_int64 (Duration ms + Millisecond)" using range by (simp add: in_int64_def Millisecond_def)
    then show ?thesis using assms by (simp add: checkDuration_def split: if_splits)
  next
    case False
    moreover from this have "wrap64 (Duration ms + Millisecond) = Duration ms + Millisecond - 2 ^ 64"
      using range mod_add_self2 [of "Duration ms + Millisecond - 2 ^ 63" "2 ^ 64"]
      by (simp add: wrap64_def in_int64_def Millisecond_def)
    ultimately show ?thesis using assms range
      by (simp add: checkDuration_def in_int64_def Millisecond_def split: if_splits)
  qed
qed

lemma general_checked:
  assumes "ValidateGeneral g = Map.empty" shows "general_ok g"
proof -
  have "checkDuration (Duration (MinProbeDuration g)) MinGeneralProbeDuration MaxGeneralProbeDuration = None"
    "checkDuration (Duration (StatusInterval g)) MinGeneralStatusInterval MaxGeneralStatusInterval = None"
    using assms by (simp_all add: ValidateGeneral_def collect_errs_empty)
  from this [THEN duration_checked] assms show ?thesis
    by (auto simp: general_ok_def ValidateGeneral_def collect_errs_empty checkInt_def cfg_limits
        Millisecond_def split: if_splits)
qed

lemma normalized_general:
  assumes "(pf, tr) \<noteq> (Server, High)"
  shows "general_ok (General (fst (NormalizeAll hostname pf tr cfg)))"
  unfolding NormalizeAll_simps by (rule general_checked [OF section_heals(1) [OF assms]])

subsection \<open>Transports\<close>

text \<open>The transport of a tunnel's own client and that of the adaptive resolver stage before it.\<close>

definition prescan_transport :: "DNSTunneling \<Rightarrow> ResolverConfig \<Rightarrow> u16 \<Rightarrow> string \<Rightarrow> string \<Rightarrow> string" where
  "prescan_transport tun r port rtype domain =
     ReqTransport (resolver_DNSRequest (adaptive_resolver tun r port rtype domain))"

lemma prescan_transport_adaptive:
  "AdaptiveResolver tun \<Longrightarrow> prescan_transport tun r port rtype domain = ParseResolverType rtype"
  by (simp add: prescan_transport_def adaptive_resolver_def resolver_DNSRequest_def NewResolverProbe_def)

lemma exact_names: "ParseResolverType ''tcp'' = ''tcp''" "ParseResolverType ''dot'' = ''dot''"
  by code_simp+

lemma transport_agrees:
  "toVayDNSResolverType t = toVayDNSResolverType (ParseResolverType t)
     \<longleftrightarrow> t = ParseResolverType t \<or> ParseResolverType t = ''udp''"
proof -
  have "ParseResolverType t \<in> {''tcp'', ''dot'', ''udp''}" by (simp add: ParseResolverType_def Let_def)
  then show ?thesis by (auto simp: toVayDNSResolverType_def exact_names)
qed

lemma tunnel_transports:
  "DNSTT_NewTunnel lib env ctx c a = Inr t \<Longrightarrow> VtTransport t = toVayDNSResolverType (DtResolverType c)"
  "VayDNS_NewTunnel lib env ctx v a = Inr t \<Longrightarrow> VtTransport t = toVayDNSResolverType (VdResolverType v)"
  by (auto simp: DNSTT_NewTunnel_def VayDNS_NewTunnel_def connect_vaydns_def newVayDNSResolver_def
      split: if_splits option.splits)

text \<open>A DNSTT or VayDNS tunnel runs over the transport that its adaptive resolver scan tested
  exactly when the configuration writes it in lower case without blanks, or means UDP. The
  validator accepts every spelling; \<open>TCP\<close> is scanned over TCP and then tunnelled over UDP. A TheFeed
  query always goes over UDP.\<close>

theorem tunnel_transport_exact:
  assumes "AdaptiveResolver tun"
  shows "(DNSTT_NewTunnel lib env None c a = Inr t \<longrightarrow>
            (VtTransport t = toVayDNSResolverType
               (prescan_transport tun r (DtResolverPort c) (DtResolverType c) (DtDomain c))
             \<longleftrightarrow> DtResolverType c = ParseResolverType (DtResolverType c)
                 \<or> ParseResolverType (DtResolverType c) = ''udp''))
         \<and> (VayDNS_NewTunnel lib env None v a = Inr u \<longrightarrow>
            (VtTransport u = toVayDNSResolverType
               (prescan_transport tun r (VdResolverPort v) (VdResolverType v) (VdDomain v))
             \<longleftrightarrow> VdResolverType v = ParseResolverType (VdResolverType v)
                 \<or> ParseResolverType (VdResolverType v) = ''udp''))
         \<and> QTransport (feed_query f qname a limit) = ''udp''"
  using tunnel_transports [of lib env None] by (auto simp: prescan_transport_adaptive [OF assms] transport_agrees feed_query_def)

definition shouting_config :: DNSTTConfig where
  "shouting_config = DefaultDNSTTConfig\<lparr>DtDomain := ''t.example.com'', DtPubKey := replicate 64 CHR ''a'',
     DtResolverType := ''TCP''\<rparr>"

definition plain_env :: tunnel_env where
  "plain_env = \<lparr>idna_ascii = Some, hello_labels = [''Chrome''], ssh_key_ok = \<lambda>k. True, hosts_file_ok = \<lambda>f. True\<rparr>"

lemma shouting_facts:
  "DNSTT_Validate plain_env shouting_config = []"
  "DtResolverType shouting_config = ''TCP''" "ParseResolverType ''TCP'' = ''tcp''"
  "AdaptiveResolver (Tunneling (DefaultDNSConfig Desktop Low))"
  by code_simp+

lemma shouting_tunnel:
  "\<exists>t. DNSTT_NewTunnel (\<lambda>k. None) plain_env None shouting_config (V4 0x01010101) = Inr t"
proof -
  have "parseClientHelloID plain_env (DtFingerprint shouting_config) = Some 0" by code_simp
  then show ?thesis
    by (simp add: DNSTT_NewTunnel_def shouting_facts connect_vaydns_def newVayDNSResolver_def)
qed

lemma tunnel_transport_exact_witness:
  "(let tun = Tunneling (DefaultDNSConfig Desktop Low); r = Resolver (DefaultDNSConfig Desktop Low)
    in DNSTT_Validate plain_env shouting_config = []
       \<and> (case DNSTT_NewTunnel (\<lambda>k. None) plain_env None shouting_config (V4 0x01010101) of
            Inl e \<Rightarrow> False
          | Inr t \<Rightarrow> VtTransport t \<noteq> toVayDNSResolverType
                (prescan_transport tun r (DtResolverPort shouting_config) (DtResolverType shouting_config)
                  (DtDomain shouting_config))))"
proof -
  obtain t where "DNSTT_NewTunnel (\<lambda>k. None) plain_env None shouting_config (V4 0x01010101) = Inr t"
    using shouting_tunnel by blast
  with tunnel_transport_exact [OF shouting_facts(4), of "\<lambda>k. None" plain_env shouting_config "V4 0x01010101" t]
  show ?thesis by (auto simp: Let_def shouting_facts)
qed

end
