(* ===== verification/PortManager.thy ===== *)
theory PortManager
  imports Transitions "HOL-Library.Multiset"
begin

text \<open>
  The local port pool, \<open>internal/core/scanner/portmgr/portmgr.go\<close>: \<open>New\<close>, \<open>Get\<close>,
  \<open>Release\<close>, \<open>Close\<close>, \<open>nextPort\<close>, \<open>RandomBase\<close>, \<open>GenerateInstanceRange\<close> and
  \<open>WaitOpen\<close>. The buffered channel of ports is a list with a capacity, read at the
  head and written at the tail. First the operations as one caller runs them, then the
  interleaving of several callers as a step relation over the same operations.
\<close>

subsection \<open>State and operations\<close>

definition minPort :: u16 where
  "minPort = 20000"

definition ephemeralPort :: u16 where
  "ephemeralPort = 49152"

record pool =
  ports :: "u16 list"
  capacity :: nat
  closed :: bool
  startPort :: u16
  lastAddedPort :: u16

text \<open>\<open>New\<close>: \<open>None\<close> is its error for an empty pool.\<close>

definition new_pool :: "u16 \<Rightarrow> u16 \<Rightarrow> pool option" where
  "new_pool start cnt =
     (if cnt = 0 then None
      else Some \<lparr>ports = map (\<lambda>i. start + of_nat i) [0 ..< unat cnt],
                 capacity = unat cnt, closed = False,
                 startPort = start, lastAddedPort = start + cnt - 1\<rparr>)"

definition nextPort :: "pool \<Rightarrow> u16 \<times> pool" where
  "nextPort m =
     (let p = lastAddedPort m + 1;
          q = (if ephemeralPort \<le> p then startPort m else p)
      in (q, m\<lparr>lastAddedPort := q\<rparr>))"

text \<open>A send that does not block: \<open>select\<close> with an empty default.\<close>

definition try_send :: "u16 \<Rightarrow> pool \<Rightarrow> pool" where
  "try_send p m = (if length (ports m) < capacity m then m\<lparr>ports := ports m @ [p]\<rparr> else m)"

definition release :: "u16 \<Rightarrow> pool \<Rightarrow> pool" where
  "release p m = (if closed m then m else try_send p m)"

definition close_pool :: "pool \<Rightarrow> pool" where
  "close_pool m = m\<lparr>closed := True\<rparr>"

datatype get_result = GotPort u16 | ErrClosed | CtxErr | Blocked

text \<open>
  \<open>Get\<close>, as one caller runs it with no other operation in between. \<open>ctx n\<close> says that
  the \<open>n\<close>-th select takes the branch of the cancelled context, \<open>isFree n p\<close> what the
  \<open>n\<close>-th probe of port \<open>p\<close> finds. \<open>Blocked\<close> is the state in which the caller waits for
  another goroutine. The loop has no bound of its own, so its result is an option and
  \<open>None\<close> is a call that never returns.
\<close>

partial_function (option) get_loop ::
  "(nat \<Rightarrow> u16 \<Rightarrow> bool) \<Rightarrow> (nat \<Rightarrow> bool) \<Rightarrow> nat \<Rightarrow> pool \<Rightarrow> (get_result \<times> pool) option" where
  "get_loop isFree ctx n m =
     (if closed m then Some (ErrClosed, m)
      else if ctx n then Some (CtxErr, m)
      else case ports m of
             [] \<Rightarrow> Some (Blocked, m)
           | p # ps \<Rightarrow>
               let m1 = m\<lparr>ports := ps\<rparr> in
               if isFree n p then Some (GotPort p, m1)
               else let (fresh, m2) = nextPort m1
                    in get_loop isFree ctx (Suc n) (try_send fresh m2))"

definition get_port :: "(nat \<Rightarrow> u16 \<Rightarrow> bool) \<Rightarrow> (nat \<Rightarrow> bool) \<Rightarrow> pool \<Rightarrow> (get_result \<times> pool) option" where
  "get_port isFree ctx m = get_loop isFree ctx 0 m"

text \<open>
  \<open>RandomBase\<close>: \<open>r\<close> is what \<open>rand.Intn\<close> returns, and \<open>None\<close> the panic of \<open>rand.Intn\<close>
  for an argument that is not positive.
\<close>

definition base_span :: "u16 \<Rightarrow> nat" where
  "base_span sz = unat (ephemeralPort - sz - minPort)"

definition RandomBase :: "u16 \<Rightarrow> nat \<Rightarrow> u16 option" where
  "RandomBase sz r = (if base_span sz = 0 then None else Some (minPort + of_nat r))"

text \<open>\<open>GenerateInstanceRange\<close> with the process id and the random number as arguments.\<close>

definition GenerateInstanceRange :: "nat \<Rightarrow> nat \<Rightarrow> u16 \<Rightarrow> u16 \<Rightarrow> u16 \<times> u16" where
  "GenerateInstanceRange pid r base sz = (base + (of_nat (pid mod 20000) + of_nat r), sz)"

text \<open>\<open>WaitOpen\<close> over what the ticker, the dialer and the context deliver.\<close>

datatype wait_event = Deadline | Tick bool
datatype wait_result = Opened | WaitErr | Waiting

fun WaitOpen :: "wait_event list \<Rightarrow> wait_result" where
  "WaitOpen [] = Waiting"
| "WaitOpen (Deadline # es) = WaitErr"
| "WaitOpen (Tick reachable # es) = (if reachable then Opened else WaitOpen es)"

lemma WaitOpen_Opened_iff:
  "WaitOpen es = Opened \<longleftrightarrow> take 1 (dropWhile (\<lambda>e. e = Tick False) es) = [Tick True]"
  by (induction es rule: WaitOpen.induct) auto

subsection \<open>The range of the pool\<close>

text \<open>The shape in which the scanner creates a pool: \<open>start \<le> last < ephemeralPort\<close>.\<close>

definition in_range :: "pool \<Rightarrow> u16 \<Rightarrow> bool" where
  "in_range m p \<longleftrightarrow> startPort m \<le> p \<and> p < ephemeralPort"

definition pool_ok :: "pool \<Rightarrow> bool" where
  "pool_ok m \<longleftrightarrow>
     0 < capacity m \<and> length (ports m) \<le> capacity m
     \<and> (\<forall>p \<in> set (ports m). in_range m p) \<and> in_range m (lastAddedPort m)"

lemma nextPort_in_range:
  assumes "in_range m (lastAddedPort m)" and "nextPort m = (q, m')"
  shows "in_range m' q" and "in_range m' (lastAddedPort m')" and "startPort m' = startPort m"
    and "capacity m' = capacity m" and "ports m' = ports m" and "closed m' = closed m"
    and "lastAddedPort m' = q"
proof -
  let ?p = "lastAddedPort m + 1"
  have "unat (lastAddedPort m) < 49152"
    using assms(1) by (simp add: in_range_def ephemeralPort_def word_less_nat_alt)
  then have "unat ?p = unat (lastAddedPort m) + 1"
    by (simp add: unat_word_ariths)
  then have "startPort m \<le> ?p"
    using assms(1) by (simp add: in_range_def word_le_nat_alt)
  moreover have "startPort m < ephemeralPort"
    using assms(1) by (auto simp: in_range_def)
  ultimately show "in_range m' q" and "in_range m' (lastAddedPort m')"
    using assms(2) by (auto simp: nextPort_def Let_def in_range_def split: if_splits)
qed (use assms(2) in \<open>auto simp: nextPort_def Let_def\<close>)

lemma try_send_simps [simp]:
  "capacity (try_send p m) = capacity m" "closed (try_send p m) = closed m"
  "startPort (try_send p m) = startPort m" "lastAddedPort (try_send p m) = lastAddedPort m"
  by (simp_all add: try_send_def)

lemma in_range_try_send [simp]: "in_range (try_send p m) = in_range m"
  by (rule ext) (simp add: in_range_def)

lemma in_range_update [simp]:
  "in_range (m\<lparr>ports := ps\<rparr>) = in_range m" "in_range (m\<lparr>closed := b\<rparr>) = in_range m"
  by (rule ext, simp add: in_range_def)+

lemma pool_ok_try_send: "pool_ok m \<Longrightarrow> in_range m p \<Longrightarrow> pool_ok (try_send p m)"
  by (auto simp: pool_ok_def try_send_def)

lemma pool_ok_tl: "pool_ok m \<Longrightarrow> ports m = p # ps \<Longrightarrow> pool_ok (m\<lparr>ports := ps\<rparr>)"
  by (auto simp: pool_ok_def)

lemma pool_ok_nextPort:
  assumes "pool_ok m" and "nextPort m = (q, m')"
  shows "pool_ok m'" and "in_range m' q"
proof -
  have r: "in_range m (lastAddedPort m)"
    using assms(1) by (simp add: pool_ok_def)
  note n = nextPort_in_range [OF r assms(2)]
  show "in_range m' q" by (rule n)
  have "in_range m' = in_range m"
    by (rule ext) (simp add: in_range_def n)
  with assms(1) n show "pool_ok m'"
    by (simp add: pool_ok_def)
qed

text \<open>A turn of the loop that found its port busy keeps the pool as it was in size and range.\<close>

definition retry :: "pool \<Rightarrow> pool" where
  "retry m = (let (fresh, m2) = nextPort (m\<lparr>ports := tl (ports m)\<rparr>) in try_send fresh m2)"

lemma retry_eq:
  assumes "ports m = p # ps" and "length (ports m) \<le> capacity m"
  shows "retry m = (let q = fst (nextPort m)
                    in m\<lparr>ports := ps @ [q], lastAddedPort := q\<rparr>)"
  using assms by (simp add: retry_def nextPort_def Let_def try_send_def)

lemma retry_ok:
  assumes "pool_ok m" and "ports m = p # ps"
  shows "pool_ok (retry m)" and "length (ports (retry m)) = length (ports m)"
    and "startPort (retry m) = startPort m" and "closed (retry m) = closed m"
    and "capacity (retry m) = capacity m"
proof -
  have 1: "pool_ok (m\<lparr>ports := ps\<rparr>)"
    using pool_ok_tl assms by blast
  obtain q m2 where n: "nextPort (m\<lparr>ports := ps\<rparr>) = (q, m2)"
    by (cases "nextPort (m\<lparr>ports := ps\<rparr>)")
  have "retry m = try_send q m2"
    using assms(2) n by (simp add: retry_def)
  with pool_ok_nextPort [OF 1 n] show "pool_ok (retry m)"
    by (simp add: pool_ok_try_send)
  have cap: "length (ports m) \<le> capacity m"
    using assms(1) by (simp add: pool_ok_def)
  show "length (ports (retry m)) = length (ports m)" "startPort (retry m) = startPort m"
    "closed (retry m) = closed m" "capacity (retry m) = capacity m"
    using retry_eq [OF assms(2) cap] assms(2) by (simp_all add: Let_def)
qed

lemma get_loop_unfold:
  "get_loop isFree ctx n m =
     (if closed m then Some (ErrClosed, m)
      else if ctx n then Some (CtxErr, m)
      else case ports m of
             [] \<Rightarrow> Some (Blocked, m)
           | p # ps \<Rightarrow> if isFree n p then Some (GotPort p, m\<lparr>ports := ps\<rparr>)
                       else get_loop isFree ctx (Suc n) (retry m))"
  by (subst get_loop.simps) (auto simp: retry_def Let_def split: list.splits prod.splits)

subsection \<open>\<open>Get\<close> returns\<close>

text \<open>What \<open>Get\<close> returns: never a port that its own probe found busy, never one out of range.\<close>

lemma get_loop_sound:
  assumes "get_loop isFree ctx n m = Some (r, m')" and "pool_ok m"
  shows "pool_ok m' \<and> startPort m' = startPort m \<and>
         (\<forall>p. r = GotPort p \<longrightarrow> in_range m p \<and> (\<exists>k \<ge> n. isFree k p))"
proof -
  have "case (r, m') of (r, m') \<Rightarrow> pool_ok m \<longrightarrow> pool_ok m' \<and> startPort m' = startPort m \<and>
         (\<forall>p. r = GotPort p \<longrightarrow> in_range m p \<and> (\<exists>k \<ge> n. isFree k p))"
  proof (rule get_loop.raw_induct [where P = "\<lambda>isFree ctx n m y. case y of (r, m') \<Rightarrow>
      pool_ok m \<longrightarrow> pool_ok m' \<and> startPort m' = startPort m \<and>
         (\<forall>p. r = GotPort p \<longrightarrow> in_range m p \<and> (\<exists>k \<ge> n. isFree k p))", OF _ assms(1)])
    fix gl :: "(nat \<Rightarrow> u16 \<Rightarrow> bool) \<Rightarrow> (nat \<Rightarrow> bool) \<Rightarrow> nat \<Rightarrow> pool \<Rightarrow> (get_result \<times> pool) option"
    fix isFree ctx n m y
    assume IH: "\<And>isFree ctx n m y. gl isFree ctx n m = Some y \<Longrightarrow> case y of (r, m') \<Rightarrow>
        pool_ok m \<longrightarrow> pool_ok m' \<and> startPort m' = startPort m \<and>
         (\<forall>p. r = GotPort p \<longrightarrow> in_range m p \<and> (\<exists>k \<ge> n. isFree k p))"
      and eq: "(if closed m then Some (ErrClosed, m)
        else if ctx n then Some (CtxErr, m)
        else case ports m of [] \<Rightarrow> Some (Blocked, m)
             | p # ps \<Rightarrow> let m1 = m\<lparr>ports := ps\<rparr> in
                 if isFree n p then Some (GotPort p, m1)
                 else let (fresh, m2) = nextPort m1 in gl isFree ctx (Suc n) (try_send fresh m2))
        = Some y"
    show "case y of (r, m') \<Rightarrow> pool_ok m \<longrightarrow> pool_ok m' \<and> startPort m' = startPort m \<and>
         (\<forall>p. r = GotPort p \<longrightarrow> in_range m p \<and> (\<exists>k \<ge> n. isFree k p))"
    proof (cases "\<not> closed m \<and> \<not> ctx n \<and> ports m \<noteq> [] \<and> \<not> isFree n (hd (ports m))")
      case True
      then obtain p ps where m: "ports m = p # ps" by (cases "ports m") auto
      with True eq have "gl isFree ctx (Suc n) (retry m) = Some y"
        by (simp add: retry_def split_beta Let_def)
      from IH [OF this] retry_ok [OF _ m] show ?thesis
        by (auto simp: in_range_def) (metis Suc_leD)+
    next
      case False
      with eq show ?thesis
        by (auto simp: pool_ok_def Let_def split: if_splits list.splits)
    qed
  qed
  with assms(2) show ?thesis by simp
qed

text \<open>A free port that is in the queue is reached, or an earlier one is taken.\<close>

lemma get_loop_reaches_queued:
  assumes "pool_ok m" "\<not> closed m" "\<forall>k. \<not> ctx k" "\<forall>k. isFree k q" "ports m = xs @ q # ys"
  shows "\<exists>p m'. get_loop isFree ctx n m = Some (GotPort p, m')"
  using assms
proof (induction xs arbitrary: n m ys)
  case Nil
  then show ?case by (subst get_loop_unfold) simp
next
  case (Cons x xs)
  show ?case
  proof (cases "isFree n x")
    case True
    with Cons.prems show ?thesis by (subst get_loop_unfold) simp
  next
    case False
    have m: "ports m = x # (xs @ q # ys)" using Cons.prems by simp
    have cap: "length (ports m) \<le> capacity m" using Cons.prems by (simp add: pool_ok_def)
    have "ports (retry m) = xs @ q # (ys @ [fst (nextPort m)])"
      using retry_eq [OF m cap] by (simp add: Let_def)
    moreover have "pool_ok (retry m)" "\<not> closed (retry m)"
      using retry_ok [OF Cons.prems(1) m] Cons.prems(2) by simp_all
    ultimately have "\<exists>p m'. get_loop isFree ctx (Suc n) (retry m) = Some (GotPort p, m')"
      using Cons.IH Cons.prems(3,4) by blast
    with False Cons.prems show ?thesis by (subst get_loop_unfold) simp
  qed
qed

text \<open>How many fresh ports are drawn until \<open>q\<close> is the next one.\<close>

definition fresh_dist :: "pool \<Rightarrow> u16 \<Rightarrow> nat" where
  "fresh_dist m q =
     (if lastAddedPort m < q then unat q - unat (lastAddedPort m)
      else (49152 - unat (lastAddedPort m)) + (unat q - unat (startPort m)))"

lemma nextPort_approaches:
  assumes "in_range m (lastAddedPort m)" and "in_range m q" and "fst (nextPort m) \<noteq> q"
  shows "fresh_dist (m\<lparr>ports := ps, lastAddedPort := fst (nextPort m)\<rparr>) q < fresh_dist m q"
proof -
  let ?l = "lastAddedPort m" and ?s = "startPort m"
  have l: "unat ?l < 49152" "unat ?s \<le> unat ?l" and q: "unat q < 49152" "unat ?s \<le> unat q"
    using assms(1,2) by (auto simp: in_range_def ephemeralPort_def word_less_nat_alt word_le_nat_alt)
  have u: "unat (?l + 1) = unat ?l + 1"
    using l by (simp add: unat_word_ariths)
  have n: "fst (nextPort m) = (if 49152 \<le> unat ?l + 1 then ?s else ?l + 1)"
    by (simp add: nextPort_def Let_def ephemeralPort_def word_le_nat_alt u)
  show ?thesis
  proof (cases "49152 \<le> unat ?l + 1")
    case True
    with n assms(3) have s: "fst (nextPort m) = ?s" "unat ?s \<noteq> unat q"
      by (auto simp: word_unat_eq_iff)
    with True l q show ?thesis by (simp add: fresh_dist_def word_less_nat_alt)
  next
    case False
    with n assms(3) have s: "fst (nextPort m) = ?l + 1" "unat ?l + 1 \<noteq> unat q"
      using u by (auto simp: word_unat_eq_iff)
    with False l q u show ?thesis by (auto simp: fresh_dist_def word_less_nat_alt)
  qed
qed

lemma get_loop_returns:
  assumes "pool_ok m" "\<not> closed m" "ports m \<noteq> []" "\<forall>k. \<not> ctx k" "\<forall>k. isFree k q" "in_range m q"
  shows "\<exists>p m'. get_loop isFree ctx n m = Some (GotPort p, m')"
  using assms
proof (induction "fresh_dist m q" arbitrary: n m rule: less_induct)
  case less
  obtain x ps where m: "ports m = x # ps" using less.prems(3) by (cases "ports m") auto
  have cap: "length (ports m) \<le> capacity m" and lst: "in_range m (lastAddedPort m)"
    using less.prems by (simp_all add: pool_ok_def)
  note r = retry_ok [OF less.prems(1) m]
  have eq: "retry m = m\<lparr>ports := ps @ [fst (nextPort m)], lastAddedPort := fst (nextPort m)\<rparr>"
    using retry_eq [OF m cap] by (simp add: Let_def)
  have "\<exists>p m'. get_loop isFree ctx (Suc n) (retry m) = Some (GotPort p, m')"
  proof (cases "fst (nextPort m) = q")
    case True
    with eq have "ports (retry m) = ps @ q # []" by simp
    moreover have "\<not> closed (retry m)" using r(4) less.prems(2) by simp
    ultimately show ?thesis
      using get_loop_reaches_queued r(1) less.prems(4,5) by blast
  next
    case False
    have "fresh_dist (retry m) q < fresh_dist m q"
      unfolding eq by (rule nextPort_approaches [OF lst less.prems(6) False])
    moreover have "ports (retry m) \<noteq> []" using r(2) m by auto
    moreover have "in_range (retry m) q" using less.prems(6) r(3) by (simp add: in_range_def)
    ultimately show ?thesis using less.hyps less.prems r by blast
  qed
  with m less.prems show ?case by (subst get_loop_unfold) simp
qed


definition example_pool :: pool where
  "example_pool = \<lparr>ports = [49149, 49150], capacity = 2, closed = False,
                   startPort = 49149, lastAddedPort = 49150\<rparr>"

lemma example_pool_ok: "pool_ok example_pool"
  by (simp add: example_pool_def pool_ok_def in_range_def ephemeralPort_def)


subsection \<open>A pool at a random base\<close>

lemma base_span_eq: "unat sz < 29152 \<Longrightarrow> base_span sz = 29152 - unat sz"
proof -
  assume a: "unat sz < 29152"
  have "sz \<le> 49152" using a by (simp add: word_le_nat_alt)
  then have "unat (49152 - sz) = 49152 - unat sz"
    by (simp add: unat_sub)
  moreover from this a have "unat (49152 - sz - 20000) = unat (49152 - sz) - 20000"
    by (simp add: unat_sub word_le_nat_alt)
  ultimately show ?thesis
    by (simp add: base_span_def ephemeralPort_def minPort_def)
qed

text \<open>The ports of a new pool that does not run past the end of the 16-bit range.\<close>

lemma unat_base_plus:
  fixes b :: u16
  assumes "unat b + i < 65536"
  shows "unat (b + of_nat i) = unat b + i"
  using assms by (simp add: unat_word_ariths unat_of_nat)

lemma new_pool_ok:
  assumes "cnt \<noteq> 0" and "unat b + unat cnt \<le> 49152" and "new_pool b cnt = Some m"
  shows "pool_ok m" and "distinct (ports m)" and "length (ports m) = unat cnt"
    and "\<forall>p \<in> set (ports m). b \<le> p \<and> p < ephemeralPort" and "\<not> closed m"
proof -
  have m: "m = \<lparr>ports = map (\<lambda>i. b + of_nat i) [0 ..< unat cnt], capacity = unat cnt,
               closed = False, startPort = b, lastAddedPort = b + cnt - 1\<rparr>"
    using assms by (simp add: new_pool_def)
  have pos: "0 < unat cnt" using assms(1) by (simp add: unat_gt_0)
  have u: "unat (b + of_nat i) = unat b + i" if "i < unat cnt" for i
    using unat_base_plus [of b i] that assms(2) by simp
  show r: "\<forall>p \<in> set (ports m). b \<le> p \<and> p < ephemeralPort"
    using u assms(2) by (auto simp: m word_le_nat_alt word_less_nat_alt ephemeralPort_def)
  have e: "b + cnt - 1 = b + of_nat (unat cnt - 1)"
    using pos by (simp add: of_nat_diff)
  have "unat (b + cnt - 1) = unat b + (unat cnt - 1)"
    unfolding e by (rule u) (use pos in simp)
  then have "b \<le> b + cnt - 1 \<and> b + cnt - 1 < ephemeralPort"
    using pos assms(2)
    by (simp add: word_le_nat_alt word_less_nat_alt ephemeralPort_def) linarith
  moreover have f: "lastAddedPort m = b + cnt - 1" "startPort m = b" "capacity m = unat cnt"
    "length (ports m) = unat cnt"
    by (simp_all add: m)
  ultimately show "pool_ok m" using r pos unfolding pool_ok_def in_range_def f by blast
  have "inj_on (\<lambda>i. b + of_nat i) {0 ..< unat cnt}"
  proof (rule inj_onI)
    fix i j
    assume ij: "i \<in> {0 ..< unat cnt}" "j \<in> {0 ..< unat cnt}"
      and eq: "b + of_nat i = b + of_nat j"
    have "unat b + i = unat b + j"
      using u [of i] u [of j] ij unfolding eq by auto
    then show "i = j" by simp
  qed
  then show "distinct (ports m)" by (simp add: m distinct_map)
  show "length (ports m) = unat cnt" "\<not> closed m" by (simp_all add: m)
qed

text \<open>A pool of \<open>sz\<close> ports at a random base, the way the scanner builds it: for every
  size below 29152 and every value \<open>rand.Intn\<close> may return, the pool has \<open>sz\<close> distinct
  ports, all of them at least \<open>minPort\<close> and below the ephemeral range, with no
  wrap-around of the 16-bit arithmetic.\<close>

theorem random_base_pool_in_range:
  assumes "sz \<noteq> 0" and "unat sz < 29152" and "r < base_span sz"
    and "RandomBase sz r = Some b" and "new_pool b sz = Some m"
  shows "pool_ok m \<and> \<not> closed m \<and> distinct (ports m) \<and> length (ports m) = unat sz
         \<and> (\<forall>p \<in> set (ports m). minPort \<le> p \<and> p < ephemeralPort)"
proof -
  have span: "base_span sz = 29152 - unat sz" by (rule base_span_eq [OF assms(2)])
  have b: "b = minPort + of_nat r" using assms(4) by (simp add: RandomBase_def split: if_splits)
  have ub: "unat b = 20000 + r"
    using unat_base_plus [of minPort r] assms(3) span by (simp add: b minPort_def)
  have sum: "unat b + unat sz \<le> 49152" using ub assms(2,3) span by simp
  have "minPort \<le> b" using ub by (simp add: minPort_def word_le_nat_alt)
  then show ?thesis
    using new_pool_ok [OF assms(1) sum assms(5)] by (auto intro: order_trans)
qed

theorem random_base_pool_in_range_witness:
  "\<exists>b m. RandomBase 3000 26151 = Some b \<and> new_pool b 3000 = Some m \<and> pool_ok m
         \<and> distinct (ports m) \<and> length (ports m) = 3000"
proof -
  have s: "base_span 3000 = 26152" by (simp add: base_span_def ephemeralPort_def minPort_def)
  then obtain b where b: "RandomBase 3000 26151 = Some b" by (simp add: RandomBase_def)
  obtain m where m: "new_pool b 3000 = Some m" by (simp add: new_pool_def)
  show ?thesis
    using random_base_pool_in_range [OF _ _ _ b m] b m s by auto
qed

subsection \<open>Several callers\<close>

text \<open>
  \<open>Get\<close> is four atomic steps: receive a port, look at \<open>done\<close> again, probe the port, and
  for a busy port send a fresh one. \<open>taken\<close> are ports received but not looked at,
  \<open>checked\<close> those past the second look at \<open>done\<close>, \<open>drawn\<close> fresh ports not yet sent,
  \<open>leased\<close> the ports that callers hold. Whether a probe finds a port free is up to the
  operating system, so both outcomes are steps. A caller releases only ports it holds.
\<close>

record pool_sys =
  shared :: pool
  taken :: "u16 multiset"
  checked :: "u16 multiset"
  drawn :: "u16 multiset"
  leased :: "u16 multiset"

definition pool_init :: "pool_sys \<Rightarrow> bool" where
  "pool_init s \<longleftrightarrow>
     taken s = {#} \<and> checked s = {#} \<and> drawn s = {#} \<and> leased s = {#}
     \<and> pool_ok (shared s) \<and> \<not> closed (shared s) \<and> length (ports (shared s)) = capacity (shared s)"

inductive pool_step :: "pool_sys \<Rightarrow> pool_sys \<Rightarrow> bool" where
  receive: "ports (shared s) = p # ps \<Longrightarrow>
     pool_step s (s\<lparr>shared := (shared s)\<lparr>ports := ps\<rparr>, taken := add_mset p (taken s)\<rparr>)"
| recheck: "p \<in># taken s \<Longrightarrow> \<not> closed (shared s) \<Longrightarrow>
     pool_step s (s\<lparr>taken := taken s - {#p#}, checked := add_mset p (checked s)\<rparr>)"
| give_up: "p \<in># taken s \<Longrightarrow> closed (shared s) \<Longrightarrow>
     pool_step s (s\<lparr>taken := taken s - {#p#}\<rparr>)"
| grant: "p \<in># checked s \<Longrightarrow>
     pool_step s (s\<lparr>checked := checked s - {#p#}, leased := add_mset p (leased s)\<rparr>)"
| busy: "p \<in># checked s \<Longrightarrow> nextPort (shared s) = (q, m) \<Longrightarrow>
     pool_step s (s\<lparr>shared := m, checked := checked s - {#p#}, drawn := add_mset q (drawn s)\<rparr>)"
| refill: "q \<in># drawn s \<Longrightarrow>
     pool_step s (s\<lparr>shared := try_send q (shared s), drawn := drawn s - {#q#}\<rparr>)"
| give_back: "p \<in># leased s \<Longrightarrow>
     pool_step s (s\<lparr>shared := release p (shared s), leased := leased s - {#p#}\<rparr>)"
| shut: "pool_step s (s\<lparr>shared := close_pool (shared s)\<rparr>)"

inductive_cases pool_stepE: "pool_step s t"

definition slots :: "pool_sys \<Rightarrow> nat" where
  "slots s = length (ports (shared s)) + size (taken s) + size (checked s)
             + size (drawn s) + size (leased s)"

definition pool_inv :: "pool_sys \<Rightarrow> bool" where
  "pool_inv s \<longleftrightarrow>
     pool_ok (shared s) \<and> slots s \<le> capacity (shared s)
     \<and> (\<not> closed (shared s) \<longrightarrow> slots s = capacity (shared s))
     \<and> (\<forall>p \<in># taken s + checked s + drawn s + leased s. in_range (shared s) p)"

lemma size_remove: "p \<in># M \<Longrightarrow> Suc (size (M - {#p#})) = size M"
  by (metis insert_DiffM size_add_mset)

lemma try_send_room: "length (ports m) < capacity m \<Longrightarrow> ports (try_send p m) = ports m @ [p]"
  by (simp add: try_send_def)

lemma pool_inv_init: "pool_init s \<Longrightarrow> pool_inv s"
  by (simp add: pool_init_def pool_inv_def slots_def)

lemma pool_inv_send:
  assumes "pool_inv s" and "Suc n = size (drawn s) + size (leased s)"
    and "slots s = length (ports (shared s)) + size (taken s) + size (checked s) + Suc n"
  shows "length (ports (shared s)) < capacity (shared s)"
  using assms by (simp add: pool_inv_def)

lemma pool_inv_step: "pool_step s t \<Longrightarrow> pool_inv s \<Longrightarrow> pool_inv t"
proof (induction rule: pool_step.induct)
  case (receive s p ps)
  then show ?case
    by (auto simp: pool_inv_def slots_def intro: pool_ok_tl) (auto simp: pool_ok_def)
next
  case (recheck p s)
  then show ?case
    using size_remove [of p "taken s"] by (auto simp: pool_inv_def slots_def dest: in_diffD)
next
  case (give_up p s)
  then show ?case
    using size_remove [of p "taken s"] by (auto simp: pool_inv_def slots_def dest: in_diffD)
next
  case (grant p s)
  then show ?case
    using size_remove [of p "checked s"] by (auto simp: pool_inv_def slots_def dest: in_diffD)
next
  case (busy p s q m)
  have ok: "pool_ok (shared s)" using busy by (simp add: pool_inv_def)
  then have lst: "in_range (shared s) (lastAddedPort (shared s))" by (simp add: pool_ok_def)
  note n = nextPort_in_range [OF lst busy.hyps(2)]
  have rng: "in_range m = in_range (shared s)" by (rule ext) (simp add: in_range_def n)
  show ?case
    using busy.prems size_remove [OF busy.hyps(1)] pool_ok_nextPort [OF ok busy.hyps(2)] n rng
    by (auto simp: pool_inv_def slots_def dest: in_diffD)
next
  case (refill q s)
  then have room: "length (ports (shared s)) < capacity (shared s)"
    using size_remove [of q "drawn s"] by (auto simp: pool_inv_def slots_def)
  have "in_range (shared s) q" using refill by (simp add: pool_inv_def)
  with refill show ?case
    using size_remove [of q "drawn s"] try_send_room [OF room]
    by (auto simp: pool_inv_def slots_def pool_ok_try_send dest: in_diffD)
next
  case (give_back p s)
  then have room: "length (ports (shared s)) < capacity (shared s)"
    using size_remove [of p "leased s"] by (auto simp: pool_inv_def slots_def)
  have "in_range (shared s) p" using give_back by (simp add: pool_inv_def)
  with give_back show ?case
    using size_remove [of p "leased s"] try_send_room [OF room]
    by (auto simp: pool_inv_def slots_def pool_ok_try_send release_def dest: in_diffD)
next
  case (shut s)
  then show ?case
    by (auto simp: pool_inv_def slots_def close_pool_def pool_ok_def)
qed

interpretation pool_sys: invariant_system pool_init pool_step pool_inv
  by unfold_locales (auto intro: pool_inv_init pool_inv_step)

text \<open>C5. However the callers interleave, no port slot of an open pool is lost or
  invented: the ports in the channel, in the hands of callers and on their way add up to
  the capacity the pool was created with. So a caller that returns a port it holds always
  finds room in the channel, and the send of \<open>Release\<close> never takes its default branch.\<close>

theorem pool_slots_conserved:
  assumes "reach pool_init pool_step s" and "\<not> closed (shared s)"
  shows "slots s = capacity (shared s)
         \<and> (\<forall>p \<in># leased s. ports (release p (shared s)) = ports (shared s) @ [p])
         \<and> (\<forall>p \<in># leased s. in_range (shared s) p)"
proof -
  have inv: "pool_inv s" by (rule pool_sys.reach_inv [OF assms(1)])
  have "ports (release p (shared s)) = ports (shared s) @ [p]" if "p \<in># leased s" for p
  proof -
    have "length (ports (shared s)) < capacity (shared s)"
      using inv size_remove [OF that] by (simp add: pool_inv_def slots_def)
    with assms(2) show ?thesis by (simp add: release_def try_send_room)
  qed
  with inv assms(2) show ?thesis by (auto simp: pool_inv_def)
qed

definition example_sys :: pool_sys where
  "example_sys = \<lparr>shared = example_pool, taken = {#}, checked = {#}, drawn = {#}, leased = {#}\<rparr>"

lemma example_sys_init: "pool_init example_sys"
  using example_pool_ok by (simp add: pool_init_def example_sys_def example_pool_def)

subsection \<open>The sequential \<open>Get\<close> as a run of steps\<close>

lemma lease_run:
  assumes "ports (shared s) = p # ps" and "\<not> closed (shared s)"
  shows "pool_step\<^sup>*\<^sup>* s (s\<lparr>shared := (shared s)\<lparr>ports := ps\<rparr>, leased := add_mset p (leased s)\<rparr>)"
proof -
  let ?a = "s\<lparr>shared := (shared s)\<lparr>ports := ps\<rparr>, taken := add_mset p (taken s)\<rparr>"
  let ?b = "?a\<lparr>taken := taken s, checked := add_mset p (checked s)\<rparr>"
  have "pool_step\<^sup>*\<^sup>* s ?a" using receive [OF assms(1)] by simp
  also have "pool_step ?a ?b" using recheck [of p ?a] assms(2) by simp
  also have "pool_step ?b (s\<lparr>shared := (shared s)\<lparr>ports := ps\<rparr>, leased := add_mset p (leased s)\<rparr>)"
    using grant [of p ?b] by simp
  finally show ?thesis by simp
qed

lemma busy_run:
  assumes "ports (shared s) = p # ps" and "\<not> closed (shared s)"
  shows "pool_step\<^sup>*\<^sup>* s (s\<lparr>shared := retry (shared s)\<rparr>)"
proof -
  obtain q m where n: "nextPort ((shared s)\<lparr>ports := ps\<rparr>) = (q, m)"
    by (cases "nextPort ((shared s)\<lparr>ports := ps\<rparr>)")
  let ?a = "s\<lparr>shared := (shared s)\<lparr>ports := ps\<rparr>, taken := add_mset p (taken s)\<rparr>"
  let ?b = "?a\<lparr>taken := taken s, checked := add_mset p (checked s)\<rparr>"
  let ?c = "s\<lparr>shared := m, drawn := add_mset q (drawn s)\<rparr>"
  have "pool_step\<^sup>*\<^sup>* s ?a" using receive [OF assms(1)] by simp
  also have "pool_step ?a ?b" using recheck [of p ?a] assms(2) by simp
  also have "pool_step ?b ?c" using busy [of p ?b q m] n by simp
  also have "pool_step ?c (s\<lparr>shared := try_send q m\<rparr>)" using refill [of q ?c] by simp
  also have "try_send q m = retry (shared s)" using assms(1) n by (simp add: retry_def)
  finally show ?thesis by simp
qed

text \<open>What a call leaves of the system: the pool, and the lease of the port it returns.\<close>

definition after_get :: "pool_sys \<Rightarrow> get_result \<Rightarrow> pool \<Rightarrow> pool_sys" where
  "after_get s r m =
     (case r of GotPort p \<Rightarrow> s\<lparr>shared := m, leased := add_mset p (leased s)\<rparr> | _ \<Rightarrow> s\<lparr>shared := m\<rparr>)"

lemma after_get_shared [simp]: "after_get (s\<lparr>shared := m'\<rparr>) r m = after_get s r m"
  by (simp add: after_get_def split: get_result.split)

lemma get_loop_run:
  assumes "get_loop isFree ctx n (shared s) = Some (r, m')"
  shows "pool_step\<^sup>*\<^sup>* s (after_get s r m')"
proof -
  have "\<forall>s. shared s = shared s0 \<longrightarrow> pool_step\<^sup>*\<^sup>* s (after_get s (fst y) (snd y))"
    if "get_loop isFree ctx n (shared s0) = Some y" for y s0
  proof -
    let ?P = "\<lambda>isFree ctx n m y. \<forall>s. shared s = m \<longrightarrow> pool_step\<^sup>*\<^sup>* s (after_get s (fst y) (snd y))"
    show ?thesis
    proof (rule get_loop.raw_induct [where P = ?P, OF _ that])
      fix gl isFree ctx n m y
      assume IH: "\<And>isFree ctx n m y. gl isFree ctx n m = Some y \<Longrightarrow> ?P isFree ctx n m y"
        and eq: "(if closed m then Some (ErrClosed, m)
          else if ctx n then Some (CtxErr, m)
          else case ports m of [] \<Rightarrow> Some (Blocked, m)
               | p # ps \<Rightarrow> let m1 = m\<lparr>ports := ps\<rparr> in
                   if isFree n p then Some (GotPort p, m1)
                   else let (fresh, m2) = nextPort m1 in gl isFree ctx (Suc n) (try_send fresh m2))
          = Some y"
      show "?P isFree ctx n m y"
      proof (intro allI impI)
        fix s :: pool_sys
        assume s: "shared s = m"
        show "pool_step\<^sup>*\<^sup>* s (after_get s (fst y) (snd y))"
        proof (cases "closed m \<or> ctx n \<or> ports m = []")
          case True
          with eq have "snd y = m \<and> (fst y = ErrClosed \<or> fst y = CtxErr \<or> fst y = Blocked)"
            by (auto split: if_splits)
          with s show ?thesis by (auto simp: after_get_def)
        next
          case False
          then obtain q ps where q: "ports m = q # ps" "\<not> closed m" "\<not> ctx n" by (cases "ports m") auto
          show ?thesis
          proof (cases "isFree n q")
            case True
            with eq q have "y = (GotPort q, m\<lparr>ports := ps\<rparr>)" by simp
            with lease_run [of s q ps] q s show ?thesis by (simp add: after_get_def)
          next
            case False
            with eq q have "gl isFree ctx (Suc n) (retry m) = Some y"
              by (simp add: retry_def split_beta Let_def)
            from IH [OF this] have "pool_step\<^sup>*\<^sup>* (s\<lparr>shared := retry m\<rparr>) (after_get s (fst y) (snd y))"
              by (auto dest: spec [of _ "s\<lparr>shared := retry m\<rparr>"])
            with busy_run [of s q ps] q s show ?thesis by (simp add: rtranclp_trans)
          qed
        qed
      qed
    qed
  qed
  from this [OF assms] show ?thesis by simp
qed

lemma get_port_reach:
  assumes "reach pool_init pool_step s" and "get_port isFree ctx (shared s) = Some (r, m')"
  shows "reach pool_init pool_step (after_get s r m')"
  using reach_steps [OF get_loop_run assms(1)] assms(2) by (simp add: get_port_def)

text \<open>A lease that is given back after its use.\<close>

lemma lease_released:
  assumes "reach pool_init pool_step s" and "get_port isFree ctx (shared s) = Some (g, m1)"
  shows "reach pool_init pool_step (s\<lparr>shared := case g of GotPort p \<Rightarrow> release p m1 | _ \<Rightarrow> m1\<rparr>)"
proof -
  have at: "reach pool_init pool_step (after_get s g m1)" by (rule get_port_reach [OF assms])
  show ?thesis
  proof (cases g)
    case (GotPort p)
    let ?t = "after_get s g m1"
    have "pool_step ?t (?t\<lparr>shared := release p (shared ?t), leased := leased ?t - {#p#}\<rparr>)"
      by (rule give_back) (simp add: after_get_def GotPort)
    from reach_step [OF at this] show ?thesis by (simp add: after_get_def GotPort)
  qed (use at in \<open>simp_all add: after_get_def\<close>)
qed

text \<open>The sequential model of \<open>Get\<close> is a run of the interleaved one: whatever port a
  call returns, the same pool and lease are reached by atomic steps of a single caller.
  So the invariants of all interleavings hold for the pool that \<open>Get\<close> leaves.\<close>

theorem get_port_refines_steps:
  assumes "reach pool_init pool_step s"
    and "get_port isFree ctx (shared s) = Some (GotPort p, m')"
  shows "reach pool_init pool_step (s\<lparr>shared := m', leased := add_mset p (leased s)\<rparr>)"
  using get_port_reach [OF assms] by (simp add: after_get_def)

lemma example_lease: "get_port (\<lambda>_ _. True) (\<lambda>_. False) (shared example_sys)
    = Some (GotPort 49149, example_pool\<lparr>ports := [49150]\<rparr>)"
  by (simp add: get_port_def get_loop.simps example_sys_def example_pool_def)

theorem get_port_refines_steps_witness:
  "reach pool_init pool_step
     (example_sys\<lparr>shared := example_pool\<lparr>ports := [49150]\<rparr>, leased := {#49149#}\<rparr>)"
  using get_port_refines_steps [OF reach_init [of pool_init example_sys pool_step, OF example_sys_init]
      example_lease]
  by (simp add: example_sys_def)

definition leased_sys :: pool_sys where
  "leased_sys = \<lparr>shared = example_pool\<lparr>ports := [49150]\<rparr>, taken = {#}, checked = {#},
                 drawn = {#}, leased = {#49149#}\<rparr>"

lemma leased_sys_reach: "reach pool_init pool_step leased_sys"
  using reach_steps [OF lease_run [of example_sys 49149 "[49150]"]
      reach_init [of pool_init example_sys pool_step, OF example_sys_init]]
  by (simp add: example_sys_def leased_sys_def example_pool_def)

theorem pool_slots_conserved_witness:
  "slots leased_sys = 2 \<and> ports (release 49149 (shared leased_sys)) = [49150, 49149]"
  using pool_slots_conserved [OF leased_sys_reach]
  by (simp add: leased_sys_def example_pool_def)

text \<open>A lease is not exclusive. Once \<open>nextPort\<close> wraps to \<open>startPort\<close> it hands out a
  port that a caller still holds: two busy ports are enough in a pool of two at the end
  of the range. The probe does not prevent it, since a port is busy for the operating
  system only after its holder has opened it.\<close>

theorem port_leased_twice:
  "\<exists>s. reach pool_init pool_step s \<and> pool_ok (shared s) \<and> leased s = {#49149, 49149#}"
proof -
  let ?s2 = "leased_sys\<lparr>shared := retry (shared leased_sys)\<rparr>"
  let ?s3 = "?s2\<lparr>shared := retry (shared ?s2)\<rparr>"
  note d = leased_sys_def example_pool_def retry_def nextPort_def try_send_def ephemeralPort_def
  have p1: "ports (shared leased_sys) = [49150]" "\<not> closed (shared leased_sys)" by (simp_all add: d)
  have p2: "ports (shared ?s2) = [49151]" "\<not> closed (shared ?s2)" by (simp_all add: d)
  have p3: "ports (shared ?s3) = [49149]" "\<not> closed (shared ?s3)" by (simp_all add: d)
  have "reach pool_init pool_step ?s3"
    using reach_steps [OF busy_run [OF p2] reach_steps [OF busy_run [OF p1] leased_sys_reach]] .
  from reach_steps [OF lease_run [OF p3] this]
  have r: "reach pool_init pool_step
     (?s3\<lparr>shared := (shared ?s3)\<lparr>ports := []\<rparr>, leased := add_mset 49149 (leased ?s3)\<rparr>)"
    by simp
  have "pool_ok (shared (?s3\<lparr>shared := (shared ?s3)\<lparr>ports := []\<rparr>,
     leased := add_mset 49149 (leased ?s3)\<rparr>))"
    using pool_sys.reach_inv [OF r] unfolding pool_inv_def by (rule conjunct1)
  moreover have "leased (?s3\<lparr>shared := (shared ?s3)\<lparr>ports := []\<rparr>,
     leased := add_mset 49149 (leased ?s3)\<rparr>) = {#49149, 49149#}"
    by (simp add: leased_sys_def)
  ultimately show ?thesis using r by blast
qed

end
