(* ===== verification/PauseControl.thy ===== *)
theory PauseControl
  imports Transitions
begin

text \<open>
  The pause controller, \<open>internal/core/scanner/engine/pause.go\<close>. A channel is a number,
  and closing one that is closed already is Go's panic. The operations come first as
  whole calls at a point in time (nanoseconds), against a specification of how long the
  scan has been paused; then \<open>Pause\<close> and \<open>Resume\<close> are split at the point between their
  compare-and-swap and their critical section, as concurrent callers can interleave.
\<close>

record pause_ctl =
  isPaused :: bool
  resumeCh :: nat
  freshCh :: nat
  closedChs :: "nat list"
  pausedAt :: "int option"
  totalPauseNs :: int
  stopOnce :: bool
  doneClosed :: bool

definition NewPauseController :: pause_ctl where
  "NewPauseController =
     \<lparr>isPaused = False, resumeCh = 0, freshCh = 1, closedChs = [], pausedAt = None,
      totalPauseNs = 0, stopOnce = False, doneClosed = False\<rparr>"

text \<open>The critical sections of \<open>Pause\<close> and \<open>Resume\<close>; \<open>None\<close> is the panic.\<close>

definition pause_locked :: "int \<Rightarrow> pause_ctl \<Rightarrow> pause_ctl" where
  "pause_locked t p =
     p\<lparr>pausedAt := Some t, resumeCh := freshCh p, freshCh := Suc (freshCh p)\<rparr>"

definition resume_locked :: "int \<Rightarrow> pause_ctl \<Rightarrow> pause_ctl option" where
  "resume_locked t p =
     (let p1 = (case pausedAt p of
                  None \<Rightarrow> p
                | Some a \<Rightarrow> p\<lparr>totalPauseNs := wrap64 (totalPauseNs p + (t - a)), pausedAt := None\<rparr>)
      in if resumeCh p1 \<in> set (closedChs p1) then None
         else Some (p1\<lparr>closedChs := resumeCh p1 # closedChs p1\<rparr>))"

definition Pause :: "int \<Rightarrow> pause_ctl \<Rightarrow> pause_ctl" where
  "Pause t p = (if isPaused p then p else pause_locked t (p\<lparr>isPaused := True\<rparr>))"

definition Resume :: "int \<Rightarrow> pause_ctl \<Rightarrow> pause_ctl option" where
  "Resume t p = (if \<not> isPaused p then Some p else resume_locked t (p\<lparr>isPaused := False\<rparr>))"

definition Stop :: "int \<Rightarrow> pause_ctl \<Rightarrow> pause_ctl option" where
  "Stop t p =
     (if stopOnce p then Some p
      else map_option (\<lambda>q. q\<lparr>doneClosed := True\<rparr>) (Resume t (p\<lparr>stopOnce := True\<rparr>)))"

definition IsPaused :: "pause_ctl \<Rightarrow> bool" where
  "IsPaused p = isPaused p"

definition PausedDuration :: "int \<Rightarrow> pause_ctl \<Rightarrow> int" where
  "PausedDuration t p =
     (case pausedAt p of None \<Rightarrow> totalPauseNs p
      | Some a \<Rightarrow> wrap64 (totalPauseNs p + (t - a)))"

text \<open>
  \<open>Wait\<close> at one moment: \<open>Some b\<close> when a branch of its select is ready, and \<open>None\<close>
  while it blocks. Where several branches are ready they all give the same answer.
\<close>

definition Wait :: "bool \<Rightarrow> pause_ctl \<Rightarrow> bool option" where
  "Wait ctx_done p =
     (if \<not> isPaused p then Some (\<not> (ctx_done \<or> doneClosed p))
      else if ctx_done then Some False
      else if doneClosed p then Some False
      else if resumeCh p \<in> set (closedChs p) then Some True
      else None)"

subsection \<open>Whole calls, one after another\<close>

datatype pause_op = OpPause | OpResume | OpStop

fun pause_apply :: "int \<Rightarrow> pause_op \<Rightarrow> pause_ctl \<Rightarrow> pause_ctl option" where
  "pause_apply t OpPause p = Some (Pause t p)"
| "pause_apply t OpResume p = Resume t p"
| "pause_apply t OpStop p = Stop t p"

fun pause_run :: "(int \<times> pause_op) list \<Rightarrow> pause_ctl \<Rightarrow> pause_ctl option" where
  "pause_run [] p = Some p"
| "pause_run ((t, e) # es) p = Option.bind (pause_apply t e p) (pause_run es)"

text \<open>The specification: is the scan paused after an operation, and for how long was it.\<close>

fun spec_next :: "pause_op \<Rightarrow> bool \<times> bool \<Rightarrow> bool \<times> bool" where
  "spec_next OpPause (b, s) = (True, s)"
| "spec_next OpResume (b, s) = (False, s)"
| "spec_next OpStop (b, s) = (if s then b else False, True)"

fun spec_state :: "(int \<times> pause_op) list \<Rightarrow> bool \<times> bool \<Rightarrow> bool \<times> bool" where
  "spec_state [] bs = bs"
| "spec_state ((t, e) # es) bs = spec_state es (spec_next e bs)"

fun paused_time :: "int \<Rightarrow> (int \<times> pause_op) list \<Rightarrow> bool \<times> bool \<Rightarrow> int \<Rightarrow> int" where
  "paused_time prev [] bs now = (if fst bs then now - prev else 0)"
| "paused_time prev ((t, e) # es) bs now =
     (if fst bs then t - prev else 0) + paused_time t es (spec_next e bs) now"

fun times_ok :: "int \<Rightarrow> (int \<times> pause_op) list \<Rightarrow> int \<Rightarrow> bool" where
  "times_ok prev [] now \<longleftrightarrow> prev \<le> now"
| "times_ok prev ((t, e) # es) now \<longleftrightarrow> prev \<le> t \<and> times_ok t es now"

text \<open>What whole calls keep true: the channel is open exactly as long as the pause lasts.\<close>

definition pause_inv :: "pause_ctl \<Rightarrow> bool" where
  "pause_inv p \<longleftrightarrow>
     resumeCh p < freshCh p \<and> (\<forall>c \<in> set (closedChs p). c < freshCh p)
     \<and> (isPaused p \<longleftrightarrow> pausedAt p \<noteq> None)
     \<and> (isPaused p \<longrightarrow> resumeCh p \<notin> set (closedChs p))
     \<and> (stopOnce p \<longleftrightarrow> doneClosed p)"

lemma pause_inv_new: "pause_inv NewPauseController"
  by (simp add: pause_inv_def NewPauseController_def)

lemma pause_inv_Pause: "pause_inv p \<Longrightarrow> pause_inv (Pause t p)"
  by (auto simp: pause_inv_def Pause_def pause_locked_def)

lemma Resume_paused:
  assumes "pause_inv p" and "isPaused p" and "pausedAt p = Some a"
  shows "Resume t p = Some (p\<lparr>isPaused := False, totalPauseNs := wrap64 (totalPauseNs p + (t - a)),
            pausedAt := None, closedChs := resumeCh p # closedChs p\<rparr>)"
  using assms by (simp add: Resume_def resume_locked_def pause_inv_def)

lemma Resume_running: "\<not> isPaused p \<Longrightarrow> Resume t p = Some p"
  by (simp add: Resume_def)

lemma Resume_total:
  assumes "pause_inv p"
  shows "\<exists>q. Resume t p = Some q \<and> pause_inv q \<and> \<not> isPaused q \<and> stopOnce q = stopOnce p"
proof (cases "isPaused p")
  case True
  with assms obtain a where a: "pausedAt p = Some a" by (auto simp: pause_inv_def)
  from Resume_paused [OF assms True a] assms show ?thesis
    by (auto simp: pause_inv_def)
qed (use assms in \<open>simp add: Resume_running\<close>)

lemma Stop_total:
  assumes "pause_inv p"
  shows "\<exists>q. Stop t p = Some q \<and> pause_inv q"
proof (cases "stopOnce p")
  case False
  have eq: "Resume t (p\<lparr>stopOnce := True\<rparr>) = map_option (\<lambda>q. q\<lparr>stopOnce := True\<rparr>) (Resume t p)"
    by (auto simp: Resume_def resume_locked_def Let_def split: option.splits)
  obtain q where "Resume t p = Some q" "pause_inv q" "stopOnce q = stopOnce p"
    using Resume_total [OF assms] by blast
  with False eq show ?thesis by (simp add: Stop_def pause_inv_def)
qed (use assms in \<open>simp add: Stop_def\<close>)

text \<open>How one operation moves the controller along the specification.\<close>

definition pause_abs :: "pause_ctl \<Rightarrow> bool \<times> bool" where
  "pause_abs p = (isPaused p, stopOnce p)"

text \<open>The time of the pause so far at \<open>now\<close>, without the width of the counter.\<close>

definition elapsed :: "int \<Rightarrow> pause_ctl \<Rightarrow> int" where
  "elapsed now p =
     totalPauseNs p + (case pausedAt p of None \<Rightarrow> 0 | Some a \<Rightarrow> now - a)"

definition clock_ok :: "int \<Rightarrow> pause_ctl \<Rightarrow> bool" where
  "clock_ok t p \<longleftrightarrow> 0 \<le> totalPauseNs p \<and> 0 \<le> elapsed t p \<and> elapsed t p \<le> t
                    \<and> (\<forall>a. pausedAt p = Some a \<longrightarrow> a \<le> t)"

lemma clock_ok_later: "clock_ok t p \<Longrightarrow> t \<le> t' \<Longrightarrow> clock_ok t' p"
  by (auto simp: clock_ok_def elapsed_def split: option.splits)

lemma pause_apply_spec:
  assumes "pause_inv p" and "clock_ok t p" and "t < 2 ^ 63"
  shows "\<exists>q. pause_apply t e p = Some q \<and> pause_inv q \<and> pause_abs q = spec_next e (pause_abs p)
             \<and> clock_ok t q \<and> elapsed t q = elapsed t p"
proof -
  have resume: "\<exists>q. Resume t p = Some q \<and> pause_inv q \<and> isPaused q = False \<and> stopOnce q = stopOnce p
      \<and> doneClosed q = doneClosed p \<and> clock_ok t q \<and> elapsed t q = elapsed t p"
    if "pause_inv p" "clock_ok t p" for p
  proof (cases "isPaused p")
    case True
    with that(1) obtain a where a: "pausedAt p = Some a" by (auto simp: pause_inv_def)
    with that(2) assms(3) have "in_int64 (totalPauseNs p + (t - a))"
      by (simp add: clock_ok_def elapsed_def in_int64_def)
    with Resume_paused [OF that(1) True a, of t] that a show ?thesis
      by (auto simp: pause_inv_def clock_ok_def elapsed_def)
  qed (use that in \<open>simp add: Resume_running\<close>)
  show ?thesis
  proof (cases e)
    case OpPause
    with assms show ?thesis
      by (auto simp: Pause_def pause_locked_def pause_abs_def pause_inv_def clock_ok_def elapsed_def)
  next
    case OpResume
    with resume [OF assms(1,2)] show ?thesis by (auto simp: pause_abs_def)
  next
    case OpStop
    show ?thesis
    proof (cases "stopOnce p")
      case True
      with OpStop assms show ?thesis by (simp add: Stop_def pause_abs_def)
    next
      case False
      have eq: "Resume t (p\<lparr>stopOnce := True\<rparr>) = map_option (\<lambda>q. q\<lparr>stopOnce := True\<rparr>) (Resume t p)"
        by (auto simp: Resume_def resume_locked_def Let_def split: option.splits)
      with False OpStop resume [OF assms(1,2)] show ?thesis
        by (auto simp: Stop_def pause_abs_def pause_inv_def clock_ok_def elapsed_def)
    qed
  qed
qed

lemma times_ok_le: "times_ok prev es now \<Longrightarrow> prev \<le> now"
proof (induction es arbitrary: prev)
  case (Cons x es)
  obtain t e where "x = (t, e)" by (cases x)
  with Cons show ?case by force
qed simp

lemma pause_run_spec:
  assumes "pause_inv p" and "clock_ok prev p" and "times_ok prev es now" and "now < 2 ^ 63"
  shows "\<exists>q. pause_run es p = Some q \<and> pause_inv q \<and> pause_abs q = spec_state es (pause_abs p)
             \<and> clock_ok now q
             \<and> elapsed now q = elapsed prev p + paused_time prev es (pause_abs p) now"
  using assms
proof (induction es arbitrary: p prev)
  case Nil
  then have "clock_ok now p" by (simp add: clock_ok_later)
  with Nil show ?case
    by (auto simp: pause_abs_def pause_inv_def elapsed_def split: option.splits)
next
  case (Cons x es)
  obtain t e where x: "x = (t, e)" by (cases x)
  have le: "prev \<le> t" and rest: "times_ok t es now" using Cons.prems(3) x by auto
  have mono: "t \<le> now" by (rule times_ok_le [OF rest])
  have c: "clock_ok t p" using clock_ok_later [OF Cons.prems(2) le] .
  have "t < 2 ^ 63" using mono Cons.prems(4) by simp
  then obtain q where q: "pause_apply t e p = Some q" "pause_inv q" "pause_abs q = spec_next e (pause_abs p)"
      "clock_ok t q" "elapsed t q = elapsed t p"
    using pause_apply_spec [OF Cons.prems(1) c] by blast
  have "elapsed t p = elapsed prev p + (if isPaused p then t - prev else 0)"
    using Cons.prems(1) by (auto simp: elapsed_def pause_inv_def split: option.splits)
  with Cons.IH [OF q(2,4) rest Cons.prems(4)] q x show ?case
    by (auto simp: pause_abs_def)
qed

lemma PausedDuration_elapsed: "clock_ok t p \<Longrightarrow> t < 2 ^ 63 \<Longrightarrow> PausedDuration t p = elapsed t p"
  by (auto simp: PausedDuration_def elapsed_def clock_ok_def in_int64_def split: option.splits)

text \<open>C3. Any sequence of whole calls of \<open>Pause\<close>, \<open>Resume\<close> and \<open>Stop\<close> on a new
  controller, at non-decreasing times, runs without a panic: no channel is closed twice.
  Afterwards \<open>IsPaused\<close> is what the last effective call asked for, and \<open>PausedDuration\<close>
  is exactly the time that lay between a pause and the resume that ended it, redundant
  calls included.\<close>

theorem pause_calls_measure_paused_time:
  assumes "0 \<le> t0" and "times_ok t0 es now" and "now < 2 ^ 63"
  shows "\<exists>p. pause_run es NewPauseController = Some p
             \<and> IsPaused p = fst (spec_state es (False, False))
             \<and> PausedDuration now p = paused_time t0 es (False, False) now"
proof -
  have c: "clock_ok t0 NewPauseController"
    using assms(1) by (simp add: clock_ok_def elapsed_def NewPauseController_def)
  have z: "elapsed t0 NewPauseController = 0" "pause_abs NewPauseController = (False, False)"
    by (simp_all add: elapsed_def pause_abs_def NewPauseController_def)
  obtain p where p: "pause_run es NewPauseController = Some p" "clock_ok now p"
      "pause_abs p = spec_state es (False, False)"
      "elapsed now p = paused_time t0 es (False, False) now"
    using pause_run_spec [OF pause_inv_new c assms(2,3)] z by auto
  then show ?thesis
    using PausedDuration_elapsed [OF p(2) assms(3)]
    by (auto simp: IsPaused_def pause_abs_def intro!: exI [of _ p] dest: arg_cong [of _ _ fst])
qed

theorem pause_calls_measure_paused_time_witness:
  "\<exists>p. pause_run [(10, OpPause), (15, OpPause), (30, OpResume), (40, OpPause)] NewPauseController = Some p
       \<and> IsPaused p \<and> PausedDuration 45 p = 25"
  using pause_calls_measure_paused_time
    [of 0 "[(10, OpPause), (15, OpPause), (30, OpResume), (40, OpPause)]" 45]
  by simp

text \<open>\<open>Stop\<close> ends every wait: after a run of whole calls that contains a \<open>Stop\<close>, a
  worker in \<open>Wait\<close> is never blocked and always told to give up, whether the scan was
  paused before or is paused again later, and whatever its context says.\<close>

theorem wait_after_stop:
  assumes "pause_run es NewPauseController = Some p" and "OpStop \<in> snd ` set es"
  shows "Wait ctx_done p = Some False"
proof -
  have step: "pause_apply t e p = Some q \<Longrightarrow> doneClosed p \<Longrightarrow> doneClosed q" for t e p q
    by (cases e)
      (auto simp: Pause_def pause_locked_def Resume_def Stop_def resume_locked_def Let_def
            split: if_splits option.splits)
  have keep: "pause_run es p = Some q \<Longrightarrow> doneClosed p \<Longrightarrow> doneClosed q" for es p q
    by (induction es arbitrary: p) (auto simp: bind_eq_Some_conv, metis step)
  have inv: "pause_apply t e p = Some q \<Longrightarrow> pause_inv p \<Longrightarrow> pause_inv q" for t e p q
    using Resume_total [of p t] Stop_total [of p t] by (cases e) (auto intro: pause_inv_Pause)
  have stop: "Stop t p = Some q \<Longrightarrow> pause_inv p \<Longrightarrow> doneClosed q" for t p q
    by (auto simp: Stop_def pause_inv_def split: if_splits)
  have "pause_run es p = Some q \<Longrightarrow> pause_inv p \<Longrightarrow> OpStop \<in> snd ` set es \<Longrightarrow> doneClosed q" for p q
  proof (induction es arbitrary: p)
    case (Cons x es)
    obtain t e where x: "x = (t, e)" by (cases x)
    with Cons.prems obtain r where r: "pause_apply t e p = Some r" "pause_run es r = Some q"
      by (auto simp: bind_eq_Some_conv)
    show ?case
    proof (cases "OpStop \<in> snd ` set es")
      case True
      with Cons.IH r inv Cons.prems show ?thesis by blast
    next
      case False
      with Cons.prems x have "e = OpStop" by auto
      with r stop Cons.prems keep show ?thesis by auto
    qed
  qed simp
  with assms pause_inv_new have "doneClosed p" by blast
  then show ?thesis by (simp add: Wait_def)
qed

theorem wait_after_stop_witness:
  "\<exists>p. pause_run [(1, OpStop), (2, OpPause)] NewPauseController = Some p \<and> isPaused p
       \<and> Wait False p = Some False"
proof -
  have "\<exists>p. pause_run [(1, OpStop), (2, OpPause)] NewPauseController = Some p \<and> isPaused p"
    by (simp add: Stop_def Resume_def NewPauseController_def Pause_def pause_locked_def)
  then show ?thesis
    using wait_after_stop [of "[(1, OpStop), (2, OpPause)]"] by auto
qed

subsection \<open>Interleaved calls\<close>

text \<open>
  \<open>isPaused\<close> changes before the mutex is taken, so a call in progress is one of two
  kinds: past the compare-and-swap of \<open>Pause\<close>, or past that of \<open>Resume\<close>. The steps are
  the two halves of each call, by any number of goroutines, at any time \<open>t\<close>.
\<close>

record pause_sys =
  ctl :: pause_ctl
  inPause :: nat
  inResume :: nat
  panicked :: bool

definition pause_sys_init :: "pause_sys \<Rightarrow> bool" where
  "pause_sys_init s \<longleftrightarrow>
     ctl s = NewPauseController \<and> inPause s = 0 \<and> inResume s = 0 \<and> \<not> panicked s"

inductive pause_step :: "pause_sys \<Rightarrow> pause_sys \<Rightarrow> bool" where
  pause_cas: "\<not> isPaused (ctl s) \<Longrightarrow>
     pause_step s (s\<lparr>ctl := (ctl s)\<lparr>isPaused := True\<rparr>, inPause := Suc (inPause s)\<rparr>)"
| pause_lock: "inPause s = Suc n \<Longrightarrow>
     pause_step s (s\<lparr>ctl := pause_locked t (ctl s), inPause := n\<rparr>)"
| resume_cas: "isPaused (ctl s) \<Longrightarrow>
     pause_step s (s\<lparr>ctl := (ctl s)\<lparr>isPaused := False\<rparr>, inResume := Suc (inResume s)\<rparr>)"
| resume_lock: "inResume s = Suc n \<Longrightarrow> resume_locked t (ctl s) = Some c \<Longrightarrow>
     pause_step s (s\<lparr>ctl := c, inResume := n\<rparr>)"
| resume_panic: "inResume s = Suc n \<Longrightarrow> resume_locked t (ctl s) = None \<Longrightarrow>
     pause_step s (s\<lparr>panicked := True, inResume := n\<rparr>)"

text \<open>The two halves of one call, run without a step in between, are the whole call.\<close>

lemma Pause_two_halves:
  assumes "\<not> isPaused (ctl s)"
  shows "pause_step\<^sup>*\<^sup>* s (s\<lparr>ctl := Pause t (ctl s)\<rparr>)"
proof -
  let ?a = "s\<lparr>ctl := (ctl s)\<lparr>isPaused := True\<rparr>, inPause := Suc (inPause s)\<rparr>"
  have "pause_step\<^sup>*\<^sup>* s ?a" using pause_cas [OF assms] by simp
  also have "pause_step ?a (s\<lparr>ctl := Pause t (ctl s)\<rparr>)"
    using pause_lock [of ?a "inPause s" t] assms by (simp add: Pause_def)
  finally show ?thesis .
qed

lemma Resume_two_halves:
  assumes "isPaused (ctl s)" and "Resume t (ctl s) = Some c"
  shows "pause_step\<^sup>*\<^sup>* s (s\<lparr>ctl := c\<rparr>)"
proof -
  let ?a = "s\<lparr>ctl := (ctl s)\<lparr>isPaused := False\<rparr>, inResume := Suc (inResume s)\<rparr>"
  have "pause_step\<^sup>*\<^sup>* s ?a" using resume_cas [OF assms(1)] by simp
  also have "pause_step ?a (s\<lparr>ctl := c\<rparr>)"
    using resume_lock [of ?a "inResume s" t c] assms by (simp add: Resume_def)
  finally show ?thesis .
qed

definition pause_start :: pause_sys where
  "pause_start = \<lparr>ctl = NewPauseController, inPause = 0, inResume = 0, panicked = False\<rparr>"

text \<open>Concurrent callers can crash the controller. After one complete pause and resume,
  a second \<open>Pause\<close> that has swapped \<open>isPaused\<close> but not yet taken the mutex can be
  overtaken by a \<open>Resume\<close>, which then closes the channel of the first pause again: a
  panic.\<close>

theorem pause_race_panics:
  "\<exists>s. reach pause_sys_init pause_step s \<and> panicked s"
proof -
  note d = pause_start_def NewPauseController_def Pause_def pause_locked_def
  have r0: "reach pause_sys_init pause_step pause_start"
    by (rule reach_init) (simp add: pause_sys_init_def pause_start_def)
  let ?s1 = "pause_start\<lparr>ctl := Pause 0 (ctl pause_start)\<rparr>"
  have r1: "reach pause_sys_init pause_step ?s1"
    by (rule reach_steps [OF Pause_two_halves r0]) (simp add: d)
  obtain c where c: "Resume 1 (ctl ?s1) = Some c" and cc: "\<not> isPaused c" "resumeCh c \<in> set (closedChs c)"
    by (simp add: d Resume_def resume_locked_def)
  let ?s2 = "?s1\<lparr>ctl := c\<rparr>"
  have r2: "reach pause_sys_init pause_step ?s2"
    by (rule reach_steps [OF Resume_two_halves [OF _ c] r1]) (simp add: d)
  let ?s3 = "?s2\<lparr>ctl := c\<lparr>isPaused := True\<rparr>, inPause := 1\<rparr>"
  have "pause_step ?s2 ?s3" using pause_cas [of ?s2] cc by (simp add: pause_start_def)
  then have r3: "reach pause_sys_init pause_step ?s3" by (rule reach_step [OF r2])
  let ?s4 = "?s3\<lparr>ctl := c\<lparr>isPaused := False\<rparr>, inResume := 1\<rparr>"
  have "pause_step ?s3 ?s4" using resume_cas [of ?s3] by (simp add: pause_start_def)
  then have r4: "reach pause_sys_init pause_step ?s4" by (rule reach_step [OF r3])
  have "resume_locked 2 (ctl ?s4) = None"
    using cc by (simp add: resume_locked_def Let_def split: option.splits)
  then have "pause_step ?s4 (?s4\<lparr>panicked := True, inResume := 0\<rparr>)"
    using resume_panic [of ?s4 0 2] by simp
  then have "reach pause_sys_init pause_step (?s4\<lparr>panicked := True, inResume := 0\<rparr>)"
    by (rule reach_step [OF r4])
  moreover have "panicked (?s4\<lparr>panicked := True, inResume := 0\<rparr>)" by simp
  ultimately show ?thesis by blast
qed

end
