(* ===== verification/ScannerLife.thy ===== *)
theory ScannerLife
  imports ScanSetup PortManager PauseControl
begin

text \<open>
  The scanner of \<open>internal/core/scanner/scanner.go\<close>: its construction, the operations before a scan, and
  the life of a scan as a step relation in which any number of goroutines call \<open>Run\<close> while one calls
  \<open>Close\<close> and others pause and resume; and \<open>createScanner\<close> of the scan menu
  (\<open>internal/ui/components/menus/scantype/model.go\<close>), which builds every scanner of the program. The
  stages are those of \<open>ScanBuilder\<close>, the configuration that of \<open>ScanSetup\<close>, the ports those of
  \<open>PortManager\<close> and the pausing that of \<open>PauseControl\<close>.
\<close>

subsection \<open>Construction\<close>

record 'h scanner =
  ScConfig :: ScannerConfig
  ScCancelled :: bool
  ScStarted :: bool
  ScClosed :: bool
  ScStages :: "'h StageConfig list"
  ScPause :: pause_ctl
  ScPool :: pool
  ScWg :: nat

text \<open>\<open>initPortManager\<close> with the number that \<open>rand.Intn\<close> returns; the outer option is its panic.\<close>

definition initPortManager :: "nat \<Rightarrow> (go_err + pool) option" where
  "initPortManager r =
     map_option (\<lambda>base. case new_pool base 3000 of None \<Rightarrow> Inl [Plain 20] | Some p \<Rightarrow> Inr p)
       (RandomBase 3000 r)"

text \<open>What a scanner takes from its surroundings: whether the caller's context is cancelled, the platform
  and tier and the host of the default URL (\<open>NormalizeAll\<close>), the settings on disk, the random number,
  and the error with which the Slipstream library fails to load.\<close>

record host_env =
  ParentDone :: bool
  HostPlatform :: platform
  HostTier :: tier
  HostName :: "string \<Rightarrow> string option"
  OnDisk :: "go_err + ScannerConfig"
  Rand :: nat
  SlipLoad :: "go_err option"

definition loadConfig :: "host_env \<Rightarrow> ScannerConfig option \<Rightarrow> go_err + ScannerConfig" where
  "loadConfig h given =
     (let norm = (\<lambda>c. Inr (fst (NormalizeAll (HostName h) (HostPlatform h) (HostTier h) c)))
      in case given of
           Some c \<Rightarrow> norm c
         | None \<Rightarrow> (case OnDisk h of Inl err \<Rightarrow> Inl (wrap_err (Some err)) | Inr c \<Rightarrow> norm c))"

definition NewScanner :: "host_env \<Rightarrow> ScannerConfig option \<Rightarrow> (go_err + 'h scanner) option" where
  "NewScanner h given =
     (case loadConfig h given of
        Inl err \<Rightarrow> Some (Inl (wrap_err (Some err)))
      | Inr cfg \<Rightarrow>
          (case initPortManager (Rand h) of
             None \<Rightarrow> None
           | Some (Inl err) \<Rightarrow> Some (Inl (wrap_err (Some err)))
           | Some (Inr p) \<Rightarrow>
               (case SlipLoad h of
                  Some err \<Rightarrow> Some (Inl (wrap_err (Some err)))
                | None \<Rightarrow>
                    Some (Inr \<lparr>ScConfig = cfg, ScCancelled = ParentDone h, ScStarted = False,
                               ScClosed = False, ScStages = [], ScPause = NewPauseController,
                               ScPool = p, ScWg = 0\<rparr>))))"

subsection \<open>Before the scan\<close>

definition GetStages :: "'h scanner \<Rightarrow> 'h StageConfig list" where
  "GetStages s = ScStages s"

definition AddStage :: "'h StageConfig \<Rightarrow> 'h scanner \<Rightarrow> go_err option \<times> 'h scanner" where
  "AddStage st s =
     (if ScStarted s then (Some [Plain 21], s)
      else if ScClosed s then (Some [Plain 22], s)
      else (None, s\<lparr>ScStages := ScStages s @ [st]\<rparr>))"

definition AddHooks :: "'h option \<Rightarrow> 'h StageConfig \<Rightarrow> 'h StageConfig" where
  "AddHooks hooks st = st\<lparr>StHooks := hooks\<rparr>"

definition UpdateStageHooks :: "int \<Rightarrow> 'h option \<Rightarrow> 'h scanner \<Rightarrow> go_err option \<times> 'h scanner" where
  "UpdateStageHooks i hooks s =
     (if ScStarted s \<or> ScClosed s then (Some [Plain 23], s)
      else if i < 0 \<or> int (length (ScStages s)) \<le> i then (Some [Plain 24], s)
      else (None, s\<lparr>ScStages := (ScStages s)[nat i := (ScStages s ! nat i)\<lparr>StHooks := hooks\<rparr>]\<rparr>))"

text \<open>The checks of \<open>Run\<close> before it tries to start.\<close>

definition run_checks :: "'h scanner \<Rightarrow> go_err option" where
  "run_checks s =
     (if ScClosed s then Some [Plain 22]
      else if ScStarted s then Some [Plain 25]
      else if ScCancelled s then Some (wrap_err (Some [Canceled]))
      else if ScStages s = [] then Some [Plain 26]
      else None)"

text \<open>\<open>Close\<close> with no \<open>Run\<close> beside it: nothing to wait for.\<close>

definition close_idle :: "int \<Rightarrow> 'h scanner \<Rightarrow> 'h scanner option" where
  "close_idle t s =
     map_option (\<lambda>p. s\<lparr>ScClosed := True, ScCancelled := True, ScPause := p, ScPool := close_pool (ScPool s)\<rparr>)
       (Stop t (ScPause s))"

subsection \<open>The scan menu\<close>

datatype ScanType = ICMPScan | TCPScan | HTTPScan | XRAYScan | DNSResolveScan | DNSTun

fun AddStages :: "'h StageConfig list \<Rightarrow> 'h scanner \<Rightarrow> go_err option \<times> 'h scanner" where
  "AddStages [] s = (None, s)"
| "AddStages (st # sts) s =
     (case AddStage st s of (Some err, s1) \<Rightarrow> (Some err, s1) | (None, s1) \<Rightarrow> AddStages sts s1)"

text \<open>An error of the set-up with the scanner as it is left behind, or the scanner to run. \<open>None\<close> is a
  panic.\<close>

type_synonym 'h scan_setup = "((go_err \<times> 'h scanner option) + 'h scanner) option"

definition add_or_fail :: "'h StageConfig list \<Rightarrow> 'h scanner \<Rightarrow> 'h scan_setup" where
  "add_or_fail sts s =
     (case AddStages sts s of
        (Some err, s1) \<Rightarrow> Some (Inl (err, Some s1)) | (None, s1) \<Rightarrow> Some (Inr s1))"

definition close_and_fail :: "int \<Rightarrow> go_err \<Rightarrow> 'h scanner \<Rightarrow> 'h scan_setup" where
  "close_and_fail t err s = map_option (\<lambda>s1. Inl (err, Some s1)) (close_idle t s)"

definition buildStage :: "scan_env \<Rightarrow> ScannerConfig \<Rightarrow> ScanType \<Rightarrow> go_err + 'h StageConfig" where
  "buildStage env cfg mode =
     (case mode of
        TCPScan \<Rightarrow> BuildTCPStage env cfg []
      | ICMPScan \<Rightarrow> BuildICMPStage env cfg []
      | HTTPScan \<Rightarrow> BuildHTTPStage env cfg []
      | _ \<Rightarrow> Inl [Plain 30])"

definition buildResolveScanner :: "int \<Rightarrow> scan_env \<Rightarrow> 'h scanner \<Rightarrow> 'h scan_setup" where
  "buildResolveScanner t env s =
     (case BuildResolveStage env (ScConfig s) [] of
        Inl err \<Rightarrow> close_and_fail t err s
      | Inr st \<Rightarrow> add_or_fail [st] s)"

definition buildXrayScanner :: "int \<Rightarrow> scan_env \<Rightarrow> string \<Rightarrow> 'h scanner \<Rightarrow> 'h scan_setup" where
  "buildXrayScanner t env template s =
     (case BuildXrayStage env (ScConfig s) template [] of
        Inl err \<Rightarrow> close_and_fail t (wrap_err (Some err)) s
      | Inr sts \<Rightarrow> add_or_fail sts s)"

definition tunnel_builder ::
  "scan_env \<Rightarrow> ScannerConfig \<Rightarrow> string \<Rightarrow> string \<Rightarrow> go_err + 'h StageConfig list" where
  "tunnel_builder env cfg protocol name =
     (if protocol = ''dnstt'' then map_sum (\<lambda>e. wrap_err (Some e)) id (BuildDNSTTStage env cfg name [])
      else if protocol = ''vaydns'' then map_sum (\<lambda>e. wrap_err (Some e)) id (BuildVayDNSStage env cfg name [])
      else if protocol = ''slipstream'' then map_sum (\<lambda>e. wrap_err (Some e)) id (BuildSlipStreamStage env cfg name [])
      else if protocol = ''thefeed'' then map_sum (\<lambda>e. wrap_err (Some e)) id (BuildTheFeedStage env cfg name [])
      else if protocol = ''masterdns'' then map_sum (\<lambda>e. wrap_err (Some e)) id (BuildMasterDNSStage env cfg name [])
      else if protocol = ''stormdns'' then map_sum (\<lambda>e. wrap_err (Some e)) id (BuildStormDNSStage env cfg name [])
      else Inl [Plain 31])"

definition buildDNSTunScanner :: "scan_env \<Rightarrow> string \<Rightarrow> string \<Rightarrow> 'h scanner \<Rightarrow> 'h scan_setup" where
  "buildDNSTunScanner env protocol name s =
     (case tunnel_builder env (ScConfig s) protocol name of
        Inl err \<Rightarrow> Some (Inl (err, Some s))
      | Inr sts \<Rightarrow> add_or_fail sts s)"

definition createScanner ::
  "host_env \<Rightarrow> scan_env \<Rightarrow> int \<Rightarrow> ScannerConfig \<Rightarrow> string \<Rightarrow> string \<times> string \<Rightarrow> ScanType \<Rightarrow> 'h scan_setup" where
  "createScanner h env t cfg template tun mode =
     (case NewScanner h (Some cfg) of
        None \<Rightarrow> None
      | Some (Inl err) \<Rightarrow> Some (Inl (err, None))
      | Some (Inr s) \<Rightarrow>
          (case mode of
             XRAYScan \<Rightarrow> buildXrayScanner t env template s
           | DNSResolveScan \<Rightarrow> buildResolveScanner t env s
           | DNSTun \<Rightarrow> buildDNSTunScanner env (fst tun) (snd tun) s
           | _ \<Rightarrow> (case buildStage env (ScConfig s) mode of
                     Inl err \<Rightarrow> close_and_fail t err s
                   | Inr st \<Rightarrow> add_or_fail [st] s)))"

subsection \<open>What the menu builds\<close>

lemma RandomBase_3000: "RandomBase 3000 r = Some (minPort + of_nat r)"
  by (simp add: RandomBase_def base_span_def ephemeralPort_def minPort_def)

lemma initPortManager_total: "\<exists>p. initPortManager r = Some (Inr p) \<and> \<not> closed p"
  by (simp add: initPortManager_def RandomBase_3000 new_pool_def)

lemma AddStages_fresh:
  "\<not> ScStarted s \<Longrightarrow> \<not> ScClosed s \<Longrightarrow> AddStages sts s = (None, s\<lparr>ScStages := ScStages s @ sts\<rparr>)"
  by (induction sts arbitrary: s) (simp_all add: AddStage_def)

lemma new_scanner:
  assumes "NewScanner h (Some cfg) = Some (Inr s)"
  shows "ScConfig s = fst (NormalizeAll (HostName h) (HostPlatform h) (HostTier h) cfg)"
    "\<not> ScStarted s" "\<not> ScClosed s" "ScStages s = []" "ScWg s = 0" "ScPause s = NewPauseController"
    "ScCancelled s = ParentDone h" "\<not> closed (ScPool s)"
  using assms initPortManager_total [of "Rand h"]
  by (auto simp: NewScanner_def loadConfig_def Let_def split: option.splits sum.splits)

text \<open>The stages of a scan: one or two, with the workers of the section they belong to.\<close>

definition stages_ok :: "ScannerConfig \<Rightarrow> 'h StageConfig list \<Rightarrow> bool" where
  "stages_ok cfg sts \<longleftrightarrow>
     (length sts = 1 \<or> length sts = 2)
     \<and> (\<forall>st \<in> set sts. StWorkers st \<in>
          {IcmpWorkers (ICMP cfg), TcpWorkers (TCP cfg), HttpWorkers (HTTP cfg), XrayWorkers (Xray cfg),
           ResWorkers (Resolver (DNS cfg)), TunWorkers (Tunneling (DNS cfg))})"

lemma with_writer_workers: "with_writer env pfx schema w prb hooks = Inr st \<Longrightarrow> StWorkers st = w"
  by (auto simp: with_writer_def newStage_def split: option.splits)

lemma single_stages:
  "BuildICMPStage env cfg hooks = Inr st \<Longrightarrow> StWorkers st = IcmpWorkers (ICMP cfg)"
  "BuildTCPStage env cfg hooks = Inr st \<Longrightarrow> StWorkers st = TcpWorkers (TCP cfg)"
  "BuildHTTPStage env cfg hooks = Inr st \<Longrightarrow> StWorkers st = HttpWorkers (HTTP cfg)"
  "BuildResolveStage env cfg hooks = Inr st \<Longrightarrow> StWorkers st = ResWorkers (Resolver (DNS cfg))"
  "buildResolverStage env r hooks = Inr st \<Longrightarrow> StWorkers st = ResWorkers r"
  by (auto simp: BuildICMPStage_def BuildTCPStage_def BuildHTTPStage_def BuildResolveStage_def
      buildResolverStage_def Let_def dest!: with_writer_workers split: option.splits)

lemma prescan_stages:
  "buildXrayPreScanStage env cfg pre = Inr (Some st) \<Longrightarrow>
     StWorkers st \<in> {TcpWorkers (TCP cfg), IcmpWorkers (ICMP cfg), HttpWorkers (HTTP cfg)}"
  by (auto simp: buildXrayPreScanStage_def Let_def dest: single_stages split: if_splits sum.splits)

lemma xray_stages: "BuildXrayStage env cfg template hooks = Inr sts \<Longrightarrow> stages_ok cfg sts"
  by (auto simp: BuildXrayStage_def stages_ok_def Let_def dest!: with_writer_workers prescan_stages
      split: sum.splits option.splits)

lemma tunnel_stages_ok:
  "tunnel_stages env cfg port transport domain errs schema prb hooks = Inr sts \<Longrightarrow> stages_ok cfg sts"
  by (auto simp: tunnel_stages_def stages_ok_def adaptive_resolver_def Let_def
      dest!: with_writer_workers single_stages(5) split: sum.splits if_splits)

lemma tunnel_builder_ok: "tunnel_builder env cfg protocol name = Inr sts \<Longrightarrow> stages_ok cfg sts"
  by (auto simp: tunnel_builder_def BuildDNSTTStage_def BuildVayDNSStage_def BuildSlipStreamStage_def
      BuildTheFeedStage_def BuildMasterDNSStage_def BuildStormDNSStage_def map_sum_def Let_def
      intro: tunnel_stages_ok split: if_splits sum.splits)

lemma single_ok:
  "buildStage env cfg mode = Inr st \<Longrightarrow> stages_ok cfg [st]"
  "BuildResolveStage env cfg hooks = Inr st \<Longrightarrow> stages_ok cfg [st]"
  by (auto simp: buildStage_def stages_ok_def dest: single_stages split: ScanType.splits)

lemma add_or_fail_fresh:
  "\<not> ScStarted s \<Longrightarrow> \<not> ScClosed s \<Longrightarrow> add_or_fail sts s = Some (Inr (s\<lparr>ScStages := ScStages s @ sts\<rparr>))"
  by (simp add: add_or_fail_def AddStages_fresh)

lemma created_scanner:
  fixes s :: "'h scanner"
  assumes "createScanner h env t cfg template tun mode = Some (Inr s)"
  shows "ScConfig s = fst (NormalizeAll (HostName h) (HostPlatform h) (HostTier h) cfg)"
    and "stages_ok (ScConfig s) (ScStages s)" and "\<not> ScStarted s" and "\<not> ScClosed s"
proof -
  obtain s0 :: "'h scanner" where s0: "NewScanner h (Some cfg) = Some (Inr s0)"
    using assms by (auto simp: createScanner_def split: option.splits sum.splits)
  note fresh = new_scanner [OF s0]
  have "stages_ok (ScConfig s0) (ScStages s) \<and> s = s0\<lparr>ScStages := ScStages s\<rparr>"
    using assms fresh(2-4)
    by (cases mode) (auto simp: createScanner_def s0 buildXrayScanner_def buildResolveScanner_def
        buildDNSTunScanner_def close_and_fail_def add_or_fail_fresh
        dest: xray_stages tunnel_builder_ok single_ok split: sum.splits)
  then have "stages_ok (ScConfig s0) (ScStages s)" and s: "s = s0\<lparr>ScStages := ScStages s\<rparr>" by auto
  moreover have "ScConfig s = ScConfig s0 \<and> ScStarted s = ScStarted s0 \<and> ScClosed s = ScClosed s0"
    by (subst (1 2 3) s) simp
  ultimately show "ScConfig s = fst (NormalizeAll (HostName h) (HostPlatform h) (HostTier h) cfg)"
    "stages_ok (ScConfig s) (ScStages s)" "\<not> ScStarted s" "\<not> ScClosed s" using fresh by auto
qed

lemma non_negative_id: "n < 2 ^ 64 \<Longrightarrow> uint (non_negative n) = max n 0"
  by (simp add: non_negative_def uint_word_of_int)

text \<open>Whatever settings the menu starts from, the scan that it builds hands the engine a
  well-formed pipeline: one or two stages, each with at least one worker, so that no worker count and
  no channel or batch size is replaced by a default of the engine; a rate limiter that lets probes
  pass; a positive progress interval; and a limit on the results of the last stage only. The hypotheses
  exclude the platform and tier whose own defaults are invalid.\<close>

theorem scan_args_in_range:
  assumes "createScanner h env t cfg template tun mode = Some (Inr s)"
    and "default_host_ok (HostName h)" and "(HostPlatform h, HostTier h) \<noteq> (Server, High)"
  shows "let a = runPipeline (ScConfig s) (ScStages s); c = Chain a; ws = StageWorkers c
         in (length ws = 1 \<or> length ws = 2) \<and> list_all (\<lambda>w. 1 \<le> w \<and> getWorkerCount w = w) ws
            \<and> (length ws = 1 \<longrightarrow> Mode c = ModeSequential)
            \<and> 1 \<le> MaxBuffer c \<and> list_all (\<lambda>b. MaxBuffer c \<le> b) (createStageChannels c)
            \<and> 1 \<le> BatchSize c \<and> BatchSize c \<le> batchSize c
            \<and> 1 \<le> fst (ArgRate a) \<and> 1 \<le> snd (ArgRate a)
            \<and> 0 < ArgProgress a \<and> 0 < ArgMinProbe a
            \<and> resultLimitFor c (length ws - 1) = MaxSuccessfulIPs c
            \<and> (length ws = 2 \<longrightarrow> resultLimitFor c 0 = 0)"
proof -
  note made = created_scanner [OF assms(1)]
  have w: "workers_ok (ScConfig s)" unfolding made(1) by (rule normalized_workers [OF assms(2)])
  have g: "general_ok (General (ScConfig s))" unfolding made(1) by (rule normalized_general [OF assms(3)])
  have ws: "list_all (\<lambda>w. 1 \<le> w) (map StWorkers (ScStages s))"
    using made(2) w by (auto simp: stages_ok_def workers_ok_def list_all_iff)
  then have cnt: "list_all (\<lambda>w. 1 \<le> w \<and> getWorkerCount w = w) (map StWorkers (ScStages s))"
    by (auto simp: list_all_iff getWorkerCount_def)
  show ?thesis
    using made(2) g cnt
    by (auto simp: Let_def runPipeline_def stages_ok_def general_ok_def cfg_limits Millisecond_def
        newRateLimiter_def list_all_iff createStageChannels_def batchSize_def resultLimitFor_def)
qed

lemma setup_fails:
  fixes s :: "'h scanner"
  assumes "NewScanner h (Some cfg) = Some (Inr s0)"
  shows "close_and_fail t err s0 = Some (Inl (e, Some s)) \<Longrightarrow>
      ScClosed s \<and> ScCancelled s \<and> closed (ScPool s) \<and> \<not> ScStarted s"
    and "add_or_fail sts s0 \<noteq> Some (Inl (e, Some s))"
  using new_scanner [OF assms] by (auto simp: close_and_fail_def close_idle_def close_pool_def add_or_fail_fresh)

text \<open>When the set-up of a scan fails after the scanner exists, the menu closes the scanner, and
  with it its ports and its context, for every kind of scan except a DNS tunnel scan: there the scanner
  is dropped with its context live and its port manager open.\<close>

theorem failed_setup_leaks_tunnel_scanner:
  fixes s :: "'h scanner"
  assumes "createScanner h env t cfg template tun mode = Some (Inl (err, Some s))"
  shows "\<not> ScStarted s
         \<and> (if mode = DNSTun then \<not> ScClosed s \<and> ScCancelled s = ParentDone h \<and> \<not> closed (ScPool s)
            else ScClosed s \<and> ScCancelled s \<and> closed (ScPool s))"
proof -
  obtain s0 :: "'h scanner" where s0: "NewScanner h (Some cfg) = Some (Inr s0)"
    using assms by (auto simp: createScanner_def split: option.splits sum.splits)
  note fails = setup_fails [OF s0] and fresh = new_scanner [OF s0]
  show ?thesis
    using assms fresh
    by (cases mode) (auto simp: createScanner_def s0 buildXrayScanner_def buildResolveScanner_def
        buildDNSTunScanner_def fails(2) dest: fails(1) split: sum.splits)
qed

definition quiet_host :: host_env where
  "quiet_host = \<lparr>ParentDone = False, HostPlatform = Desktop, HostTier = Low, HostName = parse_host,
                 OnDisk = Inl [Plain 0], Rand = 7, SlipLoad = None\<rparr>"

definition empty_scan_env :: scan_env where
  "empty_scan_env =
     \<lparr>Tun = plain_env, icmp_sockets = None, http_request = \<lambda>c. None, xray_probe = \<lambda>c n. None,
      writer_factory = \<lambda>pfx schema. None, DNSTTDir = [], VayDNSDir = [], SlipstreamDir = [],
      MasterDNSDir = [], StormDNSDir = [], TheFeedDir = []\<rparr>"

lemma quiet_scanner: "\<exists>s0. NewScanner quiet_host (Some cfg) = Some (Inr s0)"
  using initPortManager_total [of 7]
  by (auto simp: NewScanner_def loadConfig_def quiet_host_def Let_def)

lemma scan_args_in_range_witness:
  "\<exists>s :: unit scanner.
     createScanner quiet_host empty_scan_env 0 blank_config [] ([], []) TCPScan = Some (Inr s)
     \<and> 1 \<le> MaxBuffer (Chain (runPipeline (ScConfig s) (ScStages s)))"
proof -
  obtain s0 :: "unit scanner" where s0: "NewScanner quiet_host (Some blank_config) = Some (Inr s0)"
    using quiet_scanner by blast
  have host: "default_host_ok parse_host" by code_simp
  have "\<exists>s :: unit scanner.
      createScanner quiet_host empty_scan_env 0 blank_config [] ([], []) TCPScan = Some (Inr s)"
    using new_scanner [OF s0]
    by (auto simp: createScanner_def s0 buildStage_def BuildTCPStage_def with_writer_def newWriter_def
        empty_scan_env_def Let_def add_or_fail_fresh)
  then obtain s :: "unit scanner" where
    s: "createScanner quiet_host empty_scan_env 0 blank_config [] ([], []) TCPScan = Some (Inr s)" by blast
  then show ?thesis
    using scan_args_in_range [OF s] host by (auto simp: Let_def quiet_host_def)
qed

lemma failed_setup_leaks_tunnel_scanner_witness:
  "\<exists>err (s :: unit scanner).
     createScanner quiet_host empty_scan_env 0 blank_config [] (''dnstt'', ''x'') DNSTun = Some (Inl (err, Some s))
     \<and> \<not> ScClosed s \<and> \<not> closed (ScPool s)"
proof -
  obtain s0 :: "unit scanner" where s0: "NewScanner quiet_host (Some blank_config) = Some (Inr s0)"
    using quiet_scanner by blast
  have load: "isl (LoadConfig ''x'' ([] :: DNSTTConfig dir))" by code_simp
  then have "\<exists>err (s :: unit scanner).
      createScanner quiet_host empty_scan_env 0 blank_config [] (''dnstt'', ''x'') DNSTun = Some (Inl (err, Some s))"
    by (auto simp: createScanner_def s0 buildDNSTunScanner_def tunnel_builder_def BuildDNSTTStage_def
        empty_scan_env_def Let_def split: sum.splits)
  then obtain err and s :: "unit scanner" where s:
    "createScanner quiet_host empty_scan_env 0 blank_config [] (''dnstt'', ''x'') DNSTun = Some (Inl (err, Some s))"
    by blast
  then show ?thesis using failed_setup_leaks_tunnel_scanner [OF s] by auto
qed

subsection \<open>The life of a scan\<close>

text \<open>The goroutines that call \<open>Run\<close>, by number, and where each stands: past the checks, past the
  compare-and-swap, past \<open>wg.Add\<close> with the stages that it runs, past \<open>pause.Stop\<close>, returned.\<close>

datatype 'h run_pc =
  RunIdle
| RunRefused go_err
| RunChecked
| RunWon "'h StageConfig list"
| RunScanning "'h StageConfig list"
| RunStopped
| RunReturned

text \<open>\<open>Close\<close>, which \<open>closeOnce\<close> runs once: the flag is stored, the context cancelled, the pausing
  stopped and the waiting goroutine started; it returns nil or the error of the timeout. The waiting
  goroutine closes the ports once the wait group is zero.\<close>

datatype close_pc = CloseIdle | CloseMarked | CloseCancelled | CloseWaiting | CloseReturned bool
datatype wait_pc = NoWaiter | WaitGroup | WaitDone

record 'h life =
  Sc :: "'h scanner"
  RunPc :: "nat \<Rightarrow> 'h run_pc"
  ClosePc :: close_pc
  Waiter :: wait_pc
  Scans :: "'h StageConfig list list"

definition life_start :: "'h scanner \<Rightarrow> 'h life" where
  "life_start s = \<lparr>Sc = s, RunPc = \<lambda>i. RunIdle, ClosePc = CloseIdle, Waiter = NoWaiter, Scans = []\<rparr>"

abbreviation run_to :: "nat \<Rightarrow> 'h run_pc \<Rightarrow> 'h life \<Rightarrow> 'h life" where
  "run_to i pc l \<equiv> l\<lparr>RunPc := (RunPc l)(i := pc)\<rparr>"

inductive life_step :: "'h life \<Rightarrow> 'h life \<Rightarrow> bool" where
  refused: "RunPc l i = RunIdle \<Longrightarrow> run_checks (Sc l) = Some err \<Longrightarrow> life_step l (run_to i (RunRefused err) l)"
| checked: "RunPc l i = RunIdle \<Longrightarrow> run_checks (Sc l) = None \<Longrightarrow> life_step l (run_to i RunChecked l)"
| lost: "RunPc l i = RunChecked \<Longrightarrow> ScStarted (Sc l) \<Longrightarrow> life_step l (run_to i (RunRefused [Plain 25]) l)"
| won: "RunPc l i = RunChecked \<Longrightarrow> \<not> ScStarted (Sc l) \<Longrightarrow>
    life_step l (run_to i (RunWon (ScStages (Sc l))) (l\<lparr>Sc := (Sc l)\<lparr>ScStarted := True\<rparr>\<rparr>))"
| added: "RunPc l i = RunWon sts \<Longrightarrow>
    life_step l (run_to i (RunScanning sts)
      (l\<lparr>Sc := (Sc l)\<lparr>ScWg := Suc (ScWg (Sc l))\<rparr>, Scans := Scans l @ [sts]\<rparr>))"
| scanned: "RunPc l i = RunScanning sts \<Longrightarrow> Stop t (ScPause (Sc l)) = Some p \<Longrightarrow>
    life_step l (run_to i RunStopped (l\<lparr>Sc := (Sc l)\<lparr>ScPause := p\<rparr>\<rparr>))"
| returned: "RunPc l i = RunStopped \<Longrightarrow>
    life_step l (run_to i RunReturned (l\<lparr>Sc := (Sc l)\<lparr>ScWg := ScWg (Sc l) - 1\<rparr>\<rparr>))"
| close_marks: "ClosePc l = CloseIdle \<Longrightarrow>
    life_step l (l\<lparr>ClosePc := CloseMarked, Sc := (Sc l)\<lparr>ScClosed := True\<rparr>\<rparr>)"
| close_cancels: "ClosePc l = CloseMarked \<Longrightarrow>
    life_step l (l\<lparr>ClosePc := CloseCancelled, Sc := (Sc l)\<lparr>ScCancelled := True\<rparr>\<rparr>)"
| close_stops: "ClosePc l = CloseCancelled \<Longrightarrow> Stop t (ScPause (Sc l)) = Some p \<Longrightarrow>
    life_step l (l\<lparr>ClosePc := CloseWaiting, Waiter := WaitGroup, Sc := (Sc l)\<lparr>ScPause := p\<rparr>\<rparr>)"
| group_empty: "Waiter l = WaitGroup \<Longrightarrow> ScWg (Sc l) = 0 \<Longrightarrow>
    life_step l (l\<lparr>Waiter := WaitDone, Sc := (Sc l)\<lparr>ScPool := close_pool (ScPool (Sc l))\<rparr>\<rparr>)"
| close_done: "ClosePc l = CloseWaiting \<Longrightarrow> Waiter l = WaitDone \<Longrightarrow>
    life_step l (l\<lparr>ClosePc := CloseReturned True\<rparr>)"
| close_timeout: "ClosePc l = CloseWaiting \<Longrightarrow> life_step l (l\<lparr>ClosePc := CloseReturned False\<rparr>)"
| cancelled: "life_step l (l\<lparr>Sc := (Sc l)\<lparr>ScCancelled := True\<rparr>\<rparr>)"
| user_pauses: "life_step l (l\<lparr>Sc := (Sc l)\<lparr>ScPause := Pause t (ScPause (Sc l))\<rparr>\<rparr>)"
| user_resumes: "Resume t (ScPause (Sc l)) = Some p \<Longrightarrow> life_step l (l\<lparr>Sc := (Sc l)\<lparr>ScPause := p\<rparr>\<rparr>)"

definition has_won :: "'h run_pc \<Rightarrow> bool" where
  "has_won pc \<longleftrightarrow> (case pc of RunWon sts \<Rightarrow> True | RunScanning sts \<Rightarrow> True | RunStopped \<Rightarrow> True
                      | RunReturned \<Rightarrow> True | _ \<Rightarrow> False)"

definition in_group :: "'h run_pc \<Rightarrow> bool" where
  "in_group pc \<longleftrightarrow> (case pc of RunScanning sts \<Rightarrow> True | RunStopped \<Rightarrow> True | _ \<Rightarrow> False)"

definition may_start :: "'h run_pc \<Rightarrow> bool" where
  "may_start pc \<longleftrightarrow> (case pc of RunChecked \<Rightarrow> True | RunWon sts \<Rightarrow> True | _ \<Rightarrow> False)"

lemmas run_pc_defs = has_won_def in_group_def may_start_def

text \<open>What one start means: at most one goroutine wins, the wait group counts it while it scans, and
  it runs the stages of the scanner once.\<close>

definition not_run :: "'h life \<Rightarrow> bool" where
  "not_run l \<longleftrightarrow> \<not> ScStarted (Sc l) \<and> (\<forall>i. \<not> has_won (RunPc l i)) \<and> ScWg (Sc l) = 0 \<and> Scans l = []"

definition run_by :: "nat \<Rightarrow> 'h StageConfig list \<Rightarrow> 'h life \<Rightarrow> bool" where
  "run_by k sts l \<longleftrightarrow>
     ScStarted (Sc l) \<and> (\<forall>i. i \<noteq> k \<longrightarrow> \<not> has_won (RunPc l i))
     \<and> (case RunPc l k of
          RunWon sts' \<Rightarrow> sts' = sts \<and> ScWg (Sc l) = 0 \<and> Scans l = []
        | RunScanning sts' \<Rightarrow> sts' = sts \<and> ScWg (Sc l) = 1 \<and> Scans l = [sts]
        | RunStopped \<Rightarrow> ScWg (Sc l) = 1 \<and> Scans l = [sts]
        | RunReturned \<Rightarrow> ScWg (Sc l) = 0 \<and> Scans l = [sts]
        | _ \<Rightarrow> False)"

definition one_run :: "'h StageConfig list \<Rightarrow> 'h life \<Rightarrow> bool" where
  "one_run sts l \<longleftrightarrow> ScStages (Sc l) = sts \<and> (not_run l \<or> (\<exists>k. run_by k sts l))"

lemma has_won_simps [simp]:
  "\<not> has_won RunIdle" "\<not> has_won (RunRefused err)" "\<not> has_won RunChecked"
  "has_won (RunWon sts)" "has_won (RunScanning sts)" "has_won RunStopped" "has_won RunReturned"
  by (simp_all add: has_won_def)

lemma winner: "one_run sts l \<Longrightarrow> has_won (RunPc l i) \<Longrightarrow> run_by i sts l"
  unfolding one_run_def not_run_def by (metis run_by_def)

lemma run_by_won: "run_by k sts l \<Longrightarrow> has_won (RunPc l k)"
  by (auto simp: run_by_def split: run_pc.splits)

lemma one_run_same:
  assumes "one_run sts l" and "\<And>j. has_won (RunPc l j) \<or> has_won (RunPc l' j) \<Longrightarrow> RunPc l' j = RunPc l j"
    and "ScStages (Sc l') = ScStages (Sc l)" "ScStarted (Sc l') = ScStarted (Sc l)"
    "ScWg (Sc l') = ScWg (Sc l)" "Scans l' = Scans l"
  shows "one_run sts l'"
proof (cases "not_run l")
  case True
  then have "not_run l'" using assms unfolding not_run_def by metis
  then show ?thesis using assms by (simp add: one_run_def)
next
  case False
  then obtain k where k: "run_by k sts l" using assms(1) by (auto simp: one_run_def)
  have "RunPc l' k = RunPc l k" using run_by_won [OF k] assms(2) by blast
  moreover have "\<forall>i. i \<noteq> k \<longrightarrow> \<not> has_won (RunPc l' i)" using k assms(2) unfolding run_by_def by metis
  ultimately have "run_by k sts l'" using k assms(3-6) unfolding run_by_def by (cases "RunPc l k") auto
  then show ?thesis using assms(1,3) by (auto simp: one_run_def)
qed

lemma one_run_step:
  assumes "life_step l l'" and "one_run sts l" shows "one_run sts l'"
  using assms
proof (cases rule: life_step.cases)
  case (won i)
  then have "not_run l" using assms(2) by (auto simp: one_run_def run_by_def)
  then have "run_by i sts l'" using won assms(2) by (auto simp: not_run_def run_by_def one_run_def)
  then show ?thesis using won assms(2) by (auto simp: one_run_def)
next
  case (added i)
  then have "run_by i sts l" using winner [OF assms(2), of i] by simp
  then have "run_by i sts l'" using added by (auto simp: run_by_def)
  then show ?thesis using added assms(2) by (auto simp: one_run_def)
next
  case (scanned i)
  then have "run_by i sts l" using winner [OF assms(2), of i] by simp
  then have "run_by i sts l'" using scanned by (auto simp: run_by_def)
  then show ?thesis using scanned assms(2) by (auto simp: one_run_def)
next
  case (returned i)
  then have "run_by i sts l" using winner [OF assms(2), of i] by simp
  then have "run_by i sts l'" using returned by (auto simp: run_by_def)
  then show ?thesis using returned assms(2) by (auto simp: one_run_def)
qed (rule one_run_same [OF assms(2)]; auto split: if_splits)+

lemma one_run_reachable:
  assumes "life_step\<^sup>*\<^sup>* l l'" and "one_run sts l" shows "one_run sts l'"
  using assms by (induction rule: rtranclp_induct) (auto intro: one_run_step)

definition fresh_scanner :: "'h scanner \<Rightarrow> bool" where
  "fresh_scanner s \<longleftrightarrow> \<not> ScStarted s \<and> \<not> ScClosed s \<and> ScWg s = 0 \<and> ScPause s = NewPauseController"

lemma one_run_start: "fresh_scanner s \<Longrightarrow> one_run (ScStages s) (life_start s)"
  by (simp add: one_run_def not_run_def life_start_def fresh_scanner_def)

text \<open>C17. However many goroutines call \<open>Run\<close>, and whenever the scanner is closed, cancelled, paused
  or resumed, at most one of them gets to scan: the engine runs at most once, with the stages that were
  added, and the scanner counts as started exactly when some call has won.\<close>

theorem scan_runs_once:
  assumes "life_step\<^sup>*\<^sup>* (life_start s) l" and "fresh_scanner s"
  shows "(Scans l = [] \<or> Scans l = [ScStages s])
         \<and> (has_won (RunPc l i) \<and> has_won (RunPc l j) \<longrightarrow> i = j)
         \<and> (ScStarted (Sc l) \<longleftrightarrow> (\<exists>k. has_won (RunPc l k)))
         \<and> ((\<exists>k. in_group (RunPc l k)) \<longrightarrow> ScWg (Sc l) = 1)"
proof -
  have inv: "one_run (ScStages s) l" using one_run_reachable assms one_run_start by blast
  show ?thesis
  proof (cases "not_run l")
    case True
    moreover have "\<not> in_group (RunPc l k)" if "\<not> has_won (RunPc l k)" for k
      using that by (cases "RunPc l k") (simp_all add: in_group_def)
    ultimately show ?thesis unfolding not_run_def by blast
  next
    case False
    then obtain k where k: "run_by k (ScStages s) l" using inv by (auto simp: one_run_def)
    have group: "k' = k" if "in_group (RunPc l k')" for k'
      using that k by (cases "RunPc l k'") (auto simp: run_by_def in_group_def)
    show ?thesis
    proof (intro conjI impI)
      show "Scans l = [] \<or> Scans l = [ScStages s]"
        using k by (cases "RunPc l k") (simp_all add: run_by_def)
      show "i = j" if "has_won (RunPc l i) \<and> has_won (RunPc l j)"
        using that k unfolding run_by_def by metis
      show "ScStarted (Sc l) \<longleftrightarrow> (\<exists>k. has_won (RunPc l k))"
        using k run_by_won [OF k] by (auto simp: run_by_def)
      show "ScWg (Sc l) = 1" if "\<exists>k. in_group (RunPc l k)"
        using that k group by (cases "RunPc l k") (auto simp: run_by_def in_group_def)
    qed
  qed
qed

text \<open>What a completed \<open>Close\<close> means as long as no goroutine was between the checks and \<open>wg.Add\<close> when
  \<open>Close\<close> began: the ports are closed and nothing scans any more.\<close>

definition close_waits :: "'h life \<Rightarrow> bool" where
  "close_waits l \<longleftrightarrow>
     ClosePc l \<noteq> CloseIdle \<and> ScClosed (Sc l) \<and> (\<forall>i. \<not> may_start (RunPc l i))
     \<and> (ClosePc l = CloseMarked \<or> ClosePc l = CloseCancelled \<longrightarrow> Waiter l = NoWaiter)
     \<and> (Waiter l = WaitDone \<longrightarrow> closed (ScPool (Sc l)) \<and> ScWg (Sc l) = 0)
     \<and> (ClosePc l = CloseReturned True \<longrightarrow> Waiter l = WaitDone)"

lemma may_start_simps [simp]:
  "\<not> may_start RunIdle" "\<not> may_start (RunRefused err)" "may_start RunChecked" "may_start (RunWon sts)"
  "\<not> may_start (RunScanning sts)" "\<not> may_start RunStopped" "\<not> may_start RunReturned"
  by (simp_all add: may_start_def)

lemma close_waits_step:
  assumes "life_step l l'" and "close_waits l"
  shows "close_waits l' \<and> Scans l' = Scans l"
  using assms
proof (cases rule: life_step.cases)
  case (checked i)
  then show ?thesis using assms(2) by (simp add: close_waits_def run_checks_def)
next
  case (won i)
  then show ?thesis using assms(2) may_start_simps(3) unfolding close_waits_def by metis
next
  case (added i)
  then show ?thesis using assms(2) may_start_simps(4) unfolding close_waits_def by metis
qed (auto simp: close_waits_def close_pool_def)

lemma close_waits_reachable:
  assumes "life_step\<^sup>*\<^sup>* l l'" and "close_waits l"
  shows "close_waits l' \<and> Scans l' = Scans l"
  using assms by (induction rule: rtranclp_induct) (auto dest: close_waits_step)

definition close_order :: "'h life \<Rightarrow> bool" where
  "close_order l \<longleftrightarrow>
     (ClosePc l = CloseIdle \<or> ClosePc l = CloseMarked \<or> ClosePc l = CloseCancelled \<longrightarrow> Waiter l = NoWaiter)
     \<and> (ClosePc l \<noteq> CloseIdle \<longrightarrow> ScClosed (Sc l))"

lemma close_order_step: "life_step l l' \<Longrightarrow> close_order l \<Longrightarrow> close_order l'"
  by (induction rule: life_step.induct) (auto simp: close_order_def)

lemma close_order_reachable:
  assumes "life_step\<^sup>*\<^sup>* (life_start s) l" shows "close_order l"
  using assms
proof (induction rule: rtranclp_induct)
  case base
  show ?case by (simp add: close_order_def life_start_def)
qed (auto intro: close_order_step)

text \<open>A scanner with one stage, and a run of it in full.\<close>

definition one_stage :: "unit StageConfig" where
  "one_stage = newStage 1 (TCPProbe 80 1000 1) (''tcp_'', ''TCP'') []"

definition lone_scanner :: "unit scanner" where
  "lone_scanner =
     \<lparr>ScConfig = blank_config, ScCancelled = False, ScStarted = False, ScClosed = False,
      ScStages = [one_stage], ScPause = NewPauseController,
      ScPool = \<lparr>ports = [20000], capacity = 1, closed = False, startPort = 20000, lastAddedPort = 20000\<rparr>,
      ScWg = 0\<rparr>"

lemma lone_fresh: "fresh_scanner lone_scanner"
  by (simp add: fresh_scanner_def lone_scanner_def)

lemma lone_checks: "run_checks lone_scanner = None"
  by (simp add: run_checks_def lone_scanner_def)

definition after_check :: "unit life" where
  "after_check = run_to 0 RunChecked (life_start lone_scanner)"

lemma to_check: "life_step\<^sup>*\<^sup>* (life_start lone_scanner) after_check"
  unfolding after_check_def
  by (rule r_into_rtranclp, rule life_step.checked) (simp_all add: life_start_def lone_checks)

definition scanning :: "unit life" where
  "scanning = after_check\<lparr>RunPc := (RunPc after_check)(0 := RunScanning [one_stage]),
     Sc := lone_scanner\<lparr>ScStarted := True, ScWg := 1\<rparr>, Scans := [[one_stage]]\<rparr>"

lemma to_scanning: "life_step\<^sup>*\<^sup>* (life_start lone_scanner) scanning"
proof -
  let ?w = "run_to 0 (RunWon [one_stage]) (after_check\<lparr>Sc := lone_scanner\<lparr>ScStarted := True\<rparr>\<rparr>)"
  have "life_step after_check ?w"
    using life_step.won [of after_check 0] by (simp add: after_check_def life_start_def lone_scanner_def)
  moreover have "life_step ?w scanning"
    using life_step.added [of ?w 0 "[one_stage]"]
    by (simp add: scanning_def after_check_def life_start_def lone_scanner_def)
  ultimately show ?thesis using to_check by (meson rtranclp.rtrancl_into_rtrancl)
qed

lemma scan_runs_once_witness: "Scans scanning = [] \<or> Scans scanning = [ScStages lone_scanner]"
  using scan_runs_once [OF to_scanning lone_fresh] by blast

text \<open>C18. When \<open>Close\<close> begins while no call of \<open>Run\<close> is between its checks and \<open>wg.Add\<close> and later
  returns nil, no goroutine scans any more, no scan was started in the meantime, and the ports are
  closed. When it returns because the time is up, nothing of this is promised.\<close>

theorem close_waits_for_scan:
  assumes "life_step\<^sup>*\<^sup>* (life_start s) l" and "fresh_scanner s"
    and "ClosePc l = CloseMarked" and "\<forall>i. \<not> may_start (RunPc l i)"
    and "life_step\<^sup>*\<^sup>* l l'" and "ClosePc l' = CloseReturned True"
  shows "(\<forall>i. \<not> in_group (RunPc l' i)) \<and> Scans l' = Scans l \<and> closed (ScPool (Sc l'))"
proof -
  have "close_order l" by (rule close_order_reachable [OF assms(1)])
  then have "close_waits l" using assms(3,4) by (simp add: close_waits_def close_order_def)
  from close_waits_reachable [OF assms(5) this]
  have waits: "close_waits l'" and same: "Scans l' = Scans l" by auto
  then have wg: "ScWg (Sc l') = 0" "closed (ScPool (Sc l'))" using assms(6) by (simp_all add: close_waits_def)
  have inv: "one_run (ScStages s) l'"
    using one_run_reachable [OF rtranclp_trans [OF assms(1,5)]] one_run_start assms(2) by blast
  have "\<not> in_group (RunPc l' i)" for i
  proof
    assume g: "in_group (RunPc l' i)"
    then have "has_won (RunPc l' i)" by (cases "RunPc l' i") (simp_all add: in_group_def)
    from winner [OF inv this] g wg(1) show False
      by (cases "RunPc l' i") (simp_all add: run_by_def in_group_def)
  qed
  with same wg show ?thesis by blast
qed

definition stopped_ctl :: pause_ctl where
  "stopped_ctl = NewPauseController\<lparr>stopOnce := True, doneClosed := True\<rparr>"

lemma stop_new: "Stop t NewPauseController = Some stopped_ctl" "Stop t stopped_ctl = Some stopped_ctl"
  by (simp_all add: Stop_def Resume_def NewPauseController_def stopped_ctl_def)

text \<open>\<open>Close\<close> in full, from a state in which the wait group is empty.\<close>

lemma close_path:
  assumes "ClosePc l = CloseIdle" and "ScWg (Sc l) = 0"
    and "ScPause (Sc l) = NewPauseController \<or> ScPause (Sc l) = stopped_ctl"
  shows "life_step\<^sup>*\<^sup>* (l\<lparr>ClosePc := CloseMarked, Sc := (Sc l)\<lparr>ScClosed := True\<rparr>\<rparr>)
     (l\<lparr>Waiter := WaitDone,
        Sc := (Sc l)\<lparr>ScClosed := True, ScCancelled := True, ScPause := stopped_ctl,
                     ScPool := close_pool (ScPool (Sc l))\<rparr>, ClosePc := CloseReturned True\<rparr>)" (is "life_step\<^sup>*\<^sup>* ?a ?e")
proof -
  let ?b = "l\<lparr>ClosePc := CloseCancelled, Sc := (Sc l)\<lparr>ScClosed := True, ScCancelled := True\<rparr>\<rparr>"
  let ?c = "l\<lparr>ClosePc := CloseWaiting, Waiter := WaitGroup,
              Sc := (Sc l)\<lparr>ScClosed := True, ScCancelled := True, ScPause := stopped_ctl\<rparr>\<rparr>"
  let ?d = "l\<lparr>ClosePc := CloseWaiting, Waiter := WaitDone,
              Sc := (Sc l)\<lparr>ScClosed := True, ScCancelled := True, ScPause := stopped_ctl,
                           ScPool := close_pool (ScPool (Sc l))\<rparr>\<rparr>"
  have "life_step ?a ?b" using close_cancels [of ?a] by simp
  moreover have "life_step ?b ?c" using close_stops [of ?b 0 stopped_ctl] stop_new [of 0] assms(3) by auto
  moreover have "life_step ?c ?d" using group_empty [of ?c] assms(2) by simp
  moreover have "life_step ?d ?e" using close_done [of ?d] by simp
  ultimately show ?thesis by (meson converse_rtranclp_into_rtranclp rtranclp.rtrancl_refl)
qed

definition returned_life :: "unit life" where
  "returned_life = scanning\<lparr>Sc := lone_scanner\<lparr>ScStarted := True, ScPause := stopped_ctl\<rparr>,
     RunPc := (RunPc scanning)(0 := RunReturned)\<rparr>"

lemma to_returned: "life_step\<^sup>*\<^sup>* (life_start lone_scanner) returned_life"
proof -
  let ?p = "run_to 0 RunStopped (scanning\<lparr>Sc := (Sc scanning)\<lparr>ScPause := stopped_ctl\<rparr>\<rparr>)"
  have "life_step scanning ?p"
    by (rule scanned [of scanning 0 "[one_stage]" 0]) (simp_all add: scanning_def lone_scanner_def stop_new)
  moreover have "life_step ?p returned_life"
    using returned [of ?p 0] by (simp add: returned_life_def scanning_def lone_scanner_def)
  ultimately show ?thesis using to_scanning by (meson rtranclp.rtrancl_into_rtrancl)
qed

lemma close_waits_for_scan_witness:
  "\<exists>l'. life_step\<^sup>*\<^sup>* (life_start lone_scanner) l' \<and> ClosePc l' = CloseReturned True
     \<and> Scans l' = [[one_stage]] \<and> closed (ScPool (Sc l'))"
proof -
  let ?l = "returned_life\<lparr>ClosePc := CloseMarked, Sc := (Sc returned_life)\<lparr>ScClosed := True\<rparr>\<rparr>"
  have idle: "ClosePc returned_life = CloseIdle" "ScWg (Sc returned_life) = 0"
    "ScPause (Sc returned_life) = stopped_ctl"
    by (simp_all add: returned_life_def scanning_def after_check_def life_start_def lone_scanner_def)
  then have path: "life_step\<^sup>*\<^sup>* (life_start lone_scanner) ?l"
    using rtranclp.rtrancl_into_rtrancl [OF to_returned close_marks] by blast
  have none: "\<forall>i. \<not> may_start (RunPc ?l i)"
    by (simp add: returned_life_def scanning_def after_check_def life_start_def)
  obtain l' where l': "life_step\<^sup>*\<^sup>* ?l l'" "ClosePc l' = CloseReturned True"
    using close_path [of returned_life] idle by auto
  have "Scans ?l = [[one_stage]]" by (simp add: returned_life_def scanning_def)
  with close_waits_for_scan [OF path lone_fresh _ none l'] show ?thesis
    using path l' by (intro exI [of _ l']) auto
qed

text \<open>The wait group is raised after the compare-and-swap, not before the checks: a scan whose call
  of \<open>Run\<close> is past its checks when \<open>Close\<close> begins is not waited for. \<open>Close\<close> returns nil with the port
  manager closed, and the engine runs afterwards.\<close>

theorem close_returns_before_run:
  "\<exists>l. life_step\<^sup>*\<^sup>* (life_start lone_scanner) l \<and> ClosePc l = CloseReturned True
     \<and> closed (ScPool (Sc l)) \<and> RunPc l 0 = RunScanning (ScStages lone_scanner)"
proof -
  let ?m = "after_check\<lparr>ClosePc := CloseMarked, Sc := (Sc after_check)\<lparr>ScClosed := True\<rparr>\<rparr>"
  have idle: "ClosePc after_check = CloseIdle" "Sc after_check = lone_scanner"
    "ScWg lone_scanner = 0" "ScPause lone_scanner = NewPauseController"
    by (simp_all add: after_check_def life_start_def lone_scanner_def)
  let ?e = "after_check\<lparr>Waiter := WaitDone,
     Sc := (Sc after_check)\<lparr>ScClosed := True, ScCancelled := True, ScPause := stopped_ctl,
                            ScPool := close_pool (ScPool (Sc after_check))\<rparr>,
     ClosePc := CloseReturned True\<rparr>"
  let ?w = "run_to 0 (RunWon [one_stage]) (?e\<lparr>Sc := (Sc ?e)\<lparr>ScStarted := True\<rparr>\<rparr>)"
  let ?s = "run_to 0 (RunScanning [one_stage])
     (?w\<lparr>Sc := (Sc ?w)\<lparr>ScWg := Suc (ScWg (Sc ?w))\<rparr>, Scans := Scans ?w @ [[one_stage]]\<rparr>)"
  have "life_step\<^sup>*\<^sup>* (life_start lone_scanner) ?e"
    using rtranclp_trans [OF rtranclp.rtrancl_into_rtrancl [OF to_check close_marks [OF idle(1)]]
        close_path [OF idle(1)]] idle by simp
  moreover have "life_step ?e ?w"
    using won [of ?e 0] by (simp add: after_check_def life_start_def lone_scanner_def)
  ultimately have "life_step\<^sup>*\<^sup>* (life_start lone_scanner) ?w" by (rule rtranclp.rtrancl_into_rtrancl)
  moreover have "life_step ?w ?s" by (rule added) simp
  ultimately have "life_step\<^sup>*\<^sup>* (life_start lone_scanner) ?s" by (rule rtranclp.rtrancl_into_rtrancl)
  then show ?thesis by (intro exI [of _ ?s]) (simp add: close_pool_def lone_scanner_def)
qed

end
