(* ===== verification/Socks.thy ===== *)
theory Socks
  imports ResultRecords
begin

text \<open>
  The SOCKS5 client of \<open>internal/core/socks/client.go\<close> byte for byte: the greeting, the password
  authentication of RFC 1929, the CONNECT request and the reply, over a connection whose incoming bytes
  and failing writes are given. Beside it stands a server that reads what the client writes, from
  which the properties are stated.
\<close>

type_synonym u8 = "8 word"

definition bytes_of :: "string \<Rightarrow> u8 list" where
  "bytes_of s = map of_char s"

subsection \<open>Addresses of the standard library\<close>

text \<open>\<open>net.ParseIP\<close> as the 16 bytes it returns, and \<open>To4\<close> as the four bytes of a mapped address.\<close>

definition net_ParseIP :: "string \<Rightarrow> 128 word option" where
  "net_ParseIP s = (case parse_addr_zone s of Some (a, False) \<Rightarrow> Some (as16 a) | _ \<Rightarrow> None)"

definition be_bytes :: "nat \<Rightarrow> nat \<Rightarrow> u8 list" where
  "be_bytes n v = map (\<lambda>i. of_nat (v div 256 ^ (n - Suc i))) [0 ..< n]"

definition ip_bytes :: "128 word \<Rightarrow> u8 list" where
  "ip_bytes w = (case unmap16 w of V4 a \<Rightarrow> be_bytes 4 (unat a) | V6 a \<Rightarrow> be_bytes 16 (unat a))"

text \<open>\<open>net.SplitHostPort\<close>.\<close>

definition split_host_port :: "string \<Rightarrow> (string \<times> string) option" where
  "split_host_port hp =
     (case cut_last (CHR '':'') hp of
        None \<Rightarrow> None
      | Some (before, port) \<Rightarrow>
          if hd hp = CHR ''['' then
            (case cut (CHR '']'') before of
               None \<Rightarrow> None
             | Some (h, rest) \<Rightarrow>
                 if rest \<noteq> [] \<or> CHR ''['' \<in> set (tl hp) \<or> CHR '']'' \<in> set port then None
                 else Some (tl h, port))
          else if CHR '':'' \<in> set before \<or> CHR ''['' \<in> set hp \<or> CHR '']'' \<in> set hp then None
          else Some (before, port))"

subsection \<open>The connection\<close>

text \<open>The bytes that will arrive before the end of the stream, the bytes written, and which writes go
  through, by the number of bytes written before; \<open>can_deadline\<close> is whether \<open>SetDeadline\<close> works.\<close>

record conn =
  Incoming :: "u8 list"
  Written :: "u8 list"
  write_ok :: "nat \<Rightarrow> bool"
  can_deadline :: bool
  ConnDeadline :: "int option"

datatype socks_err =
  SetDeadlineErr | WriteErr | ReadErr
| BadVersion u8 | NoAcceptableMethod | UnexpectedMethod u8
| UserTooLong | PasswordTooLong | BadAuthVersion u8 | AuthRejected
| BadTarget | BadPort | HostTooLong
| ConnectFailed u8 string | BadAddressType u8

type_synonym io = "conn \<Rightarrow> socks_err option \<times> conn"

definition fail :: "socks_err \<Rightarrow> io" where "fail e c = (Some e, c)"
definition done_io :: io where "done_io c = (None, c)"

definition send :: "u8 list \<Rightarrow> io \<Rightarrow> io" where
  "send bs k c =
     (if write_ok c (length (Written c)) then k (c\<lparr>Written := Written c @ bs\<rparr>) else (Some WriteErr, c))"

text \<open>\<open>io.ReadFull\<close>; a short read has taken what there was.\<close>

definition read_full :: "nat \<Rightarrow> (u8 list \<Rightarrow> io) \<Rightarrow> io" where
  "read_full n k c =
     (if n \<le> length (Incoming c) then k (take n (Incoming c)) (c\<lparr>Incoming := drop n (Incoming c)\<rparr>)
      else (Some ReadErr, c\<lparr>Incoming := []\<rparr>))"

subsection \<open>The client\<close>

record socks_config =
  SocksUser :: string
  SocksPassword :: string

definition usernamePasswordAuth :: "string \<Rightarrow> string \<Rightarrow> io \<Rightarrow> io" where
  "usernamePasswordAuth user pw k =
     (if 255 < length user then fail UserTooLong
      else if 255 < length pw then fail PasswordTooLong
      else send ([1, of_nat (length user)] @ bytes_of user @ [of_nat (length pw)] @ bytes_of pw)
             (read_full 2 (\<lambda>r.
                if r ! 0 \<noteq> 1 then fail (BadAuthVersion (r ! 0))
                else if r ! 1 \<noteq> 0 then fail AuthRejected
                else k)))"

definition auth_method :: "socks_config \<Rightarrow> u8" where
  "auth_method cfg = (if SocksUser cfg \<noteq> [] then 2 else 0)"

definition authenticate :: "socks_config \<Rightarrow> io \<Rightarrow> io" where
  "authenticate cfg k =
     send [5, 1, auth_method cfg]
       (read_full 2 (\<lambda>r.
          if r ! 0 \<noteq> 5 then fail (BadVersion (r ! 0))
          else if r ! 1 = 0xFF then fail NoAcceptableMethod
          else if r ! 1 \<noteq> auth_method cfg then fail (UnexpectedMethod (r ! 1))
          else if auth_method cfg = 2 then usernamePasswordAuth (SocksUser cfg) (SocksPassword cfg) k
          else k))"

definition encodeAddress :: "string \<Rightarrow> (u8 \<times> u8 list) option" where
  "encodeAddress host =
     (case net_ParseIP host of
        Some w \<Rightarrow> Some (if length (ip_bytes w) = 4 then 1 else 4, ip_bytes w)
      | None \<Rightarrow>
          if 255 < length host then None else Some (3, of_nat (length host) # bytes_of host))"

definition replyError :: "u8 \<Rightarrow> string" where
  "replyError code =
     (if code = 1 then ''general SOCKS server failure''
      else if code = 2 then ''connection not allowed''
      else if code = 3 then ''network unreachable''
      else if code = 4 then ''host unreachable''
      else if code = 5 then ''connection refused''
      else if code = 6 then ''TTL expired''
      else if code = 7 then ''command not supported''
      else if code = 8 then ''address type not supported''
      else ''unknown error'')"

definition read_bound :: "u8 \<Rightarrow> io" where
  "read_bound atyp =
     (let port = read_full 2 (\<lambda>p. done_io)
      in if atyp = 1 then read_full 4 (\<lambda>b. port)
         else if atyp = 3 then read_full 1 (\<lambda>b. read_full (unat (b ! 0)) (\<lambda>a. port))
         else if atyp = 4 then read_full 16 (\<lambda>b. port)
         else fail (BadAddressType atyp))"

definition readConnectResponse :: io where
  "readConnectResponse =
     read_full 4 (\<lambda>h.
       if h ! 0 \<noteq> 5 then fail (BadVersion (h ! 0))
       else if h ! 1 \<noteq> 0 then fail (ConnectFailed (h ! 1) (replyError (h ! 1)))
       else read_bound (h ! 3))"

definition socks_connect :: "string \<Rightarrow> io" where
  "socks_connect target =
     (case split_host_port target of
        None \<Rightarrow> fail BadTarget
      | Some (host, ps) \<Rightarrow>
          (case parse_uint16 ps of
             None \<Rightarrow> fail BadPort
           | Some port \<Rightarrow>
               (case encodeAddress host of
                  None \<Rightarrow> fail HostTooLong
                | Some (atyp, address) \<Rightarrow>
                    send ([5, 1, 0, atyp] @ address @ be_bytes 2 (unat port)) readConnectResponse)))"

text \<open>\<open>Connect\<close>: the deadline of the context is set for the handshake and cleared however it ends.\<close>

definition Connect :: "int option \<Rightarrow> string \<Rightarrow> socks_config \<Rightarrow> io" where
  "Connect deadline target cfg c =
     (let handshake = authenticate cfg (socks_connect target)
      in case deadline of
           None \<Rightarrow> handshake c
         | Some d \<Rightarrow>
             if \<not> can_deadline c then (Some SetDeadlineErr, c)
             else (case handshake (c\<lparr>ConnDeadline := Some d\<rparr>) of
                     (r, c1) \<Rightarrow> (r, c1\<lparr>ConnDeadline := None\<rparr>)))"

subsection \<open>A server's view\<close>

datatype dest = DestV4 "u8 list" | DestV6 "u8 list" | DestName "u8 list"

text \<open>What a server of RFC 1928 and RFC 1929 reads: the method offered, the credentials, and the
  command CONNECT with its destination and port.\<close>

fun srv_counted :: "u8 list \<Rightarrow> (u8 list \<times> u8 list) option" where
  "srv_counted [] = None"
| "srv_counted (n # bs) = (if unat n \<le> length bs then Some (take (unat n) bs, drop (unat n) bs) else None)"

definition srv_login :: "u8 list \<Rightarrow> ((u8 list \<times> u8 list) \<times> u8 list) option" where
  "srv_login bs =
     (case bs of
        v # rest \<Rightarrow>
          if v \<noteq> 1 then None
          else Option.bind (srv_counted rest) (\<lambda>(u, r1).
                 map_option (\<lambda>(p, r2). ((u, p), r2)) (srv_counted r1))
      | [] \<Rightarrow> None)"

definition srv_dest :: "u8 \<Rightarrow> u8 list \<Rightarrow> (dest \<times> u8 list) option" where
  "srv_dest atyp bs =
     (if atyp = 1 then (if 4 \<le> length bs then Some (DestV4 (take 4 bs), drop 4 bs) else None)
      else if atyp = 3 then map_option (\<lambda>(h, r). (DestName h, r)) (srv_counted bs)
      else if atyp = 4 then (if 16 \<le> length bs then Some (DestV6 (take 16 bs), drop 16 bs) else None)
      else None)"

definition srv_request :: "u8 list \<Rightarrow> (dest \<times> u8 list) option" where
  "srv_request bs =
     (case bs of
        v # cmd # rsv # atyp # rest \<Rightarrow>
          if v = 5 \<and> cmd = 1 \<and> rsv = 0 then
            Option.bind (srv_dest atyp rest) (\<lambda>(d, port). if length port = 2 then Some (d, port) else None)
          else None
      | _ \<Rightarrow> None)"

definition srv_read :: "u8 list \<Rightarrow> ((u8 list \<times> u8 list) option \<times> dest \<times> u8 list) option" where
  "srv_read bs =
     (case bs of
        v # n # m # rest \<Rightarrow>
          if v = 5 \<and> n = 1 \<and> m = 0 then map_option (\<lambda>(d, p). (None, d, p)) (srv_request rest)
          else if v = 5 \<and> n = 1 \<and> m = 2 then
            Option.bind (srv_login rest) (\<lambda>(cred, r1). map_option (\<lambda>(d, p). (Some cred, d, p)) (srv_request r1))
          else None
      | _ \<Rightarrow> None)"

text \<open>The answers of a server that agrees: to the greeting, to the login, and to the request with the
  address that it has bound.\<close>

definition srv_bound :: "u8 list \<Rightarrow> bool" where
  "srv_bound b \<longleftrightarrow>
     (\<exists>a p. length p = 2 \<and>
        ((b = [1] @ a @ p \<and> length a = 4) \<or> (b = [4] @ a @ p \<and> length a = 16)
         \<or> (b = [3, of_nat (length a)] @ a @ p \<and> length a \<le> 255)))"

definition srv_agrees :: "socks_config \<Rightarrow> u8 list \<Rightarrow> bool" where
  "srv_agrees cfg bs \<longleftrightarrow>
     (\<exists>rsv b. srv_bound b
        \<and> bs = [5, auth_method cfg] @ (if auth_method cfg = 2 then [1, 0] else []) @ [5, 0, rsv] @ b)"

subsection \<open>Steps that succeed\<close>

named_theorems io_ok "when a step of the handshake succeeds"

lemma fail_ok [io_ok]: "fail e c = (None, c') \<longleftrightarrow> False"
  by (simp add: fail_def)

lemma done_ok [io_ok]: "done_io c = (None, c') \<longleftrightarrow> c' = c"
  by (auto simp: done_io_def)

lemma send_ok [io_ok]:
  "send bs k c = (None, c') \<longleftrightarrow>
     write_ok c (length (Written c)) \<and> k (c\<lparr>Written := Written c @ bs\<rparr>) = (None, c')"
  by (simp add: send_def)

lemma read_full_ok [io_ok]:
  "read_full n k c = (None, c') \<longleftrightarrow>
     (\<exists>bs rest. length bs = n \<and> Incoming c = bs @ rest \<and> k bs (c\<lparr>Incoming := rest\<rparr>) = (None, c'))"
  (is "?l \<longleftrightarrow> ?r")
proof
  assume ?l
  then have "n \<le> length (Incoming c)"
    "k (take n (Incoming c)) (c\<lparr>Incoming := drop n (Incoming c)\<rparr>) = (None, c')"
    by (simp_all add: read_full_def split: if_splits)
  then show ?r by (intro exI [of _ "take n (Incoming c)"] exI [of _ "drop n (Incoming c)"]) simp
qed (auto simp: read_full_def)

lemma if_ok [io_ok]: "(if b then f else g) c = r \<longleftrightarrow> (if b then f c = r else g c = r)"
  for f :: io by simp

lemma length_2: "length xs = 2 \<longleftrightarrow> (\<exists>a b. xs = [a, b])"
  by (auto simp: numeral_2_eq_2 length_Suc_conv)

lemma length_4: "length xs = 4 \<longleftrightarrow> (\<exists>a b c d. xs = [a, b, c, d])"
  by (auto simp: numeral_eq_Suc length_Suc_conv)

lemma length_be_bytes [simp]: "length (be_bytes n v) = n"
  by (simp add: be_bytes_def)

lemma length_bytes_of [simp]: "length (bytes_of s) = length s"
  by (simp add: bytes_of_def)

lemma unat_u8_of_nat [simp]: "n \<le> 255 \<Longrightarrow> unat (of_nat n :: u8) = n"
  by (simp add: unat_of_nat)

lemma u8_le: "unat (n :: u8) \<le> 255"
  using unsigned_less [of n, where 'a = nat] by simp

lemma read_header:
  "read_full 4 k c = (None, c') \<longleftrightarrow>
     (\<exists>v w x y rest. Incoming c = v # w # x # y # rest \<and> k [v, w, x, y] (c\<lparr>Incoming := rest\<rparr>) = (None, c'))"
  unfolding read_full_ok length_4 by fastforce

lemma read_one:
  "read_full 1 k c = (None, c') \<longleftrightarrow>
     (\<exists>v rest. Incoming c = v # rest \<and> k [v] (c\<lparr>Incoming := rest\<rparr>) = (None, c'))"
  unfolding read_full_ok by (auto simp: length_Suc_conv)

lemma read_pair:
  "read_full 2 k c = (None, c') \<longleftrightarrow>
     (\<exists>v w rest. Incoming c = v # w # rest \<and> k [v, w] (c\<lparr>Incoming := rest\<rparr>) = (None, c'))"
  unfolding read_full_ok length_2 by fastforce

subsection \<open>The reply\<close>

lemma read_bound_ok [io_ok]:
  "read_bound atyp c = (None, c') \<longleftrightarrow>
     (\<exists>b. srv_bound (atyp # b) \<and> Incoming c = b @ Incoming c' \<and> c' = c\<lparr>Incoming := Incoming c'\<rparr>)"
  (is "?l \<longleftrightarrow> ?r")
proof
  assume l: ?l
  then have "atyp = 1 \<or> atyp = 3 \<or> atyp = 4"
    by (rule contrapos_pp) (simp add: read_bound_def io_ok)
  then consider "atyp = 1" | "atyp = 3" | "atyp = 4" by blast
  then show ?r
  proof cases
    case 1
    with l obtain a p r where "length a = 4" "length p = 2" "Incoming c = (a @ p) @ r" "c' = c\<lparr>Incoming := r\<rparr>"
      by (auto simp: read_bound_def io_ok)
    with 1 show ?thesis unfolding srv_bound_def by (intro exI [of _ "a @ p"]) auto
  next
    case 2
    with l have "read_full 1 (\<lambda>b. read_full (unat (b ! 0)) (\<lambda>a. read_full 2 (\<lambda>p. done_io))) c = (None, c')"
      by (simp add: read_bound_def)
    then obtain n r1 where n: "Incoming c = n # r1"
      and r1: "read_full (unat n) (\<lambda>a. read_full 2 (\<lambda>p. done_io)) (c\<lparr>Incoming := r1\<rparr>) = (None, c')"
      unfolding read_one by auto
    from r1 obtain a r2 where a: "length a = unat n" "r1 = a @ r2"
      and r2: "read_full 2 (\<lambda>p. done_io) (c\<lparr>Incoming := r2\<rparr>) = (None, c')"
      unfolding read_full_ok [of "unat n"] by auto
    from r2 obtain p r where "length p = 2" "r2 = p @ r" "c' = c\<lparr>Incoming := r\<rparr>"
      unfolding read_full_ok done_ok by auto
    have "n = of_nat (length a)" "length a \<le> 255" using a(1) u8_le [of n] by simp_all
    then have "srv_bound (atyp # [n] @ a @ p)" using 2 \<open>length p = 2\<close> unfolding srv_bound_def
      by (intro exI [of _ a] exI [of _ p]) simp
    with n a(2) \<open>r2 = p @ r\<close> \<open>c' = c\<lparr>Incoming := r\<rparr>\<close> show ?thesis
      by (intro exI [of _ "[n] @ a @ p"]) simp
  next
    case 3
    with l obtain a p r where "length a = 16" "length p = 2" "Incoming c = (a @ p) @ r" "c' = c\<lparr>Incoming := r\<rparr>"
      by (auto simp: read_bound_def io_ok)
    with 3 show ?thesis unfolding srv_bound_def by (intro exI [of _ "a @ p"]) auto
  qed
next
  assume ?r
  then obtain b where b: "srv_bound (atyp # b)" "Incoming c = b @ Incoming c'"
    "c' = c\<lparr>Incoming := Incoming c'\<rparr>" by blast
  from b(1) obtain a p where "length p = 2" and
    "(atyp = 1 \<and> b = a @ p \<and> length a = 4) \<or> (atyp = 4 \<and> b = a @ p \<and> length a = 16)
      \<or> (atyp = 3 \<and> b = of_nat (length a) # a @ p \<and> length a \<le> 255)"
    unfolding srv_bound_def by auto
  with b(2,3) show ?l
    by (elim disjE) (auto simp: read_bound_def read_full_def done_io_def unat_u8_of_nat)
qed

lemma response_ok [io_ok]:
  "readConnectResponse c = (None, c') \<longleftrightarrow>
     (\<exists>rsv b. srv_bound b \<and> Incoming c = [5, 0, rsv] @ b @ Incoming c' \<and> c' = c\<lparr>Incoming := Incoming c'\<rparr>)"
proof -
  have bound: "srv_bound b \<Longrightarrow> \<exists>atyp t. b = atyp # t" for b unfolding srv_bound_def by auto
  have "readConnectResponse c = (None, c') \<longleftrightarrow>
      (\<exists>rsv atyp t. srv_bound (atyp # t) \<and> Incoming c = [5, 0, rsv, atyp] @ t @ Incoming c'
        \<and> c' = c\<lparr>Incoming := Incoming c'\<rparr>)"
    unfolding readConnectResponse_def read_header by (auto simp: io_ok)
  also have "\<dots> \<longleftrightarrow> (\<exists>rsv b. srv_bound b \<and> Incoming c = [5, 0, rsv] @ b @ Incoming c'
      \<and> c' = c\<lparr>Incoming := Incoming c'\<rparr>)"
    using bound by fastforce
  finally show ?thesis .
qed

subsection \<open>The handshake\<close>

text \<open>What the client writes for a configuration and a destination.\<close>

definition login_bytes :: "socks_config \<Rightarrow> u8 list" where
  "login_bytes cfg =
     (if auth_method cfg = 2
      then [1, of_nat (length (SocksUser cfg))] @ bytes_of (SocksUser cfg)
           @ [of_nat (length (SocksPassword cfg))] @ bytes_of (SocksPassword cfg)
      else [])"

definition config_ok :: "socks_config \<Rightarrow> bool" where
  "config_ok cfg \<longleftrightarrow> (SocksUser cfg \<noteq> [] \<longrightarrow> length (SocksUser cfg) \<le> 255 \<and> length (SocksPassword cfg) \<le> 255)"

definition request_bytes :: "string \<Rightarrow> u8 list option" where
  "request_bytes target =
     (case split_host_port target of
        None \<Rightarrow> None
      | Some (host, ps) \<Rightarrow>
          (case parse_uint16 ps of
             None \<Rightarrow> None
           | Some port \<Rightarrow>
               map_option (\<lambda>(atyp, address). [5, 1, 0, atyp] @ address @ be_bytes 2 (unat port)) (encodeAddress host)))"

lemma socks_connect_ok [io_ok]:
  "socks_connect target c = (None, c') \<longleftrightarrow>
     (\<exists>rq. request_bytes target = Some rq \<and> write_ok c (length (Written c))
        \<and> readConnectResponse (c\<lparr>Written := Written c @ rq\<rparr>) = (None, c'))"
  unfolding socks_connect_def request_bytes_def
  by (auto simp: io_ok simp del: response_ok split: option.splits prod.splits)

lemma login_ok:
  "usernamePasswordAuth user pw k c = (None, c') \<longleftrightarrow>
     length user \<le> 255 \<and> length pw \<le> 255 \<and> write_ok c (length (Written c))
     \<and> (\<exists>rest. Incoming c = [1, 0] @ rest
          \<and> k (c\<lparr>Written := Written c @ [1, of_nat (length user)] @ bytes_of user
                              @ [of_nat (length pw)] @ bytes_of pw, Incoming := rest\<rparr>) = (None, c'))"
  unfolding usernamePasswordAuth_def
  by (auto simp: fail_ok send_ok if_ok read_pair split: if_splits)

lemma authenticate_ok:
  "authenticate cfg k c = (None, c') \<longleftrightarrow>
     write_ok c (length (Written c))
     \<and> (\<exists>rest. Incoming c = [5, auth_method cfg] @ rest
          \<and> (let c1 = c\<lparr>Written := Written c @ [5, 1, auth_method cfg], Incoming := rest\<rparr>
             in if auth_method cfg = 2 then usernamePasswordAuth (SocksUser cfg) (SocksPassword cfg) k c1 = (None, c')
                else k c1 = (None, c')))"
  unfolding authenticate_def
  by (auto simp: fail_ok send_ok if_ok read_pair auth_method_def Let_def split: if_splits)

lemma handshake_written:
  assumes "authenticate cfg (socks_connect target) c = (None, c')"
  shows "\<exists>rq bs. request_bytes target = Some rq \<and> srv_agrees cfg bs \<and> config_ok cfg
     \<and> Incoming c = bs @ Incoming c'
     \<and> c' = c\<lparr>Written := Written c @ [5, 1, auth_method cfg] @ login_bytes cfg @ rq, Incoming := Incoming c'\<rparr>"
proof (cases "auth_method cfg = 2")
  case True
  then have user: "SocksUser cfg \<noteq> []" by (simp add: auth_method_def split: if_splits)
  from assms True obtain rest rq rsv b where "Incoming c = [5, 2, 1, 0, 5, 0, rsv] @ b @ Incoming c'"
    "srv_bound b" "request_bytes target = Some rq" "length (SocksUser cfg) \<le> 255" "length (SocksPassword cfg) \<le> 255"
    "c' = c\<lparr>Written := Written c @ [5, 1, auth_method cfg] @ login_bytes cfg @ rq, Incoming := Incoming c'\<rparr>"
    by (auto simp: authenticate_ok login_ok socks_connect_ok response_ok Let_def login_bytes_def)
  with True show ?thesis
    unfolding srv_agrees_def config_ok_def
    by (intro exI [of _ rq] exI [of _ "[5, 2, 1, 0, 5, 0, rsv] @ b"]) auto
next
  case False
  then have user: "SocksUser cfg = []" by (simp add: auth_method_def split: if_splits)
  from assms False obtain rq rsv b where "Incoming c = [5, auth_method cfg, 5, 0, rsv] @ b @ Incoming c'"
    "srv_bound b" "request_bytes target = Some rq"
    "c' = c\<lparr>Written := Written c @ [5, 1, auth_method cfg] @ login_bytes cfg @ rq, Incoming := Incoming c'\<rparr>"
    by (auto simp: authenticate_ok socks_connect_ok response_ok Let_def login_bytes_def)
  with False user show ?thesis
    unfolding srv_agrees_def config_ok_def
    by (intro exI [of _ rq] exI [of _ "[5, auth_method cfg, 5, 0, rsv] @ b"]) auto
qed

lemma handshake_succeeds:
  assumes "\<forall>n. write_ok c n" and "config_ok cfg" and "request_bytes target = Some rq"
    and "srv_agrees cfg bs" and "Incoming c = bs @ rest"
  shows "\<exists>c'. authenticate cfg (socks_connect target) c = (None, c') \<and> Incoming c' = rest"
proof -
  let ?c = "c\<lparr>Written := Written c @ [5, 1, auth_method cfg] @ login_bytes cfg @ rq, Incoming := rest\<rparr>"
  have "authenticate cfg (socks_connect target) c = (None, ?c)"
    using assms unfolding srv_agrees_def config_ok_def
    by (auto simp: authenticate_ok login_ok socks_connect_ok response_ok Let_def login_bytes_def auth_method_def
        split: if_splits)
  then show ?thesis by (intro exI [of _ ?c]) simp
qed

subsection \<open>The server reads what was meant\<close>

lemma srv_counted_bytes [simp]:
  "length s \<le> 255 \<Longrightarrow> srv_counted (of_nat (length s) # bytes_of s @ r) = Some (bytes_of s, r)"
  by simp

declare srv_counted.simps(2) [simp del]

definition dest_of :: "string \<Rightarrow> dest" where
  "dest_of host =
     (case net_ParseIP host of
        None \<Rightarrow> DestName (bytes_of host)
      | Some w \<Rightarrow> (case unmap16 w of V4 a \<Rightarrow> DestV4 (be_bytes 4 (unat a)) | V6 a \<Rightarrow> DestV6 (be_bytes 16 (unat a))))"

definition credentials :: "socks_config \<Rightarrow> (u8 list \<times> u8 list) option" where
  "credentials cfg =
     (if SocksUser cfg = [] then None else Some (bytes_of (SocksUser cfg), bytes_of (SocksPassword cfg)))"

lemma srv_request_bytes:
  assumes "request_bytes target = Some rq"
  obtains host ps port where "split_host_port target = Some (host, ps)" "parse_uint16 ps = Some port"
    "srv_request rq = Some (dest_of host, be_bytes 2 (unat port))"
proof -
  from assms obtain host ps port atyp address where
    parts: "split_host_port target = Some (host, ps)" "parse_uint16 ps = Some port"
      "encodeAddress host = Some (atyp, address)" "rq = [5, 1, 0, atyp] @ address @ be_bytes 2 (unat port)"
    unfolding request_bytes_def by (auto split: option.splits prod.splits)
  have "srv_dest atyp (address @ r) = Some (dest_of host, r)" for r
    using parts(3)
    by (auto simp: encodeAddress_def srv_dest_def dest_of_def ip_bytes_def not_less
        split: option.splits addr.splits if_splits)
  then have "srv_request rq = Some (dest_of host, be_bytes 2 (unat port))"
    using parts(4) by (simp add: srv_request_def)
  with parts that show thesis by blast
qed

lemma srv_read_written:
  assumes "config_ok cfg" and "srv_request rq = Some d"
  shows "srv_read ([5, 1, auth_method cfg] @ login_bytes cfg @ rq) = Some (credentials cfg, d)"
proof (cases "SocksUser cfg = []")
  case False
  then have "srv_login (login_bytes cfg @ rq) = Some ((bytes_of (SocksUser cfg), bytes_of (SocksPassword cfg)), rq)"
    using assms(1) by (simp add: srv_login_def login_bytes_def auth_method_def config_ok_def)
  with False assms show ?thesis by (cases d) (simp add: srv_read_def auth_method_def credentials_def)
qed (use assms in \<open>cases d; simp add: srv_read_def auth_method_def login_bytes_def credentials_def\<close>)

text \<open>C22. When \<open>Connect\<close> returns no error, a server of RFC 1928 and 1929 that reads what the client has
  written finds exactly the credentials of the configuration, the host of the target (as an address
  where it is one, mapped IPv4 as IPv4) and its port; the client has consumed a complete agreeing
  answer and not a byte more, and the deadline is cleared.\<close>

theorem socks_server_reads:
  assumes "Connect deadline target cfg c = (None, c')" and "Written c = []"
  shows "\<exists>host ps port bs.
      split_host_port target = Some (host, ps) \<and> parse_uint16 ps = Some port
      \<and> srv_read (Written c') = Some (credentials cfg, dest_of host, be_bytes 2 (unat port))
      \<and> srv_agrees cfg bs \<and> Incoming c = bs @ Incoming c'
      \<and> (deadline \<noteq> None \<longrightarrow> ConnDeadline c' = None)"
proof -
  define c0 where "c0 = (case deadline of None \<Rightarrow> c | Some d \<Rightarrow> c\<lparr>ConnDeadline := Some d\<rparr>)"
  obtain c1 where c1: "authenticate cfg (socks_connect target) c0 = (None, c1)"
    "Written c' = Written c1" "Incoming c' = Incoming c1" "deadline \<noteq> None \<longrightarrow> ConnDeadline c' = None"
    using assms(1) by (auto simp: Connect_def Let_def c0_def split: option.splits if_splits prod.splits)
  have c0: "Incoming c0 = Incoming c" "Written c0 = []" using assms(2) by (simp_all add: c0_def split: option.split)
  obtain rq bs where hs: "request_bytes target = Some rq" "srv_agrees cfg bs" "config_ok cfg"
    "Incoming c0 = bs @ Incoming c1" "Written c1 = [5, 1, auth_method cfg] @ login_bytes cfg @ rq"
    using handshake_written [OF c1(1)] c0(2) by (auto intro: that dest: arg_cong [of _ _ Written])
  from srv_request_bytes [OF hs(1)] obtain host ps port where
    "split_host_port target = Some (host, ps)" "parse_uint16 ps = Some port"
    "srv_request rq = Some (dest_of host, be_bytes 2 (unat port))" by metis
  with srv_read_written [OF hs(3)] hs c1 c0 show ?thesis by auto
qed

text \<open>C23. Against a server that agrees, over a connection that takes every write, \<open>Connect\<close> always
  succeeds and leaves the bytes after the answer to the caller; and it succeeds against no other.\<close>

theorem socks_handshake_exact:
  assumes "\<forall>n. write_ok c n" and "deadline = None \<or> can_deadline c" and "config_ok cfg"
    and "request_bytes target = Some rq"
  shows "(\<exists>c'. Connect deadline target cfg c = (None, c') \<and> Incoming c' = rest)
         \<longleftrightarrow> (\<exists>bs. srv_agrees cfg bs \<and> Incoming c = bs @ rest)"
proof -
  define c0 where "c0 = (case deadline of None \<Rightarrow> c | Some d \<Rightarrow> c\<lparr>ConnDeadline := Some d\<rparr>)"
  have c0: "Incoming c0 = Incoming c" "\<forall>n. write_ok c0 n"
    using assms(1) by (simp_all add: c0_def split: option.split)
  have "(\<exists>c'. Connect deadline target cfg c = (None, c') \<and> Incoming c' = rest)
      \<longleftrightarrow> (\<exists>c1. authenticate cfg (socks_connect target) c0 = (None, c1) \<and> Incoming c1 = rest)"
    using assms(2) by (force simp: Connect_def Let_def c0_def split: option.splits prod.splits)
  also have "\<dots> \<longleftrightarrow> (\<exists>bs. srv_agrees cfg bs \<and> Incoming c = bs @ rest)"
    using handshake_written [of cfg target c0] handshake_succeeds [OF c0(2) assms(3,4)] c0(1) by metis
  finally show ?thesis .
qed

subsection \<open>A handshake\<close>

definition demo_login :: socks_config where
  "demo_login = \<lparr>SocksUser = ''me'', SocksPassword = ''pw''\<rparr>"

text \<open>A server that takes the password and binds \<open>10.0.0.1:80\<close>; one byte follows.\<close>

definition demo_conn :: conn where
  "demo_conn = \<lparr>Incoming = [5, 2, 1, 0, 5, 0, 0, 1, 10, 0, 0, 1, 0, 80, 42], Written = [],
                write_ok = \<lambda>n. True, can_deadline = True, ConnDeadline = None\<rparr>"

lemma demo_target:
  "split_host_port ''a.io:443'' = Some (''a.io'', ''443'')" "net_ParseIP ''a.io'' = None"
  "parse_uint16 ''443'' = Some 443" "be_bytes 2 443 = [1, 187]"
  subgoal by code_simp
  subgoal by code_simp
  subgoal by (simp add: parse_uint16_def is_digit_def dec_val_def digit_val_def)
  subgoal by (simp add: be_bytes_def upt_rec)
  done

lemma demo_connects:
  "fst (Connect (Some 9) ''a.io:443'' demo_login demo_conn) = None"
  "Incoming (snd (Connect (Some 9) ''a.io:443'' demo_login demo_conn)) = [42]"
  by (simp_all add: Connect_def Let_def authenticate_def demo_login_def demo_conn_def auth_method_def
      send_def read_full_def usernamePasswordAuth_def bytes_of_def socks_connect_def demo_target
      encodeAddress_def readConnectResponse_def read_bound_def done_io_def)

lemma socks_server_reads_witness:
  "\<exists>c'. Connect (Some 9) ''a.io:443'' demo_login demo_conn = (None, c')
     \<and> srv_read (Written c') = Some (Some (bytes_of ''me'', bytes_of ''pw''), DestName (bytes_of ''a.io''), [1, 187])"
proof -
  let ?c = "snd (Connect (Some 9) ''a.io:443'' demo_login demo_conn)"
  have run: "Connect (Some 9) ''a.io:443'' demo_login demo_conn = (None, ?c)"
    using demo_connects(1) by (metis prod.collapse)
  from socks_server_reads [OF run] demo_target run show ?thesis
    by (intro exI [of _ ?c]) (auto simp: demo_conn_def dest_of_def credentials_def demo_login_def)
qed

lemma socks_handshake_exact_witness:
  "\<exists>bs. srv_agrees demo_login bs \<and> Incoming demo_conn = bs @ [42]"
proof -
  have "\<exists>rq. request_bytes ''a.io:443'' = Some rq"
    using demo_target by (simp add: request_bytes_def encodeAddress_def)
  then obtain rq where rq: "request_bytes ''a.io:443'' = Some rq" by blast
  have "\<exists>c'. Connect (Some 9) ''a.io:443'' demo_login demo_conn = (None, c') \<and> Incoming c' = [42]"
    using demo_connects(1,2) by (intro exI [of _ "snd (Connect (Some 9) ''a.io:443'' demo_login demo_conn)"])
      (simp add: prod_eq_iff)
  with socks_handshake_exact [of demo_conn "Some 9" demo_login "''a.io:443''" rq "[42]"] rq
  show ?thesis by (simp add: demo_conn_def config_ok_def demo_login_def)
qed

end
