(* ===== verification/TunnelProbe.thy ===== *)
theory TunnelProbe
  imports TunnelConfig PortManager
begin

text \<open>
  The probes of the six tunnel protocols (\<open>internal/core/scanner/probe/*probe\<close>), with the SSH client
  (\<open>internal/core/ssh/client.go\<close>) as far as it decides with what it authenticates, and the measurement of a
  latency (\<open>internal/core/speedtest\<close>). The tunnels are those of \<open>TunnelConfig\<close>, the local ports those of
  \<open>PortManager\<close>. What a tunnel library, a dialled connection and the HTTP client answer is a parameter, a
  \<open>world\<close> of each attempt.
\<close>

subsection \<open>Latency\<close>

definition ErrAboveMaximum :: sentinel where "ErrAboveMaximum = Plain 40"
definition ErrBelowMinimum :: sentinel where "ErrBelowMinimum = Plain 41"

record LatencyConfig =
  LatURL :: string
  LatTimeout :: int
  MaxLatency :: int
  LatProxyPort :: u16

definition GoogleGenerate204HTTP :: string where
  "GoogleGenerate204HTTP = ''http://www.google.com/generate_204''"

definition AboveMaximum :: "int \<Rightarrow> int \<Rightarrow> bool" where
  "AboveMaximum mx rtt \<longleftrightarrow> 0 < mx \<and> mx < rtt"

text \<open>\<open>newHTTPClient\<close> fails when it has neither a dialer nor a proxy port. \<open>fetch\<close> is the answer of
  \<open>client.Do\<close> for the URL: an error with whether the deadline of the request has passed, or the status,
  and the time it took.\<close>

definition newHTTPClient :: "'d option \<Rightarrow> u16 \<Rightarrow> bool" where
  "newHTTPClient dialer port \<longleftrightarrow> dialer \<noteq> None \<or> port \<noteq> 0"

type_synonym 'd fetch = "'d option \<Rightarrow> string \<Rightarrow> (go_err \<times> bool) + int \<times> int"

definition MeasureLatency :: "'d fetch \<Rightarrow> LatencyConfig \<Rightarrow> 'd option \<Rightarrow> go_err + int" where
  "MeasureLatency fetch cfg dialer =
     (if \<not> newHTTPClient dialer (LatProxyPort cfg) then Inl [Plain 42]
      else
        let url = (if LatURL cfg = [] then GoogleGenerate204HTTP else LatURL cfg)
        in case fetch dialer url of
             Inl (err, expired) \<Rightarrow> Inl (if expired then [Plain 43, DeadlineExceeded] else wrap_err (Some err))
           | Inr (status, rtt) \<Rightarrow>
               if status \<noteq> 200 \<and> status \<noteq> 204 then Inl [Plain 44]
               else if AboveMaximum (MaxLatency cfg) rtt then Inl [Plain 45, ErrAboveMaximum]
               else Inr rtt)"

subsection \<open>SSH\<close>

record SSHConfig =
  SshUser :: string
  SshPassword :: string
  SshPrivateKey :: string
  SshKnownHosts :: string
  SshHandshake :: int
  InsecureHostKey :: bool

datatype ssh_method = PasswordMethod string | KeyMethod string
datatype host_check = KnownHosts string | AnyHost

definition ErrContextCanceled :: sentinel where "ErrContextCanceled = Plain 50"
definition ErrNoAuthConfigured :: sentinel where "ErrNoAuthConfigured = Plain 51"
definition ErrParsePrivateKey :: sentinel where "ErrParsePrivateKey = Plain 52"
definition ErrLoadKnownHosts :: sentinel where "ErrLoadKnownHosts = Plain 53"
definition ErrHandshake :: sentinel where "ErrHandshake = Plain 54"
definition ErrDial :: sentinel where "ErrDial = Plain 55"

definition sshAuthMethods :: "tunnel_env \<Rightarrow> SSHConfig \<Rightarrow> go_err + ssh_method list" where
  "sshAuthMethods env c =
     (let pw = (if SshPassword c \<noteq> [] then [PasswordMethod (SshPassword c)] else [])
      in if SshPrivateKey c \<noteq> [] \<and> \<not> ssh_key_ok env (SshPrivateKey c) then Inl [ErrParsePrivateKey]
         else
           let methods = pw @ (if SshPrivateKey c \<noteq> [] then [KeyMethod (SshPrivateKey c)] else [])
           in if methods = [] then Inl [ErrNoAuthConfigured] else Inr methods)"

definition hostKeyCallbackFor :: "tunnel_env \<Rightarrow> SSHConfig \<Rightarrow> go_err + host_check" where
  "hostKeyCallbackFor env c =
     (if SshKnownHosts c \<noteq> [] then
        (if hosts_file_ok env (SshKnownHosts c) then Inr (KnownHosts (SshKnownHosts c)) else Inl [ErrLoadKnownHosts])
      else if InsecureHostKey c then Inr AnyHost
      else Inl [ErrLoadKnownHosts])"

definition handshakeTimeoutFor :: "SSHConfig \<Rightarrow> int" where
  "handshakeTimeoutFor c = (if 0 < SshHandshake c then SshHandshake c else 30 * Second)"

record ssh_client =
  ClientAddr :: string
  ClientUser :: string
  ClientAuth :: "ssh_method list"
  ClientHostCheck :: host_check
  ClientTimeout :: int

text \<open>The race of the handshake with the context.\<close>

datatype race = CtxFirst go_err | Finished "go_err option"

text \<open>\<open>Connect\<close>: the client or the error, and whether the connection was closed.\<close>

definition ssh_Connect ::
  "tunnel_env \<Rightarrow> go_err option \<Rightarrow> race \<Rightarrow> string \<Rightarrow> SSHConfig \<Rightarrow> (go_err + ssh_client) \<times> bool" where
  "ssh_Connect env ctx hs address c =
     (case ctx of
        Some err \<Rightarrow> (Inl (ErrContextCanceled # err), True)
      | None \<Rightarrow>
          (case sshAuthMethods env c of
             Inl err \<Rightarrow> (Inl err, True)
           | Inr methods \<Rightarrow>
               (case hostKeyCallbackFor env c of
                  Inl err \<Rightarrow> (Inl err, True)
                | Inr check \<Rightarrow>
                    (case hs of
                       CtxFirst err \<Rightarrow> (Inl (ErrContextCanceled # err), True)
                     | Finished (Some err) \<Rightarrow> (Inl (ErrHandshake # err), True)
                     | Finished None \<Rightarrow>
                         (Inr \<lparr>ClientAddr = address, ClientUser = SshUser c, ClientAuth = methods,
                               ClientHostCheck = check, ClientTimeout = handshakeTimeoutFor c\<rparr>, False)))))"

subsection \<open>Dialers\<close>

text \<open>The configuration of the SOCKS client, user and password, and what a probe dials through: the
  connection of the tunnel itself, or a new one to the local listener of a tunnel client.\<close>

datatype dialer =
  SSHDial ssh_client
| SOCKSDial "string \<times> string"
| LocalSSHDial string string SSHConfig
| LocalSOCKSDial string "string \<times> string"

definition ssh_auth :: "'a proxy_settings_scheme \<Rightarrow> int \<Rightarrow> SSHConfig" where
  "ssh_auth c limit =
     (if AuthMethod c = ''key''
      then \<lparr>SshUser = Username c, SshPassword = [], SshPrivateKey = PrivateKey c,
            SshKnownHosts = KnownHostsFile c, SshHandshake = limit, InsecureHostKey = False\<rparr>
      else \<lparr>SshUser = Username c, SshPassword = Password c, SshPrivateKey = [],
            SshKnownHosts = KnownHostsFile c, SshHandshake = limit, InsecureHostKey = False\<rparr>)"

definition ssh_port :: "'a proxy_settings_scheme \<Rightarrow> u16" where
  "ssh_port c = (if ProxyPort c = 0 then 22 else ProxyPort c)"

definition socks_login :: "'a proxy_settings_scheme \<Rightarrow> string \<times> string" where
  "socks_login c = ((if AuthMethod c = ''none'' then [] else Username c), Password c)"

text \<open>\<open>dialSSH\<close> and \<open>dialSOCKS\<close> of the DNSTT and VayDNS probes. \<open>hs\<close> is the race inside \<open>Connect\<close>,
  \<open>outer\<close> that of \<open>Connect\<close> with the context of the probe. The result, and how often the tunnel
  was closed.\<close>

definition dialSSH ::
  "tunnel_env \<Rightarrow> go_err option \<Rightarrow> race \<Rightarrow> go_err option \<Rightarrow> 'a proxy_settings_scheme \<Rightarrow> string \<Rightarrow> int
   \<Rightarrow> (go_err + dialer) \<times> nat" where
  "dialSSH env ctx hs outer c domain limit =
     (if AuthMethod c = ''none'' then (Inl [Plain 60], 0)
      else case ctx of
             Some err \<Rightarrow> (Inl err, 0)
           | None \<Rightarrow>
               (case ssh_Connect env ctx hs (join_host_port domain (show_nat (unat (ssh_port c)))) (ssh_auth c limit) of
                  (r, shut) \<Rightarrow>
                    (case outer of
                       Some err \<Rightarrow> (Inl (wrap_err (Some err)), (if shut then 2 else 1))
                     | None \<Rightarrow>
                         (case r of
                            Inl err \<Rightarrow> (Inl (wrap_err (Some err)), 1)
                          | Inr client \<Rightarrow> (Inr (SSHDial client), 0)))))"

definition dialSOCKS :: "'a proxy_settings_scheme \<Rightarrow> go_err + dialer" where
  "dialSOCKS c = (if AuthMethod c = ''key'' then Inl [Plain 61] else Inr (SOCKSDial (socks_login c)))"

text \<open>Those of the Slipstream probe, through its local listener.\<close>

definition local_dialSSH :: "SlipstreamConfig \<Rightarrow> string \<Rightarrow> int \<Rightarrow> go_err + dialer" where
  "local_dialSSH c proxyAddr limit =
     (if AuthMethod c = ''none'' then Inl [Plain 60]
      else Inr (LocalSSHDial proxyAddr (join_host_port (SsDomain c) (show_nat (unat (ssh_port c)))) (ssh_auth c limit)))"

definition local_dialSOCKS :: "SlipstreamConfig \<Rightarrow> string \<Rightarrow> go_err + dialer" where
  "local_dialSOCKS c proxyAddr =
     (if AuthMethod c = ''key'' then Inl [Plain 61] else Inr (LocalSOCKSDial proxyAddr (socks_login c)))"

definition buildDialer :: "SlipstreamConfig \<Rightarrow> string \<Rightarrow> int \<Rightarrow> go_err + dialer" where
  "buildDialer c proxyAddr limit =
     (if ProxyType c = ''ssh'' then local_dialSSH c proxyAddr limit
      else if ProxyType c = ''socks'' then local_dialSOCKS c proxyAddr
      else Inl [Plain 62])"

subsection \<open>One attempt\<close>

text \<open>What an attempt meets: the error of opening the tunnel, the context and the races of the SSH
  client, the wait for the local listener with the context after it, and the HTTP client.\<close>

record world =
  OpenErr :: "go_err option"
  DialCtx :: "go_err option"
  Handshake :: race
  OuterCtx :: "go_err option"
  ListenErr :: "go_err option"
  ListenCtx :: "go_err option"
  Fetch :: "dialer fetch"

definition latency_cfg :: "int \<Rightarrow> LatencyConfig" where
  "latency_cfg limit =
     \<lparr>LatURL = GoogleGenerate204HTTP, LatTimeout = limit, MaxLatency = limit, LatProxyPort = 0\<rparr>"

text \<open>\<open>measureLatency\<close>; the result is built by \<open>mk\<close> from the latency.\<close>

definition measureLatency :: "world \<Rightarrow> int \<Rightarrow> dialer \<Rightarrow> (int \<Rightarrow> 'r) \<Rightarrow> go_err + 'r" where
  "measureLatency w limit d mk =
     (case MeasureLatency (Fetch w) (latency_cfg limit) (Some d) of
        Inl err \<Rightarrow> Inl (wrap_err (Some err)) | Inr rtt \<Rightarrow> Inr (mk rtt))"

text \<open>\<open>runOnce\<close> over a tunnel that is a connection: the result, and how often the tunnel was opened and
  closed; the deferred \<open>Close\<close> is the last one.\<close>

definition conn_runOnce ::
  "tunnel_env \<Rightarrow> 'a proxy_settings_scheme \<Rightarrow> string \<Rightarrow> int \<Rightarrow> (int \<Rightarrow> 'r) \<Rightarrow> world \<Rightarrow> (go_err + 'r) \<times> nat \<times> nat" where
  "conn_runOnce env c domain limit mk w =
     (case OpenErr w of
        Some err \<Rightarrow> (Inl err, 0, 0)
      | None \<Rightarrow>
          let (d, closes) =
                (if ProxyType c = ''ssh'' then dialSSH env (DialCtx w) (Handshake w) (OuterCtx w) c domain limit
                 else if ProxyType c = ''socks'' then (dialSOCKS c, 0)
                 else (Inl [Plain 62], 0))
          in case d of
               Inl err \<Rightarrow> (Inl err, 1, closes + 1)
             | Inr dl \<Rightarrow> (measureLatency w limit dl mk, 1, closes + 1))"

definition dnstt_result :: "DNSTTConfig \<Rightarrow> addr \<Rightarrow> int \<Rightarrow> TunnelResult" where
  "dnstt_result c ip rtt =
     \<lparr>TunIP = ip, TunLatency = rtt, TunTransport = DtResolverType c, TunPort = DtResolverPort c,
      TunAuth = AuthMethod c, TunProxy = ProxyType c\<rparr>"

definition vaydns_result :: "VayDNSConfig \<Rightarrow> addr \<Rightarrow> int \<Rightarrow> TunnelResult" where
  "vaydns_result c ip rtt =
     \<lparr>TunIP = ip, TunLatency = rtt, TunTransport = VdResolverType c, TunPort = VdResolverPort c,
      TunAuth = AuthMethod c, TunProxy = ProxyType c\<rparr>"

text \<open>\<open>runOnce\<close> over a client with a local listener, \<open>start\<close> its \<open>RunTunnel\<close>, \<open>host\<close> the address of the
  listener.\<close>

definition local_runOnce ::
  "(go_err + 't) \<Rightarrow> (string \<Rightarrow> go_err + dialer) \<Rightarrow> string \<Rightarrow> u16 \<Rightarrow> int \<Rightarrow> (int \<Rightarrow> 'r) \<Rightarrow> world \<Rightarrow> (go_err + 'r) \<times> nat \<times> nat" where
  "local_runOnce start mkDialer host port limit mk w =
     (case (case start of Inl err \<Rightarrow> Some err | Inr t \<Rightarrow> OpenErr w) of
        Some err \<Rightarrow> (Inl err, 0, 0)
      | None \<Rightarrow>
          let proxyAddr = join_host_port host (show_nat (unat port))
          in case ListenErr w of
               Some err \<Rightarrow>
                 (case ListenCtx w of
                    Some cerr \<Rightarrow> (Inl cerr, 1, 1) | None \<Rightarrow> (Inl (wrap_err (Some err)), 1, 1))
             | None \<Rightarrow>
                 (case mkDialer proxyAddr of
                    Inl err \<Rightarrow> (Inl err, 1, 1)
                  | Inr d \<Rightarrow> (measureLatency w limit d mk, 1, 1)))"

definition slipstream_runOnce ::
  "tunnel_env \<Rightarrow> SlipstreamConfig \<Rightarrow> int \<Rightarrow> addr \<Rightarrow> u16 \<Rightarrow> world \<Rightarrow> (go_err + SlipstreamResult) \<times> nat \<times> nat" where
  "slipstream_runOnce env c limit ip port w =
     local_runOnce (Slipstream_RunTunnel env (DialCtx w) c (Some ip) port (of_int (limit div Second)))
       (\<lambda>proxyAddr. buildDialer c proxyAddr limit) (show_addr (Loopback ip)) port limit
       (\<lambda>rtt. \<lparr>SlipIP = ip, SlipLatency = rtt, SlipPort = port, SlipAuth = AuthMethod c, SlipProxy = ProxyType c\<rparr>) w"

definition masterdns_runOnce ::
  "tunnel_env \<Rightarrow> MasterDNSConfig \<Rightarrow> int \<Rightarrow> addr \<Rightarrow> u16 \<Rightarrow> world \<Rightarrow> (go_err + MasterDNSResult) \<times> nat \<times> nat" where
  "masterdns_runOnce env c limit ip port w =
     local_runOnce (MasterDNS_RunTunnel env (DialCtx w) c (show_addr ip) port)
       (\<lambda>proxyAddr. Inr (LocalSOCKSDial proxyAddr ([], []))) ''127.0.0.1'' port limit
       (\<lambda>rtt. \<lparr>MasterIP = ip, MasterLatency = rtt, MasterPort = EmResolverPort c, MasterEnc = DataEncMethod c\<rparr>) w"

definition stormdns_runOnce ::
  "tunnel_env \<Rightarrow> StormDNSConfig \<Rightarrow> int \<Rightarrow> addr \<Rightarrow> u16 \<Rightarrow> world \<Rightarrow> (go_err + StormDNSResult) \<times> nat \<times> nat" where
  "stormdns_runOnce env c limit ip port w =
     local_runOnce (StormDNS_RunTunnel env (DialCtx w) c (show_addr ip) port)
       (\<lambda>proxyAddr. Inr (LocalSOCKSDial proxyAddr ([], []))) ''127.0.0.1'' port limit
       (\<lambda>rtt. \<lparr>StormIP = ip, StormLatency = rtt, StormPort = EmResolverPort c,
              StormQuery = normalizeQueryType (DNSQueryType c), StormEnc = DataEncMethod c\<rparr>) w"

definition thefeed_runOnce ::
  "go_err option \<Rightarrow> go_err option \<Rightarrow> int \<Rightarrow> TheFeedConfig \<Rightarrow> addr \<Rightarrow> go_err + TheFeedResult" where
  "thefeed_runOnce ctx tunnel latency c ip =
     (case ctx of
        Some err \<Rightarrow> Inl err
      | None \<Rightarrow>
          (case tunnel of
             Some err \<Rightarrow> Inl err
           | None \<Rightarrow> Inr \<lparr>FeedIP = ip, FeedLatency = latency, FeedDomain = TfDomain c, FeedMode = QueryMode c\<rparr>))"

subsection \<open>Runs\<close>

text \<open>The loop of every \<open>Run\<close>: \<open>ctx i\<close> is the error of the context before the attempt \<open>i\<close>, of which
  the one before the first is looked at by \<open>Run\<close> itself, \<open>once i\<close> the attempt. Both nil, the case of no
  attempt, is \<open>Inl None\<close>.\<close>

fun attempts :: "(nat \<Rightarrow> go_err option) \<Rightarrow> (nat \<Rightarrow> go_err + 'r) \<Rightarrow> nat \<Rightarrow> nat \<Rightarrow> go_err option \<Rightarrow> go_err option + 'r" where
  "attempts ctx once i 0 err = Inl (NormalizeErr err)"
| "attempts ctx once i (Suc n) err =
     (case once i of
        Inr r \<Rightarrow> Inr r
      | Inl e \<Rightarrow>
          (case ctx (Suc i) of
             Some cerr \<Rightarrow> Inl (Some cerr) | None \<Rightarrow> attempts ctx once (Suc i) n (Some e)))"

definition withTries :: "int \<Rightarrow> int" where
  "withTries n = (if 1 \<le> n then n else 1)"

definition run_attempts :: "(nat \<Rightarrow> go_err option) \<Rightarrow> (nat \<Rightarrow> go_err + 'r) \<Rightarrow> int \<Rightarrow> go_err option + 'r" where
  "run_attempts ctx once tries =
     (case ctx 0 of
        Some err \<Rightarrow> Inl (Some err)
      | None \<Rightarrow> attempts ctx once 0 (nat (if tries < 1 then 1 else tries)) None)"

definition DNSTT_Run ::
  "tunnel_env \<Rightarrow> (nat \<Rightarrow> go_err option) \<Rightarrow> (nat \<Rightarrow> world) \<Rightarrow> DNSTTConfig \<Rightarrow> int \<Rightarrow> int \<Rightarrow> addr
   \<Rightarrow> go_err option + TunnelResult" where
  "DNSTT_Run env ctx w c limit tries ip =
     run_attempts ctx (\<lambda>i. fst (conn_runOnce env c (DtDomain c) limit (dnstt_result c ip) (w i))) (withTries tries)"

definition VayDNS_Run ::
  "tunnel_env \<Rightarrow> (nat \<Rightarrow> go_err option) \<Rightarrow> (nat \<Rightarrow> world) \<Rightarrow> VayDNSConfig \<Rightarrow> int \<Rightarrow> int \<Rightarrow> addr
   \<Rightarrow> go_err option + TunnelResult" where
  "VayDNS_Run env ctx w c limit tries ip =
     run_attempts ctx (\<lambda>i. fst (conn_runOnce env c (VdDomain c) limit (vaydns_result c ip) (w i))) (withTries tries)"

definition TheFeed_Run ::
  "(nat \<Rightarrow> go_err option) \<Rightarrow> (nat \<Rightarrow> go_err option) \<Rightarrow> (nat \<Rightarrow> go_err option \<times> int) \<Rightarrow> TheFeedConfig \<Rightarrow> int \<Rightarrow> addr
   \<Rightarrow> go_err option + TheFeedResult" where
  "TheFeed_Run ctx ctx2 tunnel c tries ip =
     run_attempts ctx (\<lambda>i. thefeed_runOnce (ctx2 i) (fst (tunnel i)) (snd (tunnel i)) c ip) (withTries tries)"

text \<open>The runs that lease a port. \<open>isFree\<close> and \<open>pctx\<close> are what \<open>Get\<close> meets, \<open>after\<close> the context when \<open>Get\<close>
  has failed; \<open>None\<close> is a call that waits for ever. The pool is the one at the end.\<close>

definition leased_run ::
  "(nat \<Rightarrow> u16 \<Rightarrow> bool) \<Rightarrow> (nat \<Rightarrow> bool) \<Rightarrow> go_err option \<Rightarrow> (nat \<Rightarrow> go_err option) \<Rightarrow> (u16 \<Rightarrow> nat \<Rightarrow> go_err + 'r) \<Rightarrow> int
   \<Rightarrow> pool \<Rightarrow> ((go_err option + 'r) \<times> pool) option" where
  "leased_run isFree pctx after ctx once tries m =
     (case ctx 0 of
        Some err \<Rightarrow> Some (Inl (Some err), m)
      | None \<Rightarrow>
          (case get_port isFree pctx m of
             None \<Rightarrow> None
           | Some (Blocked, m1) \<Rightarrow> None
           | Some (GotPort p, m1) \<Rightarrow>
               Some (attempts ctx (once p) 0 (nat (if tries < 1 then 1 else tries)) None, release p m1)
           | Some (ErrClosed, m1) \<Rightarrow>
               Some (Inl (Some (case after of Some err \<Rightarrow> [Plain 63] | None \<Rightarrow> wrap_err (Some [Plain 63]))), m1)
           | Some (CtxErr, m1) \<Rightarrow>
               Some (Inl (Some (case after of Some err \<Rightarrow> err | None \<Rightarrow> wrap_err (Some [Plain 64]))), m1)))"

definition Slipstream_Run where
  "Slipstream_Run env isFree pctx after ctx w c limit tries ip =
     leased_run isFree pctx after ctx (\<lambda>p i. fst (slipstream_runOnce env c limit ip p (w i))) (withTries tries)"

definition MasterDNS_Run where
  "MasterDNS_Run env isFree pctx after ctx w c limit tries ip =
     leased_run isFree pctx after ctx (\<lambda>p i. fst (masterdns_runOnce env c limit ip p (w i))) (withTries tries)"

definition StormDNS_Run where
  "StormDNS_Run env isFree pctx after ctx w c limit tries ip =
     leased_run isFree pctx after ctx (\<lambda>p i. fst (stormdns_runOnce env c limit ip p (w i))) (withTries tries)"

subsection \<open>Constructors\<close>

text \<open>A probe with its options applied: the configuration, the time limit and the tries; the services
  stand for the libraries. The error of a constructor is a missing port manager, a native library
  that does not load, or the fields it names.\<close>

record 'c tunnel_probe =
  ProbeCfg :: 'c
  ProbeLimit :: int
  ProbeTries :: int

datatype probe_err = NilPorts | NoLibrary go_err | BadFields "string list"

definition WithTries :: "int \<Rightarrow> 'c tunnel_probe \<Rightarrow> 'c tunnel_probe" where
  "WithTries n p = (if 1 \<le> n then p\<lparr>ProbeTries := n\<rparr> else p)"

definition new_probe :: "'c \<Rightarrow> int \<Rightarrow> ('c tunnel_probe \<Rightarrow> 'c tunnel_probe) list \<Rightarrow> 'c tunnel_probe" where
  "new_probe c limit opts = fold (\<lambda>opt p. opt p) opts \<lparr>ProbeCfg = c, ProbeLimit = limit, ProbeTries = 1\<rparr>"

text \<open>\<open>errors.Join\<close> over the fields, and the loop of the Thefeed probe, which assigns the error of each field over
  that of the one before; the order of the fields is that of a map.\<close>

definition joinConfigErrors :: "string list \<Rightarrow> string list" where
  "joinConfigErrors bad = fold (\<lambda>f joined. joined @ [f]) bad []"

definition thefeed_joinConfigErrors :: "string list \<Rightarrow> string list" where
  "thefeed_joinConfigErrors bad = fold (\<lambda>f joined. [f]) bad []"

definition NewDNSTTProbe where
  "NewDNSTTProbe env c limit opts =
     (if DNSTT_Validate env c \<noteq> [] then Inl (BadFields (joinConfigErrors (DNSTT_Validate env c)))
      else Inr (new_probe c limit opts))"

definition NewVayDNSProbe where
  "NewVayDNSProbe env c limit opts =
     (if VayDNS_Validate env c \<noteq> [] then Inl (BadFields (joinConfigErrors (VayDNS_Validate env c)))
      else Inr (new_probe c limit opts))"

definition NewSlipstreamProbe where
  "NewSlipstreamProbe env pm library c limit opts =
     (if pm = None then Inl NilPorts
      else if Slipstream_Validate env c \<noteq> [] then Inl (BadFields (joinConfigErrors (Slipstream_Validate env c)))
      else case library of
             Some err \<Rightarrow> Inl (NoLibrary err)
           | None \<Rightarrow> Inr (new_probe c limit opts))"

definition NewMasterDNSProbe where
  "NewMasterDNSProbe env pm c limit opts =
     (if pm = None then Inl NilPorts
      else if MasterDNS_Validate env c \<noteq> [] then Inl (BadFields (joinConfigErrors (MasterDNS_Validate env c)))
      else Inr (new_probe c limit opts))"

definition NewStormDNSProbe where
  "NewStormDNSProbe env pm c limit opts =
     (if pm = None then Inl NilPorts
      else if StormDNS_Validate env c \<noteq> [] then Inl (BadFields (joinConfigErrors (StormDNS_Validate env c)))
      else Inr (new_probe c limit opts))"

definition NewTheFeedProbe where
  "NewTheFeedProbe env c limit opts =
     (if TheFeed_Validate env c \<noteq> [] then Inl (BadFields (thefeed_joinConfigErrors (TheFeed_Validate env c)))
      else Inr (new_probe c limit opts))"

lemma joinConfigErrors_all: "joinConfigErrors bad = bad"
proof -
  have "fold (\<lambda>f joined. joined @ [f]) fs acc = acc @ fs" for fs and acc :: "string list"
    by (induction fs arbitrary: acc) simp_all
  then show ?thesis by (simp add: joinConfigErrors_def)
qed

text \<open>The Thefeed probe names one field of several that are wrong.\<close>

lemma thefeed_names_last: "bad \<noteq> [] \<Longrightarrow> thefeed_joinConfigErrors bad = [last bad]"
  by (induction bad rule: rev_induct) (simp_all add: thefeed_joinConfigErrors_def)

lemma new_probe_tries: "ProbeTries (new_probe c limit [WithTries n]) = withTries n"
  by (simp add: new_probe_def WithTries_def withTries_def)

subsection \<open>Attempts\<close>

text \<open>The attempts end with the first success, with the context error after the first failure that
  meets one, or with the error of the last attempt.\<close>

definition attempt_ends :: "(nat \<Rightarrow> go_err option) \<Rightarrow> (nat \<Rightarrow> go_err + 'r) \<Rightarrow> nat \<Rightarrow> bool" where
  "attempt_ends ctx once i \<longleftrightarrow> \<not> isl (once i) \<or> ctx (Suc i) \<noteq> None"

definition attempts_outcome ::
  "(nat \<Rightarrow> go_err option) \<Rightarrow> (nat \<Rightarrow> go_err + 'r) \<Rightarrow> nat \<Rightarrow> nat \<Rightarrow> go_err option \<Rightarrow> go_err option + 'r" where
  "attempts_outcome ctx once i n err =
     (case find (attempt_ends ctx once) [i ..< i + n] of
        Some k \<Rightarrow> (case once k of Inr r \<Rightarrow> Inr r | Inl e \<Rightarrow> Inl (ctx (Suc k)))
      | None \<Rightarrow> Inl (NormalizeErr (if n = 0 then err else Some (projl (once (i + n - 1))))))"

lemma attempts_outcome_Suc:
  "attempts_outcome ctx once i (Suc n) err =
     (if attempt_ends ctx once i then (case once i of Inr r \<Rightarrow> Inr r | Inl e \<Rightarrow> Inl (ctx (Suc i)))
      else attempts_outcome ctx once (Suc i) n (Some (projl (once i))))"
proof -
  have range: "[i ..< i + Suc n] = i # [Suc i ..< Suc i + n]" by (simp add: upt_rec)
  show ?thesis unfolding attempts_outcome_def range
    by (cases n) (simp_all split: option.split)
qed

lemma attempts_exact: "attempts ctx once i n err = attempts_outcome ctx once i n err"
proof (induction n arbitrary: i err)
  case 0
  show ?case by (simp add: attempts_outcome_def)
next
  case (Suc n)
  show ?case
  proof (cases "once i")
    case (Inr r)
    then show ?thesis by (simp add: attempts_outcome_Suc attempt_ends_def)
  next
    case (Inl e)
    then show ?thesis
      by (cases "ctx (Suc i)") (simp_all add: attempts_outcome_Suc attempt_ends_def Suc.IH)
  qed
qed

lemma run_tries:
  "run_attempts ctx once (withTries n) =
     (case ctx 0 of
        Some err \<Rightarrow> Inl (Some err) | None \<Rightarrow> attempts_outcome ctx once 0 (nat (max 1 n)) None)"
  by (simp add: run_attempts_def attempts_exact withTries_def max_def split: option.split)

lemma attempts_not_nil: "attempts ctx once i (Suc n) err \<noteq> Inl None"
  by (induction n arbitrary: i err) (auto simp: NormalizeErr_def split: sum.split option.split)

text \<open>What a tunnel probe returns. A cancelled context makes no attempt. Otherwise the attempts end with the
  first that succeeds, whose result is returned, or with the first failure after which the context is
  done, whose context error is returned; when every attempt fails the error is that of the last one,
  marked by \<open>NormalizeErr\<close>. At least one attempt is made, so the probe never returns neither a result
  nor an error, whatever number of tries is asked for.\<close>

theorem tunnel_run_exact:
  "DNSTT_Run env ctx w c limit tries ip =
     (case ctx 0 of
        Some err \<Rightarrow> Inl (Some err)
      | None \<Rightarrow>
          attempts_outcome ctx (\<lambda>i. fst (conn_runOnce env c (DtDomain c) limit (dnstt_result c ip) (w i)))
            0 (nat (max 1 tries)) None)
   \<and> DNSTT_Run env ctx w c limit tries ip \<noteq> Inl None"
proof -
  obtain n where n: "nat (max 1 tries) = Suc n" by (cases "nat (max 1 tries)") auto
  show ?thesis unfolding DNSTT_Run_def run_tries n attempts_exact [symmetric]
    by (cases "ctx 0") (simp_all only: option.case attempts_not_nil, simp_all)
qed

subsection \<open>What a success needs\<close>

lemma attempts_Inr: "attempts ctx once i n err = Inr r \<Longrightarrow> \<exists>k. once k = Inr r"
  by (induction ctx once i n err rule: attempts.induct) (auto split: sum.splits option.splits)

lemma run_attempts_Inr: "run_attempts ctx once tries = Inr r \<Longrightarrow> \<exists>k. once k = Inr r"
  by (auto simp: run_attempts_def dest: attempts_Inr split: option.splits)

definition proxy_usable :: "tunnel_env \<Rightarrow> 'a proxy_settings_scheme \<Rightarrow> bool" where
  "proxy_usable env c \<longleftrightarrow>
     ProxyType c = ''ssh'' \<and> AuthMethod c \<noteq> ''none'' \<and> KnownHostsFile c \<noteq> [] \<and> hosts_file_ok env (KnownHostsFile c)
     \<or> ProxyType c = ''socks'' \<and> AuthMethod c \<noteq> ''key''"

lemma ssh_auth_hosts [simp]:
  "SshKnownHosts (ssh_auth c limit) = KnownHostsFile c" "InsecureHostKey (ssh_auth c limit) = False"
  by (simp_all add: ssh_auth_def)

lemma ssh_Connect_checks_host:
  "fst (ssh_Connect env ctx hs address c) = Inr client \<Longrightarrow> \<not> InsecureHostKey c \<Longrightarrow>
   SshKnownHosts c \<noteq> [] \<and> hosts_file_ok env (SshKnownHosts c) \<and> ClientHostCheck client = KnownHosts (SshKnownHosts c)"
  by (auto simp: ssh_Connect_def hostKeyCallbackFor_def split: option.splits sum.splits race.splits if_splits)

lemma dialSSH_needs:
  "fst (dialSSH env ctx hs outer c domain limit) = Inr d \<Longrightarrow>
   AuthMethod c \<noteq> ''none'' \<and> KnownHostsFile c \<noteq> [] \<and> hosts_file_ok env (KnownHostsFile c)"
  using ssh_Connect_checks_host
    [of env ctx hs "join_host_port domain (show_nat (unat (ssh_port c)))" "ssh_auth c limit"]
  by (auto simp: dialSSH_def split: if_splits option.splits sum.splits prod.splits)

definition dials_for :: "tunnel_env \<Rightarrow> 'a proxy_settings_scheme \<Rightarrow> dialer \<Rightarrow> bool" where
  "dials_for env c d =
     (case d of
        SSHDial client \<Rightarrow>
          ProxyType c = ''ssh'' \<and> AuthMethod c \<noteq> ''none'' \<and> hosts_file_ok env (KnownHostsFile c)
          \<and> KnownHostsFile c \<noteq> [] \<and> ClientHostCheck client = KnownHosts (KnownHostsFile c)
      | SOCKSDial login \<Rightarrow> ProxyType c = ''socks'' \<and> AuthMethod c \<noteq> ''key'' \<and> login = socks_login c
      | _ \<Rightarrow> False)"

lemma dialSSH_dials: "fst (dialSSH env ctx hs outer c domain limit) = Inr d \<Longrightarrow> ProxyType c = ''ssh'' \<Longrightarrow> dials_for env c d"
  using ssh_Connect_checks_host
    [of env ctx hs "join_host_port domain (show_nat (unat (ssh_port c)))" "ssh_auth c limit"]
  by (auto simp: dialSSH_def dials_for_def split: if_splits option.splits sum.splits prod.splits)

definition fetched :: "world \<Rightarrow> int \<Rightarrow> dialer \<Rightarrow> int \<Rightarrow> bool" where
  "fetched w limit d rtt \<longleftrightarrow>
     (Fetch w (Some d) GoogleGenerate204HTTP = Inr (200, rtt) \<or> Fetch w (Some d) GoogleGenerate204HTTP = Inr (204, rtt))
     \<and> (limit \<le> 0 \<or> rtt \<le> limit)"

lemma measureLatency_Inr: "measureLatency w limit d mk = Inr r \<Longrightarrow> \<exists>rtt. r = mk rtt \<and> fetched w limit d rtt"
  by (auto simp: measureLatency_def MeasureLatency_def newHTTPClient_def latency_cfg_def AboveMaximum_def fetched_def
        Let_def GoogleGenerate204HTTP_def split: sum.splits if_splits prod.splits)

lemma conn_runOnce_Inr:
  assumes "fst (conn_runOnce env c domain limit mk w) = Inr r"
  shows "\<exists>d rtt. dials_for env c d \<and> r = mk rtt \<and> OpenErr w = None \<and> fetched w limit d rtt"
proof -
  let ?ssh = "dialSSH env (DialCtx w) (Handshake w) (OuterCtx w) c domain limit"
  have open_ok: "OpenErr w = None" using assms by (cases "OpenErr w") (simp_all add: conn_runOnce_def)
  consider (ssh) d where "ProxyType c = ''ssh''" "fst ?ssh = Inr d" "measureLatency w limit d mk = Inr r"
    | (socks) d where "ProxyType c = ''socks''" "dialSOCKS c = Inr d" "measureLatency w limit d mk = Inr r"
    using assms open_ok
    by (cases "fst ?ssh"; cases "dialSOCKS c") (auto simp: conn_runOnce_def split_beta Let_def split: if_splits)
  then show ?thesis
  proof cases
    case ssh
    then show ?thesis using dialSSH_dials [OF ssh(2,1)] measureLatency_Inr [OF ssh(3)] open_ok by blast
  next
    case socks
    then have "dials_for env c d" by (auto simp: dialSOCKS_def dials_for_def split: if_splits)
    then show ?thesis using measureLatency_Inr [OF socks(3)] open_ok by blast
  qed
qed


definition example_env :: tunnel_env where
  "example_env = \<lparr>idna_ascii = Some, hello_labels = [''Chrome''], ssh_key_ok = (\<lambda>k. False),
                  hosts_file_ok = (\<lambda>p. p = ''hosts'')\<rparr>"

definition example_dnstt :: "string \<Rightarrow> string \<Rightarrow> string \<Rightarrow> DNSTTConfig" where
  "example_dnstt proxy auth hosts =
     DefaultDNSTTConfig\<lparr>ProxyType := proxy, AuthMethod := auth, Username := ''u'', Password := ''p'',
       KnownHostsFile := hosts, DtDomain := ''t.example'', DtPubKey := replicate 64 (CHR ''a'')\<rparr>"

definition example_vaydns :: VayDNSConfig where
  "example_vaydns = DefaultVayDNSConfig\<lparr>VdDomain := ''t.example''\<rparr>"

definition example_world :: world where
  "example_world = \<lparr>OpenErr = None, DialCtx = None, Handshake = Finished None, OuterCtx = None,
     ListenErr = None, ListenCtx = None, Fetch = (\<lambda>d url. Inr (204, 40 * Millisecond))\<rparr>"


text \<open>Two configurations that \<open>Validate\<close> accepts never find a resolver. With an empty proxy type, which
  disables the proxy for the validator, every attempt fails for an unsupported proxy type after the
  tunnel was opened; with SSH and password login but no known hosts file, every attempt fails before
  the handshake. Nothing is reported when the scan is set up.\<close>

theorem valid_tunnel_configs_never_work:
  "DNSTT_Validate example_env (example_dnstt [] ''none'' []) = []
   \<and> DNSTT_Validate example_env (example_dnstt ''ssh'' ''password'' []) = []
   \<and> isl (DNSTT_Run example_env ctx w (example_dnstt [] ''none'' []) limit tries ip)
   \<and> isl (DNSTT_Run example_env ctx w (example_dnstt ''ssh'' ''password'' []) limit tries ip)"
proof (intro conjI)
  have dom: "ValidateDomain example_env ''t.example''" by code_simp
  have key: "validatePubKey (replicate 64 (CHR ''a''))" by code_simp
  have finger: "validateFingerprint example_env ''Chrome''" by code_simp
  have users: "trim_space ''u'' = ''u''" "trim_space ''p'' = ''p''" by code_simp+
  note valid = DNSTT_Validate_def example_dnstt_def DefaultDNSTTConfig_def dom key finger users validateProxyAuth_def
    bad_fields_def validateRPS_def float_within_def
  have udp: "ResolverType_IsValid ''udp''" by code_simp
  show "DNSTT_Validate example_env (example_dnstt [] ''none'' []) = []" by (simp add: valid udp)
  show "DNSTT_Validate example_env (example_dnstt ''ssh'' ''password'' []) = []" by (simp add: valid udp)
  have no: "isl (DNSTT_Run example_env ctx w c limit tries ip)" if "\<And>d. \<not> dials_for example_env c d" for c
    using that run_attempts_Inr [of ctx "\<lambda>i. fst (conn_runOnce example_env c (DtDomain c) limit (dnstt_result c ip) (w i))" "withTries tries"]
    by (cases "DNSTT_Run example_env ctx w c limit tries ip") (auto simp: DNSTT_Run_def dest!: conn_runOnce_Inr)
  show "isl (DNSTT_Run example_env ctx w (example_dnstt [] ''none'' []) limit tries ip)"
    by (rule no) (simp add: dials_for_def example_dnstt_def split: dialer.split)
  show "isl (DNSTT_Run example_env ctx w (example_dnstt ''ssh'' ''password'' []) limit tries ip)"
    by (rule no) (simp add: dials_for_def example_dnstt_def split: dialer.split)
qed

subsection \<open>Ports\<close>

text \<open>C25. A probe that leases a port gives it back on every path, whatever its attempts do: from any reachable
  state of the port pool the run leads to another one in which the leases are those of before, and the
  pool, when it is open, has as many slots as it was created with.\<close>

theorem leased_port_returned:
  assumes "reach pool_init pool_step s" and "leased_run isFree pctx after ctx once tries (shared s) = Some (r, m')"
  shows "reach pool_init pool_step (s\<lparr>shared := m'\<rparr>)
    \<and> (closed m' \<or> slots (s\<lparr>shared := m'\<rparr>) = capacity m')"
proof -
  have "reach pool_init pool_step (s\<lparr>shared := m'\<rparr>)"
  proof (cases "ctx 0 = None")
    case False
    with assms show ?thesis by (auto simp: leased_run_def)
  next
    case True
    with assms(2) obtain g m1 where g: "get_port isFree pctx (shared s) = Some (g, m1)"
      "m' = (case g of GotPort p \<Rightarrow> release p m1 | _ \<Rightarrow> m1)"
      by (auto simp: leased_run_def split: option.splits get_result.splits)
    show ?thesis unfolding g(2) by (rule lease_released [OF assms(1) g(1)])
  qed
  moreover from pool_sys.reach_inv [OF this] have "closed m' \<or> slots (s\<lparr>shared := m'\<rparr>) = capacity m'"
    by (auto simp: pool_inv_def)
  ultimately show ?thesis by blast
qed

theorem leased_port_returned_witness:
  "slots (example_sys\<lparr>shared := example_pool\<lparr>ports := [49150, 49149]\<rparr>\<rparr>) = 2"
proof -
  have run: "leased_run (\<lambda>_ _. True) (\<lambda>_. False) None (\<lambda>_. None) (\<lambda>p i. Inr p) 1 (shared example_sys)
      = Some (Inr 49149, example_pool\<lparr>ports := [49150, 49149]\<rparr>)"
    by (simp add: leased_run_def example_lease release_def try_send_def) (simp add: example_pool_def)
  from leased_port_returned [OF reach_init [of pool_init example_sys pool_step, OF example_sys_init] run]
  show ?thesis by (simp add: example_pool_def)
qed

end
