(* ===== verification/ICMPSocket.thy ===== *)
theory ICMPSocket
  imports DNSProbe Transitions
begin

text \<open>
  The shared sockets of the ICMP probe, \<open>probe/icmpprobe/icmp.go\<close>: many goroutines call \<open>Ping\<close>, a reader per
  protocol hands every echo reply to the ping waiting for it. One step of the system is one atomic
  operation of the code: taking a sequence number, the store and the delete of a waiter, the write of the
  request, the return of \<open>Ping\<close>'s select, the handling of a packet. The socket and the library that parses
  packets are represented by the packets they deliver.
\<close>

subsection \<open>Packets\<close>

text \<open>A parsed message: whether its type is the echo reply of the protocol, and the identifier and
  sequence of its body when that is an echo. The sender is an IP or a UDP address with its bytes.\<close>

record icmp_msg =
  EchoReply :: bool
  EchoBody :: "(u16 \<times> u16) option"

datatype net_addr = IPAddr "8 word list" | UDPAddr "8 word list" | OtherAddr

definition word_of_bytes :: "8 word list \<Rightarrow> 'a::len word" where
  "word_of_bytes bs = fold (\<lambda>b w. push_bit 8 w OR ucast b) bs 0"

definition AddrFromSlice :: "8 word list \<Rightarrow> addr option" where
  "AddrFromSlice bs =
     (if length bs = 4 then Some (V4 (word_of_bytes bs))
      else if length bs = 16 then Some (V6 (word_of_bytes bs)) else None)"

definition Unmap :: "addr \<Rightarrow> addr" where
  "Unmap a = (case a of V4 w \<Rightarrow> V4 w | V6 w \<Rightarrow> unmap16 w)"

definition addrMatches :: "addr \<Rightarrow> net_addr \<Rightarrow> bool" where
  "addrMatches target src =
     (case (case src of IPAddr bs \<Rightarrow> AddrFromSlice bs | UDPAddr bs \<Rightarrow> AddrFromSlice bs | OtherAddr \<Rightarrow> None) of
        None \<Rightarrow> False
      | Some got \<Rightarrow> Unmap got = Unmap target)"

definition icmpProtocol :: nat where "icmpProtocol = 1"
definition icmp6Protocol :: nat where "icmp6Protocol = 58"

text \<open>\<open>makeKey\<close> on 64 bits.\<close>

definition makeKey :: "nat \<Rightarrow> nat \<Rightarrow> nat \<Rightarrow> 64 word" where
  "makeKey protocol ident sq = push_bit 48 (of_nat protocol) OR push_bit 32 (of_nat ident) OR of_nat sq"

datatype icmp_dest = RawDest addr | UdpDest addr

definition destination :: "addr \<Rightarrow> string \<Rightarrow> icmp_dest" where
  "destination ip mode = (if mode = ''udp'' then UdpDest (Unmap ip) else RawDest (Unmap ip))"

subsection \<open>The probe\<close>

text \<open>A call of \<open>Ping\<close>: where it is, whether the buffer of its channel is full, and for the argument the
  packet that filled it. \<open>Deciding\<close> is the state in which the deferred delete of the waiter is due.\<close>

datatype ping_result = Replied | CtxEnded go_err | ProbeClosed | TimedOut | WriteFailed

datatype ping_pc = Numbered | Registered | Sent | Deciding ping_result | Ended ping_result

type_synonym packet = "nat \<times> icmp_msg \<times> net_addr"

record ping =
  Target :: addr
  Proto :: nat
  Key :: "64 word"
  Pc :: ping_pc
  Signal :: "packet option"

text \<open>\<open>id6 = None\<close> is a probe without an IPv6 socket.\<close>

record icmp_probe =
  id4 :: u16
  id6 :: "u16 option"
  sq_ctr :: "32 word"
  waiters :: "64 word \<Rightarrow> nat option"
  pings :: "ping list"
  is_done :: bool

text \<open>The socket a target is pinged on: the protocol and the identifier.\<close>

definition ping_socket :: "icmp_probe \<Rightarrow> addr \<Rightarrow> (nat \<times> u16) option" where
  "ping_socket s ip =
     (if \<not> is6 ip then Some (icmpProtocol, id4 s)
      else map_option (\<lambda>i. (icmp6Protocol, i)) (id6 s))"

definition ping_key :: "icmp_probe \<Rightarrow> nat \<times> u16 \<Rightarrow> 64 word" where
  "ping_key s pi = makeKey (fst pi) (unat (snd pi)) (unat ((sq_ctr s + 1) AND 0xFFFF))"

definition set_ping :: "nat \<Rightarrow> (ping \<Rightarrow> ping) \<Rightarrow> icmp_probe \<Rightarrow> icmp_probe" where
  "set_ping i f s = s\<lparr>pings := (pings s)[i := f (pings s ! i)]\<rparr>"

text \<open>\<open>handlePacket\<close>.\<close>

definition handlePacket :: "packet \<Rightarrow> icmp_probe \<Rightarrow> icmp_probe" where
  "handlePacket pk s =
     (case pk of (protocol, msg, src) \<Rightarrow>
        if \<not> EchoReply msg \<or> protocol \<notin> {icmpProtocol, icmp6Protocol} then s
        else case EchoBody msg of
               None \<Rightarrow> s
             | Some (ident, sq) \<Rightarrow>
                 (case waiters s (makeKey protocol (unat ident) (unat sq)) of
                    None \<Rightarrow> s
                  | Some i \<Rightarrow>
                      if \<not> addrMatches (Target (pings s ! i)) src then s
                      else set_ping i (\<lambda>p. if Signal p = None then p\<lparr>Signal := Some pk\<rparr> else p) s))"

text \<open>The loop of a reader: for each turn whether it finds \<open>done\<close> closed, and what the read gives; \<open>None\<close> is a
  packet that does not parse.\<close>

datatype read_event = ReadTimedOut | ReadFailed | ReadPacket "icmp_msg option" net_addr

fun icmp_reader :: "nat \<Rightarrow> (bool \<times> read_event) list \<Rightarrow> icmp_probe \<Rightarrow> icmp_probe" where
  "icmp_reader protocol [] s = s"
| "icmp_reader protocol ((closing, ev) # es) s =
     (if closing then s
      else case ev of
             ReadTimedOut \<Rightarrow> icmp_reader protocol es s
           | ReadFailed \<Rightarrow> s
           | ReadPacket None src \<Rightarrow> icmp_reader protocol es s
           | ReadPacket (Some msg) src \<Rightarrow> icmp_reader protocol es (handlePacket (protocol, msg, src) s))"

text \<open>\<open>defaultFactory\<close>: the mode and the identifier of the socket, and \<open>NewICMPProbe\<close> from the two factories.\<close>

definition defaultFactory :: "(go_err + unit) \<Rightarrow> (go_err + u16) \<Rightarrow> nat \<Rightarrow> go_err + string \<times> u16" where
  "defaultFactory raw udp pid =
     (case raw of
        Inr u \<Rightarrow> Inr (''raw'', of_nat pid AND 0xFFFF)
      | Inl e \<Rightarrow> (case udp of Inl err \<Rightarrow> Inl (wrap_err (Some err)) | Inr port \<Rightarrow> Inr (''udp'', port)))"

definition NewICMPProbe ::
  "(go_err + string \<times> u16) \<Rightarrow> (go_err + string \<times> u16) \<Rightarrow> go_err + (string \<times> string) \<times> icmp_probe" where
  "NewICMPProbe factory4 factory6 =
     (case factory4 of
        Inl err \<Rightarrow> Inl (wrap_err (Some err))
      | Inr (mode4, ident4) \<Rightarrow>
          let (mode6, ident6) = (case factory6 of Inl err \<Rightarrow> ([], None) | Inr (m, i) \<Rightarrow> (m, Some i))
          in Inr ((mode4, mode6),
                  \<lparr>id4 = ident4, id6 = ident6, sq_ctr = 0, waiters = Map.empty, pings = [], is_done = False\<rparr>))"

definition icmp_init :: "icmp_probe \<Rightarrow> bool" where
  "icmp_init s \<longleftrightarrow> sq_ctr s = 0 \<and> waiters s = Map.empty \<and> pings s = [] \<and> \<not> is_done s"

inductive icmp_step :: "icmp_probe \<Rightarrow> icmp_probe \<Rightarrow> bool" where
  take_seq: "ping_socket s ip = Some pi \<Longrightarrow>
     icmp_step s (s\<lparr>sq_ctr := sq_ctr s + 1,
       pings := pings s @ [\<lparr>Target = ip, Proto = fst pi, Key = ping_key s pi, Pc = Numbered, Signal = None\<rparr>]\<rparr>)"
| store: "i < length (pings s) \<Longrightarrow> Pc (pings s ! i) = Numbered \<Longrightarrow>
     icmp_step s (set_ping i (\<lambda>p. p\<lparr>Pc := Registered\<rparr>) (s\<lparr>waiters := (waiters s)(Key (pings s ! i) \<mapsto> i)\<rparr>))"
| write_fails: "i < length (pings s) \<Longrightarrow> Pc (pings s ! i) = Registered \<Longrightarrow>
     icmp_step s (set_ping i (\<lambda>p. p\<lparr>Pc := Deciding WriteFailed\<rparr>) s)"
| write_to: "i < length (pings s) \<Longrightarrow> Pc (pings s ! i) = Registered \<Longrightarrow>
     icmp_step s (set_ping i (\<lambda>p. p\<lparr>Pc := Sent\<rparr>) s)"
| on_ctx: "i < length (pings s) \<Longrightarrow> Pc (pings s ! i) = Sent \<Longrightarrow>
     icmp_step s (set_ping i (\<lambda>p. p\<lparr>Pc := Deciding (CtxEnded err)\<rparr>) s)"
| on_done: "i < length (pings s) \<Longrightarrow> Pc (pings s ! i) = Sent \<Longrightarrow> is_done s \<Longrightarrow>
     icmp_step s (set_ping i (\<lambda>p. p\<lparr>Pc := Deciding ProbeClosed\<rparr>) s)"
| on_reply: "i < length (pings s) \<Longrightarrow> Pc (pings s ! i) = Sent \<Longrightarrow> Signal (pings s ! i) \<noteq> None \<Longrightarrow>
     icmp_step s (set_ping i (\<lambda>p. p\<lparr>Pc := Deciding Replied\<rparr>) s)"
| on_timer: "i < length (pings s) \<Longrightarrow> Pc (pings s ! i) = Sent \<Longrightarrow>
     icmp_step s (set_ping i (\<lambda>p. p\<lparr>Pc := Deciding TimedOut\<rparr>) s)"
| delete: "i < length (pings s) \<Longrightarrow> Pc (pings s ! i) = Deciding r \<Longrightarrow>
     icmp_step s (set_ping i (\<lambda>p. p\<lparr>Pc := Ended r\<rparr>) (s\<lparr>waiters := (waiters s)(Key (pings s ! i) := None)\<rparr>))"
| packet: "icmp_step s (handlePacket pk s)"
| close_probe: "icmp_step s (s\<lparr>is_done := True\<rparr>)"

inductive_cases icmp_stepE: "icmp_step s t"

subsection \<open>A success is a genuine reply\<close>

definition pack :: "u16 \<Rightarrow> u16 \<Rightarrow> u16 \<Rightarrow> 64 word" where
  "pack a b c = push_bit 48 (ucast a) OR push_bit 32 (ucast b) OR ucast c"

lemma pack_bits:
  assumes "n < 16"
  shows "bit (pack a b c) n = bit c n" "bit (pack a b c) (n + 32) = bit b n" "bit (pack a b c) (n + 48) = bit a n"
  using assms bit_imp_le_length [of c "n + 32"] bit_imp_le_length [of c "n + 48"] bit_imp_le_length [of b "n + 16"]
  by (auto simp: pack_def bit_simps add.commute)

lemma pack_inj: "pack a b c = pack a' b' c' \<Longrightarrow> a = a' \<and> b = b' \<and> c = c'"
proof -
  have eq: "x = y" if "\<And>n. n < 16 \<Longrightarrow> bit x n = bit y n" for x y :: u16
    using that by (intro bit_word_eqI) simp
  assume "pack a b c = pack a' b' c'"
  then show ?thesis using pack_bits by (intro conjI eq) metis+
qed

lemma word_of_nat_ucast: "n < 65536 \<Longrightarrow> ucast (of_nat n :: u16) = (of_nat n :: 64 word)"
  by (simp add: unsigned_of_nat take_bit_nat_eq_self)

lemma makeKey_pack:
  "protocol < 65536 \<Longrightarrow> sq < 65536 \<Longrightarrow> makeKey protocol (unat ident) sq = pack (of_nat protocol) ident (of_nat sq)"
  by (simp add: makeKey_def pack_def word_of_nat_ucast)

text \<open>A packet that answers a ping: an echo reply from its target with the identifier of the socket it was sent on.\<close>

definition answers :: "icmp_probe \<Rightarrow> ping \<Rightarrow> packet \<Rightarrow> bool" where
  "answers s p pk =
     (case pk of (protocol, msg, src) \<Rightarrow>
        EchoReply msg \<and> addrMatches (Target p) src
        \<and> (\<exists>ident sq. EchoBody msg = Some (ident, sq) \<and> ping_socket s (Target p) = Some (protocol, ident)
             \<and> Key p = makeKey protocol (unat ident) (unat sq)))"

lemma answers_update [simp]:
  "answers s (p\<lparr>Signal := x\<rparr>) = answers s p" "answers s (p\<lparr>Pc := pc\<rparr>) = answers s p"
  unfolding answers_def by simp_all

definition ping_ok :: "icmp_probe \<Rightarrow> ping \<Rightarrow> bool" where
  "ping_ok s p \<longleftrightarrow>
     (\<exists>ident sq. ping_socket s (Target p) = Some (Proto p, ident) \<and> sq < 65536
        \<and> Key p = makeKey (Proto p) (unat ident) sq)
     \<and> (\<forall>pk. Signal p = Some pk \<longrightarrow> answers s p pk)
     \<and> (Pc p = Deciding Replied \<or> Pc p = Ended Replied \<longrightarrow> Signal p \<noteq> None)"

definition icmp_inv :: "icmp_probe \<Rightarrow> bool" where
  "icmp_inv s \<longleftrightarrow>
     (\<forall>p \<in> set (pings s). ping_ok s p)
     \<and> (\<forall>k i. waiters s k = Some i \<longrightarrow> i < length (pings s) \<and> Key (pings s ! i) = k)"

lemma icmp_invD:
  "icmp_inv s \<Longrightarrow> i < length (pings s) \<Longrightarrow> ping_ok s (pings s ! i)"
  "icmp_inv s \<Longrightarrow> waiters s k = Some i \<Longrightarrow> i < length (pings s) \<and> Key (pings s ! i) = k"
  by (simp_all add: icmp_inv_def)

lemma ping_ok_cong: "id4 t = id4 s \<Longrightarrow> id6 t = id6 s \<Longrightarrow> ping_ok t p = ping_ok s p"
  by (simp add: ping_ok_def answers_def ping_socket_def)

lemma set_ping_simps [simp]:
  "id4 (set_ping i f s) = id4 s" "id6 (set_ping i f s) = id6 s" "waiters (set_ping i f s) = waiters s"
  "is_done (set_ping i f s) = is_done s" "sq_ctr (set_ping i f s) = sq_ctr s"
  "pings (set_ping i f s) = (pings s)[i := f (pings s ! i)]"
  by (simp_all add: set_ping_def)

text \<open>Changing one ping, with the map of waiters after it.\<close>

lemma icmp_inv_set:
  assumes "icmp_inv s" and "i < length (pings s)" and "ping_ok s (f (pings s ! i))"
    and "Key (f (pings s ! i)) = Key (pings s ! i)"
    and "\<And>k j. ws k = Some j \<Longrightarrow> waiters s k = Some j \<or> j = i \<and> k = Key (pings s ! i)"
  shows "icmp_inv (set_ping i f (s\<lparr>waiters := ws\<rparr>))"
  unfolding icmp_inv_def
proof (intro conjI ballI allI impI)
  fix p assume "p \<in> set (pings (set_ping i f (s\<lparr>waiters := ws\<rparr>)))"
  then have "ping_ok s p"
    using assms(1,3) set_update_subset_insert [of "pings s" i "f (pings s ! i)"] by (auto simp: icmp_inv_def)
  then show "ping_ok (set_ping i f (s\<lparr>waiters := ws\<rparr>)) p"
    using ping_ok_cong [of "set_ping i f (s\<lparr>waiters := ws\<rparr>)" s p] by simp
next
  fix k j assume "waiters (set_ping i f (s\<lparr>waiters := ws\<rparr>)) k = Some j"
  then have "waiters s k = Some j \<or> j = i \<and> k = Key (pings s ! i)" using assms(5) by simp
  then have "j < length (pings s) \<and> Key (pings s ! j) = k"
    using icmp_invD(2) [OF assms(1)] assms(2) by auto
  then show "j < length (pings (set_ping i f (s\<lparr>waiters := ws\<rparr>)))"
    and "Key (pings (set_ping i f (s\<lparr>waiters := ws\<rparr>)) ! j) = k"
    using assms(4) by (simp, cases "i = j") auto
qed

lemma icmp_inv_pc:
  assumes "icmp_inv s" and "i < length (pings s)"
    and "pc = Deciding Replied \<or> pc = Ended Replied \<Longrightarrow> Signal (pings s ! i) \<noteq> None"
    and "\<And>k j. ws k = Some j \<Longrightarrow> waiters s k = Some j \<or> j = i \<and> k = Key (pings s ! i)"
  shows "icmp_inv (set_ping i (\<lambda>p. p\<lparr>Pc := pc\<rparr>) (s\<lparr>waiters := ws\<rparr>))"
proof (rule icmp_inv_set [OF assms(1,2) _ _ assms(4)])
  show "ping_ok s ((pings s ! i)\<lparr>Pc := pc\<rparr>)"
    using icmp_invD(1) [OF assms(1,2)] assms(3) by (simp add: ping_ok_def)
qed simp_all

lemma icmp_inv_pc_only:
  assumes "icmp_inv s" and "i < length (pings s)"
    and "pc = Deciding Replied \<or> pc = Ended Replied \<Longrightarrow> Signal (pings s ! i) \<noteq> None"
  shows "icmp_inv (set_ping i (\<lambda>p. p\<lparr>Pc := pc\<rparr>) s)"
  using icmp_inv_pc [OF assms(1,2), of pc "waiters s"] assms(3) by simp

lemma ping_key_ok:
  "ping_socket s ip = Some (protocol, ident) \<Longrightarrow>
   \<exists>sq < 65536. ping_key s (protocol, ident) = makeKey protocol (unat ident) sq"
proof -
  have "(sq_ctr s + 1) AND 0xFFFF \<le> (0xFFFF :: 32 word)" by (rule word_and_le1)
  then have "unat ((sq_ctr s + 1) AND 0xFFFF) < 65536" by (simp add: word_le_nat_alt)
  then show ?thesis by (auto simp: ping_key_def)
qed

lemma socket_protocol: "ping_socket s ip = Some (protocol, ident) \<Longrightarrow> protocol < 65536"
  by (auto simp: ping_socket_def icmpProtocol_def icmp6Protocol_def split: if_splits)

text \<open>The packet with the key of a waiter carries the protocol and the identifier of its socket.\<close>

lemma key_socket:
  assumes "ping_ok s p" and "Key p = makeKey protocol (unat ident) (unat (sq :: u16))"
    and "protocol = icmpProtocol \<or> protocol = icmp6Protocol"
  shows "ping_socket s (Target p) = Some (protocol, ident)"
proof -
  from assms(1) obtain i q where p: "ping_socket s (Target p) = Some (Proto p, i)" "q < 65536"
    "Key p = makeKey (Proto p) (unat i) q" by (auto simp: ping_ok_def)
  have small: "Proto p < 65536" "protocol < 65536" "unat sq < 65536"
    using socket_protocol [OF p(1)] assms(3) unsigned_less [of sq]
    by (auto simp: icmpProtocol_def icmp6Protocol_def)
  have "pack (of_nat (Proto p)) i (of_nat q) = pack (of_nat protocol) ident (of_nat (unat sq))"
    using assms(2) p(2,3) small by (simp add: makeKey_pack)
  then have "of_nat (Proto p) = (of_nat protocol :: u16)" "i = ident" by (auto dest: pack_inj)
  then have "Proto p = protocol" using small by (simp add: word_of_nat_eq_iff take_bit_nat_eq_self)
  with p(1) \<open>i = ident\<close> show ?thesis by simp
qed

lemma icmp_inv_packet:
  assumes "icmp_inv s"
  shows "icmp_inv (handlePacket pk s)"
proof (cases "handlePacket pk s = s")
  case False
  obtain protocol msg src where pk: "pk = (protocol, msg, src)" by (cases pk) auto
  from False obtain ident sq i where h: "EchoReply msg" "protocol = icmpProtocol \<or> protocol = icmp6Protocol"
    "EchoBody msg = Some (ident, sq)" "waiters s (makeKey protocol (unat ident) (unat sq)) = Some i"
    "addrMatches (Target (pings s ! i)) src"
    and eq: "handlePacket pk s = set_ping i (\<lambda>p. if Signal p = None then p\<lparr>Signal := Some pk\<rparr> else p) s"
    unfolding pk handlePacket_def by (auto split: if_splits option.splits)
  note at = icmp_invD(2) [OF assms h(4)]
  then have i: "i < length (pings s)" and key: "Key (pings s ! i) = makeKey protocol (unat ident) (unat sq)" by auto
  have ok: "ping_ok s (pings s ! i)" by (rule icmp_invD(1) [OF assms i])
  have "answers s (pings s ! i) pk"
    using h key key_socket [OF ok key h(2)] by (simp add: answers_def pk)
  then have "ping_ok s (if Signal (pings s ! i) = None then (pings s ! i)\<lparr>Signal := Some pk\<rparr> else pings s ! i)"
    using ok by (simp add: ping_ok_def pk)
  then show ?thesis
    unfolding eq using icmp_inv_set [OF assms i, of _ "waiters s"] by simp
qed (use assms in simp)

lemma icmp_inv_step: "icmp_step s t \<Longrightarrow> icmp_inv s \<Longrightarrow> icmp_inv t"
proof (induction rule: icmp_step.induct)
  case (take_seq s ip pi)
  let ?p = "\<lparr>Target = ip, Proto = fst pi, Key = ping_key s pi, Pc = Numbered, Signal = None\<rparr>"
  let ?t = "s\<lparr>sq_ctr := sq_ctr s + 1, pings := pings s @ [?p]\<rparr>"
  have "ping_ok s ?p"
    using take_seq ping_key_ok [of s ip "fst pi" "snd pi"] by (cases pi) (auto simp: ping_ok_def)
  then show ?case
    using take_seq ping_ok_cong [of ?t s] by (auto simp: icmp_inv_def nth_append intro: less_SucI)
next
  case (store i s)
  show ?case by (rule icmp_inv_pc [OF store(3,1)]) (auto split: if_splits)
next
  case (delete i s r)
  show ?case
    using icmp_invD(1) [OF delete(3,1)] delete(2)
    by (intro icmp_inv_pc [OF delete(3,1)]) (auto simp: ping_ok_def split: if_splits)
next
  case (packet s pk)
  then show ?case by (rule icmp_inv_packet)
next
  case (close_probe s)
  then show ?case using ping_ok_cong [of "s\<lparr>is_done := True\<rparr>" s] by (simp add: icmp_inv_def)
qed (auto intro: icmp_inv_pc_only)

interpretation icmp: invariant_system icmp_init icmp_step icmp_inv
proof
  show "icmp_init s \<Longrightarrow> icmp_inv s" for s by (simp add: icmp_init_def icmp_inv_def)
qed (rule icmp_inv_step)

text \<open>C21. However pings, readers and \<open>Close\<close> interleave, a ping succeeds only when an echo reply arrived from its
  own target, with the identifier of the socket it was sent on and its sequence number: a reply
  meant for another target with the same key never counts.\<close>

theorem ping_success_sound:
  assumes "reach icmp_init icmp_step s" and "i < length (pings s)" and "Pc (pings s ! i) = Ended Replied"
  shows "\<exists>pk. Signal (pings s ! i) = Some pk \<and> answers s (pings s ! i) pk"
  using icmp_invD(1) [OF icmp.reach_inv [OF assms(1)] assms(2)] assms(3) by (auto simp: ping_ok_def)

lemma icmp_reader_steps: "icmp_step\<^sup>*\<^sup>* s (icmp_reader protocol es s)"
proof (induction protocol es s rule: icmp_reader.induct)
  case (2 protocol closing ev es s)
  have "icmp_step\<^sup>*\<^sup>* (handlePacket (protocol, msg, src) s) t \<Longrightarrow> icmp_step\<^sup>*\<^sup>* s t" for msg src t
    by (rule converse_rtranclp_into_rtranclp) (rule packet)
  with 2 show ?case by (auto split: read_event.split option.split)
qed simp

lemma NewICMPProbe_init: "NewICMPProbe f4 f6 = Inr (modes, s) \<Longrightarrow> icmp_init s"
  by (auto simp: NewICMPProbe_def icmp_init_def split: sum.splits prod.splits)

subsection \<open>A reply that is lost\<close>

definition in_flight :: "icmp_probe \<Rightarrow> nat" where
  "in_flight s = length (filter (\<lambda>p. case Pc p of Ended r \<Rightarrow> False | _ \<Rightarrow> True) (pings s))"

text \<open>A step with at most two pings in flight after it.\<close>

definition pair_step :: "icmp_probe \<Rightarrow> icmp_probe \<Rightarrow> bool" where
  "pair_step s t \<longleftrightarrow> icmp_step s t \<and> in_flight t \<le> 2"

text \<open>The steps of the ping that was started last, on the IPv4 socket.\<close>

definition with_last :: "icmp_probe \<Rightarrow> addr \<Rightarrow> ping_pc \<Rightarrow> icmp_probe" where
  "with_last s ip pc =
     s\<lparr>sq_ctr := sq_ctr s + 1,
       pings := pings s @ [\<lparr>Target = ip, Proto = icmpProtocol, Key = ping_key s (icmpProtocol, id4 s), Pc = pc, Signal = None\<rparr>]\<rparr>"

lemma with_last_flight:
  "in_flight (with_last s ip pc) = in_flight s + (case pc of Ended r \<Rightarrow> 0 | _ \<Rightarrow> 1)"
  "in_flight (s\<lparr>waiters := ws\<rparr>) = in_flight s"
  by (simp_all add: in_flight_def with_last_def split: ping_pc.split)

lemma with_last_set:
  "set_ping (length (pings s)) (\<lambda>p. p\<lparr>Pc := pc'\<rparr>) (with_last s ip pc) = with_last s ip pc'"
  "set_ping (length (pings s)) (\<lambda>p. p\<lparr>Pc := pc'\<rparr>) ((with_last s ip pc)\<lparr>waiters := ws\<rparr>) = (with_last s ip pc')\<lparr>waiters := ws\<rparr>"
  "length (pings s) < length (pings (with_last s ip pc))" "Pc (pings (with_last s ip pc) ! length (pings s)) = pc"
  "Key (pings (with_last s ip pc) ! length (pings s)) = ping_key s (icmpProtocol, id4 s)"
  "waiters (with_last s ip pc) = waiters s"
  by (simp_all add: set_ping_def with_last_def)

lemma start_last:
  assumes "\<not> is6 ip" and "in_flight s \<le> 1"
  shows "pair_step\<^sup>*\<^sup>* s ((with_last s ip Sent)\<lparr>waiters := (waiters s)(ping_key s (icmpProtocol, id4 s) \<mapsto> length (pings s))\<rparr>)"
    (is "pair_step\<^sup>*\<^sup>* s (?t\<lparr>waiters := ?ws\<rparr>)")
proof -
  let ?n = "length (pings s)"
  have flight: "in_flight (with_last s ip pc) \<le> 2" "in_flight ((with_last s ip pc)\<lparr>waiters := ws\<rparr>) \<le> 2" for pc ws
    using assms(2) by (simp_all add: with_last_flight split: ping_pc.split)
  have "ping_socket s ip = Some (icmpProtocol, id4 s)" using assms(1) by (simp add: ping_socket_def)
  from take_seq [OF this] have "pair_step s (with_last s ip Numbered)"
    using flight by (simp add: pair_step_def with_last_def)
  then have "pair_step\<^sup>*\<^sup>* s (with_last s ip Numbered)" by simp
  also have "pair_step (with_last s ip Numbered) ((with_last s ip Registered)\<lparr>waiters := ?ws\<rparr>)"
    using store [of ?n "with_last s ip Numbered"] flight by (simp add: pair_step_def with_last_set)
  also have "pair_step ((with_last s ip Registered)\<lparr>waiters := ?ws\<rparr>) (?t\<lparr>waiters := ?ws\<rparr>)"
    using write_to [of ?n "(with_last s ip Registered)\<lparr>waiters := ?ws\<rparr>"] flight by (simp add: pair_step_def with_last_set)
  finally show ?thesis by simp
qed

lemma quick_ping:
  assumes "\<not> is6 ip" and "in_flight s \<le> 1"
  shows "\<exists>ws. pair_step\<^sup>*\<^sup>* s ((with_last s ip (Ended TimedOut))\<lparr>waiters := ws\<rparr>)"
proof -
  let ?n = "length (pings s)"
  let ?ws = "(waiters s)(ping_key s (icmpProtocol, id4 s) \<mapsto> ?n)"
  have flight: "in_flight ((with_last s ip pc)\<lparr>waiters := ws\<rparr>) \<le> 2" for pc ws
    using assms(2) by (simp add: with_last_flight split: ping_pc.split)
  note start_last [OF assms]
  also have "pair_step ((with_last s ip Sent)\<lparr>waiters := ?ws\<rparr>) ((with_last s ip (Deciding TimedOut))\<lparr>waiters := ?ws\<rparr>)"
    using on_timer [of ?n "(with_last s ip Sent)\<lparr>waiters := ?ws\<rparr>"] flight by (simp add: pair_step_def with_last_set)
  also have "pair_step ((with_last s ip (Deciding TimedOut))\<lparr>waiters := ?ws\<rparr>)
      ((with_last s ip (Ended TimedOut))\<lparr>waiters := ?ws(ping_key s (icmpProtocol, id4 s) := None)\<rparr>)"
    using delete [of ?n "(with_last s ip (Deciding TimedOut))\<lparr>waiters := ?ws\<rparr>" TimedOut] flight
    by (simp add: pair_step_def with_last_set)
  finally show ?thesis by blast
qed

text \<open>Any number of pings, one after the other, beside one that is in flight.\<close>

lemma quick_pings:
  assumes "in_flight s \<le> 1"
  shows "\<exists>ps ws. length ps = n \<and> (\<forall>p \<in> set ps. Pc p = Ended TimedOut)
     \<and> pair_step\<^sup>*\<^sup>* s (s\<lparr>sq_ctr := sq_ctr s + of_nat n, waiters := ws, pings := pings s @ ps\<rparr>)"
proof (induction n)
  case 0
  have "s\<lparr>sq_ctr := sq_ctr s + of_nat 0, waiters := waiters s, pings := pings s @ []\<rparr> = s" by simp
  then show ?case by (intro exI [of _ "[]"] exI [of _ "waiters s"]) simp
next
  case (Suc n)
  then obtain ps ws where ps: "length ps = n" "\<forall>p \<in> set ps. Pc p = Ended TimedOut"
    "pair_step\<^sup>*\<^sup>* s (s\<lparr>sq_ctr := sq_ctr s + of_nat n, waiters := ws, pings := pings s @ ps\<rparr>)" by blast
  let ?s = "s\<lparr>sq_ctr := sq_ctr s + of_nat n, waiters := ws, pings := pings s @ ps\<rparr>"
  have "filter (\<lambda>p. case Pc p of Ended r \<Rightarrow> False | _ \<Rightarrow> True) ps = []"
    using ps(2) by (simp add: filter_empty_conv)
  then have flight: "in_flight ?s \<le> 1" using assms by (simp add: in_flight_def)
  obtain ws' where "pair_step\<^sup>*\<^sup>* ?s ((with_last ?s (V4 1) (Ended TimedOut))\<lparr>waiters := ws'\<rparr>)"
    using quick_ping [OF _ flight, of "V4 1"] by auto
  with ps(3) have run: "pair_step\<^sup>*\<^sup>* s ((with_last ?s (V4 1) (Ended TimedOut))\<lparr>waiters := ws'\<rparr>)"
    by (rule rtranclp_trans)
  let ?p = "\<lparr>Target = V4 1, Proto = icmpProtocol, Key = ping_key ?s (icmpProtocol, id4 ?s), Pc = Ended TimedOut, Signal = None\<rparr>"
  have "(with_last ?s (V4 1) (Ended TimedOut))\<lparr>waiters := ws'\<rparr>
      = s\<lparr>sq_ctr := sq_ctr s + of_nat (Suc n), waiters := ws', pings := pings s @ ps @ [?p]\<rparr>"
    by (simp add: with_last_def add.commute add.left_commute)
  with run ps(1,2) show ?case by (intro exI [of _ "ps @ [?p]"] exI [of _ ws']) simp
qed

definition idle_probe :: icmp_probe where
  "idle_probe = \<lparr>id4 = 7, id6 = None, sq_ctr = 0, waiters = Map.empty, pings = [], is_done = False\<rparr>"

definition reply_to :: "icmp_probe \<Rightarrow> 8 word list \<Rightarrow> u16 \<Rightarrow> packet" where
  "reply_to s bs sq = (icmpProtocol, \<lparr>EchoReply = True, EchoBody = Some (id4 s, sq)\<rparr>, IPAddr bs)"

theorem ping_success_sound_witness:
  "\<exists>s. reach icmp_init icmp_step s \<and> Pc (pings s ! 0) = Ended Replied
     \<and> (\<exists>pk. Signal (pings s ! 0) = Some pk \<and> answers s (pings s ! 0) pk)"
proof -
  let ?k = "ping_key idle_probe (icmpProtocol, 7)"
  let ?pk = "reply_to idle_probe [9, 9, 9, 9] 1"
  let ?s = "\<lambda>pc sig ws. idle_probe\<lparr>sq_ctr := 1, waiters := ws,
    pings := [\<lparr>Target = V4 0x09090909, Proto = icmpProtocol, Key = ?k, Pc = pc, Signal = sig\<rparr>]\<rparr>"
  have init: "reach icmp_init icmp_step idle_probe"
    by (rule reach_init) (simp add: icmp_init_def idle_probe_def)
  have "pair_step\<^sup>*\<^sup>* idle_probe (?s Sent None [?k \<mapsto> 0])"
    using start_last [of "V4 0x09090909" idle_probe] by (simp add: in_flight_def with_last_def idle_probe_def)
  then have "icmp_step\<^sup>*\<^sup>* idle_probe (?s Sent None [?k \<mapsto> 0])"
    by (rule rtranclp_mono [THEN predicate2D, rotated]) (auto simp: pair_step_def)
  also have "icmp_step (?s Sent None [?k \<mapsto> 0]) (?s Sent (Some ?pk) [?k \<mapsto> 0])"
  proof -
    have "addrMatches (V4 0x09090909) (IPAddr [9, 9, 9, 9])"
      by (simp add: addrMatches_def AddrFromSlice_def word_of_bytes_def Unmap_def)
    then have "handlePacket ?pk (?s Sent None [?k \<mapsto> 0]) = ?s Sent (Some ?pk) [?k \<mapsto> 0]"
      by (simp add: handlePacket_def reply_to_def ping_key_def idle_probe_def set_ping_def)
    then show ?thesis using packet [of "?s Sent None [?k \<mapsto> 0]" ?pk] by simp
  qed
  also have "icmp_step (?s Sent (Some ?pk) [?k \<mapsto> 0]) (?s (Deciding Replied) (Some ?pk) [?k \<mapsto> 0])"
    using on_reply [of 0 "?s Sent (Some ?pk) [?k \<mapsto> 0]"] by (simp add: set_ping_def)
  also have "icmp_step (?s (Deciding Replied) (Some ?pk) [?k \<mapsto> 0]) (?s (Ended Replied) (Some ?pk) (\<lambda>k. None))"
    using delete [of 0 "?s (Deciding Replied) (Some ?pk) [?k \<mapsto> 0]" Replied] by (simp add: set_ping_def)
  finally have r: "reach icmp_init icmp_step (?s (Ended Replied) (Some ?pk) (\<lambda>k. None))"
    using init by (rule reach_steps)
  from ping_success_sound [OF r, of 0]
  show ?thesis using r by (intro exI [of _ "?s (Ended Replied) (Some ?pk) (\<lambda>k. None)"]) auto
qed

text \<open>A genuine reply can be lost. With never more than two pings in flight, a ping that has been sent and
  waits can have no waiter in the map any more: an older ping with the same sixteen bits of sequence
  number, started 65536 pings before it, ended and its deferred \<open>Delete\<close> removed the newer entry. The
  reply of the target then changes nothing, and the ping times out.\<close>

theorem genuine_reply_lost:
  "\<exists>s. reach icmp_init pair_step s
     \<and> (let i = length (pings s) - 1; pk = reply_to s [9, 9, 9, 9] 1 in
          Pc (pings s ! i) = Sent \<and> Signal (pings s ! i) = None
          \<and> answers s (pings s ! i) pk \<and> handlePacket pk s = s)"
proof -
  let ?k = "ping_key idle_probe (icmpProtocol, 7)"
  let ?p0 = "\<lparr>Target = V4 1, Proto = icmpProtocol, Key = ?k, Pc = Sent, Signal = None\<rparr>"
  let ?s1 = "idle_probe\<lparr>sq_ctr := 1, waiters := [?k \<mapsto> 0], pings := [?p0]\<rparr>"
  have "reach icmp_init pair_step idle_probe"
    by (rule reach_init) (simp add: icmp_init_def idle_probe_def)
  moreover have "pair_step\<^sup>*\<^sup>* idle_probe ?s1"
    using start_last [of "V4 1" idle_probe] by (simp add: in_flight_def with_last_def idle_probe_def)
  ultimately have r1: "reach icmp_init pair_step ?s1" by (rule reach_steps [rotated])
  obtain ps ws where ps: "length ps = 65535" "\<forall>p \<in> set ps. Pc p = Ended TimedOut"
    and run: "pair_step\<^sup>*\<^sup>* ?s1 (?s1\<lparr>sq_ctr := sq_ctr ?s1 + of_nat 65535, waiters := ws, pings := pings ?s1 @ ps\<rparr>)"
    using quick_pings [of ?s1 65535] by (auto simp: in_flight_def)
  let ?s2 = "idle_probe\<lparr>sq_ctr := 65536, waiters := ws, pings := ?p0 # ps\<rparr>"
  have "?s1\<lparr>sq_ctr := sq_ctr ?s1 + of_nat 65535, waiters := ws, pings := pings ?s1 @ ps\<rparr> = ?s2" by simp
  with reach_steps [OF run r1] have r2: "reach icmp_init pair_step ?s2" by simp
  have "filter (\<lambda>p. case Pc p of Ended r \<Rightarrow> False | _ \<Rightarrow> True) ps = []"
    using ps(2) by (simp add: filter_empty_conv)
  then have none: "length (filter (\<lambda>p. case Pc p of Ended r \<Rightarrow> False | _ \<Rightarrow> True) ps) = 0" by simp
  have key: "ping_key ?s2 (icmpProtocol, 7) = ?k" by (simp add: ping_key_def idle_probe_def)
  let ?p1 = "\<lparr>Target = V4 0x09090909, Proto = icmpProtocol, Key = ?k, Pc = Sent, Signal = None\<rparr>"
  let ?s3 = "idle_probe\<lparr>sq_ctr := 65537, waiters := ws(?k \<mapsto> 65536), pings := ?p0 # ps @ [?p1]\<rparr>"
  have "pair_step\<^sup>*\<^sup>* ?s2 ?s3"
    using start_last [of "V4 0x09090909" ?s2] key none ps(1)
    by (simp add: in_flight_def with_last_def idle_probe_def)
  then have r3: "reach icmp_init pair_step ?s3" using r2 by (rule reach_steps)
  let ?s4 = "?s3\<lparr>pings := ?p0\<lparr>Pc := Deciding TimedOut\<rparr> # ps @ [?p1]\<rparr>"
  have "pair_step ?s3 ?s4"
    using on_timer [of 0 ?s3] none by (simp add: pair_step_def set_ping_def in_flight_def)
  then have r4: "reach icmp_init pair_step ?s4" by (rule reach_step [OF r3])
  let ?s5 = "?s4\<lparr>waiters := ws(?k := None), pings := ?p0\<lparr>Pc := Ended TimedOut\<rparr> # ps @ [?p1]\<rparr>"
  have "pair_step ?s4 ?s5"
    using delete [of 0 ?s4 TimedOut] none by (simp add: pair_step_def set_ping_def in_flight_def)
  then have r5: "reach icmp_init pair_step ?s5" by (rule reach_step [OF r4])
  have "addrMatches (V4 0x09090909) (IPAddr [9, 9, 9, 9])"
    by (simp add: addrMatches_def AddrFromSlice_def word_of_bytes_def Unmap_def)
  then have "answers ?s5 ?p1 (reply_to ?s5 [9, 9, 9, 9] 1)"
    by (simp add: answers_def reply_to_def ping_socket_def ping_key_def idle_probe_def)
  moreover have "handlePacket (reply_to ?s5 [9, 9, 9, 9] 1) ?s5 = ?s5"
    by (simp add: handlePacket_def reply_to_def ping_key_def idle_probe_def)
  ultimately show ?thesis
    using r5 ps(1) by (intro exI [of _ ?s5]) (simp add: Let_def nth_append)
qed

end
