(* ===== verification/XrayJson.thy ===== *)
theory XrayJson
  imports TunnelStore
begin

text \<open>
  The outbound templates of Xray as data, \<open>internal/core/xray/type.go\<close> and \<open>extra.go\<close>: JSON values, the
  removal of comments, and the typed part of an outbound, which is decoded and encoded again with the
  keys it does not know carried along. A JSON object is the list of its keys and values; \<open>encoding/json\<close>
  matches keys to fields exactly or else by case folding.
\<close>

subsection \<open>JSON\<close>

datatype json =
  JNull
| JBool bool
| JNum rat
| JStr string
| JArr "json list"
| JObj "(string \<times> json) list"

definition str_of :: "json option \<Rightarrow> string option" where
  "str_of j = (case j of Some (JStr s) \<Rightarrow> Some s | _ \<Rightarrow> None)"

definition arr_of :: "json option \<Rightarrow> json list" where
  "arr_of j = (case j of Some (JArr xs) \<Rightarrow> xs | _ \<Rightarrow> [])"

definition obj_of :: "json option \<Rightarrow> (string \<times> json) list option" where
  "obj_of j = (case j of Some (JObj kvs) \<Rightarrow> Some kvs | _ \<Rightarrow> None)"

subsection \<open>Comments\<close>

text \<open>\<open>cleanJSONC\<close> after the byte order mark. \<open>skip_block\<close> is the inner loop of a block comment: the newlines
  it keeps and what follows the comment; \<open>None\<close> is the error for one that does not end.\<close>

definition newline :: char where "newline = CHR 0x0A"

fun skip_block :: "string \<Rightarrow> (string \<times> string) option" where
  "skip_block (a # b # r) =
     (if a = CHR ''*'' \<and> b = CHR ''/'' then Some ([], r)
      else map_option (\<lambda>(nl, rest). (if a = newline then newline # nl else nl, rest)) (skip_block (b # r)))"
| "skip_block cs = None"

lemma skip_block_shorter: "skip_block cs = Some (nl, rest) \<Longrightarrow> length rest < length cs"
  by (induction cs arbitrary: nl rest rule: skip_block.induct) (auto split: if_splits)

definition skip_line :: "string \<Rightarrow> string" where
  "skip_line cs = dropWhile (\<lambda>c. c \<noteq> newline) cs"

lemma skip_line_shorter: "length (skip_line cs) \<le> length cs"
  by (simp add: skip_line_def length_dropWhile_le)

function strip_comments :: "bool \<Rightarrow> string \<Rightarrow> string option" where
  "strip_comments inString [] = Some []"
| "strip_comments True (c # cs) =
     (if c = CHR 0x5C then
        (case cs of [] \<Rightarrow> Some [c] | d # ds \<Rightarrow> map_option (\<lambda>out. c # d # out) (strip_comments True ds))
      else map_option (\<lambda>out. c # out) (strip_comments (c \<noteq> CHR 0x22) cs))"
| "strip_comments False (c # cs) =
     (if c = CHR 0x22 then map_option (\<lambda>out. c # out) (strip_comments True cs)
      else if c = CHR ''/'' \<and> cs \<noteq> [] \<and> hd cs = CHR ''/'' then
        (case skip_line cs of
           [] \<Rightarrow> Some []
         | n # rest \<Rightarrow> map_option (\<lambda>out. newline # out) (strip_comments False rest))
      else if c = CHR ''/'' \<and> cs \<noteq> [] \<and> hd cs = CHR ''*'' then
        (case skip_block (tl cs) of
           None \<Rightarrow> None
         | Some (nl, rest) \<Rightarrow> map_option (\<lambda>out. nl @ CHR '' '' # out) (strip_comments False rest))
      else map_option (\<lambda>out. c # out) (strip_comments False cs))"
  by pat_completeness auto
termination
proof (relation "measure (\<lambda>(b, cs). length cs)", goal_cases)
  case (5 c cs n rest)
  then show ?case using skip_line_shorter [of cs] by simp
next
  case (6 c cs p nl rest)
  then show ?case using skip_block_shorter [of "tl cs" nl rest] by (cases cs) auto
qed auto

definition utf8BOM :: string where "utf8BOM = [CHR 0xEF, CHR 0xBB, CHR 0xBF]"

definition cleanJSONC :: "string \<Rightarrow> string option" where
  "cleanJSONC src = strip_comments False (if has_prefix src utf8BOM then drop 3 src else src)"

subsection \<open>Outbounds\<close>

text \<open>The key a struct with the given fields resolves a key of an object to.\<close>

definition field_for :: "string list \<Rightarrow> string \<Rightarrow> string option" where
  "field_for known k = (if k \<in> set known then Some k else find (equal_fold k) known)"

text \<open>Decoding of the fields of an object in their order, \<open>set\<close> assigning one field; an error leaves no value.\<close>

fun decode_fields :: "string list \<Rightarrow> (string \<Rightarrow> json \<Rightarrow> 'r \<Rightarrow> 'r option) \<Rightarrow> (string \<times> json) list \<Rightarrow> 'r \<Rightarrow> 'r option" where
  "decode_fields known assign [] r = Some r"
| "decode_fields known assign ((k, v) # kvs) r =
     (case field_for known k of
        None \<Rightarrow> decode_fields known assign kvs r
      | Some f \<Rightarrow> Option.bind (assign f v r) (decode_fields known assign kvs))"

definition extraFields :: "string list \<Rightarrow> (string \<times> json) list \<Rightarrow> (string \<times> json) list" where
  "extraFields known kvs = filter (\<lambda>(k, v). k \<notin> set known) kvs"

definition marshalWithExtra :: "(string \<times> json) list \<Rightarrow> (string \<times> json) list \<Rightarrow> json" where
  "marshalWithExtra base extra = JObj (base @ filter (\<lambda>(k, v). k \<notin> fst ` set base) extra)"

text \<open>Assignment to a string, and the keys that \<open>omitempty\<close> leaves out.\<close>

definition to_str :: "json \<Rightarrow> string \<Rightarrow> string option" where
  "to_str v old = (case v of JStr s \<Rightarrow> Some s | JNull \<Rightarrow> Some old | _ \<Rightarrow> None)"

definition omit :: "bool \<Rightarrow> string \<Rightarrow> json \<Rightarrow> (string \<times> json) list" where
  "omit unset k v = (if unset then [] else [(k, v)])"

record TLSSettings =
  ServerName :: string
  ALPN :: "string list"
  Fingerprint :: string
  AllowInsecure :: bool
  TlsExtra :: "(string \<times> json) list"

definition knownTLSKeys :: "string list" where
  "knownTLSKeys = [''serverName'', ''alpn'', ''fingerprint'', ''allowInsecure'']"

definition to_strs :: "json \<Rightarrow> string list option" where
  "to_strs v = (case v of JNull \<Rightarrow> Some [] | JArr xs \<Rightarrow> those (map (\<lambda>x. to_str x []) xs) | _ \<Rightarrow> None)"

definition tls_assign :: "string \<Rightarrow> json \<Rightarrow> TLSSettings \<Rightarrow> TLSSettings option" where
  "tls_assign f v t =
     (if f = ''serverName'' then map_option (\<lambda>s. t\<lparr>ServerName := s\<rparr>) (to_str v (ServerName t))
      else if f = ''alpn'' then map_option (\<lambda>xs. t\<lparr>ALPN := xs\<rparr>) (to_strs v)
      else if f = ''fingerprint'' then map_option (\<lambda>s. t\<lparr>Fingerprint := s\<rparr>) (to_str v (Fingerprint t))
      else case v of JBool b \<Rightarrow> Some (t\<lparr>AllowInsecure := b\<rparr>) | JNull \<Rightarrow> Some t | _ \<Rightarrow> None)"

definition TLS_Unmarshal :: "json \<Rightarrow> TLSSettings option" where
  "TLS_Unmarshal j =
     (case j of
        JObj kvs \<Rightarrow>
          decode_fields knownTLSKeys tls_assign kvs
            \<lparr>ServerName = [], ALPN = [], Fingerprint = [], AllowInsecure = False,
             TlsExtra = extraFields knownTLSKeys kvs\<rparr>
      | _ \<Rightarrow> None)"

definition TLS_Marshal :: "TLSSettings \<Rightarrow> json" where
  "TLS_Marshal t =
     marshalWithExtra
       (omit (ServerName t = []) ''serverName'' (JStr (ServerName t))
        @ omit (ALPN t = []) ''alpn'' (JArr (map JStr (ALPN t)))
        @ omit (Fingerprint t = []) ''fingerprint'' (JStr (Fingerprint t))
        @ omit (\<not> AllowInsecure t) ''allowInsecure'' (JBool (AllowInsecure t)))
       (TlsExtra t)"

text \<open>The raw settings of a stream are kept in one list, by their keys.\<close>

record StreamSettings =
  SsNetwork :: string
  SsSecurity :: string
  TLSPart :: "TLSSettings option"
  RawParts :: "(string \<times> json) list"
  StreamExtra :: "(string \<times> json) list"

definition rawStreamKeys :: "string list" where
  "rawStreamKeys = [''realitySettings'', ''tcpSettings'', ''wsSettings'', ''grpcSettings'', ''httpupgradeSettings'',
     ''xhttpSettings'', ''sockopt'']"

definition knownStreamKeys :: "string list" where
  "knownStreamKeys = [''network'', ''security'', ''tlsSettings''] @ rawStreamKeys"

text \<open>A pointer to a struct: null makes it nil.\<close>

definition to_ptr :: "(json \<Rightarrow> 'a option) \<Rightarrow> json \<Rightarrow> 'a option option" where
  "to_ptr unmarshal v = (if v = JNull then Some None else map_option Some (unmarshal v))"

definition stream_assign :: "string \<Rightarrow> json \<Rightarrow> StreamSettings \<Rightarrow> StreamSettings option" where
  "stream_assign f v s =
     (if f = ''network'' then map_option (\<lambda>x. s\<lparr>SsNetwork := x\<rparr>) (to_str v (SsNetwork s))
      else if f = ''security'' then map_option (\<lambda>x. s\<lparr>SsSecurity := x\<rparr>) (to_str v (SsSecurity s))
      else if f = ''tlsSettings'' then map_option (\<lambda>x. s\<lparr>TLSPart := x\<rparr>) (to_ptr TLS_Unmarshal v)
      else Some (s\<lparr>RawParts := AList.update f v (RawParts s)\<rparr>))"

definition Stream_Unmarshal :: "json \<Rightarrow> StreamSettings option" where
  "Stream_Unmarshal j =
     (case j of
        JObj kvs \<Rightarrow>
          decode_fields knownStreamKeys stream_assign kvs
            \<lparr>SsNetwork = [], SsSecurity = [], TLSPart = None, RawParts = [],
             StreamExtra = extraFields knownStreamKeys kvs\<rparr>
      | _ \<Rightarrow> None)"

definition Stream_Marshal :: "StreamSettings \<Rightarrow> json" where
  "Stream_Marshal s =
     marshalWithExtra
       (omit (SsNetwork s = []) ''network'' (JStr (SsNetwork s))
        @ omit (SsSecurity s = []) ''security'' (JStr (SsSecurity s))
        @ (case TLSPart s of None \<Rightarrow> [] | Some t \<Rightarrow> [(''tlsSettings'', TLS_Marshal t)])
        @ RawParts s)
       (StreamExtra s)"

record Outbound =
  ObTag :: string
  ObProtocol :: string
  ObSettings :: "json option"
  ObStream :: "StreamSettings option"
  ObMux :: "json option"
  ObExtra :: "(string \<times> json) list"

definition knownOutboundKeys :: "string list" where
  "knownOutboundKeys = [''tag'', ''protocol'', ''settings'', ''streamSettings'', ''mux'']"

definition outbound_assign :: "string \<Rightarrow> json \<Rightarrow> Outbound \<Rightarrow> Outbound option" where
  "outbound_assign f v ob =
     (if f = ''tag'' then map_option (\<lambda>x. ob\<lparr>ObTag := x\<rparr>) (to_str v (ObTag ob))
      else if f = ''protocol'' then map_option (\<lambda>x. ob\<lparr>ObProtocol := x\<rparr>) (to_str v (ObProtocol ob))
      else if f = ''settings'' then Some (ob\<lparr>ObSettings := Some v\<rparr>)
      else if f = ''streamSettings'' then map_option (\<lambda>x. ob\<lparr>ObStream := x\<rparr>) (to_ptr Stream_Unmarshal v)
      else Some (ob\<lparr>ObMux := Some v\<rparr>))"

text \<open>The element null of an array reaches \<open>UnmarshalJSON\<close> as well and leaves the zero value.\<close>

definition Outbound_Unmarshal :: "json \<Rightarrow> Outbound option" where
  "Outbound_Unmarshal j =
     (case j of
        JNull \<Rightarrow> Some \<lparr>ObTag = [], ObProtocol = [], ObSettings = None, ObStream = None, ObMux = None, ObExtra = []\<rparr>
      | JObj kvs \<Rightarrow>
          decode_fields knownOutboundKeys outbound_assign kvs
            \<lparr>ObTag = [], ObProtocol = [], ObSettings = None, ObStream = None, ObMux = None,
             ObExtra = extraFields knownOutboundKeys kvs\<rparr>
      | _ \<Rightarrow> None)"

definition raw_key :: "string \<Rightarrow> json option \<Rightarrow> (string \<times> json) list" where
  "raw_key k v = (case v of None \<Rightarrow> [] | Some j \<Rightarrow> [(k, j)])"

definition Outbound_Marshal :: "Outbound \<Rightarrow> json" where
  "Outbound_Marshal ob =
     marshalWithExtra
       (omit (ObTag ob = []) ''tag'' (JStr (ObTag ob))
        @ [(''protocol'', JStr (ObProtocol ob))]
        @ raw_key ''settings'' (ObSettings ob)
        @ raw_key ''streamSettings'' (map_option Stream_Marshal (ObStream ob))
        @ raw_key ''mux'' (ObMux ob))
       (ObExtra ob)"

definition Canonical :: "string \<Rightarrow> string" where
  "Canonical n =
     (if n = [] \<or> n = ''raw'' then ''tcp'' else if n = ''h2'' then ''http''
      else if n = ''splithttp'' then ''xhttp'' else n)"

definition Outbound_Network :: "Outbound \<Rightarrow> string" where
  "Outbound_Network ob =
     (case ObStream ob of
        None \<Rightarrow> ''tcp'' | Some ss \<Rightarrow> if SsNetwork ss \<noteq> [] then SsNetwork ss else ''tcp'')"

definition Outbound_Security :: "Outbound \<Rightarrow> string" where
  "Outbound_Security ob =
     (case ObStream ob of
        None \<Rightarrow> ''none'' | Some ss \<Rightarrow> if SsSecurity ss \<noteq> [] then SsSecurity ss else ''none'')"

definition normalizeWSALPN :: "Outbound \<Rightarrow> Outbound" where
  "normalizeWSALPN ob =
     (case ObStream ob of
        None \<Rightarrow> ob
      | Some ss \<Rightarrow>
          (case TLSPart ss of
             None \<Rightarrow> ob
           | Some t \<Rightarrow>
               if Canonical (SsNetwork ss) \<noteq> ''ws'' then ob
               else ob\<lparr>ObStream := Some (ss\<lparr>TLSPart := Some (t\<lparr>ALPN := [''http/1.1'']\<rparr>)\<rparr>)\<rparr>))"

subsection \<open>Comments are gone, the lines stay\<close>

lemma newline_neq [simp]: "newline \<noteq> CHR ''/''" "newline \<noteq> CHR 0x22" "newline \<noteq> CHR 0x5C" "newline \<noteq> CHR ''*''" "newline \<noteq> CHR '' ''"
  "CHR ''/'' \<noteq> newline" "CHR 0x22 \<noteq> newline" "CHR ''*'' \<noteq> newline" "CHR '' '' \<noteq> newline" "CHR 0x5C \<noteq> newline"
  by (simp_all add: newline_def)

definition lines_in :: "string \<Rightarrow> nat" where
  "lines_in s = length (filter (\<lambda>c. c = newline) s)"

lemma lines_in_simps [simp]:
  "lines_in [] = 0" "lines_in (c # s) = (if c = newline then Suc (lines_in s) else lines_in s)"
  "lines_in (s @ t) = lines_in s + lines_in t"
  by (simp_all add: lines_in_def)

lemma skip_block_lines: "skip_block cs = Some (nl, rest) \<Longrightarrow> lines_in cs = lines_in nl + lines_in rest \<and> set nl \<subseteq> {newline}"
proof (induction cs arbitrary: nl rest rule: skip_block.induct)
  case (1 a b r)
  show ?case
  proof (cases "a = CHR ''*'' \<and> b = CHR ''/''")
    case True
    with "1.prems" show ?thesis by simp
  next
    case False
    with "1.prems" obtain nl' where "skip_block (b # r) = Some (nl', rest)"
      "nl = (if a = newline then newline # nl' else nl')" by auto
    with "1.IH" [OF False this(1)] show ?thesis by auto
  qed
qed auto

lemma skip_line_lines: "lines_in (skip_line cs) = lines_in cs"
  by (induction cs) (auto simp: skip_line_def)

lemma skip_line_hd: "skip_line cs = n # rest \<Longrightarrow> n = newline"
  by (induction cs) (auto simp: skip_line_def split: if_splits)

lemma strip_comments_lines: "strip_comments q src = Some out \<Longrightarrow> lines_in out = lines_in src"
proof (induction q src arbitrary: out rule: strip_comments.induct)
  case (2 c cs)
  then show ?case by (auto split: if_splits list.splits)
next
  case (3 c cs)
  consider (quote) "c = CHR 0x22" | (line) "c = CHR ''/''" "cs \<noteq> []" "hd cs = CHR ''/''"
    | (block) "c = CHR ''/''" "cs \<noteq> []" "hd cs = CHR ''*''"
    | (plain) "c \<noteq> CHR 0x22" "\<not> (c = CHR ''/'' \<and> cs \<noteq> [] \<and> (hd cs = CHR ''/'' \<or> hd cs = CHR ''*''))" by auto
  then show ?case
  proof cases
    case line
    show ?thesis
    proof (cases "skip_line cs")
      case Nil
      with line "3.prems" skip_line_lines [of cs] show ?thesis by simp
    next
      case (Cons n rest)
      with line "3.prems" obtain o' where o': "strip_comments False rest = Some o'" "out = newline # o'" by auto
      from "3.IH"(2) [OF _ _ Cons o'(1)] line have "lines_in o' = lines_in rest" by simp
      with o'(2) line Cons skip_line_hd [OF Cons] skip_line_lines [of cs] show ?thesis by simp
    qed
  next
    case block
    then obtain nl rest o' where b: "skip_block (tl cs) = Some (nl, rest)" "strip_comments False rest = Some o'"
      "out = nl @ CHR '' '' # o'" using "3.prems" by (auto split: option.splits)
    from "3.IH"(3) [OF _ _ _ b(1) refl b(2)] block have "lines_in o' = lines_in rest" by simp
    with b block skip_block_lines [OF b(1)] show ?thesis by (cases cs) auto
  qed (use 3 in \<open>auto split: if_splits\<close>)
qed simp

text \<open>The output has no comments, so that stripping it again changes nothing.\<close>

lemma strip_comments_hd:
  assumes "strip_comments False cs = Some out" and "\<not> (cs \<noteq> [] \<and> hd cs = CHR ''/'')"
  shows "out = [] \<longleftrightarrow> cs = []" "cs \<noteq> [] \<Longrightarrow> hd out = hd cs"
  using assms by (cases cs; auto split: if_splits)+

lemma strip_newlines: "set nl \<subseteq> {newline} \<Longrightarrow> strip_comments False (nl @ s) = map_option ((@) nl) (strip_comments False s)"
  by (cases "strip_comments False s"; induction nl) auto

lemma strip_comments_idem: "strip_comments q src = Some out \<Longrightarrow> strip_comments q out = Some out"
proof (induction q src arbitrary: out rule: strip_comments.induct)
  case (2 c cs)
  then show ?case by (auto split: if_splits list.splits)
next
  case (3 c cs)
  consider (quote) "c = CHR 0x22" | (line) "c = CHR ''/''" "cs \<noteq> []" "hd cs = CHR ''/''"
    | (block) "c = CHR ''/''" "cs \<noteq> []" "hd cs = CHR ''*''"
    | (plain) "c \<noteq> CHR 0x22" "\<not> (c = CHR ''/'' \<and> cs \<noteq> [] \<and> (hd cs = CHR ''/'' \<or> hd cs = CHR ''*''))" by auto
  then show ?case
  proof cases
    case quote
    with "3.prems" obtain o' where o': "strip_comments True cs = Some o'" "out = c # o'" by auto
    with "3.IH"(1) [OF quote] quote show ?thesis by simp
  next
    case line
    show ?thesis
    proof (cases "skip_line cs")
      case Nil
      with line "3.prems" show ?thesis by simp
    next
      case (Cons n rest)
      with line "3.prems" obtain o' where o': "strip_comments False rest = Some o'" "out = newline # o'" by auto
      from "3.IH"(2) [OF _ _ Cons o'(1)] line have "strip_comments False o' = Some o'" by simp
      with o'(2) show ?thesis by simp
    qed
  next
    case block
    then obtain nl rest o' where b: "skip_block (tl cs) = Some (nl, rest)" "strip_comments False rest = Some o'"
      "out = nl @ CHR '' '' # o'" using "3.prems" by (auto split: option.splits)
    from "3.IH"(3) [OF _ _ _ b(1) refl b(2)] block have "strip_comments False o' = Some o'" by simp
    with b skip_block_lines [OF b(1)] show ?thesis by (simp add: strip_newlines)
  next
    case plain
    then obtain o' where o': "strip_comments False cs = Some o'" "out = c # o'" using "3.prems" by (auto split: if_splits)
    from "3.IH"(4) plain o' have same: "strip_comments False o' = Some o'" by auto
    show ?thesis
    proof (cases "c = CHR ''/''")
      case True
      with plain have "\<not> (cs \<noteq> [] \<and> hd cs = CHR ''/'')" by auto
      note hd = strip_comments_hd [OF o'(1) this]
      with plain True same o' show ?thesis by auto
    qed (use same o' plain in auto)
  qed
qed simp

text \<open>Removing the comments of a template keeps every line where it was, so that the errors of the JSON parser
  point at the right line, and leaves no comment: removing comments again changes nothing.\<close>

theorem cleaned_template_keeps_lines:
  assumes "cleanJSONC src = Some out"
  shows "lines_in out = lines_in src \<and> strip_comments False out = Some out"
proof -
  have "lines_in (if has_prefix src utf8BOM then drop 3 src else src) = lines_in src"
    by (auto simp: has_prefix_def utf8BOM_def prefix_def newline_def)
  with strip_comments_lines [OF assms [unfolded cleanJSONC_def]]
    strip_comments_idem [OF assms [unfolded cleanJSONC_def]]
  show ?thesis by simp
qed

theorem cleaned_template_keeps_lines_witness:
  "cleanJSONC (CHR 0x22 # ''//'' @ [CHR 0x22] @ ''/*a'' @ [newline] @ ''*/1'')
     = Some (CHR 0x22 # ''//'' @ [CHR 0x22, newline] @ '' 1'')
   \<and> strip_comments False (CHR 0x22 # ''//'' @ [CHR 0x22, newline] @ '' 1'') = Some (CHR 0x22 # ''//'' @ [CHR 0x22, newline] @ '' 1'')"
proof -
  have "cleanJSONC (CHR 0x22 # ''//'' @ [CHR 0x22] @ ''/*a'' @ [newline] @ ''*/1'')
     = Some (CHR 0x22 # ''//'' @ [CHR 0x22, newline] @ '' 1'')" by code_simp
  with cleaned_template_keeps_lines [OF this] show ?thesis by simp
qed

subsection \<open>Decoding what was encoded\<close>

definition foreign :: "string list \<Rightarrow> (string \<times> json) list \<Rightarrow> bool" where
  "foreign known kvs \<longleftrightarrow> (\<forall>(k, v) \<in> set kvs. field_for known k = None)"

lemma decode_append:
  "decode_fields known assign (xs @ ys) r = Option.bind (decode_fields known assign xs r) (decode_fields known assign ys)"
  by (induction xs arbitrary: r) (auto split: option.split Option.bind_split)

lemma decode_foreign: "foreign known kvs \<Longrightarrow> decode_fields known assign kvs r = Some r"
  by (induction kvs) (auto simp: foreign_def)

lemma field_for_known [simp]: "k \<in> set known \<Longrightarrow> field_for known k = Some k"
  by (simp add: field_for_def)

lemma foreign_unknown: "foreign known kvs \<Longrightarrow> (k, v) \<in> set kvs \<Longrightarrow> k \<notin> set known"
  by (auto simp: foreign_def field_for_def split: if_splits)

lemma foreign_filter:
  assumes "foreign known extra" and "fst ` set base \<subseteq> set known"
  shows "filter (\<lambda>(k, v). k \<notin> fst ` set base) extra = extra" "extraFields known (base @ extra) = extra"
proof -
  have k: "fst p \<notin> set known" if "p \<in> set extra" for p
    using foreign_unknown [OF assms(1), of "fst p" "snd p"] that by simp
  have "\<forall>p \<in> set extra. fst p \<notin> fst ` set base" using k assms(2) by blast
  then show "filter (\<lambda>(k, v). k \<notin> fst ` set base) extra = extra" by (simp add: filter_id_conv split_beta)
  have "filter (\<lambda>(k, v). k \<notin> set known) extra = extra" using k by (simp add: filter_id_conv split_beta)
  moreover have "filter (\<lambda>(k, v). k \<notin> set known) base = []"
    using assms(2) by (auto simp: filter_empty_conv)
  ultimately show "extraFields known (base @ extra) = extra" by (simp add: extraFields_def)
qed

lemma filter_known_keys: "fst ` set base \<subseteq> set known \<Longrightarrow> k \<notin> set known \<Longrightarrow> map_of (base @ extra) k = map_of extra k"
  by (auto simp: map_add_def map_of_eq_None_iff split: option.split dest!: map_of_SomeD)

lemma to_str_JStr [simp]: "to_str (JStr x) old = Some x"
  by (simp add: to_str_def)

lemma to_strs_JStr [simp]: "to_strs (JArr (map JStr xs)) = Some xs"
proof -
  have "those (map (\<lambda>x. to_str x []) (map JStr xs)) = Some xs" by (induction xs) simp_all
  then show ?thesis by (simp add: to_strs_def)
qed

text \<open>Marshalling and reading back, for the base fields \<open>base\<close> of a struct.\<close>

lemma read_back:
  assumes "foreign known extra" and "fst ` set base \<subseteq> set known"
    and "decode_fields known assign base (z extra) = Some r"
  shows "marshalWithExtra base extra = JObj (base @ extra) \<and> extraFields known (base @ extra) = extra
    \<and> decode_fields known assign (base @ extra) (z extra) = Some r"
  using foreign_filter [OF assms(1,2)] assms(3) decode_foreign [OF assms(1)]
  by (simp add: marshalWithExtra_def decode_append)

definition tls_wf :: "TLSSettings \<Rightarrow> bool" where
  "tls_wf t \<longleftrightarrow> foreign knownTLSKeys (TlsExtra t)"

lemma tls_round_trip:
  assumes "tls_wf t"
  shows "TLS_Unmarshal (TLS_Marshal t) = Some t"
proof -
  let ?base = "omit (ServerName t = []) ''serverName'' (JStr (ServerName t))
        @ omit (ALPN t = []) ''alpn'' (JArr (map JStr (ALPN t)))
        @ omit (Fingerprint t = []) ''fingerprint'' (JStr (Fingerprint t))
        @ omit (\<not> AllowInsecure t) ''allowInsecure'' (JBool (AllowInsecure t))"
  let ?z = "\<lambda>ex. \<lparr>ServerName = [], ALPN = [], Fingerprint = [], AllowInsecure = False, TlsExtra = ex\<rparr>"
  have keys: "fst ` set ?base \<subseteq> set knownTLSKeys" by (auto simp: omit_def knownTLSKeys_def)
  have "decode_fields knownTLSKeys tls_assign ?base (?z (TlsExtra t)) = Some t"
    by (cases t) (auto simp: omit_def decode_append tls_assign_def knownTLSKeys_def)
  from read_back [where z = ?z, OF _ keys this] assms show ?thesis
    by (simp add: tls_wf_def TLS_Marshal_def TLS_Unmarshal_def)
qed

definition stream_wf :: "StreamSettings \<Rightarrow> bool" where
  "stream_wf s \<longleftrightarrow>
     foreign knownStreamKeys (StreamExtra s) \<and> (case TLSPart s of None \<Rightarrow> True | Some t \<Rightarrow> tls_wf t)
     \<and> distinct (map fst (RawParts s)) \<and> fst ` set (RawParts s) \<subseteq> set rawStreamKeys"

lemma decode_raw_parts:
  assumes "distinct (map fst (RawParts s @ ps))" and "fst ` set ps \<subseteq> set rawStreamKeys"
  shows "decode_fields knownStreamKeys stream_assign ps s = Some (s\<lparr>RawParts := RawParts s @ ps\<rparr>)"
  using assms
proof (induction ps arbitrary: s)
  case (Cons p ps)
  obtain k v where p: "p = (k, v)" by force
  with Cons.prems have k: "k \<in> set rawStreamKeys" and new: "k \<notin> fst ` set (RawParts s)" by auto
  have "k \<notin> fst ` set kvs \<Longrightarrow> AList.update k v kvs = kvs @ [(k, v)]" for kvs
    by (induction kvs) auto
  from this [OF new] have "AList.update k v (RawParts s) = RawParts s @ [(k, v)]" .
  moreover from k have "k \<in> set knownStreamKeys" "k \<noteq> ''network''" "k \<noteq> ''security''" "k \<noteq> ''tlsSettings''"
    by (auto simp: knownStreamKeys_def rawStreamKeys_def)
  ultimately show ?case
    using Cons.IH [of "s\<lparr>RawParts := RawParts s @ [(k, v)]\<rparr>"] Cons.prems p by (simp add: stream_assign_def)
qed simp

lemma stream_round_trip:
  assumes "stream_wf s"
  shows "Stream_Unmarshal (Stream_Marshal s) = Some s"
proof -
  let ?tls = "case TLSPart s of None \<Rightarrow> [] | Some t \<Rightarrow> [(''tlsSettings'', TLS_Marshal t)]"
  let ?head = "omit (SsNetwork s = []) ''network'' (JStr (SsNetwork s))
        @ omit (SsSecurity s = []) ''security'' (JStr (SsSecurity s)) @ ?tls"
  let ?z = "\<lambda>ex. \<lparr>SsNetwork = [], SsSecurity = [], TLSPart = None, RawParts = [], StreamExtra = ex\<rparr>"
  have parts: "distinct (map fst (RawParts s))" "fst ` set (RawParts s) \<subseteq> set rawStreamKeys"
    and extra: "foreign knownStreamKeys (StreamExtra s)" using assms by (simp_all add: stream_wf_def)
  have keys: "fst ` set (?head @ RawParts s) \<subseteq> set knownStreamKeys"
    using parts(2) by (auto simp: omit_def knownStreamKeys_def split: option.splits)
  have obj: "TLS_Marshal t \<noteq> JNull" for t by (simp add: TLS_Marshal_def marshalWithExtra_def)
  have tls: "TLS_Unmarshal (TLS_Marshal t) = Some t" if "TLSPart s = Some t" for t
    using assms that tls_round_trip [of t] by (simp add: stream_wf_def)
  have "decode_fields knownStreamKeys stream_assign ?head (?z (StreamExtra s)) = Some (s\<lparr>RawParts := []\<rparr>)"
    using tls by (cases s; cases "TLSPart s")
      (auto simp: omit_def decode_append stream_assign_def knownStreamKeys_def to_ptr_def obj)
  then have "decode_fields knownStreamKeys stream_assign (?head @ RawParts s) (?z (StreamExtra s)) = Some s"
    unfolding decode_append using decode_raw_parts [of "s\<lparr>RawParts := []\<rparr>" "RawParts s"] parts by simp
  from read_back [where z = ?z, OF extra keys this] show ?thesis
    by (simp add: Stream_Marshal_def Stream_Unmarshal_def)
qed

definition outbound_wf :: "Outbound \<Rightarrow> bool" where
  "outbound_wf ob \<longleftrightarrow>
     foreign knownOutboundKeys (ObExtra ob) \<and> (case ObStream ob of None \<Rightarrow> True | Some ss \<Rightarrow> stream_wf ss)"

lemma outbound_round_trip:
  assumes "outbound_wf ob"
  shows "Outbound_Unmarshal (Outbound_Marshal ob) = Some ob"
proof -
  let ?base = "omit (ObTag ob = []) ''tag'' (JStr (ObTag ob))
        @ [(''protocol'', JStr (ObProtocol ob))]
        @ raw_key ''settings'' (ObSettings ob)
        @ raw_key ''streamSettings'' (map_option Stream_Marshal (ObStream ob))
        @ raw_key ''mux'' (ObMux ob)"
  let ?z = "\<lambda>ex. \<lparr>ObTag = [], ObProtocol = [], ObSettings = None, ObStream = None, ObMux = None, ObExtra = ex\<rparr>"
  have extra: "foreign knownOutboundKeys (ObExtra ob)" using assms by (simp add: outbound_wf_def)
  have keys: "fst ` set ?base \<subseteq> set knownOutboundKeys"
    by (auto simp: omit_def raw_key_def knownOutboundKeys_def split: option.splits)
  have obj: "Stream_Marshal t \<noteq> JNull" for t by (simp add: Stream_Marshal_def marshalWithExtra_def)
  have ss: "Stream_Unmarshal (Stream_Marshal t) = Some t" if "ObStream ob = Some t" for t
    using assms that stream_round_trip [of t] by (simp add: outbound_wf_def)
  have "decode_fields knownOutboundKeys outbound_assign ?base (?z (ObExtra ob)) = Some ob"
    using ss by (cases ob; cases "ObSettings ob"; cases "ObStream ob"; cases "ObMux ob")
      (auto simp: omit_def raw_key_def decode_append outbound_assign_def knownOutboundKeys_def to_ptr_def obj)
  from read_back [where z = ?z, OF extra keys this] show ?thesis
    by (simp add: Outbound_Marshal_def Outbound_Unmarshal_def)
qed

text \<open>Objects whose keys no field takes by case folding alone.\<close>

definition exact_keys :: "string list \<Rightarrow> (string \<times> json) list \<Rightarrow> bool" where
  "exact_keys known kvs \<longleftrightarrow> (\<forall>(k, v) \<in> set kvs. k \<in> set known \<or> field_for known k = None)"

lemma extra_foreign: "exact_keys known kvs \<Longrightarrow> foreign known (extraFields known kvs)"
  by (auto simp: exact_keys_def foreign_def extraFields_def)

lemma decode_inv:
  assumes "decode_fields known assign kvs r = Some r'" and "P r"
    and "\<And>k v f q q'. (k, v) \<in> set kvs \<Longrightarrow> field_for known k = Some f \<Longrightarrow> P q \<Longrightarrow> assign f v q = Some q' \<Longrightarrow> P q'"
  shows "P r'"
  using assms
proof (induction kvs arbitrary: r)
  case (Cons p kvs)
  obtain k v where p: "p = (k, v)" by force
  show ?case
  proof (cases "field_for known k")
    case None
    with Cons.prems p have "decode_fields known assign kvs r = Some r'" by simp
    from Cons.IH [OF this Cons.prems(2)] Cons.prems(3) show ?thesis by (metis list.set_intros(2))
  next
    case (Some f)
    with Cons.prems(1) p obtain q where q: "assign f v r = Some q" "decode_fields known assign kvs q = Some r'"
      by (auto simp: bind_eq_Some_conv)
    have "P q" using Cons.prems(3) [OF _ Some Cons.prems(2) q(1)] p by simp
    from Cons.IH [OF q(2) this] Cons.prems(3) show ?thesis by (metis list.set_intros(2))
  qed
qed simp

text \<open>A field that \<open>get\<close> reads and only the assignment to \<open>f\<close> changes holds the value of its key.\<close>

lemma decode_get:
  assumes "decode_fields known assign kvs r = Some r'" and "exact_keys known kvs" and "distinct (map fst kvs)"
    and "f \<in> set known" and "\<And>v q q'. assign f v q = Some q' \<Longrightarrow> get q' = Some v"
    and "\<And>g v q q'. g \<in> set known \<Longrightarrow> g \<noteq> f \<Longrightarrow> assign g v q = Some q' \<Longrightarrow> get q' = get q"
  shows "get r' = (case map_of kvs f of None \<Rightarrow> get r | Some v \<Rightarrow> Some v)"
  using assms(1-3)
proof (induction kvs arbitrary: r)
  case (Cons p kvs)
  obtain k v where p: "p = (k, v)" by force
  have ex: "exact_keys known kvs" "distinct (map fst kvs)" using Cons.prems by (simp_all add: exact_keys_def)
  show ?case
  proof (cases "k \<in> set known")
    case False
    with Cons.prems p have "decode_fields known assign kvs r = Some r'" by (simp add: exact_keys_def)
    moreover from False assms(4) have "k \<noteq> f" by auto
    ultimately show ?thesis using Cons.IH [OF _ ex] p by simp
  next
    case True
    with Cons.prems(1) p obtain q where q: "assign k v r = Some q" "decode_fields known assign kvs q = Some r'"
      by (auto simp: bind_eq_Some_conv)
    from Cons.IH [OF q(2) ex] have IH: "get r' = (case map_of kvs f of None \<Rightarrow> get q | Some v \<Rightarrow> Some v)" .
    show ?thesis
    proof (cases "k = f")
      case True
      with Cons.prems(3) p have "map_of kvs f = None" by (auto simp: map_of_eq_None_iff)
      with IH True p assms(5) [of v r q] q(1) show ?thesis by simp
    next
      case False
      from assms(6) [OF \<open>k \<in> set known\<close> False q(1)] have "get q = get r" .
      with IH p False show ?thesis by (simp split: option.split)
    qed
  qed
qed simp

definition tls_exact :: "json \<Rightarrow> bool" where
  "tls_exact j = (case j of JObj kvs \<Rightarrow> exact_keys knownTLSKeys kvs | _ \<Rightarrow> True)"

definition stream_exact :: "json \<Rightarrow> bool" where
  "stream_exact j =
     (case j of
        JObj kvs \<Rightarrow> exact_keys knownStreamKeys kvs \<and> list_all (\<lambda>(k, v). k = ''tlsSettings'' \<longrightarrow> tls_exact v) kvs
      | _ \<Rightarrow> True)"

definition template_exact :: "(string \<times> json) list \<Rightarrow> bool" where
  "template_exact kvs \<longleftrightarrow>
     exact_keys knownOutboundKeys kvs \<and> distinct (map fst kvs)
     \<and> list_all (\<lambda>(k, v). k = ''streamSettings'' \<longrightarrow> stream_exact v) kvs"

lemma field_for_exact: "exact_keys known kvs \<Longrightarrow> (k, v) \<in> set kvs \<Longrightarrow> field_for known k = Some f \<Longrightarrow> k = f \<and> f \<in> set known"
  by (auto simp: exact_keys_def)

lemma to_ptr_Some: "to_ptr um v = Some (Some x) \<Longrightarrow> um v = Some x"
  by (auto simp: to_ptr_def split: if_splits)

lemma tls_decoded_wf: "TLS_Unmarshal j = Some t \<Longrightarrow> tls_exact j \<Longrightarrow> tls_wf t"
proof -
  assume d: "TLS_Unmarshal j = Some t" "tls_exact j"
  then obtain kvs where kvs: "j = JObj kvs" "exact_keys knownTLSKeys kvs" by (auto simp: TLS_Unmarshal_def tls_exact_def split: json.splits)
  from d kvs have "TlsExtra t = extraFields knownTLSKeys kvs"
    by (auto simp: TLS_Unmarshal_def tls_assign_def split: if_splits json.splits
        elim!: decode_inv [where P = "\<lambda>t. TlsExtra t = extraFields knownTLSKeys kvs"])
  with extra_foreign [OF kvs(2)] show ?thesis by (simp add: tls_wf_def)
qed

lemma update_keys: "fst ` set (AList.update k v kvs) = insert k (fst ` set kvs)"
  by (induction kvs) auto

lemma stream_decoded_wf: "Stream_Unmarshal j = Some s \<Longrightarrow> stream_exact j \<Longrightarrow> stream_wf s"
proof -
  assume d: "Stream_Unmarshal j = Some s" "stream_exact j"
  then obtain kvs where kvs: "j = JObj kvs" "exact_keys knownStreamKeys kvs"
    "\<forall>(k, v) \<in> set kvs. k = ''tlsSettings'' \<longrightarrow> tls_exact v"
    by (auto simp: Stream_Unmarshal_def stream_exact_def list_all_iff split: json.splits)
  let ?P = "\<lambda>s. StreamExtra s = extraFields knownStreamKeys kvs \<and> (case TLSPart s of None \<Rightarrow> True | Some t \<Rightarrow> tls_wf t)
     \<and> distinct (map fst (RawParts s)) \<and> fst ` set (RawParts s) \<subseteq> set rawStreamKeys"
  from d kvs have dec: "decode_fields knownStreamKeys stream_assign kvs
      \<lparr>SsNetwork = [], SsSecurity = [], TLSPart = None, RawParts = [], StreamExtra = extraFields knownStreamKeys kvs\<rparr> = Some s"
    by (simp add: Stream_Unmarshal_def)
  have "?P s"
  proof (rule decode_inv [where P = ?P, OF dec])
    fix k v f q q'
    assume kv: "(k, v) \<in> set kvs" "field_for knownStreamKeys k = Some f" and P: "?P q" and a: "stream_assign f v q = Some q'"
    from field_for_exact [OF kvs(2) kv] have f: "k = f" "f \<in> set knownStreamKeys" by auto
    consider (net) "f = ''network''" | (sec) "f = ''security''" | (tls) "f = ''tlsSettings''"
      | (raw) "f \<in> set rawStreamKeys" "f \<noteq> ''network''" "f \<noteq> ''security''" "f \<noteq> ''tlsSettings''"
      using f by (auto simp: knownStreamKeys_def)
    then show "?P q'"
    proof cases
      case tls
      with a obtain x where x: "to_ptr TLS_Unmarshal v = Some x" "q' = q\<lparr>TLSPart := x\<rparr>" by (auto simp: stream_assign_def)
      have "tls_exact v" using kvs(3) kv(1) f tls by auto
      with x P tls_decoded_wf [of v] to_ptr_Some [of TLS_Unmarshal v] show ?thesis by (auto split: option.splits)
    next
      case raw
      with a have q': "q' = q\<lparr>RawParts := AList.update f v (RawParts q)\<rparr>" by (simp add: stream_assign_def)
      from P raw(1) have "fst ` set (RawParts q') \<subseteq> set rawStreamKeys" unfolding q' by (simp add: update_keys)
      with P show ?thesis unfolding q' by (simp add: distinct_update)
    next
      case net
      with a obtain x where "q' = q\<lparr>SsNetwork := x\<rparr>" by (auto simp: stream_assign_def)
      with P show ?thesis by simp
    next
      case sec
      with a obtain x where "q' = q\<lparr>SsSecurity := x\<rparr>" by (auto simp: stream_assign_def)
      with P show ?thesis by simp
    qed
  qed simp
  with extra_foreign [OF kvs(2)] show ?thesis by (simp add: stream_wf_def)
qed

lemma outbound_decoded_wf:
  assumes "Outbound_Unmarshal (JObj kvs) = Some ob" and "template_exact kvs"
  shows "outbound_wf ob" "ObExtra ob = extraFields knownOutboundKeys kvs"
proof -
  let ?P = "\<lambda>ob. ObExtra ob = extraFields knownOutboundKeys kvs \<and> (case ObStream ob of None \<Rightarrow> True | Some t \<Rightarrow> stream_wf t)"
  have ex: "exact_keys knownOutboundKeys kvs" "\<forall>(k, v) \<in> set kvs. k = ''streamSettings'' \<longrightarrow> stream_exact v"
    using assms(2) by (auto simp: template_exact_def list_all_iff)
  have P: "?P ob"
  proof (rule decode_inv [where P = ?P, OF assms(1) [unfolded Outbound_Unmarshal_def json.case]])
    fix k v f q q'
    assume kv: "(k, v) \<in> set kvs" "field_for knownOutboundKeys k = Some f" and P: "?P q" and a: "outbound_assign f v q = Some q'"
    from field_for_exact [OF ex(1) kv] have f: "k = f" by auto
    show "?P q'"
    proof (cases "f = ''streamSettings''")
      case True
      with a obtain x where x: "to_ptr Stream_Unmarshal v = Some x" "q' = q\<lparr>ObStream := x\<rparr>" by (auto simp: outbound_assign_def)
      have "stream_exact v" using ex(2) kv(1) f True by auto
      with x P stream_decoded_wf [of v] to_ptr_Some [of Stream_Unmarshal v] show ?thesis by (auto split: option.splits)
    qed (use a P in \<open>auto simp: outbound_assign_def split: if_splits\<close>)
  qed simp
  with extra_foreign [OF ex(1)] show "outbound_wf ob" by (simp add: outbound_wf_def)
  from P show "ObExtra ob = extraFields knownOutboundKeys kvs" by simp
qed

lemma raw_get:
  assumes "Outbound_Unmarshal (JObj kvs) = Some ob" and "template_exact kvs"
  shows "ObSettings ob = map_of kvs ''settings''" "ObMux ob = map_of kvs ''mux''"
proof -
  have ex: "exact_keys knownOutboundKeys kvs" "distinct (map fst kvs)" using assms(2) by (simp_all add: template_exact_def)
  note d = assms(1) [unfolded Outbound_Unmarshal_def json.case]
  have known: "''settings'' \<in> set knownOutboundKeys" "''mux'' \<in> set knownOutboundKeys" by (simp_all add: knownOutboundKeys_def)
  have own: "outbound_assign ''settings'' v q = Some q' \<Longrightarrow> ObSettings q' = Some v"
    "outbound_assign ''mux'' v q = Some q' \<Longrightarrow> ObMux q' = Some v" for v q q'
    by (auto simp: outbound_assign_def)
  have other: "g \<noteq> ''settings'' \<Longrightarrow> outbound_assign g v q = Some q' \<Longrightarrow> ObSettings q' = ObSettings q"
    "g \<in> set knownOutboundKeys \<Longrightarrow> g \<noteq> ''mux'' \<Longrightarrow> outbound_assign g v q = Some q' \<Longrightarrow> ObMux q' = ObMux q" for g v q q'
    by (auto simp: outbound_assign_def knownOutboundKeys_def split: if_splits)
  show "ObSettings ob = map_of kvs ''settings''"
    using decode_get [where get = ObSettings, OF d ex known(1) own(1) other(1)] by (simp split: option.splits)
  show "ObMux ob = map_of kvs ''mux''"
    using decode_get [where get = ObMux, OF d ex known(2) own(2) other(2)] by (simp split: option.splits)
qed

text \<open>C26. A template loses nothing when it is saved. For an outbound object without repeated keys and without
  keys that match a field by their case alone, decoding and encoding it again keeps the value of
  every key the program does not know, the protocol's settings and the multiplexing settings; and the
  encoded template decodes to the same outbound again.\<close>

theorem template_round_trip:
  assumes "template_exact kvs" and "Outbound_Unmarshal (JObj kvs) = Some ob"
  shows "\<exists>kvs'. Outbound_Marshal ob = JObj kvs' \<and> Outbound_Unmarshal (JObj kvs') = Some ob
     \<and> (\<forall>k. k \<in> {''settings'', ''mux''} \<union> - set knownOutboundKeys \<longrightarrow> map_of kvs' k = map_of kvs k)"
proof -
  note wf = outbound_decoded_wf [OF assms(2,1)]
  let ?base = "omit (ObTag ob = []) ''tag'' (JStr (ObTag ob))
        @ [(''protocol'', JStr (ObProtocol ob))]
        @ raw_key ''settings'' (ObSettings ob)
        @ raw_key ''streamSettings'' (map_option Stream_Marshal (ObStream ob))
        @ raw_key ''mux'' (ObMux ob)"
  have keys: "fst ` set ?base \<subseteq> set knownOutboundKeys"
    by (auto simp: omit_def raw_key_def knownOutboundKeys_def split: option.splits)
  have extra: "foreign knownOutboundKeys (ObExtra ob)" using wf(1) by (simp add: outbound_wf_def)
  have m: "Outbound_Marshal ob = JObj (?base @ ObExtra ob)"
    using foreign_filter(1) [OF extra keys] by (simp add: Outbound_Marshal_def marshalWithExtra_def)
  have unknown: "map_of (?base @ ObExtra ob) k = map_of kvs k" if "k \<notin> set knownOutboundKeys" for k
  proof -
    have "map_of (extraFields knownOutboundKeys kvs) k = map_of kvs k"
      using that by (induction kvs) (auto simp: extraFields_def)
    with filter_known_keys [OF keys that, of "ObExtra ob"] wf(2) show ?thesis by simp
  qed
  have none: "map_of (ObExtra ob) k = None" if "k \<in> set knownOutboundKeys" for k
    using foreign_unknown [OF extra] that by (auto simp: map_of_eq_None_iff)
  have raw: "map_of (?base @ ObExtra ob) ''settings'' = ObSettings ob" "map_of (?base @ ObExtra ob) ''mux'' = ObMux ob"
    using none [of "''settings''"] none [of "''mux''"]
    by (auto simp: omit_def raw_key_def map_add_def knownOutboundKeys_def split: option.split)
  show ?thesis
    using outbound_round_trip [OF wf(1)] m unknown raw raw_get [OF assms(2,1)]
    by (intro exI [of _ "?base @ ObExtra ob"]) (auto simp del: map_of_append)
qed

definition example_template :: "(string \<times> json) list" where
  "example_template =
     [(''protocol'', JStr ''vless''), (''sendThrough'', JStr ''0.0.0.0''), (''settings'', JObj [(''address'', JStr ''a'')]),
      (''streamSettings'', JObj [(''network'', JStr ''ws''), (''kcpSettings'', JNull)])]"

theorem template_round_trip_witness:
  "\<exists>ob kvs'. Outbound_Unmarshal (JObj example_template) = Some ob \<and> Outbound_Marshal ob = JObj kvs'
     \<and> map_of kvs' ''sendThrough'' = Some (JStr ''0.0.0.0'')"
proof -
  have ex: "template_exact example_template" by code_simp
  have "Outbound_Unmarshal (JObj example_template) \<noteq> None" by code_simp
  then obtain ob where ob: "Outbound_Unmarshal (JObj example_template) = Some ob" by blast
  from template_round_trip [OF ex ob] obtain kvs' where "Outbound_Marshal ob = JObj kvs'"
    "\<forall>k. k \<in> {''settings'', ''mux''} \<union> - set knownOutboundKeys \<longrightarrow> map_of kvs' k = map_of example_template k" by blast
  moreover have "''sendThrough'' \<notin> set knownOutboundKeys" by (simp add: knownOutboundKeys_def)
  moreover have "map_of example_template ''sendThrough'' = Some (JStr ''0.0.0.0'')" by (simp add: example_template_def)
  ultimately show ?thesis using ob by auto
qed

end
