(* ===== verification/XrayOutbound.thy ===== *)
theory XrayOutbound
  imports XrayJson Socks RecordText
begin

text \<open>
  The outbound templates of Xray, \<open>internal/core/xray/outbound.go\<close>, \<open>service.go\<close> and \<open>inbound.go\<close>: the remote
  addresses of an outbound and their replacement by a scanned address, the choice of the main outbound
  of a configuration, the directory of templates, and the configuration an Xray instance is started
  with. The Xray core, which accepts or rejects a configuration, and the parser of sharing links are
  parameters.
\<close>

subsection \<open>Remote addresses\<close>

definition isProxyProtocol :: "string \<Rightarrow> bool" where
  "isProxyProtocol p \<longleftrightarrow> p \<notin> {[], ''freedom'', ''blackhole'', ''dns'', ''loopback''}"

record address_location =
  LocPath :: "string list"
  PortKey :: string

datatype xray_err =
  NotProxy string | NoSettings | NoEndpoint | NoAddress | MalformedAddress | InvalidIP
| OutboundsNotArray | NoOutbound | BadShape | NoProtocol | BadJSON | EmptyOutbounds | NoProxyOutbound
| TemplateExists | FileMissing | FileError | CoreRejected | BadComment | BadLink

text \<open>The nodes of a list that have the given string: their indices in order.\<close>

definition has_str :: "string \<Rightarrow> json \<Rightarrow> bool" where
  "has_str key node = (case node of JObj kvs \<Rightarrow> str_of (map_of kvs key) \<noteq> None | _ \<Rightarrow> False)"

definition node_locations :: "string \<Rightarrow> string \<Rightarrow> string \<Rightarrow> json list \<Rightarrow> address_location list" where
  "node_locations key addr pk xs =
     map (\<lambda>i. \<lparr>LocPath = [''settings'', key, show_nat i, addr], PortKey = pk\<rparr>)
       (filter (\<lambda>i. has_str addr (xs ! i)) [0 ..< length xs])"

definition outboundAddressLocations :: "(string \<times> json) list \<Rightarrow> xray_err + address_location list" where
  "outboundAddressLocations ob =
     (let protocol = (case str_of (map_of ob ''protocol'') of None \<Rightarrow> [] | Some p \<Rightarrow> p)
      in if \<not> isProxyProtocol protocol then Inl (NotProxy protocol)
         else case obj_of (map_of ob ''settings'') of
                None \<Rightarrow> Inl NoSettings
              | Some st \<Rightarrow>
                  if protocol = ''wireguard'' then
                    (let locs = node_locations ''peers'' ''endpoint'' [] (arr_of (map_of st ''peers''))
                     in if locs = [] then Inl NoEndpoint else Inr locs)
                  else
                    (let locs = (if str_of (map_of st ''address'') \<noteq> None
                                 then [\<lparr>LocPath = [''settings'', ''address''], PortKey = ''port''\<rparr>] else [])
                           @ node_locations ''vnext'' ''address'' ''port'' (arr_of (map_of st ''vnext''))
                           @ node_locations ''servers'' ''address'' ''port'' (arr_of (map_of st ''servers''))
                     in if locs = [] then Inl NoAddress else Inr locs))"

definition requireReplaceableAddress :: "(string \<times> json) list \<Rightarrow> xray_err option" where
  "requireReplaceableAddress ob = (case outboundAddressLocations ob of Inl e \<Rightarrow> Some e | Inr locs \<Rightarrow> None)"

definition descend :: "json \<Rightarrow> string \<Rightarrow> json option" where
  "descend node key =
     (case node of
        JObj kvs \<Rightarrow> map_of kvs key
      | JArr xs \<Rightarrow>
          (case atoi key of
             None \<Rightarrow> None
           | Some i \<Rightarrow> if i < 0 \<or> int (length xs) \<le> i then None else Some (xs ! nat i))
      | _ \<Rightarrow> None)"

text \<open>The assignment at the end of a path, in place: the maps and slices on the path are rebuilt around it.\<close>

definition put_child :: "json \<Rightarrow> string \<Rightarrow> json \<Rightarrow> json" where
  "put_child node key child =
     (case node of
        JObj kvs \<Rightarrow> JObj (AList.update key child kvs)
      | JArr xs \<Rightarrow> JArr (xs[nat (the (atoi key)) := child])
      | _ \<Rightarrow> node)"

fun update_at :: "string list \<Rightarrow> (json \<Rightarrow> json option) \<Rightarrow> json \<Rightarrow> json option" where
  "update_at [] f node = f node"
| "update_at (k # ks) f node =
     (case descend node k of
        None \<Rightarrow> None
      | Some child \<Rightarrow> map_option (put_child node k) (update_at ks f child))"

definition new_endpoint :: "addr \<Rightarrow> u16 \<Rightarrow> string \<Rightarrow> string" where
  "new_endpoint ip port current =
     (if port \<noteq> 0 then join_host_port (show_addr ip) (show_nat (unat port))
      else case split_host_port current of
             Some (h, p) \<Rightarrow> join_host_port (show_addr ip) p
           | None \<Rightarrow> show_addr ip)"

definition set_parent :: "string \<Rightarrow> string \<Rightarrow> addr \<Rightarrow> u16 \<Rightarrow> json \<Rightarrow> json option" where
  "set_parent key pk ip port parent =
     (case parent of
        JObj kvs \<Rightarrow>
          (case str_of (map_of kvs key) of
             None \<Rightarrow> None
           | Some current \<Rightarrow>
               if pk = [] then Some (JObj (AList.update key (JStr (new_endpoint ip port current)) kvs))
               else
                 let kvs1 = AList.update key (JStr (show_addr ip)) kvs
                 in Some (JObj (if port \<noteq> 0 then AList.update pk (JNum (of_nat (unat port))) kvs1 else kvs1)))
      | _ \<Rightarrow> None)"

definition setAddressAt :: "address_location \<Rightarrow> addr \<Rightarrow> u16 \<Rightarrow> json \<Rightarrow> json option" where
  "setAddressAt loc ip port ob =
     update_at (butlast (LocPath loc)) (set_parent (last (LocPath loc)) (PortKey loc) ip port) ob"

fun set_all :: "addr \<Rightarrow> u16 \<Rightarrow> address_location list \<Rightarrow> json \<Rightarrow> json option" where
  "set_all ip port [] ob = Some ob"
| "set_all ip port (loc # locs) ob = Option.bind (setAddressAt loc ip port ob) (set_all ip port locs)"

definition setOutboundAddress :: "(string \<times> json) list \<Rightarrow> addr option \<Rightarrow> u16 \<Rightarrow> xray_err + json" where
  "setOutboundAddress ob ip port =
     (case ip of
        None \<Rightarrow> Inl InvalidIP
      | Some a \<Rightarrow>
          (case outboundAddressLocations ob of
             Inl e \<Rightarrow> Inl e
           | Inr locs \<Rightarrow>
               (case set_all a port locs (JObj ob) of None \<Rightarrow> Inl MalformedAddress | Some j \<Rightarrow> Inr j)))"

subsection \<open>The main outbound\<close>

definition IsProxy :: "Outbound \<Rightarrow> bool" where
  "IsProxy ob = isProxyProtocol (ObProtocol ob)"

definition pickMain :: "Outbound list \<Rightarrow> xray_err + Outbound" where
  "pickMain obs =
     (case find IsProxy obs of
        Some ob \<Rightarrow> Inr ob
      | None \<Rightarrow>
          (case find (\<lambda>ob. ObTag ob = ''proxy'') obs of
             Some ob \<Rightarrow> Inr ob
           | None \<Rightarrow> Inl (if obs = [] then EmptyOutbounds else NoProxyOutbound)))"

definition decodeOutbounds :: "json list \<Rightarrow> xray_err + Outbound list" where
  "decodeOutbounds xs = (case those (map Outbound_Unmarshal xs) of None \<Rightarrow> Inl BadJSON | Some obs \<Rightarrow> Inr obs)"

definition decodeOutbound :: "(string \<times> json) list \<Rightarrow> xray_err + Outbound" where
  "decodeOutbound kvs =
     (case Outbound_Unmarshal (JObj kvs) of
        None \<Rightarrow> Inl BadJSON
      | Some ob \<Rightarrow> if ObProtocol ob = [] then Inl NoProtocol else Inr ob)"

definition extractMainOutbound :: "json \<Rightarrow> xray_err + Outbound" where
  "extractMainOutbound data =
     (case data of
        JObj v \<Rightarrow>
          (case map_of v ''outbounds'' of
             Some raw \<Rightarrow>
               (case raw of
                  JArr arr \<Rightarrow> (case decodeOutbounds arr of Inl e \<Rightarrow> Inl e | Inr obs \<Rightarrow> pickMain obs)
                | _ \<Rightarrow> Inl OutboundsNotArray)
           | None \<Rightarrow> if map_of v ''protocol'' \<noteq> None then decodeOutbound v else Inl NoOutbound)
      | JArr arr \<Rightarrow> (case decodeOutbounds arr of Inl e \<Rightarrow> Inl e | Inr obs \<Rightarrow> pickMain obs)
      | _ \<Rightarrow> Inl BadShape)"

subsection \<open>Replacing the addresses, by structure\<close>

text \<open>The outbound that is meant: in each node with an address, the address and, for a port, the port.\<close>

definition with_addr :: "string \<Rightarrow> string \<Rightarrow> addr \<Rightarrow> u16 \<Rightarrow> json \<Rightarrow> json" where
  "with_addr key pk ip port node = (if has_str key node then the (set_parent key pk ip port node) else node)"

definition with_nodes :: "string \<Rightarrow> string \<Rightarrow> string \<Rightarrow> addr \<Rightarrow> u16 \<Rightarrow> (string \<times> json) list \<Rightarrow> (string \<times> json) list" where
  "with_nodes list_key key pk ip port st =
     (case map_of st list_key of
        Some (JArr xs) \<Rightarrow> AList.update list_key (JArr (map (with_addr key pk ip port) xs)) st
      | _ \<Rightarrow> st)"

definition replaced :: "addr \<Rightarrow> u16 \<Rightarrow> (string \<times> json) list \<Rightarrow> (string \<times> json) list" where
  "replaced ip port ob =
     (case obj_of (map_of ob ''settings'') of
        None \<Rightarrow> ob
      | Some st \<Rightarrow>
          AList.update ''settings''
            (if str_of (map_of ob ''protocol'') = Some ''wireguard''
             then JObj (with_nodes ''peers'' ''endpoint'' [] ip port st)
             else case with_addr ''address'' ''port'' ip port (JObj st) of
                    JObj st1 \<Rightarrow> JObj (with_nodes ''servers'' ''address'' ''port'' ip port
                                       (with_nodes ''vnext'' ''address'' ''port'' ip port st1))
                  | j \<Rightarrow> j)
            ob)"

lemma update_update [simp]: "AList.update k v (AList.update k w kvs) = AList.update k v kvs"
  by (induction kvs) auto

lemma update_same [simp]: "map_of kvs k = Some v \<Longrightarrow> AList.update k v kvs = kvs"
  by (induction kvs) auto

lemma map_of_update_at [simp]: "map_of (AList.update k v kvs) l = (if l = k then Some v else map_of kvs l)"
  by (simp add: update_conv')

lemma atoi_show_nat: "n < 2 ^ 63 \<Longrightarrow> atoi (show_nat n) = Some (int n)"
proof -
  assume "n < 2 ^ 63"
  then have "int n < 2 ^ 63" by (metis of_nat_less_iff of_nat_numeral of_nat_power)
  then have "atoi (show_int (int n)) = Some (int n)" by (intro atoi_show_int) (simp add: in_int64_def)
  then show ?thesis by (simp add: show_int_def)
qed

lemma has_str_parent: "has_str key node \<Longrightarrow> set_parent key pk ip port node \<noteq> None"
  by (auto simp: has_str_def set_parent_def Let_def split: json.splits option.splits)

text \<open>One assignment in a list of nodes.\<close>

definition in_settings :: "(string \<times> json) list \<Rightarrow> (string \<times> json) list \<Rightarrow> json" where
  "in_settings ob st = JObj (AList.update ''settings'' (JObj st) ob)"

lemma set_node:
  assumes "map_of st list_key = Some (JArr xs)" and "i < length xs" and "length xs < 2 ^ 63" and "has_str key (xs ! i)"
  shows "setAddressAt \<lparr>LocPath = [''settings'', list_key, show_nat i, key], PortKey = pk\<rparr> ip port (in_settings ob st)
    = Some (in_settings ob (AList.update list_key (JArr (xs[i := with_addr key pk ip port (xs ! i)])) st))"
proof -
  have a: "atoi (show_nat i) = Some (int i)" using assms(2,3) by (intro atoi_show_nat) simp
  obtain y where y: "set_parent key pk ip port (xs ! i) = Some y" using has_str_parent [OF assms(4)] by blast
  have w: "with_addr key pk ip port (xs ! i) = y" using assms(4) y by (simp add: with_addr_def)
  show ?thesis
    unfolding setAddressAt_def in_settings_def w
    using assms(1,2) a y by (simp add: descend_def put_child_def)
qed

lemma set_nodes_fold:
  assumes "map_of st list_key = Some (JArr xs)" and "length xs < 2 ^ 63" and "distinct js"
    and "\<And>i. i \<in> set js \<Longrightarrow> i < length xs \<and> has_str key (xs ! i)"
  shows "set_all ip port (map (\<lambda>i. \<lparr>LocPath = [''settings'', list_key, show_nat i, key], PortKey = pk\<rparr>) js) (in_settings ob st)
    = Some (in_settings ob (AList.update list_key (JArr (fold (\<lambda>i ys. ys[i := with_addr key pk ip port (ys ! i)]) js xs)) st))"
  using assms
proof (induction js arbitrary: xs st)
  case (Cons i js)
  let ?ys = "xs[i := with_addr key pk ip port (xs ! i)]"
  let ?st = "AList.update list_key (JArr ?ys) st"
  have i: "i < length xs" "has_str key (xs ! i)" using Cons.prems(4) by auto
  have "set_all ip port (map (\<lambda>i. \<lparr>LocPath = [''settings'', list_key, show_nat i, key], PortKey = pk\<rparr>) js) (in_settings ob ?st)
    = Some (in_settings ob (AList.update list_key (JArr (fold (\<lambda>i ys. ys[i := with_addr key pk ip port (ys ! i)]) js ?ys)) ?st))"
    using Cons.prems by (intro Cons.IH) (auto simp: nth_list_update)
  with set_node [OF Cons.prems(1) i(1) Cons.prems(2) i(2)] show ?case by simp
qed (simp add: in_settings_def)

lemma fold_updates_nth:
  "distinct js \<Longrightarrow> \<forall>i \<in> set js. i < length xs \<Longrightarrow> j < length xs \<Longrightarrow>
   fold (\<lambda>i ys. ys[i := f (ys ! i)]) js xs ! j = (if j \<in> set js then f (xs ! j) else xs ! j)"
  by (induction js arbitrary: xs) (auto simp: nth_list_update)

lemma fold_updates_length [simp]: "length (fold (\<lambda>i ys. ys[i := f (ys ! i)]) js xs) = length xs"
  by (induction js arbitrary: xs) auto

lemma fold_with_addr:
  "fold (\<lambda>i ys. ys[i := with_addr key pk ip port (ys ! i)]) (filter (\<lambda>i. has_str key (xs ! i)) [0 ..< length xs]) xs
   = map (with_addr key pk ip port) xs"
proof (rule nth_equalityI)
  fix j assume "j < length (fold (\<lambda>i ys. ys[i := with_addr key pk ip port (ys ! i)]) (filter (\<lambda>i. has_str key (xs ! i)) [0 ..< length xs]) xs)"
  then have j: "j < length xs" by simp
  have "\<not> has_str key (xs ! j) \<Longrightarrow> with_addr key pk ip port (xs ! j) = xs ! j" by (simp add: with_addr_def)
  with j show "fold (\<lambda>i ys. ys[i := with_addr key pk ip port (ys ! i)]) (filter (\<lambda>i. has_str key (xs ! i)) [0 ..< length xs]) xs ! j
    = map (with_addr key pk ip port) xs ! j"
    by (simp add: fold_updates_nth)
qed simp

text \<open>All the nodes of one list.\<close>

lemma set_list:
  assumes "length (arr_of (map_of st list_key)) < 2 ^ 63"
  shows "set_all ip port (node_locations list_key key pk (arr_of (map_of st list_key))) (in_settings ob st)
    = Some (in_settings ob (with_nodes list_key key pk ip port st))"
proof (cases "\<exists>xs. map_of st list_key = Some (JArr xs)")
  case True
  then obtain xs where xs: "map_of st list_key = Some (JArr xs)" by blast
  have "length xs < 2 ^ 63" using assms xs by (simp add: arr_of_def)
  then have "set_all ip port (map (\<lambda>i. \<lparr>LocPath = [''settings'', list_key, show_nat i, key], PortKey = pk\<rparr>)
      (filter (\<lambda>i. has_str key (xs ! i)) [0 ..< length xs])) (in_settings ob st)
    = Some (in_settings ob (AList.update list_key (JArr (map (with_addr key pk ip port) xs)) st))"
    unfolding fold_with_addr [symmetric] by (intro set_nodes_fold [OF xs]) (auto simp only: set_filter set_upt distinct_filter distinct_upt mem_Collect_eq atLeastLessThan_iff)
  with xs show ?thesis unfolding node_locations_def with_nodes_def arr_of_def by (simp only: option.case json.case)
next
  case False
  then show ?thesis
    by (auto simp: arr_of_def node_locations_def with_nodes_def split: option.split json.split)
qed

lemma set_all_append: "set_all ip port (xs @ ys) j = Option.bind (set_all ip port xs j) (set_all ip port ys)"
  by (induction xs arbitrary: j) (auto split: Option.bind_split)

definition lists_fit :: "(string \<times> json) list \<Rightarrow> bool" where
  "lists_fit ob \<longleftrightarrow>
     list_all (\<lambda>key. length (arr_of (Option.bind (obj_of (map_of ob ''settings'')) (\<lambda>st. map_of st key))) < 2 ^ 63)
       [''peers'', ''vnext'', ''servers'']"

lemma set_server:
  assumes "str_of (map_of st ''address'') \<noteq> None"
  shows "setAddressAt \<lparr>LocPath = [''settings'', ''address''], PortKey = ''port''\<rparr> ip port (in_settings ob st)
    = (case with_addr ''address'' ''port'' ip port (JObj st) of JObj st1 \<Rightarrow> Some (in_settings ob st1) | _ \<Rightarrow> None)"
  using assms
  by (auto simp: setAddressAt_def in_settings_def descend_def put_child_def with_addr_def set_parent_def has_str_def Let_def
      split: option.splits)

lemma setOutboundAddress_replaced:
  assumes "lists_fit ob"
  shows "setOutboundAddress ob (Some ip) port =
     (case outboundAddressLocations ob of Inl e \<Rightarrow> Inl e | Inr locs \<Rightarrow> Inr (JObj (replaced ip port ob)))"
proof (cases "outboundAddressLocations ob")
  case (Inr locs)
  then obtain st where st: "obj_of (map_of ob ''settings'') = Some st"
    by (auto simp: outboundAddressLocations_def Let_def split: if_splits option.splits)
  then have at: "map_of ob ''settings'' = Some (JObj st)"
    by (auto simp: obj_of_def split: option.splits json.splits)
  then have here: "JObj ob = in_settings ob st" by (simp add: in_settings_def)
  have fit: "length (arr_of (map_of st k)) < 2 ^ 63" if "k \<in> {''peers'', ''vnext'', ''servers''}" for k
    using assms that st by (auto simp: lists_fit_def)
  have "set_all ip port locs (in_settings ob st) = Some (JObj (replaced ip port ob))"
  proof (cases "str_of (map_of ob ''protocol'') = Some ''wireguard''")
    case True
    with Inr st have "locs = node_locations ''peers'' ''endpoint'' [] (arr_of (map_of st ''peers''))"
      by (auto simp: outboundAddressLocations_def Let_def split: if_splits)
    with set_list [OF fit, of "''peers''"] True st show ?thesis by (simp add: replaced_def in_settings_def)
  next
    case False
    let ?flat = "if str_of (map_of st ''address'') \<noteq> None then [\<lparr>LocPath = [''settings'', ''address''], PortKey = ''port''\<rparr>] else []"
    have locs: "locs = ?flat @ node_locations ''vnext'' ''address'' ''port'' (arr_of (map_of st ''vnext''))
        @ node_locations ''servers'' ''address'' ''port'' (arr_of (map_of st ''servers''))"
      using Inr st False by (auto simp: outboundAddressLocations_def Let_def split: if_splits option.splits)
    obtain st1 where st1: "with_addr ''address'' ''port'' ip port (JObj st) = JObj st1"
      "map_of st1 ''vnext'' = map_of st ''vnext''" "map_of st1 ''servers'' = map_of st ''servers''"
    proof (cases "str_of (map_of st ''address'')")
      case None
      then show ?thesis using that [of st] by (simp add: with_addr_def has_str_def)
    next
      case (Some c)
      then show ?thesis using that by (simp add: with_addr_def has_str_def set_parent_def Let_def)
    qed
    have "set_all ip port ?flat (in_settings ob st) = Some (in_settings ob st1)"
      using set_server [of st ip port ob] st1(1) by (auto simp: with_addr_def has_str_def)
    moreover have "set_all ip port (node_locations ''vnext'' ''address'' ''port'' (arr_of (map_of st ''vnext''))) (in_settings ob st1)
      = Some (in_settings ob (with_nodes ''vnext'' ''address'' ''port'' ip port st1))"
      using set_list [of st1 "''vnext''"] fit [of "''vnext''"] st1(2) by simp
    moreover have "map_of (with_nodes ''vnext'' ''address'' ''port'' ip port st1) ''servers'' = map_of st ''servers''"
      using st1(3) by (auto simp: with_nodes_def split: option.split json.split)
    then have "set_all ip port (node_locations ''servers'' ''address'' ''port'' (arr_of (map_of st ''servers'')))
        (in_settings ob (with_nodes ''vnext'' ''address'' ''port'' ip port st1))
      = Some (in_settings ob (with_nodes ''servers'' ''address'' ''port'' ip port (with_nodes ''vnext'' ''address'' ''port'' ip port st1)))"
      using set_list [of "with_nodes ''vnext'' ''address'' ''port'' ip port st1" "''servers''"] fit [of "''servers''"] by simp
    ultimately show ?thesis
      unfolding locs set_all_append using False st st1(1) by (simp add: replaced_def in_settings_def)
  qed
  then show ?thesis by (simp add: setOutboundAddress_def Inr here)
qed (simp add: setOutboundAddress_def)


definition example_peers :: "(string \<times> json) list" where
  "example_peers =
     [(''protocol'', JStr ''wireguard''),
      (''settings'', JObj [(''peers'', JArr [JObj [(''endpoint'', JStr ''a.b:51820'')], JObj [(''endpoint'', JStr ''a.b'')]])])]"


subsection \<open>The directory of templates\<close>

text \<open>A directory as that of the tunnel configurations, of JSON files; a file that does not parse is
  \<open>ConfFile None\<close>. A template's name is the base name without its last extension, with \<open>.json\<close>.\<close>

definition normalizeTemplateName :: "string \<Rightarrow> string" where
  "normalizeTemplateName name = StripExt (path_base name) @ ''.json''"

text \<open>The entry of the directory that \<open>filepath.Join\<close> makes of a normalized name.\<close>

definition template_entry :: "string \<Rightarrow> string" where
  "template_entry name = dropWhile (\<lambda>c. c = CHR ''/'') (normalizeTemplateName name)"

record OutboundFile =
  FileName :: string
  FilePath :: string
  FileProtocol :: string
  FileNetwork :: string
  FileSecurity :: string

definition read_object :: "json dir \<Rightarrow> string \<Rightarrow> xray_err + (string \<times> json) list" where
  "read_object fs entry =
     (case map_of fs entry of
        None \<Rightarrow> Inl FileMissing
      | Some Directory \<Rightarrow> Inl FileError
      | Some (ConfFile None) \<Rightarrow> Inl BadJSON
      | Some (ConfFile (Some j)) \<Rightarrow> (case j of JObj kvs \<Rightarrow> Inr kvs | JNull \<Rightarrow> Inr [] | _ \<Rightarrow> Inl BadJSON))"

definition loadOutboundFileMetadata :: "json dir \<Rightarrow> string \<Rightarrow> xray_err + OutboundFile" where
  "loadOutboundFileMetadata fs entry =
     (case read_object fs entry of
        Inl e \<Rightarrow> Inl e
      | Inr ob \<Rightarrow>
          let str = (\<lambda>kvs k. case str_of (map_of kvs k) of None \<Rightarrow> [] | Some s \<Rightarrow> s);
              ss = (case obj_of (map_of ob ''streamSettings'') of None \<Rightarrow> [] | Some kvs \<Rightarrow> kvs)
          in Inr \<lparr>FileName = StripExt (path_base entry), FilePath = entry, FileProtocol = str ob ''protocol'',
                 FileNetwork = str ss ''network'', FileSecurity = str ss ''security''\<rparr>)"

definition GetOutboundTemplateByName :: "json dir \<Rightarrow> string \<Rightarrow> xray_err + OutboundFile" where
  "GetOutboundTemplateByName fs name = loadOutboundFileMetadata fs (template_entry name)"

definition ListOutboundTemplates :: "json dir \<Rightarrow> OutboundFile list" where
  "ListOutboundTemplates fs =
     List.map_filter (\<lambda>n. case loadOutboundFileMetadata fs n of Inl e \<Rightarrow> None | Inr m \<Rightarrow> Some m)
       (filter (\<lambda>n. map_of fs n \<noteq> Some Directory \<and> path_ext n = ''.json'') (sort (remdups (map fst fs))))"

definition RenameOutboundTemplate :: "bool \<Rightarrow> string \<Rightarrow> string \<Rightarrow> json dir \<Rightarrow> (xray_err + OutboundFile) \<times> json dir" where
  "RenameOutboundTemplate rename_ok old new fs =
     (case GetOutboundTemplateByName fs old of
        Inl e \<Rightarrow> (Inl e, fs)
      | Inr f \<Rightarrow>
          let dst = template_entry new
          in if map_of fs dst \<noteq> None then (Inl TemplateExists, fs)
             else if \<not> rename_ok then (Inl FileError, fs)
             else let fs' = AList.update dst (the (map_of fs (FilePath f))) (AList.delete (FilePath f) fs)
                  in (loadOutboundFileMetadata fs' dst, fs'))"

definition applyOutboundTemplate :: "json dir \<Rightarrow> string \<Rightarrow> addr option \<Rightarrow> u16 \<Rightarrow> xray_err + json" where
  "applyOutboundTemplate fs entry ip port =
     (case ip of
        None \<Rightarrow> Inl InvalidIP
      | Some a \<Rightarrow> (case read_object fs entry of Inl e \<Rightarrow> Inl e | Inr ob \<Rightarrow> setOutboundAddress ob (Some a) port))"

subsection \<open>The configuration of a scan\<close>

record Inbound =
  InTag :: string
  InListen :: string
  InPort :: u16
  InProtocol :: string
  InAuth :: string
  InIP :: string

record xray_config =
  CfgLog :: string
  CfgInbounds :: "Inbound list"
  CfgOutbounds :: "json list"

definition getInbound :: "u16 \<Rightarrow> Inbound" where
  "getInbound port =
     \<lparr>InTag = ''socks-inbound'', InListen = ''127.0.0.1'', InPort = port, InProtocol = ''socks'',
      InAuth = ''noauth'', InIP = ''127.0.0.1''\<rparr>"

definition GenerateConfig :: "json dir \<Rightarrow> string \<Rightarrow> addr option \<Rightarrow> u16 \<Rightarrow> u16 \<Rightarrow> xray_err + xray_config" where
  "GenerateConfig fs name ip localPort remotePort =
     (if ip = None then Inl InvalidIP
      else case GetOutboundTemplateByName fs name of
             Inl e \<Rightarrow> Inl e
           | Inr f \<Rightarrow>
               (case applyOutboundTemplate fs (FilePath f) ip remotePort of
                  Inl e \<Rightarrow> Inl e
                | Inr raw \<Rightarrow>
                    Inr \<lparr>CfgLog = ''none'', CfgInbounds = [getInbound localPort], CfgOutbounds = [raw]\<rparr>))"

definition validateConfigShape :: "xray_config option \<Rightarrow> bool" where
  "validateConfigShape c = (case c of None \<Rightarrow> False | Some cfg \<Rightarrow> CfgInbounds cfg \<noteq> [] \<and> CfgOutbounds cfg \<noteq> [])"

text \<open>The core's verdict over a configuration is \<open>core\<close>.\<close>

definition Xray_ValidateConfig :: "(xray_config \<Rightarrow> bool) \<Rightarrow> xray_config \<Rightarrow> xray_err option" where
  "Xray_ValidateConfig core cfg =
     (if \<not> validateConfigShape (Some cfg) then Some BadShape else if core cfg then None else Some CoreRejected)"

definition Xray_Start :: "(xray_config \<Rightarrow> bool) \<Rightarrow> go_err option \<Rightarrow> xray_config \<Rightarrow> (go_err + xray_err) option" where
  "Xray_Start core ctx cfg =
     (if \<not> validateConfigShape (Some cfg) then Some (Inr BadShape)
      else case ctx of
             Some err \<Rightarrow> Some (Inl err)
           | None \<Rightarrow> if core cfg then None else Some (Inr CoreRejected))"

definition ValidateOutbound :: "(xray_config \<Rightarrow> bool) \<Rightarrow> json dir \<Rightarrow> string \<Rightarrow> xray_err option" where
  "ValidateOutbound core fs name =
     (case GenerateConfig fs name (Some (V4 0x7F000001)) 40443 0 of
        Inl e \<Rightarrow> Some e
      | Inr cfg \<Rightarrow> Xray_ValidateConfig core cfg)"

subsection \<open>Saving\<close>

text \<open>\<open>we\<close> is how the write ends, \<open>rm\<close> whether the removal of a rejected template works.\<close>

definition saveOutboundTemplate ::
  "(xray_config \<Rightarrow> bool) \<Rightarrow> json write_end \<Rightarrow> bool \<Rightarrow> string \<Rightarrow> Outbound \<Rightarrow> json dir \<Rightarrow> (xray_err + OutboundFile) \<times> json dir" where
  "saveOutboundTemplate core we rm name ob fs =
     (let entry = template_entry name; data = Outbound_Marshal (normalizeWSALPN ob)
      in if map_of fs entry \<noteq> None then (Inl TemplateExists, fs)
         else case requireReplaceableAddress (case data of JObj kvs \<Rightarrow> kvs | _ \<Rightarrow> []) of
                Some e \<Rightarrow> (Inl e, fs)
              | None \<Rightarrow>
                  (case we of
                     WriteFailed \<Rightarrow> (Inl FileError, fs)
                   | Torn x \<Rightarrow> (Inl FileError, AList.update entry (ConfFile x) fs)
                   | write_end.Written \<Rightarrow>
                       let fs' = AList.update entry (ConfFile (Some data)) fs
                       in case ValidateOutbound core fs' (normalizeTemplateName name) of
                            Some e \<Rightarrow> (Inl e, if rm then AList.delete entry fs' else fs')
                          | None \<Rightarrow> (loadOutboundFileMetadata fs' entry, fs')))"

definition SaveOutboundFromFile ::
  "(xray_config \<Rightarrow> bool) \<Rightarrow> json write_end \<Rightarrow> bool \<Rightarrow> string option \<Rightarrow> (string \<Rightarrow> json option) \<Rightarrow> string \<Rightarrow> json dir
   \<Rightarrow> (xray_err + OutboundFile) \<times> json dir" where
  "SaveOutboundFromFile core we rm src_file parse name fs =
     (case src_file of
        None \<Rightarrow> (Inl FileMissing, fs)
      | Some text \<Rightarrow>
          (case cleanJSONC text of
             None \<Rightarrow> (Inl BadComment, fs)
           | Some clean \<Rightarrow>
               (case parse clean of
                  None \<Rightarrow> (Inl BadJSON, fs)
                | Some j \<Rightarrow>
                    (case extractMainOutbound j of
                       Inl e \<Rightarrow> (Inl e, fs)
                     | Inr ob \<Rightarrow> saveOutboundTemplate core we rm name ob fs))))"

definition ParseLink :: "(string \<Rightarrow> json option) \<Rightarrow> string \<Rightarrow> xray_err + Outbound" where
  "ParseLink convert link = (case convert link of None \<Rightarrow> Inl BadLink | Some j \<Rightarrow> extractMainOutbound j)"

definition SaveOutboundFromLink ::
  "(xray_config \<Rightarrow> bool) \<Rightarrow> json write_end \<Rightarrow> bool \<Rightarrow> (string \<Rightarrow> json option) \<Rightarrow> string \<Rightarrow> string \<Rightarrow> json dir
   \<Rightarrow> (xray_err + OutboundFile) \<times> json dir" where
  "SaveOutboundFromLink core we rm convert link name fs =
     (case ParseLink convert link of
        Inl e \<Rightarrow> (Inl e, fs)
      | Inr ob \<Rightarrow> saveOutboundTemplate core we rm name ob fs)"

subsection \<open>What saving guarantees\<close>

lemma Outbound_Marshal_obj: "\<exists>kvs. Outbound_Marshal ob = JObj kvs"
  by (simp add: Outbound_Marshal_def marshalWithExtra_def)

text \<open>The name of an entry is a fixed point of the normalization.\<close>

lemma path_ext_json: "path_ext (s @ ''.json'') = ''.json''"
  by (simp add: path_ext_def)

lemma path_base_no_slash: "CHR ''/'' \<notin> set s \<Longrightarrow> s \<noteq> [] \<Longrightarrow> path_base s = s"
proof -
  assume s: "CHR ''/'' \<notin> set s" "s \<noteq> []"
  then have dw: "dropWhile (\<lambda>c. c = CHR ''/'') (rev s) = rev s" by (cases "rev s") auto
  have "\<forall>x \<in> set (rev s). x \<noteq> CHR ''/''" using s(1) by auto
  then have tw: "takeWhile (\<lambda>c. c \<noteq> CHR ''/'') (rev s) = rev s" by (simp only: takeWhile_eq_all_conv)
  show ?thesis using s(2) unfolding path_base_def Let_def dw tw by simp
qed

lemma path_base_slash: "CHR ''/'' \<in> set (path_base s) \<Longrightarrow> path_base s = ''/''"
  by (auto simp: path_base_def Let_def split: if_splits dest: set_takeWhileD)

lemma StripExt_json: "StripExt (s @ ''.json'') = s"
  by (simp add: StripExt_def path_ext_json)

lemma set_StripExt: "set (StripExt s) \<subseteq> set s"
  by (auto simp: StripExt_def dest: in_set_takeD)

lemma template_entry_shape: "\<exists>s. template_entry name = s @ ''.json'' \<and> CHR ''/'' \<notin> set s"
proof (cases "CHR ''/'' \<in> set (path_base name)")
  case True
  then have "path_base name = ''/''" by (rule path_base_slash)
  then have "template_entry name = ''.json''" by (simp add: template_entry_def normalizeTemplateName_def StripExt_def path_ext_def)
  then show ?thesis by (intro exI [of _ "[]"]) simp
next
  case False
  then have no: "CHR ''/'' \<notin> set (StripExt (path_base name))" using set_StripExt by blast
  then have "dropWhile (\<lambda>c. c = CHR ''/'') (StripExt (path_base name) @ ''.json'') = StripExt (path_base name) @ ''.json''"
    by (cases "StripExt (path_base name)") auto
  with no show ?thesis by (intro exI [of _ "StripExt (path_base name)"]) (simp add: template_entry_def normalizeTemplateName_def)
qed

lemma template_entry_idem: "template_entry (template_entry name) = template_entry name"
proof -
  obtain s where s: "template_entry name = s @ ''.json''" "CHR ''/'' \<notin> set s" using template_entry_shape by blast
  then have "path_base (s @ ''.json'') = s @ ''.json''" by (intro path_base_no_slash) auto
  moreover have "dropWhile (\<lambda>c. c = CHR ''/'') (s @ ''.json'') = s @ ''.json''" using s(2) by (cases s) auto
  ultimately show ?thesis unfolding s(1) by (simp add: template_entry_def normalizeTemplateName_def StripExt_json)
qed

lemma template_entry_normalized: "template_entry (normalizeTemplateName name) = template_entry name"
proof (cases "CHR ''/'' \<in> set (path_base name)")
  case True
  then have "path_base name = ''/''" by (rule path_base_slash)
  then have "normalizeTemplateName name = ''/.json''" by (simp add: normalizeTemplateName_def StripExt_def path_ext_def)
  then show ?thesis by (simp add: template_entry_def) code_simp
next
  case False
  then have no: "CHR ''/'' \<notin> set (normalizeTemplateName name)" using set_StripExt by (auto simp: normalizeTemplateName_def)
  then have "template_entry name = normalizeTemplateName name"
    by (auto simp: template_entry_def dropWhile_eq_self_iff) (metis list.set_sel(1))
  then show ?thesis using template_entry_idem [of name] by simp
qed

lemma read_object_update: "read_object (AList.update e (ConfFile (Some (JObj kvs))) fs) e = Inr kvs"
  by (simp add: read_object_def)

lemma GenerateConfig_stored:
  assumes "map_of fs (template_entry name) = Some (ConfFile (Some (JObj kvs)))"
  shows "GenerateConfig fs name (Some ip) lp rp =
     (case setOutboundAddress kvs (Some ip) rp of
        Inl e \<Rightarrow> Inl e
      | Inr raw \<Rightarrow> Inr \<lparr>CfgLog = ''none'', CfgInbounds = [getInbound lp], CfgOutbounds = [raw]\<rparr>)"
proof -
  have "read_object fs (template_entry name) = Inr kvs" using assms by (simp add: read_object_def)
  then show ?thesis
    by (simp add: GenerateConfig_def GetOutboundTemplateByName_def loadOutboundFileMetadata_def Let_def
        applyOutboundTemplate_def split: sum.split)
qed

definition scan_config :: "u16 \<Rightarrow> json \<Rightarrow> xray_config" where
  "scan_config lp raw = \<lparr>CfgLog = ''none'', CfgInbounds = [getInbound lp], CfgOutbounds = [raw]\<rparr>"


text \<open>A template that is refused is not kept: when the write itself is whole and the removal works, a save that
  fails leaves every template as it was, whether the name is taken, no address can be replaced or
  the core rejects the configuration.\<close>

theorem refused_template_not_kept:
  assumes "saveOutboundTemplate core we True name ob fs = (Inl e, fs')" and "\<not> (\<exists>x. we = Torn x)"
  shows "map_of fs' = map_of fs"
  using assms
  by (auto simp: saveOutboundTemplate_def Let_def delete_conv' update_conv' fun_eq_iff loadOutboundFileMetadata_def
      read_object_update Outbound_Marshal_def marshalWithExtra_def split: if_splits option.splits write_end.splits)

definition plain_outbound :: Outbound where
  "plain_outbound =
     \<lparr>ObTag = [], ObProtocol = ''socks'', ObSettings = Some (JObj [(''address'', JStr ''a.b'')]), ObStream = None,
      ObMux = None, ObExtra = []\<rparr>"

definition plain_kvs :: "(string \<times> json) list" where
  "plain_kvs = [(''protocol'', JStr ''socks''), (''settings'', JObj [(''address'', JStr ''a.b'')])]"

lemma plain_marshal: "Outbound_Marshal (normalizeWSALPN plain_outbound) = JObj plain_kvs"
  by (simp add: plain_outbound_def plain_kvs_def normalizeWSALPN_def Outbound_Marshal_def marshalWithExtra_def omit_def raw_key_def)

lemma plain_locations: "outboundAddressLocations plain_kvs = Inr [\<lparr>LocPath = [''settings'', ''address''], PortKey = ''port''\<rparr>]"
  by (simp add: outboundAddressLocations_def plain_kvs_def str_of_def obj_of_def arr_of_def isProxyProtocol_def node_locations_def)

lemma plain_fits: "lists_fit plain_kvs"
  by (simp add: lists_fit_def plain_kvs_def obj_of_def arr_of_def)

lemma plain_saved:
  assumes "map_of fs (template_entry name) = None"
  shows "saveOutboundTemplate (\<lambda>c. True) write_end.Written rm name plain_outbound fs
    = (loadOutboundFileMetadata (AList.update (template_entry name) (ConfFile (Some (JObj plain_kvs))) fs) (template_entry name),
       AList.update (template_entry name) (ConfFile (Some (JObj plain_kvs))) fs)"
proof -
  let ?fs = "AList.update (template_entry name) (ConfFile (Some (JObj plain_kvs))) fs"
  have "ValidateOutbound (\<lambda>c. True) ?fs (normalizeTemplateName name) = None"
    using GenerateConfig_stored [of ?fs "normalizeTemplateName name" plain_kvs] setOutboundAddress_replaced [OF plain_fits]
    by (simp add: ValidateOutbound_def template_entry_normalized plain_locations Xray_ValidateConfig_def validateConfigShape_def)
  with assms show ?thesis
    by (simp add: saveOutboundTemplate_def plain_marshal requireReplaceableAddress_def plain_locations Let_def)
qed


theorem refused_template_not_kept_witness:
  "map_of (snd (saveOutboundTemplate (\<lambda>c. False) write_end.Written True ''a'' plain_outbound [])) = Map.empty"
proof -
  have e: "template_entry ''a'' = ''a.json''" by code_simp
  let ?fs = "[(''a.json'', ConfFile (Some (JObj plain_kvs)))]"
  have "ValidateOutbound (\<lambda>c. False) ?fs (normalizeTemplateName ''a'') = Some CoreRejected"
    using GenerateConfig_stored [of ?fs "normalizeTemplateName ''a''" plain_kvs] setOutboundAddress_replaced [OF plain_fits]
    by (simp add: ValidateOutbound_def template_entry_normalized e plain_locations Xray_ValidateConfig_def validateConfigShape_def)
  then have "\<exists>fs'. saveOutboundTemplate (\<lambda>c. False) write_end.Written True ''a'' plain_outbound [] = (Inl CoreRejected, fs')"
    by (simp add: saveOutboundTemplate_def plain_marshal requireReplaceableAddress_def plain_locations e)
  then obtain fs' where "saveOutboundTemplate (\<lambda>c. False) write_end.Written True ''a'' plain_outbound [] = (Inl CoreRejected, fs')" ..
  with refused_template_not_kept [OF this] show ?thesis by simp
qed

text \<open>A template can be listed under a name by which it is not found. A template saved from the name
  \<open>my.vps.json\<close> is listed as \<open>my.vps\<close>; looked up by that name it is taken for \<open>my.json\<close>, since
  the normalization strips what it takes for an extension, so it can be neither scanned with nor renamed.\<close>

theorem listed_template_not_found:
  "let fs = snd (saveOutboundTemplate (\<lambda>c. True) write_end.Written True ''my.vps.json'' plain_outbound [])
   in map FileName (ListOutboundTemplates fs) = [''my.vps'']
      \<and> GetOutboundTemplateByName fs ''my.vps'' = Inl FileMissing
      \<and> RenameOutboundTemplate True ''my.vps'' ''other'' fs = (Inl FileMissing, fs)"
proof -
  have e: "template_entry ''my.vps.json'' = ''my.vps.json''" "template_entry ''my.vps'' = ''my.json''"
    "path_ext ''my.vps.json'' = ''.json''" "StripExt (path_base ''my.vps.json'') = ''my.vps''" by code_simp+
  let ?fs = "[(''my.vps.json'', ConfFile (Some (JObj plain_kvs)))]"
  have fs: "snd (saveOutboundTemplate (\<lambda>c. True) write_end.Written True ''my.vps.json'' plain_outbound []) = ?fs"
    using plain_saved [of "[]" "''my.vps.json''" True] by (simp add: e)
  have "map FileName (ListOutboundTemplates ?fs) = [''my.vps'']"
    by (simp add: ListOutboundTemplates_def e loadOutboundFileMetadata_def read_object_def Let_def map_filter_simps)
  moreover have miss: "GetOutboundTemplateByName ?fs ''my.vps'' = Inl FileMissing"
    by (simp add: GetOutboundTemplateByName_def e loadOutboundFileMetadata_def read_object_def)
  moreover have "RenameOutboundTemplate True ''my.vps'' ''other'' ?fs = (Inl FileMissing, ?fs)"
    by (simp add: RenameOutboundTemplate_def miss)
  ultimately show ?thesis by (simp add: fs Let_def)
qed

text \<open>The second choice of \<open>pickMain\<close>, an outbound tagged \<open>proxy\<close> whose protocol is none, is never saved.\<close>

lemma marshal_protocol: "Outbound_Marshal ob = JObj kvs \<Longrightarrow> map_of kvs ''protocol'' = Some (JStr (ObProtocol ob))"
  by (auto simp: Outbound_Marshal_def marshalWithExtra_def omit_def)

lemma normalizeWSALPN_protocol [simp]: "ObProtocol (normalizeWSALPN ob) = ObProtocol ob"
  by (simp add: normalizeWSALPN_def split: option.split)

lemma tagged_outbound_refused:
  assumes "pickMain obs = Inr ob" and "find IsProxy obs = None"
  shows "isl (fst (saveOutboundTemplate core we rm name ob fs))"
proof -
  have "\<not> IsProxy ob"
    using assms by (auto simp: pickMain_def find_None_iff find_Some_iff in_set_conv_nth split: option.splits)
  moreover obtain kvs where m: "Outbound_Marshal (normalizeWSALPN ob) = JObj kvs" using Outbound_Marshal_obj by blast
  ultimately have "outboundAddressLocations kvs = Inl (NotProxy (ObProtocol ob))"
    using marshal_protocol [OF m] by (simp add: outboundAddressLocations_def str_of_def IsProxy_def)
  then show ?thesis by (simp add: saveOutboundTemplate_def m requireReplaceableAddress_def Let_def)
qed

end
