(* ===== verification/XrayProbe.thy ===== *)
theory XrayProbe
  imports XrayOutbound TunnelProbe ConfigCorrect
begin

text \<open>
  The Xray probe, \<open>internal/core/scanner/probe/xrayprobe/xray.go\<close>, and the measurement of transfer speeds,
  \<open>internal/core/speedtest/service.go\<close> and \<open>types.go\<close>. Floating point arithmetic is that of the rational
  numbers with the parameter \<open>fl\<close> rounding each result. The port pool is that of \<open>PortManager\<close>, the
  templates and the configuration are those of \<open>XrayOutbound\<close>; what the HTTP client and the Xray core
  answer is a parameter.
\<close>

subsection \<open>Speeds\<close>

type_synonym speed = "64 word"

record SpeedResult =
  Speed :: speed
  SpeedBytes :: nat
  MinSpeed :: speed

definition BelowMinimum :: "SpeedResult \<Rightarrow> bool" where
  "BelowMinimum r \<longleftrightarrow> 0 < MinSpeed r \<and> Speed r < MinSpeed r"

definition bitsPerSec :: "(rat \<Rightarrow> rat) \<Rightarrow> nat \<Rightarrow> rat \<Rightarrow> speed" where
  "bitsPerSec fl n seconds =
     (if n = 0 \<or> seconds \<le> 0 then 0
      else let raw = fl (fl (fl (of_nat n) * 8) / seconds)
           in if fl (2 ^ 64 - 1) \<le> raw then - 1 else of_int \<lfloor>raw\<rfloor>)"

text \<open>\<open>Duration.Seconds\<close>.\<close>

definition Seconds :: "(rat \<Rightarrow> rat) \<Rightarrow> int \<Rightarrow> rat" where
  "Seconds fl d = fl (fl (of_int (d div Second)) + fl (of_int (d mod Second) / 1000000000))"

text \<open>\<open>BitsPerSec.String\<close> with the formatter of two decimals \<open>fmt2\<close>, and its parser with \<open>strconv.ParseFloat\<close>; a value
  that is no finite number is \<open>None\<close> there.\<close>

definition speed_String :: "(rat \<Rightarrow> rat) \<Rightarrow> (rat \<Rightarrow> string) \<Rightarrow> speed \<Rightarrow> string" where
  "speed_String fl fmt2 b =
     (if 1000000000 \<le> b then fmt2 (fl (fl (of_nat (unat b)) / 1000000000)) @ '' Gbps''
      else if 1000000 \<le> b then fmt2 (fl (fl (of_nat (unat b)) / 1000000)) @ '' Mbps''
      else if 1000 \<le> b then fmt2 (fl (fl (of_nat (unat b)) / 1000)) @ '' Kbps''
      else show_nat (unat b) @ '' bps'')"

definition parse_uint64 :: "string \<Rightarrow> speed option" where
  "parse_uint64 s =
     (if s \<noteq> [] \<and> list_all is_digit s \<and> dec_val s < 2 ^ 64 then Some (of_nat (dec_val s)) else None)"

definition speed_unit :: "string \<Rightarrow> (nat \<times> string) option" where
  "speed_unit s =
     (let strip = (\<lambda>u. take (length s - length u) s)
      in if has_suffix s ''gbps'' then Some (1000000000, strip ''gbps'')
         else if has_suffix s ''mbps'' then Some (1000000, strip ''mbps'')
         else if has_suffix s ''kbps'' then Some (1000, strip ''kbps'')
         else if has_suffix s ''bps'' then Some (1, strip ''bps'')
         else None)"

definition ParseBitsPerSec :: "(rat \<Rightarrow> rat) \<Rightarrow> (string \<Rightarrow> rat option) \<Rightarrow> string \<Rightarrow> speed option" where
  "ParseBitsPerSec fl parse_float s0 =
     (case speed_unit (to_lower (trim_space s0)) of
        None \<Rightarrow> None
      | Some (multiplier, s1) \<Rightarrow>
          let s = trim_space s1
          in if s = [] then None
             else if multiplier = 1 \<and> parse_uint64 s \<noteq> None then parse_uint64 s
             else case parse_float s of
                    None \<Rightarrow> None
                  | Some v \<Rightarrow>
                      if v < 0 then None
                      else let r = fl (v * of_nat multiplier)
                           in if fl (2 ^ 64 - 1) \<le> r then None else Some (of_int \<lfloor>r\<rfloor>))"

subsection \<open>Transfers\<close>

record TransferConfig =
  TrBytes :: int
  TrTimeout :: int
  TrMinSpeed :: speed
  TrProxyPort :: u16

text \<open>What a request meets: the error of the request with that of the caller's context and whether the
  deadline of the transfer has passed, the status, the error of reading the body with the same two,
  the bytes read and the time elapsed.\<close>

record transfer =
  ReqErr :: "go_err option"
  CtxAtReq :: "go_err option"
  LateAtReq :: bool
  Status :: int
  BodyErr :: "go_err option"
  CtxAtBody :: "go_err option"
  LateAtBody :: bool
  BodyBytes :: nat
  Elapsed :: int

definition speed_checked :: "SpeedResult \<Rightarrow> go_err + SpeedResult" where
  "speed_checked r = (if BelowMinimum r then Inl [Plain 80, ErrBelowMinimum] else Inr r)"

definition MeasureDownloadSpeed :: "(rat \<Rightarrow> rat) \<Rightarrow> TransferConfig \<Rightarrow> transfer \<Rightarrow> go_err + SpeedResult" where
  "MeasureDownloadSpeed fl cfg t =
     (if TrBytes cfg \<le> 0 then Inl [Plain 81]
      else if \<not> newHTTPClient (None :: unit option) (TrProxyPort cfg) then Inl [Plain 82]
      else case ReqErr t of
             Some err \<Rightarrow> Inl (case CtxAtReq t of Some cerr \<Rightarrow> cerr | None \<Rightarrow> wrap_err (Some err))
           | None \<Rightarrow>
               if Status t \<noteq> 200 then Inl [Plain 83]
               else case BodyErr t of
                      Some err \<Rightarrow>
                        Inl (case CtxAtBody t of
                               Some cerr \<Rightarrow> cerr
                             | None \<Rightarrow>
                                 if 0 < TrTimeout cfg \<and> LateAtBody t then [Plain 84, DeadlineExceeded]
                                 else wrap_err (Some err))
                    | None \<Rightarrow>
                        if Elapsed t \<le> 0 \<or> BodyBytes t = 0 then Inl [Plain 85]
                        else speed_checked \<lparr>Speed = bitsPerSec fl (BodyBytes t) (Seconds fl (Elapsed t)),
                                            SpeedBytes = BodyBytes t, MinSpeed = TrMinSpeed cfg\<rparr>)"

definition MeasureUploadSpeed :: "(rat \<Rightarrow> rat) \<Rightarrow> TransferConfig \<Rightarrow> transfer \<Rightarrow> go_err + SpeedResult" where
  "MeasureUploadSpeed fl cfg t =
     (if TrBytes cfg \<le> 0 then Inl [Plain 81]
      else if \<not> newHTTPClient (None :: unit option) (TrProxyPort cfg) then Inl [Plain 82]
      else case ReqErr t of
             Some err \<Rightarrow> Inl (if LateAtReq t then [Plain 84, DeadlineExceeded] else wrap_err (Some err))
           | None \<Rightarrow>
               if Status t \<noteq> 200 then Inl [Plain 83]
               else case BodyErr t of
                      Some err \<Rightarrow> Inl (if LateAtBody t then [Plain 84, DeadlineExceeded] else wrap_err (Some err))
                    | None \<Rightarrow>
                        if Elapsed t \<le> 0 then Inl [Plain 85]
                        else speed_checked \<lparr>Speed = bitsPerSec fl (nat (TrBytes cfg)) (Seconds fl (Elapsed t)),
                                            SpeedBytes = nat (TrBytes cfg), MinSpeed = TrMinSpeed cfg\<rparr>)"

subsection \<open>The probe\<close>

record xray_probe =
  XpOutbound :: string
  LatencyTimeout :: int
  TransferTimeout :: int
  TestMode :: connectivity
  DownloadBytes :: int
  UploadBytes :: int
  MinDownload :: speed
  MinUpload :: speed

datatype new_xray_err = NoXrayPorts | NoTemplateName | BadTimeout | BadSpeedTimeout | UnknownTemplate xray_err

text \<open>\<open>math.Round\<close>, half away from zero.\<close>

definition go_round :: "rat \<Rightarrow> int" where
  "go_round x = (if x < 0 then - \<lfloor>- x + 1 / 2\<rfloor> else \<lfloor>x + 1 / 2\<rfloor>)"

definition test_bytes :: "(rat \<Rightarrow> rat) \<Rightarrow> int \<Rightarrow> int \<Rightarrow> int" where
  "test_bytes fl kbps limit = go_round (fl (fl (of_int kbps) * fl (125 * Seconds fl limit)))"

definition NewXrayProbe ::
  "(rat \<Rightarrow> rat) \<Rightarrow> json dir \<Rightarrow> XrayConfig \<Rightarrow> string \<Rightarrow> pool option \<Rightarrow> new_xray_err + xray_probe" where
  "NewXrayProbe fl fs cfg outbound pm =
     (if pm = None then Inl NoXrayPorts
      else if outbound = [] then Inl NoTemplateName
      else if Duration (XrayTimeout cfg) \<le> 0 then Inl BadTimeout
      else if Duration (SpeedTestTimeout cfg) \<le> 0 then Inl BadSpeedTimeout
      else case GetOutboundTemplateByName fs outbound of
             Inl e \<Rightarrow> Inl (UnknownTemplate e)
           | Inr f \<Rightarrow>
               Inr \<lparr>XpOutbound = outbound, LatencyTimeout = Duration (XrayTimeout cfg),
                    TransferTimeout = Duration (SpeedTestTimeout cfg), TestMode = ConnectivityTestType cfg,
                    DownloadBytes = test_bytes fl (DownloadSpeed cfg) (Duration (SpeedTestTimeout cfg)),
                    UploadBytes = test_bytes fl (UploadSpeed cfg) (Duration (SpeedTestTimeout cfg)),
                    MinDownload = of_int (DownloadSpeed cfg) * 1000, MinUpload = of_int (UploadSpeed cfg) * 1000\<rparr>)"

record XrayResult =
  XrIP :: addr
  XrLatency :: int
  XrDownload :: speed
  XrUpload :: speed

text \<open>What a run meets after the port was leased: the core and its context, the wait for the listener with
  the context after it, the request for the latency, and the two transfers.\<close>

record xray_world =
  StartCtx :: "go_err option"
  CoreOk :: "xray_config \<Rightarrow> bool"
  WaitErr :: "go_err option"
  WaitCtx :: "go_err option"
  LatencyFetch :: "unit fetch"
  DownloadOf :: transfer
  UploadOf :: transfer

definition norm_wrap :: "go_err \<Rightarrow> go_err option" where
  "norm_wrap err = NormalizeErr (Some (wrap_err (Some err)))"

definition measureDownload :: "(rat \<Rightarrow> rat) \<Rightarrow> xray_probe \<Rightarrow> u16 \<Rightarrow> xray_world \<Rightarrow> go_err + SpeedResult" where
  "measureDownload fl p port w =
     MeasureDownloadSpeed fl
       \<lparr>TrBytes = DownloadBytes p, TrTimeout = TransferTimeout p, TrMinSpeed = MinDownload p, TrProxyPort = port\<rparr>
       (DownloadOf w)"

definition measureUpload :: "(rat \<Rightarrow> rat) \<Rightarrow> xray_probe \<Rightarrow> u16 \<Rightarrow> xray_world \<Rightarrow> go_err + SpeedResult" where
  "measureUpload fl p port w =
     MeasureUploadSpeed fl
       \<lparr>TrBytes = UploadBytes p, TrTimeout = TransferTimeout p, TrMinSpeed = MinUpload p, TrProxyPort = port\<rparr>
       (UploadOf w)"

text \<open>The switch over the test mode.\<close>

definition test_speeds :: "(rat \<Rightarrow> rat) \<Rightarrow> xray_probe \<Rightarrow> u16 \<Rightarrow> xray_world \<Rightarrow> XrayResult \<Rightarrow> go_err option + XrayResult" where
  "test_speeds fl p port w r =
     (if TestMode p = 1 then
        (case measureDownload fl p port w of
           Inl err \<Rightarrow> Inl (norm_wrap err) | Inr d \<Rightarrow> Inr (r\<lparr>XrDownload := Speed d\<rparr>))
      else if TestMode p = 2 then
        (case measureUpload fl p port w of
           Inl err \<Rightarrow> Inl (norm_wrap err) | Inr u \<Rightarrow> Inr (r\<lparr>XrUpload := Speed u\<rparr>))
      else if TestMode p = Both then
        (case measureDownload fl p port w of
           Inl err \<Rightarrow> Inl (norm_wrap err)
         | Inr d \<Rightarrow>
             (case measureUpload fl p port w of
                Inl err \<Rightarrow> Inl (norm_wrap err)
              | Inr u \<Rightarrow> Inr (r\<lparr>XrDownload := Speed d, XrUpload := Speed u\<rparr>)))
      else Inr r)"

text \<open>A run on a leased port, with the number of instances that were started and closed.\<close>

definition xray_on_port ::
  "(rat \<Rightarrow> rat) \<Rightarrow> json dir \<Rightarrow> xray_probe \<Rightarrow> xray_world \<Rightarrow> addr \<Rightarrow> u16 \<Rightarrow> (go_err option + XrayResult) \<times> nat \<times> nat" where
  "xray_on_port fl fs p w ip port =
     (case GenerateConfig fs (XpOutbound p) (Some ip) port 0 of
        Inl e \<Rightarrow> (Inl (norm_wrap [Plain 90]), 0, 0)
      | Inr cfg \<Rightarrow>
          (case Xray_Start (CoreOk w) (StartCtx w) cfg of
             Some (Inl err) \<Rightarrow> (Inl (norm_wrap err), 0, 0)
           | Some (Inr e) \<Rightarrow> (Inl (norm_wrap [Plain 91]), 0, 0)
           | None \<Rightarrow>
               (case WaitErr w of
                  Some err \<Rightarrow>
                    (case WaitCtx w of Some cerr \<Rightarrow> (Inl (Some cerr), 1, 1) | None \<Rightarrow> (Inl (norm_wrap err), 1, 1))
                | None \<Rightarrow>
                    (case MeasureLatency (LatencyFetch w)
                            \<lparr>LatURL = [], LatTimeout = LatencyTimeout p, MaxLatency = 0, LatProxyPort = port\<rparr> None of
                       Inl err \<Rightarrow> (Inl (norm_wrap err), 1, 1)
                     | Inr rtt \<Rightarrow>
                         (test_speeds fl p port w \<lparr>XrIP = ip, XrLatency = rtt, XrDownload = 0, XrUpload = 0\<rparr>, 1, 1)))))"

definition Xray_Run ::
  "(rat \<Rightarrow> rat) \<Rightarrow> json dir \<Rightarrow> (nat \<Rightarrow> u16 \<Rightarrow> bool) \<Rightarrow> (nat \<Rightarrow> bool) \<Rightarrow> go_err option \<Rightarrow> go_err option \<Rightarrow> xray_probe \<Rightarrow> xray_world
   \<Rightarrow> addr \<Rightarrow> pool \<Rightarrow> ((go_err option + XrayResult) \<times> pool) option" where
  "Xray_Run fl fs isFree pctx ctx after p w ip m =
     (case ctx of
        Some err \<Rightarrow> Some (Inl (Some err), m)
      | None \<Rightarrow>
          (case get_port isFree pctx m of
             None \<Rightarrow> None
           | Some (Blocked, m1) \<Rightarrow> None
           | Some (GotPort port, m1) \<Rightarrow> Some (fst (xray_on_port fl fs p w ip port), release port m1)
           | Some (ErrClosed, m1) \<Rightarrow>
               Some (Inl (if after \<noteq> None then Some [Plain 63] else norm_wrap [Plain 63]), m1)
           | Some (CtxErr, m1) \<Rightarrow>
               Some (Inl (case after of Some err \<Rightarrow> Some err | None \<Rightarrow> norm_wrap [Plain 64]), m1)))"

text \<open>\<open>Init\<close> leases a port, gives it back at once and lets the core validate the template for the loopback address.\<close>

datatype init_err = LeaseFailed get_result | ConfigFailed xray_err

definition Xray_Init ::
  "json dir \<Rightarrow> (nat \<Rightarrow> u16 \<Rightarrow> bool) \<Rightarrow> (nat \<Rightarrow> bool) \<Rightarrow> (xray_config \<Rightarrow> bool) \<Rightarrow> xray_probe \<Rightarrow> pool \<Rightarrow> (init_err option \<times> pool) option" where
  "Xray_Init fs isFree pctx core p m =
     (case get_port isFree pctx m of
        None \<Rightarrow> None
      | Some (Blocked, m1) \<Rightarrow> None
      | Some (GotPort port, m1) \<Rightarrow>
          Some ((case GenerateConfig fs (XpOutbound p) (Some (V4 0x7F000001)) port 0 of
                   Inl e \<Rightarrow> Some (ConfigFailed e)
                 | Inr cfg \<Rightarrow> map_option ConfigFailed (Xray_ValidateConfig core cfg)), release port m1)
      | Some (r, m1) \<Rightarrow> Some (Some (LeaseFailed r), m1))"

subsection \<open>Records of the probe\<close>

definition Xray_ToRecord :: "(nat \<Rightarrow> nat \<Rightarrow> bool) \<Rightarrow> (rat \<Rightarrow> rat) \<Rightarrow> (rat \<Rightarrow> string) \<Rightarrow> XrayResult \<Rightarrow> string list" where
  "Xray_ToRecord up fl fmt2 r =
     [show_addr (XrIP r), FormatDuration up (XrLatency r), speed_String fl fmt2 (XrDownload r), speed_String fl fmt2 (XrUpload r)]"

definition Xray_Score :: "(rat \<Rightarrow> rat) \<Rightarrow> XrayResult \<Rightarrow> rat" where
  "Xray_Score fl r =
     (let ms = max 1 (fl (of_int (XrLatency r div Millisecond)));
          lat = fl (1000 / ms);
          down = fl (fl (of_nat (unat (XrDownload r))) / 1000000);
          up = fl (fl (of_nat (unat (XrUpload r))) / 1000000)
      in fl (fl (fl (lat * fl (1 / 10)) + fl (down * fl (6 / 10))) + fl (up * fl (3 / 10))))"

subsection \<open>What a result means\<close>

lemma speed_checked_Inr: "speed_checked r = Inr r' \<Longrightarrow> r' = r \<and> MinSpeed r \<le> Speed r"
  by (auto simp: speed_checked_def BelowMinimum_def word_gt_0 not_less split: if_splits)

lemma download_Inr:
  assumes "MeasureDownloadSpeed fl cfg t = Inr r"
  shows "0 < TrBytes cfg \<and> Status t = 200 \<and> ReqErr t = None \<and> BodyErr t = None \<and> 0 < BodyBytes t
     \<and> Speed r = bitsPerSec fl (BodyBytes t) (Seconds fl (Elapsed t)) \<and> TrMinSpeed cfg \<le> Speed r"
  using assms by (auto simp: MeasureDownloadSpeed_def split: if_splits option.splits dest: speed_checked_Inr)

lemma upload_Inr:
  assumes "MeasureUploadSpeed fl cfg t = Inr r"
  shows "0 < TrBytes cfg \<and> Status t = 200 \<and> ReqErr t = None \<and> BodyErr t = None
     \<and> Speed r = bitsPerSec fl (nat (TrBytes cfg)) (Seconds fl (Elapsed t)) \<and> TrMinSpeed cfg \<le> Speed r"
  using assms by (auto simp: MeasureUploadSpeed_def split: if_splits option.splits dest: speed_checked_Inr)

lemma test_speeds_Inr:
  assumes "test_speeds fl p port w r0 = Inr r"
  shows "XrIP r = XrIP r0 \<and> XrLatency r = XrLatency r0
     \<and> (TestMode p = 1 \<or> TestMode p = Both \<longrightarrow> 0 < DownloadBytes p \<and> MinDownload p \<le> XrDownload r)
     \<and> (TestMode p = 2 \<or> TestMode p = Both \<longrightarrow> 0 < UploadBytes p \<and> MinUpload p \<le> XrUpload r)"
  using assms
  by (auto simp: test_speeds_def measureDownload_def measureUpload_def Both_def split: if_splits sum.splits
      dest!: download_Inr upload_Inr)

lemma Xray_Run_Inr:
  assumes "Xray_Run fl fs isFree pctx ctx after p w ip m = Some (Inr r, m')"
  shows "\<exists>port m1. get_port isFree pctx m = Some (GotPort port, m1) \<and> fst (xray_on_port fl fs p w ip port) = Inr r \<and> m' = release port m1"
  using assms by (auto simp: Xray_Run_def split: option.splits get_result.splits if_splits)


lemma Xray_Run_speeds:
  assumes "Xray_Run fl fs isFree pctx ctx after p w ip m = Some (Inr r, m')"
  shows "TestMode p = 1 \<longrightarrow> 0 < DownloadBytes p"
proof -
  obtain port where "fst (xray_on_port fl fs p w ip port) = Inr r" using Xray_Run_Inr [OF assms] by blast
  then obtain r0 where "test_speeds fl p port w r0 = Inr r"
    by (auto simp: xray_on_port_def split: option.splits sum.splits)
  from test_speeds_Inr [OF this] show ?thesis by blast
qed

definition zero_speed :: XrayConfig where
  "zero_speed = (DefaultXrayConfig Desktop Mid)\<lparr>ConnectivityTestType := 1, DownloadSpeed := 0\<rparr>"

lemma zero_speed_valid: "ValidateXray zero_speed = Map.empty"
  unfolding ValidateXray_def collect_errs_empty by code_simp

text \<open>A setting that is valid and finds nothing. A download speed of zero is in the documented range, but with a
  test of the download the probe then asks for zero bytes, which the speed test refuses: every address
  fails, after its latency was measured.\<close>

theorem zero_speed_never_succeeds:
  assumes "fl 0 = 0" and "NewXrayProbe fl fs zero_speed outbound pm = Inr p"
  shows "ValidateXray zero_speed = Map.empty
     \<and> \<not> (\<exists>r m'. Xray_Run fl fs isFree pctx ctx after p w ip m = Some (Inr r, m'))"
proof -
  have half: "\<lfloor>1 / 2 :: rat\<rfloor> = 0" by (rule floor_unique) simp_all
  have "test_bytes fl 0 limit = 0" for limit using assms(1) by (simp add: test_bytes_def go_round_def half)
  then have "TestMode p = 1" "DownloadBytes p = 0"
    using assms(2) by (auto simp: NewXrayProbe_def zero_speed_def split: if_splits sum.splits)
  with Xray_Run_speeds [of fl fs isFree pctx ctx after p w ip m] zero_speed_valid show ?thesis by auto
qed

definition example_fs :: "json dir" where
  "example_fs = [(''a.json'', ConfFile (Some (JObj plain_kvs)))]"

definition example_transfer :: transfer where
  "example_transfer =
     \<lparr>ReqErr = None, CtxAtReq = None, LateAtReq = False, Status = 200, BodyErr = None, CtxAtBody = None, LateAtBody = False,
      BodyBytes = 75000, Elapsed = 2 * Second\<rparr>"

definition example_xray_world :: xray_world where
  "example_xray_world =
     \<lparr>StartCtx = None, CoreOk = (\<lambda>c. True), WaitErr = None, WaitCtx = None, LatencyFetch = (\<lambda>d url. Inr (204, 30 * Millisecond)),
      DownloadOf = example_transfer, UploadOf = example_transfer\<rparr>"

definition example_xray :: xray_probe where
  "example_xray =
     \<lparr>XpOutbound = ''a'', LatencyTimeout = Second, TransferTimeout = 6 * Second, TestMode = 1, DownloadBytes = 75000,
      UploadBytes = 0, MinDownload = 100000, MinUpload = 0\<rparr>"

lemma example_entry: "template_entry ''a'' = ''a.json''"
  by code_simp

lemma example_generated:
  "GenerateConfig example_fs ''a'' (Some ip) lp 0 = Inr (scan_config lp (JObj (replaced ip 0 plain_kvs)))"
  using GenerateConfig_stored [of example_fs "''a''" plain_kvs ip lp 0] setOutboundAddress_replaced [OF plain_fits, of ip 0]
  by (simp add: example_entry example_fs_def plain_locations scan_config_def)

lemma example_download:
  "measureDownload (\<lambda>x. x) example_xray 49149 example_xray_world
   = Inr \<lparr>Speed = 300000, SpeedBytes = 75000, MinSpeed = 100000\<rparr>"
proof -
  have "Seconds (\<lambda>x. x) (2 * Second) = 2" by (simp add: Seconds_def Second_def)
  then have "bitsPerSec (\<lambda>x. x) 75000 (Seconds (\<lambda>x. x) (2 * Second)) = 300000" by (simp add: bitsPerSec_def)
  then show ?thesis
    by (simp add: measureDownload_def MeasureDownloadSpeed_def newHTTPClient_def example_xray_def example_xray_world_def
        example_transfer_def speed_checked_def BelowMinimum_def Second_def)
qed

lemma example_run:
  "Xray_Run (\<lambda>x. x) example_fs (\<lambda>_ _. True) (\<lambda>_. False) None None example_xray example_xray_world (V4 9) (shared example_sys)
   = Some (Inr \<lparr>XrIP = V4 9, XrLatency = 30 * Millisecond, XrDownload = 300000, XrUpload = 0\<rparr>,
           release 49149 (example_pool\<lparr>ports := [49150]\<rparr>))"
proof -
  have ok: "XpOutbound example_xray = ''a''" "TestMode example_xray = 1" by (simp_all add: example_xray_def)
  have w: "CoreOk example_xray_world = (\<lambda>c. True)" "StartCtx example_xray_world = None" "WaitErr example_xray_world = None"
    "LatencyFetch example_xray_world = (\<lambda>d url. Inr (204, 30 * Millisecond))" by (simp_all add: example_xray_world_def)
  show ?thesis
    by (simp add: Xray_Run_def example_lease xray_on_port_def ok w example_generated Xray_Start_def validateConfigShape_def
        scan_config_def MeasureLatency_def newHTTPClient_def AboveMaximum_def test_speeds_def example_download)
qed


theorem zero_speed_never_succeeds_witness:
  "\<not> (\<exists>p r m'. NewXrayProbe (\<lambda>x. x) example_fs zero_speed ''a'' (Some example_pool) = Inr p
      \<and> Xray_Run (\<lambda>x. x) example_fs (\<lambda>_ _. True) (\<lambda>_. False) None None p example_xray_world (V4 9) example_pool = Some (Inr r, m'))
   \<and> \<not> isl (NewXrayProbe (\<lambda>x. x) example_fs zero_speed ''a'' (Some example_pool))"
proof -
  have "Duration (XrayTimeout zero_speed) = 2 * Second" "Duration (SpeedTestTimeout zero_speed) = 6 * Second"
    by code_simp+
  moreover have "\<not> isl (GetOutboundTemplateByName example_fs ''a'')"
    by (simp add: GetOutboundTemplateByName_def example_entry example_fs_def loadOutboundFileMetadata_def read_object_def Let_def)
  ultimately have "\<not> isl (NewXrayProbe (\<lambda>x. x) example_fs zero_speed ''a'' (Some example_pool))"
    by (cases "GetOutboundTemplateByName example_fs ''a''") (simp_all add: NewXrayProbe_def Second_def)
  then show ?thesis using zero_speed_never_succeeds [of "\<lambda>x. x"] by blast
qed

text \<open>The port of a run is given back as by the other probes that lease one.\<close>

lemma xray_port_returned:
  assumes "reach pool_init pool_step s" and "Xray_Run fl fs isFree pctx ctx after p w ip (shared s) = Some (res, m')"
  shows "reach pool_init pool_step (s\<lparr>shared := m'\<rparr>)"
proof (cases "ctx = None")
  case False
  with assms show ?thesis by (auto simp: Xray_Run_def)
next
  case True
  with assms(2) obtain g m1 where g: "get_port isFree pctx (shared s) = Some (g, m1)"
    "m' = (case g of GotPort p \<Rightarrow> release p m1 | _ \<Rightarrow> m1)"
    by (auto simp: Xray_Run_def split: option.splits get_result.splits)
  show ?thesis unfolding g(2) by (rule lease_released [OF assms(1) g(1)])
qed

text \<open>Every instance that was started is closed.\<close>

lemma xray_instances_closed: "fst (snd (xray_on_port fl fs p w ip port)) = snd (snd (xray_on_port fl fs p w ip port))"
  by (simp add: xray_on_port_def split: sum.split option.split)

end
