(* ===== verification/KeyBindings.thy ===== *)
theory KeyBindings
  imports Prelude
begin

text \<open>
  The package \<open>internal/ui/shared/keys\<close>: the actions of \<open>action.go\<close>, and from \<open>binding.go\<close> a binding, when
  a pressed key triggers it, and the hints that the help shows for it. A pressed key is the text that
  the terminal library gives for the event (\<open>KeyMsg.String\<close>). Letters change case by their ASCII codes, and
  a text is UTF-8; every key the program binds is ASCII.
\<close>

subsection \<open>Actions\<close>

named_theorems key_actions "the names of the actions"

type_synonym action = string

definition ActionQuit :: action where [key_actions]: "ActionQuit = ''global.quit_normal''"
definition ActionForceQuit :: action where [key_actions]: "ActionForceQuit = ''global.quit_force''"
definition ActionDumpGoroutines :: action where [key_actions]: "ActionDumpGoroutines = ''global.dump_goroutines''"
definition ActionHelp :: action where [key_actions]: "ActionHelp = ''global.help''"
definition ActionBack :: action where [key_actions]: "ActionBack = ''global.back''"
definition ActionBackFromInput :: action where [key_actions]: "ActionBackFromInput = ''global.back_from_input''"
definition ActionUp :: action where [key_actions]: "ActionUp = ''nav.up''"
definition ActionDown :: action where [key_actions]: "ActionDown = ''nav.down''"
definition ActionLeft :: action where [key_actions]: "ActionLeft = ''nav.left''"
definition ActionRight :: action where [key_actions]: "ActionRight = ''nav.right''"
definition ActionPageUp :: action where [key_actions]: "ActionPageUp = ''nav.page_up''"
definition ActionPageDown :: action where [key_actions]: "ActionPageDown = ''nav.page_down''"
definition ActionTop :: action where [key_actions]: "ActionTop = ''nav.top''"
definition ActionBottom :: action where [key_actions]: "ActionBottom = ''nav.bottom''"
definition ActionNextTab :: action where [key_actions]: "ActionNextTab = ''nav.next_tab''"
definition ActionPrevTab :: action where [key_actions]: "ActionPrevTab = ''nav.prev_tab''"
definition ActionTableHalfPageUp :: action where [key_actions]: "ActionTableHalfPageUp = ''table.half_page_up''"
definition ActionTableHalfPageDown :: action where [key_actions]: "ActionTableHalfPageDown = ''table.half_page_down''"
definition ActionTableSort :: action where [key_actions]: "ActionTableSort = ''table.sort''"
definition ActionTableOrder :: action where [key_actions]: "ActionTableOrder = ''table.order''"
definition ActionTableFilter :: action where [key_actions]: "ActionTableFilter = ''table.filter''"
definition ActionCrudSelect :: action where [key_actions]: "ActionCrudSelect = ''crud.select''"
definition ActionCrudAdd :: action where [key_actions]: "ActionCrudAdd = ''crud.add''"
definition ActionCrudDelete :: action where [key_actions]: "ActionCrudDelete = ''crud.delete''"
definition ActionCrudRename :: action where [key_actions]: "ActionCrudRename = ''crud.rename''"
definition ActionAccept :: action where [key_actions]: "ActionAccept = ''confirm.accept''"
definition ActionContinue :: action where [key_actions]: "ActionContinue = ''notice.continue''"
definition ActionDialogCancel :: action where [key_actions]: "ActionDialogCancel = ''dialog.cancel''"
definition ActionMenuSelect :: action where [key_actions]: "ActionMenuSelect = ''menu.select''"
definition ActionFormSave :: action where [key_actions]: "ActionFormSave = ''form.save''"
definition ActionFormCancel :: action where [key_actions]: "ActionFormCancel = ''form.cancel''"
definition ActionScanPause :: action where [key_actions]: "ActionScanPause = ''scan.pause''"
definition ActionScanLogs :: action where [key_actions]: "ActionScanLogs = ''scan.logs''"
definition ActionScanCancel :: action where [key_actions]: "ActionScanCancel = ''scan.cancel''"
definition ActionLogViewHalfPageUp :: action where [key_actions]: "ActionLogViewHalfPageUp = ''logview.half_page_up''"
definition ActionLogViewHalfPageDown :: action where [key_actions]: "ActionLogViewHalfPageDown = ''logview.half_page_down''"
definition ActionInspectorEdit :: action where [key_actions]: "ActionInspectorEdit = ''inspector.edit''"
definition ActionInspectorDescription :: action where [key_actions]: "ActionInspectorDescription = ''inspector.description''"
definition ActionTabNext :: action where [key_actions]: "ActionTabNext = ''tab.next''"
definition ActionTabPrevious :: action where [key_actions]: "ActionTabPrevious = ''tab.previous''"
definition ActionTextInputSubmit :: action where [key_actions]: "ActionTextInputSubmit = ''textinput.submit''"
definition ActionTextInputCharacterForward :: action where [key_actions]: "ActionTextInputCharacterForward = ''textinput.character_forward''"
definition ActionTextInputCharacterBackward :: action where [key_actions]: "ActionTextInputCharacterBackward = ''textinput.character_backward''"
definition ActionTextInputWordForward :: action where [key_actions]: "ActionTextInputWordForward = ''textinput.word_forward''"
definition ActionTextInputWordBackward :: action where [key_actions]: "ActionTextInputWordBackward = ''textinput.word_backward''"
definition ActionTextInputDeleteWordBackward :: action where [key_actions]: "ActionTextInputDeleteWordBackward = ''textinput.delete_word_backward''"
definition ActionTextInputDeleteWordForward :: action where [key_actions]: "ActionTextInputDeleteWordForward = ''textinput.delete_word_forward''"
definition ActionTextInputDeleteAfterCursor :: action where [key_actions]: "ActionTextInputDeleteAfterCursor = ''textinput.delete_after_cursor''"
definition ActionTextInputDeleteBeforeCursor :: action where [key_actions]: "ActionTextInputDeleteBeforeCursor = ''textinput.delete_before_cursor''"
definition ActionTextInputDeleteCharacterBackward :: action where [key_actions]: "ActionTextInputDeleteCharacterBackward = ''textinput.delete_character_backward''"
definition ActionTextInputDeleteCharacterForward :: action where [key_actions]: "ActionTextInputDeleteCharacterForward = ''textinput.delete_character_forward''"
definition ActionTextInputLineStart :: action where [key_actions]: "ActionTextInputLineStart = ''textinput.line_start''"
definition ActionTextInputLineEnd :: action where [key_actions]: "ActionTextInputLineEnd = ''textinput.line_end''"
definition ActionTextInputPaste :: action where [key_actions]: "ActionTextInputPaste = ''textinput.paste''"
definition ActionToggleInputPrev :: action where [key_actions]: "ActionToggleInputPrev = ''toggleinput.prev''"
definition ActionToggleInputNext :: action where [key_actions]: "ActionToggleInputNext = ''toggleinput.next''"
definition ActionToggleInputSubmit :: action where [key_actions]: "ActionToggleInputSubmit = ''toggleinput.submit''"
definition ActionToggleInputToggle :: action where [key_actions]: "ActionToggleInputToggle = ''toggleinput.toggle''"
definition ActionToggleInputAccept :: action where [key_actions]: "ActionToggleInputAccept = ''toggleinput.accept''"
definition ActionToggleInputReject :: action where [key_actions]: "ActionToggleInputReject = ''toggleinput.reject''"
definition ActionPickerGotoTop :: action where [key_actions]: "ActionPickerGotoTop = ''picker.goto_top''"
definition ActionPickerGotoLast :: action where [key_actions]: "ActionPickerGotoLast = ''picker.goto_last''"
definition ActionPickerUp :: action where [key_actions]: "ActionPickerUp = ''picker.up''"
definition ActionPickerDown :: action where [key_actions]: "ActionPickerDown = ''picker.down''"
definition ActionPickerPageUp :: action where [key_actions]: "ActionPickerPageUp = ''picker.page_up''"
definition ActionPickerPageDown :: action where [key_actions]: "ActionPickerPageDown = ''picker.page_down''"
definition ActionPickerBack :: action where [key_actions]: "ActionPickerBack = ''picker.back''"
definition ActionPickerOpen :: action where [key_actions]: "ActionPickerOpen = ''picker.open''"
definition ActionPickerSelect :: action where [key_actions]: "ActionPickerSelect = ''picker.select''"
definition ActionSelectInputSubmit :: action where [key_actions]: "ActionSelectInputSubmit = ''selectinput.submit''"
definition ActionSelectInputPrev :: action where [key_actions]: "ActionSelectInputPrev = ''selectinput.prev''"
definition ActionSelectInputNext :: action where [key_actions]: "ActionSelectInputNext = ''selectinput.next''"
definition ActionSelectInputUp :: action where [key_actions]: "ActionSelectInputUp = ''selectinput.up''"
definition ActionSelectInputDown :: action where [key_actions]: "ActionSelectInputDown = ''selectinput.down''"
definition ActionSelectInputHalfPageUp :: action where [key_actions]: "ActionSelectInputHalfPageUp = ''selectinput.half_page_up''"
definition ActionSelectInputHalfPageDown :: action where [key_actions]: "ActionSelectInputHalfPageDown = ''selectinput.half_page_down''"
definition ActionSelectInputGotoTop :: action where [key_actions]: "ActionSelectInputGotoTop = ''selectinput.goto_top''"
definition ActionSelectInputGotoBottom :: action where [key_actions]: "ActionSelectInputGotoBottom = ''selectinput.goto_bottom''"
definition ActionSelectInputLeft :: action where [key_actions]: "ActionSelectInputLeft = ''selectinput.left''"
definition ActionSelectInputRight :: action where [key_actions]: "ActionSelectInputRight = ''selectinput.right''"
definition ActionSelectInputFilter :: action where [key_actions]: "ActionSelectInputFilter = ''selectinput.filter''"
definition ActionSelectInputSetFilter :: action where [key_actions]: "ActionSelectInputSetFilter = ''selectinput.set_filter''"
definition ActionSelectInputClearFilter :: action where [key_actions]: "ActionSelectInputClearFilter = ''selectinput.clear_filter''"
definition ActionMultiSelectSubmit :: action where [key_actions]: "ActionMultiSelectSubmit = ''multiselect.submit''"
definition ActionMultiSelectPrev :: action where [key_actions]: "ActionMultiSelectPrev = ''multiselect.prev''"
definition ActionMultiSelectNext :: action where [key_actions]: "ActionMultiSelectNext = ''multiselect.next''"
definition ActionMultiSelectToggle :: action where [key_actions]: "ActionMultiSelectToggle = ''multiselect.toggle''"
definition ActionMultiSelectUp :: action where [key_actions]: "ActionMultiSelectUp = ''multiselect.up''"
definition ActionMultiSelectDown :: action where [key_actions]: "ActionMultiSelectDown = ''multiselect.down''"
definition ActionMultiSelectHalfPageUp :: action where [key_actions]: "ActionMultiSelectHalfPageUp = ''multiselect.half_page_up''"
definition ActionMultiSelectHalfPageDown :: action where [key_actions]: "ActionMultiSelectHalfPageDown = ''multiselect.half_page_down''"
definition ActionMultiSelectGotoTop :: action where [key_actions]: "ActionMultiSelectGotoTop = ''multiselect.goto_top''"
definition ActionMultiSelectGotoBottom :: action where [key_actions]: "ActionMultiSelectGotoBottom = ''multiselect.goto_bottom''"
definition ActionMultiSelectFilter :: action where [key_actions]: "ActionMultiSelectFilter = ''multiselect.filter''"
definition ActionMultiSelectSetFilter :: action where [key_actions]: "ActionMultiSelectSetFilter = ''multiselect.set_filter''"
definition ActionMultiSelectClearFilter :: action where [key_actions]: "ActionMultiSelectClearFilter = ''multiselect.clear_filter''"
definition ActionMultiSelectSelectAll :: action where [key_actions]: "ActionMultiSelectSelectAll = ''multiselect.select_all''"
definition ActionMultiSelectSelectNone :: action where [key_actions]: "ActionMultiSelectSelectNone = ''multiselect.select_none''"
definition ActionTextAreaSubmit :: action where [key_actions]: "ActionTextAreaSubmit = ''textarea.submit''"
definition ActionTextAreaNewLine :: action where [key_actions]: "ActionTextAreaNewLine = ''textarea.newline''"
definition ActionTextAreaCharacterForward :: action where [key_actions]: "ActionTextAreaCharacterForward = ''textarea.character_forward''"
definition ActionTextAreaCharacterBackward :: action where [key_actions]: "ActionTextAreaCharacterBackward = ''textarea.character_backward''"
definition ActionTextAreaWordForward :: action where [key_actions]: "ActionTextAreaWordForward = ''textarea.word_forward''"
definition ActionTextAreaWordBackward :: action where [key_actions]: "ActionTextAreaWordBackward = ''textarea.word_backward''"
definition ActionTextAreaLineNext :: action where [key_actions]: "ActionTextAreaLineNext = ''textarea.line_next''"
definition ActionTextAreaLinePrevious :: action where [key_actions]: "ActionTextAreaLinePrevious = ''textarea.line_previous''"
definition ActionTextAreaDeleteWordBackward :: action where [key_actions]: "ActionTextAreaDeleteWordBackward = ''textarea.delete_word_backward''"
definition ActionTextAreaDeleteWordForward :: action where [key_actions]: "ActionTextAreaDeleteWordForward = ''textarea.delete_word_forward''"
definition ActionTextAreaDeleteAfterCursor :: action where [key_actions]: "ActionTextAreaDeleteAfterCursor = ''textarea.delete_after_cursor''"
definition ActionTextAreaDeleteBeforeCursor :: action where [key_actions]: "ActionTextAreaDeleteBeforeCursor = ''textarea.delete_before_cursor''"
definition ActionTextAreaInsertNewline :: action where [key_actions]: "ActionTextAreaInsertNewline = ''textarea.insert_newline''"
definition ActionTextAreaDeleteCharacterBackward :: action where [key_actions]: "ActionTextAreaDeleteCharacterBackward = ''textarea.delete_character_backward''"
definition ActionTextAreaDeleteCharacterForward :: action where [key_actions]: "ActionTextAreaDeleteCharacterForward = ''textarea.delete_character_forward''"
definition ActionTextAreaLineStart :: action where [key_actions]: "ActionTextAreaLineStart = ''textarea.line_start''"
definition ActionTextAreaLineEnd :: action where [key_actions]: "ActionTextAreaLineEnd = ''textarea.line_end''"
definition ActionTextAreaPageUp :: action where [key_actions]: "ActionTextAreaPageUp = ''textarea.page_up''"
definition ActionTextAreaPageDown :: action where [key_actions]: "ActionTextAreaPageDown = ''textarea.page_down''"
definition ActionTextAreaPaste :: action where [key_actions]: "ActionTextAreaPaste = ''textarea.paste''"
definition ActionTextAreaInputBegin :: action where [key_actions]: "ActionTextAreaInputBegin = ''textarea.input_begin''"
definition ActionTextAreaInputEnd :: action where [key_actions]: "ActionTextAreaInputEnd = ''textarea.input_end''"
definition ActionTextAreaCapitalizeWordForward :: action where [key_actions]: "ActionTextAreaCapitalizeWordForward = ''textarea.capitalize_word_forward''"
definition ActionTextAreaLowercaseWordForward :: action where [key_actions]: "ActionTextAreaLowercaseWordForward = ''textarea.lowercase_word_forward''"
definition ActionTextAreaUppercaseWordForward :: action where [key_actions]: "ActionTextAreaUppercaseWordForward = ''textarea.uppercase_word_forward''"
definition ActionTextAreaTransposeCharacterBackward :: action where [key_actions]: "ActionTextAreaTransposeCharacterBackward = ''textarea.transpose_character_backward''"
definition ActionTextAreaSelectCharacterForward :: action where [key_actions]: "ActionTextAreaSelectCharacterForward = ''textarea.select_character_forward''"
definition ActionTextAreaSelectCharacterBackward :: action where [key_actions]: "ActionTextAreaSelectCharacterBackward = ''textarea.select_character_backward''"
definition ActionTextAreaSelectWordForward :: action where [key_actions]: "ActionTextAreaSelectWordForward = ''textarea.select_word_forward''"
definition ActionTextAreaSelectWordBackward :: action where [key_actions]: "ActionTextAreaSelectWordBackward = ''textarea.select_word_backward''"
definition ActionTextAreaSelectLineUp :: action where [key_actions]: "ActionTextAreaSelectLineUp = ''textarea.select_line_up''"
definition ActionTextAreaSelectLineDown :: action where [key_actions]: "ActionTextAreaSelectLineDown = ''textarea.select_line_down''"
definition ActionTextAreaSelectAll :: action where [key_actions]: "ActionTextAreaSelectAll = ''textarea.select_all''"
definition ActionTextAreaCopySelection :: action where [key_actions]: "ActionTextAreaCopySelection = ''textarea.copy_selection''"

subsection \<open>Bindings\<close>

record Binding =
  b_Action :: action
  b_Keys :: "string list"
  b_HelpKey :: string
  b_HelpText :: string
  b_ShortText :: string
  b_Hidden :: bool
  b_Disabled :: bool
  b_CaseSensitive :: bool

text \<open>The zero value, which a Go literal changes in the fields it names.\<close>

definition no_binding :: Binding where
  "no_binding =
     \<lparr>b_Action = [], b_Keys = [], b_HelpKey = [], b_HelpText = [], b_ShortText = [],
      b_Hidden = False, b_Disabled = False, b_CaseSensitive = False\<rparr>"

record Hint =
  Hint_Key :: string
  Hint_Label :: string

definition Matches :: "Binding \<Rightarrow> string \<Rightarrow> bool" where
  "Matches b k =
     (if b_Disabled b \<or> b_Keys b = [] then False
      else let pressed = (if b_CaseSensitive b then k else to_lower k)
           in list_ex (\<lambda>key. (if b_CaseSensitive b then key else to_lower key) = pressed) (b_Keys b))"

subsection \<open>Names of keys in the help\<close>

definition keyAliases :: "(string \<times> string) list" where
  "keyAliases =
     [(''up'', [CHR 0xE2, CHR 0x86, CHR 0x91]), (''down'', [CHR 0xE2, CHR 0x86, CHR 0x93]),
      (''left'', [CHR 0xE2, CHR 0x86, CHR 0x90]), (''right'', [CHR 0xE2, CHR 0x86, CHR 0x92]),
      (''enter'', [CHR 0xE2, CHR 0x8F, CHR 0x8E]), (''return'', [CHR 0xE2, CHR 0x8F, CHR 0x8E]),
      (''esc'', ''esc''), (''escape'', ''esc''), (''space'', ''space''), (''tab'', ''tab''),
      (''pgup'', ''pgup''), (''pageup'', ''pgup''), (''pgdown'', ''pgdown''), (''pagedown'', ''pgdown''),
      (''home'', ''home''), (''end'', ''end''), (''backspace'', [CHR 0xE2, CHR 0x8C, CHR 0xAB]),
      (''delete'', ''del''), (''insert'', ''ins'')]"

definition modifierNames :: "(string \<times> string) list" where
  "modifierNames =
     [(''ctrl'', ''ctrl''), (''ctl'', ''ctrl''), (''shift'', ''shift''), (''alt'', ''alt''),
      (''meta'', ''meta''), (''cmd'', ''cmd''), (''super'', ''super''), (''hyper'', ''hyper'')]"

fun titleCase :: "string \<Rightarrow> string" where
  "titleCase [] = []"
| "titleCase (c # s) = to_upper [c] @ s"

definition combo_part :: "string \<Rightarrow> string option" where
  "combo_part part0 =
     (let part = trim_space part0
      in if part = [] then None
         else Some (case map_of modifierNames part of Some name \<Rightarrow> name
              | None \<Rightarrow> (case map_of keyAliases part of Some display \<Rightarrow> display
                | None \<Rightarrow> if rune_count part = 1 then to_upper part else titleCase part)))"

definition displayCombo :: "string \<Rightarrow> string" where
  "displayCombo combo = join_with ''+'' (List.map_filter combo_part (split_on (CHR ''+'') combo))"

definition DisplayKey :: "string \<Rightarrow> string" where
  "DisplayKey key0 =
     (let key = trim_space key0; lower = to_lower key
      in if key = [] then []
         else case map_of keyAliases lower of Some display \<Rightarrow> display
         | None \<Rightarrow> if contains_sub ''+'' lower then displayCombo lower
                  else if rune_count key = 1 then key else titleCase lower)"

subsection \<open>Hints\<close>

definition shortKey :: "Binding \<Rightarrow> string" where
  "shortKey b =
     (if b_HelpKey b \<noteq> [] then DisplayKey (b_HelpKey b)
      else case find (\<lambda>key. key \<noteq> []) (b_Keys b) of Some key \<Rightarrow> DisplayKey key | None \<Rightarrow> [])"

text \<open>The loop of \<open>longKey\<close>, with the keys it has seen.\<close>

definition shown_id :: "bool \<Rightarrow> string \<Rightarrow> string" where
  "shown_id cs display = (if cs then display else to_lower display)"

fun displayed_keys :: "bool \<Rightarrow> string list \<Rightarrow> string list \<Rightarrow> string list" where
  "displayed_keys cs seen [] = []"
| "displayed_keys cs seen (key # ks) =
     (let display = DisplayKey key
      in if key = [] \<or> shown_id cs display \<in> set seen then displayed_keys cs seen ks
         else display # displayed_keys cs (shown_id cs display # seen) ks)"

definition longKey :: "Binding \<Rightarrow> string" where
  "longKey b =
     (let displayed = displayed_keys (b_CaseSensitive b) [] (b_Keys b)
      in if displayed = [] \<and> b_HelpKey b \<noteq> [] then DisplayKey (b_HelpKey b) else join_with ''/'' displayed)"

definition LongItem :: "Binding \<Rightarrow> string list \<Rightarrow> Hint" where
  "LongItem b expand =
     \<lparr>Hint_Key = longKey b,
      Hint_Label = (if expand \<noteq> [] then b_HelpText b @ '' '' @ join_with '' '' expand else b_HelpText b)\<rparr>"

definition ShortItem :: "Binding \<Rightarrow> Hint" where
  "ShortItem b =
     \<lparr>Hint_Key = shortKey b,
      Hint_Label = (if b_ShortText b = [] then b_HelpText b else b_ShortText b)\<rparr>"

text \<open>The loop of \<open>Combine\<close>, with the keys it has seen.\<close>

fun combined_keys :: "string list \<Rightarrow> Binding list \<Rightarrow> string list" where
  "combined_keys seen [] = []"
| "combined_keys seen (b # bs) =
     (let key = shortKey b
      in if b_Disabled b \<or> key = [] \<or> key \<in> set seen then combined_keys seen bs
         else key # combined_keys (key # seen) bs)"

definition Combine :: "string \<Rightarrow> Binding list \<Rightarrow> Hint" where
  "Combine label bs = \<lparr>Hint_Key = join_with ''/'' (combined_keys [] bs), Hint_Label = label\<rparr>"

definition Short :: "Binding list \<Rightarrow> Hint list" where
  "Short bs =
     List.map_filter (\<lambda>b. if b_Hidden b \<or> b_Disabled b then None
                          else let item = ShortItem b in if Hint_Key item = [] then None else Some item) bs"

definition Long :: "Binding list \<Rightarrow> Hint list" where
  "Long bs =
     List.map_filter (\<lambda>b. if b_Disabled b then None
                          else let item = LongItem b [] in if Hint_Key item = [] then None else Some item) bs"

subsection \<open>When two bindings answer the same key\<close>

lemma Matches_iff:
  "Matches b k \<longleftrightarrow> \<not> b_Disabled b \<and> (\<exists>key\<in>set (b_Keys b).
     if b_CaseSensitive b then key = k else to_lower key = to_lower k)"
  by (auto simp: Matches_def Let_def list_ex_iff)

definition may_clash :: "Binding \<Rightarrow> Binding \<Rightarrow> bool" where
  "may_clash b c \<longleftrightarrow>
     \<not> b_Disabled b \<and> \<not> b_Disabled c
     \<and> list_ex (\<lambda>x. list_ex (\<lambda>y. if b_CaseSensitive b \<and> b_CaseSensitive c then x = y
                                   else to_lower x = to_lower y) (b_Keys c)) (b_Keys b)"

lemma clash_matches: "Matches b k \<Longrightarrow> Matches c k \<Longrightarrow> may_clash b c"
  unfolding Matches_iff may_clash_def list_ex_iff by (auto split: if_splits) metis+

lemma matches_clash:
  assumes "may_clash b c" shows "\<exists>k. Matches b k \<and> Matches c k"
proof -
  from assms obtain x y where *: "\<not> b_Disabled b" "\<not> b_Disabled c" "x \<in> set (b_Keys b)" "y \<in> set (b_Keys c)"
    "if b_CaseSensitive b \<and> b_CaseSensitive c then x = y else to_lower x = to_lower y"
    by (auto simp: may_clash_def list_ex_iff)
  let ?k = "if b_CaseSensitive b then x else y"
  from * have "Matches b ?k" "Matches c ?k"
    unfolding Matches_iff by (cases "b_CaseSensitive b"; cases "b_CaseSensitive c"; force)+
  then show ?thesis by blast
qed

fun clash_free :: "Binding list \<Rightarrow> bool" where
  "clash_free [] = True"
| "clash_free (b # bs) = (list_all (\<lambda>c. \<not> may_clash b c) bs \<and> clash_free bs)"

text \<open>At most one of the bindings answers any key.\<close>

definition unambiguous :: "Binding list \<Rightarrow> bool" where
  "unambiguous bs \<longleftrightarrow> (\<forall>k. length (filter (\<lambda>b. Matches b k) bs) \<le> 1)"

lemma clash_free_unambiguous: "clash_free bs \<Longrightarrow> unambiguous bs"
proof (induction bs)
  case (Cons b bs)
  have "length (filter (\<lambda>b. Matches b k) (b # bs)) \<le> 1" for k
  proof (cases "Matches b k")
    case True
    with Cons.prems clash_matches have "filter (\<lambda>b. Matches b k) bs = []"
      by (fastforce simp: filter_empty_conv list_all_iff)
    then show ?thesis by simp
  next
    case False
    with Cons show ?thesis by (simp add: unambiguous_def)
  qed
  then show ?case by (simp add: unambiguous_def)
qed (simp add: unambiguous_def)

subsection \<open>What the help shows\<close>

lemma displayed_keys_set:
  "shown_id cs ` set (displayed_keys cs seen ks) =
     {shown_id cs (DisplayKey key) |key. key \<in> set ks \<and> key \<noteq> []} - set seen"
proof (induction ks arbitrary: seen)
  case (Cons key ks)
  then show ?case by (simp add: Let_def image_insert) blast
qed simp

lemma displayed_keys_distinct: "distinct (map (shown_id cs) (displayed_keys cs seen ks))"
proof (induction ks arbitrary: seen)
  case (Cons key ks)
  then show ?case by (simp add: Let_def displayed_keys_set)
qed simp

lemma combined_keys_set:
  "set (combined_keys seen bs) =
     {shortKey b |b. b \<in> set bs \<and> \<not> b_Disabled b \<and> shortKey b \<noteq> []} - set seen"
proof (induction bs arbitrary: seen)
  case (Cons b bs)
  then show ?case by (simp add: Let_def) blast
qed simp

lemma combined_keys_distinct: "distinct (combined_keys seen bs)"
proof (induction bs arbitrary: seen)
  case (Cons b bs)
  then show ?case by (simp add: Let_def combined_keys_set)
qed simp

end
