(* ===== verification/KeyDefaults.thy ===== *)
theory KeyDefaults
  imports KeyBindings
begin

text \<open>
  \<open>keys/keys.go\<close> and \<open>Default\<close> of \<open>keys/defaults.go\<close>: the key map of the program, one record for every
  component that reads keys, and the bindings each field has when the program starts. The places of
  the interface that consult a key map do so in a fixed order; those orders are listed here, and the
  properties say which arm of each can fire for a key that is pressed.
\<close>

subsection \<open>The key map\<close>

record GlobalKeys =
  global_Quit :: Binding global_ForceQuit :: Binding global_DumpGoroutines :: Binding
  global_Help :: Binding global_Back :: Binding global_BackFromInput :: Binding

record NavKeys =
  nav_Up :: Binding nav_Down :: Binding nav_Left :: Binding nav_Right :: Binding nav_PageUp :: Binding
  nav_PageDown :: Binding nav_Top :: Binding nav_Bottom :: Binding nav_NextTab :: Binding
  nav_PrevTab :: Binding

record ConfirmKeys =
  confirm_Accept :: Binding

record NoticeKeys =
  notice_Continue :: Binding

record DialogKeys =
  dialog_Left :: Binding dialog_Right :: Binding dialog_Cancel :: Binding

record FormKeys =
  form_Save :: Binding form_Cancel :: Binding

record MenuKeys =
  menu_Up :: Binding menu_Down :: Binding menu_Select :: Binding

record ScanKeys =
  scan_TogglePause :: Binding scan_ToggleLogs :: Binding scan_Cancel :: Binding

record LogViewKeys =
  logView_Up :: Binding logView_Down :: Binding logView_PageUp :: Binding logView_PageDown :: Binding
  logView_HalfPageUp :: Binding logView_HalfPageDown :: Binding logView_Top :: Binding
  logView_Bottom :: Binding

record InspectorKeys =
  inspector_Up :: Binding inspector_Down :: Binding inspector_NextTab :: Binding
  inspector_PrevTab :: Binding inspector_Edit :: Binding inspector_Description :: Binding

record TableKeys =
  table_Up :: Binding table_Down :: Binding table_PageUp :: Binding table_PageDown :: Binding
  table_HalfPageUp :: Binding table_HalfPageDown :: Binding table_Top :: Binding table_Bottom :: Binding
  table_ChangeSort :: Binding table_ToggleOrder :: Binding table_Filter :: Binding

record CrudKeys =
  crud_Select :: Binding crud_Add :: Binding crud_Delete :: Binding crud_Rename :: Binding

record FilterKeys =
  filter_Backspace :: Binding filter_Clear :: Binding filter_Accept :: Binding

record TextInputKeys =
  textInput_Submit :: Binding textInput_CharacterForward :: Binding textInput_CharacterBackward :: Binding
  textInput_WordForward :: Binding textInput_WordBackward :: Binding
  textInput_DeleteWordBackward :: Binding textInput_DeleteWordForward :: Binding
  textInput_DeleteAfterCursor :: Binding textInput_DeleteBeforeCursor :: Binding
  textInput_DeleteCharacterBackward :: Binding textInput_DeleteCharacterForward :: Binding
  textInput_LineStart :: Binding textInput_LineEnd :: Binding textInput_Paste :: Binding

record TextAreaKeys =
  textArea_Submit :: Binding textArea_NewLine :: Binding textArea_CharacterForward :: Binding
  textArea_CharacterBackward :: Binding textArea_WordForward :: Binding textArea_WordBackward :: Binding
  textArea_LineNext :: Binding textArea_LinePrevious :: Binding textArea_DeleteWordBackward :: Binding
  textArea_DeleteWordForward :: Binding textArea_DeleteAfterCursor :: Binding
  textArea_DeleteBeforeCursor :: Binding textArea_InsertNewline :: Binding
  textArea_DeleteCharacterBackward :: Binding textArea_DeleteCharacterForward :: Binding
  textArea_LineStart :: Binding textArea_LineEnd :: Binding textArea_PageUp :: Binding
  textArea_PageDown :: Binding textArea_Paste :: Binding textArea_InputBegin :: Binding
  textArea_InputEnd :: Binding textArea_CapitalizeWordForward :: Binding
  textArea_LowercaseWordForward :: Binding textArea_UppercaseWordForward :: Binding
  textArea_TransposeCharacterBackward :: Binding textArea_SelectCharacterForward :: Binding
  textArea_SelectCharacterBackward :: Binding textArea_SelectWordForward :: Binding
  textArea_SelectWordBackward :: Binding textArea_SelectLineUp :: Binding
  textArea_SelectLineDown :: Binding textArea_SelectAll :: Binding textArea_CopySelection :: Binding

record SelectInputKeys =
  selectInput_Submit :: Binding selectInput_Prev :: Binding selectInput_Next :: Binding
  selectInput_Up :: Binding selectInput_Down :: Binding selectInput_HalfPageUp :: Binding
  selectInput_HalfPageDown :: Binding selectInput_GotoTop :: Binding selectInput_GotoBottom :: Binding
  selectInput_Left :: Binding selectInput_Right :: Binding selectInput_Filter :: Binding
  selectInput_SetFilter :: Binding selectInput_ClearFilter :: Binding

record MultiSelectInputKeys =
  multiSelect_Submit :: Binding multiSelect_Prev :: Binding multiSelect_Next :: Binding
  multiSelect_Toggle :: Binding multiSelect_Up :: Binding multiSelect_Down :: Binding
  multiSelect_HalfPageUp :: Binding multiSelect_HalfPageDown :: Binding multiSelect_GotoTop :: Binding
  multiSelect_GotoBottom :: Binding multiSelect_Filter :: Binding multiSelect_SetFilter :: Binding
  multiSelect_ClearFilter :: Binding multiSelect_SelectAll :: Binding multiSelect_SelectNone :: Binding

record ToggleInputKeys =
  toggle_Prev :: Binding toggle_Next :: Binding toggle_Submit :: Binding toggle_Toggle :: Binding
  toggle_Accept :: Binding toggle_Reject :: Binding

record PickerKeys =
  picker_Up :: Binding picker_Down :: Binding picker_PageUp :: Binding picker_PageDown :: Binding
  picker_GotoTop :: Binding picker_GotoLast :: Binding picker_Back :: Binding picker_Open :: Binding
  picker_Select :: Binding

record TabKeys =
  tab_Next :: Binding tab_Prev :: Binding

record Keys =
  k_Global :: GlobalKeys
  k_Nav :: NavKeys
  k_Table :: TableKeys
  k_Crud :: CrudKeys
  k_Filter :: FilterKeys
  k_Confirm :: ConfirmKeys
  k_Notice :: NoticeKeys
  k_Dialog :: DialogKeys
  k_Menu :: MenuKeys
  k_Form :: FormKeys
  k_Scan :: ScanKeys
  k_LogView :: LogViewKeys
  k_Inspector :: InspectorKeys
  k_Tab :: TabKeys
  k_TextInput :: TextInputKeys
  k_TextArea :: TextAreaKeys
  k_SelectInput :: SelectInputKeys
  k_MultiSelectInput :: MultiSelectInputKeys
  k_ToggleInput :: ToggleInputKeys
  k_Picker :: PickerKeys

subsection \<open>The bindings at the start\<close>

named_theorems key_defaults "the default key map"

definition default_global :: GlobalKeys where [key_defaults]:
  "default_global =
     \<lparr>global_Quit = no_binding\<lparr>b_Action := ActionQuit, b_Keys := [''q''],
        b_HelpText := ''quit'', b_CaseSensitive := False\<rparr>,
      global_ForceQuit = no_binding\<lparr>b_Action := ActionForceQuit, b_Keys := [''ctrl+c''],
        b_HelpText := ''quit'', b_CaseSensitive := True\<rparr>,
      global_DumpGoroutines = no_binding\<lparr>b_Action := ActionDumpGoroutines, b_Keys := [''ctrl+t''],
        b_HelpText := ''dump Goroutines'', b_CaseSensitive := True\<rparr>,
      global_Help = no_binding\<lparr>b_Action := ActionHelp, b_Keys := [''?''],
        b_HelpText := ''show all keys'', b_ShortText := ''more''\<rparr>,
      global_Back = no_binding\<lparr>b_Action := ActionBack, b_Keys := [''esc'', ''b''],
        b_HelpText := ''go back'', b_ShortText := ''back''\<rparr>,
      global_BackFromInput = no_binding\<lparr>b_Action := ActionBackFromInput, b_Keys := [''esc''],
        b_HelpText := ''back'', b_CaseSensitive := False\<rparr>\<rparr>"

definition default_nav :: NavKeys where [key_defaults]:
  "default_nav =
     \<lparr>nav_Up = no_binding\<lparr>b_Action := ActionUp, b_Keys := [''up'', ''k''],
        b_HelpText := ''move up'', b_CaseSensitive := False\<rparr>,
      nav_Down = no_binding\<lparr>b_Action := ActionDown, b_Keys := [''down'', ''j''],
        b_HelpText := ''move down'', b_CaseSensitive := False\<rparr>,
      nav_Left = no_binding\<lparr>b_Action := ActionLeft, b_Keys := [''left'', ''h''],
        b_HelpText := ''move left'', b_CaseSensitive := False\<rparr>,
      nav_Right = no_binding\<lparr>b_Action := ActionRight, b_Keys := [''right'', ''l''],
        b_HelpText := ''move right'', b_CaseSensitive := False\<rparr>,
      nav_PageUp = no_binding\<lparr>b_Action := ActionPageUp, b_Keys := [''pgup'', ''ctrl+u''],
        b_HelpText := ''page up'', b_Hidden := True, b_CaseSensitive := False\<rparr>,
      nav_PageDown = no_binding\<lparr>b_Action := ActionPageDown, b_Keys := [''pgdown'', ''ctrl+d''],
        b_HelpText := ''page down'', b_Hidden := True, b_CaseSensitive := False\<rparr>,
      nav_Top = no_binding\<lparr>b_Action := ActionTop, b_Keys := [''g''], b_HelpText := ''go to top'',
        b_Hidden := True, b_CaseSensitive := True\<rparr>,
      nav_Bottom = no_binding\<lparr>b_Action := ActionBottom, b_Keys := [''G''],
        b_HelpText := ''go to bottom'', b_Hidden := True, b_CaseSensitive := True\<rparr>,
      nav_NextTab = no_binding\<lparr>b_Action := ActionNextTab, b_Keys := [''tab''],
        b_HelpText := ''next tab''\<rparr>,
      nav_PrevTab = no_binding\<lparr>b_Action := ActionPrevTab, b_Keys := [''shift+tab''],
        b_HelpText := ''previous tab''\<rparr>\<rparr>"

definition default_table :: TableKeys where [key_defaults]:
  "default_table =
     \<lparr>table_Up = nav_Up default_nav,
      table_Down = nav_Down default_nav,
      table_PageUp = nav_PageUp default_nav,
      table_PageDown = nav_PageDown default_nav,
      table_HalfPageUp = no_binding\<lparr>b_Action := ActionTableHalfPageUp, b_Keys := [''u''],
        b_HelpText := ([CHR 0xC2, CHR 0xBD] @ '' page up'')\<rparr>,
      table_HalfPageDown = no_binding\<lparr>b_Action := ActionTableHalfPageDown, b_Keys := [''d''],
        b_HelpText := ([CHR 0xC2, CHR 0xBD] @ '' page down'')\<rparr>,
      table_Top = nav_Top default_nav,
      table_Bottom = nav_Bottom default_nav,
      table_ChangeSort = no_binding\<lparr>b_Action := ActionTableSort, b_Keys := [''s''],
        b_HelpText := ''sort''\<rparr>,
      table_ToggleOrder = no_binding\<lparr>b_Action := ActionTableOrder, b_Keys := [''o''],
        b_HelpText := ''order''\<rparr>,
      table_Filter = no_binding\<lparr>b_Action := ActionTableFilter, b_Keys := [''/''],
        b_HelpText := ''filter''\<rparr>\<rparr>"

definition default_textInput :: TextInputKeys where [key_defaults]:
  "default_textInput =
     \<lparr>textInput_Submit = no_binding\<lparr>b_Action := ActionTextInputSubmit, b_Keys := [''enter''],
        b_HelpText := ''submit''\<rparr>,
      textInput_CharacterForward = no_binding\<lparr>b_Action := ActionTextInputCharacterForward,
        b_Keys := [''right'', ''ctrl+f''], b_HelpText := ''cursor right''\<rparr>,
      textInput_CharacterBackward = no_binding\<lparr>b_Action := ActionTextInputCharacterBackward,
        b_Keys := [''left'', ''ctrl+b''], b_HelpText := ''cursor left''\<rparr>,
      textInput_WordForward = no_binding\<lparr>b_Action := ActionTextInputWordForward,
        b_Keys := [''alt+right'', ''ctrl+right'', ''alt+f''], b_HelpText := ''word right''\<rparr>,
      textInput_WordBackward = no_binding\<lparr>b_Action := ActionTextInputWordBackward,
        b_Keys := [''alt+left'', ''ctrl+left'', ''alt+b''], b_HelpText := ''word left''\<rparr>,
      textInput_DeleteWordBackward = no_binding\<lparr>b_Action := ActionTextInputDeleteWordBackward,
        b_Keys := [''alt+backspace'', ''ctrl+w'', ''ctrl+backspace''],
        b_HelpText := ''delete word back''\<rparr>,
      textInput_DeleteWordForward = no_binding\<lparr>b_Action := ActionTextInputDeleteWordForward,
        b_Keys := [''alt+delete'', ''alt+d'', ''ctrl+delete''], b_HelpText := ''delete word fwd''\<rparr>,
      textInput_DeleteAfterCursor = no_binding\<lparr>b_Action := ActionTextInputDeleteAfterCursor,
        b_Keys := [''ctrl+k''], b_HelpText := ''delete to end''\<rparr>,
      textInput_DeleteBeforeCursor = no_binding\<lparr>b_Action := ActionTextInputDeleteBeforeCursor,
        b_Keys := [''ctrl+u''], b_HelpText := ''delete to start''\<rparr>,
      textInput_DeleteCharacterBackward = no_binding\<lparr>b_Action := ActionTextInputDeleteCharacterBackward, b_Keys := [''backspace'', ''ctrl+h''], b_HelpText := ''backspace''\<rparr>,
      textInput_DeleteCharacterForward = no_binding\<lparr>b_Action := ActionTextInputDeleteCharacterForward,
        b_Keys := [''delete'', ''ctrl+d''], b_HelpText := ''delete''\<rparr>,
      textInput_LineStart = no_binding\<lparr>b_Action := ActionTextInputLineStart,
        b_Keys := [''home'', ''ctrl+a''], b_HelpText := ''line start''\<rparr>,
      textInput_LineEnd = no_binding\<lparr>b_Action := ActionTextInputLineEnd,
        b_Keys := [''end'', ''ctrl+e''], b_HelpText := ''line end''\<rparr>,
      textInput_Paste = no_binding\<lparr>b_Action := ActionTextInputPaste, b_Keys := [''ctrl+v''],
        b_HelpText := ''paste''\<rparr>\<rparr>"

definition default_textArea :: TextAreaKeys where [key_defaults]:
  "default_textArea =
     \<lparr>textArea_Submit = no_binding\<lparr>b_Action := ActionTextAreaSubmit, b_Keys := [''enter''],
        b_HelpText := ''submit''\<rparr>,
      textArea_NewLine = no_binding\<lparr>b_Action := ActionTextAreaNewLine,
        b_Keys := [''shift+enter'', ''ctrl+m''], b_HelpText := ''newline''\<rparr>,
      textArea_CharacterForward = no_binding\<lparr>b_Action := ActionTextAreaCharacterForward,
        b_Keys := [''right'', ''ctrl+f''], b_HelpText := ''cursor right''\<rparr>,
      textArea_CharacterBackward = no_binding\<lparr>b_Action := ActionTextAreaCharacterBackward,
        b_Keys := [''left'', ''ctrl+b''], b_HelpText := ''cursor left''\<rparr>,
      textArea_WordForward = no_binding\<lparr>b_Action := ActionTextAreaWordForward,
        b_Keys := [''alt+right'', ''ctrl+right'', ''alt+f''], b_HelpText := ''word right''\<rparr>,
      textArea_WordBackward = no_binding\<lparr>b_Action := ActionTextAreaWordBackward,
        b_Keys := [''alt+left'', ''ctrl+left'', ''alt+b''], b_HelpText := ''word left''\<rparr>,
      textArea_LineNext = no_binding\<lparr>b_Action := ActionTextAreaLineNext,
        b_Keys := [''down'', ''ctrl+n''], b_HelpText := ''line down''\<rparr>,
      textArea_LinePrevious = no_binding\<lparr>b_Action := ActionTextAreaLinePrevious,
        b_Keys := [''up'', ''ctrl+p''], b_HelpText := ''line up''\<rparr>,
      textArea_DeleteWordBackward = no_binding\<lparr>b_Action := ActionTextAreaDeleteWordBackward,
        b_Keys := [''alt+backspace'', ''ctrl+w'', ''ctrl+backspace''],
        b_HelpText := ''delete word back''\<rparr>,
      textArea_DeleteWordForward = no_binding\<lparr>b_Action := ActionTextAreaDeleteWordForward,
        b_Keys := [''alt+delete'', ''alt+d'', ''ctrl+delete''], b_HelpText := ''delete word fwd''\<rparr>,
      textArea_DeleteAfterCursor = no_binding\<lparr>b_Action := ActionTextAreaDeleteAfterCursor,
        b_Keys := [''ctrl+k''], b_HelpText := ''delete to end''\<rparr>,
      textArea_DeleteBeforeCursor = no_binding\<lparr>b_Action := ActionTextAreaDeleteBeforeCursor,
        b_Keys := [''ctrl+u''], b_HelpText := ''delete to start''\<rparr>,
      textArea_InsertNewline = no_binding\<lparr>b_Action := ActionTextAreaInsertNewline,
        b_Keys := [''shift+enter'', ''ctrl+m''], b_HelpText := ''newline''\<rparr>,
      textArea_DeleteCharacterBackward = no_binding\<lparr>b_Action := ActionTextAreaDeleteCharacterBackward,
        b_Keys := [''backspace'', ''ctrl+h''], b_HelpText := ''backspace''\<rparr>,
      textArea_DeleteCharacterForward = no_binding\<lparr>b_Action := ActionTextAreaDeleteCharacterForward,
        b_Keys := [''delete'', ''ctrl+d''], b_HelpText := ''delete''\<rparr>,
      textArea_LineStart = no_binding\<lparr>b_Action := ActionTextAreaLineStart,
        b_Keys := [''home'', ''ctrl+a''], b_HelpText := ''line start''\<rparr>,
      textArea_LineEnd = no_binding\<lparr>b_Action := ActionTextAreaLineEnd,
        b_Keys := [''end'', ''ctrl+e''], b_HelpText := ''line end''\<rparr>,
      textArea_PageUp = no_binding\<lparr>b_Action := ActionTextAreaPageUp, b_Keys := [''pgup''],
        b_HelpText := ''page up''\<rparr>,
      textArea_PageDown = no_binding\<lparr>b_Action := ActionTextAreaPageDown, b_Keys := [''pgdown''],
        b_HelpText := ''page down''\<rparr>,
      textArea_Paste = no_binding\<lparr>b_Action := ActionTextAreaPaste, b_Keys := [''ctrl+v''],
        b_HelpText := ''paste''\<rparr>,
      textArea_InputBegin = no_binding\<lparr>b_Action := ActionTextAreaInputBegin,
        b_Keys := [''alt+<'', ''ctrl+home''], b_HelpText := ''input start''\<rparr>,
      textArea_InputEnd = no_binding\<lparr>b_Action := ActionTextAreaInputEnd,
        b_Keys := [''alt+>'', ''ctrl+end''], b_HelpText := ''input end''\<rparr>,
      textArea_CapitalizeWordForward = no_binding\<lparr>b_Action := ActionTextAreaCapitalizeWordForward,
        b_Keys := [''alt+c''], b_HelpText := ''capitalize''\<rparr>,
      textArea_LowercaseWordForward = no_binding\<lparr>b_Action := ActionTextAreaLowercaseWordForward,
        b_Keys := [''alt+l''], b_HelpText := ''lowercase''\<rparr>,
      textArea_UppercaseWordForward = no_binding\<lparr>b_Action := ActionTextAreaUppercaseWordForward,
        b_Keys := [''alt+u''], b_HelpText := ''uppercase''\<rparr>,
      textArea_TransposeCharacterBackward = no_binding\<lparr>b_Action := ActionTextAreaTransposeCharacterBackward, b_Keys := [''ctrl+t''], b_HelpText := ''transpose''\<rparr>,
      textArea_SelectCharacterForward = no_binding\<lparr>b_Action := ActionTextAreaSelectCharacterForward,
        b_Keys := [''shift+right''], b_HelpText := ''select right''\<rparr>,
      textArea_SelectCharacterBackward = no_binding\<lparr>b_Action := ActionTextAreaSelectCharacterBackward,
        b_Keys := [''shift+left''], b_HelpText := ''select left''\<rparr>,
      textArea_SelectWordForward = no_binding\<lparr>b_Action := ActionTextAreaSelectWordForward,
        b_Keys := [''ctrl+shift+right'', ''alt+shift+right'', ''alt+shift+f''],
        b_HelpText := ''select word right''\<rparr>,
      textArea_SelectWordBackward = no_binding\<lparr>b_Action := ActionTextAreaSelectWordBackward,
        b_Keys := [''ctrl+shift+left'', ''alt+shift+left'', ''alt+shift+b''],
        b_HelpText := ''select word left''\<rparr>,
      textArea_SelectLineUp = no_binding\<lparr>b_Action := ActionTextAreaSelectLineUp,
        b_Keys := [''shift+up''], b_HelpText := ''select line up''\<rparr>,
      textArea_SelectLineDown = no_binding\<lparr>b_Action := ActionTextAreaSelectLineDown,
        b_Keys := [''shift+down''], b_HelpText := ''select line down''\<rparr>,
      textArea_SelectAll = no_binding\<lparr>b_Action := ActionTextAreaSelectAll, b_Keys := [''ctrl+g''],
        b_HelpText := ''select all''\<rparr>,
      textArea_CopySelection = no_binding\<lparr>b_Action := ActionTextAreaCopySelection,
        b_Keys := [''ctrl+shift+c''], b_HelpText := ''copy''\<rparr>\<rparr>"

definition default_selectInput :: SelectInputKeys where [key_defaults]:
  "default_selectInput =
     \<lparr>selectInput_Submit = no_binding\<lparr>b_Action := ActionSelectInputSubmit,
        b_Keys := [''enter''], b_HelpText := ''submit''\<rparr>,
      selectInput_Prev = no_binding\<lparr>b_Action := ActionSelectInputPrev, b_Keys := [''shift+tab''],
        b_HelpText := ''back''\<rparr>,
      selectInput_Next = no_binding\<lparr>b_Action := ActionSelectInputNext, b_Keys := [''tab''],
        b_HelpText := ''select''\<rparr>,
      selectInput_Up = no_binding\<lparr>b_Action := ActionSelectInputUp,
        b_Keys := [''up'', ''k'', ''ctrl+k'', ''ctrl+p''], b_HelpText := ''up''\<rparr>,
      selectInput_Down = no_binding\<lparr>b_Action := ActionSelectInputDown,
        b_Keys := [''down'', ''j'', ''ctrl+j'', ''ctrl+n''], b_HelpText := ''down''\<rparr>,
      selectInput_HalfPageUp = no_binding\<lparr>b_Action := ActionSelectInputHalfPageUp,
        b_Keys := [''ctrl+u''], b_HelpText := ([CHR 0xC2, CHR 0xBD] @ '' up'')\<rparr>,
      selectInput_HalfPageDown = no_binding\<lparr>b_Action := ActionSelectInputHalfPageDown,
        b_Keys := [''ctrl+d''], b_HelpText := ([CHR 0xC2, CHR 0xBD] @ '' down'')\<rparr>,
      selectInput_GotoTop = no_binding\<lparr>b_Action := ActionSelectInputGotoTop,
        b_Keys := [''home'', ''g''], b_HelpText := ''top''\<rparr>,
      selectInput_GotoBottom = no_binding\<lparr>b_Action := ActionSelectInputGotoBottom,
        b_Keys := [''end'', ''G''], b_HelpText := ''bottom''\<rparr>,
      selectInput_Left = no_binding\<lparr>b_Action := ActionSelectInputLeft, b_Keys := [''h'', ''left''],
        b_HelpText := ''left''\<rparr>,
      selectInput_Right = no_binding\<lparr>b_Action := ActionSelectInputRight, b_Keys := [''l'', ''right''],
        b_HelpText := ''right''\<rparr>,
      selectInput_Filter = no_binding\<lparr>b_Action := ActionSelectInputFilter, b_Keys := [''/''],
        b_HelpText := ''filter''\<rparr>,
      selectInput_SetFilter = no_binding\<lparr>b_Action := ActionSelectInputSetFilter, b_Keys := [''esc''],
        b_HelpText := ''set filter''\<rparr>,
      selectInput_ClearFilter = no_binding\<lparr>b_Action := ActionSelectInputClearFilter,
        b_Keys := [''esc''], b_HelpText := ''clear filter''\<rparr>\<rparr>"

definition default_multiSelectInput :: MultiSelectInputKeys where [key_defaults]:
  "default_multiSelectInput =
     \<lparr>multiSelect_Submit = no_binding\<lparr>b_Action := ActionMultiSelectSubmit,
        b_Keys := [''enter''], b_HelpText := ''submit''\<rparr>,
      multiSelect_Prev = no_binding\<lparr>b_Action := ActionMultiSelectPrev, b_Keys := [''shift+tab''],
        b_HelpText := ''back''\<rparr>,
      multiSelect_Next = no_binding\<lparr>b_Action := ActionMultiSelectNext, b_Keys := [''enter'', ''tab''],
        b_HelpText := ''confirm''\<rparr>,
      multiSelect_Toggle = no_binding\<lparr>b_Action := ActionMultiSelectToggle,
        b_Keys := [''space'', ''x''], b_HelpText := ''toggle''\<rparr>,
      multiSelect_Up = no_binding\<lparr>b_Action := ActionMultiSelectUp,
        b_Keys := [''up'', ''k'', ''ctrl+p''], b_HelpText := ''up''\<rparr>,
      multiSelect_Down = no_binding\<lparr>b_Action := ActionMultiSelectDown,
        b_Keys := [''down'', ''j'', ''ctrl+n''], b_HelpText := ''down''\<rparr>,
      multiSelect_HalfPageUp = no_binding\<lparr>b_Action := ActionMultiSelectHalfPageUp,
        b_Keys := [''ctrl+u''], b_HelpText := ([CHR 0xC2, CHR 0xBD] @ '' up'')\<rparr>,
      multiSelect_HalfPageDown = no_binding\<lparr>b_Action := ActionMultiSelectHalfPageDown,
        b_Keys := [''ctrl+d''], b_HelpText := ([CHR 0xC2, CHR 0xBD] @ '' down'')\<rparr>,
      multiSelect_GotoTop = no_binding\<lparr>b_Action := ActionMultiSelectGotoTop,
        b_Keys := [''home'', ''g''], b_HelpText := ''top''\<rparr>,
      multiSelect_GotoBottom = no_binding\<lparr>b_Action := ActionMultiSelectGotoBottom,
        b_Keys := [''end'', ''G''], b_HelpText := ''bottom''\<rparr>,
      multiSelect_Filter = no_binding\<lparr>b_Action := ActionMultiSelectFilter, b_Keys := [''/''],
        b_HelpText := ''filter''\<rparr>,
      multiSelect_SetFilter = no_binding\<lparr>b_Action := ActionMultiSelectSetFilter,
        b_Keys := [''enter'', ''esc''], b_HelpText := ''set filter''\<rparr>,
      multiSelect_ClearFilter = no_binding\<lparr>b_Action := ActionMultiSelectClearFilter,
        b_Keys := [''esc''], b_HelpText := ''clear filter''\<rparr>,
      multiSelect_SelectAll = no_binding\<lparr>b_Action := ActionMultiSelectSelectAll,
        b_Keys := [''ctrl+a''], b_HelpText := ''all''\<rparr>,
      multiSelect_SelectNone = no_binding\<lparr>b_Action := ActionMultiSelectSelectNone,
        b_Keys := [''ctrl+a''], b_HelpText := ''none''\<rparr>\<rparr>"

definition default_toggleInput :: ToggleInputKeys where [key_defaults]:
  "default_toggleInput =
     \<lparr>toggle_Prev = no_binding\<lparr>b_Action := ActionToggleInputPrev, b_Keys := [''shift+tab''],
        b_HelpText := ''back''\<rparr>,
      toggle_Next = no_binding\<lparr>b_Action := ActionToggleInputNext, b_Keys := [''enter'', ''tab''],
        b_HelpText := ''next''\<rparr>,
      toggle_Submit = no_binding\<lparr>b_Action := ActionToggleInputSubmit, b_Keys := [''enter''],
        b_HelpText := ''submit''\<rparr>,
      toggle_Toggle = no_binding\<lparr>b_Action := ActionToggleInputToggle,
        b_Keys := [''right'', ''left'', ''h'', ''l''], b_HelpText := ''toggle''\<rparr>,
      toggle_Accept = no_binding\<lparr>b_Action := ActionToggleInputAccept, b_Keys := [''y'', ''Y''],
        b_HelpText := ''Yes''\<rparr>,
      toggle_Reject = no_binding\<lparr>b_Action := ActionToggleInputReject, b_Keys := [''n'', ''N''],
        b_HelpText := ''No''\<rparr>\<rparr>"

definition default_picker :: PickerKeys where [key_defaults]:
  "default_picker =
     \<lparr>picker_Up = no_binding\<lparr>b_Action := ActionPickerUp, b_Keys := [''up'', ''k'', ''ctrl+p''],
        b_HelpText := ''move up''\<rparr>,
      picker_Down = no_binding\<lparr>b_Action := ActionPickerDown, b_Keys := [''down'', ''j'', ''ctrl+n''],
        b_HelpText := ''move down''\<rparr>,
      picker_PageUp = no_binding\<lparr>b_Action := ActionPickerPageUp, b_Keys := [''pgup'', ''K''],
        b_HelpText := ''page up''\<rparr>,
      picker_PageDown = no_binding\<lparr>b_Action := ActionPickerPageDown, b_Keys := [''pgdown'', ''J''],
        b_HelpText := ''page down''\<rparr>,
      picker_GotoTop = no_binding\<lparr>b_Action := ActionPickerGotoTop, b_Keys := [''g''],
        b_HelpText := ''top'', b_CaseSensitive := True\<rparr>,
      picker_GotoLast = no_binding\<lparr>b_Action := ActionPickerGotoLast, b_Keys := [''G''],
        b_HelpText := ''last'', b_CaseSensitive := True\<rparr>,
      picker_Back = no_binding\<lparr>b_Action := ActionPickerBack,
        b_Keys := [''esc'', ''h'', ''backspace'', ''left''], b_HelpText := ''back''\<rparr>,
      picker_Open = no_binding\<lparr>b_Action := ActionPickerOpen, b_Keys := [''enter'', ''l'', ''right''],
        b_HelpText := ''open''\<rparr>,
      picker_Select = no_binding\<lparr>b_Action := ActionPickerSelect, b_Keys := [''enter''],
        b_HelpText := ''select''\<rparr>\<rparr>"

definition default_logView :: LogViewKeys where [key_defaults]:
  "default_logView =
     \<lparr>logView_Up = nav_Up default_nav,
      logView_Down = nav_Down default_nav,
      logView_PageUp = nav_PageUp default_nav,
      logView_PageDown = nav_PageDown default_nav,
      logView_HalfPageUp = no_binding\<lparr>b_Action := ActionLogViewHalfPageUp, b_Keys := [''u''],
        b_HelpText := ([CHR 0xC2, CHR 0xBD] @ '' page up''), b_Hidden := True\<rparr>,
      logView_HalfPageDown = no_binding\<lparr>b_Action := ActionLogViewHalfPageDown, b_Keys := [''d''],
        b_HelpText := ([CHR 0xC2, CHR 0xBD] @ '' page down''), b_Hidden := True\<rparr>,
      logView_Top = nav_Top default_nav,
      logView_Bottom = nav_Bottom default_nav\<rparr>"

definition default_tab :: TabKeys where [key_defaults]:
  "default_tab =
     \<lparr>tab_Next = nav_NextTab default_nav,
      tab_Prev = nav_PrevTab default_nav\<rparr>"

definition default_inspector :: InspectorKeys where [key_defaults]:
  "default_inspector =
     \<lparr>inspector_Up = nav_Up default_nav,
      inspector_Down = nav_Down default_nav,
      inspector_NextTab = nav_NextTab default_nav,
      inspector_PrevTab = nav_PrevTab default_nav,
      inspector_Edit = no_binding\<lparr>b_Action := ActionInspectorEdit, b_Keys := [''enter''],
        b_HelpText := ''edit selected field'', b_ShortText := ''edit''\<rparr>,
      inspector_Description = no_binding\<lparr>b_Action := ActionInspectorDescription, b_Keys := [''d''],
        b_HelpText := ''show description'', b_ShortText := ''description''\<rparr>\<rparr>"

definition default_confirm :: ConfirmKeys where [key_defaults]:
  "default_confirm =
     \<lparr>confirm_Accept = no_binding\<lparr>b_Action := ActionAccept, b_Keys := [''enter'', ''y''],
        b_HelpText := ''confirm'', b_CaseSensitive := False\<rparr>\<rparr>"

definition default_notice :: NoticeKeys where [key_defaults]:
  "default_notice =
     \<lparr>notice_Continue = no_binding\<lparr>b_Action := ActionAccept, b_Keys := [''enter''],
        b_HelpText := ''continue''\<rparr>\<rparr>"

definition default_crud :: CrudKeys where [key_defaults]:
  "default_crud =
     \<lparr>crud_Select = no_binding\<lparr>b_Action := ActionCrudSelect, b_Keys := [''enter''],
        b_HelpText := ''select'', b_ShortText := ''select''\<rparr>,
      crud_Add = no_binding\<lparr>b_Action := ActionCrudAdd, b_Keys := [''a''], b_HelpText := ''create'',
        b_ShortText := ''add''\<rparr>,
      crud_Delete = no_binding\<lparr>b_Action := ActionCrudDelete, b_Keys := [''x''],
        b_HelpText := ''delete'', b_ShortText := ''delete''\<rparr>,
      crud_Rename = no_binding\<lparr>b_Action := ActionCrudRename, b_Keys := [''r''],
        b_HelpText := ''rename'', b_ShortText := ''rename''\<rparr>\<rparr>"

definition default_filter :: FilterKeys where [key_defaults]:
  "default_filter =
     \<lparr>filter_Backspace = no_binding\<lparr>b_Keys := [''backspace''],
        b_HelpText := ''delete character'', b_Hidden := True\<rparr>,
      filter_Clear = no_binding\<lparr>b_Action := ActionBack, b_Keys := [''esc''],
        b_HelpText := ''clear filter''\<rparr>,
      filter_Accept = no_binding\<lparr>b_Action := ActionAccept, b_Keys := [''enter''],
        b_HelpText := ''apply filter''\<rparr>\<rparr>"

definition default_scan :: ScanKeys where [key_defaults]:
  "default_scan =
     \<lparr>scan_TogglePause = no_binding\<lparr>b_Action := ActionScanPause, b_Keys := [''p'', ''space''],
        b_HelpText := ''pause / resume scan'', b_ShortText := ''pause'', b_CaseSensitive := True\<rparr>,
      scan_ToggleLogs = no_binding\<lparr>b_Action := ActionScanLogs, b_Keys := [''l''],
        b_HelpText := ''show logs'', b_ShortText := ''logs'', b_CaseSensitive := True\<rparr>,
      scan_Cancel = no_binding\<lparr>b_Action := ActionScanCancel, b_Keys := [''esc'', ''b'', ''q''],
        b_HelpText := ''cancel scan'', b_ShortText := ''cancel'', b_CaseSensitive := True\<rparr>\<rparr>"

definition newMenuKeys :: "NavKeys \<Rightarrow> Binding \<Rightarrow> MenuKeys" where [key_defaults]:
  "newMenuKeys nav sel = \<lparr>menu_Up = nav_Up nav, menu_Down = nav_Down nav, menu_Select = sel\<rparr>"

definition newDialogKeys :: "NavKeys \<Rightarrow> Binding \<Rightarrow> DialogKeys" where [key_defaults]:
  "newDialogKeys nav cancel =
     \<lparr>dialog_Left = nav_Left nav, dialog_Right = nav_Right nav, dialog_Cancel = cancel\<rparr>"

definition newFormKeys :: "GlobalKeys \<Rightarrow> Binding \<Rightarrow> FormKeys" where [key_defaults]:
  "newFormKeys gl save =
     \<lparr>form_Save = save,
      form_Cancel = no_binding\<lparr>b_Action := ActionFormCancel,
        b_Keys := b_Keys (global_Quit gl) @ b_Keys (global_Back gl), b_HelpText := ''cancel'',
        b_ShortText := ''cancel'', b_CaseSensitive := True\<rparr>\<rparr>"

definition Default :: Keys where [key_defaults]:
  "Default =
     \<lparr>k_Global = default_global,
      k_Nav = default_nav,
      k_Table = default_table,
      k_Crud = default_crud,
      k_Filter = default_filter,
      k_Confirm = default_confirm,
      k_Notice = default_notice,
      k_Dialog = newDialogKeys default_nav (no_binding\<lparr>b_Action := ActionDialogCancel,
        b_Keys := [''esc''], b_HelpText := ''close dialog'', b_ShortText := ''close''\<rparr>),
      k_Menu = newMenuKeys default_nav (no_binding\<lparr>b_Action := ActionMenuSelect,
        b_Keys := [''enter''], b_HelpText := ''select item'', b_ShortText := ''select''\<rparr>),
      k_Form = newFormKeys default_global (no_binding\<lparr>b_Action := ActionFormSave, b_Keys := [''s''],
        b_HelpText := ''save'', b_CaseSensitive := False\<rparr>),
      k_Scan = default_scan,
      k_LogView = default_logView,
      k_Inspector = default_inspector,
      k_Tab = default_tab,
      k_TextInput = default_textInput,
      k_TextArea = default_textArea,
      k_SelectInput = default_selectInput,
      k_MultiSelectInput = default_multiSelectInput,
      k_ToggleInput = default_toggleInput,
      k_Picker = default_picker\<rparr>"

subsection \<open>Who reads which bindings, in which order\<close>

text \<open>
  The bindings that a screen tries one after another for a pressed key: the table
  (\<open>handleKey\<close> of \<open>table/update.go\<close>), a list of files (\<open>handleAction\<close> of \<open>crud/actions.go\<close>, and then its
  table), the screen of a running scan (\<open>scanner/update.go\<close>, then its tabs and its table), a menu, a form with its
  inspector and the tabs of that, a log, the checks at the start. A menu and a list are also below the stack of
  screens, which takes the keys that go back or quit (\<open>body/update.go\<close>).
\<close>

definition table_order :: "Keys \<Rightarrow> Binding list" where [key_defaults]:
  "table_order ks = (let t = k_Table ks in
     [table_Up t, table_Down t, table_PageUp t, table_PageDown t, table_HalfPageUp t, table_HalfPageDown t,
      table_ChangeSort t, table_ToggleOrder t, table_Filter t, filter_Clear (k_Filter ks)])"

definition filter_order :: "Keys \<Rightarrow> Binding list" where [key_defaults]:
  "filter_order ks = [filter_Clear (k_Filter ks), filter_Accept (k_Filter ks)]"

definition crud_order :: "Keys \<Rightarrow> Binding list" where [key_defaults]:
  "crud_order ks = (let c = k_Crud ks in [crud_Select c, crud_Add c, crud_Delete c, crud_Rename c])"

definition tab_order :: "Keys \<Rightarrow> Binding list" where [key_defaults]:
  "tab_order ks = [tab_Next (k_Tab ks), tab_Prev (k_Tab ks)]"

definition scan_order :: "Keys \<Rightarrow> Binding list" where [key_defaults]:
  "scan_order ks = (let s = k_Scan ks in [scan_Cancel s, scan_TogglePause s, scan_ToggleLogs s])"

definition menu_order :: "Keys \<Rightarrow> Binding list" where [key_defaults]:
  "menu_order ks = (let m = k_Menu ks; n = k_Nav ks in
     [menu_Select m, menu_Up m, menu_Down m, nav_PageUp n, nav_PageDown n, nav_Top n, nav_Bottom n])"

definition form_order :: "Keys \<Rightarrow> Binding list" where [key_defaults]:
  "form_order ks = [form_Save (k_Form ks), form_Cancel (k_Form ks)]"

definition inspector_order :: "Keys \<Rightarrow> Binding list" where [key_defaults]:
  "inspector_order ks = [inspector_Edit (k_Inspector ks), inspector_Description (k_Inspector ks)]"

definition log_order :: "Keys \<Rightarrow> Binding list" where [key_defaults]:
  "log_order ks = [logView_Top (k_LogView ks), logView_Bottom (k_LogView ks)]"

definition startup_order :: "Keys \<Rightarrow> Binding list" where [key_defaults]:
  "startup_order ks =
     [global_Quit (k_Global ks), nav_Up (k_Nav ks), nav_Down (k_Nav ks), notice_Continue (k_Notice ks)]"

definition body_order :: "Keys \<Rightarrow> Binding list" where [key_defaults]:
  "body_order ks = [global_Back (k_Global ks), global_Quit (k_Global ks)]"

definition screen_orders :: "Keys \<Rightarrow> Binding list list" where
  "screen_orders ks =
     [body_order ks @ crud_order ks @ butlast (table_order ks), filter_order ks,
      crud_order ks @ table_order ks, scan_order ks @ tab_order ks @ butlast (table_order ks),
      body_order ks @ menu_order ks, form_order ks @ tab_order ks @ inspector_order ks,
      body_order ks @ tab_order ks @ inspector_order ks, body_order ks @ log_order ks, startup_order ks]"

lemmas eval_keys = key_defaults no_binding_def may_clash_def


end
