(* ===== verification/MenuModel.thy ===== *)
theory MenuModel
  imports KeyDefaults
begin

text \<open>
  The selection menus of the interface (\<open>components/basic/menu\<close>) and the seven menus of the program
  (\<open>components/menus\<close>): the selection and how keys move it, the size of a menu, the window of items it
  shows, and the lines of its view. A line is what it shows (an item, a gap, a marker); its colours
  and the padding to a width are left out. The region for the body and the key map are the environment.
\<close>

subsection \<open>The model\<close>

record 'a MenuItem =
  mi_icon :: string
  mi_title :: string
  mi_desc :: string
  mi_shortcut :: string
  mi_action :: 'a

definition NewMenuItem :: "string \<Rightarrow> string \<Rightarrow> string \<Rightarrow> 'a \<Rightarrow> 'a MenuItem" where
  "NewMenuItem icon title shortcut action =
     \<lparr>mi_icon = icon, mi_title = title, mi_desc = [], mi_shortcut = shortcut, mi_action = action\<rparr>"

definition WithDescription :: "'a MenuItem \<Rightarrow> string \<Rightarrow> 'a MenuItem" where
  "WithDescription i desc = i\<lparr>mi_desc := desc\<rparr>"

record menu_env =
  body_width :: int
  body_height :: int
  env_keys :: Keys

record 'a Menu =
  m_title :: string
  m_items :: "'a MenuItem list"
  m_index :: int
  m_onSelect :: "('a MenuItem \<Rightarrow> 'a) option"
  m_showIcon :: bool
  m_showShortcut :: bool
  m_showHelp :: bool
  m_showBackHint :: bool
  m_width :: int
  m_height :: int

definition new_menu :: "'a MenuItem list \<Rightarrow> string \<Rightarrow> ('a Menu \<Rightarrow> 'a Menu) list \<Rightarrow> 'a Menu" where
  "new_menu items title options =
     fold (\<lambda>option m. option m) options
       \<lparr>m_title = title, m_items = items, m_index = 0, m_onSelect = None, m_showIcon = True,
        m_showShortcut = True, m_showHelp = True, m_showBackHint = True, m_width = 0, m_height = 0\<rparr>"

definition WithIcon :: "bool \<Rightarrow> 'a Menu \<Rightarrow> 'a Menu" where "WithIcon show m = m\<lparr>m_showIcon := show\<rparr>"

definition WithShortcut :: "bool \<Rightarrow> 'a Menu \<Rightarrow> 'a Menu" where "WithShortcut show m = m\<lparr>m_showShortcut := show\<rparr>"

definition WithWidth :: "int \<Rightarrow> 'a Menu \<Rightarrow> 'a Menu" where "WithWidth w m = m\<lparr>m_width := max 1 w\<rparr>"

definition WithHeight :: "int \<Rightarrow> 'a Menu \<Rightarrow> 'a Menu" where "WithHeight h m = m\<lparr>m_height := max 1 h\<rparr>"

definition WithHelp :: "bool \<Rightarrow> 'a Menu \<Rightarrow> 'a Menu" where "WithHelp show m = m\<lparr>m_showHelp := show\<rparr>"

definition WithBackHint :: "bool \<Rightarrow> 'a Menu \<Rightarrow> 'a Menu" where "WithBackHint show m = m\<lparr>m_showBackHint := show\<rparr>"

definition SetOnSelect :: "('a MenuItem \<Rightarrow> 'a) \<Rightarrow> 'a Menu \<Rightarrow> 'a Menu" where
  "SetOnSelect fn m = m\<lparr>m_onSelect := Some fn\<rparr>"

definition GetSelected :: "'a Menu \<Rightarrow> 'a MenuItem option" where
  "GetSelected m =
     (if m_index m < 0 \<or> int (length (m_items m)) \<le> m_index m then None
      else Some (m_items m ! nat (m_index m)))"

definition SetItems :: "'a MenuItem list \<Rightarrow> 'a Menu \<Rightarrow> 'a Menu" where
  "SetItems items m =
     m\<lparr>m_items := items,
       m_index := (if int (length items) \<le> m_index m then max (int (length items) - 1) 0 else m_index m)\<rparr>"

definition hasDescriptions :: "'a Menu \<Rightarrow> bool" where
  "hasDescriptions m = list_ex (\<lambda>item. mi_desc item \<noteq> []) (m_items m)"

subsection \<open>Sizes\<close>

definition itemsThatFit :: "int \<Rightarrow> int" where "itemsThatFit ls = max ((ls + 1) div 2) 1"

definition itemsHeight :: "int \<Rightarrow> int" where "itemsHeight n = (if n = 0 then 0 else n * 2 - 1)"

definition chromeRows :: "'a Menu \<Rightarrow> int" where
  "chromeRows m = 2 + (if m_title m \<noteq> [] then 1 else 0) + (if m_showHelp m then 1 else 0)"

definition effectiveSize :: "menu_env \<Rightarrow> 'a Menu \<Rightarrow> int \<times> int" where
  "effectiveSize env m =
     (let availWidth = (if 0 < body_width env then if 0 < m_width m then m_width m else body_width env else 40);
          availHeight = (if 0 < body_height env then if 0 < m_height m then m_height m else body_height env
                         else 12);
          desiredHeight = max (chromeRows m + itemsHeight (int (length (m_items m)))) 12
      in (max (min availWidth 65) (max 15 1), min desiredHeight (min 25 availHeight)))"

definition visibleLines :: "'a Menu \<Rightarrow> int \<Rightarrow> int" where
  "visibleLines m height = max (height - chromeRows m) 1"

definition visibleItems :: "menu_env \<Rightarrow> 'a Menu \<Rightarrow> int" where
  "visibleItems env m = itemsThatFit (visibleLines m (snd (effectiveSize env m)))"

subsection \<open>Keys\<close>

definition setSelection :: "int \<Rightarrow> 'a Menu \<Rightarrow> 'a Menu" where
  "setSelection to m =
     (if m_items m = [] then m else m\<lparr>m_index := max 0 (min to (int (length (m_items m)) - 1))\<rparr>)"

text \<open>The place of the first item bound to a key.\<close>

fun shortcut_index :: "string \<Rightarrow> 'a MenuItem list \<Rightarrow> nat option" where
  "shortcut_index key [] = None"
| "shortcut_index key (item # items) =
     (if mi_shortcut item \<noteq> [] \<and> mi_shortcut item = key then Some 0
      else map_option Suc (shortcut_index key items))"

definition itemForShortcut :: "string \<Rightarrow> 'a Menu \<Rightarrow> ('a MenuItem \<times> 'a Menu) option" where
  "itemForShortcut key m =
     map_option (\<lambda>i. (m_items m ! i, setSelection (int i) m)) (shortcut_index key (m_items m))"

definition selectItem :: "'a Menu \<Rightarrow> 'a MenuItem \<Rightarrow> 'a" where
  "selectItem m item = (case m_onSelect m of Some fn \<Rightarrow> fn item | None \<Rightarrow> mi_action item)"

text \<open>The menu after the key, the command that results, and whether the key was consumed.\<close>

definition menu_handleKey :: "menu_env \<Rightarrow> 'a Menu \<Rightarrow> string \<Rightarrow> 'a Menu \<times> 'a option \<times> bool" where
  "menu_handleKey env m key =
     (let k = k_Menu (env_keys env); nav = k_Nav (env_keys env); i = m_index m in
      if Matches (menu_Select k) key then (m, map_option (selectItem m) (GetSelected m), True)
      else case itemForShortcut key m of Some (item, m') \<Rightarrow> (m', Some (selectItem m' item), True)
      | None \<Rightarrow>
          if Matches (menu_Up k) key then (setSelection (i - 1) m, None, True)
          else if Matches (menu_Down k) key then (setSelection (i + 1) m, None, True)
          else if Matches (nav_PageUp nav) key then (setSelection (i - visibleItems env m) m, None, True)
          else if Matches (nav_PageDown nav) key then (setSelection (i + visibleItems env m) m, None, True)
          else if Matches (nav_Top nav) key then (setSelection 0 m, None, True)
          else if Matches (nav_Bottom nav) key then (setSelection (int (length (m_items m)) - 1) m, None, True)
          else (m, None, False))"

subsection \<open>Hints\<close>

definition back_hint :: "menu_env \<Rightarrow> 'a Menu \<Rightarrow> Binding" where
  "back_hint env m =
     (global_Back (k_Global (env_keys env)))
       \<lparr>b_Hidden := \<not> m_showBackHint m, b_Disabled := \<not> m_showBackHint m\<rparr>"

definition ShortHints :: "menu_env \<Rightarrow> 'a Menu \<Rightarrow> Hint list" where
  "ShortHints env m =
     (let k = k_Menu (env_keys env); g = k_Global (env_keys env)
      in [Combine ''move'' [menu_Up k, menu_Down k]] @ Short [menu_Select k, back_hint env m, global_Quit g]
         @ (if m_showHelp m then Short [global_Help g] else []))"

definition LongHints :: "menu_env \<Rightarrow> 'a Menu \<Rightarrow> Hint list" where
  "LongHints env m =
     (let k = k_Menu (env_keys env); g = k_Global (env_keys env)
      in Long [menu_Up k, menu_Down k, menu_Select k, back_hint env m]
         @ map (\<lambda>item. \<lparr>Hint_Key = mi_shortcut item, Hint_Label = ''open '' @ mi_title item\<rparr>) (m_items m)
         @ Long [global_Quit g, global_Help g])"

definition menu_DialogHints :: "MenuKeys \<Rightarrow> Hint list" where
  "menu_DialogHints k = [Combine ''move'' [menu_Up k, menu_Down k]] @ Short [menu_Select k]"

subsection \<open>The view\<close>

text \<open>The visible items from \<open>start\<close> to before \<open>end\<close>, and whether lines are reserved for markers.\<close>

definition menu_window :: "'a Menu \<Rightarrow> int \<Rightarrow> int \<times> int \<times> bool" where
  "menu_window m lines0 =
     (let n = int (length (m_items m)) in
      if itemsHeight n \<le> lines0 then (0, n, False)
      else let markers = (4 \<le> lines0); ls = (if markers then lines0 - 2 else lines0);
               rows = itemsThatFit ls; start = max 0 (min (m_index m - rows div 2) (n - rows))
           in (start, start + rows, markers))"

datatype menu_line =
  TitleLine | BlankLine | HelpLine | MarkerUp | MarkerDown | GapLine | RowLine int | DetailLine

definition listLines :: "'a Menu \<Rightarrow> int \<Rightarrow> int \<Rightarrow> bool \<Rightarrow> menu_line list" where
  "listLines m start stop markers =
     (if markers \<and> 0 < start then [MarkerUp] else [])
     @ concat (map (\<lambda>i. (if start < i then [GapLine] else []) @ [RowLine i]) [start .. stop - 1])
     @ (if markers \<and> stop < int (length (m_items m)) then [MarkerDown] else [])"

text \<open>\<open>wrapWords\<close>, with the display width of a word.\<close>

fun wrap_loop :: "(string \<Rightarrow> int) \<Rightarrow> int \<Rightarrow> string list \<Rightarrow> int \<Rightarrow> string list \<Rightarrow> string list list" where
  "wrap_loop dw w cur lineWidth [] = [cur]"
| "wrap_loop dw w cur lineWidth (word # words) =
     (if cur \<noteq> [] \<and> w < lineWidth + 1 + dw word then cur # wrap_loop dw w [word] (dw word) words
      else wrap_loop dw w (cur @ [word]) (lineWidth + (if cur \<noteq> [] then 1 else 0) + dw word) words)"

definition wrapWords :: "(string \<Rightarrow> int) \<Rightarrow> string list \<Rightarrow> int \<Rightarrow> string list list" where
  "wrapWords dw words w = (if words = [] then [] else wrap_loop dw (max w 1) [] 0 words)"

text \<open>The number of lines of the detail pane, for the lines of the wrapped description.\<close>

definition detail_lines :: "'a Menu \<Rightarrow> 'a MenuItem option \<Rightarrow> nat \<Rightarrow> int \<Rightarrow> menu_line list" where
  "detail_lines m sel desc avail =
     (if avail < 1 then []
      else let footer = 2 + (if m_showShortcut m \<and> (\<exists>item. sel = Some item \<and> mi_shortcut item \<noteq> []) then 2 else 0);
               ls = replicate (3 + desc + footer) DetailLine;
               ls = (if avail < int (length ls) then tl ls else ls)
           in if avail < int (length ls) then take (nat avail) ls else ls)"

definition sidebarMode :: "'a Menu \<Rightarrow> int \<Rightarrow> bool" where
  "sidebarMode m width \<longleftrightarrow> 40 \<le> width \<and> hasDescriptions m"

text \<open>A line of both panes is given by its left part, or by the detail where the list has ended.\<close>

definition sidebarLines :: "menu_line list \<Rightarrow> menu_line list \<Rightarrow> menu_line list" where
  "sidebarLines left detail = left @ drop (length left) detail"

definition menu_View :: "menu_env \<Rightarrow> nat \<Rightarrow> 'a Menu \<Rightarrow> menu_line list" where
  "menu_View env desc m =
     (let (width, height) = effectiveSize env m; visible = visibleLines m height;
          (start, stop, markers) = menu_window m visible;
          head = (if m_title m = [] then [BlankLine] else [TitleLine, BlankLine]);
          body = (if sidebarMode m width
                  then sidebarLines (listLines m start stop markers)
                         (detail_lines m (GetSelected m) desc visible)
                  else listLines m start stop markers);
          foot = [BlankLine, BlankLine] @ (if m_showHelp m then [HelpLine] else []);
          pad = nat (height - int (length head) - int (length body) - int (length foot))
      in head @ body @ replicate pad BlankLine @ foot)"

subsection \<open>The menus of the program\<close>

named_theorems menu_items "the items of the menus"

datatype menu_action =
    OpenTargetSource | OpenIPFiles | OpenResultFiles | OpenOutbounds | OpenDNSTunnels | OpenSettings | OpenLogs
  | InspectGeneral | InspectICMP | InspectTCP | InspectHTTP | InspectXray | InspectDNS | InspectUI
  | PickIPList | PickResultList
  | ScanICMP | ScanTCP | ScanHTTP | PickXrayTemplate | ScanResolve | PickDNSTunnel
  | SelectDNSTT | SelectSlipstream | SelectVayDNS | SelectMasterDNS | SelectStormDNS | SelectTheFeed
  | ImportLink | ImportJSON
  | ViewCoreLog | ViewUILog

definition mainMenu_items :: "menu_action MenuItem list" where [menu_items]:
  "mainMenu_items =
     [WithDescription (NewMenuItem [CHR 0xE2, CHR 0x96, CHR 0xB6] ''Run Scan'' ''s'' OpenTargetSource)
        ''Start a new scan from an IP list or a saved result'',
      WithDescription (NewMenuItem [CHR 0xE2, CHR 0x96, CHR 0xA3] ''IP Files'' ''i'' OpenIPFiles)
        ''Manage the IP ranges loaded for scanning'',
      WithDescription (NewMenuItem [CHR 0xE2, CHR 0x97, CHR 0x86] ''Result Files'' ''r'' OpenResultFiles)
        ''Browse and export previous scan results'',
      WithDescription (NewMenuItem [CHR 0xE2, CHR 0x86, CHR 0x92] ''Xray Outbound'' ''x'' OpenOutbounds)
        ''Import and manage Xray outbound configs'',
      WithDescription (NewMenuItem [CHR 0xE2, CHR 0x89, CHR 0x88] ''DNS Tunneling'' ''d'' OpenDNSTunnels)
        ''Configure DNS tunneling clients'',
      WithDescription (NewMenuItem [CHR 0xE2, CHR 0x9A, CHR 0x99] ''Settings'' ''c'' OpenSettings)
        ''Theme, table and scanner preferences'',
      WithDescription (NewMenuItem [CHR 0xE2, CHR 0x89, CHR 0xA1] ''Logs'' ''l'' OpenLogs)
        ''Inspect application and scanner logs'']"

definition settingsMenu_items :: "menu_action MenuItem list" where [menu_items]:
  "settingsMenu_items =
     [WithDescription (NewMenuItem [CHR 0xE2, CHR 0x96, CHR 0xA4] ''General Settings'' ''g'' InspectGeneral)
        ''Probe rates, concurrency limits and the result writer'',
      WithDescription (NewMenuItem [CHR 0xE2, CHR 0x97, CHR 0x88] ''ICMP Settings'' ''i'' InspectICMP)
        ''Ping sweep workers, timeout and retry counts'',
      WithDescription (NewMenuItem [CHR 0xE2, CHR 0x87, CHR 0x84] ''TCP Settings'' ''t'' InspectTCP)
        ''Target port, workers and retry behaviour'',
      WithDescription (NewMenuItem [CHR 0xE2, CHR 0x97, CHR 0x8E] ''HTTP Settings'' ''h'' InspectHTTP)
        ''Host, port, TLS versions and request fingerprint'',
      WithDescription (NewMenuItem [CHR 0xE2, CHR 0x97, CHR 0x87] ''Xray Settings'' ''x'' InspectXray)
        ''Speed test thresholds, dial limits and connectivity'',
      WithDescription (NewMenuItem [CHR 0xE2, CHR 0x8C, CHR 0x98] ''DNS Settings'' ''d'' InspectDNS)
        ''Resolver transport, query types and tunneling limits'',
      WithDescription (NewMenuItem [CHR 0xE2, CHR 0x97, CHR 0x90] ''UI Settings'' ''u'' InspectUI)
        ''Theme, table row limit and log level'']"

definition targetMenu_items :: "menu_action MenuItem list" where [menu_items]:
  "targetMenu_items =
     [WithDescription (NewMenuItem [CHR 0xE2, CHR 0x96, CHR 0xA3] ''IP List'' ''i'' PickIPList)
        ''Pick a list of IP ranges to scan'',
      WithDescription (NewMenuItem [CHR 0xE2, CHR 0x96, CHR 0xA4] ''Result List'' ''r'' PickResultList)
        ''Reuse IPs from a previous scan result'']"

definition scanTypeMenu_items :: "menu_action MenuItem list" where [menu_items]:
  "scanTypeMenu_items =
     [WithDescription (NewMenuItem [CHR 0xE2, CHR 0x97, CHR 0x89] ''ICMP Scan'' ''i'' ScanICMP)
        ''Ping sweep to find live hosts'',
      WithDescription (NewMenuItem [CHR 0xE2, CHR 0x86, CHR 0x92] ''TCP Scan'' ''t'' ScanTCP)
        ''Probe ports on the selected IPs'',
      WithDescription (NewMenuItem [CHR 0xE2, CHR 0x97, CHR 0x8C] ''HTTP Scan'' ''h'' ScanHTTP)
        ''Check HTTP reachability of each IP'',
      WithDescription (NewMenuItem [CHR 0xE2, CHR 0x97, CHR 0x87] ''Xray Scan'' ''x'' PickXrayTemplate)
        ''Test outbounds against Xray templates'',
      WithDescription (NewMenuItem ''?'' ''DNS Resolve'' ''r'' ScanResolve)
        ''Resolve IPs through configured resolvers'',
      WithDescription (NewMenuItem [CHR 0xE2, CHR 0x89, CHR 0x88] ''DNS Tunneling'' ''d'' PickDNSTunnel)
        ''Scan through a DNS tunneling client'']"

definition tunnelMenu_items :: "menu_action MenuItem list" where [menu_items]:
  "tunnelMenu_items =
     [NewMenuItem [CHR 0xE2, CHR 0x89, CHR 0x88] ''DNSTT'' ''d'' SelectDNSTT,
      NewMenuItem ''~'' ''Slipstream'' ''s'' SelectSlipstream,
      NewMenuItem [CHR 0xE2, CHR 0x97, CHR 0x86] ''VayDNS'' ''v'' SelectVayDNS,
      NewMenuItem [CHR 0xE2, CHR 0x97, CHR 0x88] ''MasterDNS'' ''m'' SelectMasterDNS,
      NewMenuItem [CHR 0xE2, CHR 0x97, CHR 0x87] ''StormDNS'' ''t'' SelectStormDNS,
      NewMenuItem [CHR 0xE2, CHR 0x99, CHR 0xA8] ''TheFeed'' ''f'' SelectTheFeed]"

definition outboundMenu_items :: "menu_action MenuItem list" where [menu_items]:
  "outboundMenu_items =
     [WithDescription (NewMenuItem [CHR 0xE2, CHR 0x86, CHR 0x97] ''From Link'' ''l'' ImportLink)
        ''Sharing URLs (vmess://, vless://, trojan://, etc.)'',
      WithDescription (NewMenuItem ''{}'' ''From File'' ''f'' ImportJSON)
        ''Raw Xray JSON configuration file'']"

definition logsMenu_items :: "menu_action MenuItem list" where [menu_items]:
  "logsMenu_items =
     [WithDescription (NewMenuItem [CHR 0xE2, CHR 0x96, CHR 0xB6] ''Core Logs'' ''c'' ViewCoreLog)
        ''Scanner engine, probes and results activity'',
      WithDescription (NewMenuItem [CHR 0xE2, CHR 0x9A, CHR 0x99] ''UI Logs'' ''u'' ViewUILog)
        ''UI runtime and component events'']"

definition program_menus :: "menu_action MenuItem list list" where [menu_items]:
  "program_menus =
     [mainMenu_items, settingsMenu_items, targetMenu_items, scanTypeMenu_items, tunnelMenu_items,
      outboundMenu_items, logsMenu_items]"

subsection \<open>The selection stays on an item\<close>

definition menu_ok :: "'a Menu \<Rightarrow> bool" where
  "menu_ok m \<longleftrightarrow> 0 \<le> m_index m \<and> m_index m < max 1 (int (length (m_items m)))"

lemma menu_ok_setSelection [simp]: "menu_ok m \<Longrightarrow> menu_ok (setSelection i m)"
  by (cases "m_items m") (auto simp: menu_ok_def setSelection_def)

lemma menu_ok_SetItems [simp]: "menu_ok m \<Longrightarrow> menu_ok (SetItems items m)"
  by (auto simp: menu_ok_def SetItems_def)

lemma menu_ok_handleKey: "menu_ok m \<Longrightarrow> menu_ok (fst (menu_handleKey env m key))"
  by (auto simp: menu_handleKey_def Let_def itemForShortcut_def split: option.splits)

lemma menu_ok_selected: "menu_ok m \<Longrightarrow> m_items m \<noteq> [] \<Longrightarrow> GetSelected m \<noteq> None"
  by (cases "m_items m") (auto simp: menu_ok_def GetSelected_def)

subsection \<open>Lines of the list\<close>

lemma length_rows_from:
  "start \<le> stop \<Longrightarrow> int (length (concat (map (\<lambda>i. (if start < i then [GapLine] else []) @ [RowLine i])
      [start .. start + int k - 1]))) = (if k = 0 then 0 else 2 * int k - 1)"
proof (induction k)
  case (Suc k)
  have "[start .. start + int (Suc k) - 1] = [start .. start + int k - 1] @ [start + int k]"
    by (simp add: upto_rec2)
  with Suc show ?case by auto
qed simp

lemma length_listLines:
  assumes "start \<le> stop"
  shows "int (length (listLines m start stop markers)) =
     (if start = stop then 0 else 2 * (stop - start) - 1)
     + (if markers \<and> 0 < start then 1 else 0) + (if markers \<and> stop < int (length (m_items m)) then 1 else 0)"
  using length_rows_from [OF assms, of "nat (stop - start)"] assms by (auto simp: listLines_def)

lemma length_detail_lines: "1 \<le> avail \<Longrightarrow> int (length (detail_lines m sel desc avail)) \<le> avail"
  by (auto simp: detail_lines_def Let_def)

text \<open>C31. Whatever keys were pressed before, the item that is selected is one of the lines a menu shows: the window of
  visible items is a range of the menu that contains the selection, and its rows, gaps and markers fit
  into the lines there are.
\<close>
theorem selected_item_visible:
  assumes "menu_ok m" and "m_items m \<noteq> []" and "1 \<le> ls"
    and window: "menu_window m ls = (start, stop, markers)"
  shows "0 \<le> start \<and> start \<le> m_index m \<and> m_index m < stop \<and> stop \<le> int (length (m_items m))
         \<and> int (length (listLines m start stop markers)) \<le> ls"
proof (cases "itemsHeight (int (length (m_items m))) \<le> ls")
  case True
  with assms have "start = 0" "stop = int (length (m_items m))" "\<not> markers"
    by (auto simp: menu_window_def Let_def)
  with True assms(1,2) length_listLines [of start stop m markers] show ?thesis
    by (simp add: menu_ok_def itemsHeight_def)
next
  case False
  define n where "n = int (length (m_items m))"
  define rows where "rows = itemsThatFit (if markers then ls - 2 else ls)"
  from False window have eqs: "markers \<longleftrightarrow> 4 \<le> ls" "start = max 0 (min (m_index m - rows div 2) (n - rows))"
    "stop = start + rows"
    by (auto simp: menu_window_def Let_def n_def rows_def)
  from False \<open>1 \<le> ls\<close> eqs(1) have rows: "1 \<le> rows" "rows \<le> n" "2 * rows \<le> (if markers then ls - 2 else ls) + 1"
    by (auto simp: itemsThatFit_def itemsHeight_def rows_def n_def split: if_splits)
  from assms(1,2) have index: "0 \<le> m_index m" "m_index m < n"
    by (cases "m_items m"; auto simp: menu_ok_def n_def)+
  have range: "0 \<le> start" "start \<le> m_index m" "m_index m < stop" "stop \<le> n"
    using index rows(1,2) by (auto simp: eqs(2,3))
  have "int (length (listLines m start stop markers)) \<le> 2 * rows - 1 + (if markers then 2 else 0)"
    using length_listLines [of start stop m markers] rows(1) eqs(3) by simp
  with rows(3) have "int (length (listLines m start stop markers)) \<le> ls" by (simp split: if_splits)
  with range show ?thesis by (simp add: n_def)
qed

text \<open>The menu of the program's start, on a terminal of 80 columns and 35 rows.\<close>

definition example_env :: menu_env where
  "example_env = \<lparr>body_width = 76, body_height = 31, env_keys = Default\<rparr>"

definition example_menu :: "menu_action Menu" where
  "example_menu = new_menu mainMenu_items ''Main Menu'' [WithBackHint False]"

lemma example_menu_simps [simp]:
  "m_items example_menu = mainMenu_items" "m_index example_menu = 0" "m_title example_menu = ''Main Menu''"
  "m_showHelp example_menu" "m_width example_menu = 0" "m_height example_menu = 0" "m_onSelect example_menu = None"
  "length mainMenu_items = 7" "mainMenu_items \<noteq> []"
  by (simp_all add: example_menu_def new_menu_def WithBackHint_def mainMenu_items_def)

lemma selected_item_visible_witness:
  "menu_window (setSelection 6 example_menu) 9 = (3, 7, True)
   \<and> int (length (listLines (setSelection 6 example_menu) 3 7 True)) \<le> 9"
proof -
  let ?m = "setSelection 6 example_menu"
  have ok: "menu_ok ?m" by (rule menu_ok_setSelection) (simp add: menu_ok_def)
  have items: "m_items ?m \<noteq> []" by (simp add: setSelection_def)
  have "menu_window ?m 9 = (3, 7, True)"
    using example_menu_simps(8)
    by (auto simp: menu_window_def setSelection_def itemsHeight_def itemsThatFit_def Let_def)
  with selected_item_visible [OF ok items, of 9 3 7 True] show ?thesis by simp
qed

text \<open>When all items of a menu fit, its view has one row more than \<open>effectiveSize\<close> computes, although it is
  documented to have exactly that many: \<open>chromeRows\<close> counts one row for the spacers below the list where
  the view puts two.
\<close>
theorem view_one_row_too_tall:
  assumes "12 \<le> chromeRows m + itemsHeight (int (length (m_items m)))"
    and "chromeRows m + itemsHeight (int (length (m_items m))) \<le> min 25 (body_height env)"
    and "m_height m = 0" and "m_items m \<noteq> []"
  shows "int (length (menu_View env desc m)) = snd (effectiveSize env m) + 1"
proof -
  let ?n = "int (length (m_items m))"
  have chrome: "2 \<le> chromeRows m" by (simp add: chromeRows_def)
  from assms chrome have height: "snd (effectiveSize env m) = chromeRows m + itemsHeight ?n"
    by (auto simp: effectiveSize_def Let_def itemsHeight_def)
  from assms(4) have n: "1 \<le> ?n" by (cases "m_items m") auto
  have visible: "visibleLines m (chromeRows m + itemsHeight ?n) = itemsHeight ?n"
    using n assms(4) by (simp add: visibleLines_def itemsHeight_def)
  have window: "menu_window m (itemsHeight ?n) = (0, ?n, False)" by (simp add: menu_window_def Let_def)
  have list: "int (length (listLines m 0 ?n False)) = itemsHeight ?n"
    using n length_listLines [of 0 ?n m False] by (simp add: itemsHeight_def)
  have "1 \<le> itemsHeight ?n" using n assms(4) by (simp add: itemsHeight_def)
  then have "int (length (detail_lines m (GetSelected m) desc (itemsHeight ?n))) \<le> itemsHeight ?n"
    by (rule length_detail_lines)
  with list have side: "int (length (sidebarLines (listLines m 0 ?n False)
      (detail_lines m (GetSelected m) desc (itemsHeight ?n)))) = itemsHeight ?n"
    unfolding sidebarLines_def length_append length_drop by linarith
  obtain w where size: "effectiveSize env m = (w, chromeRows m + itemsHeight ?n)"
    using height by (metis prod.collapse)
  show ?thesis
    using list side unfolding menu_View_def size Let_def prod.case visible window
    by (simp add: chromeRows_def)
qed

lemma view_one_row_too_tall_witness:
  "snd (effectiveSize example_env example_menu) = 17 \<and> int (length (menu_View example_env 1 example_menu)) = 18"
proof -
  have size: "snd (effectiveSize example_env example_menu) = 17"
    by (simp add: effectiveSize_def example_env_def chromeRows_def itemsHeight_def Let_def)
  have "int (length (menu_View example_env 1 example_menu)) = snd (effectiveSize example_env example_menu) + 1"
    by (rule view_one_row_too_tall)
       (simp_all add: chromeRows_def itemsHeight_def example_env_def)
  with size show ?thesis by simp
qed

subsection \<open>Shortcuts\<close>

definition shortcuts_work :: "'a MenuItem list \<Rightarrow> bool" where
  "shortcuts_work items \<longleftrightarrow>
     distinct (map mi_shortcut items)
     \<and> list_all (\<lambda>item. mi_shortcut item \<noteq> [] \<and> \<not> Matches (menu_Select (k_Menu Default)) (mi_shortcut item)
          \<and> list_all (\<lambda>b. \<not> Matches b (mi_shortcut item)) (body_order Default)) items"

lemma shortcut_index_nth:
  "distinct (map mi_shortcut items) \<Longrightarrow> i < length items \<Longrightarrow> mi_shortcut (items ! i) \<noteq> []
   \<Longrightarrow> shortcut_index (mi_shortcut (items ! i)) items = Some i"
proof (induction items arbitrary: i)
  case (Cons item items)
  then show ?case by (cases i) (auto dest: nth_mem [THEN imageI, of _ _ mi_shortcut])
qed simp

lemma program_shortcuts: "list_all shortcuts_work program_menus"
  by code_simp

text \<open>In every menu of the program, the key shown beside an item selects that item and runs its command,
  wherever the selection is: no two items share a key, and neither the stack of screens, which
  sees the key first, nor the menu's own keys take it away.
\<close>
theorem every_shortcut_selects:
  assumes "items \<in> set program_menus" and "i < length items"
    and m: "m_items m = items" "m_onSelect m = None" and env: "env_keys env = Default"
  shows "list_all (\<lambda>b. \<not> Matches b (mi_shortcut (items ! i))) (body_order (env_keys env))
         \<and> menu_handleKey env m (mi_shortcut (items ! i)) =
             (m\<lparr>m_index := int i\<rparr>, Some (mi_action (items ! i)), True)"
proof -
  from assms(1) program_shortcuts have "shortcuts_work items" by (auto simp: list_all_iff)
  with assms(2) have *: "distinct (map mi_shortcut items)" "mi_shortcut (items ! i) \<noteq> []"
    "\<not> Matches (menu_Select (k_Menu Default)) (mi_shortcut (items ! i))"
    "list_all (\<lambda>b. \<not> Matches b (mi_shortcut (items ! i))) (body_order Default)"
    by (auto simp: shortcuts_work_def list_all_iff)
  with assms(2) have index: "shortcut_index (mi_shortcut (items ! i)) items = Some i"
    by (simp add: shortcut_index_nth)
  have sel: "setSelection (int i) m = m\<lparr>m_index := int i\<rparr>"
    using assms(2) m by (auto simp: setSelection_def)
  show ?thesis
    by (simp add: menu_handleKey_def env * m index itemForShortcut_def sel selectItem_def Let_def)
qed

lemma every_shortcut_selects_witness:
  "menu_handleKey example_env example_menu ''x'' = (example_menu\<lparr>m_index := 3\<rparr>, Some OpenOutbounds, True)"
proof -
  have "mi_shortcut (mainMenu_items ! 3) = ''x''" "mi_action (mainMenu_items ! 3) = OpenOutbounds"
    by (simp_all add: mainMenu_items_def WithDescription_def NewMenuItem_def)
  then show ?thesis
    using every_shortcut_selects [of mainMenu_items 3 example_menu example_env]
    by (simp add: program_menus_def example_env_def)
qed

subsection \<open>Wrapped words\<close>

lemma concat_wrap_loop: "concat (wrap_loop dw w cur lw words) = cur @ words"
  by (induction dw w cur lw words rule: wrap_loop.induct) auto

lemma concat_wrapWords: "concat (wrapWords dw words w) = words"
  by (simp add: wrapWords_def concat_wrap_loop)

end
