(* ===== verification/StableSort.thy ===== *)
theory StableSort
  imports Prelude "HOL-Library.Multiset"
begin

text \<open>
  \<open>slices.SortStableFunc\<close> and \<open>cmp.Compare\<close> of Go's standard library, for a comparison that returns a
  negative number, zero or a positive number: the sorted list has the same elements, is in order, and keeps elements that
  compare equal in their order. These three determine it, so insertion sort stands for the library's algorithm.
\<close>

subsection \<open>Comparisons\<close>

text \<open>What the library asks of a comparison: a total preorder.\<close>

definition cmp_ok :: "('a \<Rightarrow> 'a \<Rightarrow> int) \<Rightarrow> bool" where
  "cmp_ok c \<longleftrightarrow>
     (\<forall>x y. c x y \<le> 0 \<longleftrightarrow> 0 \<le> c y x) \<and> (\<forall>x y z. c x y \<le> 0 \<longrightarrow> c y z \<le> 0 \<longrightarrow> c x z \<le> 0)"

lemma cmp_okI:
  assumes "\<And>x y. c x y \<le> 0 \<longleftrightarrow> 0 \<le> c y x" and "\<And>x y z. c x y \<le> 0 \<Longrightarrow> c y z \<le> 0 \<Longrightarrow> c x z \<le> 0"
  shows "cmp_ok c"
  unfolding cmp_ok_def using assms by blast

lemma cmp_swap: "cmp_ok c \<Longrightarrow> c x y \<le> 0 \<longleftrightarrow> 0 \<le> c y x"
  unfolding cmp_ok_def by blast

lemma cmp_trans: "cmp_ok c \<Longrightarrow> c x y \<le> 0 \<Longrightarrow> c y z \<le> 0 \<Longrightarrow> c x z \<le> 0"
  unfolding cmp_ok_def by blast

lemma cmp_total: "cmp_ok c \<Longrightarrow> c x y \<le> 0 \<or> c y x \<le> 0"
  by (meson cmp_swap linear)

lemma cmp_zero: "cmp_ok c \<Longrightarrow> c x y = 0 \<longleftrightarrow> c x y \<le> 0 \<and> c y x \<le> 0"
  using cmp_swap [of c x y] cmp_swap [of c y x] by linarith

lemma cmp_refl [simp]: "cmp_ok c \<Longrightarrow> c x x = 0"
  using cmp_zero [of c x x] cmp_total [of c x x] by blast

definition cmp_Compare :: "'k::linorder \<Rightarrow> 'k \<Rightarrow> int" where
  "cmp_Compare x y = (if x < y then - 1 else if y < x then 1 else 0)"

lemma cmp_Compare_simps [simp]:
  "cmp_Compare x y \<le> 0 \<longleftrightarrow> x \<le> y" "cmp_Compare x y = 0 \<longleftrightarrow> x = y" "0 \<le> cmp_Compare x y \<longleftrightarrow> y \<le> x"
  "cmp_Compare x y < 0 \<longleftrightarrow> x < y" "0 < cmp_Compare x y \<longleftrightarrow> y < x"
  by (auto simp: cmp_Compare_def)

lemma cmp_ok_Compare [simp]: "cmp_ok cmp_Compare"
  by (rule cmp_okI) auto

lemma cmp_ok_neg: "cmp_ok c \<Longrightarrow> cmp_ok (\<lambda>x y. - c x y)"
  by (rule cmp_okI) (simp_all add: cmp_swap, meson cmp_swap cmp_trans)

lemma cmp_ok_on: "cmp_ok c \<Longrightarrow> cmp_ok (\<lambda>x y. c (f x) (f y))"
  by (rule cmp_okI) (rule cmp_swap, assumption, rule cmp_trans)

text \<open>The first comparison decides unless it says equal (\<open>cmp.Or\<close>).\<close>

definition cmp_Or :: "int \<Rightarrow> int \<Rightarrow> int" where
  "cmp_Or x y = (if x \<noteq> 0 then x else y)"

lemma cmp_Or_le: "cmp_ok c \<Longrightarrow> cmp_Or (c x y) (d x y) \<le> 0 \<longleftrightarrow> c x y \<le> 0 \<and> (c y x \<le> 0 \<longrightarrow> d x y \<le> 0)"
  using cmp_zero [of c x y] by (auto simp: cmp_Or_def)

lemma cmp_Or_ge: "cmp_ok c \<Longrightarrow> 0 \<le> cmp_Or (c x y) (d x y) \<longleftrightarrow> c y x \<le> 0 \<and> (c x y \<le> 0 \<longrightarrow> 0 \<le> d x y)"
  unfolding cmp_Or_def using cmp_swap [of c x y] cmp_swap [of c y x]
  by (cases "c x y = 0") (simp_all, linarith)

lemma cmp_ok_Or: "cmp_ok c \<Longrightarrow> cmp_ok d \<Longrightarrow> cmp_ok (\<lambda>x y. cmp_Or (c x y) (d x y))"
  by (rule cmp_okI, simp add: cmp_Or_le cmp_Or_ge cmp_swap [of d], simp add: cmp_Or_le, meson cmp_trans)

text \<open>Elements with a value go first and are compared by it; the others are left to a second comparison.\<close>

definition values_first :: "('a \<Rightarrow> 'k option) \<Rightarrow> ('k \<Rightarrow> 'k \<Rightarrow> int) \<Rightarrow> ('a \<Rightarrow> 'a \<Rightarrow> int) \<Rightarrow> 'a \<Rightarrow> 'a \<Rightarrow> int" where
  "values_first parse order rest x y =
     (case (parse x, parse y) of
        (Some u, Some v) \<Rightarrow> order u v
      | (Some _, None) \<Rightarrow> - 1
      | (None, Some _) \<Rightarrow> 1
      | (None, None) \<Rightarrow> rest x y)"

lemma cmp_ok_values_first:
  assumes "cmp_ok order" and "cmp_ok rest" shows "cmp_ok (values_first parse order rest)"
proof (rule cmp_okI)
  fix x y show "values_first parse order rest x y \<le> 0 \<longleftrightarrow> 0 \<le> values_first parse order rest y x"
    using assms [THEN cmp_swap] by (simp add: values_first_def split: option.splits)
next
  fix x y z
  assume "values_first parse order rest x y \<le> 0" "values_first parse order rest y z \<le> 0"
  then show "values_first parse order rest x z \<le> 0"
    using cmp_trans [OF assms(1), of "the (parse x)" "the (parse y)" "the (parse z)"]
      cmp_trans [OF assms(2), of x y z]
    by (cases "parse x"; cases "parse y"; cases "parse z") (simp_all add: values_first_def)
qed

subsection \<open>Sorting\<close>

fun insert_by :: "('a \<Rightarrow> 'a \<Rightarrow> int) \<Rightarrow> 'a \<Rightarrow> 'a list \<Rightarrow> 'a list" where
  "insert_by c x [] = [x]"
| "insert_by c x (y # ys) = (if c x y \<le> 0 then x # y # ys else y # insert_by c x ys)"

definition SortStableFunc :: "('a \<Rightarrow> 'a \<Rightarrow> int) \<Rightarrow> 'a list \<Rightarrow> 'a list" where
  "SortStableFunc c xs = foldr (insert_by c) xs []"

abbreviation sorted_cmp :: "('a \<Rightarrow> 'a \<Rightarrow> int) \<Rightarrow> 'a list \<Rightarrow> bool" where
  "sorted_cmp c \<equiv> sorted_wrt (\<lambda>x y. c x y \<le> 0)"

lemma SortStableFunc_simps [simp]:
  "SortStableFunc c [] = []" "SortStableFunc c (x # xs) = insert_by c x (SortStableFunc c xs)"
  by (simp_all add: SortStableFunc_def)

lemma mset_insert_by [simp]: "mset (insert_by c x xs) = add_mset x (mset xs)"
  by (induction xs) auto

lemma set_insert_by [simp]: "set (insert_by c x xs) = insert x (set xs)"
  by (induction xs) auto

lemma length_insert_by [simp]: "length (insert_by c x xs) = Suc (length xs)"
  by (induction xs) auto

lemma mset_SortStableFunc [simp]: "mset (SortStableFunc c xs) = mset xs"
  by (induction xs) auto

lemma set_SortStableFunc [simp]: "set (SortStableFunc c xs) = set xs"
  by (metis mset_SortStableFunc set_mset_mset)

lemma length_SortStableFunc [simp]: "length (SortStableFunc c xs) = length xs"
  by (metis mset_SortStableFunc size_mset)

lemma sorted_insert_by: "cmp_ok c \<Longrightarrow> sorted_cmp c xs \<Longrightarrow> sorted_cmp c (insert_by c x xs)"
proof (induction xs)
  case (Cons y xs)
  show ?case
  proof (cases "c x y \<le> 0")
    case True
    with Cons.prems have "\<forall>z\<in>set xs. c x z \<le> 0" using cmp_trans [OF Cons.prems(1) True] by simp
    with True Cons.prems show ?thesis by simp
  next
    case False
    then have "c y x \<le> 0" using cmp_total [OF Cons.prems(1), of x y] by blast
    with False Cons show ?thesis by simp
  qed
qed simp

lemma sorted_SortStableFunc [simp]: "cmp_ok c \<Longrightarrow> sorted_cmp c (SortStableFunc c xs)"
  by (induction xs) (simp_all add: sorted_insert_by)

lemma filter_insert_by:
  assumes P: "\<And>y. P x \<Longrightarrow> P y \<Longrightarrow> c x y = 0"
  shows "sorted_cmp c xs \<Longrightarrow> filter P (insert_by c x xs) = (if P x then x # filter P xs else filter P xs)"
proof (induction xs)
  case (Cons y xs)
  show ?case
  proof (cases "c x y \<le> 0")
    case False
    then have "\<not> (P x \<and> P y)" using P [of y] by auto
    with False Cons show ?thesis by auto
  qed simp
qed simp

text \<open>Stability: the elements of a class of equal ones come out as they went in.\<close>

lemma filter_SortStableFunc:
  assumes "cmp_ok c" and "\<And>y z. P y \<Longrightarrow> P z \<Longrightarrow> c y z = 0"
  shows "filter P (SortStableFunc c xs) = filter P xs"
  by (induction xs) (simp_all add: filter_insert_by assms)

lemma equal_class: "cmp_ok c \<Longrightarrow> c x y = 0 \<Longrightarrow> c x z = 0 \<Longrightarrow> c y z = 0"
  by (meson cmp_zero cmp_trans)

lemma SortStableFunc_stable: "cmp_ok c \<Longrightarrow> filter (\<lambda>y. c x y = 0) (SortStableFunc c xs) = filter (\<lambda>y. c x y = 0) xs"
  by (rule filter_SortStableFunc) (auto intro: equal_class)

lemma SortStableFunc_id: "sorted_cmp c xs \<Longrightarrow> SortStableFunc c xs = xs"
proof (induction xs)
  case (Cons x xs)
  then show ?case by (cases xs) auto
qed simp

end
