(* ===== verification/TableModel.thy ===== *)
theory TableModel
  imports StableSort KeyDefaults XrayProbe "HOL-Library.List_Lexorder" "HOL-Library.Char_ord"
begin

text \<open>
  The table of the interface: \<open>components/basic/table/model.go\<close>, \<open>update.go\<close> and \<open>hints.go\<close>, with the parser of
  durations in \<open>shared/meter/meter.go\<close>. The widgets of the library it wraps are parameters: the widget that
  keeps the visible rows and the cursor (\<open>table_lib\<close>), the text field of the filter, and the functions that read a cell
  (\<open>cell_lib\<close>: removal of terminal codes, floating point numbers in the order of \<open>cmp.Compare\<close>, sizes in
  bytes). Colours, the spinner and the rendered text are left out.
\<close>

subsection \<open>Cells\<close>

record 'f cell_lib =
  cl_strip :: "string \<Rightarrow> string"
  cl_float :: "string \<Rightarrow> 'f option"
  cl_bytes :: "string \<Rightarrow> u64 option"
  cl_duration :: "'f \<Rightarrow> int \<Rightarrow> int"
  cl_round :: "rat \<Rightarrow> rat"
  cl_finite :: "string \<Rightarrow> rat option"

text \<open>A cell without terminal codes and surrounding white space.\<close>

definition plain :: "'f cell_lib \<Rightarrow> string \<Rightarrow> string" where
  "plain lib s = trim_space (cl_strip lib s)"

definition compareCells :: "'f::linorder cell_lib \<Rightarrow> string \<Rightarrow> string \<Rightarrow> int" where
  "compareCells lib a0 b0 =
     (let a = plain lib a0; b = plain lib b0 in
      if a = b then 0
      else case (cl_float lib a, cl_float lib b) of
             (Some fa, Some fb) \<Rightarrow> cmp_Compare fa fb
           | (Some _, None) \<Rightarrow> - 1
           | (None, Some _) \<Rightarrow> 1
           | (None, None) \<Rightarrow>
               (case (cl_bytes lib a, cl_bytes lib b) of
                  (Some pa, Some pb) \<Rightarrow> cmp_Compare pa pb
                | (Some _, None) \<Rightarrow> - 1
                | (None, Some _) \<Rightarrow> 1
                | (None, None) \<Rightarrow> cmp_Compare a b))"

definition typedCompare ::
    "'f::linorder cell_lib \<Rightarrow> (string \<Rightarrow> 'k option) \<Rightarrow> ('k \<Rightarrow> 'k \<Rightarrow> int) \<Rightarrow> string \<Rightarrow> string \<Rightarrow> int" where
  "typedCompare lib parse order a b =
     (let sa = plain lib a; sb = plain lib b in
      case (parse sa, parse sb) of
        (Some pa, Some pb) \<Rightarrow> order pa pb
      | (Some _, None) \<Rightarrow> - 1
      | (None, Some _) \<Rightarrow> 1
      | (None, None) \<Rightarrow> compareCells lib sa sb)"

text \<open>\<open>netip.Addr.Compare\<close>: the bit length decides first (zones are no part of an address here).\<close>

definition addr_Compare :: "addr \<Rightarrow> addr \<Rightarrow> int" where
  "addr_Compare x y = cmp_Or (cmp_Compare (bit_len x) (bit_len y)) (cmp_Compare (addr_val x) (addr_val y))"

definition sortIP :: "'f::linorder cell_lib \<Rightarrow> string \<Rightarrow> string \<Rightarrow> int" where
  "sortIP lib = typedCompare lib ParseAddr addr_Compare"

definition micro_suffix :: string where "micro_suffix = [CHR 0xC2, CHR 0xB5] @ ''s''"

definition meter_Duration :: "'f cell_lib \<Rightarrow> string \<Rightarrow> int option" where
  "meter_Duration lib cell0 =
     (let cell = trim_space cell0;
          value = (\<lambda>u unit. map_option (\<lambda>v. cl_duration lib v unit)
                     (cl_float lib (trim_space (take (length cell - length u) cell))))
      in if cell = [] \<or> cell = ''-'' then None
         else if has_suffix cell micro_suffix then value micro_suffix 1000
         else if has_suffix cell ''ms'' then value ''ms'' 1000000
         else if has_suffix cell ''s'' then value ''s'' 1000000000
         else None)"

definition sortDuration :: "'f::linorder cell_lib \<Rightarrow> string \<Rightarrow> string \<Rightarrow> int" where
  "sortDuration lib = typedCompare lib (meter_Duration lib) cmp_Compare"

definition sortBandwidth :: "'f::linorder cell_lib \<Rightarrow> string \<Rightarrow> string \<Rightarrow> int" where
  "sortBandwidth lib = typedCompare lib (ParseBitsPerSec (cl_round lib) (cl_finite lib)) cmp_Compare"

subsection \<open>The model\<close>

type_synonym row = "string list"

record Column =
  col_Title :: string
  col_Width :: int

datatype table_msg = ThemeMsg | TickMsg | KeyPress string | ResizeMsg | OtherMsg string

text \<open>The widgets: the visible rows with their cursor, and the text of the filter.\<close>

record 'b table_lib =
  tl_SetRows :: "row list \<Rightarrow> 'b \<Rightarrow> 'b"
  tl_SetColumns :: "Column list \<Rightarrow> 'b \<Rightarrow> 'b"
  tl_SetHeight :: "int \<Rightarrow> 'b \<Rightarrow> 'b"
  tl_SetWidth :: "int \<Rightarrow> 'b \<Rightarrow> 'b"
  tl_GotoTop :: "'b \<Rightarrow> 'b"
  tl_GotoBottom :: "'b \<Rightarrow> 'b"
  tl_MoveUp :: "int \<Rightarrow> 'b \<Rightarrow> 'b"
  tl_MoveDown :: "int \<Rightarrow> 'b \<Rightarrow> 'b"
  tl_Update :: "table_msg \<Rightarrow> 'b \<Rightarrow> 'b"
  tl_Rows :: "'b \<Rightarrow> row list"
  tl_Cursor :: "'b \<Rightarrow> int"
  tl_Height :: "'b \<Rightarrow> int"
  tl_Width :: "'b \<Rightarrow> int"
  tl_Focused :: "'b \<Rightarrow> bool"
  filter_Update :: "table_msg \<Rightarrow> string \<Rightarrow> string"

record table_env =
  te_keys :: Keys
  te_width :: int
  te_height :: int
  te_frameH :: int
  te_frameV :: int

record 'b Table =
  t_title :: string
  t_bubble :: 'b
  t_originalCols :: "Column list"
  t_originalRows :: "row list"
  t_colTypes :: "ColumnType list"
  t_width :: int
  t_height :: int
  t_maxWidth :: int
  t_maxHeight :: int
  t_sortCol :: int
  t_sortAsc :: bool
  t_unsortable :: "int list"
  t_filterEnabled :: bool
  t_filtering :: bool
  t_filter :: string
  t_loading :: bool
  t_dirty :: bool

definition new_table :: "'b \<Rightarrow> ('b Table \<Rightarrow> 'b Table) list \<Rightarrow> 'b Table" where
  "new_table b options =
     fold (\<lambda>opt m. opt m) options
       \<lparr>t_title = [], t_bubble = b, t_originalCols = [], t_originalRows = [], t_colTypes = [], t_width = 0,
        t_height = 0, t_maxWidth = 0, t_maxHeight = 0, t_sortCol = - 1, t_sortAsc = True, t_unsortable = [],
        t_filterEnabled = True, t_filtering = False, t_filter = [], t_loading = False, t_dirty = False\<rparr>"

definition WithUnsortableColumns :: "int list \<Rightarrow> 'b Table \<Rightarrow> 'b Table" where
  "WithUnsortableColumns cols m = m\<lparr>t_unsortable := t_unsortable m @ cols\<rparr>"

definition filterValue :: "'b Table \<Rightarrow> string" where
  "filterValue m = trim_space (t_filter m)"

definition table_Mode_manage :: "'b Table \<Rightarrow> bool" where
  "table_Mode_manage m \<longleftrightarrow> t_loading m \<or> t_filtering m \<or> filterValue m \<noteq> []"

subsection \<open>Which rows are shown\<close>

definition cellAt :: "row \<Rightarrow> int \<Rightarrow> string" where
  "cellAt r col = (if col < 0 \<or> int (length r) \<le> col then [] else r ! nat col)"

definition rowMatches :: "'f cell_lib \<Rightarrow> row \<Rightarrow> string \<Rightarrow> bool" where
  "rowMatches lib r needle = list_ex (\<lambda>c. contains_sub needle (to_lower (cl_strip lib c))) r"

definition columnType :: "'b Table \<Rightarrow> int \<Rightarrow> ColumnType" where
  "columnType m col =
     (if col < 0 \<or> int (length (t_colTypes m)) \<le> col then ColumnText else t_colTypes m ! nat col)"

definition table_comparator :: "'f::linorder cell_lib \<Rightarrow> 'b Table \<Rightarrow> int \<Rightarrow> string \<Rightarrow> string \<Rightarrow> int" where
  "table_comparator lib m col =
     (case columnType m col of
        ColumnIP \<Rightarrow> sortIP lib
      | ColumnDuration \<Rightarrow> sortDuration lib
      | ColumnBandwidth \<Rightarrow> sortBandwidth lib
      | ColumnText \<Rightarrow> compareCells lib)"

text \<open>The comparison of rows by the column they are sorted by.\<close>

definition row_compare :: "'f::linorder cell_lib \<Rightarrow> 'b Table \<Rightarrow> row \<Rightarrow> row \<Rightarrow> int" where
  "row_compare lib m a b =
     (let c = table_comparator lib m (t_sortCol m) (cellAt a (t_sortCol m)) (cellAt b (t_sortCol m))
      in if \<not> t_sortAsc m then - c else c)"

definition displayRowsLocked :: "'f::linorder cell_lib \<Rightarrow> 'b Table \<Rightarrow> row list" where
  "displayRowsLocked lib m =
     (let needle = to_lower (filterValue m) in
      if t_sortCol m < 0 \<and> needle = [] then t_originalRows m
      else let rows = (if needle \<noteq> [] then filter (\<lambda>r. rowMatches lib r needle) (t_originalRows m)
                       else t_originalRows m)
           in if 0 \<le> t_sortCol m then SortStableFunc (row_compare lib m) rows else rows)"

subsection \<open>Sizes\<close>

definition tableWidthLocked :: "table_env \<Rightarrow> 'b Table \<Rightarrow> int" where
  "tableWidthLocked env m =
     (let w = (if 0 < t_width m then t_width m else if 0 < te_width env then max 10 (te_width env - 4) else 30);
          w = (if 0 < t_maxWidth m then min w (t_maxWidth m) else w)
      in max 1 w)"

definition contentWidthLocked :: "table_env \<Rightarrow> 'b Table \<Rightarrow> int" where
  "contentWidthLocked env m = max 1 (tableWidthLocked env m - te_frameH env)"

definition sort_mark :: "bool \<Rightarrow> string" where
  "sort_mark asc = '' '' @ (if asc then [CHR 0xE2, CHR 0x96, CHR 0xB2] else [CHR 0xE2, CHR 0x96, CHR 0xBC])"

text \<open>The width that the columns share.\<close>

definition column_target :: "table_env \<Rightarrow> 'b Table \<Rightarrow> int" where
  "column_target env m =
     (let n = int (length (t_originalCols m)) in max n (tableWidthLocked env m - (3 * n + te_frameH env)))"

definition scaledColumns :: "table_env \<Rightarrow> 'b Table \<Rightarrow> Column list" where
  "scaledColumns env m =
     (let out = t_originalCols m; total = sum_list (map col_Width out) in
      if out = [] then []
      else if total \<le> 0 then out
      else let i = nat (t_sortCol m);
               out = (if 0 \<le> t_sortCol m \<and> t_sortCol m < int (length out)
                      then out[i := (out ! i)\<lparr>col_Title := col_Title (out ! i) @ sort_mark (t_sortAsc m)\<rparr>]
                      else out);
               target = column_target env m;
               out = map (\<lambda>c. c\<lparr>col_Width := max 1 ((target * col_Width c) div total)\<rparr>) out;
               diff = target - sum_list (map col_Width out); l = last out
           in if diff \<noteq> 0 then butlast out @ [l\<lparr>col_Width := max 1 (col_Width l + diff)\<rparr>] else out)"

text \<open>The height of the widget.\<close>

definition bubble_height :: "table_env \<Rightarrow> int \<Rightarrow> 'b Table \<Rightarrow> int" where
  "bubble_height env rows m =
     (let chromeHeight = 3 + 3 + 2 * 2;
          total = (if 0 < t_height m then t_height m
                   else if 0 < te_height env then min (max 25 (rows + 2 + chromeHeight)) (te_height env)
                   else max 25 (rows + chromeHeight));
          total = (if 0 < t_maxHeight m then min total (t_maxHeight m) else total)
      in max 1 (total - chromeHeight - te_frameV env))"

definition updateTableSizeLocked :: "'b table_lib \<Rightarrow> table_env \<Rightarrow> 'b Table \<Rightarrow> 'b Table" where
  "updateTableSizeLocked ws env m =
     (let m = m\<lparr>t_dirty := True\<rparr> in
      if t_originalCols m = [] then m
      else let b = tl_SetColumns ws (scaledColumns env m) (t_bubble m);
               rows = (if t_loading m then 0 else int (length (tl_Rows ws b)));
               b = tl_SetHeight ws (bubble_height env rows m) b;
               b = tl_SetWidth ws (contentWidthLocked env m) b
           in m\<lparr>t_bubble := b\<rparr>)"

definition refreshDisplayLocked ::
    "'f::linorder cell_lib \<Rightarrow> 'b table_lib \<Rightarrow> table_env \<Rightarrow> bool \<Rightarrow> 'b Table \<Rightarrow> 'b Table" where
  "refreshDisplayLocked lib ws env resetCursor m =
     (let b = tl_SetRows ws (displayRowsLocked lib m) (t_bubble m);
          b = (if resetCursor then tl_GotoTop ws b else b)
      in updateTableSizeLocked ws env (m\<lparr>t_bubble := b\<rparr>))"

subsection \<open>Operations\<close>

definition SelectedRow :: "'b table_lib \<Rightarrow> 'b Table \<Rightarrow> row option" where
  "SelectedRow ws m =
     (let rows = tl_Rows ws (t_bubble m); idx = tl_Cursor ws (t_bubble m) in
      if t_loading m then None
      else if idx < 0 \<or> int (length rows) \<le> idx then None
      else Some (rows ! nat idx))"

definition SelectedIndex :: "'b table_lib \<Rightarrow> 'b Table \<Rightarrow> int" where
  "SelectedIndex ws m =
     (if t_loading m \<or> tl_Rows ws (t_bubble m) = [] then - 1 else tl_Cursor ws (t_bubble m))"

definition VisibleRowCount :: "'b table_lib \<Rightarrow> 'b Table \<Rightarrow> nat" where
  "VisibleRowCount ws m = (if t_loading m then 0 else length (tl_Rows ws (t_bubble m)))"

definition SetTitle :: "string \<Rightarrow> 'b Table \<Rightarrow> 'b Table" where
  "SetTitle title m = (if t_title m = title then m else m\<lparr>t_title := title, t_dirty := True\<rparr>)"

definition GotoTop :: "'b table_lib \<Rightarrow> 'b Table \<Rightarrow> 'b Table" where
  "GotoTop ws m = m\<lparr>t_bubble := tl_GotoTop ws (t_bubble m), t_dirty := True\<rparr>"

definition GotoBottom :: "'b table_lib \<Rightarrow> 'b Table \<Rightarrow> 'b Table" where
  "GotoBottom ws m = m\<lparr>t_bubble := tl_GotoBottom ws (t_bubble m), t_dirty := True\<rparr>"

definition SetLoading :: "'b table_lib \<Rightarrow> table_env \<Rightarrow> bool \<Rightarrow> 'b Table \<Rightarrow> 'b Table" where
  "SetLoading ws env loading m =
     (if t_loading m = loading then m else updateTableSizeLocked ws env (m\<lparr>t_loading := loading\<rparr>))"

definition SetWidth :: "'b table_lib \<Rightarrow> table_env \<Rightarrow> int \<Rightarrow> 'b Table \<Rightarrow> 'b Table" where
  "SetWidth ws env w m = updateTableSizeLocked ws env (m\<lparr>t_width := w\<rparr>)"

definition SetHeight :: "'b table_lib \<Rightarrow> table_env \<Rightarrow> int \<Rightarrow> 'b Table \<Rightarrow> 'b Table" where
  "SetHeight ws env h m = updateTableSizeLocked ws env (m\<lparr>t_height := h\<rparr>)"

definition SetMaxWidth :: "'b table_lib \<Rightarrow> table_env \<Rightarrow> int \<Rightarrow> 'b Table \<Rightarrow> 'b Table" where
  "SetMaxWidth ws env w m = updateTableSizeLocked ws env (m\<lparr>t_maxWidth := w\<rparr>)"

definition SetMaxHeight :: "'b table_lib \<Rightarrow> table_env \<Rightarrow> int \<Rightarrow> 'b Table \<Rightarrow> 'b Table" where
  "SetMaxHeight ws env h m = updateTableSizeLocked ws env (m\<lparr>t_maxHeight := h\<rparr>)"

definition AppendRow ::
    "'f::linorder cell_lib \<Rightarrow> 'b table_lib \<Rightarrow> table_env \<Rightarrow> row \<Rightarrow> 'b Table \<Rightarrow> 'b Table" where
  "AppendRow lib ws env row m =
     refreshDisplayLocked lib ws env False (m\<lparr>t_originalRows := t_originalRows m @ [row]\<rparr>)"

definition SetRows ::
    "'f::linorder cell_lib \<Rightarrow> 'b table_lib \<Rightarrow> table_env \<Rightarrow> row list \<Rightarrow> 'b Table \<Rightarrow> 'b Table" where
  "SetRows lib ws env rows m = refreshDisplayLocked lib ws env False (m\<lparr>t_originalRows := rows\<rparr>)"

definition clearSortLocked :: "'f::linorder cell_lib \<Rightarrow> 'b table_lib \<Rightarrow> table_env \<Rightarrow> 'b Table \<Rightarrow> 'b Table" where
  "clearSortLocked lib ws env m =
     refreshDisplayLocked lib ws env False (m\<lparr>t_sortCol := - 1, t_sortAsc := True\<rparr>)"

definition SetSort ::
    "'f::linorder cell_lib \<Rightarrow> 'b table_lib \<Rightarrow> table_env \<Rightarrow> int \<Rightarrow> bool \<Rightarrow> 'b Table \<Rightarrow> 'b Table" where
  "SetSort lib ws env col asc m =
     (if col < 0 \<or> int (length (t_originalCols m)) \<le> col \<or> col \<in> set (t_unsortable m)
      then clearSortLocked lib ws env m
      else refreshDisplayLocked lib ws env True (m\<lparr>t_sortCol := col, t_sortAsc := asc\<rparr>))"

definition nextSortableCol :: "'b Table \<Rightarrow> int \<Rightarrow> int" where
  "nextSortableCol m start =
     (case find (\<lambda>col. col \<notin> set (t_unsortable m)) [max 0 start .. int (length (t_originalCols m)) - 1] of
        Some col \<Rightarrow> col | None \<Rightarrow> - 1)"

definition cycleSortColumnLocked ::
    "'f::linorder cell_lib \<Rightarrow> 'b table_lib \<Rightarrow> table_env \<Rightarrow> 'b Table \<Rightarrow> 'b Table" where
  "cycleSortColumnLocked lib ws env m =
     (let next_col = nextSortableCol m (t_sortCol m + 1) in
      if next_col < 0 then clearSortLocked lib ws env m
      else refreshDisplayLocked lib ws env True (m\<lparr>t_sortCol := next_col, t_sortAsc := True\<rparr>))"

definition toggleSortDirectionLocked ::
    "'f::linorder cell_lib \<Rightarrow> 'b table_lib \<Rightarrow> table_env \<Rightarrow> 'b Table \<Rightarrow> 'b Table" where
  "toggleSortDirectionLocked lib ws env m =
     (if t_sortCol m < 0
      then let col = nextSortableCol m 0 in
           if col < 0 then m
           else refreshDisplayLocked lib ws env True (m\<lparr>t_sortCol := col, t_sortAsc := False\<rparr>)
      else refreshDisplayLocked lib ws env True (m\<lparr>t_sortAsc := \<not> t_sortAsc m\<rparr>))"

definition clearFilterLocked :: "'f::linorder cell_lib \<Rightarrow> 'b table_lib \<Rightarrow> table_env \<Rightarrow> 'b Table \<Rightarrow> 'b Table" where
  "clearFilterLocked lib ws env m =
     refreshDisplayLocked lib ws env False (m\<lparr>t_filter := [], t_filtering := False\<rparr>)"

subsection \<open>Messages\<close>

definition handleFilterKey ::
    "'f::linorder cell_lib \<Rightarrow> 'b table_lib \<Rightarrow> table_env \<Rightarrow> 'b Table \<Rightarrow> string \<Rightarrow> 'b Table" where
  "handleFilterKey lib ws env m key =
     (let f = k_Filter (te_keys env) in
      if Matches (filter_Clear f) key then clearFilterLocked lib ws env m
      else if Matches (filter_Accept f) key then m\<lparr>t_filtering := False\<rparr>
      else refreshDisplayLocked lib ws env False
             (m\<lparr>t_filter := filter_Update ws (KeyPress key) (t_filter m)\<rparr>))"

text \<open>The table after a key, and whether it was consumed.\<close>

definition table_handleKey ::
    "'f::linorder cell_lib \<Rightarrow> 'b table_lib \<Rightarrow> table_env \<Rightarrow> 'b Table \<Rightarrow> string \<Rightarrow> 'b Table \<times> bool" where
  "table_handleKey lib ws env m key =
     (let k = k_Table (te_keys env); b = t_bubble m; h = tl_Height ws b;
          moved = (\<lambda>b. (m\<lparr>t_bubble := b\<rparr>, True)) in
      if t_filtering m then (handleFilterKey lib ws env m key, True)
      else if Matches (table_Up k) key then moved (tl_MoveUp ws 1 b)
      else if Matches (table_Down k) key then moved (tl_MoveDown ws 1 b)
      else if Matches (table_PageUp k) key then moved (tl_MoveUp ws h b)
      else if Matches (table_PageDown k) key then moved (tl_MoveDown ws h b)
      else if Matches (table_HalfPageUp k) key then moved (tl_MoveUp ws (max 1 (h div 2)) b)
      else if Matches (table_HalfPageDown k) key then moved (tl_MoveDown ws (max 1 (h div 2)) b)
      else if Matches (table_ChangeSort k) key then (cycleSortColumnLocked lib ws env m, True)
      else if Matches (table_ToggleOrder k) key then (toggleSortDirectionLocked lib ws env m, True)
      else if Matches (table_Filter k) key \<and> t_filterEnabled m then (m\<lparr>t_filtering := True\<rparr>, True)
      else if Matches (filter_Clear (k_Filter (te_keys env))) key then (clearFilterLocked lib ws env m, True)
      else (m, False))"

definition longHits :: "table_env \<Rightarrow> Hint list \<Rightarrow> 'b Table \<Rightarrow> Hint list" where
  "longHits env extra m =
     (let t = k_Table (te_keys env); g = k_Global (te_keys env)
      in Long [table_Up t, table_Down t, table_PageUp t, table_PageDown t, table_HalfPageUp t,
               table_HalfPageDown t, table_Top t, table_Bottom t, table_ChangeSort t, table_ToggleOrder t]
         @ (if t_filterEnabled m then Long [table_Filter t] else []) @ extra
         @ Long [global_Back g, global_Quit g, global_Help g])"

definition shortHits :: "table_env \<Rightarrow> Hint list \<Rightarrow> 'b Table \<Rightarrow> Hint list" where
  "shortHits env extra m =
     (let t = k_Table (te_keys env); g = k_Global (te_keys env)
      in [Combine ''move'' [table_Up t, table_Down t]] @ Short [table_ChangeSort t, table_ToggleOrder t]
         @ (if t_filterEnabled m then Short [table_Filter t] else []) @ extra
         @ Short [global_Back g, global_Quit g, global_Help g])"

definition captureBubble :: "'b table_lib \<Rightarrow> 'b \<Rightarrow> int \<times> bool \<times> int \<times> int" where
  "captureBubble ws b = (tl_Cursor ws b, tl_Focused ws b, tl_Width ws b, tl_Height ws b)"

definition to_bubble :: "'b table_lib \<Rightarrow> table_msg \<Rightarrow> 'b Table \<Rightarrow> 'b Table" where
  "to_bubble ws msg m = m\<lparr>t_bubble := tl_Update ws msg (t_bubble m)\<rparr>"

definition table_Update ::
    "'f::linorder cell_lib \<Rightarrow> 'b table_lib \<Rightarrow> table_env \<Rightarrow> 'b Table \<Rightarrow> table_msg \<Rightarrow> 'b Table" where
  "table_Update lib ws env m msg =
     (let m' = (case msg of
            ThemeMsg \<Rightarrow> to_bubble ws msg m
          | TickMsg \<Rightarrow> if \<not> t_loading m then m else m\<lparr>t_dirty := True\<rparr>
          | KeyPress key \<Rightarrow>
              if t_loading m then m
              else let (m1, handled) = table_handleKey lib ws env m key in
                   if handled then m1 else to_bubble ws msg m1
          | ResizeMsg \<Rightarrow> to_bubble ws msg (updateTableSizeLocked ws env m)
          | OtherMsg _ \<Rightarrow>
              to_bubble ws msg (if t_filtering m then m\<lparr>t_filter := filter_Update ws msg (t_filter m)\<rparr> else m))
      in if captureBubble ws (t_bubble m') \<noteq> captureBubble ws (t_bubble m) then m'\<lparr>t_dirty := True\<rparr> else m')"

subsection \<open>The rows shown\<close>

lemma compareCells_eq:
  "compareCells lib a b =
     values_first (cl_float lib) cmp_Compare (values_first (cl_bytes lib) cmp_Compare cmp_Compare)
       (plain lib a) (plain lib b)"
  by (auto simp: compareCells_def Let_def values_first_def cmp_Compare_def split: option.splits)

lemma cmp_ok_compareCells: "cmp_ok (compareCells lib)"
  unfolding compareCells_eq [abs_def]
  by (rule cmp_ok_on [where f = "plain lib"]) (intro cmp_ok_values_first cmp_ok_Compare)

lemma cmp_ok_typedCompare:
  assumes "cmp_ok order" shows "cmp_ok (typedCompare lib parse order)"
proof -
  have "typedCompare lib parse order =
      (\<lambda>a b. values_first parse order (compareCells lib) (plain lib a) (plain lib b))"
    by (auto simp: fun_eq_iff typedCompare_def Let_def values_first_def split: option.splits)
  then show ?thesis
    using cmp_ok_on [OF cmp_ok_values_first [OF assms cmp_ok_compareCells], of parse lib "plain lib"] by simp
qed

lemma cmp_ok_addr [simp]: "cmp_ok addr_Compare"
  unfolding addr_Compare_def [abs_def]
  by (intro cmp_ok_Or cmp_ok_on [where f = bit_len] cmp_ok_on [where f = addr_val] cmp_ok_Compare)

lemma cmp_ok_table_comparator: "cmp_ok (table_comparator lib m col)"
  by (simp add: table_comparator_def sortIP_def sortDuration_def sortBandwidth_def cmp_ok_typedCompare
      cmp_ok_compareCells split: ColumnType.split)

lemma cmp_ok_row_compare: "cmp_ok (row_compare lib m)"
proof -
  have ok: "cmp_ok (\<lambda>a b. table_comparator lib m (t_sortCol m) (cellAt a (t_sortCol m)) (cellAt b (t_sortCol m)))"
    by (rule cmp_ok_on [where f = "\<lambda>r. cellAt r (t_sortCol m)"]) (rule cmp_ok_table_comparator)
  show ?thesis
    using ok cmp_ok_neg [OF ok] by (cases "t_sortAsc m") (simp_all add: row_compare_def [abs_def] Let_def)
qed

text \<open>The rows that pass the filter, in load order.\<close>

definition matching_rows :: "'f cell_lib \<Rightarrow> 'b Table \<Rightarrow> row list" where
  "matching_rows lib m =
     filter (\<lambda>r. filterValue m = [] \<or> rowMatches lib r (to_lower (filterValue m))) (t_originalRows m)"

lemma to_lower_Nil [simp]: "to_lower s = [] \<longleftrightarrow> s = []"
  by (simp add: to_lower_def)

lemma displayRowsLocked_eq:
  "displayRowsLocked lib m =
     (if t_sortCol m < 0 then matching_rows lib m else SortStableFunc (row_compare lib m) (matching_rows lib m))"
  by (auto simp: displayRowsLocked_def matching_rows_def Let_def)

text \<open>C32. A table that is sorted by a column shows exactly the rows that pass the filter, in the order of that
  column's type, and rows with equal cells stay in load order in both directions; the comparison that the columns
  of every type use is a total preorder although it mixes numbers, sizes, addresses and text.
\<close>
theorem rows_shown_sorted_stable:
  assumes "0 \<le> t_sortCol m"
  shows "mset (displayRowsLocked lib m) = mset (matching_rows lib m)
         \<and> sorted_cmp (row_compare lib m) (displayRowsLocked lib m)
         \<and> filter (\<lambda>r'. row_compare lib m r r' = 0) (displayRowsLocked lib m) =
             filter (\<lambda>r'. row_compare lib m r r' = 0) (matching_rows lib m)"
  using assms by (simp add: displayRowsLocked_eq cmp_ok_row_compare SortStableFunc_stable)

subsection \<open>A concrete library\<close>

text \<open>A widget that is its list of rows with a cursor, and a field that types or pastes at the end of its text.\<close>

definition plain_cells :: "nat cell_lib" where
  "plain_cells =
     \<lparr>cl_strip = id, cl_float = (\<lambda>s. if s \<noteq> [] \<and> list_all is_digit s then Some (dec_val s) else None),
      cl_bytes = (\<lambda>_. None), cl_duration = (\<lambda>v u. int v * u), cl_round = id, cl_finite = (\<lambda>_. None)\<rparr>"

definition plain_widgets :: "(row list \<times> int) table_lib" where
  "plain_widgets =
     \<lparr>tl_SetRows = (\<lambda>rows (_, c). (rows, min c (int (length rows) - 1))), tl_SetColumns = (\<lambda>_ b. b),
      tl_SetHeight = (\<lambda>_ b. b), tl_SetWidth = (\<lambda>_ b. b), tl_GotoTop = (\<lambda>(rows, c). (rows, 0)),
      tl_GotoBottom = (\<lambda>(rows, c). (rows, int (length rows) - 1)),
      tl_MoveUp = (\<lambda>n (rows, c). (rows, max 0 (c - n))),
      tl_MoveDown = (\<lambda>n (rows, c). (rows, min (int (length rows) - 1) (c + n))), tl_Update = (\<lambda>_ b. b),
      tl_Rows = fst, tl_Cursor = snd, tl_Height = (\<lambda>_. 10), tl_Width = (\<lambda>_. 80), tl_Focused = (\<lambda>_. True),
      filter_Update = (\<lambda>msg s. case msg of KeyPress k \<Rightarrow> s @ k | OtherMsg t \<Rightarrow> s @ t | _ \<Rightarrow> s)\<rparr>"

definition example_table :: "(row list \<times> int) Table" where
  "example_table =
     (new_table ([], 0) [])\<lparr>t_originalCols := [\<lparr>col_Title = ''IP'', col_Width = 3\<rparr>, \<lparr>col_Title = ''N'', col_Width = 1\<rparr>],
       t_originalRows := [[''a'', ''10''], [''b'', ''x''], [''c'', ''9''], [''d'', ''10'']], t_sortCol := 1,
       t_sortAsc := False\<rparr>"

definition example_tenv :: table_env where
  "example_tenv = \<lparr>te_keys = Default, te_width = 76, te_height = 31, te_frameH = 2, te_frameV = 1\<rparr>"

lemmas eval_table = example_table_def new_table_def displayRowsLocked_def matching_rows_def filterValue_def
  row_compare_def table_comparator_def columnType_def compareCells_def plain_def plain_cells_def cellAt_def

lemma rows_shown_sorted_stable_witness:
  "map hd (displayRowsLocked plain_cells example_table) = [''b'', ''a'', ''d'', ''c'']
   \<and> mset (displayRowsLocked plain_cells example_table) = mset (t_originalRows example_table)"
proof
  show "map hd (displayRowsLocked plain_cells example_table) = [''b'', ''a'', ''d'', ''c'']" by code_simp
  have "matching_rows plain_cells example_table = t_originalRows example_table" by code_simp
  then show "mset (displayRowsLocked plain_cells example_table) = mset (t_originalRows example_table)"
    using rows_shown_sorted_stable [of example_table plain_cells] by (simp add: example_table_def)
qed

subsection \<open>The visible rows follow the state\<close>

text \<open>What the table relies on: only \<open>SetRows\<close> changes the rows of the widget.\<close>

definition widget_laws :: "'b table_lib \<Rightarrow> bool" where
  "widget_laws ws \<longleftrightarrow>
     (\<forall>b rows. tl_Rows ws (tl_SetRows ws rows b) = rows)
     \<and> (\<forall>b cols. tl_Rows ws (tl_SetColumns ws cols b) = tl_Rows ws b)
     \<and> (\<forall>b n. tl_Rows ws (tl_SetHeight ws n b) = tl_Rows ws b \<and> tl_Rows ws (tl_SetWidth ws n b) = tl_Rows ws b
          \<and> tl_Rows ws (tl_MoveUp ws n b) = tl_Rows ws b \<and> tl_Rows ws (tl_MoveDown ws n b) = tl_Rows ws b)
     \<and> (\<forall>b. tl_Rows ws (tl_GotoTop ws b) = tl_Rows ws b \<and> tl_Rows ws (tl_GotoBottom ws b) = tl_Rows ws b)
     \<and> (\<forall>b msg. tl_Rows ws (tl_Update ws msg b) = tl_Rows ws b)"

definition in_sync :: "'f::linorder cell_lib \<Rightarrow> 'b table_lib \<Rightarrow> 'b Table \<Rightarrow> bool" where
  "in_sync lib ws m \<longleftrightarrow> tl_Rows ws (t_bubble m) = displayRowsLocked lib m"

text \<open>What the shown rows depend on.\<close>

lemma displayRowsLocked_cong:
  assumes "t_sortCol m' = t_sortCol m" "t_sortAsc m' = t_sortAsc m" "t_colTypes m' = t_colTypes m"
    "t_filter m' = t_filter m" "t_originalRows m' = t_originalRows m"
  shows "displayRowsLocked lib m' = displayRowsLocked lib m"
proof -
  from assms have "row_compare lib m' = row_compare lib m"
    by (simp add: fun_eq_iff row_compare_def table_comparator_def columnType_def)
  with assms show ?thesis by (simp add: displayRowsLocked_def filterValue_def Let_def)
qed

lemma displayRowsLocked_upd [simp]:
  "displayRowsLocked lib (m\<lparr>t_bubble := b\<rparr>) = displayRowsLocked lib m"
  "displayRowsLocked lib (m\<lparr>t_dirty := d\<rparr>) = displayRowsLocked lib m"
  "displayRowsLocked lib (m\<lparr>t_filtering := f\<rparr>) = displayRowsLocked lib m"
  by (rule displayRowsLocked_cong; simp)+

lemma in_sync_upd [simp]:
  "in_sync lib ws (m\<lparr>t_dirty := d\<rparr>) \<longleftrightarrow> in_sync lib ws m"
  "in_sync lib ws (m\<lparr>t_filtering := f\<rparr>) \<longleftrightarrow> in_sync lib ws m"
  by (simp_all add: in_sync_def)

lemma in_sync_resize [simp]:
  "widget_laws ws \<Longrightarrow> in_sync lib ws (updateTableSizeLocked ws env m) \<longleftrightarrow> in_sync lib ws m"
  by (simp add: updateTableSizeLocked_def in_sync_def widget_laws_def Let_def)

lemma in_sync_refresh [simp]: "widget_laws ws \<Longrightarrow> in_sync lib ws (refreshDisplayLocked lib ws env reset m)"
  by (simp add: refreshDisplayLocked_def Let_def) (simp add: in_sync_def widget_laws_def)

lemma in_sync_to_bubble [simp]: "widget_laws ws \<Longrightarrow> in_sync lib ws (to_bubble ws msg m) \<longleftrightarrow> in_sync lib ws m"
  by (simp add: to_bubble_def in_sync_def widget_laws_def)

lemma in_sync_move:
  "widget_laws ws \<Longrightarrow> in_sync lib ws m \<Longrightarrow> in_sync lib ws (m\<lparr>t_bubble := tl_MoveUp ws n (t_bubble m)\<rparr>)"
  "widget_laws ws \<Longrightarrow> in_sync lib ws m \<Longrightarrow> in_sync lib ws (m\<lparr>t_bubble := tl_MoveDown ws n (t_bubble m)\<rparr>)"
  by (simp_all add: in_sync_def widget_laws_def)

lemma in_sync_handleKey:
  assumes "widget_laws ws" "in_sync lib ws m" shows "in_sync lib ws (fst (table_handleKey lib ws env m key))"
  using assms
  by (simp add: table_handleKey_def handleFilterKey_def clearFilterLocked_def cycleSortColumnLocked_def
      clearSortLocked_def toggleSortDirectionLocked_def Let_def in_sync_move)

lemma update_in_sync:
  assumes "widget_laws ws" and "in_sync lib ws m" and "\<not> (t_filtering m \<and> (\<exists>t. msg = OtherMsg t))"
  shows "in_sync lib ws (table_Update lib ws env m msg)"
  using assms in_sync_handleKey [OF assms(1,2)]
  by (cases msg) (simp_all add: table_Update_def Let_def split_beta)


lemma plain_widget_laws: "widget_laws plain_widgets"
  by (simp add: widget_laws_def plain_widgets_def split_beta)

definition shown_table :: "(row list \<times> int) Table" where
  "shown_table = refreshDisplayLocked plain_cells plain_widgets example_tenv False example_table"

lemma shown_table_in_sync: "in_sync plain_cells plain_widgets shown_table"
  by (simp add: shown_table_def plain_widget_laws)


text \<open>A text pasted into the filter changes the filter and leaves the rows as they were.\<close>

lemma pasted_filter_not_applied:
  fixes m :: "(row list \<times> int) Table"
  defines "m \<equiv> shown_table\<lparr>t_filtering := True\<rparr>"
  shows "in_sync plain_cells plain_widgets m
         \<and> t_filter (table_Update plain_cells plain_widgets example_tenv m (OtherMsg ''x'')) = ''x''
         \<and> \<not> in_sync plain_cells plain_widgets (table_Update plain_cells plain_widgets example_tenv m (OtherMsg ''x''))"
proof -
  have "t_filter (table_Update plain_cells plain_widgets example_tenv (shown_table\<lparr>t_filtering := True\<rparr>)
      (OtherMsg ''x'')) = ''x''"
    by code_simp
  moreover have "\<not> in_sync plain_cells plain_widgets
      (table_Update plain_cells plain_widgets example_tenv (shown_table\<lparr>t_filtering := True\<rparr>) (OtherMsg ''x''))"
    by code_simp
  ultimately show ?thesis by (simp add: m_def shown_table_in_sync)
qed

subsection \<open>The cycle of sort columns\<close>

definition sortable_cols :: "'b Table \<Rightarrow> int list" where
  "sortable_cols m = filter (\<lambda>c. c \<notin> set (t_unsortable m)) [0 .. int (length (t_originalCols m)) - 1]"

lemma refresh_fields [simp]:
  "t_sortCol (refreshDisplayLocked lib ws env reset m) = t_sortCol m"
  "t_unsortable (refreshDisplayLocked lib ws env reset m) = t_unsortable m"
  "t_originalCols (refreshDisplayLocked lib ws env reset m) = t_originalCols m"
  by (simp_all add: refreshDisplayLocked_def updateTableSizeLocked_def Let_def)

lemma cycle_fields [simp]:
  "t_sortCol (cycleSortColumnLocked lib ws env m) =
     (if nextSortableCol m (t_sortCol m + 1) < 0 then - 1 else nextSortableCol m (t_sortCol m + 1))"
  "t_unsortable (cycleSortColumnLocked lib ws env m) = t_unsortable m"
  "t_originalCols (cycleSortColumnLocked lib ws env m) = t_originalCols m"
  by (simp_all add: cycleSortColumnLocked_def clearSortLocked_def Let_def)

lemma nextSortableCol_cong:
  "t_unsortable m' = t_unsortable m \<Longrightarrow> t_originalCols m' = t_originalCols m
   \<Longrightarrow> nextSortableCol m' c = nextSortableCol m c"
  by (simp add: nextSortableCol_def)

text \<open>The first element above a bound, in an ascending list.\<close>

lemma find_hd_filter: "find P xs = (case filter P xs of [] \<Rightarrow> None | x # _ \<Rightarrow> Some x)"
  by (induction xs) auto

lemma filter_upto_from:
  "0 \<le> start \<Longrightarrow> filter P [start .. n] = filter (\<lambda>c. start \<le> c) (filter P [0 .. n])"
proof -
  assume "0 \<le> start"
  have "[start .. n] = filter (\<lambda>c. start \<le> c) [0 .. n]"
  proof (cases "start \<le> n")
    case True
    with \<open>0 \<le> start\<close> have "[0 .. n] = [0 .. start - 1] @ [start .. n]"
      using upto_split2 [of 0 "start - 1" n] upto_split1 [of 0 start n] by simp
    then show ?thesis by (simp add: filter_empty_conv)
  next
    case False
    then show ?thesis by (simp add: filter_empty_conv)
  qed
  then show ?thesis by (simp add: filter_filter conj_commute)
qed

lemma nextSortableCol_eq:
  "- 1 \<le> c \<Longrightarrow> nextSortableCol m (c + 1) =
     (case filter (\<lambda>d. c + 1 \<le> d) (sortable_cols m) of [] \<Rightarrow> - 1 | d # _ \<Rightarrow> d)"
  using filter_upto_from [of "c + 1" "\<lambda>c. c \<notin> set (t_unsortable m)" "int (length (t_originalCols m)) - 1"]
  by (simp add: nextSortableCol_def find_hd_filter sortable_cols_def split: list.splits)

lemma sorted_sortable_cols: "sorted_wrt (<) (sortable_cols m)"
  by (simp add: sortable_cols_def sorted_wrt_filter)

lemma sortable_cols_ge_0: "c \<in> set (sortable_cols m) \<Longrightarrow> 0 \<le> c"
  by (simp add: sortable_cols_def)

lemma filter_above_nth:
  assumes sorted: "sorted_wrt (<) (cs :: int list)" and k: "k < length cs"
  shows "filter (\<lambda>d. cs ! k + 1 \<le> d) cs = drop (Suc k) cs"
proof -
  have "filter (\<lambda>d. cs ! k + 1 \<le> d) (take (Suc k) cs) = []"
    unfolding filter_empty_conv
  proof
    fix d assume "d \<in> set (take (Suc k) cs)"
    then obtain i where "i \<le> k" "d = cs ! i" by (auto simp: in_set_conv_nth less_Suc_eq_le)
    with k sorted have "d \<le> cs ! k" using sorted_wrt_nth_less [OF sorted, of i k] by (cases "i = k") auto
    then show "\<not> cs ! k + 1 \<le> d" by simp
  qed
  moreover have "filter (\<lambda>d. cs ! k + 1 \<le> d) (drop (Suc k) cs) = drop (Suc k) cs"
    unfolding filter_id_conv
  proof
    fix d assume "d \<in> set (drop (Suc k) cs)"
    then obtain i where "i < length cs - Suc k" "d = cs ! (Suc k + i)" by (auto simp: in_set_conv_nth)
    moreover from this have "cs ! k < cs ! (Suc k + i)" by (intro sorted_wrt_nth_less [OF sorted]) simp_all
    ultimately show "cs ! k + 1 \<le> d" by simp
  qed
  ultimately show ?thesis by (metis append_Nil append_take_drop_id filter_append)
qed

text \<open>The column after \<open>k\<close> steps from load order.\<close>

definition col_after :: "int list \<Rightarrow> nat \<Rightarrow> int" where
  "col_after cs k = (if k = 0 \<or> length cs < k then - 1 else cs ! (k - 1))"

lemma cycle_step:
  assumes "t_sortCol m = col_after (sortable_cols m) k" and "k \<le> length (sortable_cols m)"
  shows "t_sortCol (cycleSortColumnLocked lib ws env m) = col_after (sortable_cols m) (Suc k)"
proof (cases k)
  case 0
  with assms(1) have c: "t_sortCol m = - 1" by (simp add: col_after_def)
  have "filter (\<lambda>d. 0 \<le> d) (sortable_cols m) = sortable_cols m"
    by (simp add: filter_id_conv sortable_cols_ge_0)
  then show ?thesis
    using nextSortableCol_eq [of "- 1" m] 0 c sortable_cols_ge_0 [of "hd (sortable_cols m)" m]
    by (cases "sortable_cols m") (simp_all add: col_after_def)
next
  case (Suc j)
  with assms have c: "t_sortCol m = sortable_cols m ! j" and j: "j < length (sortable_cols m)"
    by (simp_all add: col_after_def)
  then have "0 \<le> t_sortCol m" using sortable_cols_ge_0 [OF nth_mem [OF j]] by simp
  then have "nextSortableCol m (t_sortCol m + 1) = (case drop (Suc j) (sortable_cols m) of [] \<Rightarrow> - 1 | d # _ \<Rightarrow> d)"
    using nextSortableCol_eq [of "t_sortCol m" m] filter_above_nth [OF sorted_sortable_cols j] c by simp
  then show ?thesis
    using Suc sortable_cols_ge_0 [of "sortable_cols m ! Suc j" m]
    by (cases "Suc j < length (sortable_cols m)")
       (simp_all add: col_after_def Cons_nth_drop_Suc [symmetric])
qed

text \<open>The key that changes the sort column visits every sortable column once, from left to right, and then
  returns to load order, whatever columns are excluded.
\<close>
theorem sort_cycle_visits_all:
  assumes "t_sortCol m = - 1"
  shows "map (\<lambda>k. t_sortCol ((cycleSortColumnLocked lib ws env ^^ k) m)) [1 ..< length (sortable_cols m) + 2] =
           sortable_cols m @ [- 1]"
proof -
  let ?cs = "sortable_cols m" and ?f = "cycleSortColumnLocked lib ws env"
  have fields: "t_unsortable ((?f ^^ k) m) = t_unsortable m" "t_originalCols ((?f ^^ k) m) = t_originalCols m" for k
    by (induction k) simp_all
  then have cs: "sortable_cols ((?f ^^ k) m) = ?cs" for k by (simp add: sortable_cols_def)
  have step: "k \<le> length ?cs + 1 \<Longrightarrow> t_sortCol ((?f ^^ k) m) = col_after ?cs k" for k
  proof (induction k)
    case (Suc k)
    then show ?case using cycle_step [of "(?f ^^ k) m" k lib ws env] by (simp add: cs)
  qed (simp add: assms col_after_def)
  show ?thesis
  proof (rule nth_equalityI)
    fix i assume "i < length (map (\<lambda>k. t_sortCol ((?f ^^ k) m)) [1 ..< length ?cs + 2])"
    then have i: "i < length ?cs + 1" by (simp only: length_map length_upt)
    then have "map (\<lambda>k. t_sortCol ((?f ^^ k) m)) [1 ..< length ?cs + 2] ! i = t_sortCol ((?f ^^ (1 + i)) m)"
      by (simp add: nth_upt del: funpow.simps upt_Suc)
    also have "\<dots> = col_after ?cs (1 + i)" using i by (intro step) simp
    also have "\<dots> = (?cs @ [- 1]) ! i" using i by (auto simp: col_after_def nth_append)
    finally show "map (\<lambda>k. t_sortCol ((?f ^^ k) m)) [1 ..< length ?cs + 2] ! i = (?cs @ [- 1]) ! i" .
  qed (simp del: upt_Suc)
qed

lemma sort_cycle_visits_all_witness:
  "map (\<lambda>k. t_sortCol ((cycleSortColumnLocked plain_cells plain_widgets example_tenv ^^ k)
      (example_table\<lparr>t_sortCol := - 1\<rparr>))) [1 ..< 4] = [0, 1, - 1]"
proof -
  have cols: "sortable_cols (example_table\<lparr>t_sortCol := - 1\<rparr>) = [0, 1]" by code_simp
  have n: "length [0 :: int, 1] + 2 = 4" by simp
  show ?thesis
    by (rule sort_cycle_visits_all [of "example_table\<lparr>t_sortCol := - 1\<rparr>" plain_cells plain_widgets example_tenv,
          unfolded cols n append.simps]) simp
qed

subsection \<open>The widths of the columns\<close>

definition share :: "int \<Rightarrow> int \<Rightarrow> int \<Rightarrow> int" where
  "share t w x = max 1 ((t * x) div w)"

lemma sum_shares_le:
  "0 < w \<Longrightarrow> 0 \<le> t \<Longrightarrow> \<forall>x\<in>set xs. 0 < x \<Longrightarrow>
   w * sum_list (map (share t w) xs) \<le> t * sum_list xs + w * int (length xs)"
proof (induction xs)
  case (Cons x xs)
  have "w * share t w x \<le> t * x + w"
  proof (cases "1 \<le> (t * x) div w")
    case True
    then have "w * share t w x = t * x - (t * x) mod w" by (simp add: share_def max_def minus_mod_eq_mult_div)
    then show ?thesis using Cons.prems(1) pos_mod_sign [OF Cons.prems(1), of "t * x"] by linarith
  next
    case False
    then show ?thesis using Cons.prems by (simp add: share_def max_def)
  qed
  with Cons show ?case by (simp add: algebra_simps)
qed simp

lemma sum_list_positive: "\<forall>x\<in>set xs. 0 < x \<Longrightarrow> xs \<noteq> [] \<Longrightarrow> 0 < sum_list (xs :: int list)"
proof (induction xs)
  case (Cons x xs)
  then show ?case by (cases "xs = []") auto
qed simp

lemma last_share_left:
  assumes "\<forall>x\<in>set ws. 0 < x" and "ws \<noteq> []" and "0 \<le> t" and "int (length ws) * sum_list ws \<le> t * last ws"
  shows "1 \<le> t - sum_list (map (share t (sum_list ws)) (butlast ws))"
proof -
  let ?w = "sum_list ws" and ?b = "butlast ws"
  have ws: "ws = ?b @ [last ws]" using assms(2) by simp
  have split: "?w = sum_list ?b + last ws" "int (length ws) = int (length ?b) + 1"
    by (subst ws, simp)+
  have "0 \<le> sum_list ?b" using assms(1) by (intro sum_list_nonneg) (auto dest: in_set_butlastD intro: less_imp_le)
  moreover have "0 < last ws" using assms(1,2) by simp
  ultimately have w: "0 < ?w" using split(1) by linarith
  then have "?w * sum_list (map (share t ?w) ?b) \<le> t * sum_list ?b + ?w * int (length ?b)"
    using assms(1,3) by (intro sum_shares_le) (auto dest: in_set_butlastD)
  moreover have "t * ?w = t * sum_list ?b + t * last ws" using split(1) by (simp add: distrib_left)
  moreover have "int (length ?b) * ?w + ?w \<le> t * last ws"
    using assms(4) by (simp only: split(2) distrib_right mult_1)
  ultimately have "?w * sum_list (map (share t ?w) ?b) + ?w \<le> t * ?w"
    using mult.commute [of "int (length ?b)" ?w] by linarith
  then have "?w * (sum_list (map (share t ?w) ?b) + 1) \<le> ?w * t" by (simp add: distrib_left mult.commute)
  with w show ?thesis by (simp add: mult_le_cancel_left_pos)
qed

text \<open>The widths that \<open>scaledColumns\<close> gives.\<close>

lemma scaled_widths:
  fixes m :: "'b Table" and env
  defines "ws \<equiv> map col_Width (t_originalCols m)" and "t \<equiv> column_target env m"
  defines "fs \<equiv> map (share t (sum_list ws)) ws"
  assumes "ws \<noteq> []" and "0 < sum_list ws"
  shows "map col_Width (scaledColumns env m) =
           (if t = sum_list fs then fs else butlast fs @ [max 1 (t - sum_list (butlast fs))])"
proof -
  define out where "out = (if 0 \<le> t_sortCol m \<and> t_sortCol m < int (length (t_originalCols m))
      then (t_originalCols m)[nat (t_sortCol m) := (t_originalCols m ! nat (t_sortCol m))
        \<lparr>col_Title := col_Title (t_originalCols m ! nat (t_sortCol m)) @ sort_mark (t_sortAsc m)\<rparr>]
      else t_originalCols m)"
  define out2 where "out2 = map (\<lambda>c. c\<lparr>col_Width := max 1 ((t * col_Width c) div sum_list ws)\<rparr>) out"
  have "map col_Width out = ws"
    by (auto simp: out_def ws_def map_update list_update_id nth_map [symmetric] simp del: nth_map)
  moreover have "map col_Width out2 = map (share t (sum_list ws)) (map col_Width out)"
    by (simp add: out2_def share_def)
  ultimately have fs: "map col_Width out2 = fs" by (simp only: fs_def)
  have ne: "out2 \<noteq> []" using fs assms(4) by (auto simp: fs_def)
  have last: "last fs = col_Width (last out2)" using ne by (simp add: fs [symmetric] last_map)
  have "fs = butlast fs @ [last fs]" using fs ne by (metis append_butlast_last_id map_is_Nil_conv)
  then have sum: "sum_list fs = sum_list (butlast fs) + last fs"
    by (metis sum_list_append sum_list.Cons sum_list.Nil add.right_neutral)
  have scaled: "scaledColumns env m =
      (if t - sum_list (map col_Width out2) \<noteq> 0
       then butlast out2 @ [(last out2)\<lparr>col_Width := max 1 (col_Width (last out2) + (t - sum_list (map col_Width out2)))\<rparr>]
       else out2)"
    using assms(4,5) unfolding scaledColumns_def Let_def out2_def out_def ws_def t_def by auto
  show ?thesis
    using ne last [symmetric] by (simp add: scaled fs map_butlast sum)
qed

text \<open>The columns fill the table exactly: their widths, with the padding of each cell and the frame, add up to
  the width of the table, and none is narrower than one cell, when the last column's share is at least a cell for
  every column.
\<close>
theorem columns_fill_width:
  assumes "\<forall>c\<in>set (t_originalCols m). 0 < col_Width c" and "t_originalCols m \<noteq> []"
    and "int (length (t_originalCols m)) * sum_list (map col_Width (t_originalCols m))
           \<le> column_target env m * col_Width (last (t_originalCols m))"
  shows "sum_list (map col_Width (scaledColumns env m)) = column_target env m
         \<and> list_all (\<lambda>w. 1 \<le> w) (map col_Width (scaledColumns env m))"
proof -
  define ws where "ws = map col_Width (t_originalCols m)"
  define t where "t = column_target env m"
  define fs where "fs = map (share t (sum_list ws)) ws"
  have ws: "\<forall>x\<in>set ws. 0 < x" "ws \<noteq> []" using assms(1,2) by (auto simp: ws_def)
  have t: "0 \<le> t" by (simp add: t_def column_target_def Let_def)
  have len: "int (length ws) * sum_list ws \<le> t * last ws"
    using assms(2,3) by (simp add: ws_def t_def last_map)
  have w: "0 < sum_list ws" using ws by (rule sum_list_positive)
  have left: "1 \<le> t - sum_list (butlast fs)"
    using last_share_left [OF ws t len] by (simp add: fs_def map_butlast)
  have "\<forall>x\<in>set fs. 1 \<le> x" by (auto simp: fs_def share_def)
  moreover from this have "\<forall>x\<in>set (butlast fs). 1 \<le> x" by (blast dest: in_set_butlastD)
  moreover have "map col_Width (scaledColumns env m) =
      (if t = sum_list fs then fs else butlast fs @ [max 1 (t - sum_list (butlast fs))])"
    unfolding fs_def ws_def t_def by (rule scaled_widths) (use ws(2) w in \<open>simp_all add: ws_def\<close>)
  ultimately show ?thesis using left by (simp add: t_def [symmetric] list_all_iff)
qed

lemma columns_fill_width_witness:
  "map col_Width (scaledColumns example_tenv example_table) = [48, 16] \<and> column_target example_tenv example_table = 64
   \<and> sum_list (map col_Width (scaledColumns example_tenv example_table)) = 64"
proof -
  have "map col_Width (scaledColumns example_tenv example_table) = [48, 16]" by code_simp
  moreover have target: "column_target example_tenv example_table = 64" by code_simp
  moreover have "sum_list (map col_Width (scaledColumns example_tenv example_table))
      = column_target example_tenv example_table"
    by (rule conjunct1 [OF columns_fill_width]) (simp_all add: target, simp_all add: example_table_def)
  ultimately show ?thesis by simp
qed

end
