(* ===== verification/NetHost.thy ===== *)
theory NetHost
  imports Socks TunnelConfig ConfigCorrect
begin

text \<open>
  Host names and TLS versions of the settings (\<open>internal/core/netutil/net.go\<close>): the split of an input
  into a host and the path behind it, the normal form of a host, TLS versions and schemes. The
  conversion of an internationalised name (\<open>idna.ToASCII\<close>) is a parameter. The lemmas relate the
  host names that pass to those the validator of the settings accepts.
\<close>

subsection \<open>Hosts\<close>

fun index_sub :: "string \<Rightarrow> string \<Rightarrow> nat option" where
  "index_sub w [] = (if w = [] then Some 0 else None)"
| "index_sub w (c # cs) = (if is_prefix w (c # cs) then Some 0 else map_option Suc (index_sub w cs))"

definition trim_set :: "char set \<Rightarrow> string \<Rightarrow> string" where
  "trim_set cs s = rev (dropWhile (\<lambda>c. c \<in> cs) (rev (dropWhile (\<lambda>c. c \<in> cs) s)))"

definition extractHostAndSuffix :: "string \<Rightarrow> (string \<times> string) option" where
  "extractHostAndSuffix input0 =
     (let input1 = trim_space input0;
          input = (case index_sub ''://'' input1 of Some i \<Rightarrow> drop (i + 3) input1 | None \<Rightarrow> input1);
          stop = (\<lambda>c. c = CHR ''/'' \<or> c = CHR ''?'');
          rest = dropWhile (\<lambda>c. \<not> stop c) input;
          hostport = takeWhile (\<lambda>c. \<not> stop c) input;
          host = (case split_host_port hostport of
                    Some (h, p) \<Rightarrow> h
                  | None \<Rightarrow> trim_set {CHR ''['', CHR '']''} hostport)
      in if host = [] then None else Some (host, rest))"

text \<open>\<open>hostPattern\<close>: \<open>localhost\<close>, or labels of at most 63 letters, digits and hyphens before a last one of
  2 to 63 letters.\<close>

definition pattern_label :: "string \<Rightarrow> bool" where
  "pattern_label l \<longleftrightarrow> 1 \<le> length l \<and> length l \<le> 63 \<and> list_all (\<lambda>c. is_alnum c \<or> c = CHR ''-'') l"

definition pattern_tld :: "string \<Rightarrow> bool" where
  "pattern_tld l \<longleftrightarrow> 2 \<le> length l \<and> length l \<le> 63 \<and> list_all is_alpha l"

definition hostPattern :: "string \<Rightarrow> bool" where
  "hostPattern h \<longleftrightarrow>
     h = ''localhost''
     \<or> (let parts = split_on (CHR ''.'') h
        in 2 \<le> length parts \<and> list_all pattern_label (butlast parts) \<and> pattern_tld (last parts))"

text \<open>\<open>netip.Addr.String\<close> of a parsed address, with its zone.\<close>

definition parsed_text :: "string \<Rightarrow> string option" where
  "parsed_text host =
     (case parse_addr_zone host of
        None \<Rightarrow> None
      | Some (a, zone) \<Rightarrow> Some (show_addr a @ (if zone then dropWhile (\<lambda>c. c \<noteq> CHR ''%'') host else [])))"

definition normalizeHost :: "(string \<Rightarrow> string option) \<Rightarrow> string \<Rightarrow> string option" where
  "normalizeHost to_ascii host =
     (case parsed_text host of
        Some s \<Rightarrow> Some s
      | None \<Rightarrow>
          (case to_ascii host of
             None \<Rightarrow> None
           | Some ascii \<Rightarrow> if hostPattern ascii then Some ascii else None))"

definition NormalizeHostWithSuffix :: "(string \<Rightarrow> string option) \<Rightarrow> string \<Rightarrow> string option" where
  "NormalizeHostWithSuffix to_ascii input =
     (case extractHostAndSuffix input of
        None \<Rightarrow> None
      | Some (host, rest) \<Rightarrow>
          (case normalizeHost to_ascii host of
             None \<Rightarrow> None
           | Some n \<Rightarrow>
               (case parse_addr_zone n of
                  Some (a, zone) \<Rightarrow> Some (if is6 a then ''['' @ n @ '']'' @ rest else n @ rest)
                | None \<Rightarrow> Some (n @ rest))))"

definition ExtractTLSServerName :: "(string \<Rightarrow> string option) \<Rightarrow> string \<Rightarrow> string option" where
  "ExtractTLSServerName to_ascii input =
     (case extractHostAndSuffix input of
        None \<Rightarrow> None
      | Some (host, rest) \<Rightarrow> normalizeHost to_ascii host)"

subsection \<open>Schemes, ports and TLS versions\<close>

definition IsHTTPS :: "string \<Rightarrow> bool" where
  "IsHTTPS protocol \<longleftrightarrow> equal_fold protocol ''https'' \<or> equal_fold protocol ''https://''"

definition ProtocolToScheme :: "string \<Rightarrow> string" where
  "ProtocolToScheme protocol = (if IsHTTPS protocol then ''https://'' else ''http://'')"

definition ParsePortOrDefault :: "int \<Rightarrow> u16 \<Rightarrow> u16" where
  "ParsePortOrDefault port defaultPort =
     (if port < 0 \<or> 65535 < port then defaultPort else word_of_int port)"

definition ParseTLSVersion :: "string \<Rightarrow> u16 option" where
  "ParseTLSVersion v0 =
     (let v = to_lower (trim_space v0)
      in if v \<in> {''tls1.0'', ''1.0''} then Some 0x0301
         else if v \<in> {''tls1.1'', ''1.1''} then Some 0x0302
         else if v \<in> {''tls1.2'', ''1.2''} then Some 0x0303
         else if v \<in> {''tls1.3'', ''1.3''} then Some 0x0304
         else None)"

text \<open>\<open>errors.As\<close> finds the first errno of the chain of an error; only that one is compared.\<close>

datatype errno = E_NETUNREACH | E_HOSTUNREACH | E_ADDRNOTAVAIL | E_AFNOSUPPORT | E_CONNREFUSED | E_other nat

definition unreachableErrnos :: "errno list" where
  "unreachableErrnos = [E_NETUNREACH, E_HOSTUNREACH, E_ADDRNOTAVAIL, E_AFNOSUPPORT]"

definition IsUnreachable :: "errno option list \<Rightarrow> bool" where
  "IsUnreachable chain =
     (case find (\<lambda>e. e \<noteq> None) chain of
        Some (Some e) \<Rightarrow> e \<in> set unreachableErrnos
      | _ \<Rightarrow> False)"

subsection \<open>What passes\<close>

text \<open>Letters, digits, hyphens and dots: the characters of a domain name.\<close>

definition name_char :: "char \<Rightarrow> bool" where
  "name_char c \<longleftrightarrow> is_alnum c \<or> c = CHR ''-'' \<or> c = CHR ''.''"

lemma name_char_facts [simp]:
  "\<not> name_char (CHR '':'')" "\<not> name_char (CHR ''/'')" "\<not> name_char (CHR ''?'')" "\<not> name_char (CHR ''['')"
  "\<not> name_char (CHR '']'')" "\<not> name_char (CHR ''%'')"
  by (simp_all add: name_char_def is_alnum_def is_alpha_def is_digit_def)

lemma ws_runes_no_name:
  "list_all (\<lambda>w. w \<noteq> [] \<and> \<not> name_char (hd w) \<and> \<not> name_char (last w)) ws_runes"
  by code_simp

lemma trim_front_other:
  "s \<noteq> [] \<Longrightarrow> \<forall>w \<in> set ws. w \<noteq> [] \<longrightarrow> hd w \<noteq> hd s \<Longrightarrow> trim_front ws s = s"
proof (cases s)
  case (Cons c t)
  assume "\<forall>w \<in> set ws. w \<noteq> [] \<longrightarrow> hd w \<noteq> hd s"
  with Cons have "\<forall>w \<in> set ws. \<not> (w \<noteq> [] \<and> prefix w (c # t))"
    by (auto simp: prefix_Cons)
  then have "find (\<lambda>w. w \<noteq> [] \<and> is_prefix w (c # t)) ws = None"
    by (auto simp: find_None_iff)
  with Cons show ?thesis by simp
qed simp

lemma trim_space_name: "list_all name_char s \<Longrightarrow> trim_space s = s"
proof (cases "s = []")
  case False
  assume nm: "list_all name_char s"
  have "name_char (hd s)" "name_char (last s)"
    using nm False by (auto simp: list_all_iff)
  then have 1: "\<forall>w \<in> set ws_runes. w \<noteq> [] \<longrightarrow> hd w \<noteq> hd s"
    and 2: "\<forall>w \<in> set (map rev ws_runes). w \<noteq> [] \<longrightarrow> hd w \<noteq> hd (rev s)"
    using ws_runes_no_name False by (auto simp: list_all_iff hd_rev)
  then show ?thesis
    using trim_front_other [OF False 1] trim_front_other [of "rev s", OF _ 2] False
    by (simp add: trim_space_def trim_left_def trim_right_def)
qed simp

lemma index_sub_absent: "c \<in> set w \<Longrightarrow> c \<notin> set s \<Longrightarrow> index_sub w s = None"
proof (induction s)
  case (Cons a s)
  then have "\<not> prefix w (a # s)" by (metis set_mono_prefix subsetD)
  with Cons show ?case by auto
qed auto

lemma split_host_port_name: "CHR '':'' \<notin> set s \<Longrightarrow> split_host_port s = None"
proof -
  assume "CHR '':'' \<notin> set s"
  then have "cut (CHR '':'') (rev s) = None" by simp
  then show ?thesis by (simp add: split_host_port_def cut_last_def del: cut_None)
qed

lemma trim_set_name: "\<forall>c \<in> set s. c \<notin> cs \<Longrightarrow> trim_set cs s = s"
proof -
  assume a: "\<forall>c \<in> set s. c \<notin> cs"
  then have 1: "dropWhile (\<lambda>c. c \<in> cs) s = s"
    by (cases s) auto
  from a have 2: "dropWhile (\<lambda>c. c \<in> cs) (rev s) = rev s"
    by (cases "rev s") (auto simp: rev_eq_Cons_iff)
  from 1 2 show ?thesis by (simp add: trim_set_def)
qed

lemma extract_name:
  assumes nm: "list_all name_char s" and "s \<noteq> []"
  shows "extractHostAndSuffix s = Some (s, [])"
proof -
  have no: "CHR '':'' \<notin> set s" "CHR ''/'' \<notin> set s" "CHR ''?'' \<notin> set s" "CHR ''['' \<notin> set s" "CHR '']'' \<notin> set s"
    using nm by (auto simp: list_all_iff)
  have idx: "index_sub ''://'' s = None"
    by (rule index_sub_absent [of "CHR '':''"]) (use no in simp_all)
  have tw: "takeWhile (\<lambda>c. \<not> (c = CHR ''/'' \<or> c = CHR ''?'')) s = s"
    "dropWhile (\<lambda>c. \<not> (c = CHR ''/'' \<or> c = CHR ''?'')) s = []"
    using no by (auto simp: takeWhile_eq_all_conv)
  have tr: "trim_set {CHR ''['', CHR '']''} s = s"
    by (rule trim_set_name) (use no in auto)
  show ?thesis
    using assms(2) by (simp add: extractHostAndSuffix_def Let_def trim_space_name [OF nm] idx tw
        split_host_port_name [OF no(1)] tr del: de_Morgan_disj)
qed

lemma in_split_on: "x \<in> set s \<Longrightarrow> x \<noteq> b \<Longrightarrow> \<exists>p \<in> set (split_on b s). x \<in> set p"
  by (induction s) (auto split: list.splits)

text \<open>A name the validator accepts is made of the characters of a name, unless it is an address.\<close>

lemma valid_domain_chars:
  assumes "isValidDomain h" and "\<not> parses_as_ip h"
  shows "h \<noteq> [] \<and> list_all name_char h"
proof -
  have "list_all name_char ''localhost''" by code_simp
  moreover have "list_all name_char h" if "list_all domain_label (split_on (CHR ''.'') h)"
  proof -
    have "name_char c" if "c \<in> set h" for c
      using in_split_on [OF that, of "CHR ''.''"] \<open>list_all domain_label _\<close>
      by (cases "c = CHR ''.''") (auto simp: list_all_iff domain_label_def name_char_def)
    then show ?thesis by (simp add: list_all_iff)
  qed
  ultimately show ?thesis using assms
    by (auto simp: isValidDomain_def Let_def split: if_splits)
qed

lemma valid_domain_pattern:
  assumes "isValidDomain h" and "\<not> parses_as_ip h"
    and "h = ''localhost'' \<or> pattern_tld (last (split_on (CHR ''.'') h))"
  shows "hostPattern h"
proof (cases "h = ''localhost''")
  case False
  then have parts: "2 \<le> length (split_on (CHR ''.'') h)" "list_all domain_label (split_on (CHR ''.'') h)"
    using assms(1,2) by (auto simp: isValidDomain_def Let_def split: if_splits)
  have "list_all pattern_label (butlast (split_on (CHR ''.'') h))"
    using parts(2) by (auto simp: list_all_iff domain_label_def pattern_label_def Suc_le_eq dest: in_set_butlastD)
  with parts(1) False assms(3) show ?thesis
    by (simp add: hostPattern_def Let_def)
qed (simp add: hostPattern_def)

lemma name_no_zone: "list_all name_char h \<Longrightarrow> parse_addr_zone h = Some (a, z) \<Longrightarrow> \<not> z"
  by (auto simp: parse_addr_zone_def find_Some_iff list_all_iff split: option.splits if_splits)
     (metis name_char_facts nth_mem)+

end
