(* ===== verification/HttpProbe.thy ===== *)
theory HttpProbe
  imports NetHost DNSProbe
begin

text \<open>
  The HTTP probe (\<open>internal/core/scanner/probe/httpprobe\<close>): the request built from the settings, the
  filter of status codes, the transport of the standard library bound to the probed address, the
  transport with a foreign TLS fingerprint, HTTP/3, and \<open>Run\<close>. The HTTP client of the library is a tree
  of what it asks its transport for: a connection to a host, or to the proxy of a transport that has
  one. The functions that answer are the code's; the network, the handshake and the URL parser are
  parameters. Every connection is recorded with the server name sent in its handshake.
\<close>

subsection \<open>The request\<close>

datatype http_mode = H1H2 | H1 | H2

record HTTPRequest =
  RqURL :: string
  RqHost :: string
  RqSNI :: string
  RqVersion :: http_mode
  RqUseTLS :: bool
  RqSkipVerify :: bool
  RqFingerprint :: string
  RqTimeout :: int
  RqMinTLS :: u16
  RqMaxTLS :: u16

text \<open>\<open>url_set_host\<close> parses a URL, assigns its host and prints it; \<open>url_parts\<close> is the scheme, host and port of
  the URL of a request.\<close>

record url_lib =
  to_ascii :: "string \<Rightarrow> string option"
  url_set_host :: "string \<Rightarrow> string \<Rightarrow> string option"
  url_parts :: "string \<Rightarrow> (string \<times> string \<times> string) option"

datatype request_err = HostErr | PortErr | TLSVersionErr | TLSOrderErr | URLErr

definition isHTTPS :: "string \<Rightarrow> bool" where
  "isHTTPS s0 = (let s = trim_space s0 in 5 \<le> length s \<and> equal_fold (take 5 s) ''https'')"

definition defaultPort :: "int \<Rightarrow> bool \<Rightarrow> u16 option" where
  "defaultPort port useTLS =
     (if port < 0 \<or> 65535 < port then None
      else if port \<noteq> 0 then Some (word_of_int port)
      else if useTLS then Some 443 else Some 80)"

definition resolveSNI :: "string \<Rightarrow> bool \<Rightarrow> string" where
  "resolveSNI serverName useTLS = (if serverName \<noteq> [] then serverName else [])"

definition resolveHTTPVersion :: "string \<Rightarrow> http_mode" where
  "resolveHTTPVersion protocol =
     (let p = to_lower (trim_space protocol)
      in if p \<in> {''h1'', ''http/1'', ''http/1.1'', ''http1''} then H1
         else if p \<in> {''h2'', ''http/2'', ''http2''} then H2 else H1H2)"

definition resolveTLSVersions :: "HTTPConfig \<Rightarrow> request_err + u16 \<times> u16" where
  "resolveTLSVersions cfg =
     (case ParseTLSVersion (MinTLSVersion cfg) of
        None \<Rightarrow> Inl TLSVersionErr
      | Some mn \<Rightarrow>
          (case ParseTLSVersion (MaxTLSVersion cfg) of
             None \<Rightarrow> Inl TLSVersionErr
           | Some mx \<Rightarrow> if mx < mn then Inl TLSOrderErr else Inr (mn, mx)))"

definition NewHTTPRequestFromConfig :: "'z url_lib_scheme \<Rightarrow> HTTPConfig \<Rightarrow> request_err + HTTPRequest" where
  "NewHTTPRequestFromConfig lib cfg =
     (let useHTTPS = isHTTPS (Protocol cfg); scheme = (if useHTTPS then ''https://'' else ''http://'')
      in case ExtractTLSServerName (to_ascii lib) (Host cfg) of
           None \<Rightarrow> Inl HostErr
         | Some host \<Rightarrow>
      (case NormalizeHostWithSuffix (to_ascii lib) (Host cfg) of
         None \<Rightarrow> Inl HostErr
       | Some urlHost \<Rightarrow>
      (case defaultPort (HttpPort cfg) useHTTPS of
         None \<Rightarrow> Inl PortErr
       | Some port \<Rightarrow>
      (let sni = resolveSNI (if ServerName cfg = [] then host else ServerName cfg) useHTTPS
       in case resolveTLSVersions cfg of
            Inl e \<Rightarrow> Inl e
          | Inr (mn, mx) \<Rightarrow>
      (case url_set_host lib (scheme @ urlHost) (join_host_port host (show_nat (unat port))) of
         None \<Rightarrow> Inl URLErr
       | Some u \<Rightarrow>
           Inr \<lparr>RqURL = u, RqHost = host, RqSNI = sni, RqVersion = resolveHTTPVersion (HttpVersion cfg),
                RqUseTLS = useHTTPS, RqSkipVerify = \<not> TLSValidation cfg, RqFingerprint = Fingerprint cfg,
                RqTimeout = Duration (HttpTimeout cfg), RqMinTLS = mn, RqMaxTLS = mx\<rparr>)))))"

subsection \<open>Status codes and TLS\<close>

text \<open>The empty set is the filter that accepts everything.\<close>

definition totalHTTPStatusCodes :: nat where "totalHTTPStatusCodes = 63"

definition newStatusFilter :: "int list \<Rightarrow> nat \<Rightarrow> int set" where
  "newStatusFilter codes limit = (if codes = [] \<or> limit \<le> length codes then {} else set codes)"

definition isAccepted :: "int set \<Rightarrow> int \<Rightarrow> bool" where
  "isAccepted f code \<longleftrightarrow> f = {} \<or> code \<in> f"

record tls_config =
  TlsServerName :: string
  TlsSkipVerify :: bool
  TlsMin :: u16
  TlsMax :: u16

definition newTLSConfig :: "HTTPRequest \<Rightarrow> tls_config option" where
  "newTLSConfig req =
     (if \<not> RqUseTLS req then None
      else Some \<lparr>TlsServerName = RqSNI req, TlsSkipVerify = RqSkipVerify req, TlsMin = RqMinTLS req,
                 TlsMax = RqMaxTLS req\<rparr>)"

subsection \<open>The client of the library\<close>

datatype dial_ask = ForHost string | ForProxy string

datatype trip =
  Ask dial_ask "go_err + string \<Rightarrow> trip"
| Answer "go_err + int \<times> string"

datatype redirects =
  Follow string string "go_err + int \<times> string \<Rightarrow> redirects"
| Final "go_err + int \<times> string"

record std_transport =
  TrTLS :: "tls_config option"
  TrForceHTTP2 :: bool
  TrNoUpgrade :: bool
  TrTimeout :: int

datatype utls_kind = UtlsHTTP1 | UtlsHTTP2

text \<open>The clients: over the standard transport, over a round tripper (with the requests of a chain of
  redirects), over the inner transports of the round tripper, and over QUIC. \<open>net_dial\<close> fails or connects to an
  address; \<open>tls_hand\<close> is the handshake with a server name, giving the protocol agreed on. Both depend on the
  number of connections made before.\<close>

record http_lib = url_lib +
  std_do :: "std_transport \<Rightarrow> string \<Rightarrow> trip"
  utls_do :: "string \<Rightarrow> redirects"
  inner_do :: "utls_kind \<Rightarrow> string \<Rightarrow> trip"
  plain_do :: "string \<Rightarrow> trip"
  quic_do :: "tls_config option \<Rightarrow> string \<Rightarrow> string \<Rightarrow> string \<Rightarrow> go_err + int \<times> string"
  net_dial :: "nat \<Rightarrow> string \<Rightarrow> go_err option"
  tls_hand :: "nat \<Rightarrow> string \<Rightarrow> tls_config \<Rightarrow> go_err + string"
  http_latency :: int

type_synonym dial_log = "(string \<times> string option) list"

primrec run_trip :: "('s \<Rightarrow> dial_ask \<Rightarrow> (go_err + string) \<times> 's) \<Rightarrow> trip \<Rightarrow> 's \<Rightarrow> (go_err + int \<times> string) \<times> 's" where
  "run_trip hook (Answer r) = (\<lambda>s. (r, s))"
| "run_trip hook (Ask a k) = (\<lambda>s. case hook s a of (x, s') \<Rightarrow> run_trip hook (k x) s')"

fun asked :: "dial_ask \<Rightarrow> string" where
  "asked (ForHost a) = a"
| "asked (ForProxy a) = a"

definition connect_to :: "http_lib \<Rightarrow> string \<Rightarrow> dial_log \<Rightarrow> (go_err + string) \<times> dial_log" where
  "connect_to lib d dials =
     (case net_dial lib (length dials) d of Some e \<Rightarrow> Inl e | None \<Rightarrow> Inr [], dials @ [(d, None)])"

subsection \<open>The standard transport\<close>

text \<open>\<open>DialContext\<close> of \<open>newStdClient\<close>: the port that was asked for, at the probed address.\<close>

definition std_hook :: "http_lib \<Rightarrow> addr \<Rightarrow> dial_log \<Rightarrow> dial_ask \<Rightarrow> (go_err + string) \<times> dial_log" where
  "std_hook lib ip dials a =
     (case split_host_port (asked a) of
        None \<Rightarrow> (Inl (wrap_err None), dials)
      | Some (h, port) \<Rightarrow> connect_to lib (join_host_port (show_addr ip) port) dials)"

definition newStdClient :: "HTTPRequest \<Rightarrow> std_transport" where
  "newStdClient req =
     \<lparr>TrTLS = newTLSConfig req, TrForceHTTP2 = (RqVersion req \<noteq> H1), TrNoUpgrade = (RqVersion req = H1),
      TrTimeout = RqTimeout req\<rparr>"

subsection \<open>The transport with a fingerprint\<close>

definition utlsDialContext ::
    "http_lib \<Rightarrow> addr \<Rightarrow> tls_config \<Rightarrow> string \<Rightarrow> dial_log \<Rightarrow> (go_err + string) \<times> dial_log" where
  "utlsDialContext lib ip conf0 addr dials =
     (case split_host_port addr of
        None \<Rightarrow> (Inl (wrap_err None), dials)
      | Some (host, port) \<Rightarrow>
          let conf = (if TlsServerName conf0 = [] then conf0\<lparr>TlsServerName := host\<rparr> else conf0);
              d = join_host_port (show_addr ip) port
          in case net_dial lib (length dials) d of
               Some e \<Rightarrow> (Inl e, dials @ [(d, None)])
             | None \<Rightarrow>
                 (case tls_hand lib (length dials) d conf of
                    Inl e \<Rightarrow> (Inl (ErrBadResponse # e), dials @ [(d, Some (TlsServerName conf))])
                  | Inr alpn \<Rightarrow> (Inr alpn, dials @ [(d, Some (TlsServerName conf))])))"

text \<open>The inner transport with the address it was made for and the protocol of its first connection,
  which waits to be used (\<open>bootstrapConn\<close>).\<close>

record utlsRoundTripper =
  RtInner :: "(utls_kind \<times> string \<times> string) option"
  RtBoot :: "string option"
  RtLog :: dial_log

definition pick_kind :: "http_mode \<Rightarrow> string \<Rightarrow> utls_kind" where
  "pick_kind version alpn =
     (case version of
        H1 \<Rightarrow> UtlsHTTP1 | H2 \<Rightarrow> UtlsHTTP2 | H1H2 \<Rightarrow> if alpn = ''h2'' then UtlsHTTP2 else UtlsHTTP1)"

definition makeRoundTripper ::
    "http_lib \<Rightarrow> addr \<Rightarrow> tls_config \<Rightarrow> http_mode \<Rightarrow> string \<Rightarrow> utlsRoundTripper
     \<Rightarrow> go_err option \<times> utlsRoundTripper" where
  "makeRoundTripper lib ip conf version host rt =
     (let addr = (if split_host_port host = None then join_host_port host ''443'' else host)
      in case utlsDialContext lib ip conf addr (RtLog rt) of
           (Inl e, dials) \<Rightarrow> (Some (wrap_err (Some e)), rt\<lparr>RtLog := dials\<rparr>)
         | (Inr alpn, dials) \<Rightarrow>
             (None, rt\<lparr>RtInner := Some (pick_kind version alpn, addr, alpn), RtBoot := Some alpn, RtLog := dials\<rparr>))"

text \<open>\<open>newDialTLSContext\<close> for a connection to a host. The transports are clones of the default one, so a
  proxy of the environment is dialled by the dialer of the library.\<close>

definition utls_hook ::
    "http_lib \<Rightarrow> addr \<Rightarrow> tls_config \<Rightarrow> string \<Rightarrow> string \<Rightarrow> utlsRoundTripper \<Rightarrow> dial_ask
     \<Rightarrow> (go_err + string) \<times> utlsRoundTripper" where
  "utls_hook lib ip conf addr protocol rt ask =
     (case ask of
        ForHost h \<Rightarrow>
          (case RtBoot rt of
             Some alpn \<Rightarrow> (Inr alpn, rt\<lparr>RtBoot := None\<rparr>)
           | None \<Rightarrow>
               (case utlsDialContext lib ip conf addr (RtLog rt) of
                  (Inl e, dials) \<Rightarrow> (Inl e, rt\<lparr>RtLog := dials\<rparr>)
                | (Inr alpn, dials) \<Rightarrow>
                    (if alpn \<noteq> protocol then Inl (wrap_err None) else Inr alpn, rt\<lparr>RtLog := dials\<rparr>)))
      | ForProxy a \<Rightarrow> (case connect_to lib a (RtLog rt) of (x, dials) \<Rightarrow> (x, rt\<lparr>RtLog := dials\<rparr>)))"

definition plain_hook ::
    "http_lib \<Rightarrow> addr \<Rightarrow> utlsRoundTripper \<Rightarrow> dial_ask \<Rightarrow> (go_err + string) \<times> utlsRoundTripper" where
  "plain_hook lib ip rt a =
     (let port = (case split_host_port (asked a) of Some (h, p) \<Rightarrow> p | None \<Rightarrow> ''80'')
      in case connect_to lib (join_host_port (show_addr ip) port) (RtLog rt) of
           (x, dials) \<Rightarrow> (x, rt\<lparr>RtLog := dials\<rparr>))"

definition RoundTrip ::
    "http_lib \<Rightarrow> addr \<Rightarrow> tls_config \<Rightarrow> http_mode \<Rightarrow> string \<Rightarrow> string \<Rightarrow> utlsRoundTripper
     \<Rightarrow> (go_err + int \<times> string) \<times> utlsRoundTripper" where
  "RoundTrip lib ip conf version scheme host rt =
     (if scheme = ''http'' then run_trip (plain_hook lib ip) (plain_do lib host) rt
      else if scheme \<noteq> ''https'' then (Inl (wrap_err None), rt)
      else let (err, rt') = (if RtInner rt = None then makeRoundTripper lib ip conf version host rt else (None, rt))
           in case err of
                Some e \<Rightarrow> (Inl e, rt')
              | None \<Rightarrow>
                  (case the (RtInner rt') of
                     (kind, addr, protocol) \<Rightarrow>
                       run_trip (utls_hook lib ip conf addr protocol) (inner_do lib kind host) rt'))"

primrec run_redirects ::
    "('s \<Rightarrow> string \<Rightarrow> string \<Rightarrow> (go_err + int \<times> string) \<times> 's) \<Rightarrow> redirects \<Rightarrow> 's
     \<Rightarrow> (go_err + int \<times> string) \<times> 's" where
  "run_redirects go (Final r) = (\<lambda>s. (r, s))"
| "run_redirects go (Follow scheme host k) = (\<lambda>s. case go s scheme host of (x, s') \<Rightarrow> run_redirects go (k x) s')"

text \<open>\<open>utlsHTTPClientFactory\<close>: the fingerprint decides whether there is a client; its configuration names no
  server.\<close>

definition utlsHTTPClientFactory :: "HTTPRequest \<Rightarrow> tls_config option" where
  "utlsHTTPClientFactory req =
     (if UTLSLookup (RqFingerprint req) = None then None
      else Some \<lparr>TlsServerName = [], TlsSkipVerify = RqSkipVerify req, TlsMin = RqMinTLS req, TlsMax = RqMaxTLS req\<rparr>)"

subsection \<open>The probes\<close>

record HTTPProbeState =
  HpRequest :: HTTPRequest
  HpFilter :: "int set"

definition NewHTTPProbe :: "HTTPRequest \<Rightarrow> int list \<Rightarrow> HTTPProbeState" where
  "NewHTTPProbe req codes = \<lparr>HpRequest = req, HpFilter = newStatusFilter codes totalHTTPStatusCodes\<rparr>"

text \<open>\<open>client.Do\<close> over the client that \<open>clientFactory\<close> makes for an address.\<close>

definition client_Do :: "http_lib \<Rightarrow> HTTPRequest \<Rightarrow> addr \<Rightarrow> (go_err + int \<times> string) \<times> dial_log" where
  "client_Do lib req ip =
     (case (if RqFingerprint req \<noteq> [] then utlsHTTPClientFactory req else None) of
        None \<Rightarrow> run_trip (std_hook lib ip) (std_do lib (newStdClient req) (RqURL req)) []
      | Some conf \<Rightarrow>
          (case run_redirects (\<lambda>rt scheme host. RoundTrip lib ip conf (RqVersion req) scheme host rt)
                  (utls_do lib (RqURL req)) \<lparr>RtInner = None, RtBoot = None, RtLog = []\<rparr> of
             (r, rt) \<Rightarrow> (r, RtLog rt)))"

definition http_report ::
    "int set \<Rightarrow> (int \<times> string \<Rightarrow> HTTPResult) \<Rightarrow> go_err + int \<times> string \<Rightarrow> go_err + HTTPResult" where
  "http_report f mk r =
     (case r of
        Inl e \<Rightarrow> Inl (probe_err e)
      | Inr resp \<Rightarrow> if \<not> isAccepted f (fst resp) then Inl [ErrBadResponse] else Inr (mk resp))"

definition http_Run ::
    "http_lib \<Rightarrow> go_err option \<Rightarrow> HTTPProbeState \<Rightarrow> addr \<Rightarrow> (go_err + HTTPResult) \<times> dial_log" where
  "http_Run lib ctx p ip =
     (case ctx of
        Some err \<Rightarrow> (Inl err, [])
      | None \<Rightarrow>
          (case url_parts lib (RqURL (HpRequest p)) of
             None \<Rightarrow> (Inl (wrap_err None), [])
           | Some parts \<Rightarrow>
               (case client_Do lib (HpRequest p) ip of
                  (r, dials) \<Rightarrow>
                    (http_report (HpFilter p)
                       (\<lambda>(status, proto). \<lparr>HttpIP = ip, StatusCode = status, HTTPVersion = proto,
                          UseTLS = RqUseTLS (HpRequest p), HttpLatency = http_latency lib\<rparr>) r, dials))))"

text \<open>HTTP/3: the URL names the probed address, the host header the original one.\<close>

definition http3_Run :: "http_lib \<Rightarrow> go_err option \<Rightarrow> HTTPProbeState \<Rightarrow> addr \<Rightarrow> go_err + HTTPResult" where
  "http3_Run lib ctx p ip =
     (case ctx of
        Some err \<Rightarrow> Inl err
      | None \<Rightarrow>
          (case url_parts lib (RqURL (HpRequest p)) of
             None \<Rightarrow> Inl (wrap_err None)
           | Some (scheme, host, port0) \<Rightarrow>
               let port = (if port0 = [] then ''443'' else port0)
               in http_report (HpFilter p)
                    (\<lambda>(status, proto). \<lparr>HttpIP = ip, StatusCode = status, HTTPVersion = ''HTTP/3.0'', UseTLS = True,
                       HttpLatency = http_latency lib\<rparr>)
                    (quic_do lib (newTLSConfig (HpRequest p)) scheme (join_host_port (show_addr ip) port)
                       (RqHost (HpRequest p)))))"

subsection \<open>Where the connections go\<close>

definition at_target :: "addr \<Rightarrow> dial_log \<Rightarrow> bool" where
  "at_target ip dials \<longleftrightarrow> (\<forall>(d, sn) \<in> set dials. \<exists>port. d = join_host_port (show_addr ip) port)"

lemma at_target_simps [simp]:
  "at_target ip []"
  "at_target ip (dials @ [(d, sn)]) \<longleftrightarrow> at_target ip dials \<and> (\<exists>port. d = join_host_port (show_addr ip) port)"
  by (auto simp: at_target_def)

primrec no_proxy :: "trip \<Rightarrow> bool" where
  "no_proxy (Answer r) = True"
| "no_proxy (Ask a k) = ((case a of ForHost h \<Rightarrow> True | ForProxy p \<Rightarrow> False) \<and> (\<forall>x. no_proxy (k x)))"

text \<open>What a hook keeps, a run over it keeps; asked for hosts only, it need not keep it for proxies.\<close>

lemma run_trip_keeps:
  assumes "\<And>s a. I s \<Longrightarrow> (case a of ForHost h \<Rightarrow> True | ForProxy p \<Rightarrow> P) \<Longrightarrow> I (snd (hook s a))"
  shows "I s \<Longrightarrow> P \<or> no_proxy t \<Longrightarrow> I (snd (run_trip hook t s))"
proof (induction t arbitrary: s)
  case (Ask a k)
  obtain x s' where h: "hook s a = (x, s')" by (cases "hook s a")
  have "I (snd (hook s a))"
    by (rule assms [OF Ask.prems(1)]) (use Ask.prems(2) in \<open>auto split: dial_ask.split\<close>)
  with h have "I s'" by simp
  moreover have "P \<or> no_proxy (k x)" using Ask.prems(2) by auto
  ultimately show ?case using Ask.IH [OF rangeI, of s' x] h by simp
qed simp

lemma run_redirects_keeps:
  assumes "\<And>s scheme host. I s \<Longrightarrow> I (snd (go s scheme host))"
  shows "I s \<Longrightarrow> I (snd (run_redirects go t s))"
proof (induction t arbitrary: s)
  case (Follow scheme host k)
  obtain x s' where h: "go s scheme host = (x, s')" by (cases "go s scheme host")
  with assms [OF Follow.prems, of scheme host] have "I s'" by simp
  then show ?case using Follow.IH [OF rangeI, of s' x] h by simp
qed simp

lemma std_hook_target: "at_target ip dials \<Longrightarrow> at_target ip (snd (std_hook lib ip dials a))"
  by (auto simp: std_hook_def connect_to_def split: option.split)

lemma plain_hook_target: "at_target ip (RtLog rt) \<Longrightarrow> at_target ip (RtLog (snd (plain_hook lib ip rt a)))"
  by (auto simp: plain_hook_def connect_to_def Let_def)

lemma utlsDialContext_target:
  "at_target ip dials \<Longrightarrow> at_target ip (snd (utlsDialContext lib ip conf addr dials))"
  by (auto simp: utlsDialContext_def Let_def split: option.split sum.split)

lemma utls_hook_target:
  assumes "at_target ip (RtLog rt)" and "case a of ForHost h \<Rightarrow> True | ForProxy p \<Rightarrow> False"
  shows "at_target ip (RtLog (snd (utls_hook lib ip conf addr protocol rt a)))"
proof (cases a)
  case (ForHost h)
  obtain x dials where d: "utlsDialContext lib ip conf addr (RtLog rt) = (x, dials)"
    by (cases "utlsDialContext lib ip conf addr (RtLog rt)")
  with utlsDialContext_target [OF assms(1)] have "at_target ip dials" by (metis snd_conv)
  with d ForHost assms(1) show ?thesis
    by (auto simp: utls_hook_def split: option.split sum.split)
qed (use assms in simp)

lemma makeRoundTripper_target:
  "at_target ip (RtLog rt) \<Longrightarrow> at_target ip (RtLog (snd (makeRoundTripper lib ip conf version host rt)))"
  using utlsDialContext_target [of ip "RtLog rt" lib conf]
  by (auto simp: makeRoundTripper_def Let_def split: prod.split sum.split) (metis snd_conv)+

lemma RoundTrip_target:
  assumes "at_target ip (RtLog rt)" and "\<And>kind h. no_proxy (inner_do lib kind h)"
  shows "at_target ip (RtLog (snd (RoundTrip lib ip conf version scheme host rt)))"
proof -
  obtain err rt' where m: "(if RtInner rt = None then makeRoundTripper lib ip conf version host rt else (None, rt)) = (err, rt')"
    by (cases "if RtInner rt = None then makeRoundTripper lib ip conf version host rt else (None, rt)")
  then have t: "at_target ip (RtLog rt')"
    using assms(1) makeRoundTripper_target [OF assms(1), of lib conf version host]
    by (auto split: if_splits)
  have plain: "at_target ip (RtLog (snd (run_trip (plain_hook lib ip) (plain_do lib host) rt)))"
    by (rule run_trip_keeps [where I = "\<lambda>rt. at_target ip (RtLog rt)" and P = True])
       (use assms(1) plain_hook_target in auto)
  have inner: "at_target ip (RtLog (snd (run_trip (utls_hook lib ip conf addr protocol) (inner_do lib kind host) rt')))"
    for addr protocol kind
    by (rule run_trip_keeps [where I = "\<lambda>rt. at_target ip (RtLog rt)" and P = False])
       (use t utls_hook_target assms(2) in auto)
  show ?thesis
    using m t plain inner assms(1)
    by (auto simp: RoundTrip_def simp del: run_trip.simps split: option.split prod.split)
qed

lemma client_Do_target:
  assumes "\<And>kind h. RqFingerprint req \<noteq> [] \<Longrightarrow> no_proxy (inner_do lib kind h)"
  shows "at_target ip (snd (client_Do lib req ip))"
proof (cases "if RqFingerprint req \<noteq> [] then utlsHTTPClientFactory req else None")
  case None
  have "at_target ip (snd (run_trip (std_hook lib ip) (std_do lib (newStdClient req) (RqURL req)) []))"
    by (rule run_trip_keeps [where P = True]) (use std_hook_target in auto)
  with None show ?thesis by (simp add: client_Do_def)
next
  case (Some conf)
  then have "RqFingerprint req \<noteq> []" by (auto split: if_splits)
  then have "at_target ip (RtLog (snd (run_redirects (\<lambda>rt scheme host. RoundTrip lib ip conf (RqVersion req) scheme host rt)
      (utls_do lib (RqURL req)) \<lparr>RtInner = None, RtBoot = None, RtLog = []\<rparr>)))"
    by (intro run_redirects_keeps [where I = "\<lambda>rt. at_target ip (RtLog rt)"] RoundTrip_target)
       (use assms in auto)
  with Some show ?thesis by (auto simp: client_Do_def split: prod.split)
qed


text \<open>A library for the witnesses: every connection is made, \<open>h2\<close> is agreed on, the answer is 204.\<close>

definition answer_204 :: "go_err + string \<Rightarrow> go_err + int \<times> string" where
  "answer_204 x = (case x of Inl e \<Rightarrow> Inl e | Inr alpn \<Rightarrow> Inr (204, ''HTTP/2.0''))"

definition example_http_lib :: http_lib where
  "example_http_lib =
     \<lparr>to_ascii = Some, url_set_host = (\<lambda>u h. Some (''https://'' @ h)),
      url_parts = (\<lambda>u. Some (''https'', ''example.com:8443'', ''8443'')),
      std_do = (\<lambda>tr u. Ask (ForHost ''example.com:8443'') (\<lambda>x. Answer (answer_204 x))),
      utls_do = (\<lambda>u. Follow ''https'' ''example.com:8443'' Final),
      inner_do = (\<lambda>kind h. Ask (ForHost h) (\<lambda>x. Answer (answer_204 x))),
      plain_do = (\<lambda>h. Ask (ForHost h) (\<lambda>x. Answer (answer_204 x))),
      quic_do = (\<lambda>tls scheme h name. Inr (204, ''HTTP/3.0'')),
      net_dial = (\<lambda>n d. None), tls_hand = (\<lambda>n d conf. Inr ''h2''), http_latency = 1000000\<rparr>"

definition example_request :: HTTPRequest where
  "example_request =
     \<lparr>RqURL = ''https://example.com:8443'', RqHost = ''example.com'', RqSNI = ''cdn.example.net'', RqVersion = H1H2,
      RqUseTLS = True, RqSkipVerify = False, RqFingerprint = ''Chrome'', RqTimeout = 3000000000, RqMinTLS = 0x0302,
      RqMaxTLS = 0x0304\<rparr>"

lemma example_texts [simp]:
  "UTLSLookup ''Chrome'' = Some 10" "UTLSLookup [] = None"
  "split_host_port ''example.com:8443'' = Some (''example.com'', ''8443'')"
  "join_host_port ''10.0.0.1'' ''8443'' = ''10.0.0.1:8443''"
  by code_simp+

lemma example_addr [simp]: "show_addr (V4 0x0A000001) = ''10.0.0.1''"
  by (simp add: show_v4_def show_nat.simps char_of_def bit_0 Let_def)

lemmas eval_http = client_Do_def example_request_def utlsHTTPClientFactory_def RoundTrip_def makeRoundTripper_def
  utlsDialContext_def pick_kind_def utls_hook_def answer_204_def http_Run_def NewHTTPProbe_def http_report_def
  isAccepted_def newStatusFilter_def totalHTTPStatusCodes_def connect_to_def


text \<open>The transports of a fingerprint are clones of the default one and keep its proxy. With a proxy in the
  environment the probe connects to the address once, then reports what the proxy fetched.\<close>

definition proxied_lib :: http_lib where
  "proxied_lib =
     example_http_lib\<lparr>inner_do := (\<lambda>kind h. Ask (ForProxy ''192.168.0.1:3128'') (\<lambda>x. Answer (answer_204 x)))\<rparr>"

lemma fingerprint_answer_through_proxy:
  "\<exists>r. http_Run proxied_lib None (NewHTTPProbe example_request []) (V4 0x0A000001)
         = (Inr r, [(''10.0.0.1:8443'', Some ''example.com''), (''192.168.0.1:3128'', None)])"
  by (rule exI [of _ "\<lparr>HttpIP = V4 0x0A000001, StatusCode = 204, HTTPVersion = ''HTTP/2.0'', UseTLS = True,
        HttpLatency = 1000000\<rparr>"])
     (simp add: eval_http proxied_lib_def example_http_lib_def del: show_addr.simps)

subsection \<open>What the settings mean to the probe\<close>

text \<open>With a fingerprint the server name of the settings has no effect: two settings that differ only in it
  make probes with the same connections, handshakes and result for every address.\<close>
theorem fingerprint_ignores_server_name:
  assumes "UTLSLookup (Fingerprint cfg) \<noteq> None"
    and built: "NewHTTPRequestFromConfig lib cfg = Inr req"
    and named: "NewHTTPRequestFromConfig lib (cfg\<lparr>ServerName := s\<rparr>) = Inr req'"
  shows "http_Run lib ctx (NewHTTPProbe req' codes) ip = http_Run lib ctx (NewHTTPProbe req codes) ip"
proof -
  have same: "req' = req\<lparr>RqSNI := RqSNI req'\<rparr>" and fp: "RqFingerprint req = Fingerprint cfg"
    using built named
    by (auto simp: NewHTTPRequestFromConfig_def Let_def resolveTLSVersions_def split: option.splits sum.splits if_splits)
  have "client_Do lib (req\<lparr>RqSNI := x\<rparr>) ip = client_Do lib req ip" for x
    using assms(1) fp
    by (auto simp: client_Do_def utlsHTTPClientFactory_def split: option.split)
  then have "http_Run lib ctx (NewHTTPProbe (req\<lparr>RqSNI := x\<rparr>) codes) ip = http_Run lib ctx (NewHTTPProbe req codes) ip" for x
    by (simp add: http_Run_def NewHTTPProbe_def split: option.split)
  with same show ?thesis by metis
qed

definition named_config :: HTTPConfig where
  "named_config = (DefaultHTTPConfig Desktop Mid)\<lparr>Fingerprint := ''Chrome'', HttpPort := 8443\<rparr>"

lemma example_host:
  "ExtractTLSServerName Some ''example.com'' = Some ''example.com''"
  "NormalizeHostWithSuffix Some ''example.com'' = Some ''example.com''"
proof -
  have "extractHostAndSuffix ''example.com'' = Some (''example.com'', [])"
    by (rule extract_name) (code_simp, simp)
  moreover have "parse_addr_zone ''example.com'' = None" "hostPattern ''example.com''" by code_simp+
  ultimately show "ExtractTLSServerName Some ''example.com'' = Some ''example.com''"
    and "NormalizeHostWithSuffix Some ''example.com'' = Some ''example.com''"
    by (simp_all add: ExtractTLSServerName_def NormalizeHostWithSuffix_def normalizeHost_def parsed_text_def)
qed

lemma named_config_builds:
  "\<not> isl (NewHTTPRequestFromConfig example_http_lib (named_config\<lparr>ServerName := s\<rparr>))"
proof -
  have tls: "ParseTLSVersion ''tls1.1'' = Some 0x0302" "ParseTLSVersion ''tls1.3'' = Some 0x0304" by code_simp+
  show ?thesis
    by (simp add: NewHTTPRequestFromConfig_def named_config_def cfg_defs example_http_lib_def example_host
        defaultPort_def resolveTLSVersions_def tls Let_def)
qed

lemma fingerprint_ignores_server_name_witness:
  "UTLSLookup (Fingerprint named_config) \<noteq> None
   \<and> http_Run example_http_lib None (NewHTTPProbe (projr (NewHTTPRequestFromConfig example_http_lib
         (named_config\<lparr>ServerName := ''cdn.example.net''\<rparr>))) []) (V4 0x0A000001)
     = http_Run example_http_lib None (NewHTTPProbe (projr (NewHTTPRequestFromConfig example_http_lib named_config)) [])
         (V4 0x0A000001)"
proof -
  have fp: "UTLSLookup (Fingerprint named_config) \<noteq> None" by code_simp
  have a: "\<not> isl (NewHTTPRequestFromConfig example_http_lib named_config)"
    using named_config_builds [of "ServerName named_config"] by simp
  note b = named_config_builds [of "''cdn.example.net''"]
  show ?thesis
    using fp fingerprint_ignores_server_name [OF fp, of example_http_lib _ "''cdn.example.net''"] a b
    by (metis sum.collapse(2))
qed

lemma alpha_lower: "is_alpha (lower_byte c) \<Longrightarrow> is_alpha c"
  by (auto simp: lower_byte_def is_alpha_def Let_def split: if_splits)

lemma isHTTPS_allowed:
  assumes "checkEnum p allowedProtocols = None"
  shows "isHTTPS p \<longleftrightarrow> to_lower p = ''https''"
proof -
  have p: "to_lower p = ''http'' \<or> to_lower p = ''https''"
    using assms by (auto simp: checkEnum_def allowedProtocols_def split: if_splits)
  moreover have "list_all is_alpha ''http''" "list_all is_alpha ''https''" by code_simp+
  ultimately have "list_all is_alpha (to_lower p)" by metis
  then have "list_all name_char p"
    by (auto simp: to_lower_def list_all_iff name_char_def is_alnum_def dest: alpha_lower)
  then have t: "trim_space p = p" by (rule trim_space_name)
  have len: "length p = length (to_lower p)" by (simp add: to_lower_def)
  have "to_lower ''https'' = ''https''" by code_simp
  with p t len show ?thesis
    by (auto simp: isHTTPS_def equal_fold_def Let_def)
qed

lemma tls_versions: "ParseTLSVersion ''tls1.0'' = Some 0x0301" "ParseTLSVersion ''tls1.1'' = Some 0x0302"
  "ParseTLSVersion ''tls1.2'' = Some 0x0303" "ParseTLSVersion ''tls1.3'' = Some 0x0304"
  by code_simp+

lemma tls_range:
  assumes "tls_errs cfg = (None, None)"
    and low: "to_lower (MinTLSVersion cfg) = MinTLSVersion cfg" "to_lower (MaxTLSVersion cfg) = MaxTLSVersion cfg"
  shows "\<exists>mn mx. resolveTLSVersions cfg = Inr (mn, mx) \<and> mn \<le> mx"
proof -
  have "checkEnum (MinTLSVersion cfg) allowedTLSVersions = None" "checkEnum (MaxTLSVersion cfg) allowedTLSVersions = None"
    and order: "checkEnumOrder (MinTLSVersion cfg) (MaxTLSVersion cfg) allowedTLSVersions = None"
    using assms(1) by (auto simp: tls_errs_def Let_def split: if_splits option.splits)
  then have "MinTLSVersion cfg \<in> set allowedTLSVersions" "MaxTLSVersion cfg \<in> set allowedTLSVersions"
    using low by (auto simp: checkEnum_def split: if_splits)
  then show ?thesis using order
    by (auto simp: allowedTLSVersions_def resolveTLSVersions_def tls_versions checkEnumOrder_def)
qed

text \<open>Settings that the validator accepts, for a host that is \<open>localhost\<close> or a domain whose last label has
  letters only and TLS versions in lower case, always give a request: for that host, over TLS exactly when the protocol is https, with the
  server name of the settings or else the host, a range of TLS versions that is not empty, and the URL with
  the port of the settings. The URL parser and the conversion to ASCII need only accept that name.\<close>
theorem valid_http_settings_build:
  assumes valid: "ValidateHTTP hostname cfg = Map.empty"
    and parsed: "hostname (''http://'' @ Host cfg) = Some (Host cfg)"
    and name: "\<not> parses_as_ip (Host cfg)" "Host cfg = ''localhost'' \<or> pattern_tld (last (split_on (CHR ''.'') (Host cfg)))"
    and low: "to_lower (MinTLSVersion cfg) = MinTLSVersion cfg" "to_lower (MaxTLSVersion cfg) = MaxTLSVersion cfg"
    and ascii: "to_ascii lib (Host cfg) = Some (Host cfg)"
    and url: "\<And>scheme hp. scheme \<in> {''http://'', ''https://''} \<Longrightarrow> url_set_host lib (scheme @ Host cfg) hp \<noteq> None"
  shows "\<exists>req. NewHTTPRequestFromConfig lib cfg = Inr req \<and> RqHost req = Host cfg
    \<and> RqUseTLS req = (to_lower (Protocol cfg) = ''https'')
    \<and> RqSNI req = (if ServerName cfg = [] then Host cfg else ServerName cfg) \<and> RqMinTLS req \<le> RqMaxTLS req
    \<and> url_set_host lib ((if to_lower (Protocol cfg) = ''https'' then ''https://'' else ''http://'') @ Host cfg)
         (join_host_port (Host cfg) (show_nat (nat (HttpPort cfg)))) = Some (RqURL req)"
proof -
  have checks: "checkHost hostname (Host cfg) = None" "checkInt (HttpPort cfg) MinHTTPPort MaxHTTPPort = None"
      "checkEnum (Protocol cfg) allowedProtocols = None" "tls_errs cfg = (None, None)"
    using valid by (auto simp: ValidateHTTP_def collect_errs_empty prod_eq_iff)
  have dom: "isValidDomain (Host cfg)"
    using checks(1) parsed by (auto simp: checkHost_def split: if_splits)
  note chars = valid_domain_chars [OF dom name(1)]
  have ex: "extractHostAndSuffix (Host cfg) = Some (Host cfg, [])"
    using chars by (simp add: extract_name)
  have noip: "parse_addr_zone (Host cfg) = None"
  proof (cases "parse_addr_zone (Host cfg)")
    case (Some az)
    then show ?thesis using name(1) chars name_no_zone [of "Host cfg" "fst az" "snd az"]
      by (cases az) (auto simp: parses_as_ip_def)
  qed
  then have host: "normalizeHost (to_ascii lib) (Host cfg) = Some (Host cfg)"
    using ascii valid_domain_pattern [OF dom name] by (simp add: normalizeHost_def parsed_text_def)
  obtain mn mx where tls: "resolveTLSVersions cfg = Inr (mn, mx)" "mn \<le> mx"
    using tls_range [OF checks(4) low] by blast
  have port: "1 \<le> HttpPort cfg" "HttpPort cfg \<le> 65535"
    using checks(2) by (auto simp: checkInt_def MinHTTPPort_def MaxHTTPPort_def split: if_splits)
  then have dp: "defaultPort (HttpPort cfg) b = Some (word_of_int (HttpPort cfg))" for b
    by (simp add: defaultPort_def)
  have pn: "unat (word_of_int (HttpPort cfg) :: u16) = nat (HttpPort cfg)"
    using port by (simp add: unat_eq_nat_uint uint_word_of_int)
  define scheme where "scheme = (if to_lower (Protocol cfg) = ''https'' then ''https://'' else ''http://'')"
  have https: "isHTTPS (Protocol cfg) \<longleftrightarrow> to_lower (Protocol cfg) = ''https''"
    by (rule isHTTPS_allowed [OF checks(3)])
  obtain u where u: "url_set_host lib (scheme @ Host cfg) (join_host_port (Host cfg) (show_nat (nat (HttpPort cfg)))) = Some u"
    using url [of scheme "join_host_port (Host cfg) (show_nat (nat (HttpPort cfg)))"]
    by (cases "to_lower (Protocol cfg) = ''https''") (auto simp: scheme_def)
  show ?thesis
    using u tls
    by (simp add: NewHTTPRequestFromConfig_def ExtractTLSServerName_def NormalizeHostWithSuffix_def ex host noip dp pn
        https resolveSNI_def Let_def flip: scheme_def)
qed

definition variant :: "string \<Rightarrow> string \<Rightarrow> string \<Rightarrow> string \<Rightarrow> HTTPConfig" where
  "variant host sn mn mx =
     (DefaultHTTPConfig Desktop Mid)\<lparr>Host := host, ServerName := sn, HttpPort := 8443, MinTLSVersion := mn,
       MaxTLSVersion := mx\<rparr>"

lemma variant_valid:
  assumes "checkHost hostname host = None" and "checkSNI sn = None"
    and "checkEnum mn allowedTLSVersions = None" "checkEnum mx allowedTLSVersions = None"
      "checkEnumOrder mn mx allowedTLSVersions = None"
  shows "ValidateHTTP hostname (variant host sn mn mx) = Map.empty"
proof -
  have "checkPrefix ''http_'' = None" by code_simp
  with assms show ?thesis
    unfolding ValidateHTTP_def collect_errs_empty
    by (simp add: variant_def tls_errs_def Let_def httpBase_def withHTTP_def checkInt_def
        checkDuration_def Duration_def NewDurationMS_def wrap64_def checkStatusCodes_def cfg_defs
        cfg_limits del: allowedTLSVersions_def allowedProtocols_def allowedHTTPVersions_def)
qed

lemma valid_http_settings_build_witness:
  "ValidateHTTP (\<lambda>u. Some (drop 7 u)) (variant ''example.com'' ''cdn.example.net'' ''tls1.1'' ''tls1.3'') = Map.empty
   \<and> (\<exists>req. NewHTTPRequestFromConfig example_http_lib (variant ''example.com'' ''cdn.example.net'' ''tls1.1'' ''tls1.3'') = Inr req
     \<and> RqSNI req = ''cdn.example.net'' \<and> RqMinTLS req \<le> RqMaxTLS req)"
proof -
  let ?c = "variant ''example.com'' ''cdn.example.net'' ''tls1.1'' ''tls1.3''"
  have f: "Host ?c = ''example.com''" "ServerName ?c = ''cdn.example.net''" "MinTLSVersion ?c = ''tls1.1''"
      "MaxTLSVersion ?c = ''tls1.3''" "Protocol ?c = ''https''"
    by (simp_all add: variant_def withHTTP_def httpBase_def)
  have "checkSNI ''cdn.example.net'' = None" by code_simp
  moreover have "checkHost (\<lambda>u. Some (drop 7 u)) ''example.com'' = None"
    by (simp add: checkHost_def)
  ultimately have valid: "ValidateHTTP (\<lambda>u. Some (drop 7 u)) ?c = Map.empty"
    by (intro variant_valid) simp_all
  have ip: "\<not> parses_as_ip ''example.com''"
    and tld: "''example.com'' = ''localhost'' \<or> pattern_tld (last (split_on (CHR ''.'') ''example.com''))"
    and low: "to_lower ''tls1.1'' = ''tls1.1''" "to_lower ''tls1.3'' = ''tls1.3''" by code_simp+
  have ascii: "to_ascii example_http_lib h = Some h" and url: "url_set_host example_http_lib u hp \<noteq> None" for h u hp
    by (simp_all add: example_http_lib_def)
  have "\<exists>req. NewHTTPRequestFromConfig example_http_lib ?c = Inr req \<and> RqHost req = Host ?c
    \<and> RqUseTLS req = (to_lower (Protocol ?c) = ''https'')
    \<and> RqSNI req = (if ServerName ?c = [] then Host ?c else ServerName ?c) \<and> RqMinTLS req \<le> RqMaxTLS req
    \<and> url_set_host example_http_lib ((if to_lower (Protocol ?c) = ''https'' then ''https://'' else ''http://'') @ Host ?c)
         (join_host_port (Host ?c) (show_nat (nat (HttpPort ?c)))) = Some (RqURL req)"
    by (rule valid_http_settings_build [OF valid]) (simp_all only: f ip tld low ascii url, simp_all)
  then show ?thesis using valid f by auto
qed

text \<open>Settings can pass the validator and still give no request, so that no scan starts: an internationalised
  domain, whose last label in ASCII has digits and hyphens, and TLS versions that are not in lower case, whose
  order is never checked.\<close>
theorem valid_http_settings_refused:
  "ValidateHTTP (\<lambda>u. Some (drop 7 u)) (variant ''xn--e1afmkfd.xn--p1ai'' [] ''tls1.1'' ''tls1.3'') = Map.empty
   \<and> NewHTTPRequestFromConfig (example_http_lib\<lparr>url_set_host := url\<rparr>) (variant ''xn--e1afmkfd.xn--p1ai'' [] ''tls1.1'' ''tls1.3'')
       = Inl HostErr
   \<and> ValidateHTTP (\<lambda>u. Some (drop 7 u)) (variant ''example.com'' [] ''TLS1.3'' ''tls1.0'') = Map.empty
   \<and> NewHTTPRequestFromConfig (example_http_lib\<lparr>url_set_host := url\<rparr>) (variant ''example.com'' [] ''TLS1.3'' ''tls1.0'')
       = Inl TLSOrderErr"
proof (intro conjI)
  have dom: "hasScheme ''xn--e1afmkfd.xn--p1ai'' = False" "isValidDomain ''xn--e1afmkfd.xn--p1ai''"
    "trim_space ''xn--e1afmkfd.xn--p1ai'' \<noteq> []" by code_simp+
  then have "checkHost (\<lambda>u. Some (drop 7 u)) ''xn--e1afmkfd.xn--p1ai'' = None"
    by (simp add: checkHost_def)
  then show "ValidateHTTP (\<lambda>u. Some (drop 7 u)) (variant ''xn--e1afmkfd.xn--p1ai'' [] ''tls1.1'' ''tls1.3'') = Map.empty"
    by (intro variant_valid) simp_all
  have "list_all name_char ''xn--e1afmkfd.xn--p1ai''" by code_simp
  then have "extractHostAndSuffix ''xn--e1afmkfd.xn--p1ai'' = Some (''xn--e1afmkfd.xn--p1ai'', [])"
    by (intro extract_name) simp_all
  moreover have "parse_addr_zone ''xn--e1afmkfd.xn--p1ai'' = None" "\<not> hostPattern ''xn--e1afmkfd.xn--p1ai''" by code_simp+
  ultimately show "NewHTTPRequestFromConfig (example_http_lib\<lparr>url_set_host := url\<rparr>)
      (variant ''xn--e1afmkfd.xn--p1ai'' [] ''tls1.1'' ''tls1.3'') = Inl HostErr"
    by (simp add: NewHTTPRequestFromConfig_def ExtractTLSServerName_def normalizeHost_def parsed_text_def variant_def
        example_http_lib_def Let_def)
  have tls: "checkEnum ''TLS1.3'' allowedTLSVersions = None" "checkEnum ''tls1.0'' allowedTLSVersions = None"
    "checkEnumOrder ''TLS1.3'' ''tls1.0'' allowedTLSVersions = None" by code_simp+
  moreover have "checkHost (\<lambda>u. Some (drop 7 u)) ''example.com'' = None" by (simp add: checkHost_def)
  ultimately show "ValidateHTTP (\<lambda>u. Some (drop 7 u)) (variant ''example.com'' [] ''TLS1.3'' ''tls1.0'') = Map.empty"
    by (intro variant_valid) simp_all
  have "ParseTLSVersion ''TLS1.3'' = Some 0x0304" by code_simp
  then show "NewHTTPRequestFromConfig (example_http_lib\<lparr>url_set_host := url\<rparr>)
      (variant ''example.com'' [] ''TLS1.3'' ''tls1.0'') = Inl TLSOrderErr"
    by (simp add: NewHTTPRequestFromConfig_def variant_def withHTTP_def httpBase_def example_http_lib_def example_host
        defaultPort_def resolveTLSVersions_def tls_versions Let_def)
qed

text \<open>Two more settings do not mean what they say: \<open>http1.1\<close> is a version the validator knows and the probe does not,
  and HTTP/2 alone is not enforced by the standard transport.\<close>

lemma http11_negotiates: "checkEnum ''http1.1'' allowedHTTPVersions = None \<and> resolveHTTPVersion ''http1.1'' = H1H2"
  by code_simp

lemma h2_not_forced: "newStdClient (req\<lparr>RqVersion := H2\<rparr>) = newStdClient (req\<lparr>RqVersion := H1H2\<rparr>)"
  by (simp add: newStdClient_def newTLSConfig_def)

end
