(* ===== verification/FilePaths.thy ===== *)
theory FilePaths
  imports TunnelStore
begin

text \<open>
  Paths: \<open>filepath.Clean\<close> and \<open>filepath.Join\<close> of the standard library on Unix, and the helpers on names and
  directory listings in \<open>internal/core/fileutil\<close> (\<open>path.go\<close>, \<open>list.go\<close>). A file system is the listing of each
  directory; one that cannot be read has none.
\<close>

subsection \<open>Clean and Join\<close>

fun clean_parts :: "bool \<Rightarrow> string list \<Rightarrow> string list \<Rightarrow> string list" where
  "clean_parts rooted acc [] = rev acc"
| "clean_parts rooted acc (c # cs) =
     (if c = [] \<or> c = ''.'' then clean_parts rooted acc cs
      else if c = ''..'' then
        (if acc \<noteq> [] \<and> hd acc \<noteq> ''..'' then clean_parts rooted (List.tl acc) cs
         else if rooted then clean_parts rooted acc cs
         else clean_parts rooted (c # acc) cs)
      else clean_parts rooted (c # acc) cs)"

definition path_Clean :: "string \<Rightarrow> string" where
  "path_Clean p =
     (if p = [] then ''.''
      else let rooted = (hd p = CHR ''/''); body = join_with ''/'' (clean_parts rooted [] (split_on (CHR ''/'') p))
           in if rooted then CHR ''/'' # body else if body = [] then ''.'' else body)"

definition path_Join :: "string list \<Rightarrow> string" where
  "path_Join elems =
     (let es = filter (\<lambda>e. e \<noteq> []) elems in if es = [] then [] else path_Clean (join_with ''/'' es))"

subsection \<open>Names\<close>

definition HasExt :: "string \<Rightarrow> string \<Rightarrow> bool" where
  "HasExt name ext \<longleftrightarrow> equal_fold (path_ext name) ext"

text \<open>A name that stands for one entry of a directory.\<close>

definition file_name :: "string \<Rightarrow> bool" where
  "file_name n \<longleftrightarrow> n \<noteq> [] \<and> n \<noteq> ''.'' \<and> n \<noteq> ''..'' \<and> CHR ''/'' \<notin> set n"

subsection \<open>Listings\<close>

record dir_entry =
  EntName :: string
  EntIsDir :: bool
  EntInfoOK :: bool
  EntSize :: int
  EntTime :: int

type_synonym file_system = "string \<rightharpoonup> dir_entry list"

record FileEntry =
  FeName :: string
  FePath :: string
  FeEntry :: dir_entry

text \<open>\<open>ListFiles\<close>; \<open>abs_path\<close> is \<open>filepath.Abs\<close>.\<close>

definition ListFiles ::
    "(string \<Rightarrow> string option) \<Rightarrow> file_system \<Rightarrow> string \<Rightarrow> (string \<Rightarrow> bool) \<Rightarrow> FileEntry list option" where
  "ListFiles abs_path fs dir keep =
     (case fs dir of
        None \<Rightarrow> None
      | Some entries \<Rightarrow>
          Some (List.map_filter (\<lambda>e.
            if EntIsDir e \<or> \<not> EntInfoOK e \<or> \<not> keep (EntName e) then None
            else map_option (\<lambda>p. \<lparr>FeName = EntName e, FePath = p, FeEntry = e\<rparr>) (abs_path (path_Join [dir, EntName e])))
            entries))"

subsection \<open>Joining a name to a directory\<close>

lemma clean_parts_name:
  "file_name n \<Longrightarrow> clean_parts rooted acc (cs @ [n]) = clean_parts rooted acc cs @ [n]"
  by (induction rooted acc cs rule: clean_parts.induct) (auto simp: file_name_def)

lemma join_with_snoc: "join_with s (xs @ [x]) = (if xs = [] then x else join_with s xs @ s @ x)"
  by (induction s xs rule: join_with.induct) auto

text \<open>A rooted directory below the root; then a name is joined behind a slash.\<close>

definition proper_dir :: "string \<Rightarrow> bool" where
  "proper_dir d \<longleftrightarrow> d \<noteq> [] \<and> hd d = CHR ''/'' \<and> path_Clean d \<noteq> ''/''"

lemma proper_dir_parts:
  "proper_dir d \<Longrightarrow> clean_parts True [] (split_on (CHR ''/'') d) \<noteq> []"
  by (auto simp: proper_dir_def path_Clean_def Let_def)

lemma Join_name:
  assumes "proper_dir d" and "file_name n"
  shows "path_Join [d, n] = path_Clean d @ ''/'' @ n"
proof -
  have n: "n \<noteq> []" "CHR ''/'' \<notin> set n" using assms(2) by (auto simp: file_name_def)
  have "clean_parts True [] (split_on (CHR ''/'') (d @ ''/'' @ n))
      = clean_parts True [] (split_on (CHR ''/'') d) @ [n]"
    using clean_parts_name [OF assms(2)] n by (simp add: split_on_append split_on_free)
  with assms(1) n proper_dir_parts [OF assms(1)] show ?thesis
    by (simp add: path_Join_def path_Clean_def proper_dir_def join_with_snoc)
qed

lemma split_on_no_sep: "p \<in> set (split_on b s) \<Longrightarrow> b \<notin> set p"
  by (induction s arbitrary: p) (auto split: list.splits if_splits)

lemma split_join: "xs \<noteq> [] \<Longrightarrow> \<forall>x \<in> set xs. b \<notin> set x \<Longrightarrow> split_on b (join_with [b] xs) = xs"
  by (induction "[b]" xs rule: join_with.induct) (auto simp: split_on_append split_on_free)

text \<open>The parts that \<open>Clean\<close> leaves in a rooted path are names, so that cleaning again changes nothing.\<close>

lemma clean_parts_names:
  "\<forall>c \<in> set acc. file_name c \<Longrightarrow> \<forall>c \<in> set cs. CHR ''/'' \<notin> set c \<Longrightarrow> \<forall>c \<in> set (clean_parts True acc cs). file_name c"
proof (induction cs arbitrary: acc)
  case (Cons c cs)
  have "\<forall>x \<in> set (List.tl acc). file_name x" using Cons.prems(1) by (cases acc) auto
  note tails = this
  have cs: "\<forall>x \<in> set cs. CHR ''/'' \<notin> set x" and c: "CHR ''/'' \<notin> set c" using Cons.prems(2) by auto
  note keep = Cons.IH [OF Cons.prems(1) cs] and pop = Cons.IH [OF tails cs]
  have push: "\<forall>x \<in> set (clean_parts True (c # acc) cs). file_name x" if "c \<noteq> []" "c \<noteq> ''.''" "c \<noteq> ''..''"
    by (rule Cons.IH) (use that c cs Cons.prems(1) in \<open>auto simp: file_name_def [of c]\<close>)
  show ?case
    by (simp only: clean_parts.simps split: if_split) (use keep pop push in blast)
qed simp

lemma clean_parts_id: "\<forall>c \<in> set cs. file_name c \<Longrightarrow> clean_parts rooted acc cs = rev acc @ cs"
  by (induction rooted acc cs rule: clean_parts.induct) (auto simp: file_name_def)

lemma Clean_rooted:
  assumes "proper_dir d"
  shows "proper_dir (path_Clean d)" and "path_Clean (path_Clean d) = path_Clean d"
proof -
  let ?ps = "clean_parts True [] (split_on (CHR ''/'') d)"
  have names: "\<forall>c \<in> set ?ps. file_name c"
    by (rule clean_parts_names) (use split_on_no_sep in auto)
  then have "\<forall>c \<in> set ?ps. CHR ''/'' \<notin> set c" by (auto simp: file_name_def)
  then have "split_on (CHR ''/'') (join_with ''/'' ?ps) = ?ps"
    by (intro split_join proper_dir_parts assms)
  moreover have cl: "path_Clean d = CHR ''/'' # join_with ''/'' ?ps"
    using assms by (simp add: path_Clean_def proper_dir_def)
  ultimately show idem: "path_Clean (path_Clean d) = path_Clean d"
    using names by (simp add: path_Clean_def clean_parts_id)
  show "proper_dir (path_Clean d)"
    using assms idem cl by (simp add: proper_dir_def)
qed

text \<open>Names joined one after another.\<close>

lemma Clean_snoc:
  assumes "proper_dir d" and "file_name n"
  shows "path_Clean (path_Clean d @ ''/'' @ n) = path_Clean d @ ''/'' @ n"
  using Join_name [OF Clean_rooted(1) [OF assms(1)] assms(2)] assms(2) Clean_rooted [OF assms(1)]
  by (simp add: path_Join_def proper_dir_def [of "path_Clean d"] file_name_def)

lemma proper_dir_Join: "proper_dir d \<Longrightarrow> file_name n \<Longrightarrow> proper_dir (path_Join [d, n])"
proof -
  assume d: "proper_dir d" and n: "file_name n"
  have "path_Clean d \<noteq> []" "hd (path_Clean d) = CHR ''/''"
    using Clean_rooted(1) [OF d] by (simp_all add: proper_dir_def)
  then show ?thesis
    using Clean_snoc [OF d n] n by (cases "path_Clean d") (auto simp: Join_name [OF d n] proper_dir_def file_name_def)
qed

lemma Clean_Join: "proper_dir d \<Longrightarrow> file_name n \<Longrightarrow> path_Clean (path_Join [d, n]) = path_Join [d, n]"
  using Clean_snoc [of d n] Join_name [of d n] by metis

lemma Join_three:
  assumes "proper_dir d" and "file_name a" and "file_name b"
  shows "path_Join [d, a, b] = path_Clean d @ ''/'' @ a @ ''/'' @ b"
proof -
  have ab: "a \<noteq> []" "b \<noteq> []" "CHR ''/'' \<notin> set a" "CHR ''/'' \<notin> set b" using assms by (auto simp: file_name_def)
  have "split_on (CHR ''/'') (d @ CHR ''/'' # a @ CHR ''/'' # b) = (split_on (CHR ''/'') d @ [a]) @ [b]"
    using ab by (simp add: split_on_append split_on_free)
  then have "clean_parts True [] (split_on (CHR ''/'') (d @ CHR ''/'' # a @ CHR ''/'' # b))
      = clean_parts True [] (split_on (CHR ''/'') d) @ [a] @ [b]"
    using clean_parts_name [OF assms(3)] clean_parts_name [OF assms(2)] by (metis append.assoc)
  moreover have "join_with ''/'' (ps @ [a] @ [b]) = join_with ''/'' ps @ ''/'' @ a @ ''/'' @ b" if "ps \<noteq> []" for ps
    using that join_with_snoc [of "''/''" "ps @ [a]" b] join_with_snoc [of "''/''" ps a] by simp
  ultimately show ?thesis using assms(1) ab proper_dir_parts [OF assms(1)]
    by (simp add: path_Join_def path_Clean_def proper_dir_def)
qed

subsection \<open>Extensions\<close>

lemma path_ext_append: "CHR ''.'' \<notin> set e \<Longrightarrow> CHR ''/'' \<notin> set e \<Longrightarrow> path_ext (n @ CHR ''.'' # e) = CHR ''.'' # e"
proof -
  assume e: "CHR ''.'' \<notin> set e" "CHR ''/'' \<notin> set e"
  then have "takeWhile (\<lambda>c. c \<noteq> CHR ''.'' \<and> c \<noteq> CHR ''/'') (rev e @ CHR ''.'' # rev n) = rev e"
    by (subst takeWhile_append2) auto
  then show ?thesis by (simp add: path_ext_def)
qed

lemma StripExt_append: "CHR ''.'' \<notin> set e \<Longrightarrow> CHR ''/'' \<notin> set e \<Longrightarrow> StripExt (n @ CHR ''.'' # e) = n"
  by (simp add: StripExt_def path_ext_append)

end
