(* ===== verification/ResultFiles.thy ===== *)
theory ResultFiles
  imports FilePaths XrayProbe StableSort
begin

text \<open>
  Result files (\<open>internal/core/result\<close>): the schemas of the probes and their registry (\<open>type.go\<close>,
  \<open>registry.go\<close>, \<open>internal/core/core.go\<close>), where a scan writes its file and which files are listed, and the readers
  of a file (\<open>csv.go\<close>, \<open>count.go\<close>, \<open>loader.go\<close>). A file is read as the records that \<open>encoding/csv\<close> finds before its
  end or an error; the base directory is that of the executable.
\<close>

subsection \<open>Results and schemas\<close>

datatype scan_result =
    RICMP ICMPResult | RTCP TCPResult | RHTTP HTTPResult | RResolver ResolverResult | RDNSTT TunnelResult
  | RVayDNS TunnelResult | RSlipstream SlipstreamResult | RMasterDNS MasterDNSResult | RStormDNS StormDNSResult
  | RTheFeed TheFeedResult | RXray XrayResult

text \<open>Rounding of floats and their text, as in the theories of the records.\<close>

record text_lib =
  tx_up :: "nat \<Rightarrow> nat \<Rightarrow> bool"
  tx_round :: "rat \<Rightarrow> rat"
  tx_fmt :: "rat \<Rightarrow> string"
  tx_float :: "string \<Rightarrow> rat option"

definition parseXrayResult :: "text_lib \<Rightarrow> string list \<Rightarrow> XrayResult option" where
  "parseXrayResult lib rec =
     (if length rec < 4 then None
      else case ParseAddr (rec ! 0) of None \<Rightarrow> None | Some ip \<Rightarrow>
        (case ParseDuration (rec ! 1) of None \<Rightarrow> None | Some latency \<Rightarrow>
          (let speed = (\<lambda>s. case ParseBitsPerSec (tx_round lib) (tx_float lib) s of None \<Rightarrow> 0 | Some v \<Rightarrow> v)
           in Some \<lparr>XrIP = ip, XrLatency = read_latency latency, XrDownload = speed (rec ! 2), XrUpload = speed (rec ! 3)\<rparr>)))"

fun ToRecord :: "text_lib \<Rightarrow> scan_result \<Rightarrow> string list" where
  "ToRecord lib (RICMP r) = icmp_ToRecord (tx_up lib) r"
| "ToRecord lib (RTCP r) = tcp_ToRecord (tx_up lib) r"
| "ToRecord lib (RHTTP r) = http_ToRecord (tx_up lib) r"
| "ToRecord lib (RResolver r) = resolver_ToRecord (tx_up lib) r"
| "ToRecord lib (RDNSTT r) = tunnel_ToRecord (tx_up lib) r"
| "ToRecord lib (RVayDNS r) = VayDNS_ToRecord (tx_up lib) r"
| "ToRecord lib (RSlipstream r) = slip_ToRecord (tx_up lib) r"
| "ToRecord lib (RMasterDNS r) = master_ToRecord (tx_up lib) r"
| "ToRecord lib (RStormDNS r) = storm_ToRecord (tx_up lib) r"
| "ToRecord lib (RTheFeed r) = feed_ToRecord (tx_up lib) r"
| "ToRecord lib (RXray r) = Xray_ToRecord (tx_up lib) (tx_round lib) (tx_fmt lib) r"

record ColumnDef =
  CdName :: string
  CdWidth :: int
  CdType :: ColumnType

text \<open>The parser is nil in a schema that was never filled in.\<close>

record ResultSchema =
  SchName :: string
  SchDirectory :: string
  SchColumns :: "ColumnDef list"
  SchParser :: "(string list \<Rightarrow> scan_result option) option"

abbreviation key_column :: "int \<Rightarrow> ColumnDef" where
  "key_column w \<equiv> \<lparr>CdName = ''IP'', CdWidth = w, CdType = ColumnIP\<rparr>"

abbreviation latency_column :: "int \<Rightarrow> ColumnDef" where
  "latency_column w \<equiv> \<lparr>CdName = ''Latency'', CdWidth = w, CdType = ColumnDuration\<rparr>"

abbreviation column :: "string \<Rightarrow> int \<Rightarrow> ColumnDef" where
  "column n w \<equiv> \<lparr>CdName = n, CdWidth = w, CdType = ColumnText\<rparr>"

named_theorems schemas "the schemas of the probes"

definition icmp_Schema :: ResultSchema where [schemas]:
  "icmp_Schema =
     \<lparr>SchName = ''ICMP'', SchDirectory = ''icmp'',
      SchColumns = [key_column 60, latency_column 20, column ''Tries'' 10, column ''Mode'' 10],
      SchParser = Some (\<lambda>rec. map_option RICMP (parseICMPResult rec))\<rparr>"

definition tcp_Schema :: ResultSchema where [schemas]:
  "tcp_Schema =
     \<lparr>SchName = ''TCP'', SchDirectory = ''tcp'',
      SchColumns = [key_column 60, latency_column 20, column ''Port'' 10, column ''Tries'' 10],
      SchParser = Some (\<lambda>rec. map_option RTCP (parseTCPResult rec))\<rparr>"

definition http_Schema :: ResultSchema where [schemas]:
  "http_Schema =
     \<lparr>SchName = ''HTTP'', SchDirectory = ''http'',
      SchColumns = [key_column 39, latency_column 19, column ''Status'' 12, column ''Version'' 20, column ''TLS'' 10],
      SchParser = Some (\<lambda>rec. map_option RHTTP (parseHTTPResult rec))\<rparr>"

definition resolve_Schema :: ResultSchema where [schemas]:
  "resolve_Schema =
     \<lparr>SchName = ''DNSResolver'', SchDirectory = ''dns_resolver'',
      SchColumns = [key_column 35, latency_column 15, column ''Record Type'' 12, column ''Tries'' 8, column ''Rcode'' 8,
        column ''DPI Check'' 12],
      SchParser = Some (\<lambda>rec. map_option RResolver (parseResolverResult rec))\<rparr>"

definition dnstt_Schema :: ResultSchema where [schemas]:
  "dnstt_Schema =
     \<lparr>SchName = ''DNSTT'', SchDirectory = ''dnstt'',
      SchColumns = [key_column 30, latency_column 15, column ''Transport'' 15, column ''Port'' 10, column ''Auth'' 15,
        column ''Proxy'' 15],
      SchParser = Some (\<lambda>rec. map_option RDNSTT (parseTunnelResult rec))\<rparr>"

definition vaydns_Schema :: ResultSchema where [schemas]:
  "vaydns_Schema =
     \<lparr>SchName = ''VayDNS'', SchDirectory = ''vaydns'',
      SchColumns = [key_column 30, latency_column 15, column ''Transport'' 15, column ''Port'' 10, column ''Auth'' 15,
        column ''Proxy'' 15],
      SchParser = Some (\<lambda>rec. map_option RVayDNS (parseVayDNSResult rec))\<rparr>"

definition slipstream_Schema :: ResultSchema where [schemas]:
  "slipstream_Schema =
     \<lparr>SchName = ''Slipstream'', SchDirectory = ''slipstream'',
      SchColumns = [key_column 35, latency_column 15, column ''Port'' 10, column ''Auth'' 20, column ''Proxy'' 20],
      SchParser = Some (\<lambda>rec. map_option RSlipstream (parseSlipstreamResult rec))\<rparr>"

definition masterdns_Schema :: ResultSchema where [schemas]:
  "masterdns_Schema =
     \<lparr>SchName = ''MasterDNS'', SchDirectory = ''masterdns'',
      SchColumns = [key_column 35, latency_column 15, column ''Port'' 10, column ''Enc'' 15],
      SchParser = Some (\<lambda>rec. map_option RMasterDNS (parseMasterDNSResult rec))\<rparr>"

definition stormdns_Schema :: ResultSchema where [schemas]:
  "stormdns_Schema =
     \<lparr>SchName = ''StormDNS'', SchDirectory = ''stormdns'',
      SchColumns = [key_column 35, latency_column 20, column ''Port'' 10, column ''Query'' 15, column ''Enc'' 15],
      SchParser = Some (\<lambda>rec. map_option RStormDNS (parseStormDNSResult rec))\<rparr>"

definition thefeed_Schema :: ResultSchema where [schemas]:
  "thefeed_Schema =
     \<lparr>SchName = ''TheFeed'', SchDirectory = ''thefeed'',
      SchColumns = [key_column 30, latency_column 15, column ''Domain'' 35, column ''Mode'' 10],
      SchParser = Some (\<lambda>rec. map_option RTheFeed (parseTheFeedResult rec))\<rparr>"

definition xray_Schema :: "text_lib \<Rightarrow> ResultSchema" where [schemas]:
  "xray_Schema lib =
     \<lparr>SchName = ''Xray'', SchDirectory = ''xray'',
      SchColumns = [key_column 40, latency_column 20, \<lparr>CdName = ''Download'', CdWidth = 20, CdType = ColumnBandwidth\<rparr>,
        \<lparr>CdName = ''Upload'', CdWidth = 20, CdType = ColumnBandwidth\<rparr>],
      SchParser = Some (\<lambda>rec. map_option RXray (parseXrayResult lib rec))\<rparr>"

text \<open>The schema of the probe that makes a result.\<close>

fun schema_of :: "text_lib \<Rightarrow> scan_result \<Rightarrow> ResultSchema" where
  "schema_of lib (RICMP r) = icmp_Schema"
| "schema_of lib (RTCP r) = tcp_Schema"
| "schema_of lib (RHTTP r) = http_Schema"
| "schema_of lib (RResolver r) = resolve_Schema"
| "schema_of lib (RDNSTT r) = dnstt_Schema"
| "schema_of lib (RVayDNS r) = vaydns_Schema"
| "schema_of lib (RSlipstream r) = slipstream_Schema"
| "schema_of lib (RMasterDNS r) = masterdns_Schema"
| "schema_of lib (RStormDNS r) = stormdns_Schema"
| "schema_of lib (RTheFeed r) = thefeed_Schema"
| "schema_of lib (RXray r) = xray_Schema lib"

subsection \<open>The registry\<close>

type_synonym ResultRegistry = "ResultSchema list"

datatype registry_err = SchemaNameRequired | ParserRequired | AlreadyRegistered

definition SchemaValidate :: "ResultSchema \<Rightarrow> registry_err option" where
  "SchemaValidate s =
     (if SchName s = [] then Some SchemaNameRequired else if SchParser s = None then Some ParserRequired else None)"

definition Register :: "ResultSchema \<Rightarrow> ResultRegistry \<Rightarrow> registry_err option \<times> ResultRegistry" where
  "Register schema r =
     (case SchemaValidate schema of
        Some e \<Rightarrow> (Some e, r)
      | None \<Rightarrow>
          if \<exists>s \<in> set r. SchDirectory s = SchDirectory schema then (Some AlreadyRegistered, r)
          else (None, r @ [schema]))"

definition registry_Get :: "ResultRegistry \<Rightarrow> string \<Rightarrow> ResultSchema option" where
  "registry_Get r directory = find (\<lambda>s. SchDirectory s = directory) r"

text \<open>The directories differ, so it does not matter that the sort is not stable.\<close>

definition registry_All :: "ResultRegistry \<Rightarrow> ResultSchema list" where
  "registry_All r = SortStableFunc (\<lambda>a b. cmp_Compare (SchDirectory a) (SchDirectory b)) r"

fun Unregister :: "string \<Rightarrow> ResultRegistry \<Rightarrow> bool \<times> ResultRegistry" where
  "Unregister directory [] = (False, [])"
| "Unregister directory (s # r) =
     (if SchDirectory s = directory then (True, r)
      else case Unregister directory r of (b, r') \<Rightarrow> (b, s # r'))"

text \<open>\<open>core.Init\<close>, which stops at the first error.\<close>

definition built_in :: "text_lib \<Rightarrow> ResultSchema list" where
  "built_in lib =
     [icmp_Schema, tcp_Schema, http_Schema, resolve_Schema, dnstt_Schema, vaydns_Schema, slipstream_Schema,
      thefeed_Schema, xray_Schema lib]"

fun register_all :: "ResultSchema list \<Rightarrow> ResultRegistry \<Rightarrow> registry_err option \<times> ResultRegistry" where
  "register_all [] r = (None, r)"
| "register_all (s # ss) r =
     (case Register s r of (Some e, r') \<Rightarrow> (Some e, r') | (None, r') \<Rightarrow> register_all ss r')"

definition core_Init :: "text_lib \<Rightarrow> ResultRegistry \<Rightarrow> registry_err option \<times> ResultRegistry" where
  "core_Init lib r = register_all (built_in lib) r"

subsection \<open>Files\<close>

record ResultFile =
  RfName :: string
  RfSize :: int
  RfTime :: int
  RfPath :: string
  RfSchema :: ResultSchema
  RfCount :: nat

datatype listing_err = NoSchema | BadWriterConfig | EmptyPrefix | MkdirFailed | StatFailed

definition getSchemaDir :: "string option \<Rightarrow> string \<Rightarrow> string \<Rightarrow> string" where
  "getSchemaDir base resultDir schemaDir =
     (case base of None \<Rightarrow> path_Join [resultDir, schemaDir] | Some b \<Rightarrow> path_Join [b, resultDir, schemaDir])"

definition schema_files :: "string option \<Rightarrow> string \<Rightarrow> file_system \<Rightarrow> ResultSchema \<Rightarrow> ResultFile list" where
  "schema_files base resultDir fs schema =
     (let dir = getSchemaDir base resultDir (SchDirectory schema)
      in case fs dir of
           None \<Rightarrow> []
         | Some entries \<Rightarrow>
             map (\<lambda>e. \<lparr>RfName = StripExt (EntName e), RfSize = EntSize e, RfTime = EntTime e,
                       RfPath = path_Join [dir, EntName e], RfSchema = schema, RfCount = 0\<rparr>)
               (filter (\<lambda>e. \<not> EntIsDir e \<and> equal_fold (path_ext (EntName e)) ''.csv'' \<and> EntInfoOK e) entries))"

definition FindResultFiles ::
    "string option \<Rightarrow> file_system \<Rightarrow> WriterConfig \<Rightarrow> ResultSchema list \<Rightarrow> listing_err + ResultFile list" where
  "FindResultFiles base fs cfg scs =
     (if scs = [] then Inl NoSchema
      else if ValidateWriter cfg \<noteq> Map.empty then Inl BadWriterConfig
      else Inr (concat (map (schema_files base (ResultBaseDir cfg) fs) scs)))"

definition GetResultFiles ::
    "string option \<Rightarrow> file_system \<Rightarrow> WriterConfig \<Rightarrow> ResultRegistry \<Rightarrow> listing_err + ResultFile list" where
  "GetResultFiles base fs cfg r =
     (let scs = registry_All r in if scs = [] then Inr [] else FindResultFiles base fs cfg scs)"

text \<open>\<open>os.Stat\<close> gives the entry of a path.\<close>

definition ReadResultFile :: "(string \<Rightarrow> dir_entry option) \<Rightarrow> string \<Rightarrow> ResultSchema \<Rightarrow> listing_err + ResultFile" where
  "ReadResultFile stat path schema =
     (case stat path of
        None \<Rightarrow> Inl StatFailed
      | Some e \<Rightarrow> Inr \<lparr>RfName = StripExt (EntName e), RfSize = EntSize e, RfTime = EntTime e, RfPath = path,
                         RfSchema = schema, RfCount = 0\<rparr>)"

definition NormalizeResultFileName :: "string \<Rightarrow> string" where
  "NormalizeResultFileName name =
     (if name = [] then ''.csv''
      else let base = path_base name
           in if \<not> equal_fold (path_ext base) ''.csv'' then base @ ''.csv'' else base)"

text \<open>\<open>stamp\<close> is the time as digits and an underscore; \<open>mkdir\<close> is whether the directory could be made.\<close>

definition prepareResultFilePath ::
    "string option \<Rightarrow> bool \<Rightarrow> string \<Rightarrow> WriterConfig \<Rightarrow> ResultSchema \<Rightarrow> string \<Rightarrow> listing_err + string" where
  "prepareResultFilePath base mkdir stamp cfg schema pfx =
     (if pfx = [] then Inl EmptyPrefix
      else if \<not> mkdir then Inl MkdirFailed
      else Inr (path_Join [getSchemaDir base (ResultBaseDir cfg) (SchDirectory schema), pfx @ stamp @ ''.csv'']))"

subsection \<open>Reading a file\<close>

record ReadResult =
  Loaded :: nat
  Skipped :: nat

text \<open>The handler takes a state and may stop the reader with an error; \<open>read_err\<close> is how the file ends.\<close>

fun read_records ::
    "(string list \<Rightarrow> 'r option) \<Rightarrow> ('s \<Rightarrow> 'r \<Rightarrow> 'e option \<times> 's) \<Rightarrow> 'e option \<Rightarrow> string list list \<Rightarrow> ReadResult \<Rightarrow> 's
     \<Rightarrow> ReadResult \<times> 'e option \<times> 's" where
  "read_records parser fn read_err [] res s = (res, read_err, s)"
| "read_records parser fn read_err (rec # recs) res s =
     (case parser rec of
        None \<Rightarrow> read_records parser fn read_err recs (res\<lparr>Skipped := Skipped res + 1\<rparr>) s
      | Some r \<Rightarrow>
          (case fn s r of
             (Some e, s') \<Rightarrow> (res\<lparr>Loaded := Loaded res + 1\<rparr>, Some e, s')
           | (None, s') \<Rightarrow> read_records parser fn read_err recs (res\<lparr>Loaded := Loaded res + 1\<rparr>) s'))"

definition ReadCSV ::
    "(string list \<Rightarrow> 'r option) \<Rightarrow> ('s \<Rightarrow> 'r \<Rightarrow> 'e option \<times> 's) \<Rightarrow> 'e option \<Rightarrow> string list list \<Rightarrow> 's
     \<Rightarrow> ReadResult \<times> 'e option \<times> 's" where
  "ReadCSV parser fn read_err recs s = read_records parser fn read_err recs \<lparr>Loaded = 0, Skipped = 0\<rparr> s"

definition Count :: "(string list \<Rightarrow> 'r option) \<Rightarrow> 'e option \<Rightarrow> string list list \<Rightarrow> nat \<times> 'e option" where
  "Count parser read_err recs =
     (case ReadCSV parser (\<lambda>s r. (None, s)) read_err recs () of (res, err, s) \<Rightarrow> (Loaded res, err))"

text \<open>\<open>LoadResult\<close> sends every result to a channel that is read, \<open>LoadAll\<close> stops with \<open>io.EOF\<close>, here \<open>EOF\<close>, when it
  has enough.\<close>

definition LoadResult ::
    "(string list \<Rightarrow> 'r option) \<Rightarrow> 'e option \<Rightarrow> string list list \<Rightarrow> 'r list \<Rightarrow> ReadResult \<times> 'e option \<times> 'r list" where
  "LoadResult parser read_err recs out = ReadCSV parser (\<lambda>out r. (None, out @ [r])) read_err recs out"

datatype 'e csv_err = EOF | CSVError 'e

definition LoadAll ::
    "(string list \<Rightarrow> 'r option) \<Rightarrow> 'e option \<Rightarrow> string list list \<Rightarrow> nat \<Rightarrow> 'r list \<times> 'e csv_err option" where
  "LoadAll parser read_err recs maxResults =
     (case ReadCSV parser
         (\<lambda>(rs, n) r. if maxResults \<le> n then (Some EOF, (rs, n)) else (None, (rs @ [r], n + 1)))
         (map_option CSVError read_err) recs ([], 0) of
        (res, err, rs, n) \<Rightarrow> (rs, if err = Some EOF then None else err))"

subsection \<open>Schemas and records\<close>

text \<open>Every schema fits the records of its probe: it can be registered, its columns are as many as the fields
  of every record, the first two are the key and the latency, and its parser gives results of that
  probe only.\<close>
theorem schema_fits_records:
  "SchemaValidate (schema_of lib r) = None
   \<and> length (SchColumns (schema_of lib r)) = length (ToRecord lib r)
   \<and> map CdType (take 2 (SchColumns (schema_of lib r))) = [ColumnIP, ColumnDuration]
   \<and> (\<forall>rec. pred_option (\<lambda>r'. schema_of lib r' = schema_of lib r) (the (SchParser (schema_of lib r)) rec))"
  by (cases r)
     (simp_all add: schemas SchemaValidate_def icmp_ToRecord_def tcp_ToRecord_def http_ToRecord_def resolver_ToRecord_def
       tunnel_ToRecord_def VayDNS_ToRecord_def slip_ToRecord_def master_ToRecord_def storm_ToRecord_def
       feed_ToRecord_def Xray_ToRecord_def option.pred_map comp_def option.pred_True)

subsection \<open>The registry is a map\<close>

datatype registry_op = OpRegister ResultSchema | OpUnregister string

fun registry_step :: "registry_op \<Rightarrow> ResultRegistry \<Rightarrow> ResultRegistry" where
  "registry_step (OpRegister s) r = snd (Register s r)"
| "registry_step (OpUnregister d) r = snd (Unregister d r)"

fun map_step :: "registry_op \<Rightarrow> (string \<rightharpoonup> ResultSchema) \<Rightarrow> string \<rightharpoonup> ResultSchema" where
  "map_step (OpRegister s) m =
     (if SchemaValidate s = None \<and> m (SchDirectory s) = None then m(SchDirectory s \<mapsto> s) else m)"
| "map_step (OpUnregister d) m = m(d := None)"

definition registry_ok :: "ResultRegistry \<Rightarrow> bool" where
  "registry_ok r \<longleftrightarrow> distinct (map SchDirectory r) \<and> list_all (\<lambda>s. SchemaValidate s = None) r"

lemma find_append: "find P (xs @ ys) = (case find P xs of None \<Rightarrow> find P ys | Some x \<Rightarrow> Some x)"
  by (induction xs) auto

lemma Get_None: "registry_Get r d = None \<longleftrightarrow> \<not> (\<exists>s \<in> set r. SchDirectory s = d)"
  by (auto simp: registry_Get_def find_None_iff)

lemma Get_snoc: "registry_Get (r @ [s]) d = (case registry_Get r d of None \<Rightarrow> if SchDirectory s = d then Some s else None | Some x \<Rightarrow> Some x)"
  by (auto simp: registry_Get_def find_append split: option.split)

lemma Get_Some: "distinct (map SchDirectory r) \<Longrightarrow> registry_Get r d = Some s \<longleftrightarrow> s \<in> set r \<and> SchDirectory s = d"
proof (induction r)
  case (Cons x r)
  then show ?case by (cases "SchDirectory x = d") (auto simp: registry_Get_def image_iff)
qed (simp add: registry_Get_def)

lemma Register_Get:
  "registry_Get (snd (Register s r)) = map_step (OpRegister s) (registry_Get r)"
proof
  fix d
  show "registry_Get (snd (Register s r)) d = map_step (OpRegister s) (registry_Get r) d"
    using Get_None [of r "SchDirectory s"]
    by (cases "SchemaValidate s"; cases "registry_Get r (SchDirectory s)") (auto simp: Register_def Get_snoc split: option.split)
qed

lemma Register_ok: "registry_ok r \<Longrightarrow> registry_ok (snd (Register s r))"
  by (auto simp: registry_ok_def Register_def split: option.split)

lemma Unregister_set: "set (snd (Unregister d r)) \<subseteq> set r"
  by (induction d r rule: Unregister.induct) (auto split: prod.splits)

lemma Unregister_ok: "registry_ok r \<Longrightarrow> registry_ok (snd (Unregister d r))"
proof (induction d r rule: Unregister.induct)
  case (2 d s r)
  then show ?case using Unregister_set [of d r]
    by (auto simp: registry_ok_def split: prod.splits)
qed simp

lemma Unregister_Get:
  "distinct (map SchDirectory r) \<Longrightarrow> registry_Get (snd (Unregister d r)) = (registry_Get r)(d := None)"
proof (induction d r rule: Unregister.induct)
  case (2 d s r)
  obtain b r' where u: "Unregister d r = (b, r')" by (cases "Unregister d r")
  have none: "registry_Get r (SchDirectory s) = None" using 2(2) unfolding Get_None by (auto simp: image_iff)
  have cons: "registry_Get (s # q) x = (if SchDirectory s = x then Some s else registry_Get q x)" for q x
    by (simp add: registry_Get_def)
  show ?case
  proof (cases "SchDirectory s = d")
    case False
    with 2 u have ih: "registry_Get r' x = (if x = d then None else registry_Get r x)" for x
      by (simp add: fun_eq_iff)
    from False u show ?thesis by (auto simp: fun_eq_iff cons ih)
  qed (use none in \<open>auto simp: fun_eq_iff cons\<close>)
qed (simp add: registry_Get_def fun_eq_iff)

lemma registry_run_ok: "registry_ok r \<Longrightarrow> registry_ok (fold registry_step ops r)"
proof (induction ops arbitrary: r)
  case (Cons a ops)
  then have "registry_ok (registry_step a r)"
    by (cases a) (simp_all add: Register_ok Unregister_ok)
  then show ?case using Cons.IH by simp
qed simp

lemma registry_run_Get:
  "registry_ok r \<Longrightarrow> registry_Get (fold registry_step ops r) = fold map_step ops (registry_Get r)"
proof (induction ops arbitrary: r)
  case (Cons a ops)
  have d: "distinct (map SchDirectory r)" using Cons.prems by (simp add: registry_ok_def)
  have ok: "registry_ok (registry_step a r)"
    using Cons.prems by (cases a) (simp_all add: Register_ok Unregister_ok)
  have step: "registry_Get (registry_step a r) = map_step a (registry_Get r)"
    using Unregister_Get [OF d] by (cases a) (simp_all only: registry_step.simps Register_Get map_step.simps)
  show ?case
    using Cons.IH [OF ok] by (simp only: fold_simps step)
qed simp

lemma registry_All_sorted:
  assumes "registry_ok r"
  shows "sorted_wrt (<) (map SchDirectory (registry_All r))" and "mset (registry_All r) = mset r"
proof -
  let ?c = "\<lambda>a b. cmp_Compare (SchDirectory a) (SchDirectory b)"
  show m: "mset (registry_All r) = mset r" by (simp add: registry_All_def)
  have "sorted_cmp ?c (registry_All r)"
    unfolding registry_All_def by (rule sorted_SortStableFunc) (rule cmp_ok_on [OF cmp_ok_Compare])
  then have "sorted (map SchDirectory (registry_All r))" by (simp add: sorted_map)
  moreover have "distinct (map SchDirectory (registry_All r))"
    using assms mset_eq_imp_distinct_iff [of "map SchDirectory (registry_All r)" "map SchDirectory r"] m
    by (simp add: registry_ok_def)
  ultimately show "sorted_wrt (<) (map SchDirectory (registry_All r))"
    by (simp add: strict_sorted_iff)
qed

text \<open>The registry implements a map from directories to valid schemas: after any registrations and
  removals a look-up finds what the map has, a registration that is refused changes nothing, and the
  list of all schemas has each entry of the map once, by directory.\<close>
theorem registry_refines_map:
  "registry_Get (fold registry_step ops []) = fold map_step ops Map.empty
   \<and> sorted_wrt (<) (map SchDirectory (registry_All (fold registry_step ops [])))
   \<and> set (registry_All (fold registry_step ops [])) = ran (fold map_step ops Map.empty)"
proof -
  let ?r = "fold registry_step ops []"
  have ok: "registry_ok []" by (simp add: registry_ok_def)
  have "registry_Get [] = Map.empty" by (auto simp: registry_Get_def)
  with registry_run_Get [OF ok, of ops] have get: "registry_Get ?r = fold map_step ops Map.empty" by simp
  have okr: "registry_ok ?r" by (rule registry_run_ok [OF ok])
  then have "set ?r = ran (registry_Get ?r)"
    by (auto simp: ran_def Get_Some registry_ok_def)
  moreover have "set (registry_All ?r) = set ?r" by (simp add: registry_All_def)
  ultimately show ?thesis using get registry_All_sorted(1) [OF okr] by simp
qed

subsection \<open>Which files are listed\<close>

lemma csv_name: "path_ext (n @ ''.csv'') = ''.csv''" "StripExt (n @ ''.csv'') = n"
  using path_ext_append [of "''csv''" n] StripExt_append [of "''csv''" n] by simp_all

lemma equal_fold_csv [simp]: "equal_fold ''.csv'' ''.csv''"
  by code_simp

text \<open>What a scan stores is found again: the file at the path prepared for a registered schema is listed,
  under that path, with its schema and the name it was given.\<close>
theorem written_result_listed:
  assumes reg: "registry_Get r (SchDirectory schema) = Some schema"
    and path: "prepareResultFilePath base True stamp cfg schema pfx = Inr path"
    and listing: "fs (getSchemaDir base (ResultBaseDir cfg) (SchDirectory schema)) = Some entries"
    and entry: "e \<in> set entries" "EntName e = pfx @ stamp @ ''.csv''" "\<not> EntIsDir e" "EntInfoOK e"
    and cfg: "ValidateWriter cfg = Map.empty"
  shows "\<exists>files f. GetResultFiles base fs cfg r = Inr files \<and> f \<in> set files \<and> RfPath f = path \<and> RfSchema f = schema
         \<and> RfName f = pfx @ stamp"
proof -
  let ?f = "\<lparr>RfName = StripExt (EntName e), RfSize = EntSize e, RfTime = EntTime e,
      RfPath = path_Join [getSchemaDir base (ResultBaseDir cfg) (SchDirectory schema), EntName e],
      RfSchema = schema, RfCount = 0\<rparr>"
  have s: "schema \<in> set (registry_All r)"
    using reg by (auto simp: registry_All_def registry_Get_def find_Some_iff)
  have "?f \<in> set (schema_files base (ResultBaseDir cfg) fs schema)"
    using listing entry csv_name [of "pfx @ stamp"] by (force simp: schema_files_def Let_def)
  moreover have "RfPath ?f = path" "RfName ?f = pfx @ stamp"
    using path entry(2) csv_name [of "pfx @ stamp"] by (auto simp: prepareResultFilePath_def split: if_splits)
  moreover have "GetResultFiles base fs cfg r = Inr (concat (map (schema_files base (ResultBaseDir cfg) fs) (registry_All r)))"
    using s cfg by (auto simp: GetResultFiles_def FindResultFiles_def Let_def)
  ultimately show ?thesis using s by (intro exI conjI) (assumption, auto)
qed

definition example_writer :: WriterConfig where
  "example_writer = DefaultWriterConfig Desktop Mid"

definition example_entry :: "string \<Rightarrow> dir_entry" where
  "example_entry n = \<lparr>EntName = n, EntIsDir = False, EntInfoOK = True, EntSize = 100, EntTime = 7\<rparr>"

lemma written_result_listed_witness:
  "\<exists>files f. GetResultFiles (Some ''/opt/bgscan'')
       [''/opt/bgscan/result/tcp'' \<mapsto> [example_entry ''tcp_20250101_120000.csv'']] example_writer [tcp_Schema] = Inr files
     \<and> f \<in> set files \<and> RfPath f = ''/opt/bgscan/result/tcp/tcp_20250101_120000.csv'' \<and> RfSchema f = tcp_Schema
     \<and> RfName f = ''tcp_20250101_120000''"
proof -
  have dir: "getSchemaDir (Some ''/opt/bgscan'') (ResultBaseDir example_writer) (SchDirectory tcp_Schema)
      = ''/opt/bgscan/result/tcp''"
    by code_simp
  have join: "path_Join [''/opt/bgscan/result/tcp'', ''tcp_20250101_120000.csv'']
      = ''/opt/bgscan/result/tcp/tcp_20250101_120000.csv''"
    by code_simp
  have valid: "ValidateWriter example_writer = Map.empty" by (simp only: example_writer_def default_writer)
  show ?thesis
    using written_result_listed [of "[tcp_Schema]" tcp_Schema "Some ''/opt/bgscan''" "''20250101_120000''"
        example_writer "''tcp_''" "''/opt/bgscan/result/tcp/tcp_20250101_120000.csv''"
        "[''/opt/bgscan/result/tcp'' \<mapsto> [example_entry ''tcp_20250101_120000.csv'']]"
        "[example_entry ''tcp_20250101_120000.csv'']" "example_entry ''tcp_20250101_120000.csv''"]
      dir join
    by (simp add: registry_Get_def prepareResultFilePath_def example_entry_def valid)
qed

lemma schema_dir:
  "proper_dir b \<Longrightarrow> file_name rd \<Longrightarrow> file_name d \<Longrightarrow> getSchemaDir (Some b) rd d = path_Clean b @ ''/'' @ rd @ ''/'' @ d"
  by (simp add: getSchemaDir_def Join_three)

lemma core_Init_registry: "core_Init lib [] = (None, built_in lib)"
  by (simp add: core_Init_def built_in_def Register_def SchemaValidate_def schemas)

lemma built_in_dirs: "s \<in> set (built_in lib) \<Longrightarrow> file_name (SchDirectory s) \<and> SchDirectory s \<noteq> ''masterdns'' \<and> SchDirectory s \<noteq> ''stormdns''"
  by (auto simp: built_in_def schemas file_name_def)

text \<open>The listing of the program never shows the results of MasterDNS and StormDNS scans: whatever is in their
  directories, the files found with the schemas that \<open>core.Init\<close> registers are the same.\<close>
theorem unregistered_results_never_listed:
  assumes "proper_dir b" and "file_name (ResultBaseDir cfg)"
  shows "core_Init lib [] = (None, built_in lib)
    \<and> GetResultFiles (Some b)
        (fs(getSchemaDir (Some b) (ResultBaseDir cfg) (SchDirectory masterdns_Schema) := es1,
            getSchemaDir (Some b) (ResultBaseDir cfg) (SchDirectory stormdns_Schema) := es2)) cfg (built_in lib)
      = GetResultFiles (Some b) fs cfg (built_in lib)"
proof -
  let ?m = "getSchemaDir (Some b) (ResultBaseDir cfg) (SchDirectory masterdns_Schema)"
  let ?t = "getSchemaDir (Some b) (ResultBaseDir cfg) (SchDirectory stormdns_Schema)"
  have "schema_files (Some b) (ResultBaseDir cfg) (fs(?m := es1, ?t := es2)) s = schema_files (Some b) (ResultBaseDir cfg) fs s"
    if "s \<in> set (built_in lib)" for s
  proof -
    have "getSchemaDir (Some b) (ResultBaseDir cfg) (SchDirectory s) \<notin> {?m, ?t}"
      using built_in_dirs [OF that] assms by (simp add: schema_dir masterdns_Schema_def stormdns_Schema_def file_name_def)
    then show ?thesis by (auto simp: schema_files_def Let_def)
  qed
  then have meq: "map (schema_files (Some b) (ResultBaseDir cfg) (fs(?m := es1, ?t := es2))) (registry_All (built_in lib))
      = map (schema_files (Some b) (ResultBaseDir cfg) fs) (registry_All (built_in lib))"
    by (simp add: registry_All_def)
  show ?thesis
    by (simp only: core_Init_registry GetResultFiles_def FindResultFiles_def Let_def meq)
qed

lemma unregistered_results_never_listed_witness:
  "GetResultFiles (Some ''/opt/bgscan'') (Map.empty(
      getSchemaDir (Some ''/opt/bgscan'') (ResultBaseDir example_writer) (SchDirectory masterdns_Schema) := Some [example_entry ''m.csv''],
      getSchemaDir (Some ''/opt/bgscan'') (ResultBaseDir example_writer) (SchDirectory stormdns_Schema) := Some [example_entry ''s.csv'']))
      example_writer (built_in \<lparr>tx_up = (\<lambda>n d. False), tx_round = id, tx_fmt = (\<lambda>r. []), tx_float = (\<lambda>s. None)\<rparr>)
   = GetResultFiles (Some ''/opt/bgscan'') Map.empty example_writer
      (built_in \<lparr>tx_up = (\<lambda>n d. False), tx_round = id, tx_fmt = (\<lambda>r. []), tx_float = (\<lambda>s. None)\<rparr>)"
proof -
  have "proper_dir ''/opt/bgscan''" "file_name (ResultBaseDir example_writer)" by code_simp+
  then show ?thesis by (intro conjunct2 [OF unregistered_results_never_listed])
qed

subsection \<open>Reading\<close>

definition parsed :: "(string list \<Rightarrow> 'r option) \<Rightarrow> string list list \<Rightarrow> 'r list" where
  "parsed parser recs = List.map_filter parser recs"

lemma read_records_all:
  "read_records parser (\<lambda>s r. (None, f s r)) read_err recs res s =
     (\<lparr>Loaded = Loaded res + length (parsed parser recs),
       Skipped = Skipped res + length (filter (\<lambda>rec. parser rec = None) recs)\<rparr>, read_err, foldl f s (parsed parser recs))"
  by (induction recs arbitrary: res s) (auto simp: parsed_def map_filter_simps split: option.split)

lemma Count_exact: "Count parser read_err recs = (length (parsed parser recs), read_err)"
  by (simp add: Count_def ReadCSV_def read_records_all [where f = "\<lambda>s r. ()"])

lemma foldl_snoc: "foldl (\<lambda>out r. out @ [r]) out rs = out @ rs"
  by (induction rs arbitrary: out) auto

lemma LoadResult_exact:
  "LoadResult parser read_err recs [] =
     (\<lparr>Loaded = length (parsed parser recs), Skipped = length (filter (\<lambda>rec. parser rec = None) recs)\<rparr>, read_err,
      parsed parser recs)"
  by (simp add: LoadResult_def ReadCSV_def read_records_all foldl_snoc)

lemma load_records:
  assumes "n = length rs" and "n \<le> k"
  shows "\<exists>res. read_records parser (\<lambda>(rs, n) r. if k \<le> n then (Some EOF, (rs, n)) else (None, (rs @ [r], n + 1)))
           (map_option CSVError read_err) recs res0 (rs, n)
         = (res, if k < n + length (parsed parser recs) then Some EOF else map_option CSVError read_err,
            rs @ take (k - n) (parsed parser recs), min k (n + length (parsed parser recs)))"
  using assms
proof (induction recs arbitrary: res0 rs n)
  case (Cons rec recs)
  show ?case
  proof (cases "parser rec")
    case None
    then have "parsed parser (rec # recs) = parsed parser recs" by (simp add: parsed_def map_filter_simps)
    with None Cons show ?thesis by simp
  next
    case (Some r)
    then have p: "parsed parser (rec # recs) = r # parsed parser recs" by (simp add: parsed_def map_filter_simps)
    show ?thesis
    proof (cases "k \<le> n")
      case True
      with Some p Cons.prems show ?thesis by simp
    next
      case False
      then have "n + 1 = length (rs @ [r])" "n + 1 \<le> k" and k: "k - n = Suc (k - Suc n)" using Cons.prems by simp_all
      from Cons.IH [OF this(1,2), of "res0\<lparr>Loaded := Loaded res0 + 1\<rparr>"] False Some p show ?thesis
        unfolding k by auto
    qed
  qed
qed (auto simp: parsed_def map_filter_simps)

text \<open>Loading a file gives the first results of its valid records, up to the limit, in their order; records that do not
  parse are skipped, and an error of the file is reported exactly when the limit was not exceeded before.\<close>
theorem load_all_exact:
  "LoadAll parser read_err recs maxResults =
     (take maxResults (List.map_filter parser recs),
      if maxResults < length (List.map_filter parser recs) then None else map_option CSVError read_err)"
  using load_records [of 0 "[]" maxResults parser read_err recs "\<lparr>Loaded = 0, Skipped = 0\<rparr>"]
  by (auto simp: LoadAll_def ReadCSV_def parsed_def)

end
