(* ===== verification/FileRegistry.thy ===== *)
theory FileRegistry
  imports FilePaths ScanBuilder
begin

text \<open>
  The listings behind the file screens: the address lists (\<open>internal/core/iplist/registry.go\<close>) and the tunnel
  configurations of all protocols (\<open>internal/core/dns/registry.go\<close>, \<open>types.go\<close>). \<open>base\<close> is the directory of the executable,
  \<open>wd\<close> the working directory, \<open>stat\<close> the answer of \<open>os.Stat\<close>. \<open>sort.Slice\<close> and \<open>slices.SortFunc\<close> are not stable, so a
  listing is a relation: any order that the comparison allows.
\<close>

subsection \<open>Address lists\<close>

record IPFileInfo =
  IfName :: string
  IfPath :: string
  IfSize :: int
  IfTime :: int

datatype list_err = NoBaseDir | NoListDir | BadListName | ListNotFound | ListStatFailed | NotRegular

text \<open>\<open>filepath.Abs\<close> and the answers of \<open>os.Stat\<close>.\<close>

definition path_IsAbs :: "string \<Rightarrow> bool" where
  "path_IsAbs p \<longleftrightarrow> p \<noteq> [] \<and> hd p = CHR ''/''"

definition path_Abs :: "string option \<Rightarrow> string \<Rightarrow> string option" where
  "path_Abs wd p =
     (if path_IsAbs p then Some (path_Clean p) else map_option (\<lambda>d. path_Join [d, p]) wd)"

datatype stat_answer = StatMissing | StatError | StatOther | StatRegular int int

definition getBaseDir :: "string option \<Rightarrow> string option" where
  "getBaseDir base = map_option (\<lambda>b. path_Join [b, ''ips'']) base"

definition list_infos :: "string option \<Rightarrow> string option \<Rightarrow> file_system \<Rightarrow> list_err + IPFileInfo list" where
  "list_infos wd base fs =
     (case getBaseDir base of
        None \<Rightarrow> Inl NoBaseDir
      | Some dir \<Rightarrow>
          (case ListFiles (path_Abs wd) fs dir (\<lambda>name. HasExt name ''.csv'') of
             None \<Rightarrow> Inl NoListDir
           | Some files \<Rightarrow>
               Inr (map (\<lambda>f. \<lparr>IfName = StripExt (FeName f), IfPath = FePath f, IfSize = EntSize (FeEntry f),
                               IfTime = EntTime (FeEntry f)\<rparr>) files)))"

text \<open>What a sort that need not be stable may return.\<close>

definition newest_first :: "('a \<Rightarrow> int) \<Rightarrow> 'a list \<Rightarrow> 'a list \<Rightarrow> bool" where
  "newest_first time xs ys \<longleftrightarrow> mset ys = mset xs \<and> sorted_wrt (\<lambda>x y. time y \<le> time x) ys"

definition ListIPFiles ::
    "string option \<Rightarrow> string option \<Rightarrow> file_system \<Rightarrow> list_err + IPFileInfo list \<Rightarrow> bool" where
  "ListIPFiles wd base fs out =
     (case list_infos wd base fs of
        Inl e \<Rightarrow> out = Inl e
      | Inr xs \<Rightarrow> (case out of Inl e \<Rightarrow> False | Inr ys \<Rightarrow> newest_first IfTime xs ys))"

definition validateListName :: "string \<Rightarrow> bool" where
  "validateListName name \<longleftrightarrow>
     \<not> (trim_space name = [] \<or> name = ''.'' \<or> name = ''..'' \<or> name \<noteq> path_base name
        \<or> list_ex (\<lambda>c. c = CHR ''/'' \<or> c = CHR 0x5C) name)"

definition with_csv :: "string \<Rightarrow> string" where
  "with_csv name = (if HasExt name ''.csv'' then name else name @ ''.csv'')"

definition list_path :: "string option \<Rightarrow> string \<Rightarrow> list_err + string" where
  "list_path base name =
     (case getBaseDir base of
        None \<Rightarrow> Inl NoBaseDir
      | Some dir \<Rightarrow> if \<not> validateListName name then Inl BadListName else Inr (path_Join [dir, with_csv name]))"

definition GetIPFileInfo ::
    "string option \<Rightarrow> (string \<Rightarrow> stat_answer) \<Rightarrow> string \<Rightarrow> list_err + IPFileInfo" where
  "GetIPFileInfo base stat nameOrPath =
     (case (if path_IsAbs nameOrPath then Inr nameOrPath else list_path base nameOrPath) of
        Inl e \<Rightarrow> Inl e
      | Inr p \<Rightarrow>
          (case stat p of
             StatMissing \<Rightarrow> Inl ListNotFound
           | StatError \<Rightarrow> Inl ListStatFailed
           | StatOther \<Rightarrow> Inl NotRegular
           | StatRegular n t \<Rightarrow> Inr \<lparr>IfName = StripExt (path_base p), IfPath = p, IfSize = n, IfTime = t\<rparr>))"

definition GetIPFilePath :: "string option \<Rightarrow> string \<Rightarrow> list_err + string" where
  "GetIPFilePath base name = list_path base name"

definition FileExists :: "string option \<Rightarrow> (string \<Rightarrow> stat_answer) \<Rightarrow> string \<Rightarrow> bool" where
  "FileExists base stat name =
     (case GetIPFilePath base name of Inl e \<Rightarrow> False | Inr p \<Rightarrow> stat p \<noteq> StatMissing \<and> stat p \<noteq> StatError)"

subsection \<open>Tunnel configurations of all protocols\<close>

datatype DNSTunProtocol = ProtoVayDNS | ProtoDNSTT | ProtoSlipstream | ProtoMasterDNS | ProtoStormDNS | ProtoTheFeed
  | ProtoOther string

definition protocol_text :: "DNSTunProtocol \<Rightarrow> string" where
  "protocol_text p =
     (case p of ProtoVayDNS \<Rightarrow> ''vaydns'' | ProtoDNSTT \<Rightarrow> ''dnstt'' | ProtoSlipstream \<Rightarrow> ''slipstream''
      | ProtoMasterDNS \<Rightarrow> ''masterdns'' | ProtoStormDNS \<Rightarrow> ''stormdns'' | ProtoTheFeed \<Rightarrow> ''thefeed'' | ProtoOther s \<Rightarrow> s)"

datatype tunnel_config =
    VayDNSOf VayDNSConfig | DNSTTOf DNSTTConfig | SlipstreamOf SlipstreamConfig | MasterDNSOf MasterDNSConfig
  | StormDNSOf StormDNSConfig | TheFeedOf TheFeedConfig

record DNSTunConfigFile =
  DtName :: string
  DtPath :: string
  DtTime :: int
  DtProtocol :: DNSTunProtocol
  DtProxy :: string
  DtConfig :: tunnel_config

definition proxyLabel :: "string \<Rightarrow> string \<Rightarrow> string" where
  "proxyLabel proxyType authMethod = proxyType @ ''-'' @ authMethod"

definition entries_of ::
    "(DNSTunProtocol \<Rightarrow> string \<Rightarrow> int) \<Rightarrow> DNSTunProtocol \<Rightarrow> ('c \<Rightarrow> string) \<Rightarrow> ('c \<Rightarrow> tunnel_config)
     \<Rightarrow> (string \<times> string \<times> 'c) list \<Rightarrow> DNSTunConfigFile list" where
  "entries_of time proto proxy mk files =
     map (\<lambda>(name, path, c). \<lparr>DtName = name, DtPath = path, DtTime = time proto path, DtProtocol = proto,
                              DtProxy = proxy c, DtConfig = mk c\<rparr>) files"

text \<open>The six listings in the order of the code.\<close>

definition all_tunnels :: "(DNSTunProtocol \<Rightarrow> string \<Rightarrow> int) \<Rightarrow> scan_env \<Rightarrow> DNSTunConfigFile list" where
  "all_tunnels time env =
     (let t = Tun env; enc = (\<lambda>m. ''socks-'' @ EncMethod_String m) in
      entries_of time ProtoVayDNS (\<lambda>c. proxyLabel (ProxyType c) (AuthMethod c)) VayDNSOf
        (GetAllConfigFiles (VayDNS_Validate t) (VayDNSDir env))
      @ entries_of time ProtoDNSTT (\<lambda>c. proxyLabel (ProxyType c) (AuthMethod c)) DNSTTOf
        (GetAllConfigFiles (DNSTT_Validate t) (DNSTTDir env))
      @ entries_of time ProtoSlipstream (\<lambda>c. proxyLabel (ProxyType c) (AuthMethod c)) SlipstreamOf
        (GetAllConfigFiles (Slipstream_Validate t) (SlipstreamDir env))
      @ entries_of time ProtoMasterDNS (\<lambda>c. enc (DataEncMethod c)) MasterDNSOf
        (GetAllConfigFiles (MasterDNS_Validate t) (MasterDNSDir env))
      @ entries_of time ProtoStormDNS (\<lambda>c. enc (DataEncMethod c)) StormDNSOf
        (GetAllConfigFiles (StormDNS_Validate t) (StormDNSDir env))
      @ entries_of time ProtoTheFeed (\<lambda>c. ''socks-passphrase'') TheFeedOf
        (GetAllConfigFiles (TheFeed_Validate t) (TheFeedDir env)))"

datatype tunnels_err = TunDir DNSTunProtocol | NoSlipstreamLib | TunStore store_err | UnsupportedProtocol string

text \<open>\<open>dir_ok\<close> says which directories can be made and read, \<open>slip\<close> whether the Slipstream library loads.\<close>

definition tunnels_failure :: "(DNSTunProtocol \<Rightarrow> bool) \<Rightarrow> bool \<Rightarrow> tunnels_err option" where
  "tunnels_failure dir_ok slip =
     (if \<not> dir_ok ProtoVayDNS then Some (TunDir ProtoVayDNS)
      else if \<not> dir_ok ProtoDNSTT then Some (TunDir ProtoDNSTT)
      else if \<not> slip then Some NoSlipstreamLib
      else if \<not> dir_ok ProtoSlipstream then Some (TunDir ProtoSlipstream)
      else if \<not> dir_ok ProtoMasterDNS then Some (TunDir ProtoMasterDNS)
      else if \<not> dir_ok ProtoStormDNS then Some (TunDir ProtoStormDNS)
      else if \<not> dir_ok ProtoTheFeed then Some (TunDir ProtoTheFeed)
      else None)"

definition GetAllDNSTunsFile ::
    "(DNSTunProtocol \<Rightarrow> bool) \<Rightarrow> bool \<Rightarrow> (DNSTunProtocol \<Rightarrow> string \<Rightarrow> int) \<Rightarrow> scan_env
     \<Rightarrow> tunnels_err + DNSTunConfigFile list \<Rightarrow> bool" where
  "GetAllDNSTunsFile dir_ok slip time env out =
     (case tunnels_failure dir_ok slip of
        Some e \<Rightarrow> out = Inl e
      | None \<Rightarrow> (case out of Inl e \<Rightarrow> False | Inr ys \<Rightarrow> newest_first DtTime (all_tunnels time env) ys))"

definition store_result :: "store_err option \<times> 'c dir \<Rightarrow> ('c dir \<Rightarrow> scan_env) \<Rightarrow> tunnels_err option \<times> scan_env" where
  "store_result r put = (map_option TunStore (fst r), put (snd r))"

definition RenameDNSTunConfigFile ::
    "bool \<Rightarrow> bool \<Rightarrow> DNSTunConfigFile \<Rightarrow> string \<Rightarrow> scan_env \<Rightarrow> tunnels_err option \<times> scan_env" where
  "RenameDNSTunConfigFile rename_ok slip file newName env =
     (case DtProtocol file of
        ProtoVayDNS \<Rightarrow> store_result (RenameConfig rename_ok (DtName file) newName (VayDNSDir env)) (\<lambda>d. env\<lparr>VayDNSDir := d\<rparr>)
      | ProtoDNSTT \<Rightarrow> store_result (RenameConfig rename_ok (DtName file) newName (DNSTTDir env)) (\<lambda>d. env\<lparr>DNSTTDir := d\<rparr>)
      | ProtoSlipstream \<Rightarrow>
          if \<not> slip then (Some NoSlipstreamLib, env)
          else store_result (RenameConfig rename_ok (DtName file) newName (SlipstreamDir env)) (\<lambda>d. env\<lparr>SlipstreamDir := d\<rparr>)
      | ProtoMasterDNS \<Rightarrow> store_result (RenameConfig rename_ok (DtName file) newName (MasterDNSDir env)) (\<lambda>d. env\<lparr>MasterDNSDir := d\<rparr>)
      | ProtoStormDNS \<Rightarrow> store_result (RenameConfig rename_ok (DtName file) newName (StormDNSDir env)) (\<lambda>d. env\<lparr>StormDNSDir := d\<rparr>)
      | ProtoTheFeed \<Rightarrow> store_result (RenameConfig rename_ok (DtName file) newName (TheFeedDir env)) (\<lambda>d. env\<lparr>TheFeedDir := d\<rparr>)
      | ProtoOther s \<Rightarrow> (Some (UnsupportedProtocol s), env))"

subsection \<open>A list path stays in its directory\<close>

lemma path_base_name: "CHR ''/'' \<notin> set n \<Longrightarrow> n \<noteq> [] \<Longrightarrow> path_base n = n"
proof -
  assume n: "CHR ''/'' \<notin> set n" "n \<noteq> []"
  have "dropWhile (\<lambda>c. c = CHR ''/'') (rev n) = rev n"
    using n by (cases "rev n") (auto simp: dropWhile_eq_self_iff hd_rev)
  moreover have "takeWhile (\<lambda>c. c \<noteq> CHR ''/'') (rev n) = rev n"
    using n(1) by (auto simp: takeWhile_eq_all_conv)
  ultimately show ?thesis using n(2) by (simp add: path_base_def del: takeWhile_eq_all_conv)
qed

lemma path_base_join: "file_name n \<Longrightarrow> path_base (d @ CHR ''/'' # n) = n"
proof -
  assume n: "file_name n"
  have "dropWhile (\<lambda>c. c = CHR ''/'') (rev n @ CHR ''/'' # rev d) = rev n @ CHR ''/'' # rev d"
    using n by (cases "rev n") (auto simp: file_name_def)
  moreover have "takeWhile (\<lambda>c. c \<noteq> CHR ''/'') (rev n @ CHR ''/'' # rev d) = rev n"
    using n by (subst takeWhile_append2) (auto simp: file_name_def)
  ultimately show ?thesis using n by (simp add: path_base_def file_name_def)
qed

lemma validateListName_iff:
  "validateListName name \<longleftrightarrow>
     trim_space name \<noteq> [] \<and> name \<notin> {''.'', ''..''} \<and> CHR ''/'' \<notin> set name \<and> CHR 0x5C \<notin> set name"
proof (cases "name = []")
  case False
  then show ?thesis
    using path_base_name [of name] by (auto simp: validateListName_def list_ex_iff)
qed (simp add: validateListName_def path_base_def)

lemma with_csv_file_name: "validateListName n \<Longrightarrow> file_name (with_csv n)"
  by (auto simp: validateListName_iff with_csv_def file_name_def HasExt_def path_ext_def equal_fold_def to_lower_def)

lemma validateListName_not_abs: "validateListName n \<Longrightarrow> \<not> path_IsAbs n"
  by (auto simp: validateListName_iff path_IsAbs_def) (metis list.set_sel(1))

lemma ips_dir: "proper_dir b \<Longrightarrow> proper_dir (path_Join [b, ''ips''])"
  by (rule proper_dir_Join) (auto simp: file_name_def)

lemma list_path_Some:
  assumes "proper_dir b" and "validateListName n"
  shows "list_path (Some b) n = Inr (path_Clean b @ ''/ips/'' @ with_csv n)"
  using Join_name [OF ips_dir [OF assms(1)] with_csv_file_name [OF assms(2)]] assms(2)
    Clean_Join [OF assms(1), of "''ips''"] Join_name [OF assms(1), of "''ips''"]
  by (simp add: list_path_def getBaseDir_def file_name_def)

text \<open>The path of an address list is one file directly inside the directory of lists, with the extension csv; a name is
  refused exactly when it is blank, a dot, two dots, or has a slash or a backslash, and the information about a list is
  that of the same file.\<close>
theorem list_path_contained:
  assumes "proper_dir b" and "stat (path_Clean b @ ''/ips/'' @ with_csv name) = StatRegular n t"
  shows "(if trim_space name = [] \<or> name \<in> {''.'', ''..''} \<or> CHR ''/'' \<in> set name \<or> CHR 0x5C \<in> set name
     then GetIPFilePath (Some b) name = Inl BadListName
     else GetIPFilePath (Some b) name = Inr (path_Clean b @ ''/ips/'' @ with_csv name)
       \<and> file_name (with_csv name) \<and> HasExt (with_csv name) ''.csv''
       \<and> GetIPFileInfo (Some b) stat name
         = Inr \<lparr>IfName = StripExt (with_csv name), IfPath = path_Clean b @ ''/ips/'' @ with_csv name, IfSize = n, IfTime = t\<rparr>)"
proof (cases "validateListName name")
  case True
  have ext: "HasExt (with_csv name) ''.csv''"
    using path_ext_append [of "''csv''" name] by (auto simp: with_csv_def HasExt_def equal_fold_def)
  note list_path_Some [OF assms(1) True] with_csv_file_name [OF True]
  with True ext assms(2) path_base_join [of "with_csv name" "path_Clean b @ ''/ips''"] show ?thesis
    by (auto simp: validateListName_iff GetIPFilePath_def GetIPFileInfo_def validateListName_not_abs [OF True])
next
  case False
  with assms(1) show ?thesis
    by (auto simp: GetIPFilePath_def list_path_def getBaseDir_def validateListName_iff)
qed

text \<open>A list that the screen shows is opened under its name, unless the file has the extension in capitals, twice, or a
  backslash in its name.\<close>

definition plain_list :: "string \<Rightarrow> bool" where
  "plain_list file \<longleftrightarrow> (\<exists>n. file = n @ ''.csv'' \<and> validateListName n \<and> \<not> HasExt n ''.csv'')"

lemma listed_list_found:
  assumes "proper_dir b" and "ListIPFiles wd (Some b) fs (Inr ys)"
    and "fs (path_Join [b, ''ips'']) = Some entries" and "e \<in> set entries" and "\<not> EntIsDir e" and "EntInfoOK e"
    and "plain_list (EntName e)"
  shows "\<exists>i \<in> set ys. GetIPFilePath (Some b) (IfName i) = Inr (IfPath i) \<and> IfPath i = path_Join [b, ''ips'', EntName e]"
proof -
  from assms(7) obtain n where n: "EntName e = n @ ''.csv''" "validateListName n" "\<not> HasExt n ''.csv''"
    by (auto simp: plain_list_def)
  let ?p = "path_Clean b @ ''/ips/'' @ EntName e"
  have name: "file_name (EntName e)" "with_csv n = EntName e"
    using with_csv_file_name [OF n(2)] n by (auto simp: with_csv_def)
  have join: "path_Join [path_Join [b, ''ips''], EntName e] = ?p" "path_Join [b, ''ips'', EntName e] = ?p"
    using Join_name [OF ips_dir [OF assms(1)] name(1)] Join_three [OF assms(1) _ name(1), of "''ips''"]
      Clean_Join [OF assms(1), of "''ips''"] Join_name [OF assms(1), of "''ips''"]
    by (auto simp: file_name_def)
  have rooted: "path_IsAbs (path_Join [path_Join [b, ''ips''], EntName e])"
    and "path_Clean (path_Join [path_Join [b, ''ips''], EntName e]) = path_Join [path_Join [b, ''ips''], EntName e]"
    using proper_dir_Join [OF ips_dir [OF assms(1)] name(1)] Clean_Join [OF ips_dir [OF assms(1)] name(1)]
    by (auto simp: proper_dir_def path_IsAbs_def)
  then have abs: "path_Abs wd (path_Join [path_Join [b, ''ips''], EntName e]) = Some ?p"
    by (simp add: path_Abs_def join)
  have ext: "HasExt (EntName e) ''.csv''" "StripExt (EntName e) = n"
    using path_ext_append [of "''csv''" n] StripExt_append [of "''csv''" n]
    by (auto simp: n(1) HasExt_def equal_fold_def)
  define i where "i = \<lparr>IfName = n, IfPath = ?p, IfSize = EntSize e, IfTime = EntTime e\<rparr>"
  obtain xs where xs: "list_infos wd (Some b) fs = Inr xs" "mset ys = mset xs"
    using assms(2) by (auto simp: ListIPFiles_def newest_first_def split: sum.splits)
  have "i \<in> set xs"
    using xs(1) assms(3-6) ext abs
    by (force simp: list_infos_def getBaseDir_def ListFiles_def mem_map_filter i_def image_iff)
  with mset_eq_setD [OF xs(2)] have "i \<in> set ys" by simp
  then show ?thesis
    using list_path_Some [OF assms(1) n(2)] by (intro bexI [of _ i]) (auto simp: i_def GetIPFilePath_def name(2) join)
qed

text \<open>The listing takes one extension off and opening adds one only if none is left.\<close>

lemma double_extension_misses:
  "StripExt ''a.csv.csv'' = ''a.csv''"
  "GetIPFilePath (Some ''/opt'') (StripExt ''a.csv.csv'') = Inr ''/opt/ips/a.csv''"
  by code_simp+

lemma list_path_contained_witness:
  "GetIPFilePath (Some ''/opt'') ''../x'' = Inl BadListName"
  "GetIPFilePath (Some ''/opt'') ''my.CSV'' = Inr ''/opt/ips/my.CSV''"
proof -
  have b: "proper_dir ''/opt''" by code_simp
  have c: "path_Clean ''/opt'' = ''/opt''" "with_csv ''my.CSV'' = ''my.CSV''"
    "trim_space ''my.CSV'' \<noteq> []" by code_simp+
  show "GetIPFilePath (Some ''/opt'') ''../x'' = Inl BadListName"
    using list_path_contained [OF b, of "\<lambda>p. StatRegular 0 0" "''../x''" 0 0] by simp
  show "GetIPFilePath (Some ''/opt'') ''my.CSV'' = Inr ''/opt/ips/my.CSV''"
    using list_path_contained [OF b, of "\<lambda>p. StatRegular 0 0" "''my.CSV''" 0 0] c by simp
qed

subsection \<open>Renaming a listed tunnel\<close>

definition as_config :: "('c \<Rightarrow> tunnel_config) \<Rightarrow> store_err + 'c \<Rightarrow> tunnel_config option" where
  "as_config mk r = (case r of Inl e \<Rightarrow> None | Inr c \<Rightarrow> Some (mk c))"

definition load_tunnel :: "scan_env \<Rightarrow> DNSTunProtocol \<Rightarrow> string \<Rightarrow> tunnel_config option" where
  "load_tunnel env p name =
     (case p of
        ProtoVayDNS \<Rightarrow> as_config VayDNSOf (LoadConfig name (VayDNSDir env))
      | ProtoDNSTT \<Rightarrow> as_config DNSTTOf (LoadConfig name (DNSTTDir env))
      | ProtoSlipstream \<Rightarrow> as_config SlipstreamOf (LoadConfig name (SlipstreamDir env))
      | ProtoMasterDNS \<Rightarrow> as_config MasterDNSOf (LoadConfig name (MasterDNSDir env))
      | ProtoStormDNS \<Rightarrow> as_config StormDNSOf (LoadConfig name (StormDNSDir env))
      | ProtoTheFeed \<Rightarrow> as_config TheFeedOf (LoadConfig name (TheFeedDir env))
      | ProtoOther s \<Rightarrow> None)"

lemma listed_loads:
  "(k, n, c) \<in> set (GetAllConfigFiles validate fs) \<Longrightarrow> LoadConfig n fs = Inr c \<and> k = normalizeConfigName n \<and> validate c = []"
proof -
  assume "(k, n, c) \<in> set (GetAllConfigFiles validate fs)"
  then obtain y where "(case LoadConfig y fs of Inl err \<Rightarrow> None
      | Inr c \<Rightarrow> if validate c \<noteq> [] then None else Some (normalizeConfigName y, y, c)) = Some (k, n, c)"
    unfolding GetAllConfigFiles_def mem_map_filter by blast
  then show ?thesis by (cases "LoadConfig y fs") (auto split: if_splits)
qed

lemma rename_listed:
  assumes "(k, n, c) \<in> set (GetAllConfigFiles validate fs)" and "normalizeConfigName k = k"
    and "RenameConfig ok k new fs = (None, fs')"
  shows "LoadConfig new fs' = Inr c" and "isl (LoadConfig k fs')"
    and "normalizeConfigName m \<noteq> k \<Longrightarrow> normalizeConfigName m \<noteq> normalizeConfigName new \<Longrightarrow> LoadConfig m fs' = LoadConfig m fs"
proof -
  have "LoadConfig k fs = Inr c"
    using listed_loads [OF assms(1)] assms(2) RenameConfig_done [OF assms(3)]
    by (auto simp: LoadConfig_def configPath_def split: if_splits)
  then show "LoadConfig new fs' = Inr c" "isl (LoadConfig k fs')"
    using store.rename_moves [OF assms(3)] by auto
  show "LoadConfig m fs' = LoadConfig m fs" if "normalizeConfigName m \<noteq> k" "normalizeConfigName m \<noteq> normalizeConfigName new"
    using store.rename_other [OF assms(3), of m] that assms(2) by simp
qed

lemma mem_entries_of:
  "f \<in> set (entries_of time p proxy mk files) \<longleftrightarrow>
     (\<exists>c. (DtName f, DtPath f, c) \<in> set files \<and> DtProtocol f = p \<and> DtConfig f = mk c \<and> DtTime f = time p (DtPath f)
        \<and> DtProxy f = proxy c)"
  by (cases f) (force simp: entries_of_def)

lemma all_tunnelsE:
  assumes "f \<in> set (all_tunnels time env)"
  obtains
    (vay) c where "(DtName f, DtPath f, c) \<in> set (GetAllConfigFiles (VayDNS_Validate (Tun env)) (VayDNSDir env))"
        "DtProtocol f = ProtoVayDNS" "DtConfig f = VayDNSOf c"
    | (dnstt) c where "(DtName f, DtPath f, c) \<in> set (GetAllConfigFiles (DNSTT_Validate (Tun env)) (DNSTTDir env))"
        "DtProtocol f = ProtoDNSTT" "DtConfig f = DNSTTOf c"
    | (slip) c where "(DtName f, DtPath f, c) \<in> set (GetAllConfigFiles (Slipstream_Validate (Tun env)) (SlipstreamDir env))"
        "DtProtocol f = ProtoSlipstream" "DtConfig f = SlipstreamOf c"
    | (master) c where "(DtName f, DtPath f, c) \<in> set (GetAllConfigFiles (MasterDNS_Validate (Tun env)) (MasterDNSDir env))"
        "DtProtocol f = ProtoMasterDNS" "DtConfig f = MasterDNSOf c"
    | (storm) c where "(DtName f, DtPath f, c) \<in> set (GetAllConfigFiles (StormDNS_Validate (Tun env)) (StormDNSDir env))"
        "DtProtocol f = ProtoStormDNS" "DtConfig f = StormDNSOf c"
    | (feed) c where "(DtName f, DtPath f, c) \<in> set (GetAllConfigFiles (TheFeed_Validate (Tun env)) (TheFeedDir env))"
        "DtProtocol f = ProtoTheFeed" "DtConfig f = TheFeedOf c"
  using assms by (auto simp: all_tunnels_def Let_def mem_entries_of)

lemma rename_in_store:
  assumes "(DtName f, DtPath f, c) \<in> set (GetAllConfigFiles validate d)" and "normalizeConfigName (DtName f) = DtName f"
    and "store_result (RenameConfig ok (DtName f) new d) put = (None, env')" and "DtConfig f = mk c"
    and here: "\<And>d m. load_tunnel (put d) (DtProtocol f) m = as_config mk (LoadConfig m d)"
      "\<And>m. load_tunnel env (DtProtocol f) m = as_config mk (LoadConfig m d)"
    and there: "\<And>p d m. p \<noteq> DtProtocol f \<Longrightarrow> load_tunnel (put d) p m = load_tunnel env p m"
  shows "load_tunnel env' (DtProtocol f) new = Some (DtConfig f) \<and> load_tunnel env' (DtProtocol f) (DtName f) = None
    \<and> (\<forall>p m. p \<noteq> DtProtocol f \<or> normalizeConfigName m \<notin> {DtName f, normalizeConfigName new}
         \<longrightarrow> load_tunnel env' p m = load_tunnel env p m)"
proof -
  obtain d' where d': "RenameConfig ok (DtName f) new d = (None, d')" "env' = put d'"
    using assms(3) by (cases "RenameConfig ok (DtName f) new d") (auto simp: store_result_def)
  note r = rename_listed [OF assms(1,2) d'(1)]
  have "load_tunnel env' p m = load_tunnel env p m"
    if "p \<noteq> DtProtocol f \<or> normalizeConfigName m \<notin> {DtName f, normalizeConfigName new}" for p m
    using that r(3) [of m] by (cases "p = DtProtocol f") (auto simp: d'(2) here there)
  with r(1,2) show ?thesis
    by (auto simp: d'(2) here as_config_def assms(4) split: sum.split)
qed

text \<open>Renaming a configuration that the tunnel screen lists moves it under its new name in the store of its own
  protocol and keeps it as it was; every other configuration of every protocol loads as before. (The listed name must
  not end in toml itself.)\<close>
theorem renamed_tunnel_keeps_config:
  assumes "GetAllDNSTunsFile dir_ok slip time env (Inr files)" and "f \<in> set files"
    and "normalizeConfigName (DtName f) = DtName f"
    and "RenameDNSTunConfigFile ok slip f new env = (None, env')"
  shows "load_tunnel env' (DtProtocol f) new = Some (DtConfig f) \<and> load_tunnel env' (DtProtocol f) (DtName f) = None
    \<and> (\<forall>p m. p \<noteq> DtProtocol f \<or> normalizeConfigName m \<notin> {DtName f, normalizeConfigName new}
         \<longrightarrow> load_tunnel env' p m = load_tunnel env p m)"
proof -
  have "mset files = mset (all_tunnels time env)"
    using assms(1) by (auto simp: GetAllDNSTunsFile_def newest_first_def split: option.splits)
  with assms(2) have "f \<in> set (all_tunnels time env)" by (metis mset_eq_setD)
  then show ?thesis
  proof (cases rule: all_tunnelsE)
    case (vay c)
    from vay(1) assms(3) _ vay(3) show ?thesis
      by (rule rename_in_store [where put = "\<lambda>d. env\<lparr>VayDNSDir := d\<rparr>" and ok = ok])
        (use assms(4) vay(2) in \<open>auto simp: RenameDNSTunConfigFile_def load_tunnel_def split: DNSTunProtocol.split\<close>)
  next
    case (dnstt c)
    from dnstt(1) assms(3) _ dnstt(3) show ?thesis
      by (rule rename_in_store [where put = "\<lambda>d. env\<lparr>DNSTTDir := d\<rparr>" and ok = ok])
        (use assms(4) dnstt(2) in \<open>auto simp: RenameDNSTunConfigFile_def load_tunnel_def split: DNSTunProtocol.split\<close>)
  next
    case (slip c)
    from slip(1) assms(3) _ slip(3) show ?thesis
      by (rule rename_in_store [where put = "\<lambda>d. env\<lparr>SlipstreamDir := d\<rparr>" and ok = ok])
        (use assms(4) slip(2) in \<open>auto simp: RenameDNSTunConfigFile_def load_tunnel_def split: DNSTunProtocol.split if_splits\<close>)
  next
    case (master c)
    from master(1) assms(3) _ master(3) show ?thesis
      by (rule rename_in_store [where put = "\<lambda>d. env\<lparr>MasterDNSDir := d\<rparr>" and ok = ok])
        (use assms(4) master(2) in \<open>auto simp: RenameDNSTunConfigFile_def load_tunnel_def split: DNSTunProtocol.split\<close>)
  next
    case (storm c)
    from storm(1) assms(3) _ storm(3) show ?thesis
      by (rule rename_in_store [where put = "\<lambda>d. env\<lparr>StormDNSDir := d\<rparr>" and ok = ok])
        (use assms(4) storm(2) in \<open>auto simp: RenameDNSTunConfigFile_def load_tunnel_def split: DNSTunProtocol.split\<close>)
  next
    case (feed c)
    from feed(1) assms(3) _ feed(3) show ?thesis
      by (rule rename_in_store [where put = "\<lambda>d. env\<lparr>TheFeedDir := d\<rparr>" and ok = ok])
        (use assms(4) feed(2) in \<open>auto simp: RenameDNSTunConfigFile_def load_tunnel_def split: DNSTunProtocol.split\<close>)
  qed
qed

lemma GetAllConfigFiles_empty: "GetAllConfigFiles validate [] = []"
  by (simp add: GetAllConfigFiles_def toml_files_def List.map_filter_simps)

definition feed_store :: scan_env where
  "feed_store =
     \<lparr>Tun = \<lparr>idna_ascii = Some, hello_labels = [], ssh_key_ok = (\<lambda>k. False), hosts_file_ok = (\<lambda>p. False)\<rparr>,
      icmp_sockets = None, http_request = \<lambda>c. None, xray_probe = \<lambda>c n. None, writer_factory = \<lambda>pfx schema. None,
      DNSTTDir = [], VayDNSDir = [], SlipstreamDir = [], MasterDNSDir = [], StormDNSDir = [],
      TheFeedDir = [(''a.toml'', ConfFile (Some (DefaultTheFeedConfig\<lparr>TfDomain := ''t.example'', Passphrase := ''p''\<rparr>)))]\<rparr>"

lemma renamed_tunnel_keeps_config_witness:
  "load_tunnel (snd (RenameDNSTunConfigFile True True (hd (all_tunnels (\<lambda>p f. 1) feed_store)) ''b'' feed_store)) ProtoTheFeed ''b''
     = Some (TheFeedOf (DefaultTheFeedConfig\<lparr>TfDomain := ''t.example'', Passphrase := ''p''\<rparr>))"
proof -
  let ?c = "DefaultTheFeedConfig\<lparr>TfDomain := ''t.example'', Passphrase := ''p''\<rparr>"
  let ?f = "\<lparr>DtName = ''a'', DtPath = ''a.toml'', DtTime = 1, DtProtocol = ProtoTheFeed, DtProxy = ''socks-passphrase'',
              DtConfig = TheFeedOf ?c\<rparr>"
  have "GetAllConfigFiles (TheFeed_Validate (Tun feed_store)) (TheFeedDir feed_store) = [(''a'', ''a.toml'', ?c)]"
    by code_simp
  then have all: "all_tunnels (\<lambda>p f. 1) feed_store = [?f]"
    by (simp add: all_tunnels_def entries_of_def feed_store_def GetAllConfigFiles_empty Let_def)
  then have listed: "GetAllDNSTunsFile (\<lambda>p. True) True (\<lambda>p f. 1) feed_store (Inr [?f])"
    by (simp add: GetAllDNSTunsFile_def tunnels_failure_def newest_first_def)
  have "fst (RenameDNSTunConfigFile True True ?f ''b'' feed_store) = None" by code_simp
  then obtain env' where r: "RenameDNSTunConfigFile True True ?f ''b'' feed_store = (None, env')"
    by (cases "RenameDNSTunConfigFile True True ?f ''b'' feed_store") simp
  have "normalizeConfigName ''a'' = ''a''" by code_simp
  with renamed_tunnel_keeps_config [OF listed _ _ r] show ?thesis by (simp add: all r)
qed

text \<open>When the Slipstream library cannot be loaded no tunnel of any protocol is listed.\<close>
theorem no_library_no_listing:
  "GetAllDNSTunsFile (\<lambda>p. True) False time env out \<longleftrightarrow> out = Inl NoSlipstreamLib"
  by (simp add: GetAllDNSTunsFile_def tunnels_failure_def)

text \<open>A name with the extension twice can be saved, is listed without both, and is not found under the listed name.\<close>

lemma double_toml_lost:
  "fst (SaveConfig (\<lambda>c::nat. []) id Written 7 ''a.toml.toml'' []) = None"
  "map fst (GetAllConfigFiles (\<lambda>c. []) (snd (SaveConfig (\<lambda>c::nat. []) id Written 7 ''a.toml.toml'' []))) = [''a.toml'']"
  "LoadConfig ''a.toml'' (snd (SaveConfig (\<lambda>c::nat. []) id Written 7 ''a.toml.toml'' [])) = Inl IOError"
  by code_simp+

end
