(* ===== verification/LiveResults.thy ===== *)
theory LiveResults
  imports Complex_Main ScanErrors StableSort "HOL-Library.List_Lexorder" "HOL-Library.Char_ord"
begin

text \<open>
  The screen of a running scan (\<open>internal/ui/components/scanner\<close>: \<open>stage.go\<close>, \<open>model.go\<close>, \<open>update.go\<close>) and the
  progress it shows (\<open>internal/core/scanner/engine/progress.go\<close>). Worker goroutines append to the batch of a stage under
  its lock; the goroutine of the interface drains it when a message about the stage arrives. Every such access is
  one event, so a list of events is any interleaving of them. A result is anything with a score and a key.
  Floating point numbers are rationals with the rounding \<open>fl\<close>.
\<close>

subsection \<open>Progress\<close>

record Progress =
  PgTotal :: u64
  Processed :: u64
  Succeed :: u64
  PgErrors :: errStats
  Percent :: rat
  Elapsed :: int
  RatePerSec :: rat
  ETA :: int

definition no_progress :: Progress where
  "no_progress =
     \<lparr>PgTotal = 0, Processed = 0, Succeed = 0, PgErrors = no_errs, Percent = 0, Elapsed = 0, RatePerSec = 0, ETA = 0\<rparr>"

definition fl_u64 :: "(rat \<Rightarrow> rat) \<Rightarrow> u64 \<Rightarrow> rat" where
  "fl_u64 fl n = fl (of_nat (unat n))"

text \<open>\<open>Seconds\<close> of a duration, and the largest number of seconds of an ETA.\<close>

definition Seconds :: "(rat \<Rightarrow> rat) \<Rightarrow> int \<Rightarrow> rat" where
  "Seconds fl d = fl (of_int (d div 1000000000) + fl (of_int (d mod 1000000000) / 1000000000))"

definition maxETASeconds :: "(rat \<Rightarrow> rat) \<Rightarrow> rat" where
  "maxETASeconds fl = fl (fl (of_int (2 ^ 63 - 1)) / 1000000000)"

definition progress_percent :: "(rat \<Rightarrow> rat) \<Rightarrow> u64 \<Rightarrow> u64 \<Rightarrow> rat" where
  "progress_percent fl targets processed =
     (if 0 < targets then min (fl (fl (fl_u64 fl processed / fl_u64 fl targets) * 100)) 100 else 0)"

text \<open>\<open>run\<close> is \<open>now.Sub(start)\<close>.\<close>

definition reportProgress ::
    "(rat \<Rightarrow> rat) \<Rightarrow> int \<Rightarrow> int \<Rightarrow> u64 \<Rightarrow> u64 \<Rightarrow> u64 \<Rightarrow> errStats \<Rightarrow> Progress" where
  "reportProgress fl run paused targets processed succeed errs =
     (let elapsed = max (run - paused) 0;
          rate = (if 0 < elapsed then fl (fl_u64 fl processed / Seconds fl elapsed) else 0);
          etaSeconds = fl (fl_u64 fl (targets - processed) / rate);
          eta = (if 0 < rate \<and> processed < targets
                 then if etaSeconds < maxETASeconds fl then \<lfloor>fl (etaSeconds * 1000000000)\<rfloor> else 2 ^ 63 - 1
                 else 0)
      in \<lparr>PgTotal = targets, Processed = processed, Succeed = succeed, PgErrors = errs,
          Percent = progress_percent fl targets processed, Elapsed = elapsed, RatePerSec = rate, ETA = eta\<rparr>)"

subsection \<open>A stage\<close>

text \<open>\<open>op_parse\<close> is the parser of the schema on the record of a result.\<close>

record ('r, 's) result_ops =
  op_score :: "'r \<Rightarrow> 's"
  op_key :: "'r \<Rightarrow> string"
  op_parse :: "'r \<Rightarrow> 'r option"

datatype StageStatus = StatusWaiting | StatusScanning | StatusEnded

definition StageStatus_String :: "StageStatus \<Rightarrow> string" where
  "StageStatus_String s =
     (case s of StatusWaiting \<Rightarrow> ''Waiting'' | StatusScanning \<Rightarrow> ''Scanning'' | StatusEnded \<Rightarrow> ''Ended'')"

text \<open>\<open>st_rows\<close> are the rows that were last handed to the table.\<close>

record 'r scan_stage =
  st_maxIPs :: nat
  st_results :: "'r list"
  st_batch :: "'r list"
  st_rows :: "'r list"
  st_status :: StageStatus
  st_progress :: Progress
  st_dirty :: bool

definition newScanStage :: "32 word \<Rightarrow> 'r scan_stage" where
  "newScanStage maxRow =
     \<lparr>st_maxIPs = unat maxRow, st_results = [], st_batch = [], st_rows = [], st_status = StatusWaiting,
      st_progress = no_progress, st_dirty = True\<rparr>"

definition onEngineSuccess :: "'r \<Rightarrow> 'r scan_stage \<Rightarrow> 'r scan_stage" where
  "onEngineSuccess r s = s\<lparr>st_batch := st_batch s @ [r]\<rparr>"

definition cmpResult :: "('r, 's::linorder) result_ops \<Rightarrow> 'r \<Rightarrow> 'r \<Rightarrow> int" where
  "cmpResult lib a b =
     cmp_Or (cmp_Compare (op_score lib b) (op_score lib a)) (cmp_Compare (op_key lib a) (op_key lib b))"

text \<open>The loop of \<open>mergeSorted\<close>, with the room that is left.\<close>

fun merge_loop :: "('r \<Rightarrow> 'r \<Rightarrow> int) \<Rightarrow> 'r list \<Rightarrow> 'r list \<Rightarrow> nat \<Rightarrow> 'r list" where
  "merge_loop c a b 0 = []"
| "merge_loop c [] [] (Suc n) = []"
| "merge_loop c (x # a) [] (Suc n) = x # merge_loop c a [] n"
| "merge_loop c [] (y # b) (Suc n) = y # merge_loop c [] b n"
| "merge_loop c (x # a) (y # b) (Suc n) =
     (if c y x < 0 then y # merge_loop c (x # a) b n else x # merge_loop c a (y # b) n)"

definition mergeSorted :: "('r, 's::linorder) result_ops \<Rightarrow> 'r list \<Rightarrow> 'r list \<Rightarrow> nat \<Rightarrow> 'r list" where
  "mergeSorted lib a b limit = merge_loop (cmpResult lib) a b limit"

definition normalize_result :: "('r, 's) result_ops \<Rightarrow> 'r \<Rightarrow> 'r" where
  "normalize_result lib r = (case op_parse lib r of None \<Rightarrow> r | Some r' \<Rightarrow> r')"

text \<open>\<open>None\<close> is a panic: an index out of range.\<close>

definition mergeBatch :: "('r, 's::linorder) result_ops \<Rightarrow> 'r scan_stage \<Rightarrow> 'r scan_stage option" where
  "mergeBatch lib s0 =
     (let batch = st_batch s0; s = s0\<lparr>st_batch := []\<rparr> in
      if batch = [] then Some s
      else let batch = map (normalize_result lib) batch;
               batch = SortStableFunc (cmpResult lib) batch;
               batch = (if st_maxIPs s < length batch then take (st_maxIPs s) batch else batch);
               full = (st_maxIPs s \<le> length (st_results s))
           in if full \<and> (batch = [] \<or> st_results s = []) then None
              else if full \<and> 0 \<le> cmpResult lib (hd batch) (last (st_results s)) then Some s
              else let rs = mergeSorted lib (st_results s) batch (st_maxIPs s)
                   in Some (s\<lparr>st_results := rs, st_rows := rs\<rparr>))"

definition setProgress :: "Progress \<Rightarrow> 'r scan_stage \<Rightarrow> 'r scan_stage" where
  "setProgress p s =
     s\<lparr>st_status := (if st_status s = StatusWaiting then StatusScanning else st_status s),
       st_progress := p, st_dirty := True\<rparr>"

text \<open>What \<open>updateProgressBar\<close> sends to the bar.\<close>

definition updateProgressBar :: "(rat \<Rightarrow> rat) \<Rightarrow> 'r scan_stage \<Rightarrow> rat option" where
  "updateProgressBar fl s =
     (case st_status s of
        StatusScanning \<Rightarrow> Some (fl (Percent (st_progress s) / 100))
      | StatusEnded \<Rightarrow> Some 1
      | StatusWaiting \<Rightarrow> None)"

subsection \<open>The screen\<close>

datatype screen_cmd = CriticalError string | CloseError string | ResetStacks | BarTo nat rat | NextPulse

record 'r scan_screen =
  sc_stages :: "'r scan_stage list"
  sc_pulse :: int
  sc_pulseDir :: int
  sc_err :: "string option"

definition newScreen :: "32 word \<Rightarrow> nat \<Rightarrow> 'r scan_screen" where
  "newScreen maxRow n = \<lparr>sc_stages = replicate n (newScanStage maxRow), sc_pulse = 0, sc_pulseDir = 0, sc_err = None\<rparr>"

text \<open>Found is the hook that a worker calls; the others are messages of the interface.\<close>

datatype 'r scan_event =
    Found nat 'r | ScanErrorMsg string | ScanCloseResult "string option" | StageProgress int Progress | StageEnd int
  | Pulse | ThemeChanged

definition getStage :: "int \<Rightarrow> 'r scan_screen \<Rightarrow> nat option" where
  "getStage idx m = (if idx < 0 \<or> int (length (sc_stages m)) \<le> idx then None else Some (nat idx))"

definition pulse_step :: "'r scan_screen \<Rightarrow> 'r scan_screen" where
  "pulse_step m =
     (let p = sc_pulse m + sc_pulseDir m in
      if 8 - 1 \<le> p then m\<lparr>sc_pulse := 8 - 1, sc_pulseDir := - 1\<rparr>
      else if p \<le> 0 then m\<lparr>sc_pulse := 0, sc_pulseDir := 1\<rparr>
      else m\<lparr>sc_pulse := p\<rparr>)"

definition set_stage :: "nat \<Rightarrow> 'r scan_stage \<Rightarrow> 'r scan_screen \<Rightarrow> 'r scan_screen" where
  "set_stage i s m = m\<lparr>sc_stages := (sc_stages m)[i := s]\<rparr>"

definition on_bar :: "(rat \<Rightarrow> rat) \<Rightarrow> nat \<Rightarrow> 'r scan_stage \<Rightarrow> 'r scan_screen \<Rightarrow> 'r scan_screen \<times> screen_cmd list" where
  "on_bar fl i s m =
     (set_stage i s m, case updateProgressBar fl s of None \<Rightarrow> [] | Some x \<Rightarrow> [BarTo i x])"

fun screen_step ::
    "('r, 's::linorder) result_ops \<Rightarrow> (rat \<Rightarrow> rat) \<Rightarrow> 'r scan_event \<Rightarrow> 'r scan_screen
     \<Rightarrow> ('r scan_screen \<times> screen_cmd list) option" where
  "screen_step lib fl (Found i r) m =
     (if i < length (sc_stages m) then Some (set_stage i (onEngineSuccess r (sc_stages m ! i)) m, []) else Some (m, []))"
| "screen_step lib fl (ScanErrorMsg e) m = Some (m\<lparr>sc_err := Some e\<rparr>, [CriticalError e])"
| "screen_step lib fl (ScanCloseResult e) m =
     Some (m, [case e of Some err \<Rightarrow> CloseError err | None \<Rightarrow> ResetStacks])"
| "screen_step lib fl (StageProgress sid p) m =
     (case getStage sid m of
        None \<Rightarrow> Some (m, [CriticalError ''stage not found''])
      | Some i \<Rightarrow> map_option (\<lambda>s. on_bar fl i (setProgress p s) m) (mergeBatch lib (sc_stages m ! i)))"
| "screen_step lib fl (StageEnd sid) m =
     (case getStage sid m of
        None \<Rightarrow> Some (m, [CriticalError ''stage not found''])
      | Some i \<Rightarrow>
          map_option (\<lambda>s. on_bar fl i s m) (mergeBatch lib ((sc_stages m ! i)\<lparr>st_status := StatusEnded\<rparr>)))"
| "screen_step lib fl Pulse m = Some (pulse_step m, [NextPulse])"
| "screen_step lib fl ThemeChanged m = Some (m\<lparr>sc_stages := map (\<lambda>s. s\<lparr>st_dirty := True\<rparr>) (sc_stages m)\<rparr>, [])"

fun screen_run ::
    "('r, 's::linorder) result_ops \<Rightarrow> (rat \<Rightarrow> rat) \<Rightarrow> 'r scan_event list \<Rightarrow> 'r scan_screen \<Rightarrow> 'r scan_screen option" where
  "screen_run lib fl [] m = Some m"
| "screen_run lib fl (e # es) m =
     (case screen_step lib fl e m of None \<Rightarrow> None | Some (m', cmds) \<Rightarrow> screen_run lib fl es m')"

subsection \<open>Merging sorted lists\<close>

lemma insert_commute: "cmp_ok c \<Longrightarrow> c y x < 0 \<Longrightarrow> insert_by c x (insert_by c y w) = insert_by c y (insert_by c x w)"
proof (induction w)
  case Nil
  then show ?case using cmp_swap [of c x y] by auto
next
  case (Cons z w)
  have "\<not> c x y \<le> 0" using cmp_swap [OF Cons.prems(1), of x y] Cons.prems(2) by auto
  moreover have "c y z \<le> 0" if "c x z \<le> 0"
    using cmp_trans [OF Cons.prems(1), of y x z] that Cons.prems(2) by auto
  ultimately show ?case using Cons by auto
qed

lemma cmp_less: "cmp_ok c \<Longrightarrow> (c y x < 0) = (\<not> c x y \<le> 0)"
  by (metis cmp_swap not_le)

lemma foldr_insert_by: "cmp_ok c \<Longrightarrow> foldr (insert_by c) (insert_by c x s) w = insert_by c x (foldr (insert_by c) s w)"
proof (induction s)
  case (Cons y s)
  have "c y x < 0" if "\<not> c x y \<le> 0" using that cmp_less [OF Cons.prems] by simp
  with Cons insert_commute [OF Cons.prems, of y x "foldr (insert_by c) s w"] show ?case by auto
qed simp

lemma Sort_append: "SortStableFunc c (xs @ ys) = foldr (insert_by c) xs (SortStableFunc c ys)"
  by (simp add: SortStableFunc_def)

lemma Sort_Sort_append: "cmp_ok c \<Longrightarrow> SortStableFunc c (SortStableFunc c xs @ SortStableFunc c ys) = SortStableFunc c (xs @ ys)"
proof -
  assume c: "cmp_ok c"
  have "SortStableFunc c (SortStableFunc c ys) = SortStableFunc c ys"
    by (rule SortStableFunc_id) (simp add: c)
  moreover have "foldr (insert_by c) (SortStableFunc c xs) w = foldr (insert_by c) xs w" for w
    by (induction xs) (simp_all add: foldr_insert_by c)
  ultimately show ?thesis by (simp add: Sort_append)
qed

lemma Sort_least_first:
  "\<forall>z \<in> set u. c y z < 0 \<Longrightarrow> \<forall>z \<in> set v. c y z \<le> 0 \<Longrightarrow> cmp_ok c \<Longrightarrow>
   SortStableFunc c (u @ y # v) = y # SortStableFunc c (u @ v)"
proof (induction u)
  case Nil
  then show ?case by (cases "SortStableFunc c v") (simp, metis append_Nil insert_by.simps(2) list.set_intros(1) set_SortStableFunc SortStableFunc_simps(2))
next
  case (Cons z u)
  have "\<not> c z y \<le> 0" using cmp_swap [OF Cons.prems(3), of z y] Cons.prems(1) by auto
  with Cons show ?case by simp
qed

lemma merge_loop_eq:
  "sorted_cmp c a \<Longrightarrow> sorted_cmp c b \<Longrightarrow> cmp_ok c \<Longrightarrow> merge_loop c a b n = take n (SortStableFunc c (a @ b))"
proof (induction c a b n rule: merge_loop.induct)
  case (3 c x a n)
  then show ?case using Sort_least_first [of "[]" c x a] by simp
next
  case (4 c y b n)
  then show ?case using Sort_least_first [of "[]" c y b] by simp
next
  case (5 c x a y b n)
  show ?case
  proof (cases "c y x < 0")
    case True
    have "c y z < 0" if "z \<in> set (x # a)" for z
    proof (cases "z = x")
      case False
      then have "c x z \<le> 0" using that 5 by auto
      with True show ?thesis
        using cmp_trans [OF 5(5), of y x z] cmp_zero [OF 5(5), of y z] cmp_trans [OF 5(5), of x z y]
          cmp_swap [OF 5(5), of x y] by force
    qed (use True in simp)
    then have "SortStableFunc c ((x # a) @ y # b) = y # SortStableFunc c ((x # a) @ b)"
      using 5 by (intro Sort_least_first) auto
    with True 5 show ?thesis by simp
  next
    case False
    then have xy: "c x y \<le> 0" using cmp_swap [OF 5(5), of x y] by auto
    then have "c x z \<le> 0" if "z \<in> set (a @ y # b)" for z
      using that 5 cmp_trans [OF 5(5) xy, of z] by auto
    then have "SortStableFunc c ([] @ x # a @ y # b) = x # SortStableFunc c ([] @ a @ y # b)"
      using 5 by (intro Sort_least_first) auto
    with False 5 show ?thesis by simp
  qed
qed simp_all

lemma merge_loop_take: "n \<le> j \<Longrightarrow> n \<le> k \<Longrightarrow> merge_loop c (take j a) (take k b) n = merge_loop c a b n"
proof (induction c a b n arbitrary: j k rule: merge_loop.induct)
  case (3 c x a n)
  then obtain j' where "j = Suc j'" by (cases j) auto
  with 3(1) [of j' k] 3 show ?case by simp
next
  case (4 c y b n)
  then obtain k' where "k = Suc k'" by (cases k) auto
  with 4(1) [of j k'] 4 show ?case by simp
next
  case (5 c x a y b n)
  then obtain j' k' where "j = Suc j'" "k = Suc k'" by (cases j; cases k) auto
  with 5(1) [of j k'] 5(2) [of j' k] 5(3,4) show ?case by simp
qed simp_all

lemma merge_loop_after: "\<forall>x \<in> set a. \<forall>y \<in> set b. c x y \<le> 0 \<Longrightarrow> cmp_ok c \<Longrightarrow> merge_loop c a b n = take n (a @ b)"
proof (induction c a b n rule: merge_loop.induct)
  case (5 c x a y b n)
  then have "\<not> c y x < 0" using cmp_swap [OF 5(4), of x y] by auto
  with 5 show ?case by simp
qed simp_all

text \<open>Merging the best of two lists gives the best of both.\<close>

lemma merge_takes_best:
  assumes "cmp_ok c"
  shows "merge_loop c (take k (SortStableFunc c xs)) (take k (SortStableFunc c ys)) k = take k (SortStableFunc c (xs @ ys))"
  using merge_loop_eq [of c "SortStableFunc c xs" "SortStableFunc c ys" k] assms
  by (simp add: merge_loop_take Sort_Sort_append)

lemma cmpResult_eq:
  "cmpResult lib = (\<lambda>a b. cmp_Or (- cmp_Compare (op_score lib a) (op_score lib b)) (cmp_Compare (op_key lib a) (op_key lib b)))"
  by (intro ext) (auto simp: cmpResult_def cmp_Compare_def)

lemma cmp_ok_cmpResult [simp]: "cmp_ok (cmpResult lib)"
proof -
  have "cmp_ok (\<lambda>a b. - cmp_Compare (op_score lib a) (op_score lib b))"
    by (rule cmp_ok_neg, rule cmp_ok_on [OF cmp_ok_Compare])
  then show ?thesis
    unfolding cmpResult_eq by (rule cmp_ok_Or) (rule cmp_ok_on [OF cmp_ok_Compare])
qed

subsection \<open>What a stage shows\<close>

definition best :: "('r, 's::linorder) result_ops \<Rightarrow> nat \<Rightarrow> 'r list \<Rightarrow> 'r list" where
  "best lib k rs = take k (SortStableFunc (cmpResult lib) (map (normalize_result lib) rs))"

lemma last_of_best:
  assumes "st_results s = best lib k rs" and "st_results s \<noteq> []" and "x \<in> set (st_results s)"
  shows "cmpResult lib x (last (st_results s)) \<le> 0"
proof -
  have "sorted_cmp (cmpResult lib) (st_results s)"
    unfolding assms(1) best_def by (intro sorted_wrt_take sorted_SortStableFunc cmp_ok_cmpResult)
  then have "sorted_cmp (cmpResult lib) (butlast (st_results s) @ [last (st_results s)])"
    using assms(2) by simp
  moreover have "x \<in> set (butlast (st_results s) @ [last (st_results s)])" using assms(2,3) by simp
  ultimately show ?thesis using cmp_ok_cmpResult [of lib] by (auto simp: sorted_wrt_append)
qed

lemma mergeBatch_best:
  assumes "0 < st_maxIPs s" and "st_results s = best lib (st_maxIPs s) rs" and "st_rows s = st_results s"
  shows "\<exists>rs'. mergeBatch lib s = Some (s\<lparr>st_batch := [], st_results := rs', st_rows := rs'\<rparr>)
    \<and> rs' = best lib (st_maxIPs s) (rs @ st_batch s)"
proof (cases "st_batch s = []")
  case True
  with assms show ?thesis by (simp add: mergeBatch_def)
next
  case False
  let ?k = "st_maxIPs s" and ?c = "cmpResult lib"
  let ?b = "take ?k (SortStableFunc ?c (map (normalize_result lib) (st_batch s)))"
  have merged: "merge_loop ?c (st_results s) ?b ?k = best lib ?k (rs @ st_batch s)"
    unfolding assms(2) best_def by (simp add: merge_takes_best)
  have b: "?b \<noteq> []" "length ?b \<le> ?k"
    using False assms(1) by (auto simp: take_eq_Nil) (metis length_0_conv length_SortStableFunc length_map)
  show ?thesis
  proof (cases "?k \<le> length (st_results s) \<and> 0 \<le> ?c (hd ?b) (last (st_results s))")
    case True
    then have ne: "st_results s \<noteq> []" using assms(1) by auto
    have "length (st_results s) \<le> ?k" by (simp add: assms(2) best_def)
    with True have len: "length (st_results s) = ?k" by simp
    have "sorted_cmp ?c ?b" by (intro sorted_wrt_take sorted_SortStableFunc cmp_ok_cmpResult)
    then have hd: "?c (hd ?b) y \<le> 0" if "y \<in> set ?b" for y
      using that b(1) cmp_refl [OF cmp_ok_cmpResult] by (cases ?b) auto
    have "?c x y \<le> 0" if "x \<in> set (st_results s)" "y \<in> set ?b" for x y
      using cmp_trans [OF cmp_ok_cmpResult last_of_best [OF assms(2) ne that(1)]]
        cmp_trans [OF cmp_ok_cmpResult _ hd [OF that(2)], of "last (st_results s)"]
        cmp_swap [OF cmp_ok_cmpResult, of lib "last (st_results s)" "hd ?b"] True by blast
    then have "merge_loop ?c (st_results s) ?b ?k = st_results s"
      by (subst merge_loop_after) (auto simp: len)
    with merged True False b ne assms(3) show ?thesis
      by (auto simp: mergeBatch_def Let_def)
  next
    case no: False
    have "st_results s \<noteq> []" if "?k \<le> length (st_results s)" using that assms(1) by auto
    with no False b merged show ?thesis
      by (auto simp: mergeBatch_def Let_def mergeSorted_def)
  qed
qed

text \<open>The results found for a stage, and those found before the last message about it.\<close>

definition found :: "nat \<Rightarrow> 'r scan_event list \<Rightarrow> 'r list" where
  "found i es = List.map_filter (\<lambda>e. case e of Found j r \<Rightarrow> if j = i then Some r else None | _ \<Rightarrow> None) es"

definition about_stage :: "nat \<Rightarrow> 'r scan_event \<Rightarrow> bool" where
  "about_stage i e = (case e of StageProgress j p \<Rightarrow> j = int i | StageEnd j \<Rightarrow> j = int i | _ \<Rightarrow> False)"

definition seen :: "nat \<Rightarrow> 'r scan_event list \<Rightarrow> 'r list" where
  "seen i es = found i (rev (dropWhile (\<lambda>e. \<not> about_stage i e) (rev es)))"

definition unseen :: "nat \<Rightarrow> 'r scan_event list \<Rightarrow> 'r list" where
  "unseen i es = found i (rev (takeWhile (\<lambda>e. \<not> about_stage i e) (rev es)))"

lemma found_append: "found i (es @ fs) = found i es @ found i fs"
  by (induction es) (auto simp: found_def map_filter_simps split: scan_event.split)

lemma seen_unseen: "seen i es @ unseen i es = found i es"
  by (simp add: seen_def unseen_def flip: found_append rev_append)

lemma seen_simps:
  "about_stage i e \<Longrightarrow> seen i (es @ [e]) = found i es" "about_stage i e \<Longrightarrow> unseen i (es @ [e]) = []"
  "\<not> about_stage i e \<Longrightarrow> seen i (es @ [e]) = seen i es"
  "\<not> about_stage i e \<Longrightarrow> unseen i (es @ [e]) = unseen i es @ found i [e]"
  by (auto simp: seen_def unseen_def found_append)
     (auto simp: found_def map_filter_simps about_stage_def split: scan_event.splits)

lemma screen_run_snoc:
  "screen_run lib fl (es @ [e]) m = Option.bind (screen_run lib fl es m) (\<lambda>m'. map_option fst (screen_step lib fl e m'))"
  by (induction es arbitrary: m) (auto split: option.split)

definition stage_ok :: "('r, 's::linorder) result_ops \<Rightarrow> nat \<Rightarrow> nat \<Rightarrow> 'r scan_event list \<Rightarrow> 'r scan_stage \<Rightarrow> bool" where
  "stage_ok lib k i es s \<longleftrightarrow>
     st_maxIPs s = k \<and> st_batch s = unseen i es \<and> st_results s = best lib k (seen i es) \<and> st_rows s = st_results s"

lemma stage_ok_merge:
  assumes "stage_ok lib k i es s" and "0 < k" and "about_stage i e"
  shows "\<exists>s'. mergeBatch lib (s\<lparr>st_status := x\<rparr>) = Some s' \<and> stage_ok lib k i (es @ [e]) s'
      \<and> stage_ok lib k i (es @ [e]) (setProgress p s')"
proof -
  from assms obtain rs' where "mergeBatch lib (s\<lparr>st_status := x\<rparr>) =
      Some (s\<lparr>st_status := x, st_batch := [], st_results := rs', st_rows := rs'\<rparr>)"
    "rs' = best lib k (seen i es @ unseen i es)"
    using mergeBatch_best [of "s\<lparr>st_status := x\<rparr>" lib "seen i es"] by (auto simp: stage_ok_def)
  with assms(1,3) show ?thesis
    by (simp add: stage_ok_def setProgress_def seen_simps seen_unseen)
qed

lemma stage_ok_keep:
  "stage_ok lib k i es s \<Longrightarrow> \<not> about_stage i e \<Longrightarrow> found i [e] = [] \<Longrightarrow> stage_ok lib k i (es @ [e]) s"
  by (simp add: stage_ok_def seen_simps)

lemma found_single: "found i [e] = (case e of Found j r \<Rightarrow> if j = i then [r] else [] | _ \<Rightarrow> [])"
  by (simp add: found_def map_filter_simps split: scan_event.split)

definition all_ok :: "('r, 's::linorder) result_ops \<Rightarrow> nat \<Rightarrow> nat \<Rightarrow> 'r scan_event list \<Rightarrow> 'r scan_screen \<Rightarrow> bool" where
  "all_ok lib k n es m \<longleftrightarrow> length (sc_stages m) = n \<and> (\<forall>i < n. stage_ok lib k i es (sc_stages m ! i))"

text \<open>An event about one stage leaves the others as they are.\<close>

lemma all_ok_set:
  assumes "all_ok lib k n es m" and "j < n" and "stage_ok lib k j (es @ [e]) s'"
    and "\<And>i. i \<noteq> j \<Longrightarrow> \<not> about_stage i e \<and> found i [e] = []"
  shows "all_ok lib k n (es @ [e]) (set_stage j s' m)"
  using assms stage_ok_keep [of lib k _ es _ e] by (auto simp: all_ok_def set_stage_def nth_list_update)

lemma all_ok_keep:
  "all_ok lib k n es m \<Longrightarrow> (\<And>i. i < n \<Longrightarrow> \<not> about_stage i e \<and> found i [e] = []) \<Longrightarrow> sc_stages m' = sc_stages m \<Longrightarrow>
   all_ok lib k n (es @ [e]) m'"
  using stage_ok_keep [of lib k _ es _ e] by (auto simp: all_ok_def)

lemma screen_step_ok:
  assumes "0 < k" and ok: "all_ok lib k n es m"
  shows "\<exists>m' cmds. screen_step lib fl e m = Some (m', cmds) \<and> all_ok lib k n (es @ [e]) m'"
proof (cases e)
  case (Found j r)
  have "stage_ok lib k j (es @ [e]) (onEngineSuccess r (sc_stages m ! j))" if "j < n"
    using ok that by (simp add: all_ok_def stage_ok_def onEngineSuccess_def seen_simps about_stage_def found_single Found)
  moreover have "all_ok lib k n (es @ [e]) m" if "\<not> j < n"
    by (rule all_ok_keep [OF ok]) (use that in \<open>auto simp: Found about_stage_def found_single\<close>)
  ultimately show ?thesis
    using all_ok_set [OF ok, of j e] ok by (auto simp: Found about_stage_def found_single all_ok_def)
next
  case (StageProgress sid p)
  show ?thesis
  proof (cases "getStage sid m")
    case None
    then have "all_ok lib k n (es @ [e]) m"
      using ok by (intro all_ok_keep [OF ok]) (auto simp: StageProgress about_stage_def found_single getStage_def all_ok_def split: if_splits)
    with None show ?thesis by (simp add: StageProgress)
  next
    case (Some j)
    then have j: "j < n" "sid = int j" using ok by (auto simp: getStage_def all_ok_def split: if_splits)
    then have "stage_ok lib k j es (sc_stages m ! j)" using ok by (simp add: all_ok_def)
    from stage_ok_merge [OF this assms(1), of e "st_status (sc_stages m ! j)" p] obtain s'
      where "mergeBatch lib (sc_stages m ! j) = Some s'" "stage_ok lib k j (es @ [e]) (setProgress p s')"
      by (auto simp: StageProgress about_stage_def j)
    with all_ok_set [OF ok j(1), of e] Some show ?thesis
      by (auto simp: StageProgress on_bar_def about_stage_def found_single j)
  qed
next
  case (StageEnd sid)
  show ?thesis
  proof (cases "getStage sid m")
    case None
    then have "all_ok lib k n (es @ [e]) m"
      using ok by (intro all_ok_keep [OF ok]) (auto simp: StageEnd about_stage_def found_single getStage_def all_ok_def split: if_splits)
    with None show ?thesis by (simp add: StageEnd)
  next
    case (Some j)
    then have j: "j < n" "sid = int j" using ok by (auto simp: getStage_def all_ok_def split: if_splits)
    then have "stage_ok lib k j es (sc_stages m ! j)" using ok by (simp add: all_ok_def)
    from stage_ok_merge [OF this assms(1), of e StatusEnded] obtain s'
      where "mergeBatch lib ((sc_stages m ! j)\<lparr>st_status := StatusEnded\<rparr>) = Some s'" "stage_ok lib k j (es @ [e]) s'"
      by (auto simp: StageEnd about_stage_def j)
    with all_ok_set [OF ok j(1), of e] Some show ?thesis
      by (auto simp: StageEnd on_bar_def about_stage_def found_single j)
  qed
next
  case ThemeChanged
  have "stage_ok lib k i es (s\<lparr>st_dirty := True\<rparr>) = stage_ok lib k i es s" for i s by (simp add: stage_ok_def)
  then have "all_ok lib k n es (m\<lparr>sc_stages := map (\<lambda>s. s\<lparr>st_dirty := True\<rparr>) (sc_stages m)\<rparr>)"
    using ok by (simp add: all_ok_def)
  from all_ok_keep [OF this, of e] show ?thesis by (simp add: ThemeChanged about_stage_def found_single)
qed (use all_ok_keep [OF ok, of e] in \<open>simp_all add: about_stage_def found_single pulse_step_def Let_def\<close>)

text \<open>C35. However workers and the interface interleave, the screen of a scan does not fail, and after any events the table of
  every stage shows the best of the results that arrived before the last message about the stage: at most the
  number of rows of the settings, sorted by score and key, earlier ones first among equal ones; once the end of the
  stage was handled and no worker reported since, that is the best of all of them.\<close>
theorem live_results_best:
  assumes "0 < maxRow"
  shows "\<exists>m. screen_run lib fl es (newScreen maxRow n) = Some m \<and> length (sc_stages m) = n \<and>
    (\<forall>i < n. st_rows (sc_stages m ! i) = best lib (unat maxRow) (seen i es)
      \<and> seen i es @ st_batch (sc_stages m ! i) = found i es)"
proof -
  have k: "0 < unat maxRow" using assms by (simp add: word_less_nat_alt)
  have "\<exists>m. screen_run lib fl es (newScreen maxRow n) = Some m \<and> all_ok lib (unat maxRow) n es m"
  proof (induction es rule: rev_induct)
    case Nil
    show ?case
      by (simp add: newScreen_def all_ok_def stage_ok_def newScanStage_def unseen_def seen_def found_def best_def map_filter_simps)
  next
    case (snoc e es)
    then obtain m where m: "screen_run lib fl es (newScreen maxRow n) = Some m" "all_ok lib (unat maxRow) n es m" by blast
    from screen_step_ok [OF k m(2), of fl e] m(1) show ?case by (auto simp: screen_run_snoc)
  qed
  then show ?thesis by (auto simp: all_ok_def stage_ok_def seen_unseen)
qed

lemma live_results_best_witness:
  "\<exists>m. screen_run \<lparr>op_score = fst, op_key = snd, op_parse = (\<lambda>r. None)\<rparr> id
      [Found 0 (5, ''b''), Found 0 (7, ''a''), StageProgress 0 no_progress, Found 0 (5, ''a''), Found 0 (3, ''c''), StageEnd 0]
      (newScreen 3 1) = Some m
    \<and> st_rows (sc_stages m ! 0) = [(7::nat, ''a''), (5, ''a''), (5, ''b'')]"
proof -
  let ?lib = "\<lparr>op_score = fst, op_key = snd, op_parse = (\<lambda>r. None)\<rparr> :: (nat \<times> string, nat) result_ops"
  let ?es = "[Found 0 (5, ''b''), Found 0 (7, ''a''), StageProgress 0 no_progress, Found 0 (5, ''a''), Found 0 (3, ''c''), StageEnd 0]
    :: (nat \<times> string) scan_event list"
  have "best ?lib (unat (3 :: 32 word)) (seen 0 ?es) = [(7, ''a''), (5, ''a''), (5, ''b'')]" by code_simp
  moreover have "(0 :: 32 word) < 3" by simp
  ultimately show ?thesis using live_results_best [of 3 ?lib id ?es 1] by auto
qed

text \<open>Progress never leaves its range, if rounding keeps the sign.\<close>

lemma progress_in_range:
  assumes "\<And>x. 0 \<le> x \<Longrightarrow> 0 \<le> fl x"
  shows "0 \<le> Percent (reportProgress fl run paused targets processed succeed errs)
    \<and> Percent (reportProgress fl run paused targets processed succeed errs) \<le> 100
    \<and> 0 \<le> Elapsed (reportProgress fl run paused targets processed succeed errs)
    \<and> 0 \<le> RatePerSec (reportProgress fl run paused targets processed succeed errs)
    \<and> 0 \<le> ETA (reportProgress fl run paused targets processed succeed errs)"
proof -
  have u: "0 \<le> fl_u64 fl n" for n unfolding fl_u64_def by (rule assms) (rule of_nat_0_le_iff)
  have s: "0 \<le> Seconds fl d" if "0 \<le> d" for d
    unfolding Seconds_def by (intro assms add_nonneg_nonneg divide_nonneg_nonneg) (use that in \<open>auto simp: pos_imp_zdiv_nonneg_iff\<close>)
  have p: "0 \<le> progress_percent fl targets processed"
    by (auto simp: progress_percent_def intro!: assms divide_nonneg_nonneg mult_nonneg_nonneg u)
  show ?thesis
    by (auto simp: reportProgress_def Let_def p intro!: assms divide_nonneg_nonneg mult_nonneg_nonneg u s)
       (auto simp: progress_percent_def)
qed

end
