(* ===== verification/CrudModel.thy ===== *)
theory CrudModel
  imports TableModel ResultFiles FileRegistry XrayOutbound
begin

text \<open>
  The tables in which files are managed (\<open>internal/ui/components/basic/crud\<close>), their four uses
  (\<open>components/tables/iplist\<close>, \<open>resultlist\<close>, \<open>outbounds\<close>, \<open>dnstun\<close>), the dialog that asks before a deletion
  (\<open>components/basic/confirm\<close>) and the check of new names (\<open>shared/validation\<close>). A command (\<open>tea.Cmd\<close>) is run
  later: it changes the world and sends messages. A hook makes a command when its key is pressed, and can change
  the world already then. For the files the world is the contents of every path.
\<close>

subsection \<open>Messages and commands\<close>

datatype (dead 'w) ui_msg =
    RefreshMsg
  | NoticeMsg string string
  | OpenConfirm string "'w \<Rightarrow> 'w \<times> 'w ui_msg list"
  | OpenInput string string "string \<Rightarrow> 'w \<Rightarrow> 'w \<times> ('w \<Rightarrow> 'w \<times> 'w ui_msg list)"
  | OpenOther string

type_synonym 'w cmd = "'w \<Rightarrow> 'w \<times> 'w ui_msg list"

definition no_cmd :: "'w cmd" where
  "no_cmd w = (w, [])"

definition send :: "'w ui_msg \<Rightarrow> 'w cmd" where
  "send m w = (w, [m])"

text \<open>\<open>tea.Sequence\<close>.\<close>

definition in_sequence :: "'w cmd \<Rightarrow> 'w cmd \<Rightarrow> 'w cmd" where
  "in_sequence f g w = (case f w of (w1, ms) \<Rightarrow> case g w1 of (w2, ns) \<Rightarrow> (w2, ms @ ns))"

type_synonym 'w hook = "'w \<Rightarrow> 'w \<times> 'w cmd"

subsection \<open>The table of items\<close>

record ('a, 'w) crud_source =
  src_Title :: string
  src_Name :: string
  src_Load :: "'w \<Rightarrow> string + 'a list"
  src_RenderRow :: "'a \<Rightarrow> row"
  src_Identity :: "'a \<Rightarrow> string"

record ('a, 'w) crud_hooks =
  OnSelect :: "('a \<Rightarrow> 'w hook) option"
  OnDelete :: "('a \<Rightarrow> 'w hook) option"
  OnRename :: "('a \<Rightarrow> string \<Rightarrow> 'w hook) option"
  OnAdd :: "('w hook) option"

record ('a, 'b) crud_model =
  cr_table :: "'b Table"
  cr_items :: "'a list"
  cr_map :: "string \<rightharpoonup> 'a"

datatype crud_verb = VerbSelect | VerbAdd | VerbDelete | VerbRename

text \<open>\<open>bindActions\<close>: the verbs that have a hook, in the order of the code, each with its binding. No table of the program
  has actions of its own.\<close>

definition bindActions :: "CrudKeys \<Rightarrow> ('a, 'w) crud_hooks \<Rightarrow> (crud_verb \<times> Binding) list" where
  "bindActions k h =
     (if OnSelect h \<noteq> None then [(VerbSelect, crud_Select k)] else [])
     @ (if OnAdd h \<noteq> None then [(VerbAdd, crud_Add k)] else [])
     @ (if OnDelete h \<noteq> None then [(VerbDelete, crud_Delete k)] else [])
     @ (if OnRename h \<noteq> None then [(VerbRename, crud_Rename k)] else [])"

definition requestDeletion :: "('a, 'w) crud_source \<Rightarrow> ('a \<Rightarrow> 'w hook) \<Rightarrow> 'a \<Rightarrow> 'w hook" where
  "requestDeletion src del item w =
     (case del item w of
        (w1, c) \<Rightarrow> (w1, send (OpenConfirm (''Delete '' @ src_Title src @ '' '' @ src_Identity src item)
                          (in_sequence c (send RefreshMsg)))))"

definition requestRename :: "('a, 'w) crud_source \<Rightarrow> ('a \<Rightarrow> string \<Rightarrow> 'w hook) \<Rightarrow> 'a \<Rightarrow> 'w hook" where
  "requestRename src rename item w =
     (w, send (OpenInput (''Enter new name for '' @ src_Name src) (src_Identity src item)
           (\<lambda>new w. case rename item new w of (w1, c) \<Rightarrow> (w1, in_sequence c (send RefreshMsg)))))"

definition run_verb :: "('a, 'w) crud_source \<Rightarrow> ('a, 'w) crud_hooks \<Rightarrow> crud_verb \<Rightarrow> 'a \<Rightarrow> 'w hook" where
  "run_verb src h v item w =
     (case v of
        VerbSelect \<Rightarrow> (case OnSelect h of None \<Rightarrow> (w, no_cmd) | Some f \<Rightarrow> f item w)
      | VerbAdd \<Rightarrow> (case OnAdd h of None \<Rightarrow> (w, no_cmd) | Some f \<Rightarrow> f w)
      | VerbDelete \<Rightarrow> (case OnDelete h of None \<Rightarrow> (w, no_cmd) | Some f \<Rightarrow> requestDeletion src f item w)
      | VerbRename \<Rightarrow> (case OnRename h of None \<Rightarrow> (w, no_cmd) | Some f \<Rightarrow> requestRename src f item w))"

definition getSelected :: "'b table_lib \<Rightarrow> ('a, 'b) crud_model \<Rightarrow> string + 'a" where
  "getSelected ws m =
     (case SelectedRow ws (cr_table m) of
        None \<Rightarrow> Inl ''no row selected''
      | Some row \<Rightarrow> (case cr_map m (hd row) of None \<Rightarrow> Inl ''not found'' | Some item \<Rightarrow> Inr item))"

text \<open>Adding needs no item, so its hook gets none (here: any).\<close>

definition run_action ::
    "('a, 'w) crud_source \<Rightarrow> ('a, 'w) crud_hooks \<Rightarrow> 'b table_lib \<Rightarrow> ('a, 'b) crud_model \<Rightarrow> crud_verb \<Rightarrow> 'w hook" where
  "run_action src h ws m v w =
     (if v = VerbAdd then (case OnAdd h of None \<Rightarrow> (w, no_cmd) | Some f \<Rightarrow> f w)
      else case getSelected ws m of
             Inl err \<Rightarrow> (w, send (NoticeMsg ''Selection'' err))
           | Inr item \<Rightarrow> run_verb src h v item w)"

definition handleAction ::
    "CrudKeys \<Rightarrow> ('a, 'w) crud_source \<Rightarrow> ('a, 'w) crud_hooks \<Rightarrow> 'b table_lib \<Rightarrow> ('a, 'b) crud_model \<Rightarrow> string \<Rightarrow> 'w
     \<Rightarrow> ('w \<times> 'w cmd) option" where
  "handleAction k src h ws m key w =
     map_option (\<lambda>(v, b). run_action src h ws m v w) (find (\<lambda>(v, b). Matches b key) (bindActions k h))"

definition verb_name :: "crud_verb \<Rightarrow> string" where
  "verb_name v =
     (case v of VerbSelect \<Rightarrow> ''select'' | VerbAdd \<Rightarrow> ''add'' | VerbDelete \<Rightarrow> ''delete'' | VerbRename \<Rightarrow> ''rename'')"

definition dispatchAction ::
    "CrudKeys \<Rightarrow> ('a, 'w) crud_source \<Rightarrow> ('a, 'w) crud_hooks \<Rightarrow> 'b table_lib \<Rightarrow> ('a, 'b) crud_model \<Rightarrow> string \<Rightarrow> 'w hook" where
  "dispatchAction k src h ws m name w =
     (case find (\<lambda>(v, b). verb_name v = name) (bindActions k h) of
        None \<Rightarrow> (w, no_cmd) | Some (v, b) \<Rightarrow> run_action src h ws m v w)"

text \<open>Later items with the same identity replace earlier ones in the index.\<close>

definition replaceItems ::
    "'f::linorder cell_lib \<Rightarrow> 'b table_lib \<Rightarrow> table_env \<Rightarrow> ('a, 'w) crud_source \<Rightarrow> 'a list \<Rightarrow> ('a, 'b) crud_model
     \<Rightarrow> ('a, 'b) crud_model" where
  "replaceItems lib ws env src items m =
     m\<lparr>cr_items := items, cr_map := fold (\<lambda>x f. f(src_Identity src x \<mapsto> x)) items Map.empty,
       cr_table := SetRows lib ws env (map (src_RenderRow src) items) (cr_table m)\<rparr>"

datatype 'a crud_msg = CrudRefresh | CrudLoaded "'a list" | CrudError string | TriggerAction string | TableMsg table_msg

datatype (dead 'w) crud_cmd = LoadItems | RunCmd "'w cmd"

definition refreshCmd :: "('a, 'w) crud_source \<Rightarrow> 'w \<Rightarrow> 'a crud_msg" where
  "refreshCmd src w = (case src_Load src w of Inl e \<Rightarrow> CrudError e | Inr items \<Rightarrow> CrudLoaded items)"

definition crud_Update ::
    "'f::linorder cell_lib \<Rightarrow> 'b table_lib \<Rightarrow> table_env \<Rightarrow> ('a, 'w) crud_source \<Rightarrow> ('a, 'w) crud_hooks \<Rightarrow> ('a, 'b) crud_model
     \<Rightarrow> 'a crud_msg \<Rightarrow> 'w \<Rightarrow> ('a, 'b) crud_model \<times> 'w \<times> 'w crud_cmd list" where
  "crud_Update lib ws env src h m msg w =
     (let k = k_Crud (te_keys env); loading = (\<lambda>b m. m\<lparr>cr_table := SetLoading ws env b (cr_table m)\<rparr>);
          to_table = (\<lambda>msg. (m\<lparr>cr_table := table_Update lib ws env (cr_table m) msg\<rparr>, w, [])) in
      case msg of
        CrudRefresh \<Rightarrow> (loading True m, w, [LoadItems])
      | CrudLoaded items \<Rightarrow> (replaceItems lib ws env src items (loading False m), w, [])
      | CrudError e \<Rightarrow> (loading False m, w, [RunCmd (send (NoticeMsg ''Error'' e))])
      | TriggerAction name \<Rightarrow> (case dispatchAction k src h ws m name w of (w1, c) \<Rightarrow> (m, w1, [RunCmd c]))
      | TableMsg (KeyPress key) \<Rightarrow>
          (case (if t_filtering (cr_table m) then None else handleAction k src h ws m key w) of
             Some (w1, c) \<Rightarrow> (m, w1, [RunCmd c])
           | None \<Rightarrow> to_table (KeyPress key))
      | TableMsg tm \<Rightarrow> to_table tm)"

subsection \<open>The dialogs\<close>

text \<open>A key is its code and its text. The dialog starts at No, and closing it in any other way runs nothing.\<close>

definition confirm_Update :: "string \<times> string \<Rightarrow> bool \<Rightarrow> bool \<times> bool" where
  "confirm_Update key yes =
     (case key of (code, text) \<Rightarrow>
        if code = ''left'' \<or> text = ''l'' then (False, False)
        else if code = ''right'' \<or> text = ''j'' then (True, False)
        else if code = ''enter'' then (yes, True)
        else (yes, False))"

fun confirm_run :: "'w cmd \<Rightarrow> (string \<times> string) list \<Rightarrow> bool \<Rightarrow> 'w cmd" where
  "confirm_run c [] yes w = (w, [])"
| "confirm_run c (k # ks) yes w =
     (case confirm_Update k yes of
        (yes', shut) \<Rightarrow> if shut then (if yes' then c w else (w, [])) else confirm_run c ks yes' w)"

definition reservedNames :: "string list" where
  "reservedNames =
     [''CON'', ''PRN'', ''AUX'', ''NUL'', ''COM1'', ''COM2'', ''COM3'', ''COM4'', ''COM5'', ''COM6'', ''COM7'', ''COM8'', ''COM9'',
      ''LPT1'', ''LPT2'', ''LPT3'', ''LPT4'', ''LPT5'', ''LPT6'', ''LPT7'', ''LPT8'', ''LPT9'']"

definition ValidateFilename :: "string \<Rightarrow> string option" where
  "ValidateFilename name =
     (let n = trim_space name in
      if n = [] then Some ''filename cannot be empty''
      else if 255 < length n then Some ''filename too long''
      else if list_ex (\<lambda>c. c \<in> set [CHR ''<'', CHR ''>'', CHR '':'', CHR 0x22, CHR ''/'', CHR 0x5C, CHR ''|'', CHR ''?'',
             CHR ''*'', CHR 0x00]) n then Some ''filename contains invalid characters''
      else if list_ex (\<lambda>r. to_upper n = r \<or> has_prefix (to_upper n) (r @ ''.'')) reservedNames
        then Some ''reserved filename''
      else if has_suffix n ''.'' then Some ''filename cannot end with a dot''
      else None)"

text \<open>The text field of a rename: the submitted value is trimmed and checked, and the command runs if it is valid.\<close>

definition submit_name :: "(string \<Rightarrow> 'w hook) \<Rightarrow> string \<Rightarrow> 'w hook" where
  "submit_name onSubmit value w =
     (let v = trim_space value in if ValidateFilename v \<noteq> None then (w, no_cmd) else onSubmit v w)"

subsection \<open>The four tables of files\<close>

text \<open>\<open>os.Remove\<close> and \<open>os.Rename\<close>; \<open>bad\<close> says for which paths the call fails. A missing file is not reported by the hooks
  that delete. \<open>Rename\<close> replaces a file that is there.\<close>

type_synonym 'd disk = "string \<rightharpoonup> 'd"

definition os_Remove :: "(string \<Rightarrow> bool) \<Rightarrow> string \<Rightarrow> 'd disk \<Rightarrow> bool \<times> 'd disk" where
  "os_Remove bad p d = (if d p = None then (True, d) else if bad p then (False, d) else (True, d(p := None)))"

definition os_Rename :: "(string \<Rightarrow> bool) \<Rightarrow> string \<Rightarrow> string \<Rightarrow> 'd disk \<Rightarrow> bool \<times> 'd disk" where
  "os_Rename bad p q d = (if d p = None \<or> bad q then (False, d) else (True, (d(p := None))(q := d p)))"

definition notice_unless :: "bool \<Rightarrow> string \<Rightarrow> 'w ui_msg list" where
  "notice_unless ok title = (if ok then [] else [NoticeMsg title []])"

text \<open>The address lists and the outbounds delete in the command, the tunnels and the results in the hook itself.\<close>

definition remove_later :: "(string \<Rightarrow> bool) \<Rightarrow> string \<Rightarrow> 'd disk hook" where
  "remove_later bad path d = (d, \<lambda>d. case os_Remove bad path d of (ok, d') \<Rightarrow> (d', notice_unless ok ''Delete Failed''))"

definition remove_now :: "(string \<Rightarrow> bool) \<Rightarrow> string \<Rightarrow> 'd disk hook" where
  "remove_now bad path d =
     (case os_Remove bad path d of (ok, d') \<Rightarrow> (d', \<lambda>d. (d, notice_unless ok ''Delete Failed'')))"

definition ip_OnDelete :: "(string \<Rightarrow> bool) \<Rightarrow> IPFileInfo \<Rightarrow> 'd disk hook" where
  "ip_OnDelete bad item = remove_later bad (IfPath item)"

definition outbound_OnDelete :: "(string \<Rightarrow> bool) \<Rightarrow> OutboundFile \<Rightarrow> 'd disk hook" where
  "outbound_OnDelete bad item = remove_later bad (FilePath item)"

definition result_OnDelete :: "(string \<Rightarrow> bool) \<Rightarrow> ResultFile \<Rightarrow> 'd disk hook" where
  "result_OnDelete bad item = remove_now bad (RfPath item)"

definition tunnel_OnDelete :: "(string \<Rightarrow> bool) \<Rightarrow> DNSTunConfigFile \<Rightarrow> 'd disk hook" where
  "tunnel_OnDelete bad item = remove_now bad (DtPath item)"

definition ip_OnRename :: "string option \<Rightarrow> (string \<Rightarrow> bool) \<Rightarrow> IPFileInfo \<Rightarrow> string \<Rightarrow> 'd disk hook" where
  "ip_OnRename base bad item new d =
     (d, \<lambda>d. case GetIPFilePath base new of
               Inl e \<Rightarrow> (d, [NoticeMsg ''Rename Failed'' []])
             | Inr dst \<Rightarrow>
                 (case os_Rename bad (IfPath item) dst d of (ok, d') \<Rightarrow> (d', notice_unless ok ''Rename Failed'')))"

text \<open>\<open>filepath.Dir\<close>.\<close>

definition path_Dir :: "string \<Rightarrow> string" where
  "path_Dir p = path_Clean (rev (dropWhile (\<lambda>c. c \<noteq> CHR ''/'') (rev p)))"

definition result_OnRename :: "(string \<Rightarrow> bool) \<Rightarrow> ResultFile \<Rightarrow> string \<Rightarrow> 'd disk hook" where
  "result_OnRename bad item new d =
     (case os_Rename bad (RfPath item) (path_Join [path_Dir (RfPath item), NormalizeResultFileName new]) d of
        (ok, d') \<Rightarrow> (d', \<lambda>d. (d, notice_unless ok ''Rename Failed'')))"

text \<open>The sources; \<open>date\<close> and \<open>bytes\<close> are the texts of a time and a size. The listings behind \<open>Load\<close> are those of the
  other theories, sorted by the newest once more.\<close>

definition ip_source ::
    "(int \<Rightarrow> string) \<Rightarrow> (int \<Rightarrow> string) \<Rightarrow> string \<Rightarrow> ('w \<Rightarrow> string + IPFileInfo list) \<Rightarrow> (IPFileInfo, 'w) crud_source" where
  "ip_source date bytes title load =
     \<lparr>src_Title = title, src_Name = ''ip file'', src_Load = load,
      src_RenderRow = (\<lambda>f. [IfName f, date (IfTime f), bytes (IfSize f)]), src_Identity = IfName\<rparr>"

definition result_source ::
    "(int \<Rightarrow> string) \<Rightarrow> (int \<Rightarrow> string) \<Rightarrow> string \<Rightarrow> ('w \<Rightarrow> string + ResultFile list) \<Rightarrow> (ResultFile, 'w) crud_source" where
  "result_source date bytes title load =
     \<lparr>src_Title = title, src_Name = ''result file'', src_Load = load,
      src_RenderRow = (\<lambda>f. [RfName f, date (RfTime f), SchName (RfSchema f), bytes (RfSize f)]), src_Identity = RfName\<rparr>"

definition outbound_source ::
    "(OutboundFile \<Rightarrow> string) \<Rightarrow> ('w \<Rightarrow> string + OutboundFile list) \<Rightarrow> (OutboundFile, 'w) crud_source" where
  "outbound_source date load =
     \<lparr>src_Title = ''Xray Outbounds'', src_Name = ''outbound'', src_Load = load,
      src_RenderRow = (\<lambda>f. [FileName f, FileProtocol f, FileNetwork f, FileSecurity f, date f]), src_Identity = FileName\<rparr>"

definition tunnel_source ::
    "(int \<Rightarrow> string) \<Rightarrow> ('w \<Rightarrow> string + DNSTunConfigFile list) \<Rightarrow> (DNSTunConfigFile, 'w) crud_source" where
  "tunnel_source date load =
     \<lparr>src_Title = ''DNS Tunnels'', src_Name = ''dns tunnels config'', src_Load = load,
      src_RenderRow = (\<lambda>f. [DtName f, protocol_text (DtProtocol f), DtProxy f, date (DtTime f)]), src_Identity = DtName\<rparr>"

subsection \<open>Deleting\<close>

text \<open>The delete key on an item, then keys in the dialog: what is left on the disk.\<close>

definition delete_scenario ::
    "('a, 'd disk) crud_source \<Rightarrow> ('a \<Rightarrow> 'd disk hook) \<Rightarrow> 'a \<Rightarrow> (string \<times> string) list \<Rightarrow> 'd disk \<Rightarrow> 'd disk" where
  "delete_scenario src del item ks d =
     (case requestDeletion src del item d of
        (d1, c) \<Rightarrow>
          (case c d1 of
             (d2, [OpenConfirm q confirmed]) \<Rightarrow> fst (confirm_run confirmed ks False d2)
           | (d2, ms) \<Rightarrow> d2))"

text \<open>The keys choose Yes and accept it.\<close>

fun accepts :: "bool \<Rightarrow> (string \<times> string) list \<Rightarrow> bool" where
  "accepts yes [] = False"
| "accepts yes (k # ks) = (case confirm_Update k yes of (yes', shut) \<Rightarrow> if shut then yes' else accepts yes' ks)"

lemma confirm_run_eq: "confirm_run c ks yes w = (if accepts yes ks then c w else (w, []))"
  by (induction c ks yes w rule: confirm_run.induct) (auto split: prod.splits)

lemma delete_scenario_eq:
  "delete_scenario src del item ks d =
     (case del item d of (d1, c) \<Rightarrow> if accepts False ks then fst (c d1) else d1)"
  by (simp add: delete_scenario_def requestDeletion_def send_def confirm_run_eq in_sequence_def split: prod.split)

text \<open>C36. Deleting an address list or an outbound asks first: the file goes exactly when Yes is chosen and accepted. Deleting a
  result file or a tunnel configuration does not: the file is gone when the dialog opens, whatever is answered.\<close>
theorem delete_key_effect:
  "delete_scenario isrc (ip_OnDelete bad) i ks d = (if accepts False ks then snd (os_Remove bad (IfPath i) d) else d)
   \<and> delete_scenario osrc (outbound_OnDelete bad) out ks d = (if accepts False ks then snd (os_Remove bad (FilePath out) d) else d)
   \<and> delete_scenario rsrc (result_OnDelete bad) r ks d = snd (os_Remove bad (RfPath r) d)
   \<and> delete_scenario tsrc (tunnel_OnDelete bad) t ks d = snd (os_Remove bad (DtPath t) d)"
  by (simp add: delete_scenario_eq ip_OnDelete_def outbound_OnDelete_def result_OnDelete_def tunnel_OnDelete_def
      remove_later_def remove_now_def split: prod.split)

text \<open>The dialog reads l as No although the key map, and the hint of the dialog, make it the key to the right; h and the
  y of the accept binding do nothing.\<close>

lemma confirm_keys:
  "confirm_Update (''l'', ''l'') True = (False, False)" "confirm_Update (''h'', ''h'') True = (True, False)"
  "confirm_Update (''y'', ''y'') True = (True, False)"
  "Matches (nav_Right (k_Nav Default)) ''l''" "Matches (nav_Left (k_Nav Default)) ''h''"
  "Matches (confirm_Accept (k_Confirm Default)) ''y''"
  by code_simp+

subsection \<open>Renaming\<close>

text \<open>A name that the field accepts is one that the address lists accept, after the field trimmed it.\<close>

lemma valid_filename_is_list_name:
  assumes "ValidateFilename n = None" and "trim_space n = n" shows "validateListName n"
proof -
  have n: "n \<noteq> []" "\<not> has_suffix n ''.''" "CHR ''/'' \<notin> set n" "CHR 0x5C \<notin> set n"
    using assms by (auto simp: ValidateFilename_def Let_def list_ex_iff split: if_splits)
  then have "n \<noteq> ''.''" "n \<noteq> ''..''" by (auto simp: has_suffix_def)
  with n assms(2) show ?thesis by (simp add: validateListName_iff)
qed

text \<open>Renaming to a name that is taken replaces the other file without a question.\<close>

lemma rename_replaces_file:
  assumes "GetIPFilePath base new = Inr dst" and "d (IfPath f) = Some x" and "d dst = Some y" and "IfPath f \<noteq> dst"
  shows "fst (snd (ip_OnRename base (\<lambda>p. False) f new d) d) = d(IfPath f := None, dst := Some x)"
  using assms by (simp add: ip_OnRename_def os_Rename_def)

subsection \<open>The item of a row\<close>

lemma index_of_items:
  "fold (\<lambda>x f. f(g x \<mapsto> x)) xs f k = (case find (\<lambda>x. g x = k) (rev xs) of None \<Rightarrow> f k | Some x \<Rightarrow> Some x)"
proof (induction xs rule: rev_induct)
  case (snoc x xs)
  then show ?case by simp
qed simp

lemma index_distinct:
  "distinct (map g xs) \<Longrightarrow> x \<in> set xs \<Longrightarrow> fold (\<lambda>x f. f(g x \<mapsto> x)) xs f (g x) = Some x"
proof (induction xs rule: rev_induct)
  case (snoc y xs)
  then show ?case by (cases "x = y") (auto simp: image_iff)
qed simp

definition crud_ok :: "('a, 'w) crud_source \<Rightarrow> ('a, 'b) crud_model \<Rightarrow> bool" where
  "crud_ok src m \<longleftrightarrow>
     t_originalRows (cr_table m) = map (src_RenderRow src) (cr_items m)
     \<and> cr_map m = fold (\<lambda>x f. f(src_Identity src x \<mapsto> x)) (cr_items m) Map.empty"

lemma rows_kept [simp]:
  "t_originalRows (updateTableSizeLocked ws env m) = t_originalRows m"
  "t_originalRows (refreshDisplayLocked lib ws env reset m) = t_originalRows m"
  "t_originalRows (SetLoading ws env b m) = t_originalRows m"
  "t_originalRows (SetRows lib ws env rows m) = rows"
  by (simp_all add: updateTableSizeLocked_def refreshDisplayLocked_def SetLoading_def SetRows_def Let_def)

lemma handleKey_rows: "t_originalRows (fst (table_handleKey lib ws env m key)) = t_originalRows m"
  by (simp add: table_handleKey_def handleFilterKey_def clearFilterLocked_def cycleSortColumnLocked_def
      clearSortLocked_def toggleSortDirectionLocked_def Let_def)

lemma table_Update_rows [simp]: "t_originalRows (table_Update lib ws env m msg) = t_originalRows m"
  using handleKey_rows [of lib ws env m] by (cases msg) (simp_all add: table_Update_def to_bubble_def Let_def split_beta)

lemma in_sync_SetLoading [simp]: "widget_laws ws \<Longrightarrow> in_sync lib ws (SetLoading ws env b m) \<longleftrightarrow> in_sync lib ws m"
proof -
  assume ws: "widget_laws ws"
  have "displayRowsLocked lib (m\<lparr>t_loading := b\<rparr>) = displayRowsLocked lib m" by (rule displayRowsLocked_cong) simp_all
  with ws show ?thesis by (simp add: SetLoading_def) (simp add: in_sync_def)
qed

text \<open>Every message keeps the index of the items that of the loaded ones, and the rows on the screen in step with them.\<close>

lemma crud_Update_ok:
  assumes "widget_laws ws" and "crud_ok src m" and "in_sync lib ws (cr_table m)"
    and "\<not> (t_filtering (cr_table m) \<and> (\<exists>t. msg = TableMsg (OtherMsg t)))"
  shows "crud_ok src (fst (crud_Update lib ws env src h m msg w))
    \<and> in_sync lib ws (cr_table (fst (crud_Update lib ws env src h m msg w)))"
proof -
  have sync: "in_sync lib ws (table_Update lib ws env (cr_table m) tm)"
    if "\<not> (t_filtering (cr_table m) \<and> (\<exists>t. tm = OtherMsg t))" for tm
    using update_in_sync [OF assms(1,3) that] .
  show ?thesis
  proof (cases msg)
    case (TableMsg tm)
    with assms(2-4) sync [of tm] show ?thesis
      by (cases tm) (auto simp: crud_Update_def crud_ok_def split: option.split prod.split)
  qed (use assms in \<open>simp_all add: crud_Update_def crud_ok_def replaceItems_def SetRows_def split: prod.split\<close>)
qed

lemma shown_rows_loaded:
  assumes "in_sync lib ws m" and "SelectedRow ws m = Some r"
  shows "r \<in> set (t_originalRows m)"
proof -
  have "r \<in> set (tl_Rows ws (t_bubble m))"
    using assms(2) by (auto simp: SelectedRow_def Let_def split: if_splits)
  with assms(1) show ?thesis
    by (auto simp: in_sync_def displayRowsLocked_eq matching_rows_def split: if_splits)
qed

text \<open>When the names of the loaded items differ, the action keys work on the item of the highlighted row, however the table
  was sorted, filtered and scrolled.\<close>
theorem selected_item_exact:
  assumes "crud_ok src m" and "in_sync lib ws (cr_table m)" and "distinct (map (src_Identity src) (cr_items m))"
    and "\<And>x. hd (src_RenderRow src x) = src_Identity src x" and "SelectedRow ws (cr_table m) = Some r"
  shows "\<exists>x \<in> set (cr_items m). r = src_RenderRow src x \<and> getSelected ws m = Inr x"
proof -
  obtain x where x: "x \<in> set (cr_items m)" "r = src_RenderRow src x"
    using shown_rows_loaded [OF assms(2,5)] assms(1) by (auto simp: crud_ok_def)
  have "cr_map m (src_Identity src x) = Some x"
    using assms(1) index_distinct [OF assms(3) x(1)] by (simp add: crud_ok_def)
  with x assms(4,5) show ?thesis by (auto simp: getSelected_def)
qed

definition two_lists :: "(IPFileInfo, row list \<times> int) crud_model" where
  "two_lists = replaceItems plain_cells plain_widgets example_tenv (ip_source (\<lambda>t. []) (\<lambda>n. []) [] (\<lambda>w::unit. Inl []))
     [\<lparr>IfName = ''eu'', IfPath = ''/ips/eu.csv'', IfSize = 1, IfTime = 2\<rparr>,
      \<lparr>IfName = ''us'', IfPath = ''/ips/us.csv'', IfSize = 1, IfTime = 1\<rparr>]
     \<lparr>cr_table = new_table ([], 0) [], cr_items = [], cr_map = Map.empty\<rparr>"

lemma selected_item_exact_witness:
  "getSelected plain_widgets two_lists = Inr \<lparr>IfName = ''eu'', IfPath = ''/ips/eu.csv'', IfSize = 1, IfTime = 2\<rparr>"
proof -
  let ?src = "ip_source (\<lambda>t. []) (\<lambda>n. []) [] (\<lambda>w::unit. Inl [])"
  have items: "map IfName (cr_items two_lists) = [''eu'', ''us'']" by code_simp
  have ok: "crud_ok ?src two_lists" "in_sync plain_cells plain_widgets (cr_table two_lists)"
    by (simp_all add: two_lists_def replaceItems_def crud_ok_def SetRows_def plain_widget_laws)
  have row: "SelectedRow plain_widgets (cr_table two_lists) = Some [''eu'', [], []]" by code_simp
  have "\<exists>x \<in> set (cr_items two_lists). [''eu'', [], []] = src_RenderRow ?src x \<and> getSelected plain_widgets two_lists = Inr x"
    by (rule selected_item_exact [OF ok _ _ row]) (simp_all add: ip_source_def items)
  then show ?thesis by (auto simp: ip_source_def two_lists_def replaceItems_def)
qed

text \<open>Tunnels of two protocols can share a name: then both rows stand for the second one, and the delete key on the
  first removes the file of the second.\<close>

definition twin :: "DNSTunProtocol \<Rightarrow> string \<Rightarrow> DNSTunConfigFile" where
  "twin p path = \<lparr>DtName = ''home'', DtPath = path, DtTime = 0, DtProtocol = p, DtProxy = [],
     DtConfig = TheFeedOf DefaultTheFeedConfig\<rparr>"

definition twins :: "(DNSTunConfigFile, row list \<times> int) crud_model" where
  "twins = replaceItems plain_cells plain_widgets example_tenv (tunnel_source (\<lambda>t. []) (\<lambda>w::unit. Inl []))
     [twin ProtoDNSTT ''/d/home.toml'', twin ProtoVayDNS ''/v/home.toml'']
     \<lparr>cr_table = new_table ([], 0) [], cr_items = [], cr_map = Map.empty\<rparr>"

lemma twin_rows_act_on_last:
  "SelectedRow plain_widgets (cr_table twins) = Some [''home'', ''dnstt'', [], []]
   \<and> getSelected plain_widgets twins = Inr (twin ProtoVayDNS ''/v/home.toml'')"
  by code_simp

end
