(* ===== verification/ScreenStack.thy ===== *)
theory ScreenStack
  imports Complex_Main KeyDefaults
begin

text \<open>
  The stack of screens (\<open>internal/ui/main/body\<close>), the stack of dialogs and the message loop around them
  (\<open>internal/ui/main/app\<close>). A component is opaque: its mode, identity and reaction to a message are parameters; the
  text of a screen is not modelled. Commands are the values \<open>body_cmd\<close> and \<open>app_cmd\<close>. Times are nanoseconds; where the
  code reads the clock twice in one message both readings are arguments.
\<close>

subsection \<open>Components\<close>

datatype KeyMode = KeyModeNormal | KeyModeInput | KeyModeManage

record ('c, 'm) comp_lib =
  cp_Mode :: "'c \<Rightarrow> KeyMode"
  cp_ID :: "'c \<Rightarrow> nat"
  cp_Name :: "'c \<Rightarrow> string"
  cp_Update :: "'m \<Rightarrow> 'c \<Rightarrow> 'c"

subsection \<open>Easing\<close>

definition Clamp01 :: "rat \<Rightarrow> rat" where
  "Clamp01 t = (if t < 0 then 0 else if 1 < t then 1 else t)"

definition EaseOutCubic :: "rat \<Rightarrow> rat" where
  "EaseOutCubic t = (let u = 1 - Clamp01 t in 1 - u * u * u)"

definition anim_Progress :: "int \<Rightarrow> int \<Rightarrow> int \<Rightarrow> rat" where
  "anim_Progress clock start d = (if d \<le> 0 then 1 else Clamp01 (of_int (clock - start) / of_int d))"

lemma ease_done: "0 < d \<Longrightarrow> 1 \<le> EaseOutCubic (anim_Progress clock start d) \<longleftrightarrow> d \<le> clock - start"
proof -
  assume d: "0 < d"
  define u where "u = 1 - Clamp01 (of_int (clock - start) / of_int d :: rat)"
  have u: "0 \<le> u" by (simp add: u_def Clamp01_def)
  have "1 \<le> EaseOutCubic (anim_Progress clock start d) \<longleftrightarrow> u * u * u \<le> 0"
    using d by (simp add: EaseOutCubic_def anim_Progress_def Let_def u_def Clamp01_def)
  also have "\<dots> \<longleftrightarrow> u = 0"
    using u by (auto simp: mult_le_0_iff)
  also have "\<dots> \<longleftrightarrow> 1 \<le> of_int (clock - start) / (of_int d :: rat)"
    by (auto simp: u_def Clamp01_def)
  also have "\<dots> \<longleftrightarrow> d \<le> clock - start"
    using d by (simp add: le_divide_eq flip: of_int_diff)
  finally show ?thesis .
qed

subsection \<open>Screens\<close>

definition swapDuration :: int where
  "swapDuration = 150 * 1000000"

record 'c screen =
  scr_comp :: 'c
  scr_closingAt :: "int option"

datatype swapKind = pushOpen | pushClose

record 'c swap =
  sw_leaving :: 'c
  sw_entering :: 'c
  sw_kind :: swapKind
  sw_at :: int

record 'c body =
  bd_screens :: "'c screen list"
  bd_swap :: "'c swap option"

definition scr_closing :: "'c screen \<Rightarrow> bool" where
  "scr_closing s \<longleftrightarrow> scr_closingAt s \<noteq> None"

definition scr_settled :: "int \<Rightarrow> 'c screen \<Rightarrow> bool" where
  "scr_settled now s = (case scr_closingAt s of None \<Rightarrow> True | Some t \<Rightarrow> swapDuration \<le> now - t)"

text \<open>\<open>swap.settled\<close> reads the clock itself.\<close>

definition swap_settled :: "int \<Rightarrow> 'c swap \<Rightarrow> bool" where
  "swap_settled clock s \<longleftrightarrow> 1 \<le> EaseOutCubic (anim_Progress clock (sw_at s) swapDuration)"

datatype 'c body_cmd =
    RunOnClose 'c | RunInit 'c | TickSwaps | StackChanged string | ForceResize | ExitConfirm | OfComponent

datatype ('c, 'm) body_msg =
    BodyTheme 'm | BodyFrame | BodyKey string 'm | OpenComponent "'c option" 'm | CloseComponent nat 'm
  | ResetStacks | BodyOther 'm

definition topName :: "('c, 'm) comp_lib \<Rightarrow> 'c body \<Rightarrow> string" where
  "topName lib m = (if bd_screens m = [] then [] else cp_Name lib (scr_comp (last (bd_screens m))))"

definition stackChangedCmd :: "('c, 'm) comp_lib \<Rightarrow> 'c body \<Rightarrow> 'c body_cmd list" where
  "stackChangedCmd lib m = [StackChanged (topName lib m)]"

definition body_expire :: "int \<Rightarrow> 'c body \<Rightarrow> 'c body \<times> 'c body_cmd list \<times> bool" where
  "body_expire now m =
     (let gone = (\<lambda>s. scr_closing s \<and> scr_settled now s); out = filter gone (bd_screens m)
      in (m\<lparr>bd_screens := filter (\<lambda>s. \<not> gone s) (bd_screens m)\<rparr>, map (\<lambda>s. RunOnClose (scr_comp s)) out, out \<noteq> []))"

definition settleSwap :: "('c, 'm) comp_lib \<Rightarrow> int \<Rightarrow> 'c body \<Rightarrow> 'c body \<times> 'c body_cmd list" where
  "settleSwap lib now m =
     (if bd_swap m = None then (m, [])
      else case body_expire now m of
             (m1, cmds, dropped) \<Rightarrow>
               let m2 = m1\<lparr>bd_swap := None\<rparr> in (m2, cmds @ (if dropped then stackChangedCmd lib m2 else [])))"

definition pushComponent :: "('c, 'm) comp_lib \<Rightarrow> bool \<Rightarrow> int \<Rightarrow> 'c \<Rightarrow> 'c body \<Rightarrow> 'c body \<times> 'c body_cmd list" where
  "pushComponent lib animated now c m =
     (case settleSwap lib now m of
        (m1, cmds) \<Rightarrow>
          let m2 = m1\<lparr>bd_screens := bd_screens m1 @ [\<lparr>scr_comp = c, scr_closingAt = None\<rparr>]\<rparr>;
              cmds = cmds @ [RunInit c, ForceResize] @ stackChangedCmd lib m2
          in if bd_screens m1 \<noteq> [] \<and> animated
             then (m2\<lparr>bd_swap := Some \<lparr>sw_leaving = scr_comp (last (bd_screens m1)), sw_entering = c, sw_kind = pushOpen, sw_at = now\<rparr>\<rparr>,
                   cmds @ [TickSwaps])
             else (m2, cmds))"

text \<open>\<open>settleSwap\<close> may remove closing screens below the top, and the code goes on with the length it took before: the
  indices are then out of range, which is \<open>None\<close>, a panic, unless they still exist.\<close>

definition popComponent :: "('c, 'm) comp_lib \<Rightarrow> bool \<Rightarrow> int \<Rightarrow> 'c body \<Rightarrow> ('c body \<times> 'c body_cmd list) option" where
  "popComponent lib animated now m =
     (let n = length (bd_screens m) in
      if n \<le> 1 then Some (m, [])
      else let top = last (bd_screens m) in
      if scr_closing top then Some (m, [])
      else if \<not> animated
        then let m1 = m\<lparr>bd_screens := butlast (bd_screens m)\<rparr>
             in Some (m1, RunOnClose (scr_comp top) # stackChangedCmd lib m1)
      else case settleSwap lib now m of
             (m1, cmds) \<Rightarrow>
               if length (bd_screens m1) < n then None
               else Some (m1\<lparr>bd_screens := (bd_screens m1)[n - 1 := \<lparr>scr_comp = scr_comp top, scr_closingAt = Some now\<rparr>],
                             bd_swap := Some \<lparr>sw_leaving = scr_comp top, sw_entering = scr_comp (bd_screens m1 ! (n - 2)),
                                              sw_kind = pushClose, sw_at = now\<rparr>\<rparr>,
                          cmds @ [TickSwaps]))"

definition to_top :: "('c, 'm) comp_lib \<Rightarrow> 'm \<Rightarrow> 'c body \<Rightarrow> ('c body \<times> 'c body_cmd list) option" where
  "to_top lib msg m =
     (let n = length (bd_screens m); top = last (bd_screens m)
      in Some (m\<lparr>bd_screens := (bd_screens m)[n - 1 := top\<lparr>scr_comp := cp_Update lib msg (scr_comp top)\<rparr>]\<rparr>, [OfComponent]))"

text \<open>\<open>now\<close> is the clock of \<open>Update\<close>, \<open>clock\<close> the later one that the transition reads.\<close>

definition body_Update ::
    "('c, 'm) comp_lib \<Rightarrow> Keys \<Rightarrow> bool \<Rightarrow> int \<Rightarrow> int \<Rightarrow> ('c, 'm) body_msg \<Rightarrow> 'c body \<Rightarrow> ('c body \<times> 'c body_cmd list) option" where
  "body_Update lib ks animated now clock msg m =
     (let n = length (bd_screens m); top = last (bd_screens m); g = k_Global ks in
      if n = 0 then Some (m, [])
      else case msg of
        BodyTheme tm \<Rightarrow>
          Some (m\<lparr>bd_screens := map (\<lambda>s. s\<lparr>scr_comp := cp_Update lib tm (scr_comp s)\<rparr>) (bd_screens m)\<rparr>, replicate n OfComponent)
      | BodyFrame \<Rightarrow>
          (case body_expire now m of
             (m1, cmds, dropped) \<Rightarrow>
               let over = (case bd_swap m1 of None \<Rightarrow> True | Some sw \<Rightarrow> swap_settled clock sw);
                   m2 = (if over then m1\<lparr>bd_swap := None\<rparr> else m1)
               in Some (m2, cmds @ (if over then [] else [TickSwaps]) @ (if dropped then stackChangedCmd lib m2 else [])))
      | BodyKey key km \<Rightarrow>
          if (case bd_swap m of None \<Rightarrow> False | Some sw \<Rightarrow> \<not> swap_settled clock sw) then Some (m, [])
          else (case cp_Mode lib (scr_comp top) of
                  KeyModeNormal \<Rightarrow>
                    if Matches (global_Back g) key
                    then if 1 < n then popComponent lib animated now m else Some (m, [ExitConfirm])
                    else if Matches (global_Quit g) key then Some (m, [ExitConfirm])
                    else to_top lib km m
                | KeyModeInput \<Rightarrow>
                    if Matches (global_BackFromInput g) key then popComponent lib animated now m else to_top lib km m
                | KeyModeManage \<Rightarrow> to_top lib km m)
      | OpenComponent None om \<Rightarrow> to_top lib om m
      | OpenComponent (Some c) om \<Rightarrow> Some (pushComponent lib animated now c m)
      | CloseComponent cid cm \<Rightarrow>
          (case find (\<lambda>i. cp_ID lib (scr_comp (bd_screens m ! i)) = cid) [0 ..< n] of
             None \<Rightarrow> to_top lib cm m
           | Some i \<Rightarrow>
               if i = 0 \<or> scr_closing (bd_screens m ! i) then Some (m, [])
               else if i = n - 1 \<and> animated then popComponent lib animated now m
               else let m1 = m\<lparr>bd_screens := take i (bd_screens m) @ drop (Suc i) (bd_screens m)\<rparr>
                    in Some (m1, RunOnClose (scr_comp (bd_screens m ! i)) # stackChangedCmd lib m1))
      | ResetStacks \<Rightarrow>
          let m1 = m\<lparr>bd_screens := take 1 (bd_screens m), bd_swap := None\<rparr>
          in Some (m1, map (\<lambda>s. RunOnClose (scr_comp s)) (drop 1 (bd_screens m)) @ stackChangedCmd lib m1)
      | BodyOther om \<Rightarrow> to_top lib om m)"

definition body_Init :: "'c \<Rightarrow> 'c body \<Rightarrow> 'c body" where
  "body_Init menu m = m\<lparr>bd_screens := bd_screens m @ [\<lparr>scr_comp = menu, scr_closingAt = None\<rparr>]\<rparr>"

definition new_body :: "'c body" where
  "new_body = \<lparr>bd_screens = [], bd_swap = None\<rparr>"

definition body_Mode :: "('c, 'm) comp_lib \<Rightarrow> 'c body \<Rightarrow> KeyMode" where
  "body_Mode lib m =
     (case find (\<lambda>s. \<not> scr_closing s) (rev (bd_screens m)) of
        None \<Rightarrow> KeyModeNormal | Some s \<Rightarrow> cp_Mode lib (scr_comp s))"

subsection \<open>The main menu stays\<close>

text \<open>The identity of a component does not change with its messages.\<close>

definition keeps_id :: "('c, 'm) comp_lib \<Rightarrow> bool" where
  "keeps_id lib \<longleftrightarrow> (\<forall>msg c. cp_ID lib (cp_Update lib msg c) = cp_ID lib c)"

definition rooted :: "('c, 'm) comp_lib \<Rightarrow> nat \<Rightarrow> 'c body \<Rightarrow> bool" where
  "rooted lib menu m \<longleftrightarrow>
     (\<exists>s rest. bd_screens m = s # rest \<and> \<not> scr_closing s \<and> cp_ID lib (scr_comp s) = menu)"

lemma rooted_expire: "rooted lib menu m \<Longrightarrow> rooted lib menu (fst (body_expire now m))"
  by (auto simp: rooted_def body_expire_def Let_def)

lemma rooted_settle: "rooted lib menu m \<Longrightarrow> rooted lib menu (fst (settleSwap lib now m))"
  using rooted_expire [of lib menu m now] by (auto simp: settleSwap_def rooted_def Let_def split: prod.splits)

lemma rooted_push: "rooted lib menu m \<Longrightarrow> rooted lib menu (fst (pushComponent lib animated now c m))"
  using rooted_settle [of lib menu m now] by (auto simp: pushComponent_def rooted_def Let_def split: prod.splits)

lemma rooted_pop: "rooted lib menu m \<Longrightarrow> popComponent lib animated now m = Some (m', cmds) \<Longrightarrow> rooted lib menu m'"
proof -
  assume m: "rooted lib menu m" and pop: "popComponent lib animated now m = Some (m', cmds)"
  obtain s rest where s: "bd_screens m = s # rest" "\<not> scr_closing s" "cp_ID lib (scr_comp s) = menu"
    using m by (auto simp: rooted_def)
  show ?thesis
  proof (cases "rest = [] \<or> scr_closing (last (bd_screens m))")
    case True
    then have "popComponent lib animated now m = Some (m, [])"
      by (cases "rest = []") (auto simp: popComponent_def Let_def s(1))
    with pop m show ?thesis by simp
  next
    case False
    show ?thesis
    proof (cases animated)
      case True
      obtain m1 c1 where m1: "settleSwap lib now m = (m1, c1)" by fastforce
      then have "rooted lib menu m1" using rooted_settle [OF m, of now] by simp
      moreover have "bd_screens m' = (bd_screens m1)[length rest := \<lparr>scr_comp = scr_comp (last (bd_screens m)), scr_closingAt = Some now\<rparr>]"
        using pop True False s by (auto simp: popComponent_def Let_def m1 split: if_splits)
      ultimately show ?thesis using False by (cases rest) (auto simp: rooted_def)
    next
      case no: False
      with pop False s show ?thesis by (cases rest) (auto simp: popComponent_def Let_def rooted_def)
    qed
  qed
qed

lemma rooted_to_top:
  assumes "keeps_id lib" and "rooted lib menu m" and "to_top lib msg m = Some (m', cmds)" shows "rooted lib menu m'"
proof -
  obtain s rest where s: "bd_screens m = s # rest" "\<not> scr_closing s" "cp_ID lib (scr_comp s) = menu"
    using assms(2) by (auto simp: rooted_def)
  have "bd_screens m' = (s # rest)[length rest := (last (s # rest))\<lparr>scr_comp := cp_Update lib msg (scr_comp (last (s # rest)))\<rparr>]"
    using assms(3) s(1) by (auto simp: to_top_def Let_def)
  with s assms(1) show ?thesis by (cases rest) (auto simp: rooted_def keeps_id_def scr_closing_def)
qed

lemma rooted_step:
  assumes "keeps_id lib" and m: "rooted lib menu m" and u: "body_Update lib ks animated now clock msg m = Some (m', cmds)"
  shows "rooted lib menu m'"
proof -
  obtain s rest where s: "bd_screens m = s # rest" "\<not> scr_closing s" "cp_ID lib (scr_comp s) = menu"
    using m by (auto simp: rooted_def)
  note top = rooted_to_top [OF assms(1) m] and pop = rooted_pop [OF m]
  show ?thesis
  proof (cases msg)
    case (BodyTheme tm)
    with u s assms(1) show ?thesis by (auto simp: body_Update_def rooted_def keeps_id_def scr_closing_def Let_def)
  next
    case BodyFrame
    have "bd_screens m' = bd_screens (fst (body_expire now m))"
      using u s BodyFrame by (auto simp: body_Update_def Let_def split: prod.splits)
    with rooted_expire [OF m, of now] show ?thesis by (simp add: rooted_def)
  next
    case (BodyKey key km)
    from u have "Some (m', cmds) \<in> {Some (m, []), Some (m, [ExitConfirm]), popComponent lib animated now m, to_top lib km m}"
      using s by (auto simp: body_Update_def BodyKey Let_def split: if_splits KeyMode.splits)
    then show ?thesis using m top [of km] pop [of animated now] by (metis insertE option.inject prod.inject singletonD)
  next
    case (OpenComponent co om)
    with u s top [of om] rooted_push [OF m, of animated now] show ?thesis
      by (cases co) (auto simp: body_Update_def Let_def, metis fst_conv)
  next
    case (CloseComponent cid cm)
    show ?thesis
    proof (cases "find (\<lambda>i. cp_ID lib (scr_comp (bd_screens m ! i)) = cid) [0 ..< length (bd_screens m)]")
      case None
      with u s top [of cm] CloseComponent show ?thesis by (simp add: body_Update_def Let_def)
    next
      case (Some i)
      then consider "i = 0 \<or> scr_closing (bd_screens m ! i)" | "0 < i" "popComponent lib animated now m = Some (m', cmds)"
        | "0 < i" "bd_screens m' = take i (bd_screens m) @ drop (Suc i) (bd_screens m)"
        using u s CloseComponent by (auto simp: body_Update_def Let_def split: if_splits)
      then show ?thesis
      proof cases
        case 1
        with u s Some CloseComponent m show ?thesis by (auto simp: body_Update_def Let_def)
      next
        case 2
        then show ?thesis by (intro pop)
      next
        case 3
        with s show ?thesis by (cases i) (auto simp: rooted_def)
      qed
    qed
  next
    case ResetStacks
    with u s show ?thesis by (auto simp: body_Update_def Let_def rooted_def)
  next
    case (BodyOther om)
    with u s top [of om] show ?thesis by (simp add: body_Update_def Let_def)
  qed
qed

text \<open>A run: every message with the two clock readings.\<close>

fun body_run ::
    "('c, 'm) comp_lib \<Rightarrow> Keys \<Rightarrow> bool \<Rightarrow> (int \<times> int \<times> ('c, 'm) body_msg) list \<Rightarrow> 'c body \<Rightarrow> 'c body option" where
  "body_run lib ks animated [] m = Some m"
| "body_run lib ks animated ((now, clock, msg) # es) m =
     (case body_Update lib ks animated now clock msg m of None \<Rightarrow> None | Some (m', cmds) \<Rightarrow> body_run lib ks animated es m')"

text \<open>Whatever messages arrive after the start, while none of them panics, the main menu stays at the bottom of the stack and is never closing, so that
  there is always a screen to draw and Back on it asks before the program ends.\<close>
theorem main_menu_stays:
  assumes "keeps_id lib" and "body_run lib ks animated es (body_Init menu new_body) = Some m"
  shows "bd_screens m \<noteq> [] \<and> cp_ID lib (scr_comp (hd (bd_screens m))) = cp_ID lib menu \<and> \<not> scr_closing (hd (bd_screens m))"
proof -
  have run: "rooted lib (cp_ID lib menu) m'" if "rooted lib (cp_ID lib menu) m0" "body_run lib ks animated es m0 = Some m'" for m0 m'
    using that
  proof (induction es arbitrary: m0)
    case (Cons e es)
    obtain now clock msg where e: "e = (now, clock, msg)" by (cases e)
    with Cons.prems(2) obtain m1 cmds where "body_Update lib ks animated now clock msg m0 = Some (m1, cmds)"
      "body_run lib ks animated es m1 = Some m'"
      by (auto split: option.splits)
    with Cons.IH Cons.prems(1) show ?case using rooted_step [OF assms(1)] by blast
  qed simp
  have "rooted lib (cp_ID lib menu) (body_Init menu new_body)"
    by (simp add: rooted_def body_Init_def new_body_def scr_closing_def)
  then have "rooted lib (cp_ID lib menu) m" by (rule run [OF _ assms(2)])
  then show ?thesis by (auto simp: rooted_def)
qed

definition plain_comps :: "(nat \<times> KeyMode, unit) comp_lib" where
  "plain_comps = \<lparr>cp_Mode = snd, cp_ID = fst, cp_Name = (\<lambda>c. []), cp_Update = (\<lambda>msg c. c)\<rparr>"

definition ms :: "int \<Rightarrow> int" where
  "ms t = t * 1000000"

definition opened :: "(int \<times> int \<times> (nat \<times> KeyMode, unit) body_msg) list" where
  "opened = [(0, 0, OpenComponent (Some (1, KeyModeNormal)) ()), (ms 160, ms 160, BodyFrame)]"

lemma opened_body:
  "body_run plain_comps Default True opened (body_Init (0, KeyModeNormal) new_body)
   = Some \<lparr>bd_screens = [\<lparr>scr_comp = (0, KeyModeNormal), scr_closingAt = None\<rparr>, \<lparr>scr_comp = (1, KeyModeNormal), scr_closingAt = None\<rparr>],
           bd_swap = None\<rparr>"
  by code_simp

lemma main_menu_stays_witness:
  "\<exists>m. body_run plain_comps Default True opened (body_Init (0, KeyModeNormal) new_body) = Some m
     \<and> cp_ID plain_comps (scr_comp (hd (bd_screens m))) = 0"
  using main_menu_stays [of plain_comps Default True opened "(0, KeyModeNormal)", OF _ opened_body]
  by (simp add: opened_body) (simp add: plain_comps_def keeps_id_def)

subsection \<open>Races of the transition\<close>

text \<open>The frame message removes closed screens by one reading of the clock and ends the transition by a later one. When the
  end falls between the two, the closed screen stays on top without a transition: no frame is asked for, Back
  does nothing, and keys reach the closed component.\<close>

definition stuck_body :: "(nat \<times> KeyMode) body" where
  "stuck_body =
     \<lparr>bd_screens = [\<lparr>scr_comp = (0, KeyModeNormal), scr_closingAt = None\<rparr>,
                    \<lparr>scr_comp = (1, KeyModeNormal), scr_closingAt = Some (ms 200)\<rparr>],
      bd_swap = None\<rparr>"

lemma closed_screen_stuck:
  "body_run plain_comps Default True (opened @ [(ms 200, ms 200, BodyKey ''esc'' ()), (ms 350 - 1, ms 350, BodyFrame)])
         (body_Init (0, KeyModeNormal) new_body) = Some stuck_body"
  "body_Update plain_comps Default True now clock (BodyKey ''esc'' ()) stuck_body = Some (stuck_body, [])"
proof -
  show "body_run plain_comps Default True (opened @ [(ms 200, ms 200, BodyKey ''esc'' ()), (ms 350 - 1, ms 350, BodyFrame)])
         (body_Init (0, KeyModeNormal) new_body) = Some stuck_body"
    by code_simp
  have "Matches (global_Back (k_Global Default)) ''esc''" by code_simp
  then show "body_Update plain_comps Default True now clock (BodyKey ''esc'' ()) stuck_body = Some (stuck_body, [])"
    by (simp add: body_Update_def stuck_body_def plain_comps_def popComponent_def scr_closing_def Let_def)
qed

text \<open>A screen that is opened while another one closes, and is closed by a message after that one has run out but before the
  next frame, makes \<open>popComponent\<close> write behind the end of the stack.\<close>

lemma close_message_panics:
  "body_run plain_comps Default True
     (opened @ [(ms 200, ms 200, BodyKey ''esc'' ()), (ms 300, ms 300, OpenComponent (Some (2, KeyModeNormal)) ()),
                (ms 349, ms 349, BodyFrame), (ms 351, ms 351, CloseComponent 2 ())])
     (body_Init (0, KeyModeNormal) new_body) = None"
  by code_simp

end
