(* ===== verification/DialogStack.thy ===== *)
theory DialogStack
  imports ScreenStack "HOL-Library.Multiset"
begin

text \<open>
  The dialogs over the screens and the message loop of the program (\<open>internal/ui/main/app\<close>: \<open>dialogs.go\<close>, \<open>update.go\<close>,
  \<open>model.go\<close>). Components are those of the screens; the commands that run when a dialog has closed, and whether a text
  has letters of another alphabet than the Latin one, are parameters. \<open>ap_ticks\<close> counts the frame messages that have
  been asked for and have not arrived.
\<close>

subsection \<open>The stack of dialogs\<close>

record ('c, 'k) layer =
  ly_comp :: 'c
  ly_onClose :: "'k list"
  ly_openedAt :: int
  ly_closingAt :: "int option"
  ly_closeCmd :: "'k list"

datatype AppStage = StageSplash | StageStartUP | StageWorkspace

record ('c, 'k) app =
  ap_layers :: "('c, 'k) layer list"
  ap_splash :: 'c
  ap_startup :: 'c
  ap_workspace :: 'c
  ap_stage :: AppStage
  ap_nonLatin :: bool
  ap_ticks :: nat

record ('c, 'm, 'k) app_lib =
  al_comps :: "('c, 'm) comp_lib"
  al_OnClose :: "'c \<Rightarrow> 'k list"
  al_nonLatin :: "string \<Rightarrow> bool"

definition dialogDuration :: int where
  "dialogDuration = 120 * 1000000"

definition ly_closing :: "('c, 'k) layer \<Rightarrow> bool" where
  "ly_closing l \<longleftrightarrow> ly_closingAt l \<noteq> None"

definition ly_settled :: "int \<Rightarrow> ('c, 'k) layer \<Rightarrow> bool" where
  "ly_settled now l \<longleftrightarrow> dialogDuration \<le> now - (case ly_closingAt l of None \<Rightarrow> ly_openedAt l | Some t \<Rightarrow> t)"

definition ly_fraction :: "int \<Rightarrow> int \<Rightarrow> rat" where
  "ly_fraction start now = Clamp01 (of_int (now - start) / of_int dialogDuration)"

definition ly_progress :: "int \<Rightarrow> ('c, 'k) layer \<Rightarrow> rat" where
  "ly_progress now l =
     (case ly_closingAt l of None \<Rightarrow> ly_fraction (ly_openedAt l) now | Some t \<Rightarrow> 1 - ly_fraction t now)"

definition top_layer :: "('c, 'k) app \<Rightarrow> ('c, 'k) layer option" where
  "top_layer m = (if ap_layers m = [] then None else Some (last (ap_layers m)))"

definition push_layer :: "int \<Rightarrow> 'c \<Rightarrow> 'k list \<Rightarrow> ('c, 'k) app \<Rightarrow> ('c, 'k) app" where
  "push_layer now c onClose m =
     m\<lparr>ap_layers := ap_layers m @ [\<lparr>ly_comp = c, ly_onClose = onClose, ly_openedAt = now, ly_closingAt = None, ly_closeCmd = []\<rparr>]\<rparr>"

definition closeCmd :: "('c, 'm, 'k) app_lib \<Rightarrow> ('c, 'k) layer \<Rightarrow> 'k list" where
  "closeCmd lib l = al_OnClose lib (ly_comp l) @ ly_onClose l"

text \<open>\<open>beginClose\<close> of the layer at an index; it asks for a frame unless the layer is closing already.\<close>

definition beginClose :: "('c, 'm, 'k) app_lib \<Rightarrow> int \<Rightarrow> nat \<Rightarrow> ('c, 'k) app \<Rightarrow> ('c, 'k) app" where
  "beginClose lib now i m =
     (let l = ap_layers m ! i in
      if ly_closing l then m
      else m\<lparr>ap_layers := (ap_layers m)[i := l\<lparr>ly_closingAt := Some now, ly_closeCmd := closeCmd lib l\<rparr>],
             ap_ticks := ap_ticks m + 1\<rparr>)"

definition beginCloseTop :: "('c, 'm, 'k) app_lib \<Rightarrow> int \<Rightarrow> ('c, 'k) app \<Rightarrow> ('c, 'k) app" where
  "beginCloseTop lib now m = (if ap_layers m = [] then m else beginClose lib now (length (ap_layers m) - 1) m)"

definition beginCloseByID :: "('c, 'm, 'k) app_lib \<Rightarrow> int \<Rightarrow> nat \<Rightarrow> ('c, 'k) app \<Rightarrow> ('c, 'k) app" where
  "beginCloseByID lib now cid m =
     (case find (\<lambda>i. cp_ID (al_comps lib) (ly_comp (ap_layers m ! i)) = cid) [0 ..< length (ap_layers m)] of
        None \<Rightarrow> m | Some i \<Rightarrow> beginClose lib now i m)"

text \<open>The layers that \<open>expire\<close> removes, with the commands it returns.\<close>

definition gone :: "int \<Rightarrow> ('c, 'k) layer \<Rightarrow> bool" where
  "gone now l \<longleftrightarrow> ly_closing l \<and> ly_settled now l"

definition layers_expire :: "int \<Rightarrow> ('c, 'k) app \<Rightarrow> ('c, 'k) app \<times> ('c, 'k) layer list" where
  "layers_expire now m =
     (m\<lparr>ap_layers := filter (\<lambda>l. \<not> gone now l) (ap_layers m)\<rparr>, filter (gone now) (ap_layers m))"

definition animating :: "int \<Rightarrow> ('c, 'k) app \<Rightarrow> bool" where
  "animating now m \<longleftrightarrow> list_ex (\<lambda>l. \<not> ly_settled now l) (ap_layers m)"

definition update_layer :: "('c, 'm, 'k) app_lib \<Rightarrow> 'm \<Rightarrow> ('c, 'k) layer \<Rightarrow> ('c, 'k) layer" where
  "update_layer lib msg l = l\<lparr>ly_comp := cp_Update (al_comps lib) msg (ly_comp l)\<rparr>"

definition updateTop :: "('c, 'm, 'k) app_lib \<Rightarrow> 'm \<Rightarrow> ('c, 'k) app \<Rightarrow> ('c, 'k) app \<times> bool" where
  "updateTop lib msg m =
     (case top_layer m of
        None \<Rightarrow> (m, False)
      | Some l \<Rightarrow>
          if ly_closing l then (m, True)
          else (m\<lparr>ap_layers := butlast (ap_layers m) @ [update_layer lib msg l]\<rparr>, True))"

definition updateAll :: "('c, 'm, 'k) app_lib \<Rightarrow> 'm \<Rightarrow> ('c, 'k) app \<Rightarrow> ('c, 'k) app" where
  "updateAll lib msg m = m\<lparr>ap_layers := map (update_layer lib msg) (ap_layers m)\<rparr>"

subsection \<open>The message loop\<close>

datatype ('c, 'm, 'k) app_msg =
    AppKey string string 'm | SplashDone 'm | StartupDone 'm | OpenDialog 'c "'k list" | DialogFrame
  | AppClose nat 'm | NonLatinClosed | AppOther 'm

text \<open>\<open>Left l\<close>: the layer has left and its commands run.\<close>

datatype ('c, 'k) app_cmd = AppQuit | FrameTick | InitOf 'c | Left "('c, 'k) layer" | LayoutNotice | StageChange AppStage

definition closeTopDialog :: "('c, 'm, 'k) app_lib \<Rightarrow> Keys \<Rightarrow> int \<Rightarrow> string \<Rightarrow> ('c, 'k) app \<Rightarrow> ('c, 'k) app option" where
  "closeTopDialog lib ks now key m =
     (let g = k_Global ks in
      case top_layer m of
        None \<Rightarrow> None
      | Some l \<Rightarrow>
          if ly_closing l then None
          else if (case cp_Mode (al_comps lib) (ly_comp l) of
                     KeyModeNormal \<Rightarrow> Matches (global_Back g) key \<or> Matches (global_Quit g) key
                   | KeyModeInput \<Rightarrow> Matches (global_BackFromInput g) key
                   | KeyModeManage \<Rightarrow> False)
               then Some (beginCloseTop lib now m) else None)"

definition effectiveMode :: "('c, 'm, 'k) app_lib \<Rightarrow> ('c, 'k) app \<Rightarrow> KeyMode" where
  "effectiveMode lib m =
     (case top_layer m of
        Some l \<Rightarrow> if \<not> ly_closing l then cp_Mode (al_comps lib) (ly_comp l)
                  else if ap_stage m = StageWorkspace then cp_Mode (al_comps lib) (ap_workspace m) else KeyModeNormal
      | None \<Rightarrow> if ap_stage m = StageWorkspace then cp_Mode (al_comps lib) (ap_workspace m) else KeyModeNormal)"

definition warnNonLatin :: "('c, 'm, 'k) app_lib \<Rightarrow> string \<Rightarrow> ('c, 'k) app \<Rightarrow> bool" where
  "warnNonLatin lib text m \<longleftrightarrow>
     ap_stage m = StageWorkspace \<and> effectiveMode lib m = KeyModeNormal \<and> \<not> ap_nonLatin m \<and> al_nonLatin lib text"

definition stage_Update :: "('c, 'm, 'k) app_lib \<Rightarrow> 'm \<Rightarrow> ('c, 'k) app \<Rightarrow> ('c, 'k) app" where
  "stage_Update lib msg m =
     (let up = cp_Update (al_comps lib) msg in
      case ap_stage m of
        StageSplash \<Rightarrow> m\<lparr>ap_splash := up (ap_splash m)\<rparr>
      | StageStartUP \<Rightarrow> m\<lparr>ap_startup := up (ap_startup m)\<rparr>
      | StageWorkspace \<Rightarrow> m\<lparr>ap_workspace := up (ap_workspace m)\<rparr>)"

definition stage_below :: "AppStage \<Rightarrow> AppStage \<Rightarrow> bool" where
  "stage_below a b \<longleftrightarrow> a = StageSplash \<and> b \<noteq> StageSplash \<or> a = StageStartUP \<and> b = StageWorkspace"

definition enter_stage ::
    "('c, 'm, 'k) app_lib \<Rightarrow> AppStage \<Rightarrow> 'm \<Rightarrow> ('c, 'k) app \<Rightarrow> ('c, 'k) app \<times> ('c, 'k) app_cmd list" where
  "enter_stage lib st msg m =
     (let up = stage_below (ap_stage m) st
      in (stage_Update lib msg (updateAll lib msg (if up then m\<lparr>ap_stage := st\<rparr> else m)), if up then [StageChange st] else []))"

definition app_Update ::
    "('c, 'm, 'k) app_lib \<Rightarrow> Keys \<Rightarrow> int \<Rightarrow> ('c, 'm, 'k) app_msg \<Rightarrow> ('c, 'k) app \<Rightarrow> ('c, 'k) app \<times> ('c, 'k) app_cmd list" where
  "app_Update lib ks now msg m =
     (case msg of
        AppKey key text km \<Rightarrow>
          if Matches (global_ForceQuit (k_Global ks)) key then (m, [AppQuit])
          else (case closeTopDialog lib ks now key m of
                  Some m1 \<Rightarrow> (m1, [])
                | None \<Rightarrow>
                    if warnNonLatin lib text m then (m\<lparr>ap_nonLatin := True\<rparr>, [LayoutNotice])
                    else (case updateTop lib km m of
                            (m1, True) \<Rightarrow> (m1, [])
                          | (m1, False) \<Rightarrow> (stage_Update lib km m1, [])))
      | SplashDone sm \<Rightarrow> enter_stage lib StageStartUP sm m
      | StartupDone sm \<Rightarrow> enter_stage lib StageWorkspace sm m
      | OpenDialog c onClose \<Rightarrow>
          let m1 = push_layer now c onClose m in (m1\<lparr>ap_ticks := ap_ticks m1 + 1\<rparr>, [InitOf c, FrameTick])
      | DialogFrame \<Rightarrow>
          (case layers_expire now (m\<lparr>ap_ticks := ap_ticks m - 1\<rparr>) of
             (m1, out) \<Rightarrow>
               if animating now m1 then (m1\<lparr>ap_ticks := ap_ticks m1 + 1\<rparr>, map Left out @ [FrameTick])
               else (m1, map Left out))
      | AppClose cid cm \<Rightarrow> (stage_Update lib cm (updateAll lib cm (beginCloseByID lib now cid m)), [])
      | NonLatinClosed \<Rightarrow> (m\<lparr>ap_nonLatin := False\<rparr>, [])
      | AppOther om \<Rightarrow> (stage_Update lib om (updateAll lib om m), []))"

definition new_app :: "'c \<Rightarrow> 'c \<Rightarrow> 'c \<Rightarrow> ('c, 'k) app" where
  "new_app sp st wk =
     \<lparr>ap_layers = [], ap_splash = sp, ap_startup = st, ap_workspace = wk, ap_stage = StageSplash, ap_nonLatin = False, ap_ticks = 0\<rparr>"

text \<open>A run: each message with the clock; a frame message arrives only if one was asked for.\<close>

inductive app_run ::
    "('c, 'm, 'k) app_lib \<Rightarrow> Keys \<Rightarrow> ('c, 'k) app \<Rightarrow> (int \<times> ('c, 'm, 'k) app_msg) list \<Rightarrow> ('c, 'k) app \<Rightarrow> ('c, 'k) app_cmd list \<Rightarrow> bool"
  for lib :: "('c, 'm, 'k) app_lib" and ks :: Keys and m0 :: "('c, 'k) app" where
  app_start: "app_run lib ks m0 [] m0 []"
| app_more: "app_run lib ks m0 es m cmds \<Longrightarrow> (msg = DialogFrame \<Longrightarrow> 0 < ap_ticks m) \<Longrightarrow> app_Update lib ks now msg m = (m', cs) \<Longrightarrow>
    app_run lib ks m0 (es @ [(now, msg)]) m' (cmds @ cs)"

subsection \<open>Dialogs leave, each once\<close>

definition layer_id :: "('c, 'm, 'k) app_lib \<Rightarrow> ('c, 'k) layer \<Rightarrow> nat" where
  "layer_id lib l = cp_ID (al_comps lib) (ly_comp l)"

definition opened_ids :: "('c, 'm, 'k) app_lib \<Rightarrow> (int \<times> ('c, 'm, 'k) app_msg) list \<Rightarrow> nat multiset" where
  "opened_ids lib es =
     mset (List.map_filter (\<lambda>(t, e). case e of OpenDialog c oc \<Rightarrow> Some (cp_ID (al_comps lib) c) | _ \<Rightarrow> None) es)"

definition left_ids :: "('c, 'm, 'k) app_lib \<Rightarrow> ('c, 'k) app_cmd list \<Rightarrow> nat multiset" where
  "left_ids lib cmds = mset (List.map_filter (\<lambda>c. case c of Left l \<Rightarrow> Some (layer_id lib l) | _ \<Rightarrow> None) cmds)"

definition stack_ids :: "('c, 'm, 'k) app_lib \<Rightarrow> ('c, 'k) app \<Rightarrow> nat multiset" where
  "stack_ids lib m = mset (map (layer_id lib) (ap_layers m))"

definition frame_pending :: "('c, 'k) app \<Rightarrow> bool" where
  "frame_pending m \<longleftrightarrow> ((\<exists>l \<in> set (ap_layers m). ly_closing l) \<longrightarrow> 0 < ap_ticks m)"

lemma stage_Update_fields [simp]:
  "ap_layers (stage_Update lib msg m) = ap_layers m" "ap_ticks (stage_Update lib msg m) = ap_ticks m"
  by (simp_all add: stage_Update_def Let_def split: AppStage.split)

lemma stack_ids_cong: "ap_layers m' = ap_layers m \<Longrightarrow> stack_ids lib m' = stack_ids lib m"
  by (simp add: stack_ids_def)

lemma frame_pending_cong: "ap_layers m' = ap_layers m \<Longrightarrow> ap_ticks m' = ap_ticks m \<Longrightarrow> frame_pending m' = frame_pending m"
  by (simp add: frame_pending_def)

lemma stack_ids_upd [simp]:
  "stack_ids lib (m\<lparr>ap_ticks := n\<rparr>) = stack_ids lib m" "stack_ids lib (m\<lparr>ap_stage := g\<rparr>) = stack_ids lib m"
  "stack_ids lib (m\<lparr>ap_nonLatin := b\<rparr>) = stack_ids lib m" "stack_ids lib (stage_Update lib msg m) = stack_ids lib m"
  by (rule stack_ids_cong; simp)+

lemma frame_pending_upd [simp]:
  "frame_pending (m\<lparr>ap_stage := g\<rparr>) = frame_pending m" "frame_pending (m\<lparr>ap_nonLatin := b\<rparr>) = frame_pending m"
  "frame_pending (stage_Update lib msg m) = frame_pending m"
  by (rule frame_pending_cong; simp)+

lemma beginClose_ok:
  "stack_ids lib (beginClose lib now i m) = stack_ids lib m" "frame_pending m \<Longrightarrow> frame_pending (beginClose lib now i m)"
proof -
  have "(map (layer_id lib) (ap_layers m))[i := layer_id lib (ap_layers m ! i)] = map (layer_id lib) (ap_layers m)"
    by (metis list_update_beyond list_update_id map_update not_le)
  then show "stack_ids lib (beginClose lib now i m) = stack_ids lib m"
    by (simp add: beginClose_def stack_ids_def map_update layer_id_def Let_def del: mset_map)
  show "frame_pending m \<Longrightarrow> frame_pending (beginClose lib now i m)"
    by (simp add: beginClose_def frame_pending_def Let_def)
qed

lemma begin_variants_ok:
  "stack_ids lib (beginCloseTop lib now m) = stack_ids lib m" "frame_pending m \<Longrightarrow> frame_pending (beginCloseTop lib now m)"
  "stack_ids lib (beginCloseByID lib now cid m) = stack_ids lib m" "frame_pending m \<Longrightarrow> frame_pending (beginCloseByID lib now cid m)"
  by (simp_all add: beginCloseTop_def beginCloseByID_def beginClose_ok split: option.split)

lemma update_layer_simps [simp]:
  "keeps_id (al_comps lib) \<Longrightarrow> layer_id lib (update_layer lib msg l) = layer_id lib l"
  "ly_closing (update_layer lib msg l) = ly_closing l"
  by (simp_all add: layer_id_def update_layer_def keeps_id_def ly_closing_def)

lemma updateAll_ok:
  "keeps_id (al_comps lib) \<Longrightarrow> stack_ids lib (updateAll lib msg m) = stack_ids lib m"
  "frame_pending (updateAll lib msg m) = frame_pending m"
  by (simp_all add: updateAll_def stack_ids_def comp_def frame_pending_def multiset.map_comp)

lemma updateTop_ok:
  assumes "keeps_id (al_comps lib)"
  shows "stack_ids lib (fst (updateTop lib msg m)) = stack_ids lib m"
    and "frame_pending m \<Longrightarrow> frame_pending (fst (updateTop lib msg m))"
proof -
  have "map (layer_id lib) (butlast ls @ [update_layer lib msg (last ls)]) = map (layer_id lib) ls" if "ls \<noteq> []" for ls
    using that assms by (cases ls rule: rev_cases) simp_all
  then show "stack_ids lib (fst (updateTop lib msg m)) = stack_ids lib m"
    by (auto simp: updateTop_def top_layer_def stack_ids_def simp del: mset_map map_append)
  show "frame_pending m \<Longrightarrow> frame_pending (fst (updateTop lib msg m))"
    by (auto simp: updateTop_def top_layer_def frame_pending_def dest: in_set_butlastD)
qed

lemma left_ids_simps [simp]:
  "left_ids lib (xs @ ys) = left_ids lib xs + left_ids lib ys" "left_ids lib [] = {#}"
  "left_ids lib (Left l # xs) = add_mset (layer_id lib l) (left_ids lib xs)"
  "left_ids lib (FrameTick # xs) = left_ids lib xs" "left_ids lib (AppQuit # xs) = left_ids lib xs"
  "left_ids lib (LayoutNotice # xs) = left_ids lib xs" "left_ids lib (InitOf c # xs) = left_ids lib xs"
  "left_ids lib (StageChange st # xs) = left_ids lib xs"
proof -
  show "left_ids lib (xs @ ys) = left_ids lib xs + left_ids lib ys"
    by (induction xs) (auto simp: left_ids_def map_filter_simps split: app_cmd.split)
qed (simp_all add: left_ids_def map_filter_simps)

lemma left_ids_map [simp]: "left_ids lib (map Left ls) = mset (map (layer_id lib) ls)"
  by (induction ls) simp_all

lemma enter_stage_ok:
  assumes "keeps_id (al_comps lib)" and "enter_stage lib st msg m = (m', cs)"
  shows "stack_ids lib m' = stack_ids lib m" and "left_ids lib cs = {#}" and "frame_pending m \<Longrightarrow> frame_pending m'"
  using assms by (auto simp: enter_stage_def Let_def updateAll_ok)

lemma opened_ids_single:
  "opened_ids lib [(now, msg)] = (case msg of OpenDialog c oc \<Rightarrow> {#cp_ID (al_comps lib) c#} | _ \<Rightarrow> {#})"
  by (simp add: opened_ids_def map_filter_simps split: app_msg.split)

lemma frame_ok:
  assumes "app_Update lib ks now DialogFrame m = (m', cs)"
  shows "stack_ids lib m' + left_ids lib cs = stack_ids lib m" and "frame_pending m'"
    and "ap_layers m' = filter (\<lambda>l. \<not> gone now l) (ap_layers m)" and "Left l \<in> set cs \<longleftrightarrow> l \<in> set (ap_layers m) \<and> gone now l"
proof -
  show "stack_ids lib m' + left_ids lib cs = stack_ids lib m"
    using assms by (auto simp: app_Update_def layers_expire_def stack_ids_def split: if_splits)
      ((metis add.commute image_mset_union multiset_partition)+)
  show "frame_pending m'" "ap_layers m' = filter (\<lambda>l. \<not> gone now l) (ap_layers m)"
    "Left l \<in> set cs \<longleftrightarrow> l \<in> set (ap_layers m) \<and> gone now l"
    using assms by (auto simp: app_Update_def layers_expire_def frame_pending_def animating_def gone_def list_ex_iff split: if_splits)
qed

lemma app_step_ok:
  assumes k: "keeps_id (al_comps lib)" and u: "app_Update lib ks now msg m = (m', cs)" and p: "frame_pending m"
  shows "stack_ids lib m' + left_ids lib cs = stack_ids lib m + opened_ids lib [(now, msg)] \<and> frame_pending m'"
proof (cases msg)
  case (AppKey key lbl km)
  have "updateTop lib km m = (m1, b) \<Longrightarrow> stack_ids lib m1 = stack_ids lib m \<and> frame_pending m1" for m1 b
    using updateTop_ok [OF k, where msg = km and m = m] p by auto
  moreover have "closeTopDialog lib ks now key m = Some m1 \<Longrightarrow> stack_ids lib m1 = stack_ids lib m \<and> frame_pending m1" for m1
    using begin_variants_ok(1,2) [where lib = lib and now = now and m = m] p
    by (auto simp: closeTopDialog_def Let_def split: option.splits if_splits)
  ultimately show ?thesis
    using u p by (auto simp: AppKey app_Update_def opened_ids_single split: if_splits option.splits prod.splits bool.splits)
next
  case (SplashDone sm)
  with u p enter_stage_ok [OF k, of StageStartUP sm m m' cs] show ?thesis by (simp add: app_Update_def opened_ids_single)
next
  case (StartupDone sm)
  with u p enter_stage_ok [OF k, of StageWorkspace sm m m' cs] show ?thesis by (simp add: app_Update_def opened_ids_single)
next
  case (OpenDialog c oc)
  with u show ?thesis
    by (auto simp: app_Update_def opened_ids_single push_layer_def stack_ids_def layer_id_def frame_pending_def Let_def)
next
  case DialogFrame
  with frame_ok [of lib ks now m m' cs] u show ?thesis by (simp add: opened_ids_single)
next
  case (AppClose cid cm)
  with u p show ?thesis by (auto simp: app_Update_def opened_ids_single updateAll_ok k begin_variants_ok)
next
  case (AppOther om)
  with u p show ?thesis by (auto simp: app_Update_def opened_ids_single updateAll_ok k)
qed (use u p in \<open>auto simp: app_Update_def opened_ids_single\<close>)

lemma opened_ids_append: "opened_ids lib (es @ fs) = opened_ids lib es + opened_ids lib fs"
  by (induction es) (auto simp: opened_ids_def map_filter_simps split: app_msg.split prod.split)

lemma app_run_ok:
  assumes "keeps_id (al_comps lib)" and "app_run lib ks (new_app sp st wk) es m cmds"
  shows "opened_ids lib es = left_ids lib cmds + stack_ids lib m \<and> frame_pending m"
  using assms(2)
proof (induction rule: app_run.induct)
  case app_start
  show ?case by (simp add: opened_ids_def map_filter_simps stack_ids_def new_app_def frame_pending_def)
next
  case (app_more es m cmds msg now m' cs)
  with app_step_ok [OF assms(1), of ks now msg m m' cs] show ?case by (simp add: opened_ids_append ac_simps)
qed

text \<open>C37. In every run each dialog that was opened is still on the stack or has left exactly once; while one is closing a frame
  message is under way, and the first one that arrives after its time removes it and runs its closing commands.\<close>
theorem closing_dialog_leaves:
  assumes "keeps_id (al_comps lib)" and "app_run lib ks (new_app sp st wk) es m cmds"
  shows "opened_ids lib es = left_ids lib cmds + stack_ids lib m
    \<and> (\<forall>l \<in> set (ap_layers m). ly_closing l \<longrightarrow> 0 < ap_ticks m
        \<and> (\<forall>now. ly_settled now l \<longrightarrow>
             l \<notin> set (ap_layers (fst (app_Update lib ks now DialogFrame m)))
             \<and> Left l \<in> set (snd (app_Update lib ks now DialogFrame m))))"
proof -
  have "l \<notin> set (ap_layers (fst (app_Update lib ks now DialogFrame m))) \<and> Left l \<in> set (snd (app_Update lib ks now DialogFrame m))"
    if "l \<in> set (ap_layers m)" "ly_closing l" "ly_settled now l" for l now
    using frame_ok(3,4) [of lib ks now m "fst (app_Update lib ks now DialogFrame m)" "snd (app_Update lib ks now DialogFrame m)"] that
    by (auto simp: gone_def)
  with app_run_ok [OF assms] show ?thesis by (auto simp: frame_pending_def)
qed

definition plain_app :: "(nat \<times> KeyMode, unit, nat) app_lib" where
  "plain_app = \<lparr>al_comps = plain_comps, al_OnClose = (\<lambda>c. [fst c]), al_nonLatin = (\<lambda>t. False)\<rparr>"

definition closing_layer :: "(nat \<times> KeyMode, nat) layer" where
  "closing_layer = \<lparr>ly_comp = (5, KeyModeNormal), ly_onClose = [7], ly_openedAt = 0, ly_closingAt = Some (ms 200), ly_closeCmd = [5, 7]\<rparr>"

definition empty_app :: "(nat \<times> KeyMode, nat) app" where
  "empty_app = new_app (0, KeyModeNormal) (1, KeyModeNormal) (2, KeyModeNormal)"

lemma closing_dialog_leaves_witness:
  "\<exists>m cmds. app_run plain_app Default empty_app [(0, OpenDialog (5, KeyModeNormal) [7]), (ms 200, AppKey ''esc'' [] ())] m cmds
     \<and> ap_layers m = [closing_layer] \<and> Left closing_layer \<in> set (snd (app_Update plain_app Default (ms 320) DialogFrame m))"
proof -
  let ?m1 = "fst (app_Update plain_app Default 0 (OpenDialog (5, KeyModeNormal) [7]) empty_app)"
  let ?m2 = "fst (app_Update plain_app Default (ms 200) (AppKey ''esc'' [] ()) ?m1)"
  have "app_run plain_app Default empty_app ([] @ [(0, OpenDialog (5, KeyModeNormal) [7])]) ?m1
      ([] @ snd (app_Update plain_app Default 0 (OpenDialog (5, KeyModeNormal) [7]) empty_app))"
    by (rule app_more [OF app_start]) simp_all
  from app_more [OF this, of "AppKey ''esc'' [] ()" "ms 200" ?m2] obtain cmds
    where run: "app_run plain_app Default empty_app [(0, OpenDialog (5, KeyModeNormal) [7]), (ms 200, AppKey ''esc'' [] ())] ?m2 cmds"
    by (metis app_msg.distinct(7) append_Cons append_Nil prod.collapse)
  have layers: "ap_layers ?m2 = [closing_layer]" by code_simp
  have "ly_closing closing_layer" "ly_settled (ms 320) closing_layer" by code_simp+
  with closing_dialog_leaves [of plain_app, OF _ run [unfolded empty_app_def]] layers
  have "Left closing_layer \<in> set (snd (app_Update plain_app Default (ms 320) DialogFrame ?m2))"
    by (simp add: empty_app_def) (simp add: plain_app_def plain_comps_def keeps_id_def)
  with run layers show ?thesis by blast
qed

end
