(* ===== verification/SettingsStore.thy ===== *)
theory SettingsStore
  imports ConfigCorrect FilePaths
begin

text \<open>
  The settings on disk (\<open>config/config.go\<close>, \<open>fileutil/toml.go\<close>): one TOML file per section, created from the default when
  it is missing. The bytes of a file and the TOML library are parameters: a codec for each section. A write can fail before
  the file is created, or after it has been cut to some other content.
\<close>

subsection \<open>Files\<close>

record ('a, 'f) codec =
  enc :: "'a \<Rightarrow> 'f"
  dec :: "'f \<Rightarrow> 'a option"

datatype 'f file_end = Written | NotCreated | CutTo 'f

record 'f disk_env =
  de_unreadable :: "string \<Rightarrow> bool"
  de_write :: "string \<Rightarrow> 'f file_end"

datatype load_err = LoadSettings string | CreateDefault string | SaveSettings string

datatype toml_err = NotExist | OtherErr

definition ReadTOMLFile :: "('a, 'f) codec \<Rightarrow> 'f disk_env \<Rightarrow> string \<Rightarrow> (string \<rightharpoonup> 'f) \<Rightarrow> toml_err + 'a" where
  "ReadTOMLFile cd env path d =
     (if de_unreadable env path then Inl OtherErr
      else case d path of
             None \<Rightarrow> Inl NotExist
           | Some f \<Rightarrow> (case dec cd f of None \<Rightarrow> Inl OtherErr | Some v \<Rightarrow> Inr v))"

definition WriteTOMLFile :: "('a, 'f) codec \<Rightarrow> 'f disk_env \<Rightarrow> string \<Rightarrow> 'a \<Rightarrow> (string \<rightharpoonup> 'f) \<Rightarrow> bool \<times> (string \<rightharpoonup> 'f)" where
  "WriteTOMLFile cd env path v d =
     (case de_write env path of
        Written \<Rightarrow> (True, d(path \<mapsto> enc cd v)) | NotCreated \<Rightarrow> (False, d) | CutTo f \<Rightarrow> (False, d(path \<mapsto> f)))"

definition loadTOML ::
    "('a, 'f) codec \<Rightarrow> 'f disk_env \<Rightarrow> string \<Rightarrow> 'a \<Rightarrow> (string \<rightharpoonup> 'f) \<Rightarrow> (load_err + 'a) \<times> (string \<rightharpoonup> 'f)" where
  "loadTOML cd env path defaultValue d =
     (case ReadTOMLFile cd env path d of
        Inr v \<Rightarrow> (Inr v, d)
      | Inl OtherErr \<Rightarrow> (Inl (LoadSettings path), d)
      | Inl NotExist \<Rightarrow>
          (case WriteTOMLFile cd env path defaultValue d of
             (True, d1) \<Rightarrow> (Inr defaultValue, d1) | (False, d1) \<Rightarrow> (Inl (CreateDefault path), d1)))"

definition saveTOML ::
    "('a, 'f) codec \<Rightarrow> 'f disk_env \<Rightarrow> string \<Rightarrow> 'a \<Rightarrow> (string \<rightharpoonup> 'f) \<Rightarrow> load_err option \<times> (string \<rightharpoonup> 'f)" where
  "saveTOML cd env path v d =
     (case WriteTOMLFile cd env path v d of (True, d1) \<Rightarrow> (None, d1) | (False, d1) \<Rightarrow> (Some (SaveSettings path), d1))"

subsection \<open>The store\<close>

definition settingsDir :: string where "settingsDir = ''settings''"
definition generalFile :: string where "generalFile = ''general_settings.toml''"
definition writerFile :: string where "writerFile = ''writer_settings.toml''"
definition icmpFile :: string where "icmpFile = ''icmp_settings.toml''"
definition tcpFile :: string where "tcpFile = ''tcp_settings.toml''"
definition httpFile :: string where "httpFile = ''http_settings.toml''"
definition xrayFile :: string where "xrayFile = ''xray_settings.toml''"
definition dnsFile :: string where "dnsFile = ''dns_settings.toml''"

lemmas file_defs = generalFile_def writerFile_def icmpFile_def tcpFile_def httpFile_def xrayFile_def dnsFile_def

record settings_store =
  ss_dir :: string

text \<open>\<open>base\<close> is the result of \<open>BasePath\<close>, \<open>dirs\<close> the directories of the options.\<close>

definition NewStore :: "string option \<Rightarrow> string list \<Rightarrow> settings_store" where
  "NewStore base dirs =
     fold (\<lambda>d s. s\<lparr>ss_dir := d\<rparr>) dirs
       \<lparr>ss_dir = (case base of None \<Rightarrow> settingsDir | Some b \<Rightarrow> path_Join [b, settingsDir])\<rparr>"

definition store_path :: "settings_store \<Rightarrow> string \<Rightarrow> string" where
  "store_path s filename = path_Join [ss_dir s, filename]"

record 'f codecs =
  cd_General :: "(GeneralConfig, 'f) codec"
  cd_Writer :: "(WriterConfig, 'f) codec"
  cd_ICMP :: "(ICMPConfig, 'f) codec"
  cd_TCP :: "(TCPConfig, 'f) codec"
  cd_HTTP :: "(HTTPConfig, 'f) codec"
  cd_Xray :: "(XrayConfig, 'f) codec"
  cd_DNS :: "(DNSConfig, 'f) codec"

text \<open>One reading after the other; the first error ends the loading.\<close>

definition and_then :: "('e + 'a) \<times> 'd \<Rightarrow> ('a \<Rightarrow> 'd \<Rightarrow> ('e + 'b) \<times> 'd) \<Rightarrow> ('e + 'b) \<times> 'd" where
  "and_then r k = (case r of (Inl e, d) \<Rightarrow> (Inl e, d) | (Inr v, d) \<Rightarrow> k v d)"

definition store_Load ::
    "'f codecs \<Rightarrow> 'f disk_env \<Rightarrow> settings_store \<Rightarrow> platform \<Rightarrow> tier \<Rightarrow> (string \<rightharpoonup> 'f)
       \<Rightarrow> (load_err + ScannerConfig) \<times> (string \<rightharpoonup> 'f)" where
  "store_Load cds env s pf tr d =
     and_then (loadTOML (cd_General cds) env (store_path s generalFile) (DefaultGeneralConfig pf tr) d) (\<lambda>g d.
     and_then (loadTOML (cd_Writer cds) env (store_path s writerFile) (DefaultWriterConfig pf tr) d) (\<lambda>w d.
     and_then (loadTOML (cd_ICMP cds) env (store_path s icmpFile) (DefaultICMPConfig pf tr) d) (\<lambda>i d.
     and_then (loadTOML (cd_TCP cds) env (store_path s tcpFile) (DefaultTCPConfig pf tr) d) (\<lambda>t d.
     and_then (loadTOML (cd_HTTP cds) env (store_path s httpFile) (DefaultHTTPConfig pf tr) d) (\<lambda>h d.
     and_then (loadTOML (cd_Xray cds) env (store_path s xrayFile) (DefaultXrayConfig pf tr) d) (\<lambda>x d.
     and_then (loadTOML (cd_DNS cds) env (store_path s dnsFile) (DefaultDNSConfig pf tr) d) (\<lambda>n d.
       (Inr \<lparr>General = g, Writer = w, ICMP = i, TCP = t, HTTP = h, Xray = x, DNS = n\<rparr>, d))))))))"

definition SaveGeneral where "SaveGeneral cds env s v = saveTOML (cd_General cds) env (store_path s generalFile) v"
definition SaveWriter where "SaveWriter cds env s v = saveTOML (cd_Writer cds) env (store_path s writerFile) v"
definition SaveICMP where "SaveICMP cds env s v = saveTOML (cd_ICMP cds) env (store_path s icmpFile) v"
definition SaveTCP where "SaveTCP cds env s v = saveTOML (cd_TCP cds) env (store_path s tcpFile) v"
definition SaveHTTP where "SaveHTTP cds env s v = saveTOML (cd_HTTP cds) env (store_path s httpFile) v"
definition SaveXray where "SaveXray cds env s v = saveTOML (cd_Xray cds) env (store_path s xrayFile) v"
definition SaveDNS where "SaveDNS cds env s v = saveTOML (cd_DNS cds) env (store_path s dnsFile) v"

lemmas save_defs = SaveGeneral_def SaveWriter_def SaveICMP_def SaveTCP_def SaveHTTP_def SaveXray_def SaveDNS_def

subsection \<open>The directory is a record of settings\<close>

datatype save_op =
    OpGeneral GeneralConfig | OpWriter WriterConfig | OpICMP ICMPConfig | OpTCP TCPConfig | OpHTTP HTTPConfig
  | OpXray XrayConfig | OpDNS DNSConfig

fun save_op_run :: "'f codecs \<Rightarrow> 'f disk_env \<Rightarrow> settings_store \<Rightarrow> save_op \<Rightarrow> (string \<rightharpoonup> 'f) \<Rightarrow> load_err option \<times> (string \<rightharpoonup> 'f)" where
  "save_op_run cds env s (OpGeneral v) = SaveGeneral cds env s v"
| "save_op_run cds env s (OpWriter v) = SaveWriter cds env s v"
| "save_op_run cds env s (OpICMP v) = SaveICMP cds env s v"
| "save_op_run cds env s (OpTCP v) = SaveTCP cds env s v"
| "save_op_run cds env s (OpHTTP v) = SaveHTTP cds env s v"
| "save_op_run cds env s (OpXray v) = SaveXray cds env s v"
| "save_op_run cds env s (OpDNS v) = SaveDNS cds env s v"

fun set_section :: "save_op \<Rightarrow> ScannerConfig \<Rightarrow> ScannerConfig" where
  "set_section (OpGeneral v) c = c\<lparr>General := v\<rparr>"
| "set_section (OpWriter v) c = c\<lparr>Writer := v\<rparr>"
| "set_section (OpICMP v) c = c\<lparr>ICMP := v\<rparr>"
| "set_section (OpTCP v) c = c\<lparr>TCP := v\<rparr>"
| "set_section (OpHTTP v) c = c\<lparr>HTTP := v\<rparr>"
| "set_section (OpXray v) c = c\<lparr>Xray := v\<rparr>"
| "set_section (OpDNS v) c = c\<lparr>DNS := v\<rparr>"

fun saves_run :: "'f codecs \<Rightarrow> 'f disk_env \<Rightarrow> settings_store \<Rightarrow> save_op list \<Rightarrow> (string \<rightharpoonup> 'f) \<Rightarrow> load_err option \<times> (string \<rightharpoonup> 'f)" where
  "saves_run cds env s [] d = (None, d)"
| "saves_run cds env s (x # xs) d =
     (case save_op_run cds env s x d of (Some e, d1) \<Rightarrow> (Some e, d1) | (None, d1) \<Rightarrow> saves_run cds env s xs d1)"

text \<open>What go-toml promises: what it wrote it reads back.\<close>

definition codecs_ok :: "'f codecs \<Rightarrow> bool" where
  "codecs_ok c \<longleftrightarrow>
     (\<forall>v. dec (cd_General c) (enc (cd_General c) v) = Some v) \<and> (\<forall>v. dec (cd_Writer c) (enc (cd_Writer c) v) = Some v)
   \<and> (\<forall>v. dec (cd_ICMP c) (enc (cd_ICMP c) v) = Some v) \<and> (\<forall>v. dec (cd_TCP c) (enc (cd_TCP c) v) = Some v)
   \<and> (\<forall>v. dec (cd_HTTP c) (enc (cd_HTTP c) v) = Some v) \<and> (\<forall>v. dec (cd_Xray c) (enc (cd_Xray c) v) = Some v)
   \<and> (\<forall>v. dec (cd_DNS c) (enc (cd_DNS c) v) = Some v)"

definition stored :: "('a, 'f) codec \<Rightarrow> 'f disk_env \<Rightarrow> string \<Rightarrow> (string \<rightharpoonup> 'f) \<Rightarrow> 'a \<Rightarrow> bool" where
  "stored cd env p d v \<longleftrightarrow> \<not> de_unreadable env p \<and> Option.bind (d p) (dec cd) = Some v"

definition holds_settings :: "'f codecs \<Rightarrow> 'f disk_env \<Rightarrow> settings_store \<Rightarrow> (string \<rightharpoonup> 'f) \<Rightarrow> ScannerConfig \<Rightarrow> bool" where
  "holds_settings cds env s d c \<longleftrightarrow>
     stored (cd_General cds) env (store_path s generalFile) d (General c)
   \<and> stored (cd_Writer cds) env (store_path s writerFile) d (Writer c)
   \<and> stored (cd_ICMP cds) env (store_path s icmpFile) d (ICMP c)
   \<and> stored (cd_TCP cds) env (store_path s tcpFile) d (TCP c)
   \<and> stored (cd_HTTP cds) env (store_path s httpFile) d (HTTP c)
   \<and> stored (cd_Xray cds) env (store_path s xrayFile) d (Xray c)
   \<and> stored (cd_DNS cds) env (store_path s dnsFile) d (DNS c)"

lemma path_neq [simp]:
  assumes "proper_dir (ss_dir s)" and "file_name a" and "file_name b"
  shows "store_path s a = store_path s b \<longleftrightarrow> a = b"
  using assms by (simp add: store_path_def Join_name)

lemma settings_names [simp]:
  "file_name generalFile" "file_name writerFile" "file_name icmpFile" "file_name tcpFile" "file_name httpFile"
  "file_name xrayFile" "file_name dnsFile"
  by (simp_all add: file_name_def file_defs)

lemma names_neq [simp]:
  "generalFile \<noteq> writerFile" "generalFile \<noteq> icmpFile" "generalFile \<noteq> tcpFile" "generalFile \<noteq> httpFile" "generalFile \<noteq> xrayFile"
  "generalFile \<noteq> dnsFile" "writerFile \<noteq> icmpFile" "writerFile \<noteq> tcpFile" "writerFile \<noteq> httpFile" "writerFile \<noteq> xrayFile"
  "writerFile \<noteq> dnsFile" "icmpFile \<noteq> tcpFile" "icmpFile \<noteq> httpFile" "icmpFile \<noteq> xrayFile" "icmpFile \<noteq> dnsFile"
  "tcpFile \<noteq> httpFile" "tcpFile \<noteq> xrayFile" "tcpFile \<noteq> dnsFile" "httpFile \<noteq> xrayFile" "httpFile \<noteq> dnsFile" "xrayFile \<noteq> dnsFile"
  by (simp_all add: file_defs)

lemma loadTOML_stored: "stored cd env p d v \<Longrightarrow> \<forall>def. loadTOML cd env p def d = (Inr v, d)"
  by (auto simp: stored_def loadTOML_def ReadTOMLFile_def bind_eq_Some_conv)

lemma loadTOML_Inr:
  assumes "loadTOML cd env p def d = (Inr v, d')" and "\<forall>x. dec cd (enc cd x) = Some x"
  shows "stored cd env p d' v" and "d \<subseteq>\<^sub>m d'"
  using assms by (auto simp: loadTOML_def ReadTOMLFile_def WriteTOMLFile_def stored_def map_le_def
      split: sum.splits option.splits if_splits toml_err.splits file_end.splits prod.splits bool.splits)

lemma stored_mono: "stored cd env p d v \<Longrightarrow> d \<subseteq>\<^sub>m d' \<Longrightarrow> stored cd env p d' v"
  by (auto simp: stored_def bind_eq_Some_conv map_le_def dom_def)

lemma and_then_Inr: "and_then r k = (Inr v, d') \<longleftrightarrow> (\<exists>x d. r = (Inr x, d) \<and> k x d = (Inr v, d'))"
  by (auto simp: and_then_def split: prod.splits sum.splits)

lemma Load_holds: "holds_settings cds env s d c \<Longrightarrow> store_Load cds env s pf tr d = (Inr c, d)"
  by (auto simp: holds_settings_def store_Load_def and_then_def dest!: loadTOML_stored)

lemma Load_Inr:
  assumes "codecs_ok cds" and "store_Load cds env s pf tr d = (Inr c, d')"
  shows "holds_settings cds env s d' c" and "d \<subseteq>\<^sub>m d'"
proof -
  note ok = assms(1) [unfolded codecs_ok_def]
  from assms(2) obtain g w i t h x n d1 d2 d3 d4 d5 d6 where
    l1: "loadTOML (cd_General cds) env (store_path s generalFile) (DefaultGeneralConfig pf tr) d = (Inr g, d1)" and
    l2: "loadTOML (cd_Writer cds) env (store_path s writerFile) (DefaultWriterConfig pf tr) d1 = (Inr w, d2)" and
    l3: "loadTOML (cd_ICMP cds) env (store_path s icmpFile) (DefaultICMPConfig pf tr) d2 = (Inr i, d3)" and
    l4: "loadTOML (cd_TCP cds) env (store_path s tcpFile) (DefaultTCPConfig pf tr) d3 = (Inr t, d4)" and
    l5: "loadTOML (cd_HTTP cds) env (store_path s httpFile) (DefaultHTTPConfig pf tr) d4 = (Inr h, d5)" and
    l6: "loadTOML (cd_Xray cds) env (store_path s xrayFile) (DefaultXrayConfig pf tr) d5 = (Inr x, d6)" and
    l7: "loadTOML (cd_DNS cds) env (store_path s dnsFile) (DefaultDNSConfig pf tr) d6 = (Inr n, d')" and
    c: "c = \<lparr>General = g, Writer = w, ICMP = i, TCP = t, HTTP = h, Xray = x, DNS = n\<rparr>"
    by (auto simp: store_Load_def and_then_Inr)
  have st: "stored (cd_General cds) env (store_path s generalFile) d1 g" "stored (cd_Writer cds) env (store_path s writerFile) d2 w"
    "stored (cd_ICMP cds) env (store_path s icmpFile) d3 i" "stored (cd_TCP cds) env (store_path s tcpFile) d4 t"
    "stored (cd_HTTP cds) env (store_path s httpFile) d5 h" "stored (cd_Xray cds) env (store_path s xrayFile) d6 x"
    "stored (cd_DNS cds) env (store_path s dnsFile) d' n"
    using loadTOML_Inr(1) [OF l1] loadTOML_Inr(1) [OF l2] loadTOML_Inr(1) [OF l3] loadTOML_Inr(1) [OF l4]
      loadTOML_Inr(1) [OF l5] loadTOML_Inr(1) [OF l6] loadTOML_Inr(1) [OF l7] ok by simp_all
  have le: "d \<subseteq>\<^sub>m d1" "d1 \<subseteq>\<^sub>m d2" "d2 \<subseteq>\<^sub>m d3" "d3 \<subseteq>\<^sub>m d4" "d4 \<subseteq>\<^sub>m d5" "d5 \<subseteq>\<^sub>m d6" "d6 \<subseteq>\<^sub>m d'"
    using loadTOML_Inr(2) [OF l1] loadTOML_Inr(2) [OF l2] loadTOML_Inr(2) [OF l3] loadTOML_Inr(2) [OF l4]
      loadTOML_Inr(2) [OF l5] loadTOML_Inr(2) [OF l6] loadTOML_Inr(2) [OF l7] ok by simp_all
  have le5: "d5 \<subseteq>\<^sub>m d'" using map_le_trans le(6,7) by blast
  have le4: "d4 \<subseteq>\<^sub>m d'" using map_le_trans le(5) le5 by blast
  have le3: "d3 \<subseteq>\<^sub>m d'" using map_le_trans le(4) le4 by blast
  have le2: "d2 \<subseteq>\<^sub>m d'" using map_le_trans le(3) le3 by blast
  have le1: "d1 \<subseteq>\<^sub>m d'" using map_le_trans le(2) le2 by blast
  show "d \<subseteq>\<^sub>m d'" using map_le_trans le(1) le1 by blast
  show "holds_settings cds env s d' c"
    unfolding holds_settings_def c
    using stored_mono [OF st(1) le1] stored_mono [OF st(2) le2] stored_mono [OF st(3) le3] stored_mono [OF st(4) le4]
      stored_mono [OF st(5) le5] stored_mono [OF st(6) le(7)] st(7) by simp
qed

lemma saveTOML_None: "saveTOML cd env p v d = (None, d') \<Longrightarrow> d' = d(p \<mapsto> enc cd v)"
  by (auto simp: saveTOML_def WriteTOMLFile_def split: file_end.splits)

lemma stored_upd:
  "stored cd env p (d(p \<mapsto> f)) v \<longleftrightarrow> \<not> de_unreadable env p \<and> dec cd f = Some v"
  "p \<noteq> q \<Longrightarrow> stored cd env p (d(q \<mapsto> f)) v = stored cd env p d v"
  by (simp_all add: stored_def)

definition op_file :: "save_op \<Rightarrow> string" where
  "op_file x = (case x of OpGeneral v \<Rightarrow> generalFile | OpWriter v \<Rightarrow> writerFile | OpICMP v \<Rightarrow> icmpFile | OpTCP v \<Rightarrow> tcpFile
     | OpHTTP v \<Rightarrow> httpFile | OpXray v \<Rightarrow> xrayFile | OpDNS v \<Rightarrow> dnsFile)"

definition op_content :: "'f codecs \<Rightarrow> save_op \<Rightarrow> 'f" where
  "op_content c x = (case x of OpGeneral v \<Rightarrow> enc (cd_General c) v | OpWriter v \<Rightarrow> enc (cd_Writer c) v
     | OpICMP v \<Rightarrow> enc (cd_ICMP c) v | OpTCP v \<Rightarrow> enc (cd_TCP c) v | OpHTTP v \<Rightarrow> enc (cd_HTTP c) v
     | OpXray v \<Rightarrow> enc (cd_Xray c) v | OpDNS v \<Rightarrow> enc (cd_DNS c) v)"

lemma save_op_None: "save_op_run cds env s x d = (None, d') \<Longrightarrow> d' = d(store_path s (op_file x) \<mapsto> op_content cds x)"
  by (cases x) (simp_all add: save_defs op_file_def op_content_def saveTOML_None)

lemma save_holds:
  assumes "codecs_ok cds" and dir: "proper_dir (ss_dir s)" and "holds_settings cds env s d c" and "save_op_run cds env s x d = (None, d')"
  shows "holds_settings cds env s d' (set_section x c)"
proof -
  note h = assms(3) [unfolded holds_settings_def] and other = stored_upd path_neq [OF dir] names_neq names_neq [symmetric]
  have r: "list_all (\<lambda>n. \<not> de_unreadable env (store_path s n)) [generalFile, writerFile, icmpFile, tcpFile, httpFile, xrayFile, dnsFile]"
    using h by (simp add: stored_def)
  show ?thesis
    unfolding save_op_None [OF assms(4)]
    using h r assms(1) by (cases x) (simp_all add: holds_settings_def op_file_def op_content_def codecs_ok_def other)
qed

lemma saves_hold:
  assumes "codecs_ok cds" and "proper_dir (ss_dir s)"
  shows "holds_settings cds env s d c \<Longrightarrow> saves_run cds env s xs d = (None, d') \<Longrightarrow>
    holds_settings cds env s d' (fold set_section xs c)"
  by (induction xs arbitrary: d c)
    (auto intro: save_holds [OF assms] split: prod.splits option.splits)

text \<open>The settings directory is a record: what Load returns, with the sections saved since put in their place, is what the
  next Load returns, whatever the defaults are then, and it writes nothing. Load changes no file that exists.\<close>
theorem settings_store_is_record:
  assumes "codecs_ok cds" and "proper_dir (ss_dir s)" and "store_Load cds env s pf tr d = (Inr c, d1)"
    and "saves_run cds env s xs d1 = (None, d2)"
  shows "store_Load cds env s pf' tr' d2 = (Inr (fold set_section xs c), d2) \<and> d \<subseteq>\<^sub>m d1"
  using Load_Inr [OF assms(1,3)] saves_hold [OF assms(1,2) _ assms(4)] Load_holds by blast

definition plain_codecs :: "save_op codecs" where
  "plain_codecs =
     \<lparr>cd_General = \<lparr>enc = OpGeneral, dec = (\<lambda>f. case f of OpGeneral v \<Rightarrow> Some v | _ \<Rightarrow> None)\<rparr>,
      cd_Writer = \<lparr>enc = OpWriter, dec = (\<lambda>f. case f of OpWriter v \<Rightarrow> Some v | _ \<Rightarrow> None)\<rparr>,
      cd_ICMP = \<lparr>enc = OpICMP, dec = (\<lambda>f. case f of OpICMP v \<Rightarrow> Some v | _ \<Rightarrow> None)\<rparr>,
      cd_TCP = \<lparr>enc = OpTCP, dec = (\<lambda>f. case f of OpTCP v \<Rightarrow> Some v | _ \<Rightarrow> None)\<rparr>,
      cd_HTTP = \<lparr>enc = OpHTTP, dec = (\<lambda>f. case f of OpHTTP v \<Rightarrow> Some v | _ \<Rightarrow> None)\<rparr>,
      cd_Xray = \<lparr>enc = OpXray, dec = (\<lambda>f. case f of OpXray v \<Rightarrow> Some v | _ \<Rightarrow> None)\<rparr>,
      cd_DNS = \<lparr>enc = OpDNS, dec = (\<lambda>f. case f of OpDNS v \<Rightarrow> Some v | _ \<Rightarrow> None)\<rparr>\<rparr>"

definition good_disk :: "save_op disk_env" where
  "good_disk = \<lparr>de_unreadable = (\<lambda>p. False), de_write = (\<lambda>p. Written)\<rparr>"

definition demo_store :: settings_store where
  "demo_store = NewStore (Some ''/opt/bgscan'') []"

definition default_settings :: "platform \<Rightarrow> tier \<Rightarrow> ScannerConfig" where
  "default_settings pf tr =
     \<lparr>General = DefaultGeneralConfig pf tr, Writer = DefaultWriterConfig pf tr, ICMP = DefaultICMPConfig pf tr,
      TCP = DefaultTCPConfig pf tr, HTTP = DefaultHTTPConfig pf tr, Xray = DefaultXrayConfig pf tr, DNS = DefaultDNSConfig pf tr\<rparr>"

lemma plain_codecs_ok: "codecs_ok plain_codecs"
  by (simp add: codecs_ok_def plain_codecs_def)

lemma demo_store_dir: "proper_dir (ss_dir demo_store)"
  by code_simp

text \<open>The first start creates every file with its default.\<close>

lemma first_Load:
  "fst (store_Load plain_codecs good_disk demo_store pf tr Map.empty) = Inr (default_settings pf tr)"
  by (simp add: store_Load_def and_then_def loadTOML_def ReadTOMLFile_def WriteTOMLFile_def good_disk_def default_settings_def
      demo_store_dir names_neq [symmetric])

lemma settings_store_is_record_witness:
  "let d1 = snd (store_Load plain_codecs good_disk demo_store Desktop Low Map.empty);
       tcp = (DefaultTCPConfig Desktop Low)\<lparr>TcpPort := 8443\<rparr>; d2 = snd (saves_run plain_codecs good_disk demo_store [OpTCP tcp] d1)
   in store_Load plain_codecs good_disk demo_store Server High d2 = (Inr ((default_settings Desktop Low)\<lparr>TCP := tcp\<rparr>), d2)"
proof -
  let ?d1 = "snd (store_Load plain_codecs good_disk demo_store Desktop Low Map.empty)"
  let ?tcp = "(DefaultTCPConfig Desktop Low)\<lparr>TcpPort := 8443\<rparr>"
  let ?r = "saves_run plain_codecs good_disk demo_store [OpTCP ?tcp] ?d1"
  have l: "store_Load plain_codecs good_disk demo_store Desktop Low Map.empty = (Inr (default_settings Desktop Low), ?d1)"
    by (simp add: first_Load prod_eq_iff)
  have "fst ?r = None"
    by (simp add: save_defs saveTOML_def WriteTOMLFile_def good_disk_def split: prod.split)
  then have "?r = (None, snd ?r)" by (simp add: prod_eq_iff)
  from settings_store_is_record [OF plain_codecs_ok demo_store_dir l this, of Server High] show ?thesis
    by (simp add: Let_def del: saves_run.simps)
qed

end
