(* ===== verification/Startup.thy ===== *)
theory Startup
  imports SettingsStore KeyDefaults Transitions
begin

text \<open>
  The checks before the workspace opens (\<open>internal/ui/main/startup\<close>): what each check reports, the goroutine that runs them
  and sends its messages through a channel, and the screen that receives them one at a time. What the checks ask other
  components (\<open>core.Init\<close>, the store of settings, the Xray core, the tunnel services) is a parameter, with the texts of
  errors and warnings; styles, the viewport and the help are left out.
\<close>

subsection \<open>Categories and reports\<close>

datatype categoryStatus = catRunning | catWait | catOK | catWarn | catError

fun status_rank :: "categoryStatus \<Rightarrow> nat" where
  "status_rank catRunning = 0" | "status_rank catWait = 1" | "status_rank catOK = 2" | "status_rank catWarn = 3"
| "status_rank catError = 4"

fun statusLabel :: "categoryStatus \<Rightarrow> string" where
  "statusLabel catRunning = ''[INFO]''" | "statusLabel catWait = ''[WAIT]''" | "statusLabel catOK = ''[SUCCESS]''"
| "statusLabel catWarn = ''[WARN]''" | "statusLabel catError = ''[ERROR]''"

record category =
  ct_id :: string
  ct_label :: string
  ct_status :: categoryStatus
  ct_started :: bool
  ct_lines :: "string list"

text \<open>The messages of the screen: those of the checks, of the program, and of the user.\<close>

datatype startup_msg =
    categoryStartMsg string | categoryEndMsg string categoryStatus | logMsg string categoryStatus string bool
  | allChecksDoneMsg | configLoadedMsg ScannerConfig | startupKey string | startupTick | startupOther

text \<open>A reporter with what it has sent; \<open>rp_abort\<close> is the flag that ends the run.\<close>

record reporter =
  rp_category :: string
  rp_sent :: "startup_msg list"
  rp_status :: categoryStatus
  rp_abort :: bool

definition newReporter :: "string \<Rightarrow> reporter" where
  "newReporter c = \<lparr>rp_category = c, rp_sent = [], rp_status = catRunning, rp_abort = False\<rparr>"

definition report :: "categoryStatus \<Rightarrow> string \<Rightarrow> reporter \<Rightarrow> reporter" where
  "report status line r =
     r\<lparr>rp_sent := rp_sent r @ [logMsg (rp_category r) status line False],
       rp_status := if status \<noteq> catRunning \<or> rp_status r = catRunning then status else rp_status r\<rparr>"

abbreviation "rp_info \<equiv> report catRunning"
abbreviation "rp_success \<equiv> report catOK"
abbreviation "rp_warn \<equiv> report catWarn"

definition formatError :: "string \<Rightarrow> string option \<Rightarrow> string" where
  "formatError m e = (case e of None \<Rightarrow> m | Some t \<Rightarrow> m @ '': '' @ t)"

definition errMsg :: "string \<Rightarrow> string option \<Rightarrow> reporter \<Rightarrow> reporter" where
  "errMsg m e = report catError (formatError m e)"

definition binaryMissing :: "string \<Rightarrow> string \<Rightarrow> reporter \<Rightarrow> reporter" where
  "binaryMissing part binary = errMsg (part @ '' binary '' @ [CHR 0x22] @ binary @ [CHR 0x22] @ '' not found'') None"

definition rp_critical :: "string \<Rightarrow> string option \<Rightarrow> reporter \<Rightarrow> reporter" where
  "rp_critical m e r =
     r\<lparr>rp_abort := True, rp_status := catError,
       rp_sent := rp_sent r @ [logMsg (rp_category r) catError (formatError m e) True]\<rparr>"

subsection \<open>The checks\<close>

text \<open>Errors are their texts; \<open>h_valid\<close> gives, by the label of a protocol, the files with problems and their errors.\<close>

record health =
  h_init :: "string option"
  h_load :: "string + ScannerConfig"
  h_normalize :: "ScannerConfig \<Rightarrow> ScannerConfig \<times> AllWarnings"
  h_warning :: "warning \<Rightarrow> string"
  h_version :: string
  h_outbounds :: "string + string list"
  h_outbound :: "string \<Rightarrow> string option"
  h_valid :: "string \<Rightarrow> string + (string \<times> (string \<times> string) list) list"
  h_library :: "string + string"
  h_verified :: "string + string"
  h_service :: "string option"
  h_feed :: string

definition checkLoggerHealth :: "health \<Rightarrow> reporter \<Rightarrow> reporter" where
  "checkLoggerHealth h r =
     (let r = rp_info ''Registering probe schemas...'' (rp_success ''Loggers ready (core/ui)'' (rp_info ''Verifying loggers...'' r))
      in case h_init h of
           Some e \<Rightarrow> errMsg ''Probe schema registration failed'' (Some e) r
         | None \<Rightarrow> rp_success ''Health check completed successfully'' (rp_success ''Probe schemas registered'' r))"

definition printSectionWarnings :: "health \<Rightarrow> string \<Rightarrow> warning list \<Rightarrow> reporter \<Rightarrow> reporter" where
  "printSectionWarnings h section = fold (\<lambda>w. rp_warn (''  ['' @ section @ ''] '' @ h_warning h w))"

definition checkConfigHealth :: "health \<Rightarrow> reporter \<Rightarrow> reporter \<times> ScannerConfig option" where
  "checkConfigHealth h r =
     (case h_load h of
        Inl e \<Rightarrow> (rp_critical ''Configuration failed to load'' (Some e) r, None)
      | Inr cfg \<Rightarrow>
          let r = rp_info ''Validating configuration values...''
                    (rp_success ''Config files loaded'' (rp_info ''Initializing configuration system...'' r))
          in case h_normalize h cfg of
               (cfg, w) \<Rightarrow>
                 if \<not> HasWarnings w then (rp_success ''All values are valid'' r, Some cfg)
                 else (rp_warn (''Completed with corrections '' @ [CHR 0xE2, CHR 0x9A, CHR 0xA0])
                        (printSectionWarnings h ''DNS'' (WDNS w) (printSectionWarnings h ''Xray'' (WXray w)
                        (printSectionWarnings h ''HTTP'' (WHTTP w) (printSectionWarnings h ''TCP'' (WTCP w)
                        (printSectionWarnings h ''ICMP'' (WICMP w) (printSectionWarnings h ''Writer'' (WWriter w)
                        (printSectionWarnings h ''General'' (WGeneral w)
                        (rp_warn ''Some values were invalid and have been reset to defaults:'' r)))))))), Some cfg))"

definition checkXrayHealth :: "health \<Rightarrow> reporter \<Rightarrow> reporter" where
  "checkXrayHealth h r =
     (let r = rp_info ''Checking Xray core version...'' (rp_info ''Checking embedded Xray core...'' r)
      in if h_version h = [] then errMsg ''Failed to retrieve Xray version'' (Some ''empty version string'') r
         else let r = rp_info ''Searching for configuration templates...'' (rp_success (''Xray core version: '' @ h_version h) r)
         in case h_outbounds h of
              Inl e \<Rightarrow> errMsg ''Failed to retrieve outbounds'' (Some e) r
            | Inr names \<Rightarrow>
                rp_success ''Health check completed successfully''
                  (fold (\<lambda>n r. let r = rp_info (''Validating outbound: '' @ n) r
                              in case h_outbound h n of
                                   Some e \<Rightarrow> errMsg (''Outbound validation failed: '' @ n) (Some e) r
                                 | None \<Rightarrow> rp_success (n @ '' OK'') r)
                    names (rp_info (''Found '' @ show_nat (length names) @ '' outbound templates.'') r)))"

definition printConfigValidationResults ::
    "string \<Rightarrow> (string \<times> (string \<times> string) list) list \<Rightarrow> reporter \<Rightarrow> reporter" where
  "printConfigValidationResults label results r =
     (if results = [] then rp_success (''All '' @ label @ '' config files are valid'') r
      else fold (\<lambda>(name, errs) r.
             if errs = [] then rp_warn (''  ['' @ name @ ''] failed to load (no further detail available)'') r
             else fold (\<lambda>(field, e). rp_warn (''  ['' @ name @ ''] '' @ field @ '': '' @ e)) errs r)
           results (rp_warn (show_nat (length results) @ '' '' @ label @ '' config file(s) have problems:'') r))"

definition checkDNSClientHealth :: "health \<Rightarrow> string \<Rightarrow> reporter \<Rightarrow> reporter" where
  "checkDNSClientHealth h label r =
     (let r = rp_info (''Validating '' @ label @ '' config files...'') (rp_info (''Checking '' @ label @ '' client...'') r)
      in case h_valid h label of
           Inl e \<Rightarrow> errMsg (''Failed to validate '' @ label @ '' configs'') (Some e) r
         | Inr results \<Rightarrow> rp_success ''Health check completed successfully'' (printConfigValidationResults label results r))"

definition checkTheFeedHealth :: "health \<Rightarrow> reporter \<Rightarrow> reporter" where
  "checkTheFeedHealth h r =
     checkDNSClientHealth h ''TheFeed'' (rp_success (''TheFeed library verified (version '' @ h_feed h @ '')'') r)"

definition checkSlipstreamHealth :: "health \<Rightarrow> reporter \<Rightarrow> reporter" where
  "checkSlipstreamHealth h r =
     (let r = rp_info ''Finding Slipstream library...'' r
      in case h_library h of
           Inl e \<Rightarrow> errMsg ''Library lookup error'' (Some e) (binaryMissing ''Slipstream'' ''libslipstream-client'' r)
         | Inr path \<Rightarrow>
             let r = rp_info ''Verifying Slipstream library...'' (rp_success (''Slipstream found at: '' @ path) r)
             in case h_verified h of
                  Inl e \<Rightarrow> errMsg ''Slipstream library validation failed'' (Some e) r
                | Inr version \<Rightarrow>
                    let r = rp_info ''Validating Slipstream config files...''
                              (rp_success (''Slipstream library verified (version '' @ version @ '')'') r)
                    in case h_service h of
                         Some e \<Rightarrow> errMsg ''Failed to create Slipstream service'' (Some e) r
                       | None \<Rightarrow>
                           (case h_valid h ''Slipstream'' of
                              Inl e \<Rightarrow> errMsg ''Failed to validate Slipstream configs'' (Some e) r
                            | Inr results \<Rightarrow>
                                rp_success ''Health check completed successfully''
                                  (printConfigValidationResults ''Slipstream'' results r)))"

definition checkAppHealth :: "reporter \<Rightarrow> reporter" where
  "checkAppHealth = report catWait ''Press Enter to continue...''"

subsection \<open>The goroutine\<close>

datatype check_act = ToChan startup_msg | ToProgram startup_msg

text \<open>One check: what the goroutine does, and whether it goes on.\<close>

definition runCheck :: "string \<Rightarrow> (reporter \<Rightarrow> reporter) \<Rightarrow> check_act list \<times> bool" where
  "runCheck c f =
     (let r = f (newReporter c); acts = map ToChan (categoryStartMsg c # rp_sent r)
      in if rp_abort r then (acts, False) else (acts @ [ToChan (categoryEndMsg c (rp_status r))], True))"

definition runConfigCheck :: "health \<Rightarrow> check_act list \<times> bool" where
  "runConfigCheck h =
     (case checkConfigHealth h (newReporter ''config'') of
        (r, cfg) \<Rightarrow>
          let acts = map ToChan (categoryStartMsg ''config'' # rp_sent r)
          in if rp_abort r then (acts, False)
             else (acts @ (case cfg of None \<Rightarrow> [] | Some c \<Rightarrow> [ToProgram (configLoadedMsg c)])
                     @ [ToChan (categoryEndMsg ''config'' (rp_status r))], True))"

fun run_until_abort :: "(check_act list \<times> bool) list \<Rightarrow> check_act list" where
  "run_until_abort [] = []"
| "run_until_abort ((acts, go_on) # cs) = acts @ (if go_on then run_until_abort cs else [])"

definition runChecks :: "health \<Rightarrow> check_act list" where
  "runChecks h =
     run_until_abort
       [runCheck ''logger'' (checkLoggerHealth h), runConfigCheck h, runCheck ''xray'' (checkXrayHealth h),
        runCheck ''dnstt'' (checkDNSClientHealth h ''DNSTT''), runCheck ''slipstream'' (checkSlipstreamHealth h),
        runCheck ''vaydns'' (checkDNSClientHealth h ''VayDNS''), runCheck ''masterdns'' (checkDNSClientHealth h ''MasterDNS''),
        runCheck ''stormdns'' (checkDNSClientHealth h ''StormDNS''), runCheck ''thefeed'' (checkTheFeedHealth h),
        runCheck ''app'' checkAppHealth]"

subsection \<open>The screen\<close>

record startup_model =
  su_categories :: "category list"
  su_checked :: bool
  su_once :: bool
  su_fatal :: "(string \<times> string) option"
  su_config :: "ScannerConfig option"

definition category_names :: "(string \<times> string) list" where
  "category_names =
     [(''logger'', ''Logger''), (''config'', ''Config''), (''xray'', ''Xray''), (''dnstt'', ''DNSTT''), (''slipstream'', ''Slipstream''),
      (''vaydns'', ''Vaydns''), (''masterdns'', ''MasterDNS''), (''stormdns'', ''StormDNS''), (''thefeed'', ''TheFeed''), (''app'', ''App'')]"

definition new_startup :: startup_model where
  "new_startup =
     \<lparr>su_categories = map (\<lambda>(i, l). \<lparr>ct_id = i, ct_label = l, ct_status = catRunning, ct_started = False, ct_lines = []\<rparr>) category_names,
      su_checked = False, su_once = False, su_fatal = None, su_config = None\<rparr>"

text \<open>The loops that change the first category of an identity.\<close>

fun upd_first :: "('a \<Rightarrow> bool) \<Rightarrow> ('a \<Rightarrow> 'a) \<Rightarrow> 'a list \<Rightarrow> 'a list" where
  "upd_first P f [] = []"
| "upd_first P f (x # xs) = (if P x then f x # xs else x # upd_first P f xs)"

definition startCategory :: "string \<Rightarrow> category list \<Rightarrow> category list" where
  "startCategory c = upd_first (\<lambda>x. ct_id x = c) (\<lambda>x. x\<lparr>ct_started := True, ct_status := catRunning\<rparr>)"

definition endCategory :: "string \<Rightarrow> categoryStatus \<Rightarrow> category list \<Rightarrow> category list" where
  "endCategory c st = upd_first (\<lambda>x. ct_id x = c) (\<lambda>x. x\<lparr>ct_status := st\<rparr>)"

definition appendLine :: "string \<Rightarrow> categoryStatus \<Rightarrow> string \<Rightarrow> category list \<Rightarrow> category list" where
  "appendLine c st line = upd_first (\<lambda>x. ct_id x = c) (\<lambda>x. x\<lparr>ct_lines := ct_lines x @ [statusLabel st @ '' '' @ line]\<rparr>)"

definition categoryLabel :: "string \<Rightarrow> category list \<Rightarrow> string" where
  "categoryLabel c cats = (case find (\<lambda>x. ct_id x = c) cats of None \<Rightarrow> c | Some x \<Rightarrow> ct_label x)"

definition overallStatus :: "category list \<Rightarrow> categoryStatus" where
  "overallStatus cats =
     (let worst = fold (\<lambda>c w. if status_rank w < status_rank (ct_status c) then ct_status c else w) cats catOK
      in if list_ex (\<lambda>c. ct_status c = catRunning) cats \<and> worst = catOK then catRunning else worst)"

definition completedCount :: "category list \<Rightarrow> nat" where
  "completedCount cats = length (filter (\<lambda>c. ct_status c \<noteq> catRunning) cats)"

definition progressTarget :: "category list \<Rightarrow> rat" where
  "progressTarget cats = (if cats = [] then 1 else of_nat (completedCount cats) / of_nat (length cats))"

datatype startup_cmd = ListenForLogs | SetPercent rat | QuitProgram | AskToExit | StartupChecksDone | SpinnerTick | ViewportHelp

definition startup_Update :: "Keys \<Rightarrow> startup_msg \<Rightarrow> startup_model \<Rightarrow> startup_model \<times> startup_cmd list" where
  "startup_Update ks msg m =
     (case msg of
        categoryStartMsg c \<Rightarrow> (m\<lparr>su_categories := startCategory c (su_categories m)\<rparr>, [ListenForLogs])
      | categoryEndMsg c st \<Rightarrow>
          let m1 = m\<lparr>su_categories := endCategory c st (su_categories m)\<rparr>
          in (m1, [ListenForLogs, SetPercent (progressTarget (su_categories m1))])
      | logMsg c st line critical \<Rightarrow>
          let m1 = m\<lparr>su_categories := appendLine c st line (su_categories m)\<rparr>
          in if critical then (m1\<lparr>su_fatal := Some (categoryLabel c (su_categories m1), line)\<rparr>, []) else (m1, [ListenForLogs])
      | configLoadedMsg cfg \<Rightarrow> (m\<lparr>su_config := Some cfg\<rparr>, [])
      | allChecksDoneMsg \<Rightarrow> (m\<lparr>su_checked := True\<rparr>, [SetPercent (progressTarget (su_categories m))])
      | startupTick \<Rightarrow> (m, if su_checked m \<or> su_fatal m \<noteq> None then [] else [SpinnerTick])
      | startupKey k \<Rightarrow>
          if su_fatal m \<noteq> None then (m, [QuitProgram])
          else if Matches (global_Quit (k_Global ks)) k then (m, [AskToExit])
          else if Matches (nav_Up (k_Nav ks)) k \<or> Matches (nav_Down (k_Nav ks)) k then (m, [])
          else if Matches (notice_Continue (k_Notice ks)) k \<and> su_checked m then (m, [StartupChecksDone])
          else (m, [ViewportHelp])
      | startupOther \<Rightarrow> (m, [ViewportHelp]))"

text \<open>\<open>Init\<close> starts the goroutine and the listener on its first call.\<close>

definition startup_Init :: "startup_model \<Rightarrow> startup_model \<times> startup_cmd list \<times> bool" where
  "startup_Init m = (if su_once m then (m, [], False) else (m\<lparr>su_once := True\<rparr>, [ListenForLogs, SpinnerTick], True))"

subsection \<open>The checks, the channel and the screen together\<close>

datatype listener = Idle | Waiting | Holding startup_msg

record startup_sys =
  sy_todo :: "check_act list"
  sy_chan :: "startup_msg list"
  sy_closed :: bool
  sy_listener :: listener
  sy_ui :: startup_model
  sy_cmds :: "startup_cmd list"

definition chan_cap :: nat where "chan_cap = 64"

definition startup_sys_init :: "health \<Rightarrow> startup_sys" where
  "startup_sys_init h =
     (case startup_Init new_startup of
        (m, cmds, go) \<Rightarrow>
          \<lparr>sy_todo = (if go then runChecks h else []), sy_chan = [], sy_closed = False,
           sy_listener = (if ListenForLogs \<in> set cmds then Waiting else Idle), sy_ui = m, sy_cmds = cmds\<rparr>)"

definition handle :: "Keys \<Rightarrow> startup_msg \<Rightarrow> startup_sys \<Rightarrow> startup_sys" where
  "handle ks msg s =
     (case startup_Update ks msg (sy_ui s) of
        (m, cmds) \<Rightarrow>
          s\<lparr>sy_ui := m, sy_cmds := sy_cmds s @ cmds,
            sy_listener := if ListenForLogs \<in> set cmds then Waiting else sy_listener s\<rparr>)"

text \<open>The steps that need no user: the goroutine sends, hands a message to the program, or closes the channel; the listener
  takes a message and the program handles it.\<close>

inductive check_step :: "Keys \<Rightarrow> startup_sys \<Rightarrow> startup_sys \<Rightarrow> bool" for ks :: Keys where
  step_send: "sy_todo s = ToChan msg # acts \<Longrightarrow> length (sy_chan s) < chan_cap \<Longrightarrow>
    check_step ks s (s\<lparr>sy_todo := acts, sy_chan := sy_chan s @ [msg]\<rparr>)"
| step_program: "sy_todo s = ToProgram msg # acts \<Longrightarrow> check_step ks s (handle ks msg (s\<lparr>sy_todo := acts\<rparr>))"
| step_close: "sy_todo s = [] \<Longrightarrow> \<not> sy_closed s \<Longrightarrow> check_step ks s (s\<lparr>sy_closed := True\<rparr>)"
| step_take: "sy_listener s = Waiting \<Longrightarrow> sy_chan s = msg # rest \<Longrightarrow>
    check_step ks s (s\<lparr>sy_chan := rest, sy_listener := Holding msg\<rparr>)"
| step_end: "sy_listener s = Waiting \<Longrightarrow> sy_chan s = [] \<Longrightarrow> sy_closed s \<Longrightarrow>
    check_step ks s (s\<lparr>sy_listener := Holding allChecksDoneMsg\<rparr>)"
| step_deliver: "sy_listener s = Holding msg \<Longrightarrow> check_step ks s (handle ks msg (s\<lparr>sy_listener := Idle\<rparr>))"

text \<open>And the user, and the clock of the spinner, at any time; a second \<open>Init\<close> as well.\<close>

inductive startup_step :: "Keys \<Rightarrow> startup_sys \<Rightarrow> startup_sys \<Rightarrow> bool" for ks :: Keys where
  of_check: "check_step ks s t \<Longrightarrow> startup_step ks s t"
| of_user: "msg \<in> {startupKey k, startupTick, startupOther} \<Longrightarrow> startup_step ks s (handle ks msg s)"
| init_again: "startup_Init (sy_ui s) = (m, [], False) \<Longrightarrow> startup_step ks s (s\<lparr>sy_ui := m\<rparr>)"

subsection \<open>What a check sends\<close>

definition is_critical :: "startup_msg \<Rightarrow> bool" where
  "is_critical m \<longleftrightarrow> (case m of logMsg c st line critical \<Rightarrow> critical | _ \<Rightarrow> False)"

text \<open>A reporter of category \<open>c\<close> that has sent only lines of \<open>c\<close>, none of them critical.\<close>

definition calm :: "string \<Rightarrow> reporter \<Rightarrow> bool" where
  "calm c r \<longleftrightarrow> rp_category r = c \<and> \<not> rp_abort r \<and> (\<forall>m \<in> set (rp_sent r). \<exists>st line. m = logMsg c st line False)"

lemma calm_new [simp]: "calm c (newReporter c)"
  by (simp add: calm_def newReporter_def)

lemma calm_report [simp]: "calm c r \<Longrightarrow> calm c (report st line r)" "calm c r \<Longrightarrow> calm c (errMsg line e r)"
  "calm c r \<Longrightarrow> calm c (binaryMissing a b r)"
  by (auto simp: calm_def report_def errMsg_def binaryMissing_def)

lemma calm_fold: "(\<And>x r. calm c r \<Longrightarrow> calm c (f x r)) \<Longrightarrow> calm c r \<Longrightarrow> calm c (fold f xs r)"
  by (induction xs arbitrary: r) simp_all

lemma calm_checks [simp]:
  "calm c r \<Longrightarrow> calm c (checkLoggerHealth h r)" "calm c r \<Longrightarrow> calm c (printSectionWarnings h sec ws r)"
  "calm c r \<Longrightarrow> calm c (checkXrayHealth h r)" "calm c r \<Longrightarrow> calm c (printConfigValidationResults label results r)"
  "calm c r \<Longrightarrow> calm c (checkAppHealth r)"
  by (auto simp: checkLoggerHealth_def printSectionWarnings_def checkXrayHealth_def printConfigValidationResults_def
      checkAppHealth_def Let_def split: option.split sum.split prod.split intro!: calm_fold calm_report)

lemma calm_dns_checks [simp]:
  "calm c r \<Longrightarrow> calm c (checkDNSClientHealth h label r)" "calm c r \<Longrightarrow> calm c (checkSlipstreamHealth h r)"
  by (auto simp: checkDNSClientHealth_def checkSlipstreamHealth_def Let_def split: option.split sum.split)

lemma calm_feed [simp]: "calm c r \<Longrightarrow> calm c (checkTheFeedHealth h r)"
  by (simp add: checkTheFeedHealth_def)

lemma calm_config:
  "h_load h = Inr cfg \<Longrightarrow> calm c r \<Longrightarrow> calm c (fst (checkConfigHealth h r))"
  "h_load h = Inr cfg \<Longrightarrow> snd (checkConfigHealth h r) = Some (fst (h_normalize h cfg))"
  by (simp_all add: checkConfigHealth_def Let_def split: prod.split)

text \<open>The reporter of each category when all checks have run.\<close>

definition check_result :: "health \<Rightarrow> string \<Rightarrow> reporter" where
  "check_result h c =
     (if c = ''logger'' then checkLoggerHealth h else if c = ''config'' then (\<lambda>r. fst (checkConfigHealth h r))
      else if c = ''xray'' then checkXrayHealth h else if c = ''dnstt'' then checkDNSClientHealth h ''DNSTT''
      else if c = ''slipstream'' then checkSlipstreamHealth h else if c = ''vaydns'' then checkDNSClientHealth h ''VayDNS''
      else if c = ''masterdns'' then checkDNSClientHealth h ''MasterDNS'' else if c = ''stormdns'' then checkDNSClientHealth h ''StormDNS''
      else if c = ''thefeed'' then checkTheFeedHealth h else checkAppHealth) (newReporter c)"

lemma calm_result: "h_load h = Inr cfg \<Longrightarrow> calm c (check_result h c)"
  by (simp add: check_result_def calm_config)

definition chan_msgs :: "check_act list \<Rightarrow> startup_msg list" where
  "chan_msgs acts = List.map_filter (\<lambda>a. case a of ToChan m \<Rightarrow> Some m | ToProgram m \<Rightarrow> None) acts"

definition prog_msgs :: "check_act list \<Rightarrow> startup_msg list" where
  "prog_msgs acts = List.map_filter (\<lambda>a. case a of ToChan m \<Rightarrow> None | ToProgram m \<Rightarrow> Some m) acts"

lemma msgs_simps [simp]:
  "chan_msgs [] = []" "chan_msgs (ToChan m # acts) = m # chan_msgs acts" "chan_msgs (ToProgram m # acts) = chan_msgs acts"
  "prog_msgs [] = []" "prog_msgs (ToChan m # acts) = prog_msgs acts" "prog_msgs (ToProgram m # acts) = m # prog_msgs acts"
  "chan_msgs (acts @ bs) = chan_msgs acts @ chan_msgs bs" "prog_msgs (acts @ bs) = prog_msgs acts @ prog_msgs bs"
  "chan_msgs (map ToChan ms) = ms" "prog_msgs (map ToChan ms) = []"
  by (simp_all add: chan_msgs_def prog_msgs_def map_filter_simps map_filter_def comp_def)

definition check_msgs :: "health \<Rightarrow> string \<Rightarrow> startup_msg list" where
  "check_msgs h c = categoryStartMsg c # rp_sent (check_result h c) @ [categoryEndMsg c (rp_status (check_result h c))]"

lemma runChecks_ok:
  assumes "h_load h = Inr cfg"
  shows "chan_msgs (runChecks h) = concat (map (\<lambda>(c, l). check_msgs h c) category_names)"
    and "prog_msgs (runChecks h) = [configLoadedMsg (fst (h_normalize h cfg))]"
proof -
  have run: "runCheck c f = (map ToChan (check_msgs h c), True)" if "check_result h c = f (newReporter c)" for c f
    using calm_result [OF assms, of c] that by (simp add: runCheck_def check_msgs_def calm_def Let_def)
  have conf: "runConfigCheck h =
      (map ToChan (categoryStartMsg ''config'' # rp_sent (check_result h ''config''))
        @ [ToProgram (configLoadedMsg (fst (h_normalize h cfg))), ToChan (categoryEndMsg ''config'' (rp_status (check_result h ''config'')))], True)"
    using calm_result [OF assms, of "''config''"] calm_config(2) [OF assms, of "newReporter ''config''"]
    by (cases "checkConfigHealth h (newReporter ''config'')") (simp add: runConfigCheck_def check_result_def calm_def Let_def)
  have "runChecks h =
      map ToChan (check_msgs h ''logger'') @ fst (runConfigCheck h) @ map ToChan (check_msgs h ''xray'') @ map ToChan (check_msgs h ''dnstt'')
      @ map ToChan (check_msgs h ''slipstream'') @ map ToChan (check_msgs h ''vaydns'') @ map ToChan (check_msgs h ''masterdns'')
      @ map ToChan (check_msgs h ''stormdns'') @ map ToChan (check_msgs h ''thefeed'') @ map ToChan (check_msgs h ''app'')"
    unfolding runChecks_def conf by (simp add: run check_result_def)
  then show "chan_msgs (runChecks h) = concat (map (\<lambda>(c, l). check_msgs h c) category_names)"
    and "prog_msgs (runChecks h) = [configLoadedMsg (fst (h_normalize h cfg))]"
    by (simp_all add: conf category_names_def check_msgs_def [of h "''config''"])
qed

lemma runChecks_failed:
  assumes "h_load h = Inl e"
  shows "\<exists>m \<in> set (chan_msgs (runChecks h)). is_critical m" and "prog_msgs (runChecks h) = []"
proof -
  have run: "runCheck ''logger'' (checkLoggerHealth h) =
      (map ToChan (categoryStartMsg ''logger'' # rp_sent (checkLoggerHealth h (newReporter ''logger''))
         @ [categoryEndMsg ''logger'' (rp_status (checkLoggerHealth h (newReporter ''logger'')))]), True)"
    using calm_checks(1) [OF calm_new, of "''logger''" h] by (simp add: runCheck_def calm_def Let_def)
  have conf: "runConfigCheck h = (map ToChan (categoryStartMsg ''config'' # [logMsg ''config'' catError (''Configuration failed to load'' @ '': '' @ e) True]), False)"
    by (simp add: runConfigCheck_def checkConfigHealth_def assms rp_critical_def newReporter_def formatError_def Let_def)
  show "\<exists>m \<in> set (chan_msgs (runChecks h)). is_critical m" "prog_msgs (runChecks h) = []"
    unfolding runChecks_def run conf by (simp_all add: is_critical_def del: map_append list.map)
qed

subsection \<open>What the screen makes of it\<close>

definition cat_update :: "startup_msg \<Rightarrow> category list \<Rightarrow> category list" where
  "cat_update msg cats =
     (case msg of categoryStartMsg c \<Rightarrow> startCategory c cats | categoryEndMsg c st \<Rightarrow> endCategory c st cats
        | logMsg c st line critical \<Rightarrow> appendLine c st line cats | _ \<Rightarrow> cats)"

definition line_of :: "startup_msg \<Rightarrow> string" where
  "line_of m = (case m of logMsg c st line critical \<Rightarrow> statusLabel st @ '' '' @ line | _ \<Rightarrow> [])"

lemma upd_first_twice: "(\<And>x. P x \<Longrightarrow> P (f x)) \<Longrightarrow> upd_first P g (upd_first P f xs) = upd_first P (g \<circ> f) xs"
  by (induction xs) auto

lemma upd_first_cong: "(\<And>x. P x \<Longrightarrow> f x = g x) \<Longrightarrow> upd_first P f xs = upd_first P g xs"
  by (induction xs) auto

lemma lines_appended:
  assumes "\<forall>m \<in> set ms. \<exists>st line. m = logMsg c st line False"
  shows "fold cat_update ms cats = upd_first (\<lambda>x. ct_id x = c) (\<lambda>x. x\<lparr>ct_lines := ct_lines x @ map line_of ms\<rparr>) cats"
  using assms
proof (induction ms arbitrary: cats)
  case Nil
  have "upd_first P (\<lambda>x. x) xs = xs" for P and xs :: "category list" by (induction xs) auto
  then show ?case by simp
next
  case (Cons m ms)
  then obtain st line where "m = logMsg c st line False" by auto
  with Cons show ?case
    by (auto simp: cat_update_def appendLine_def upd_first_twice line_of_def intro: upd_first_cong)
qed

definition finished :: "health \<Rightarrow> string \<Rightarrow> category \<Rightarrow> category" where
  "finished h c x =
     x\<lparr>ct_started := True, ct_status := rp_status (check_result h c), ct_lines := ct_lines x @ map line_of (rp_sent (check_result h c))\<rparr>"

lemma check_shown:
  assumes "calm c (check_result h c)"
  shows "fold cat_update (check_msgs h c) cats = upd_first (\<lambda>x. ct_id x = c) (finished h c) cats"
proof -
  have "\<forall>m \<in> set (rp_sent (check_result h c)). \<exists>st line. m = logMsg c st line False" using assms by (simp add: calm_def)
  from lines_appended [OF this] show ?thesis
    by (simp add: check_msgs_def cat_update_def startCategory_def endCategory_def upd_first_twice)
      (auto simp: finished_def intro: upd_first_cong)
qed

text \<open>The categories when everything has been shown.\<close>

definition all_shown :: "health \<Rightarrow> category list" where
  "all_shown h =
     map (\<lambda>(c, l). \<lparr>ct_id = c, ct_label = l, ct_status = rp_status (check_result h c), ct_started = True,
                    ct_lines = map line_of (rp_sent (check_result h c))\<rparr>) category_names"

lemma checks_shown:
  assumes "h_load h = Inr cfg"
  shows "fold cat_update (chan_msgs (runChecks h)) (su_categories new_startup) = all_shown h"
proof -
  have "fold cat_update (chan_msgs (runChecks h)) cats =
      fold (\<lambda>(c, l). upd_first (\<lambda>x. ct_id x = c) (finished h c)) category_names cats" for cats
    by (simp add: runChecks_ok(1) [OF assms] category_names_def check_shown [OF calm_result [OF assms]])
  then show ?thesis by (simp add: new_startup_def category_names_def all_shown_def finished_def)
qed

subsection \<open>Every state of a run\<close>

text \<open>The message the listener holds, unless it is the end.\<close>

definition in_flight :: "listener \<Rightarrow> startup_msg list" where
  "in_flight l = (case l of Holding m \<Rightarrow> if m = allChecksDoneMsg then [] else [m] | _ \<Rightarrow> [])"

text \<open>\<open>shown\<close> are the messages that were handled, \<open>ran\<close> what the goroutine did.\<close>

definition startup_inv :: "health \<Rightarrow> startup_sys \<Rightarrow> bool" where
  "startup_inv h s \<longleftrightarrow>
     (\<exists>shown ran. runChecks h = ran @ sy_todo s \<and> chan_msgs ran = shown @ in_flight (sy_listener s) @ sy_chan s
        \<and> su_categories (sy_ui s) = fold cat_update shown (su_categories new_startup)
        \<and> su_config (sy_ui s) = (case prog_msgs ran of configLoadedMsg c # ms \<Rightarrow> Some c | _ \<Rightarrow> None)
        \<and> (su_fatal (sy_ui s) = None \<longleftrightarrow> (\<forall>m \<in> set shown. \<not> is_critical m)))
   \<and> (sy_closed s \<longrightarrow> sy_todo s = [])
   \<and> (sy_listener s = Holding allChecksDoneMsg \<or> su_checked (sy_ui s) \<longrightarrow> sy_closed s \<and> sy_chan s = [])
   \<and> (sy_listener s = Idle \<longleftrightarrow> (su_fatal (sy_ui s) = None \<longrightarrow> su_checked (sy_ui s)))
   \<and> (su_checked (sy_ui s) \<longrightarrow> su_fatal (sy_ui s) = None)
   \<and> su_once (sy_ui s)
   \<and> (StartupChecksDone \<in> set (sy_cmds s) \<longrightarrow> su_checked (sy_ui s))"

text \<open>The two kinds of message: those of the channel change categories and keep the listener, the configuration does neither.\<close>

definition chan_kind :: "startup_msg \<Rightarrow> bool" where
  "chan_kind m \<longleftrightarrow> (case m of categoryStartMsg c \<Rightarrow> True | categoryEndMsg c st \<Rightarrow> True | logMsg c st line critical \<Rightarrow> True | _ \<Rightarrow> False)"

lemma acts_kinds:
  "\<forall>m \<in> set (chan_msgs (runChecks h)). chan_kind m" "\<exists>cfg. set (prog_msgs (runChecks h)) \<subseteq> {configLoadedMsg cfg}"
  "length (prog_msgs (runChecks h)) \<le> 1"
proof -
  have "\<forall>m \<in> set (chan_msgs (runChecks h)). chan_kind m" if "h_load h = Inr cfg" for cfg
    using calm_result [OF that] by (fastforce simp: runChecks_ok(1) [OF that] check_msgs_def calm_def chan_kind_def)
  moreover have "\<forall>m \<in> set (chan_msgs (runChecks h)). chan_kind m" if "h_load h = Inl e" for e
  proof -
    have "\<forall>m \<in> set (rp_sent (checkLoggerHealth h (newReporter ''logger''))). chan_kind m"
      using calm_checks(1) [OF calm_new, of "''logger''" h] by (fastforce simp: calm_def chan_kind_def)
    moreover have conf: "runConfigCheck h = (map ToChan (categoryStartMsg ''config'' # [logMsg ''config'' catError (''Configuration failed to load'' @ '': '' @ e) True]), False)"
      by (simp add: runConfigCheck_def checkConfigHealth_def that rp_critical_def newReporter_def formatError_def Let_def)
    moreover have "\<not> rp_abort (checkLoggerHealth h (newReporter ''logger''))"
      using calm_checks(1) [OF calm_new, of "''logger''" h] by (simp add: calm_def)
    ultimately show ?thesis by (simp add: runChecks_def conf runCheck_def Let_def chan_kind_def)
  qed
  ultimately show "\<forall>m \<in> set (chan_msgs (runChecks h)). chan_kind m" by (cases "h_load h") auto
  show "\<exists>cfg. set (prog_msgs (runChecks h)) \<subseteq> {configLoadedMsg cfg}" "length (prog_msgs (runChecks h)) \<le> 1"
    by (cases "h_load h"; simp add: runChecks_ok runChecks_failed)+
qed

lemma handle_chan:
  assumes "chan_kind msg"
  shows "su_categories (sy_ui (handle ks msg s)) = cat_update msg (su_categories (sy_ui s))"
    and "su_config (sy_ui (handle ks msg s)) = su_config (sy_ui s)" and "su_checked (sy_ui (handle ks msg s)) = su_checked (sy_ui s)"
    and "su_once (sy_ui (handle ks msg s)) = su_once (sy_ui s)"
    and "su_fatal (sy_ui (handle ks msg s)) = None \<longleftrightarrow> su_fatal (sy_ui s) = None \<and> \<not> is_critical msg"
    and "sy_listener (handle ks msg s) = (if is_critical msg then sy_listener s else Waiting)"
    and "StartupChecksDone \<in> set (sy_cmds (handle ks msg s)) \<longleftrightarrow> StartupChecksDone \<in> set (sy_cmds s)"
  using assms by (cases msg; simp add: handle_def startup_Update_def chan_kind_def cat_update_def is_critical_def Let_def)+

lemma handle_other:
  assumes "msg \<in> {startupKey k, startupTick, startupOther}"
  shows "sy_ui (handle ks msg s) = sy_ui s" and "sy_listener (handle ks msg s) = sy_listener s"
    and "StartupChecksDone \<in> set (sy_cmds (handle ks msg s)) \<Longrightarrow> StartupChecksDone \<in> set (sy_cmds s) \<or> su_checked (sy_ui s)"
  using assms by (auto simp: handle_def startup_Update_def split: if_splits prod.splits)

lemma handle_rest [simp]:
  "sy_todo (handle ks msg s) = sy_todo s" "sy_chan (handle ks msg s) = sy_chan s" "sy_closed (handle ks msg s) = sy_closed s"
  by (simp_all add: handle_def split: prod.split)

lemma handle_config:
  "handle ks (configLoadedMsg c) s = s\<lparr>sy_ui := (sy_ui s)\<lparr>su_config := Some c\<rparr>\<rparr>"
  by (simp add: handle_def startup_Update_def)

lemma handle_done:
  "handle ks allChecksDoneMsg s =
     s\<lparr>sy_ui := (sy_ui s)\<lparr>su_checked := True\<rparr>, sy_cmds := sy_cmds s @ [SetPercent (progressTarget (su_categories (sy_ui s)))]\<rparr>"
  by (simp add: handle_def startup_Update_def)

lemma startup_inv_init: "startup_inv h (startup_sys_init h)"
  unfolding startup_inv_def
  by (intro conjI exI [of _ "[]"]) (simp_all add: startup_sys_init_def startup_Init_def new_startup_def in_flight_def)

lemma in_flight_simps [simp]:
  "in_flight Idle = []" "in_flight Waiting = []" "in_flight (Holding allChecksDoneMsg) = []"
  "chan_kind m \<Longrightarrow> in_flight (Holding m) = [m]"
  by (auto simp: in_flight_def chan_kind_def)

lemma inv_check_step:
  assumes inv: "startup_inv h s" and "check_step ks s t" shows "startup_inv h t"
proof -
  obtain shown ran where r: "runChecks h = ran @ sy_todo s" "chan_msgs ran = shown @ in_flight (sy_listener s) @ sy_chan s"
    "su_categories (sy_ui s) = fold cat_update shown (su_categories new_startup)"
    "su_config (sy_ui s) = (case prog_msgs ran of configLoadedMsg c # ms \<Rightarrow> Some c | _ \<Rightarrow> None)"
    "su_fatal (sy_ui s) = None \<longleftrightarrow> (\<forall>m \<in> set shown. \<not> is_critical m)"
    using inv [unfolded startup_inv_def, THEN conjunct1] by (elim exE conjE) (rule that)
  note rest = inv [unfolded startup_inv_def, THEN conjunct2]
  show ?thesis
    using assms(2)
  proof cases
    case (step_send msg acts)
    have "chan_kind msg" using acts_kinds(1) [of h] by (simp add: r(1) step_send)
    with rest step_send show ?thesis
      unfolding startup_inv_def by (intro conjI exI [of _ shown] exI [of _ "ran @ [ToChan msg]"]) (auto simp: r)
  next
    case (step_program msg acts)
    obtain cfg where "set (prog_msgs (runChecks h)) \<subseteq> {configLoadedMsg cfg}" using acts_kinds(2) by blast
    then have m: "msg = configLoadedMsg cfg" "prog_msgs ran = []"
      using acts_kinds(3) [of h] by (auto simp: r(1) step_program)
    with rest step_program show ?thesis
      unfolding startup_inv_def by (intro conjI exI [of _ shown] exI [of _ "ran @ [ToProgram msg]"]) (auto simp: r handle_config)
  next
    case step_close
    with rest show ?thesis
      unfolding startup_inv_def by (intro conjI exI [of _ shown] exI [of _ ran]) (auto simp: r)
  next
    case (step_take msg mrest)
    have "msg \<in> set (chan_msgs ran)" by (simp add: r(2) step_take)
    then have "chan_kind msg" using acts_kinds(1) [of h] by (simp add: r(1))
    moreover from this have "msg \<noteq> allChecksDoneMsg" by (auto simp: chan_kind_def)
    ultimately show ?thesis
      using rest step_take unfolding startup_inv_def by (intro conjI exI [of _ shown] exI [of _ ran]) (auto simp: r)
  next
    case step_end
    with rest show ?thesis
      unfolding startup_inv_def by (intro conjI exI [of _ shown] exI [of _ ran]) (auto simp: r)
  next
    case (step_deliver msg)
    show ?thesis
    proof (cases "msg = allChecksDoneMsg")
      case True
      with rest step_deliver show ?thesis
        unfolding startup_inv_def by (intro conjI exI [of _ shown] exI [of _ ran]) (auto simp: r handle_done)
    next
      case False
      with step_deliver have "msg \<in> set (chan_msgs ran)" by (simp add: r(2) in_flight_def)
      then have k: "chan_kind msg" using acts_kinds(1) [of h] by (simp add: r(1))
      with rest step_deliver show ?thesis
        unfolding startup_inv_def
        by (intro conjI exI [of _ "shown @ [msg]"] exI [of _ ran]) (auto simp: r handle_chan [OF k])
    qed
  qed
qed

lemma inv_startup_step:
  assumes inv: "startup_inv h s" and "startup_step ks s t" shows "startup_inv h t"
  using assms(2)
proof cases
  case of_check
  then show ?thesis by (rule inv_check_step [OF inv])
next
  case (of_user msg k)
  show ?thesis
    using inv handle_other [OF of_user(2), of ks s] unfolding of_user startup_inv_def by auto
next
  case (init_again m)
  then have "m = sy_ui s" by (auto simp: startup_Init_def split: if_splits)
  with inv init_again show ?thesis by (simp add: startup_inv_def)
qed

interpretation startup: invariant_system "\<lambda>s. s = startup_sys_init h" "startup_step ks" "startup_inv h" for h ks
  by unfold_locales (auto intro: startup_inv_init inv_startup_step)

definition startup_reach :: "health \<Rightarrow> Keys \<Rightarrow> startup_sys \<Rightarrow> bool" where
  "startup_reach h ks = reach (\<lambda>s. s = startup_sys_init h) (startup_step ks)"

lemma reach_startup_inv: "startup_reach h ks s \<Longrightarrow> startup_inv h s"
  unfolding startup_reach_def by (rule startup.reach_inv)

text \<open>C38. The workspace opens only when every check has run to its end: the settings were read, the session has them normalised,
  and each category shows all the lines of its check and the status it ended with, whatever the order in which the
  goroutine, the listener and the user took their turns.\<close>
theorem workspace_after_checks:
  assumes "startup_reach h ks s" and "StartupChecksDone \<in> set (sy_cmds s)"
  shows "\<exists>cfg. h_load h = Inr cfg \<and> su_config (sy_ui s) = Some (fst (h_normalize h cfg)) \<and> su_categories (sy_ui s) = all_shown h"
proof -
  note inv = reach_startup_inv [OF assms(1), unfolded startup_inv_def]
  from inv assms(2) have s: "su_checked (sy_ui s)" "sy_todo s = []" "sy_chan s = []" "sy_listener s = Idle" "su_fatal (sy_ui s) = None"
    by auto
  then obtain shown ran where r: "runChecks h = ran" "chan_msgs ran = shown"
    "su_categories (sy_ui s) = fold cat_update shown (su_categories new_startup)"
    "su_config (sy_ui s) = (case prog_msgs ran of configLoadedMsg c # ms \<Rightarrow> Some c | _ \<Rightarrow> None)"
    "\<forall>m \<in> set shown. \<not> is_critical m"
    using inv [THEN conjunct1] by auto
  show ?thesis
  proof (cases "h_load h")
    case (Inl e)
    with runChecks_failed(1) [OF Inl] r show ?thesis by auto
  next
    case (Inr cfg)
    with r checks_shown [OF Inr] runChecks_ok(2) [OF Inr] show ?thesis by simp
  qed
qed

text \<open>The work left for the goroutine and the listener.\<close>

definition startup_work :: "startup_sys \<Rightarrow> nat" where
  "startup_work s =
     4 * length (sy_todo s) + 3 * length (sy_chan s) + (if sy_closed s then 0 else 1)
     + (case sy_listener s of Idle \<Rightarrow> 0 | Waiting \<Rightarrow> 1 | Holding m \<Rightarrow> 2)
     + (if sy_listener s = Holding allChecksDoneMsg \<or> su_checked (sy_ui s) then 0 else 5)"

lemma check_step_works:
  assumes inv: "startup_inv h s" and "check_step ks s t" shows "startup_work t < startup_work s"
proof -
  obtain shown ran where r: "runChecks h = ran @ sy_todo s" "chan_msgs ran = shown @ in_flight (sy_listener s) @ sy_chan s"
    using inv unfolding startup_inv_def by blast
  show ?thesis
    using assms(2)
  proof cases
    case (step_program msg acts)
    have "msg \<in> set (prog_msgs (runChecks h))" by (simp add: r(1) step_program)
    with acts_kinds(2) [of h] obtain c where "msg = configLoadedMsg c" by blast
    with step_program show ?thesis by (simp add: startup_work_def handle_config)
  next
    case (step_take msg mrest)
    have "msg \<in> set (chan_msgs (runChecks h))" by (simp add: r step_take)
    with acts_kinds(1) [of h] have "msg \<noteq> allChecksDoneMsg" by (auto simp: chan_kind_def)
    with step_take show ?thesis by (simp add: startup_work_def)
  next
    case step_end
    moreover from this inv have "\<not> su_checked (sy_ui s)" by (auto simp: startup_inv_def)
    ultimately show ?thesis by (simp add: startup_work_def)
  next
    case (step_deliver msg)
    show ?thesis
    proof (cases "msg = allChecksDoneMsg")
      case False
      with step_deliver have "msg \<in> set (chan_msgs (runChecks h))" by (simp add: r in_flight_def)
      with acts_kinds(1) [of h] have k: "chan_kind msg" by blast
      with step_deliver False show ?thesis by (simp add: startup_work_def handle_chan(3,6) [OF k])
    qed (use step_deliver in \<open>simp add: startup_work_def handle_done\<close>)
  qed (simp_all add: startup_work_def)
qed

lemma check_step_enabled:
  assumes "startup_inv h s" and "su_fatal (sy_ui s) = None" and "\<not> su_checked (sy_ui s)"
  shows "\<exists>t. check_step ks s t"
proof (cases "sy_listener s")
  case Idle
  with assms show ?thesis by (simp add: startup_inv_def)
next
  case Waiting
  show ?thesis
  proof (cases "sy_chan s")
    case (Cons msg mrest)
    then show ?thesis using step_take [OF Waiting] by blast
  next
    case Nil
    consider msg acts where "sy_todo s = ToChan msg # acts" | msg acts where "sy_todo s = ToProgram msg # acts" | "sy_todo s = []"
      by (metis check_act.exhaust neq_Nil_conv)
    then show ?thesis
    proof cases
      case 1
      then show ?thesis by (intro exI) (rule step_send, simp_all add: Nil chan_cap_def)
    next
      case 2
      then show ?thesis by (intro exI) (rule step_program)
    next
      case 3
      then show ?thesis using step_close [OF 3] step_end [OF Waiting Nil] by (cases "sy_closed s") blast+
    qed
  qed
next
  case (Holding msg)
  then show ?thesis using step_deliver by blast
qed

text \<open>C39. The checks come to an end: in every reachable state that shows neither the end of the checks nor a fatal error the goroutine
  or the listener can go on, without any help of the user, and each of their steps leaves less to do.\<close>
theorem startup_settles:
  assumes "startup_reach h ks s"
  shows "((\<exists>t. check_step ks s t) \<or> su_checked (sy_ui s) \<or> su_fatal (sy_ui s) \<noteq> None)
    \<and> (\<forall>t. check_step ks s t \<longrightarrow> startup_work t < startup_work s)"
  using check_step_enabled check_step_works reach_startup_inv [OF assms] by blast

lemma startup_ends:
  assumes "startup_reach h ks s"
  shows "\<exists>t. startup_reach h ks t \<and> (su_checked (sy_ui t) \<or> su_fatal (sy_ui t) \<noteq> None)"
  using assms
proof (induction "startup_work s" arbitrary: s rule: less_induct)
  case less
  show ?case
  proof (cases "su_checked (sy_ui s) \<or> su_fatal (sy_ui s) \<noteq> None")
    case False
    with check_step_enabled reach_startup_inv [OF less.prems] obtain t where t: "check_step ks s t" by blast
    then have "startup_reach h ks t"
      using less.prems unfolding startup_reach_def by (auto intro: reach_step of_check)
    with less.hyps check_step_works [OF reach_startup_inv [OF less.prems] t] show ?thesis by blast
  qed (use less.prems in blast)
qed

lemma startup_completes:
  assumes "h_load h = Inr cfg" shows "\<exists>t. startup_reach h ks t \<and> su_checked (sy_ui t) \<and> su_fatal (sy_ui t) = None"
proof -
  have "startup_reach h ks (startup_sys_init h)" by (simp add: startup_reach_def reach_init)
  from startup_ends [OF this] obtain t where t: "startup_reach h ks t" "su_checked (sy_ui t) \<or> su_fatal (sy_ui t) \<noteq> None" by blast
  obtain shown ran where r: "runChecks h = ran @ sy_todo t" "chan_msgs ran = shown @ in_flight (sy_listener t) @ sy_chan t"
    "su_fatal (sy_ui t) = None \<longleftrightarrow> (\<forall>m \<in> set shown. \<not> is_critical m)"
    using reach_startup_inv [OF t(1), unfolded startup_inv_def, THEN conjunct1] by (elim exE conjE) (rule that)
  have "\<not> is_critical m" if "m \<in> set (chan_msgs (runChecks h))" for m
    using that calm_result [OF assms] by (fastforce simp: runChecks_ok(1) [OF assms] check_msgs_def calm_def is_critical_def)
  then have "su_fatal (sy_ui t) = None" by (simp add: r)
  with t show ?thesis by blast
qed

definition healthy :: health where
  "healthy =
     \<lparr>h_init = None, h_load = Inr (default_settings Desktop Low), h_normalize = NormalizeAll parse_host Desktop Low,
      h_warning = Field, h_version = ''26'', h_outbounds = Inr [''home''], h_outbound = (\<lambda>n. Some ''bad''),
      h_valid = (\<lambda>l. Inr [(''a'', [])]), h_library = Inl ''missing'', h_verified = Inl [], h_service = None, h_feed = ''1''\<rparr>"

text \<open>The category of Xray ends with success although its only template is refused.\<close>

lemma refused_template_ends_green:
  "rp_status (check_result healthy ''xray'') = catOK"
  "logMsg ''xray'' catError ''Outbound validation failed: home: bad'' False \<in> set (rp_sent (check_result healthy ''xray''))"
  by code_simp+

lemma workspace_after_checks_witness:
  "\<exists>s. startup_reach healthy Default s \<and> StartupChecksDone \<in> set (sy_cmds s) \<and> su_categories (sy_ui s) = all_shown healthy"
proof -
  have "h_load healthy = Inr (default_settings Desktop Low)" by (simp add: healthy_def)
  then obtain t where t: "startup_reach healthy Default t" "su_checked (sy_ui t)" "su_fatal (sy_ui t) = None"
    using startup_completes by blast
  have "Matches (notice_Continue (k_Notice Default)) ''enter''" "\<not> Matches (global_Quit (k_Global Default)) ''enter''"
    "\<not> Matches (nav_Up (k_Nav Default)) ''enter''" "\<not> Matches (nav_Down (k_Nav Default)) ''enter''"
    by code_simp+
  with t have "StartupChecksDone \<in> set (sy_cmds (handle Default (startupKey ''enter'') t))"
    by (simp add: handle_def startup_Update_def)
  moreover have "startup_reach healthy Default (handle Default (startupKey ''enter'') t)"
    using t(1) unfolding startup_reach_def by (auto intro: reach_step of_user)
  ultimately show ?thesis using workspace_after_checks by blast
qed

lemma startup_settles_witness:
  "\<exists>t. check_step Default (startup_sys_init healthy) t \<and> startup_work t < startup_work (startup_sys_init healthy)"
proof -
  have r: "startup_reach healthy Default (startup_sys_init healthy)" by (simp add: startup_reach_def reach_init)
  have "\<not> su_checked (sy_ui (startup_sys_init healthy))" "su_fatal (sy_ui (startup_sys_init healthy)) = None"
    by (simp_all add: startup_sys_init_def startup_Init_def new_startup_def)
  with startup_settles [OF r] show ?thesis by blast
qed

text \<open>All categories with the worst of their statuses.\<close>

lemma overall_worst:
  "overallStatus cats = catError \<longleftrightarrow> (\<exists>c \<in> set cats. ct_status c = catError)"
proof -
  have f: "fold (\<lambda>c w. if status_rank w < status_rank (ct_status c) then ct_status c else w) cats w = catError
      \<longleftrightarrow> w = catError \<or> (\<exists>c \<in> set cats. ct_status c = catError)" for w
  proof (induction cats arbitrary: w)
    case (Cons c cats)
    then show ?case by (cases "ct_status c"; cases w) auto
  qed simp
  define w where "w = fold (\<lambda>c w. if status_rank w < status_rank (ct_status c) then ct_status c else w) cats catOK"
  have "overallStatus cats = (if list_ex (\<lambda>c. ct_status c = catRunning) cats \<and> w = catOK then catRunning else w)"
    unfolding overallStatus_def Let_def w_def ..
  moreover have "w = catError \<longleftrightarrow> (\<exists>c \<in> set cats. ct_status c = catError)" unfolding w_def f by simp
  ultimately show ?thesis by (auto split: if_splits)
qed

end
