(* ===== verification/SettingsEdit.thy ===== *)
theory SettingsEdit
  imports SettingsStore ResultRecords
begin

text \<open>
  The inspectors that edit the settings (\<open>components/inspector/\<close> general, tcp, icmp, http, xray and dns) over the inputs
  (\<open>components/basic/input\<close>): what each field accepts, what it changes and when the section is saved. A field is shown in
  its group when it is visible. A select gives one of its options, a multiple select some of them in their order, as the
  widgets of the library do. Titles, descriptions and the texts of a value are left out.
\<close>

subsection \<open>Inputs\<close>

datatype field_value = Text string | Choice string | TestChoice connectivity | Flag bool | Picks "string list" | Codes "int list"

text \<open>What a submission does: the error stays in the dialog, a notice opens, or the value is stored, with or without saving.\<close>

datatype 's outcome = Rejected | InvalidNotice | Stored bool 's

type_synonym 's input = "field_value \<Rightarrow> 's \<Rightarrow> 's outcome"

definition textinput_submit :: "('s \<Rightarrow> string \<Rightarrow> bool) \<Rightarrow> (string \<Rightarrow> 's \<Rightarrow> 's outcome) \<Rightarrow> 's input" where
  "textinput_submit valid onSubmit v s =
     (case v of Text t \<Rightarrow> let t = trim_space t in if valid s t then onSubmit t s else Rejected | _ \<Rightarrow> Rejected)"

definition intInput :: "('s \<Rightarrow> string \<Rightarrow> bool) \<Rightarrow> (int \<Rightarrow> 's \<Rightarrow> 's) \<Rightarrow> 's input" where
  "intInput valid put =
     textinput_submit valid (\<lambda>t s. case atoi t of None \<Rightarrow> InvalidNotice | Some n \<Rightarrow> Stored True (put n s))"

definition millis :: "int \<Rightarrow> int" where
  "millis n = NewDurationMS (wrap64 (n * Millisecond))"

definition durationMSInput :: "('s \<Rightarrow> string \<Rightarrow> bool) \<Rightarrow> (int \<Rightarrow> 's \<Rightarrow> 's) \<Rightarrow> 's input" where
  "durationMSInput valid put =
     textinput_submit valid (\<lambda>t s. case atoi t of None \<Rightarrow> InvalidNotice | Some n \<Rightarrow> Stored True (put (millis n) s))"

definition stringInput :: "('s \<Rightarrow> string \<Rightarrow> bool) \<Rightarrow> (string \<Rightarrow> 's \<Rightarrow> 's) \<Rightarrow> 's input" where
  "stringInput valid put = textinput_submit valid (\<lambda>t s. Stored True (put t s))"

definition selectInput :: "string list \<Rightarrow> ('s \<Rightarrow> string \<Rightarrow> bool) \<Rightarrow> (string \<Rightarrow> 's \<Rightarrow> 's outcome) \<Rightarrow> 's input" where
  "selectInput options valid onSubmit v s =
     (case v of Choice c \<Rightarrow> if c \<in> set options \<and> valid s c then onSubmit c s else Rejected | _ \<Rightarrow> Rejected)"

definition toggleInput :: "(bool \<Rightarrow> 's \<Rightarrow> 's) \<Rightarrow> 's input" where
  "toggleInput put v s = (case v of Flag b \<Rightarrow> Stored True (put b s) | _ \<Rightarrow> Rejected)"

text \<open>Every multiple select of the inspectors is required.\<close>

definition picked :: "'a list \<Rightarrow> 'a list \<Rightarrow> bool" where
  "picked options ps \<longleftrightarrow> ps \<noteq> [] \<and> ps = filter (\<lambda>x. x \<in> set ps) options"

definition multiselectInput :: "string list \<Rightarrow> (string list \<Rightarrow> 's \<Rightarrow> 's outcome) \<Rightarrow> 's input" where
  "multiselectInput options onSubmit v s = (case v of Picks ps \<Rightarrow> if picked options ps then onSubmit ps s else Rejected | _ \<Rightarrow> Rejected)"

definition codesInput :: "int list \<Rightarrow> (int list \<Rightarrow> 's \<Rightarrow> 's outcome) \<Rightarrow> 's input" where
  "codesInput options onSubmit v s = (case v of Codes ps \<Rightarrow> if picked options ps then onSubmit ps s else Rejected | _ \<Rightarrow> Rejected)"

text \<open>The validations: the value is put into a copy of the section and the error of its field is looked up.\<close>

definition int_valid :: "('s \<Rightarrow> err_map) \<Rightarrow> string \<Rightarrow> (int \<Rightarrow> 's \<Rightarrow> 's) \<Rightarrow> 's \<Rightarrow> string \<Rightarrow> bool" where
  "int_valid errs field put s t = (case atoi t of None \<Rightarrow> False | Some n \<Rightarrow> errs (put n s) field = None)"

definition uint16_valid :: "('s \<Rightarrow> err_map) \<Rightarrow> string \<Rightarrow> (u16 \<Rightarrow> 's \<Rightarrow> 's) \<Rightarrow> 's \<Rightarrow> string \<Rightarrow> bool" where
  "uint16_valid errs field put s t = (case parse_uint16 t of None \<Rightarrow> False | Some n \<Rightarrow> errs (put n s) field = None)"

definition string_valid :: "('s \<Rightarrow> err_map) \<Rightarrow> string \<Rightarrow> (string \<Rightarrow> 's \<Rightarrow> 's) \<Rightarrow> 's \<Rightarrow> string \<Rightarrow> bool" where
  "string_valid errs field put s t \<longleftrightarrow> errs (put t s) field = None"

definition int_field where
  "int_field errs field put = intInput (int_valid errs field put) put"

definition ms_field where
  "ms_field errs field put = durationMSInput (int_valid errs field (\<lambda>n. put (millis n))) put"

definition uint16_field where
  "uint16_field errs field put = intInput (uint16_valid errs field put) (\<lambda>n. put (word_of_int n))"

definition string_field where
  "string_field errs field put = stringInput (string_valid errs field put) put"

definition free_select where
  "free_select options put = selectInput options (\<lambda>s c. True) (\<lambda>c s. Stored True (put c s))"

record 's field =
  fd_name :: string
  fd_group :: string
  fd_visible :: "'s \<Rightarrow> bool"
  fd_submit :: "'s input"

abbreviation "shown_field name grp inp \<equiv> \<lparr>fd_name = name, fd_group = grp, fd_visible = (\<lambda>s. True), fd_submit = inp\<rparr>"

subsection \<open>TCP and ICMP\<close>

definition put_TcpTries :: "u16 \<Rightarrow> TCPConfig \<Rightarrow> TCPConfig" where
  "put_TcpTries n c = c\<lparr>TcpTries := n\<rparr>"

definition tcp_fields :: "TCPConfig field list" where
  "tcp_fields =
     [shown_field ''Workers'' ''TCP Settings'' (int_field ValidateTCP ''Workers'' (\<lambda>n c. c\<lparr>TcpWorkers := n\<rparr>)),
      shown_field ''Port'' ''TCP Settings'' (int_field ValidateTCP ''Port'' (\<lambda>n c. c\<lparr>TcpPort := n\<rparr>)),
      shown_field ''Timeout'' ''TCP Settings'' (ms_field ValidateTCP ''Timeout'' (\<lambda>d c. c\<lparr>TcpTimeout := d\<rparr>)),
      shown_field ''Tries'' ''TCP Settings'' (uint16_field ValidateTCP ''Tries'' put_TcpTries),
      shown_field ''Prefix Output'' ''TCP Settings'' (string_field ValidateTCP ''OutputPrefix'' (\<lambda>p c. c\<lparr>TcpPrefix := p\<rparr>))]"

definition put_IcmpTries :: "u16 \<Rightarrow> ICMPConfig \<Rightarrow> ICMPConfig" where
  "put_IcmpTries n c = c\<lparr>IcmpTries := n\<rparr>"

definition icmp_fields :: "ICMPConfig field list" where
  "icmp_fields =
     [shown_field ''Workers'' ''ICMP Settings'' (int_field ValidateICMP ''Workers'' (\<lambda>n c. c\<lparr>IcmpWorkers := n\<rparr>)),
      shown_field ''Timeout'' ''ICMP Settings'' (ms_field ValidateICMP ''Timeout'' (\<lambda>d c. c\<lparr>IcmpTimeout := d\<rparr>)),
      shown_field ''Tries'' ''ICMP Settings'' (uint16_field ValidateICMP ''Tries'' put_IcmpTries),
      shown_field ''Prefix Output'' ''ICMP Settings'' (string_field ValidateICMP ''OutputPrefix'' (\<lambda>p c. c\<lparr>IcmpPrefix := p\<rparr>))]"

subsection \<open>General and writer\<close>

definition visibleWhenMode :: "string \<Rightarrow> GeneralConfig \<Rightarrow> bool" where
  "visibleWhenMode want c \<longleftrightarrow> PipelineMode c = want"

definition general_fields :: "GeneralConfig field list" where
  "general_fields =
     [shown_field ''Status Interval'' ''General'' (ms_field ValidateGeneral ''StatusInterval'' (\<lambda>d c. c\<lparr>StatusInterval := d\<rparr>)),
      shown_field ''Max Successful IPs'' ''General'' (int_field ValidateGeneral ''MaxSuccessfulIPs'' (\<lambda>n c. c\<lparr>MaxSuccessful := n\<rparr>)),
      shown_field ''Max IPs To Test'' ''General'' (int_field ValidateGeneral ''MaxIPsToTest'' (\<lambda>n c. c\<lparr>MaxIPsToTest := n\<rparr>)),
      shown_field ''Shuffled'' ''General'' (toggleInput (\<lambda>b c. c\<lparr>Shuffled := b\<rparr>)),
      shown_field ''Minimum Probe Duration'' ''General'' (ms_field ValidateGeneral ''MinProbeDuration'' (\<lambda>d c. c\<lparr>MinProbeDuration := d\<rparr>)),
      shown_field ''Probes Per Second'' ''General'' (int_field ValidateGeneral ''ProbePerSec'' (\<lambda>n c. c\<lparr>ProbePerSec := n\<rparr>)),
      shown_field ''Probe Burst'' ''General'' (int_field ValidateGeneral ''ProbeBurst'' (\<lambda>n c. c\<lparr>ProbeBurst := n\<rparr>)),
      shown_field ''Pipeline Mode'' ''General'' (free_select [''sequential'', ''streaming'', ''batch''] (\<lambda>m c. c\<lparr>PipelineMode := m\<rparr>)),
      \<lparr>fd_name = ''Max IPs Per Stage'', fd_group = ''General'', fd_visible = visibleWhenMode ''streaming'',
       fd_submit = int_field ValidateGeneral ''MaxIPsPerStage'' (\<lambda>n c. c\<lparr>MaxIPsPerStage := n\<rparr>)\<rparr>,
      \<lparr>fd_name = ''Batch Size'', fd_group = ''General'', fd_visible = visibleWhenMode ''batch'',
       fd_submit = int_field ValidateGeneral ''BatchSize'' (\<lambda>n c. c\<lparr>GenBatchSize := n\<rparr>)\<rparr>]"

definition writer_fields :: "WriterConfig field list" where
  "writer_fields =
     [shown_field ''Result Directory'' ''Writer'' (string_field ValidateWriter ''ResultBaseDir'' (\<lambda>d c. c\<lparr>ResultBaseDir := d\<rparr>)),
      shown_field ''Merge Flush Interval'' ''Writer'' (ms_field ValidateWriter ''MergeFlushInterval'' (\<lambda>d c. c\<lparr>MergeFlushInterval := d\<rparr>)),
      shown_field ''Channel Size'' ''Writer'' (int_field ValidateWriter ''ChanSize'' (\<lambda>n c. c\<lparr>ChanSize := n\<rparr>)),
      shown_field ''Batch Size'' ''Writer'' (int_field ValidateWriter ''BatchSize'' (\<lambda>n c. c\<lparr>WrBatchSize := n\<rparr>)),
      shown_field ''Ignore Writer Errors'' ''Writer'' (toggleInput (\<lambda>b c. c\<lparr>IgnoreErr := b\<rparr>))]"

subsection \<open>Xray\<close>

definition ConnectivityOnly :: connectivity where "ConnectivityOnly = 0"
definition DownloadSpeedOnly :: connectivity where "DownloadSpeedOnly = 1"
definition UploadSpeedOnly :: connectivity where "UploadSpeedOnly = 2"

definition includesDownload :: "XrayConfig \<Rightarrow> bool" where
  "includesDownload c \<longleftrightarrow> ConnectivityTestType c = DownloadSpeedOnly \<or> ConnectivityTestType c = Both"

definition includesUpload :: "XrayConfig \<Rightarrow> bool" where
  "includesUpload c \<longleftrightarrow> ConnectivityTestType c = UploadSpeedOnly \<or> ConnectivityTestType c = Both"

definition test_type_input :: "XrayConfig input" where
  "test_type_input v c =
     (case v of TestChoice t \<Rightarrow>
        if t \<in> {ConnectivityOnly, DownloadSpeedOnly, UploadSpeedOnly, Both} then Stored True (c\<lparr>ConnectivityTestType := t\<rparr>) else Rejected
      | _ \<Rightarrow> Rejected)"

definition xray_fields :: "XrayConfig field list" where
  "xray_fields =
     [shown_field ''Workers'' ''Xray Settings'' (int_field ValidateXray ''Workers'' (\<lambda>n c. c\<lparr>XrayWorkers := n\<rparr>)),
      shown_field ''Connectivity Test Type'' ''Xray Settings'' test_type_input,
      \<lparr>fd_name = ''Download Speed'', fd_group = ''Xray Settings'', fd_visible = includesDownload,
       fd_submit = int_field ValidateXray ''DownloadSpeed'' (\<lambda>n c. c\<lparr>DownloadSpeed := n\<rparr>)\<rparr>,
      \<lparr>fd_name = ''Upload Speed'', fd_group = ''Xray Settings'', fd_visible = includesUpload,
       fd_submit = int_field ValidateXray ''UploadSpeed'' (\<lambda>n c. c\<lparr>UploadSpeed := n\<rparr>)\<rparr>,
      shown_field ''Timeout'' ''Xray Settings'' (ms_field ValidateXray ''Timeout'' (\<lambda>d c. c\<lparr>XrayTimeout := d\<rparr>)),
      shown_field ''Speed Test Timeout'' ''Xray Settings'' (ms_field ValidateXray ''SpeedTestTimeout'' (\<lambda>d c. c\<lparr>SpeedTestTimeout := d\<rparr>)),
      shown_field ''Pre-Scan Type'' ''Xray Settings'' (free_select [''none'', ''icmp'', ''tcp'', ''http''] (\<lambda>t c. c\<lparr>PreScanType := t\<rparr>)),
      shown_field ''Prefix Output'' ''Xray Settings'' (string_field ValidateXray ''OutputPrefix'' (\<lambda>p c. c\<lparr>XrayPrefix := p\<rparr>)),
      shown_field ''Max Concurrent Dials'' ''Xray Settings'' (int_field ValidateXray ''MaxConcurrentDials'' (\<lambda>n c. c\<lparr>MaxConcurrentDials := n\<rparr>)),
      shown_field ''Dial Max Attempts'' ''Xray Settings'' (int_field ValidateXray ''DialMaxAttempts'' (\<lambda>n c. c\<lparr>DialMaxAttempts := n\<rparr>))]"

subsection \<open>DNS\<close>

definition res_upd :: "(ResolverConfig \<Rightarrow> ResolverConfig) \<Rightarrow> DNSConfig \<Rightarrow> DNSConfig" where
  "res_upd f c = c\<lparr>Resolver := f (Resolver c)\<rparr>"

definition tun_upd :: "(DNSTunneling \<Rightarrow> DNSTunneling) \<Rightarrow> DNSConfig \<Rightarrow> DNSConfig" where
  "tun_upd f c = c\<lparr>Tunneling := f (Tunneling c)\<rparr>"

definition dpi_upd :: "(DPIConfig \<Rightarrow> DPIConfig) \<Rightarrow> DNSConfig \<Rightarrow> DNSConfig" where
  "dpi_upd f = res_upd (\<lambda>r. r\<lparr>DPI := f (DPI r)\<rparr>)"

text \<open>A new transport brings its port; choosing the present one again saves nothing.\<close>

definition transport_submit :: "string \<Rightarrow> DNSConfig \<Rightarrow> DNSConfig outcome" where
  "transport_submit v c =
     (if v = Transport (Resolver c) then Stored False c
      else Stored True (res_upd (\<lambda>r. r\<lparr>Transport := v, ResPort := (if v = ''dot'' then 853 else 53)\<rparr>) c))"

definition resolverVisible :: "DNSConfig \<Rightarrow> bool" where
  "resolverVisible c \<longleftrightarrow> CheckDNSResolver (Tunneling c)"

definition dpiEnabled :: "DNSConfig \<Rightarrow> bool" where
  "dpiEnabled c \<longleftrightarrow> DpiEnabled (DPI (Resolver c))"

definition dns_fields :: "DNSConfig field list" where
  "dns_fields =
     [shown_field ''Workers'' ''Resolver'' (int_field ValidateDNS ''Resolver.Workers'' (\<lambda>n. res_upd (\<lambda>r. r\<lparr>ResWorkers := n\<rparr>))),
      shown_field ''Transport'' ''Resolver'' (selectInput [''udp'', ''tcp'', ''dot''] (\<lambda>s c. True) transport_submit),
      shown_field ''Domain'' ''Resolver'' (string_field ValidateDNS ''Resolver.Domain'' (\<lambda>d. res_upd (\<lambda>r. r\<lparr>Domain := d\<rparr>))),
      shown_field ''Port'' ''Resolver'' (uint16_field ValidateDNS ''Resolver.Port'' (\<lambda>n. res_upd (\<lambda>r. r\<lparr>ResPort := n\<rparr>))),
      shown_field ''Check Types'' ''Resolver''
        (multiselectInput [''A'', ''AAAA'', ''CNAME'', ''NS'', ''MX'', ''TXT''] (\<lambda>ps c. Stored True (res_upd (\<lambda>r. r\<lparr>CheckTypes := ps\<rparr>) c))),
      shown_field ''EDNS Buffer Size'' ''Resolver'' (intInput (\<lambda>s t. True) (\<lambda>n. res_upd (\<lambda>r. r\<lparr>EDNSBufSize := word_of_int n\<rparr>))),
      shown_field ''Timeout'' ''Resolver'' (ms_field ValidateDNS ''Resolver.Timeout'' (\<lambda>d. res_upd (\<lambda>r. r\<lparr>ResTimeout := d\<rparr>))),
      shown_field ''Tries'' ''Resolver'' (int_field ValidateDNS ''Resolver.Tries'' (\<lambda>n. res_upd (\<lambda>r. r\<lparr>ResTries := n\<rparr>))),
      shown_field ''Random Subdomain'' ''Resolver'' (toggleInput (\<lambda>b. res_upd (\<lambda>r. r\<lparr>RandomSubdomain := b\<rparr>))),
      shown_field ''Accepted RCodes'' ''Resolver''
        (multiselectInput [''NOERROR'', ''FORMERR'', ''SERVFAIL'', ''NXDOMAIN'', ''NOTIMP'', ''REFUSED'']
           (\<lambda>ps c. Stored True (res_upd (\<lambda>r. r\<lparr>AcceptedRCodes := ps\<rparr>) c))),
      shown_field ''Prefix Output'' ''Resolver'' (string_field ValidateDNS ''Resolver.OutputPrefix'' (\<lambda>p. res_upd (\<lambda>r. r\<lparr>ResPrefix := p\<rparr>))),
      shown_field ''Check DPI'' ''DPI'' (toggleInput (\<lambda>b. dpi_upd (\<lambda>d. d\<lparr>DpiEnabled := b\<rparr>))),
      \<lparr>fd_name = ''DPI Timeout'', fd_group = ''DPI'', fd_visible = dpiEnabled,
       fd_submit = ms_field ValidateDNS ''Resolver.DPI.Timeout'' (\<lambda>t. dpi_upd (\<lambda>d. d\<lparr>DpiTimeout := t\<rparr>))\<rparr>,
      \<lparr>fd_name = ''DPI Tries'', fd_group = ''DPI'', fd_visible = dpiEnabled,
       fd_submit = int_field ValidateDNS ''Resolver.DPI.Tries'' (\<lambda>n. dpi_upd (\<lambda>d. d\<lparr>DpiTries := n\<rparr>))\<rparr>,
      shown_field ''Workers'' ''DNS Tunneling'' (int_field ValidateDNS ''DNSTunneling.Workers'' (\<lambda>n. tun_upd (\<lambda>t. t\<lparr>TunWorkers := n\<rparr>))),
      shown_field ''Tries'' ''DNS Tunneling'' (int_field ValidateDNS ''DNSTunneling.Tries'' (\<lambda>n. tun_upd (\<lambda>t. t\<lparr>TunTries := n\<rparr>))),
      shown_field ''Timeout'' ''DNS Tunneling'' (ms_field ValidateDNS ''DNSTunneling.Timeout'' (\<lambda>d. tun_upd (\<lambda>t. t\<lparr>TunTimeout := d\<rparr>))),
      shown_field ''Check DNS Resolver'' ''DNS Tunneling'' (toggleInput (\<lambda>b. tun_upd (\<lambda>t. t\<lparr>CheckDNSResolver := b\<rparr>))),
      \<lparr>fd_name = ''Adaptive Resolver'', fd_group = ''DNS Tunneling'', fd_visible = resolverVisible,
       fd_submit = toggleInput (\<lambda>b. tun_upd (\<lambda>t. t\<lparr>AdaptiveResolver := b\<rparr>))\<rparr>,
      shown_field ''Prefix Output'' ''DNS Tunneling'' (string_field ValidateDNS ''DNSTunneling.OutputPrefix'' (\<lambda>p. tun_upd (\<lambda>t. t\<lparr>TunPrefix := p\<rparr>)))]"

subsection \<open>HTTP\<close>

definition groupOrder :: "string list" where
  "groupOrder = [''1xx'', ''2xx'', ''3xx'', ''4xx'', ''5xx'']"

definition statusGroups :: "string \<Rightarrow> int list" where
  "statusGroups g =
     (if g = ''1xx'' then [100, 101, 102, 103]
      else if g = ''2xx'' then [200, 201, 202, 203, 204, 205, 206, 207, 208, 226]
      else if g = ''3xx'' then [300, 301, 302, 303, 304, 305, 306, 307, 308]
      else if g = ''4xx'' then
        [400, 401, 402, 403, 404, 405, 406, 407, 408, 409, 410, 411, 412, 413, 414, 415, 416, 417, 418,
         421, 422, 423, 424, 425, 426, 428, 429, 431, 451]
      else if g = ''5xx'' then [500, 501, 502, 503, 504, 505, 506, 507, 508, 510, 511] else [])"

definition codesFromGroups :: "string list \<Rightarrow> int list" where
  "codesFromGroups gs = concat (map statusGroups gs)"

definition filterCodesByGroup :: "int list \<Rightarrow> string \<Rightarrow> int list" where
  "filterCodesByGroup codes g = filter (\<lambda>c. c \<in> set codes) (statusGroups g)"

definition groupsChanged :: "string list \<Rightarrow> string list \<Rightarrow> bool" where
  "groupsChanged old new \<longleftrightarrow> length old \<noteq> length new \<or> list_ex (\<lambda>g. g \<notin> set old) new"

definition filterCodesByActiveGroups :: "int list \<Rightarrow> string list \<Rightarrow> int list" where
  "filterCodesByActiveGroups codes active = filter (\<lambda>c. list_ex (\<lambda>g. g \<in> set active \<and> c \<in> set (statusGroups g)) groupOrder) codes"

text \<open>The groups of the accepted codes when the inspector opens (Go leaves their order open), and the codes of one group.
  Go divides towards zero, so that a negative code is in no group either way.\<close>

definition code_group :: "int \<Rightarrow> string option" where
  "code_group c =
     (let d = sgn c * (\<bar>c\<bar> div 100)
      in if d = 1 then Some ''1xx'' else if d = 2 then Some ''2xx'' else if d = 3 then Some ''3xx''
         else if d = 4 then Some ''4xx'' else if d = 5 then Some ''5xx'' else None)"

definition groupStatusCodes :: "int list \<Rightarrow> string \<Rightarrow> int list" where
  "groupStatusCodes codes g = (if codes = [] then statusGroups g else filter (\<lambda>c. code_group c = Some g) codes)"

definition initial_groups :: "int list \<Rightarrow> string list" where
  "initial_groups codes = filter (\<lambda>g. groupStatusCodes codes g \<noteq> []) groupOrder"

text \<open>The state of the inspector: the section, the selected groups and the values of the selects of single codes.\<close>

record http_state =
  hs_cfg :: HTTPConfig
  hs_groups :: "string list"
  hs_specific :: "string \<Rightarrow> int list"

definition new_http_state :: "HTTPConfig \<Rightarrow> http_state" where
  "new_http_state c =
     \<lparr>hs_cfg = c, hs_groups = initial_groups (AcceptedStatusCodes c),
      hs_specific = groupStatusCodes (AcceptedStatusCodes c)\<rparr>"

definition hs_upd :: "(HTTPConfig \<Rightarrow> HTTPConfig) \<Rightarrow> http_state \<Rightarrow> http_state" where
  "hs_upd f s = s\<lparr>hs_cfg := f (hs_cfg s)\<rparr>"

text \<open>After the groups every select of single codes takes the codes of its group.\<close>

definition groups_submit :: "string list \<Rightarrow> http_state \<Rightarrow> http_state outcome" where
  "groups_submit sel s =
     (let changed = groupsChanged (hs_groups s) sel;
          s1 = (if changed then (hs_upd (\<lambda>c. c\<lparr>AcceptedStatusCodes := codesFromGroups sel\<rparr>) s)\<lparr>hs_groups := sel\<rparr> else s)
      in Stored changed (s1\<lparr>hs_specific := filterCodesByGroup (AcceptedStatusCodes (hs_cfg s1))\<rparr>))"

definition codes_submit :: "string \<Rightarrow> int list \<Rightarrow> http_state \<Rightarrow> http_state outcome" where
  "codes_submit g sel s =
     (let others = filterCodesByActiveGroups (AcceptedStatusCodes (hs_cfg s)) (hs_groups s)
      in Stored True ((hs_upd (\<lambda>c. c\<lparr>AcceptedStatusCodes := others @ sel\<rparr>) s)\<lparr>hs_specific := (hs_specific s)(g := sel)\<rparr>))"

definition isHTTPS :: "http_state \<Rightarrow> bool" where
  "isHTTPS s \<longleftrightarrow> Protocol (hs_cfg s) = ''https''"

definition isHTTP3 :: "string \<Rightarrow> bool" where
  "isHTTP3 v \<longleftrightarrow> v = ''h3'' \<or> v = ''http3''"

definition isStrictTLS :: "http_state \<Rightarrow> bool" where
  "isStrictTLS s \<longleftrightarrow> isHTTPS s \<and> TLSValidation (hs_cfg s) \<and> \<not> isHTTP3 (HttpVersion (hs_cfg s))"

definition isUTLS :: "http_state \<Rightarrow> bool" where
  "isUTLS s \<longleftrightarrow> isHTTPS s \<and> \<not> isHTTP3 (HttpVersion (hs_cfg s))"

abbreviation "http_errs hostname s \<equiv> ValidateHTTP hostname (hs_cfg s)"
abbreviation "tls_versions \<equiv> [''tls1.0'', ''tls1.1'', ''tls1.2'', ''tls1.3'']"

definition http_fields :: "(string \<Rightarrow> string option) \<Rightarrow> http_state field list" where
  "http_fields hostname =
     (let V = http_errs hostname; std = ''HTTP Settings''; adv = ''HTTP Advanced'' in
     [shown_field ''Workers'' std (int_field V ''Workers'' (\<lambda>n. hs_upd (\<lambda>c. c\<lparr>HttpWorkers := n\<rparr>))),
      shown_field ''Host'' std (string_field V ''Host'' (\<lambda>h. hs_upd (\<lambda>c. c\<lparr>Host := h\<rparr>))),
      shown_field ''Port'' std (int_field V ''Port'' (\<lambda>n. hs_upd (\<lambda>c. c\<lparr>HttpPort := n\<rparr>))),
      shown_field ''Protocol'' std (free_select [''http'', ''https''] (\<lambda>p. hs_upd (\<lambda>c. c\<lparr>Protocol := p\<rparr>))),
      \<lparr>fd_name = ''HTTP Version'', fd_group = std, fd_visible = isHTTPS,
       fd_submit = free_select [''h1'', ''h2'', ''h1,h2'', ''h3''] (\<lambda>v. hs_upd (\<lambda>c. c\<lparr>HttpVersion := v\<rparr>))\<rparr>,
      shown_field ''Timeout'' std (ms_field V ''Timeout'' (\<lambda>d. hs_upd (\<lambda>c. c\<lparr>HttpTimeout := d\<rparr>))),
      \<lparr>fd_name = ''TLS Validation'', fd_group = std, fd_visible = isHTTPS,
       fd_submit = toggleInput (\<lambda>b. hs_upd (\<lambda>c. c\<lparr>TLSValidation := b\<rparr>))\<rparr>,
      \<lparr>fd_name = ''TLS Fingerprint'', fd_group = std, fd_visible = isUTLS,
       fd_submit = selectInput ([] # utlsLabels)
         (\<lambda>s v. v = [] \<or> string_valid V ''Fingerprint'' (\<lambda>v. hs_upd (\<lambda>c. c\<lparr>Fingerprint := v\<rparr>)) s v)
         (\<lambda>v s. Stored True (hs_upd (\<lambda>c. c\<lparr>Fingerprint := v\<rparr>) s))\<rparr>,
      \<lparr>fd_name = ''Server Name SNI'', fd_group = adv, fd_visible = isHTTPS,
       fd_submit = string_field V ''ServerName'' (\<lambda>n. hs_upd (\<lambda>c. c\<lparr>ServerName := n\<rparr>))\<rparr>,
      \<lparr>fd_name = ''Min TLS Version'', fd_group = adv, fd_visible = isStrictTLS,
       fd_submit = selectInput tls_versions
         (string_valid V ''MinTLSVersion'' (\<lambda>v. hs_upd (\<lambda>c. c\<lparr>MinTLSVersion := v\<rparr>)))
         (\<lambda>v s. Stored True (hs_upd (\<lambda>c. c\<lparr>MinTLSVersion := v\<rparr>) s))\<rparr>,
      \<lparr>fd_name = ''Max TLS Version'', fd_group = adv, fd_visible = isStrictTLS,
       fd_submit = selectInput tls_versions
         (string_valid V ''MaxTLSVersion'' (\<lambda>v. hs_upd (\<lambda>c. c\<lparr>MaxTLSVersion := v\<rparr>)))
         (\<lambda>v s. Stored True (hs_upd (\<lambda>c. c\<lparr>MaxTLSVersion := v\<rparr>) s))\<rparr>,
      shown_field ''Prefix Output'' adv (string_field V ''OutputPrefix'' (\<lambda>p. hs_upd (\<lambda>c. c\<lparr>HttpPrefix := p\<rparr>))),
      shown_field ''Status Code Groups'' adv (multiselectInput groupOrder groups_submit)]
     @ map (\<lambda>g. \<lparr>fd_name = ''Accepted '' @ g @ '' Codes'', fd_group = adv, fd_visible = (\<lambda>s. g \<in> set (hs_groups s)),
                 fd_submit = codesInput (statusGroups g) (codes_submit g)\<rparr>) groupOrder)"

subsection \<open>The session\<close>

text \<open>The inspectors share the settings of the session. An edit names the inspector, the position of the field and the
  value; only visible fields can be opened. \<open>OpenHTTP\<close> builds the HTTP inspector anew.\<close>

record edit_session =
  es_config :: ScannerConfig
  es_groups :: "string list"
  es_specific :: "string \<Rightarrow> int list"

datatype edit =
    EditGeneral nat field_value | EditWriter nat field_value | EditTCP nat field_value | EditICMP nat field_value
  | OpenHTTP | EditHTTP nat field_value | EditXray nat field_value | EditDNS nat field_value

definition field_run :: "'s field list \<Rightarrow> nat \<Rightarrow> field_value \<Rightarrow> 's \<Rightarrow> 's outcome" where
  "field_run fs i v s = (if i < length fs \<and> fd_visible (fs ! i) s then fd_submit (fs ! i) v s else Rejected)"

text \<open>What the session becomes, and the section to save.\<close>

definition keep_section :: "'s outcome \<Rightarrow> ('s \<Rightarrow> edit_session) \<Rightarrow> ('s \<Rightarrow> save_op) \<Rightarrow> edit_session \<Rightarrow> edit_session \<times> save_op list" where
  "keep_section out put sav es =
     (case out of Stored saved s \<Rightarrow> (put s, if saved then [sav s] else []) | _ \<Rightarrow> (es, []))"

definition http_view :: "edit_session \<Rightarrow> http_state" where
  "http_view es = \<lparr>hs_cfg = HTTP (es_config es), hs_groups = es_groups es, hs_specific = es_specific es\<rparr>"

definition edit_run :: "(string \<Rightarrow> string option) \<Rightarrow> edit \<Rightarrow> edit_session \<Rightarrow> edit_session \<times> save_op list" where
  "edit_run hostname e es =
     (let c = es_config es in
      case e of
        EditGeneral i v \<Rightarrow> keep_section (field_run general_fields i v (General c)) (\<lambda>s. es\<lparr>es_config := c\<lparr>General := s\<rparr>\<rparr>) OpGeneral es
      | EditWriter i v \<Rightarrow> keep_section (field_run writer_fields i v (Writer c)) (\<lambda>s. es\<lparr>es_config := c\<lparr>Writer := s\<rparr>\<rparr>) OpWriter es
      | EditTCP i v \<Rightarrow> keep_section (field_run tcp_fields i v (TCP c)) (\<lambda>s. es\<lparr>es_config := c\<lparr>TCP := s\<rparr>\<rparr>) OpTCP es
      | EditICMP i v \<Rightarrow> keep_section (field_run icmp_fields i v (ICMP c)) (\<lambda>s. es\<lparr>es_config := c\<lparr>ICMP := s\<rparr>\<rparr>) OpICMP es
      | OpenHTTP \<Rightarrow>
          let h = new_http_state (HTTP c) in (es\<lparr>es_groups := hs_groups h, es_specific := hs_specific h\<rparr>, [])
      | EditHTTP i v \<Rightarrow>
          keep_section (field_run (http_fields hostname) i v (http_view es))
            (\<lambda>h. \<lparr>es_config = c\<lparr>HTTP := hs_cfg h\<rparr>, es_groups = hs_groups h, es_specific = hs_specific h\<rparr>) (\<lambda>h. OpHTTP (hs_cfg h)) es
      | EditXray i v \<Rightarrow> keep_section (field_run xray_fields i v (Xray c)) (\<lambda>s. es\<lparr>es_config := c\<lparr>Xray := s\<rparr>\<rparr>) OpXray es
      | EditDNS i v \<Rightarrow> keep_section (field_run dns_fields i v (DNS c)) (\<lambda>s. es\<lparr>es_config := c\<lparr>DNS := s\<rparr>\<rparr>) OpDNS es)"

fun edits_run :: "(string \<Rightarrow> string option) \<Rightarrow> edit list \<Rightarrow> edit_session \<Rightarrow> edit_session \<times> save_op list" where
  "edits_run hostname [] es = (es, [])"
| "edits_run hostname (e # rest) es =
     (case edit_run hostname e es of (es1, ops) \<Rightarrow> case edits_run hostname rest es1 of (es2, ops2) \<Rightarrow> (es2, ops @ ops2))"

definition new_edit_session :: "ScannerConfig \<Rightarrow> edit_session" where
  "new_edit_session c =
     \<lparr>es_config = c, es_groups = initial_groups (AcceptedStatusCodes (HTTP c)), es_specific = groupStatusCodes (AcceptedStatusCodes (HTTP c))\<rparr>"

subsection \<open>Inputs that keep a section well-formed\<close>

text \<open>An input keeps \<open>P\<close> if whatever is stored satisfies it again, and what is not saved leaves the section alone.\<close>

definition keeps_valid :: "('s \<Rightarrow> bool) \<Rightarrow> ('s \<Rightarrow> 'c) \<Rightarrow> 's input \<Rightarrow> bool" where
  "keeps_valid P cfg f \<longleftrightarrow> (\<forall>v s b s'. P s \<longrightarrow> f v s = Stored b s' \<longrightarrow> P s' \<and> (\<not> b \<longrightarrow> cfg s' = cfg s))"

text \<open>The law of a validation: with the other fields unchanged, no error of this field is no error at all.\<close>

definition only_field :: "('s \<Rightarrow> bool) \<Rightarrow> ('s \<Rightarrow> err_map) \<Rightarrow> string \<Rightarrow> ('a \<Rightarrow> 's \<Rightarrow> 's) \<Rightarrow> bool" where
  "only_field P errs k put \<longleftrightarrow> (\<forall>x s. P s \<longrightarrow> errs (put x s) k = None \<longrightarrow> P (put x s))"

lemma uint16_atoi:
  assumes "parse_uint16 t = Some w" and "atoi t = Some n" shows "word_of_int n = w"
proof -
  obtain c r where t: "t = c # r" "is_digit c" using assms(1) by (cases t) (auto simp: parse_uint16_def split: if_splits)
  then have "c \<noteq> CHR ''-''" "c \<noteq> CHR ''+''" by (auto simp: is_digit_def)
  with assms t show ?thesis by (auto simp: parse_uint16_def atoi_def Let_def split: if_splits)
qed

lemma keeps_text:
  "(\<And>t s b s'. P s \<Longrightarrow> valid s t \<Longrightarrow> f t s = Stored b s' \<Longrightarrow> P s' \<and> (\<not> b \<longrightarrow> cfg s' = cfg s))
    \<Longrightarrow> keeps_valid P cfg (textinput_submit valid f)"
  unfolding keeps_valid_def textinput_submit_def Let_def by (auto split: field_value.splits if_splits)

lemma keeps_inputs:
  "only_field P errs k put1 \<Longrightarrow> keeps_valid P cfg (int_field errs k put1)"
  "only_field P errs k put1 \<Longrightarrow> keeps_valid P cfg (ms_field errs k put1)"
  "only_field P errs k put2 \<Longrightarrow> keeps_valid P cfg (uint16_field errs k put2)"
  "only_field P errs k put3 \<Longrightarrow> keeps_valid P cfg (string_field errs k put3)"
  unfolding int_field_def ms_field_def uint16_field_def string_field_def intInput_def durationMSInput_def stringInput_def
  by (rule keeps_text, auto simp: only_field_def int_valid_def uint16_valid_def string_valid_def dest: uint16_atoi split: option.splits)+

lemma keeps_selects:
  "(\<And>x s. P s \<Longrightarrow> x \<in> set os \<Longrightarrow> P (put3 x s)) \<Longrightarrow> keeps_valid P cfg (free_select os put3)"
  "(\<And>b s. P s \<Longrightarrow> P (put4 b s)) \<Longrightarrow> keeps_valid P cfg (toggleInput put4)"
  "(\<And>x s b s'. P s \<Longrightarrow> x \<in> set os \<Longrightarrow> valid s x \<Longrightarrow> sub x s = Stored b s' \<Longrightarrow> P s' \<and> (\<not> b \<longrightarrow> cfg s' = cfg s))
    \<Longrightarrow> keeps_valid P cfg (selectInput os valid sub)"
  "(\<And>ps s b s'. P s \<Longrightarrow> picked os ps \<Longrightarrow> subs ps s = Stored b s' \<Longrightarrow> P s' \<and> (\<not> b \<longrightarrow> cfg s' = cfg s))
    \<Longrightarrow> keeps_valid P cfg (multiselectInput os subs)"
  "(\<And>ps s b s'. P s \<Longrightarrow> picked cs ps \<Longrightarrow> subc ps s = Stored b s' \<Longrightarrow> P s' \<and> (\<not> b \<longrightarrow> cfg s' = cfg s))
    \<Longrightarrow> keeps_valid P cfg (codesInput cs subc)"
  by (auto simp: keeps_valid_def free_select_def selectInput_def toggleInput_def multiselectInput_def codesInput_def
      split: field_value.splits if_splits)

locale inspector_fields =
  fixes ok :: "'s \<Rightarrow> bool" and cfg :: "'s \<Rightarrow> 'c" and fs :: "'s field list"
  assumes all_keep: "list_all (\<lambda>f. keeps_valid ok cfg (fd_submit f)) fs"
begin

lemma run_keeps: "ok s \<Longrightarrow> field_run fs i v s = Stored b s' \<Longrightarrow> ok s' \<and> (\<not> b \<longrightarrow> cfg s' = cfg s)"
  using all_keep by (auto simp: field_run_def list_all_length keeps_valid_def split: if_splits)

end

lemmas errs_simps = only_field_def collect_errs_empty collect_errs_None

lemmas fields_simps = list.pred_inject field.select_convs

interpretation tcp_inspector: inspector_fields "\<lambda>c. ValidateTCP c = Map.empty" "\<lambda>c. c" tcp_fields
  by (unfold_locales, unfold tcp_fields_def fields_simps, intro conjI keeps_inputs TrueI)
    (simp_all add: errs_simps ValidateTCP_def put_TcpTries_def)

interpretation icmp_inspector: inspector_fields "\<lambda>c. ValidateICMP c = Map.empty" "\<lambda>c. c" icmp_fields
  by (unfold_locales, unfold icmp_fields_def fields_simps, intro conjI keeps_inputs TrueI)
    (simp_all add: errs_simps ValidateICMP_def put_IcmpTries_def)

interpretation writer_inspector: inspector_fields "\<lambda>c. ValidateWriter c = Map.empty" "\<lambda>c. c" writer_fields
  by (unfold_locales, unfold writer_fields_def fields_simps, intro conjI keeps_inputs keeps_selects TrueI)
    (simp_all add: errs_simps ValidateWriter_def)

lemma option_checks:
  "m \<in> set [''sequential'', ''streaming'', ''batch''] \<Longrightarrow> checkEnum m allowedPipelineModes = None"
  "m \<in> set [''none'', ''icmp'', ''tcp'', ''http''] \<Longrightarrow> checkEnum m allowedPreScanTypes = None"
  "m \<in> set [''udp'', ''tcp'', ''dot''] \<Longrightarrow> checkEnum m allowedDNSTransport = None"
  "m \<in> set [''http'', ''https''] \<Longrightarrow> checkEnum m allowedProtocols = None"
  "m \<in> set [''h1'', ''h2'', ''h1,h2'', ''h3''] \<Longrightarrow> checkEnum m allowedHTTPVersions = None"
proof -
  have all: "list_all (\<lambda>m. checkEnum m allowedPipelineModes = None) [''sequential'', ''streaming'', ''batch'']"
    "list_all (\<lambda>m. checkEnum m allowedPreScanTypes = None) [''none'', ''icmp'', ''tcp'', ''http'']"
    "list_all (\<lambda>m. checkEnum m allowedDNSTransport = None) [''udp'', ''tcp'', ''dot'']"
    "list_all (\<lambda>m. checkEnum m allowedProtocols = None) [''http'', ''https'']"
    "list_all (\<lambda>m. checkEnum m allowedHTTPVersions = None) [''h1'', ''h2'', ''h1,h2'', ''h3'']"
    by code_simp+
  show "m \<in> set [''sequential'', ''streaming'', ''batch''] \<Longrightarrow> checkEnum m allowedPipelineModes = None"
    using all(1) unfolding list_all_iff by blast
  show "m \<in> set [''none'', ''icmp'', ''tcp'', ''http''] \<Longrightarrow> checkEnum m allowedPreScanTypes = None"
    using all(2) unfolding list_all_iff by blast
  show "m \<in> set [''udp'', ''tcp'', ''dot''] \<Longrightarrow> checkEnum m allowedDNSTransport = None"
    using all(3) unfolding list_all_iff by blast
  show "m \<in> set [''http'', ''https''] \<Longrightarrow> checkEnum m allowedProtocols = None"
    using all(4) unfolding list_all_iff by blast
  show "m \<in> set [''h1'', ''h2'', ''h1,h2'', ''h3''] \<Longrightarrow> checkEnum m allowedHTTPVersions = None"
    using all(5) unfolding list_all_iff by blast
qed

interpretation general_inspector: inspector_fields "\<lambda>c. ValidateGeneral c = Map.empty" "\<lambda>c. c" general_fields
  by (unfold_locales, unfold general_fields_def fields_simps, intro conjI keeps_inputs keeps_selects TrueI)
    (simp_all add: errs_simps ValidateGeneral_def option_checks del: set_simps)

lemma keeps_test_type: "keeps_valid (\<lambda>c. ValidateXray c = Map.empty) (\<lambda>c. c) test_type_input"
  by (auto simp: keeps_valid_def test_type_input_def ValidateXray_def collect_errs_empty IsValid_def Both_def
      ConnectivityOnly_def DownloadSpeedOnly_def UploadSpeedOnly_def split: field_value.splits if_splits)

interpretation xray_inspector: inspector_fields "\<lambda>c. ValidateXray c = Map.empty" "\<lambda>c. c" xray_fields
  by (unfold_locales, unfold xray_fields_def fields_simps, intro conjI keeps_inputs keeps_selects keeps_test_type TrueI)
    (simp_all add: errs_simps ValidateXray_def option_checks del: set_simps)

text \<open>The names of the nested sections lead to the sections.\<close>

lemma resolver_err: "ValidateDNS c (''Resolver.'' @ k) = None \<longleftrightarrow> validateResolver (Resolver c) k = None"
  by (auto simp: ValidateDNS_def map_add_None prefix_errs_def has_prefix_def)

lemma tunnel_err: "ValidateDNS c (''DNSTunneling.'' @ k) = None \<longleftrightarrow> validateDNSTunneling (Tunneling c) k = None"
  by (auto simp: ValidateDNS_def map_add_None prefix_errs_def has_prefix_def)

lemmas resolver_errs =
  resolver_err [of _ "''Workers''", simplified] resolver_err [of _ "''Domain''", simplified] resolver_err [of _ "''Port''", simplified]
  resolver_err [of _ "''Timeout''", simplified] resolver_err [of _ "''Tries''", simplified]
  resolver_err [of _ "''OutputPrefix''", simplified] resolver_err [of _ "''DPI.Timeout''", simplified]
  resolver_err [of _ "''DPI.Tries''", simplified]

lemmas tunnel_errs =
  tunnel_err [of _ "''Workers''", simplified] tunnel_err [of _ "''Tries''", simplified] tunnel_err [of _ "''Timeout''", simplified]
  tunnel_err [of _ "''OutputPrefix''", simplified]

lemmas dns_simps =
  ValidateDNS_empty resolver_errs tunnel_errs errs_simps validateResolver_def validateDNSTunneling_def
  res_upd_def tun_upd_def dpi_upd_def dpi_tries_def dpi_timeout_def

lemma keeps_transport:
  "keeps_valid (\<lambda>c. ValidateDNS c = Map.empty) (\<lambda>c. c) (selectInput [''udp'', ''tcp'', ''dot''] (\<lambda>s c. True) transport_submit)"
proof (rule keeps_selects(3))
  fix x s b s'
  assume s: "ValidateDNS s = Map.empty" and x: "x \<in> set [''udp'', ''tcp'', ''dot'']" and st: "transport_submit x s = Stored b s'"
  have p: "checkUint16 853 MinDNSResolverPort MaxDNSResolverPort = None" "checkUint16 53 MinDNSResolverPort MaxDNSResolverPort = None"
    by code_simp+
  from s st p option_checks(3) [OF x] show "ValidateDNS s' = Map.empty \<and> (\<not> b \<longrightarrow> s' = s)"
    by (auto simp: transport_submit_def dns_simps split: if_splits)
qed

interpretation dns_inspector: inspector_fields "\<lambda>c. ValidateDNS c = Map.empty" "\<lambda>c. c" dns_fields
proof (unfold_locales, unfold dns_fields_def fields_simps, intro conjI keeps_transport keeps_inputs keeps_selects TrueI)
  show "keeps_valid (\<lambda>c. ValidateDNS c = Map.empty) (\<lambda>c. c)
      (intInput (\<lambda>s t. True) (\<lambda>n. res_upd (\<lambda>r. r\<lparr>EDNSBufSize := word_of_int n\<rparr>)))"
    unfolding intInput_def by (rule keeps_text) (auto simp: dns_simps split: option.splits)
qed (auto simp: dns_simps picked_def checkStringSlice_def)

lemma group_codes_valid: "c \<in> set (statusGroups g) \<Longrightarrow> isValidHTTPStatusCode c"
proof -
  have "list_all (\<lambda>g. list_all isValidHTTPStatusCode (statusGroups g)) groupOrder" by code_simp
  moreover have "statusGroups g = []" if "g \<notin> set groupOrder" using that by (auto simp: statusGroups_def groupOrder_def)
  ultimately show "c \<in> set (statusGroups g) \<Longrightarrow> isValidHTTPStatusCode c"
    by (cases "g \<in> set groupOrder") (auto simp: list_all_iff)
qed

lemma codes_from_groups_valid: "checkStatusCodes (codesFromGroups gs) = None"
  using group_codes_valid by (auto simp: checkStatusCodes_def codesFromGroups_def list_ex_iff)

lemma tls_errs_kept:
  "fst (tls_errs c) = None \<Longrightarrow> snd (tls_errs c) = None \<Longrightarrow> fst (tls_errs (c\<lparr>MinTLSVersion := v\<rparr>)) = None
     \<Longrightarrow> snd (tls_errs (c\<lparr>MinTLSVersion := v\<rparr>)) = None"
  "fst (tls_errs c) = None \<Longrightarrow> snd (tls_errs c) = None \<Longrightarrow> snd (tls_errs (c\<lparr>MaxTLSVersion := v\<rparr>)) = None
     \<Longrightarrow> fst (tls_errs (c\<lparr>MaxTLSVersion := v\<rparr>)) = None"
  by (auto simp: tls_errs_def Let_def split: if_splits option.splits)

lemma tls_errs_same [simp]:
  "tls_errs (c\<lparr>HttpWorkers := x0\<rparr>) = tls_errs c"
  "tls_errs (c\<lparr>Host := x1\<rparr>) = tls_errs c"
  "tls_errs (c\<lparr>ServerName := x2\<rparr>) = tls_errs c"
  "tls_errs (c\<lparr>HttpPort := x3\<rparr>) = tls_errs c"
  "tls_errs (c\<lparr>Protocol := x4\<rparr>) = tls_errs c"
  "tls_errs (c\<lparr>HttpVersion := x5\<rparr>) = tls_errs c"
  "tls_errs (c\<lparr>Fingerprint := x6\<rparr>) = tls_errs c"
  "tls_errs (c\<lparr>TLSValidation := x7\<rparr>) = tls_errs c"
  "tls_errs (c\<lparr>HttpTimeout := x8\<rparr>) = tls_errs c"
  "tls_errs (c\<lparr>HttpPrefix := x9\<rparr>) = tls_errs c"
  "tls_errs (c\<lparr>AcceptedStatusCodes := x10\<rparr>) = tls_errs c"
  by (simp_all add: tls_errs_def Let_def)

lemmas http_simps = errs_simps ValidateHTTP_def hs_upd_def

lemma keeps_groups:
  "keeps_valid (\<lambda>s. ValidateHTTP hostname (hs_cfg s) = Map.empty) hs_cfg (multiselectInput groupOrder groups_submit)"
  by (rule keeps_selects(4)) (auto simp: groups_submit_def Let_def http_simps codes_from_groups_valid split: if_splits)

lemma keeps_codes:
  "keeps_valid (\<lambda>s. ValidateHTTP hostname (hs_cfg s) = Map.empty) hs_cfg (codesInput (statusGroups g) (codes_submit g))"
proof (rule keeps_selects(5))
  fix ps :: "int list" and s b s'
  assume s: "ValidateHTTP hostname (hs_cfg s) = Map.empty" and p: "picked (statusGroups g) ps" and st: "codes_submit g ps s = Stored b s'"
  have "set ps \<subseteq> set (statusGroups g)" using p unfolding picked_def by (metis filter_is_subset)
  moreover have "checkStatusCodes (AcceptedStatusCodes (hs_cfg s)) = None" using s by (simp add: http_simps)
  ultimately have "checkStatusCodes (filterCodesByActiveGroups (AcceptedStatusCodes (hs_cfg s)) (hs_groups s) @ ps) = None"
    using group_codes_valid by (auto simp: checkStatusCodes_def list_ex_iff filterCodesByActiveGroups_def split: if_splits)
  with s st show "ValidateHTTP hostname (hs_cfg s') = Map.empty \<and> (\<not> b \<longrightarrow> hs_cfg s' = hs_cfg s)"
    by (auto simp: codes_submit_def Let_def http_simps split: if_splits)
qed

lemma fingerprint_listed: "v \<in> set utlsLabels \<Longrightarrow> ValidFingerprint v"
  by (auto simp: ValidFingerprint_iff equal_fold_def)

interpretation http_inspector: inspector_fields "\<lambda>s. ValidateHTTP hostname (hs_cfg s) = Map.empty" hs_cfg "http_fields hostname" for hostname
proof (unfold_locales, unfold http_fields_def Let_def list_all_append list.pred_map comp_def fields_simps groupOrder_def,
    intro conjI keeps_groups [unfolded groupOrder_def] keeps_codes keeps_inputs keeps_selects TrueI)
qed (auto simp: http_simps string_valid_def option_checks tls_errs_kept fingerprint_listed)

subsection \<open>Edited settings are well-formed and are those of the next start\<close>

definition config_accepted :: "(string \<Rightarrow> string option) \<Rightarrow> ScannerConfig \<Rightarrow> bool" where
  "config_accepted hostname c \<longleftrightarrow>
     ValidateAll hostname c =
       \<lparr>EGeneral = Map.empty, EWriter = Map.empty, EICMP = Map.empty, ETCP = Map.empty, EHTTP = Map.empty, EXray = Map.empty,
        EDNS = Map.empty\<rparr>"

lemma config_accepted_iff:
  "config_accepted hostname c \<longleftrightarrow>
     ValidateGeneral (General c) = Map.empty \<and> ValidateWriter (Writer c) = Map.empty \<and> ValidateICMP (ICMP c) = Map.empty
     \<and> ValidateTCP (TCP c) = Map.empty \<and> ValidateHTTP hostname (HTTP c) = Map.empty \<and> ValidateXray (Xray c) = Map.empty
     \<and> ValidateDNS (DNS c) = Map.empty"
  by (simp add: config_accepted_def ValidateAll_def)

lemma keep_sectionE:
  assumes "keep_section out put sav es = (es', ops)"
  obtains "es' = es" "ops = []" | b s where "out = Stored b s" "es' = put s" "ops = (if b then [sav s] else [])"
  using assms by (auto simp: keep_section_def split: outcome.splits)

lemma edit_run_ok:
  assumes v: "config_accepted hostname (es_config es)" and r: "edit_run hostname e es = (es', ops)"
  shows "config_accepted hostname (es_config es') \<and> es_config es' = fold set_section ops (es_config es)"
proof -
  note valid = v [unfolded config_accepted_iff]
  show ?thesis
  proof (cases e)
    case (EditGeneral i x)
    with r have "keep_section (field_run general_fields i x (General (es_config es)))
        (\<lambda>s. es\<lparr>es_config := (es_config es)\<lparr>General := s\<rparr>\<rparr>) OpGeneral es = (es', ops)" by (simp add: edit_run_def Let_def)
    then show ?thesis
      using valid general_inspector.run_keeps [of "General (es_config es)" i x] by (cases rule: keep_sectionE) (auto simp: config_accepted_iff)
  next
    case (EditWriter i x)
    with r have "keep_section (field_run writer_fields i x (Writer (es_config es)))
        (\<lambda>s. es\<lparr>es_config := (es_config es)\<lparr>Writer := s\<rparr>\<rparr>) OpWriter es = (es', ops)" by (simp add: edit_run_def Let_def)
    then show ?thesis
      using valid writer_inspector.run_keeps [of "Writer (es_config es)" i x] by (cases rule: keep_sectionE) (auto simp: config_accepted_iff)
  next
    case (EditTCP i x)
    with r have "keep_section (field_run tcp_fields i x (TCP (es_config es)))
        (\<lambda>s. es\<lparr>es_config := (es_config es)\<lparr>TCP := s\<rparr>\<rparr>) OpTCP es = (es', ops)" by (simp add: edit_run_def Let_def)
    then show ?thesis
      using valid tcp_inspector.run_keeps [of "TCP (es_config es)" i x] by (cases rule: keep_sectionE) (auto simp: config_accepted_iff)
  next
    case (EditICMP i x)
    with r have "keep_section (field_run icmp_fields i x (ICMP (es_config es)))
        (\<lambda>s. es\<lparr>es_config := (es_config es)\<lparr>ICMP := s\<rparr>\<rparr>) OpICMP es = (es', ops)" by (simp add: edit_run_def Let_def)
    then show ?thesis
      using valid icmp_inspector.run_keeps [of "ICMP (es_config es)" i x] by (cases rule: keep_sectionE) (auto simp: config_accepted_iff)
  next
    case OpenHTTP
    with r v show ?thesis by (auto simp: edit_run_def Let_def)
  next
    case (EditHTTP i x)
    with r have "keep_section (field_run (http_fields hostname) i x (http_view es))
        (\<lambda>h. \<lparr>es_config = (es_config es)\<lparr>HTTP := hs_cfg h\<rparr>, es_groups = hs_groups h, es_specific = hs_specific h\<rparr>)
        (\<lambda>h. OpHTTP (hs_cfg h)) es = (es', ops)" by (simp add: edit_run_def Let_def)
    then show ?thesis
      using valid http_inspector.run_keeps [of hostname "http_view es" i x]
      by (cases rule: keep_sectionE) (auto simp: config_accepted_iff http_view_def)
  next
    case (EditXray i x)
    with r have "keep_section (field_run xray_fields i x (Xray (es_config es)))
        (\<lambda>s. es\<lparr>es_config := (es_config es)\<lparr>Xray := s\<rparr>\<rparr>) OpXray es = (es', ops)" by (simp add: edit_run_def Let_def)
    then show ?thesis
      using valid xray_inspector.run_keeps [of "Xray (es_config es)" i x] by (cases rule: keep_sectionE) (auto simp: config_accepted_iff)
  next
    case (EditDNS i x)
    with r have "keep_section (field_run dns_fields i x (DNS (es_config es)))
        (\<lambda>s. es\<lparr>es_config := (es_config es)\<lparr>DNS := s\<rparr>\<rparr>) OpDNS es = (es', ops)" by (simp add: edit_run_def Let_def)
    then show ?thesis
      using valid dns_inspector.run_keeps [of "DNS (es_config es)" i x] by (cases rule: keep_sectionE) (auto simp: config_accepted_iff)
  qed
qed

lemma edits_run_ok:
  "config_accepted hostname (es_config es) \<Longrightarrow> edits_run hostname xs es = (es', ops) \<Longrightarrow>
     config_accepted hostname (es_config es') \<and> es_config es' = fold set_section ops (es_config es)"
proof (induction xs arbitrary: es es' ops)
  case (Cons e xs)
  obtain es1 ops1 es2 ops2 where s: "edit_run hostname e es = (es1, ops1)" "edits_run hostname xs es1 = (es2, ops2)"
    by (metis surj_pair)
  with Cons.prems(2) have "es' = es2" "ops = ops1 @ ops2" by simp_all
  moreover have "config_accepted hostname (es_config es1)" "es_config es1 = fold set_section ops1 (es_config es)"
    using edit_run_ok [OF Cons.prems(1) s(1)] by blast+
  ultimately show ?case using Cons.IH [OF _ s(2)] by (metis comp_apply fold_append)
qed simp

text \<open>C40. Whatever the user submits in the inspectors, in any order, settings that the strict validator accepts stay accepted, and
  when the saves work the next start reads back exactly the settings of the session.\<close>
theorem edited_settings_valid_and_kept:
  assumes "codecs_ok cds" and "proper_dir (ss_dir st)" and "store_Load cds env st pf tr d = (Inr c, d1)"
    and "config_accepted hostname c" and "edits_run hostname xs (new_edit_session c) = (es, ops)"
    and "saves_run cds env st ops d1 = (None, d2)"
  shows "config_accepted hostname (es_config es) \<and> store_Load cds env st pf' tr' d2 = (Inr (es_config es), d2)"
proof -
  have "config_accepted hostname (es_config es) \<and> es_config es = fold set_section ops c"
    using edits_run_ok [OF _ assms(5), unfolded new_edit_session_def edit_session.select_convs, OF assms(4)] .
  with Load_holds [OF saves_hold [OF assms(1,2) Load_Inr(1) [OF assms(1,3)] assms(6)]] show ?thesis by metis
qed

lemma demo_valid: "config_accepted parse_host (default_settings Desktop Low)"
proof -
  show ?thesis
    unfolding config_accepted_iff default_settings_def ScannerConfig.select_convs
      ValidateGeneral_def ValidateWriter_def ValidateTCP_def ValidateICMP_def ValidateHTTP_def ValidateXray_def ValidateDNS_empty
      validateResolver_def validateDNSTunneling_def collect_errs_empty
    by code_simp
qed

lemma demo_texts: "trim_space '' 8443 '' = ''8443''" "trim_space ''70000'' = ''70000''" "atoi ''8443'' = Some 8443" "atoi ''70000'' = Some 70000"
  by (code_simp, code_simp) (simp_all add: atoi_def dec_val_def is_digit_def digit_val_def in_int64_def)

lemma demo_tcp_edits:
  "field_run tcp_fields 1 (Text '' 8443 '') c = Stored True (c\<lparr>TcpPort := 8443\<rparr>)"
  "field_run tcp_fields 1 (Text ''70000'') c = Rejected"
  by (simp_all add: field_run_def tcp_fields_def int_field_def intInput_def textinput_submit_def int_valid_def demo_texts
      ValidateTCP_def collect_errs_None checkInt_def cfg_limits)

lemma demo_dns_edit:
  "Transport (Resolver c) = ''udp'' \<Longrightarrow> field_run dns_fields 1 (Choice ''dot'') c
     = Stored True (res_upd (\<lambda>r. r\<lparr>Transport := ''dot'', ResPort := 853\<rparr>) c)"
  by (simp add: field_run_def dns_fields_def selectInput_def transport_submit_def)

definition demo_edits :: "edit list" where
  "demo_edits = [EditTCP 1 (Text '' 8443 ''), EditTCP 1 (Text ''70000''), EditDNS 1 (Choice ''dot'')]"

definition demo_edited :: "ScannerConfig \<Rightarrow> ScannerConfig" where
  "demo_edited c = c\<lparr>TCP := (TCP c)\<lparr>TcpPort := 8443\<rparr>, DNS := res_upd (\<lambda>r. r\<lparr>Transport := ''dot'', ResPort := 853\<rparr>) (DNS c)\<rparr>"

lemma demo_edit_steps:
  "edit_run hostname (EditTCP 1 (Text '' 8443 '')) es
     = (es\<lparr>es_config := (es_config es)\<lparr>TCP := (TCP (es_config es))\<lparr>TcpPort := 8443\<rparr>\<rparr>\<rparr>, [OpTCP ((TCP (es_config es))\<lparr>TcpPort := 8443\<rparr>)])"
  "edit_run hostname (EditTCP 1 (Text ''70000'')) es = (es, [])"
  "Transport (Resolver (DNS (es_config es))) = ''udp'' \<Longrightarrow> edit_run hostname (EditDNS 1 (Choice ''dot'')) es
     = (es\<lparr>es_config := (es_config es)\<lparr>DNS := res_upd (\<lambda>r. r\<lparr>Transport := ''dot'', ResPort := 853\<rparr>) (DNS (es_config es))\<rparr>\<rparr>,
        [OpDNS (res_upd (\<lambda>r. r\<lparr>Transport := ''dot'', ResPort := 853\<rparr>) (DNS (es_config es)))])"
  by (simp_all only: edit_run_def Let_def edit.case demo_tcp_edits demo_dns_edit keep_section_def outcome.case if_True)

lemma demo_edits_run:
  assumes "Transport (Resolver (DNS c)) = ''udp''"
  shows "edits_run hostname demo_edits (new_edit_session c)
    = ((new_edit_session c)\<lparr>es_config := demo_edited c\<rparr>, [OpTCP (TCP (demo_edited c)), OpDNS (DNS (demo_edited c))])"
proof -
  let ?c1 = "c\<lparr>TCP := (TCP c)\<lparr>TcpPort := 8443\<rparr>\<rparr>"
  let ?e0 = "new_edit_session c" let ?e1 = "?e0\<lparr>es_config := ?c1\<rparr>"
  have "es_config ?e0 = c" by (simp add: new_edit_session_def)
  then have 1: "edit_run hostname (EditTCP 1 (Text '' 8443 '')) ?e0 = (?e1, [OpTCP (TCP ?c1)])"
    by (simp add: demo_edit_steps(1) del: One_nat_def)
  have "es_config ?e1 = ?c1" "Transport (Resolver (DNS ?c1)) = ''udp''" using assms by simp_all
  then have 2: "edit_run hostname (EditDNS 1 (Choice ''dot'')) ?e1
      = (?e1\<lparr>es_config := demo_edited c\<rparr>, [OpDNS (DNS (demo_edited c))])"
    by (simp add: demo_edit_steps(3) demo_edited_def del: One_nat_def)
  show ?thesis
    by (simp only: demo_edits_def edits_run.simps 1 demo_edit_steps(2) 2 prod.case append_Nil append_Cons)
      (simp add: demo_edited_def)
qed

text \<open>Two values are stored, one is refused, and the transport brings its port.\<close>

lemma edited_settings_valid_and_kept_witness:
  "let c = default_settings Desktop Low; d1 = snd (store_Load plain_codecs good_disk demo_store Desktop Low Map.empty)
   in \<exists>ops d2. edits_run parse_host demo_edits (new_edit_session c) = ((new_edit_session c)\<lparr>es_config := demo_edited c\<rparr>, ops)
      \<and> saves_run plain_codecs good_disk demo_store ops d1 = (None, d2)
      \<and> config_accepted parse_host (demo_edited c) \<and> store_Load plain_codecs good_disk demo_store Server High d2 = (Inr (demo_edited c), d2)"
proof -
  let ?c = "default_settings Desktop Low"
  let ?ops = "[OpTCP (TCP (demo_edited ?c)), OpDNS (DNS (demo_edited ?c))]"
  let ?d1 = "snd (store_Load plain_codecs good_disk demo_store Desktop Low Map.empty)"
  let ?r = "saves_run plain_codecs good_disk demo_store ?ops ?d1"
  have "Transport (Resolver (DNS ?c)) = ''udp''" by (simp add: default_settings_def cfg_defs)
  then have run: "edits_run parse_host demo_edits (new_edit_session ?c) = ((new_edit_session ?c)\<lparr>es_config := demo_edited ?c\<rparr>, ?ops)"
    by (rule demo_edits_run)
  have l: "store_Load plain_codecs good_disk demo_store Desktop Low Map.empty = (Inr ?c, ?d1)"
    by (simp add: first_Load prod_eq_iff)
  have "fst ?r = None"
    by (simp add: save_defs saveTOML_def WriteTOMLFile_def good_disk_def split: prod.split)
  then have s: "?r = (None, snd ?r)" by (simp add: prod_eq_iff)
  from edited_settings_valid_and_kept [OF plain_codecs_ok demo_store_dir l demo_valid run s, of Server High] run s
  show ?thesis unfolding Let_def by (intro exI [of _ ?ops] exI [of _ "snd ?r"]) (simp del: saves_run.simps)
qed

subsection \<open>Two inputs that do not do what they say\<close>

text \<open>The size of the EDNS buffer is not checked and wraps around; a code that is deselected stays accepted, and those that are
  selected are listed twice.\<close>

lemma edns_buffer_wraps:
  assumes "atoi (trim_space t) = Some n"
  shows "field_run dns_fields 5 (Text t) c = Stored True (res_upd (\<lambda>r. r\<lparr>EDNSBufSize := word_of_int n\<rparr>) c)"
  using assms by (simp add: field_run_def dns_fields_def intInput_def textinput_submit_def Let_def)

lemma deselected_code_stays:
  assumes "g \<in> set groupOrder" and "g \<in> set (hs_groups s)" and "code \<in> set (statusGroups g)" and "code \<in> set (AcceptedStatusCodes (hs_cfg s))"
    and "codes_submit g sel s = Stored b s'"
  shows "code \<in> set (AcceptedStatusCodes (hs_cfg s'))"
  using assms by (auto simp: codes_submit_def Let_def hs_upd_def filterCodesByActiveGroups_def list_ex_iff)

end
