(* ===== verification/Spec2Isabelle.thy ===== *)
theory Spec2Isabelle
  imports FileSort IPLoader ShuffleCorrect ScanErrors PoolCorrect ResultWriter ResultCodecs ProbeCorrect
    ScannerLife Socks TunnelProbe ICMPSocket XrayJson XrayOutbound XrayProbe
    MenuModel TableModel HttpProbe ResultFiles FileRegistry LiveResults CrudModel DialogStack
    Startup SettingsEdit
begin

text \<open>
  A model of bgscan, a scanner that probes lists of addresses (ICMP, TCP, HTTP, Xray, DNS resolvers and
  tunnels through DNS resolvers) and keeps the best results in CSV files.

  \<^bold>\<open>How the program works.\<close> The menu of the terminal interface builds a scanner
  (\<open>internal/core/scanner\<close>) from the settings (\<open>internal/core/config\<close>), which are first repaired by
  \<open>validate.NormalizeAll\<close>, and from a tunnel configuration (\<open>internal/core/dns\<close>) where the scan needs
  one. The scanner hands a chain of one or two stages to the engine (\<open>internal/core/scanner/engine\<close>). The
  engine streams the active addresses of the list (\<open>internal/core/iplist\<close>), in order or shuffled, into
  the first stage; every stage is a pool of workers that probe an address (\<open>internal/core/scanner/probe\<close>),
  pass the successes on and hand their results to a writer (\<open>internal/core/result\<close>), which merges them
  in batches into a file sorted by score. Ports of tunnels come from a pool
  (\<open>internal/core/scanner/portmgr\<close>); a pause controller stops and resumes all workers.

  \<^bold>\<open>Theories and sources.\<close>

  \<^item> \<open>Prelude\<close>, \<open>Transitions\<close>, \<open>NetAddr\<close>: integers of 64 bits, strings as the standard library reads
    them, addresses and prefixes, reachability; shared by all others.
  \<^item> \<open>PortManager\<close> (\<open>portmgr.go\<close>), \<open>PauseControl\<close> (\<open>engine/pause.go\<close>): the operations one after
    another, and step relations in which callers interleave.
  \<^item> \<open>FileSort\<close> (\<open>fileutil/sort.go\<close>): sorting in memory and by merging sorted chunks.
  \<^item> \<open>IPEntry\<close>, \<open>IPLoader\<close>, \<open>IPStream\<close>, \<open>IPShuffle\<close>, with \<open>FullPeriod\<close> and \<open>ShuffleCorrect\<close>
    (\<open>internal/core/iplist\<close>, \<open>fileutil/csv.go\<close>, \<open>netutil/ip.go\<close>): entries, both strategies of the
    import, the sequential stream and the shuffled one with its index and its generator.
  \<^item> \<open>ScanErrors\<close> (\<open>probe/errors.go\<close>), \<open>StageExec\<close> and \<open>PoolCorrect\<close> (\<open>engine/stage.go\<close>,
    \<open>engine/worker.go\<close>), \<open>Pipeline\<close> (\<open>engine/chain.go\<close>): errors and their statistics, a stage and its
    pool of workers as a step relation, the three modes of a chain and how it ends.
  \<^item> \<open>ResultMerge\<close> (\<open>result/merger.go\<close>), \<open>ResultWriter\<close> (\<open>result/manager.go\<close>), \<open>ResultRecords\<close>,
    \<open>RecordText\<close> and \<open>ResultCodecs\<close> (\<open>probe/*/result.go\<close>, \<open>result/format.go\<close>): the merge, the
    writer with its goroutine, and the texts of the records.
  \<^item> \<open>ConfigModel\<close>, \<open>ConfigValidate\<close>, \<open>ConfigCorrect\<close> (\<open>internal/core/config\<close> and its
    \<open>validate\<close>): settings, defaults of each platform and tier, checks and repairs.
  \<^item> \<open>DNSProbe\<close> and \<open>ProbeCorrect\<close> (\<open>dns/query.go\<close>, \<open>dns/types.go\<close>, \<open>tcpprobe/tcp.go\<close>,
    \<open>icmpprobe/icmp.go\<close>, \<open>resolveprobe/resolve.go\<close>): DNS queries and the tries of three probes.
  \<^item> \<open>TunnelConfig\<close>, \<open>TunnelCorrect\<close> (\<open>dns/dnstt.go\<close> to \<open>dns/thefeed.go\<close>, \<open>dns/validate.go\<close>,
    \<open>dns/embedded.go\<close>): the six tunnel protocols, from their settings to what reaches their
    libraries; \<open>TunnelStore\<close> (\<open>dns/store.go\<close>): the directories of their configurations.
  \<^item> \<open>ScanBuilder\<close> (\<open>scanner/stagebuilder.go\<close>), \<open>ScanSetup\<close> and \<open>ScannerLife\<close>
    (\<open>scanner/scanner.go\<close>, the scan menu \<open>scantype/model.go\<close>): the stages of every kind of scan, what
    the engine is given, and the life of a scanner whose \<open>Run\<close> and \<open>Close\<close> interleave.
  \<^item> \<open>ICMPSocket\<close> (\<open>icmpprobe/socket.go\<close>, \<open>icmpprobe/icmp.go\<close>): the echo sockets, their replies and the
    fall back between kinds of socket.
  \<^item> \<open>Socks\<close> (\<open>core/socks\<close>) and \<open>TunnelProbe\<close> (\<open>probe/dnstunprobe\<close>, \<open>core/ssh\<close>): the bytes of the SOCKS5
    client, and the probes that start a tunnel, lease a port and test the connection through it.
  \<^item> \<open>XrayJson\<close>, \<open>XrayOutbound\<close>, \<open>XrayProbe\<close> (\<open>core/xray\<close>, \<open>core/speedtest\<close>, \<open>probe/xrayprobe\<close>): the
    stored templates, how a template receives an address, and the probe through the Xray core.
  \<^item> \<open>KeyBindings\<close>, \<open>KeyDefaults\<close> (\<open>internal/ui/shared/keys\<close>): the key map of the interface and the
    orders in which the screens consult it; \<open>MenuModel\<close> (\<open>components/basic/menu\<close>, \<open>components/menus\<close>):
    the menus; \<open>StableSort\<close> (the stable sort of the standard library) and \<open>TableModel\<close>
    (\<open>components/basic/table\<close>): the tables with their filter and sort.
  \<^item> \<open>NetHost\<close> (\<open>core/netutil\<close>) and \<open>HttpProbe\<close> (\<open>probe/httpprobe\<close>): hosts and URLs, and the HTTP probe
    with its standard, fingerprinting and HTTP/3 transports.
  \<^item> \<open>FilePaths\<close> (\<open>fileutil/path.go\<close>, \<open>fileutil/list.go\<close>), \<open>ResultFiles\<close> (\<open>result/registry.go\<close>,
    \<open>result/csv.go\<close>, \<open>result/loader.go\<close>, the schemas of the probes, \<open>core/core.go\<close>) and \<open>FileRegistry\<close>
    (\<open>iplist/registry.go\<close>, \<open>dns/registry.go\<close>): paths, the registry of schemas, the listing and reading of
    result files, the listings of address lists and tunnels.
  \<^item> \<open>LiveResults\<close> (\<open>engine/progress.go\<close>, \<open>components/scanner\<close>): the progress reports and the screen of
    a running scan, whose stages merge what the workers find; \<open>CrudModel\<close> (\<open>components/basic/crud\<close>,
    \<open>components/basic/confirm\<close>, \<open>components/tables\<close>, \<open>shared/validation\<close>): the tables of files with their
    verbs, the question before a deletion, the check of names.
  \<^item> \<open>ScreenStack\<close> (\<open>main/body\<close>, \<open>shared/anim\<close>) and \<open>DialogStack\<close> (\<open>main/app\<close>): the stack of screens with its
    transitions, the stack of dialogs, and the root of the message loop that routes every message.
  \<^item> \<open>SettingsStore\<close> (\<open>config/config.go\<close>, \<open>fileutil/toml.go\<close>), \<open>SettingsEdit\<close> (\<open>components/inspector\<close>,
    \<open>components/basic/input\<close>) and \<open>Startup\<close> (\<open>main/startup\<close>): the files of the settings, the inspectors that
    edit them, and the checks at the start with the goroutine that reports them to the screen.

  \<^bold>\<open>How the code is rendered.\<close> A Go struct is a record, an unsigned integer a word, an \<open>int\<close> an
  integer with \<open>wrap64\<close> where it can overflow. A method returns its error as an option or a sum
  (\<open>go_err\<close> is the list of sentinels that \<open>errors.Is\<close> finds), and its changed receiver. Goroutines are
  inductive step relations with one step per atomic operation; the properties of these are invariants
  over all reachable states. What lies outside the repository (dialling, the tunnel libraries, URL
  parsing, the disk) is an argument of the definitions that use it. Interfaces are locales,
  interpreted on the model: \<open>queue\<close>-like laws for the port pool, settings sections with their repair,
  the record codecs of nine schemas, the store of configurations.

  \<^bold>\<open>What is shown.\<close> Streams, sorting, import and merging compute what they should: a permutation of
  the active addresses, the sorted file, each prefix once, the best record of every key. Pools
  neither lose nor duplicate ports, addresses, results or slots however callers interleave. Settings are well-formed
  after normalisation, records survive a round trip up to the precision of their text, and the scan
  that the menu builds is one the engine need not correct. Where the code fails, a theorem states
  the failure on a concrete run: a port leased twice, a result accepted and lost, a record duplicated
  by a merge, a pause that panics, a \<open>Close\<close> that returns before the scan runs, a file deleted before the
  question is answered. In the interface, rows stay in step with their items, every dialog leaves once, and
  the live tables show the best results so far. Settings that are valid stay valid through every edit, the
  next start reads them back, and the workspace opens after the last check.

  \<^bold>\<open>Bounds.\<close> Loops are structural recursion or have a measure. The loop of \<open>PortManager.Get\<close> is a
  \<open>partial_function\<close>, proved to return. No fuel is used, except for the tries and steps that the code
  itself counts down.

  \<^bold>\<open>Not modelled.\<close> The forms, pickers and themes of the terminal interface and everything that
  draws, the logger, child processes, native libraries and temporary files: they contain no scanning
  logic. The TOML library is a codec of each section, and the disk a map from names to contents with an
  environment that says which operations fail. Floating point is rational arithmetic, with the rounding
  a parameter where the code relies on it.
\<close>

end
